(* ===== verification/GoPrelude.thy ===== *)
theory GoPrelude
  imports Main "HOL-Library.Sublist" "HOL-Library.Char_ord" "HOL-Library.List_Lexorder"
    "HOL-Library.Monad_Syntax"
begin

text \<open>
  Shared ground of the development: Go byte strings as \<open>string\<close> (a list of 8-bit characters, so
  \<open>length\<close> counts bytes as Go's \<open>len\<close> does and the order of \<open>List_Lexorder\<close> is Go's \<open><\<close> on
  strings), the functions of Go's \<open>strings\<close>, \<open>strconv\<close>, \<open>sort\<close> and \<open>path\<close> packages that the
  modelled code calls, and the two contracts several components share: an order-keeping line
  filter and a sorted duplicate-free listing.
\<close>

section \<open>Names and collections\<close>

type_synonym line = string
type_synonym ('e, 'a) result = "'e + 'a"

named_theorems go_simps "equations of the Go library functions the components share"

abbreviation tab :: string where "tab \<equiv> [CHR 0x09]"
abbreviation newline :: string where "newline \<equiv> [CHR 0x0A]"
abbreviation colon :: char where "colon \<equiv> CHR '':''"
abbreviation slash :: char where "slash \<equiv> CHR ''/''"

definition map_get :: "('k \<Rightarrow> string option) \<Rightarrow> 'k \<Rightarrow> string" where
  "map_get m k = (case m k of None \<Rightarrow> [] | Some v \<Rightarrow> v)"

lemma map_get_Some [simp]: "m k = Some v \<Longrightarrow> map_get m k = v"
  by (simp add: map_get_def)

lemma map_get_None [simp]: "m k = None \<Longrightarrow> map_get m k = []"
  by (simp add: map_get_def)

definition result_bind :: "('e, 'a) result \<Rightarrow> ('a \<Rightarrow> ('e, 'b) result) \<Rightarrow> ('e, 'b) result" where
  "result_bind r f = (case r of Inl e \<Rightarrow> Inl e | Inr a \<Rightarrow> f a)"

lemma result_bind_Inr_iff: "result_bind r f = Inr b \<longleftrightarrow> (\<exists>a. r = Inr a \<and> f a = Inr b)"
  by (cases r) (auto simp: result_bind_def)

lemma result_bind_simps [simp]: "result_bind (Inl e) f = Inl e" "result_bind (Inr a) f = f a"
  by (simp_all add: result_bind_def)

section \<open>Prefixes, suffixes and substrings\<close>

definition trim_prefix :: "string \<Rightarrow> string \<Rightarrow> string" where
  "trim_prefix s p = (if prefix p s then drop (length p) s else s)"

definition trim_suffix :: "string \<Rightarrow> string \<Rightarrow> string" where
  "trim_suffix s p = (if suffix p s then take (length s - length p) s else s)"

text \<open>\<open>strings.Index\<close>: the first position at which \<open>sub\<close> occurs, \<open>None\<close> for Go's -1.\<close>

fun str_index :: "string \<Rightarrow> string \<Rightarrow> nat option" where
  "str_index [] sub = (if sub = [] then Some 0 else None)"
| "str_index (c # s) sub =
     (if prefix sub (c # s) then Some 0 else map_option Suc (str_index s sub))"

definition str_contains :: "string \<Rightarrow> string \<Rightarrow> bool" where
  "str_contains s sub \<longleftrightarrow> str_index s sub \<noteq> None"

text \<open>\<open>strings.Cut\<close>: the parts around the first \<open>sep\<close>, \<open>None\<close> when it does not occur.\<close>

definition str_cut :: "string \<Rightarrow> string \<Rightarrow> (string \<times> string) option" where
  "str_cut s sep =
     (case str_index s sep of
        None \<Rightarrow> None
      | Some i \<Rightarrow> Some (take i s, drop (i + length sep) s))"

lemma trim_prefix_append [simp, go_simps]: "trim_prefix (p @ s) p = s"
  by (simp add: trim_prefix_def)

lemma trim_suffix_append [simp, go_simps]: "trim_suffix (s @ p) p = s"
  by (simp add: trim_suffix_def suffix_def)

lemma str_index_prefix: "prefix sub s \<Longrightarrow> str_index s sub = Some 0"
  by (cases s) auto

lemma str_index_Some:
  "str_index s sub = Some i \<Longrightarrow> i + length sub \<le> length s \<and> take (length sub) (drop i s) = sub"
proof (induction s arbitrary: i)
  case Nil
  then show ?case by (auto split: if_splits)
next
  case (Cons c s)
  show ?case
  proof (cases "prefix sub (c # s)")
    case True
    then have "length sub \<le> length (c # s)" "take (length sub) (c # s) = sub"
      by (use prefix_length_le [OF True] in simp) (use True in \<open>auto simp: prefix_def\<close>)
    with True Cons.prems show ?thesis by auto
  next
    case False
    with Cons.prems obtain j where "i = Suc j" "str_index s sub = Some j"
      by auto
    with Cons.IH show ?thesis by auto
  qed
qed

lemma str_index_absent:
  "c \<notin> set s \<Longrightarrow> str_index (s @ (c # q) @ t) (c # q) = Some (length s)"
  by (induction s) (auto simp: prefix_def)

lemma str_index_None_notin: "c \<notin> set s \<Longrightarrow> str_index s (c # q) = None"
  by (induction s) (auto simp: prefix_def)

lemma str_index_first_overlap:
  assumes "c \<notin> set q" "str_index s (c # q) = None"
  shows "str_index (s @ (c # q) @ r) (c # q) = Some (length s)"
  using assms(2)
proof (induction s)
  case (Cons x s)
  have "\<not> prefix (c # q) (x # s @ (c # q) @ r)"
  proof
    assume pre: "prefix (c # q) (x # s @ (c # q) @ r)"
    then have "x = c" "prefix q (s @ (c # q) @ r)" by auto
    then consider "prefix q s" | z where "q = s @ z" "prefix z ((c # q) @ r)"
      by (meson prefix_append)
    then show False
    proof cases
      case 1
      with Cons.prems \<open>x = c\<close> show False by auto
    next
      case 2
      show False
      proof (cases z)
        case Nil
        with 2 Cons.prems \<open>x = c\<close> show False by auto
      next
        case (Cons y ys)
        with 2 assms(1) show False by auto
      qed
    qed
  qed
  with Cons show ?case by (auto split: if_splits)
qed simp

lemma free_append_eq:
  "c \<notin> set u \<Longrightarrow> c \<notin> set u' \<Longrightarrow> u @ c # v = u' @ c # v' \<longleftrightarrow> u = u' \<and> v = v'"
proof (induction u arbitrary: u')
  case Nil
  then show ?case by (cases u') auto
next
  case (Cons x u)
  then show ?case by (cases u') auto
qed

section \<open>Splitting and joining\<close>

fun split_on :: "char \<Rightarrow> string \<Rightarrow> string list" where
  "split_on d [] = [[]]"
| "split_on d (c # s) =
     (if c = d then [] # split_on d s
      else (case split_on d s of [] \<Rightarrow> [[c]] | w # ws \<Rightarrow> (c # w) # ws))"

fun str_join :: "string \<Rightarrow> string list \<Rightarrow> string" where
  "str_join sep [] = []"
| "str_join sep [x] = x"
| "str_join sep (x # y # xs) = x @ sep @ str_join sep (y # xs)"

lemma split_on_nonempty [simp]: "split_on d s \<noteq> []"
  by (cases s) (auto split: list.splits)

lemma split_on_free: "d \<notin> set s \<Longrightarrow> split_on d s = [s]"
  by (induction s) auto

lemma split_on_append: "d \<notin> set s \<Longrightarrow> split_on d (s @ d # t) = s # split_on d t"
  by (induction s) auto

lemma split_on_parts_free: "w \<in> set (split_on d s) \<Longrightarrow> d \<notin> set w"
  by (induction s arbitrary: w) (auto split: list.splits if_splits)

lemma split_on_join:
  "xs \<noteq> [] \<Longrightarrow> (\<And>x. x \<in> set xs \<Longrightarrow> d \<notin> set x) \<Longrightarrow> split_on d (str_join [d] xs) = xs"
proof (induction "[d]" xs rule: str_join.induct)
  case (2 x)
  then show ?case by (simp add: split_on_free)
next
  case (3 x y xs)
  then show ?case by (simp add: split_on_append)
qed simp

lemma join_split_on: "str_join [d] (split_on d s) = s"
proof (induction s)
  case (Cons c s)
  obtain w ws where "split_on d s = w # ws"
    by (cases "split_on d s") auto
  with Cons show ?case by (cases ws) auto
qed simp

section \<open>White space: \<open>strings.Fields\<close> and \<open>strings.TrimSpace\<close>\<close>

text \<open>
  \<open>space_len s\<close> is the number of bytes of the white-space character (Go's \<open>unicode.IsSpace\<close>) that
  begins \<open>s\<close>, 0 when there is none. The non-ASCII ones are matched by their UTF-8 bytes; their
  lead bytes are never continuation bytes, so a match at any byte position is a decoded character.
\<close>

definition ascii_spaces :: string where
  "ascii_spaces = [CHR 0x09, CHR 0x0A, CHR 0x0B, CHR 0x0C, CHR 0x0D, CHR 0x20]"

definition wide_spaces :: "string list" where
  "wide_spaces =
    [[CHR 0xC2, CHR 0x85], [CHR 0xC2, CHR 0xA0], [CHR 0xE1, CHR 0x9A, CHR 0x80],
     [CHR 0xE2, CHR 0x80, CHR 0x80], [CHR 0xE2, CHR 0x80, CHR 0x81], [CHR 0xE2, CHR 0x80, CHR 0x82],
     [CHR 0xE2, CHR 0x80, CHR 0x83], [CHR 0xE2, CHR 0x80, CHR 0x84], [CHR 0xE2, CHR 0x80, CHR 0x85],
     [CHR 0xE2, CHR 0x80, CHR 0x86], [CHR 0xE2, CHR 0x80, CHR 0x87], [CHR 0xE2, CHR 0x80, CHR 0x88],
     [CHR 0xE2, CHR 0x80, CHR 0x89], [CHR 0xE2, CHR 0x80, CHR 0x8A], [CHR 0xE2, CHR 0x80, CHR 0xA8],
     [CHR 0xE2, CHR 0x80, CHR 0xA9], [CHR 0xE2, CHR 0x80, CHR 0xAF], [CHR 0xE2, CHR 0x81, CHR 0x9F],
     [CHR 0xE3, CHR 0x80, CHR 0x80]]"

definition wide_lead :: "char \<Rightarrow> bool" where
  "wide_lead c \<longleftrightarrow> c \<in> {CHR 0xC2, CHR 0xE1, CHR 0xE2, CHR 0xE3}"

definition space_len :: "string \<Rightarrow> nat" where
  "space_len s =
     (case s of
        [] \<Rightarrow> 0
      | c # _ \<Rightarrow>
          if c \<in> set ascii_spaces then 1
          else if \<not> wide_lead c then 0
          else (case find (\<lambda>w. prefix w s) wide_spaces of None \<Rightarrow> 0 | Some w \<Rightarrow> length w))"

definition plain_char :: "char \<Rightarrow> bool" where
  "plain_char c \<longleftrightarrow> c \<notin> set ascii_spaces \<and> \<not> wide_lead c"

lemma space_len_Nil [simp]: "space_len [] = 0"
  by (simp add: space_len_def)

lemma space_len_plain [simp]: "plain_char c \<Longrightarrow> space_len (c # s) = 0"
  by (simp add: space_len_def plain_char_def)

lemma space_len_ascii [simp]: "c \<in> set ascii_spaces \<Longrightarrow> space_len (c # s) = 1"
  by (simp add: space_len_def)

function (sequential) skip_space :: "string \<Rightarrow> string" where
  "skip_space s = (if space_len s = 0 then s else skip_space (drop (space_len s) s))"
  by pat_completeness auto
termination
proof (relation "measure length")
  fix s :: string
  assume "space_len s \<noteq> 0"
  then show "(drop (space_len s) s, s) \<in> measure length"
    by (cases s) auto
qed simp

declare skip_space.simps [simp del]

lemma skip_space_stop: "space_len s = 0 \<Longrightarrow> skip_space s = s"
  by (simp add: skip_space.simps)

lemma skip_space_Nil [simp]: "skip_space [] = []"
  by (simp add: skip_space_stop)

lemma skip_space_plain [simp]: "plain_char c \<Longrightarrow> skip_space (c # s) = c # s"
  by (simp add: skip_space_stop)

lemma skip_space_ascii [simp]: "c \<in> set ascii_spaces \<Longrightarrow> skip_space (c # s) = skip_space s"
  by (subst skip_space.simps) simp

lemma skip_space_length: "length (skip_space s) \<le> length s"
proof (induction s rule: skip_space.induct)
  case (1 s)
  then show ?case
    by (subst skip_space.simps) (auto intro: order_trans)
qed

lemma skip_space_no_space: "space_len (skip_space s) = 0"
  by (induction s rule: skip_space.induct) (subst skip_space.simps, simp)

text \<open>The bytes up to the next white-space character, and what follows them.\<close>

fun word_split :: "string \<Rightarrow> string \<times> string" where
  "word_split [] = ([], [])"
| "word_split (c # s) =
     (if space_len (c # s) > 0 then ([], c # s)
      else (let (w, r) = word_split s in (c # w, r)))"

lemma word_split_append: "word_split s = (w, r) \<Longrightarrow> s = w @ r"
  by (induction s arbitrary: w r) (auto split: if_splits prod.splits)

lemma word_split_plain:
  "(\<And>c. c \<in> set w \<Longrightarrow> plain_char c) \<Longrightarrow> r = [] \<or> space_len r > 0 \<Longrightarrow> word_split (w @ r) = (w, r)"
proof (induction w)
  case Nil
  then show ?case by (cases r) auto
next
  case (Cons c w)
  then show ?case by simp
qed

function (sequential) str_fields :: "string \<Rightarrow> string list" where
  "str_fields s =
     (case skip_space s of
        [] \<Rightarrow> []
      | c # t \<Rightarrow> (let (w, r) = word_split t in (c # w) # str_fields r))"
  by pat_completeness auto
termination
proof (relation "measure length")
  fix s c t x w r
  assume *: "skip_space s = c # t" "x = word_split t" "(w, r) = x"
  then have "t = w @ r" by (metis word_split_append)
  then have "length r < length (skip_space s)" using * by simp
  then show "(r, s) \<in> measure length"
    using skip_space_length [of s] by simp
qed simp

declare str_fields.simps [simp del]

lemma str_fields_Nil [simp]: "str_fields [] = []"
  by (simp add: str_fields.simps)

lemma str_fields_blank: "skip_space s = [] \<Longrightarrow> str_fields s = []"
  by (simp add: str_fields.simps)

lemma str_fields_word:
  assumes "w \<noteq> []" "\<And>c. c \<in> set w \<Longrightarrow> plain_char c" "r = [] \<or> space_len r > 0"
  shows "str_fields (w @ r) = w # str_fields r"
proof -
  obtain c w' where w: "w = c # w'" using assms(1) by (cases w) auto
  have "word_split (w' @ r) = (w', r)"
    using assms(2,3) w by (intro word_split_plain) auto
  then show ?thesis
    using assms(2) w by (subst str_fields.simps) simp
qed

lemma str_fields_skip: "c \<in> set ascii_spaces \<Longrightarrow> str_fields (c # s) = str_fields s"
  by (simp add: str_fields.simps)

text \<open>
  A word as \<open>strings.Fields\<close> returns it: no white-space character begins at any of its bytes. The
  non-ASCII spaces hold no ASCII byte, so a word stays one in front of an ASCII space.
\<close>

definition solid :: "string \<Rightarrow> bool" where
  "solid w \<longleftrightarrow> w \<noteq> [] \<and> (\<forall>u v. w = u @ v \<longrightarrow> v \<noteq> [] \<longrightarrow> space_len v = 0)"

lemma wide_spaces_high: "w \<in> set wide_spaces \<Longrightarrow> c \<in> set w \<Longrightarrow> c \<notin> set ascii_spaces"
  by (auto simp: wide_spaces_def ascii_spaces_def)

lemma find_prefix_None:
  "(case find (\<lambda>w. prefix w s) wide_spaces of None \<Rightarrow> 0 | Some w \<Rightarrow> length w) = 0 \<longleftrightarrow>
   (\<forall>w \<in> set wide_spaces. \<not> prefix w s)"
proof (cases "find (\<lambda>w. prefix w s) wide_spaces")
  case None
  then have "\<forall>w \<in> set wide_spaces. \<not> prefix w s" by (auto simp: find_None_iff)
  with None show ?thesis by simp
next
  case (Some w)
  then have "w \<in> set wide_spaces" "prefix w s" by (auto simp: find_Some_iff)
  moreover have "w \<noteq> []" using \<open>w \<in> set wide_spaces\<close> by (auto simp: wide_spaces_def)
  ultimately show ?thesis using Some by auto
qed

lemma space_len_0_iff:
  "space_len (c # s) = 0 \<longleftrightarrow>
     c \<notin> set ascii_spaces \<and> (wide_lead c \<longrightarrow> (\<forall>w \<in> set wide_spaces. \<not> prefix w (c # s)))"
  unfolding space_len_def using find_prefix_None [of "c # s"] by auto

lemma space_len_before_ascii:
  assumes "v \<noteq> []" "space_len v = 0" "r = [] \<or> hd r \<in> set ascii_spaces"
  shows "space_len (v @ r) = 0"
proof (cases r)
  case (Cons x xs)
  have "\<not> prefix w (v @ r)" if "w \<in> set wide_spaces" "\<not> prefix w v" for w
  proof
    assume "prefix w (v @ r)"
    then obtain z where "w = v @ z" "prefix z r" "z \<noteq> []"
      using \<open>\<not> prefix w v\<close> by (metis append_Nil2 prefix_append prefix_order.order_refl)
    then have "x \<in> set w" using Cons by (cases z) auto
    then show False
      using wide_spaces_high [OF \<open>w \<in> set wide_spaces\<close>] assms(3) Cons by auto
  qed
  with assms show ?thesis by (cases v) (auto simp: space_len_0_iff)
qed (use assms in simp)

lemma space_len_shorten: "space_len (v @ r) = 0 \<Longrightarrow> space_len v = 0"
  by (cases v) (auto simp: space_len_0_iff, metis append_Cons prefix_prefix)

lemma solid_plain:
  assumes "w \<noteq> []" "\<And>c. c \<in> set w \<Longrightarrow> plain_char c"
  shows "solid w"
proof -
  have "space_len v = 0" if split: "w = u @ v" and ne: "v \<noteq> []" for u v
  proof -
    obtain c v' where "v = c # v'" using ne by (cases v) auto
    moreover have "plain_char c" using assms(2) split calculation by simp
    ultimately show ?thesis by simp
  qed
  then show ?thesis using assms(1) by (simp add: solid_def)
qed

lemma word_split_tails:
  "word_split s = (w, r) \<Longrightarrow> w = u @ v \<Longrightarrow> v \<noteq> [] \<Longrightarrow> space_len v = 0"
proof (induction s arbitrary: w u)
  case (Cons c s)
  obtain w' r' where wr: "word_split s = (w', r')" by fastforce
  have zero: "space_len (c # s) = 0"
    using Cons.prems by (auto split: if_splits)
  with Cons.prems(1) wr have w: "w = c # w'" "r = r'" by auto
  show ?case
  proof (cases u)
    case Nil
    have "c # s = v @ r" using word_split_append [OF Cons.prems(1)] Nil Cons.prems(2) by simp
    with zero show ?thesis using space_len_shorten by metis
  next
    case (Cons x u')
    with w Cons.prems(2) have "w' = u' @ v" by simp
    with wr w Cons.IH Cons.prems(3) show ?thesis by blast
  qed
qed simp

lemma str_fields_solid: "w \<in> set (str_fields s) \<Longrightarrow> solid w"
proof (induction s rule: str_fields.induct)
  case (1 s)
  show ?case
  proof (cases "skip_space s")
    case Nil
    with 1 show ?thesis by (simp add: str_fields_blank)
  next
    case (Cons c t)
    obtain u r where ur: "word_split t = (u, r)" by fastforce
    have zero: "space_len (c # t) = 0" using skip_space_no_space [of s] Cons by simp
    then have "word_split (c # t) = (c # u, r)" using ur by simp
    then have "space_len v = 0" if "c # u = u' @ v" "v \<noteq> []" for u' v
      using that by (rule word_split_tails)
    then have "solid (c # u)" by (simp add: solid_def)
    moreover have "str_fields s = (c # u) # str_fields r"
      by (subst str_fields.simps) (simp add: Cons ur)
    ultimately show ?thesis using 1 Cons ur by auto
  qed
qed

lemma word_split_solid:
  assumes "\<And>u v. w = u @ v \<Longrightarrow> v \<noteq> [] \<Longrightarrow> space_len v = 0" "r = [] \<or> hd r \<in> set ascii_spaces"
  shows "word_split (w @ r) = (w, r)"
  using assms(1)
proof (induction w)
  case Nil
  then show ?case using assms(2) by (cases r) auto
next
  case (Cons c w)
  have "space_len ((c # w) @ r) = 0"
    using Cons.prems [of "[]" "c # w"] assms(2) by (intro space_len_before_ascii) auto
  moreover have "word_split (w @ r) = (w, r)"
    using Cons.prems by (intro Cons.IH) (metis append_Cons)
  ultimately show ?case by simp
qed

lemma str_fields_solid_word:
  assumes "solid w" "r = [] \<or> hd r \<in> set ascii_spaces"
  shows "str_fields (w @ r) = w # str_fields r"
proof -
  obtain c w' where w: "w = c # w'" using assms(1) by (cases w) (auto simp: solid_def)
  have "space_len (w @ r) = 0"
    using assms by (intro space_len_before_ascii) (auto simp: solid_def)
  then have "skip_space (w @ r) = w @ r" by (rule skip_space_stop)
  moreover have "word_split (w' @ r) = (w', r)"
  proof (rule word_split_solid)
    fix u v assume "w' = u @ v" "v \<noteq> []"
    then have "w = (c # u) @ v" using w by simp
    then show "space_len v = 0" using assms(1) \<open>v \<noteq> []\<close> unfolding solid_def by blast
  qed (rule assms(2))
  ultimately show ?thesis
    using w by (subst str_fields.simps) simp
qed

lemma solid_append_plain:
  assumes "\<And>c. c \<in> set p \<Longrightarrow> plain_char c" "p \<noteq> []" "w = [] \<or> solid w"
  shows "solid (p @ w)"
proof -
  have "space_len v = 0" if split: "p @ w = u @ v" and ne: "v \<noteq> []" for u v
  proof -
    from split consider z where "p = u @ z" "v = z @ w" "z \<noteq> []" | z where "w = z @ v"
      by (metis append_eq_append_conv2 append_Nil append_Nil2)
    then show ?thesis
    proof cases
      case 1
      then have "plain_char (hd v)" using assms(1) by (cases z) auto
      then show ?thesis using ne by (cases v) auto
    next
      case 2
      then show ?thesis using assms(3) ne by (auto simp: solid_def)
    qed
  qed
  then show ?thesis using assms(2) by (auto simp: solid_def)
qed

lemma solid_drop: "solid w \<Longrightarrow> drop n w = [] \<or> solid (drop n w)"
  by (auto simp: solid_def) (metis append_assoc append_take_drop_id)

definition space_suffix_len :: "string \<Rightarrow> nat" where
  "space_suffix_len s =
     (if s \<noteq> [] \<and> last s \<in> set ascii_spaces then 1
      else (case find (\<lambda>w. suffix w s) wide_spaces of None \<Rightarrow> 0 | Some w \<Rightarrow> length w))"

function (sequential) skip_space_right :: "string \<Rightarrow> string" where
  "skip_space_right s =
     (if space_suffix_len s = 0 \<or> s = [] then s
      else skip_space_right (take (length s - space_suffix_len s) s))"
  by pat_completeness auto
termination by (relation "measure length") auto

declare skip_space_right.simps [simp del]

definition trim_space :: "string \<Rightarrow> string" where
  "trim_space s = skip_space_right (skip_space s)"

definition blank :: "string \<Rightarrow> bool" where
  "blank s \<longleftrightarrow> trim_space s = []"

lemma skip_space_right_Nil [simp]: "skip_space_right [] = []"
  by (simp add: skip_space_right.simps)

lemma trim_space_Nil [simp]: "trim_space [] = []"
  by (simp add: trim_space_def)

lemma blank_Nil [simp]: "blank []"
  by (simp add: blank_def)

section \<open>Cut sets, digits and decimal numbers\<close>

definition trim_left :: "string \<Rightarrow> string \<Rightarrow> string" where
  "trim_left s cutset = dropWhile (\<lambda>c. c \<in> set cutset) s"

definition trim_right :: "string \<Rightarrow> string \<Rightarrow> string" where
  "trim_right s cutset = rev (dropWhile (\<lambda>c. c \<in> set cutset) (rev s))"

definition is_digit :: "char \<Rightarrow> bool" where
  "is_digit c \<longleftrightarrow> 48 \<le> (of_char c :: nat) \<and> (of_char c :: nat) \<le> 57"

definition digit_val :: "char \<Rightarrow> nat" where
  "digit_val c = of_char c - 48"

definition digit_char :: "nat \<Rightarrow> char" where
  "digit_char n = char_of (n + 48)"

definition digits_val :: "string \<Rightarrow> nat" where
  "digits_val s = foldl (\<lambda>n c. 10 * n + digit_val c) 0 s"

definition all_digits :: "string \<Rightarrow> bool" where
  "all_digits s \<longleftrightarrow> s \<noteq> [] \<and> list_all is_digit s"

fun itoa_nat :: "nat \<Rightarrow> string" where
  "itoa_nat n = (if n < 10 then [digit_char n] else itoa_nat (n div 10) @ [digit_char (n mod 10)])"

declare itoa_nat.simps [simp del]

definition itoa :: "int \<Rightarrow> string" where
  "itoa n = (if n < 0 then CHR ''-'' # itoa_nat (nat (- n)) else itoa_nat (nat n))"

text \<open>Go's \<open>int\<close> on the supported targets is 64 bits wide.\<close>

definition max_int :: int where "max_int = 9223372036854775807"
definition min_int :: int where "min_int = - 9223372036854775808"

definition wrap_int :: "int \<Rightarrow> int" where
  "wrap_int n = (n - min_int) mod 18446744073709551616 + min_int"

text \<open>
  \<open>strconv.Atoi\<close>: an optional sign and at least one digit. \<open>atoi\<close> is \<open>None\<close> on a syntax or range
  error; \<open>atoi_value\<close> is the integer returned beside the error, which a caller that ignores the
  error uses: 0 on a syntax error, the nearest bound on a range error.
\<close>

definition decimal :: "string \<Rightarrow> int option" where
  "decimal s =
     (let (neg, body) =
        (case s of
           [] \<Rightarrow> (False, [])
         | c # r \<Rightarrow> if c = CHR ''-'' then (True, r) else if c = CHR ''+'' then (False, r) else (False, s))
      in if \<not> all_digits body then None
         else Some (if neg then - int (digits_val body) else int (digits_val body)))"

definition atoi :: "string \<Rightarrow> int option" where
  "atoi s =
     (case decimal s of
        None \<Rightarrow> None
      | Some v \<Rightarrow> if min_int \<le> v \<and> v \<le> max_int then Some v else None)"

definition atoi_value :: "string \<Rightarrow> int" where
  "atoi_value s = (case decimal s of None \<Rightarrow> 0 | Some v \<Rightarrow> max min_int (min max_int v))"

lemma wrap_int_id: "min_int \<le> n \<Longrightarrow> n \<le> max_int \<Longrightarrow> wrap_int n = n"
  by (simp add: wrap_int_def min_int_def max_int_def)

lemma wrap_int_range: "min_int \<le> wrap_int n \<and> wrap_int n \<le> max_int"
proof -
  have "0 \<le> (n - min_int) mod 18446744073709551616"
    and "(n - min_int) mod 18446744073709551616 < 18446744073709551616"
    by simp_all
  then show ?thesis
    unfolding wrap_int_def min_int_def max_int_def by linarith
qed

lemma of_char_digit_char: "n < 10 \<Longrightarrow> (of_char (digit_char n) :: nat) = n + 48"
  by (simp add: digit_char_def of_char_of)

lemma is_digit_digit_char: "n < 10 \<Longrightarrow> is_digit (digit_char n)"
  by (simp add: is_digit_def of_char_digit_char)

lemma digit_val_digit_char: "n < 10 \<Longrightarrow> digit_val (digit_char n) = n"
  by (simp add: digit_val_def of_char_digit_char)

lemma digits_val_snoc: "digits_val (s @ [c]) = 10 * digits_val s + digit_val c"
  by (simp add: digits_val_def)

lemma all_digits_itoa_nat: "all_digits (itoa_nat n)"
proof (induction n rule: itoa_nat.induct)
  case (1 n)
  then show ?case
    by (subst itoa_nat.simps) (auto simp: all_digits_def is_digit_digit_char)
qed

lemma digits_val_itoa_nat: "digits_val (itoa_nat n) = n"
proof (induction n rule: itoa_nat.induct)
  case (1 n)
  show ?case
  proof (cases "n < 10")
    case True
    then show ?thesis
      by (subst itoa_nat.simps) (simp add: digits_val_def digit_val_digit_char)
  next
    case False
    with 1 show ?thesis
      by (subst itoa_nat.simps) (simp add: digits_val_snoc digit_val_digit_char)
  qed
qed

lemma is_digit_facts:
  assumes "is_digit c"
  shows "c \<noteq> colon" "c \<noteq> CHR '' ''" "c \<noteq> CHR ''-''" "c \<noteq> CHR ''+''" "c \<noteq> CHR '',''" "c \<noteq> slash"
    "c \<noteq> CHR ''.''" "c \<noteq> CHR 0x09" "c \<noteq> CHR 0x0A"
  using assms by (auto simp: is_digit_def)

lemma all_digits_D: "all_digits s \<Longrightarrow> c \<in> set s \<Longrightarrow> is_digit c"
  by (auto simp: all_digits_def list_all_iff)

lemma decimal_digits:
  assumes "all_digits s"
  shows "decimal s = Some (int (digits_val s))"
proof -
  obtain c r where cr: "s = c # r"
    using assms by (cases s) (auto simp: all_digits_def)
  then have "is_digit c" using assms by (auto simp: all_digits_def)
  then have "c \<noteq> CHR ''-''" "c \<noteq> CHR ''+''" by (auto dest: is_digit_facts)
  then show ?thesis using assms cr by (simp add: decimal_def)
qed

lemma decimal_itoa: "decimal (itoa n) = Some n"
proof (cases "n < 0")
  case True
  then show ?thesis
    using all_digits_itoa_nat [of "nat (- n)"] digits_val_itoa_nat [of "nat (- n)"]
    by (simp add: itoa_def decimal_def)
next
  case False
  then show ?thesis
    using decimal_digits [OF all_digits_itoa_nat [of "nat n"]] digits_val_itoa_nat [of "nat n"]
    by (simp add: itoa_def)
qed

lemma atoi_itoa: "min_int \<le> n \<Longrightarrow> n \<le> max_int \<Longrightarrow> atoi (itoa n) = Some n"
  by (simp add: atoi_def decimal_itoa)

lemma atoi_value_itoa: "min_int \<le> n \<Longrightarrow> n \<le> max_int \<Longrightarrow> atoi_value (itoa n) = n"
  by (simp add: atoi_value_def decimal_itoa)

lemma atoi_digits:
  "all_digits s \<Longrightarrow> int (digits_val s) \<le> max_int \<Longrightarrow> atoi s = Some (int (digits_val s))"
  by (simp add: atoi_def decimal_digits min_int_def)

lemma itoa_chars: "c \<in> set (itoa n) \<Longrightarrow> is_digit c \<or> c = CHR ''-''"
  using all_digits_itoa_nat by (auto simp: itoa_def dest: all_digits_D split: if_splits)

section \<open>Characters of a byte string\<close>

text \<open>
  \<open>utf8.RuneCountInString\<close>: the bytes the next character takes, 1 for an invalid sequence, and the
  number of characters. \<open>fmt\<close> pads to this count.
\<close>

definition byte_in :: "nat \<Rightarrow> nat \<Rightarrow> char \<Rightarrow> bool" where
  "byte_in lo hi c \<longleftrightarrow> lo \<le> (of_char c :: nat) \<and> (of_char c :: nat) \<le> hi"

definition continuation :: "char \<Rightarrow> bool" where
  "continuation = byte_in 0x80 0xBF"

definition rune_len :: "string \<Rightarrow> nat" where
  "rune_len s =
     (case s of
        [] \<Rightarrow> 0
      | [_] \<Rightarrow> 1
      | [a, b] \<Rightarrow> if byte_in 0xC2 0xDF a \<and> continuation b then 2 else 1
      | a # b # c # r \<Rightarrow>
          if byte_in 0xC2 0xDF a \<and> continuation b then 2
          else if ((a = CHR 0xE0 \<and> byte_in 0xA0 0xBF b) \<or> (a = CHR 0xED \<and> byte_in 0x80 0x9F b) \<or>
                   (byte_in 0xE1 0xEF a \<and> a \<noteq> CHR 0xED \<and> continuation b)) \<and> continuation c then 3
          else if ((a = CHR 0xF0 \<and> byte_in 0x90 0xBF b) \<or> (a = CHR 0xF4 \<and> byte_in 0x80 0x8F b) \<or>
                   (byte_in 0xF1 0xF3 a \<and> continuation b)) \<and> continuation c \<and>
                  r \<noteq> [] \<and> continuation (hd r) then 4
          else 1)"

lemma rune_len_pos: "s \<noteq> [] \<Longrightarrow> 0 < rune_len s"
  by (auto simp: rune_len_def split: list.splits)

function (sequential) rune_count :: "string \<Rightarrow> nat" where
  "rune_count s = (if s = [] then 0 else Suc (rune_count (drop (rune_len s) s)))"
  by pat_completeness auto
termination
  by (relation "measure length") (auto simp: rune_len_pos)

declare rune_count.simps [simp del]

definition pad_right :: "nat \<Rightarrow> string \<Rightarrow> string" where
  "pad_right w s = s @ replicate (w - rune_count s) (CHR '' '')"

section \<open>Lists kept in order\<close>

text \<open>
  The loop over a \<open>seen\<close> map that keeps the first occurrence of every element, which several
  Go functions of the program write out.
\<close>

fun keep_first :: "('a \<Rightarrow> 'k) \<Rightarrow> 'k set \<Rightarrow> 'a list \<Rightarrow> 'a list" where
  "keep_first f seen [] = []"
| "keep_first f seen (x # xs) =
     (if f x \<in> seen then keep_first f seen xs
      else x # keep_first f (insert (f x) seen) xs)"

lemma keep_first_subset: "set (keep_first f seen xs) \<subseteq> set xs"
  by (induction xs arbitrary: seen) auto

lemma keep_first_keys: "f ` set (keep_first f seen xs) = f ` set xs - seen"
  by (induction xs arbitrary: seen) auto

lemma keep_first_distinct: "distinct (map f (keep_first f seen xs))"
proof (induction xs arbitrary: seen)
  case (Cons x xs)
  have "f x \<notin> f ` set (keep_first f (insert (f x) seen) xs)"
    by (simp add: keep_first_keys)
  with Cons show ?case by auto
qed simp

lemma keep_first_subseq: "subseq (keep_first f seen xs) xs"
  by (induction xs arbitrary: seen) auto

text \<open>
  The shared contract of the functions that drop lines: they work line by line. A client gets
  order, containment and idempotence from it.
\<close>

locale line_filter =
  fixes filt :: "'a list \<Rightarrow> 'a list"
  assumes filt_append: "filt (xs @ ys) = filt xs @ filt ys"
    and filt_single: "filt [x] = [x] \<or> filt [x] = []"
begin

lemma filt_nil [simp]: "filt [] = []"
  using filt_append [of "[]" "[]"] by simp

lemma filt_eq_filter: "filt xs = filter (\<lambda>x. filt [x] \<noteq> []) xs"
proof (induction xs)
  case (Cons x xs)
  then show ?case
    using filt_append [of "[x]" xs] filt_single [of x] by auto
qed simp

lemma filt_subset: "set (filt xs) \<subseteq> set xs"
  using filt_eq_filter [of xs] by auto

lemma filt_subseq: "subseq (filt xs) xs"
  by (metis filt_eq_filter subseq_filter_left)

lemma filt_member: "x \<in> set (filt xs) \<longleftrightarrow> x \<in> set xs \<and> filt [x] \<noteq> []"
  using filt_eq_filter [of xs] by simp

lemma filt_idem: "filt (filt xs) = filt xs"
proof -
  have "filter (\<lambda>x. filt [x] \<noteq> []) (filt xs) = filt xs"
    by (rule filter_True) (simp add: filt_member)
  then show ?thesis using filt_eq_filter [of "filt xs"] by simp
qed

end

text \<open>
  The shared contract of the functions that list a set of strings in sorted order: the result
  depends on the set of inputs only, so neither the order of a Go map iteration nor a duplicate
  can change it.
\<close>

locale sorted_listing =
  fixes listing :: "'a::linorder list \<Rightarrow> 'a list"
  assumes listing_set: "set (listing xs) = set xs"
    and listing_sorted: "sorted (listing xs)"
    and listing_distinct: "distinct (listing xs)"
begin

lemma listing_canonical: "listing xs = sorted_list_of_set (set xs)"
  by (metis listing_set listing_sorted listing_distinct
      sorted_list_of_set.idem_if_sorted_distinct)

lemma listing_cong: "set xs = set ys \<Longrightarrow> listing xs = listing ys"
  by (simp add: listing_canonical)

lemma listing_idem: "listing (listing xs) = listing xs"
  by (rule listing_cong) (rule listing_set)

lemma listing_append_commute: "listing (xs @ ys) = listing (ys @ xs)"
  by (rule listing_cong) auto

end

definition sort_dedup :: "string list \<Rightarrow> string list" where
  "sort_dedup xs = sort (keep_first (\<lambda>x. x) {} xs)"

interpretation sort_dedup: sorted_listing sort_dedup
proof unfold_locales
  fix xs :: "string list"
  show "set (sort_dedup xs) = set xs"
    using keep_first_keys [of "\<lambda>x. x" "{}" xs] by (simp add: sort_dedup_def)
  show "sorted (sort_dedup xs)"
    by (simp add: sort_dedup_def)
  show "distinct (sort_dedup xs)"
    using keep_first_distinct [of "\<lambda>x. x" "{}" xs] by (simp add: sort_dedup_def)
qed

end
