(* ===== verification/Findings.thy ===== *)
theory Findings
  imports GoPrelude
begin

text \<open>
  The finding transforms of \<open>internal/findings/findings.go\<close>, the key functions of
  \<open>internal/baseline/key.go\<close> that mirror them, and the \<open>findings\<close> subcommand of
  \<open>cmd/go-mk/main.go\<close> that applies them to the lines of its input. A finding is one line
  \<open>path:line:col: message\<close>; its key drops the coordinates so that the finding is recognised after
  it has moved within its file.
\<close>

section \<open>The location pattern\<close>

text \<open>
  \<open>locationPattern\<close> is \<open>:[0-9]+:[0-9]+:\<close>. A digit is never a colon, so the greedy match at a
  position is the only one, and \<open>loc_rest\<close> returns what follows it.
\<close>

definition skip_char :: "char \<Rightarrow> string \<Rightarrow> string option" where
  "skip_char c s = (case s of [] \<Rightarrow> None | d # r \<Rightarrow> if d = c then Some r else None)"

definition skip_digits :: "string \<Rightarrow> string option" where
  "skip_digits s =
     (case s of [] \<Rightarrow> None | d # r \<Rightarrow> if is_digit d then Some (dropWhile is_digit r) else None)"

definition loc_rest :: "string \<Rightarrow> string option" where
  "loc_rest s = do {
     s \<leftarrow> skip_char colon s;
     s \<leftarrow> skip_digits s;
     s \<leftarrow> skip_char colon s;
     s \<leftarrow> skip_digits s;
     skip_char colon s }"

text \<open>\<open>FindStringIndex\<close>: start and end of the leftmost match.\<close>

fun find_loc :: "string \<Rightarrow> (nat \<times> nat) option" where
  "find_loc [] = None"
| "find_loc (c # s) =
     (case loc_rest (c # s) of
        Some r \<Rightarrow> Some (0, length (c # s) - length r)
      | None \<Rightarrow> map_option (\<lambda>(a, b). (Suc a, Suc b)) (find_loc s))"

section \<open>The transforms\<close>

function (sequential) strip_parents :: "string \<Rightarrow> string" where
  "strip_parents s = (if prefix ''../'' s then strip_parents (drop 3 s) else s)"
  by pat_completeness auto
termination
  by (relation "measure length") (auto dest: prefix_length_le)

declare strip_parents.simps [simp del]

definition strip_dir :: "string \<Rightarrow> string \<Rightarrow> string" where
  "strip_dir d s = (if d \<noteq> [] \<and> prefix d s then drop (length d) s else s)"

definition normalize_path :: "string \<Rightarrow> string \<Rightarrow> string \<Rightarrow> string" where
  "normalize_path line pwd cwd = strip_parents (strip_dir cwd (strip_dir pwd line))"

definition collapse_loc :: "string \<Rightarrow> string" where
  "collapse_loc s =
     (case find_loc s of None \<Rightarrow> s | Some (a, b) \<Rightarrow> take a s @ '':::'' @ drop b s)"

definition finding_key :: "string \<Rightarrow> string \<Rightarrow> string \<Rightarrow> string" where
  "finding_key line pwd cwd = collapse_loc (normalize_path line pwd cwd)"

definition finding_path :: "string \<Rightarrow> string option" where
  "finding_path line = map_option (\<lambda>(a, b). take a line) (find_loc line)"

definition blank_line :: "string \<Rightarrow> bool" where
  "blank_line s \<longleftrightarrow> list_all (\<lambda>c. c = CHR '' '' \<or> c = CHR 0x09) s"

definition label_marker :: "string \<Rightarrow> string" where
  "label_marker label = tab @ ''# '' @ label @ '':''"

definition baseline_payload :: "string \<Rightarrow> string \<Rightarrow> string \<Rightarrow> string \<Rightarrow> string option" where
  "baseline_payload line label pwd cwd =
     (if blank_line line \<or> prefix ''#'' line then None
      else (let finding = (case str_index line (label_marker label) of
                             None \<Rightarrow> line
                           | Some i \<Rightarrow> take i line)
            in Some (normalize_path finding pwd cwd)))"

fun map_findings :: "string list \<Rightarrow> string set \<Rightarrow> string \<Rightarrow> string \<Rightarrow> string list" where
  "map_findings [] saved pwd cwd = []"
| "map_findings (l # ls) saved pwd cwd =
     (if finding_key l pwd cwd \<in> saved then l # map_findings ls saved pwd cwd
      else map_findings ls saved pwd cwd)"

definition print_finding :: "string \<Rightarrow> string \<Rightarrow> string \<Rightarrow> string" where
  "print_finding line pwd cwd =
     (let s = normalize_path line pwd cwd in
      case find_loc s of
        None \<Rightarrow> ''  '' @ s @ newline
      | Some (a, b) \<Rightarrow>
          ''  '' @ take (b - 1) s @ newline @ ''    '' @ trim_left (drop b s) ('' '' @ tab) @ newline)"

subsection \<open>The keys of \<open>internal/baseline\<close>\<close>

definition baseline_key :: "string \<Rightarrow> string" where
  "baseline_key line = collapse_loc (strip_parents line)"

section \<open>Diff hunks and the line filter\<close>

record diff_range =
  range_file :: string
  range_start :: int
  range_end :: int

text \<open>
  \<open>hunkHeaderPattern\<close> is \<open>^@@ \S+ \+([0-9]+)(?:,([0-9]+))? @@\<close>. In RE2 \<open>\S\<close> is any character but
  tab, newline, form feed, carriage return and space, so the first run ends at the first of these
  and the match is deterministic. The result is the two captures, the second one empty when the
  group did not take part.
\<close>

definition regex_space :: "char \<Rightarrow> bool" where
  "regex_space c \<longleftrightarrow> c \<in> {CHR 0x09, CHR 0x0A, CHR 0x0C, CHR 0x0D, CHR 0x20}"

definition skip_str :: "string \<Rightarrow> string \<Rightarrow> string option" where
  "skip_str p s = (if prefix p s then Some (drop (length p) s) else None)"

definition skip_nonspace :: "string \<Rightarrow> string option" where
  "skip_nonspace s =
     (case s of [] \<Rightarrow> None
      | c # r \<Rightarrow> if regex_space c then None else Some (dropWhile (\<lambda>c. \<not> regex_space c) r))"

definition take_digits :: "string \<Rightarrow> (string \<times> string) option" where
  "take_digits s =
     (case takeWhile is_digit s of [] \<Rightarrow> None | d \<Rightarrow> Some (d, dropWhile is_digit s))"

definition hunk_count :: "string \<Rightarrow> string \<times> string" where
  "hunk_count s =
     (case skip_char (CHR '','') s of
        None \<Rightarrow> ([], s)
      | Some r \<Rightarrow> (case take_digits r of None \<Rightarrow> ([], s) | Some (d, r') \<Rightarrow> (d, r')))"

definition match_hunk :: "string \<Rightarrow> (string \<times> string) option" where
  "match_hunk line = do {
     s \<leftarrow> skip_str ''@@ '' line;
     s \<leftarrow> skip_nonspace s;
     s \<leftarrow> skip_str '' +'' s;
     (start, s) \<leftarrow> take_digits s;
     (count, s) \<leftarrow> Some (hunk_count s);
     s \<leftarrow> skip_str '' @@'' s;
     Some (start, count) }"

definition parse_diff_file :: "string \<Rightarrow> string" where
  "parse_diff_file line =
     (case str_fields line of
        _ # f # _ \<Rightarrow> (let file = trim_prefix f ''b/'' in if file = ''/dev/null'' then [] else file)
      | _ \<Rightarrow> [])"

definition hunk_range :: "string \<Rightarrow> string \<Rightarrow> diff_range option" where
  "hunk_range file line = do {
     (start_text, count_text) \<leftarrow> match_hunk line;
     start \<leftarrow> atoi start_text;
     count \<leftarrow> (if count_text = [] then Some 1 else atoi count_text);
     if count \<le> 0 then None
     else Some \<lparr>range_file = file, range_start = start, range_end = wrap_int (start + count - 1)\<rparr> }"

fun diff_ranges_from :: "string \<Rightarrow> string list \<Rightarrow> diff_range list" where
  "diff_ranges_from current [] = []"
| "diff_ranges_from current (l # ls) =
     (if prefix ''+++ '' l then diff_ranges_from (parse_diff_file l) ls
      else if current = [] then diff_ranges_from current ls
      else (case hunk_range current l of
              None \<Rightarrow> diff_ranges_from current ls
            | Some r \<Rightarrow> r # diff_ranges_from current ls))"

definition diff_ranges :: "string list \<Rightarrow> diff_range list" where
  "diff_ranges ls = diff_ranges_from [] ls"

definition awk_numeric_prefix :: "string \<Rightarrow> int" where
  "awk_numeric_prefix field =
     (let t = trim_left field ('' '' @ tab);
          sign = (case t of [] \<Rightarrow> [] | c # _ \<Rightarrow> if c = CHR ''+'' \<or> c = CHR ''-'' then [c] else []);
          digits = takeWhile is_digit (drop (length sign) t)
      in if digits = [] then 0
         else (case atoi (sign @ digits) of None \<Rightarrow> 0 | Some v \<Rightarrow> v))"

definition finding_file_and_line :: "string \<Rightarrow> string \<times> int" where
  "finding_file_and_line line =
     (case split_on colon line of
        file # field # _ \<Rightarrow> (file, awk_numeric_prefix field)
      | file # [] \<Rightarrow> (file, 0)
      | [] \<Rightarrow> ([], 0))"

fun ranges_contain :: "diff_range list \<Rightarrow> string \<Rightarrow> int \<Rightarrow> bool" where
  "ranges_contain [] file n = False"
| "ranges_contain (r # rs) file n =
     (if range_file r \<noteq> file then ranges_contain rs file n
      else if n \<ge> range_start r \<and> n \<le> range_end r then True
      else ranges_contain rs file n)"

fun line_in_ranges :: "string list \<Rightarrow> diff_range list \<Rightarrow> string list" where
  "line_in_ranges [] ranges = []"
| "line_in_ranges (l # ls) ranges =
     (let (file, n) = finding_file_and_line l in
      if file = [] \<or> n = 0 then line_in_ranges ls ranges
      else if ranges_contain ranges file n then l # line_in_ranges ls ranges
      else line_in_ranges ls ranges)"

section \<open>The \<open>findings\<close> subcommand\<close>

text \<open>
  \<open>readLines\<close> of \<open>main.go\<close> reads with a \<open>bufio.Scanner\<close> whose buffer holds 1 MiB: a line that
  fills it is an error, one trailing carriage return is dropped, and the text after the last
  newline is a line when it is not empty.
\<close>

definition scan_limit :: nat where "scan_limit = 1048576"

definition drop_cr :: "string \<Rightarrow> string" where
  "drop_cr s = (if s \<noteq> [] \<and> last s = CHR 0x0D then butlast s else s)"

definition scan_records :: "string \<Rightarrow> string list" where
  "scan_records text =
     (let parts = split_on (CHR 0x0A) text in if last parts = [] then butlast parts else parts)"

definition scan_lines :: "string \<Rightarrow> string list option" where
  "scan_lines text =
     (if list_ex (\<lambda>l. length l \<ge> scan_limit) (scan_records text) then None
      else Some (map drop_cr (scan_records text)))"

definition join_lines :: "string list \<Rightarrow> string" where
  "join_lines ls = (if ls = [] then [] else str_join newline ls @ newline)"

definition map_lines :: "string list \<Rightarrow> (string \<Rightarrow> string) \<Rightarrow> string list" where
  "map_lines ls f = map f ls"

record findings_options =
  fo_action :: string
  fo_pwd :: string
  fo_cwd :: string
  fo_label :: string
  fo_key_file :: string
  fo_range_file :: string

datatype findings_error =
    UnknownOption string
  | MissingValue string
  | UnknownAction string
  | MissingKeyFile
  | MissingRangeFile
  | FileError string

definition set_findings_option ::
  "string \<Rightarrow> string \<Rightarrow> findings_options \<Rightarrow> findings_options option" where
  "set_findings_option opt v fo =
     (if opt = ''--action'' then Some (fo\<lparr>fo_action := v\<rparr>)
      else if opt = ''--pwd'' then Some (fo\<lparr>fo_pwd := v\<rparr>)
      else if opt = ''--cwd'' then Some (fo\<lparr>fo_cwd := v\<rparr>)
      else if opt = ''--label'' then Some (fo\<lparr>fo_label := v\<rparr>)
      else if opt = ''--keyfile'' then Some (fo\<lparr>fo_key_file := v\<rparr>)
      else if opt = ''--rangefile'' then Some (fo\<lparr>fo_range_file := v\<rparr>)
      else None)"

fun parse_findings_args ::
  "string list \<Rightarrow> findings_options \<Rightarrow> (findings_error, findings_options) result" where
  "parse_findings_args [] fo = Inr fo"
| "parse_findings_args [opt] fo =
     (if set_findings_option opt [] fo = None then Inl (UnknownOption opt)
      else Inl (MissingValue opt))"
| "parse_findings_args (opt # v # rest) fo =
     (case set_findings_option opt v fo of
        None \<Rightarrow> Inl (UnknownOption opt)
      | Some fo' \<Rightarrow> parse_findings_args rest fo')"

definition parse_findings_options ::
  "string list \<Rightarrow> (findings_error, findings_options) result" where
  "parse_findings_options args =
     (case parse_findings_args args
             \<lparr>fo_action = [], fo_pwd = [], fo_cwd = [], fo_label = [], fo_key_file = [], fo_range_file = []\<rparr> of
        Inl e \<Rightarrow> Inl e
      | Inr fo \<Rightarrow> Inr (if fo_action fo = [] then fo\<lparr>fo_action := ''normalize''\<rparr> else fo))"

text \<open>The file system is a parameter: \<open>files path\<close> is the content of a readable file.\<close>

definition load_key_set ::
  "(string \<Rightarrow> string option) \<Rightarrow> string \<Rightarrow> (findings_error, string set) result" where
  "load_key_set files path =
     (if path = [] then Inl MissingKeyFile
      else case Option.bind (files path) scan_lines of
             None \<Rightarrow> Inl (FileError path)
           | Some ls \<Rightarrow> Inr (set ls))"

fun range_rows :: "string list \<Rightarrow> diff_range list" where
  "range_rows [] = []"
| "range_rows (l # ls) =
     (case split_on (CHR 0x09) l of
        f # a # b # _ \<Rightarrow>
          \<lparr>range_file = f, range_start = atoi_value a, range_end = atoi_value b\<rparr> # range_rows ls
      | _ \<Rightarrow> range_rows ls)"

definition load_ranges ::
  "(string \<Rightarrow> string option) \<Rightarrow> string \<Rightarrow> (findings_error, diff_range list) result" where
  "load_ranges files path =
     (if path = [] then Inl MissingRangeFile
      else case Option.bind (files path) scan_lines of
             None \<Rightarrow> Inl (FileError path)
           | Some ls \<Rightarrow> Inr (range_rows ls))"

definition render_range :: "diff_range \<Rightarrow> string" where
  "render_range r = range_file r @ tab @ itoa (range_start r) @ tab @ itoa (range_end r)"

definition render_ranges :: "diff_range list \<Rightarrow> string" where
  "render_ranges rs = join_lines (map render_range rs)"

definition render_payloads :: "findings_options \<Rightarrow> string list \<Rightarrow> string" where
  "render_payloads fo ls =
     join_lines (List.map_filter (\<lambda>l. baseline_payload l (fo_label fo) (fo_pwd fo) (fo_cwd fo)) ls)"

definition render_print :: "findings_options \<Rightarrow> string list \<Rightarrow> string" where
  "render_print fo ls = concat (map (\<lambda>l. print_finding l (fo_pwd fo) (fo_cwd fo)) ls)"

definition transform_findings ::
  "(string \<Rightarrow> string option) \<Rightarrow> findings_options \<Rightarrow> string list \<Rightarrow> (findings_error, string) result" where
  "transform_findings files fo ls =
     (let pwd = fo_pwd fo; cwd = fo_cwd fo; action = fo_action fo in
      if action = ''normalize'' then Inr (join_lines (map_lines ls (\<lambda>l. normalize_path l pwd cwd)))
      else if action = ''key'' then Inr (join_lines (map_lines ls (\<lambda>l. finding_key l pwd cwd)))
      else if action = ''baseline'' then Inr (render_payloads fo ls)
      else if action = ''map'' then
        (case load_key_set files (fo_key_file fo) of
           Inl e \<Rightarrow> Inl e
         | Inr saved \<Rightarrow> Inr (join_lines (map_findings ls saved pwd cwd)))
      else if action = ''print'' then Inr (render_print fo ls)
      else if action = ''ranges'' then Inr (render_ranges (diff_ranges ls))
      else if action = ''linefilter'' then
        (case load_ranges files (fo_range_file fo) of
           Inl e \<Rightarrow> Inl e
         | Inr ranges \<Rightarrow> Inr (join_lines (line_in_ranges ls ranges)))
      else Inl (UnknownAction action))"

definition run_findings ::
  "(string \<Rightarrow> string option) \<Rightarrow> string \<Rightarrow> string list \<Rightarrow> (findings_error, string) result" where
  "run_findings files stdin args =
     (case parse_findings_options args of
        Inl e \<Rightarrow> Inl e
      | Inr fo \<Rightarrow>
          (case scan_lines stdin of
             None \<Rightarrow> Inl (FileError ''stdin'')
           | Some ls \<Rightarrow> transform_findings files fo ls))"

section \<open>Facts about the location pattern\<close>

definition location_text :: "string \<Rightarrow> string \<Rightarrow> string" where
  "location_text l c = [colon] @ l @ [colon] @ c @ [colon]"

lemma skip_char_Some: "skip_char c s = Some r \<longleftrightarrow> s = c # r"
  by (auto simp: skip_char_def split: list.splits if_splits)

lemma dropWhile_digits: "all_digits d \<Longrightarrow> \<not> is_digit c \<Longrightarrow> dropWhile is_digit (d @ c # r) = c # r"
  by (subst dropWhile_append2) (auto dest: all_digits_D)

lemma takeWhile_digits: "all_digits d \<Longrightarrow> \<not> is_digit c \<Longrightarrow> takeWhile is_digit (d @ c # r) = d"
  by (subst takeWhile_append2) (auto dest: all_digits_D)

lemma skip_digits_at: "all_digits d \<Longrightarrow> \<not> is_digit c \<Longrightarrow> skip_digits (d @ c # r) = Some (c # r)"
  using dropWhile_digits [of d c r] by (cases d) (auto simp: skip_digits_def all_digits_def)

lemma skip_digits_Some:
  assumes "skip_digits s = Some r"
  obtains d where "all_digits d" "s = d @ r"
proof -
  from assms obtain c t where ct: "s = c # t" "is_digit c" "r = dropWhile is_digit t"
    by (auto simp: skip_digits_def split: list.splits if_splits)
  then have "all_digits (c # takeWhile is_digit t)" "s = (c # takeWhile is_digit t) @ r"
    by (auto simp: all_digits_def list_all_iff dest: set_takeWhileD)
  then show ?thesis by (rule that)
qed

lemma not_digit_colon [simp]: "\<not> is_digit colon"
  by (simp add: is_digit_def)

lemma loc_rest_at: "all_digits l \<Longrightarrow> all_digits c \<Longrightarrow> loc_rest (location_text l c @ r) = Some r"
  by (simp add: loc_rest_def location_text_def skip_char_def skip_digits_at)

lemma loc_rest_Some:
  assumes "loc_rest s = Some r"
  obtains l c where "all_digits l" "all_digits c" "s = location_text l c @ r"
proof -
  from assms obtain s1 s2 s3 s4 where
    "s = colon # s1" "skip_digits s1 = Some s2" "s2 = colon # s3" "skip_digits s3 = Some s4" "s4 = colon # r"
    by (auto simp: loc_rest_def skip_char_Some bind_eq_Some_conv)
  then obtain l c where "all_digits l" "all_digits c" "s1 = l @ s2" "s3 = c @ s4"
    by (meson skip_digits_Some)
  with \<open>s = colon # s1\<close> \<open>s2 = colon # s3\<close> \<open>s4 = colon # r\<close> show ?thesis
    by (intro that [of l c]) (auto simp: location_text_def)
qed

lemma loc_rest_no_colon: "c \<noteq> colon \<Longrightarrow> loc_rest (c # s) = None"
  by (simp add: loc_rest_def skip_char_def)

lemma find_loc_at:
  assumes "all_digits l" "all_digits c" "colon \<notin> set p"
  shows "find_loc (p @ location_text l c @ m) = Some (length p, length p + length (location_text l c))"
  using assms(3)
proof (induction p)
  case Nil
  obtain x xs where "location_text l c @ m = x # xs" "loc_rest (x # xs) = Some m"
    using loc_rest_at [OF assms(1,2), of m] by (cases "location_text l c @ m") (auto simp: location_text_def)
  moreover have "length (location_text l c @ m) = length (location_text l c) + length m" by simp
  ultimately show ?case by auto
next
  case (Cons x p)
  then have "loc_rest (x # p @ location_text l c @ m) = None"
    by (intro loc_rest_no_colon) auto
  with Cons show ?case by simp
qed

lemma find_loc_sound:
  assumes "find_loc s = Some (a, b)"
  obtains l c where "all_digits l" "all_digits c" "s = take a s @ location_text l c @ drop b s"
    "a \<le> length s" "b = a + length (location_text l c)"
  using assms
proof (induction s arbitrary: a b thesis)
  case (Cons x s)
  show ?case
  proof (cases "loc_rest (x # s)")
    case (Some r)
    with Cons.prems have ab: "a = 0" "b = length (x # s) - length r" by auto
    from Some obtain l c where lc: "all_digits l" "all_digits c" "x # s = location_text l c @ r"
      by (rule loc_rest_Some)
    then have "b = length (location_text l c)" "drop b (x # s) = r" using ab by auto
    with lc ab show ?thesis by (intro Cons.prems(1) [of l c]) auto
  next
    case None
    with Cons.prems obtain a' b' where ab: "find_loc s = Some (a', b')" "a = Suc a'" "b = Suc b'"
      by auto
    then obtain l c where "all_digits l" "all_digits c" "s = take a' s @ location_text l c @ drop b' s"
      "a' \<le> length s" "b' = a' + length (location_text l c)"
      using Cons.IH by blast
    with ab show ?thesis by (intro Cons.prems(1) [of l c]) auto
  qed
qed simp

lemma find_loc_leftmost:
  assumes "all_digits l" "all_digits c"
  shows "\<exists>a b. find_loc (p @ location_text l c @ m) = Some (a, b) \<and> a \<le> length p"
proof (induction p)
  case Nil
  obtain x xs where xs: "location_text l c @ m = x # xs"
    by (cases "location_text l c @ m") (auto simp: location_text_def)
  with loc_rest_at [OF assms, of m] show ?case by simp
next
  case (Cons x p)
  then show ?case by (auto split: option.splits)
qed

section \<open>Facts about path normalisation\<close>

lemma strip_parents_stop: "\<not> prefix ''../'' s \<Longrightarrow> strip_parents s = s"
  by (simp add: strip_parents.simps)

lemma strip_parents_step [simp]: "strip_parents (CHR ''.'' # CHR ''.'' # slash # s) = strip_parents s"
  by (subst strip_parents.simps) simp

lemma strip_parents_normal: "\<not> prefix ''../'' (strip_parents s)"
proof (induction s rule: strip_parents.induct)
  case (1 s)
  then show ?case
    by (cases "prefix ''../'' s") (simp_all add: strip_parents.simps [of s])
qed

lemma strip_parents_idem: "strip_parents (strip_parents s) = strip_parents s"
  by (rule strip_parents_stop) (rule strip_parents_normal)

lemma prefix_before_colon:
  "colon \<notin> set d \<Longrightarrow> prefix d (p @ colon # s) \<longleftrightarrow> prefix d p"
proof (induction d arbitrary: p)
  case (Cons x d)
  then show ?case by (cases p) auto
qed simp

lemma strip_dir_colon:
  "colon \<notin> set d \<Longrightarrow> strip_dir d (p @ colon # s) = strip_dir d p @ colon # s"
  by (auto simp: strip_dir_def prefix_before_colon dest: prefix_length_le)

lemma strip_dir_subset: "set (strip_dir d s) \<subseteq> set s"
  by (auto simp: strip_dir_def dest: in_set_dropD)

lemma strip_parents_colon: "strip_parents (p @ colon # s) = strip_parents p @ colon # s"
proof (induction p rule: strip_parents.induct)
  case (1 p)
  have same: "prefix ''../'' (p @ colon # s) \<longleftrightarrow> prefix ''../'' p"
    by (rule prefix_before_colon) simp
  show ?case
  proof (cases "prefix ''../'' p")
    case True
    then obtain q where "p = ''../'' @ q" by (auto simp: prefix_def)
    with 1 True show ?thesis by simp
  next
    case False
    with same show ?thesis by (simp add: strip_parents_stop)
  qed
qed

lemma strip_parents_subset: "set (strip_parents s) \<subseteq> set s"
proof (induction s rule: strip_parents.induct)
  case (1 s)
  then show ?case
    by (subst strip_parents.simps) (auto dest: in_set_dropD)
qed

lemma normalize_path_colon:
  assumes "colon \<notin> set pwd" "colon \<notin> set cwd"
  shows "normalize_path (p @ colon # s) pwd cwd = normalize_path p pwd cwd @ colon # s"
  using assms by (simp add: normalize_path_def strip_dir_colon strip_parents_colon)

lemma normalize_path_subset: "set (normalize_path s pwd cwd) \<subseteq> set s"
  unfolding normalize_path_def
  using strip_parents_subset strip_dir_subset by blast

lemma collapse_loc_at:
  assumes "all_digits l" "all_digits c" "colon \<notin> set p"
  shows "collapse_loc (p @ location_text l c @ m) = p @ '':::'' @ m"
  using find_loc_at [OF assms, of m] by (simp add: collapse_loc_def)

lemma location_text_colon: "\<exists>t. location_text l c = colon # t"
  by (simp add: location_text_def)

lemma finding_key_at:
  assumes "all_digits l" "all_digits c" "colon \<notin> set p" "colon \<notin> set pwd" "colon \<notin> set cwd"
  shows "finding_key (p @ location_text l c @ m) pwd cwd = normalize_path p pwd cwd @ '':::'' @ m"
proof -
  obtain t where t: "location_text l c @ m = colon # t"
    using location_text_colon [of l c] by auto
  have "normalize_path (p @ location_text l c @ m) pwd cwd
      = normalize_path p pwd cwd @ location_text l c @ m"
    unfolding t by (rule normalize_path_colon [OF assms(4,5)])
  moreover have "colon \<notin> set (normalize_path p pwd cwd)"
    using normalize_path_subset assms(3) by blast
  ultimately show ?thesis
    using collapse_loc_at [OF assms(1,2)] by (simp add: finding_key_def)
qed

lemma normalize_path_plain [simp]: "normalize_path s [] [] = strip_parents s"
  by (simp add: normalize_path_def strip_dir_def)

lemma baseline_key_finding_key: "finding_key s [] [] = baseline_key s"
  by (simp add: finding_key_def baseline_key_def)


section \<open>Facts about hunks and ranges\<close>

interpretation map_findings: line_filter "\<lambda>ls. map_findings ls saved pwd cwd"
proof unfold_locales
  show "map_findings (xs @ ys) saved pwd cwd = map_findings xs saved pwd cwd @ map_findings ys saved pwd cwd" for xs ys
    by (induction xs) auto
qed simp

interpretation line_in_ranges: line_filter "\<lambda>ls. line_in_ranges ls ranges"
proof unfold_locales
  show "line_in_ranges (xs @ ys) ranges = line_in_ranges xs ranges @ line_in_ranges ys ranges" for xs ys
    by (induction xs) (auto split: prod.splits)
qed (auto split: prod.splits)

lemma ranges_contain_iff:
  "ranges_contain rs file n \<longleftrightarrow>
     (\<exists>r \<in> set rs. range_file r = file \<and> range_start r \<le> n \<and> n \<le> range_end r)"
  by (induction rs) auto

lemma awk_numeric_prefix_digits:
  assumes "all_digits l" "int (digits_val l) \<le> max_int"
  shows "awk_numeric_prefix l = int (digits_val l)"
proof -
  obtain d r where dr: "l = d # r" "is_digit d"
    using assms(1) by (cases l) (auto simp: all_digits_def)
  then have "d \<noteq> CHR '' ''" "d \<noteq> CHR 0x09" "d \<noteq> CHR ''+''" "d \<noteq> CHR ''-''"
    by (auto dest: is_digit_facts)
  moreover have "takeWhile is_digit l = l"
    using assms(1) by (auto simp: takeWhile_eq_all_conv dest: all_digits_D)
  moreover have "l \<noteq> []" using dr by simp
  ultimately have "awk_numeric_prefix l = (case atoi l of None \<Rightarrow> 0 | Some v \<Rightarrow> v)"
    unfolding awk_numeric_prefix_def trim_left_def Let_def by (simp add: dr(1))
  then show ?thesis by (simp add: atoi_digits [OF assms])
qed

lemma finding_file_and_line_at:
  assumes "colon \<notin> set p" "all_digits l" "int (digits_val l) \<le> max_int"
  shows "finding_file_and_line (p @ location_text l c @ m) = (p, int (digits_val l))"
proof -
  have "colon \<notin> set l"
    using assms(2) by (auto dest!: all_digits_D)
  then have "split_on colon (p @ location_text l c @ m) = p # l # split_on colon (c @ [colon] @ m)"
    using assms(1) by (simp add: location_text_def split_on_append)
  then show ?thesis
    using assms(2,3) by (simp add: finding_file_and_line_def awk_numeric_prefix_digits)
qed

lemma line_in_ranges_at:
  assumes "colon \<notin> set p" "p \<noteq> []" "all_digits l" "0 < digits_val l" "int (digits_val l) \<le> max_int"
  shows "p @ location_text l c @ m \<in> set (line_in_ranges ls ranges) \<longleftrightarrow>
    p @ location_text l c @ m \<in> set ls \<and>
    (\<exists>r \<in> set ranges. range_file r = p \<and> range_start r \<le> int (digits_val l) \<and> int (digits_val l) \<le> range_end r)"
  using assms
  by (simp add: line_in_ranges.filt_member [of _ ls] finding_file_and_line_at ranges_contain_iff)

text \<open>
  Unified diffs as \<open>git diff --unified=0\<close> writes them. A section has the header line of its new file, \<open>/dev/null\<close>
  for a deleted one, and its hunks. The header of a hunk names the old side, the first added line, the number of
  added lines unless it is one, and may end with the function around it; the lines of a hunk, and those before
  the next section (\<open>diff --git\<close>, \<open>index\<close>, \<open>---\<close>), are none that read as a header.
\<close>

type_synonym hunk = "string \<times> nat \<times> nat option \<times> string \<times> string list"
type_synonym diff_section = "string option \<times> hunk list"

definition diff_header :: "string option \<Rightarrow> string" where
  "diff_header file = (case file of None \<Rightarrow> ''+++ /dev/null'' | Some f \<Rightarrow> ''+++ b/'' @ f)"

definition count_text :: "nat option \<Rightarrow> string" where
  "count_text k = (case k of None \<Rightarrow> [] | Some n \<Rightarrow> '','' @ itoa_nat n)"

definition added_lines :: "nat option \<Rightarrow> nat" where
  "added_lines k = (case k of None \<Rightarrow> 1 | Some n \<Rightarrow> n)"

definition hunk_header :: "string \<Rightarrow> nat \<Rightarrow> nat option \<Rightarrow> string \<Rightarrow> string" where
  "hunk_header old s k around = ''@@ '' @ old @ '' +'' @ itoa_nat s @ count_text k @ '' @@'' @ around"

definition body_line :: "string \<Rightarrow> bool" where
  "body_line l \<longleftrightarrow> \<not> prefix ''+++ '' l \<and> \<not> prefix ''@@ '' l"

fun hunk_lines :: "hunk list \<Rightarrow> string list" where
  "hunk_lines [] = []"
| "hunk_lines ((old, s, k, around, body) # hs) = hunk_header old s k around # body @ hunk_lines hs"

fun diff_text :: "diff_section list \<Rightarrow> string list" where
  "diff_text [] = []"
| "diff_text ((file, hs) # ds) = diff_header file # hunk_lines hs @ diff_text ds"

definition diff_file_name :: "string \<Rightarrow> bool" where
  "diff_file_name file \<longleftrightarrow> file \<noteq> [] \<and> file \<noteq> ''/dev/null'' \<and> list_all plain_char file"

definition good_hunk :: "hunk \<Rightarrow> bool" where
  "good_hunk h \<longleftrightarrow>
     (case h of (old, s, k, around, body) \<Rightarrow>
        old \<noteq> [] \<and> list_all (\<lambda>c. \<not> regex_space c) old \<and> int (s + added_lines k) \<le> max_int \<and> list_all body_line body)"

definition good_section :: "diff_section \<Rightarrow> bool" where
  "good_section d \<longleftrightarrow>
     (case d of (file, hs) \<Rightarrow> (case file of None \<Rightarrow> True | Some f \<Rightarrow> diff_file_name f) \<and> list_all good_hunk hs)"

text \<open>The diff adds line \<open>n\<close> of the file \<open>p\<close>.\<close>

definition adds_line :: "diff_section list \<Rightarrow> string \<Rightarrow> nat \<Rightarrow> bool" where
  "adds_line ds p n \<longleftrightarrow>
     (\<exists>(file, hs) \<in> set ds. file = Some p \<and> (\<exists>(old, s, k, around, body) \<in> set hs. s \<le> n \<and> n < s + added_lines k))"

lemma take_digits_at: "all_digits d \<Longrightarrow> \<not> is_digit c \<Longrightarrow> take_digits (d @ c # r) = Some (d, c # r)"
  unfolding take_digits_def takeWhile_digits dropWhile_digits
  by (auto simp: all_digits_def split: list.splits)

lemma match_hunk_header:
  assumes "old \<noteq> []" "list_all (\<lambda>c. \<not> regex_space c) old"
  shows "match_hunk (hunk_header old s k around) = Some (itoa_nat s, case k of None \<Rightarrow> [] | Some n \<Rightarrow> itoa_nat n)"
proof -
  have "skip_nonspace (old @ '' +'' @ r) = Some ('' +'' @ r)" for r
    using assms by (cases old)
      (auto simp: skip_nonspace_def regex_space_def list_all_iff dropWhile_append2)
  moreover have "take_digits (itoa_nat n @ c # r) = Some (itoa_nat n, c # r)" if "\<not> is_digit c" for n c r
    using take_digits_at [OF all_digits_itoa_nat that] .
  ultimately show ?thesis
    by (cases k) (simp_all add: match_hunk_def hunk_header_def count_text_def skip_str_def hunk_count_def skip_char_def is_digit_def)
qed

lemma hunk_range_header:
  assumes "old \<noteq> []" "list_all (\<lambda>c. \<not> regex_space c) old" "int (s + added_lines k) \<le> max_int"
  shows "hunk_range file (hunk_header old s k around) =
    (if added_lines k = 0 then None
     else Some \<lparr>range_file = file, range_start = int s, range_end = int s + int (added_lines k) - 1\<rparr>)"
proof -
  have "int s \<le> max_int" "int (added_lines k) \<le> max_int" using assms(3) by linarith+
  then have "atoi (itoa_nat s) = Some (int s)" "atoi (itoa_nat (added_lines k)) = Some (int (added_lines k))"
    using atoi_digits [OF all_digits_itoa_nat] by (simp_all add: digits_val_itoa_nat)
  moreover have "itoa_nat n \<noteq> []" for n using all_digits_itoa_nat [of n] by (simp add: all_digits_def)
  moreover have "wrap_int (int s + int (added_lines k) - 1) = int s + int (added_lines k) - 1" if "added_lines k \<noteq> 0"
    using assms(3) that by (intro wrap_int_id) (simp_all add: min_int_def)
  ultimately show ?thesis
    using match_hunk_header [OF assms(1,2), of s k around]
    by (cases k) (simp_all add: hunk_range_def added_lines_def)
qed

lemma hunk_range_body: "body_line l \<Longrightarrow> hunk_range file l = None"
  by (simp add: body_line_def hunk_range_def match_hunk_def skip_str_def)

lemma parse_diff_header: "diff_file_name file \<Longrightarrow> parse_diff_file (diff_header (Some file)) = file"
proof -
  assume name: "diff_file_name file"
  have "str_fields (''+++'' @ '' b/'' @ file) = ''+++'' # str_fields ('' b/'' @ file)"
    by (rule str_fields_word) (auto simp: plain_char_def ascii_spaces_def wide_lead_def)
  moreover have "str_fields ('' b/'' @ file) = str_fields (''b/'' @ file)"
    using str_fields_skip [of "CHR '' ''" "''b/'' @ file"] by (simp add: ascii_spaces_def)
  moreover have "str_fields ((''b/'' @ file) @ []) = (''b/'' @ file) # str_fields []"
    using name by (intro str_fields_word)
      (auto simp: diff_file_name_def list_all_iff plain_char_def ascii_spaces_def wide_lead_def)
  moreover have "trim_prefix (''b/'' @ file) ''b/'' = file"
    by (rule trim_prefix_append)
  ultimately show ?thesis
    using name by (simp add: parse_diff_file_def diff_header_def diff_file_name_def)
qed

lemma parse_deleted_header: "parse_diff_file (diff_header None) = []"
proof -
  have "str_fields (''+++'' @ '' /dev/null'') = ''+++'' # str_fields ('' /dev/null'')"
    by (rule str_fields_word) (auto simp: plain_char_def ascii_spaces_def wide_lead_def)
  moreover have "str_fields ('' /dev/null'') = str_fields (''/dev/null'')"
    using str_fields_skip [of "CHR '' ''" "''/dev/null''"] by (simp add: ascii_spaces_def)
  moreover have "str_fields (''/dev/null'' @ []) = ''/dev/null'' # str_fields []"
    by (intro str_fields_word) (auto simp: plain_char_def ascii_spaces_def wide_lead_def)
  moreover have "trim_prefix ''/dev/null'' ''b/'' = ''/dev/null''" by (simp add: trim_prefix_def)
  ultimately show ?thesis by (simp add: parse_diff_file_def diff_header_def)
qed

definition hunk_spans :: "string \<Rightarrow> hunk list \<Rightarrow> diff_range list" where
  "hunk_spans file hs =
     map (\<lambda>(old, s, k, around, body). \<lparr>range_file = file, range_start = int s, range_end = int s + int (added_lines k) - 1\<rparr>)
       (filter (\<lambda>(old, s, k, around, body). added_lines k \<noteq> 0) hs)"

definition section_spans :: "diff_section \<Rightarrow> diff_range list" where
  "section_spans d = (case d of (None, hs) \<Rightarrow> [] | (Some f, hs) \<Rightarrow> hunk_spans f hs)"

lemma diff_ranges_from_body:
  "list_all body_line body \<Longrightarrow> diff_ranges_from file (body @ ls) = diff_ranges_from file ls"
  by (induction body) (auto simp: hunk_range_body body_line_def)

lemma diff_ranges_from_hunks:
  "file \<noteq> [] \<Longrightarrow> list_all good_hunk hs \<Longrightarrow>
   diff_ranges_from file (hunk_lines hs @ ls) = hunk_spans file hs @ diff_ranges_from file ls"
proof (induction hs rule: hunk_lines.induct)
  case (2 old s k around body hs)
  have "\<not> prefix ''+++ '' (hunk_header old s k around)"
    by (simp add: hunk_header_def)
  with 2 show ?case
    by (auto simp: good_hunk_def hunk_range_header diff_ranges_from_body hunk_spans_def)
qed (simp add: hunk_spans_def)

lemma diff_ranges_from_nowhere:
  "list_all good_hunk hs \<Longrightarrow> diff_ranges_from [] (hunk_lines hs @ ls) = diff_ranges_from [] ls"
proof (induction hs rule: hunk_lines.induct)
  case (2 old s k around body hs)
  have "\<not> prefix ''+++ '' (hunk_header old s k around)"
    by (simp add: hunk_header_def)
  with 2 show ?case by (auto simp: good_hunk_def diff_ranges_from_body)
qed simp

lemma diff_ranges_from_text:
  "list_all good_section ds \<Longrightarrow> diff_ranges_from current (diff_text ds) = concat (map section_spans ds)"
proof (induction ds arbitrary: current rule: diff_text.induct)
  case (2 dest hs ds)
  have head: "diff_ranges_from current (diff_text ((dest, hs) # ds))
      = diff_ranges_from (parse_diff_file (diff_header dest)) (hunk_lines hs @ diff_text ds)"
    by (cases dest) (simp_all add: diff_header_def)
  show ?case
  proof (cases dest)
    case None
    then show ?thesis using 2 head
      by (simp add: parse_deleted_header diff_ranges_from_nowhere good_section_def section_spans_def)
  next
    case (Some f)
    then show ?thesis using 2 head
      by (simp add: parse_diff_header diff_ranges_from_hunks diff_file_name_def good_section_def section_spans_def)
  qed
qed simp

lemma diff_ranges_text:
  "list_all body_line pre \<Longrightarrow> list_all good_section ds \<Longrightarrow>
   diff_ranges (pre @ diff_text ds) = concat (map section_spans ds)"
  unfolding diff_ranges_def by (simp add: diff_ranges_from_body diff_ranges_from_text)

lemma scan_records_join:
  assumes "\<And>l. l \<in> set ls \<Longrightarrow> CHR 0x0A \<notin> set l"
  shows "scan_records (join_lines ls) = ls"
proof (cases "ls = []")
  case False
  have "split_on (CHR 0x0A) (str_join newline (ls @ [[]])) = ls @ [[]]"
    using assms by (intro split_on_join) auto
  moreover have "str_join newline (ls @ [[]]) = join_lines ls"
    using False by (induction ls rule: induct_list012) (auto simp: join_lines_def)
  ultimately show ?thesis by (simp add: scan_records_def)
qed (simp add: scan_records_def join_lines_def)

lemma scan_lines_join:
  assumes "\<And>l. l \<in> set ls \<Longrightarrow> CHR 0x0A \<notin> set l \<and> length l < scan_limit \<and> (l = [] \<or> last l \<noteq> CHR 0x0D)"
  shows "scan_lines (join_lines ls) = Some ls"
proof -
  have "map drop_cr ls = ls"
    using assms by (intro map_idI) (auto simp: drop_cr_def)
  moreover have "\<not> list_ex (\<lambda>l. length l \<ge> scan_limit) ls"
    using assms by (auto simp: list_ex_iff not_le)
  ultimately show ?thesis
    using assms by (simp add: scan_lines_def scan_records_join)
qed

lemma itoa_free:
  "\<not> is_digit c \<Longrightarrow> c \<noteq> CHR ''-'' \<Longrightarrow> c \<notin> set (itoa n)"
  using itoa_chars by blast

definition int64 :: "int \<Rightarrow> bool" where
  "int64 n \<longleftrightarrow> min_int \<le> n \<and> n \<le> max_int"

lemma range_rows_render:
  assumes "\<And>r. r \<in> set rs \<Longrightarrow> CHR 0x09 \<notin> set (range_file r) \<and> int64 (range_start r) \<and> int64 (range_end r)"
  shows "range_rows (map render_range rs) = rs"
  using assms
proof (induction rs)
  case (Cons r rs)
  have "CHR 0x09 \<notin> set (itoa n)" for n
    by (rule itoa_free) (simp_all add: is_digit_def)
  then have "split_on (CHR 0x09) (render_range r)
      = [range_file r, itoa (range_start r), itoa (range_end r)]"
    using Cons.prems by (simp add: render_range_def split_on_append split_on_free)
  with Cons show ?case
    by (simp add: atoi_value_itoa int64_def)
qed simp


lemma word_split_free: "word_split s = (w, r) \<Longrightarrow> x \<in> set w \<Longrightarrow> x \<notin> set ascii_spaces"
  by (induction s arbitrary: w r) (auto split: if_splits prod.splits)

lemma str_fields_free: "w \<in> set (str_fields s) \<Longrightarrow> x \<in> set w \<Longrightarrow> x \<notin> set ascii_spaces"
proof (induction s rule: str_fields.induct)
  case (1 s)
  show ?case
  proof (cases "skip_space s")
    case Nil
    with 1 show ?thesis by (simp add: str_fields_blank)
  next
    case (Cons c t)
    obtain u r where ur: "word_split t = (u, r)" by fastforce
    have "space_len (c # t) = 0" using skip_space_no_space [of s] Cons by simp
    then have "c \<notin> set ascii_spaces" by (metis space_len_ascii zero_neq_one)
    moreover have "str_fields s = (c # u) # str_fields r"
      by (subst str_fields.simps) (simp add: Cons ur)
    ultimately show ?thesis
      using 1 Cons ur word_split_free [OF ur] by auto
  qed
qed

lemma parse_diff_file_free:
  assumes "x \<in> set (parse_diff_file l)"
  shows "x \<notin> set ascii_spaces"
proof -
  obtain a f b where "a # f # b = str_fields l"
    using assms by (auto simp: parse_diff_file_def split: list.splits)
  then have fields: "str_fields l = a # f # b" by simp
  then have "x \<in> set f"
    using assms
    by (auto simp: parse_diff_file_def Let_def trim_prefix_def split: if_splits dest: in_set_dropD)
  with fields show ?thesis using str_fields_free [of f l x] by simp
qed

lemma hunk_range_wf:
  "hunk_range f l = Some r \<Longrightarrow> range_file r = f \<and> int64 (range_start r) \<and> int64 (range_end r)"
  using wrap_int_range
  by (auto simp: hunk_range_def int64_def atoi_def bind_eq_Some_conv split: if_splits option.splits)

lemma diff_ranges_from_wf:
  "r \<in> set (diff_ranges_from f ls) \<Longrightarrow> (\<And>x. x \<in> set f \<Longrightarrow> x \<notin> set ascii_spaces) \<Longrightarrow>
   int64 (range_start r) \<and> int64 (range_end r) \<and> (\<forall>x \<in> set (range_file r). x \<notin> set ascii_spaces)"
proof (induction ls arbitrary: f)
  case (Cons l ls)
  show ?case
  proof (cases "prefix ''+++ '' l")
    case True
    with Cons show ?thesis
      using parse_diff_file_free [of _ l] by auto
  next
    case False
    with Cons.prems(1) consider "r \<in> set (diff_ranges_from f ls)" | "hunk_range f l = Some r"
      by (auto split: if_splits option.splits)
    then show ?thesis
      using Cons hunk_range_wf by cases blast+
  qed
qed simp

lemma scan_rendered_ranges:
  assumes "\<And>r. r \<in> set (diff_ranges ls) \<Longrightarrow> length (render_range r) < scan_limit"
  shows "map_option range_rows (scan_lines (render_ranges (diff_ranges ls))) = Some (diff_ranges ls)"
proof -
  have wf: "int64 (range_start r) \<and> int64 (range_end r) \<and> (\<forall>x \<in> set (range_file r). x \<notin> set ascii_spaces)"
    if "r \<in> set (diff_ranges ls)" for r
    using that diff_ranges_from_wf [of r "[]" ls] by (simp add: diff_ranges_def)
  have no: "CHR 0x09 \<notin> set (range_file r) \<and> CHR 0x0A \<notin> set (range_file r)" if "r \<in> set (diff_ranges ls)" for r
    using wf [OF that] by (auto simp: ascii_spaces_def)
  have nl: "CHR 0x0A \<notin> set (itoa n)" "CHR 0x0D \<notin> set (itoa n)" for n
    by (rule itoa_free; simp add: is_digit_def)+
  have ne: "itoa n \<noteq> []" for n
    using all_digits_itoa_nat by (auto simp: itoa_def all_digits_def)
  have "last (render_range r) \<noteq> CHR 0x0D" for r
    using last_in_set [OF ne [of "range_end r"]] nl(2) [of "range_end r"] ne [of "range_end r"]
    by (auto simp: render_range_def simp del: last_in_set)
  then have "scan_lines (render_ranges (diff_ranges ls)) = Some (map render_range (diff_ranges ls))"
    unfolding render_ranges_def
    using assms no nl by (intro scan_lines_join) (auto simp: render_range_def)
  moreover have "range_rows (map render_range (diff_ranges ls)) = diff_ranges ls"
    using wf no by (intro range_rows_render) auto
  ultimately show ?thesis by simp
qed

lemma section_span_covers:
  "(\<exists>r \<in> set (concat (map section_spans ds)).
      range_file r = p \<and> range_start r \<le> int n \<and> int n \<le> range_end r) \<longleftrightarrow> adds_line ds p n"
proof -
  have hunks: "(\<exists>r \<in> set (hunk_spans f hs). range_file r = p \<and> range_start r \<le> int n \<and> int n \<le> range_end r)
      \<longleftrightarrow> f = p \<and> (\<exists>(old, s, k, around, body) \<in> set hs. s \<le> n \<and> n < s + added_lines k)" for f hs
    by (induction hs) (auto simp: hunk_spans_def)
  have one: "(\<exists>r \<in> set (section_spans (file, hs)). range_file r = p \<and> range_start r \<le> int n \<and> int n \<le> range_end r)
      \<longleftrightarrow> file = Some p \<and> (\<exists>(old, s, k, around, body) \<in> set hs. s \<le> n \<and> n < s + added_lines k)" for "file" hs
    using hunks by (cases "file") (simp_all add: section_spans_def)
  have "(\<exists>r \<in> set (concat (map section_spans ds)).
        range_file r = p \<and> range_start r \<le> int n \<and> int n \<le> range_end r) \<longleftrightarrow>
      (\<exists>(file, hs) \<in> set ds. \<exists>r \<in> set (section_spans (file, hs)).
        range_file r = p \<and> range_start r \<le> int n \<and> int n \<le> range_end r)"
    by fastforce
  then show ?thesis unfolding adds_line_def by (simp only: one)
qed

text \<open>A finding stands on an added line: the file and the line it starts with are one of the diff's.\<close>

definition on_added_line :: "diff_section list \<Rightarrow> string \<Rightarrow> bool" where
  "on_added_line ds x \<longleftrightarrow>
     (\<exists>p n. finding_file_and_line x = (p, int n) \<and> p \<noteq> [] \<and> n \<noteq> 0 \<and> adds_line ds p n)"

lemma section_start: "r \<in> set (concat (map section_spans ds)) \<Longrightarrow> 0 \<le> range_start r"
  by (auto simp: section_spans_def hunk_spans_def split: option.splits)

lemma diff_scope_member:
  assumes "list_all body_line pre" "list_all good_section ds"
  shows "x \<in> set (line_in_ranges ls (diff_ranges (pre @ diff_text ds))) \<longleftrightarrow> x \<in> set ls \<and> on_added_line ds x"
proof -
  obtain p n where x: "finding_file_and_line x = (p, n)" by fastforce
  have "(\<exists>r \<in> set (concat (map section_spans ds)). range_file r = p \<and> range_start r \<le> n \<and> n \<le> range_end r) \<longleftrightarrow>
      (\<exists>m. n = int m \<and> adds_line ds p m)"
  proof (cases "0 \<le> n")
    case True
    then obtain m where "n = int m" using nonneg_int_cases by blast
    then show ?thesis using section_span_covers [of ds p m] by auto
  next
    case False
    then show ?thesis using section_start by fastforce
  qed
  then show ?thesis
    unfolding diff_ranges_text [OF assms]
    using x by (auto simp: line_in_ranges.filt_member [of _ ls] ranges_contain_iff on_added_line_def)
qed

section \<open>Properties\<close>

text \<open>
  A finding is recognised by its normalised path and its message alone: two findings in one
  tree, wherever they stand in their files, have the same key exactly when the paths normalise to
  the same path and the messages agree byte for byte.
\<close>

theorem finding_key_identity:
  assumes "all_digits l" "all_digits c" "all_digits l'" "all_digits c'"
    and "colon \<notin> set p" "colon \<notin> set p'" "colon \<notin> set pwd" "colon \<notin> set cwd"
  shows "finding_key (p @ location_text l c @ m) pwd cwd = finding_key (p' @ location_text l' c' @ m') pwd cwd
    \<longleftrightarrow> normalize_path p pwd cwd = normalize_path p' pwd cwd \<and> m = m'"
proof -
  have free: "colon \<notin> set (normalize_path p pwd cwd)" "colon \<notin> set (normalize_path p' pwd cwd)"
    using normalize_path_subset assms(5,6) by blast+
  then show ?thesis
    using finding_key_at [OF assms(1,2,5,7,8)] finding_key_at [OF assms(3,4,6,7,8)]
    by (simp add: free_append_eq)
qed

theorem finding_key_identity_witness:
  "finding_key ''a.go:10:2: m'' [] [] = finding_key ''../a.go:9:33: m'' [] []"
  using finding_key_identity [of "''10''" "''2''" "''9''" "''33''" "''a.go''" "''../a.go''" "[]" "[]" "'' m''" "'' m''"]
  by (simp add: location_text_def all_digits_def is_digit_def strip_parents.simps)

text \<open>
  The location search is the leftmost match of \<open>:[0-9]+:[0-9]+:\<close>: it fails exactly on the lines
  with no such run, and a match it returns is a run that no other run precedes.
\<close>

theorem find_loc_correct:
  "(find_loc s = None \<longleftrightarrow> \<not> (\<exists>p l c m. all_digits l \<and> all_digits c \<and> s = p @ location_text l c @ m)) \<and>
   (case find_loc s of
      None \<Rightarrow> True
    | Some (a, b) \<Rightarrow>
        (\<exists>l c. all_digits l \<and> all_digits c \<and> s = take a s @ location_text l c @ drop b s) \<and>
        \<not> (\<exists>p l c m. all_digits l \<and> all_digits c \<and> s = p @ location_text l c @ m \<and> length p < a))"
proof (cases "find_loc s")
  case None
  then have "\<not> (\<exists>p l c m. all_digits l \<and> all_digits c \<and> s = p @ location_text l c @ m)"
    by (metis find_loc_leftmost option.distinct(1))
  with None show ?thesis by simp
next
  case (Some ab)
  obtain a b where ab: "ab = (a, b)" by fastforce
  then obtain l c where lc: "all_digits l" "all_digits c" "s = take a s @ location_text l c @ drop b s"
    using Some find_loc_sound by blast
  have "a \<le> length p" if "all_digits l'" "all_digits c'" "s = p @ location_text l' c' @ m" for p l' c' m
    using find_loc_leftmost [OF that(1,2), of p m] Some ab that(3) by auto
  with Some ab lc show ?thesis
    by (auto simp: not_less)
qed

text \<open>
  C36. A scoped run over a diff keeps exactly the findings on added lines: for a diff as \<open>git diff --unified=0\<close>
  writes it, of any files and hunks, with or without the number of added lines in a header and the function after
  it, a finding \<open>p:l:c: m\<close> of the input is kept if and only if the diff adds line \<open>l\<close> of \<open>p\<close>. The file names of
  the diff have no white space, and no line between its headers reads as one.
\<close>

theorem diff_scope_exact:
  assumes "list_all body_line pre" "list_all good_section ds"
    and "colon \<notin> set p" "p \<noteq> []" "all_digits l" "0 < digits_val l" "int (digits_val l) \<le> max_int"
  shows "p @ location_text l c @ m \<in> set (line_in_ranges ls (diff_ranges (pre @ diff_text ds))) \<longleftrightarrow>
    p @ location_text l c @ m \<in> set ls \<and>
    (\<exists>(file, hs) \<in> set ds. file = Some p \<and>
       (\<exists>(old, s, k, around, body) \<in> set hs. s \<le> digits_val l \<and> digits_val l < s + added_lines k))"
  unfolding line_in_ranges_at [OF assms(3-7)] diff_ranges_text [OF assms(1,2)] section_span_covers
  by (simp only: adds_line_def)

theorem diff_scope_exact_witness:
  "\<exists>diff. diff = [''diff --git a/a.go b/a.go'', ''+++ b/a.go'', ''@@ -1 +3,2 @@'', ''+x'', ''+y'', ''@@ -7,0 +9 @@ func f() {'', ''+z''] \<and>
     ''a.go:9:1: m'' \<in> set (line_in_ranges [''a.go:8:1: m'', ''a.go:9:1: m''] (diff_ranges diff)) \<and>
     ''a.go:8:1: m'' \<notin> set (line_in_ranges [''a.go:8:1: m'', ''a.go:9:1: m''] (diff_ranges diff))"
proof -
  let ?pre = "[''diff --git a/a.go b/a.go'']"
  let ?ds = "[(Some ''a.go'', [(''-1'', 3, Some 2, [], [''+x'', ''+y'']), (''-7,0'', 9, None, '' func f() {'', [''+z''])])]"
  have written: "?pre @ diff_text ?ds =
      [''diff --git a/a.go b/a.go'', ''+++ b/a.go'', ''@@ -1 +3,2 @@'', ''+x'', ''+y'', ''@@ -7,0 +9 @@ func f() {'', ''+z'']"
    by code_simp
  have good: "list_all body_line ?pre" "list_all good_section ?ds" by code_simp+
  have "colon \<notin> set ''a.go''" by simp
  note scope = diff_scope_exact [OF good this, of _ "''1''" "'' m''" "[''a.go:8:1: m'', ''a.go:9:1: m'']"]
  have "''a.go:9:1: m'' \<in> set (line_in_ranges [''a.go:8:1: m'', ''a.go:9:1: m''] (diff_ranges (?pre @ diff_text ?ds)))"
    using scope [of "''9''"]
    by (simp add: location_text_def all_digits_def is_digit_def digits_val_def digit_val_def max_int_def added_lines_def)
  moreover have "''a.go:8:1: m'' \<notin> set (line_in_ranges [''a.go:8:1: m'', ''a.go:9:1: m''] (diff_ranges (?pre @ diff_text ?ds)))"
    using scope [of "''8''"]
    by (simp add: location_text_def all_digits_def is_digit_def digits_val_def digit_val_def max_int_def added_lines_def)
  ultimately show ?thesis unfolding written by blast
qed

text \<open>
  The two halves of the scoped pipeline meet: when the range file holds what the \<open>ranges\<close>
  action wrote for a diff, the \<open>linefilter\<close> action reads back exactly the ranges of that diff,
  whatever the diff contained.
\<close>

theorem ranges_file_roundtrip:
  assumes "fo_action ro = ''ranges''" "transform_findings files ro diff = Inr out"
    and "fo_action fo = ''linefilter''" "fo_range_file fo \<noteq> []" "files (fo_range_file fo) = Some out"
    and "\<And>r. r \<in> set (diff_ranges diff) \<Longrightarrow> length (render_range r) < scan_limit"
  shows "transform_findings files fo ls = Inr (join_lines (line_in_ranges ls (diff_ranges diff)))"
proof -
  have "out = render_ranges (diff_ranges diff)"
    using assms(1,2) by (simp add: transform_findings_def)
  then show ?thesis
    using assms(3-5) scan_rendered_ranges [of diff, OF assms(6)]
    by (auto simp: transform_findings_def load_ranges_def split: option.splits)
qed

theorem ranges_file_roundtrip_witness:
  "transform_findings (\<lambda>_. Some (''a.go'' @ tab @ ''3'' @ tab @ ''4'' @ newline))
      \<lparr>fo_action = ''linefilter'', fo_pwd = [], fo_cwd = [], fo_label = [], fo_key_file = [], fo_range_file = ''r''\<rparr>
      [''a.go:4:1: m'', ''a.go:5:1: m'']
    = Inr (''a.go:4:1: m'' @ newline)"
proof -
  let ?ro = "\<lparr>fo_action = ''ranges'', fo_pwd = [], fo_cwd = [], fo_label = [], fo_key_file = [], fo_range_file = []\<rparr>"
  let ?fo = "\<lparr>fo_action = ''linefilter'', fo_pwd = [], fo_cwd = [], fo_label = [], fo_key_file = [], fo_range_file = ''r''\<rparr>"
  let ?diff = "[''+++ b/a.go'', ''@@ -1,2 +3,2 @@'']"
  let ?out = "''a.go'' @ tab @ ''3'' @ tab @ ''4'' @ newline"
  have "diff_ranges ?diff = [\<lparr>range_file = ''a.go'', range_start = 3, range_end = 4\<rparr>]"
    by code_simp
  moreover have "transform_findings (\<lambda>_. Some ?out) ?ro ?diff = Inr ?out"
    by code_simp
  moreover have "join_lines (line_in_ranges [''a.go:4:1: m'', ''a.go:5:1: m'']
      [\<lparr>range_file = ''a.go'', range_start = 3, range_end = 4\<rparr>]) = ''a.go:4:1: m'' @ newline"
    by code_simp
  moreover have "length (render_range \<lparr>range_file = ''a.go'', range_start = 3, range_end = 4\<rparr>) < scan_limit"
    by (simp add: render_range_def scan_limit_def itoa_def itoa_nat.simps)
  ultimately show ?thesis
    using ranges_file_roundtrip [of ?ro "\<lambda>_. Some ?out" ?diff ?out ?fo "[''a.go:4:1: m'', ''a.go:5:1: m'']"]
    by simp
qed

end
