(* ===== verification/Baseline.thy ===== *)
theory Baseline
  imports Findings
begin

text \<open>
  The baseline files of \<open>internal/baseline\<close>: a file holds one accepted finding per line with the
  metadata \<open>first_added\<close> and \<open>last_seen\<close> behind a label marker, and an update rewrites it from the
  findings of a fresh run. The theory models the rewriter (\<open>rewrite.go\<close>), the reader
  (\<open>extract.go\<close>), the statistics (\<open>stats.go\<close>), the planning of one component (\<open>manifest.go\<close>) and the
  report (\<open>report.go\<close>). The regular expression library is a parameter: \<open>compile p\<close> is \<open>None\<close> when the
  pattern does not compile and the match test otherwise.
\<close>

type_synonym matcher = "string \<Rightarrow> bool"

section \<open>Modes and rows\<close>

datatype baseline_mode = ModeSync | ModePruneFixed | ModeAcceptNew

definition mode_by_name :: "(string \<times> baseline_mode) list" where
  "mode_by_name =
    [(''sync'', ModeSync), (''prune-fixed'', ModePruneFixed), (''remove-fixed'', ModePruneFixed),
     (''accept-new'', ModeAcceptNew)]"

datatype baseline_error =
    UnknownMode string
  | BadPattern string
  | ReadFailed string

definition parse_mode :: "string \<Rightarrow> (baseline_error, baseline_mode) result" where
  "parse_mode v = (case map_of mode_by_name v of Some m \<Rightarrow> Inr m | None \<Rightarrow> Inl (UnknownMode v))"

definition skip_input :: "string \<Rightarrow> bool" where
  "skip_input line \<longleftrightarrow> blank_line line \<or> prefix ''#'' line"

definition first_added_from :: "string \<Rightarrow> string" where
  "first_added_from metadata =
     (case find (prefix ''first_added='') (str_fields metadata) of
        None \<Rightarrow> []
      | Some f \<Rightarrow> drop (length ''first_added='') f)"

text \<open>A row cut at the first marker: the finding, and the metadata behind the marker.\<close>

definition split_row :: "string \<Rightarrow> string \<Rightarrow> string \<times> string" where
  "split_row label line =
     (case str_index line (label_marker label) of
        None \<Rightarrow> (line, [])
      | Some i \<Rightarrow> (take i line, drop (i + length (label_marker label)) line))"

section \<open>The rewriter\<close>

record rewrite_input =
  ri_current :: "string list"
  ri_old :: "string list"
  ri_label :: string
  ri_now :: string
  ri_scope :: string
  ri_mode :: baseline_mode

text \<open>\<open>currentOrder\<close> with \<open>currentFinding\<close>, and \<open>oldOrder\<close> with the three maps of the old rows.\<close>

record current_index =
  cur_order :: "string list"
  cur_finding :: "string \<Rightarrow> string option"

record old_index =
  old_order :: "string list"
  old_finding :: "string \<Rightarrow> string option"
  old_line :: "string \<Rightarrow> string option"
  old_first_added :: "string \<Rightarrow> string option"

definition empty_current :: current_index where
  "empty_current = \<lparr>cur_order = [], cur_finding = Map.empty\<rparr>"

definition empty_old :: old_index where
  "empty_old = \<lparr>old_order = [], old_finding = Map.empty, old_line = Map.empty, old_first_added = Map.empty\<rparr>"

definition add_current :: "string \<Rightarrow> current_index \<Rightarrow> current_index" where
  "add_current line ix =
     (if skip_input line then ix
      else (let key = baseline_key line in
            \<lparr>cur_order = (if cur_finding ix key = None then cur_order ix @ [key] else cur_order ix),
             cur_finding = (cur_finding ix)(key \<mapsto> line)\<rparr>))"

definition add_old :: "string \<Rightarrow> string \<Rightarrow> old_index \<Rightarrow> old_index" where
  "add_old label line ix =
     (if skip_input line then ix
      else (let (finding, metadata) = split_row label line in
            if finding = [] then ix
            else (let key = baseline_key finding in
                  \<lparr>old_order = (if old_finding ix key = None then old_order ix @ [key] else old_order ix),
                   old_finding = (old_finding ix)(key \<mapsto> finding),
                   old_line = (old_line ix)(key \<mapsto> line),
                   old_first_added = (old_first_added ix)(key \<mapsto> first_added_from metadata)\<rparr>)))"

definition current_of :: "string list \<Rightarrow> current_index" where
  "current_of ls = fold add_current ls empty_current"

definition old_of :: "string \<Rightarrow> string list \<Rightarrow> old_index" where
  "old_of label ls = fold (add_old label) ls empty_old"

definition row_text :: "string \<Rightarrow> string \<Rightarrow> string \<Rightarrow> string \<Rightarrow> string" where
  "row_text finding label first_added now =
     finding @ label_marker label @ ''first_added='' @ first_added @ '' last_seen='' @ now"

definition render_current :: "string \<Rightarrow> string \<Rightarrow> current_index \<Rightarrow> old_index \<Rightarrow> string \<Rightarrow> string" where
  "render_current label now cur old key =
     (let first_added = map_get (old_first_added old) key in
      row_text (map_get (cur_finding cur) key) label
        (if first_added = [] then now else first_added) now)"

definition in_scope :: "matcher option \<Rightarrow> string \<Rightarrow> bool" where
  "in_scope scope finding = (case scope of None \<Rightarrow> True | Some m \<Rightarrow> m finding)"

definition old_outside_scope :: "matcher option \<Rightarrow> current_index \<Rightarrow> old_index \<Rightarrow> string list" where
  "old_outside_scope scope cur old =
     (if scope = None then []
      else map (\<lambda>k. map_get (old_line old) k)
        (filter (\<lambda>k. cur_finding cur k = None \<and> \<not> in_scope scope (map_get (old_finding old) k))
          (old_order old)))"

definition rewrite_rows ::
  "baseline_mode \<Rightarrow> matcher option \<Rightarrow> string \<Rightarrow> string \<Rightarrow> current_index \<Rightarrow> old_index \<Rightarrow> string list" where
  "rewrite_rows mode scope label now cur old =
     (case mode of
        ModeSync \<Rightarrow>
          map (render_current label now cur old) (cur_order cur) @ old_outside_scope scope cur old
      | ModePruneFixed \<Rightarrow>
          map (render_current label now cur old)
            (filter (\<lambda>k. old_finding old k \<noteq> None) (cur_order cur)) @ old_outside_scope scope cur old
      | ModeAcceptNew \<Rightarrow>
          map (render_current label now cur old) (cur_order cur) @
          map (\<lambda>k. map_get (old_line old) k) (filter (\<lambda>k. cur_finding cur k = None) (old_order old)))"

definition compile_filter ::
  "(string \<Rightarrow> matcher option) \<Rightarrow> string \<Rightarrow> (baseline_error, matcher option) result" where
  "compile_filter compile pattern =
     (if pattern = [] then Inr None
      else case compile pattern of None \<Rightarrow> Inl (BadPattern pattern) | Some m \<Rightarrow> Inr (Some m))"

definition rewrite_body ::
  "(string \<Rightarrow> matcher option) \<Rightarrow> rewrite_input \<Rightarrow> (baseline_error, string list) result" where
  "rewrite_body compile ri =
     (case compile_filter compile (ri_scope ri) of
        Inl e \<Rightarrow> Inl e
      | Inr scope \<Rightarrow>
          Inr (rewrite_rows (ri_mode ri) scope (ri_label ri) (ri_now ri)
                 (current_of (ri_current ri)) (old_of (ri_label ri) (ri_old ri))))"

definition render_file :: "string \<Rightarrow> string \<Rightarrow> string list \<Rightarrow> string" where
  "render_file title now body =
     ''# '' @ title @ '': generated_at='' @ now @ newline @ concat (map (\<lambda>l. l @ newline) body)"

section \<open>The reader and the statistics\<close>

definition baseline_finding :: "string \<Rightarrow> string \<Rightarrow> string" where
  "baseline_finding line label =
     (if skip_input line then [] else strip_parents (fst (split_row label line)))"

definition keep_row :: "matcher option \<Rightarrow> matcher option \<Rightarrow> string \<Rightarrow> bool" where
  "keep_row exclude scope finding \<longleftrightarrow>
     finding \<noteq> [] \<and> \<not> (case exclude of None \<Rightarrow> False | Some m \<Rightarrow> m finding) \<and> in_scope scope finding"

definition row_keys :: "string \<Rightarrow> matcher option \<Rightarrow> matcher option \<Rightarrow> string list \<Rightarrow> string set" where
  "row_keys label exclude scope rows =
     set (map baseline_key (filter (keep_row exclude scope) (map (\<lambda>l. baseline_finding l label) rows)))"

definition baseline_key_set ::
  "(string \<Rightarrow> matcher option) \<Rightarrow> string list \<Rightarrow> string \<Rightarrow> string \<Rightarrow> string \<Rightarrow>
     (baseline_error, string set) result" where
  "baseline_key_set compile rows label exclude_pattern scope_pattern =
     (case compile_filter compile exclude_pattern of
        Inl e \<Rightarrow> Inl e
      | Inr exclude \<Rightarrow>
          (case compile_filter compile scope_pattern of
             Inl e \<Rightarrow> Inl e
           | Inr scope \<Rightarrow> Inr (row_keys label exclude scope rows)))"

definition finding_key_list :: "string list \<Rightarrow> string list" where
  "finding_key_list ls = map baseline_key (filter (\<lambda>l. \<not> blank_line l) ls)"

record baseline_stats =
  bs_label :: string
  bs_path :: string
  bs_scope :: string
  bs_captured :: nat
  bs_added :: nat
  bs_refreshed :: nat
  bs_removed :: nat
  bs_covered :: nat
  bs_remaining :: nat

definition is_noop :: "baseline_stats \<Rightarrow> bool" where
  "is_noop s \<longleftrightarrow> bs_added s = 0 \<and> bs_removed s = 0"

definition count_missing :: "string set \<Rightarrow> string set \<Rightarrow> nat" where
  "count_missing a b = card (Set.filter (\<lambda>k. k \<notin> b) a)"

definition count_shared :: "string set \<Rightarrow> string set \<Rightarrow> nat" where
  "count_shared a b = card (Set.filter (\<lambda>k. k \<in> b) a)"

definition compute_stats ::
  "string \<Rightarrow> string \<Rightarrow> string \<Rightarrow> string list \<Rightarrow> string set \<Rightarrow> string set \<Rightarrow> baseline_stats" where
  "compute_stats label path scope findings old_keys new_keys =
     \<lparr>bs_label = label, bs_path = path, bs_scope = scope,
      bs_captured = length findings,
      bs_added = count_missing new_keys old_keys,
      bs_refreshed = count_shared old_keys new_keys,
      bs_removed = count_missing old_keys new_keys,
      bs_covered = length (filter (\<lambda>k. k \<in> new_keys) (finding_key_list findings)),
      bs_remaining = card new_keys\<rparr>"

section \<open>Planning one component\<close>

text \<open>\<open>os.ReadFile\<close> of one path: no such file, another failure, or the content.\<close>

datatype file_read = NoFile | Unreadable | Content string

definition text_lines :: "string \<Rightarrow> string list" where
  "text_lines data =
     (if data = [] then []
      else (let text = trim_suffix data newline in
            if text = [] then [] else split_on (CHR 0x0A) text))"

definition read_lines :: "(string \<Rightarrow> file_read) \<Rightarrow> string \<Rightarrow> (baseline_error, string list) result" where
  "read_lines files path =
     (case files path of
        NoFile \<Rightarrow> Inr []
      | Unreadable \<Rightarrow> Inl (ReadFailed path)
      | Content data \<Rightarrow> Inr (text_lines data))"

record baseline_component =
  bc_title :: string
  bc_label :: string
  bc_baseline_file :: string
  bc_findings_file :: string
  bc_mode :: string
  bc_exclude :: string
  bc_scope :: string

record planned_write =
  pw_stats :: baseline_stats
  pw_path :: string
  pw_contents :: string

definition plan_component ::
  "(string \<Rightarrow> matcher option) \<Rightarrow> (string \<Rightarrow> file_read) \<Rightarrow> baseline_component \<Rightarrow> string \<Rightarrow>
     (baseline_error, planned_write) result" where
  "plan_component compile files c now =
     result_bind (parse_mode (bc_mode c)) (\<lambda>mode.
     result_bind (read_lines files (bc_baseline_file c)) (\<lambda>old_lines.
     result_bind (read_lines files (bc_findings_file c)) (\<lambda>findings.
     result_bind (baseline_key_set compile old_lines (bc_label c) (bc_exclude c) (bc_scope c)) (\<lambda>old_keys.
     result_bind (rewrite_body compile
        \<lparr>ri_current = findings, ri_old = old_lines, ri_label = bc_label c, ri_now = now,
         ri_scope = bc_scope c, ri_mode = mode\<rparr>) (\<lambda>body.
     result_bind (baseline_key_set compile body (bc_label c) (bc_exclude c) (bc_scope c)) (\<lambda>new_keys.
       Inr \<lparr>pw_stats = compute_stats (bc_label c) (bc_baseline_file c) (bc_scope c) findings old_keys new_keys,
            pw_path = bc_baseline_file c,
            pw_contents = render_file (bc_title c) now body\<rparr>))))))"

section \<open>Insertion-ordered indexes\<close>

text \<open>
  The rewriter keeps two indexes of the same shape: a slice with the keys in the order of their
  first line, beside a map whose entries later lines overwrite. \<open>key_of\<close> is the key a line
  contributes, if any.
\<close>

locale ordered_index =
  fixes empty :: 'ix
    and add :: "'l \<Rightarrow> 'ix \<Rightarrow> 'ix"
    and order :: "'ix \<Rightarrow> 'k list"
    and present :: "'ix \<Rightarrow> 'k \<Rightarrow> bool"
    and key_of :: "'l \<Rightarrow> 'k option"
  assumes empty_order: "order empty = []"
    and empty_present: "\<not> present empty k"
    and add_skip: "key_of l = None \<Longrightarrow> add l ix = ix"
    and add_order: "key_of l = Some k \<Longrightarrow>
      order (add l ix) = (if present ix k then order ix else order ix @ [k])"
    and add_present: "key_of l = Some k \<Longrightarrow> present (add l ix) j \<longleftrightarrow> j = k \<or> present ix j"
begin

definition index_of :: "'l list \<Rightarrow> 'ix" where
  "index_of ls = fold add ls empty"

lemma index_of_snoc: "index_of (ls @ [l]) = add l (index_of ls)"
  by (simp add: index_of_def)

lemma index_present: "present (index_of ls) k \<longleftrightarrow> Some k \<in> key_of ` set ls"
proof (induction ls rule: rev_induct)
  case Nil
  then show ?case by (simp add: index_of_def empty_present)
next
  case (snoc l ls)
  then show ?case
    by (cases "key_of l") (auto simp: index_of_snoc add_skip add_present)
qed

lemma index_order: "set (order (index_of ls)) = {k. present (index_of ls) k} \<and> distinct (order (index_of ls))"
proof (induction ls rule: rev_induct)
  case Nil
  then show ?case by (simp add: index_of_def empty_order empty_present)
next
  case (snoc l ls)
  then show ?case
    by (cases "key_of l") (auto simp: index_of_snoc add_skip add_order add_present)
qed

lemma index_order_distinct_keys:
  "distinct (List.map_filter key_of ls) \<Longrightarrow> order (index_of ls) = List.map_filter key_of ls"
proof (induction ls rule: rev_induct)
  case Nil
  then show ?case by (simp add: index_of_def empty_order map_filter_def)
next
  case (snoc l ls)
  show ?case
  proof (cases "key_of l")
    case None
    with snoc show ?thesis by (simp add: index_of_snoc add_skip map_filter_def)
  next
    case (Some k)
    have "\<not> present (index_of ls) k"
    proof
      assume "present (index_of ls) k"
      then obtain l' where "l' \<in> set ls" "key_of l' = Some k"
        by (auto simp: index_present)
      then show False
        using snoc.prems Some by (force simp: map_filter_def)
    qed
    with snoc Some show ?thesis
      by (simp add: index_of_snoc add_order map_filter_def)
  qed
qed

end

definition current_key_of :: "string \<Rightarrow> string option" where
  "current_key_of l = (if skip_input l then None else Some (baseline_key l))"

definition old_key_of :: "string \<Rightarrow> string \<Rightarrow> string option" where
  "old_key_of label l =
     (if skip_input l \<or> fst (split_row label l) = [] then None
      else Some (baseline_key (fst (split_row label l))))"

interpretation current_ix: ordered_index empty_current add_current cur_order
  "\<lambda>ix k. cur_finding ix k \<noteq> None" current_key_of
  by unfold_locales (auto simp: empty_current_def add_current_def current_key_of_def Let_def split: if_splits)

interpretation old_ix: ordered_index empty_old "add_old label" old_order
  "\<lambda>ix k. old_finding ix k \<noteq> None" "old_key_of label"
  by unfold_locales (auto simp: empty_old_def add_old_def old_key_of_def Let_def split: if_splits prod.splits)

lemma current_of_index: "current_of ls = current_ix.index_of ls"
  by (simp add: current_of_def current_ix.index_of_def)

lemma old_of_index: "old_of label ls = old_ix.index_of label ls"
  by (simp add: old_of_def old_ix.index_of_def)

text \<open>What the maps of the two indexes hold.\<close>

lemma cur_finding_Some:
  "cur_finding (current_of ls) k = Some l \<Longrightarrow> l \<in> set ls \<and> \<not> skip_input l \<and> baseline_key l = k"
proof (induction ls rule: rev_induct)
  case Nil
  then show ?case by (simp add: current_of_def empty_current_def)
next
  case (snoc x ls)
  then show ?case
    by (auto simp: current_of_def add_current_def Let_def split: if_splits)
qed

definition old_entry :: "string \<Rightarrow> old_index \<Rightarrow> string \<Rightarrow> string \<Rightarrow> bool" where
  "old_entry label ix k l \<longleftrightarrow>
     \<not> skip_input l \<and> old_key_of label l = Some k \<and>
     old_finding ix k = Some (fst (split_row label l)) \<and>
     old_line ix k = Some l \<and>
     old_first_added ix k = Some (first_added_from (snd (split_row label l)))"

lemma old_entry_exists:
  "old_finding (old_of label ls) k \<noteq> None \<Longrightarrow> \<exists>l \<in> set ls. old_entry label (old_of label ls) k l"
proof (induction ls rule: rev_induct)
  case Nil
  then show ?case by (simp add: old_of_def empty_old_def)
next
  case (snoc x ls)
  let ?ix = "old_of label ls"
  have step: "old_of label (ls @ [x]) = add_old label x ?ix"
    by (simp add: old_of_def)
  show ?case
  proof (cases "old_key_of label x = Some k")
    case True
    then have "old_entry label (add_old label x ?ix) k x"
      by (auto simp: old_entry_def add_old_def old_key_of_def Let_def split: if_splits prod.splits)
    then show ?thesis by (auto simp: step)
  next
    case False
    then have same: "old_entry label (add_old label x ?ix) k l = old_entry label ?ix k l"
      "old_finding (add_old label x ?ix) k = old_finding ?ix k" for l
      by (auto simp: old_entry_def add_old_def old_key_of_def Let_def split: if_splits prod.splits)
    with snoc show ?thesis by (auto simp: step)
  qed
qed

lemma old_absent:
  "old_finding (old_of label ls) k = None \<Longrightarrow>
   old_line (old_of label ls) k = None \<and> old_first_added (old_of label ls) k = None"
proof (induction ls rule: rev_induct)
  case Nil
  then show ?case by (simp add: old_of_def empty_old_def)
next
  case (snoc x ls)
  then show ?case
    by (auto simp: old_of_def add_old_def Let_def split: if_splits prod.splits)
qed

lemma old_absent_keys:
  "old_finding (old_of label ls) k = None \<longleftrightarrow> (\<forall>l \<in> set ls. old_key_of label l \<noteq> Some k)"
  using old_ix.index_present [of label ls k] by (auto simp: old_of_index image_iff eq_commute)

section \<open>Reading a rewritten body back\<close>

lemma baseline_key_strip [simp]: "baseline_key (strip_parents f) = baseline_key f"
  by (simp add: baseline_key_def strip_parents_idem)

lemma collapse_loc_Nil_iff: "collapse_loc s = [] \<longleftrightarrow> s = []"
  by (auto simp: collapse_loc_def split: option.splits)

lemma baseline_key_Nil_iff: "baseline_key f = [] \<longleftrightarrow> strip_parents f = []"
  by (simp add: baseline_key_def collapse_loc_Nil_iff)

definition recorded_keys :: "string \<Rightarrow> string list \<Rightarrow> string set" where
  "recorded_keys label rows = row_keys label None None rows"

lemma recorded_keys_eq:
  "recorded_keys label rows =
     {baseline_key (fst (split_row label l)) | l. l \<in> set rows \<and> \<not> skip_input l} - {[]}"
proof -
  have "k \<in> recorded_keys label rows \<longleftrightarrow>
      (\<exists>l \<in> set rows. baseline_finding l label \<noteq> [] \<and> k = baseline_key (baseline_finding l label))" for k
    by (auto simp: recorded_keys_def row_keys_def keep_row_def in_scope_def)
  moreover have "baseline_finding l label \<noteq> [] \<and> k = baseline_key (baseline_finding l label) \<longleftrightarrow>
      \<not> skip_input l \<and> k = baseline_key (fst (split_row label l)) \<and> k \<noteq> []" for k l
    by (auto simp: baseline_finding_def baseline_key_Nil_iff)
  ultimately show ?thesis by auto
qed

lemma strip_parents_Nil [simp]: "strip_parents [] = []"
  by (simp add: strip_parents_stop)

definition old_keys :: "string \<Rightarrow> string list \<Rightarrow> string set" where
  "old_keys label ls = {k. \<exists>l \<in> set ls. old_key_of label l = Some k}"

lemma old_absent_iff: "old_finding (old_of label ls) k = None \<longleftrightarrow> k \<notin> old_keys label ls"
  by (auto simp: old_absent_keys old_keys_def)

lemma recorded_keys_old: "recorded_keys label ls = old_keys label ls - {[]}"
  unfolding recorded_keys_eq old_keys_def
  by (auto simp: old_key_of_def baseline_key_Nil_iff split: if_splits)

definition current_keys :: "string list \<Rightarrow> string set" where
  "current_keys ls = baseline_key ` {l \<in> set ls. \<not> skip_input l}"

lemma current_absent_iff: "cur_finding (current_of ls) k = None \<longleftrightarrow> k \<notin> current_keys ls"
  using current_ix.index_present [of ls k]
  by (auto simp: current_of_index current_keys_def current_key_of_def image_iff split: if_splits)

definition clean_finding :: "string \<Rightarrow> string \<Rightarrow> bool" where
  "clean_finding label f \<longleftrightarrow> \<not> skip_input f \<and> str_index f (label_marker label) = None"

lemma split_row_text:
  assumes "CHR 0x09 \<notin> set label" "str_index f (label_marker label) = None"
  shows "split_row label (row_text f label a now) = (f, ''first_added='' @ a @ '' last_seen='' @ now)"
proof -
  have marker: "label_marker label = CHR 0x09 # (''# '' @ label @ '':'')"
    by (simp add: label_marker_def)
  have "CHR 0x09 \<notin> set (''# '' @ label @ '':'')" using assms(1) by simp
  from str_index_first_overlap [OF this, of f] assms(2)
  have "str_index (row_text f label a now) (label_marker label) = Some (length f)"
    unfolding row_text_def marker by simp
  then show ?thesis
    by (simp add: split_row_def row_text_def)
qed

lemma skip_input_append: "\<not> skip_input f \<Longrightarrow> \<not> skip_input (f @ x)"
  by (cases f) (auto simp: skip_input_def blank_line_def)

lemma row_text_key:
  assumes "CHR 0x09 \<notin> set label" "clean_finding label f"
  shows "\<not> skip_input (row_text f label a now)" "fst (split_row label (row_text f label a now)) = f"
  using assms split_row_text [of label f a now] skip_input_append [of f]
  by (auto simp: clean_finding_def row_text_def)

lemma recorded_keys_append: "recorded_keys label (xs @ ys) = recorded_keys label xs \<union> recorded_keys label ys"
  by (auto simp: recorded_keys_eq)

lemma recorded_keys_map:
  assumes "\<And>k. k \<in> set ks \<Longrightarrow> \<not> skip_input (f k) \<and> baseline_key (fst (split_row label (f k))) = k"
  shows "recorded_keys label (map f ks) = set ks - {[]}"
proof (rule set_eqI)
  fix x
  show "x \<in> recorded_keys label (map f ks) \<longleftrightarrow> x \<in> set ks - {[]}"
    by (auto simp: recorded_keys_eq assms intro!: exI [of _ "f x"])
qed

lemma recorded_keys_nonempty [simp]: "[] \<notin> recorded_keys label rows"
  by (simp add: recorded_keys_eq)

lemma recorded_keys_rendered:
  assumes "CHR 0x09 \<notin> set label" "\<forall>f \<in> set current. skip_input f \<or> clean_finding label f"
    and "set ks \<subseteq> current_keys current"
  shows "recorded_keys label (map (render_current label now (current_of current) old) ks) = set ks - {[]}"
proof (rule recorded_keys_map)
  fix k assume "k \<in> set ks"
  then have "cur_finding (current_of current) k \<noteq> None"
    using assms(3) current_absent_iff by blast
  then obtain f where f: "cur_finding (current_of current) k = Some f"
    by blast
  then have "f \<in> set current \<and> \<not> skip_input f \<and> baseline_key f = k"
    by (rule cur_finding_Some)
  with f show "\<not> skip_input (render_current label now (current_of current) old k) \<and>
      baseline_key (fst (split_row label (render_current label now (current_of current) old k))) = k"
    using assms row_text_key [OF assms(1)] by (auto simp: render_current_def Let_def)
qed

lemma recorded_keys_kept:
  assumes "\<And>k. k \<in> set ks \<Longrightarrow> old_finding (old_of label ls) k \<noteq> None"
  shows "recorded_keys label (map (\<lambda>k. map_get (old_line (old_of label ls)) k) ks) = set ks - {[]}"
proof (rule recorded_keys_map)
  fix k assume "k \<in> set ks"
  then obtain l where "old_entry label (old_of label ls) k l"
    using assms old_entry_exists by blast
  then show "\<not> skip_input (map_get (old_line (old_of label ls)) k) \<and>
      baseline_key (fst (split_row label (map_get (old_line (old_of label ls)) k))) = k"
    by (auto simp: old_entry_def old_key_of_def split: if_splits)
qed

lemma cur_order_set: "set (cur_order (current_of ls)) = current_keys ls"
proof -
  have "set (cur_order (current_of ls)) = {k. \<not> cur_finding (current_of ls) k = None}"
    using current_ix.index_order [of ls] by (simp only: current_of_index)
  then show ?thesis by (simp only: current_absent_iff not_not Collect_mem_eq)
qed

lemma old_order_set: "set (old_order (old_of label ls)) = old_keys label ls"
proof -
  have "set (old_order (old_of label ls)) = {k. \<not> old_finding (old_of label ls) k = None}"
    using old_ix.index_order [of label ls] by (simp only: old_of_index)
  then show ?thesis by (simp only: old_absent_iff not_not Collect_mem_eq)
qed

text \<open>The keys of the old rows that a scoped run must leave alone.\<close>

definition outside_keys :: "matcher option \<Rightarrow> string \<Rightarrow> string list \<Rightarrow> string list \<Rightarrow> string set" where
  "outside_keys scope label current old =
     {k \<in> recorded_keys label old - current_keys current.
        \<exists>m. scope = Some m \<and> \<not> m (map_get (old_finding (old_of label old)) k)}"

lemma recorded_keys_outside:
  "recorded_keys label (old_outside_scope scope (current_of current) (old_of label old))
    = outside_keys scope label current old"
proof (cases scope)
  case None
  then show ?thesis by (simp add: old_outside_scope_def outside_keys_def recorded_keys_eq)
next
  case (Some m)
  let ?ks = "filter (\<lambda>k. cur_finding (current_of current) k = None \<and>
      \<not> in_scope scope (map_get (old_finding (old_of label old)) k)) (old_order (old_of label old))"
  have "recorded_keys label (old_outside_scope scope (current_of current) (old_of label old)) = set ?ks - {[]}"
    using Some recorded_keys_kept [of ?ks label old]
    by (auto simp: old_outside_scope_def old_order_set old_absent_iff)
  also have "\<dots> = outside_keys scope label current old"
    using Some by (auto simp: outside_keys_def recorded_keys_old [of label old] old_order_set in_scope_def current_absent_iff)
  finally show ?thesis .
qed

lemma rewrite_rows_keys:
  assumes "CHR 0x09 \<notin> set label" "\<forall>f \<in> set current. skip_input f \<or> clean_finding label f"
  shows "recorded_keys label (rewrite_rows mode scope label now (current_of current) (old_of label old)) =
    (case mode of
       ModeSync \<Rightarrow> (current_keys current - {[]}) \<union> outside_keys scope label current old
     | ModePruneFixed \<Rightarrow>
         (current_keys current \<inter> recorded_keys label old) \<union> outside_keys scope label current old
     | ModeAcceptNew \<Rightarrow> (current_keys current - {[]}) \<union> recorded_keys label old)"
proof (cases mode)
  case ModeSync
  then show ?thesis
    using recorded_keys_rendered [OF assms, of "cur_order (current_of current)"]
    by (simp add: rewrite_rows_def recorded_keys_append recorded_keys_outside cur_order_set)
next
  case ModePruneFixed
  have "recorded_keys label (map (render_current label now (current_of current) (old_of label old))
      (filter (\<lambda>k. old_finding (old_of label old) k \<noteq> None) (cur_order (current_of current))))
     = current_keys current \<inter> recorded_keys label old"
    by (subst recorded_keys_rendered [OF assms])
      (auto simp: cur_order_set old_absent_iff recorded_keys_old [of label old])
  then show ?thesis
    using ModePruneFixed by (simp add: rewrite_rows_def recorded_keys_append recorded_keys_outside)
next
  case ModeAcceptNew
  have kept: "recorded_keys label (map (\<lambda>k. map_get (old_line (old_of label old)) k)
      (filter (\<lambda>k. cur_finding (current_of current) k = None) (old_order (old_of label old))))
     = recorded_keys label old - current_keys current"
    by (subst recorded_keys_kept)
      (auto simp: old_order_set old_absent_iff current_absent_iff recorded_keys_old [of label old])
  show ?thesis
    using ModeAcceptNew recorded_keys_rendered [OF assms, of "cur_order (current_of current)"]
    by (auto simp: rewrite_rows_def recorded_keys_append kept cur_order_set)
qed

section \<open>History and stability\<close>

definition effective_first :: "string \<Rightarrow> old_index \<Rightarrow> string \<Rightarrow> string" where
  "effective_first now old k =
     (let a = map_get (old_first_added old) k in if a = [] then now else a)"

lemma render_current_row:
  "render_current label now cur old k =
     row_text (map_get (cur_finding cur) k) label (effective_first now old k) now"
  by (simp add: render_current_def effective_first_def Let_def)

lemma first_added_word:
  assumes "a = [] \<or> solid a"
  shows "first_added_from (''first_added='' @ a @ '' last_seen='' @ now) = a"
proof -
  have "solid (''first_added='' @ a)"
    by (rule solid_append_plain)
      (use assms in \<open>auto simp: plain_char_def ascii_spaces_def wide_lead_def\<close>)
  then have "str_fields ((''first_added='' @ a) @ '' last_seen='' @ now)
      = (''first_added='' @ a) # str_fields ('' last_seen='' @ now)"
    by (rule str_fields_solid_word) (simp add: ascii_spaces_def)
  then show ?thesis
    by (simp add: first_added_from_def)
qed

lemma first_added_from_solid: "first_added_from m = [] \<or> solid (first_added_from m)"
proof (cases "find (prefix ''first_added='') (str_fields m)")
  case (Some f)
  then have "f \<in> set (str_fields m)" by (auto simp: find_Some_iff)
  with Some show ?thesis
    using solid_drop [OF str_fields_solid] by (simp add: first_added_from_def)
qed (simp add: first_added_from_def)

lemma old_first_added_solid:
  "map_get (old_first_added (old_of label ls)) k = [] \<or> solid (map_get (old_first_added (old_of label ls)) k)"
proof (cases "old_finding (old_of label ls) k = None")
  case True
  then show ?thesis using old_absent by simp
next
  case False
  then obtain l where "old_entry label (old_of label ls) k l"
    using old_entry_exists by blast
  then show ?thesis
    using first_added_from_solid by (simp add: old_entry_def)
qed

lemma effective_first_solid:
  "now = [] \<or> solid now \<Longrightarrow> effective_first now (old_of label ls) k = [] \<or> solid (effective_first now (old_of label ls) k)"
  using old_first_added_solid [of label ls k] by (auto simp: effective_first_def Let_def)

text \<open>In a body whose rows have distinct keys, every row is the entry of its key.\<close>

lemma old_entry_unique:
  assumes "distinct (List.map_filter (old_key_of label) rows)" "l \<in> set rows" "old_key_of label l = Some k"
  shows "old_entry label (old_of label rows) k l"
proof -
  have "old_finding (old_of label rows) k \<noteq> None"
    using assms(2,3) by (auto simp: old_absent_keys)
  then obtain l' where l': "l' \<in> set rows" "old_entry label (old_of label rows) k l'"
    using old_entry_exists by blast
  then have "old_key_of label l' = Some k" by (simp add: old_entry_def)
  with assms l'(1) have "l' = l"
  proof (induction rows)
    case (Cons r rows)
    then show ?case
      by (auto simp: map_filter_def image_iff split: option.splits if_splits)
  qed simp
  with l' show ?thesis by simp
qed

lemma rendered_row_key:
  assumes "CHR 0x09 \<notin> set label" "\<forall>f \<in> set current. skip_input f \<or> clean_finding label f"
    and "k \<in> current_keys current"
  shows "old_key_of label (render_current label now (current_of current) old k) = Some k"
proof -
  obtain f where f: "cur_finding (current_of current) k = Some f"
    using assms(3) current_absent_iff [of current k] by auto
  then have k: "f \<in> set current" "\<not> skip_input f" "baseline_key f = k"
    using cur_finding_Some by blast+
  then have "clean_finding label f" using assms(2) by blast
  moreover have "f \<noteq> []" using k(2) by (auto simp: skip_input_def blank_line_def)
  ultimately show ?thesis
    using f k(3) row_text_key [OF assms(1), of f]
    by (simp add: old_key_of_def render_current_row)
qed

lemma kept_row_key:
  assumes "k \<in> old_keys label old"
  shows "old_key_of label (map_get (old_line (old_of label old)) k) = Some k"
proof -
  have "old_finding (old_of label old) k \<noteq> None" using assms by (simp add: old_absent_iff)
  then obtain l where "old_entry label (old_of label old) k l"
    using old_entry_exists by blast
  then show ?thesis by (simp add: old_entry_def)
qed

lemma map_filter_Some: "(\<And>x. x \<in> set xs \<Longrightarrow> f (g x) = Some x) \<Longrightarrow> List.map_filter f (map g xs) = xs"
  by (induction xs) (simp_all add: map_filter_def)

definition outside_order :: "matcher option \<Rightarrow> string \<Rightarrow> string list \<Rightarrow> string list \<Rightarrow> string list" where
  "outside_order scope label current old =
     (if scope = None then []
      else filter (\<lambda>k. cur_finding (current_of current) k = None \<and>
             \<not> in_scope scope (map_get (old_finding (old_of label old)) k)) (old_order (old_of label old)))"

lemma old_outside_scope_eq:
  "old_outside_scope scope (current_of current) (old_of label old) =
     map (\<lambda>k. map_get (old_line (old_of label old)) k) (outside_order scope label current old)"
  by (simp add: old_outside_scope_def outside_order_def)

lemma outside_order_facts:
  "set (outside_order scope label current old) \<subseteq> old_keys label old - current_keys current"
  "distinct (outside_order scope label current old)"
proof -
  have "distinct (old_order (old_of label old))"
    using old_ix.index_order [of label old] by (simp only: old_of_index)
  then show "distinct (outside_order scope label current old)"
    by (simp add: outside_order_def)
  show "set (outside_order scope label current old) \<subseteq> old_keys label old - current_keys current"
    by (auto simp: outside_order_def old_order_set current_absent_iff)
qed

lemma sync_body_keys:
  assumes "CHR 0x09 \<notin> set label" "\<forall>f \<in> set current. skip_input f \<or> clean_finding label f"
  shows "List.map_filter (old_key_of label)
      (rewrite_rows ModeSync scope label now (current_of current) (old_of label old))
    = cur_order (current_of current) @ outside_order scope label current old"
proof -
  have "List.map_filter (old_key_of label)
      (map (render_current label now (current_of current) (old_of label old)) (cur_order (current_of current)))
      = cur_order (current_of current)"
    using rendered_row_key [OF assms] cur_order_set by (intro map_filter_Some) auto
  moreover have "List.map_filter (old_key_of label)
      (map (\<lambda>k. map_get (old_line (old_of label old)) k) (outside_order scope label current old))
      = outside_order scope label current old"
    using kept_row_key outside_order_facts(1) by (intro map_filter_Some) blast
  ultimately show ?thesis
    by (simp add: rewrite_rows_def old_outside_scope_eq map_filter_def)
qed

lemma sync_body_stable:
  fixes scope :: "matcher option" and old :: "string list"
  assumes "CHR 0x09 \<notin> set label" "\<forall>f \<in> set current. skip_input f \<or> clean_finding label f"
    and "now = [] \<or> solid now"
  defines "body \<equiv> rewrite_rows ModeSync scope label now (current_of current) (old_of label old)"
  shows "rewrite_rows ModeSync scope label now (current_of current) (old_of label body) = body"
proof -
  let ?cur = "current_of current"
  let ?ks = "cur_order ?cur" and ?os = "outside_order scope label current old"
  have keys: "List.map_filter (old_key_of label) body = ?ks @ ?os"
    unfolding body_def by (rule sync_body_keys [OF assms(1,2)])
  have "distinct ?ks" using current_ix.index_order [of current] by (simp only: current_of_index)
  then have dist: "distinct (?ks @ ?os)"
    using outside_order_facts cur_order_set by fastforce
  have order: "old_order (old_of label body) = ?ks @ ?os"
    using old_ix.index_order_distinct_keys [of label body] dist keys by (simp add: old_of_index)
  have entry: "old_entry label (old_of label body) k l"
    if "l \<in> set body" "old_key_of label l = Some k" for k l
    using old_entry_unique [OF _ that] dist keys by simp
  have rendered: "old_entry label (old_of label body) k (render_current label now ?cur (old_of label old) k)"
    if "k \<in> set ?ks" for k
    using that cur_order_set rendered_row_key [OF assms(1,2)]
    by (intro entry) (auto simp: body_def rewrite_rows_def)
  have kept: "old_entry label (old_of label body) k (map_get (old_line (old_of label old)) k)"
    if "k \<in> set ?os" for k
    using that kept_row_key outside_order_facts(1) [of scope label current old]
    by (intro entry) (auto simp: body_def rewrite_rows_def old_outside_scope_eq)
  have "render_current label now ?cur (old_of label body) k = render_current label now ?cur (old_of label old) k"
    if "k \<in> set ?ks" for k
  proof -
    let ?a = "effective_first now (old_of label old) k"
    have "k \<in> current_keys current" using that cur_order_set by blast
    then have "cur_finding ?cur k \<noteq> None" using current_absent_iff by blast
    then obtain f where f: "cur_finding ?cur k = Some f" by blast
    then have "clean_finding label f" using cur_finding_Some [OF f] assms(2) by blast
    then have "snd (split_row label (render_current label now ?cur (old_of label old) k))
        = ''first_added='' @ ?a @ '' last_seen='' @ now"
      using f split_row_text [OF assms(1)] by (simp add: render_current_row clean_finding_def)
    moreover have "first_added_from (''first_added='' @ ?a @ '' last_seen='' @ now) = ?a"
      by (rule first_added_word) (rule effective_first_solid [OF assms(3)])
    ultimately have "map_get (old_first_added (old_of label body)) k = ?a"
      using rendered [OF that] by (simp add: old_entry_def)
    then have "effective_first now (old_of label body) k = ?a"
      by (simp add: effective_first_def Let_def)
    then show ?thesis by (simp add: render_current_row)
  qed
  moreover have "outside_order scope label current body = ?os"
  proof (cases scope)
    case None
    then show ?thesis by (simp add: outside_order_def)
  next
    case (Some m)
    have "filter (\<lambda>k. cur_finding ?cur k = None \<and> \<not> in_scope scope (map_get (old_finding (old_of label body)) k)) ?ks = []"
      using cur_order_set current_absent_iff by (auto simp: filter_empty_conv)
    moreover have "filter (\<lambda>k. cur_finding ?cur k = None \<and> \<not> in_scope scope (map_get (old_finding (old_of label body)) k)) ?os = ?os"
    proof (rule filter_True, rule ballI)
      fix k assume k: "k \<in> set ?os"
      then have "old_finding (old_of label old) k \<noteq> None"
        using outside_order_facts(1) old_absent_iff by blast
      then obtain l where l: "old_entry label (old_of label old) k l"
        using old_entry_exists by blast
      then have "old_finding (old_of label body) k = old_finding (old_of label old) k"
        using kept [OF k] by (simp add: old_entry_def)
      with k show "cur_finding ?cur k = None \<and> \<not> in_scope scope (map_get (old_finding (old_of label body)) k)"
        using Some by (auto simp: outside_order_def map_get_def)
    qed
    ultimately show ?thesis using Some order by (simp add: outside_order_def)
  qed
  moreover have "map_get (old_line (old_of label body)) k = map_get (old_line (old_of label old)) k" if "k \<in> set ?os" for k
    using kept [OF that] by (simp add: old_entry_def)
  ultimately show ?thesis
    by (simp add: rewrite_rows_def old_outside_scope_eq body_def)
qed

lemma text_lines_render:
  assumes "CHR 0x0A \<notin> set title" "CHR 0x0A \<notin> set now" "\<And>l. l \<in> set body \<Longrightarrow> CHR 0x0A \<notin> set l"
  shows "text_lines (render_file title now body) = (''# '' @ title @ '': generated_at='' @ now) # body"
proof -
  let ?h = "''# '' @ title @ '': generated_at='' @ now"
  have join: "h @ newline @ concat (map (\<lambda>l. l @ newline) ls) = str_join newline (h # ls) @ newline" for h ls
    by (induction ls arbitrary: h) auto
  have "trim_suffix (render_file title now body) newline = str_join newline (?h # body)"
    using join [of ?h body] by (simp add: render_file_def)
  moreover have "str_join newline (?h # body) \<noteq> []" by (cases body) auto
  moreover have "split_on (CHR 0x0A) (str_join newline (?h # body)) = ?h # body"
    using assms by (intro split_on_join) auto
  moreover have "render_file title now body \<noteq> []" by (simp add: render_file_def)
  ultimately show ?thesis by (simp add: text_lines_def)
qed

lemma old_of_skip: "skip_input h \<Longrightarrow> old_of label (h # body) = old_of label body"
  by (simp add: old_of_def add_old_def)

lemma row_keys_skip: "skip_input h \<Longrightarrow> row_keys label exclude scope (h # body) = row_keys label exclude scope body"
  by (simp add: row_keys_def baseline_finding_def keep_row_def)

section \<open>Facts about the statistics\<close>

lemma row_keys_finite [simp]: "finite (row_keys label exclude scope rows)"
  by (simp add: row_keys_def)

lemma count_split:
  assumes "finite a"
  shows "count_missing a b + card (a \<inter> b) = card a"
proof -
  have "Set.filter (\<lambda>k. k \<notin> b) a = a - b" by auto
  then show ?thesis
    using card_Int_Diff [OF assms, of b] by (simp add: count_missing_def)
qed

lemma count_shared_card: "count_shared a b = card (a \<inter> b)"
proof -
  have "Set.filter (\<lambda>k. k \<in> b) a = a \<inter> b" by auto
  then show ?thesis by (simp add: count_shared_def)
qed

lemma count_missing_0: "finite a \<Longrightarrow> count_missing a b = 0 \<longleftrightarrow> a \<subseteq> b"
  by (auto simp: count_missing_def)

lemma plan_component_Inr:
  assumes "plan_component compile files c now = Inr pw"
  obtains mode old findings exclude scope where
    "parse_mode (bc_mode c) = Inr mode"
    "read_lines files (bc_baseline_file c) = Inr old"
    "read_lines files (bc_findings_file c) = Inr findings"
    "compile_filter compile (bc_exclude c) = Inr exclude"
    "compile_filter compile (bc_scope c) = Inr scope"
    "pw = (let body = rewrite_rows mode scope (bc_label c) now (current_of findings) (old_of (bc_label c) old) in
       \<lparr>pw_stats = compute_stats (bc_label c) (bc_baseline_file c) (bc_scope c) findings
           (row_keys (bc_label c) exclude scope old) (row_keys (bc_label c) exclude scope body),
        pw_path = bc_baseline_file c,
        pw_contents = render_file (bc_title c) now body\<rparr>)"
  using assms
  by (cases "compile_filter compile (bc_exclude c)"; cases "compile_filter compile (bc_scope c)")
    (auto simp: plan_component_def result_bind_Inr_iff baseline_key_set_def rewrite_body_def Let_def)

lemma current_finding_exists:
  assumes "k \<in> current_keys current"
  obtains f where "cur_finding (current_of current) k = Some f" "f \<in> set current" "\<not> skip_input f"
    "baseline_key f = k"
proof -
  have "cur_finding (current_of current) k \<noteq> None" using assms current_absent_iff by blast
  then obtain f where f: "cur_finding (current_of current) k = Some f" by blast
  then show ?thesis using cur_finding_Some [OF f] that by blast
qed

lemma rendered_row_metadata:
  assumes "CHR 0x09 \<notin> set label" "\<forall>f \<in> set current. skip_input f \<or> clean_finding label f"
    and "k \<in> current_keys current"
  shows "snd (split_row label (render_current label now (current_of current) old k)) =
    ''first_added='' @ effective_first now old k @ '' last_seen='' @ now"
proof -
  obtain f where f: "cur_finding (current_of current) k = Some f" "f \<in> set current" "\<not> skip_input f"
    using current_finding_exists [OF assms(3)] by blast
  then show ?thesis
    using assms(2) split_row_text [OF assms(1), of f] by (auto simp: render_current_row clean_finding_def)
qed

lemma body_row_of_current:
  assumes "CHR 0x09 \<notin> set label" "\<forall>f \<in> set current. skip_input f \<or> clean_finding label f"
    and "k \<in> current_keys current"
    and "l \<in> set (rewrite_rows mode scope label now (current_of current) (old_of label old))"
    and "old_key_of label l = Some k"
  shows "l = render_current label now (current_of current) (old_of label old) k"
proof -
  have kept: "j \<in> current_keys current \<Longrightarrow> j \<notin> set (outside_order scope label current old)" for j
    using outside_order_facts(1) by blast
  from assms(4) consider
      j where "j \<in> current_keys current" "l = render_current label now (current_of current) (old_of label old) j"
    | j where "j \<in> old_keys label old - current_keys current" "l = map_get (old_line (old_of label old)) j"
    using outside_order_facts(1) [of scope label current old]
    by (cases mode)
      (auto simp: rewrite_rows_def old_outside_scope_eq cur_order_set old_order_set current_absent_iff)
  then show ?thesis
    using assms(3,5) rendered_row_key [OF assms(1,2)] kept_row_key by cases auto
qed

lemma solid_free: "solid w \<Longrightarrow> c \<in> set ascii_spaces \<Longrightarrow> c \<notin> set w"
  by (metis in_set_conv_decomp list.distinct(1) solid_def space_len_ascii zero_neq_one)

lemma text_lines_newline_free: "l \<in> set (text_lines data) \<Longrightarrow> CHR 0x0A \<notin> set l"
  by (auto simp: text_lines_def Let_def split: if_splits dest: split_on_parts_free)

lemma read_lines_newline_free: "read_lines files path = Inr ls \<Longrightarrow> l \<in> set ls \<Longrightarrow> CHR 0x0A \<notin> set l"
  using text_lines_newline_free by (auto simp: read_lines_def split: file_read.splits)

lemma solid_or_empty_free: "a = [] \<or> solid a \<Longrightarrow> c \<in> set ascii_spaces \<Longrightarrow> c \<notin> set a"
  using solid_free by auto

lemma rewrite_rows_newline_free:
  assumes "read_lines files path = Inr current" "read_lines files path' = Inr old"
    and "CHR 0x0A \<notin> set label" "CHR 0x0A \<notin> set now"
    and "r \<in> set (rewrite_rows ModeSync scope label now (current_of current) (old_of label old))"
  shows "CHR 0x0A \<notin> set r"
proof -
  from assms(5) consider
      k where "k \<in> current_keys current" "r = render_current label now (current_of current) (old_of label old) k"
    | k where "k \<in> old_keys label old" "r = map_get (old_line (old_of label old)) k"
    using outside_order_facts(1) [of scope label current old]
    by (auto simp: rewrite_rows_def old_outside_scope_eq cur_order_set)
  then show ?thesis
  proof cases
    case 1
    obtain f where f: "cur_finding (current_of current) k = Some f" "f \<in> set current"
      using current_finding_exists [OF 1(1)] by blast
    have "CHR 0x0A \<notin> set (map_get (old_first_added (old_of label old)) k)"
      by (rule solid_or_empty_free [OF old_first_added_solid]) (simp add: ascii_spaces_def)
    then have "CHR 0x0A \<notin> set (effective_first now (old_of label old) k)"
      using assms(4) by (simp add: effective_first_def Let_def)
    then show ?thesis
      using 1(2) f read_lines_newline_free [OF assms(1) f(2)] assms(3,4)
      by (simp add: render_current_row row_text_def label_marker_def)
  next
    case 2
    then have "old_finding (old_of label old) k \<noteq> None" by (simp add: old_absent_iff)
    then obtain l where "l \<in> set old" "old_entry label (old_of label old) k l"
      using old_entry_exists by blast
    then show ?thesis
      using 2(2) read_lines_newline_free [OF assms(2)] by (simp add: old_entry_def)
  qed
qed

section \<open>The report\<close>

definition change_phrase :: "baseline_stats \<Rightarrow> string" where
  "change_phrase s =
     (let parts = (if bs_added s > 0 then [itoa_nat (bs_added s) @ '' added''] else []) @
                  (if bs_removed s > 0 then [itoa_nat (bs_removed s) @ '' removed''] else [])
      in if parts = [] then ''no change'' else str_join '', '' parts)"

definition remaining_phrase :: "baseline_stats \<Rightarrow> string" where
  "remaining_phrase s =
     (let before = bs_removed s + bs_refreshed s in
      if before = 0 \<and> bs_remaining s = 0 then ''no existing''
      else itoa_nat before @ '' -> '' @ itoa_nat (bs_remaining s))"

definition single_lines :: "baseline_stats \<Rightarrow> string list" where
  "single_lines s =
     [bs_label s @ '' baseline'',
      ''  '' @ change_phrase s @ '', '' @ itoa_nat (bs_remaining s) @ '' remaining.'']"

text \<open>The widths are byte lengths, while the \<open>%-*s\<close> verb pads to a number of characters.\<close>

definition rollup_row :: "nat \<Rightarrow> nat \<Rightarrow> baseline_stats \<Rightarrow> string" where
  "rollup_row label_width change_width s =
     ''  '' @ pad_right label_width (bs_label s) @ ''   '' @ pad_right change_width (change_phrase s) @
     ''   '' @ remaining_phrase s"

definition rollup_lines :: "baseline_stats list \<Rightarrow> string list" where
  "rollup_lines ss =
     (let plural = (if length ss = 1 then [] else ''s'');
          label_width = foldr (\<lambda>s w. max (length (bs_label s)) w) ss 0;
          change_width = foldr (\<lambda>s w. max (length (change_phrase s)) w) ss 0
      in [''Updating '' @ itoa_nat (length ss) @ '' baseline'' @ plural, []] @
         map (rollup_row label_width change_width) ss @
         [[], ''  Done. '' @ itoa_nat (sum_list (map bs_remaining ss)) @ '' remaining across '' @
              itoa_nat (length ss) @ '' baseline'' @ plural @ ''.'']) "

definition render_text :: "baseline_stats list \<Rightarrow> string" where
  "render_text ss =
     (case ss of
        [] \<Rightarrow> []
      | [s] \<Rightarrow> str_join newline (single_lines s) @ newline
      | _ \<Rightarrow> str_join newline (rollup_lines ss) @ newline)"

text \<open>The JSON document; its encoding is the library's.\<close>

record baseline_entry =
  be_label :: string
  be_file :: string
  be_captured :: nat
  be_added :: nat
  be_refreshed :: nat
  be_removed :: nat
  be_covered :: nat
  be_remaining :: nat
  be_changed :: bool

record baseline_totals =
  bt_added :: nat
  bt_refreshed :: nat
  bt_removed :: nat
  bt_remaining :: nat
  bt_baselines :: nat

record baseline_document =
  bd_scope :: string
  bd_baselines :: "baseline_entry list"
  bd_totals :: baseline_totals

definition baseline_entry_of :: "baseline_stats \<Rightarrow> baseline_entry" where
  "baseline_entry_of s =
     \<lparr>be_label = bs_label s, be_file = bs_path s, be_captured = bs_captured s, be_added = bs_added s,
      be_refreshed = bs_refreshed s, be_removed = bs_removed s, be_covered = bs_covered s,
      be_remaining = bs_remaining s, be_changed = (\<not> is_noop s)\<rparr>"

definition add_totals :: "baseline_stats \<Rightarrow> baseline_document \<Rightarrow> baseline_document" where
  "add_totals s d =
     (let t = bd_totals d in
      d\<lparr>bd_scope := (if bs_scope s \<noteq> [] then bs_scope s else bd_scope d),
        bd_baselines := bd_baselines d @ [baseline_entry_of s],
        bd_totals := t\<lparr>bt_added := bt_added t + bs_added s, bt_refreshed := bt_refreshed t + bs_refreshed s,
                       bt_removed := bt_removed t + bs_removed s,
                       bt_remaining := bt_remaining t + bs_remaining s\<rparr>\<rparr>)"

definition render_document :: "baseline_stats list \<Rightarrow> baseline_document" where
  "render_document ss =
     fold add_totals ss
       \<lparr>bd_scope = ''all'', bd_baselines = [],
        bd_totals = \<lparr>bt_added = 0, bt_refreshed = 0, bt_removed = 0, bt_remaining = 0,
                     bt_baselines = length ss\<rparr>\<rparr>"

section \<open>Properties\<close>

text \<open>
  C17. What a rewritten baseline records, read back with the reader's own rules: a sync records the
  current findings and the old rows outside its scope, a prune keeps only what was recorded before
  (again with the rows outside its scope), and accept-new only adds to what was recorded.
\<close>

theorem rewrite_readback:
  assumes "rewrite_body compile ri = Inr body" "compile_filter compile (ri_scope ri) = Inr scope"
    and "CHR 0x09 \<notin> set (ri_label ri)"
    and "\<forall>f \<in> set (ri_current ri). skip_input f \<or> clean_finding (ri_label ri) f"
  shows "recorded_keys (ri_label ri) body =
    (case ri_mode ri of
       ModeSync \<Rightarrow> (current_keys (ri_current ri) - {[]}) \<union>
         outside_keys scope (ri_label ri) (ri_current ri) (ri_old ri)
     | ModePruneFixed \<Rightarrow> (current_keys (ri_current ri) \<inter> recorded_keys (ri_label ri) (ri_old ri)) \<union>
         outside_keys scope (ri_label ri) (ri_current ri) (ri_old ri)
     | ModeAcceptNew \<Rightarrow> (current_keys (ri_current ri) - {[]}) \<union> recorded_keys (ri_label ri) (ri_old ri))"
proof -
  have body: "body = rewrite_rows (ri_mode ri) scope (ri_label ri) (ri_now ri)
      (current_of (ri_current ri)) (old_of (ri_label ri) (ri_old ri))"
    using assms(1,2) by (simp add: rewrite_body_def)
  show ?thesis unfolding body by (rule rewrite_rows_keys [OF assms(3,4)])
qed

theorem rewrite_readback_witness:
  "recorded_keys ''lint'' (case rewrite_body (\<lambda>_. None)
      \<lparr>ri_current = [''a.go:3:1: m'', ''b.go:1:1: n''], ri_old = [''a.go:9:9: m''], ri_label = ''lint'',
       ri_now = ''t1'', ri_scope = [], ri_mode = ModePruneFixed\<rparr> of Inl _ \<Rightarrow> [] | Inr body \<Rightarrow> body)
   = {''a.go::: m''}"
proof -
  let ?ri = "\<lparr>ri_current = [''a.go:3:1: m'', ''b.go:1:1: n''], ri_old = [''a.go:9:9: m''], ri_label = ''lint'',
       ri_now = ''t1'', ri_scope = [], ri_mode = ModePruneFixed\<rparr>"
  have "current_keys (ri_current ?ri) = {''a.go::: m'', ''b.go::: n''}"
    unfolding current_keys_def by code_simp
  moreover have "recorded_keys ''lint'' (ri_old ?ri) = {''a.go::: m''}"
    by code_simp
  moreover have "\<forall>f \<in> set (ri_current ?ri). skip_input f \<or> clean_finding (ri_label ?ri) f"
    by code_simp
  ultimately show ?thesis
    using rewrite_readback [of "\<lambda>_. None" ?ri _ None]
    by (auto simp: rewrite_body_def compile_filter_def outside_keys_def)
qed

text \<open>
  C40. The date a finding was first accepted survives every update: in the rewritten body, whatever
  the mode, the row of a current finding carries the \<open>first_added\<close> of the old row of its key, and
  the time of the update when there was none.
\<close>

theorem first_added_preserved:
  assumes "rewrite_body compile ri = Inr body"
    and "CHR 0x09 \<notin> set (ri_label ri)"
    and "\<forall>f \<in> set (ri_current ri). skip_input f \<or> clean_finding (ri_label ri) f"
    and "solid (ri_now ri)"
    and "k \<in> current_keys (ri_current ri)"
    and "ri_mode ri = ModePruneFixed \<Longrightarrow> k \<in> old_keys (ri_label ri) (ri_old ri)"
  shows "old_first_added (old_of (ri_label ri) body) k =
    Some (case old_first_added (old_of (ri_label ri) (ri_old ri)) k of
            Some (c # a) \<Rightarrow> c # a
          | _ \<Rightarrow> ri_now ri)"
proof -
  let ?label = "ri_label ri" and ?cur = "current_of (ri_current ri)"
  let ?old = "old_of ?label (ri_old ri)"
  let ?row = "render_current ?label (ri_now ri) ?cur ?old k"
  let ?a = "effective_first (ri_now ri) ?old k"
  have row: "old_key_of ?label ?row = Some k"
    by (rule rendered_row_key [OF assms(2,3,5)])
  obtain scope where body: "body = rewrite_rows (ri_mode ri) scope ?label (ri_now ri) ?cur ?old"
    using assms(1) by (auto simp: rewrite_body_def split: sum.splits)
  have "?row \<in> set body"
    using assms(5,6) cur_order_set old_absent_iff
    by (cases "ri_mode ri") (auto simp: body rewrite_rows_def)
  with row have "old_finding (old_of ?label body) k \<noteq> None"
    by (auto simp: old_absent_keys)
  then obtain l where l: "l \<in> set body" "old_entry ?label (old_of ?label body) k l"
    using old_entry_exists by blast
  have "l = ?row"
    by (rule body_row_of_current [OF assms(2,3,5)]) (use l body in \<open>auto simp: old_entry_def\<close>)
  moreover have "snd (split_row ?label ?row) = ''first_added='' @ ?a @ '' last_seen='' @ ri_now ri"
    by (rule rendered_row_metadata [OF assms(2,3,5)])
  moreover have "first_added_from (''first_added='' @ ?a @ '' last_seen='' @ ri_now ri) = ?a"
    using assms(4) by (intro first_added_word effective_first_solid) simp
  ultimately have "old_first_added (old_of ?label body) k = Some ?a"
    using l(2) by (simp add: old_entry_def)
  then show ?thesis
    by (simp add: effective_first_def Let_def map_get_def split: option.splits list.splits)
qed

theorem first_added_preserved_witness:
  "old_first_added (old_of ''lint'' (case rewrite_body (\<lambda>_. None)
      \<lparr>ri_current = [''a.go:3:1: m''], ri_old = [''a.go:9:9: m'' @ tab @ ''# lint:first_added=t0 last_seen=t0''],
       ri_label = ''lint'', ri_now = ''t1'', ri_scope = [], ri_mode = ModeSync\<rparr> of Inl _ \<Rightarrow> [] | Inr body \<Rightarrow> body))
     ''a.go::: m'' = Some ''t0''"
proof -
  let ?ri = "\<lparr>ri_current = [''a.go:3:1: m''], ri_old = [''a.go:9:9: m'' @ tab @ ''# lint:first_added=t0 last_seen=t0''],
       ri_label = ''lint'', ri_now = ''t1'', ri_scope = [], ri_mode = ModeSync\<rparr>"
  have "''a.go::: m'' \<in> current_keys (ri_current ?ri)"
    unfolding current_keys_def by code_simp
  moreover have "\<forall>f \<in> set (ri_current ?ri). skip_input f \<or> clean_finding (ri_label ?ri) f"
    by code_simp
  moreover have "solid (ri_now ?ri)"
    by (rule solid_plain) (auto simp: plain_char_def ascii_spaces_def wide_lead_def)
  moreover have "old_first_added (old_of (ri_label ?ri) (ri_old ?ri)) ''a.go::: m'' = Some ''t0''"
    by code_simp
  ultimately show ?thesis
    using first_added_preserved [of "\<lambda>_. None" ?ri _ "''a.go::: m''"]
    by (simp add: rewrite_body_def compile_filter_def)
qed

text \<open>
  The counts a planned write reports account for every key: added and refreshed keys make up the
  new baseline, removed and refreshed keys the old one, no current finding is counted as covered
  twice, and the report says unchanged exactly when the recorded key set is the same.
\<close>

theorem planned_stats_partition:
  assumes "plan_component compile files c now = Inr pw"
    and "read_lines files (bc_baseline_file c) = Inr old"
    and "baseline_key_set compile old (bc_label c) (bc_exclude c) (bc_scope c) = Inr before"
  shows "bs_added (pw_stats pw) + bs_refreshed (pw_stats pw) = bs_remaining (pw_stats pw) \<and>
    bs_removed (pw_stats pw) + bs_refreshed (pw_stats pw) = card before \<and>
    bs_covered (pw_stats pw) \<le> bs_captured (pw_stats pw) \<and>
    (\<exists>new_keys. bs_remaining (pw_stats pw) = card new_keys \<and>
       (is_noop (pw_stats pw) \<longleftrightarrow> new_keys = before))"
proof -
  obtain exclude scope findings body where
      old: "before = row_keys (bc_label c) exclude scope old" and
      stats: "pw_stats pw = compute_stats (bc_label c) (bc_baseline_file c) (bc_scope c) findings
        before (row_keys (bc_label c) exclude scope body)"
    using assms by (elim plan_component_Inr) (auto simp: baseline_key_set_def Let_def)
  let ?new = "row_keys (bc_label c) exclude scope body"
  have "finite before" "finite ?new" by (simp_all add: old)
  then have "is_noop (pw_stats pw) \<longleftrightarrow> ?new = before"
    by (auto simp: stats compute_stats_def is_noop_def count_missing_0)
  moreover have "length (filter (\<lambda>k. k \<in> ?new) (finding_key_list findings)) \<le> length findings"
    by (rule order_trans [OF length_filter_le]) (simp add: finding_key_list_def)
  moreover have "count_missing ?new before + count_shared before ?new = card ?new"
    "count_missing before ?new + count_shared before ?new = card before"
    using count_split [of ?new before] count_split [of before ?new]
    by (simp_all add: old count_shared_card Int_commute)
  ultimately show ?thesis
    by (auto simp: stats compute_stats_def)
qed

theorem planned_stats_partition_witness:
  "let c = \<lparr>bc_title = ''t'', bc_label = ''lint'', bc_baseline_file = ''b'', bc_findings_file = ''f'',
            bc_mode = ''sync'', bc_exclude = [], bc_scope = []\<rparr>
   in \<exists>pw. plan_component (\<lambda>_. None) (\<lambda>p. if p = ''b'' then Content (''a.go:1:1: m'' @ newline) else NoFile) c ''t1''
       = Inr pw \<and> bs_removed (pw_stats pw) + bs_refreshed (pw_stats pw) = 1"
proof -
  let ?c = "\<lparr>bc_title = ''t'', bc_label = ''lint'', bc_baseline_file = ''b'', bc_findings_file = ''f'',
            bc_mode = ''sync'', bc_exclude = [], bc_scope = []\<rparr>"
  let ?files = "\<lambda>p. if p = ''b'' then Content (''a.go:1:1: m'' @ newline) else NoFile"
  have "read_lines ?files (bc_baseline_file ?c) = Inr [''a.go:1:1: m'']"
    by code_simp
  moreover have keys: "baseline_key_set (\<lambda>_. None) [''a.go:1:1: m''] (bc_label ?c) (bc_exclude ?c) (bc_scope ?c)
      = Inr {''a.go::: m''}"
    by code_simp
  moreover obtain pw where pw: "plan_component (\<lambda>_. None) ?files ?c ''t1'' = Inr pw"
    using calculation
    by (auto simp: plan_component_def result_bind_def parse_mode_def mode_by_name_def read_lines_def
        rewrite_body_def compile_filter_def baseline_key_set_def)
  ultimately have "bs_removed (pw_stats pw) + bs_refreshed (pw_stats pw) = card {''a.go::: m''}"
    using planned_stats_partition [OF pw] by blast
  with pw show ?thesis by auto
qed

text \<open>
  C35. A sync is idempotent: planning the same component again on the file the first plan wrote, with
  the same findings at the same time, plans the same bytes and reports no change.
\<close>

theorem sync_idempotent:
  assumes "plan_component compile files c now = Inr pw" "parse_mode (bc_mode c) = Inr ModeSync"
    and "files' = files(bc_baseline_file c := Content (pw_contents pw))"
    and "bc_findings_file c \<noteq> bc_baseline_file c"
    and "read_lines files (bc_findings_file c) = Inr findings"
    and "\<forall>f \<in> set findings. skip_input f \<or> clean_finding (bc_label c) f"
    and "CHR 0x09 \<notin> set (bc_label c)" "CHR 0x0A \<notin> set (bc_label c)" "CHR 0x0A \<notin> set (bc_title c)"
    and "solid now"
  shows "\<exists>pw'. plan_component compile files' c now = Inr pw' \<and>
    pw_contents pw' = pw_contents pw \<and> is_noop (pw_stats pw')"
proof -
  let ?l = "bc_label c"
  obtain old exclude scope body where
      old: "read_lines files (bc_baseline_file c) = Inr old" and
      filters: "compile_filter compile (bc_exclude c) = Inr exclude" "compile_filter compile (bc_scope c) = Inr scope" and
      body: "body = rewrite_rows ModeSync scope ?l now (current_of findings) (old_of ?l old)" and
      contents: "pw_contents pw = render_file (bc_title c) now body"
    using assms(1,2,5) by (elim plan_component_Inr) (auto simp: Let_def)
  have "CHR 0x0A \<notin> set now"
    using assms(10) by (rule solid_free) (simp add: ascii_spaces_def)
  moreover have "CHR 0x0A \<notin> set r" if "r \<in> set body" for r
    using rewrite_rows_newline_free [OF assms(5) old assms(8) calculation] that body by blast
  ultimately have "text_lines (pw_contents pw) = (''# '' @ bc_title c @ '': generated_at='' @ now) # body"
    unfolding contents using assms(9) by (intro text_lines_render)
  moreover have "skip_input (''# '' @ bc_title c @ '': generated_at='' @ now)"
    by (simp add: skip_input_def)
  ultimately obtain h where h: "skip_input h" and "text_lines (pw_contents pw) = h # body"
    by blast
  then have old': "read_lines files' (bc_baseline_file c) = Inr (h # body)"
    by (simp add: read_lines_def assms(3))
  have "rewrite_rows ModeSync scope ?l now (current_of findings) (old_of ?l body) = body"
    unfolding body using assms(10) by (intro sync_body_stable [OF assms(7,6)]) simp
  moreover have "read_lines files' (bc_findings_file c) = Inr findings"
    using assms(3,4,5) by (simp add: read_lines_def)
  ultimately show ?thesis
    using assms(2) old' filters
    by (simp add: plan_component_def rewrite_body_def baseline_key_set_def
        old_of_skip [OF h] row_keys_skip [OF h] contents compute_stats_def is_noop_def count_missing_0)
qed

theorem sync_idempotent_witness:
  "let c = \<lparr>bc_title = ''t'', bc_label = ''lint'', bc_baseline_file = ''b'', bc_findings_file = ''f'',
            bc_mode = ''sync'', bc_exclude = [], bc_scope = []\<rparr>;
       files = (\<lambda>p. if p = ''f'' then Content (''a.go:1:1: m'' @ newline) else NoFile)
   in \<exists>pw pw'. plan_component (\<lambda>_. None) files c ''t1'' = Inr pw \<and>
        plan_component (\<lambda>_. None) (files(''b'' := Content (pw_contents pw))) c ''t1'' = Inr pw' \<and>
        is_noop (pw_stats pw')"
proof -
  let ?c = "\<lparr>bc_title = ''t'', bc_label = ''lint'', bc_baseline_file = ''b'', bc_findings_file = ''f'',
            bc_mode = ''sync'', bc_exclude = [], bc_scope = []\<rparr>"
  let ?files = "\<lambda>p. if p = ''f'' then Content (''a.go:1:1: m'' @ newline) else NoFile"
  have findings: "read_lines ?files (bc_findings_file ?c) = Inr [''a.go:1:1: m'']"
    by code_simp
  have mode: "parse_mode (bc_mode ?c) = Inr ModeSync"
    by code_simp
  have clean: "\<forall>f \<in> set [''a.go:1:1: m'']. skip_input f \<or> clean_finding (bc_label ?c) f"
    by code_simp
  obtain pw where pw: "plan_component (\<lambda>_. None) ?files ?c ''t1'' = Inr pw"
    using findings mode
    by (auto simp: plan_component_def result_bind_def read_lines_def
        rewrite_body_def compile_filter_def baseline_key_set_def)
  have "solid ''t1''"
    by (rule solid_plain) (auto simp: plain_char_def ascii_spaces_def wide_lead_def)
  with pw findings clean mode show ?thesis
    using sync_idempotent [OF pw mode refl _ findings clean] by (auto simp: Let_def)
qed

end
