(* ===== verification/GoPath.thy ===== *)
theory GoPath
  imports GoPrelude
begin

text \<open>
  The functions of Go's \<open>path/filepath\<close> on Unix that the modelled code calls, as functions on byte
  strings: \<open>Clean\<close>, \<open>Join\<close>, \<open>Base\<close>, \<open>Dir\<close>, \<open>Ext\<close> and \<open>IsAbs\<close>.
\<close>

definition is_abs :: "string \<Rightarrow> bool" where
  "is_abs p \<longleftrightarrow> prefix [slash] p"

text \<open>
  The components \<open>Clean\<close> keeps, innermost first: empty and dot components go, a dot-dot removes the
  component before it, and one with nothing to remove stays in a relative path only.
\<close>

fun clean_comps :: "bool \<Rightarrow> string list \<Rightarrow> string list \<Rightarrow> string list" where
  "clean_comps rooted done [] = done"
| "clean_comps rooted done (c # cs) =
     (if c = [] \<or> c = ''.'' then clean_comps rooted done cs
      else if c = ''..'' then
        (case done of
           [] \<Rightarrow> clean_comps rooted (if rooted then [] else [c]) cs
         | d # ds \<Rightarrow> if d = ''..'' then clean_comps rooted (c # done) cs else clean_comps rooted ds cs)
      else clean_comps rooted (c # done) cs)"

definition path_clean :: "string \<Rightarrow> string" where
  "path_clean p =
     (let cs = rev (clean_comps (is_abs p) [] (split_on slash p))
      in if is_abs p then slash # str_join [slash] cs
         else if cs = [] then ''.'' else str_join [slash] cs)"

definition path_join :: "string list \<Rightarrow> string" where
  "path_join elems =
     (case filter (\<lambda>e. e \<noteq> []) elems of
        [] \<Rightarrow> []
      | es \<Rightarrow> path_clean (str_join [slash] es))"

definition strip_trailing_slashes :: "string \<Rightarrow> string" where
  "strip_trailing_slashes p = rev (dropWhile (\<lambda>c. c = slash) (rev p))"

definition after_last_slash :: "string \<Rightarrow> string" where
  "after_last_slash p = rev (takeWhile (\<lambda>c. c \<noteq> slash) (rev p))"

definition through_last_slash :: "string \<Rightarrow> string" where
  "through_last_slash p = rev (dropWhile (\<lambda>c. c \<noteq> slash) (rev p))"

definition path_base :: "string \<Rightarrow> string" where
  "path_base p =
     (if p = [] then ''.''
      else (let q = strip_trailing_slashes p in if q = [] then ''/'' else after_last_slash q))"

definition path_dir :: "string \<Rightarrow> string" where
  "path_dir p = path_clean (through_last_slash p)"

text \<open>\<open>Ext\<close>: the suffix from the last dot of the final element, empty when it has none.\<close>

definition path_ext :: "string \<Rightarrow> string" where
  "path_ext p =
     (let b = after_last_slash p; r = takeWhile (\<lambda>c. c \<noteq> CHR ''.'') (rev b)
      in if length r = length b then [] else CHR ''.'' # rev r)"

lemma clean_comps_set: "c \<in> set (clean_comps rooted ds cs) \<Longrightarrow> c \<in> set ds \<union> set cs"
proof (induction rooted ds cs rule: clean_comps.induct)
  case (2 rooted d c' cs)
  then show ?case by (auto split: if_splits list.splits)
qed simp

lemma clean_comps_proper:
  "\<forall>c \<in> set ds. c \<noteq> [] \<and> c \<noteq> ''.'' \<Longrightarrow> c \<in> set (clean_comps rooted ds cs) \<Longrightarrow> c \<noteq> [] \<and> c \<noteq> ''.''"
proof (induction rooted ds cs rule: clean_comps.induct)
  case (2 rooted d c' cs)
  then show ?case by (auto split: if_splits list.splits)
qed simp

lemma clean_comps_rooted:
  "''..'' \<notin> set ds \<Longrightarrow> ''..'' \<notin> set (clean_comps True ds cs)"
proof (induction True ds cs rule: clean_comps.induct)
  case (2 d c' cs)
  then show ?case by (auto split: if_splits list.splits)
qed simp

lemma clean_comps_normal:
  "\<forall>c \<in> set cs. c \<noteq> [] \<and> c \<noteq> ''.'' \<and> c \<noteq> ''..'' \<Longrightarrow> clean_comps rooted ds cs = rev cs @ ds"
  by (induction cs arbitrary: ds) auto

text \<open>A cleaned rooted path holds no dot-dot component: it names a file below the root it starts at.\<close>

lemma path_clean_rooted_comps:
  assumes "is_abs p"
  obtains cs where "path_clean p = slash # str_join [slash] cs"
    "\<forall>c \<in> set cs. c \<noteq> [] \<and> c \<noteq> ''.'' \<and> c \<noteq> ''..'' \<and> slash \<notin> set c"
proof -
  let ?cs = "rev (clean_comps True [] (split_on slash p))"
  have "path_clean p = slash # str_join [slash] ?cs"
    using assms by (simp add: path_clean_def)
  moreover have "\<forall>c \<in> set ?cs. c \<noteq> [] \<and> c \<noteq> ''.'' \<and> c \<noteq> ''..'' \<and> slash \<notin> set c"
  proof
    fix c assume "c \<in> set ?cs"
    then have c: "c \<in> set (clean_comps True [] (split_on slash p))" by simp
    have "slash \<notin> set c"
      using clean_comps_set [OF c] split_on_parts_free by fastforce
    moreover have "c \<noteq> ''..''" using clean_comps_rooted [of "[]"] c by auto
    ultimately show "c \<noteq> [] \<and> c \<noteq> ''.'' \<and> c \<noteq> ''..'' \<and> slash \<notin> set c"
      using clean_comps_proper [OF _ c] by simp
  qed
  ultimately show ?thesis by (rule that)
qed

lemma path_clean_rooted_idem:
  assumes "is_abs p"
  shows "path_clean (path_clean p) = path_clean p"
proof -
  obtain cs where cs: "path_clean p = slash # str_join [slash] cs"
    "\<forall>c \<in> set cs. c \<noteq> [] \<and> c \<noteq> ''.'' \<and> c \<noteq> ''..'' \<and> slash \<notin> set c"
    using path_clean_rooted_comps [OF assms] by blast
  show ?thesis
  proof (cases "cs = []")
    case True
    then show ?thesis using cs by (simp add: path_clean_def is_abs_def)
  next
    case False
    have "split_on slash (slash # str_join [slash] cs) = [] # cs"
      using False cs(2) by (simp add: split_on_join)
    then have "path_clean (slash # str_join [slash] cs) = slash # str_join [slash] cs"
      using clean_comps_normal [of cs True "[]"] cs(2) by (simp add: path_clean_def is_abs_def)
    then show ?thesis by (simp add: cs)
  qed
qed

lemma clean_comps_last:
  "x \<noteq> [] \<Longrightarrow> x \<noteq> ''.'' \<Longrightarrow> x \<noteq> ''..'' \<Longrightarrow>
   clean_comps rooted ds (cs @ [x]) = x # clean_comps rooted ds cs"
  by (induction rooted ds cs rule: clean_comps.induct) (auto split: list.splits)

lemma str_join_snoc: "str_join sep (xs @ [x]) = (if xs = [] then x else str_join sep xs @ sep @ x)"
proof (induction xs rule: induct_list012)
  case (3 a b xs)
  then show ?case by (cases xs) auto
qed auto

lemma split_on_snoc_part:
  "slash \<notin> set x \<Longrightarrow> \<exists>c cs. split_on slash (p @ slash # x) = c # cs @ [x]"
proof (induction p)
  case Nil
  then show ?case by (simp add: split_on_free)
next
  case (Cons c p)
  then obtain d cs where "split_on slash (p @ slash # x) = d # cs @ [x]" by blast
  then show ?case by (cases "c = slash") auto
qed

text \<open>A proper final element survives \<open>Join\<close>.\<close>

lemma path_clean_suffix:
  assumes "slash \<notin> set x" "x \<noteq> []" "x \<noteq> ''.''" "x \<noteq> ''..''"
  shows "suffix x (path_clean (p @ slash # x))"
proof -
  obtain cs where "split_on slash (p @ slash # x) = cs @ [x]"
    using split_on_snoc_part [OF assms(1)] by (metis append_Cons)
  then show ?thesis
    by (simp add: path_clean_def clean_comps_last assms str_join_snoc Let_def suffix_def)
qed

lemma path_join_suffix:
  assumes "slash \<notin> set x" "x \<noteq> []" "x \<noteq> ''.''" "x \<noteq> ''..''"
  shows "suffix x (path_join [d, x])"
proof (cases "d = []")
  case True
  have "split_on slash x = [x]" "\<not> is_abs x"
    using assms split_on_free by (auto simp: is_abs_def Sublist.prefix_def)
  then show ?thesis using True assms by (simp add: path_join_def path_clean_def)
next
  case False
  then show ?thesis using assms path_clean_suffix [of x d] by (simp add: path_join_def)
qed

end
