(* ===== verification/LintGate.thy ===== *)
theory LintGate
  imports Baseline GoPath
begin

text \<open>
  The baseline-diff gate of \<open>internal/lintgate\<close> and its callers in \<open>cmd/go-mk/lint.go\<close>: findings are
  extracted from a tool's raw output, the accepted ones are read from the baseline file, and the
  gate passes when every current finding's key is an accepted key. The link to the rewriter of
  \<open>Baseline\<close> is the locale \<open>baseline_store\<close>: the laws an update of a baseline keeps, from which the
  gate's behaviour across updates follows.
\<close>

section \<open>Evaluating a gate\<close>

record gate_result =
  gr_gate :: string
  gr_passed :: bool
  gr_new :: "string list"
  gr_gone :: nat
  gr_remediation :: string
  gr_suppress_fixed :: bool

fun apply_filters :: "string list \<Rightarrow> matcher option \<Rightarrow> matcher option \<Rightarrow> string list" where
  "apply_filters [] exclude scope = []"
| "apply_filters (l # ls) exclude scope =
     (if (case exclude of None \<Rightarrow> False | Some m \<Rightarrow> m l) then apply_filters ls exclude scope
      else if \<not> in_scope scope l then apply_filters ls exclude scope
      else l # apply_filters ls exclude scope)"

definition gate_key_set :: "string list \<Rightarrow> string set" where
  "gate_key_set ls = set (map (\<lambda>l. finding_key l [] []) ls)"

fun map_new_findings :: "string list \<Rightarrow> string set \<Rightarrow> string set \<Rightarrow> string list" where
  "map_new_findings [] baseline seen = []"
| "map_new_findings (l # ls) baseline seen =
     (let key = finding_key l [] [] in
      if key \<in> baseline then map_new_findings ls baseline seen
      else if key \<in> seen then map_new_findings ls baseline seen
      else l # map_new_findings ls baseline (insert key seen))"

definition count_gone_keys :: "string set \<Rightarrow> string set \<Rightarrow> nat" where
  "count_gone_keys current baseline = card (Set.filter (\<lambda>k. k \<notin> current) baseline)"

definition evaluate_gate ::
  "string \<Rightarrow> string list \<Rightarrow> string list \<Rightarrow> matcher option \<Rightarrow> matcher option \<Rightarrow> string \<Rightarrow> gate_result" where
  "evaluate_gate gate current_findings baseline_findings exclude scope remediation =
     (let current = apply_filters current_findings exclude scope;
          baseline = apply_filters baseline_findings exclude scope;
          fresh = map_new_findings current (gate_key_set baseline) {}
      in \<lparr>gr_gate = gate, gr_passed = (length fresh = 0), gr_new = fresh,
          gr_gone = count_gone_keys (gate_key_set current) (gate_key_set baseline),
          gr_remediation = remediation, gr_suppress_fixed = False\<rparr>)"

section \<open>Rendering\<close>

definition split_lines :: "string \<Rightarrow> string list" where
  "split_lines text =
     (let parts = split_on (CHR 0x0A) text in if last parts = [] then butlast parts else parts)"

definition printed_lines :: "string \<Rightarrow> string list" where
  "printed_lines finding = split_lines (print_finding finding [] [])"

definition render_failed :: "gate_result \<Rightarrow> string list" where
  "render_failed r =
     [gr_gate r @ '': FAILED'', ''  New findings: '' @ itoa_nat (length (gr_new r)), [], ''Findings:''] @
     concat (map printed_lines (gr_new r)) @ [[], ''  '' @ gr_remediation r]"

definition render_passed :: "gate_result \<Rightarrow> string list" where
  "render_passed r =
     [gr_gate r @ '': OK'', ''  New findings: 0''] @
     (if gr_gone r > 0 \<and> \<not> gr_suppress_fixed r
      then [''  Saved findings now fixed: '' @ itoa_nat (gr_gone r)] else [])"

definition render_gate :: "gate_result \<Rightarrow> string list" where
  "render_gate r = (if \<not> gr_passed r then render_failed r else render_passed r)"

section \<open>Extraction and the baseline reader\<close>

text \<open>
  The command layer runs in an environment: variables, the working directory, files and \<open>os.Stat\<close>.
\<close>

datatype file_stat = StatOk | StatMissing | StatError

record lint_world =
  lw_env :: "string \<Rightarrow> string"
  lw_cwd :: "string option"
  lw_files :: "string \<Rightarrow> file_read"
  lw_stat :: "string \<Rightarrow> file_stat"
  lw_compile :: "string \<Rightarrow> matcher option"

definition lint_root :: "lint_world \<Rightarrow> string" where
  "lint_root w =
     (let root = (if lw_env w ''_GO_MK_ROOT'' = [] then (case lw_cwd w of None \<Rightarrow> [] | Some d \<Rightarrow> d)
                  else lw_env w ''_GO_MK_ROOT'')
      in if root \<noteq> [] \<and> \<not> suffix [slash] root then root @ [slash] else root)"

definition finding_resolves_in_tree :: "(string \<Rightarrow> file_stat) \<Rightarrow> string \<Rightarrow> string \<Rightarrow> bool" where
  "finding_resolves_in_tree stat path root =
     (if path = [] then True
      else (let root_clean = path_clean root;
                target = (if is_abs path then path_clean path else path_clean (path_join [root_clean, path]))
            in if target \<noteq> root_clean \<and> \<not> prefix (root_clean @ [slash]) target then False
               else stat target \<noteq> StatMissing))"

definition sorted_unique :: "string list \<Rightarrow> string list" where
  "sorted_unique ls = sort_dedup ls"

fun extract_lines ::
  "(string \<Rightarrow> file_stat) \<Rightarrow> string \<Rightarrow> matcher \<Rightarrow> matcher option \<Rightarrow> string list \<Rightarrow> string list \<times> nat" where
  "extract_lines stat root pattern exclude [] = ([], 0)"
| "extract_lines stat root pattern exclude (l # ls) =
     (let (kept, dropped) = extract_lines stat root pattern exclude ls;
          normalized = normalize_path l root root
      in if \<not> pattern l then (kept, dropped)
         else if (case exclude of None \<Rightarrow> False | Some m \<Rightarrow> m normalized) then (kept, dropped)
         else (case finding_path normalized of
                 Some path \<Rightarrow>
                   if \<not> finding_resolves_in_tree stat path root then (kept, Suc dropped)
                   else (normalized # kept, dropped)
               | None \<Rightarrow> (normalized # kept, dropped)))"

text \<open>
  The exclude pattern is compiled when the first matching line reaches it, so a bad one is an error
  only when some line matches.
\<close>

definition extract_findings ::
  "lint_world \<Rightarrow> string \<Rightarrow> string \<Rightarrow> string \<Rightarrow> (baseline_error, string list \<times> nat) result" where
  "extract_findings w raw_path match_pattern exclude_pattern =
     result_bind (read_lines (lw_files w) raw_path) (\<lambda>ls.
     (case lw_compile w match_pattern of
        None \<Rightarrow> Inl (BadPattern match_pattern)
      | Some pattern \<Rightarrow>
          if list_ex pattern ls then
            result_bind (compile_filter (lw_compile w) exclude_pattern) (\<lambda>exclude.
              let (kept, dropped) = extract_lines (lw_stat w) (lint_root w) pattern exclude ls
              in Inr (sorted_unique kept, dropped))
          else Inr ([], 0)))"

definition tool_failed_without_findings :: "int \<Rightarrow> nat \<Rightarrow> nat \<Rightarrow> bool" where
  "tool_failed_without_findings status count dropped \<longleftrightarrow> status \<noteq> 0 \<and> count = 0 \<and> dropped = 0"

definition compile_patterns ::
  "(string \<Rightarrow> matcher option) \<Rightarrow> string \<Rightarrow> string \<Rightarrow>
     (baseline_error, matcher option \<times> matcher option) result" where
  "compile_patterns compile exclude_pattern scope_pattern =
     result_bind (compile_filter compile exclude_pattern) (\<lambda>exclude.
     result_bind (compile_filter compile scope_pattern) (\<lambda>scope. Inr (exclude, scope)))"

definition payload_lines :: "string \<Rightarrow> string \<Rightarrow> string list \<Rightarrow> string list" where
  "payload_lines label root ls = List.map_filter (\<lambda>l. baseline_payload l label root root) ls"

definition read_baseline_findings ::
  "lint_world \<Rightarrow> string \<Rightarrow> string \<Rightarrow> string \<Rightarrow> string \<Rightarrow> (baseline_error, string list) result" where
  "read_baseline_findings w path label exclude_pattern scope_pattern =
     (case lw_stat w path of
        StatMissing \<Rightarrow> Inr []
      | StatError \<Rightarrow> Inl (ReadFailed path)
      | StatOk \<Rightarrow>
          result_bind (read_lines (lw_files w) path) (\<lambda>ls.
          result_bind (compile_patterns (lw_compile w) exclude_pattern scope_pattern) (\<lambda>(exclude, scope).
            Inr (sorted_unique (apply_filters (payload_lines label (lint_root w) ls) exclude scope)))))"

definition write_findings_text :: "string list \<Rightarrow> string" where
  "write_findings_text ls = concat (map (\<lambda>l. l @ newline) ls)"

section \<open>Running a gate\<close>

text \<open>
  What a gate run changes: the lines it prints, the markers it collects for the report while a chain
  is collecting, and the gate names it appends to \<open>.make/lint.failed\<close>.
\<close>

record gate_marker =
  gm_name :: string
  gm_passed :: bool
  gm_findings :: "string list"
  gm_remediation :: string

record gate_log =
  gl_collecting :: bool
  gl_output :: "string list"
  gl_markers :: "gate_marker list"
  gl_failed :: "string list"

definition record_failed_gate :: "string \<Rightarrow> gate_log \<Rightarrow> gate_log" where
  "record_failed_gate gate log = log\<lparr>gl_failed := gl_failed log @ [gate]\<rparr>"

definition report_gate :: "gate_result \<Rightarrow> gate_log \<Rightarrow> gate_log" where
  "report_gate r log =
     (if gl_collecting log
      then log\<lparr>gl_markers := gl_markers log @
             [\<lparr>gm_name = gr_gate r, gm_passed = gr_passed r, gm_findings = gr_new r,
               gm_remediation = gr_remediation r\<rparr>]\<rparr>
      else log\<lparr>gl_output := gl_output log @ render_gate r\<rparr>)"

definition run_gate_and_print ::
  "lint_world \<Rightarrow> string \<Rightarrow> string list \<Rightarrow> string \<Rightarrow> string \<Rightarrow> string \<Rightarrow> string \<Rightarrow> bool \<Rightarrow> gate_log \<Rightarrow>
     (baseline_error, bool) result \<times> gate_log" where
  "run_gate_and_print w gate current path remediation exclude_pattern scope_pattern suppress log =
     (case read_baseline_findings w path gate exclude_pattern scope_pattern of
        Inl e \<Rightarrow> (Inl e, log)
      | Inr baseline \<Rightarrow>
          (case compile_patterns (lw_compile w) exclude_pattern scope_pattern of
             Inl e \<Rightarrow> (Inl e, log)
           | Inr (exclude, scope) \<Rightarrow>
               (let r = (evaluate_gate gate current baseline exclude scope remediation)
                          \<lparr>gr_suppress_fixed := suppress\<rparr>;
                    log = report_gate r log;
                    log = (if \<not> gr_passed r then record_failed_gate gate log else log)
                in (Inr (gr_passed r), log))))"

section \<open>Facts about the evaluation\<close>

definition filter_keep :: "matcher option \<Rightarrow> matcher option \<Rightarrow> string \<Rightarrow> bool" where
  "filter_keep exclude scope l \<longleftrightarrow>
     \<not> (case exclude of None \<Rightarrow> False | Some m \<Rightarrow> m l) \<and> in_scope scope l"

lemma apply_filters_filter: "apply_filters ls exclude scope = filter (filter_keep exclude scope) ls"
  by (induction ls) (auto simp: filter_keep_def)

interpretation gate_filters: line_filter "\<lambda>ls. apply_filters ls exclude scope"
  by unfold_locales (auto simp: apply_filters_filter)

interpretation sorted_unique: sorted_listing sorted_unique
  by unfold_locales
    (simp_all add: sorted_unique_def sort_dedup.listing_set sort_dedup.listing_sorted sort_dedup.listing_distinct)

lemma map_new_findings_keep_first:
  "map_new_findings ls baseline seen =
     keep_first baseline_key seen (filter (\<lambda>l. baseline_key l \<notin> baseline) ls)"
  by (induction ls arbitrary: seen) (auto simp: Let_def baseline_key_finding_key)

lemma gate_key_set_image: "gate_key_set ls = baseline_key ` set ls"
  by (simp add: gate_key_set_def baseline_key_finding_key image_def)

lemma map_new_findings_keys:
  "baseline_key ` set (map_new_findings ls baseline {}) = gate_key_set ls - baseline"
  by (auto simp: map_new_findings_keep_first keep_first_keys gate_key_set_image)

lemma map_new_findings_empty: "map_new_findings ls baseline {} = [] \<longleftrightarrow> gate_key_set ls \<subseteq> baseline"
proof -
  have "map_new_findings ls baseline {} = [] \<longleftrightarrow> baseline_key ` set (map_new_findings ls baseline {}) = {}"
    by simp
  then show ?thesis by (simp only: map_new_findings_keys Diff_eq_empty_iff)
qed

lemma evaluate_gate_passed:
  "gr_passed (evaluate_gate gate current baseline exclude scope remediation) \<longleftrightarrow>
     gate_key_set (apply_filters current exclude scope) \<subseteq> gate_key_set (apply_filters baseline exclude scope)"
  by (simp add: evaluate_gate_def Let_def map_new_findings_empty)

section \<open>Gates and baseline updates\<close>

text \<open>
  What the gate relies on in the provider of baselines: \<open>recorded b\<close> are the keys the gate reads from
  a baseline, \<open>keys fs\<close> those of the findings of a run, \<open>update\<close> the rewrite in a mode, and \<open>ok fs\<close> the
  findings the row format can carry.
\<close>

locale baseline_store =
  fixes recorded :: "'b \<Rightarrow> string set"
    and keys :: "string list \<Rightarrow> string set"
    and update :: "baseline_mode \<Rightarrow> string list \<Rightarrow> 'b \<Rightarrow> 'b"
    and ok :: "string list \<Rightarrow> bool"
  assumes sync_records: "ok fs \<Longrightarrow> keys fs \<subseteq> recorded (update ModeSync fs b)"
    and accept_records: "ok fs \<Longrightarrow> keys fs \<subseteq> recorded (update ModeAcceptNew fs b)"
    and accept_keeps: "ok fs \<Longrightarrow> recorded b - {[]} \<subseteq> recorded (update ModeAcceptNew fs b)"
    and prune_shrinks: "ok fs \<Longrightarrow> recorded (update ModePruneFixed fs b) \<subseteq> recorded b"
    and prune_keeps: "ok fs \<Longrightarrow> keys fs \<inter> recorded b - {[]} \<subseteq> recorded (update ModePruneFixed fs b)"
begin

definition passes :: "string set \<Rightarrow> string list \<Rightarrow> 'b \<Rightarrow> bool" where
  "passes considered fs b \<longleftrightarrow> keys fs \<inter> considered \<subseteq> recorded b"

lemma recording_update_passes:
  "ok fs \<Longrightarrow> mode \<noteq> ModePruneFixed \<Longrightarrow> passes considered fs (update mode fs b)"
  using sync_records [of fs b] accept_records [of fs b] by (cases mode) (auto simp: passes_def)

lemma accept_never_fails:
  "ok fs \<Longrightarrow> [] \<notin> keys gs \<Longrightarrow> passes considered gs b \<Longrightarrow> passes considered gs (update ModeAcceptNew fs b)"
  using accept_keeps [of fs b] by (auto simp: passes_def)

lemma prune_never_admits:
  "ok fs \<Longrightarrow> passes considered gs (update ModePruneFixed fs b) \<Longrightarrow> passes considered gs b"
  using prune_shrinks [of fs b] by (auto simp: passes_def)

lemma prune_neutral:
  "ok fs \<Longrightarrow> [] \<notin> keys fs \<Longrightarrow> passes considered fs (update ModePruneFixed fs b) \<longleftrightarrow> passes considered fs b"
  using prune_shrinks [of fs b] prune_keeps [of fs b] by (auto simp: passes_def)

end

text \<open>The keys the gate reads from the rows of a baseline file in a tree rooted at \<open>root\<close>.\<close>

definition gate_recorded :: "string \<Rightarrow> string list \<Rightarrow> string set" where
  "gate_recorded label rows =
     {baseline_key (fst (split_row label l)) | l. l \<in> set rows \<and> \<not> skip_input l}"

definition storable :: "string \<Rightarrow> string list \<Rightarrow> bool" where
  "storable label fs \<longleftrightarrow> CHR 0x09 \<notin> set label \<and> (\<forall>f \<in> set fs. clean_finding label f)"

lemma storable_D:
  assumes "storable label fs"
  shows "CHR 0x09 \<notin> set label" "\<forall>f \<in> set fs. skip_input f \<or> clean_finding label f"
    "gate_key_set fs = current_keys fs"
  using assms by (auto simp: storable_def clean_finding_def gate_key_set_image current_keys_def)

lemma recorded_keys_gate: "recorded_keys label rows = gate_recorded label rows - {[]}"
  by (simp add: recorded_keys_eq gate_recorded_def)

definition update_rows ::
  "string \<Rightarrow> matcher option \<Rightarrow> string \<Rightarrow> baseline_mode \<Rightarrow> string list \<Rightarrow> string list \<Rightarrow> string list" where
  "update_rows label scope now mode fs rows =
     rewrite_rows mode scope label now (current_of fs) (old_of label rows)"

lemma rendered_row_recorded:
  assumes "storable label fs" "k \<in> current_keys fs" "render_current label now (current_of fs) old k \<in> set rows"
  shows "k \<in> gate_recorded label rows"
proof -
  have "old_key_of label (render_current label now (current_of fs) old k) = Some k"
    by (rule rendered_row_key [OF storable_D(1,2) [OF assms(1)] assms(2)])
  then show ?thesis
    using assms(3) unfolding gate_recorded_def mem_Collect_eq
    by (intro exI [of _ "render_current label now (current_of fs) old k"])
      (auto simp: old_key_of_def split: if_splits)
qed

lemma update_rows_keys:
  assumes "storable label fs"
  shows "gate_recorded label (update_rows label scope now mode fs rows) - {[]} =
    (case mode of
       ModeSync \<Rightarrow> (current_keys fs - {[]}) \<union> outside_keys scope label fs rows
     | ModePruneFixed \<Rightarrow> (current_keys fs \<inter> recorded_keys label rows) \<union> outside_keys scope label fs rows
     | ModeAcceptNew \<Rightarrow> (current_keys fs - {[]}) \<union> recorded_keys label rows)"
  using rewrite_rows_keys [OF storable_D(1,2) [OF assms], of mode scope now rows]
  by (simp add: update_rows_def recorded_keys_gate)

lemma update_rows_old_or_current:
  assumes "r \<in> set (update_rows label scope now mode fs rows)"
  shows "(\<exists>k \<in> current_keys fs. (mode = ModePruneFixed \<longrightarrow> k \<in> old_keys label rows) \<and>
            r = render_current label now (current_of fs) (old_of label rows) k) \<or> r \<in> set rows"
proof -
  have kept: "map_get (old_line (old_of label rows)) k \<in> set rows" if "k \<in> old_keys label rows" for k
  proof -
    have "old_finding (old_of label rows) k \<noteq> None" using that by (simp add: old_absent_iff)
    then obtain l where "l \<in> set rows" "old_entry label (old_of label rows) k l"
      using old_entry_exists by blast
    then show ?thesis by (simp add: old_entry_def)
  qed
  then show ?thesis
    using assms outside_order_facts(1) [of scope label fs rows]
    by (cases mode)
      (auto simp: update_rows_def rewrite_rows_def old_outside_scope_eq cur_order_set old_order_set
        current_absent_iff old_absent_iff)
qed

interpretation baseline_rows: baseline_store "gate_recorded label" gate_key_set
  "update_rows label scope now" "storable label"
proof unfold_locales
  fix fs rows
  assume ok: "storable label fs"
  note keys = storable_D(3) [OF ok]
  have recorded: "gate_key_set fs \<subseteq> gate_recorded label (update_rows label scope now mode fs rows)"
    if "mode \<noteq> ModePruneFixed" for mode
  proof
    fix k assume k: "k \<in> gate_key_set fs"
    then have "k \<in> current_keys fs" by (simp add: keys)
    then show "k \<in> gate_recorded label (update_rows label scope now mode fs rows)"
      using that cur_order_set by (cases mode)
        (auto intro!: rendered_row_recorded [OF ok] simp: update_rows_def rewrite_rows_def)
  qed
  show "gate_key_set fs \<subseteq> gate_recorded label (update_rows label scope now ModeSync fs rows)"
    "gate_key_set fs \<subseteq> gate_recorded label (update_rows label scope now ModeAcceptNew fs rows)"
    by (rule recorded; simp)+
  show "gate_recorded label rows - {[]} \<subseteq> gate_recorded label (update_rows label scope now ModeAcceptNew fs rows)"
    using update_rows_keys [OF ok, of scope now ModeAcceptNew rows] by (auto simp: recorded_keys_gate)
  show "gate_key_set fs \<inter> gate_recorded label rows - {[]}
      \<subseteq> gate_recorded label (update_rows label scope now ModePruneFixed fs rows)"
    using update_rows_keys [OF ok, of scope now ModePruneFixed rows] by (auto simp: recorded_keys_gate keys)
  show "gate_recorded label (update_rows label scope now ModePruneFixed fs rows) \<subseteq> gate_recorded label rows"
  proof
    fix k assume "k \<in> gate_recorded label (update_rows label scope now ModePruneFixed fs rows)"
    then obtain r where r: "r \<in> set (update_rows label scope now ModePruneFixed fs rows)" "\<not> skip_input r"
      "k = baseline_key (fst (split_row label r))" by (auto simp: gate_recorded_def)
    from update_rows_old_or_current [OF r(1)] show "k \<in> gate_recorded label rows"
    proof
      assume "r \<in> set rows"
      with r show ?thesis by (auto simp: gate_recorded_def)
    next
      assume "\<exists>j \<in> current_keys fs. (ModePruneFixed = ModePruneFixed \<longrightarrow> j \<in> old_keys label rows) \<and>
            r = render_current label now (current_of fs) (old_of label rows) j"
      then obtain j where j: "j \<in> current_keys fs" "j \<in> old_keys label rows"
        "r = render_current label now (current_of fs) (old_of label rows) j" by auto
      then have "old_key_of label r = Some j"
        using rendered_row_key [OF storable_D(1,2) [OF ok]] by simp
      with r(3) have "k = j" by (auto simp: old_key_of_def split: if_splits)
      with j(2) show ?thesis
        by (auto simp: old_keys_def old_key_of_def gate_recorded_def split: if_splits)
    qed
  qed
qed

section \<open>Reading a baseline through the gate\<close>

definition relative :: "string \<Rightarrow> string \<Rightarrow> bool" where
  "relative root l \<longleftrightarrow> root = [] \<or> \<not> prefix root l"

definition by_key :: "matcher option \<Rightarrow> matcher option \<Rightarrow> bool" where
  "by_key exclude scope \<longleftrightarrow>
     (\<forall>x y. baseline_key x = baseline_key y \<longrightarrow> filter_keep exclude scope x = filter_keep exclude scope y)"

definition considered_keys :: "matcher option \<Rightarrow> matcher option \<Rightarrow> string set" where
  "considered_keys exclude scope = {baseline_key x | x. filter_keep exclude scope x}"

lemma filtered_keys:
  assumes "by_key exclude scope"
  shows "gate_key_set (apply_filters ls exclude scope) = gate_key_set ls \<inter> considered_keys exclude scope"
proof -
  have "filter_keep exclude scope x \<longleftrightarrow> baseline_key x \<in> considered_keys exclude scope" for x
    using assms unfolding by_key_def considered_keys_def by blast
  then show ?thesis
    by (auto simp: gate_key_set_image apply_filters_filter)
qed

lemma relative_normalize: "relative root x \<Longrightarrow> normalize_path x root root = strip_parents x"
  by (auto simp: relative_def normalize_path_def strip_dir_def)

lemma baseline_payload_row:
  "baseline_payload l label root root =
     (if skip_input l then None else Some (normalize_path (fst (split_row label l)) root root))"
  by (auto simp: baseline_payload_def skip_input_def split_row_def split: option.splits)

lemma payload_keys:
  assumes "\<And>l. l \<in> set rows \<Longrightarrow> \<not> skip_input l \<Longrightarrow> relative root (fst (split_row label l))"
  shows "gate_key_set (payload_lines label root rows) = gate_recorded label rows"
proof -
  let ?live = "{l \<in> set rows. \<not> skip_input l}"
  have "set (payload_lines label root rows) = (\<lambda>l. normalize_path (fst (split_row label l)) root root) ` ?live"
    by (auto simp: payload_lines_def map_filter_def baseline_payload_row split: if_splits)
  also have "\<dots> = (\<lambda>l. strip_parents (fst (split_row label l))) ` ?live"
    by (rule image_cong) (auto simp: relative_normalize assms)
  finally have "gate_key_set (payload_lines label root rows) = (\<lambda>l. baseline_key (fst (split_row label l))) ` ?live"
    by (simp add: gate_key_set_image image_image)
  then show ?thesis
    unfolding gate_recorded_def by auto
qed

lemma gate_recorded_skip: "skip_input h \<Longrightarrow> gate_recorded label (h # rows) = gate_recorded label rows"
  by (auto simp: gate_recorded_def)

lemma relative_row: "relative root l \<Longrightarrow> relative root (fst (split_row label l))"
  by (auto simp: relative_def split_row_def take_is_prefix split: option.splits
      intro: prefix_order.order_trans)

lemma update_rows_relative:
  assumes "storable label fs" "\<forall>f \<in> set fs. relative root f" "\<forall>l \<in> set rows. relative root l"
    and "r \<in> set (update_rows label scope now mode fs rows)"
  shows "relative root (fst (split_row label r))"
proof -
  from update_rows_old_or_current [OF assms(4)] show ?thesis
  proof
    assume "r \<in> set rows"
    then show ?thesis using assms(3) relative_row by blast
  next
    assume "\<exists>k \<in> current_keys fs. (mode = ModePruneFixed \<longrightarrow> k \<in> old_keys label rows) \<and>
        r = render_current label now (current_of fs) (old_of label rows) k"
    then obtain k where k: "k \<in> current_keys fs" "r = render_current label now (current_of fs) (old_of label rows) k"
      by blast
    obtain f where f: "cur_finding (current_of fs) k = Some f" "f \<in> set fs"
      using current_finding_exists [OF k(1)] by blast
    then have "fst (split_row label r) = f"
      using row_text_key(2) [OF storable_D(1) [OF assms(1)], of f] assms(1) k(2)
      by (simp add: render_current_row storable_def)
    then show ?thesis using f(2) assms(2) by simp
  qed
qed

lemma update_rows_newline_free:
  assumes "storable label fs" "CHR 0x0A \<notin> set label" "CHR 0x0A \<notin> set now"
    and "\<forall>f \<in> set fs. CHR 0x0A \<notin> set f" "\<forall>l \<in> set rows. CHR 0x0A \<notin> set l"
    and "r \<in> set (update_rows label scope now mode fs rows)"
  shows "CHR 0x0A \<notin> set r"
proof -
  from update_rows_old_or_current [OF assms(6)] show ?thesis
  proof
    assume "\<exists>k \<in> current_keys fs. (mode = ModePruneFixed \<longrightarrow> k \<in> old_keys label rows) \<and>
        r = render_current label now (current_of fs) (old_of label rows) k"
    then obtain k where k: "k \<in> current_keys fs" "r = render_current label now (current_of fs) (old_of label rows) k"
      by blast
    obtain f where f: "cur_finding (current_of fs) k = Some f" "f \<in> set fs"
      using current_finding_exists [OF k(1)] by blast
    have "CHR 0x0A \<notin> set (map_get (old_first_added (old_of label rows)) k)"
      by (rule solid_or_empty_free [OF old_first_added_solid]) (simp add: ascii_spaces_def)
    then have "CHR 0x0A \<notin> set (effective_first now (old_of label rows) k)"
      using assms(3) by (simp add: effective_first_def Let_def)
    then show ?thesis
      using k(2) f assms(2,3,4) by (simp add: render_current_row row_text_def label_marker_def)
  qed (use assms(5) in blast)
qed

text \<open>A gate run on a readable baseline is the verdict of the store's contract.\<close>

lemma run_gate_verdict:
  assumes "lw_stat w path = StatOk" "read_lines (lw_files w) path = Inr rows"
    and "compile_patterns (lw_compile w) exclude_pattern scope_pattern = Inr (exclude, scope)"
    and "by_key exclude scope"
    and "\<And>l. l \<in> set rows \<Longrightarrow> \<not> skip_input l \<Longrightarrow> relative (lint_root w) (fst (split_row gate l))"
  shows "fst (run_gate_and_print w gate fs path remediation exclude_pattern scope_pattern suppress log)
     = Inr (baseline_rows.passes gate (considered_keys exclude scope) fs rows)"
proof -
  let ?b = "sorted_unique (apply_filters (payload_lines gate (lint_root w) rows) exclude scope)"
  have "gate_key_set (apply_filters ?b exclude scope)
      = gate_recorded gate rows \<inter> considered_keys exclude scope"
    using filtered_keys [OF assms(4)] payload_keys [OF assms(5)]
    by (simp add: gate_key_set_image sorted_unique.listing_set)
  moreover have "read_baseline_findings w path gate exclude_pattern scope_pattern = Inr ?b"
    using assms(1-3) by (simp add: read_baseline_findings_def)
  ultimately show ?thesis
    using assms(3) filtered_keys [OF assms(4), of fs]
    by (auto simp: run_gate_and_print_def evaluate_gate_passed baseline_rows.passes_def Let_def)
qed

text \<open>The file a plan writes, as the gate reads it.\<close>

lemma planned_file_rows:
  assumes "plan_component compile files c now = Inr pw" "parse_mode (bc_mode c) = Inr mode"
    and "read_lines files (bc_findings_file c) = Inr fs" "read_lines files (bc_baseline_file c) = Inr old"
    and "storable (bc_label c) fs"
    and "CHR 0x0A \<notin> set (bc_label c)" "CHR 0x0A \<notin> set (bc_title c)" "CHR 0x0A \<notin> set now"
  shows "\<exists>h scope. skip_input h \<and>
    text_lines (pw_contents pw) = h # update_rows (bc_label c) scope now mode fs old"
proof -
  obtain scope where contents: "pw_contents pw =
      render_file (bc_title c) now (update_rows (bc_label c) scope now mode fs old)"
    using assms(1-4) by (elim plan_component_Inr) (auto simp: Let_def update_rows_def)
  have "CHR 0x0A \<notin> set r" if "r \<in> set (update_rows (bc_label c) scope now mode fs old)" for r
    using update_rows_newline_free [OF assms(5,6,8) _ _ that] read_lines_newline_free assms(3,4) by blast
  then have "text_lines (pw_contents pw) =
      (''# '' @ bc_title c @ '': generated_at='' @ now) # update_rows (bc_label c) scope now mode fs old"
    unfolding contents by (intro text_lines_render assms(7,8))
  moreover have "skip_input (''# '' @ bc_title c @ '': generated_at='' @ now)"
    by (simp add: skip_input_def)
  ultimately show ?thesis by blast
qed

definition install_baseline :: "lint_world \<Rightarrow> string \<Rightarrow> string \<Rightarrow> lint_world" where
  "install_baseline w path data =
     w\<lparr>lw_files := (lw_files w)(path := Content data), lw_stat := (lw_stat w)(path := StatOk)\<rparr>"

lemma install_baseline_simps [simp]:
  "lw_stat (install_baseline w path data) path = StatOk"
  "read_lines (lw_files (install_baseline w path data)) path = Inr (text_lines data)"
  "lw_compile (install_baseline w path data) = lw_compile w"
  "lint_root (install_baseline w path data) = lint_root w"
  by (simp_all add: install_baseline_def read_lines_def lint_root_def)

lemma gate_after_update:
  assumes "plan_component (lw_compile w) (lw_files w) c now = Inr pw" "parse_mode (bc_mode c) = Inr mode"
    and "read_lines (lw_files w) (bc_findings_file c) = Inr fs"
    and "read_lines (lw_files w) (bc_baseline_file c) = Inr old"
    and "storable (bc_label c) fs"
    and "CHR 0x0A \<notin> set (bc_label c)" "CHR 0x0A \<notin> set (bc_title c)" "CHR 0x0A \<notin> set now"
    and "\<forall>f \<in> set fs. relative (lint_root w) f" "\<forall>l \<in> set old. relative (lint_root w) l"
    and "compile_patterns (lw_compile w) exclude_pattern scope_pattern = Inr (exclude, scope)"
    and "by_key exclude scope"
  shows "\<exists>row_scope. fst (run_gate_and_print (install_baseline w (bc_baseline_file c) (pw_contents pw))
      (bc_label c) gs (bc_baseline_file c) remediation exclude_pattern scope_pattern suppress log)
    = Inr (baseline_rows.passes (bc_label c) (considered_keys exclude scope) gs
             (update_rows (bc_label c) row_scope now mode fs old))"
proof -
  obtain h s where h: "skip_input h"
    "text_lines (pw_contents pw) = h # update_rows (bc_label c) s now mode fs old"
    using planned_file_rows [OF assms(1-8)] by blast
  have "relative (lint_root w) (fst (split_row (bc_label c) l))"
    if "l \<in> set (h # update_rows (bc_label c) s now mode fs old)" "\<not> skip_input l" for l
    using that h(1) update_rows_relative [OF assms(5,9,10)] by auto
  then have "fst (run_gate_and_print (install_baseline w (bc_baseline_file c) (pw_contents pw))
      (bc_label c) gs (bc_baseline_file c) remediation exclude_pattern scope_pattern suppress log)
    = Inr (baseline_rows.passes (bc_label c) (considered_keys exclude scope) gs
             (h # update_rows (bc_label c) s now mode fs old))"
    using h(2) assms(11,12) by (intro run_gate_verdict) simp_all
  then show ?thesis
    by (auto simp: baseline_rows.passes_def gate_recorded_skip [OF h(1)])
qed

lemma extract_lines_sound:
  "f \<in> set (fst (extract_lines stat root pattern exclude ls)) \<Longrightarrow>
   \<exists>l \<in> set ls. pattern l \<and> f = normalize_path l root root \<and>
     \<not> (case exclude of None \<Rightarrow> False | Some m \<Rightarrow> m f) \<and>
     (\<forall>path. finding_path f = Some path \<longrightarrow> finding_resolves_in_tree stat path root)"
  by (induction ls) (auto simp: Let_def split: prod.splits if_splits option.splits)

lemma in_tree_target:
  assumes "finding_resolves_in_tree stat path root" "path \<noteq> []"
  shows "\<exists>target. (target = path_clean root \<or> prefix (path_clean root @ [slash]) target) \<and>
    stat target \<noteq> StatMissing \<and>
    target = (if is_abs path then path_clean path else path_clean (path_join [path_clean root, path]))"
  using assms by (auto simp: finding_resolves_in_tree_def Let_def split: if_splits)

definition sample_world :: "string \<Rightarrow> lint_world" where
  "sample_world baseline =
     \<lparr>lw_env = (\<lambda>_. []), lw_cwd = Some ''/w'',
      lw_files = (\<lambda>p. if p = ''f'' then Content (''a.go:3:1: m'' @ newline)
                     else if p = ''b'' then Content baseline else NoFile),
      lw_stat = (\<lambda>_. StatOk), lw_compile = (\<lambda>_. Some (\<lambda>_. True))\<rparr>"

definition sample_component :: "string \<Rightarrow> baseline_component" where
  "sample_component mode =
     \<lparr>bc_title = ''t'', bc_label = ''lint'', bc_baseline_file = ''b'', bc_findings_file = ''f'',
      bc_mode = mode, bc_exclude = [], bc_scope = []\<rparr>"

lemma sample_facts:
  "read_lines (lw_files (sample_world b)) ''f'' = Inr [''a.go:3:1: m'']"
  "lint_root (sample_world b) = ''/w/''"
  "storable ''lint'' [''a.go:3:1: m'']"
  "relative ''/w/'' ''a.go:3:1: m''"
  "compile_patterns (lw_compile (sample_world b)) [] [] = Inr (None, None)"
  "by_key None None"
proof -
  have "text_lines (''a.go:3:1: m'' @ newline) = [''a.go:3:1: m'']" by code_simp
  then show "read_lines (lw_files (sample_world b)) ''f'' = Inr [''a.go:3:1: m'']"
    by (simp add: sample_world_def read_lines_def)
  show "lint_root (sample_world b) = ''/w/''"
    by (simp add: sample_world_def lint_root_def suffix_def Let_def)
  show "storable ''lint'' [''a.go:3:1: m'']" by code_simp
  show "relative ''/w/'' ''a.go:3:1: m''" by (simp add: relative_def)
  show "compile_patterns (lw_compile (sample_world b)) [] [] = Inr (None, None)"
    by (simp add: compile_patterns_def compile_filter_def)
  show "by_key None None" by (simp add: by_key_def filter_keep_def in_scope_def)
qed

lemma sample_gate_keys:
  "gate_key_set [''a.go:3:1: m''] = {''a.go::: m''}"
  "gate_recorded ''lint'' [''a.go:9:9: m''] = {''a.go::: m''}"
proof -
  show "gate_key_set [''a.go:3:1: m''] = {''a.go::: m''}" by code_simp
  have "baseline_key (fst (split_row ''lint'' ''a.go:9:9: m'')) = ''a.go::: m''" by code_simp
  moreover have "\<not> skip_input ''a.go:9:9: m''" by code_simp
  ultimately show "gate_recorded ''lint'' [''a.go:9:9: m''] = {''a.go::: m''}"
    by (auto simp: gate_recorded_def)
qed

lemma sample_plan:
  assumes "text_lines b = old" "parse_mode mode = Inr m"
  shows "\<exists>pw. plan_component (lw_compile (sample_world b)) (lw_files (sample_world b)) (sample_component mode) ''t1''
      = Inr pw"
  using assms
  by (auto simp: plan_component_def sample_world_def sample_component_def result_bind_def read_lines_def
      rewrite_body_def compile_filter_def baseline_key_set_def)

section \<open>Properties\<close>

text \<open>
  C5. The verdict of a gate: it passes exactly when every key of the filtered findings is a key of
  the filtered baseline, the findings it reports are lines of the input in order, one for each new
  key, and the count of fixed findings is the number of baseline keys that no longer occur.
\<close>

theorem gate_verdict:
  fixes exclude scope :: "matcher option"
  defines "cur fs \<equiv> gate_key_set (apply_filters fs exclude scope)"
  shows "let r = evaluate_gate gate fs baseline exclude scope remediation in
    (gr_passed r \<longleftrightarrow> cur fs \<subseteq> cur baseline) \<and>
    subseq (gr_new r) fs \<and> distinct (map baseline_key (gr_new r)) \<and>
    baseline_key ` set (gr_new r) = cur fs - cur baseline \<and>
    gr_gone r = card (cur baseline - cur fs)"
proof -
  let ?current = "apply_filters fs exclude scope"
  let ?new = "map_new_findings ?current (cur baseline) {}"
  have "subseq ?new ?current"
    by (simp add: map_new_findings_keep_first)
      (rule subseq_order.trans [OF keep_first_subseq subseq_filter_left])
  moreover have "subseq ?current fs" by (rule gate_filters.filt_subseq)
  ultimately have "subseq ?new fs" by (rule subseq_order.trans)
  moreover have "distinct (map baseline_key ?new)"
    by (simp add: map_new_findings_keep_first keep_first_distinct)
  moreover have "baseline_key ` set ?new = cur fs - cur baseline"
    unfolding cur_def by (rule map_new_findings_keys)
  moreover have "Set.filter (\<lambda>k. k \<notin> cur fs) (cur baseline) = cur baseline - cur fs" by auto
  ultimately show ?thesis
    using evaluate_gate_passed [of gate fs baseline exclude scope remediation]
    by (simp add: evaluate_gate_def Let_def count_gone_keys_def cur_def)
qed

text \<open>
  C16. Recording settles the gate: after a sync or accept-new update of a baseline from the findings
  of a run, the gate over those findings passes and records no failure, whatever the old file held
  and whatever filters apply, as long as the filters look at a finding's path and message only.
\<close>

theorem recorded_findings_pass:
  assumes "plan_component (lw_compile w) (lw_files w) c now = Inr pw" "parse_mode (bc_mode c) = Inr mode"
    and "mode \<noteq> ModePruneFixed"
    and "read_lines (lw_files w) (bc_findings_file c) = Inr fs"
    and "read_lines (lw_files w) (bc_baseline_file c) = Inr old"
    and "storable (bc_label c) fs"
    and "CHR 0x0A \<notin> set (bc_label c)" "CHR 0x0A \<notin> set (bc_title c)" "CHR 0x0A \<notin> set now"
    and "\<forall>f \<in> set fs. relative (lint_root w) f" "\<forall>l \<in> set old. relative (lint_root w) l"
    and "compile_patterns (lw_compile w) exclude_pattern scope_pattern = Inr (exclude, scope)"
    and "by_key exclude scope"
  shows "fst (run_gate_and_print (install_baseline w (bc_baseline_file c) (pw_contents pw))
      (bc_label c) fs (bc_baseline_file c) remediation exclude_pattern scope_pattern suppress log) = Inr True"
proof -
  obtain row_scope where "fst (run_gate_and_print (install_baseline w (bc_baseline_file c) (pw_contents pw))
      (bc_label c) fs (bc_baseline_file c) remediation exclude_pattern scope_pattern suppress log)
    = Inr (baseline_rows.passes (bc_label c) (considered_keys exclude scope) fs
             (update_rows (bc_label c) row_scope now mode fs old))"
    using gate_after_update [OF assms(1,2,4-13)] by blast
  then show ?thesis
    using baseline_rows.recording_update_passes [OF assms(6,3)] by simp
qed

theorem recorded_findings_pass_witness:
  "\<exists>pw. plan_component (lw_compile (sample_world [])) (lw_files (sample_world [])) (sample_component ''accept-new'') ''t1''
      = Inr pw \<and>
    fst (run_gate_and_print (install_baseline (sample_world []) ''b'' (pw_contents pw)) ''lint'' [''a.go:3:1: m'']
      ''b'' ''fix it'' [] [] False \<lparr>gl_collecting = False, gl_output = [], gl_markers = [], gl_failed = []\<rparr>) = Inr True"
proof -
  let ?c = "sample_component ''accept-new''" and ?w = "sample_world []"
  have mode: "parse_mode (bc_mode ?c) = Inr ModeAcceptNew"
    by (simp add: sample_component_def parse_mode_def mode_by_name_def)
  then obtain pw where pw: "plan_component (lw_compile ?w) (lw_files ?w) ?c ''t1'' = Inr pw"
    using sample_plan [of "[]" "[]" "''accept-new''"] by (auto simp: text_lines_def sample_component_def)
  have "read_lines (lw_files ?w) (bc_baseline_file ?c) = Inr []"
    by (simp add: read_lines_def sample_world_def sample_component_def text_lines_def)
  then show ?thesis
    using recorded_findings_pass [OF pw mode, of "[''a.go:3:1: m'']" "[]" "[]" "[]" None None "''fix it''" False
        "\<lparr>gl_collecting = False, gl_output = [], gl_markers = [], gl_failed = []\<rparr>"] pw sample_facts
    by (auto simp: sample_component_def)
qed

text \<open>
  C34. Pruning cannot hide a finding: if the gate passes over some findings after a prune-fixed (or
  remove-fixed) update, it passed over them before the update too, whatever findings the update
  was given.
\<close>

theorem prune_admits_nothing:
  assumes "plan_component (lw_compile w) (lw_files w) c now = Inr pw" "parse_mode (bc_mode c) = Inr ModePruneFixed"
    and "read_lines (lw_files w) (bc_findings_file c) = Inr fs"
    and "read_lines (lw_files w) (bc_baseline_file c) = Inr old" "lw_stat w (bc_baseline_file c) = StatOk"
    and "storable (bc_label c) fs"
    and "CHR 0x0A \<notin> set (bc_label c)" "CHR 0x0A \<notin> set (bc_title c)" "CHR 0x0A \<notin> set now"
    and "\<forall>f \<in> set fs. relative (lint_root w) f" "\<forall>l \<in> set old. relative (lint_root w) l"
    and "compile_patterns (lw_compile w) exclude_pattern scope_pattern = Inr (exclude, scope)"
    and "by_key exclude scope"
    and "fst (run_gate_and_print (install_baseline w (bc_baseline_file c) (pw_contents pw))
      (bc_label c) gs (bc_baseline_file c) remediation exclude_pattern scope_pattern suppress log) = Inr True"
  shows "fst (run_gate_and_print w (bc_label c) gs (bc_baseline_file c) remediation exclude_pattern
      scope_pattern suppress log) = Inr True"
proof -
  obtain row_scope where "fst (run_gate_and_print (install_baseline w (bc_baseline_file c) (pw_contents pw))
      (bc_label c) gs (bc_baseline_file c) remediation exclude_pattern scope_pattern suppress log)
    = Inr (baseline_rows.passes (bc_label c) (considered_keys exclude scope) gs
             (update_rows (bc_label c) row_scope now ModePruneFixed fs old))"
    using gate_after_update [OF assms(1-4,6-13)] by blast
  with assms(14) have "baseline_rows.passes (bc_label c) (considered_keys exclude scope) gs
             (update_rows (bc_label c) row_scope now ModePruneFixed fs old)" by simp
  then have "baseline_rows.passes (bc_label c) (considered_keys exclude scope) gs old"
    by (rule baseline_rows.prune_never_admits [OF assms(6)])
  moreover have "fst (run_gate_and_print w (bc_label c) gs (bc_baseline_file c) remediation exclude_pattern
      scope_pattern suppress log) = Inr (baseline_rows.passes (bc_label c) (considered_keys exclude scope) gs old)"
    using assms(4,5,11,12,13) relative_row by (intro run_gate_verdict) blast+
  ultimately show ?thesis by simp
qed

theorem prune_admits_nothing_witness:
  "fst (run_gate_and_print (sample_world (''a.go:9:9: m'' @ newline)) ''lint'' [''a.go:3:1: m''] ''b'' ''fix it''
      [] [] False \<lparr>gl_collecting = False, gl_output = [], gl_markers = [], gl_failed = []\<rparr>) = Inr True"
proof -
  let ?b = "''a.go:9:9: m'' @ newline"
  let ?c = "sample_component ''prune-fixed''" and ?w = "sample_world ?b" and ?f = "[''a.go:3:1: m'']"
  let ?log = "\<lparr>gl_collecting = False, gl_output = [], gl_markers = [], gl_failed = []\<rparr>"
  have mode: "parse_mode (bc_mode ?c) = Inr ModePruneFixed"
    by (simp add: sample_component_def parse_mode_def mode_by_name_def)
  have rows: "text_lines ?b = [''a.go:9:9: m'']" by code_simp
  obtain pw where pw: "plan_component (lw_compile ?w) (lw_files ?w) ?c ''t1'' = Inr pw"
    using sample_plan [OF rows] mode by (auto simp: sample_component_def)
  have old: "read_lines (lw_files ?w) (bc_baseline_file ?c) = Inr [''a.go:9:9: m'']"
    using rows by (simp add: read_lines_def sample_world_def sample_component_def)
  have rel: "\<forall>l \<in> set [''a.go:9:9: m'']. relative (lint_root ?w) l"
    by (simp add: sample_facts relative_def)
  have sf: "read_lines (lw_files ?w) (bc_findings_file ?c) = Inr ?f" "storable (bc_label ?c) ?f"
    "\<forall>f \<in> set ?f. relative (lint_root ?w) f"
    using sample_facts by (simp_all add: sample_component_def)
  have free: "CHR 0x0A \<notin> set (bc_label ?c)" "CHR 0x0A \<notin> set (bc_title ?c)" "CHR 0x0A \<notin> set ''t1''"
    by (simp_all add: sample_component_def)
  obtain s where after: "fst (run_gate_and_print (install_baseline ?w (bc_baseline_file ?c) (pw_contents pw))
      (bc_label ?c) ?f (bc_baseline_file ?c) ''fix it'' [] [] False ?log)
    = Inr (baseline_rows.passes (bc_label ?c) (considered_keys None None) ?f
             (update_rows (bc_label ?c) s ''t1'' ModePruneFixed ?f [''a.go:9:9: m'']))"
    using gate_after_update [OF pw mode sf(1) old sf(2) free sf(3) rel sample_facts(5,6)] by blast
  have "gate_key_set ?f = {''a.go::: m''}" "gate_recorded (bc_label ?c) [''a.go:9:9: m''] = {''a.go::: m''}"
    using sample_gate_keys by (simp_all add: sample_component_def)
  then have "baseline_rows.passes (bc_label ?c) (considered_keys None None) ?f
             (update_rows (bc_label ?c) s ''t1'' ModePruneFixed ?f [''a.go:9:9: m''])"
    using baseline_rows.prune_neutral [OF sf(2), of "considered_keys None None" s "''t1''" "[''a.go:9:9: m'']"]
    by (auto simp: baseline_rows.passes_def)
  with after have "fst (run_gate_and_print (install_baseline ?w (bc_baseline_file ?c) (pw_contents pw))
      (bc_label ?c) ?f (bc_baseline_file ?c) ''fix it'' [] [] False ?log) = Inr True" by simp
  then show ?thesis
    using prune_admits_nothing [OF pw mode sf(1) old _ sf(2) free sf(3) rel sample_facts(5,6)]
    by (simp add: sample_component_def sample_world_def)
qed

text \<open>
  Extraction reports each finding once, in sorted order, and only what the tool said about this
  tree: every finding is the normalised form of a matching line that the exclude pattern does not
  match, and the file it names is one that \<open>os.Stat\<close> does not report missing and that lies at or
  below the root, so paths replayed from another worktree's cache are dropped.
\<close>

theorem extract_findings_sound:
  assumes "extract_findings w raw match_pattern exclude_pattern = Inr (fs, dropped)"
  shows "sorted fs \<and> distinct fs \<and>
    (\<forall>f \<in> set fs. \<exists>ls l m. read_lines (lw_files w) raw = Inr ls \<and> l \<in> set ls \<and>
       lw_compile w match_pattern = Some m \<and> m l \<and> f = normalize_path l (lint_root w) (lint_root w) \<and>
       (\<forall>path. finding_path f = Some path \<longrightarrow> path \<noteq> [] \<longrightarrow>
          (\<exists>target. (target = path_clean (lint_root w) \<or> prefix (path_clean (lint_root w) @ [slash]) target) \<and>
             lw_stat w target \<noteq> StatMissing)))"
proof -
  from assms obtain ls m where ls: "read_lines (lw_files w) raw = Inr ls" "lw_compile w match_pattern = Some m"
    by (cases "lw_compile w match_pattern") (auto simp: extract_findings_def result_bind_Inr_iff)
  with assms obtain exclude where
      fs: "fs = [] \<or> fs = sorted_unique (fst (extract_lines (lw_stat w) (lint_root w) m exclude ls))"
    by (auto simp: extract_findings_def result_bind_Inr_iff Let_def split_def split: if_splits)
  then have shape: "sorted fs" "distinct fs"
    using sorted_unique.listing_sorted sorted_unique.listing_distinct by auto
  have "\<exists>l. l \<in> set ls \<and> m l \<and> f = normalize_path l (lint_root w) (lint_root w) \<and>
      (\<forall>path. finding_path f = Some path \<longrightarrow> path \<noteq> [] \<longrightarrow>
          (\<exists>target. (target = path_clean (lint_root w) \<or> prefix (path_clean (lint_root w) @ [slash]) target) \<and>
             lw_stat w target \<noteq> StatMissing))" if "f \<in> set fs" for f
  proof -
    have "f \<in> set (fst (extract_lines (lw_stat w) (lint_root w) m exclude ls))"
      using that fs sorted_unique.listing_set by auto
    then obtain l where "l \<in> set ls" "m l" "f = normalize_path l (lint_root w) (lint_root w)"
        "\<forall>path. finding_path f = Some path \<longrightarrow> finding_resolves_in_tree (lw_stat w) path (lint_root w)"
      using extract_lines_sound by blast
    then show ?thesis using in_tree_target by blast
  qed
  with shape ls show ?thesis by blast
qed

theorem extract_findings_sound_witness:
  "\<exists>fs dropped. extract_findings (sample_world []) ''f'' ''.'' [] = Inr (fs, dropped) \<and> sorted fs \<and> distinct fs"
proof -
  obtain fs dropped where "extract_findings (sample_world []) ''f'' ''.'' [] = Inr (fs, dropped)"
    using sample_facts(1) [of "[]"]
    by (simp add: extract_findings_def sample_world_def compile_filter_def split_def Let_def)
  then show ?thesis
    using extract_findings_sound by blast
qed

end
