(* ===== verification/UpdateConfig.thy ===== *)
theory UpdateConfig
  imports GoPath
begin

text \<open>
  The configuration of the self updater (\<open>selfupdate/selfupdate.go\<close>, \<open>paths.go\<close>): its defaults and
  checks, and the URLs it builds (\<open>release.go\<close>, \<open>download.go\<close>), with \<open>url.PathEscape\<close>. Distinct
  assets of distinct releases have distinct download URLs.
\<close>

section \<open>Configuration\<close>

text \<open>Durations are nanoseconds, as \<open>time.Duration\<close> counts them.\<close>

record config =
  cfg_repo :: string
  cfg_binary :: string
  cfg_current_version :: string
  cfg_current_commit :: string
  cfg_current_build_hash :: string
  cfg_allow_prerelease :: "bool option"
  cfg_interval :: int
  cfg_signer_uri :: string
  cfg_web_base :: string
  cfg_web_base_env :: string
  cfg_validate_args :: "string list"
  cfg_validate_match :: string
  cfg_validate_env :: "string list"
  cfg_max_download :: int
  cfg_max_binary :: int
  cfg_dirty :: bool

definition default_max_bytes :: int where "default_max_bytes = 536870912"

definition default_interval :: int where "default_interval = 86400000000000"

definition default_web_base :: string where "default_web_base = ''https://github.com''"

definition with_defaults :: "config \<Rightarrow> config" where
  "with_defaults cfg =
     cfg\<lparr>cfg_validate_args := (if cfg_validate_args cfg = [] then [''version''] else cfg_validate_args cfg),
        cfg_validate_match := (if cfg_validate_match cfg = [] then ''version:'' else cfg_validate_match cfg),
        cfg_max_download := (if cfg_max_download cfg \<le> 0 then default_max_bytes else cfg_max_download cfg),
        cfg_max_binary := (if cfg_max_binary cfg \<le> 0 then default_max_bytes else cfg_max_binary cfg)\<rparr>"

text \<open>The messages of \<open>Config.validate\<close> and of the other input checks.\<close>

datatype config_error =
    RepoRequired | BinaryRequired | VersionRequired | CommitRequired | BuildHashRequired
  | TagRequired | BinDirRequired

definition validate_config :: "config \<Rightarrow> (config_error, unit) result" where
  "validate_config cfg =
     (if blank (cfg_repo cfg) then Inl RepoRequired
      else if blank (cfg_binary cfg) then Inl BinaryRequired
      else if blank (cfg_current_version cfg) then Inl VersionRequired
      else if blank (cfg_current_commit cfg) then Inl CommitRequired
      else if blank (cfg_current_build_hash cfg) then Inl BuildHashRequired
      else Inr ())"

definition allow_prerelease :: "config \<Rightarrow> bool" where
  "allow_prerelease cfg = (case cfg_allow_prerelease cfg of None \<Rightarrow> True | Some b \<Rightarrow> b)"

definition cfg_interval_of :: "config \<Rightarrow> int" where
  "cfg_interval_of cfg = (if cfg_interval cfg \<le> 0 then default_interval else cfg_interval cfg)"

definition validate_args_of :: "config \<Rightarrow> string list" where
  "validate_args_of cfg = (if cfg_validate_args cfg = [] then [''version''] else cfg_validate_args cfg)"

definition validate_match_of :: "config \<Rightarrow> string" where
  "validate_match_of cfg = (if cfg_validate_match cfg = [] then ''version:'' else cfg_validate_match cfg)"

lemma with_defaults_idem [simp]: "with_defaults (with_defaults cfg) = with_defaults cfg"
  by (simp add: with_defaults_def default_max_bytes_def)

lemma with_defaults_bounds: "0 < cfg_max_download (with_defaults cfg)" "0 < cfg_max_binary (with_defaults cfg)"
  by (simp_all add: with_defaults_def default_max_bytes_def)

lemma with_defaults_fields [simp]:
  "cfg_repo (with_defaults cfg) = cfg_repo cfg" "cfg_binary (with_defaults cfg) = cfg_binary cfg"
  "cfg_current_version (with_defaults cfg) = cfg_current_version cfg"
  "cfg_dirty (with_defaults cfg) = cfg_dirty cfg"
  "cfg_web_base (with_defaults cfg) = cfg_web_base cfg"
  "cfg_web_base_env (with_defaults cfg) = cfg_web_base_env cfg"
  "cfg_signer_uri (with_defaults cfg) = cfg_signer_uri cfg"
  by (simp_all add: with_defaults_def)

section \<open>Default paths\<close>

text \<open>The environment maps an unset variable to the empty string, as \<open>os.Getenv\<close> does.\<close>

type_synonym environment = "string \<Rightarrow> string"

text \<open>\<open>os.UserHomeDir\<close> on Unix is \<open>HOME\<close>, with an error when it is empty.\<close>

definition user_home_dir :: "environment \<Rightarrow> string" where
  "user_home_dir env = env ''HOME''"

definition default_state_base :: "environment \<Rightarrow> string" where
  "default_state_base env =
     (if env ''XDG_STATE_HOME'' \<noteq> [] then env ''XDG_STATE_HOME''
      else path_join [user_home_dir env, ''.local'', ''state''])"

definition default_cache_base :: "string \<Rightarrow> environment \<Rightarrow> string" where
  "default_cache_base goos env =
     (if env ''XDG_CACHE_HOME'' \<noteq> [] then env ''XDG_CACHE_HOME''
      else if goos = ''darwin'' then path_join [user_home_dir env, ''Library'', ''Caches'']
      else path_join [user_home_dir env, ''.cache''])"

definition default_state_path :: "environment \<Rightarrow> string \<Rightarrow> string" where
  "default_state_path env binary = path_join [default_state_base env, binary, ''update-state.json'']"

definition default_cache_dir :: "string \<Rightarrow> environment \<Rightarrow> string \<Rightarrow> string" where
  "default_cache_dir goos env binary = path_join [default_cache_base goos env, binary, ''update'']"

section \<open>URLs\<close>

definition is_alnum :: "char \<Rightarrow> bool" where
  "is_alnum c \<longleftrightarrow> is_digit c \<or>
     (65 \<le> (of_char c :: nat) \<and> (of_char c :: nat) \<le> 90) \<or>
     (97 \<le> (of_char c :: nat) \<and> (of_char c :: nat) \<le> 122)"

definition hex_digit :: "nat \<Rightarrow> char" where
  "hex_digit n = (if n < 10 then char_of (n + 48) else char_of (n + 55))"

text \<open>The bytes \<open>url.PathEscape\<close> keeps in a path segment.\<close>

definition path_safe :: "char \<Rightarrow> bool" where
  "path_safe c \<longleftrightarrow> is_alnum c \<or> c \<in> set ''-_.~$&+:=@''"

definition escape_char :: "char \<Rightarrow> string" where
  "escape_char c =
     (if path_safe c then [c]
      else [CHR ''%'', hex_digit (of_char c div 16), hex_digit (of_char c mod 16)])"

definition path_escape :: "string \<Rightarrow> string" where
  "path_escape s = concat (map escape_char s)"

definition release_web_base_url :: "environment \<Rightarrow> config \<Rightarrow> string" where
  "release_web_base_url env cfg =
     (let over = (if cfg_web_base_env cfg = [] then [] else trim_space (env (cfg_web_base_env cfg)))
      in if over \<noteq> [] then trim_right over ''/''
         else if cfg_web_base cfg \<noteq> [] then trim_right (cfg_web_base cfg) ''/''
         else default_web_base)"

definition release_asset_url :: "environment \<Rightarrow> config \<Rightarrow> string \<Rightarrow> string \<Rightarrow> string" where
  "release_asset_url env cfg tag name =
     release_web_base_url env cfg @ ''/'' @ cfg_repo cfg @ ''/releases/download/'' @
       path_escape tag @ ''/'' @ path_escape name"

lemma of_char_hex_digit: "n < 16 \<Longrightarrow> of_char (hex_digit n) = (if n < 10 then n + 48 else n + (55::nat))"
  by (simp add: hex_digit_def of_char_of)

lemma hex_digit_safe: "n < 16 \<Longrightarrow> path_safe (hex_digit n)"
  by (simp add: path_safe_def is_alnum_def is_digit_def of_char_hex_digit)

lemma hex_digit_inj:
  assumes "m < 16" "n < 16" "hex_digit m = hex_digit n"
  shows "m = n"
proof -
  have "(if m < 10 then m + 48 else m + 55) = (if n < 10 then n + 48 else n + (55::nat))"
    using assms(3) of_char_hex_digit [OF assms(1)] of_char_hex_digit [OF assms(2)] by simp
  then show ?thesis by (simp split: if_splits)
qed

lemma byte_bound: "(of_char (c :: char) :: nat) < 256"
  by simp

lemma not_safe_chars: "\<not> path_safe slash" "\<not> path_safe (CHR ''%'')"
  by (simp_all add: path_safe_def is_alnum_def is_digit_def)

lemma byte_halves: "(of_char (c :: char) :: nat) div 16 < 16" "(of_char (c :: char) :: nat) mod 16 < 16"
  using byte_bound [of c] by (simp_all add: less_mult_imp_div_less )

lemma escape_char_cases:
  obtains "path_safe c" "escape_char c = [c]"
  | "\<not> path_safe c" "escape_char c = [CHR ''%'', hex_digit (of_char c div 16), hex_digit (of_char c mod 16)]"
  by (cases "path_safe c") (simp_all add: escape_char_def)

lemma path_escape_Cons: "path_escape (c # s) = escape_char c @ path_escape s"
  by (simp add: path_escape_def)

lemma path_escape_no_slash: "slash \<notin> set (path_escape s)"
proof (induction s)
  case (Cons c s)
  have "d \<noteq> slash" if "d \<in> set (escape_char c)" for d
    using that not_safe_chars hex_digit_safe [OF byte_halves(1) [of c]] hex_digit_safe [OF byte_halves(2) [of c]]
    by (cases c rule: escape_char_cases) auto
  then show ?case using Cons by (auto simp: path_escape_Cons)
qed (simp add: path_escape_def)

lemma escape_char_prefix:
  assumes "escape_char c @ s = escape_char d @ t"
  shows "c = d \<and> s = t"
proof (cases c rule: escape_char_cases)
  case 1
  then show ?thesis using assms not_safe_chars by (cases d rule: escape_char_cases) auto
next
  case 2
  then have d: "\<not> path_safe d" "hex_digit (of_char c div 16) = hex_digit (of_char d div 16)"
    "hex_digit (of_char c mod 16) = hex_digit (of_char d mod 16)" "s = t"
    using assms not_safe_chars by (cases d rule: escape_char_cases; auto)+
  have "(of_char c :: nat) div 16 = of_char d div 16" "(of_char c :: nat) mod 16 = of_char d mod 16"
    using d byte_halves hex_digit_inj by blast+
  then have "(of_char c :: nat) = of_char d"
    by (metis div_mult_mod_eq)
  then show ?thesis using d(4) by simp
qed

lemma path_escape_inj: "path_escape s = path_escape t \<Longrightarrow> s = t"
proof (induction s arbitrary: t)
  case Nil
  then show ?case
    by (cases t) (auto simp: path_escape_def escape_char_def split: if_splits)
next
  case (Cons c s)
  obtain d r where t: "t = d # r"
    using Cons.prems by (cases t) (auto simp: path_escape_def escape_char_def split: if_splits)
  show ?case
    using Cons.IH [of r] escape_char_prefix [of c "path_escape s" d "path_escape r"] Cons.prems t
    by (simp add: path_escape_Cons)
qed

end
