(* ===== verification/InstallFs.thy ===== *)
theory InstallFs
  imports GoPath "HOL-Library.AList"
begin

text \<open>
  The file system as the install transaction of \<open>selfupdate\<close> uses it: directory entries that are
  regular files (an inode number) or symbolic links, file contents per inode so that hard links
  share them, and one operation per system call the code makes. An operation runs in a world that
  decides whether the call fails, and records every state of the file system a killed process could
  leave behind.
\<close>

section \<open>Files\<close>

datatype node = NFile nat | NLink string

record fs =
  fs_entries :: "(string \<times> node) list"
  fs_data :: "nat \<Rightarrow> string"
  fs_next :: nat

definition look :: "fs \<Rightarrow> string \<Rightarrow> node option" where
  "look f p = map_of (fs_entries f) p"

definition fs_put :: "string \<Rightarrow> node \<Rightarrow> fs \<Rightarrow> fs" where
  "fs_put p n f = f\<lparr>fs_entries := AList.update p n (fs_entries f)\<rparr>"

definition fs_del :: "string \<Rightarrow> fs \<Rightarrow> fs" where
  "fs_del p f = f\<lparr>fs_entries := AList.delete p (fs_entries f)\<rparr>"

text \<open>The laws the transaction relies on: an entry is read back as it was last put or removed.\<close>

locale entry_store =
  fixes lookup :: "'s \<Rightarrow> 'k \<Rightarrow> 'v option"
    and put :: "'k \<Rightarrow> 'v \<Rightarrow> 's \<Rightarrow> 's"
    and del :: "'k \<Rightarrow> 's \<Rightarrow> 's"
  assumes lookup_put: "lookup (put k v s) j = (if j = k then Some v else lookup s j)"
    and lookup_del: "lookup (del k s) j = (if j = k then None else lookup s j)"
begin

definition move :: "'k \<Rightarrow> 'k \<Rightarrow> 's \<Rightarrow> 's" where
  "move a b s = (case lookup s a of None \<Rightarrow> s | Some v \<Rightarrow> put b v (del a s))"

lemma lookup_move:
  "lookup s a = Some v \<Longrightarrow> a \<noteq> b \<Longrightarrow>
   lookup (move a b s) j = (if j = b then Some v else if j = a then None else lookup s j)"
  by (simp add: move_def lookup_put lookup_del)

lemma move_frame: "j \<noteq> a \<Longrightarrow> j \<noteq> b \<Longrightarrow> lookup (move a b s) j = lookup s j"
  by (simp add: move_def lookup_put lookup_del split: option.splits)

lemma del_absent: "lookup s k = None \<Longrightarrow> lookup (del k s) j = lookup s j"
  by (simp add: lookup_del)

end

interpretation entries: entry_store look fs_put fs_del
  by unfold_locales (simp_all add: look_def fs_put_def fs_del_def update_conv' delete_conv')

definition fs_rename :: "string \<Rightarrow> string \<Rightarrow> fs \<Rightarrow> fs" where
  "fs_rename a b f =
     (case look f a of
        None \<Rightarrow> f
      | Some n \<Rightarrow>
          if a = b then f
          else if (case (n, look f b) of (NFile i, Some (NFile j)) \<Rightarrow> i = j | _ \<Rightarrow> False) then f
          else fs_put b n (fs_del a f))"

definition fs_create :: "string \<Rightarrow> string \<Rightarrow> fs \<Rightarrow> fs" where
  "fs_create p content f =
     (fs_put p (NFile (fs_next f)) f)
       \<lparr>fs_data := (fs_data f)(fs_next f := content), fs_next := Suc (fs_next f)\<rparr>"

definition fs_write :: "nat \<Rightarrow> string \<Rightarrow> fs \<Rightarrow> fs" where
  "fs_write i content f = f\<lparr>fs_data := (fs_data f)(i := content)\<rparr>"

text \<open>
  \<open>os.Stat\<close> follows symbolic links, at most 40 of them, the limit of the kernel; the result is the
  inode it arrives at.
\<close>

fun fs_resolve :: "nat \<Rightarrow> fs \<Rightarrow> string \<Rightarrow> nat option" where
  "fs_resolve 0 f p = None"
| "fs_resolve (Suc n) f p =
     (case look f p of
        None \<Rightarrow> None
      | Some (NFile i) \<Rightarrow> Some i
      | Some (NLink t) \<Rightarrow> fs_resolve n f (if is_abs t then path_clean t else path_join [path_dir p, t]))"

definition link_limit :: nat where "link_limit = 41"

definition same_file :: "fs \<Rightarrow> string \<Rightarrow> string \<Rightarrow> bool" where
  "same_file f a b =
     (case fs_resolve link_limit f a of
        None \<Rightarrow> False
      | Some i \<Rightarrow> (case fs_resolve link_limit f b of None \<Rightarrow> False | Some j \<Rightarrow> i = j))"

text \<open>
  \<open>filepath.Glob\<close> of a pattern that ends in its only star: the entries of the directory that extend
  the literal part, sorted.
\<close>

definition matches :: "string \<Rightarrow> string \<Rightarrow> bool" where
  "matches pre k \<longleftrightarrow> prefix pre k \<and> slash \<notin> set (drop (length pre) k)"

definition fs_glob :: "string \<Rightarrow> fs \<Rightarrow> string list" where
  "fs_glob pre f = sort_dedup (filter (matches pre) (map fst (fs_entries f)))"

section \<open>The world\<close>

datatype sys_call =
    CallLstat | CallCreateTemp | CallRemove | CallReadlink | CallSymlink | CallLink
  | CallCopyOpen | CallCopyCreate | CallCopyWrite | CallRename | CallMarkerOpen | CallMarkerWrite
  | CallStageDir | CallStageClose | CallStageOpen | CallStageWrite | CallStageChmod | CallStat | CallTempDir

text \<open>
  A recorded state is \<open>Torn\<close> while a backup name exists whose content is not yet the backup: the
  empty file that reserves the name, and a copy in progress.
\<close>

datatype phase = Whole | Torn

record world =
  w_fs :: fs
  w_fault :: "sys_call \<Rightarrow> nat \<Rightarrow> bool"
  w_clock :: nat
  w_names :: "string list"
  w_trace :: "(phase \<times> fs) list"

definition w_fails :: "sys_call \<Rightarrow> world \<Rightarrow> bool" where
  "w_fails c w = w_fault w c (w_clock w)"

definition w_tick :: "world \<Rightarrow> world" where
  "w_tick w = w\<lparr>w_clock := Suc (w_clock w)\<rparr>"

definition w_set :: "phase \<Rightarrow> fs \<Rightarrow> world \<Rightarrow> world" where
  "w_set ph f w = w\<lparr>w_fs := f, w_trace := w_trace w @ [(ph, f)], w_clock := Suc (w_clock w)\<rparr>"

definition op_remove :: "string \<Rightarrow> world \<Rightarrow> bool \<times> world" where
  "op_remove p w =
     (if w_fails CallRemove w \<or> look (w_fs w) p = None then (False, w_tick w)
      else (True, w_set Whole (fs_del p (w_fs w)) w))"

definition op_rename :: "string \<Rightarrow> string \<Rightarrow> world \<Rightarrow> bool \<times> world" where
  "op_rename a b w =
     (if w_fails CallRename w \<or> look (w_fs w) a = None then (False, w_tick w)
      else (True, w_set Whole (fs_rename a b (w_fs w)) w))"

text \<open>\<open>os.Lstat\<close> in \<open>backupInstalledBinary\<close>: an unexpected error, nothing there, or the entry.\<close>

definition op_lstat :: "string \<Rightarrow> world \<Rightarrow> (unit + node option) \<times> world" where
  "op_lstat p w =
     (if w_fails CallLstat w then (Inl (), w_tick w) else (Inr (look (w_fs w) p), w_tick w))"

text \<open>
  \<open>os.CreateTemp\<close>: the next random suffix whose name is free. The directory is joined as \<open>os\<close> does.
\<close>

definition temp_join :: "string \<Rightarrow> string \<Rightarrow> string" where
  "temp_join dir name = (if suffix [slash] dir then dir @ name else dir @ [slash] @ name)"

fun free_name :: "fs \<Rightarrow> string \<Rightarrow> string list \<Rightarrow> (string \<times> string list) option" where
  "free_name f pre [] = None"
| "free_name f pre (s # ss) =
     (if look f (pre @ s) = None then Some (pre @ s, ss) else free_name f pre ss)"

definition op_create_temp :: "string \<Rightarrow> world \<Rightarrow> string option \<times> world" where
  "op_create_temp pre w =
     (if w_fails CallCreateTemp w then (None, w_tick w)
      else (case free_name (w_fs w) pre (w_names w) of
              None \<Rightarrow> (None, w_tick w)
            | Some (p, ss) \<Rightarrow>
                (Some p, (w_set Torn (fs_create p [] (w_fs w)) w)\<lparr>w_names := ss\<rparr>)))"

definition op_link :: "string \<Rightarrow> string \<Rightarrow> world \<Rightarrow> bool \<times> world" where
  "op_link a b w =
     (if w_fails CallLink w \<or> look (w_fs w) b \<noteq> None then (False, w_tick w)
      else (case look (w_fs w) a of
              None \<Rightarrow> (False, w_tick w)
            | Some n \<Rightarrow> (True, w_set Whole (fs_put b n (w_fs w)) w)))"

definition op_symlink :: "string \<Rightarrow> string \<Rightarrow> world \<Rightarrow> bool \<times> world" where
  "op_symlink target p w =
     (if w_fails CallSymlink w \<or> look (w_fs w) p \<noteq> None then (False, w_tick w)
      else (True, w_set Whole (fs_put p (NLink target) (w_fs w)) w))"

definition op_readlink :: "string \<Rightarrow> world \<Rightarrow> string option \<times> world" where
  "op_readlink p w =
     (if w_fails CallReadlink w then (None, w_tick w)
      else (case look (w_fs w) p of Some (NLink t) \<Rightarrow> (Some t, w_tick w) | _ \<Rightarrow> (None, w_tick w)))"

text \<open>
  \<open>copyFile\<close>: open the source, create the destination exclusively, copy. The destination is empty
  until the copy is complete, and stays so when the write fails.
\<close>

definition op_copy_file :: "string \<Rightarrow> string \<Rightarrow> world \<Rightarrow> bool \<times> world" where
  "op_copy_file a b w =
     (case fs_resolve link_limit (w_fs w) a of
        None \<Rightarrow> (False, w_tick w)
      | Some i \<Rightarrow>
          if w_fails CallCopyOpen w then (False, w_tick w)
          else (let w = w_tick w in
            if w_fails CallCopyCreate w \<or> look (w_fs w) b \<noteq> None then (False, w_tick w)
            else (let j = fs_next (w_fs w);
                      w = w_set Torn (fs_create b [] (w_fs w)) w
                  in if w_fails CallCopyWrite w then (False, w_tick w)
                     else (True, w_set Whole (fs_write j (fs_data (w_fs w) i) (w_fs w)) w))))"

text \<open>\<open>os.WriteFile\<close> of the commit marker: the file exists from the moment it is opened.\<close>

definition op_write_marker :: "string \<Rightarrow> string \<Rightarrow> world \<Rightarrow> bool \<times> world" where
  "op_write_marker p content w =
     (if w_fails CallMarkerOpen w then (False, w_tick w)
      else (let f = (case fs_resolve link_limit (w_fs w) p of
                       Some i \<Rightarrow> fs_write i [] (w_fs w)
                     | None \<Rightarrow> fs_create p [] (w_fs w));
                w = w_set Whole f w
            in if w_fails CallMarkerWrite w then (False, w_tick w)
               else (case fs_resolve link_limit f p of
                       None \<Rightarrow> (False, w_tick w)
                     | Some i \<Rightarrow> (True, w_set Whole (fs_write i content f) w))))"

section \<open>Facts\<close>

lemmas look_laws = entries.lookup_put entries.lookup_del

lemma look_rename:
  assumes "look f a = Some n" "a \<noteq> b"
    and "\<not> (\<exists>i. n = NFile i \<and> look f b = Some (NFile i))"
  shows "look (fs_rename a b f) k = (if k = b then Some n else if k = a then None else look f k)"
proof -
  have "fs_rename a b f = fs_put b n (fs_del a f)"
    using assms by (auto simp: fs_rename_def split: node.splits option.splits)
  then show ?thesis by (simp add: look_laws)
qed

lemma look_rename_frame: "k \<noteq> a \<Longrightarrow> k \<noteq> b \<Longrightarrow> look (fs_rename a b f) k = look f k"
  by (auto simp: fs_rename_def look_laws split: option.splits)

lemma fs_data_simps [simp]:
  "fs_data (fs_put p n f) = fs_data f" "fs_data (fs_del p f) = fs_data f"
  "fs_next (fs_put p n f) = fs_next f" "fs_next (fs_del p f) = fs_next f"
  by (simp_all add: fs_put_def fs_del_def)

lemma fs_rename_data [simp]: "fs_data (fs_rename a b f) = fs_data f" "fs_next (fs_rename a b f) = fs_next f"
  by (auto simp: fs_rename_def split: option.splits)

lemma look_create: "look (fs_create p c f) k = (if k = p then Some (NFile (fs_next f)) else look f k)"
  using look_laws(1) [of p "NFile (fs_next f)" f k] by (simp add: fs_create_def look_def)

lemma fs_create_data [simp]:
  "fs_data (fs_create p c f) = (fs_data f)(fs_next f := c)" "fs_next (fs_create p c f) = Suc (fs_next f)"
  by (simp_all add: fs_create_def)

lemma look_write [simp]: "look (fs_write i c f) = look f"
  by (simp add: fun_eq_iff look_def fs_write_def)

lemma fs_write_data [simp]: "fs_data (fs_write i c f) = (fs_data f)(i := c)" "fs_next (fs_write i c f) = fs_next f"
  by (simp_all add: fs_write_def)

lemma set_fs_glob: "set (fs_glob pre f) = {k. look f k \<noteq> None \<and> matches pre k}"
proof -
  have "look f k \<noteq> None \<longleftrightarrow> k \<in> set (map fst (fs_entries f))" for k
    by (simp add: look_def map_of_eq_None_iff)
  then show ?thesis by (auto simp: fs_glob_def sort_dedup.listing_set)
qed

lemma distinct_fs_glob: "distinct (fs_glob pre f)"
  by (simp add: fs_glob_def sort_dedup.listing_distinct)

lemma fs_glob_cong:
  assumes "\<And>k. matches pre k \<Longrightarrow> look f k = None \<longleftrightarrow> look g k = None"
  shows "fs_glob pre f = fs_glob pre g"
proof -
  have "look f k \<noteq> None \<and> matches pre k \<longleftrightarrow> look g k \<noteq> None \<and> matches pre k" for k
    using assms [of k] by (cases "matches pre k") simp_all
  then have "set (fs_glob pre f) = set (fs_glob pre g)"
    unfolding set_fs_glob by (rule Collect_cong)
  then show ?thesis
    unfolding fs_glob_def sort_dedup.listing_set by (rule sort_dedup.listing_cong)
qed

lemma same_file_regular:
  "look f a = Some (NFile i) \<Longrightarrow> look f b = Some (NFile j) \<Longrightarrow> same_file f a b \<longleftrightarrow> i = j"
  by (simp add: same_file_def link_limit_def eval_nat_numeral)

lemma fs_resolve_regular: "look f a = Some (NFile i) \<Longrightarrow> fs_resolve link_limit f a = Some i"
  by (simp add: link_limit_def eval_nat_numeral)

lemma free_name_fresh: "free_name f pre ss = Some (p, ss') \<Longrightarrow> look f p = None \<and> (\<exists>s \<in> set ss. p = pre @ s)"
  by (induction ss) (auto split: if_splits)

lemma w_set_simps [simp]:
  "w_fs (w_set ph f w) = f" "w_fault (w_set ph f w) = w_fault w" "w_names (w_set ph f w) = w_names w"
  "w_trace (w_set ph f w) = w_trace w @ [(ph, f)]"
  by (simp_all add: w_set_def)

lemma w_tick_simps [simp]:
  "w_fs (w_tick w) = w_fs w" "w_fault (w_tick w) = w_fault w" "w_names (w_tick w) = w_names w"
  "w_trace (w_tick w) = w_trace w"
  by (simp_all add: w_tick_def)

end
