(* ===== verification/Download.thy ===== *)
theory Download
  imports UpdateConfig InstallFs
begin

text \<open>
  Downloads of the self updater (\<open>selfupdate/download.go\<close>): one attempt through a hidden temporary
  file with the size bound, the retry loop, and the checksum file. The world answers each request,
  numbered from the first, and decides which local call fails; files are the cache and state files,
  outside every install directory.
\<close>

section \<open>The network and the cache\<close>

text \<open>
  An answer carries the body bytes the server sends and whether the connection breaks after them,
  and the path of the redirect target when there is one. \<open>BuildFailed\<close> is a URL that does not parse.
\<close>

record http_answer =
  ha_status :: int
  ha_length :: int
  ha_body :: string
  ha_broken :: bool
  ha_location :: "string option"

datatype http_outcome = BuildFailed | NoAnswer | Answered http_answer

datatype net_call =
    MakeDir | TempOpen | TempWrite | TempClose | TempRename | TempRemove | ReadFile | HashFile
  | TakeLock

record net_world =
  nw_reply :: "nat \<Rightarrow> string \<Rightarrow> http_outcome"
  nw_fault :: "net_call \<Rightarrow> nat \<Rightarrow> bool"
  nw_cancelled :: "nat \<Rightarrow> bool"
  nw_clock :: nat
  nw_names :: "string list"
  nw_files :: "string \<Rightarrow> string option"
  nw_requests :: "string list"
  nw_waits :: "int list"

definition net_tick :: "net_world \<Rightarrow> net_world" where
  "net_tick w = w\<lparr>nw_clock := Suc (nw_clock w)\<rparr>"

definition net_fails :: "net_call \<Rightarrow> net_world \<Rightarrow> bool" where
  "net_fails c w = nw_fault w c (nw_clock w)"

definition ctx_done :: "net_world \<Rightarrow> bool" where
  "ctx_done w = nw_cancelled w (nw_clock w)"

text \<open>One call that can fail, and one that sets or removes a file when it does not.\<close>

definition net_try :: "net_call \<Rightarrow> net_world \<Rightarrow> bool \<times> net_world" where
  "net_try c w = (\<not> net_fails c w, net_tick w)"

definition net_set :: "net_call \<Rightarrow> string \<Rightarrow> string option \<Rightarrow> net_world \<Rightarrow> bool \<times> net_world" where
  "net_set c p v w =
     (if net_fails c w then (False, net_tick w)
      else (True, (net_tick w)\<lparr>nw_files := (nw_files w)(p := v)\<rparr>))"

definition net_request :: "string \<Rightarrow> net_world \<Rightarrow> http_outcome \<times> net_world" where
  "net_request url w =
     (nw_reply w (length (nw_requests w)) url, (net_tick w)\<lparr>nw_requests := nw_requests w @ [url]\<rparr>)"

fun free_temp :: "(string \<Rightarrow> string option) \<Rightarrow> string \<Rightarrow> string list \<Rightarrow> (string \<times> string list) option" where
  "free_temp files pre [] = None"
| "free_temp files pre (s # ss) =
     (if files (pre @ s @ ''.tmp'') = None then Some (pre @ s @ ''.tmp'', ss) else free_temp files pre ss)"

text \<open>\<open>os.CreateTemp(filepath.Dir(path), filepath.Base(path)+".*.tmp")\<close>\<close>

definition temp_prefix :: "string \<Rightarrow> string" where
  "temp_prefix path = temp_join (path_dir path) (path_base path @ ''.'')"

definition net_create_temp :: "string \<Rightarrow> net_world \<Rightarrow> string option \<times> net_world" where
  "net_create_temp path w =
     (if net_fails TempOpen w then (None, net_tick w)
      else (case free_temp (nw_files w) (temp_prefix path) (nw_names w) of
              None \<Rightarrow> (None, net_tick w)
            | Some (t, ss) \<Rightarrow>
                (Some t, (net_tick w)\<lparr>nw_names := ss, nw_files := (nw_files w)(t \<mapsto> [])\<rparr>)))"

definition net_rename :: "string \<Rightarrow> string \<Rightarrow> net_world \<Rightarrow> bool \<times> net_world" where
  "net_rename a b w =
     (if net_fails TempRename w then (False, net_tick w)
      else (case nw_files w a of
              None \<Rightarrow> (False, net_tick w)
            | Some v \<Rightarrow> (True, (net_tick w)\<lparr>nw_files := (nw_files w)(a := None, b \<mapsto> v)\<rparr>)))"

text \<open>\<open>os.Remove\<close> whose error is ignored.\<close>

definition net_remove :: "string \<Rightarrow> net_world \<Rightarrow> net_world" where
  "net_remove p w = snd (net_set TempRemove p None w)"

section \<open>One attempt\<close>

datatype download_error =
    BadUrl string
  | RequestFailed string
  | HttpStatus string int
  | TooLarge string int
  | TempOpenFailed string
  | BodyReadFailed string
  | TempWriteFailed string
  | TempCloseFailed string
  | TempReplaceFailed string
  | RetryCanceled string

text \<open>
  \<open>io.LimitReader(resp.Body, maxBytes+1)\<close>: the bytes it lets through, and whether the reader meets
  the broken connection before the limit ends it. The sum wraps at 64 bits.
\<close>

definition read_limit :: "int \<Rightarrow> int" where
  "read_limit maxb = wrap_int (maxb + 1)"

definition limit_bytes :: "int \<Rightarrow> string \<Rightarrow> string" where
  "limit_bytes n s = (if int (length s) \<le> n then s else take (nat n) s)"

definition limited_body :: "int \<Rightarrow> http_answer \<Rightarrow> string" where
  "limited_body maxb a = limit_bytes (read_limit maxb) (ha_body a)"

lemma limit_bytes_take: "limit_bytes n s = take (nat n) s"
  by (simp add: limit_bytes_def)

definition read_breaks :: "int \<Rightarrow> http_answer \<Rightarrow> bool" where
  "read_breaks maxb a \<longleftrightarrow> ha_broken a \<and> int (length (ha_body a)) < read_limit maxb"

definition receive_body :: "string \<Rightarrow> string \<Rightarrow> int \<Rightarrow> http_answer \<Rightarrow> net_world \<Rightarrow>
    (bool \<times> (download_error, unit) result) \<times> net_world" where
  "receive_body url path maxb a w =
     (case net_create_temp path w of
        (None, w) \<Rightarrow> ((False, Inl (TempOpenFailed path)), w)
      | (Some t, w) \<Rightarrow>
          (let (written, w) = net_set TempWrite t (Some (limited_body maxb a)) w;
               (closed, w) = net_try TempClose w
           in if \<not> written then ((False, Inl (TempWriteFailed path)), net_remove t w)
              else if read_breaks maxb a
                then ((\<not> ctx_done w, Inl (BodyReadFailed url)), net_remove t w)
              else if maxb < int (length (limited_body maxb a))
                then ((False, Inl (TooLarge url maxb)), net_remove t w)
              else if \<not> closed then ((False, Inl (TempCloseFailed path)), net_remove t w)
              else (case net_rename t path w of
                      (False, w) \<Rightarrow> ((False, Inl (TempReplaceFailed path)), net_remove t w)
                    | (True, w) \<Rightarrow> ((False, Inr ()), w))))"

definition download_file_once :: "string \<Rightarrow> string \<Rightarrow> int \<Rightarrow> net_world \<Rightarrow>
    (bool \<times> (download_error, unit) result) \<times> net_world" where
  "download_file_once url path maxb w =
     (case net_request url w of
        (BuildFailed, w) \<Rightarrow> ((False, Inl (BadUrl url)), w)
      | (NoAnswer, w) \<Rightarrow> ((\<not> ctx_done w, Inl (RequestFailed url)), w)
      | (Answered a, w) \<Rightarrow>
          if ha_status a \<noteq> 200 then ((500 \<le> ha_status a, Inl (HttpStatus url (ha_status a))), w)
          else if maxb < ha_length a then ((False, Inl (TooLarge url maxb)), w)
          else receive_body url path maxb a w)"

section \<open>The retry loop\<close>

definition download_attempts :: nat where "download_attempts = 3"

definition download_retry_delay :: int where "download_retry_delay = 2000000000"

text \<open>The wait before the next attempt ends when the timer fires or the context is done.\<close>

definition retry_wait :: "int \<Rightarrow> net_world \<Rightarrow> bool \<times> net_world" where
  "retry_wait delay w = (\<not> ctx_done w, (net_tick w)\<lparr>nw_waits := nw_waits w @ [delay]\<rparr>)"

function download_loop :: "nat \<Rightarrow> int \<Rightarrow> string \<Rightarrow> string \<Rightarrow> int \<Rightarrow> net_world \<Rightarrow>
    (download_error, unit) result \<times> net_world" where
  "download_loop attempt delay url path maxb w =
     (case download_file_once url path maxb w of
        ((_, Inr _), w) \<Rightarrow> (Inr (), w)
      | ((retryable, Inl e), w) \<Rightarrow>
          if \<not> retryable \<or> download_attempts \<le> attempt then (Inl e, w)
          else (case retry_wait delay w of
                  (False, w) \<Rightarrow> (Inl (RetryCanceled url), w)
                | (True, w) \<Rightarrow> download_loop (Suc attempt) (delay * 2) url path maxb w))"
  by pat_completeness auto
termination by (relation "measure (\<lambda>(attempt, _). download_attempts - attempt)") auto

declare download_loop.simps [simp del]

definition download_file :: "string \<Rightarrow> string \<Rightarrow> int \<Rightarrow> net_world \<Rightarrow> (download_error, unit) result \<times> net_world" where
  "download_file url path maxb w = download_loop 1 download_retry_delay url path maxb w"

section \<open>What a download leaves behind\<close>

text \<open>The answers the client retries after.\<close>

definition transient :: "int \<Rightarrow> http_outcome \<Rightarrow> bool" where
  "transient maxb out =
     (case out of
        BuildFailed \<Rightarrow> False
      | NoAnswer \<Rightarrow> True
      | Answered a \<Rightarrow> if ha_status a = 200 then read_breaks maxb a else 500 \<le> ha_status a)"

definition delivers :: "int \<Rightarrow> http_outcome \<Rightarrow> string \<Rightarrow> bool" where
  "delivers maxb out body =
     (case out of
        Answered a \<Rightarrow> ha_status a = 200 \<and> \<not> read_breaks maxb a \<and> body = limited_body maxb a \<and>
          int (length body) \<le> maxb
      | _ \<Rightarrow> False)"

definition steady :: "net_world \<Rightarrow> bool" where
  "steady w \<longleftrightarrow> (\<forall>n. \<not> nw_fault w TempRemove n)"

definition same_oracles :: "net_world \<Rightarrow> net_world \<Rightarrow> bool" where
  "same_oracles w w' \<longleftrightarrow> nw_reply w' = nw_reply w \<and> nw_fault w' = nw_fault w \<and>
     nw_cancelled w' = nw_cancelled w"

lemma same_oracles_refl [simp]: "same_oracles w w"
  by (simp add: same_oracles_def)

lemma same_oracles_trans: "same_oracles w w' \<Longrightarrow> same_oracles w' w'' \<Longrightarrow> same_oracles w w''"
  by (simp add: same_oracles_def)

lemma steady_same: "same_oracles w w' \<Longrightarrow> steady w' = steady w"
  by (simp add: same_oracles_def steady_def)

lemma free_temp_free: "free_temp files pre ss = Some (t, r) \<Longrightarrow> files t = None"
  by (induction ss) (auto split: if_splits)

definition only_files :: "net_world \<Rightarrow> net_world \<Rightarrow> bool" where
  "only_files w w' \<longleftrightarrow> same_oracles w w' \<and> nw_requests w' = nw_requests w \<and> nw_waits w' = nw_waits w"

lemma only_files_refl [simp]: "only_files w w"
  by (simp add: only_files_def)

lemma only_files_trans: "only_files w w' \<Longrightarrow> only_files w' w'' \<Longrightarrow> only_files w w''"
  by (auto simp: only_files_def same_oracles_def)

lemma only_files_steps [simp]:
  "only_files w (net_tick w)" "only_files w (snd (net_try c w))" "only_files w (snd (net_set c p v w))"
  "only_files w (snd (net_create_temp p w))" "only_files w (snd (net_rename p q w))"
  "only_files w (net_remove p w)"
  by (auto simp: only_files_def same_oracles_def net_tick_def net_try_def net_set_def net_create_temp_def
      net_rename_def net_remove_def split: option.splits)

lemma net_remove_steady: "steady w \<Longrightarrow> nw_files (net_remove p w) = (nw_files w)(p := None)"
  by (simp add: net_remove_def net_set_def net_tick_def net_fails_def steady_def)

lemma net_create_temp_free:
  "net_create_temp p w = (Some t, w') \<Longrightarrow> nw_files w t = None \<and> nw_files w' = (nw_files w)(t \<mapsto> [])"
  using free_temp_free by (auto simp: net_create_temp_def split: if_splits option.splits)

lemma net_create_temp_none: "net_create_temp p w = (None, w') \<Longrightarrow> nw_files w' = nw_files w"
  by (auto simp: net_create_temp_def net_tick_def split: if_splits option.splits)

lemma net_set_files: "net_set c p v w = (b, w') \<Longrightarrow> nw_files w' = (if b then (nw_files w)(p := v) else nw_files w)"
  by (auto simp: net_set_def net_tick_def split: if_splits)

lemma net_try_files: "net_try c w = (b, w') \<Longrightarrow> nw_files w' = nw_files w"
  by (auto simp: net_try_def net_tick_def)

lemma net_rename_files:
  "net_rename a b w = (ok, w') \<Longrightarrow>
   (case ok of True \<Rightarrow> (\<exists>v. nw_files w a = Some v \<and> nw_files w' = (nw_files w)(a := None, b \<mapsto> v))
    | False \<Rightarrow> nw_files w' = nw_files w)"
  by (auto simp: net_rename_def net_tick_def split: if_splits option.splits)

lemma only_files_snd:
  "net_try c w = (b, w') \<Longrightarrow> only_files w w'" "net_set c p v w = (b, w') \<Longrightarrow> only_files w w'"
  "net_create_temp p w = (x, w') \<Longrightarrow> only_files w w'" "net_rename p q w = (b, w') \<Longrightarrow> only_files w w'"
  by (metis only_files_steps snd_conv)+

lemma only_files_steady: "only_files w w' \<Longrightarrow> steady w \<Longrightarrow> steady w'"
  using steady_same by (auto simp: only_files_def)

text \<open>The outcome of one attempt once the answer is there.\<close>

lemma receive_body_spec:
  assumes "steady w" "receive_body url path maxb a w = ((retry, r), w')"
  shows "only_files w w' \<and> (retry \<longrightarrow> read_breaks maxb a) \<and>
    (case r of
       Inl _ \<Rightarrow> nw_files w' = nw_files w
     | Inr _ \<Rightarrow> \<not> retry \<and> \<not> read_breaks maxb a \<and> int (length (limited_body maxb a)) \<le> maxb \<and>
         nw_files w' = (nw_files w)(path \<mapsto> limited_body maxb a))"
proof (cases "net_create_temp path w")
  case (Pair o1 w1)
  show ?thesis
  proof (cases o1)
    case None
    then show ?thesis using assms(2) Pair net_create_temp_none [of path w w1] only_files_snd(3) [of path w]
      by (auto simp: receive_body_def)
  next
    case (Some t)
    obtain b2 w2 where s2: "net_set TempWrite t (Some (limited_body maxb a)) w1 = (b2, w2)" by fastforce
    obtain b3 w3 where s3: "net_try TempClose w2 = (b3, w3)" by fastforce
    have fr: "nw_files w t = None" and f1: "nw_files w1 = (nw_files w)(t \<mapsto> [])"
      using net_create_temp_free Pair Some by blast+
    have of3: "only_files w w3"
      using Pair s2 s3 only_files_snd only_files_trans by meson
    have f3: "nw_files w3 = (if b2 then (nw_files w1)(t \<mapsto> limited_body maxb a) else nw_files w1)"
      using net_set_files [OF s2] net_try_files [OF s3] by simp
    have undo: "nw_files (net_remove t w3) = nw_files w" "only_files w (net_remove t w3)"
      using net_remove_steady [OF only_files_steady [OF of3 assms(1)]] f3 f1 fr
        only_files_trans [OF of3 only_files_steps(6)] by auto
    note body = assms(2) [unfolded receive_body_def Pair Some, simplified s2 s3 prod.case option.case Let_def]
    show ?thesis
    proof (cases "b2 \<and> \<not> read_breaks maxb a \<and> \<not> maxb < int (length (limited_body maxb a)) \<and> b3")
      case False
      then show ?thesis using body undo by (auto split: if_splits)
    next
      case True
      obtain b4 w4 where s4: "net_rename t path w3 = (b4, w4)" by fastforce
      have of4: "only_files w w4" using of3 only_files_snd(4) [OF s4] only_files_trans by blast
      show ?thesis
      proof (cases b4)
        case True
        then have "nw_files w4 = (nw_files w)(path \<mapsto> limited_body maxb a)"
          using net_rename_files [OF s4] f3 f1 fr \<open>b2 \<and> _\<close> by (auto simp: fun_upd_idem)
        then show ?thesis using body s4 of4 True \<open>b2 \<and> _\<close> by auto
      next
        case False
        have "nw_files w4 = nw_files w3" using net_rename_files [OF s4] False by simp
        then have "nw_files (net_remove t w4) = nw_files w"
          using net_remove_steady [OF only_files_steady [OF of4 assms(1)]] f3 f1 fr by auto
        then show ?thesis using body s4 False True only_files_trans [OF of4 only_files_steps(6)] by auto
      qed
    qed
  qed
qed

lemma download_file_once_spec:
  assumes "steady w" "download_file_once url path maxb w = ((retry, r), w')"
  defines "out \<equiv> nw_reply w (length (nw_requests w)) url"
  shows "same_oracles w w' \<and> nw_requests w' = nw_requests w @ [url] \<and> nw_waits w' = nw_waits w \<and>
    (retry \<longrightarrow> transient maxb out) \<and>
    (case r of
       Inl _ \<Rightarrow> nw_files w' = nw_files w
     | Inr _ \<Rightarrow> \<not> retry \<and> (\<exists>body. delivers maxb out body \<and> nw_files w' = (nw_files w)(path \<mapsto> body)))"
proof -
  let ?w = "(net_tick w)\<lparr>nw_requests := nw_requests w @ [url]\<rparr>"
  have w: "same_oracles w ?w" "nw_requests ?w = nw_requests w @ [url]" "nw_waits ?w = nw_waits w"
    "nw_files ?w = nw_files w" "net_request url w = (out, ?w)"
    by (simp_all add: same_oracles_def net_tick_def net_request_def out_def)
  show ?thesis
  proof (cases "\<exists>a. out = Answered a \<and> ha_status a = 200 \<and> \<not> maxb < ha_length a")
    case True
    then obtain a where a: "out = Answered a" "ha_status a = 200" "\<not> maxb < ha_length a" by blast
    then have "receive_body url path maxb a ?w = ((retry, r), w')"
      using assms(2) w(5) by (simp add: download_file_once_def)
    then have "only_files ?w w'" "retry \<longrightarrow> read_breaks maxb a" "case r of
       Inl _ \<Rightarrow> nw_files w' = nw_files ?w
     | Inr _ \<Rightarrow> \<not> retry \<and> \<not> read_breaks maxb a \<and> int (length (limited_body maxb a)) \<le> maxb \<and>
         nw_files w' = (nw_files ?w)(path \<mapsto> limited_body maxb a)"
      using receive_body_spec [of ?w url path maxb a retry r w'] assms(1) steady_same [OF w(1)] by simp_all
    then show ?thesis using w(1-4) a
      by (auto simp: only_files_def same_oracles_def transient_def delivers_def split: sum.splits)
  next
    case False
    then show ?thesis using assms(2) w
      by (auto simp: download_file_once_def transient_def split: http_outcome.splits if_splits)
  qed
qed

lemma retry_wait_spec:
  "retry_wait delay w = (go, w') \<Longrightarrow> same_oracles w w' \<and> nw_requests w' = nw_requests w \<and>
     nw_waits w' = nw_waits w @ [delay] \<and> nw_files w' = nw_files w"
  by (auto simp: retry_wait_def same_oracles_def net_tick_def)

text \<open>The waits before attempts \<open>attempt + 1\<close> up to the last one, when the first of them is \<open>delay\<close>.\<close>

fun doubling :: "nat \<Rightarrow> int \<Rightarrow> int list" where
  "doubling 0 delay = []"
| "doubling (Suc n) delay = delay # doubling n (delay * 2)"

text \<open>One download as the network saw it: what was sent, waited for, and left in the file.\<close>

definition download_run :: "nat \<Rightarrow> int \<Rightarrow> string \<Rightarrow> string \<Rightarrow> int \<Rightarrow> net_world \<Rightarrow>
    (download_error, unit) result \<Rightarrow> net_world \<Rightarrow> bool" where
  "download_run most delay url path maxb w r w' \<longleftrightarrow>
     same_oracles w w' \<and>
     (\<exists>k. 1 \<le> k \<and> k \<le> most \<and> nw_requests w' = nw_requests w @ replicate k url \<and>
       (\<exists>ws. nw_waits w' = nw_waits w @ ws \<and> prefix ws (doubling (most - 1) delay)) \<and>
       list_all (\<lambda>i. transient maxb (nw_reply w (length (nw_requests w) + i) url)) [0..<k - 1] \<and>
       (case r of
          Inl _ \<Rightarrow> nw_files w' = nw_files w
        | Inr _ \<Rightarrow> \<exists>body. delivers maxb (nw_reply w (length (nw_requests w) + (k - 1)) url) body \<and>
            nw_files w' = (nw_files w)(path \<mapsto> body)))"

lemma download_run_retry:
  assumes "download_run most (delay * 2) url path maxb w2 r w'" "same_oracles w w2"
    and "nw_requests w2 = nw_requests w @ [url]"
    and "nw_waits w2 = nw_waits w @ [delay]" "nw_files w2 = nw_files w"
    and "transient maxb (nw_reply w (length (nw_requests w)) url)"
  shows "download_run (Suc most) delay url path maxb w r w'"
proof -
  obtain k ws where k: "1 \<le> k" "k \<le> most" "nw_requests w' = nw_requests w2 @ replicate k url"
    "nw_waits w' = nw_waits w2 @ ws" "prefix ws (doubling (most - 1) (delay * 2))"
    "\<forall>i < k - 1. transient maxb (nw_reply w2 (length (nw_requests w2) + i) url)"
    "case r of Inl _ \<Rightarrow> nw_files w' = nw_files w2
      | Inr _ \<Rightarrow> \<exists>body. delivers maxb (nw_reply w2 (length (nw_requests w2) + (k - 1)) url) body \<and>
            nw_files w' = (nw_files w2)(path \<mapsto> body)"
    using assms(1) unfolding download_run_def by (auto simp: list_all_iff)
  have rep: "nw_reply w2 = nw_reply w" using assms(2) by (simp add: same_oracles_def)
  have t: "transient maxb (nw_reply w (length (nw_requests w) + i) url)" if "i < Suc k - 1" for i
    using k(6) assms(3,6) rep that k(1) by (cases i) auto
  have pre: "prefix (delay # ws) (doubling (Suc most - 1) delay)"
    using k(1,2,5) by (cases most) auto
  have idx: "length (nw_requests w2) + (k - 1) = length (nw_requests w) + (Suc k - 1)"
    using k(1) assms(3) by simp
  show ?thesis
    unfolding download_run_def
    using assms(1-5) k rep t pre idx same_oracles_trans [OF assms(2)]
    by (intro conjI exI [of _ "Suc k"] exI [of _ "delay # ws"])
      (auto simp: download_run_def list_all_iff simp del: doubling.simps split: sum.splits)
qed

lemma download_loop_spec:
  assumes "steady w" "1 \<le> attempt" "attempt \<le> download_attempts"
    and "download_loop attempt delay url path maxb w = (r, w')"
  shows "download_run (Suc (download_attempts - attempt)) delay url path maxb w r w'"
  using assms
proof (induction attempt delay url path maxb w arbitrary: r w' rule: download_loop.induct)
  case (1 attempt delay url path maxb w)
  obtain retry r1 w1 where once: "download_file_once url path maxb w = ((retry, r1), w1)"
    by (metis surj_pair)
  note spec = download_file_once_spec [OF "1.prems"(1) once]
  show ?case
  proof (cases "r = r1 \<and> w' = w1")
    case True
    then show ?thesis using spec
      by (auto simp: download_run_def intro!: exI [of _ 1] exI [of _ "[] :: int list"] split: sum.splits)
  next
    case False
    then obtain e where e: "r1 = Inl e" "retry" "\<not> download_attempts \<le> attempt"
      using "1.prems"(4) once by (subst (asm) download_loop.simps) (auto split: sum.splits if_splits)
    obtain go w2 where wait: "retry_wait delay w1 = (go, w2)" by fastforce
    note ws = retry_wait_spec [OF wait]
    have tr: "transient maxb (nw_reply w (length (nw_requests w)) url)" using spec e by simp
    have le: "Suc (download_attempts - attempt) = Suc (Suc (download_attempts - Suc attempt))"
      using e(3) by simp
    show ?thesis
    proof (cases go)
      case True
      have "download_loop (Suc attempt) (delay * 2) url path maxb w2 = (r, w')"
        using "1.prems"(4) once e wait True by (subst (asm) download_loop.simps) simp
      moreover have "steady w2" using spec ws "1.prems"(1) same_oracles_trans steady_same by blast
      ultimately have "download_run (Suc (download_attempts - Suc attempt)) (delay * 2) url path maxb w2 r w'"
        using "1.IH" [OF once [symmetric] refl e(1) _ wait [symmetric]] e "1.prems"(2) True by auto
      then show ?thesis
        unfolding le using download_run_retry spec ws e tr same_oracles_trans by auto
    next
      case False
      then have "r = Inl (RetryCanceled url)" "w' = w2"
        using "1.prems"(4) once e wait by (auto simp: download_loop.simps [of attempt])
      moreover have "prefix [delay] (doubling (Suc (download_attempts - attempt) - 1) delay)"
        using le by simp
      ultimately show ?thesis using spec ws e same_oracles_trans
        by (auto simp: download_run_def intro!: exI [of _ 1] exI [of _ "[delay]"])
    qed
  qed
qed

lemma limited_body_full:
  assumes "0 \<le> maxb" "maxb < max_int" "int (length (limited_body maxb a)) \<le> maxb"
  shows "limited_body maxb a = ha_body a" "\<not> read_breaks maxb a \<longleftrightarrow> \<not> ha_broken a"
proof -
  have l: "read_limit maxb = maxb + 1"
    using assms(1,2) by (simp add: read_limit_def wrap_int_id min_int_def)
  then have "length (ha_body a) \<le> nat maxb"
    using assms by (simp add: limited_body_def limit_bytes_take min_def split: if_splits)
  then show "limited_body maxb a = ha_body a" "\<not> read_breaks maxb a \<longleftrightarrow> \<not> ha_broken a"
    using l assms(1) by (auto simp: limited_body_def limit_bytes_take read_breaks_def)
qed

text \<open>
  C27. A download sends at most three requests, each but the last answered by a failure of the network
  or the server, with waits of two and four seconds; on success the file holds the complete body of
  the last answer, within the size bound, and on an error every file is as it was.
\<close>

theorem download_contract:
  assumes "steady w" "0 \<le> maxb" "maxb < max_int" "download_file url path maxb w = (r, w')"
  shows "\<exists>k. 1 \<le> k \<and> k \<le> 3 \<and> nw_requests w' = nw_requests w @ replicate k url \<and>
    (\<exists>ws. nw_waits w' = nw_waits w @ ws \<and> prefix ws [2000000000, 4000000000]) \<and>
    list_all (\<lambda>i. transient maxb (nw_reply w (length (nw_requests w) + i) url)) [0..<k - 1] \<and>
    (case r of
       Inl _ \<Rightarrow> nw_files w' = nw_files w
     | Inr _ \<Rightarrow> \<exists>a. nw_reply w (length (nw_requests w) + (k - 1)) url = Answered a \<and> ha_status a = 200 \<and>
         \<not> ha_broken a \<and> int (length (ha_body a)) \<le> maxb \<and>
         nw_files w' = (nw_files w)(path \<mapsto> ha_body a))"
proof -
  have run: "download_run 3 download_retry_delay url path maxb w r w'"
    using download_loop_spec [OF assms(1), of 1] assms(4)
    by (simp add: download_file_def download_attempts_def)
  have "\<exists>a. out = Answered a \<and> ha_status a = 200 \<and> \<not> ha_broken a \<and>
      int (length (ha_body a)) \<le> maxb \<and> body = ha_body a" if "delivers maxb out body" for out body
    using that limited_body_full [OF assms(2,3)] by (auto simp: delivers_def split: http_outcome.splits)
  moreover have "doubling (3 - 1) download_retry_delay = [2000000000, 4000000000]"
    by (simp add: eval_nat_numeral download_retry_delay_def)
  ultimately show ?thesis
    using run unfolding download_run_def by (fastforce split: sum.splits)
qed

definition sample_net :: net_world where
  "sample_net =
     \<lparr>nw_reply = (\<lambda>n url. if n = 0 then NoAnswer else Answered \<lparr>ha_status = 200, ha_length = 3,
          ha_body = ''abc'', ha_broken = False, ha_location = None\<rparr>),
      nw_fault = (\<lambda>_ _. False), nw_cancelled = (\<lambda>_. False), nw_clock = 0, nw_names = [''1'', ''2''],
      nw_files = Map.empty, nw_requests = [], nw_waits = []\<rparr>"

theorem download_contract_witness:
  "\<exists>w'. download_file ''http://h/a'' ''/c/a'' 5 sample_net = (Inr (), w') \<and>
     nw_requests w' = [''http://h/a'', ''http://h/a''] \<and> nw_files w' ''/c/a'' = Some ''abc''"
proof -
  obtain r w' where run: "download_file ''http://h/a'' ''/c/a'' 5 sample_net = (r, w')" by fastforce
  have "fst (download_file ''http://h/a'' ''/c/a'' 5 sample_net) = Inr ()"
    "nw_requests (snd (download_file ''http://h/a'' ''/c/a'' 5 sample_net)) = [''http://h/a'', ''http://h/a'']"
    by code_simp+
  moreover have "steady sample_net" "(5::int) < max_int"
    by (simp_all add: steady_def sample_net_def max_int_def)
  ultimately obtain k a where "nw_requests w' = nw_requests sample_net @ replicate k ''http://h/a''"
    "nw_reply sample_net (length (nw_requests sample_net) + (k - 1)) ''http://h/a'' = Answered a"
    "nw_files w' = (nw_files sample_net)(''/c/a'' \<mapsto> ha_body a)"
    using download_contract [of sample_net 5 "''http://h/a''" "''/c/a''" r w'] run by auto
  then have "nw_files w' ''/c/a'' = Some ''abc''"
    by (auto simp: sample_net_def split: if_splits)
  then show ?thesis
    using run \<open>fst _ = _\<close> \<open>nw_requests (snd _) = _\<close> by auto
qed

text \<open>
  With the largest bound the sum in \<open>io.LimitReader\<close> wraps to a negative limit: the reader passes no
  byte, and the download succeeds with an empty file.
\<close>

lemma largest_bound_downloads_nothing:
  "\<exists>w'. download_file ''http://h/a'' ''/c/a'' max_int sample_net = (Inr (), w') \<and>
     nw_files w' ''/c/a'' = Some []"
proof -
  have "fst (download_file ''http://h/a'' ''/c/a'' max_int sample_net) = Inr ()"
    "nw_files (snd (download_file ''http://h/a'' ''/c/a'' max_int sample_net)) ''/c/a'' = Some []"
    by code_simp+
  then show ?thesis by (metis prod.collapse)
qed

end
