(* ===== verification/InstallTxn.thy ===== *)
theory InstallTxn
  imports InstallFs
begin

text \<open>
  The install transaction of \<open>selfupdate\<close>: \<open>installCandidates\<close> renames a set of staged binaries over
  the installed ones with backups, a commit marker and rollback (\<open>applyall.go\<close>, \<open>extract.go\<close>), and
  \<open>recoverInterruptedInstall\<close> repairs what a killed process left. The main result is crash atomicity:
  from every state outside a torn backup, recovery ends with the whole old or the whole new set.
\<close>

section \<open>The code\<close>

record candidate =
  cd_path :: string
  cd_install :: string

record install_option =
  io_install :: string
  io_state :: string

datatype install_error =
    StatFailed string
  | BackupCreateFailed string
  | SymlinkReadFailed string
  | SymlinkCreateFailed string
  | BackupCopyFailed string
  | EmptyInstallPath
  | ReplaceFailed string
  | MarkerWriteFailed string
  | MarkerRemoveFailed string
  | RestoreFailed string

definition backup_prefix :: "string \<Rightarrow> string" where
  "backup_prefix p = path_join [path_dir p, ''.'' @ path_base p @ ''-previous-'']"

definition candidate_prefix :: "string \<Rightarrow> string" where
  "candidate_prefix p = path_join [path_dir p, ''.'' @ path_base p @ ''-candidate-'']"

definition install_commit_marker_path :: "install_option \<Rightarrow> string" where
  "install_commit_marker_path o1 = path_join [path_dir (io_state o1), ''update-install-committed'']"

text \<open>\<open>backupInstalledBinary\<close>: the backup's name, empty when nothing is installed yet.\<close>

definition backup_installed_binary :: "string \<Rightarrow> world \<Rightarrow> (install_error, string) result \<times> world" where
  "backup_installed_binary p w =
     (case op_lstat p w of
        (Inl _, w) \<Rightarrow> (Inl (StatFailed p), w)
      | (Inr None, w) \<Rightarrow> (Inr [], w)
      | (Inr (Some n), w) \<Rightarrow>
          (case op_create_temp (temp_join (path_dir p) (''.'' @ path_base p @ ''-previous-'')) w of
             (None, w) \<Rightarrow> (Inl (BackupCreateFailed p), w)
           | (Some b, w) \<Rightarrow>
               (let (_, w) = op_remove b w in
                case n of
                  NLink _ \<Rightarrow>
                    (case op_readlink p w of
                       (None, w) \<Rightarrow> (Inl (SymlinkReadFailed p), w)
                     | (Some t, w) \<Rightarrow>
                         (case op_symlink t b w of
                            (False, w) \<Rightarrow> (Inl (SymlinkCreateFailed p), w)
                          | (True, w) \<Rightarrow> (Inr b, w)))
                | NFile _ \<Rightarrow>
                    (case op_link p b w of
                       (True, w) \<Rightarrow> (Inr b, w)
                     | (False, w) \<Rightarrow>
                         (case op_copy_file p b w of
                            (True, w) \<Rightarrow> (Inr b, w)
                          | (False, w) \<Rightarrow> (let (_, w) = op_remove b w in (Inl (BackupCopyFailed p), w)))))))"

definition install_candidate :: "string \<Rightarrow> string \<Rightarrow> world \<Rightarrow> (install_error, unit) result \<times> world" where
  "install_candidate c p w =
     (if p = [] then (Inl EmptyInstallPath, w)
      else (case op_rename c p w of
              (False, w) \<Rightarrow> (Inl (ReplaceFailed p), w)
            | (True, w) \<Rightarrow> (Inr (), w)))"

text \<open>
  The deferred rollback, over the replaced binaries with the last one first. Its errors are joined
  to the error that caused it, so it never turns a failure into a success.
\<close>

fun restore_replaced :: "(string \<times> string) list \<Rightarrow> world \<Rightarrow> world" where
  "restore_replaced [] w = w"
| "restore_replaced ((p, b) # rs) w =
     restore_replaced rs (if b = [] then snd (op_remove p w) else snd (op_rename b p w))"

fun install_loop ::
  "candidate list \<Rightarrow> (string \<times> string) list \<Rightarrow> world \<Rightarrow>
     (install_error, (string \<times> string) list) result \<times> world" where
  "install_loop [] replaced w = (Inr replaced, w)"
| "install_loop (c # cs) replaced w =
     (case backup_installed_binary (cd_install c) w of
        (Inl e, w) \<Rightarrow> (Inl e, restore_replaced replaced w)
      | (Inr b, w) \<Rightarrow>
          (case install_candidate (cd_path c) (cd_install c) w of
             (Inl e, w) \<Rightarrow>
               (Inl e, restore_replaced replaced (if b \<noteq> [] then snd (op_remove b w) else w))
           | (Inr _, w) \<Rightarrow> install_loop cs ((cd_install c, b) # replaced) w))"

fun remove_backups :: "(string \<times> string) list \<Rightarrow> world \<Rightarrow> world" where
  "remove_backups [] w = w"
| "remove_backups ((p, b) # rs) w =
     remove_backups rs (if b \<noteq> [] then snd (op_remove b w) else w)"

text \<open>\<open>replaced\<close> is kept with the last entry first; the backups are removed first entry first.\<close>

definition install_candidates :: "candidate list \<Rightarrow> string \<Rightarrow> world \<Rightarrow> (install_error, unit) result \<times> world" where
  "install_candidates cs marker w =
     (case install_loop cs [] w of
        (Inl e, w) \<Rightarrow> (Inl e, w)
      | (Inr replaced, w) \<Rightarrow>
          if replaced = [] then (Inr (), w)
          else (case op_write_marker marker (''installed'' @ newline) w of
                  (False, w) \<Rightarrow> (Inl (MarkerWriteFailed marker), restore_replaced replaced w)
                | (True, w) \<Rightarrow>
                    (case op_remove marker (remove_backups (rev replaced) w) of
                       (False, w) \<Rightarrow> (Inl (MarkerRemoveFailed marker), w)
                     | (True, w) \<Rightarrow> (Inr (), w))))"

fun remove_all :: "string list \<Rightarrow> world \<Rightarrow> world" where
  "remove_all [] w = w"
| "remove_all (p # ps) w = remove_all ps (snd (op_remove p w))"

text \<open>The loop over the leftover backups of one install path.\<close>

definition recover_backups :: "bool \<Rightarrow> string \<Rightarrow> string list \<Rightarrow> world \<Rightarrow> (install_error, unit) result \<times> world" where
  "recover_backups committed p backups w =
     (if committed then (Inr (), remove_all backups w)
      else (case backups of
              [] \<Rightarrow> (Inr (), w)
            | b # bs \<Rightarrow>
                if same_file (w_fs w) b p then (Inr (), remove_all bs (snd (op_remove b w)))
                else (case op_rename b p w of
                        (False, w) \<Rightarrow> (Inl (RestoreFailed b), w)
                      | (True, w) \<Rightarrow> (Inr (), remove_all bs w))))"

definition recover_option :: "bool \<Rightarrow> install_option \<Rightarrow> world \<Rightarrow> (install_error, unit) result \<times> world" where
  "recover_option committed opt w =
     (let p = io_install opt in
      if blank p then (Inr (), w)
      else (let backups = fs_glob (backup_prefix p) (w_fs w);
                candidates = fs_glob (candidate_prefix p) (w_fs w)
            in case recover_backups committed p backups w of
                 (Inl e, w) \<Rightarrow> (Inl e, w)
               | (Inr _, w) \<Rightarrow> (Inr (), remove_all candidates w)))"

fun recover_options :: "bool \<Rightarrow> install_option list \<Rightarrow> world \<Rightarrow> (install_error, unit) result \<times> world" where
  "recover_options committed [] w = (Inr (), w)"
| "recover_options committed (opt # opts) w =
     (case recover_option committed opt w of
        (Inl e, w) \<Rightarrow> (Inl e, w)
      | (Inr _, w) \<Rightarrow> recover_options committed opts w)"

definition recover_interrupted_install ::
  "install_option list \<Rightarrow> world \<Rightarrow> (install_error, unit) result \<times> world" where
  "recover_interrupted_install opts w =
     (let marker = install_commit_marker_path (hd opts);
          committed = (fs_resolve link_limit (w_fs w) marker \<noteq> None)
      in case recover_options committed opts w of
           (Inl e, w) \<Rightarrow> (Inl e, w)
         | (Inr _, w) \<Rightarrow>
             if committed
             then (case op_remove marker w of
                     (False, w) \<Rightarrow> (Inl (MarkerRemoveFailed marker), w)
                   | (True, w) \<Rightarrow> (Inr (), w))
             else (Inr (), w))"

text \<open>A later run in which no call fails, started on a file system.\<close>

definition quiet :: "fs \<Rightarrow> world" where
  "quiet f = \<lparr>w_fs = f, w_fault = (\<lambda>_ _. False), w_clock = 0, w_names = [], w_trace = []\<rparr>"

definition recovered :: "install_option list \<Rightarrow> fs \<Rightarrow> (install_error, unit) result \<times> fs" where
  "recovered opts f = (let (r, w) = recover_interrupted_install opts (quiet f) in (r, w_fs w))"

section \<open>What recovery sees\<close>

definition slot :: "fs \<Rightarrow> string \<Rightarrow> string \<Rightarrow> bool" where
  "slot f p v \<longleftrightarrow> (case look f p of Some (NFile i) \<Rightarrow> fs_data f i = v | _ \<Rightarrow> False)"

definition backups :: "fs \<Rightarrow> string \<Rightarrow> string set" where
  "backups f p = set (fs_glob (backup_prefix p) f)"

text \<open>Before the marker an install path is recoverable to \<open>v\<close>: it holds \<open>v\<close>, or its one backup does.\<close>

definition pre_ok :: "fs \<Rightarrow> string \<Rightarrow> string \<Rightarrow> bool" where
  "pre_ok f p v \<longleftrightarrow>
     (backups f p = {} \<and> slot f p v) \<or>
     (\<exists>b. backups f p = {b} \<and> slot f b v \<and> (\<exists>u. slot f p u))"

definition touched :: "string \<Rightarrow> string \<Rightarrow> bool" where
  "touched p k \<longleftrightarrow> k = p \<or> matches (backup_prefix p) k \<or> matches (candidate_prefix p) k"

definition watched :: "string \<Rightarrow> string \<Rightarrow> bool" where
  "watched p k \<longleftrightarrow> k = p \<or> matches (backup_prefix p) k"

definition apart :: "string \<Rightarrow> string \<Rightarrow> bool" where
  "apart a b \<longleftrightarrow> \<not> prefix a b \<and> \<not> prefix b a"

text \<open>
  The names of an install set do not run into each other: install paths are distinct, neither they nor
  the marker look like a hidden name of the set, and the hidden names of two paths differ.
\<close>

definition separated :: "string list \<Rightarrow> string \<Rightarrow> bool" where
  "separated ps marker \<longleftrightarrow>
     distinct ps \<and>
     list_all (\<lambda>p. \<not> blank p \<and>
        temp_join (path_dir p) (''.'' @ path_base p @ ''-previous-'') = backup_prefix p \<and>
        \<not> touched p marker \<and>
        list_all (\<lambda>q. \<not> matches (backup_prefix p) q \<and> \<not> matches (candidate_prefix p) q \<and>
          apart (candidate_prefix p) (backup_prefix q) \<and>
          (p = q \<or> apart (backup_prefix p) (backup_prefix q))) ps) ps"

lemma apart_matches: "apart a b \<Longrightarrow> matches a k \<Longrightarrow> \<not> matches b k"
  using prefix_same_cases by (auto simp: apart_def matches_def)

lemma separated_D:
  assumes "separated ps marker" "p \<in> set ps"
  shows "\<not> blank p" "temp_join (path_dir p) (''.'' @ path_base p @ ''-previous-'') = backup_prefix p"
    "\<not> touched p marker"
    "q \<in> set ps \<Longrightarrow> \<not> matches (backup_prefix p) q"
    "q \<in> set ps \<Longrightarrow> \<not> matches (candidate_prefix p) q"
    "q \<in> set ps \<Longrightarrow> matches (candidate_prefix p) k \<Longrightarrow> \<not> matches (backup_prefix q) k"
    "q \<in> set ps \<Longrightarrow> p \<noteq> q \<Longrightarrow> matches (backup_prefix p) k \<Longrightarrow> \<not> matches (backup_prefix q) k"
proof -
  have row: "\<not> blank p \<and> temp_join (path_dir p) (''.'' @ path_base p @ ''-previous-'') = backup_prefix p \<and>
      \<not> touched p marker" "\<And>q. q \<in> set ps \<Longrightarrow> \<not> matches (backup_prefix p) q \<and> \<not> matches (candidate_prefix p) q \<and>
        apart (candidate_prefix p) (backup_prefix q) \<and> (p = q \<or> apart (backup_prefix p) (backup_prefix q))"
    using assms by (auto simp: separated_def list_all_iff)
  show "\<not> blank p" "temp_join (path_dir p) (''.'' @ path_base p @ ''-previous-'') = backup_prefix p"
    "\<not> touched p marker"
    using row(1) by simp_all
  show "q \<in> set ps \<Longrightarrow> \<not> matches (backup_prefix p) q" "q \<in> set ps \<Longrightarrow> \<not> matches (candidate_prefix p) q"
    "q \<in> set ps \<Longrightarrow> matches (candidate_prefix p) k \<Longrightarrow> \<not> matches (backup_prefix q) k"
    "q \<in> set ps \<Longrightarrow> p \<noteq> q \<Longrightarrow> matches (backup_prefix p) k \<Longrightarrow> \<not> matches (backup_prefix q) k"
    using row(2) [of q] apart_matches by blast+
qed

lemma separated_clear:
  assumes "separated ps marker" "p \<in> set ps" "q \<in> set ps" "p \<noteq> q" "touched p k"
  shows "\<not> watched q k"
proof -
  have "\<not> matches (backup_prefix q) p" "\<not> matches (backup_prefix p) q" "\<not> matches (candidate_prefix p) q"
    using separated_D(4,5) [OF assms(1)] assms(2,3) by blast+
  moreover have "matches (candidate_prefix p) k \<Longrightarrow> \<not> matches (backup_prefix q) k"
    "matches (backup_prefix p) k \<Longrightarrow> \<not> matches (backup_prefix q) k"
    using separated_D(6,7) [OF assms(1,2,3)] assms(4) by blast+
  ultimately show ?thesis
    using assms(4,5) unfolding touched_def watched_def by blast
qed

lemma distinct_singleton_list: "distinct xs \<Longrightarrow> set xs = {b} \<Longrightarrow> xs = [b]"
  by (cases xs; cases "tl xs") auto

lemma slot_iff: "slot f p v \<longleftrightarrow> (\<exists>i. look f p = Some (NFile i) \<and> fs_data f i = v)"
  by (auto simp: slot_def split: option.splits node.splits)

lemma backups_eq: "backups f p = {k. look f k \<noteq> None \<and> matches (backup_prefix p) k}"
  by (simp add: backups_def set_fs_glob)

definition fs_wf :: "fs \<Rightarrow> bool" where
  "fs_wf f \<longleftrightarrow> (\<forall>k i. look f k = Some (NFile i) \<longrightarrow> i < fs_next f)"

definition keeps :: "fs \<Rightarrow> fs \<Rightarrow> bool" where
  "keeps f g \<longleftrightarrow> (\<forall>i < fs_next f. fs_data g i = fs_data f i) \<and> fs_next f \<le> fs_next g"

lemma keeps_refl [simp]: "keeps f f"
  by (simp add: keeps_def)

lemma slot_frame: "fs_wf f \<Longrightarrow> keeps f g \<Longrightarrow> look g p = look f p \<Longrightarrow> slot f p v \<Longrightarrow> slot g p v"
  by (auto simp: slot_iff fs_wf_def keeps_def)

lemma backups_frame: "(\<And>k. watched p k \<Longrightarrow> look g k = look f k) \<Longrightarrow> backups g p = backups f p"
  unfolding backups_def by (rule arg_cong [of _ _ set], rule fs_glob_cong) (simp add: watched_def)

lemma backups_watched: "b \<in> backups f p \<Longrightarrow> watched p b"
  by (simp add: backups_eq watched_def)

lemma pre_ok_frame:
  assumes "fs_wf f" "keeps f g" "\<And>k. watched p k \<Longrightarrow> look g k = look f k" "pre_ok f p v"
  shows "pre_ok g p v"
proof -
  have "backups g p = backups f p" using assms(3) by (rule backups_frame)
  moreover have "slot g k u" if "watched p k" "slot f k u" for k u
    using slot_frame [OF assms(1,2) assms(3) [OF that(1)] that(2)] .
  moreover have "watched p p" by (simp add: watched_def)
  moreover have "watched p b" if "backups f p = {b}" for b
    using backups_watched [of b f p] that by simp
  ultimately show ?thesis
    using assms(4) unfolding pre_ok_def by metis
qed

section \<open>Recovery\<close>

definition quiet_world :: "world \<Rightarrow> bool" where
  "quiet_world w \<longleftrightarrow> w_fault w = (\<lambda>_ _. False)"

lemma quiet_no_fail [simp]: "quiet_world w \<Longrightarrow> \<not> w_fails c w"
  by (simp add: quiet_world_def w_fails_def)

definition fs_after :: "world \<Rightarrow> world \<Rightarrow> bool" where
  "fs_after w w' \<longleftrightarrow> quiet_world w' \<and> fs_data (w_fs w') = fs_data (w_fs w) \<and> fs_next (w_fs w') = fs_next (w_fs w)"

lemma fs_after_trans: "fs_after w w' \<Longrightarrow> fs_after w' w'' \<Longrightarrow> fs_after w w''"
  by (simp add: fs_after_def)

lemma fs_after_keeps: "fs_after w w' \<Longrightarrow> keeps (w_fs w) (w_fs w')"
  by (simp add: fs_after_def keeps_def)

lemma quiet_remove:
  assumes "quiet_world w"
  shows "fs_after w (snd (op_remove p w))"
    "look (w_fs (snd (op_remove p w))) k = (if k = p then None else look (w_fs w) k)"
  using assms by (auto simp: op_remove_def fs_after_def quiet_world_def look_laws)

lemma quiet_remove_all:
  "quiet_world w \<Longrightarrow> fs_after w (remove_all ps w) \<and>
   (\<forall>k. look (w_fs (remove_all ps w)) k = (if k \<in> set ps then None else look (w_fs w) k))"
proof (induction ps arbitrary: w)
  case Nil
  then show ?case by (simp add: fs_after_def)
next
  case (Cons p ps)
  note one = quiet_remove [OF Cons.prems, of p]
  then have "quiet_world (snd (op_remove p w))" by (simp add: fs_after_def)
  from Cons.IH [OF this] one show ?case
    by (auto intro: fs_after_trans)
qed

lemma quiet_rename:
  assumes "quiet_world w" "look (w_fs w) a \<noteq> None"
  shows "fst (op_rename a b w)" "fs_after w (snd (op_rename a b w))"
    "w_fs (snd (op_rename a b w)) = fs_rename a b (w_fs w)"
  using assms by (auto simp: op_rename_def fs_after_def quiet_world_def)

lemma slot_rename: "slot f a v \<Longrightarrow> a \<noteq> b \<Longrightarrow> slot (fs_rename a b f) b v"
proof -
  assume s: "slot f a v" and ne: "a \<noteq> b"
  then obtain i where i: "look f a = Some (NFile i)" "fs_data f i = v" by (auto simp: slot_iff)
  show ?thesis
  proof (cases "look f b = Some (NFile i)")
    case True
    then have "fs_rename a b f = f" using i ne by (simp add: fs_rename_def)
    then show ?thesis using True i by (simp add: slot_iff)
  next
    case False
    then show ?thesis using look_rename [OF i(1) ne] i by (simp add: slot_iff)
  qed
qed

lemma look_rename_source:
  assumes "look f a = Some (NFile i)" "a \<noteq> b"
  shows "look (fs_rename a b f) a = None \<or> (look (fs_rename a b f) a = Some (NFile i) \<and> look f b = Some (NFile i))"
  using assms look_rename [OF assms, of a] by (cases "look f b = Some (NFile i)") (auto simp: fs_rename_def)

lemma recover_backups_uncommitted:
  assumes "quiet_world w" "pre_ok (w_fs w) p v" "\<not> matches (backup_prefix p) p"
  shows "\<exists>w'. recover_backups False p (fs_glob (backup_prefix p) (w_fs w)) w = (Inr (), w') \<and> fs_after w w' \<and>
    slot (w_fs w') p v \<and> backups (w_fs w') p = {} \<and>
    (\<forall>k. \<not> watched p k \<longrightarrow> look (w_fs w') k = look (w_fs w) k)"
proof -
  let ?f = "w_fs w"
  from assms(2) consider (none) "backups ?f p = {}" "slot ?f p v"
    | (one) b u where "backups ?f p = {b}" "slot ?f b v" "slot ?f p u"
    unfolding pre_ok_def by blast
  then show ?thesis
  proof cases
    case none
    then have "fs_glob (backup_prefix p) ?f = []" by (simp add: backups_def)
    with none assms(1) show ?thesis
      by (simp add: recover_backups_def fs_after_def)
  next
    case one
    have glob: "fs_glob (backup_prefix p) ?f = [b]"
      using one(1) distinct_fs_glob by (intro distinct_singleton_list) (simp_all add: backups_def)
    have b: "matches (backup_prefix p) b" "b \<noteq> p"
      using one(1) assms(3) by (auto simp: backups_eq)
    obtain i j where ij: "look ?f b = Some (NFile j)" "fs_data ?f j = v" "look ?f p = Some (NFile i)"
      using one(2,3) by (auto simp: slot_iff)
    have only_b: "matches (backup_prefix p) k \<Longrightarrow> k \<noteq> b \<Longrightarrow> look ?f k = None" for k
      using one(1) by (auto simp: backups_eq)
    show ?thesis
    proof (cases "i = j")
      case True
      let ?w = "snd (op_remove b w)"
      have "recover_backups False p [b] w = (Inr (), ?w)"
        using same_file_regular [OF ij(1,3)] True by (simp add: recover_backups_def)
      moreover have "slot (w_fs ?w) p v"
        using quiet_remove [OF assms(1), of b] ij b True by (auto simp: slot_iff fs_after_def)
      moreover have "backups (w_fs ?w) p = {}"
        using quiet_remove(2) [OF assms(1), of b] only_b by (auto simp: backups_eq)
      ultimately show ?thesis
        using quiet_remove [OF assms(1), of b] glob b by (auto simp: watched_def)
    next
      case False
      let ?w = "snd (op_rename b p w)"
      have look': "look (w_fs ?w) k = (if k = p then Some (NFile j) else if k = b then None else look ?f k)" for k
        using quiet_rename(3) [OF assms(1), of b p] look_rename [OF ij(1) b(2), of k] ij False by auto
      have ok: "fst (op_rename b p w)" "fs_after w ?w"
        using quiet_rename [OF assms(1), of b p] ij by auto
      then have "recover_backups False p [b] w = (Inr (), ?w)"
        using same_file_regular [OF ij(1,3)] False
        by (cases "op_rename b p w") (simp add: recover_backups_def)
      moreover have "slot (w_fs ?w) p v"
        using look' ok ij by (simp add: slot_iff fs_after_def)
      moreover have "backups (w_fs ?w) p = {}"
        using look' only_b assms(3) by (auto simp: backups_eq)
      ultimately show ?thesis
        using ok glob look' b by (auto simp: watched_def)
    qed
  qed
qed

lemma recover_backups_committed:
  assumes "quiet_world w" "slot (w_fs w) p v" "\<not> matches (backup_prefix p) p"
  shows "\<exists>w'. recover_backups True p (fs_glob (backup_prefix p) (w_fs w)) w = (Inr (), w') \<and> fs_after w w' \<and>
    slot (w_fs w') p v \<and> backups (w_fs w') p = {} \<and>
    (\<forall>k. \<not> watched p k \<longrightarrow> look (w_fs w') k = look (w_fs w) k)"
proof -
  let ?w = "remove_all (fs_glob (backup_prefix p) (w_fs w)) w"
  have r: "fs_after w ?w" "look (w_fs ?w) k =
      (if look (w_fs w) k \<noteq> None \<and> matches (backup_prefix p) k then None else look (w_fs w) k)" for k
    using quiet_remove_all [OF assms(1), of "fs_glob (backup_prefix p) (w_fs w)"] by (auto simp: set_fs_glob)
  then show ?thesis
    using assms by (auto simp: recover_backups_def backups_eq watched_def slot_iff fs_after_def)
qed


lemma recover_option_step:
  assumes "quiet_world w" "separated ps marker" "io_install opt \<in> set ps"
    and "if committed then slot (w_fs w) (io_install opt) v else pre_ok (w_fs w) (io_install opt) v"
  shows "\<exists>w'. recover_option committed opt w = (Inr (), w') \<and> fs_after w w' \<and>
    slot (w_fs w') (io_install opt) v \<and> backups (w_fs w') (io_install opt) = {} \<and>
    (\<forall>k. \<not> touched (io_install opt) k \<longrightarrow> look (w_fs w') k = look (w_fs w) k)"
proof -
  let ?p = "io_install opt"
  let ?cs = "fs_glob (candidate_prefix ?p) (w_fs w)"
  note sep = separated_D [OF assms(2,3)]
  obtain w1 where w1: "recover_backups committed ?p (fs_glob (backup_prefix ?p) (w_fs w)) w = (Inr (), w1)"
    "fs_after w w1" "slot (w_fs w1) ?p v" "backups (w_fs w1) ?p = {}"
    "\<forall>k. \<not> watched ?p k \<longrightarrow> look (w_fs w1) k = look (w_fs w) k"
    using recover_backups_uncommitted [OF assms(1) _ sep(4) [OF assms(3)]]
      recover_backups_committed [OF assms(1) _ sep(4) [OF assms(3)]] assms(4)
    by (cases committed) fastforce+
  let ?w = "remove_all ?cs w1"
  have "quiet_world w1" using w1(2) by (simp add: fs_after_def)
  then have r: "fs_after w1 ?w" "\<And>k. look (w_fs ?w) k = (if k \<in> set ?cs then None else look (w_fs w1) k)"
    using quiet_remove_all [of w1 ?cs] by auto
  have watched_kept: "look (w_fs ?w) k = look (w_fs w1) k" if "watched ?p k" for k
    using that sep(5,6) [OF assms(3)] r(2) [of k] by (auto simp: watched_def set_fs_glob)
  have "slot (w_fs ?w) ?p v"
    using w1(3) watched_kept [of ?p] r(1) by (simp add: slot_iff fs_after_def watched_def)
  moreover have "backups (w_fs ?w) ?p = {}"
    using w1(4) backups_frame [of ?p "w_fs ?w" "w_fs w1"] watched_kept by simp
  moreover have "\<forall>k. \<not> touched ?p k \<longrightarrow> look (w_fs ?w) k = look (w_fs w) k"
    using w1(5) r(2) by (auto simp: touched_def watched_def set_fs_glob)
  ultimately show ?thesis
    using sep(1) w1(1) fs_after_trans [OF w1(2) r(1)] by (simp add: recover_option_def Let_def)
qed

lemma fs_wf_after:
  assumes "fs_wf (w_fs w)" "fs_after w w'"
    and "\<And>k i. look (w_fs w') k = Some (NFile i) \<Longrightarrow> \<exists>j. look (w_fs w) j = Some (NFile i)"
  shows "fs_wf (w_fs w')"
  using assms unfolding fs_wf_def fs_after_def by metis

text \<open>Keys outside a set of install paths' names keep their entries, so the data of the rest is safe.\<close>

lemma slot_same: "fs_data g = fs_data f \<Longrightarrow> look g p = look f p \<Longrightarrow> slot g p v = slot f p v"
  by (simp add: slot_iff)

lemma pre_ok_same:
  assumes "fs_data g = fs_data f" "\<And>k. watched p k \<Longrightarrow> look g k = look f k"
  shows "pre_ok g p v = pre_ok f p v"
proof -
  have b: "backups g p = backups f p" using assms(2) by (rule backups_frame)
  have "slot g k u = slot f k u" if "watched p k" for k u
    using slot_same [OF assms(1) assms(2) [OF that]] .
  moreover have "watched p p" by (simp add: watched_def)
  moreover have "watched p k" if "backups f p = {k}" for k
    using backups_watched [of k f p] that by simp
  ultimately show ?thesis
    unfolding pre_ok_def b by metis
qed

lemma recover_options_step:
  assumes "quiet_world w" "separated ps marker" "io_install ` set opts \<subseteq> set ps" "distinct (map io_install opts)"
    and "\<forall>p \<in> io_install ` set opts. if committed then slot (w_fs w) p (v p) else pre_ok (w_fs w) p (v p)"
  shows "\<exists>w'. recover_options committed opts w = (Inr (), w') \<and> fs_after w w' \<and>
    (\<forall>p \<in> io_install ` set opts. slot (w_fs w') p (v p) \<and> backups (w_fs w') p = {}) \<and>
    (\<forall>k. (\<forall>p \<in> io_install ` set opts. \<not> touched p k) \<longrightarrow> look (w_fs w') k = look (w_fs w) k)"
  using assms(1,3-5)
proof (induction opts arbitrary: w)
  case Nil
  then show ?case by (simp add: fs_after_def)
next
  case (Cons opt opts)
  let ?p = "io_install opt"
  have p: "?p \<in> set ps" using Cons.prems(2) by simp
  have fresh: "?p \<notin> io_install ` set opts" using Cons.prems(3) by simp
  obtain w1 where w1: "recover_option committed opt w = (Inr (), w1)" "fs_after w w1"
    "slot (w_fs w1) ?p (v ?p)" "backups (w_fs w1) ?p = {}"
    "\<forall>k. \<not> touched ?p k \<longrightarrow> look (w_fs w1) k = look (w_fs w) k"
    using recover_option_step [OF Cons.prems(1) assms(2) p, of committed "v ?p"] Cons.prems(4) by auto
  have data1: "fs_data (w_fs w1) = fs_data (w_fs w)" "quiet_world w1" using w1(2) by (auto simp: fs_after_def)
  have kept: "look (w_fs w1) k = look (w_fs w) k" if "q \<in> io_install ` set opts" "watched q k" for q k
  proof -
    have "q \<in> set ps" using that(1) Cons.prems(2) by auto
    moreover have "q \<noteq> ?p" using that(1) fresh by blast
    ultimately have "\<not> touched ?p k" using separated_clear [OF assms(2) p] that(2) by blast
    then show ?thesis using w1(5) by blast
  qed
  have "\<forall>q \<in> io_install ` set opts. if committed then slot (w_fs w1) q (v q) else pre_ok (w_fs w1) q (v q)"
  proof
    fix q assume q: "q \<in> io_install ` set opts"
    have "slot (w_fs w1) q (v q) = slot (w_fs w) q (v q)"
      by (rule slot_same [OF data1(1) kept [OF q]]) (simp add: watched_def)
    moreover have "pre_ok (w_fs w1) q (v q) = pre_ok (w_fs w) q (v q)"
      by (rule pre_ok_same [OF data1(1) kept [OF q]])
    ultimately show "if committed then slot (w_fs w1) q (v q) else pre_ok (w_fs w1) q (v q)"
      using Cons.prems(4) q by auto
  qed
  then obtain w2 where w2: "recover_options committed opts w1 = (Inr (), w2)" "fs_after w1 w2"
    "\<forall>q \<in> io_install ` set opts. slot (w_fs w2) q (v q) \<and> backups (w_fs w2) q = {}"
    "\<forall>k. (\<forall>q \<in> io_install ` set opts. \<not> touched q k) \<longrightarrow> look (w_fs w2) k = look (w_fs w1) k"
    using Cons.IH [OF data1(2)] Cons.prems(2,3) by auto
  have still: "look (w_fs w2) k = look (w_fs w1) k" if "watched ?p k" for k
  proof -
    have "\<not> touched q k" if q: "q \<in> io_install ` set opts" for q
    proof -
      have "q \<in> set ps" using q Cons.prems(2) by auto
      moreover have "q \<noteq> ?p" using q fresh by blast
      ultimately show ?thesis using separated_clear [OF assms(2) _ p] \<open>watched ?p k\<close> by blast
    qed
    then show ?thesis using w2(4) by blast
  qed
  have "fs_data (w_fs w2) = fs_data (w_fs w1)" using w2(2) by (simp add: fs_after_def)
  then have "slot (w_fs w2) ?p (v ?p)"
    using w1(3) slot_same [of "w_fs w2" "w_fs w1" ?p "v ?p"] still [of ?p] by (simp add: watched_def)
  moreover have "backups (w_fs w2) ?p = {}"
    using w1(4) backups_frame [of ?p "w_fs w2" "w_fs w1"] still by simp
  ultimately show ?case
    using w1 w2 fs_after_trans [OF w1(2) w2(2)] by auto
qed

text \<open>The two shapes of a state a killed install leaves, and what recovery makes of each.\<close>

definition uncommitted :: "string list \<Rightarrow> string \<Rightarrow> (string \<Rightarrow> string) \<Rightarrow> fs \<Rightarrow> bool" where
  "uncommitted ps marker v f \<longleftrightarrow> look f marker = None \<and> (\<forall>p \<in> set ps. pre_ok f p (v p))"

definition committed_to :: "string list \<Rightarrow> string \<Rightarrow> (string \<Rightarrow> string) \<Rightarrow> fs \<Rightarrow> bool" where
  "committed_to ps marker v f \<longleftrightarrow> (\<exists>i. look f marker = Some (NFile i)) \<and> (\<forall>p \<in> set ps. slot f p (v p))"

definition restored :: "string list \<Rightarrow> string \<Rightarrow> (string \<Rightarrow> string) \<Rightarrow> fs \<Rightarrow> bool" where
  "restored ps marker v f \<longleftrightarrow> look f marker = None \<and> (\<forall>p \<in> set ps. slot f p (v p) \<and> backups f p = {})"

lemma recovered_uncommitted:
  assumes "opts \<noteq> []" "separated (map io_install opts) (install_commit_marker_path (hd opts))"
    and "uncommitted (map io_install opts) (install_commit_marker_path (hd opts)) v f"
  shows "\<exists>g. recovered opts f = (Inr (), g) \<and>
    restored (map io_install opts) (install_commit_marker_path (hd opts)) v g"
proof -
  let ?m = "install_commit_marker_path (hd opts)" and ?ps = "map io_install opts"
  have none: "look f ?m = None" using assms(3) by (simp add: uncommitted_def)
  have q: "quiet_world (quiet f)" "w_fs (quiet f) = f" by (simp_all add: quiet_world_def quiet_def)
  have "distinct ?ps" using assms(2) by (simp add: separated_def)
  then obtain w' where w': "recover_options False opts (quiet f) = (Inr (), w')"
    "\<forall>p \<in> set ?ps. slot (w_fs w') p (v p) \<and> backups (w_fs w') p = {}"
    "\<forall>k. (\<forall>p \<in> set ?ps. \<not> touched p k) \<longrightarrow> look (w_fs w') k = look f k"
    using recover_options_step [OF q(1) assms(2), of opts False v] assms(3) q(2)
    by (auto simp: uncommitted_def)
  have "look (w_fs w') ?m = None"
    using w'(3) separated_D(3) [OF assms(2)] none by auto
  then show ?thesis
    using w' none q(2)
    by (auto simp: recovered_def recover_interrupted_install_def restored_def Let_def link_limit_def eval_nat_numeral)
qed

lemma recovered_committed:
  assumes "opts \<noteq> []" "separated (map io_install opts) (install_commit_marker_path (hd opts))"
    and "committed_to (map io_install opts) (install_commit_marker_path (hd opts)) v f"
  shows "\<exists>g. recovered opts f = (Inr (), g) \<and>
    restored (map io_install opts) (install_commit_marker_path (hd opts)) v g"
proof -
  let ?m = "install_commit_marker_path (hd opts)" and ?ps = "map io_install opts"
  obtain i where i: "look f ?m = Some (NFile i)" using assms(3) by (auto simp: committed_to_def)
  have q: "quiet_world (quiet f)" "w_fs (quiet f) = f" by (simp_all add: quiet_world_def quiet_def)
  have "distinct ?ps" using assms(2) by (simp add: separated_def)
  then obtain w' where w': "recover_options True opts (quiet f) = (Inr (), w')" "fs_after (quiet f) w'"
    "\<forall>p \<in> set ?ps. slot (w_fs w') p (v p) \<and> backups (w_fs w') p = {}"
    "\<forall>k. (\<forall>p \<in> set ?ps. \<not> touched p k) \<longrightarrow> look (w_fs w') k = look f k"
    using recover_options_step [OF q(1) assms(2), of opts True v] assms(3) q(2)
    by (auto simp: committed_to_def)
  have m: "look (w_fs w') ?m = Some (NFile i)"
    using w'(4) separated_D(3) [OF assms(2)] i by auto
  have quiet: "quiet_world w'" using w'(2) by (simp add: fs_after_def)
  obtain w2 where rm: "op_remove ?m w' = (True, w2)"
    using quiet m by (simp add: op_remove_def)
  have after: "fs_after w' w2" and gone: "look (w_fs w2) k = (if k = ?m then None else look (w_fs w') k)" for k
    using quiet_remove [OF quiet, of ?m] rm by simp_all
  have "watched p k \<Longrightarrow> k \<noteq> ?m" if "p \<in> set ?ps" for p k
    using separated_D(3) [OF assms(2) that] by (auto simp: watched_def touched_def)
  then have same: "look (w_fs w2) k = look (w_fs w') k" if "p \<in> set ?ps" "watched p k" for p k
    using that gone by simp
  have "slot (w_fs w2) p (v p) \<and> backups (w_fs w2) p = {}" if p: "p \<in> set ?ps" for p
  proof -
    have "slot (w_fs w2) p (v p) = slot (w_fs w') p (v p)"
      using after same [OF p] by (intro slot_same) (simp_all add: fs_after_def watched_def)
    moreover have "backups (w_fs w2) p = backups (w_fs w') p"
      by (rule backups_frame) (rule same [OF p])
    ultimately show ?thesis using w'(3) p by auto
  qed
  moreover have "look (w_fs w2) ?m = None" using gone by simp
  ultimately show ?thesis
    using w'(1) fs_resolve_regular [OF i] rm q(2)
    by (auto simp: recovered_def recover_interrupted_install_def restored_def Let_def)
qed


section \<open>The install\<close>

text \<open>
  What holds between two system calls before the marker: \<open>rs\<close> are the replaced binaries with their
  backups, \<open>ms\<close> a binary whose backup stands but that is not replaced yet, \<open>cs\<close> the candidates to come.
\<close>

definition installing ::
  "string list \<Rightarrow> string \<Rightarrow> (string \<Rightarrow> string) \<Rightarrow> (string \<Rightarrow> string) \<Rightarrow> candidate list \<Rightarrow>
     (string \<times> string) list \<Rightarrow> (string \<times> string) list \<Rightarrow> fs \<Rightarrow> bool" where
  "installing ps marker old new cs rs ms f \<longleftrightarrow>
     fs_wf f \<and> look f marker = None \<and>
     (\<forall>p \<in> set ps - fst ` set rs - fst ` set ms. backups f p = {} \<and> slot f p (old p)) \<and>
     (\<forall>(p, b) \<in> set rs. b \<noteq> [] \<and> backups f p = {b} \<and> slot f b (old p) \<and> slot f p (new p)) \<and>
     (\<forall>(p, b) \<in> set ms. b \<noteq> [] \<and> backups f p = {b} \<and> slot f b (old p) \<and> slot f p (old p)) \<and>
     (\<forall>c \<in> set cs. slot f (cd_path c) (new (cd_install c)))"

text \<open>The static facts about the candidates still to be installed.\<close>

definition staged :: "string list \<Rightarrow> candidate list \<Rightarrow> (string \<times> string) list \<Rightarrow> bool" where
  "staged ps cs rs \<longleftrightarrow>
     distinct (map fst rs @ map cd_install cs) \<and> distinct (map cd_path cs) \<and>
     set (map fst rs) \<subseteq> set ps \<and> set (map cd_install cs) \<subseteq> set ps \<and>
     (\<forall>c \<in> set cs. matches (candidate_prefix (cd_install c)) (cd_path c))"

lemma installing_uncommitted:
  assumes "installing ps marker old new cs rs ms f" "fst ` set rs \<union> fst ` set ms \<subseteq> set ps"
  shows "uncommitted ps marker old f"
proof -
  have "pre_ok f p (old p)" if "p \<in> set ps" for p
  proof (cases "p \<in> fst ` set rs \<union> fst ` set ms")
    case True
    then have "\<exists>b. (p, b) \<in> set rs \<or> (p, b) \<in> set ms" by force
    then obtain b where "(p, b) \<in> set rs \<or> (p, b) \<in> set ms" by blast
    then have "backups f p = {b} \<and> slot f b (old p) \<and> (slot f p (new p) \<or> slot f p (old p))"
      using assms(1) by (auto simp: installing_def)
    then show ?thesis by (auto simp: pre_ok_def)
  next
    case False
    then have "backups f p = {} \<and> slot f p (old p)"
      using assms(1) that by (auto simp: installing_def)
    then show ?thesis by (simp add: pre_ok_def)
  qed
  then show ?thesis using assms(1) by (simp add: uncommitted_def installing_def)
qed

lemma installing_same:
  assumes "installing ps marker old new cs rs ms f" "\<And>k. look g k = look f k" "keeps f g"
  shows "installing ps marker old new cs rs ms g"
proof -
  have wf: "fs_wf f" using assms(1) by (simp add: installing_def)
  then have "fs_wf g" using assms(2,3) by (auto simp: fs_wf_def keeps_def intro: less_le_trans)
  moreover have "slot f k v \<Longrightarrow> slot g k v" for k v
    using slot_frame [OF wf assms(3) assms(2)] .
  moreover have "backups g p = backups f p" for p
    by (rule backups_frame) (rule assms(2))
  ultimately show ?thesis
    using assms(1,2) unfolding installing_def by (auto split: prod.splits)
qed

text \<open>A backup appears: its entry is the only change, and its content the installed one's.\<close>

lemma installing_backup:
  assumes "installing ps marker old new cs rs [] f" "separated ps marker" "staged ps cs rs"
    and "p \<in> set ps" "p \<notin> fst ` set rs" "set (map fst rs) \<subseteq> set ps"
    and "matches (backup_prefix p) b" "b \<noteq> []" "look f b = None"
    and "\<And>k. look g k = (if k = b then Some (NFile j) else look f k)" "fs_data g j = old p" "j < fs_next g"
    and "keeps f g"
  shows "installing ps marker old new cs rs [(p, b)] g"
proof -
  have wf: "fs_wf f" using assms(1) by (simp add: installing_def)
  then have "fs_wf g" using assms(10,12,13) by (auto simp: fs_wf_def keeps_def intro: less_le_trans)
  moreover have keep: "slot g k v" if "slot f k v" for k v
  proof -
    have "k \<noteq> b" using that assms(9) by (auto simp: slot_iff)
    then show ?thesis using slot_frame [OF wf assms(13) _ that] assms(10) by simp
  qed
  moreover have "marker \<noteq> b"
    using separated_D(3) [OF assms(2,4)] assms(7) by (auto simp: touched_def)
  moreover have others: "backups g q = backups f q" if "q \<in> set ps" "q \<noteq> p" for q
  proof (rule backups_frame)
    fix k assume "watched q k"
    moreover have "touched p b" using assms(7) by (simp add: touched_def)
    ultimately have "k \<noteq> b" using separated_clear [OF assms(2,4) that(1)] that(2) by blast
    then show "look g k = look f k" by (simp add: assms(10))
  qed
  moreover have "backups g p = {b}"
  proof -
    have "backups f p = {}" using assms(1,4,5) by (auto simp: installing_def)
    then have "look f k = None" if "matches (backup_prefix p) k" for k
      using that by (auto simp: backups_eq)
    then show ?thesis using assms(7,10) by (auto simp: backups_eq)
  qed
  moreover have "slot g b (old p)" using assms(10,11) by (simp add: slot_iff)
  moreover have "slot f p (old p)" using assms(1,4,5) by (auto simp: installing_def)
  moreover have "r \<noteq> p" if "(r, c) \<in> set rs" for r c
    using that assms(5) by force
  ultimately show ?thesis
    using assms(1,6,8,10) unfolding installing_def
    by (auto split: prod.splits)
qed

text \<open>The rename of a candidate over its install path.\<close>

lemma installing_rename:
  assumes "installing ps marker old new (c # cs) rs [(cd_install c, b)] f" "separated ps marker"
    and "staged ps (c # cs) rs"
  shows "installing ps marker old new cs ((cd_install c, b) # rs) [] (fs_rename (cd_path c) (cd_install c) f)"
proof -
  let ?p = "cd_install c" and ?a = "cd_path c"
  let ?g = "fs_rename ?a ?p f"
  note f = assms(1) [unfolded installing_def]
  have p: "?p \<in> set ps" and cand: "matches (candidate_prefix ?p) ?a"
    using assms(3) by (auto simp: staged_def)
  have a: "\<not> watched q ?a" if "q \<in> set ps" for q
    using that p cand separated_D(5,6) [OF assms(2) p] by (auto simp: watched_def)
  have ne: "?a \<noteq> ?p" using a [OF p] by (auto simp: watched_def)
  obtain i where i: "look f ?a = Some (NFile i)" "fs_data f i = new ?p"
    using f by (auto simp: slot_iff)
  have frame: "look ?g k = look f k" if "k \<noteq> ?a" "k \<noteq> ?p" for k
    using that by (rule look_rename_frame)
  have other: "look ?g k = look f k" if "q \<in> set ps" "q \<noteq> ?p" "watched q k" for q k
  proof (rule frame)
    show "k \<noteq> ?a" using a that by blast
    show "k \<noteq> ?p"
      using separated_clear [OF assms(2) p that(1)] that by (auto simp: touched_def)
  qed
  have slots: "slot ?g k v" if "slot f k v" "k \<noteq> ?a" "k \<noteq> ?p" for k v
    using that frame slot_same [of ?g f k v] by simp
  have bk: "backups ?g q = backups f q" if "q \<in> set ps" for q
  proof (cases "q = ?p")
    case False
    then show ?thesis using other that by (intro backups_frame) blast
  next
    case True
    have "look ?g k = look f k" if "matches (backup_prefix ?p) k" for k
    proof (rule frame)
      show "k \<noteq> ?a" using a [OF p] that by (auto simp: watched_def)
      show "k \<noteq> ?p" using separated_D(4) [OF assms(2) p p] that by auto
    qed
    then have "fs_glob (backup_prefix ?p) ?g = fs_glob (backup_prefix ?p) f"
      by (intro fs_glob_cong) simp
    then show ?thesis using True by (simp add: backups_def)
  qed
  have "fs_wf ?g"
  proof -
    have "\<exists>j. look f j = Some (NFile n)" if "look ?g k = Some (NFile n)" for k n
    proof (cases "k = ?a \<or> k = ?p")
      case False
      then show ?thesis using that frame by auto
    next
      case True
      show ?thesis
      proof (cases "look f ?p = Some (NFile i)")
        case True
        then have "?g = f" using i ne by (simp add: fs_rename_def)
        then show ?thesis using that by auto
      next
        case False
        then show ?thesis using look_rename [OF i(1) ne, of k] that i \<open>k = ?a \<or> k = ?p\<close> ne by (auto split: if_splits)
      qed
    qed
    moreover have "fs_wf f" using f by simp
    ultimately show ?thesis unfolding fs_wf_def fs_rename_data by blast
  qed
  moreover have "look ?g marker = None"
  proof -
    have "marker \<noteq> ?p" "marker \<noteq> ?a"
      using separated_D(3) [OF assms(2) p] cand by (auto simp: touched_def)
    then show ?thesis using frame f by simp
  qed
  moreover have "slot ?g ?p (new ?p)"
    using f ne by (intro slot_rename) auto
  moreover have "backups ?g q = {} \<and> slot ?g q (old q)" if "q \<in> set ps - fst ` set ((?p, b) # rs)" for q
  proof -
    have q: "q \<in> set ps" "q \<noteq> ?p" "backups f q = {}" "slot f q (old q)" using that f by auto
    then show ?thesis using bk slots a [OF q(1)] by (auto simp: watched_def)
  qed
  moreover have "d \<noteq> [] \<and> backups ?g q = {d} \<and> slot ?g d (old q) \<and> slot ?g q (new q)"
    if "(q, d) \<in> set rs" for q d
  proof -
    have "q \<in> fst ` set rs" using that by force
    moreover have "fst ` set rs \<subseteq> set ps" "?p \<notin> fst ` set rs"
      using assms(3) by (auto simp: staged_def)
    ultimately have q: "q \<in> set ps" "q \<noteq> ?p" by blast+
    have d: "d \<noteq> []" "backups f q = {d}" "slot f d (old q)" "slot f q (new q)" using that f by auto
    then have "watched q d" using backups_watched [of d f q] by simp
    then have "slot ?g d (old q)" "slot ?g q (new q)"
      using d other [OF q] slot_same [of ?g f] by (simp_all add: watched_def)
    then show ?thesis using d bk [OF q(1)] by simp
  qed
  moreover have "b \<noteq> [] \<and> backups ?g ?p = {b} \<and> slot ?g b (old ?p)"
  proof -
    have b: "b \<noteq> []" "backups f ?p = {b}" "slot f b (old ?p)" using f by auto
    then have "matches (backup_prefix ?p) b" by (auto simp: backups_eq)
    then have "b \<noteq> ?a" "b \<noteq> ?p"
      using a [OF p] separated_D(4) [OF assms(2) p p] by (auto simp: watched_def)
    then show ?thesis using b bk [OF p] slots by simp
  qed
  moreover have "slot ?g (cd_path d) (new (cd_install d))" if "d \<in> set cs" for d
  proof -
    have "cd_path d \<in> cd_path ` set cs" "?a \<notin> cd_path ` set cs"
      using that assms(3) by (simp_all add: staged_def)
    then have "cd_path d \<noteq> ?a" by auto
    moreover have "cd_path d \<noteq> ?p"
    proof -
      have "cd_install d \<in> set ps" "matches (candidate_prefix (cd_install d)) (cd_path d)"
        using that assms(3) by (auto simp: staged_def)
      then show ?thesis using separated_D(5) [OF assms(2) _ p] by auto
    qed
    ultimately show ?thesis using that f slots by auto
  qed
  ultimately show ?thesis
    unfolding installing_def by auto
qed


section \<open>The trace of an install\<close>

text \<open>The calls whose failure the code itself does not survive: it ignores a failed remove, and a
  marker that was created but not written stays behind.\<close>

definition world_ok :: "world \<Rightarrow> bool" where
  "world_ok w \<longleftrightarrow>
     (\<forall>n. \<not> w_fault w CallRemove n) \<and> (\<forall>n. \<not> w_fault w CallMarkerWrite n) \<and>
     list_all (\<lambda>s. slash \<notin> set s) (w_names w)"

definition trace_ok :: "(fs \<Rightarrow> bool) \<Rightarrow> world \<Rightarrow> bool" where
  "trace_ok Q w \<longleftrightarrow> (\<forall>(ph, f) \<in> set (w_trace w). ph = Whole \<longrightarrow> Q f)"

lemma world_ok_simps [simp]:
  "world_ok (w_tick w) = world_ok w" "world_ok (w_set ph f w) = world_ok w"
  by (simp_all add: world_ok_def)

lemma trace_ok_simps [simp]:
  "trace_ok Q (w_tick w) = trace_ok Q w"
  "trace_ok Q (w_set ph f w) \<longleftrightarrow> trace_ok Q w \<and> (ph = Whole \<longrightarrow> Q f)"
  by (auto simp: trace_ok_def)

lemma trace_ok_mono: "trace_ok Q w \<Longrightarrow> (\<And>f. Q f \<Longrightarrow> R f) \<Longrightarrow> trace_ok R w"
  by (auto simp: trace_ok_def)

lemma op_remove_ok:
  assumes "world_ok w" "op_remove p w = (r, w')"
  shows "world_ok w'" "\<And>k. look (w_fs w') k = (if k = p then None else look (w_fs w) k)"
    "fs_data (w_fs w') = fs_data (w_fs w)" "fs_next (w_fs w') = fs_next (w_fs w)"
    "trace_ok Q w \<Longrightarrow> Q (w_fs w') \<Longrightarrow> trace_ok Q w'"
    "r \<longleftrightarrow> look (w_fs w) p \<noteq> None"
  using assms by (auto simp: op_remove_def world_ok_def w_fails_def look_laws split: if_splits)

lemma op_rename_ok:
  assumes "world_ok w" "op_rename a b w = (r, w')"
  shows "world_ok w'" "w_fs w' = (if r then fs_rename a b (w_fs w) else w_fs w)"
    "trace_ok Q w \<Longrightarrow> (r \<Longrightarrow> Q (w_fs w')) \<Longrightarrow> trace_ok Q w'"
    "r \<Longrightarrow> look (w_fs w) a \<noteq> None"
  using assms by (auto simp: op_rename_def split: if_splits)

text \<open>Rollback keeps every install path recoverable after each of its renames.\<close>

definition rolling :: "string list \<Rightarrow> string \<Rightarrow> (string \<Rightarrow> string) \<Rightarrow> (string \<times> string) list \<Rightarrow> fs \<Rightarrow> bool" where
  "rolling ps marker old rs f \<longleftrightarrow>
     uncommitted ps marker old f \<and>
     (\<forall>(p, b) \<in> set rs. b \<noteq> [] \<and> backups f p = {b} \<and> slot f b (old p))"

lemma rolling_rename:
  assumes "rolling ps marker old ((p, b) # rs) f" "separated ps marker" "p \<in> set ps" "p \<notin> fst ` set rs"
    and "fst ` set rs \<subseteq> set ps"
  shows "rolling ps marker old rs (fs_rename b p f)"
proof -
  let ?g = "fs_rename b p f"
  have b: "backups f p = {b}" "slot f b (old p)"
    using assms(1) by (auto simp: rolling_def)
  then have match: "matches (backup_prefix p) b" by (auto simp: backups_eq)
  have ne: "b \<noteq> p" using match separated_D(4) [OF assms(2,3,3)] by auto
  have frame: "look ?g k = look f k" if "k \<noteq> b" "k \<noteq> p" for k
    using that by (rule look_rename_frame)
  have other: "look ?g k = look f k" if "q \<in> set ps" "q \<noteq> p" "watched q k" for q k
    using that separated_clear [OF assms(2,3) that(1)] match by (intro frame) (auto simp: touched_def)
  have "slot ?g p (old p)" using slot_rename [OF b(2) ne] .
  moreover have "backups ?g p \<subseteq> {b}"
  proof -
    have "look f k = None" if "matches (backup_prefix p) k" "k \<noteq> b" for k
      using b(1) that by (auto simp: backups_eq)
    moreover have "p \<noteq> k" if "matches (backup_prefix p) k" for k
      using that separated_D(4) [OF assms(2,3,3)] by auto
    ultimately have none: "look ?g k = None" if "matches (backup_prefix p) k" "k \<noteq> b" for k
      using frame [of k] that by auto
    show ?thesis
    proof
      fix k assume "k \<in> backups ?g p"
      then have "look ?g k \<noteq> None" "matches (backup_prefix p) k" by (simp_all add: backups_eq)
      then show "k \<in> {b}" using none [of k] by (cases "k = b") auto
    qed
  qed
  moreover have "slot ?g b (old p)" if "b \<in> backups ?g p"
  proof -
    obtain i where i: "look f b = Some (NFile i)" "fs_data f i = old p" using b(2) by (auto simp: slot_iff)
    then show ?thesis
      using look_rename_source [OF i(1) ne] that by (auto simp: backups_eq slot_iff)
  qed
  ultimately have "pre_ok ?g p (old p)"
    unfolding pre_ok_def by (cases "b \<in> backups ?g p") auto
  moreover have "pre_ok ?g q (old q)" if "q \<in> set ps" "q \<noteq> p" for q
    using pre_ok_same [of ?g f q "old q"] other that assms(1) by (auto simp: rolling_def uncommitted_def)
  moreover have "look ?g marker = None"
  proof -
    have "marker \<noteq> b" "marker \<noteq> p"
      using separated_D(3) [OF assms(2,3)] match by (auto simp: touched_def)
    then show ?thesis using frame assms(1) by (simp add: rolling_def uncommitted_def)
  qed
  moreover have "d \<noteq> [] \<and> backups ?g q = {d} \<and> slot ?g d (old q)" if "(q, d) \<in> set rs" for q d
  proof -
    have "q \<in> fst ` set rs" using that by force
    then have q: "q \<in> set ps" "q \<noteq> p" using assms(4,5) by blast+
    have d: "d \<noteq> []" "backups f q = {d}" "slot f d (old q)"
      using that assms(1) by (auto simp: rolling_def)
    then have "watched q d" using backups_watched [of d f q] by simp
    then have "slot ?g d (old q)" using d other [OF q] slot_same [of ?g f] by simp
    moreover have "backups ?g q = backups f q" using other [OF q] by (rule backups_frame)
    ultimately show ?thesis using d by simp
  qed
  ultimately show ?thesis
    unfolding rolling_def uncommitted_def by auto
qed

lemma restore_uncommitted:
  assumes "world_ok w" "trace_ok (uncommitted ps marker old) w" "separated ps marker"
    and "rolling ps marker old rs (w_fs w)" "distinct (map fst rs)" "fst ` set rs \<subseteq> set ps"
  shows "trace_ok (uncommitted ps marker old) (restore_replaced rs w) \<and>
    uncommitted ps marker old (w_fs (restore_replaced rs w))"
  using assms(1,2,4-6)
proof (induction rs arbitrary: w)
  case Nil
  then show ?case by (simp add: rolling_def)
next
  case (Cons r rs)
  obtain p b where r: "r = (p, b)" by fastforce
  have p: "p \<in> set ps" "p \<notin> fst ` set rs" and b: "b \<noteq> []"
    using Cons.prems(3-5) r by (auto simp: rolling_def)
  obtain ok w1 where w1: "op_rename b p w = (ok, w1)" by fastforce
  have "rolling ps marker old rs (w_fs w1)"
  proof (cases ok)
    case True
    then show ?thesis
      using op_rename_ok(2) [OF Cons.prems(1) w1] rolling_rename [of ps marker old p b rs "w_fs w"] p r
        Cons.prems(3,5) assms(3) by auto
  next
    case False
    then show ?thesis
      using op_rename_ok(2) [OF Cons.prems(1) w1] Cons.prems(3) by (auto simp: rolling_def)
  qed
  moreover from this have "trace_ok (uncommitted ps marker old) w1"
    using op_rename_ok(3) [OF Cons.prems(1) w1] Cons.prems(2) by (auto simp: rolling_def)
  ultimately show ?case
    using Cons.IH [of w1] op_rename_ok(1) [OF Cons.prems(1) w1] Cons.prems(4,5) w1 r b by auto
qed


lemma free_name_suffix: "free_name f pre ss = Some (p, ss') \<Longrightarrow> set ss' \<subseteq> set ss"
  by (induction ss) (auto split: if_splits)

lemma temp_join_nonempty: "name \<noteq> [] \<Longrightarrow> temp_join dir name \<noteq> []"
  by (simp add: temp_join_def)

lemma op_create_temp_cases:
  obtains "op_create_temp pre w = (None, w_tick w)"
  | b ss where "free_name (w_fs w) pre (w_names w) = Some (b, ss)"
      "op_create_temp pre w = (Some b, (w_set Torn (fs_create b [] (w_fs w)) w)\<lparr>w_names := ss\<rparr>)"
  by (cases "w_fails CallCreateTemp w"; cases "free_name (w_fs w) pre (w_names w)")
    (auto simp: op_create_temp_def)

text \<open>
  Making one backup: whatever fails, the set stays recoverable, and on success the backup stands
  beside the untouched binary.
\<close>

lemma backup_step:
  assumes "world_ok w" "trace_ok (uncommitted ps marker old) w"
    and "separated ps marker" "staged ps cs rs" "p \<in> set ps" "p \<notin> fst ` set rs"
    and "installing ps marker old new cs rs [] (w_fs w)"
    and "backup_installed_binary p w = (r, w')"
  shows "world_ok w' \<and> trace_ok (uncommitted ps marker old) w' \<and>
    (case r of
       Inl _ \<Rightarrow> installing ps marker old new cs rs [] (w_fs w')
     | Inr b \<Rightarrow> b \<noteq> [] \<and> installing ps marker old new cs rs [(p, b)] (w_fs w'))"
proof -
  let ?f = "w_fs w" and ?Q = "uncommitted ps marker old"
  have sub: "fst ` set rs \<subseteq> set ps" using assms(4) by (auto simp: staged_def)
  have unc: "installing ps marker old new cs rs [] f \<Longrightarrow> ?Q f" for f
    using installing_uncommitted sub by simp
  obtain i where i: "look ?f p = Some (NFile i)" "fs_data ?f i = old p" "i < fs_next ?f"
  proof -
    have "slot ?f p (old p)" "fs_wf ?f" using assms(5-7) by (auto simp: installing_def)
    then show ?thesis using that by (auto simp: slot_iff fs_wf_def)
  qed
  consider (lstat) "w_fails CallLstat w"
    | (temp) "\<not> w_fails CallLstat w" "op_create_temp (backup_prefix p) (w_tick w) = (None, w_tick (w_tick w))"
    | (made) b ss where "\<not> w_fails CallLstat w" "free_name ?f (backup_prefix p) (w_names w) = Some (b, ss)"
        "op_create_temp (backup_prefix p) (w_tick w)
           = (Some b, (w_set Torn (fs_create b [] ?f) (w_tick w))\<lparr>w_names := ss\<rparr>)"
    by (cases "w_fails CallLstat w"; cases rule: op_create_temp_cases [of "backup_prefix p" "w_tick w"]) auto
  then show ?thesis
  proof cases
    case lstat
    then show ?thesis using assms by (auto simp: backup_installed_binary_def op_lstat_def)
  next
    case temp
    then show ?thesis
      using assms i separated_D(2) [OF assms(3,5)] by (auto simp: backup_installed_binary_def op_lstat_def)
  next
    case made
    have fresh: "look ?f b = None" and "\<exists>s \<in> set (w_names w). b = backup_prefix p @ s"
      using free_name_fresh [OF made(2)] by auto
    then have match: "matches (backup_prefix p) b"
      using assms(1) by (auto simp: matches_def world_ok_def list_all_iff)
    have "backup_prefix p \<noteq> []"
      using separated_D(2) [OF assms(3,5)] temp_join_nonempty by (metis append_Cons list.distinct(1))
    then have b: "b \<noteq> []" using match by (auto simp: matches_def)
    define w1 where "w1 = (w_set Torn (fs_create b [] ?f) (w_tick w))\<lparr>w_names := ss\<rparr>"
    have w1: "world_ok w1" "trace_ok ?Q w1" "w_fs w1 = fs_create b [] ?f"
      using assms(1,2) free_name_suffix [OF made(2)]
      by (auto simp: w1_def world_ok_def list_all_iff trace_ok_def w_set_def w_tick_def)
    obtain r2 w2 where w2: "op_remove b w1 = (r2, w2)" by fastforce
    note rm = op_remove_ok [OF w1(1) w2]
    have look2: "look (w_fs w2) k = look ?f k" for k
      using rm(2) w1(3) fresh by (simp add: look_create)
    have keeps2: "keeps ?f (w_fs w2)" using rm(3,4) w1(3) by (simp add: keeps_def)
    have inst2: "installing ps marker old new cs rs [] (w_fs w2)"
      by (rule installing_same [OF assms(7) look2 keeps2])
    then have t2: "trace_ok ?Q w2" using rm(5) w1(2) unc by blast
    have i2: "look (w_fs w2) p = Some (NFile i)" "fs_data (w_fs w2) i = old p" "look (w_fs w2) b = None"
      using look2 i keeps2 fresh by (auto simp: keeps_def)
    note grow = installing_backup [OF inst2 assms(3,4,5,6) _ match b i2(3)]
    show ?thesis
    proof (cases "w_fails CallLink w2")
      case False
      let ?g = "fs_put b (NFile i) (w_fs w2)"
      have link: "op_link p b w2 = (True, w_set Whole ?g w2)"
        using False i2 by (simp add: op_link_def)
      have "fs_next ?f \<le> fs_next (w_fs w2)" using keeps2 by (simp add: keeps_def)
      then have inst: "installing ps marker old new cs rs [(p, b)] ?g"
        using sub i i2 by (intro grow [where j = i]) (auto simp: look_laws keeps_def)
      moreover have "?Q ?g" using installing_uncommitted [OF inst] sub assms(5) by simp
      moreover have "r = Inr b" "w' = w_set Whole ?g w2"
        using assms(8) made w2 link i separated_D(2) [OF assms(3,5)]
        by (auto simp: backup_installed_binary_def op_lstat_def w1_def)
      ultimately show ?thesis using rm(1) t2 b by simp
    next
      case True
      have link: "op_link p b w2 = (False, w_tick w2)"
        using True by (simp add: op_link_def)
      define w3 where "w3 = w_tick w2"
      have w3: "world_ok w3" "trace_ok ?Q w3" "w_fs w3 = w_fs w2"
        using rm(1) t2 by (simp_all add: w3_def)
      obtain ok w4 where copy: "op_copy_file p b w3 = (ok, w4)" by fastforce
      have res: "fs_resolve link_limit (w_fs w3) p = Some i"
        using i2 w3(3) by (simp add: fs_resolve_regular)
      have code: "(r, w') = (if ok then (Inr b, w4) else (Inl (BackupCopyFailed p), snd (op_remove b w4)))"
        using assms(8) made w2 link copy i separated_D(2) [OF assms(3,5)]
        by (auto simp: backup_installed_binary_def op_lstat_def w1_def w3_def split: prod.splits)
      show ?thesis
      proof (cases ok)
        case True
        let ?g = "fs_write (fs_next (w_fs w2)) (fs_data (w_fs w2) i) (fs_create b [] (w_fs w2))"
        have ilt: "i < fs_next (w_fs w2)" using i(3) keeps2 by (simp add: keeps_def)
        have w4: "w_fs w4 = ?g" "world_ok w4" "trace_ok ?Q w4 \<longleftrightarrow> ?Q ?g"
          using copy res True w3 ilt i2
          by (auto simp: op_copy_file_def Let_def split: if_splits)
        have inst: "installing ps marker old new cs rs [(p, b)] ?g"
          using sub i2 ilt by (intro grow [where j = "fs_next (w_fs w2)"]) (auto simp: look_create keeps_def)
        moreover have "?Q ?g" using installing_uncommitted [OF inst] sub assms(5) by simp
        ultimately show ?thesis using code True w4 b by simp
      next
        case False
        obtain r5 w5 where w5: "op_remove b w4 = (r5, w5)" by fastforce
        have w4: "world_ok w4" "trace_ok ?Q w4" "w_fs w4 = w_fs w2 \<or> w_fs w4 = fs_create b [] (w_fs w2)"
          using copy res False w3 by (auto simp: op_copy_file_def Let_def split: if_splits)
        note rm5 = op_remove_ok [OF w4(1) w5]
        have "look (w_fs w5) k = look (w_fs w2) k" for k
          using rm5(2) w4(3) i2(3) by (auto simp: look_create)
        moreover have "keeps (w_fs w2) (w_fs w5)" using rm5(3,4) w4(3) by (auto simp: keeps_def)
        ultimately have inst: "installing ps marker old new cs rs [] (w_fs w5)"
          by (rule installing_same [OF inst2])
        then have "trace_ok ?Q w5" using rm5(5) w4(2) unc by blast
        then show ?thesis using code False w5 rm5(1) inst by simp
      qed
    qed
  qed
qed


lemma install_candidate_cases:
  assumes "world_ok w" "p \<noteq> []" "install_candidate c p w = (r, w')"
  obtains "r = Inr ()" "w_fs w' = fs_rename c p (w_fs w)" "world_ok w'"
      "\<And>Q. trace_ok Q w \<Longrightarrow> Q (w_fs w') \<Longrightarrow> trace_ok Q w'"
  | e where "r = Inl e" "w_fs w' = w_fs w" "world_ok w'" "\<And>Q. trace_ok Q w \<Longrightarrow> trace_ok Q w'"
proof -
  obtain ok w1 where w1: "op_rename c p w = (ok, w1)" by fastforce
  note rn = op_rename_ok [OF assms(1) w1]
  show ?thesis
  proof (cases ok)
    case True
    then have "r = Inr ()" "w' = w1" using assms(2,3) w1 by (auto simp: install_candidate_def)
    then show ?thesis using rn True by (intro that(1)) auto
  next
    case False
    then have "r = Inl (ReplaceFailed p)" "w' = w1" using assms(2,3) w1 by (auto simp: install_candidate_def)
    then show ?thesis using rn False by (intro that(2)) auto
  qed
qed

lemma installing_rolling:
  assumes "installing ps marker old new cs rs ms f" "fst ` set rs \<union> fst ` set ms \<subseteq> set ps"
  shows "rolling ps marker old rs f"
  using installing_uncommitted [OF assms] assms(1) by (auto simp: rolling_def installing_def)

lemma installing_drop_backup:
  assumes "installing ps marker old new cs rs [(p, b)] f" "separated ps marker"
    and "p \<in> set ps" "p \<notin> fst ` set rs" "fst ` set rs \<subseteq> set ps"
    and "\<And>k. look g k = (if k = b then None else look f k)" "fs_data g = fs_data f" "fs_next g = fs_next f"
    and "\<forall>c \<in> set cs. matches (candidate_prefix (cd_install c)) (cd_path c) \<and> cd_install c \<in> set ps"
  shows "installing ps marker old new cs rs [] g"
proof -
  note f = assms(1) [unfolded installing_def]
  have b: "backups f p = {b}" "slot f b (old p)" "slot f p (old p)" using f by auto
  then have match: "matches (backup_prefix p) b" by (auto simp: backups_eq)
  have slots: "slot g k v" if "slot f k v" "k \<noteq> b" for k v
    using that slot_same [OF assms(7), of k v] assms(6) by simp
  have nb: "q \<noteq> b" if "q \<in> set ps" for q
    using that match separated_D(4) [OF assms(2,3)] by auto
  have others: "look g k = look f k" if "q \<in> set ps" "q \<noteq> p" "watched q k" for q k
  proof -
    have "touched p b" using match by (simp add: touched_def)
    then have "k \<noteq> b" using separated_clear [OF assms(2,3) that(1)] that by blast
    then show ?thesis by (simp add: assms(6))
  qed
  have bks: "backups g q = backups f q" if "q \<in> set ps" "q \<noteq> p" for q
    using others [OF that] by (rule backups_frame)
  have "fs_wf g" using f assms(6,8) by (auto simp: fs_wf_def)
  moreover have "look g marker = None" using f assms(6) by simp
  moreover have "backups g q = {} \<and> slot g q (old q)" if q: "q \<in> set ps - fst ` set rs" for q
  proof (cases "q = p")
    case True
    have "look g k = None" if "matches (backup_prefix p) k" for k
      using b(1) that assms(6) [of k] by (cases "k = b") (auto simp: backups_eq)
    then have "backups g p = {}" by (auto simp: backups_eq)
    then show ?thesis using True slots b(3) nb [OF assms(3)] by simp
  next
    case False
    then have "backups f q = {} \<and> slot f q (old q)" using f q by auto
    then show ?thesis using False q bks slots nb by auto
  qed
  moreover have "d \<noteq> [] \<and> backups g q = {d} \<and> slot g d (old q) \<and> slot g q (new q)" if qd: "(q, d) \<in> set rs" for q d
  proof -
    have "q \<in> fst ` set rs" using qd by force
    then have q: "q \<in> set ps" "q \<noteq> p" using assms(4,5) by blast+
    have d: "d \<noteq> []" "backups f q = {d}" "slot f d (old q)" "slot f q (new q)" using qd f by auto
    then have "watched q d" using backups_watched [of d f q] by simp
    then have "slot g d (old q)" using d others [OF q] slot_same [OF assms(7)] by simp
    then show ?thesis using d bks [OF q] slots nb [OF q(1)] by simp
  qed
  moreover have "slot g (cd_path c) (new (cd_install c))" if "c \<in> set cs" for c
  proof -
    have "\<not> matches (backup_prefix p) (cd_path c)"
      using that assms(9) separated_D(6) [OF assms(2) _ assms(3)] by blast
    then have "cd_path c \<noteq> b" using match by auto
    then show ?thesis using that f slots by auto
  qed
  ultimately show ?thesis unfolding installing_def by auto
qed

lemma install_loop_ok:
  assumes "world_ok w" "trace_ok (uncommitted ps marker old) w" "separated ps marker" "staged ps cs rs"
    and "installing ps marker old new cs rs [] (w_fs w)"
    and "install_loop cs rs w = (r, w')"
  shows "trace_ok (uncommitted ps marker old) w' \<and>
    (case r of
       Inl _ \<Rightarrow> uncommitted ps marker old (w_fs w')
     | Inr rs' \<Rightarrow> world_ok w' \<and> installing ps marker old new [] rs' [] (w_fs w') \<and> staged ps [] rs' \<and>
         fst ` set rs' = fst ` set rs \<union> cd_install ` set cs)"
  using assms(1,2,4-6)
proof (induction cs arbitrary: rs w)
  case Nil
  then show ?case by auto
next
  case (Cons c cs)
  let ?p = "cd_install c" and ?Q = "uncommitted ps marker old"
  have p: "?p \<in> set ps" "?p \<notin> fst ` set rs" and sub: "fst ` set rs \<subseteq> set ps" and dist: "distinct (map fst rs)"
    using Cons.prems(3) by (auto simp: staged_def)
  have pne: "?p \<noteq> []" using separated_D(1) [OF assms(3) p(1)] by auto
  obtain r1 w1 where w1: "backup_installed_binary ?p w = (r1, w1)" by fastforce
  note bk = backup_step [OF Cons.prems(1,2) assms(3) Cons.prems(3) p Cons.prems(4) w1]
  show ?case
  proof (cases r1)
    case (Inl e)
    with bk have "rolling ps marker old rs (w_fs w1)"
      using installing_rolling [of ps marker old new "c # cs" rs "[]"] sub by simp
    moreover have "r = Inl e" "w' = restore_replaced rs w1" using Cons.prems(5) w1 Inl by auto
    ultimately show ?thesis
      using restore_uncommitted [of w1 ps marker old rs] bk assms(3) dist sub by simp
  next
    case (Inr b)
    with bk have b: "b \<noteq> []" "installing ps marker old new (c # cs) rs [(?p, b)] (w_fs w1)"
      "world_ok w1" "trace_ok ?Q w1" by auto
    obtain r2 w2 where w2: "install_candidate (cd_path c) ?p w1 = (r2, w2)" by fastforce
    from b(3) pne w2 show ?thesis
    proof (cases rule: install_candidate_cases)
      case 1
      have inst: "installing ps marker old new cs ((?p, b) # rs) [] (w_fs w2)"
        using installing_rename [OF b(2) assms(3) Cons.prems(3)] 1(2) by simp
      have "fst ` set ((?p, b) # rs) \<subseteq> set ps" using p sub by auto
      then have "?Q (w_fs w2)" using installing_uncommitted [OF inst] by simp
      then have "trace_ok ?Q w2" using 1(4) b(4) by blast
      moreover have "staged ps cs ((?p, b) # rs)"
        using Cons.prems(3) by (auto simp: staged_def)
      moreover have "install_loop cs ((?p, b) # rs) w2 = (r, w')"
        using Cons.prems(5) w1 w2 Inr 1(1) by simp
      ultimately show ?thesis
        using Cons.IH [OF 1(3) _ _ inst] by (auto split: sum.splits)
    next
      case (2 e)
      obtain r3 w3 where w3: "op_remove b w2 = (r3, w3)" by fastforce
      note rm = op_remove_ok [OF 2(3) w3]
      have cands: "\<forall>d \<in> set (c # cs). matches (candidate_prefix (cd_install d)) (cd_path d) \<and> cd_install d \<in> set ps"
        using Cons.prems(3) by (auto simp: staged_def)
      have inst: "installing ps marker old new (c # cs) rs [] (w_fs w3)"
        using installing_drop_backup [OF b(2) assms(3) p sub _ _ _ cands] rm(2-4) 2(2) by simp
      then have "rolling ps marker old rs (w_fs w3)" "trace_ok ?Q w3"
        using installing_rolling [OF inst] installing_uncommitted [OF inst] sub rm(5) 2(4) b(4) by auto
      moreover have "r = Inl e" "w' = restore_replaced rs w3"
        using Cons.prems(5) w1 w2 w3 Inr 2(1) b(1) by auto
      ultimately show ?thesis
        using restore_uncommitted [OF rm(1) _ assms(3) _ dist sub] by simp
    qed
  qed
qed

section \<open>Committing\<close>

lemma slot_keep: "look g p = look f p \<Longrightarrow> fs_data g = fs_data f \<Longrightarrow> slot g p v \<longleftrightarrow> slot f p v"
  by (simp add: slot_iff)

lemma remove_backups_ok:
  assumes "world_ok w" "trace_ok Q w" "separated ps marker"
    and "\<And>f. committed_to ps marker v f \<Longrightarrow> Q f"
    and "committed_to ps marker v (w_fs w)"
    and "\<forall>(p, b) \<in> set rs. p \<in> set ps \<and> b \<noteq> [] \<and> matches (backup_prefix p) b"
  shows "world_ok (remove_backups rs w) \<and> trace_ok Q (remove_backups rs w) \<and>
    committed_to ps marker v (w_fs (remove_backups rs w)) \<and>
    fs_data (w_fs (remove_backups rs w)) = fs_data (w_fs w) \<and>
    (\<forall>k. look (w_fs (remove_backups rs w)) k = (if k \<in> snd ` set rs then None else look (w_fs w) k))"
  using assms(1,2,5,6)
proof (induction rs arbitrary: w)
  case (Cons x rs)
  obtain p b where x: "x = (p, b)" by fastforce
  have p: "p \<in> set ps" "b \<noteq> []" "matches (backup_prefix p) b" using Cons.prems(4) x by auto
  obtain r w1 where w1: "op_remove b w = (r, w1)" by fastforce
  note rm = op_remove_ok [OF Cons.prems(1) w1]
  have ne: "marker \<noteq> b" "q \<in> set ps \<Longrightarrow> q \<noteq> b" for q
    using separated_D(3,4) [OF assms(3) p(1)] p(3) by (auto simp: touched_def)
  have "slot (w_fs w1) q (v q)" if "q \<in> set ps" for q
    using that Cons.prems(3) rm(2,3) ne(2) [OF that] slot_keep [of "w_fs w1" q "w_fs w"]
    by (simp add: committed_to_def)
  then have com: "committed_to ps marker v (w_fs w1)"
    using Cons.prems(3) rm(2) ne(1) by (simp add: committed_to_def)
  then have "trace_ok Q w1" using rm(5) Cons.prems(2) assms(4) by blast
  from Cons.IH [OF rm(1) this com] Cons.prems(4) show ?case
    using rm(2,3) w1 x p by auto
qed (auto)

definition settled :: "(string \<Rightarrow> string) \<Rightarrow> (string \<Rightarrow> string) \<Rightarrow> string set \<Rightarrow> string \<Rightarrow> string" where
  "settled old new ps p = (if p \<in> ps then new p else old p)"

lemma write_marker_ok:
  assumes "world_ok w" "look (w_fs w) marker = None"
  obtains "op_write_marker marker content w = (False, w_tick w)"
  | f where "op_write_marker marker content w = (True, w_set Whole f (w_set Whole (fs_create marker [] (w_fs w)) w))"
      "\<And>k. look f k = look (fs_create marker [] (w_fs w)) k" "keeps (w_fs w) f"
proof -
  let ?i = "fs_next (w_fs w)" and ?f1 = "fs_create marker [] (w_fs w)"
  have none: "fs_resolve link_limit (w_fs w) marker = None"
    using assms(2) by (simp add: link_limit_def eval_nat_numeral)
  have some: "fs_resolve link_limit ?f1 marker = Some ?i"
    by (rule fs_resolve_regular) (simp add: look_create)
  show ?thesis
  proof (cases "w_fails CallMarkerOpen w")
    case True
    then show ?thesis by (intro that(1)) (simp add: op_write_marker_def)
  next
    case False
    have "\<not> w_fails CallMarkerWrite (w_set Whole ?f1 w)"
      using assms(1) by (simp add: w_fails_def world_ok_def)
    then show ?thesis
      using False none some
      by (intro that(2) [of "fs_write ?i content ?f1"]) (simp_all add: op_write_marker_def Let_def keeps_def)
  qed
qed

lemma installing_committed:
  assumes "installing ps marker old new [] rs [] f" "separated ps marker" "fst ` set rs \<subseteq> set ps"
    and "\<And>k. look g k = look (fs_create marker [] f) k" "keeps f g"
  shows "committed_to ps marker (settled old new (fst ` set rs)) g"
proof -
  note inst = assms(1) [unfolded installing_def]
  have "slot f p (settled old new (fst ` set rs) p)" if p: "p \<in> set ps" for p
  proof (cases "p \<in> fst ` set rs")
    case True
    then obtain b where "(p, b) \<in> set rs" by force
    then show ?thesis using inst True by (auto simp: settled_def)
  next
    case False
    then show ?thesis using inst p by (auto simp: settled_def)
  qed
  moreover have "p \<noteq> marker" if "p \<in> set ps" for p
    using separated_D(3) [OF assms(2) that] by (auto simp: touched_def)
  ultimately have "slot g p (settled old new (fst ` set rs) p)" if "p \<in> set ps" for p
    using that inst assms(4) by (intro slot_frame [OF _ assms(5)]) (auto simp: look_create)
  then show ?thesis
    using assms(4) [of marker] by (simp add: committed_to_def look_create)
qed

lemma install_candidates_ok:
  assumes "world_ok w" "w_trace w = []" "separated ps marker" "staged ps cs []"
    and "installing ps marker old new cs [] [] (w_fs w)"
    and "install_candidates cs marker w = (r, w')"
  defines "v \<equiv> settled old new (cd_install ` set cs)"
  shows "trace_ok (\<lambda>f. uncommitted ps marker old f \<or> committed_to ps marker v f \<or> restored ps marker v f) w' \<and>
    (case r of Inl _ \<Rightarrow> uncommitted ps marker old (w_fs w') | Inr _ \<Rightarrow> restored ps marker v (w_fs w'))"
proof -
  let ?U = "uncommitted ps marker old"
  let ?Q = "\<lambda>f. ?U f \<or> committed_to ps marker v f \<or> restored ps marker v f"
  have "trace_ok ?U w" using assms(2) by (simp add: trace_ok_def)
  obtain r1 w1 where w1: "install_loop cs [] w = (r1, w1)" by fastforce
  note loop = install_loop_ok [OF assms(1) \<open>trace_ok ?U w\<close> assms(3,4,5) w1]
  have weaken: "trace_ok ?U x \<Longrightarrow> trace_ok ?Q x" for x by (erule trace_ok_mono) simp
  show ?thesis
  proof (cases r1)
    case (Inl e)
    then show ?thesis using loop assms(6) w1 weaken by (auto simp: install_candidates_def)
  next
    case (Inr rs)
    have inst: "installing ps marker old new [] rs [] (w_fs w1)" and ok: "world_ok w1" and
      st: "staged ps [] rs" and keys: "fst ` set rs = cd_install ` set cs" and tr: "trace_ok ?Q w1"
      using loop Inr weaken by auto
    have sub: "fst ` set rs \<subseteq> set ps" using st by (auto simp: staged_def)
    have none: "look (w_fs w1) marker = None" using inst by (simp add: installing_def)
    show ?thesis
    proof (cases "rs = []")
      case True
      then have "r = Inr ()" "w' = w1" using assms(6) w1 Inr by (auto simp: install_candidates_def)
      moreover have "restored ps marker v (w_fs w1)"
        using inst True keys by (auto simp: restored_def installing_def v_def settled_def)
      ultimately show ?thesis using tr by simp
    next
      case False
      from ok none show ?thesis
      proof (cases rule: write_marker_ok [where content = "''installed'' @ newline"])
        case 1
        have "trace_ok ?U (w_tick w1)" "rolling ps marker old rs (w_fs (w_tick w1))" "world_ok (w_tick w1)"
          using loop Inr installing_rolling [OF inst] sub ok by auto
        then have "trace_ok ?U (restore_replaced rs (w_tick w1)) \<and> ?U (w_fs (restore_replaced rs (w_tick w1)))"
          using restore_uncommitted [OF _ _ assms(3) _ _ sub] st by (simp add: staged_def)
        then show ?thesis
          using assms(6) w1 Inr False 1 weaken by (auto simp: install_candidates_def)
      next
        case (2 f)
        let ?f1 = "fs_create marker [] (w_fs w1)" and ?v = "settled old new (fst ` set rs)"
        define w2 where "w2 = w_set Whole f (w_set Whole ?f1 w1)"
        have com1: "committed_to ps marker v ?f1"
          unfolding v_def keys [symmetric] by (rule installing_committed [OF inst assms(3) sub]) (auto simp: keeps_def)
        have com2: "committed_to ps marker v f"
          unfolding v_def keys [symmetric] by (rule installing_committed [OF inst assms(3) sub 2(2,3)])
        have w2: "world_ok w2" "trace_ok ?Q w2" "w_fs w2 = f"
          using ok tr com1 com2 by (simp_all add: w2_def)
        have names: "\<forall>(p, b) \<in> set (rev rs). p \<in> set ps \<and> b \<noteq> [] \<and> matches (backup_prefix p) b"
        proof -
          have "p \<in> set ps \<and> b \<noteq> [] \<and> matches (backup_prefix p) b" if "(p, b) \<in> set rs" for p b
          proof -
            have "p \<in> set ps" using that sub by force
            moreover have "b \<noteq> []" "backups (w_fs w1) p = {b}" using that inst by (auto simp: installing_def)
            ultimately show ?thesis by (auto simp: backups_eq)
          qed
          then show ?thesis by auto
        qed
        define w3 where "w3 = remove_backups (rev rs) w2"
        have w3: "world_ok w3" "trace_ok ?Q w3" "committed_to ps marker v (w_fs w3)"
          "fs_data (w_fs w3) = fs_data f" "\<And>k. look (w_fs w3) k = (if k \<in> snd ` set rs then None else look f k)"
          using remove_backups_ok [OF w2(1,2) assms(3) _ _ names, of v] com2 w2(3) by (auto simp: w3_def)
        obtain r4 w4 where w4: "op_remove marker w3 = (r4, w4)" by fastforce
        note rm = op_remove_ok [OF w3(1) w4]
        have r4: "r4" using rm(6) w3(3) by (auto simp: committed_to_def)
        have "slot (w_fs w4) p (v p) \<and> backups (w_fs w4) p = {}" if p: "p \<in> set ps" for p
        proof
          have "p \<noteq> marker" using separated_D(3) [OF assms(3) p] by (auto simp: touched_def)
          then have "slot (w_fs w4) p (v p) = slot (w_fs w3) p (v p)"
            using rm(2,3) by (intro slot_keep) simp_all
          then show "slot (w_fs w4) p (v p)" using w3(3) p by (simp add: committed_to_def)
          have "look (w_fs w4) k = None" if m: "matches (backup_prefix p) k" for k
          proof (cases "k \<in> snd ` set rs \<or> k = marker")
            case True
            then show ?thesis using rm(2) w3(5) by auto
          next
            case False
            have "look (w_fs w4) k = look (w_fs w1) k"
              using False rm(2) w3(5) 2(2) by (simp add: look_create)
            moreover have "backups (w_fs w1) p = {} \<or> (\<exists>b. (p, b) \<in> set rs \<and> backups (w_fs w1) p = {b})"
            proof (cases "p \<in> fst ` set rs")
              case True
              then obtain b where "(p, b) \<in> set rs" by force
              then show ?thesis using inst by (auto simp: installing_def)
            next
              case False
              then show ?thesis using inst p by (auto simp: installing_def)
            qed
            then have "k \<notin> backups (w_fs w1) p" using False by force
            then have "look (w_fs w1) k = None"
              using m by (cases "look (w_fs w1) k") (simp_all add: backups_eq)
            ultimately show ?thesis by simp
          qed
          then show "backups (w_fs w4) p = {}" by (auto simp: backups_eq)
        qed
        then have fin: "restored ps marker v (w_fs w4)" using rm(2) by (simp add: restored_def)
        then have "trace_ok ?Q w4" using rm(5) w3(2) by blast
        moreover have "r = Inr ()" "w' = w4"
          using assms(6) w1 Inr False 2(1) w4 r4 by (auto simp: install_candidates_def w2_def w3_def)
        ultimately show ?thesis using fin by simp
      qed
    qed
  qed
qed


section \<open>Properties\<close>

text \<open>
  The state an update starts from: the last recovery left no backup and no marker, every install path
  and every candidate is a regular file, candidates carry the hidden names of their install paths.
\<close>

definition regular :: "fs \<Rightarrow> string \<Rightarrow> bool" where
  "regular f p \<longleftrightarrow> (case look f p of Some (NFile i) \<Rightarrow> True | _ \<Rightarrow> False)"

definition file_at :: "fs \<Rightarrow> string \<Rightarrow> string" where
  "file_at f p = (case look f p of Some (NFile i) \<Rightarrow> fs_data f i | _ \<Rightarrow> [])"

definition staged_content :: "candidate list \<Rightarrow> fs \<Rightarrow> string \<Rightarrow> string" where
  "staged_content cs f p =
     (case find (\<lambda>c. cd_install c = p) cs of None \<Rightarrow> file_at f p | Some c \<Rightarrow> file_at f (cd_path c))"

definition install_ready :: "install_option list \<Rightarrow> candidate list \<Rightarrow> fs \<Rightarrow> bool" where
  "install_ready opts cs f \<longleftrightarrow>
     opts \<noteq> [] \<and> separated (map io_install opts) (install_commit_marker_path (hd opts)) \<and>
     staged (map io_install opts) cs [] \<and>
     list_all (\<lambda>(k, n). case n of NFile i \<Rightarrow> i < fs_next f | NLink _ \<Rightarrow> True) (fs_entries f) \<and>
     look f (install_commit_marker_path (hd opts)) = None \<and>
     list_all (\<lambda>o1. regular f (io_install o1) \<and> fs_glob (backup_prefix (io_install o1)) f = []) opts \<and>
     list_all (\<lambda>c. regular f (cd_path c)) cs"

lemma regular_slot: "regular f p \<Longrightarrow> slot f p (file_at f p)"
  by (auto simp: regular_def file_at_def slot_iff split: option.splits node.splits)

lemma restored_file_at: "restored ps marker v f \<Longrightarrow> p \<in> set ps \<Longrightarrow> file_at f p = v p"
  by (auto simp: restored_def file_at_def slot_iff)

lemma install_ready_installing:
  assumes "install_ready opts cs f"
  shows "installing (map io_install opts) (install_commit_marker_path (hd opts)) (file_at f) (staged_content cs f)
    cs [] [] f"
proof -
  have "fs_wf f"
    using assms by (fastforce simp: install_ready_def fs_wf_def look_def list_all_iff dest!: map_of_SomeD)
  moreover have "slot f (cd_path c) (staged_content cs f (cd_install c))" if "c \<in> set cs" for c
  proof -
    have "distinct (map cd_install cs)" using assms by (simp add: install_ready_def staged_def)
    then have "find (\<lambda>d. cd_install d = cd_install c) cs = Some c"
      using that by (induction cs) auto
    then have "staged_content cs f (cd_install c) = file_at f (cd_path c)"
      by (simp add: staged_content_def)
    then show ?thesis using that assms regular_slot by (simp add: install_ready_def list_all_iff)
  qed
  ultimately show ?thesis
    using assms regular_slot by (auto simp: install_ready_def installing_def list_all_iff backups_def)
qed

lemma settled_staged:
  "settled (file_at f) (staged_content cs f) (cd_install ` set cs) p = staged_content cs f p"
proof (cases "p \<in> cd_install ` set cs")
  case False
  then have "find (\<lambda>c. cd_install c = p) cs = None" by (auto simp: find_None_iff)
  then show ?thesis using False by (simp add: settled_def staged_content_def)
qed (simp add: settled_def)

text \<open>
  C2. Crash atomicity: kill an install after any system call, with any calls failing except a remove
  or the write into the opened marker. From every state outside a torn backup, and from the state the
  install ends in, the next recovery succeeds and leaves either the whole old set of binaries or the
  whole new one, byte for byte, with no backup and no marker left. The set starts clean (\<open>install_ready\<close>).
\<close>

theorem install_crash_atomic:
  assumes "install_ready opts cs (w_fs w)" "world_ok w" "w_trace w = []"
    and "install_candidates cs (install_commit_marker_path (hd opts)) w = (r, w')"
    and "f = w_fs w' \<or> (Whole, f) \<in> set (w_trace w')"
  shows "\<exists>g. recovered opts f = (Inr (), g) \<and>
    look g (install_commit_marker_path (hd opts)) = None \<and>
    list_all (\<lambda>p. fs_glob (backup_prefix p) g = []) (map io_install opts) \<and>
    (list_all (\<lambda>p. file_at g p = file_at (w_fs w) p) (map io_install opts) \<or>
     list_all (\<lambda>p. file_at g p = staged_content cs (w_fs w) p) (map io_install opts))"
proof -
  let ?ps = "map io_install opts" and ?m = "install_commit_marker_path (hd opts)"
  let ?old = "file_at (w_fs w)" and ?new = "staged_content cs (w_fs w)"
  let ?v = "settled ?old ?new (cd_install ` set cs)"
  have ready: "opts \<noteq> []" "separated ?ps ?m" "staged ?ps cs []"
    using assms(1) by (simp_all add: install_ready_def)
  note ok = install_candidates_ok [OF assms(2,3) ready(2,3) install_ready_installing [OF assms(1)] assms(4)]
  have "uncommitted ?ps ?m ?old f \<or> committed_to ?ps ?m ?v f \<or> restored ?ps ?m ?v f"
    using assms(5) ok by (auto simp: trace_ok_def split: sum.splits)
  moreover have "restored ?ps ?m ?v f \<Longrightarrow> uncommitted ?ps ?m ?v f"
    by (simp add: restored_def uncommitted_def pre_ok_def)
  ultimately obtain u g where g: "recovered opts f = (Inr (), g)" "restored ?ps ?m u g" "u = ?old \<or> u = ?v"
    using recovered_uncommitted [OF ready(1,2)] recovered_committed [OF ready(1,2)] by metis
  have "list_all (\<lambda>p. file_at g p = u p) ?ps" "list_all (\<lambda>p. fs_glob (backup_prefix p) g = []) ?ps"
    using restored_file_at [OF g(2)] g(2) by (auto simp: list_all_iff restored_def backups_def)
  moreover have "u = ?v \<Longrightarrow> list_all (\<lambda>p. file_at g p = ?new p) ?ps"
    using restored_file_at [OF g(2)] settled_staged by (auto simp: list_all_iff)
  ultimately show ?thesis using g by (auto simp: restored_def)
qed

text \<open>
  C18. What an install that runs to its end returns: on success every path holds its staged content,
  no backup and no marker are left; on an error the next recovery gives back exactly the old set. Any call may fail
  except a remove and the write into the opened marker (\<open>world_ok\<close>), and the set starts clean (\<open>install_ready\<close>).
\<close>

theorem install_outcome:
  assumes "install_ready opts cs (w_fs w)" "world_ok w" "w_trace w = []"
    and "install_candidates cs (install_commit_marker_path (hd opts)) w = (r, w')"
  shows "case r of
      Inr _ \<Rightarrow> list_all (\<lambda>p. file_at (w_fs w') p = staged_content cs (w_fs w) p \<and>
          fs_glob (backup_prefix p) (w_fs w') = []) (map io_install opts) \<and>
        look (w_fs w') (install_commit_marker_path (hd opts)) = None
    | Inl _ \<Rightarrow> \<exists>g. recovered opts (w_fs w') = (Inr (), g) \<and>
        list_all (\<lambda>p. file_at g p = file_at (w_fs w) p) (map io_install opts)"
proof -
  let ?ps = "map io_install opts" and ?m = "install_commit_marker_path (hd opts)"
  have ready: "opts \<noteq> []" "separated ?ps ?m" "staged ?ps cs []"
    using assms(1) by (simp_all add: install_ready_def)
  note ok = install_candidates_ok [OF assms(2,3) ready(2,3) install_ready_installing [OF assms(1)] assms(4)]
  show ?thesis
  proof (cases r)
    case (Inl e)
    then obtain g where g: "recovered opts (w_fs w') = (Inr (), g)" "restored ?ps ?m (file_at (w_fs w)) g"
      using ok recovered_uncommitted [OF ready(1,2)] by auto
    then show ?thesis using Inl restored_file_at [OF g(2)] by (auto simp: list_all_iff)
  next
    case (Inr u)
    then have done_fs: "restored ?ps ?m (settled (file_at (w_fs w)) (staged_content cs (w_fs w)) (cd_install ` set cs)) (w_fs w')"
      using ok by auto
    then show ?thesis
      using Inr restored_file_at [OF done_fs] settled_staged
      by (auto simp: list_all_iff restored_def backups_def)
  qed
qed

text \<open>Two binaries with their staged candidates, as the examples below use them.\<close>

definition sample_fs :: fs where
  "sample_fs =
     \<lparr>fs_entries = [(''/b/t'', NFile 0), (''/b/u'', NFile 1), (''/b/.t-candidate-1'', NFile 2),
        (''/b/.u-candidate-2'', NFile 3)],
      fs_data = (\<lambda>i. if i = 0 then ''t1'' else if i = 1 then ''u1'' else if i = 2 then ''t2''
        else if i = 3 then ''u2'' else []),
      fs_next = 4\<rparr>"

definition sample_opts :: "install_option list" where
  "sample_opts = [\<lparr>io_install = ''/b/t'', io_state = ''/s/state''\<rparr>, \<lparr>io_install = ''/b/u'', io_state = ''/s/state''\<rparr>]"

definition sample_candidates :: "candidate list" where
  "sample_candidates =
     [\<lparr>cd_path = ''/b/.t-candidate-1'', cd_install = ''/b/t''\<rparr>, \<lparr>cd_path = ''/b/.u-candidate-2'', cd_install = ''/b/u''\<rparr>]"

definition sample_run :: "(sys_call \<Rightarrow> nat \<Rightarrow> bool) \<Rightarrow> world" where
  "sample_run fault = \<lparr>w_fs = sample_fs, w_fault = fault, w_clock = 0, w_names = [''7'', ''8''], w_trace = []\<rparr>"

lemma sample_ready: "install_ready sample_opts sample_candidates (w_fs (sample_run fault))"
proof -
  have "install_ready sample_opts sample_candidates sample_fs" by code_simp
  then show ?thesis by (simp add: sample_run_def)
qed

lemma sample_marker: "install_commit_marker_path (hd sample_opts) = ''/s/update-install-committed''"
  by code_simp

lemma sample_world_ok: "world_ok (sample_run (\<lambda>c n. c = CallRename \<and> n = k))"
  by (simp add: world_ok_def sample_run_def)

theorem install_crash_atomic_witness:
  "\<exists>f. (Whole, f) \<in> set (w_trace (snd (install_candidates sample_candidates ''/s/update-install-committed''
        (sample_run (\<lambda>c n. c = CallRename \<and> n = 100))))) \<and> fst (recovered sample_opts f) = Inr ()"
proof -
  let ?w = "sample_run (\<lambda>c n. c = CallRename \<and> n = 100)"
  obtain r w' where run: "install_candidates sample_candidates (install_commit_marker_path (hd sample_opts)) ?w = (r, w')"
    by fastforce
  have "\<exists>x \<in> set (w_trace w'). fst x = Whole"
  proof -
    have "list_ex (\<lambda>x. fst x = Whole) (w_trace (snd (install_candidates sample_candidates ''/s/update-install-committed'' ?w)))"
      by code_simp
    then show ?thesis using run by (simp add: list_ex_iff sample_marker)
  qed
  then obtain f where f: "(Whole, f) \<in> set (w_trace w')" by force
  have "\<exists>g. recovered sample_opts f = (Inr (), g)"
    using install_crash_atomic [OF sample_ready sample_world_ok _ run] f by (auto simp: sample_run_def)
  then show ?thesis using f run by (auto simp: sample_marker)
qed

theorem install_outcome_witness:
  "\<exists>w' g. install_candidates sample_candidates ''/s/update-install-committed'' (sample_run (\<lambda>c n. c = CallRename \<and> n = 9))
       = (Inl (ReplaceFailed ''/b/u''), w') \<and>
     recovered sample_opts (w_fs w') = (Inr (), g) \<and> file_at g ''/b/t'' = ''t1'' \<and> file_at g ''/b/u'' = ''u1''"
proof -
  let ?w = "sample_run (\<lambda>c n. c = CallRename \<and> n = 9)"
  obtain r w' where run: "install_candidates sample_candidates (install_commit_marker_path (hd sample_opts)) ?w = (r, w')"
    by fastforce
  have "fst (install_candidates sample_candidates ''/s/update-install-committed'' ?w) = Inl (ReplaceFailed ''/b/u'')"
    by code_simp
  then have r: "r = Inl (ReplaceFailed ''/b/u'')" using run by (simp add: sample_marker)
  have "\<exists>g. recovered sample_opts (w_fs w') = (Inr (), g) \<and>
      list_all (\<lambda>p. file_at g p = file_at sample_fs p) (map io_install sample_opts)"
    using install_outcome [OF sample_ready sample_world_ok _ run] r by (simp add: sample_run_def)
  moreover have "file_at sample_fs ''/b/t'' = ''t1''" "file_at sample_fs ''/b/u'' = ''u1''"
    "map io_install sample_opts = [''/b/t'', ''/b/u'']"
    by code_simp+
  moreover have "install_candidates sample_candidates ''/s/update-install-committed'' ?w
      = (Inl (ReplaceFailed ''/b/u''), w')"
    using run r by (simp add: sample_marker)
  ultimately show ?thesis by auto
qed

section \<open>Where the protocol does not hold\<close>

text \<open>
  The hypotheses of the two theorems are needed. Each run below violates one of them, and recovery
  then loses a binary or mixes the two sets. The mark of a mix is one path with its old and one with
  its new content.
\<close>

definition after_recovery :: "fs \<Rightarrow> string \<times> string" where
  "after_recovery f = (let (r, g) = recovered sample_opts f in (file_at g ''/b/t'', file_at g ''/b/u''))"

definition run_sample :: "(sys_call \<Rightarrow> nat \<Rightarrow> bool) \<Rightarrow> (install_error, unit) result \<times> world" where
  "run_sample fault = install_candidates sample_candidates ''/s/update-install-committed'' (sample_run fault)"

text \<open>
  A kill between \<open>os.CreateTemp\<close> and \<open>os.Remove\<close> of a backup name: the empty file is taken for a
  backup and renamed over the intact binary.
\<close>

lemma torn_reservation_replaces_binary:
  "(let (ph, f) = hd (w_trace (snd (run_sample (\<lambda>_ _. False)))) in
    ph = Torn \<and> file_at f ''/b/t'' = ''t1'' \<and> after_recovery f = ([], ''u1''))"
  by code_simp

text \<open>A kill while \<open>copyFile\<close> writes the backup, after the file system refused the hard link.\<close>

lemma torn_copy_replaces_binary:
  "(let (ph, f) = w_trace (snd (run_sample (\<lambda>c _. c = CallLink))) ! 2 in
    ph = Torn \<and> file_at f ''/b/t'' = ''t1'' \<and> after_recovery f = ([], ''u1''))"
  by code_simp

text \<open>
  A backup whose removal fails after the commit: the error is ignored, the marker goes, the install
  reports success, and the next run rolls that one binary back.
\<close>

lemma ignored_backup_removal_mixes:
  "(let (r, w) = run_sample (\<lambda>c n. c = CallRemove \<and> n = 12) in
    r = Inr () \<and> file_at (w_fs w) ''/b/t'' = ''t2'' \<and> file_at (w_fs w) ''/b/u'' = ''u2'' \<and>
    after_recovery (w_fs w) = (''t1'', ''u2''))"
  by code_simp

text \<open>
  A marker that was created but could not be written: the set is rolled back with the marker in
  place, and a kill during the rollback mixes the sets.
\<close>

lemma marker_write_failure_mixes:
  "(let (r, w) = run_sample (\<lambda>c n. c = CallMarkerWrite) in
    r = Inl (MarkerWriteFailed ''/s/update-install-committed'') \<and>
    list_ex (\<lambda>(ph, f). ph = Whole \<and> after_recovery f = (''t2'', ''u1'')) (w_trace w))"
  by code_simp

text \<open>
  A binary that was not installed before has no backup: a kill after its rename and before the marker
  leaves the new file, while the rest of the set is rolled back.
\<close>

lemma first_install_is_not_rolled_back:
  "(let w = sample_run (\<lambda>_ _. False);
        fresh = w\<lparr>w_fs := fs_del ''/b/t'' (w_fs w)\<rparr>;
        tr = w_trace (snd (install_candidates sample_candidates ''/s/update-install-committed'' fresh))
    in list_ex (\<lambda>(ph, f). ph = Whole \<and> after_recovery f = (''t2'', ''u1'')) tr)"
  by code_simp

end
