(* ===== verification/Release.thy ===== *)
theory Release
  imports Download InstallTxn
begin

text \<open>
  Release discovery and verification of the self updater (\<open>selfupdate/release.go\<close>, \<open>download.go\<close>,
  \<open>attestation.go\<close>): the release a tag names, the assets in it, their checksums and their build
  provenance, and the order of versions. XML decoding, SHA-256, the sigstore verifier and the
  semantic-version package are functions of the platform, about which nothing is assumed here.
\<close>

section \<open>The platform\<close>

datatype signer = AnyGoMakefileWorkflow | ExactSigner string

record identity =
  id_signer :: signer
  id_issuer :: string
  id_runner :: string
  id_source :: string

record certificate =
  ct_san :: string
  ct_issuer :: string
  ct_build_signer :: string
  ct_runner :: string
  ct_source_uri :: string
  ct_source_digest :: string
  ct_source_ref :: string

text \<open>A subject is its name and its \<open>sha256\<close> digest, empty when the statement gives none.\<close>

record provenance =
  pv_predicate :: string
  pv_subjects :: "(string \<times> string) list"

record verification =
  vr_statement :: "provenance option"
  vr_certificate :: "certificate option"

record platform =
  pf_env :: environment
  pf_goos :: string
  pf_goarch :: string
  pf_sha256 :: "string \<Rightarrow> string"
  pf_feed :: "string \<Rightarrow> string list option"
  pf_verify :: "string \<Rightarrow> string \<Rightarrow> identity \<Rightarrow> verification option"
  pf_semver_valid :: "string \<Rightarrow> bool"
  pf_semver_compare :: "string \<Rightarrow> string \<Rightarrow> int"

section \<open>Releases\<close>

record release_asset =
  as_name :: string
  as_url :: string

record release =
  rl_url :: string
  rl_tag :: string
  rl_assets :: "release_asset list"

record update_options = install_option +
  uo_config :: config
  uo_cache :: string
  uo_dry_run :: bool
  uo_required :: "string list"

datatype update_error =
    ConfigInvalid config_error
  | MetadataFailed string
  | FeedUndecodable
  | FeedEmpty string
  | FeedEntryWithoutPath string
  | FeedEntryWithoutTag string
  | LatestWithoutRedirect
  | NoStableRelease string
  | AssetNotFound string
  | MissingAssets "string list"
  | NoBinaryAssets string
  | CacheDirFailed string
  | DownloadFailed download_error
  | ChecksumUnavailable string
  | ChecksumsUnreadable string
  | ChecksumEntryMissing string
  | HashFailed string
  | ChecksumMismatch string
  | BundleUnreadable string
  | BundleRejected
  | StatementMissing
  | PredicateMismatch string
  | SubjectMissing string
  | CertificateMissing
  | SignerMismatch string
  | IssuerMismatch string
  | BuildSignerMismatch string
  | RunnerMismatch string
  | SourceMismatch string
  | CommitMismatch string
  | RefMismatch string

definition checksums_asset_name :: string where "checksums_asset_name = ''checksums.txt''"
definition release_feed_id_marker :: string where "release_feed_id_marker = '':Repository/''"
definition release_tag_path_marker :: string where "release_tag_path_marker = ''/releases/tag/''"
definition max_release_metadata_size :: int where "max_release_metadata_size = 16777216"

definition fetch_release_metadata :: "string \<Rightarrow> net_world \<Rightarrow> (update_error, string) result \<times> net_world" where
  "fetch_release_metadata url w =
     (case net_request url w of
        (Answered a, w) \<Rightarrow>
          if ha_status a \<noteq> 200 then (Inl (MetadataFailed url), w)
          else if ha_broken a \<and> int (length (ha_body a)) < max_release_metadata_size then (Inl (MetadataFailed url), w)
          else (Inr (limit_bytes max_release_metadata_size (ha_body a)), w)
      | (_, w) \<Rightarrow> (Inl (MetadataFailed url), w))"

text \<open>Older releases prefix checksum file names with \<open>./\<close>.\<close>

definition checksum_entry_name :: "string \<Rightarrow> string" where
  "checksum_entry_name entry = trim_prefix entry ''./''"

text \<open>The digest and the name on one line of a checksum file.\<close>

definition checksum_line :: "string \<Rightarrow> (string \<times> string) option" where
  "checksum_line l =
     (case str_fields l of [digest, name] \<Rightarrow> Some (digest, checksum_entry_name name) | _ \<Rightarrow> None)"

definition checksum_rows :: "string \<Rightarrow> (string \<times> string) list" where
  "checksum_rows body = List.map_filter checksum_line (split_on (CHR 0x0A) body)"

definition fetch_release_by_tag :: "platform \<Rightarrow> update_options \<Rightarrow> string \<Rightarrow> net_world \<Rightarrow>
    (update_error, release) result \<times> net_world" where
  "fetch_release_by_tag pf opt tag w =
     (let cfg = uo_config opt; url = release_asset_url (pf_env pf) cfg tag in
      case fetch_release_metadata (url checksums_asset_name) w of
        (Inl e, w) \<Rightarrow> (Inl e, w)
      | (Inr body, w) \<Rightarrow>
          (Inr \<lparr>rl_url = release_web_base_url (pf_env pf) cfg @ ''/'' @ cfg_repo cfg @
                  release_tag_path_marker @ path_escape tag,
                rl_tag = tag,
                rl_assets = \<lparr>as_name = checksums_asset_name, as_url = url checksums_asset_name\<rparr> #
                  map (\<lambda>(_, name). \<lparr>as_name = name, as_url = url name\<rparr>) (checksum_rows body)\<rparr>, w))"

definition fetch_newest_feed_tag :: "platform \<Rightarrow> update_options \<Rightarrow> net_world \<Rightarrow>
    (update_error, string) result \<times> net_world" where
  "fetch_newest_feed_tag pf opt w =
     (let cfg = uo_config opt in
      case fetch_release_metadata (release_web_base_url (pf_env pf) cfg @ ''/'' @ cfg_repo cfg @ ''/releases.atom'') w of
        (Inl e, w) \<Rightarrow> (Inl e, w)
      | (Inr body, w) \<Rightarrow>
          (case pf_feed pf body of
             None \<Rightarrow> (Inl FeedUndecodable, w)
           | Some [] \<Rightarrow> (Inl (FeedEmpty (cfg_repo cfg)), w)
           | Some (entry # _) \<Rightarrow>
               (case str_cut entry release_feed_id_marker of
                  None \<Rightarrow> (Inl (FeedEntryWithoutPath entry), w)
                | Some (_, p) \<Rightarrow>
                    (case str_cut p ''/'' of
                       None \<Rightarrow> (Inl (FeedEntryWithoutTag entry), w)
                     | Some (_, tag) \<Rightarrow>
                         if tag = [] then (Inl (FeedEntryWithoutTag entry), w) else (Inr tag, w)))))"

definition fetch_latest_stable_tag :: "platform \<Rightarrow> update_options \<Rightarrow> net_world \<Rightarrow>
    (update_error, string) result \<times> net_world" where
  "fetch_latest_stable_tag pf opt w =
     (let cfg = uo_config opt;
          url = release_web_base_url (pf_env pf) cfg @ ''/'' @ cfg_repo cfg @ ''/releases/latest''
      in case net_request url w of
           (Answered a, w) \<Rightarrow>
             (case ha_location a of
                None \<Rightarrow> (Inl LatestWithoutRedirect, w)
              | Some location \<Rightarrow>
                  (case str_cut location release_tag_path_marker of
                     None \<Rightarrow> (Inl (NoStableRelease (cfg_repo cfg)), w)
                   | Some (_, tag) \<Rightarrow>
                       if tag = [] then (Inl (NoStableRelease (cfg_repo cfg)), w) else (Inr tag, w)))
         | (_, w) \<Rightarrow> (Inl (MetadataFailed url), w))"

definition fetch_latest_release :: "platform \<Rightarrow> update_options \<Rightarrow> net_world \<Rightarrow>
    (update_error, release) result \<times> net_world" where
  "fetch_latest_release pf opt w =
     (case (if allow_prerelease (uo_config opt) then fetch_newest_feed_tag else fetch_latest_stable_tag) pf opt w of
        (Inl e, w) \<Rightarrow> (Inl e, w)
      | (Inr tag, w) \<Rightarrow> fetch_release_by_tag pf opt tag w)"

section \<open>Assets\<close>

definition select_archive_asset :: "platform \<Rightarrow> release_asset list \<Rightarrow> string \<Rightarrow> (update_error, release_asset) result" where
  "select_archive_asset pf assets binary =
     (let name = binary @ ''_'' @ pf_goos pf @ ''_'' @ pf_goarch pf @ ''.tar.gz'' in
      case find (\<lambda>a. as_name a = name \<and> as_url a \<noteq> []) assets of
        None \<Rightarrow> Inl (AssetNotFound name)
      | Some a \<Rightarrow> Inr a)"

definition find_asset :: "release_asset list \<Rightarrow> string \<Rightarrow> release_asset option" where
  "find_asset assets name = find (\<lambda>a. as_name a = name \<and> as_url a \<noteq> []) assets"

definition release_verification_assets :: "release_asset list \<Rightarrow> release_asset list" where
  "release_verification_assets assets = filter (\<lambda>a. suffix ''.tar.gz'' (as_name a)) assets"

definition missing_required_assets :: "release_asset list \<Rightarrow> string list \<Rightarrow> string list" where
  "missing_required_assets assets required = filter (\<lambda>n. n \<notin> as_name ` set assets) required"

definition release_has_named_binary_assets :: "release_asset list \<Rightarrow> string \<Rightarrow> bool" where
  "release_has_named_binary_assets assets binary \<longleftrightarrow>
     list_ex (\<lambda>a. prefix (binary @ ''_'') (as_name a) \<and> suffix ''.tar.gz'' (as_name a)) assets"

section \<open>Checksums\<close>

definition hex_lower :: "nat \<Rightarrow> char" where
  "hex_lower n = (if n < 10 then char_of (n + 48) else char_of (n + 87))"

definition hex_encode :: "string \<Rightarrow> string" where
  "hex_encode s = concat (map (\<lambda>c. [hex_lower (of_char c div 16), hex_lower (of_char c mod 16)]) s)"

definition checksums_cache_key :: "platform \<Rightarrow> string \<Rightarrow> string \<Rightarrow> string" where
  "checksums_cache_key pf repo tag = hex_encode (take 8 (pf_sha256 pf (repo @ ''@'' @ tag)))"

definition checksum_entry :: "string \<Rightarrow> string \<Rightarrow> string option" where
  "checksum_entry body name = map_option fst (find (\<lambda>(_, n). n = name) (checksum_rows body))"

definition checksum_from_file :: "string \<Rightarrow> string \<Rightarrow> net_world \<Rightarrow> (update_error, string) result \<times> net_world" where
  "checksum_from_file path name w =
     (case (if net_fails ReadFile w then None else nw_files w path) of
        None \<Rightarrow> (Inl (ChecksumsUnreadable path), net_tick w)
      | Some body \<Rightarrow>
          (case checksum_entry body name of
             None \<Rightarrow> (Inl (ChecksumEntryMissing name), net_tick w)
           | Some digest \<Rightarrow> (Inr digest, net_tick w)))"

definition sha256_file :: "platform \<Rightarrow> string \<Rightarrow> net_world \<Rightarrow> (update_error, string) result \<times> net_world" where
  "sha256_file pf path w =
     (case (if net_fails HashFile w then None else nw_files w path) of
        None \<Rightarrow> (Inl (HashFailed path), net_tick w)
      | Some body \<Rightarrow> (Inr (hex_encode (pf_sha256 pf body)), net_tick w))"

text \<open>
  \<open>strings.EqualFold\<close> against a digest in lower-case hex digits: no letter outside ASCII folds to one
  of them.
\<close>

definition lower_char :: "char \<Rightarrow> char" where
  "lower_char c =
     (if 65 \<le> (of_char c :: nat) \<and> (of_char c :: nat) \<le> 90 then char_of ((of_char c :: nat) + 32) else c)"

definition equal_fold_hex :: "string \<Rightarrow> string \<Rightarrow> bool" where
  "equal_fold_hex s t \<longleftrightarrow> map lower_char s = map lower_char t"

definition download_release_asset :: "update_options \<Rightarrow> release_asset \<Rightarrow> string \<Rightarrow> net_world \<Rightarrow>
    (update_error, unit) result \<times> net_world" where
  "download_release_asset opt asset path w =
     (case download_file (as_url asset) path (cfg_max_download (uo_config opt)) w of
        (Inl e, w) \<Rightarrow> (Inl (DownloadFailed e), w)
      | (Inr _, w) \<Rightarrow> (Inr (), w))"

definition checksums_path :: "platform \<Rightarrow> update_options \<Rightarrow> release \<Rightarrow> string" where
  "checksums_path pf opt rel =
     path_join [uo_cache opt, ''checksums-'' @ checksums_cache_key pf (cfg_repo (uo_config opt)) (rl_tag rel) @ ''.txt'']"

definition verify_checksum :: "platform \<Rightarrow> update_options \<Rightarrow> release \<Rightarrow> release_asset \<Rightarrow> string \<Rightarrow> net_world \<Rightarrow>
    (update_error, unit) result \<times> net_world" where
  "verify_checksum pf opt rel asset archive w =
     (case find_asset (rl_assets rel) checksums_asset_name of
        None \<Rightarrow> (Inl (ChecksumUnavailable (as_name asset)), w)
      | Some sums \<Rightarrow>
          (let path = checksums_path pf opt rel in
           case (if nw_files w path = None then download_release_asset opt sums path w else (Inr (), w)) of
             (Inl e, w) \<Rightarrow> (Inl e, w)
           | (Inr _, w) \<Rightarrow>
               (case checksum_from_file path (as_name asset) w of
                  (Inl e, w) \<Rightarrow> (Inl e, w)
                | (Inr want, w) \<Rightarrow>
                    (case sha256_file pf archive w of
                       (Inl e, w) \<Rightarrow> (Inl e, w)
                     | (Inr got, w) \<Rightarrow>
                         if equal_fold_hex want got then (Inr (), w)
                         else (Inl (ChecksumMismatch (as_name asset)), w)))))"

section \<open>Build provenance\<close>

definition github_issuer :: string where
  "github_issuer = ''https://token.actions.githubusercontent.com''"

definition provenance_predicate :: string where
  "provenance_predicate = ''https://slsa.dev/provenance/v1''"

definition github_hosted :: string where "github_hosted = ''github-hosted''"

definition max_provenance_bundle :: int where "max_provenance_bundle = 16777216"

text \<open>
  \<open>goMakefileWorkflowPattern\<close>: a workflow file of go-makefile on main, its name of letters, digits,
  underscores, dots and dashes.
\<close>

definition workflow_prefix :: string where
  "workflow_prefix = ''https://github.com/agoodkind/go-makefile/.github/workflows/''"

definition workflow_suffix :: string where "workflow_suffix = ''@refs/heads/main''"

definition workflow_char :: "char \<Rightarrow> bool" where
  "workflow_char c \<longleftrightarrow> is_alnum c \<or> c \<in> set ''_.-''"

definition workflow_file :: "string \<Rightarrow> bool" where
  "workflow_file s \<longleftrightarrow>
     list_ex (\<lambda>ext. suffix ext s \<and> length ext < length s \<and>
       list_all workflow_char (take (length s - length ext) s)) [''.yml'', ''.yaml'']"

definition go_makefile_workflow :: "string \<Rightarrow> bool" where
  "go_makefile_workflow s \<longleftrightarrow>
     prefix workflow_prefix s \<and> suffix workflow_suffix s \<and>
     length workflow_prefix + length workflow_suffix \<le> length s \<and>
     workflow_file (take (length s - length workflow_prefix - length workflow_suffix) (drop (length workflow_prefix) s))"

definition signer_matches :: "signer \<Rightarrow> string \<Rightarrow> bool" where
  "signer_matches g s = (case g of AnyGoMakefileWorkflow \<Rightarrow> go_makefile_workflow s | ExactSigner u \<Rightarrow> s = u)"

definition signer_workflow_pattern :: "config \<Rightarrow> signer" where
  "signer_workflow_pattern cfg =
     (if cfg_signer_uri cfg = [] then AnyGoMakefileWorkflow else ExactSigner (cfg_signer_uri cfg))"

definition github_repository_uri :: "string \<Rightarrow> string" where
  "github_repository_uri repo = ''https://github.com/'' @ repo"

definition statement_has_subject :: "(string \<times> string) list \<Rightarrow> string \<Rightarrow> string \<Rightarrow> bool" where
  "statement_has_subject subjects name digest \<longleftrightarrow> list_ex (\<lambda>(n, d). n = name \<and> d = digest) subjects"

definition validate_certificate :: "certificate \<Rightarrow> string \<Rightarrow> signer \<Rightarrow> (update_error, unit) result" where
  "validate_certificate c repo g =
     (if \<not> signer_matches g (ct_san c) then Inl (SignerMismatch (ct_san c))
      else if ct_issuer c \<noteq> github_issuer then Inl (IssuerMismatch (ct_issuer c))
      else if ct_build_signer c \<noteq> ct_san c then Inl (BuildSignerMismatch (ct_build_signer c))
      else if ct_runner c \<noteq> github_hosted then Inl (RunnerMismatch (ct_runner c))
      else if ct_source_uri c \<noteq> github_repository_uri repo then Inl (SourceMismatch (ct_source_uri c))
      else Inr ())"

definition validate_build_provenance :: "verification \<Rightarrow> string \<Rightarrow> string \<Rightarrow> string \<Rightarrow> signer \<Rightarrow>
    (update_error, certificate) result" where
  "validate_build_provenance v repo name digest g =
     (case vr_statement v of
        None \<Rightarrow> Inl StatementMissing
      | Some s \<Rightarrow>
          if pv_predicate s \<noteq> provenance_predicate then Inl (PredicateMismatch (pv_predicate s))
          else if \<not> statement_has_subject (pv_subjects s) name digest then Inl (SubjectMissing name)
          else (case vr_certificate v of
                  None \<Rightarrow> Inl CertificateMissing
                | Some c \<Rightarrow> result_bind (validate_certificate c repo g) (\<lambda>_. Inr c)))"

definition min_short_commit_length :: nat where "min_short_commit_length = 7"

definition lower_hex :: "char \<Rightarrow> bool" where
  "lower_hex c \<longleftrightarrow> is_digit c \<or> (97 \<le> (of_char c :: nat) \<and> (of_char c :: nat) \<le> 102)"

text \<open>The commit a rolling tag ends in: seven or more lower-case hex digits after the last dash.\<close>

definition tag_short_commit :: "string \<Rightarrow> string option" where
  "tag_short_commit tag =
     (if CHR ''-'' \<notin> set tag then None
      else (let s = rev (takeWhile (\<lambda>c. c \<noteq> CHR ''-'') (rev tag))
            in if length s < min_short_commit_length \<or> \<not> list_all lower_hex s then None else Some s))"

definition validate_release_tag_binding :: "certificate \<Rightarrow> string \<Rightarrow> (update_error, unit) result" where
  "validate_release_tag_binding c tag =
     (case tag_short_commit tag of
        Some short \<Rightarrow> if prefix short (ct_source_digest c) then Inr () else Inl (CommitMismatch (ct_source_digest c))
      | None \<Rightarrow> if ct_source_ref c = ''refs/tags/'' @ tag then Inr () else Inl (RefMismatch (ct_source_ref c)))"

definition verify_build_provenance_bundle :: "platform \<Rightarrow> string \<Rightarrow> update_options \<Rightarrow> string \<Rightarrow> string \<Rightarrow> string \<Rightarrow>
    (update_error, unit) result" where
  "verify_build_provenance_bundle pf bundle opt tag name digest =
     (let repo = cfg_repo (uo_config opt); g = signer_workflow_pattern (uo_config opt)
      in case pf_verify pf bundle digest
             \<lparr>id_signer = g, id_issuer = github_issuer, id_runner = github_hosted, id_source = github_repository_uri repo\<rparr> of
           None \<Rightarrow> Inl BundleRejected
         | Some v \<Rightarrow>
             result_bind (validate_build_provenance v repo name digest g)
               (\<lambda>c. validate_release_tag_binding c tag))"

definition download_provenance_bundle :: "platform \<Rightarrow> update_options \<Rightarrow> release \<Rightarrow> release_asset \<Rightarrow> string \<Rightarrow> net_world \<Rightarrow>
    (update_error, string) result \<times> net_world" where
  "download_provenance_bundle pf opt rel asset archive w =
     (let name = as_name asset @ ''.sigstore.json''; path = archive @ ''.sigstore.json'';
          url = release_asset_url (pf_env pf) (uo_config opt) (rl_tag rel) name
      in case download_file url path max_provenance_bundle w of
           (Inl e, w) \<Rightarrow> (Inl (DownloadFailed e), w)
         | (Inr _, w) \<Rightarrow>
             (case (if net_fails ReadFile w then None else nw_files w path) of
                None \<Rightarrow> (Inl (BundleUnreadable name), net_tick w)
              | Some bundle \<Rightarrow> (Inr bundle, net_tick w)))"

definition verify_github_attestations :: "platform \<Rightarrow> update_options \<Rightarrow> release \<Rightarrow> release_asset \<Rightarrow> string \<Rightarrow> net_world \<Rightarrow>
    (update_error, unit) result \<times> net_world" where
  "verify_github_attestations pf opt rel asset archive w =
     (case sha256_file pf archive w of
        (Inl e, w) \<Rightarrow> (Inl e, w)
      | (Inr digest, w) \<Rightarrow>
          (case download_provenance_bundle pf opt rel asset archive w of
             (Inl e, w) \<Rightarrow> (Inl e, w)
           | (Inr bundle, w) \<Rightarrow> (verify_build_provenance_bundle pf bundle opt (rl_tag rel) (as_name asset) digest, w)))"

section \<open>Verifying a release\<close>

text \<open>
  The three checks every archive passes before it is unpacked: download, checksum, provenance.
\<close>

definition fetch_verified_archive :: "platform \<Rightarrow> update_options \<Rightarrow> release \<Rightarrow> release_asset \<Rightarrow> net_world \<Rightarrow>
    (update_error, string) result \<times> net_world" where
  "fetch_verified_archive pf opt rel asset w =
     (let archive = path_join [uo_cache opt, path_base (as_name asset)] in
      case download_release_asset opt asset archive w of
        (Inl e, w) \<Rightarrow> (Inl e, w)
      | (Inr _, w) \<Rightarrow>
          (case verify_checksum pf opt rel asset archive w of
             (Inl e, w) \<Rightarrow> (Inl e, w)
           | (Inr _, w) \<Rightarrow>
               (case verify_github_attestations pf opt rel asset archive w of
                  (Inl e, w) \<Rightarrow> (Inl e, w)
                | (Inr _, w) \<Rightarrow> (Inr archive, w))))"

fun verify_assets :: "platform \<Rightarrow> update_options \<Rightarrow> release \<Rightarrow> release_asset list \<Rightarrow> net_world \<Rightarrow>
    (update_error, unit) result \<times> net_world" where
  "verify_assets pf opt rel [] w = (Inr (), w)"
| "verify_assets pf opt rel (a # as) w =
     (case fetch_verified_archive pf opt rel a w of
        (Inl e, w) \<Rightarrow> (Inl e, w)
      | (Inr _, w) \<Rightarrow> verify_assets pf opt rel as w)"

definition validate_verification_input :: "config \<Rightarrow> string \<Rightarrow> (config_error, unit) result" where
  "validate_verification_input cfg tag =
     (if blank (cfg_repo cfg) then Inl RepoRequired
      else if blank (cfg_binary cfg) then Inl BinaryRequired
      else if blank tag then Inl TagRequired
      else Inr ())"

text \<open>\<open>VerifyReleaseAssets\<close>, on options already resolved.\<close>

definition verify_release_assets :: "platform \<Rightarrow> update_options \<Rightarrow> string \<Rightarrow> net_world \<Rightarrow>
    (update_error, unit) result \<times> net_world" where
  "verify_release_assets pf opt tag w =
     (case validate_verification_input (uo_config opt) tag of
        Inl e \<Rightarrow> (Inl (ConfigInvalid e), w)
      | Inr _ \<Rightarrow>
          (case fetch_release_by_tag pf opt tag w of
             (Inl e, w) \<Rightarrow> (Inl e, w)
           | (Inr rel, w) \<Rightarrow>
               (let missing = missing_required_assets (rl_assets rel) (uo_required opt) in
                if missing \<noteq> [] then (Inl (MissingAssets missing), w)
                else if \<not> release_has_named_binary_assets (rl_assets rel) (cfg_binary (uo_config opt))
                  then (Inl (NoBinaryAssets (cfg_binary (uo_config opt))), w)
                else (case net_try MakeDir w of
                        (False, w) \<Rightarrow> (Inl (CacheDirFailed (uo_cache opt)), w)
                      | (True, w) \<Rightarrow>
                          verify_assets pf opt rel (release_verification_assets (rl_assets rel)) w))))"

section \<open>Which version is newer\<close>

definition version_timestamp_prefix :: "string \<Rightarrow> string" where
  "version_timestamp_prefix v =
     (if length v < 12 then [] else if list_all is_digit (take 12 v) then take 12 v else [])"

definition release_is_newer :: "platform \<Rightarrow> string \<Rightarrow> string \<Rightarrow> bool" where
  "release_is_newer pf current latest =
     (if latest = [] \<or> latest = current then False
      else if pf_semver_valid pf current \<and> pf_semver_valid pf latest then 0 < pf_semver_compare pf latest current
      else (let ct = version_timestamp_prefix current; lt = version_timestamp_prefix latest in
            if ct \<noteq> [] \<and> lt \<noteq> [] then ct < lt
            else if lt \<noteq> [] \<and> (current = ''dev'' \<or> current = ''unknown'') then True
            else True))"

section \<open>URLs and the assets of a release\<close>

text \<open>
  No two assets of any releases share a download URL: the URL determines the tag and the name.
\<close>

theorem release_asset_url_injective:
  "release_asset_url env cfg t1 n1 = release_asset_url env cfg t2 n2 \<longleftrightarrow> t1 = t2 \<and> n1 = n2"
proof
  assume "release_asset_url env cfg t1 n1 = release_asset_url env cfg t2 n2"
  then have "path_escape t1 @ slash # path_escape n1 = path_escape t2 @ slash # path_escape n2"
    by (simp add: release_asset_url_def)
  then have "path_escape t1 = path_escape t2" "path_escape n1 = path_escape n2"
    using append_Cons_eq_iff [OF path_escape_no_slash path_escape_no_slash] by blast+
  then show "t1 = t2 \<and> n1 = n2" using path_escape_inj by blast
qed simp

lemma fetch_release_by_tag_Inr:
  assumes "fetch_release_by_tag pf opt tag w = (Inr rel, w')"
  obtains a body where
    "nw_reply w (length (nw_requests w)) (release_asset_url (pf_env pf) (uo_config opt) tag checksums_asset_name) = Answered a"
    "body = limit_bytes max_release_metadata_size (ha_body a)" "rl_tag rel = tag"
    "rl_assets rel = \<lparr>as_name = checksums_asset_name,
        as_url = release_asset_url (pf_env pf) (uo_config opt) tag checksums_asset_name\<rparr> #
      map (\<lambda>(_, name). \<lparr>as_name = name, as_url = release_asset_url (pf_env pf) (uo_config opt) tag name\<rparr>)
        (checksum_rows body)"
    "w' = snd (net_request (release_asset_url (pf_env pf) (uo_config opt) tag checksums_asset_name) w)"
  using assms
  by (auto simp: fetch_release_by_tag_def fetch_release_metadata_def net_request_def Let_def
      split: http_outcome.splits if_splits)

lemma checksum_entry_Some:
  "name \<in> snd ` set (checksum_rows body) \<Longrightarrow> \<exists>d. checksum_entry body name = Some d \<and> (d, name) \<in> set (checksum_rows body)"
proof -
  assume "name \<in> snd ` set (checksum_rows body)"
  then have "find (\<lambda>(_, n). n = name) (checksum_rows body) \<noteq> None"
    by (auto simp: find_None_iff)
  then obtain r where "find (\<lambda>(_, n). n = name) (checksum_rows body) = Some r" by blast
  moreover from this have "r \<in> set (checksum_rows body)" "snd r = name"
    by (auto simp: find_Some_iff dest: nth_mem)
  ultimately show ?thesis by (cases r) (auto simp: checksum_entry_def)
qed

text \<open>
  The archive an update selects is the one for this platform, has the release's own download URL,
  and is listed with a digest in the checksum file that defined the release.
\<close>

theorem selected_archive_is_listed:
  assumes "fetch_release_by_tag pf opt tag w = (Inr rel, w')"
    and "select_archive_asset pf (rl_assets rel) binary = Inr asset"
  shows "as_name asset = binary @ ''_'' @ pf_goos pf @ ''_'' @ pf_goarch pf @ ''.tar.gz'' \<and>
    as_url asset = release_asset_url (pf_env pf) (uo_config opt) tag (as_name asset) \<and>
    (\<exists>a d. nw_reply w (length (nw_requests w))
        (release_asset_url (pf_env pf) (uo_config opt) tag checksums_asset_name) = Answered a \<and>
      checksum_entry (limit_bytes max_release_metadata_size (ha_body a)) (as_name asset) = Some d)"
proof -
  obtain a body where rel:
    "nw_reply w (length (nw_requests w)) (release_asset_url (pf_env pf) (uo_config opt) tag checksums_asset_name) = Answered a"
    "body = limit_bytes max_release_metadata_size (ha_body a)"
    "rl_assets rel = \<lparr>as_name = checksums_asset_name,
        as_url = release_asset_url (pf_env pf) (uo_config opt) tag checksums_asset_name\<rparr> #
      map (\<lambda>(_, name). \<lparr>as_name = name, as_url = release_asset_url (pf_env pf) (uo_config opt) tag name\<rparr>)
        (checksum_rows body)"
    using fetch_release_by_tag_Inr [OF assms(1)] by metis
  define name where "name = binary @ ''_'' @ pf_goos pf @ ''_'' @ pf_goarch pf @ ''.tar.gz''"
  have sel: "asset \<in> set (rl_assets rel)" "as_name asset = name"
    using assms(2) by (auto simp: select_archive_asset_def Let_def name_def find_Some_iff split: option.splits)
  have "last name = CHR ''z''" "last checksums_asset_name = CHR ''t''"
    by (simp_all add: name_def checksums_asset_name_def)
  then have "as_name asset \<noteq> checksums_asset_name" using sel(2) by auto
  then obtain d0 where "(d0, as_name asset) \<in> set (checksum_rows body)"
    and url: "as_url asset = release_asset_url (pf_env pf) (uo_config opt) tag (as_name asset)"
    using sel(1) rel(3) by auto
  then obtain d where "checksum_entry body (as_name asset) = Some d"
    using checksum_entry_Some by force
  then show ?thesis using rel url sel(2) by (auto simp: name_def)
qed

definition sample_platform :: platform where
  "sample_platform =
     \<lparr>pf_env = (\<lambda>_. []), pf_goos = ''linux'', pf_goarch = ''amd64'',
      pf_sha256 = (\<lambda>s. take 32 s), pf_feed = (\<lambda>_. Some [''tag:github.com,2008:Repository/1/v1'']),
      pf_verify = (\<lambda>_ d i. Some \<lparr>vr_statement = Some \<lparr>pv_predicate = ''https://slsa.dev/provenance/v1'',
            pv_subjects = [(''b_linux_amd64.tar.gz'', d)]\<rparr>,
          vr_certificate = Some \<lparr>ct_san = ''https://x/w'', ct_issuer = id_issuer i,
            ct_build_signer = ''https://x/w'', ct_runner = id_runner i, ct_source_uri = id_source i,
            ct_source_digest = ''abcdef0123'', ct_source_ref = ''refs/tags/v1''\<rparr>\<rparr>),
      pf_semver_valid = (\<lambda>_. False), pf_semver_compare = (\<lambda>_ _. 0)\<rparr>"

definition sample_config :: config where
  "sample_config =
     \<lparr>cfg_repo = ''o/r'', cfg_binary = ''b'', cfg_current_version = ''v0'', cfg_current_commit = ''c'',
      cfg_current_build_hash = ''h'', cfg_allow_prerelease = None, cfg_interval = 0,
      cfg_signer_uri = ''https://x/w'', cfg_web_base = ''http://h'', cfg_web_base_env = [],
      cfg_validate_args = [], cfg_validate_match = [], cfg_validate_env = [], cfg_max_download = 100,
      cfg_max_binary = 100, cfg_dirty = False\<rparr>"

definition sample_options :: update_options where
  "sample_options =
     \<lparr>io_install = ''/bin/b'', io_state = ''/s/state.json'', uo_config = sample_config, uo_cache = ''/c'',
      uo_dry_run = False, uo_required = []\<rparr>"

text \<open>A server that holds one release: its checksum file, its archive and a provenance bundle.\<close>

definition sample_server :: "string \<Rightarrow> string" where
  "sample_server url =
     (if suffix ''checksums.txt'' url then ''616263  ./b_linux_amd64.tar.gz'' @ newline
      else if suffix ''.sigstore.json'' url then ''bundle'' else ''abc'')"

definition serving :: "(string \<Rightarrow> string) \<Rightarrow> net_world" where
  "serving server =
     \<lparr>nw_reply = (\<lambda>_ url. Answered \<lparr>ha_status = 200, ha_length = - 1, ha_body = server url, ha_broken = False,
          ha_location = None\<rparr>),
      nw_fault = (\<lambda>_ _. False), nw_cancelled = (\<lambda>_. False), nw_clock = 0,
      nw_names = [''1'', ''2'', ''3'', ''4''],
      nw_files = Map.empty, nw_requests = [], nw_waits = []\<rparr>"

lemma sample_rows: "checksum_rows (''616263  ./b_linux_amd64.tar.gz'' @ newline) = [(''616263'', ''b_linux_amd64.tar.gz'')]"
  by code_simp

theorem selected_archive_is_listed_witness:
  "\<exists>rel w'. fetch_release_by_tag sample_platform sample_options ''v1'' (serving sample_server) = (Inr rel, w') \<and>
     (\<exists>asset. select_archive_asset sample_platform (rl_assets rel) ''b'' = Inr asset \<and>
       as_name asset = ''b_linux_amd64.tar.gz'' \<and>
       as_url asset = ''http://h/o/r/releases/download/v1/b_linux_amd64.tar.gz'')"
proof -
  obtain r w' where run: "fetch_release_by_tag sample_platform sample_options ''v1'' (serving sample_server) = (r, w')"
    by fastforce
  have "(case fst (fetch_release_by_tag sample_platform sample_options ''v1'' (serving sample_server)) of
      Inl _ \<Rightarrow> False
    | Inr rel \<Rightarrow> (case select_archive_asset sample_platform (rl_assets rel) ''b'' of Inl _ \<Rightarrow> False | Inr _ \<Rightarrow> True))"
    by code_simp
  then obtain rel asset where r: "r = Inr rel" "select_archive_asset sample_platform (rl_assets rel) ''b'' = Inr asset"
    using run by (auto split: sum.splits)
  have "as_name asset = ''b_linux_amd64.tar.gz''"
    "as_url asset = release_asset_url (pf_env sample_platform) (uo_config sample_options) ''v1'' (as_name asset)"
    using selected_archive_is_listed [OF run [unfolded r(1)] r(2)] by (simp_all add: sample_platform_def)
  moreover have "release_asset_url (pf_env sample_platform) (uo_config sample_options) ''v1'' ''b_linux_amd64.tar.gz'' =
      ''http://h/o/r/releases/download/v1/b_linux_amd64.tar.gz''"
    by code_simp
  ultimately show ?thesis using run r by metis
qed

section \<open>Version order\<close>

definition version_scheme :: "platform \<Rightarrow> string \<Rightarrow> nat" where
  "version_scheme pf v =
     (if pf_semver_valid pf v then 1 else if version_timestamp_prefix v \<noteq> [] then 2 else 0)"

lemma scheme_iff:
  "version_scheme pf v = 1 \<longleftrightarrow> pf_semver_valid pf v"
  "version_scheme pf v = 2 \<longleftrightarrow> \<not> pf_semver_valid pf v \<and> version_timestamp_prefix v \<noteq> []"
  by (simp_all add: version_scheme_def)

lemma newer_semver:
  "version_scheme pf a = 1 \<Longrightarrow> version_scheme pf b = 1 \<Longrightarrow>
   release_is_newer pf a b \<longleftrightarrow> b \<noteq> [] \<and> b \<noteq> a \<and> 0 < pf_semver_compare pf b a"
  unfolding scheme_iff by (simp add: release_is_newer_def)

lemma newer_timestamp:
  assumes "version_scheme pf a = 2" "version_scheme pf b = 2"
  shows "release_is_newer pf a b \<longleftrightarrow> version_timestamp_prefix a < version_timestamp_prefix b"
proof (cases "b = [] \<or> b = a")
  case True
  then show ?thesis using assms unfolding scheme_iff
    by (auto simp: release_is_newer_def version_timestamp_prefix_def)
next
  case False
  then show ?thesis using assms unfolding scheme_iff by (simp add: release_is_newer_def)
qed

text \<open>
  Within one version scheme, semantic versions or time-stamped tags, "newer" is a strict order:
  no version updates to itself, two versions never update to each other, and updates compose.
\<close>

theorem newer_is_strict_order:
  assumes "\<And>x y. 0 < pf_semver_compare pf x y \<Longrightarrow> \<not> 0 < pf_semver_compare pf y x"
    and "\<And>x y z. 0 < pf_semver_compare pf x y \<Longrightarrow> 0 < pf_semver_compare pf y z \<Longrightarrow> 0 < pf_semver_compare pf x z"
    and "version_scheme pf a = s" "version_scheme pf b = s" "version_scheme pf c = s" "s \<noteq> 0"
  shows "\<not> release_is_newer pf a a \<and>
    (release_is_newer pf a b \<longrightarrow> \<not> release_is_newer pf b a) \<and>
    (release_is_newer pf a b \<longrightarrow> release_is_newer pf b c \<longrightarrow> release_is_newer pf a c)"
proof -
  have irrefl: "\<not> release_is_newer pf a a" by (simp add: release_is_newer_def)
  have "s = 1 \<or> s = 2" using assms(3,6) by (auto simp: version_scheme_def split: if_splits)
  then show ?thesis
  proof
    assume "s = 1"
    then have sc: "version_scheme pf a = 1" "version_scheme pf b = 1" "version_scheme pf c = 1"
      using assms(3-5) by simp_all
    show ?thesis
      unfolding newer_semver [OF sc(1,2)] newer_semver [OF sc(2,1)] newer_semver [OF sc(2,3)] newer_semver [OF sc(1,3)]
      using assms(1,2) irrefl by blast
  next
    assume "s = 2"
    then have sc: "version_scheme pf a = 2" "version_scheme pf b = 2" "version_scheme pf c = 2"
      using assms(3-5) by simp_all
    show ?thesis
      unfolding newer_timestamp [OF sc(1,2)] newer_timestamp [OF sc(2,1)] newer_timestamp [OF sc(2,3)]
        newer_timestamp [OF sc(1,3)]
      using irrefl by auto
  qed
qed

theorem newer_is_strict_order_witness:
  "release_is_newer sample_platform ''202501010000-aa'' ''202601010000-bb'' \<and>
   \<not> release_is_newer sample_platform ''202601010000-bb'' ''202501010000-aa''"
proof -
  have "version_scheme sample_platform ''202501010000-aa'' = 2" "version_scheme sample_platform ''202601010000-bb'' = 2"
    "release_is_newer sample_platform ''202501010000-aa'' ''202601010000-bb''"
    by code_simp+
  then show ?thesis
    using newer_is_strict_order [of sample_platform "''202501010000-aa''" 2 "''202601010000-bb''" "''202601010000-bb''"]
    by (simp add: sample_platform_def)
qed

section \<open>Provenance\<close>

text \<open>
  C4. Provenance is accepted exactly when the verified statement has the SLSA predicate and names the
  asset with the archive's digest, the certificate was issued by GitHub to the configured workflow
  on a GitHub-hosted runner for the configured repository, and the tag is bound to the certificate:
  by the commit a rolling tag ends in, by the tag reference otherwise.
\<close>

theorem provenance_accepted_iff:
  "verify_build_provenance_bundle pf bundle opt tag name digest = Inr () \<longleftrightarrow>
   (\<exists>v s c. pf_verify pf bundle digest
        \<lparr>id_signer = signer_workflow_pattern (uo_config opt), id_issuer = github_issuer, id_runner = github_hosted,
          id_source = github_repository_uri (cfg_repo (uo_config opt))\<rparr> = Some v \<and>
      vr_statement v = Some s \<and> vr_certificate v = Some c \<and>
      pv_predicate s = provenance_predicate \<and> (name, digest) \<in> set (pv_subjects s) \<and>
      signer_matches (signer_workflow_pattern (uo_config opt)) (ct_san c) \<and>
      ct_build_signer c = ct_san c \<and> ct_issuer c = github_issuer \<and> ct_runner c = github_hosted \<and>
      ct_source_uri c = ''https://github.com/'' @ cfg_repo (uo_config opt) \<and>
      (case tag_short_commit tag of
         Some short \<Rightarrow> prefix short (ct_source_digest c)
       | None \<Rightarrow> ct_source_ref c = ''refs/tags/'' @ tag))"
  (is "_ \<longleftrightarrow> ?rhs")
proof -
  let ?g = "signer_workflow_pattern (uo_config opt)" and ?repo = "cfg_repo (uo_config opt)"
  have subj: "statement_has_subject ss name digest \<longleftrightarrow> (name, digest) \<in> set ss" for ss
    by (auto simp: statement_has_subject_def list_ex_iff)
  have cert: "validate_certificate c ?repo ?g = Inr () \<longleftrightarrow>
      signer_matches ?g (ct_san c) \<and> ct_build_signer c = ct_san c \<and> ct_issuer c = github_issuer \<and>
      ct_runner c = github_hosted \<and> ct_source_uri c = ''https://github.com/'' @ ?repo" for c
    by (simp add: validate_certificate_def github_repository_uri_def)
  have build: "validate_build_provenance v ?repo name digest ?g = Inr c \<longleftrightarrow>
      (\<exists>s. vr_statement v = Some s \<and> vr_certificate v = Some c \<and> pv_predicate s = provenance_predicate \<and>
        (name, digest) \<in> set (pv_subjects s) \<and> validate_certificate c ?repo ?g = Inr ())" for v c
    by (auto simp: validate_build_provenance_def subj result_bind_Inr_iff split: option.splits if_splits)
  have tag: "validate_release_tag_binding c tag = Inr () \<longleftrightarrow>
      (case tag_short_commit tag of
         Some short \<Rightarrow> prefix short (ct_source_digest c)
       | None \<Rightarrow> ct_source_ref c = ''refs/tags/'' @ tag)" for c
    by (simp add: validate_release_tag_binding_def split: option.splits)
  let ?v = "pf_verify pf bundle digest \<lparr>id_signer = ?g, id_issuer = github_issuer, id_runner = github_hosted,
    id_source = github_repository_uri ?repo\<rparr>"
  show ?thesis
  proof (cases ?v)
    case None
    then show ?thesis by (simp add: verify_build_provenance_bundle_def Let_def)
  next
    case (Some v)
    have "verify_build_provenance_bundle pf bundle opt tag name digest = Inr () \<longleftrightarrow>
        (\<exists>c. validate_build_provenance v ?repo name digest ?g = Inr c \<and> validate_release_tag_binding c tag = Inr ())"
      using Some by (simp add: verify_build_provenance_bundle_def Let_def result_bind_Inr_iff)
    then show ?thesis
      unfolding build cert tag Some by (simp only: option.inject simp_thms ex_simps) blast
  qed
qed

lemma tag_short_commit_rolling:
  assumes "min_short_commit_length \<le> length s" "list_all lower_hex s"
  shows "tag_short_commit (t @ CHR ''-'' # s) = Some s"
proof -
  have "CHR ''-'' \<notin> set s"
    using assms(2) by (auto simp: list_all_iff lower_hex_def is_digit_def)
  then have "takeWhile (\<lambda>c. c \<noteq> CHR ''-'') (rev s @ CHR ''-'' # rev t) = rev s"
    by (subst takeWhile_append2) auto
  then show ?thesis using assms by (simp add: tag_short_commit_def)
qed

section \<open>A verified archive\<close>

lemma download_file_run:
  assumes "steady w" "download_file url path maxb w = (r, w')"
  shows "same_oracles w w' \<and>
    (case r of Inl _ \<Rightarrow> nw_files w' = nw_files w
     | Inr _ \<Rightarrow> \<exists>body. nw_files w' = (nw_files w)(path \<mapsto> body))"
  using download_loop_spec [OF assms(1), of 1] assms(2)
  by (fastforce simp: download_file_def download_run_def download_attempts_def split: sum.splits)

lemma download_release_asset_run:
  assumes "steady w" "download_release_asset opt asset path w = (r, w')"
  shows "same_oracles w w' \<and>
    (case r of Inl _ \<Rightarrow> nw_files w' = nw_files w
     | Inr _ \<Rightarrow> \<exists>body. nw_files w' = (nw_files w)(path \<mapsto> body))"
  using assms(2) download_file_run [OF assms(1), of "as_url asset" path]
  by (fastforce simp: download_release_asset_def split: prod.splits sum.splits)

lemma net_tick_same [simp]: "same_oracles w (net_tick w)" "nw_files (net_tick w) = nw_files w"
  by (simp_all add: net_tick_def same_oracles_def)

lemma checksum_from_file_run:
  "checksum_from_file path name w = (r, w') \<Longrightarrow> w' = net_tick w \<and>
     (case r of Inl _ \<Rightarrow> True | Inr d \<Rightarrow> \<exists>body. nw_files w path = Some body \<and> checksum_entry body name = Some d)"
  by (auto simp: checksum_from_file_def split: option.splits if_splits)

lemma sha256_file_run:
  "sha256_file pf path w = (r, w') \<Longrightarrow> w' = net_tick w \<and>
     (case r of Inl _ \<Rightarrow> True | Inr d \<Rightarrow> \<exists>body. nw_files w path = Some body \<and> d = hex_encode (pf_sha256 pf body))"
  by (auto simp: sha256_file_def split: option.splits if_splits)

lemma verify_checksum_run:
  assumes "steady w" "verify_checksum pf opt rel asset archive w = (r, w')"
  shows "same_oracles w w' \<and>
    (\<forall>p. p \<noteq> checksums_path pf opt rel \<or> nw_files w p \<noteq> None \<longrightarrow> nw_files w' p = nw_files w p) \<and>
    (r = Inr () \<longrightarrow> (\<exists>sums want content. nw_files w' (checksums_path pf opt rel) = Some sums \<and>
       checksum_entry sums (as_name asset) = Some want \<and> nw_files w' archive = Some content \<and>
       equal_fold_hex want (hex_encode (pf_sha256 pf content))))"
proof (cases "find_asset (rl_assets rel) checksums_asset_name")
  case None
  then show ?thesis using assms(2) by (auto simp: verify_checksum_def)
next
  case (Some sums)
  let ?path = "checksums_path pf opt rel"
  obtain r1 w1 where s1:
    "(if nw_files w ?path = None then download_release_asset opt sums ?path w else (Inr (), w)) = (r1, w1)"
    by fastforce
  have w1: "same_oracles w w1 \<and>
      (\<forall>p. p \<noteq> ?path \<or> nw_files w p \<noteq> None \<longrightarrow> nw_files w1 p = nw_files w p)"
    using s1 download_release_asset_run [OF assms(1), of opt sums ?path]
    by (fastforce split: if_splits sum.splits)
  note body = assms(2) [unfolded verify_checksum_def Some Let_def, simplified s1 prod.case option.case]
  obtain r2 w2 where s2: "checksum_from_file ?path (as_name asset) w1 = (r2, w2)" by fastforce
  obtain r3 w3 where s3: "sha256_file pf archive w2 = (r3, w3)" by fastforce
  note run2 = checksum_from_file_run [OF s2] and run3 = sha256_file_run [OF s3]
  have same: "same_oracles w w1" "same_oracles w w2" "same_oracles w w3"
    using w1 run2 run3 same_oracles_trans net_tick_same(1) by metis+
  show ?thesis
    using body s2 s3 w1 run2 run3 same by (auto split: sum.splits if_splits)
qed

lemma hex_lower_no_slash: "n < 16 \<Longrightarrow> hex_lower n \<noteq> slash"
proof
  assume n: "n < 16" and "hex_lower n = slash"
  then have "(of_char (hex_lower n) :: nat) = of_char slash" by (simp only:)
  then show False using n by (simp add: hex_lower_def of_char_of split: if_splits)
qed

lemma hex_encode_no_slash: "slash \<notin> set (hex_encode s)"
  using hex_lower_no_slash [OF byte_halves(1), THEN not_sym] hex_lower_no_slash [OF byte_halves(2), THEN not_sym]
  by (auto simp: hex_encode_def)

lemma checksums_path_last: "last (checksums_path pf opt rel) = CHR ''t''"
proof -
  let ?x = "''checksums-'' @ checksums_cache_key pf (cfg_repo (uo_config opt)) (rl_tag rel) @ ''.txt''"
  have "slash \<notin> set ?x" using hex_encode_no_slash by (auto simp: checksums_cache_key_def)
  then have "suffix ?x (checksums_path pf opt rel)"
    unfolding checksums_path_def by (rule path_join_suffix) simp_all
  then obtain y where "checksums_path pf opt rel = y @ ?x" by (auto simp: suffix_def)
  then show ?thesis by simp
qed

lemma verify_github_attestations_run:
  assumes "steady w" "verify_github_attestations pf opt rel asset archive w = (r, w')"
  shows "same_oracles w w' \<and>
    (\<forall>p. p \<noteq> archive @ ''.sigstore.json'' \<longrightarrow> nw_files w' p = nw_files w p) \<and>
    (r = Inr () \<longrightarrow> (\<exists>content bundle. nw_files w archive = Some content \<and>
       nw_files w' (archive @ ''.sigstore.json'') = Some bundle \<and>
       verify_build_provenance_bundle pf bundle opt (rl_tag rel) (as_name asset)
         (hex_encode (pf_sha256 pf content)) = Inr ()))"
proof -
  obtain r1 w1 where s1: "sha256_file pf archive w = (r1, w1)" by fastforce
  note run1 = sha256_file_run [OF s1]
  let ?url = "release_asset_url (pf_env pf) (uo_config opt) (rl_tag rel) (as_name asset @ ''.sigstore.json'')"
  let ?path = "archive @ ''.sigstore.json''"
  obtain r2 w2 where s2: "download_file ?url ?path max_provenance_bundle w1 = (r2, w2)" by fastforce
  have st: "steady w1" using run1 assms(1) steady_same net_tick_same(1) by metis
  note run2 = download_file_run [OF st s2]
  have same: "same_oracles w w2"
    using run1 run2 same_oracles_trans net_tick_same by metis
  show ?thesis
    using assms(2) s1 s2 run1 run2 same same_oracles_trans [OF same(1) net_tick_same(1)]
    by (auto simp: verify_github_attestations_def download_provenance_bundle_def Let_def
        split: sum.splits option.splits if_splits)
qed

lemma fetched_archive_checked:
  assumes "steady w" "fetch_verified_archive pf opt rel asset w = (Inr archive, w')"
  shows "archive = path_join [uo_cache opt, path_base (as_name asset)] \<and> (\<exists>content sums want bundle. nw_files w' archive = Some content \<and>
    nw_files w' (checksums_path pf opt rel) = Some sums \<and>
    checksum_entry sums (as_name asset) = Some want \<and>
    equal_fold_hex want (hex_encode (pf_sha256 pf content)) \<and>
    nw_files w' (archive @ ''.sigstore.json'') = Some bundle \<and>
    verify_build_provenance_bundle pf bundle opt (rl_tag rel) (as_name asset)
      (hex_encode (pf_sha256 pf content)) = Inr ())"
proof -
  let ?a = "path_join [uo_cache opt, path_base (as_name asset)]"
  obtain r1 w1 where s1: "download_release_asset opt asset ?a w = (r1, w1)" by fastforce
  obtain r2 w2 where s2: "verify_checksum pf opt rel asset ?a w1 = (r2, w2)" by fastforce
  obtain r3 w3 where s3: "verify_github_attestations pf opt rel asset ?a w2 = (r3, w3)" by fastforce
  have r: "r1 = Inr ()" "r2 = Inr ()" "r3 = Inr ()" "archive = ?a" "w' = w3"
    using assms(2) s1 s2 s3 by (auto simp: fetch_verified_archive_def Let_def split: sum.splits)
  note run1 = download_release_asset_run [OF assms(1) s1]
  have st1: "steady w1" using run1 assms(1) steady_same by blast
  note run2 = verify_checksum_run [OF st1 s2]
  have st2: "steady w2" using run2 st1 steady_same by blast
  note run3 = verify_github_attestations_run [OF st2 s3]
  have "last (?a @ ''.sigstore.json'') = CHR ''n''" by simp
  then have ne: "checksums_path pf opt rel \<noteq> ?a @ ''.sigstore.json''"
    using checksums_path_last [of pf opt rel] by auto
  have ar: "?a \<noteq> ?a @ ''.sigstore.json''" by simp
  show ?thesis
    using run2 run3 r ne ar by (metis option.inject)
qed

text \<open>
  C3. An archive that reaches unpacking is exactly the bytes that were checked: the file in the cache
  has the SHA-256 digest its checksum file lists under the asset's name, and the downloaded
  provenance bundle is accepted for that digest, name and tag.
\<close>

theorem verified_archive_is_checked:
  assumes "steady w" "fetch_verified_archive pf opt rel asset w = (Inr archive, w')"
  shows "\<exists>content sums want bundle. nw_files w' archive = Some content \<and>
    nw_files w' (checksums_path pf opt rel) = Some sums \<and>
    checksum_entry sums (as_name asset) = Some want \<and>
    equal_fold_hex want (hex_encode (pf_sha256 pf content)) \<and>
    nw_files w' (archive @ ''.sigstore.json'') = Some bundle \<and>
    verify_build_provenance_bundle pf bundle opt (rl_tag rel) (as_name asset)
      (hex_encode (pf_sha256 pf content)) = Inr ()"
  using fetched_archive_checked [OF assms] by blast

theorem verified_archive_is_checked_witness:
  "\<exists>rel asset archive w' content. fetch_verified_archive sample_platform sample_options rel asset (serving sample_server) =
       (Inr archive, w') \<and> archive = ''/c/b_linux_amd64.tar.gz'' \<and> nw_files w' archive = Some content"
proof -
  define rel where "rel = \<lparr>rl_url = [], rl_tag = ''v1'', rl_assets = [\<lparr>as_name = ''checksums.txt'', as_url = ''http://h/checksums.txt''\<rparr>]\<rparr>"
  define asset where "asset = \<lparr>as_name = ''b_linux_amd64.tar.gz'', as_url = ''http://h/b''\<rparr>"
  obtain r w' where run: "fetch_verified_archive sample_platform sample_options rel asset (serving sample_server) = (r, w')"
    by fastforce
  have "fst (fetch_verified_archive sample_platform sample_options rel asset (serving sample_server)) =
      Inr ''/c/b_linux_amd64.tar.gz''"
    unfolding rel_def asset_def by code_simp
  then have r: "r = Inr ''/c/b_linux_amd64.tar.gz''" using run by simp
  have "steady (serving sample_server)" by (simp add: steady_def serving_def)
  from verified_archive_is_checked [OF this run [unfolded r]] show ?thesis
    using run r by blast
qed

section \<open>Verifying every archive of a release\<close>

lemma net_request_run:
  "net_request url w = (out, w') \<Longrightarrow> same_oracles w w' \<and> nw_files w' = nw_files w"
  by (auto simp: net_request_def net_tick_def same_oracles_def)

lemma fetch_release_metadata_run:
  assumes "fetch_release_metadata url w = (r, w')"
  shows "same_oracles w w' \<and> nw_files w' = nw_files w"
proof -
  obtain out w1 where s: "net_request url w = (out, w1)" by fastforce
  then have "w' = w1" using assms
    by (cases out) (auto simp: fetch_release_metadata_def split: if_splits)
  then show ?thesis using net_request_run [OF s] by simp
qed

lemma fetch_release_by_tag_run:
  assumes "fetch_release_by_tag pf opt tag w = (r, w')"
  shows "same_oracles w w' \<and> nw_files w' = nw_files w"
proof -
  obtain m w1 where s: "fetch_release_metadata
      (release_asset_url (pf_env pf) (uo_config opt) tag checksums_asset_name) w = (m, w1)" by fastforce
  then have "w' = w1" using assms by (cases m) (auto simp: fetch_release_by_tag_def Let_def)
  then show ?thesis using fetch_release_metadata_run [OF s] by simp
qed

lemma fetch_verified_archive_same:
  assumes "steady w" "fetch_verified_archive pf opt rel asset w = (r, w')"
  shows "same_oracles w w'"
proof -
  let ?a = "path_join [uo_cache opt, path_base (as_name asset)]"
  obtain r1 w1 where s1: "download_release_asset opt asset ?a w = (r1, w1)" by fastforce
  obtain r2 w2 where s2: "verify_checksum pf opt rel asset ?a w1 = (r2, w2)" by fastforce
  obtain r3 w3 where s3: "verify_github_attestations pf opt rel asset ?a w2 = (r3, w3)" by fastforce
  note run1 = download_release_asset_run [OF assms(1) s1]
  have st1: "steady w1" using run1 assms(1) steady_same by blast
  note run2 = verify_checksum_run [OF st1 s2]
  have st2: "steady w2" using run2 st1 steady_same by blast
  note run3 = verify_github_attestations_run [OF st2 s3]
  have o1: "same_oracles w w1" using run1 by simp
  have o2: "same_oracles w w2" using same_oracles_trans [OF o1] run2 by simp
  have "same_oracles w w3" using same_oracles_trans [OF o2] run3 by simp
  with o1 o2 show ?thesis
    using assms(2) s1 s2 s3 by (auto simp: fetch_verified_archive_def Let_def split: sum.splits)
qed

text \<open>The world after the first \<open>n\<close> archives of a release were verified, from the one after its metadata.\<close>

definition after_archives :: "platform \<Rightarrow> update_options \<Rightarrow> release \<Rightarrow> nat \<Rightarrow> net_world \<Rightarrow> net_world" where
  "after_archives pf opt rel n w =
     snd (verify_assets pf opt rel (take n (release_verification_assets (rl_assets rel))) (snd (net_try MakeDir w)))"

text \<open>The archive of an asset in the cache is what its checksum and its attestation say.\<close>

definition archive_checked :: "platform \<Rightarrow> update_options \<Rightarrow> release \<Rightarrow> release_asset \<Rightarrow> net_world \<Rightarrow> bool" where
  "archive_checked pf opt rel a w \<longleftrightarrow>
     (\<exists>content sums want bundle. nw_files w (path_join [uo_cache opt, path_base (as_name a)]) = Some content \<and>
        nw_files w (checksums_path pf opt rel) = Some sums \<and> checksum_entry sums (as_name a) = Some want \<and>
        equal_fold_hex want (hex_encode (pf_sha256 pf content)) \<and>
        nw_files w (path_join [uo_cache opt, path_base (as_name a)] @ ''.sigstore.json'') = Some bundle \<and>
        verify_build_provenance_bundle pf bundle opt (rl_tag rel) (as_name a) (hex_encode (pf_sha256 pf content)) = Inr ())"

lemma verify_assets_checked:
  "steady w \<Longrightarrow> verify_assets pf opt rel as w = (Inr (), w') \<Longrightarrow> i < length as \<Longrightarrow>
   archive_checked pf opt rel (as ! i) (snd (verify_assets pf opt rel (take (Suc i) as) w))"
proof (induction as arbitrary: w i)
  case (Cons a as)
  obtain r1 w1 where s: "fetch_verified_archive pf opt rel a w = (r1, w1)" by fastforce
  obtain p where p: "r1 = Inr p" using Cons.prems(2) s by (cases r1) auto
  show ?case
  proof (cases i)
    case 0
    have "archive_checked pf opt rel a w1"
      using fetched_archive_checked [OF Cons.prems(1) s [unfolded p]] by (auto simp: archive_checked_def)
    then show ?thesis using 0 s p by (simp add: archive_checked_def)
  next
    case (Suc j)
    have "steady w1" using fetch_verified_archive_same [OF Cons.prems(1) s] Cons.prems(1) by (simp add: steady_def same_oracles_def)
    moreover have "verify_assets pf opt rel as w1 = (Inr (), w')" using Cons.prems(2) s p by simp
    ultimately have "archive_checked pf opt rel (as ! j) (snd (verify_assets pf opt rel (take (Suc j) as) w1))"
      using Cons.IH [of w1 j] Cons.prems(3) Suc by simp
    then show ?thesis using s p Suc by simp
  qed
qed simp

text \<open>
  C28. A release passes verification only when it is complete and every archive in it was checked: every required
  asset is listed and an archive of the named binary is present, and each archive of the release, in order, has in
  the cache, once its turn is over, a file whose SHA-256 digest is the one its checksum file lists under the
  asset's name, and an attestation that is accepted for that digest, name and tag. The run ends after the last of them.
\<close>

theorem verified_release_is_complete:
  assumes "steady w" "verify_release_assets pf opt tag w = (Inr (), w')"
  shows "\<exists>rel w1. fetch_release_by_tag pf opt tag w = (Inr rel, w1) \<and>
    release_verification_assets (rl_assets rel) \<noteq> [] \<and>
    set (uo_required opt) \<subseteq> as_name ` set (rl_assets rel) \<and>
    release_has_named_binary_assets (rl_assets rel) (cfg_binary (uo_config opt)) \<and>
    (\<forall>i < length (release_verification_assets (rl_assets rel)).
       archive_checked pf opt rel (release_verification_assets (rl_assets rel) ! i) (after_archives pf opt rel (Suc i) w1)) \<and>
    w' = after_archives pf opt rel (length (release_verification_assets (rl_assets rel))) w1"
proof -
  have valid: "validate_verification_input (uo_config opt) tag = Inr ()"
    using assms(2) by (auto simp: verify_release_assets_def split: sum.splits)
  obtain f w1 where s1: "fetch_release_by_tag pf opt tag w = (f, w1)" by fastforce
  have w1: "same_oracles w w1" using fetch_release_by_tag_run [OF s1] by simp
  note body = assms(2) [unfolded verify_release_assets_def valid, simplified s1 prod.case sum.case Let_def]
  obtain rel where f: "f = Inr rel" using body by (cases f) auto
  let ?as = "release_verification_assets (rl_assets rel)"
  obtain ok w2 where s2: "net_try MakeDir w1 = (ok, w2)" by fastforce
  have "same_oracles w w2" using s2 w1 only_files_snd(1) [OF s2] same_oracles_trans by (auto simp: only_files_def)
  then have st: "steady w2" using assms(1) steady_same by blast
  have ok: "missing_required_assets (rl_assets rel) (uo_required opt) = []"
    "release_has_named_binary_assets (rl_assets rel) (cfg_binary (uo_config opt))"
    and run: "verify_assets pf opt rel ?as w2 = (Inr (), w')"
    using body f s2 by (cases ok; auto split: if_splits)+
  have "archive_checked pf opt rel (?as ! i) (after_archives pf opt rel (Suc i) w1)" if "i < length ?as" for i
    using verify_assets_checked [OF st run that] s2 by (simp add: after_archives_def)
  moreover have "w' = after_archives pf opt rel (length ?as) w1" using run s2 by (simp add: after_archives_def)
  moreover have "?as \<noteq> []"
    using ok(2) by (auto simp: release_has_named_binary_assets_def release_verification_assets_def list_ex_iff filter_empty_conv)
  moreover have "set (uo_required opt) \<subseteq> as_name ` set (rl_assets rel)"
    using ok(1) by (auto simp: missing_required_assets_def filter_empty_conv)
  ultimately show ?thesis using s1 f ok(2) by blast
qed

theorem verified_release_is_complete_witness:
  "\<exists>w' rel a v. verify_release_assets sample_platform sample_options ''v1'' (serving sample_server) = (Inr (), w') \<and>
     a \<in> set (rl_assets rel) \<and> archive_checked sample_platform sample_options rel a v"
proof -
  obtain r w' where run: "verify_release_assets sample_platform sample_options ''v1'' (serving sample_server) = (r, w')"
    by fastforce
  have "fst (verify_release_assets sample_platform sample_options ''v1'' (serving sample_server)) = Inr ()"
    by code_simp
  then have r: "r = Inr ()" using run by simp
  have st: "steady (serving sample_server)" by (simp add: steady_def serving_def)
  obtain rel w1 where rel: "release_verification_assets (rl_assets rel) \<noteq> []"
    "archive_checked sample_platform sample_options rel (release_verification_assets (rl_assets rel) ! 0)
       (after_archives sample_platform sample_options rel (Suc 0) w1)"
    using verified_release_is_complete [OF st run [unfolded r]] by fastforce
  moreover have "release_verification_assets (rl_assets rel) ! 0 \<in> set (rl_assets rel)"
    using nth_mem [of 0 "release_verification_assets (rl_assets rel)"] rel(1) by (auto simp: release_verification_assets_def)
  ultimately show ?thesis using run r by blast
qed

text \<open>
  The cache key hashes the repository and the tag around an at sign, so an at sign in either makes two
  pairs share a key whatever the hash is.
\<close>

lemma cache_key_shared: "checksums_cache_key pf ''a@b'' ''c'' = checksums_cache_key pf ''a'' ''b@c''"
  by (simp add: checksums_cache_key_def)

end
