(* ===== verification/Updater.thy ===== *)
theory Updater
  imports Release
begin

text \<open>
  The update and install pipelines of \<open>selfupdate\<close>: the persisted state (\<open>state.go\<close>), the check
  (\<open>selfupdate.go\<close>), unpacking and validating a candidate (\<open>extract.go\<close>), staging and installing a
  set (\<open>applyall.go\<close>, \<open>install.go\<close>) under the lock (\<open>lock.go\<close>). One updater has the network and cache
  of \<open>Download\<close> and the install directories of \<open>InstallFs\<close>.
\<close>

section \<open>State, errors and the host\<close>

text \<open>Times are nanoseconds since Go's zero time.\<close>

record update_state =
  st_last_check :: int
  st_next_check :: int
  st_latest :: string
  st_applied :: string
  st_installed_version :: string
  st_installed_commit :: string
  st_installed_build_hash :: string
  st_last_result :: string
  st_last_error :: string

definition zero_state :: update_state where
  "zero_state =
     \<lparr>st_last_check = 0, st_next_check = 0, st_latest = [], st_applied = [], st_installed_version = [],
      st_installed_commit = [], st_installed_build_hash = [], st_last_result = [], st_last_error = []\<rparr>"

datatype state_error =
    StatePathRequired | StateReadFailed string | StateDecodeFailed string | StateDirFailed string
  | StateTempFailed string | StateWriteFailed string | StateCloseFailed string | StateReplaceFailed string

datatype extract_error =
    CandidateDirFailed string
  | CandidateCreateFailed string
  | CandidateCloseFailed string
  | ArchiveOpenFailed
  | GzipOpenFailed
  | ArchiveReadFailed
  | CandidateSizeRejected int
  | CandidateOpenFailed string
  | CandidateWriteFailed string
  | CandidateChmodFailed string
  | BinaryNotInArchive string

datatype apply_error =
    OptionsRequired
  | SetMixesRepositories string string
  | SetMixesStatePaths string string
  | SetRepeatsBinary string
  | SetRepeatsName string
  | SymlinkNotPlain string string
  | ChannelInvalid string
  | InvalidConfig config_error
  | Updating update_error
  | Extracting extract_error
  | CandidateRejected string
  | InstallPathRequired
  | DryRunDirFailed
  | SymlinkTargetMissing string
  | SymlinkReserveFailed string
  | SymlinkStageFailed string
  | Recovering install_error
  | Installing install_error
  | Persisting state_error
  | ContextCanceled
  | LockDirFailed
  | LockOpenFailed
  | AlreadyRunning

text \<open>
  A member of a release archive: its header's name and size, and the bytes that can be read for it. A
  gzip stream that cannot be opened is \<open>None\<close>; the flag says that reading headers ends in an error.
\<close>

record tar_member =
  tm_name :: string
  tm_size :: int
  tm_data :: string

record host =
  hs_platform :: platform
  hs_executable :: string
  hs_now :: "nat \<Rightarrow> int"
  hs_encode :: "update_state \<Rightarrow> string"
  hs_decode :: "string \<Rightarrow> update_state option"
  hs_error_text :: "apply_error \<Rightarrow> string"
  hs_archive :: "string \<Rightarrow> (tar_member list \<times> bool) option"
  hs_codesign :: "fs \<Rightarrow> string \<Rightarrow> bool"
  hs_run :: "fs \<Rightarrow> string \<Rightarrow> string list \<Rightarrow> string list \<Rightarrow> bool \<times> string"
  hs_temp_dir :: string

definition time_now :: "host \<Rightarrow> net_world \<Rightarrow> int" where
  "time_now hs w = hs_now hs (nw_clock w)"

section \<open>The state file\<close>

definition load_state :: "host \<Rightarrow> string \<Rightarrow> net_world \<Rightarrow> (state_error, update_state) result \<times> net_world" where
  "load_state hs path w =
     (if path = [] then (Inl StatePathRequired, w)
      else if net_fails ReadFile w then (Inl (StateReadFailed path), net_tick w)
      else (case nw_files w path of
              None \<Rightarrow> (Inr zero_state, net_tick w)
            | Some content \<Rightarrow>
                (case hs_decode hs content of
                   None \<Rightarrow> (Inl (StateDecodeFailed path), net_tick w)
                 | Some st \<Rightarrow> (Inr st, net_tick w))))"

definition save_state :: "host \<Rightarrow> string \<Rightarrow> update_state \<Rightarrow> net_world \<Rightarrow> (state_error, unit) result \<times> net_world" where
  "save_state hs path st w =
     (if path = [] then (Inl StatePathRequired, w)
      else (case net_try MakeDir w of
        (False, w) \<Rightarrow> (Inl (StateDirFailed path), w)
      | (True, w) \<Rightarrow>
          (case net_create_temp path w of
             (None, w) \<Rightarrow> (Inl (StateTempFailed path), w)
           | (Some t, w) \<Rightarrow>
               (case net_set TempWrite t (Some (hs_encode hs st @ newline)) w of
                  (False, w) \<Rightarrow> (Inl (StateWriteFailed t), net_remove t w)
                | (True, w) \<Rightarrow>
                    (case net_try TempClose w of
                       (False, w) \<Rightarrow> (Inl (StateCloseFailed t), net_remove t w)
                     | (True, w) \<Rightarrow>
                         (case net_rename t path w of
                            (False, w) \<Rightarrow> (Inl (StateReplaceFailed path), net_remove t w)
                          | (True, w) \<Rightarrow> (Inr (), w)))))))"

section \<open>Checking for an update\<close>

record check_result =
  cr_current_version :: string
  cr_current_commit :: string
  cr_current_build_hash :: string
  cr_latest_tag :: string
  cr_latest_url :: string
  cr_asset :: string
  cr_available :: bool
  cr_dev :: bool

record apply_result =
  ar_check :: check_result
  ar_applied :: bool
  ar_dry_run :: bool
  ar_launch_skipped :: bool

definition no_check :: check_result where
  "no_check =
     \<lparr>cr_current_version = [], cr_current_commit = [], cr_current_build_hash = [], cr_latest_tag = [],
      cr_latest_url = [], cr_asset = [], cr_available = False, cr_dev = False\<rparr>"

definition no_result :: apply_result where
  "no_result = \<lparr>ar_check = no_check, ar_applied = False, ar_dry_run = False, ar_launch_skipped = False\<rparr>"

definition resolve_options :: "host \<Rightarrow> update_options \<Rightarrow> update_options" where
  "resolve_options hs opt =
     (let pf = hs_platform hs; cfg = with_defaults (uo_config opt) in
      opt\<lparr>uo_config := cfg,
         uo_cache := (if uo_cache opt = [] then default_cache_dir (pf_goos pf) (pf_env pf) (cfg_binary cfg) else uo_cache opt),
         io_state := (if io_state opt = [] then default_state_path (pf_env pf) (cfg_binary cfg) else io_state opt),
         io_install := (if io_install opt = [] then hs_executable hs else io_install opt)\<rparr>)"

definition record_check_error :: "host \<Rightarrow> update_options \<Rightarrow> apply_error \<Rightarrow> net_world \<Rightarrow> net_world" where
  "record_check_error hs opt e w =
     (let (loaded, w) = load_state hs (io_state opt) w;
          st = (case loaded of Inl _ \<Rightarrow> zero_state | Inr st \<Rightarrow> st);
          now = time_now hs w;
          st = st\<lparr>st_last_check := now, st_last_result := ''error'', st_last_error := hs_error_text hs e,
                  st_next_check := now + cfg_interval_of (uo_config opt)\<rparr>
      in snd (save_state hs (io_state opt) st w))"

text \<open>The state both a check and an apply write: \<open>AppliedTag\<close> survives from the previous state.\<close>

definition observed_state :: "host \<Rightarrow> update_options \<Rightarrow> check_result \<Rightarrow> string \<Rightarrow> string \<Rightarrow> int \<Rightarrow> update_state" where
  "observed_state hs opt c applied status now =
     \<lparr>st_last_check = now, st_next_check = now + cfg_interval_of (uo_config opt), st_latest = cr_latest_tag c,
      st_applied = applied, st_installed_version = cr_current_version c,
      st_installed_commit = cr_current_commit c, st_installed_build_hash = cr_current_build_hash c,
      st_last_result = status, st_last_error = []\<rparr>"

definition check :: "host \<Rightarrow> update_options \<Rightarrow> net_world \<Rightarrow> (apply_error, check_result) result \<times> net_world" where
  "check hs opt0 w =
     (let opt = resolve_options hs opt0; cfg = uo_config opt; pf = hs_platform hs in
      case validate_config cfg of
        Inl e \<Rightarrow> (Inl (InvalidConfig e), w)
      | Inr _ \<Rightarrow>
          (case fetch_latest_release pf opt w of
             (Inl e, w) \<Rightarrow> (Inl (Updating e), record_check_error hs opt (Updating e) w)
           | (Inr rel, w) \<Rightarrow>
               (case select_archive_asset pf (rl_assets rel) (cfg_binary cfg) of
                  Inl e \<Rightarrow> (Inl (Updating e), record_check_error hs opt (Updating e) w)
                | Inr asset \<Rightarrow>
                    (let c = \<lparr>cr_current_version = cfg_current_version cfg, cr_current_commit = cfg_current_commit cfg,
                           cr_current_build_hash = cfg_current_build_hash cfg, cr_latest_tag = rl_tag rel,
                           cr_latest_url = rl_url rel, cr_asset = as_name asset,
                           cr_available = (\<not> cfg_dirty cfg \<and> release_is_newer pf (cfg_current_version cfg) (rl_tag rel)),
                           cr_dev = cfg_dirty cfg\<rparr>;
                         now = time_now hs w;
                         (previous, w) = load_state hs (io_state opt) w;
                         applied = (case previous of Inl _ \<Rightarrow> [] | Inr st \<Rightarrow> st_applied st)
                     in case save_state hs (io_state opt) (observed_state hs opt c applied ''check'' now) w of
                          (Inl e, w) \<Rightarrow> (Inl (Persisting e), w)
                        | (Inr _, w) \<Rightarrow> (Inr c, w)))))"

definition save_apply_state :: "host \<Rightarrow> update_options \<Rightarrow> apply_result \<Rightarrow> string \<Rightarrow> net_world \<Rightarrow>
    (state_error, unit) result \<times> net_world" where
  "save_apply_state hs opt res status w =
     (let (previous, w) = load_state hs (io_state opt) w;
          applied = (if ar_applied res then cr_latest_tag (ar_check res)
                     else (case previous of Inl _ \<Rightarrow> [] | Inr st \<Rightarrow> st_applied st))
      in save_state hs (io_state opt) (observed_state hs opt (ar_check res) applied status (time_now hs w)) w)"

fun save_apply_set_state :: "host \<Rightarrow> (update_options \<times> apply_result) list \<Rightarrow> net_world \<Rightarrow>
    (state_error, unit) result \<times> net_world" where
  "save_apply_set_state hs [] w = (Inr (), w)"
| "save_apply_set_state hs ((opt, res) # rest) w =
     (let status = (if ar_applied res then ''applied''
                    else if cr_available (ar_check res) \<and> ar_dry_run res then ''dry_run'' else ''current'')
      in case save_apply_state hs opt res status w of
           (Inl e, w) \<Rightarrow> (Inl e, w)
         | (Inr _, w) \<Rightarrow> save_apply_set_state hs rest w)"

section \<open>Candidates\<close>

text \<open>A call of the staging code that touches no file the model tracks, and can fail.\<close>

definition op_try :: "sys_call \<Rightarrow> world \<Rightarrow> bool \<times> world" where
  "op_try c w = (\<not> w_fails c w, w_tick w)"

definition op_discard :: "string \<Rightarrow> world \<Rightarrow> world" where
  "op_discard p w = snd (op_remove p w)"

text \<open>\<open>os.OpenFile\<close> with create and truncate: the file is empty until it is written.\<close>

definition op_truncate :: "string \<Rightarrow> world \<Rightarrow> bool \<times> world" where
  "op_truncate p w =
     (if w_fails CallStageOpen w then (False, w_tick w)
      else (True, w_set Torn (case fs_resolve link_limit (w_fs w) p of
                                Some i \<Rightarrow> fs_write i [] (w_fs w)
                              | None \<Rightarrow> fs_create p [] (w_fs w)) w))"

text \<open>\<open>io.CopyN\<close> of a member into the open file: it fails when the member is shorter than its header says.\<close>

definition op_copy_member :: "string \<Rightarrow> tar_member \<Rightarrow> world \<Rightarrow> bool \<times> world" where
  "op_copy_member p m w =
     (if w_fails CallStageWrite w \<or> int (length (tm_data m)) < tm_size m then (False, w_tick w)
      else (case fs_resolve link_limit (w_fs w) p of
              None \<Rightarrow> (False, w_tick w)
            | Some i \<Rightarrow> (True, w_set Whole (fs_write i (take (nat (tm_size m)) (tm_data m)) (w_fs w)) w)))"

definition unpack_member :: "string \<Rightarrow> tar_member \<Rightarrow> world \<Rightarrow> (extract_error, string) result \<times> world" where
  "unpack_member c m w =
     (case op_truncate c w of
        (False, w) \<Rightarrow> (Inl (CandidateOpenFailed c), op_discard c w)
      | (True, w) \<Rightarrow>
          (let (copied, w) = op_copy_member c m w; (closed, w) = op_try CallStageClose w in
           if \<not> copied then (Inl (CandidateWriteFailed c), op_discard c w)
           else if \<not> closed then (Inl (CandidateCloseFailed c), op_discard c w)
           else (case op_try CallStageChmod w of
                   (False, w) \<Rightarrow> (Inl (CandidateChmodFailed c), op_discard c w)
                 | (True, w) \<Rightarrow> (Inr c, w))))"

text \<open>The loop over the archive: the first member of the binary's name decides.\<close>

fun extract_members :: "string \<Rightarrow> int \<Rightarrow> string \<Rightarrow> tar_member list \<Rightarrow> bool \<Rightarrow> world \<Rightarrow>
    (extract_error, string) result \<times> world" where
  "extract_members binary maxb c [] broken w =
     (Inl (if broken then ArchiveReadFailed else BinaryNotInArchive binary), op_discard c w)"
| "extract_members binary maxb c (m # ms) broken w =
     (if tm_name m \<noteq> binary then extract_members binary maxb c ms broken w
      else if tm_size m \<le> 0 \<or> maxb < tm_size m then (Inl (CandidateSizeRejected (tm_size m)), op_discard c w)
      else unpack_member c m w)"

definition extract_candidate :: "host \<Rightarrow> string option \<Rightarrow> string \<Rightarrow> int \<Rightarrow> string \<Rightarrow> world \<Rightarrow>
    (extract_error, string) result \<times> world" where
  "extract_candidate hs archive binary maxb dir w =
     (case op_try CallStageDir w of
        (False, w) \<Rightarrow> (Inl (CandidateDirFailed dir), w)
      | (True, w) \<Rightarrow>
          (case op_create_temp (temp_join dir (''.'' @ binary @ ''-candidate-'')) w of
             (None, w) \<Rightarrow> (Inl (CandidateCreateFailed dir), w)
           | (Some c, w) \<Rightarrow>
               (case op_try CallStageClose w of
                  (False, w) \<Rightarrow> (Inl (CandidateCloseFailed c), op_discard c w)
                | (True, w) \<Rightarrow>
                    (case archive of
                       None \<Rightarrow> (Inl ArchiveOpenFailed, op_discard c w)
                     | Some content \<Rightarrow>
                         (case hs_archive hs content of
                            None \<Rightarrow> (Inl GzipOpenFailed, op_discard c w)
                          | Some (ms, broken) \<Rightarrow> extract_members binary maxb c ms broken w)))))"

definition verify_candidate_signature :: "host \<Rightarrow> string \<Rightarrow> world \<Rightarrow> bool" where
  "verify_candidate_signature hs c w \<longleftrightarrow>
     pf_goos (hs_platform hs) \<noteq> ''darwin'' \<or> hs_codesign hs (w_fs w) c"

text \<open>
  \<open>validateCandidate\<close>: the code signature, then a launch whose output holds the expected text. A launch
  is taken to change no file of the model.
\<close>

definition validate_candidate :: "host \<Rightarrow> config \<Rightarrow> string \<Rightarrow> world \<Rightarrow> bool" where
  "validate_candidate hs cfg c w \<longleftrightarrow>
     verify_candidate_signature hs c w \<and>
     (let (ok, output) = hs_run hs (w_fs w) c (validate_args_of cfg) (cfg_validate_env cfg)
      in ok \<and> str_contains output (validate_match_of cfg))"

section \<open>Staging\<close>

datatype cleanup = RemoveFile string | RemoveTree string

record staged_candidate = candidate +
  sc_binary :: string
  sc_launch_skipped :: bool
  sc_cleanup :: cleanup

record updater =
  up_net :: net_world
  up_fs :: world

text \<open>\<open>os.MkdirTemp\<close>: a directory no entry lies in yet.\<close>

fun free_dir :: "fs \<Rightarrow> string \<Rightarrow> string list \<Rightarrow> (string \<times> string list) option" where
  "free_dir f pre [] = None"
| "free_dir f pre (s # ss) =
     (if list_all (\<lambda>(k, _). \<not> prefix (pre @ s @ ''/'') k) (fs_entries f) \<and> look f (pre @ s) = None
      then Some (pre @ s, ss) else free_dir f pre ss)"

definition op_mkdir_temp :: "string \<Rightarrow> world \<Rightarrow> string option \<times> world" where
  "op_mkdir_temp pre w =
     (if w_fails CallTempDir w then (None, w_tick w)
      else (case free_dir (w_fs w) pre (w_names w) of
              None \<Rightarrow> (None, w_tick w)
            | Some (d, ss) \<Rightarrow> (Some d, (w_tick w)\<lparr>w_names := ss\<rparr>)))"

definition op_remove_tree :: "string \<Rightarrow> world \<Rightarrow> world" where
  "op_remove_tree d w =
     (let f = w_fs w in
      w_set Whole (f\<lparr>fs_entries := filter (\<lambda>(k, _). \<not> prefix (d @ ''/'') k) (fs_entries f)\<rparr>) w)"

definition run_cleanup :: "cleanup \<Rightarrow> world \<Rightarrow> world" where
  "run_cleanup c w = (case c of RemoveFile p \<Rightarrow> op_discard p w | RemoveTree d \<Rightarrow> op_remove_tree d w)"

fun run_cleanups :: "staged_candidate list \<Rightarrow> world \<Rightarrow> world" where
  "run_cleanups [] w = w"
| "run_cleanups (c # cs) w = run_cleanups cs (run_cleanup (sc_cleanup c) w)"

definition stage_dry_run_candidate :: "host \<Rightarrow> update_options \<Rightarrow> string option \<Rightarrow> world \<Rightarrow>
    (apply_error, staged_candidate) result \<times> world" where
  "stage_dry_run_candidate hs opt archive w =
     (let binary = cfg_binary (uo_config opt) in
      case op_mkdir_temp (temp_join (hs_temp_dir hs) (binary @ ''-dry-run-'')) w of
        (None, w) \<Rightarrow> (Inl DryRunDirFailed, w)
      | (Some d, w) \<Rightarrow>
          (case extract_candidate hs archive binary (cfg_max_binary (uo_config opt)) d w of
             (Inl e, w) \<Rightarrow> (Inl (Extracting e), op_remove_tree d w)
           | (Inr c, w) \<Rightarrow>
               if \<not> verify_candidate_signature hs c w then (Inl (CandidateRejected c), op_remove_tree d w)
               else (Inr \<lparr>cd_path = c, cd_install = io_install opt, sc_binary = binary, sc_launch_skipped = True,
                          sc_cleanup = RemoveTree d\<rparr>, w)))"

definition stage_candidate :: "host \<Rightarrow> update_options \<Rightarrow> release \<Rightarrow> updater \<Rightarrow>
    (apply_error, staged_candidate) result \<times> updater" where
  "stage_candidate hs opt rel u =
     (let cfg = uo_config opt; pf = hs_platform hs in
      if blank (io_install opt) then (Inl InstallPathRequired, u)
      else (case select_archive_asset pf (rl_assets rel) (cfg_binary cfg) of
        Inl e \<Rightarrow> (Inl (Updating e), u)
      | Inr asset \<Rightarrow>
          (case net_try MakeDir (up_net u) of
             (False, w) \<Rightarrow> (Inl (Updating (CacheDirFailed (uo_cache opt))), u\<lparr>up_net := w\<rparr>)
           | (True, w) \<Rightarrow>
               (case fetch_verified_archive pf opt rel asset w of
                  (Inl e, w) \<Rightarrow> (Inl (Updating e), u\<lparr>up_net := w\<rparr>)
                | (Inr archive, w) \<Rightarrow>
                    (let content = nw_files w archive; u = u\<lparr>up_net := w\<rparr> in
                     if uo_dry_run opt
                     then (let (r, f) = stage_dry_run_candidate hs opt content (up_fs u) in (r, u\<lparr>up_fs := f\<rparr>))
                     else (case extract_candidate hs content (cfg_binary cfg) (cfg_max_binary cfg)
                                 (path_dir (io_install opt)) (up_fs u) of
                             (Inl e, f) \<Rightarrow> (Inl (Extracting e), u\<lparr>up_fs := f\<rparr>)
                           | (Inr c, f) \<Rightarrow>
                               if \<not> validate_candidate hs cfg c f
                               then (Inl (CandidateRejected c), u\<lparr>up_fs := op_discard c f\<rparr>)
                               else (Inr \<lparr>cd_path = c, cd_install = io_install opt, sc_binary = cfg_binary cfg,
                                          sc_launch_skipped = False, sc_cleanup = RemoveFile c\<rparr>,
                                     u\<lparr>up_fs := f\<rparr>)))))))"

section \<open>Applying an update to a set\<close>

definition validate_apply_set :: "update_options list \<Rightarrow> (apply_error, unit) result" where
  "validate_apply_set opts =
     (case opts of
        [] \<Rightarrow> Inr ()
      | first # rest \<Rightarrow>
          (case find (\<lambda>o1. cfg_repo (uo_config o1) \<noteq> cfg_repo (uo_config first) \<or> io_state o1 \<noteq> io_state first) rest of
             None \<Rightarrow> Inr ()
           | Some o1 \<Rightarrow>
               if cfg_repo (uo_config o1) \<noteq> cfg_repo (uo_config first)
               then Inl (SetMixesRepositories (cfg_repo (uo_config first)) (cfg_repo (uo_config o1)))
               else Inl (SetMixesStatePaths (io_state first) (io_state o1))))"

definition any_dry_run :: "update_options list \<Rightarrow> bool" where
  "any_dry_run opts \<longleftrightarrow> list_ex uo_dry_run opts"

text \<open>The checks of the set; a failed one leaves the results of those before it.\<close>

fun check_set :: "host \<Rightarrow> update_options list \<Rightarrow> net_world \<Rightarrow> (apply_error option \<times> apply_result list) \<times> net_world" where
  "check_set hs [] w = ((None, []), w)"
| "check_set hs (opt # opts) w =
     (case check hs opt w of
        (Inl e, w) \<Rightarrow> ((Some e, map (\<lambda>_. no_result) (opt # opts)), w)
      | (Inr c, w) \<Rightarrow>
          (let ((e, rs), w) = check_set hs opts w
           in ((e, \<lparr>ar_check = c, ar_applied = False, ar_dry_run = uo_dry_run opt, ar_launch_skipped = False\<rparr> # rs), w)))"

text \<open>
  The staging loop: the results so far, every candidate staged, also when a later one fails, and those
  among them to install.
\<close>

fun stage_set :: "host \<Rightarrow> release \<Rightarrow> (update_options \<times> apply_result) list \<Rightarrow> updater \<Rightarrow>
    (apply_error option \<times> apply_result list \<times> staged_candidate list \<times> candidate list) \<times> updater" where
  "stage_set hs rel [] u = ((None, [], [], []), u)"
| "stage_set hs rel ((opt, res) # rest) u =
     (if \<not> cr_available (ar_check res)
      then (let ((e, rs, cs, ins), u) = stage_set hs rel rest u in ((e, res # rs, cs, ins), u))
      else (let res = res\<lparr>ar_check := (ar_check res)\<lparr>cr_latest_tag := rl_tag rel\<rparr>\<rparr> in
            case stage_candidate hs opt rel u of
              (Inl err, u) \<Rightarrow> ((Some err, res # map snd rest, [], []), u)
            | (Inr c, u) \<Rightarrow>
                (let ((e, rs, cs, ins), u) = stage_set hs rel rest u
                 in ((e, res\<lparr>ar_launch_skipped := sc_launch_skipped c\<rparr> # rs, c # cs,
                      if uo_dry_run opt then ins else candidate.truncate c # ins), u))))"

text \<open>The recorded states of \<open>InstallFs\<close> start again where the install transaction starts.\<close>

definition begin_install :: "world \<Rightarrow> world" where
  "begin_install w = w\<lparr>w_trace := []\<rparr>"

definition base_options :: "update_options list \<Rightarrow> install_option list" where
  "base_options opts = map install_option.truncate opts"

definition set_marker :: "update_options list \<Rightarrow> string" where
  "set_marker opts = install_commit_marker_path (hd (base_options opts))"

definition finish_set :: "host \<Rightarrow> update_options list \<Rightarrow> apply_result list \<Rightarrow> candidate list \<Rightarrow> updater \<Rightarrow>
    (apply_error option \<times> apply_result list) \<times> updater" where
  "finish_set hs opts rs ins u =
     (case install_candidates ins (set_marker opts) (begin_install (up_fs u)) of
        (Inl e, f) \<Rightarrow> ((Some (Installing e), rs), u\<lparr>up_fs := f\<rparr>)
      | (Inr _, f) \<Rightarrow>
          (let rs = map (\<lambda>(opt, res). res\<lparr>ar_applied := cr_available (ar_check res) \<and> \<not> uo_dry_run opt\<rparr>) (zip opts rs)
           in case save_apply_set_state hs (zip opts rs) (up_net u) of
                (Inl e, w) \<Rightarrow> ((Some (Persisting e), rs), u\<lparr>up_net := w, up_fs := f\<rparr>)
              | (Inr _, w) \<Rightarrow> ((None, rs), u\<lparr>up_net := w, up_fs := f\<rparr>)))"

definition update_set :: "host \<Rightarrow> update_options list \<Rightarrow> apply_result list \<Rightarrow> updater \<Rightarrow>
    (apply_error option \<times> apply_result list) \<times> updater" where
  "update_set hs opts rs u =
     (case fetch_latest_release (hs_platform hs) (hd opts) (up_net u) of
        (Inl e, w) \<Rightarrow> ((Some (Updating e), rs), u\<lparr>up_net := w\<rparr>)
      | (Inr rel, w) \<Rightarrow>
          (let ((e, rs, cs, ins), u) = stage_set hs rel (zip opts rs) (u\<lparr>up_net := w\<rparr>);
               ((e, rs), u) = (case e of Some err \<Rightarrow> ((Some err, rs), u) | None \<Rightarrow> finish_set hs opts rs ins u)
           in ((e, rs), u\<lparr>up_fs := run_cleanups cs (up_fs u)\<rparr>)))"

definition apply_set :: "host \<Rightarrow> update_options list \<Rightarrow> updater \<Rightarrow>
    (apply_error option \<times> apply_result list) \<times> updater" where
  "apply_set hs opts u =
     (case (if any_dry_run opts then (Inr (), up_fs u)
            else recover_interrupted_install (base_options opts) (up_fs u)) of
        (Inl e, f) \<Rightarrow> ((Some (Recovering e), map (\<lambda>_. no_result) opts), u\<lparr>up_fs := f\<rparr>)
      | (Inr _, f) \<Rightarrow>
          (let ((e, rs), w) = check_set hs opts (up_net u); u = u\<lparr>up_net := w, up_fs := f\<rparr> in
           case e of
             Some err \<Rightarrow> ((Some err, rs), u)
           | None \<Rightarrow>
               if \<not> list_ex (\<lambda>r. cr_available (ar_check r)) rs
               then (case save_apply_set_state hs (zip opts rs) (up_net u) of
                       (Inl e, w) \<Rightarrow> ((Some (Persisting e), rs), u\<lparr>up_net := w\<rparr>)
                     | (Inr _, w) \<Rightarrow> ((None, rs), u\<lparr>up_net := w\<rparr>))
               else update_set hs opts rs u))"

section \<open>The lock\<close>

text \<open>
  \<open>WithLock\<close>: two looks at the context, the lock file beside the state file, and an exclusive lock that
  is not waited for. Whether another process holds it is the world's answer.
\<close>

definition lock_path :: "string \<Rightarrow> string" where
  "lock_path state = path_join [path_dir state, ''update.lock'']"

definition take_lock :: "string \<Rightarrow> net_world \<Rightarrow> (apply_error, unit) result \<times> net_world" where
  "take_lock state w =
     (if ctx_done w then (Inl ContextCanceled, w)
      else if state = [] then (Inl (Persisting StatePathRequired), w)
      else (case net_try MakeDir w of
        (False, w) \<Rightarrow> (Inl LockDirFailed, w)
      | (True, w) \<Rightarrow>
          (case net_try TempOpen w of
             (False, w) \<Rightarrow> (Inl LockOpenFailed, w)
           | (True, w) \<Rightarrow>
               (case net_try TakeLock w of
                  (False, w) \<Rightarrow> (Inl AlreadyRunning, w)
                | (True, w) \<Rightarrow> if ctx_done w then (Inl ContextCanceled, w) else (Inr (), w)))))"

definition apply_locked :: "host \<Rightarrow> update_options list \<Rightarrow> updater \<Rightarrow>
    (apply_error option \<times> apply_result list) \<times> updater" where
  "apply_locked hs opts u =
     (case take_lock (io_state (hd opts)) (up_net u) of
        (Inl e, w) \<Rightarrow> ((Some e, map (\<lambda>_. no_result) opts), u\<lparr>up_net := w\<rparr>)
      | (Inr _, w) \<Rightarrow> apply_set hs opts (u\<lparr>up_net := w\<rparr>))"

fun resolve_set :: "host \<Rightarrow> update_options list \<Rightarrow> (apply_error, update_options list) result" where
  "resolve_set hs [] = Inr []"
| "resolve_set hs (opt # opts) =
     (let opt = resolve_options hs opt in
      case validate_config (uo_config opt) of
        Inl e \<Rightarrow> Inl (InvalidConfig e)
      | Inr _ \<Rightarrow> map_sum id (\<lambda>opts. opt # opts) (resolve_set hs opts))"

definition apply_all :: "host \<Rightarrow> update_options list \<Rightarrow> updater \<Rightarrow>
    (apply_error option \<times> apply_result list) \<times> updater" where
  "apply_all hs opts u =
     (if opts = [] then ((Some OptionsRequired, []), u)
      else (case resolve_set hs opts of
        Inl e \<Rightarrow> ((Some e, []), u)
      | Inr opts \<Rightarrow>
          (case validate_apply_set opts of
             Inl e \<Rightarrow> ((Some e, []), u)
           | Inr _ \<Rightarrow>
               (let ((e, rs), u) = apply_locked hs opts u in
                case e of
                  None \<Rightarrow> ((None, rs), u)
                | Some err \<Rightarrow> ((Some err, rs), u\<lparr>up_net := record_check_error hs (hd opts) err (up_net u)\<rparr>)))))"

section \<open>Installing from a release\<close>

datatype release_channel = ChannelDefault | ChannelRolling | ChannelStable | ChannelOther string

definition normalize_release_channel :: "release_channel \<Rightarrow> (apply_error, release_channel) result" where
  "normalize_release_channel ch =
     (case ch of
        ChannelDefault \<Rightarrow> Inr ChannelRolling
      | ChannelRolling \<Rightarrow> Inr ch
      | ChannelStable \<Rightarrow> Inr ch
      | ChannelOther s \<Rightarrow> Inl (ChannelInvalid s))"

definition options_for_channel :: "update_options \<Rightarrow> release_channel \<Rightarrow> (apply_error, update_options) result" where
  "options_for_channel opt ch =
     (case normalize_release_channel ch of
        Inl e \<Rightarrow> Inl e
      | Inr ch \<Rightarrow> Inr (opt\<lparr>uo_config := (uo_config opt)\<lparr>cfg_allow_prerelease := Some (ch = ChannelRolling)\<rparr>\<rparr>))"

definition resolve_requested_release :: "host \<Rightarrow> update_options \<Rightarrow> string \<Rightarrow> release_channel \<Rightarrow> net_world \<Rightarrow>
    (apply_error, release) result \<times> net_world" where
  "resolve_requested_release hs opt version ch w =
     (let v = trim_space version in
      if v \<noteq> [] then (let (r, w) = fetch_release_by_tag (hs_platform hs) opt v w in (map_sum Updating id r, w))
      else (case options_for_channel opt ch of
        Inl e \<Rightarrow> (Inl e, w)
      | Inr opt \<Rightarrow> (let (r, w) = fetch_latest_release (hs_platform hs) opt w in (map_sum Updating id r, w))))"

definition validate_install_input :: "config \<Rightarrow> string \<Rightarrow> (config_error, unit) result" where
  "validate_install_input cfg bin_dir =
     (if blank (cfg_repo cfg) then Inl RepoRequired
      else if blank (cfg_binary cfg) then Inl BinaryRequired
      else if blank bin_dir then Inl BinDirRequired
      else Inr ())"

record install_result =
  ir_tag :: string
  ir_asset :: string
  ir_path :: string

definition install_release_binary :: "host \<Rightarrow> update_options \<Rightarrow> string \<Rightarrow> release_channel \<Rightarrow> string \<Rightarrow> updater \<Rightarrow>
    (apply_error, install_result) result \<times> updater" where
  "install_release_binary hs opt0 version ch bin_dir u =
     (let opt = resolve_options hs opt0; cfg = uo_config opt; pf = hs_platform hs in
      case validate_install_input cfg bin_dir of
        Inl e \<Rightarrow> (Inl (InvalidConfig e), u)
      | Inr _ \<Rightarrow>
          (case resolve_requested_release hs opt version ch (up_net u) of
             (Inl e, w) \<Rightarrow> (Inl e, u\<lparr>up_net := w\<rparr>)
           | (Inr rel, w) \<Rightarrow>
               (case select_archive_asset pf (rl_assets rel) (cfg_binary cfg) of
                  Inl e \<Rightarrow> (Inl (Updating e), u\<lparr>up_net := w\<rparr>)
                | Inr asset \<Rightarrow>
                    (case net_try MakeDir w of
                       (False, w) \<Rightarrow> (Inl (Updating (CacheDirFailed (uo_cache opt))), u\<lparr>up_net := w\<rparr>)
                     | (True, w) \<Rightarrow>
                         (case fetch_verified_archive pf opt rel asset w of
                            (Inl e, w) \<Rightarrow> (Inl (Updating e), u\<lparr>up_net := w\<rparr>)
                          | (Inr archive, w) \<Rightarrow>
                              (case extract_candidate hs (nw_files w archive) (cfg_binary cfg) (cfg_max_binary cfg)
                                      bin_dir (up_fs u) of
                                 (Inl e, f) \<Rightarrow> (Inl (Extracting e), u\<lparr>up_net := w, up_fs := f\<rparr>)
                               | (Inr c, f) \<Rightarrow>
                                   (let path = path_join [bin_dir, cfg_binary cfg];
                                        (r, f) = install_candidate c path f;
                                        f = op_discard c f
                                    in (case r of
                                          Inl e \<Rightarrow> Inl (Installing e)
                                        | Inr _ \<Rightarrow> Inr \<lparr>ir_tag = rl_tag rel, ir_asset = as_name asset, ir_path = path\<rparr>,
                                        u\<lparr>up_net := w, up_fs := f\<rparr>))))))))"

text \<open>A symbolic link of the set: its plain name and its target.\<close>

type_synonym install_symlink = "string \<times> string"

definition stage_symlink :: "string \<Rightarrow> install_symlink \<Rightarrow> world \<Rightarrow> (apply_error, staged_candidate) result \<times> world" where
  "stage_symlink bin_dir link w =
     (let (name, target) = link;
          path = (if is_abs target then target else path_join [bin_dir, target])
      in if w_fails CallStat w \<or> fs_resolve link_limit (w_fs w) path = None then (Inl (SymlinkTargetMissing name), w_tick w)
         else (case op_create_temp (temp_join bin_dir (''.'' @ name @ ''-candidate-'')) (w_tick w) of
           (None, w) \<Rightarrow> (Inl (SymlinkReserveFailed name), w)
         | (Some c, w) \<Rightarrow>
             (case op_symlink target c (op_discard c w) of
                (False, w) \<Rightarrow> (Inl (SymlinkStageFailed name), w)
              | (True, w) \<Rightarrow>
                  (Inr \<lparr>cd_path = c, cd_install = path_join [bin_dir, name], sc_binary = name,
                        sc_launch_skipped = False, sc_cleanup = RemoveFile c\<rparr>, w))))"

fun stage_symlinks :: "string \<Rightarrow> install_symlink list \<Rightarrow> world \<Rightarrow>
    (apply_error option \<times> staged_candidate list) \<times> world" where
  "stage_symlinks bin_dir [] w = ((None, []), w)"
| "stage_symlinks bin_dir (l # ls) w =
     (case stage_symlink bin_dir l w of
        (Inl e, w) \<Rightarrow> ((Some e, []), w)
      | (Inr c, w) \<Rightarrow> (let ((e, cs), w) = stage_symlinks bin_dir ls w in ((e, c # cs), w)))"

fun stage_binaries :: "host \<Rightarrow> release \<Rightarrow> update_options list \<Rightarrow> updater \<Rightarrow>
    (apply_error option \<times> install_result list \<times> staged_candidate list) \<times> updater" where
  "stage_binaries hs rel [] u = ((None, [], []), u)"
| "stage_binaries hs rel (opt # opts) u =
     (case stage_candidate hs opt rel u of
        (Inl e, u) \<Rightarrow> ((Some e, [], []), u)
      | (Inr c, u) \<Rightarrow>
          (case select_archive_asset (hs_platform hs) (rl_assets rel) (cfg_binary (uo_config opt)) of
             Inl e \<Rightarrow> ((Some (Updating e), [], [c]), u)
           | Inr asset \<Rightarrow>
               (let ((e, rs, cs), u) = stage_binaries hs rel opts u
                in ((e, \<lparr>ir_tag = rl_tag rel, ir_asset = as_name asset, ir_path = io_install opt\<rparr> # rs, c # cs), u))))"

definition link_options :: "update_options list \<Rightarrow> string \<Rightarrow> install_symlink list \<Rightarrow> install_option list" where
  "link_options opts bin_dir links =
     base_options opts @
       map (\<lambda>(name, _). \<lparr>io_install = path_join [bin_dir, name], io_state = io_state (hd opts)\<rparr>) links"

definition install_staged :: "host \<Rightarrow> update_options list \<Rightarrow> release \<Rightarrow> string \<Rightarrow> install_symlink list \<Rightarrow> updater \<Rightarrow>
    (apply_error, install_result list) result \<times> updater" where
  "install_staged hs opts rel bin_dir links u =
     (let ((e, lcs), f) = stage_symlinks bin_dir links (up_fs u); u = u\<lparr>up_fs := f\<rparr> in
      case e of
        Some err \<Rightarrow> (Inl err, u\<lparr>up_fs := run_cleanups lcs (up_fs u)\<rparr>)
      | None \<Rightarrow>
          (let ((e, rs, cs), u) = stage_binaries hs rel opts u; staged = lcs @ cs in
           case e of
             Some err \<Rightarrow> (Inl err, u\<lparr>up_fs := run_cleanups staged (up_fs u)\<rparr>)
           | None \<Rightarrow>
               (let (r, f) = install_candidates (map candidate.truncate staged) (set_marker opts) (begin_install (up_fs u))
                in (case r of Inl e \<Rightarrow> Inl (Installing e) | Inr _ \<Rightarrow> Inr rs, u\<lparr>up_fs := run_cleanups staged f\<rparr>))))"

definition install_release_set :: "host \<Rightarrow> update_options list \<Rightarrow> string \<Rightarrow> release_channel \<Rightarrow> string \<Rightarrow>
    install_symlink list \<Rightarrow> updater \<Rightarrow> (apply_error, install_result list) result \<times> updater" where
  "install_release_set hs opts version ch bin_dir links u =
     (case recover_interrupted_install (link_options opts bin_dir links) (up_fs u) of
        (Inl e, f) \<Rightarrow> (Inl (Recovering e), u\<lparr>up_fs := f\<rparr>)
      | (Inr _, f) \<Rightarrow>
          (case resolve_requested_release hs (hd opts) version ch (up_net u) of
             (Inl e, w) \<Rightarrow> (Inl e, u\<lparr>up_net := w, up_fs := f\<rparr>)
           | (Inr rel, w) \<Rightarrow> install_staged hs opts rel bin_dir links (u\<lparr>up_net := w, up_fs := f\<rparr>)))"

text \<open>The options of the set: the install path in the bin directory, and never a dry run.\<close>

fun resolve_install_set :: "host \<Rightarrow> string \<Rightarrow> update_options list \<Rightarrow> (apply_error, update_options list) result" where
  "resolve_install_set hs bin_dir [] = Inr []"
| "resolve_install_set hs bin_dir (opt # opts) =
     (let opt = resolve_options hs (opt\<lparr>io_install := path_join [bin_dir, cfg_binary (uo_config opt)], uo_dry_run := False\<rparr>) in
      case validate_install_input (uo_config opt) bin_dir of
        Inl e \<Rightarrow> Inl (InvalidConfig e)
      | Inr _ \<Rightarrow> map_sum id (\<lambda>opts. opt # opts) (resolve_install_set hs bin_dir opts))"

text \<open>Every name the set writes in the bin directory, refused when it occurs twice.\<close>

fun claim_binaries :: "string \<Rightarrow> update_options list \<Rightarrow> string set \<Rightarrow> (apply_error, string set) result" where
  "claim_binaries repo [] names = Inr names"
| "claim_binaries repo (opt # opts) names =
     (let cfg = uo_config opt in
      if cfg_repo cfg \<noteq> repo then Inl (SetMixesRepositories repo (cfg_repo cfg))
      else if cfg_binary cfg \<in> names then Inl (SetRepeatsBinary (cfg_binary cfg))
      else claim_binaries repo opts (insert (cfg_binary cfg) names))"

fun claim_links :: "install_symlink list \<Rightarrow> string set \<Rightarrow> (apply_error, string set) result" where
  "claim_links [] names = Inr names"
| "claim_links ((name, target) # links) names =
     (if name = [] \<or> path_base name \<noteq> name \<or> target = [] then Inl (SymlinkNotPlain name target)
      else if name \<in> names then Inl (SetRepeatsName name)
      else claim_links links (insert name names))"

definition install_release_binaries :: "host \<Rightarrow> update_options list \<Rightarrow> string \<Rightarrow> release_channel \<Rightarrow> string \<Rightarrow>
    install_symlink list \<Rightarrow> updater \<Rightarrow> (apply_error, install_result list) result \<times> updater" where
  "install_release_binaries hs opts version ch bin_dir links u =
     (if opts = [] then (Inl OptionsRequired, u)
      else (case resolve_install_set hs bin_dir opts of
        Inl e \<Rightarrow> (Inl e, u)
      | Inr opts \<Rightarrow>
          (case result_bind (claim_binaries (cfg_repo (uo_config (hd opts))) opts {}) (claim_links links) of
             Inl e \<Rightarrow> (Inl e, u)
           | Inr _ \<Rightarrow>
               (case take_lock (io_state (hd opts)) (up_net u) of
                  (Inl e, w) \<Rightarrow> (Inl e, u\<lparr>up_net := w\<rparr>)
                | (Inr _, w) \<Rightarrow> install_release_set hs opts version ch bin_dir links (u\<lparr>up_net := w\<rparr>)))))"

end
