(* ===== verification/UpdateSafety.thy ===== *)
theory UpdateSafety
  imports Updater
begin

text \<open>
  What the update pipeline of \<open>Updater\<close> guarantees: unpacking and staging touch only fresh hidden names,
  the state file is written atomically, and an update of a set is all or nothing and installs vetted
  binaries only; a dry run changes no install directory.
\<close>

section \<open>Unpacking touches one fresh name\<close>

text \<open>
  \<open>f\<close> is the file system before a candidate was created. \<open>own f c g\<close>: only the new name \<open>c\<close> was added,
  with a new inode. \<open>undone f g\<close>: nothing is left of it.
\<close>

definition own :: "fs \<Rightarrow> string \<Rightarrow> fs \<Rightarrow> bool" where
  "own f c g \<longleftrightarrow> look f c = None \<and> look g c = Some (NFile (fs_next f)) \<and>
     (\<forall>k. k \<noteq> c \<longrightarrow> look g k = look f k) \<and>
     (\<forall>i < fs_next f. fs_data g i = fs_data f i) \<and> fs_next g = Suc (fs_next f)"

definition undone :: "fs \<Rightarrow> fs \<Rightarrow> bool" where
  "undone f g \<longleftrightarrow> (\<forall>k. look g k = look f k) \<and> keeps f g"

lemma undone_refl [simp]: "undone f f"
  by (simp add: undone_def)

lemma own_keeps: "own f c g \<Longrightarrow> keeps f g"
  by (simp add: own_def keeps_def)

lemma own_wf: "own f c g \<Longrightarrow> fs_wf f \<Longrightarrow> fs_wf g"
  unfolding own_def fs_wf_def by (metis less_Suc_eq node.inject(1) option.inject)

lemma undone_wf: "undone f g \<Longrightarrow> fs_wf f \<Longrightarrow> fs_wf g"
  by (fastforce simp: undone_def keeps_def fs_wf_def)

lemma op_try_ok:
  "op_try c w = (b, w') \<Longrightarrow> w_fs w' = w_fs w \<and> world_ok w' = world_ok w"
  by (auto simp: op_try_def)

lemma op_discard_own:
  assumes "world_ok w" "own f c (w_fs w)"
  shows "world_ok (op_discard c w) \<and> undone f (w_fs (op_discard c w))"
proof -
  obtain b w' where rm: "op_remove c w = (b, w')" by fastforce
  note ok = op_remove_ok [OF assms(1) rm]
  show ?thesis
    using ok(1-4) assms(2) rm by (auto simp: op_discard_def undone_def keeps_def own_def)
qed

lemma op_truncate_own:
  assumes "world_ok w" "own f c (w_fs w)" "op_truncate c w = (b, w')"
  shows "world_ok w' \<and> own f c (w_fs w')"
proof -
  have "fs_resolve link_limit (w_fs w) c = Some (fs_next f)"
    using assms(2) by (intro fs_resolve_regular) (simp add: own_def)
  then show ?thesis using assms by (auto simp: op_truncate_def own_def split: if_splits)
qed

lemma op_copy_member_own:
  assumes "world_ok w" "own f c (w_fs w)" "op_copy_member c m w = (b, w')"
  shows "world_ok w' \<and> own f c (w_fs w') \<and>
    (b \<longrightarrow> tm_size m \<le> int (length (tm_data m)) \<and> fs_data (w_fs w') (fs_next f) = take (nat (tm_size m)) (tm_data m))"
proof -
  have "fs_resolve link_limit (w_fs w) c = Some (fs_next f)"
    using assms(2) by (intro fs_resolve_regular) (simp add: own_def)
  then show ?thesis using assms by (auto simp: op_copy_member_def own_def split: if_splits)
qed

text \<open>What a successful extraction wrote.\<close>

definition unpacked :: "string \<Rightarrow> int \<Rightarrow> tar_member list \<Rightarrow> string \<Rightarrow> bool" where
  "unpacked binary maxb ms content \<longleftrightarrow>
     (\<exists>m. find (\<lambda>m. tm_name m = binary) ms = Some m \<and> 0 < tm_size m \<and> tm_size m \<le> maxb \<and>
       tm_size m \<le> int (length (tm_data m)) \<and> content = take (nat (tm_size m)) (tm_data m))"

lemma unpack_member_own:
  assumes "world_ok w" "own f c (w_fs w)" "unpack_member c m w = (r, w')"
  shows "world_ok w' \<and>
    (case r of
       Inl _ \<Rightarrow> undone f (w_fs w')
     | Inr c' \<Rightarrow> c' = c \<and> own f c (w_fs w') \<and> tm_size m \<le> int (length (tm_data m)) \<and>
         fs_data (w_fs w') (fs_next f) = take (nat (tm_size m)) (tm_data m))"
proof -
  obtain b1 w1 where s1: "op_truncate c w = (b1, w1)" by fastforce
  note t = op_truncate_own [OF assms(1,2) s1]
  obtain b2 w2 where s2: "op_copy_member c m w1 = (b2, w2)" by fastforce
  have cp: "world_ok w2" "own f c (w_fs w2)"
    "b2 \<Longrightarrow> tm_size m \<le> int (length (tm_data m)) \<and> fs_data (w_fs w2) (fs_next f) = take (nat (tm_size m)) (tm_data m)"
    using op_copy_member_own [OF _ _ s2] t by blast+
  obtain b3 w3 where s3: "op_try CallStageClose w2 = (b3, w3)" by fastforce
  obtain b4 w4 where s4: "op_try CallStageChmod w3 = (b4, w4)" by fastforce
  have w34: "w_fs w3 = w_fs w2" "world_ok w3" "w_fs w4 = w_fs w2" "world_ok w4"
    using op_try_ok [OF s3] op_try_ok [OF s4] cp(1) by simp_all
  have d: "world_ok (op_discard c w1) \<and> undone f (w_fs (op_discard c w1))"
    "world_ok (op_discard c w3) \<and> undone f (w_fs (op_discard c w3))"
    "world_ok (op_discard c w4) \<and> undone f (w_fs (op_discard c w4))"
    using op_discard_own t cp w34 by metis+
  show ?thesis
    using assms(3) s1 s2 s3 s4 d cp w34
    by (cases b1; cases b2; cases b3; cases b4) (auto simp: unpack_member_def)
qed

lemma extract_members_own:
  assumes "world_ok w" "own f c (w_fs w)" "extract_members binary maxb c ms broken w = (r, w')"
  shows "world_ok w' \<and>
    (case r of
       Inl _ \<Rightarrow> undone f (w_fs w')
     | Inr c' \<Rightarrow> c' = c \<and> own f c (w_fs w') \<and> unpacked binary maxb ms (fs_data (w_fs w') (fs_next f)))"
  using assms
proof (induction ms)
  case Nil
  then show ?case using op_discard_own [OF assms(1,2)] by auto
next
  case (Cons m ms)
  show ?case
  proof (cases "tm_name m = binary \<and> \<not> (tm_size m \<le> 0 \<or> maxb < tm_size m)")
    case True
    then have "unpack_member c m w = (r, w')" using Cons.prems(3) by simp
    then show ?thesis using unpack_member_own [OF assms(1,2)] True
      by (fastforce simp: unpacked_def split: sum.splits)
  next
    case False
    then show ?thesis using Cons op_discard_own [OF assms(1,2)]
      by (auto simp: unpacked_def split: if_splits sum.splits)
  qed
qed

lemma extract_candidate_own:
  assumes "world_ok w" "extract_candidate hs archive binary maxb dir w = (r, w')"
  shows "world_ok w' \<and>
    (case r of
       Inl _ \<Rightarrow> undone (w_fs w) (w_fs w')
     | Inr c \<Rightarrow> own (w_fs w) c (w_fs w') \<and>
         (\<exists>s. slash \<notin> set s \<and> c = temp_join dir (''.'' @ binary @ ''-candidate-'') @ s) \<and>
         (\<exists>a ms broken. archive = Some a \<and> hs_archive hs a = Some (ms, broken) \<and>
           unpacked binary maxb ms (file_at (w_fs w') c)))"
proof -
  let ?pre = "temp_join dir (''.'' @ binary @ ''-candidate-'')"
  obtain b0 w0 where s0: "op_try CallStageDir w = (b0, w0)" by fastforce
  have w0: "w_fs w0 = w_fs w" "world_ok w0" using op_try_ok [OF s0] assms(1) by simp_all
  show ?thesis
  proof (cases "b0 \<and> (\<exists>c. fst (op_create_temp ?pre w0) = Some c)")
    case False
    have "\<exists>e x. r = Inl e \<and> w' = x \<and> (x = w0 \<or> x = w_tick w0)"
    proof (cases b0)
      case True
      then have "op_create_temp ?pre w0 = (None, w_tick w0)"
        using False op_create_temp_cases [of ?pre w0] by (metis fst_conv)
      then show ?thesis using assms(2) s0 True by (auto simp: extract_candidate_def)
    qed (use assms(2) s0 in \<open>auto simp: extract_candidate_def\<close>)
    then show ?thesis using w0 by auto
  next
    case True
    then obtain c w1 where s1: "op_create_temp ?pre w0 = (Some c, w1)"
      by (metis prod.collapse)
    then obtain ss where free: "free_name (w_fs w0) ?pre (w_names w0) = Some (c, ss)"
      and w1: "w1 = (w_set Torn (fs_create c [] (w_fs w0)) w0)\<lparr>w_names := ss\<rparr>"
      using op_create_temp_cases [of ?pre w0] by auto
    have c: "look (w_fs w) c = None" "\<exists>s \<in> set (w_names w0). c = ?pre @ s" "set ss \<subseteq> set (w_names w0)"
      using free_name_fresh [OF free] free_name_suffix [OF free] w0 by simp_all
    have names: "list_all (\<lambda>s. slash \<notin> set s) (w_names w0)" using w0(2) by (simp add: world_ok_def)
    then have ok1: "world_ok w1" using w1 w0(2) c(3) by (auto simp: world_ok_def list_all_iff)
    have own1: "own (w_fs w) c (w_fs w1)" using c(1) w0(1) w1 by (simp add: own_def look_create)
    obtain b2 w2 where s2: "op_try CallStageClose w1 = (b2, w2)" by fastforce
    have w2: "world_ok w2" "own (w_fs w) c (w_fs w2)" using op_try_ok [OF s2] ok1 own1 by simp_all
    note dis = op_discard_own [OF w2]
    have sfx: "\<exists>s. slash \<notin> set s \<and> c = ?pre @ s" using c(2) names by (auto simp: list_all_iff)
    note body = assms(2) [unfolded extract_candidate_def, simplified s0 s1 s2 prod.case, simplified True, simplified]
    show ?thesis
    proof (cases "\<exists>a ms broken. b2 \<and> archive = Some a \<and> hs_archive hs a = Some (ms, broken)")
      case False
      then show ?thesis using body dis s1 s2 by (auto split: bool.splits option.splits)
    next
      case t2: True
      then obtain a ms broken where a: "b2" "archive = Some a" "hs_archive hs a = Some (ms, broken)" by blast
      then have "extract_members binary maxb c ms broken w2 = (r, w')" using body s1 s2 by simp
      note ex = extract_members_own [OF w2 this]
      have "file_at (w_fs w') c = fs_data (w_fs w') (fs_next (w_fs w))" if "own (w_fs w) c (w_fs w')"
        using that by (simp add: own_def file_at_def)
      then show ?thesis using ex a sfx by (auto split: sum.splits)
    qed
  qed
qed

section \<open>Staging keeps the install paths\<close>

text \<open>
  The content of an installed file is vetted for a tag: it is the binary's member of an archive whose
  digest has accepted provenance for that tag and this platform's asset, within the size bound, and
  a file of that content passed the launch check.
\<close>

definition vetted :: "host \<Rightarrow> update_options \<Rightarrow> string \<Rightarrow> string \<Rightarrow> bool" where
  "vetted hs opt tag content \<longleftrightarrow>
     (let pf = hs_platform hs; cfg = uo_config opt in
      \<exists>archive ms broken bundle w c. hs_archive hs archive = Some (ms, broken) \<and>
        unpacked (cfg_binary cfg) (cfg_max_binary cfg) ms content \<and>
        verify_build_provenance_bundle pf bundle opt tag
          (cfg_binary cfg @ ''_'' @ pf_goos pf @ ''_'' @ pf_goarch pf @ ''.tar.gz'')
          (hex_encode (pf_sha256 pf archive)) = Inr () \<and>
        file_at (w_fs w) c = content \<and> validate_candidate hs cfg c w)"

lemma select_archive_name:
  "select_archive_asset pf as binary = Inr a \<Longrightarrow> as_name a = binary @ ''_'' @ pf_goos pf @ ''_'' @ pf_goarch pf @ ''.tar.gz''"
  by (auto simp: select_archive_asset_def Let_def find_Some_iff split: option.splits)

lemma net_try_same: "net_try c w = (b, w') \<Longrightarrow> same_oracles w w'"
  using only_files_snd(1) by (simp add: only_files_def)

lemma stage_candidate_ok:
  assumes "world_ok (up_fs u)" "steady (up_net u)" "\<not> uo_dry_run opt" "stage_candidate hs opt rel u = (r, u')"
  shows "world_ok (up_fs u') \<and> same_oracles (up_net u) (up_net u') \<and>
    (case r of
       Inl _ \<Rightarrow> undone (w_fs (up_fs u)) (w_fs (up_fs u'))
     | Inr c \<Rightarrow> own (w_fs (up_fs u)) (cd_path c) (w_fs (up_fs u')) \<and> cd_install c = io_install opt \<and>
         sc_cleanup c = RemoveFile (cd_path c) \<and>
         (\<exists>s. slash \<notin> set s \<and>
           cd_path c = temp_join (path_dir (io_install opt)) (''.'' @ cfg_binary (uo_config opt) @ ''-candidate-'') @ s) \<and>
         vetted hs opt (rl_tag rel) (file_at (w_fs (up_fs u')) (cd_path c)))"
proof (cases "blank (io_install opt)")
  case True
  then show ?thesis using assms by (auto simp: stage_candidate_def)
next
  case nb: False
  let ?cfg = "uo_config opt" and ?pf = "hs_platform hs"
  show ?thesis
  proof (cases "select_archive_asset ?pf (rl_assets rel) (cfg_binary ?cfg)")
    case (Inl e)
    then show ?thesis using assms nb by (auto simp: stage_candidate_def)
  next
    case asset: (Inr asset)
    obtain b w where s1: "net_try MakeDir (up_net u) = (b, w)" by fastforce
    have same1: "same_oracles (up_net u) w" using net_try_same [OF s1] .
    have st: "steady w" using steady_same [OF same1] assms(2) by simp
    obtain v w2 where s2: "fetch_verified_archive ?pf opt rel asset w = (v, w2)" by fastforce
    have same2: "same_oracles (up_net u) w2"
      using same_oracles_trans [OF same1] fetch_verified_archive_same [OF st s2] by simp
    show ?thesis
    proof (cases "b \<and> (\<exists>a. v = Inr a)")
      case False
      then show ?thesis using assms nb asset s1 s2 same1 same2
        by (cases b; cases v) (auto simp: stage_candidate_def)
    next
      case True
      then obtain archive where v: "b" "v = Inr archive" by blast
      obtain content bnd where chk: "nw_files w2 archive = Some content"
        "verify_build_provenance_bundle ?pf bnd opt (rl_tag rel) (as_name asset)
           (hex_encode (pf_sha256 ?pf content)) = Inr ()"
        using verified_archive_is_checked [OF st s2 [unfolded v(2)]] by blast
      let ?dir = "path_dir (io_install opt)"
      obtain x f where s3: "extract_candidate hs (Some content) (cfg_binary ?cfg) (cfg_max_binary ?cfg) ?dir (up_fs u) = (x, f)"
        by fastforce
      note ex = extract_candidate_own [OF assms(1) s3]
      show ?thesis
      proof (cases x)
        case (Inl e)
        then show ?thesis using assms(3,4) nb asset s1 s2 v chk s3 ex same2
          by (auto simp: stage_candidate_def Let_def)
      next
        case x: (Inr c)
        then have ex: "world_ok f" "own (w_fs (up_fs u)) c (w_fs f)"
          "\<exists>s. slash \<notin> set s \<and> c = temp_join ?dir (''.'' @ cfg_binary ?cfg @ ''-candidate-'') @ s"
          "\<exists>a ms broken. Some content = Some a \<and> hs_archive hs a = Some (ms, broken) \<and>
             unpacked (cfg_binary ?cfg) (cfg_max_binary ?cfg) ms (file_at (w_fs f) c)"
          using ex by simp_all
        show ?thesis
        proof (cases "validate_candidate hs ?cfg c f")
          case False
          then show ?thesis using assms(3,4) nb asset s1 s2 v chk s3 x same2 op_discard_own [OF ex(1,2)]
            by (auto simp: stage_candidate_def Let_def)
        next
          case True
          then have "vetted hs opt (rl_tag rel) (file_at (w_fs f) c)"
            using ex(4) chk(2) select_archive_name [OF asset] unfolding vetted_def Let_def by auto
          then show ?thesis using assms(3,4) nb asset s1 s2 v chk s3 x same2 ex(1-3) True
            by (auto simp: stage_candidate_def Let_def)
        qed
      qed
    qed
  qed
qed

lemma undone_trans: "undone f g \<Longrightarrow> undone g h \<Longrightarrow> undone f h"
  by (fastforce simp: undone_def keeps_def)

lemma keeps_trans: "keeps f g \<Longrightarrow> keeps g h \<Longrightarrow> keeps f h"
  by (fastforce simp: keeps_def)

lemma file_at_keep: "fs_wf f \<Longrightarrow> keeps f g \<Longrightarrow> look g p = look f p \<Longrightarrow> file_at g p = file_at f p"
  by (auto simp: file_at_def fs_wf_def keeps_def split: option.splits node.splits)

text \<open>What holds of a set of staged candidates, against the file system \<open>f\<close> before staging.\<close>

definition staged_over :: "fs \<Rightarrow> staged_candidate list \<Rightarrow> fs \<Rightarrow> bool" where
  "staged_over f cs g \<longleftrightarrow>
     (\<forall>k. k \<notin> cd_path ` set cs \<longrightarrow> look g k = look f k) \<and> keeps f g \<and> fs_wf g \<and>
     distinct (map cd_path cs) \<and>
     (\<forall>c \<in> set cs. look f (cd_path c) = None \<and> regular g (cd_path c) \<and> sc_cleanup c = RemoveFile (cd_path c))"

definition named_for :: "update_options list \<Rightarrow> staged_candidate \<Rightarrow> bool" where
  "named_for opts c \<longleftrightarrow> (\<exists>opt \<in> set opts. cd_install c = io_install opt \<and>
     (\<exists>s. slash \<notin> set s \<and>
       cd_path c = temp_join (path_dir (io_install opt)) (''.'' @ cfg_binary (uo_config opt) @ ''-candidate-'') @ s))"

lemma staged_over_Nil: "undone f g \<Longrightarrow> fs_wf f \<Longrightarrow> staged_over f [] g"
  using undone_wf by (simp add: staged_over_def undone_def)

lemma staged_over_Cons:
  assumes "own f (cd_path c) g" "fs_wf f" "staged_over g cs h" "sc_cleanup c = RemoveFile (cd_path c)"
  shows "staged_over f (c # cs) h" "look h (cd_path c) = look g (cd_path c)"
proof -
  have new: "cd_path c \<notin> cd_path ` set cs" using assms(1,3) by (auto simp: own_def staged_over_def)
  then show "look h (cd_path c) = look g (cd_path c)" using assms(3) by (simp add: staged_over_def)
  then have "regular h (cd_path c)" using assms(1) by (simp add: own_def regular_def)
  moreover have "look f (cd_path d) = None" if "d \<in> set cs" for d
  proof -
    have "look g (cd_path d) = None" using assms(3) that by (simp add: staged_over_def)
    moreover have "cd_path d \<noteq> cd_path c" using new that by (metis image_eqI)
    ultimately show ?thesis using assms(1) by (simp add: own_def)
  qed
  moreover have "look h k = look f k" if "k \<notin> cd_path ` set (c # cs)" for k
    using assms(1,3) that by (simp add: own_def staged_over_def)
  ultimately show "staged_over f (c # cs) h"
    using assms new keeps_trans [OF own_keeps [OF assms(1)]]
    unfolding staged_over_def by (auto simp: own_def)
qed

lemma stage_set_ok:
  assumes "world_ok (up_fs u)" "steady (up_net u)" "fs_wf (w_fs (up_fs u))"
    and "\<forall>(opt, res) \<in> set rest. \<not> uo_dry_run opt"
    and "stage_set hs rel rest u = ((e, rs, cs, ins), u')"
  shows "world_ok (up_fs u') \<and> same_oracles (up_net u) (up_net u') \<and>
    staged_over (w_fs (up_fs u)) cs (w_fs (up_fs u')) \<and> list_all (named_for (map fst rest)) cs \<and>
    ins = map candidate.truncate cs \<and>
    list_all2 (\<lambda>(opt, res) r. cr_available (ar_check r) = cr_available (ar_check res) \<and>
       ar_applied r = ar_applied res \<and>
       (e = None \<longrightarrow> cr_available (ar_check res) \<longrightarrow> cr_latest_tag (ar_check r) = rl_tag rel)) rest rs \<and>
    (e = None \<longrightarrow>
       map cd_install cs = map (\<lambda>(opt, res). io_install opt) (filter (\<lambda>(opt, res). cr_available (ar_check res)) rest) \<and>
       list_all2 (\<lambda>c (opt, res). vetted hs opt (rl_tag rel) (file_at (w_fs (up_fs u')) (cd_path c))) cs
         (filter (\<lambda>(opt, res). cr_available (ar_check res)) rest))"
  using assms
proof (induction rest arbitrary: u e rs cs ins u')
  case Nil
  then show ?case by (auto intro: staged_over_Nil)
next
  case (Cons pr rest)
  obtain opt res where pr: "pr = (opt, res)" by fastforce
  have dry: "\<not> uo_dry_run opt" using Cons.prems(4) pr by simp
  have named_mono: "named_for (map fst rest) c \<Longrightarrow> named_for (map fst (pr # rest)) c" for c
    by (auto simp: named_for_def)
  show ?case
  proof (cases "cr_available (ar_check res)")
    case False
    then obtain rs1 where s: "stage_set hs rel rest u = ((e, rs1, cs, ins), u')" "rs = res # rs1"
      using Cons.prems(5) pr by (auto split: prod.splits)
    note IH = Cons.IH [OF Cons.prems(1-3) _ s(1)]
    then show ?thesis using Cons.prems(4) s(2) pr False named_mono by (auto simp: list_all_iff)
  next
    case av: True
    obtain x u1 where s1: "stage_candidate hs opt rel u = (x, u1)" by fastforce
    note st = stage_candidate_ok [OF Cons.prems(1,2) dry s1]
    show ?thesis
    proof (cases x)
      case (Inl err)
      have self: "list_all2 (\<lambda>(opt, res) r. cr_available (ar_check r) = cr_available (ar_check res) \<and>
          ar_applied r = ar_applied res) xs (map snd xs)" for xs :: "(update_options \<times> apply_result) list"
        by (induction xs) auto
      show ?thesis using Cons.prems(3,5) pr av s1 Inl st staged_over_Nil
          self [of rest] by (auto simp: Let_def)
    next
      case x: (Inr c)
      obtain e1 rs1 cs1 ins1 u2 where s2: "stage_set hs rel rest u1 = ((e1, rs1, cs1, ins1), u2)"
        by (metis prod.exhaust)
      have out: "e = e1" "cs = c # cs1" "ins = candidate.truncate c # ins1" "u' = u2"
        "rs = res\<lparr>ar_check := (ar_check res)\<lparr>cr_latest_tag := rl_tag rel\<rparr>, ar_launch_skipped := sc_launch_skipped c\<rparr> # rs1"
        using Cons.prems(5) pr av s1 x s2 dry by (auto simp: Let_def)
      have own: "own (w_fs (up_fs u)) (cd_path c) (w_fs (up_fs u1))" "sc_cleanup c = RemoveFile (cd_path c)"
        and wf: "fs_wf (w_fs (up_fs u1))" "world_ok (up_fs u1)" "steady (up_net u1)"
        using st x own_wf Cons.prems(2,3) steady_same by (auto split: sum.splits)
      note IH = Cons.IH [OF wf(2,3,1) _ s2]
      have IH': "staged_over (w_fs (up_fs u1)) cs1 (w_fs (up_fs u2))" "same_oracles (up_net u1) (up_net u2)"
        using IH Cons.prems(4) by auto
      note sc = staged_over_Cons [OF own(1) Cons.prems(3) IH'(1) own(2)]
      have "file_at (w_fs (up_fs u2)) (cd_path c) = file_at (w_fs (up_fs u1)) (cd_path c)"
        using file_at_keep [OF wf(1) _ sc(2)] IH'(1) by (simp add: staged_over_def)
      then have "vetted hs opt (rl_tag rel) (file_at (w_fs (up_fs u2)) (cd_path c))"
        using st x by simp
      moreover have "named_for (map fst (pr # rest)) c" "cd_install c = io_install opt"
        using st x pr by (auto simp: named_for_def)
      moreover have "same_oracles (up_net u) (up_net u2)"
        using st same_oracles_trans IH'(2) by blast
      ultimately show ?thesis
        using IH Cons.prems(4) out pr av sc(1) named_mono by (auto simp: list_all_iff)
    qed
  qed
qed

section \<open>Checks touch no install directory and keep the oracles\<close>

lemma net_create_temp_same: "net_create_temp p w = (x, w') \<Longrightarrow> same_oracles w w'"
  using only_files_snd(3) by (simp add: only_files_def)

lemma net_set_same: "net_set c p v w = (b, w') \<Longrightarrow> same_oracles w w'"
  using only_files_snd(2) by (simp add: only_files_def)

lemma net_rename_same: "net_rename p q w = (b, w') \<Longrightarrow> same_oracles w w'"
  using only_files_snd(4) by (simp add: only_files_def)

lemma net_remove_same: "same_oracles w (net_remove p w)"
  using only_files_steps(6) by (simp add: only_files_def)

lemma load_state_run:
  "load_state hs path w = (r, w') \<Longrightarrow> same_oracles w w' \<and> nw_files w' = nw_files w"
  by (auto simp: load_state_def split: if_splits option.splits)

lemma save_state_run:
  assumes "steady w" "save_state hs path st w = (r, w')"
  shows "same_oracles w w' \<and> (case r of
      Inl _ \<Rightarrow> nw_files w' = nw_files w
    | Inr _ \<Rightarrow> path \<noteq> [] \<and> nw_files w' = (nw_files w)(path \<mapsto> hs_encode hs st @ newline))"
proof (cases "path = []")
  case True
  then show ?thesis using assms(2) by (auto simp: save_state_def)
next
  case ne: False
  obtain b1 w1 where s1: "net_try MakeDir w = (b1, w1)" by fastforce
  obtain o2 w2 where s2: "net_create_temp path w1 = (o2, w2)" by fastforce
  note o1 = net_try_same [OF s1] and f1 = net_try_files [OF s1]
  have same2: "same_oracles w w2" using same_oracles_trans [OF o1 net_create_temp_same [OF s2]] .
  show ?thesis
  proof (cases "b1 \<and> o2 \<noteq> None")
    case False
    then show ?thesis using assms(2) ne s1 s2 o1 f1 same2 net_create_temp_none [of path w1 w2]
      by (cases b1; cases o2) (auto simp: save_state_def)
  next
    case True
    then obtain t where t: "b1" "o2 = Some t" by auto
    obtain b3 w3 where s3: "net_set TempWrite t (Some (hs_encode hs st @ newline)) w2 = (b3, w3)" by fastforce
    obtain b4 w4 where s4: "net_try TempClose w3 = (b4, w4)" by fastforce
    obtain b5 w5 where s5: "net_rename t path w4 = (b5, w5)" by fastforce
    have same3: "same_oracles w w3" using same_oracles_trans [OF same2 net_set_same [OF s3]] .
    have same4: "same_oracles w w4" using same_oracles_trans [OF same3 net_try_same [OF s4]] .
    have same5: "same_oracles w w5" using same_oracles_trans [OF same4 net_rename_same [OF s5]] .
    have files: "nw_files w t = None" "nw_files w2 = (nw_files w)(t \<mapsto> [])"
      using net_create_temp_free [OF s2 [unfolded t(2)]] f1 by simp_all
    have f3: "nw_files w3 = (if b3 then (nw_files w2)(t \<mapsto> hs_encode hs st @ newline) else nw_files w2)"
      "nw_files w4 = nw_files w3"
      using net_set_files [OF s3] net_try_files [OF s4] by simp_all
    have undo: "nw_files (net_remove t x) = nw_files w" "same_oracles w (net_remove t x)"
      if "same_oracles w x" "nw_files x = (nw_files w)(t := v)" for x v
      using net_remove_steady [of x] steady_same [OF that(1)] assms(1) that files(1)
        same_oracles_trans [OF that(1) net_remove_same] by (auto simp: fun_upd_idem)
    show ?thesis
    proof (cases "b3 \<and> b4 \<and> b5")
      case True
      then have "nw_files w5 = (nw_files w)(path \<mapsto> hs_encode hs st @ newline)"
        using net_rename_files [OF s5] f3 files by (auto simp: fun_upd_idem)
      then show ?thesis using assms(2) ne s1 s2 s3 s4 s5 t True same5 by (auto simp: save_state_def)
    next
      case False
      have "nw_files w5 = nw_files w4" if "\<not> b5" using net_rename_files [OF s5] that by simp
      then have "nw_files (net_remove t w3) = nw_files w" "same_oracles w (net_remove t w3)"
        "nw_files (net_remove t w4) = nw_files w" "same_oracles w (net_remove t w4)"
        "\<not> b5 \<Longrightarrow> nw_files (net_remove t w5) = nw_files w" "same_oracles w (net_remove t w5)"
        using undo [OF same3] undo [OF same4] undo [OF same5] f3 files
          same_oracles_trans [OF same5 net_remove_same] by (cases b3; auto)+
      then show ?thesis using assms(2) ne s1 s2 s3 s4 s5 t False
        by (cases b3; cases b4; cases b5) (auto simp: save_state_def)
    qed
  qed
qed

lemma record_check_error_same:
  assumes "steady w"
  shows "same_oracles w (record_check_error hs opt e w)"
proof -
  obtain l w1 where s1: "load_state hs (io_state opt) w = (l, w1)" by fastforce
  have l: "same_oracles w w1" using load_state_run [OF s1] by simp
  have st: "steady w1" using steady_same [OF l] assms by simp
  have "same_oracles w1 (snd (save_state hs (io_state opt) s w1))" for s
    using save_state_run [OF st, of hs "io_state opt" s] by (metis prod.collapse)
  then show ?thesis using l s1 same_oracles_trans by (auto simp: record_check_error_def Let_def)
qed

lemma fetch_newest_feed_tag_same:
  assumes "fetch_newest_feed_tag pf opt w = (r, w')"
  shows "same_oracles w w'"
proof -
  obtain m w1 where s: "fetch_release_metadata (release_web_base_url (pf_env pf) (uo_config opt) @ ''/'' @
      cfg_repo (uo_config opt) @ ''/releases.atom'') w = (m, w1)" by fastforce
  then have "w' = w1" using assms
    by (cases m) (auto simp: fetch_newest_feed_tag_def Let_def split: option.splits list.splits prod.splits if_splits)
  then show ?thesis using fetch_release_metadata_run [OF s] by simp
qed

lemma fetch_latest_stable_tag_same:
  assumes "fetch_latest_stable_tag pf opt w = (r, w')"
  shows "same_oracles w w'"
proof -
  obtain m w1 where s: "net_request (release_web_base_url (pf_env pf) (uo_config opt) @ ''/'' @
      cfg_repo (uo_config opt) @ ''/releases/latest'') w = (m, w1)" by fastforce
  then have "w' = w1" using assms
    by (cases m) (auto simp: fetch_latest_stable_tag_def Let_def split: option.splits prod.splits if_splits)
  then show ?thesis using net_request_run [OF s] by simp
qed

lemma fetch_latest_release_same:
  assumes "fetch_latest_release pf opt w = (r, w')"
  shows "same_oracles w w'"
proof -
  obtain m w1 where s: "(if allow_prerelease (uo_config opt) then fetch_newest_feed_tag else fetch_latest_stable_tag) pf opt w = (m, w1)"
    by fastforce
  have one: "same_oracles w w1"
    using s fetch_newest_feed_tag_same fetch_latest_stable_tag_same by (auto split: if_splits)
  show ?thesis
  proof (cases m)
    case (Inl e)
    then show ?thesis using assms s one by (simp add: fetch_latest_release_def)
  next
    case (Inr tag)
    then have "fetch_release_by_tag pf opt tag w1 = (r, w')" using assms s by (simp add: fetch_latest_release_def)
    then show ?thesis using one fetch_release_by_tag_run same_oracles_trans by blast
  qed
qed

lemma check_same:
  assumes "steady w" "check hs opt w = (r, w')"
  shows "same_oracles w w'"
proof -
  let ?opt = "resolve_options hs opt"
  obtain m w1 where s1: "fetch_latest_release (hs_platform hs) ?opt w = (m, w1)" by fastforce
  have same1: "same_oracles w w1" using fetch_latest_release_same [OF s1] .
  have st1: "steady w1" using steady_same [OF same1] assms(1) by simp
  obtain p w2 where s2: "load_state hs (io_state ?opt) w1 = (p, w2)" by fastforce
  have same2: "same_oracles w w2" using same_oracles_trans [OF same1] load_state_run [OF s2] by simp
  have st2: "steady w2" using steady_same [OF same2] assms(1) by simp
  have save: "same_oracles w w3" if "save_state hs (io_state ?opt) s w2 = (x, w3)" for s x w3
    using same_oracles_trans [OF same2] save_state_run [OF st2 that] by simp
  have err: "same_oracles w (record_check_error hs ?opt e w1)" for e
    using same_oracles_trans [OF same1 record_check_error_same [OF st1]] .
  show ?thesis
    using assms(2) s1 s2 save err
    by (auto simp: check_def Let_def split: sum.splits prod.splits)
qed

lemma check_set_run:
  "steady w \<Longrightarrow> check_set hs opts w = ((e, rs), w') \<Longrightarrow>
   same_oracles w w' \<and> length rs = length opts \<and> list_all (\<lambda>r. \<not> ar_applied r) rs"
proof (induction opts arbitrary: w e rs w')
  case (Cons opt opts)
  obtain r w1 where s: "check hs opt w = (r, w1)" by fastforce
  have same: "same_oracles w w1" using check_same [OF Cons.prems(1) s] .
  show ?case
  proof (cases r)
    case (Inl x)
    then show ?thesis using Cons.prems s same by (auto simp: no_result_def list_all_iff)
  next
    case (Inr c)
    obtain e1 rs1 w2 where s2: "check_set hs opts w1 = ((e1, rs1), w2)" by (metis prod.exhaust)
    have "steady w1" using steady_same [OF same] Cons.prems(1) by simp
    from Cons.IH [OF this s2] show ?thesis
      using Cons.prems(2) s Inr s2 same same_oracles_trans by auto
  qed
qed simp

text \<open>
  Saving the state is atomic and loading gives it back: a save that fails leaves every file as it
  was, and after one that succeeds the next load returns the saved state.
\<close>

theorem state_roundtrip:
  assumes "steady w" "hs_decode hs (hs_encode hs st @ newline) = Some st"
    and "save_state hs path st w = (r, w')"
  shows "case r of
      Inl _ \<Rightarrow> nw_files w' = nw_files w
    | Inr _ \<Rightarrow> (\<forall>p. p \<noteq> path \<longrightarrow> nw_files w' p = nw_files w p) \<and>
        (\<not> nw_fault w ReadFile (nw_clock w') \<longrightarrow> fst (load_state hs path w') = Inr st)"
proof -
  note run = save_state_run [OF assms(1,3)]
  have "nw_fault w' = nw_fault w" using run by (simp add: same_oracles_def)
  then show ?thesis using run assms(2)
    by (auto simp: load_state_def net_fails_def split: sum.splits)
qed
section \<open>An update of a set\<close>

text \<open>
  What an update starts from: install paths that are regular files with separate names, named so that
  each candidate's hidden name is the one recovery looks for, and nothing left over.
\<close>

definition set_ready :: "update_options list \<Rightarrow> fs \<Rightarrow> bool" where
  "set_ready opts f \<longleftrightarrow>
     opts \<noteq> [] \<and> separated (map io_install opts) (set_marker opts) \<and>
     list_all (\<lambda>o1. regular f (io_install o1) \<and> fs_glob (backup_prefix (io_install o1)) f = [] \<and>
       fs_glob (candidate_prefix (io_install o1)) f = [] \<and>
       temp_join (path_dir (io_install o1)) (''.'' @ cfg_binary (uo_config o1) @ ''-candidate-'') =
         candidate_prefix (io_install o1)) opts \<and>
     list_all (\<lambda>(k, n). case n of NFile i \<Rightarrow> i < fs_next f | NLink _ \<Rightarrow> True) (fs_entries f) \<and>
     look f (set_marker opts) = None"

lemma set_ready_wf: "set_ready opts f \<Longrightarrow> fs_wf f"
  by (fastforce simp: set_ready_def fs_wf_def look_def list_all_iff dest!: map_of_SomeD)

lemma map_io_base [simp]: "map io_install (base_options opts) = map io_install opts"
  by (simp add: base_options_def install_option.defs)

lemma set_marker_base: "opts \<noteq> [] \<Longrightarrow> install_commit_marker_path (hd (base_options opts)) = set_marker opts"
  by (simp add: set_marker_def)

lemma recover_nothing:
  assumes "set_ready opts (w_fs w)"
  shows "recover_interrupted_install (base_options opts) w = (Inr (), w)"
proof -
  have one: "recover_option False (install_option.truncate o1) w = (Inr (), w)" if "o1 \<in> set opts" for o1
    using assms that
    by (simp add: recover_option_def recover_backups_def set_ready_def list_all_iff Let_def install_option.defs)
  have "recover_options False (map install_option.truncate os) w = (Inr (), w)" if "set os \<subseteq> set opts" for os
    using that one by (induction os) auto
  then have "recover_options False (base_options opts) w = (Inr (), w)" by (simp add: base_options_def)
  moreover have "fs_resolve link_limit (w_fs w) (install_commit_marker_path (hd (base_options opts))) = None"
    using assms by (simp add: set_ready_def set_marker_def link_limit_def eval_nat_numeral)
  ultimately show ?thesis by (simp add: recover_interrupted_install_def)
qed

text \<open>Removing names that only a staged candidate has keeps what recovery needs.\<close>

definition hidden_frame :: "string list \<Rightarrow> fs \<Rightarrow> fs \<Rightarrow> bool" where
  "hidden_frame ps f g \<longleftrightarrow> fs_data g = fs_data f \<and>
     (\<forall>k. (\<forall>p \<in> set ps. \<not> matches (candidate_prefix p) k) \<longrightarrow> look g k = look f k)"

lemma hidden_frame_watched:
  assumes "separated ps m" "hidden_frame ps f g" "p \<in> set ps" "watched p k"
  shows "look g k = look f k"
proof -
  have "\<not> matches (candidate_prefix q) k" if "q \<in> set ps" for q
    using separated_D(5,6) [OF assms(1) that assms(3)] assms(4) by (auto simp: watched_def)
  then show ?thesis using assms(2) by (simp add: hidden_frame_def)
qed

lemma hidden_frame_marker:
  "separated ps m \<Longrightarrow> hidden_frame ps f g \<Longrightarrow> look g m = look f m"
  using separated_D(3) by (auto simp: hidden_frame_def touched_def)

lemma hidden_frame_keeps:
  assumes "separated ps m" "hidden_frame ps f g"
  shows "uncommitted ps m v f \<Longrightarrow> uncommitted ps m v g" "restored ps m v f \<Longrightarrow> restored ps m v g"
proof -
  note w = hidden_frame_watched [OF assms] and mk = hidden_frame_marker [OF assms]
  have d: "fs_data g = fs_data f" using assms(2) by (simp add: hidden_frame_def)
  show "uncommitted ps m v f \<Longrightarrow> uncommitted ps m v g"
    using pre_ok_same [OF d w] mk by (simp add: uncommitted_def)
  have "backups g p = backups f p" "slot g p u = slot f p u" if "p \<in> set ps" for p u
    using backups_frame [OF w [OF that]] slot_same [OF d w [OF that]] by (auto simp: watched_def)
  then show "restored ps m v f \<Longrightarrow> restored ps m v g"
    using mk by (simp add: restored_def)
qed

lemma run_cleanups_frame:
  assumes "list_all (\<lambda>c. sc_cleanup c = RemoveFile (cd_path c) \<and>
      (\<exists>p \<in> set ps. matches (candidate_prefix p) (cd_path c))) cs"
  shows "hidden_frame ps (w_fs w) (w_fs (run_cleanups cs w))"
  using assms
proof (induction cs arbitrary: w)
  case (Cons c cs)
  have "hidden_frame ps (w_fs w) (w_fs (run_cleanup (sc_cleanup c) w))"
    using Cons.prems by (auto simp: hidden_frame_def run_cleanup_def op_discard_def op_remove_def look_laws)
  moreover have "hidden_frame ps (w_fs (run_cleanup (sc_cleanup c) w)) (w_fs (run_cleanups (c # cs) w))"
    using Cons by simp
  ultimately show ?case by (simp add: hidden_frame_def)
qed (simp add: hidden_frame_def)

lemma named_for_matches:
  assumes "set_ready opts f" "named_for opts c"
  shows "cd_install c \<in> set (map io_install opts)" "matches (candidate_prefix (cd_install c)) (cd_path c)"
  using assms by (auto simp: named_for_def set_ready_def list_all_iff matches_def)

text \<open>The staged candidates are what the install transaction asks for.\<close>

lemma staged_installing:
  assumes "set_ready opts f" "staged_over f cs g" "list_all (named_for opts) cs" "distinct (map cd_install cs)"
  defines "ins \<equiv> map candidate.truncate cs"
  shows "staged (map io_install opts) ins []"
    "installing (map io_install opts) (set_marker opts) (file_at f) (staged_content ins g) ins [] [] g"
proof -
  let ?ps = "map io_install opts" and ?m = "set_marker opts"
  note nm = named_for_matches [OF assms(1)]
  have tr: "map cd_install ins = map cd_install cs" "map cd_path ins = map cd_path cs"
    by (simp_all add: ins_def candidate.defs)
  have ins_iff: "\<exists>d \<in> set cs. cd_install c = cd_install d \<and> cd_path c = cd_path d" if "c \<in> set ins" for c
    using that by (auto simp: ins_def candidate.defs)
  have sep: "separated ?ps ?m" using assms(1) by (simp add: set_ready_def)
  show st: "staged ?ps ins []"
  proof -
    have "distinct (map cd_install ins)" "distinct (map cd_path ins)"
      using assms(2,4) tr by (simp_all add: staged_over_def)
    moreover have "cd_install c \<in> set ?ps \<and> matches (candidate_prefix (cd_install c)) (cd_path c)" if "c \<in> set ins" for c
      using ins_iff [OF that] nm assms(3) by (auto simp: list_all_iff)
    ultimately show ?thesis by (auto simp: staged_def)
  qed
  have wf: "fs_wf f" using set_ready_wf [OF assms(1)] .
  have untouched: "look g k = look f k" if "\<forall>p \<in> set ?ps. \<not> matches (candidate_prefix p) k" for k
  proof -
    have "k \<noteq> cd_path c" if "c \<in> set cs" for c
      using \<open>\<forall>p \<in> set ?ps. \<not> matches (candidate_prefix p) k\<close> nm [of c] assms(3) that
      by (auto simp: list_all_iff simp del: set_map)
    then have "k \<notin> cd_path ` set cs" by blast
    then show ?thesis using assms(2) by (simp add: staged_over_def)
  qed
  have w: "look g k = look f k" if "p \<in> set ?ps" "watched p k" for p k
    using separated_D(5,6) [OF sep _ that(1)] that(2) by (intro untouched) (auto simp: watched_def)
  have m: "look g ?m = None"
    using untouched [of ?m] separated_D(3) [OF sep] assms(1) by (auto simp: touched_def set_ready_def)
  have kp: "keeps f g" "fs_wf g" using assms(2) by (simp_all add: staged_over_def)
  have "backups g p = {} \<and> slot g p (file_at f p)" if p: "p \<in> set ?ps" for p
  proof -
    have "backups f p = {}" "slot f p (file_at f p)"
      using assms(1) p regular_slot by (auto simp: set_ready_def list_all_iff backups_def)
    then show ?thesis
      using backups_frame [of p g f] w [OF p] slot_frame [OF wf kp(1)] by (auto simp: watched_def)
  qed
  moreover have "slot g (cd_path c) (staged_content ins g (cd_install c))" if c: "c \<in> set ins" for c
  proof -
    have "distinct (map cd_install ins)" using assms(4) tr by simp
    then have "find (\<lambda>d. cd_install d = cd_install c) ins = Some c"
      using c by (induction ins) auto
    then have "staged_content ins g (cd_install c) = file_at g (cd_path c)" by (simp add: staged_content_def)
    moreover have "regular g (cd_path c)" using ins_iff [OF c] assms(2) by (auto simp: staged_over_def)
    ultimately show ?thesis using regular_slot by simp
  qed
  ultimately show "installing ?ps ?m (file_at f) (staged_content ins g) ins [] [] g"
    using m kp(2) by (auto simp: installing_def)
qed

lemma recovered_set:
  assumes "opts \<noteq> []" "separated (map io_install opts) (set_marker opts)"
    and "uncommitted (map io_install opts) (set_marker opts) v f"
  shows "\<exists>g. recovered (base_options opts) f = (Inr (), g) \<and> restored (map io_install opts) (set_marker opts) v g"
proof -
  have "base_options opts \<noteq> []" using assms(1) by (simp add: base_options_def)
  from recovered_uncommitted [OF this, unfolded map_io_base set_marker_base [OF assms(1)], OF assms(2,3)]
  show ?thesis .
qed

lemma install_staged_ok:
  assumes "set_ready opts f" "staged_over f cs (w_fs w)" "list_all (named_for opts) cs" "distinct (map cd_install cs)"
    and "world_ok w" "install_candidates (map candidate.truncate cs) (set_marker opts) (begin_install w) = (r, w')"
  shows "case r of
      Inl _ \<Rightarrow> \<exists>g. recovered (base_options opts) (w_fs (run_cleanups cs w')) = (Inr (), g) \<and>
        list_all (\<lambda>p. file_at g p = file_at f p) (map io_install opts)
    | Inr _ \<Rightarrow> restored (map io_install opts) (set_marker opts)
        (settled (file_at f) (staged_content (map candidate.truncate cs) (w_fs w)) (cd_install ` set cs))
        (w_fs (run_cleanups cs w'))"
proof -
  let ?ps = "map io_install opts" and ?m = "set_marker opts" and ?ins = "map candidate.truncate cs"
  have sep: "separated ?ps ?m" and ne: "opts \<noteq> []" using assms(1) by (simp_all add: set_ready_def)
  note st = staged_installing [OF assms(1-4)]
  have bw: "world_ok (begin_install w)" "w_trace (begin_install w) = []" "w_fs (begin_install w) = w_fs w"
    using assms(5) by (simp_all add: begin_install_def world_ok_def)
  have img: "cd_install ` set ?ins = cd_install ` set cs" by (simp add: image_image candidate.defs)
  note ok = install_candidates_ok [OF bw(1,2) sep st(1) st(2) [folded bw(3)] assms(6), unfolded img]
  have fr: "hidden_frame ?ps (w_fs w') (w_fs (run_cleanups cs w'))"
    using assms(2,3) named_for_matches [OF assms(1)]
    by (intro run_cleanups_frame) (fastforce simp: list_all_iff staged_over_def)
  show ?thesis
  proof (cases r)
    case (Inl e)
    have "uncommitted ?ps ?m (file_at f) (w_fs (run_cleanups cs w'))"
      using hidden_frame_keeps(1) [OF sep fr] ok Inl by simp
    then obtain g where "recovered (base_options opts) (w_fs (run_cleanups cs w')) = (Inr (), g)"
      "restored ?ps ?m (file_at f) g"
      using recovered_set [OF ne sep] by blast
    then show ?thesis using Inl restored_file_at by (auto simp: list_all_iff)
  next
    case (Inr x)
    then show ?thesis using hidden_frame_keeps(2) [OF sep fr] ok bw(3) by simp
  qed
qed

text \<open>A set left as it was is recovered to itself.\<close>

lemma untouched_recovers:
  assumes "set_ready opts f" "hidden_frame (map io_install opts) h g" "fs_wf h" "keeps f h"
    and "\<And>k. (\<forall>p \<in> set (map io_install opts). \<not> matches (candidate_prefix p) k) \<Longrightarrow> look h k = look f k"
  shows "\<exists>x. recovered (base_options opts) g = (Inr (), x) \<and>
    list_all (\<lambda>p. file_at x p = file_at f p) (map io_install opts)"
proof -
  let ?ps = "map io_install opts" and ?m = "set_marker opts"
  have sep: "separated ?ps ?m" and ne: "opts \<noteq> []" using assms(1) by (simp_all add: set_ready_def)
  have w: "look h k = look f k" if "p \<in> set ?ps" "watched p k" for p k
    using separated_D(5,6) [OF sep _ that(1)] that(2) by (intro assms(5)) (auto simp: watched_def)
  have "pre_ok f p (file_at f p)" if "p \<in> set ?ps" for p
    using assms(1) that regular_slot by (auto simp: pre_ok_def set_ready_def list_all_iff backups_def)
  then have "pre_ok h p (file_at f p)" if "p \<in> set ?ps" for p
    using pre_ok_frame [OF set_ready_wf [OF assms(1)] assms(4) w [OF that]] that by blast
  moreover have "look h ?m = None"
    using assms(5) [of ?m] separated_D(3) [OF sep] assms(1) by (auto simp: touched_def set_ready_def)
  ultimately have "uncommitted ?ps ?m (file_at f) h" by (simp add: uncommitted_def)
  then have "uncommitted ?ps ?m (file_at f) g" using hidden_frame_keeps(1) [OF sep assms(2)] by blast
  then obtain x where "recovered (base_options opts) g = (Inr (), x)" "restored ?ps ?m (file_at f) x"
    using recovered_set [OF ne sep] by blast
  then show ?thesis using restored_file_at by (auto simp: list_all_iff)
qed

text \<open>What a finished update leaves, one option at a time.\<close>

definition set_updated :: "host \<Rightarrow> update_options list \<Rightarrow> apply_result list \<Rightarrow> fs \<Rightarrow> fs \<Rightarrow> bool" where
  "set_updated hs opts rs f g \<longleftrightarrow>
     length rs = length opts \<and>
     list_all (\<lambda>(opt, r). ar_applied r = cr_available (ar_check r) \<and>
       (if ar_applied r then vetted hs opt (cr_latest_tag (ar_check r)) (file_at g (io_install opt))
        else file_at g (io_install opt) = file_at f (io_install opt)) \<and>
       fs_glob (backup_prefix (io_install opt)) g = []) (zip opts rs)"

definition set_restored :: "update_options list \<Rightarrow> fs \<Rightarrow> fs \<Rightarrow> bool" where
  "set_restored opts f g \<longleftrightarrow>
     (\<exists>x. recovered (base_options opts) g = (Inr (), x) \<and>
       list_all (\<lambda>p. file_at x p = file_at f p) (map io_install opts))"

lemma set_restored_same:
  "set_ready opts f \<Longrightarrow> set_restored opts f f"
  unfolding set_restored_def
  by (rule untouched_recovers [where h = f]) (simp_all add: hidden_frame_def set_ready_wf)

lemma set_updated_nothing:
  assumes "set_ready opts f" "length rs = length opts" "list_all (\<lambda>r. \<not> ar_applied r) rs"
    "\<not> list_ex (\<lambda>r. cr_available (ar_check r)) rs"
  shows "set_updated hs opts rs f f"
  using assms by (auto simp: set_updated_def set_ready_def list_all_iff list_ex_iff dest: set_zip_leftD set_zip_rightD)

lemma find_truncate:
  "find (\<lambda>d. cd_install d = p) (map candidate.truncate cs) =
   map_option candidate.truncate (find (\<lambda>d. cd_install d = p) cs)"
  by (induction cs) (auto simp: candidate.defs)

lemma finish_set_ok:
  assumes "set_ready opts f" "staged_over f cs (w_fs (up_fs u))" "list_all (named_for opts) cs" "world_ok (up_fs u)"
    and "\<forall>opt \<in> set opts. \<not> uo_dry_run opt" "length rs1 = length opts"
    and "list_all2 (\<lambda>(opt, res) r. cr_available (ar_check r) = cr_available (ar_check res) \<and>
       (cr_available (ar_check res) \<longrightarrow> cr_latest_tag (ar_check r) = rl_tag rel)) (zip opts rs1) rs"
    and inst: "map cd_install cs =
       map (\<lambda>(opt, res). io_install opt) (filter (\<lambda>(opt, res). cr_available (ar_check res)) (zip opts rs1))"
    and vet: "list_all2 (\<lambda>c (opt, res). vetted hs opt (rl_tag rel) (file_at (w_fs (up_fs u)) (cd_path c))) cs
         (filter (\<lambda>(opt, res). cr_available (ar_check res)) (zip opts rs1))"
    and run: "finish_set hs opts rs (map candidate.truncate cs) u = ((e, rs'), u')"
  shows "(e \<noteq> None \<and> set_restored opts f (w_fs (run_cleanups cs (up_fs u')))) \<or>
    ((e = None \<or> (\<exists>x. e = Some (Persisting x))) \<and> set_updated hs opts rs' f (w_fs (run_cleanups cs (up_fs u'))))"
proof -
  let ?ins = "map candidate.truncate cs"
  let ?av = "\<lambda>(opt :: update_options, res). cr_available (ar_check res)"
  obtain r w where s: "install_candidates ?ins (set_marker opts) (begin_install (up_fs u)) = (r, w)" by fastforce
  have sep: "separated (map io_install opts) (set_marker opts)" using assms(1) by (simp add: set_ready_def)
  have fst_zip: "map (\<lambda>(opt, res). io_install opt) (zip opts rs1) = map io_install opts"
    using assms(6) by (intro nth_equalityI) auto
  have dist: "distinct (map cd_install cs)"
    unfolding inst by (rule distinct_map_filter) (use sep fst_zip in \<open>simp add: separated_def\<close>)
  note ok = install_staged_ok [OF assms(1-3) dist assms(4) s]
  show ?thesis
  proof (cases r)
    case (Inl x)
    then show ?thesis using ok run s by (auto simp: finish_set_def set_restored_def)
  next
    case (Inr x)
    let ?rs = "map (\<lambda>(opt, res). res\<lparr>ar_applied := cr_available (ar_check res) \<and> \<not> uo_dry_run opt\<rparr>) (zip opts rs)"
    let ?g = "w_fs (run_cleanups cs w)"
    have out: "rs' = ?rs" "up_fs u' = w" "e = None \<or> (\<exists>x. e = Some (Persisting x))"
      using run s Inr by (auto simp: finish_set_def Let_def split: sum.splits prod.splits)
    have res: "restored (map io_install opts) (set_marker opts)
        (settled (file_at f) (staged_content ?ins (w_fs (up_fs u))) (cd_install ` set cs)) ?g"
      using ok Inr by simp
    have len: "length rs = length opts" using assms(6,7) by (auto dest: list_all2_lengthD)
    have row: "ar_applied (?rs ! i) = cr_available (ar_check (?rs ! i)) \<and>
       (if ar_applied (?rs ! i)
        then vetted hs (opts ! i) (cr_latest_tag (ar_check (?rs ! i))) (file_at ?g (io_install (opts ! i)))
        else file_at ?g (io_install (opts ! i)) = file_at f (io_install (opts ! i))) \<and>
       fs_glob (backup_prefix (io_install (opts ! i))) ?g = []" if i: "i < length opts" for i
    proof -
      let ?opt = "opts ! i" and ?p = "io_install (opts ! i)"
      have p: "?p \<in> set (map io_install opts)" using i by simp
      have dry: "\<not> uo_dry_run ?opt" using assms(5) i by simp
      have rel: "cr_available (ar_check (rs ! i)) = cr_available (ar_check (rs1 ! i))"
        "cr_available (ar_check (rs1 ! i)) \<longrightarrow> cr_latest_tag (ar_check (rs ! i)) = rl_tag rel"
        using list_all2_nthD [OF assms(7), of i] i assms(6) by auto
      have ri: "?rs ! i = (rs ! i)\<lparr>ar_applied := cr_available (ar_check (rs ! i))\<rparr>" using i len dry by simp
      have at: "file_at ?g ?p = settled (file_at f) (staged_content ?ins (w_fs (up_fs u))) (cd_install ` set cs) ?p"
        and none: "fs_glob (backup_prefix ?p) ?g = []"
        using restored_file_at [OF res p] res p by (auto simp: restored_def backups_def)
      show ?thesis
      proof (cases "cr_available (ar_check (rs1 ! i))")
        case True
        have "(?opt, rs1 ! i) \<in> set (filter ?av (zip opts rs1))" using True i assms(6) by (force simp: set_zip)
        then obtain j where j: "j < length (filter ?av (zip opts rs1))" "filter ?av (zip opts rs1) ! j = (?opt, rs1 ! i)"
          by (metis in_set_conv_nth)
        have jc: "j < length cs" using j(1) inst by (metis length_map)
        have c: "vetted hs ?opt (rl_tag rel) (file_at (w_fs (up_fs u)) (cd_path (cs ! j)))"
          using list_all2_nthD [OF vet jc] j(2) by simp
        have "map cd_install cs ! j = map (\<lambda>(opt, res). io_install opt) (filter ?av (zip opts rs1)) ! j"
          using inst by simp
        then have ci: "cd_install (cs ! j) = ?p" using j jc by simp
        have "find (\<lambda>d. cd_install d = cd_install (cs ! j)) cs = Some (cs ! j)"
          using dist jc by (auto simp: find_Some_iff distinct_conv_nth nth_eq_iff_index_eq)
        then have "find (\<lambda>d. cd_install d = ?p) ?ins = Some (candidate.truncate (cs ! j))"
          unfolding ci by (simp add: find_truncate)
        then have "staged_content ?ins (w_fs (up_fs u)) ?p = file_at (w_fs (up_fs u)) (cd_path (cs ! j))"
          by (simp add: staged_content_def candidate.defs)
        moreover have "?p \<in> cd_install ` set cs" using ci jc by (metis image_eqI nth_mem)
        ultimately show ?thesis using at c ri rel True none by (simp add: settled_def)
      next
        case False
        have "?p \<notin> cd_install ` set cs"
        proof
          assume "?p \<in> cd_install ` set cs"
          then have "?p \<in> set (map cd_install cs)" by simp
          then obtain opt res where o: "(opt, res) \<in> set (zip opts rs1)" "cr_available (ar_check res)" "io_install opt = ?p"
            unfolding inst by auto
          then obtain k where k: "k < length opts" "opt = opts ! k" "res = rs1 ! k"
            using assms(6) by (auto simp: set_zip)
          have "distinct (map io_install opts)" using sep by (simp add: separated_def)
          then have "k = i"
            using nth_eq_iff_index_eq [of "map io_install opts" k i] k(1,2) i o(3) by simp
          then show False using o(2) k False by simp
        qed
        then show ?thesis using at ri rel False none by (auto simp: settled_def)
      qed
    qed
    have "set_updated hs opts ?rs f ?g"
      using row len by (auto simp: set_updated_def list_all_length simp del: nth_map)
    then show ?thesis using out by auto
  qed
qed

lemma update_set_ok:
  assumes "set_ready opts f" "w_fs (up_fs u) = f" "world_ok (up_fs u)" "steady (up_net u)"
    and "\<forall>opt \<in> set opts. \<not> uo_dry_run opt" "length rs = length opts"
    and "update_set hs opts rs u = ((e, rs'), u')"
  shows "(e \<noteq> None \<and> set_restored opts f (w_fs (up_fs u'))) \<or>
    ((e = None \<or> (\<exists>x. e = Some (Persisting x))) \<and> set_updated hs opts rs' f (w_fs (up_fs u')))"
proof -
  obtain m w where s1: "fetch_latest_release (hs_platform hs) (hd opts) (up_net u) = (m, w)" by fastforce
  show ?thesis
  proof (cases m)
    case (Inl x)
    then show ?thesis using assms(2,7) s1 set_restored_same [OF assms(1)] by (auto simp: update_set_def)
  next
    case (Inr rel)
    let ?u = "u\<lparr>up_net := w\<rparr>"
    obtain e2 rs2 cs ins u2 where s2: "stage_set hs rel (zip opts rs) ?u = ((e2, rs2, cs, ins), u2)"
      by (metis prod.exhaust)
    have pre: "world_ok (up_fs ?u)" "steady (up_net ?u)" "fs_wf (w_fs (up_fs ?u))"
      using assms(2-4) set_ready_wf [OF assms(1)] steady_same [OF fetch_latest_release_same [OF s1]] by simp_all
    have dry: "\<forall>(opt, res) \<in> set (zip opts rs). \<not> uo_dry_run opt"
      using assms(5) by (auto dest: set_zip_leftD)
    note st = stage_set_ok [OF pre dry s2]
    have fst_zip: "map fst (zip opts rs) = opts" using assms(6) by simp
    have over: "staged_over f cs (w_fs (up_fs u2))" "list_all (named_for opts) cs" "world_ok (up_fs u2)"
      "ins = map candidate.truncate cs"
      using st assms(2) fst_zip by auto
    show ?thesis
    proof (cases e2)
      case (Some err)
      have out: "e = Some err" "up_fs u' = run_cleanups cs (up_fs u2)"
        using assms(7) s1 Inr s2 Some by (auto simp: update_set_def Let_def)
      have "hidden_frame (map io_install opts) (w_fs (up_fs u2)) (w_fs (up_fs u'))"
        unfolding out(2) using over(1,2) named_for_matches [OF assms(1)]
        by (intro run_cleanups_frame) (fastforce simp: list_all_iff staged_over_def)
      moreover have "look (w_fs (up_fs u2)) k = look f k"
        if "\<forall>p \<in> set (map io_install opts). \<not> matches (candidate_prefix p) k" for k
      proof -
        have "k \<noteq> cd_path c" if "c \<in> set cs" for c
          using \<open>\<forall>p \<in> set (map io_install opts). \<not> matches (candidate_prefix p) k\<close>
            named_for_matches [OF assms(1), of c] over(2) that by (auto simp: list_all_iff simp del: set_map)
        then have "k \<notin> cd_path ` set cs" by blast
        then show ?thesis using over(1) by (simp add: staged_over_def)
      qed
      ultimately have "set_restored opts f (w_fs (up_fs u'))"
        unfolding set_restored_def using over(1)
        by (intro untouched_recovers [OF assms(1), where h = "w_fs (up_fs u2)"]) (simp_all add: staged_over_def)
      then show ?thesis using out(1) by simp
    next
      case None
      obtain e3 rs3 u3 where s3: "finish_set hs opts rs2 ins u2 = ((e3, rs3), u3)" by (metis prod.exhaust)
      have out: "e = e3" "rs' = rs3" "up_fs u' = run_cleanups cs (up_fs u3)"
        using assms(7) s1 Inr s2 None s3 by (auto simp: update_set_def Let_def)
      have rel2: "list_all2 (\<lambda>(opt, res) r. cr_available (ar_check r) = cr_available (ar_check res) \<and>
          (cr_available (ar_check res) \<longrightarrow> cr_latest_tag (ar_check r) = rl_tag rel)) (zip opts rs) rs2"
        using st None by (auto elim: list_all2_mono)
      show ?thesis
        unfolding out
        using finish_set_ok [OF assms(1) over(1-3) assms(5,6) rel2 _ _ s3 [unfolded over(4)]] st None by simp
    qed
  qed
qed

text \<open>
  C1. An update of a set is all or nothing and installs vetted binaries only. Either it ends in an error
  and the next recovery gives back every binary as it was, or it ends with every binary that had an
  update replaced by a vetted one of the tag its result names, every other binary unchanged and no
  backup left; the only error then is a failed write of the state file. Any call may fail except a remove and the
  write into the opened commit marker (\<open>world_ok\<close>, \<open>steady\<close>), and the set starts clean: every binary a regular file,
  with no backup, candidate or marker left over (\<open>set_ready\<close>).
\<close>

theorem update_all_or_nothing:
  assumes "set_ready opts (w_fs (up_fs u))" "world_ok (up_fs u)" "steady (up_net u)" "\<not> any_dry_run opts"
    and "apply_set hs opts u = ((e, rs), u')"
  shows "(e \<noteq> None \<and>
      (\<exists>g. recovered (base_options opts) (w_fs (up_fs u')) = (Inr (), g) \<and>
        list_all (\<lambda>p. file_at g p = file_at (w_fs (up_fs u)) p) (map io_install opts))) \<or>
    ((e = None \<or> (\<exists>x. e = Some (Persisting x))) \<and> length rs = length opts \<and>
      list_all (\<lambda>(opt, r). ar_applied r = cr_available (ar_check r) \<and>
        (if ar_applied r then vetted hs opt (cr_latest_tag (ar_check r)) (file_at (w_fs (up_fs u')) (io_install opt))
         else file_at (w_fs (up_fs u')) (io_install opt) = file_at (w_fs (up_fs u)) (io_install opt)) \<and>
        fs_glob (backup_prefix (io_install opt)) (w_fs (up_fs u')) = []) (zip opts rs))"
proof -
  let ?f = "w_fs (up_fs u)"
  have dry: "\<forall>opt \<in> set opts. \<not> uo_dry_run opt" using assms(4) by (auto simp: any_dry_run_def list_ex_iff)
  note rec = recover_nothing [OF assms(1)]
  obtain e1 rs1 w where s1: "check_set hs opts (up_net u) = ((e1, rs1), w)" by (metis prod.exhaust)
  note ck = check_set_run [OF assms(3) s1]
  have st: "steady w" using ck steady_same assms(3) by blast
  have "(e \<noteq> None \<and> set_restored opts ?f (w_fs (up_fs u'))) \<or>
    ((e = None \<or> (\<exists>x. e = Some (Persisting x))) \<and> set_updated hs opts rs ?f (w_fs (up_fs u')))"
  proof (cases e1)
    case (Some err)
    then have "e = Some err" "w_fs (up_fs u') = ?f"
      using assms(4,5) rec s1 by (auto simp: apply_set_def Let_def)
    then show ?thesis using set_restored_same [OF assms(1)] by simp
  next
    case None
    show ?thesis
    proof (cases "list_ex (\<lambda>r. cr_available (ar_check r)) rs1")
      case False
      then have "rs = rs1" "w_fs (up_fs u') = ?f" "e = None \<or> (\<exists>x. e = Some (Persisting x))"
        using assms(4,5) rec s1 None by (auto simp: apply_set_def Let_def split: sum.splits prod.splits)
      then show ?thesis using set_updated_nothing [OF assms(1) _ _ False] ck by simp
    next
      case True
      then have run: "update_set hs opts rs1 (u\<lparr>up_net := w, up_fs := up_fs u\<rparr>) = ((e, rs), u')"
        using assms(4,5) rec s1 None by (simp add: apply_set_def Let_def)
      show ?thesis
        using update_set_ok [OF assms(1) _ _ _ dry _ run] assms(2) st ck by simp
    qed
  qed
  then show ?thesis unfolding set_restored_def set_updated_def by blast
qed

text \<open>One installed binary, one release with a newer one, and a machine on which every call succeeds.\<close>

definition sample_host :: host where
  "sample_host =
     \<lparr>hs_platform = sample_platform, hs_executable = [], hs_now = int, hs_encode = (\<lambda>_. ''s''),
      hs_decode = (\<lambda>_. Some zero_state), hs_error_text = (\<lambda>_. ''e''),
      hs_archive = (\<lambda>_. Some ([\<lparr>tm_name = ''b'', tm_size = 2, tm_data = ''xy''\<rparr>], False)),
      hs_codesign = (\<lambda>_ _. True), hs_run = (\<lambda>_ _ _ _. (True, ''version: 1'')), hs_temp_dir = ''/tmp''\<rparr>"

definition sample_updater :: updater where
  "sample_updater =
     \<lparr>up_net = (serving sample_server)\<lparr>nw_names := [''1'', ''2'', ''3'', ''4'', ''5'', ''6'', ''7'']\<rparr>,
      up_fs = \<lparr>w_fs = \<lparr>fs_entries = [(''/bin/b'', NFile 0)], fs_data = (\<lambda>_. ''old''), fs_next = 1\<rparr>,
        w_fault = (\<lambda>_ _. False), w_clock = 0, w_names = [''8'', ''9''], w_trace = []\<rparr>\<rparr>"

lemma sample_updater_ok:
  "set_ready [sample_options] (w_fs (up_fs sample_updater))" "world_ok (up_fs sample_updater)"
  "steady (up_net sample_updater)" "\<not> any_dry_run [sample_options]"
proof -
  show "set_ready [sample_options] (w_fs (up_fs sample_updater))" by code_simp
  show "world_ok (up_fs sample_updater)" by (simp add: world_ok_def sample_updater_def)
  show "steady (up_net sample_updater)" by (simp add: steady_def sample_updater_def serving_def)
  show "\<not> any_dry_run [sample_options]" by code_simp
qed

theorem update_all_or_nothing_witness:
  "\<exists>r u'. apply_set sample_host [sample_options] sample_updater = ((None, [r]), u') \<and> ar_applied r \<and>
     vetted sample_host sample_options ''v1'' (file_at (w_fs (up_fs u')) ''/bin/b'')"
proof -
  obtain e rs u' where run: "apply_set sample_host [sample_options] sample_updater = ((e, rs), u')"
    by (metis prod.exhaust)
  have val: "(case fst (apply_set sample_host [sample_options] sample_updater) of (e, rs) \<Rightarrow>
      e = None \<and> map ar_applied rs = [True] \<and> map (\<lambda>r. cr_latest_tag (ar_check r)) rs = [''v1''])"
    by code_simp
  then obtain r where r: "e = None" "rs = [r]" "ar_applied r" "cr_latest_tag (ar_check r) = ''v1''"
    using run by (auto simp: map_eq_Cons_conv)
  have "io_install sample_options = ''/bin/b''" by (simp add: sample_options_def)
  then have "vetted sample_host sample_options ''v1'' (file_at (w_fs (up_fs u')) ''/bin/b'')"
    using update_all_or_nothing [OF sample_updater_ok run] r by auto
  then show ?thesis using run r by auto
qed

theorem state_roundtrip_witness:
  "\<exists>w'. save_state sample_host ''/s/state.json'' zero_state (serving sample_server) = (Inr (), w') \<and>
     fst (load_state sample_host ''/s/state.json'' w') = Inr zero_state"
proof -
  obtain r w' where run: "save_state sample_host ''/s/state.json'' zero_state (serving sample_server) = (r, w')"
    by fastforce
  have "fst (save_state sample_host ''/s/state.json'' zero_state (serving sample_server)) = Inr ()" by code_simp
  then have r: "r = Inr ()" using run by simp
  have "steady (serving sample_server)" "nw_fault (serving sample_server) = (\<lambda>_ _. False)"
    "hs_decode sample_host (hs_encode sample_host zero_state @ newline) = Some zero_state"
    by (simp_all add: steady_def serving_def sample_host_def)
  then show ?thesis using state_roundtrip [OF _ _ run] run r by auto
qed

text \<open>
  Recovery looks for candidates under the base name of the install path, and unpacking names them by
  the binary. When the two differ a candidate that a kill leaves is never removed.
\<close>

definition renamed_options :: update_options where
  "renamed_options = sample_options\<lparr>io_install := ''/bin/tool''\<rparr>"

lemma renamed_candidate_stays:
  "let f = \<lparr>fs_entries = [(''/bin/tool'', NFile 0)], fs_data = (\<lambda>_. ''old''), fs_next = 1\<rparr>;
       (r, u) = stage_candidate sample_host renamed_options
         \<lparr>rl_url = [], rl_tag = ''v1'', rl_assets = [\<lparr>as_name = ''checksums.txt'', as_url = ''http://h/checksums.txt''\<rparr>,
            \<lparr>as_name = ''b_linux_amd64.tar.gz'', as_url = ''http://h/b''\<rparr>]\<rparr>
         (sample_updater\<lparr>up_fs := (up_fs sample_updater)\<lparr>w_fs := f\<rparr>\<rparr>);
       (rec, g) = recovered (base_options [renamed_options]) (w_fs (up_fs u))
   in rec = Inr () \<and> look g ''/bin/.b-candidate-8'' \<noteq> None"
  by code_simp

section \<open>A dry run\<close>

lemma free_dir_fresh:
  "free_dir f pre ss = Some (d, r) \<Longrightarrow>
   list_all (\<lambda>(k, _). \<not> prefix (d @ ''/'') k) (fs_entries f) \<and> set r \<subseteq> set ss"
  by (induction ss) (auto split: if_splits)

lemma free_dir_name: "free_dir f pre ss = Some (d, r) \<Longrightarrow> \<exists>s. d = pre @ s \<and> s \<in> set ss"
  by (induction ss) (auto split: if_splits)

lemma no_entry_below: "list_all (\<lambda>(k, _). \<not> prefix q k) (fs_entries f) \<Longrightarrow> prefix q k \<Longrightarrow> look f k = None"
  by (auto simp: look_def list_all_iff map_of_eq_None_iff)

lemma look_remove_tree:
  "look (w_fs (op_remove_tree d w)) k = (if prefix (d @ ''/'') k then None else look (w_fs w) k)"
proof -
  have "map_of (filter (\<lambda>(k, _). \<not> P k) es) k = (if P k then None else map_of es k)" for P and es :: "(string \<times> node) list"
    by (induction es) auto
  then show ?thesis by (simp add: op_remove_tree_def look_def Let_def)
qed

text \<open>Everything a dry-run candidate adds lies in its new directory.\<close>

definition below :: "string \<Rightarrow> fs \<Rightarrow> fs \<Rightarrow> bool" where
  "below d f g \<longleftrightarrow> (\<forall>k. prefix (d @ ''/'') k \<longrightarrow> look f k = None) \<and>
     (\<forall>k. \<not> prefix (d @ ''/'') k \<longrightarrow> look g k = look f k) \<and> keeps f g"

lemma below_removed: "below d f (w_fs w) \<Longrightarrow> undone f (w_fs (op_remove_tree d w))"
  unfolding below_def undone_def look_remove_tree by (auto simp: op_remove_tree_def keeps_def Let_def)

lemma temp_join_below: "d \<noteq> [] \<Longrightarrow> \<not> suffix ''/'' d \<Longrightarrow> prefix (d @ ''/'') (temp_join d n @ s)"
  by (simp add: temp_join_def)

lemma stage_dry_run_ok:
  assumes "world_ok w" "stage_dry_run_candidate hs opt archive w = (r, w')"
  shows "world_ok w' \<and>
    (case r of
       Inl _ \<Rightarrow> undone (w_fs w) (w_fs w')
     | Inr c \<Rightarrow> \<exists>d. sc_cleanup c = RemoveTree d \<and> below d (w_fs w) (w_fs w'))"
proof -
  let ?pre = "temp_join (hs_temp_dir hs) (cfg_binary (uo_config opt) @ ''-dry-run-'')"
  obtain dir w1 where s1: "op_mkdir_temp ?pre w = (dir, w1)" by fastforce
  show ?thesis
  proof (cases dir)
    case None
    then have "w1 = w_tick w" using s1 by (auto simp: op_mkdir_temp_def split: if_splits option.splits)
    then show ?thesis using assms s1 None by (auto simp: stage_dry_run_candidate_def)
  next
    case (Some d)
    then obtain ss where fd: "free_dir (w_fs w) ?pre (w_names w) = Some (d, ss)" and w1: "w1 = (w_tick w)\<lparr>w_names := ss\<rparr>"
      using s1 by (auto simp: op_mkdir_temp_def split: if_splits option.splits)
    note fresh = free_dir_fresh [OF fd]
    have ok1: "world_ok w1" "w_fs w1 = w_fs w"
      using assms(1) fresh w1 by (auto simp: world_ok_def list_all_iff)
    obtain s where d: "d = ?pre @ s" "s \<in> set (w_names w)" using free_dir_name [OF fd] by blast
    then have "slash \<notin> set s" using assms(1) by (simp add: world_ok_def list_all_iff)
    then have "\<not> suffix ''/'' (?pre @ s)"
      by (cases s rule: rev_cases) (auto simp: temp_join_def suffix_def)
    then have nd: "d \<noteq> []" "\<not> suffix ''/'' d" using d(1) by (auto simp: temp_join_def)
    obtain x w2 where s2: "extract_candidate hs archive (cfg_binary (uo_config opt)) (cfg_max_binary (uo_config opt)) d w1 = (x, w2)"
      by fastforce
    note ex = extract_candidate_own [OF ok1(1) s2, unfolded ok1(2)]
    have none: "prefix (d @ ''/'') k \<Longrightarrow> look (w_fs w) k = None" for k
      using no_entry_below fresh by blast
    have below: "below d (w_fs w) (w_fs w2)"
    proof (cases x)
      case (Inl e)
      then show ?thesis using ex none by (simp add: below_def undone_def)
    next
      case (Inr c)
      then obtain s' where c: "own (w_fs w) c (w_fs w2)"
        "c = temp_join d (''.'' @ cfg_binary (uo_config opt) @ ''-candidate-'') @ s'"
        using ex by auto
      have "prefix (d @ ''/'') c" unfolding c(2) by (rule temp_join_below [OF nd])
      then show ?thesis using c(1) none own_keeps by (auto simp: below_def own_def)
    qed
    have rm: "world_ok (op_remove_tree d w2)" "undone (w_fs w) (w_fs (op_remove_tree d w2))"
      using below_removed [OF below] ex by (auto simp: op_remove_tree_def Let_def)
    show ?thesis
      using assms(2) s1 Some s2 rm below ex
      by (cases x) (auto simp: stage_dry_run_candidate_def Let_def split: if_splits)
  qed
qed

lemma stage_candidate_dry:
  assumes "world_ok (up_fs u)" "uo_dry_run opt" "stage_candidate hs opt rel u = (r, u')"
  shows "world_ok (up_fs u') \<and>
    (case r of
       Inl _ \<Rightarrow> undone (w_fs (up_fs u)) (w_fs (up_fs u'))
     | Inr c \<Rightarrow> \<exists>d. sc_cleanup c = RemoveTree d \<and> below d (w_fs (up_fs u)) (w_fs (up_fs u')))"
proof (cases "\<exists>archive. stage_dry_run_candidate hs opt archive (up_fs u) = (r, up_fs u')")
  case True
  then show ?thesis using stage_dry_run_ok [OF assms(1)] by blast
next
  case False
  then have "(\<exists>e. r = Inl e) \<and> up_fs u' = up_fs u"
    using assms(2,3)
    by (cases "select_archive_asset (hs_platform hs) (rl_assets rel) (cfg_binary (uo_config opt))")
      (auto simp: stage_candidate_def Let_def split: prod.splits bool.splits sum.splits if_splits)
  then show ?thesis using assms(1) by auto
qed

text \<open>Candidates staged by a dry run add nothing outside their directories.\<close>

definition beneath :: "staged_candidate list \<Rightarrow> string \<Rightarrow> bool" where
  "beneath cs k \<longleftrightarrow> (\<exists>c \<in> set cs. \<exists>d. sc_cleanup c = RemoveTree d \<and> prefix (d @ ''/'') k)"

definition dry_over :: "fs \<Rightarrow> staged_candidate list \<Rightarrow> fs \<Rightarrow> bool" where
  "dry_over f cs g \<longleftrightarrow> list_all (\<lambda>c. \<exists>d. sc_cleanup c = RemoveTree d) cs \<and> keeps f g \<and>
     (\<forall>k. if beneath cs k then look f k = None else look g k = look f k)"

lemma dry_over_Cons:
  assumes "below d f g" "dry_over g cs h" "sc_cleanup c = RemoveTree d"
  shows "dry_over f (c # cs) h"
proof -
  have bn: "beneath (c # cs) k \<longleftrightarrow> prefix (d @ ''/'') k \<or> beneath cs k" for k
    using assms(3) by (auto simp: beneath_def)
  have "if beneath (c # cs) k then look f k = None else look h k = look f k" for k
    using assms(1) assms(2) [unfolded dry_over_def] unfolding bn below_def by (metis (full_types))
  then show ?thesis using assms keeps_trans by (auto simp: dry_over_def below_def)
qed

lemma stage_set_dry:
  assumes "world_ok (up_fs u)" "\<forall>(opt, res) \<in> set rest. uo_dry_run opt"
    and "stage_set hs rel rest u = ((e, rs, cs, ins), u')"
  shows "dry_over (w_fs (up_fs u)) cs (w_fs (up_fs u')) \<and> ins = [] \<and> length rs = length rest \<and>
    map ar_applied rs = map (ar_applied \<circ> snd) rest"
  using assms
proof (induction rest arbitrary: u e rs cs ins u')
  case Nil
  then show ?case by (auto simp: dry_over_def beneath_def)
next
  case (Cons pr rest)
  obtain opt res where pr: "pr = (opt, res)" by fastforce
  have dry: "uo_dry_run opt" using Cons.prems(2) pr by simp
  show ?case
  proof (cases "cr_available (ar_check res)")
    case False
    then obtain rs1 where s: "stage_set hs rel rest u = ((e, rs1, cs, ins), u')" "rs = res # rs1"
      using Cons.prems(3) pr by (auto split: prod.splits)
    then show ?thesis using Cons.IH [OF Cons.prems(1) _ s(1)] Cons.prems(2) pr by auto
  next
    case av: True
    obtain x u1 where s1: "stage_candidate hs opt rel u = (x, u1)" by fastforce
    note st = stage_candidate_dry [OF Cons.prems(1) dry s1]
    show ?thesis
    proof (cases x)
      case (Inl err)
      then show ?thesis using Cons.prems(3) pr av s1 st
        by (auto simp: Let_def dry_over_def beneath_def undone_def)
    next
      case x: (Inr c)
      obtain e1 rs1 cs1 ins1 u2 where s2: "stage_set hs rel rest u1 = ((e1, rs1, cs1, ins1), u2)"
        by (metis prod.exhaust)
      have out: "cs = c # cs1" "ins = ins1" "u' = u2"
        "rs = res\<lparr>ar_check := (ar_check res)\<lparr>cr_latest_tag := rl_tag rel\<rparr>, ar_launch_skipped := sc_launch_skipped c\<rparr> # rs1"
        using Cons.prems(3) pr av s1 x s2 dry by (auto simp: Let_def)
      obtain d where "sc_cleanup c = RemoveTree d" "below d (w_fs (up_fs u)) (w_fs (up_fs u1))"
        using st x by auto
      then show ?thesis using Cons.IH [OF _ _ s2] st Cons.prems(2) out pr dry_over_Cons by fastforce
    qed
  qed
qed

lemma dry_over_cleaned:
  "dry_over f cs (w_fs w) \<Longrightarrow> undone f (w_fs (run_cleanups cs w))"
proof (induction cs arbitrary: w)
  case Nil
  then show ?case by (simp add: dry_over_def undone_def beneath_def)
next
  case (Cons c cs)
  obtain d where d: "sc_cleanup c = RemoveTree d" using Cons.prems by (auto simp: dry_over_def)
  have bn: "beneath (c # cs) k \<longleftrightarrow> prefix (d @ ''/'') k \<or> beneath cs k" for k
    using d by (auto simp: beneath_def)
  let ?w = "op_remove_tree d w"
  have "if beneath cs k then look f k = None else look (w_fs ?w) k = look f k" for k
    using Cons.prems unfolding dry_over_def bn look_remove_tree by (metis (full_types))
  moreover have "keeps f (w_fs ?w)"
    using Cons.prems by (auto simp: dry_over_def keeps_def op_remove_tree_def Let_def)
  ultimately have "dry_over f cs (w_fs ?w)"
    using Cons.prems by (simp add: dry_over_def)
  from Cons.IH [OF this] show ?case using d by (simp add: run_cleanup_def)
qed

lemma no_applied: "map ar_applied rs2 = map ar_applied rs1 \<Longrightarrow> list_all (\<lambda>r. \<not> ar_applied r) rs1 \<Longrightarrow>
    list_all (\<lambda>r. \<not> ar_applied r) rs2"
proof (induction rs1 arbitrary: rs2)
  case (Cons r rs1)
  then show ?case by (cases rs2) auto
qed simp

text \<open>
  A dry run of a set changes no file outside the cache: when it ends, in success or in an error,
  every path of the file system holds what it held before, and no result says that it was applied.
\<close>

theorem dry_run_changes_nothing:
  assumes "world_ok (up_fs u)" "steady (up_net u)" "fs_wf (w_fs (up_fs u))" "opts \<noteq> []" "list_all uo_dry_run opts"
    and "apply_set hs opts u = ((e, rs), u')"
  shows "look (w_fs (up_fs u')) p = look (w_fs (up_fs u)) p \<and>
    file_at (w_fs (up_fs u')) p = file_at (w_fs (up_fs u)) p \<and> list_all (\<lambda>r. \<not> ar_applied r) rs"
proof -
  let ?f = "w_fs (up_fs u)"
  have any: "any_dry_run opts" using assms(4,5) by (cases opts) (auto simp: any_dry_run_def)
  obtain e1 rs1 w where s1: "check_set hs opts (up_net u) = ((e1, rs1), w)" by (metis prod.exhaust)
  note ck = check_set_run [OF assms(2) s1]
  have "undone ?f (w_fs (up_fs u')) \<and> list_all (\<lambda>r. \<not> ar_applied r) rs"
  proof (cases "e1 = None \<and> list_ex (\<lambda>r. cr_available (ar_check r)) rs1")
    case False
    then have "rs = rs1" "up_fs u' = up_fs u"
      using assms(6) any s1 by (auto simp: apply_set_def Let_def split: option.splits if_splits sum.splits prod.splits)
    then show ?thesis using ck by simp
  next
    case True
    then have run: "update_set hs opts rs1 (u\<lparr>up_net := w, up_fs := up_fs u\<rparr>) = ((e, rs), u')"
      using assms(6) any s1 by (auto simp: apply_set_def Let_def)
    obtain m w2 where s2: "fetch_latest_release (hs_platform hs) (hd opts) w = (m, w2)" by fastforce
    show ?thesis
    proof (cases m)
      case (Inl x)
      then show ?thesis using run s2 ck by (auto simp: update_set_def)
    next
      case (Inr rel)
      let ?u = "u\<lparr>up_net := w2, up_fs := up_fs u\<rparr>"
      obtain e2 rs2 cs ins u2 where s3: "stage_set hs rel (zip opts rs1) ?u = ((e2, rs2, cs, ins), u2)"
        by (metis prod.exhaust)
      have dry: "\<forall>(opt, res) \<in> set (zip opts rs1). uo_dry_run opt"
        using assms(5) by (auto simp: list_all_iff dest: set_zip_leftD)
      have st: "dry_over ?f cs (w_fs (up_fs u2))" "ins = []" "length rs2 = length opts"
        "map ar_applied rs2 = map (ar_applied \<circ> snd) (zip opts rs1)"
        using stage_set_dry [OF _ dry s3] assms(1) ck by simp_all
      have "map (ar_applied \<circ> snd) (zip opts rs1) = map ar_applied rs1"
        using ck by (simp flip: map_map)
      then have no: "list_all (\<lambda>r. \<not> ar_applied r) rs2"
        using no_applied [of rs2 rs1] st(4) ck by simp
      have clean: "undone ?f (w_fs (run_cleanups cs (up_fs u2)))" using dry_over_cleaned [OF st(1)] .
      show ?thesis
      proof (cases e2)
        case (Some err)
        then show ?thesis using run s2 Inr s3 no clean by (auto simp: update_set_def Let_def)
      next
        case None
        obtain e3 rs3 u3 where s4: "finish_set hs opts rs2 ins u2 = ((e3, rs3), u3)" by (metis prod.exhaust)
        have inst: "install_candidates [] m x = (Inr (), x)" for m x by (simp add: install_candidates_def)
        have dry2: "\<not> (cr_available (ar_check r) \<and> \<not> uo_dry_run opt)" if "(opt, r) \<in> set (zip opts rs2)" for opt r
          using assms(5) that by (auto simp: list_all_iff dest: set_zip_leftD)
        have "w_fs (up_fs u3) = w_fs (up_fs u2)" "list_all (\<lambda>r. \<not> ar_applied r) rs3"
          using s4 st(2) inst dry2
          by (auto simp: finish_set_def begin_install_def Let_def list_all_iff split: sum.splits prod.splits)
        moreover have "dry_over ?f cs (w_fs (up_fs u3))" using st(1) calculation(1) by simp
        moreover have "rs = rs3" "up_fs u' = run_cleanups cs (up_fs u3)"
          using run s2 Inr s3 None s4 by (auto simp: update_set_def Let_def)
        ultimately show ?thesis using dry_over_cleaned by simp
      qed
    qed
  qed
  then show ?thesis using file_at_keep [OF assms(3), of "w_fs (up_fs u')" p] by (simp add: undone_def)
qed

theorem dry_run_changes_nothing_witness:
  "\<exists>r u'. apply_set sample_host [sample_options\<lparr>uo_dry_run := True\<rparr>] sample_updater = ((None, [r]), u') \<and>
     ar_launch_skipped r \<and> file_at (w_fs (up_fs u')) ''/bin/b'' = ''old''"
proof -
  let ?opts = "[sample_options\<lparr>uo_dry_run := True\<rparr>]"
  obtain e rs u' where run: "apply_set sample_host ?opts sample_updater = ((e, rs), u')"
    by (metis prod.exhaust)
  have "(case fst (apply_set sample_host ?opts sample_updater) of (e, rs) \<Rightarrow>
      e = None \<and> map ar_launch_skipped rs = [True])"
    by code_simp
  then obtain r where r: "e = None" "rs = [r]" "ar_launch_skipped r"
    using run by (auto simp: map_eq_Cons_conv)
  have "file_at (w_fs (up_fs sample_updater)) ''/bin/b'' = ''old''" by code_simp
  moreover have "fs_wf (w_fs (up_fs sample_updater))" using set_ready_wf [OF sample_updater_ok(1)] .
  ultimately have "file_at (w_fs (up_fs u')) ''/bin/b'' = ''old''"
    using dry_run_changes_nothing [OF sample_updater_ok(2,3) _ _ _ run] by simp
  then show ?thesis using run r by auto
qed

end
