(* ===== verification/Scheduler.thy ===== *)
theory Scheduler
  imports UpdateSafety
begin

text \<open>
  The update scheduler of a daemon (\<open>selfupdate/scheduler.go\<close>): how long a round waits, what it runs, and
  when it asks the daemon to relaunch, as a step relation over the updater. The hooks are read at the
  clock of the network world, so that they can change between two readings.
\<close>

section \<open>The code\<close>

record hooks =
  hk_enabled :: "(nat \<Rightarrow> bool) option"
  hk_mode :: "(nat \<Rightarrow> string) option"
  hk_options :: "(nat \<Rightarrow> update_options) option"

definition mode_check :: string where "mode_check = ''check''"
definition mode_apply :: string where "mode_apply = ''apply''"

definition disabled_poll_interval :: int where "disabled_poll_interval = 60000000000"
definition initial_delay :: int where "initial_delay = 60000000000"

definition zero_options :: update_options where
  "zero_options =
     \<lparr>io_install = [], io_state = [],
      uo_config = \<lparr>cfg_repo = [], cfg_binary = [], cfg_current_version = [], cfg_current_commit = [],
        cfg_current_build_hash = [], cfg_allow_prerelease = None, cfg_interval = 0, cfg_signer_uri = [],
        cfg_web_base = [], cfg_web_base_env = [], cfg_validate_args = [], cfg_validate_match = [],
        cfg_validate_env = [], cfg_max_download = 0, cfg_max_binary = 0, cfg_dirty = False\<rparr>,
      uo_cache = [], uo_dry_run = False, uo_required = []\<rparr>"

definition scheduler_enabled :: "hooks \<Rightarrow> net_world \<Rightarrow> bool" where
  "scheduler_enabled hk w = (case hk_enabled hk of None \<Rightarrow> False | Some f \<Rightarrow> f (nw_clock w))"

definition scheduler_mode :: "hooks \<Rightarrow> net_world \<Rightarrow> string" where
  "scheduler_mode hk w = (case hk_mode hk of None \<Rightarrow> [] | Some f \<Rightarrow> f (nw_clock w))"

definition scheduler_options :: "hooks \<Rightarrow> net_world \<Rightarrow> update_options" where
  "scheduler_options hk w = (case hk_options hk of None \<Rightarrow> zero_options | Some f \<Rightarrow> f (nw_clock w))"

text \<open>
  Go's remainder takes the sign of the dividend, and \<open>UnixNano\<close> of a clock before 1970 is negative. The
  constant is the Unix epoch in nanoseconds since Go's zero time.
\<close>

definition go_rem :: "int \<Rightarrow> int \<Rightarrow> int" where
  "go_rem a b = (if a < 0 then - ((- a) mod b) else a mod b)"

definition unix_nano :: "int \<Rightarrow> int" where
  "unix_nano t = wrap_int (t - 62135596800000000000)"

definition jitter_duration :: "int \<Rightarrow> int \<Rightarrow> int" where
  "jitter_duration base now =
     (if base \<le> 0 then base
      else (let most = base div 10 in if most \<le> 0 then base else base + go_rem (unix_nano now) most))"

text \<open>\<open>Time.Sub\<close> saturates at the bounds of a duration.\<close>

definition until :: "int \<Rightarrow> int \<Rightarrow> int" where
  "until target now = max min_int (min max_int (target - now))"

definition next_update_delay :: "host \<Rightarrow> bool \<Rightarrow> update_options \<Rightarrow> net_world \<Rightarrow> int \<times> net_world" where
  "next_update_delay hs enabled opt w =
     (if \<not> enabled then (disabled_poll_interval, w)
      else (let (loaded, w) = load_state hs (io_state (resolve_options hs opt)) w; now = time_now hs w in
            case loaded of
              Inr st \<Rightarrow>
                if st_next_check st \<noteq> 0 \<and> 0 < until (st_next_check st) now then (until (st_next_check st) now, w)
                else (jitter_duration initial_delay now, w)
            | Inl _ \<Rightarrow> (jitter_duration initial_delay now, w)))"

text \<open>One scheduled update; the flag is the absence of an error.\<close>

definition run_scheduled_update :: "host \<Rightarrow> hooks \<Rightarrow> updater \<Rightarrow> bool \<times> updater" where
  "run_scheduled_update hs hk u =
     (if \<not> scheduler_enabled hk (up_net u) then (True, u)
      else (let opt = scheduler_options hk (up_net u); mode = scheduler_mode hk (up_net u);
                version = cfg_current_version (uo_config opt)
            in if mode = mode_check \<or> (mode = mode_apply \<and> (version = ''dev'' \<or> version = ''unknown''))
               then (case check hs opt (up_net u) of
                       (Inl _, w) \<Rightarrow> (False, u\<lparr>up_net := w\<rparr>)
                     | (Inr _, w) \<Rightarrow> (True, u\<lparr>up_net := w\<rparr>))
               else if mode = mode_apply
               then (let ((e, _), u) = apply_all hs [opt] u in (e = None, u))
               else (True, u)))"

text \<open>A round after its wait: the update, and whether the daemon is asked to relaunch.\<close>

definition scheduler_round :: "host \<Rightarrow> hooks \<Rightarrow> updater \<Rightarrow> bool \<times> updater" where
  "scheduler_round hs hk u =
     (case run_scheduled_update hs hk u of
        (False, u) \<Rightarrow> (False, u)
      | (True, u) \<Rightarrow>
          (case load_state hs (io_state (resolve_options hs (scheduler_options hk (up_net u)))) (up_net u) of
             (Inl _, w) \<Rightarrow> (False, u\<lparr>up_net := w\<rparr>)
           | (Inr st, w) \<Rightarrow> (st_last_result st = ''applied'', u\<lparr>up_net := w\<rparr>)))"

datatype sched_phase = Planning | Sleeping int | Cancelled | Relaunching

inductive sched_step :: "host \<Rightarrow> hooks \<Rightarrow> sched_phase \<times> updater \<Rightarrow> sched_phase \<times> updater \<Rightarrow> bool"
  for hs hk where
  Plan: "next_update_delay hs (scheduler_enabled hk (up_net u)) (scheduler_options hk (up_net u)) (up_net u) = (d, w)
    \<Longrightarrow> sched_step hs hk (Planning, u) (Sleeping d, u\<lparr>up_net := w\<rparr>)"
| Cancel: "ctx_done (up_net u) \<Longrightarrow> sched_step hs hk (Sleeping d, u) (Cancelled, u)"
| Relaunch: "scheduler_round hs hk u = (True, u') \<Longrightarrow> sched_step hs hk (Sleeping d, u) (Relaunching, u')"
| Again: "scheduler_round hs hk u = (False, u') \<Longrightarrow> sched_step hs hk (Sleeping d, u) (Planning, u')"

inductive_cases PlanningE: "sched_step hs hk (Planning, u) s"
inductive_cases SleepingE: "sched_step hs hk (Sleeping d, u) s"
inductive_simps final_step: "sched_step hs hk (Cancelled, u) s" "sched_step hs hk (Relaunching, u) s"

abbreviation sched_reachable where
  "sched_reachable hs hk u s \<equiv> (sched_step hs hk)\<^sup>*\<^sup>* (Planning, u) s"

section \<open>The waits\<close>

lemma go_rem_bound:
  assumes "0 < b"
  shows "- b < go_rem a b \<and> go_rem a b < b"
proof -
  have m: "0 \<le> x mod b" "x mod b < b" for x using assms by simp_all
  show ?thesis
  proof (cases "a < 0")
    case True
    then have "go_rem a b = - ((- a) mod b)" by (simp only: go_rem_def if_True)
    then show ?thesis using m [of "- a"] assms by linarith
  next
    case False
    then have "go_rem a b = a mod b" by (simp only: go_rem_def if_False)
    then show ?thesis using m [of a] assms by linarith
  qed
qed

lemma jitter_bounds: "54000000000 < jitter_duration initial_delay now \<and> jitter_duration initial_delay now < 66000000000"
  using go_rem_bound [of 6000000000 "unix_nano now"]
  by (simp add: jitter_duration_def initial_delay_def Let_def)

lemma next_update_delay_ok:
  assumes "next_update_delay hs enabled opt w = (d, w')"
  shows "(\<not> enabled \<longrightarrow> d = 60000000000) \<and> 0 < d \<and> d \<le> max_int \<and>
    (enabled \<longrightarrow> (54000000000 < d \<and> d < 66000000000) \<or>
       (\<exists>st. fst (load_state hs (io_state (resolve_options hs opt)) w) = Inr st \<and>
         d = until (st_next_check st) (time_now hs w')))"
proof (cases enabled)
  case False
  then show ?thesis using assms by (simp add: next_update_delay_def disabled_poll_interval_def max_int_def)
next
  case True
  obtain l w1 where l: "load_state hs (io_state (resolve_options hs opt)) w = (l, w1)" by fastforce
  let ?now = "time_now hs w1"
  note j = jitter_bounds [of ?now]
  have m: "66000000000 < max_int" by (simp add: max_int_def)
  show ?thesis
  proof (cases "\<exists>st. l = Inr st \<and> st_next_check st \<noteq> 0 \<and> 0 < until (st_next_check st) ?now")
    case True
    then obtain st where st: "l = Inr st" "st_next_check st \<noteq> 0" "0 < until (st_next_check st) ?now" by blast
    then have "d = until (st_next_check st) ?now" "w' = w1"
      using assms l \<open>enabled\<close> by (auto simp: next_update_delay_def)
    moreover have "until (st_next_check st) ?now \<le> max_int" by (simp add: until_def max_int_def min_int_def)
    ultimately show ?thesis using st l \<open>enabled\<close> by auto
  next
    case False
    then have "d = jitter_duration initial_delay ?now"
      using assms l \<open>enabled\<close> by (cases l) (auto simp: next_update_delay_def Let_def)
    then show ?thesis using j m \<open>enabled\<close> by auto
  qed
qed

text \<open>
  C19. The scheduler never spins and never hangs: in every reachable state it sleeps a positive time that
  a duration can hold, and a state that is neither cancelled nor relaunching has a next step.
\<close>

theorem scheduler_never_spins:
  assumes "(sched_step hs hk)\<^sup>*\<^sup>* (Planning, u) (ph, u')"
  shows "(case ph of Sleeping d \<Rightarrow> 0 < d \<and> d \<le> max_int | _ \<Rightarrow> True) \<and>
    (ph = Cancelled \<or> ph = Relaunching \<or> (\<exists>s. sched_step hs hk (ph, u') s))"
proof -
  have wait: "case ph of Sleeping d \<Rightarrow> 0 < d \<and> d \<le> max_int | _ \<Rightarrow> True"
    using assms
  proof (cases rule: rtranclp.cases)
    case (rtrancl_into_rtrancl b)
    then show ?thesis using next_update_delay_ok by (auto elim!: sched_step.cases)
  qed simp
  have "\<exists>s. sched_step hs hk (Planning, u') s" by (metis Plan surj_pair)
  moreover have "\<exists>s. sched_step hs hk (Sleeping d, u') s" for d
    by (cases "scheduler_round hs hk u'"; cases "fst (scheduler_round hs hk u')") (auto intro: sched_step.intros)
  ultimately show ?thesis using wait by (cases ph) auto
qed

section \<open>When the daemon relaunches\<close>

text \<open>The hooks of a daemon whose settings do not change.\<close>

definition steady_hooks :: "string \<Rightarrow> update_options \<Rightarrow> hooks" where
  "steady_hooks mode opt = \<lparr>hk_enabled = Some (\<lambda>_. True), hk_mode = Some (\<lambda>_. mode), hk_options = Some (\<lambda>_. opt)\<rparr>"

lemma steady_hooks_simps [simp]:
  "scheduler_enabled (steady_hooks mode opt) w" "scheduler_mode (steady_hooks mode opt) w = mode"
  "scheduler_options (steady_hooks mode opt) w = opt"
  by (simp_all add: steady_hooks_def scheduler_enabled_def scheduler_mode_def scheduler_options_def)

definition json_faithful :: "host \<Rightarrow> bool" where
  "json_faithful hs \<longleftrightarrow> (\<forall>st. hs_decode hs (hs_encode hs st @ newline) = Some st)"

definition readable :: "net_world \<Rightarrow> bool" where
  "readable w \<longleftrightarrow> (\<forall>n. \<not> nw_fault w ReadFile n)"

lemma readable_same: "same_oracles w w' \<Longrightarrow> readable w' = readable w"
  by (simp add: same_oracles_def readable_def)

lemma saved_then_loaded:
  assumes "json_faithful hs" "readable w" "steady w" "save_state hs path st w = (Inr (), w')"
  shows "fst (load_state hs path w') = Inr st"
  using save_state_run [OF assms(3,4)] readable_same [of w w'] assms(1,2)
  by (auto simp: load_state_def json_faithful_def readable_def net_fails_def)

lemma check_saves:
  assumes "json_faithful hs" "readable w" "steady w" "check hs opt w = (Inr c, w')"
  shows "\<exists>st. fst (load_state hs (io_state (resolve_options hs opt)) w') = Inr st \<and> st_last_result st = ''check''"
proof -
  let ?opt = "resolve_options hs opt"
  obtain m w1 where s1: "fetch_latest_release (hs_platform hs) ?opt w = (m, w1)" by fastforce
  obtain p w2 where s2: "load_state hs (io_state ?opt) w1 = (p, w2)" by fastforce
  have same: "same_oracles w w2"
    using same_oracles_trans [OF fetch_latest_release_same [OF s1]] load_state_run [OF s2] by blast
  then have w2: "readable w2" "steady w2" using assms(2,3) readable_same steady_same by blast+
  obtain x where "save_state hs (io_state ?opt) x w2 = (Inr (), w')" "st_last_result x = ''check''"
    using assms(4) s1 s2 by (auto simp: check_def Let_def observed_state_def split: sum.splits prod.splits)
  then show ?thesis using saved_then_loaded [OF assms(1) w2] by blast
qed

lemma save_apply_set_state_single:
  assumes "json_faithful hs" "readable w" "steady w" "save_apply_set_state hs [(opt, r)] w = (Inr (), w')"
  shows "\<exists>st. fst (load_state hs (io_state opt) w') = Inr st \<and> (st_last_result st = ''applied'' \<longleftrightarrow> ar_applied r)"
proof -
  obtain p w2 where s2: "load_state hs (io_state opt) w = (p, w2)" by fastforce
  have same: "same_oracles w w2" using load_state_run [OF s2] by simp
  then have w2: "readable w2" "steady w2" using assms(2,3) readable_same steady_same by blast+
  obtain x where "save_state hs (io_state opt) x w2 = (Inr (), w')" "st_last_result x = ''applied'' \<longleftrightarrow> ar_applied r"
    using assms(4) s2 by (auto simp: save_apply_state_def observed_state_def Let_def split: sum.splits prod.splits if_splits)
  then show ?thesis using saved_then_loaded [OF assms(1) w2] by blast
qed

lemma stage_candidate_net:
  assumes "steady (up_net u)" "stage_candidate hs opt rel u = (r, u')"
  shows "same_oracles (up_net u) (up_net u')"
proof (cases "blank (io_install opt) \<or> (\<exists>e. select_archive_asset (hs_platform hs) (rl_assets rel) (cfg_binary (uo_config opt)) = Inl e)")
  case True
  then show ?thesis using assms(2) by (auto simp: stage_candidate_def Let_def split: if_splits)
next
  case False
  then obtain asset where a: "select_archive_asset (hs_platform hs) (rl_assets rel) (cfg_binary (uo_config opt)) = Inr asset"
    by (metis sum.exhaust)
  obtain b w where s1: "net_try MakeDir (up_net u) = (b, w)" by fastforce
  have same1: "same_oracles (up_net u) w" using net_try_same [OF s1] .
  have st: "steady w" using steady_same [OF same1] assms(1) by simp
  obtain v w2 where s2: "fetch_verified_archive (hs_platform hs) opt rel asset w = (v, w2)" by fastforce
  have "up_net u' = w \<or> up_net u' = w2"
    using assms(2) False a s1 s2
    by (cases b; cases v) (auto simp: stage_candidate_def Let_def split: prod.splits sum.splits if_splits)
  then show ?thesis using same1 same_oracles_trans [OF same1] fetch_verified_archive_same [OF st s2] by auto
qed

lemma stage_set_net:
  "steady (up_net u) \<Longrightarrow> stage_set hs rel rest u = ((e, rs, cs, ins), u') \<Longrightarrow>
   same_oracles (up_net u) (up_net u') \<and> length rs = length rest"
proof (induction rest arbitrary: u e rs cs ins u')
  case (Cons pr rest)
  obtain opt res where pr: "pr = (opt, res)" by fastforce
  show ?case
  proof (cases "cr_available (ar_check res)")
    case False
    then show ?thesis using Cons pr by (auto split: prod.splits)
  next
    case True
    obtain x u1 where s1: "stage_candidate hs opt rel u = (x, u1)" by fastforce
    have same1: "same_oracles (up_net u) (up_net u1)" using stage_candidate_net [OF Cons.prems(1) s1] .
    have st: "steady (up_net u1)" using steady_same [OF same1] Cons.prems(1) by simp
    show ?thesis
    proof (cases x)
      case (Inl err)
      then show ?thesis using Cons.prems(2) pr True s1 same1 by (auto simp: Let_def)
    next
      case (Inr c)
      obtain e1 rs1 cs1 ins1 u2 where s2: "stage_set hs rel rest u1 = ((e1, rs1, cs1, ins1), u2)"
        by (metis prod.exhaust)
      from Cons.IH [OF st s2] show ?thesis
        using Cons.prems(2) pr True s1 Inr s2 same_oracles_trans [OF same1] by (auto simp: Let_def)
    qed
  qed
qed simp

lemma take_lock_same:
  assumes "take_lock state w = (r, w')"
  shows "same_oracles w w'"
proof -
  obtain b1 w1 where s1: "net_try MakeDir w = (b1, w1)" by fastforce
  obtain b2 w2 where s2: "net_try TempOpen w1 = (b2, w2)" by fastforce
  obtain b3 w3 where s3: "net_try TakeLock w2 = (b3, w3)" by fastforce
  have a: "same_oracles w w1" using net_try_same [OF s1] .
  have b: "same_oracles w w2" using same_oracles_trans [OF a net_try_same [OF s2]] .
  have c: "same_oracles w w3" using same_oracles_trans [OF b net_try_same [OF s3]] .
  have "w' = w \<or> w' = w1 \<or> w' = w2 \<or> w' = w3"
    using assms s1 s2 s3 by (cases b1; cases b2; cases b3) (auto simp: take_lock_def split: if_splits)
  then show ?thesis using a b c by auto
qed

text \<open>After an update of one binary without error the state says whether it was applied.\<close>

lemma apply_set_saves:
  assumes "json_faithful hs" "readable (up_net u)" "steady (up_net u)" "apply_set hs [opt] u = ((None, rs), u')"
  shows "\<exists>st. fst (load_state hs (io_state opt) (up_net u')) = Inr st \<and>
    (st_last_result st = ''applied'' \<longleftrightarrow> list_ex ar_applied rs)"
proof -
  let ?rec = "if any_dry_run [opt] then (Inr (), up_fs u) else recover_interrupted_install (base_options [opt]) (up_fs u)"
  obtain y f where s0: "?rec = (y, f)" by fastforce
  obtain e1 rs1 w where s1: "check_set hs [opt] (up_net u) = ((e1, rs1), w)" by (metis prod.exhaust)
  have y: "y = Inr ()" and e1: "e1 = None"
    using assms(4) s0 s1 by (cases y; cases e1; auto simp: apply_set_def Let_def)+
  note ck = check_set_run [OF assms(3) s1]
  have w: "readable w" "steady w" using ck assms(2,3) readable_same steady_same by blast+
  obtain r1 where r1: "rs1 = [r1]" using ck by (auto simp: length_Suc_conv)
  show ?thesis
  proof (cases "list_ex (\<lambda>r. cr_available (ar_check r)) rs1")
    case False
    then have "save_apply_set_state hs [(opt, r1)] w = (Inr (), up_net u')" "rs = [r1]"
      using assms(4) s0 s1 y e1 r1 by (auto simp: apply_set_def Let_def split: sum.splits prod.splits)
    then show ?thesis using save_apply_set_state_single [OF assms(1) w] by simp
  next
    case True
    then have run: "update_set hs [opt] rs1 (u\<lparr>up_net := w, up_fs := f\<rparr>) = ((None, rs), u')"
      using assms(4) s0 s1 y e1 r1 by (auto simp: apply_set_def Let_def)
    obtain m w2 where s2: "fetch_latest_release (hs_platform hs) opt w = (m, w2)" by fastforce
    have w2: "readable w2" "steady w2"
      using fetch_latest_release_same [OF s2] w readable_same steady_same by blast+
    obtain rel where m: "m = Inr rel" using run s2 by (cases m) (auto simp: update_set_def)
    let ?u = "u\<lparr>up_fs := f, up_net := w2\<rparr>"
    obtain e2 rs2 cs ins u2 where s3: "stage_set hs rel [(opt, r1)] ?u = ((e2, rs2, cs, ins), u2)"
      by (metis prod.exhaust)
    have u2: "same_oracles w2 (up_net u2)" "length rs2 = 1" using stage_set_net [OF _ s3] w2 by auto
    then have w3: "readable (up_net u2)" "steady (up_net u2)" using w2 readable_same steady_same by blast+
    obtain r2 where r2: "rs2 = [r2]" using u2 by (auto simp: length_Suc_conv)
    have e2: "e2 = None" using run s2 m r1 s3
      by (cases e2) (simp_all add: update_set_def Let_def del: stage_set.simps)
    obtain e3 rs3 u3 where s4: "finish_set hs [opt] rs2 ins u2 = ((e3, rs3), u3)" by (metis prod.exhaust)
    have out: "e3 = None" "rs = rs3" "up_net u' = up_net u3"
      using run s2 m r1 s3 e2 s4 by (auto simp: update_set_def Let_def simp del: stage_set.simps)
    obtain r3 where "rs3 = [r3]" "save_apply_set_state hs [(opt, r3)] (up_net u2) = (Inr (), up_net u3)"
      using s4 out(1) r2 by (auto simp: finish_set_def Let_def split: sum.splits prod.splits)
    then show ?thesis using save_apply_set_state_single [OF assms(1) w3] out by simp
  qed
qed

lemma apply_all_saves:
  assumes "json_faithful hs" "readable (up_net u)" "steady (up_net u)" "apply_all hs [opt] u = ((None, rs), u')"
  shows "\<exists>st. fst (load_state hs (io_state (resolve_options hs opt)) (up_net u')) = Inr st \<and>
    (st_last_result st = ''applied'' \<longleftrightarrow> list_ex ar_applied rs)"
proof -
  let ?opt = "resolve_options hs opt"
  have v: "resolve_set hs [opt] = Inr [?opt]"
    using assms(4) by (cases "validate_config (uo_config ?opt)") (auto simp: apply_all_def Let_def)
  have "apply_locked hs [?opt] u = ((None, rs), u')"
    using assms(4) v by (auto simp: apply_all_def validate_apply_set_def Let_def split: prod.splits option.splits)
  moreover obtain l w where l: "take_lock (io_state ?opt) (up_net u) = (l, w)" by fastforce
  ultimately have run: "apply_set hs [?opt] (u\<lparr>up_net := w\<rparr>) = ((None, rs), u')"
    by (cases l) (auto simp: apply_locked_def)
  have "readable w" "steady w" using take_lock_same [OF l] assms(2,3) readable_same steady_same by blast+
  then show ?thesis using apply_set_saves [OF assms(1) _ _ run] by simp
qed

text \<open>The same daemon with its updates switched on or off.\<close>

definition switched_hooks :: "bool \<Rightarrow> string \<Rightarrow> update_options \<Rightarrow> hooks" where
  "switched_hooks on mode opt = (steady_hooks mode opt)\<lparr>hk_enabled := Some (\<lambda>_. on)\<rparr>"

lemma switched_hooks_simps [simp]:
  "scheduler_enabled (switched_hooks on mode opt) w = on" "scheduler_mode (switched_hooks on mode opt) w = mode"
  "scheduler_options (switched_hooks on mode opt) w = opt"
  by (simp_all add: switched_hooks_def steady_hooks_def scheduler_enabled_def scheduler_mode_def scheduler_options_def)

lemma idle_round:
  assumes "run_scheduled_update hs hk u = (True, u)" "scheduler_options hk (up_net u) = opt"
    and "scheduler_round hs hk u = (stop, u')"
  shows "stop \<longleftrightarrow> (\<exists>st. fst (load_state hs (io_state (resolve_options hs opt)) (up_net u)) = Inr st \<and> st_last_result st = ''applied'')"
  using assms by (auto simp: scheduler_round_def split: prod.splits sum.splits)

text \<open>
  C37. When a round of the scheduler asks the daemon to relaunch, in every mode, enabled or not, as long as the
  settings stay the same. A scheduled check, and an apply by a development build, never does. An apply by a release
  does exactly when it ends without an error and installed an update, so one whose record cannot be written does
  not. A round that does nothing, because updates are switched off or the mode is neither, does exactly when the
  record on disk says that the last result was an applied update.
\<close>

theorem relaunch_iff_applied:
  assumes "json_faithful hs" "readable (up_net u)" "steady (up_net u)"
    and "scheduler_round hs (switched_hooks on mode opt) u = (stop, u')"
  shows "stop \<longleftrightarrow>
    (if on \<and> mode = mode_check then False
     else if on \<and> mode = mode_apply then
       cfg_current_version (uo_config opt) \<notin> {''dev'', ''unknown''} \<and>
       (\<exists>rs u1. apply_all hs [opt] u = ((None, rs), u1) \<and> list_ex ar_applied rs)
     else \<exists>st. fst (load_state hs (io_state (resolve_options hs opt)) (up_net u)) = Inr st \<and> st_last_result st = ''applied'')"
proof -
  let ?hk = "switched_hooks on mode opt" and ?dev = "cfg_current_version (uo_config opt) \<in> {''dev'', ''unknown''}"
  have ne: "mode_apply \<noteq> mode_check" by (simp add: mode_apply_def mode_check_def)
  consider (applies) "on" "mode = mode_apply" "\<not> ?dev" | (check) "on" "mode = mode_check \<or> mode = mode_apply \<and> ?dev"
    | (idle) "\<not> on \<or> mode \<noteq> mode_check \<and> mode \<noteq> mode_apply" by blast
  then show ?thesis
  proof cases
    case applies
    obtain e rs u1 where ap: "apply_all hs [opt] u = ((e, rs), u1)" by (metis prod.exhaust)
    have run: "run_scheduled_update hs ?hk u = (e = None, u1)"
      using applies ap ne by (auto simp: run_scheduled_update_def Let_def)
    show ?thesis
    proof (cases e)
      case None
      then obtain st where st: "fst (load_state hs (io_state (resolve_options hs opt)) (up_net u1)) = Inr st"
        "st_last_result st = ''applied'' \<longleftrightarrow> list_ex ar_applied rs"
        using apply_all_saves [OF assms(1-3)] ap by blast
      then have "stop \<longleftrightarrow> list_ex ar_applied rs"
        using assms(4) run None by (auto simp: scheduler_round_def split: prod.splits sum.splits)
      then show ?thesis using applies ap None ne by simp
    next
      case (Some err)
      then have "\<not> stop" using assms(4) run ap by (auto simp: scheduler_round_def)
      then show ?thesis using applies ap Some ne by simp
    qed
  next
    case check
    obtain r w where ck: "check hs opt (up_net u) = (r, w)" by fastforce
    have run: "run_scheduled_update hs ?hk u = (\<not> isl r, u\<lparr>up_net := w\<rparr>)"
      unfolding run_scheduled_update_def using check ck by (cases r) (auto simp: Let_def)
    have "\<not> stop"
    proof (cases r)
      case (Inl e)
      then show ?thesis using assms(4) run by (simp add: scheduler_round_def)
    next
      case (Inr c)
      then obtain st where "fst (load_state hs (io_state (resolve_options hs opt)) w) = Inr st"
        "st_last_result st = ''check''"
        using check_saves [OF assms(1-3)] ck by blast
      then show ?thesis using assms(4) run Inr
        by (auto simp: scheduler_round_def split: prod.splits sum.splits)
    qed
    then show ?thesis using check ne by auto
  next
    case idle
    have "run_scheduled_update hs ?hk u = (True, u)" using idle by (auto simp: run_scheduled_update_def Let_def)
    from idle_round [OF this _ assms(4), of opt] show ?thesis using idle by auto
  qed
qed

text \<open>
  A computable encoding of the state for the witnesses: every character of a field is marked, and a number
  is the list of its bits after its sign.
\<close>

fun write_field :: "string \<Rightarrow> string" where
  "write_field [] = ''.''"
| "write_field (c # s) = CHR ''c'' # c # write_field s"

fun read_field :: "string \<Rightarrow> string \<times> string" where
  "read_field (m # c # s) =
     (if m = CHR ''c'' then (let (f, rest) = read_field s in (c # f, rest)) else ([], c # s))"
| "read_field s = ([], [])"

lemma read_write_field: "s \<noteq> [] \<Longrightarrow> read_field (write_field f @ s) = (f, s)"
  by (induction f) (auto simp: neq_Nil_conv)

fun bits_of_int :: "int \<Rightarrow> string" where
  "bits_of_int i = (if i \<le> 0 then [] else (if i mod 2 = 1 then CHR ''1'' else CHR ''0'') # bits_of_int (i div 2))"

declare bits_of_int.simps [simp del]

fun int_of_bits :: "string \<Rightarrow> int" where
  "int_of_bits [] = 0"
| "int_of_bits (c # s) = (if c = CHR ''1'' then 1 else 0) + 2 * int_of_bits s"

lemma int_of_bits_of_int: "0 \<le> i \<Longrightarrow> int_of_bits (bits_of_int i) = i"
proof (induction i rule: bits_of_int.induct)
  case (1 i)
  show ?case
  proof (cases "i \<le> 0")
    case True
    then show ?thesis using 1(2) by (simp add: bits_of_int.simps)
  next
    case False
    then have "int_of_bits (bits_of_int (i div 2)) = i div 2" using 1 by simp
    moreover have "i mod 2 = 1 \<and> 1 + 2 * (i div 2) = i \<or> i mod 2 = 0 \<and> 2 * (i div 2) = i" by presburger
    ultimately show ?thesis using False by (subst bits_of_int.simps) auto
  qed
qed

definition write_int :: "int \<Rightarrow> string" where
  "write_int i = write_field (if i < 0 then CHR ''-'' # bits_of_int (- i) else CHR ''+'' # bits_of_int i)"

definition read_int :: "string \<Rightarrow> int \<times> string" where
  "read_int s = (let (f, rest) = read_field s in
     ((if take 1 f = ''-'' then - int_of_bits (drop 1 f) else int_of_bits (drop 1 f)), rest))"

lemma read_write_int: "s \<noteq> [] \<Longrightarrow> read_int (write_int i @ s) = (i, s)"
  unfolding read_int_def write_int_def by (subst read_write_field) (simp_all add: int_of_bits_of_int)

definition encode_state :: "update_state \<Rightarrow> string" where
  "encode_state st = write_int (st_last_check st) @ write_int (st_next_check st) @
     write_field (st_latest st) @ write_field (st_applied st) @ write_field (st_installed_version st) @
     write_field (st_installed_commit st) @ write_field (st_installed_build_hash st) @
     write_field (st_last_result st) @ write_field (st_last_error st)"

definition decode_state :: "string \<Rightarrow> update_state option" where
  "decode_state s =
     (let (a, s) = read_int s; (b, s) = read_int s; (c, s) = read_field s; (d, s) = read_field s;
          (e, s) = read_field s; (f, s) = read_field s; (g, s) = read_field s; (h, s) = read_field s;
          (i, s) = read_field s
      in Some \<lparr>st_last_check = a, st_next_check = b, st_latest = c, st_applied = d, st_installed_version = e,
           st_installed_commit = f, st_installed_build_hash = g, st_last_result = h, st_last_error = i\<rparr>)"

lemma decode_encode_state: "decode_state (encode_state st @ newline) = Some st"
  by (simp add: decode_state_def encode_state_def read_write_field read_write_int)

definition coding_host :: host where
  "coding_host = sample_host\<lparr>hs_encode := encode_state, hs_decode := decode_state\<rparr>"

lemma coding_host_faithful: "json_faithful coding_host"
  by (simp add: json_faithful_def coding_host_def decode_encode_state)

theorem scheduler_never_spins_witness:
  "\<exists>d u'. sched_step sample_host (steady_hooks mode_check sample_options) (Planning, sample_updater) (Sleeping d, u') \<and> 0 < d"
proof -
  let ?hk = "steady_hooks mode_check sample_options"
  obtain d u' where s: "sched_step sample_host ?hk (Planning, sample_updater) (Sleeping d, u')"
    by (metis Plan surj_pair)
  then show ?thesis using scheduler_never_spins [of sample_host ?hk sample_updater "Sleeping d" u'] by auto
qed

theorem relaunch_iff_applied_witness:
  "\<exists>u'. scheduler_round coding_host (switched_hooks True mode_apply sample_options) sample_updater = (True, u')"
proof -
  let ?hk = "switched_hooks True mode_apply sample_options"
  obtain stop u' where run: "scheduler_round coding_host ?hk sample_updater = (stop, u')" by fastforce
  obtain e rs u1 where ap: "apply_all coding_host [sample_options] sample_updater = ((e, rs), u1)"
    by (metis prod.exhaust)
  have "(case fst (apply_all coding_host [sample_options] sample_updater) of (e, rs) \<Rightarrow> e = None \<and> list_ex ar_applied rs)"
    by code_simp
  then have "e = None" "list_ex ar_applied rs" using ap by auto
  moreover have "cfg_current_version (uo_config sample_options) \<notin> {''dev'', ''unknown''}" by code_simp
  moreover have "readable (up_net sample_updater)" by (simp add: readable_def sample_updater_def serving_def)
  ultimately have stop
    using relaunch_iff_applied [OF coding_host_faithful _ sample_updater_ok(3) run] ap
    by (simp add: mode_apply_def mode_check_def)
  then show ?thesis using run by simp
qed

text \<open>
  The state is read after a round that did nothing as well: with updates disabled after one was applied, the
  record of it makes every round ask for a relaunch.
\<close>

lemma disabled_scheduler_relaunches:
  assumes "hk_enabled hk = Some (\<lambda>_. False)"
    and "load_state hs (io_state (resolve_options hs (scheduler_options hk (up_net u)))) (up_net u) = (Inr st, w)"
    and "st_last_result st = ''applied''"
  shows "scheduler_round hs hk u = (True, u\<lparr>up_net := w\<rparr>)"
  using assms by (simp add: scheduler_round_def run_scheduled_update_def scheduler_enabled_def)

end
