(* ===== verification/LintText.thy ===== *)
theory LintText
  imports LintGate
begin

text \<open>
  The text functions of \<open>internal/lint\<close>: the exclude and scope patterns built from lists of names, the
  gocyclo row format, the scoped filters, the failed-gate list, and the slug of a gate token. Strings are
  bytes; \<open>Slugify\<close> ranges over runes, and a byte it keeps is always a rune of its own.
\<close>

section \<open>Patterns\<close>

definition exclude_pattern :: "string \<Rightarrow> string \<Rightarrow> string" where
  "exclude_pattern defaults extra =
     str_join ''|'' (filter (\<lambda>f. f \<noteq> []) (split_on CHR '','' (defaults @ '','' @ extra)))"

definition test_file_exclude :: string where "test_file_exclude = ''_test'' @ [CHR 0x5C] @ ''.go:''"

definition test_file_flags :: "string list" where
  "test_file_flags = [''testdouble'', ''testpackage'', ''testassert'', ''testsourcefile'', ''testseam'']"

text \<open>The name and the value of a flag word; \<open>None\<close> when the word is not a flag.\<close>

definition parse_flag_word :: "string \<Rightarrow> (string \<times> string) option" where
  "parse_flag_word w =
     (let t = trim_left w ''-'' in
      if t = w \<or> t = [] then None
      else (case str_cut t ''='' of
              Some (name, value) \<Rightarrow> Some (name, value)
            | None \<Rightarrow> Some (t, ''true'')))"

definition flag_on :: "string \<Rightarrow> bool" where
  "flag_on value \<longleftrightarrow> value \<noteq> ''false'' \<and> value \<noteq> ''0''"

definition test_file_flag_enabled :: "string \<Rightarrow> bool" where
  "test_file_flag_enabled flags =
     list_ex (\<lambda>w. case parse_flag_word w of None \<Rightarrow> False
                  | Some (name, value) \<Rightarrow> flag_on value \<and> name \<in> set test_file_flags) (str_fields flags)"

definition staticcheck_default_excludes :: "string \<Rightarrow> string \<Rightarrow> string" where
  "staticcheck_default_excludes defaults flags =
     (if \<not> test_file_flag_enabled flags then defaults
      else str_join '','' (filter (\<lambda>f. f \<noteq> test_file_exclude) (split_on CHR '','' defaults)))"

definition golangci_scope_pattern :: "string \<Rightarrow> string \<Rightarrow> string \<Rightarrow> string" where
  "golangci_scope_pattern explicit rule linter =
     (if explicit \<noteq> [] then explicit
      else if rule \<noteq> [] then
        (if linter \<noteq> [] then rule @ '':.*'' @ [CHR 0x5C] @ ''('' @ linter @ [CHR 0x5C] @ '')$'' else rule @ '':'')
      else if linter \<noteq> [] then [CHR 0x5C] @ ''('' @ linter @ [CHR 0x5C] @ '')$''
      else [])"

definition flag_scope_patterns :: "(string \<times> string) list" where
  "flag_scope_patterns = [(''time_now_outside_clock'', ''time_now_outside_clock'')]"

text \<open>The loop over the flag words; \<open>None\<close> is the early return of an enabled flag without a scope.\<close>

fun flag_patterns :: "string list \<Rightarrow> string list option" where
  "flag_patterns [] = Some []"
| "flag_patterns (w # ws) =
     (case parse_flag_word w of
        None \<Rightarrow> flag_patterns ws
      | Some (name, value) \<Rightarrow>
          if \<not> flag_on value then flag_patterns ws
          else (case map_of flag_scope_patterns name of
                  None \<Rightarrow> None
                | Some p \<Rightarrow> map_option ((#) p) (flag_patterns ws)))"

definition staticcheck_scope_pattern :: "string \<Rightarrow> string \<Rightarrow> string" where
  "staticcheck_scope_pattern explicit flags =
     (if explicit \<noteq> [] then explicit
      else if blank flags then []
      else (case flag_patterns (str_fields flags) of
              None \<Rightarrow> [] | Some ps \<Rightarrow> if ps = [] then [] else str_join ''|'' ps))"

definition staticcheck_suppress_fixed :: "string \<Rightarrow> string \<Rightarrow> bool" where
  "staticcheck_suppress_fixed flags scope \<longleftrightarrow> \<not> blank flags \<and> scope = []"

section \<open>Lines\<close>

definition gocyclo_row :: "string \<Rightarrow> string list \<Rightarrow> string" where
  "gocyclo_row threshold cols =
     last cols @ '': gocyclo: complexity '' @ hd cols @ '' over '' @ threshold @ '' in '' @
       str_join '' '' (butlast (tl cols))"

fun gocyclo_transform :: "string list \<Rightarrow> int \<Rightarrow> string list" where
  "gocyclo_transform [] threshold = []"
| "gocyclo_transform (l # ls) threshold =
     (if length (str_fields l) < 4 then gocyclo_transform ls threshold
      else gocyclo_row (itoa threshold) (str_fields l) # gocyclo_transform ls threshold)"

definition scoped_packages :: "string list \<Rightarrow> string list" where
  "scoped_packages files = sort_dedup (map (\<lambda>f. ''./'' @ path_dir f) (filter (\<lambda>f. f \<noteq> []) files))"

definition filter_scoped_findings :: "string list \<Rightarrow> string list \<Rightarrow> string list" where
  "filter_scoped_findings ls files =
     (let keep = map (\<lambda>f. f @ '':'') (filter (\<lambda>f. f \<noteq> []) files)
      in filter (\<lambda>l. list_ex (\<lambda>p. prefix p l) keep) ls)"

text \<open>
  The pattern \<open>^make(\[[0-9]+\])?: \*\*\* \[[^]]+\] Error [0-9]+$\<close>, read from left to right: the bracket of a
  target ends at its first closing bracket, which the target itself cannot contain.
\<close>

definition after_make_level :: "string \<Rightarrow> string" where
  "after_make_level s =
     (let d = takeWhile is_digit (tl s); rest = drop (length d) (tl s) in
      if prefix ''['' s \<and> d \<noteq> [] \<and> prefix '']'' rest then tl rest else s)"

definition error_tail :: "string \<Rightarrow> bool" where
  "error_tail s \<longleftrightarrow> prefix ''] Error '' s \<and> all_digits (drop 8 s)"

definition make_error_line :: "string \<Rightarrow> bool" where
  "make_error_line l \<longleftrightarrow>
     (let r = after_make_level (drop 4 l); target = takeWhile (\<lambda>c. c \<noteq> CHR '']'') (drop 7 r) in
      prefix ''make'' l \<and> prefix '': *** ['' r \<and> target \<noteq> [] \<and> error_tail (drop (length target) (drop 7 r)))"

definition filter_make_error_lines :: "string list \<Rightarrow> string list" where
  "filter_make_error_lines ls = filter (\<lambda>l. \<not> make_error_line l) ls"

definition dedupe_failed_gates :: "string list \<Rightarrow> string list" where
  "dedupe_failed_gates names = keep_first (\<lambda>n. n) {} (filter (\<lambda>n. n \<noteq> []) names)"

section \<open>Slugs\<close>

definition is_upper :: "char \<Rightarrow> bool" where
  "is_upper c \<longleftrightarrow> 65 \<le> (of_char c :: nat) \<and> (of_char c :: nat) \<le> 90"

definition is_lower :: "char \<Rightarrow> bool" where
  "is_lower c \<longleftrightarrow> 97 \<le> (of_char c :: nat) \<and> (of_char c :: nat) \<le> 122"

definition lower_char :: "char \<Rightarrow> char" where
  "lower_char c = (if is_upper c then char_of (of_char c + 32 :: nat) else c)"

definition slug_char :: "char \<Rightarrow> bool" where
  "slug_char c \<longleftrightarrow> is_lower c \<or> is_digit c \<or> c = CHR ''_'' \<or> c = CHR ''-''"

fun slugify :: "string \<Rightarrow> string" where
  "slugify [] = []"
| "slugify (c # s) =
     (if is_upper c then lower_char c # slugify s else if slug_char c then c # slugify s else slugify s)"

lemma lower_char_slug: "is_upper c \<Longrightarrow> slug_char (lower_char c) \<and> \<not> is_upper (lower_char c)"
  by (simp add: is_upper_def is_lower_def lower_char_def slug_char_def)

lemma slug_char_not_upper: "slug_char c \<Longrightarrow> \<not> is_upper c"
  by (auto simp: slug_char_def is_upper_def is_lower_def is_digit_def)

lemma slugify_chars: "c \<in> set (slugify s) \<Longrightarrow> slug_char c"
  by (induction s) (auto simp: lower_char_slug split: if_splits)

lemma slugify_fixed: "list_all slug_char s \<Longrightarrow> slugify s = s"
  by (induction s) (auto dest: slug_char_not_upper)

lemma slugify_idem [simp]: "slugify (slugify s) = slugify s"
  by (rule slugify_fixed) (simp add: list_all_iff slugify_chars)

lemma slug_char_plain: "slug_char c \<Longrightarrow> plain_char c"
  by (auto simp: slug_char_def is_lower_def is_digit_def plain_char_def ascii_spaces_def wide_lead_def)

section \<open>Facts\<close>

lemma gocyclo_transform_filter:
  "gocyclo_transform ls threshold =
     map (\<lambda>l. gocyclo_row (itoa threshold) (str_fields l)) (filter (\<lambda>l. 4 \<le> length (str_fields l)) ls)"
  by (induction ls) auto

lemma dedupe_failed_gates_set: "set (dedupe_failed_gates names) = set names - {[]}"
  using keep_first_keys [of "\<lambda>n. n" "{}" "filter (\<lambda>n. n \<noteq> []) names"] by (auto simp: dedupe_failed_gates_def)

lemma dedupe_failed_gates_distinct: "distinct (dedupe_failed_gates names)"
  using keep_first_distinct [of "\<lambda>n. n" "{}"] by (simp add: dedupe_failed_gates_def)

text \<open>The matcher of make's error lines reads the pattern.\<close>

lemma all_digits_append_stop:
  "all_digits d \<Longrightarrow> \<not> is_digit c \<Longrightarrow> takeWhile is_digit (d @ c # s) = d"
  by (simp add: all_digits_def list_all_iff takeWhile_append2)

lemma takeWhile_rest: "xs = takeWhile P xs @ drop (length (takeWhile P xs)) xs"
  by (metis dropWhile_eq_drop takeWhile_dropWhile_id)

lemma prefix_rest: "prefix p s \<Longrightarrow> n = length p \<Longrightarrow> s = p @ drop n s"
  by (auto simp: prefix_def)

lemma make_error_line_iff:
  "make_error_line l \<longleftrightarrow>
     (\<exists>level target n. (level = [] \<or> (\<exists>d. all_digits d \<and> level = ''['' @ d @ '']'')) \<and> target \<noteq> [] \<and>
        CHR '']'' \<notin> set target \<and> all_digits n \<and> l = ''make'' @ level @ '': *** ['' @ target @ ''] Error '' @ n)"
  (is "_ \<longleftrightarrow> ?R")
proof
  assume m: "make_error_line l"
  define r where "r = after_make_level (drop 4 l)"
  define t where "t = takeWhile (\<lambda>c. c \<noteq> CHR '']'') (drop 7 r)"
  define q where "q = drop (length t) (drop 7 r)"
  have p: "prefix ''make'' l" "prefix '': *** ['' r" "t \<noteq> []" "error_tail q"
    using m by (simp_all add: make_error_line_def r_def t_def q_def Let_def)
  have l: "l = ''make'' @ drop 4 l" by (rule prefix_rest [OF p(1)]) simp
  have r: "r = '': *** ['' @ drop 7 r" by (rule prefix_rest [OF p(2)]) simp
  have d: "drop 7 r = t @ q" unfolding t_def q_def by (rule takeWhile_rest)
  have e: "prefix ''] Error '' q" "all_digits (drop 8 q)" using p(4) by (simp_all add: error_tail_def)
  have q: "q = ''] Error '' @ drop 8 q" by (rule prefix_rest [OF e(1)]) simp
  have free: "CHR '']'' \<notin> set t" unfolding t_def by (auto dest: set_takeWhileD)
  have "\<exists>level. (level = [] \<or> (\<exists>d. all_digits d \<and> level = ''['' @ d @ '']'')) \<and> drop 4 l = level @ r"
  proof (cases "r = drop 4 l")
    case True
    then show ?thesis by (intro exI [of _ "[]"]) simp
  next
    case False
    let ?s = "drop 4 l" let ?d = "takeWhile is_digit (tl ?s)" let ?rest = "drop (length ?d) (tl ?s)"
    have c: "prefix ''['' ?s" "?d \<noteq> []" "prefix '']'' ?rest" "r = tl ?rest"
      using False by (auto simp: r_def after_make_level_def Let_def split: if_splits)
    have s: "?s = ''['' @ tl ?s" using c(1) by (cases ?s) auto
    have "tl ?s = ?d @ ?rest" by (rule takeWhile_rest)
    moreover have "?rest = '']'' @ r" using c(3,4) by (cases ?rest) auto
    ultimately have "?s = (''['' @ ?d @ '']'') @ r" using s by simp
    moreover have "all_digits ?d" using c(2) by (auto simp: all_digits_def list_all_iff dest: set_takeWhileD)
    ultimately show ?thesis by blast
  qed
  then obtain level where lev: "level = [] \<or> (\<exists>d. all_digits d \<and> level = ''['' @ d @ '']'')" "drop 4 l = level @ r"
    by blast
  have "''make'' @ level @ '': *** ['' @ t @ ''] Error '' @ drop 8 q = l"
    by (simp only: q [symmetric] d [symmetric] r [symmetric] lev(2) [symmetric] l [symmetric])
  then show ?R using lev(1) e(2) p(3) free
    by (intro exI [of _ level] exI [of _ t] exI [of _ "drop 8 q"] conjI) simp_all
next
  assume ?R
  then obtain level target n where
    a: "level = [] \<or> (\<exists>d. all_digits d \<and> level = ''['' @ d @ '']'')" "target \<noteq> []" "CHR '']'' \<notin> set target"
      "all_digits n" "l = ''make'' @ level @ '': *** ['' @ target @ ''] Error '' @ n"
    by blast
  let ?r = "'': *** ['' @ target @ ''] Error '' @ n"
  have "after_make_level (level @ ?r) = ?r"
    using a(1)
  proof
    assume "\<exists>d. all_digits d \<and> level = ''['' @ d @ '']''"
    then obtain d where d: "all_digits d" "level = ''['' @ d @ '']''" by blast
    have "takeWhile is_digit (d @ CHR '']'' # ?r) = d"
      by (rule all_digits_append_stop [OF d(1)]) (simp add: is_digit_def)
    then show ?thesis using d by (auto simp: after_make_level_def Let_def all_digits_def)
  qed (simp add: after_make_level_def)
  moreover have "takeWhile (\<lambda>c. c \<noteq> CHR '']'') (target @ ''] Error '' @ n) = target"
    using a(3) by (induction target) auto
  ultimately show "make_error_line l"
    using a by (simp add: make_error_line_def error_tail_def Let_def del: drop_drop)
qed

end
