(* ===== verification/Tooling.thy ===== *)
theory Tooling
  imports LintText Download
begin

text \<open>
  The boundary of the \<open>go-mk\<close> commands: an environment of \<open>NAME=value\<close> entries, files, external commands and
  HTTP requests, what the process prints, and the record of the gate that runs. External commands are an
  oracle: the n-th one answers with its exit status, what it printed and the files it wrote. Every file
  operation asks a fault oracle at the clock. With it: the concurrency and the environment of the lint
  commands (\<open>internal/capture\<close>, \<open>lint.go\<close>) and the platform matrix (\<open>platform.go\<close>).
\<close>

section \<open>The environment of a process\<close>

definition env_entry :: "string \<Rightarrow> string list \<Rightarrow> string option" where
  "env_entry name env = map_option (drop (Suc (length name))) (find (prefix (name @ ''='')) env)"

definition env_get :: "string list \<Rightarrow> string \<Rightarrow> string" where
  "env_get env name = (case env_entry name env of None \<Rightarrow> [] | Some v \<Rightarrow> v)"

definition env_default :: "string list \<Rightarrow> string \<Rightarrow> string \<Rightarrow> string" where
  "env_default env name fallback = (if env_get env name = [] then fallback else env_get env name)"

fun set_env_var :: "string list \<Rightarrow> string \<Rightarrow> string \<Rightarrow> string list" where
  "set_env_var [] key v = [key @ ''='' @ v]"
| "set_env_var (e # es) key v =
     (if prefix (key @ ''='') e then (key @ ''='' @ v) # es else e # set_env_var es key v)"

lemma env_entry_Cons:
  "env_entry name (e # es) =
     (if prefix (name @ ''='') e then Some (drop (Suc (length name)) e) else env_entry name es)"
  by (simp add: env_entry_def)

lemma prefix_key_unique:
  "CHR ''='' \<notin> set a \<Longrightarrow> CHR ''='' \<notin> set b \<Longrightarrow> prefix (a @ ''='') (b @ ''='' @ v) \<longleftrightarrow> a = b"
  by (auto simp: prefix_def free_append_eq)

lemma env_get_set_same [simp]: "env_get (set_env_var env k v) k = v"
  by (induction env) (auto simp: env_get_def env_entry_Cons env_entry_def prefix_def)

lemma prefix_two_keys:
  "CHR ''='' \<notin> set a \<Longrightarrow> CHR ''='' \<notin> set b \<Longrightarrow> prefix (a @ ''='') e \<Longrightarrow> prefix (b @ ''='') e \<Longrightarrow> a = b"
  by (auto simp: prefix_def free_append_eq)

lemma env_get_set_other:
  assumes "CHR ''='' \<notin> set k" "CHR ''='' \<notin> set n" "n \<noteq> k"
  shows "env_get (set_env_var env k v) n = env_get env n"
  using assms
  by (induction env)
    (auto simp: env_get_def env_entry_Cons env_entry_def prefix_key_unique dest: prefix_two_keys)

section \<open>The world\<close>

record platform_target =
  pt_goos :: string
  pt_goarch :: string

definition no_platform :: platform_target where
  "no_platform = \<lparr>pt_goos = [], pt_goarch = []\<rparr>"

definition platform_label :: "platform_target \<Rightarrow> string" where
  "platform_label p = pt_goos p @ ''/'' @ pt_goarch p"

datatype cmd_outcome = NotStarted | Exited int string "(string \<times> string option) list"

datatype file_call =
    ReadCall | WriteCall | MkdirCall | RemoveCall | StatCall | AppendCall | WalkCall | SymlinkCall

text \<open>The outcome a gate leaves for the report: nothing yet, a verdict, or the lines of a failed tool.\<close>

datatype gate_outcome = NoOutcome | Verdict gate_marker | ToolFailure "string list"

record tool_world =
  tw_environ :: "string list"
  tw_cwd :: "string option"
  tw_files :: "string \<Rightarrow> string option"
  tw_dirs :: "string \<Rightarrow> bool"
  tw_fault :: "file_call \<Rightarrow> nat \<Rightarrow> bool"
  tw_run :: "nat \<Rightarrow> string list \<Rightarrow> cmd_outcome"
  tw_http :: "nat \<Rightarrow> string \<Rightarrow> http_outcome"
  tw_compile :: "string \<Rightarrow> matcher option"
  tw_host :: platform_target
  tw_cpus :: int
  tw_load :: int
  tw_clock :: nat
  tw_ran :: "(string list \<times> string list) list"
  tw_fetched :: "string list"
  tw_stdout :: string
  tw_collecting :: bool
  tw_outcome :: gate_outcome
  tw_platform :: platform_target
  tw_prepared :: bool

abbreviation tenv :: "tool_world \<Rightarrow> string \<Rightarrow> string" where
  "tenv w name \<equiv> env_get (tw_environ w) name"

abbreviation tenv_default :: "tool_world \<Rightarrow> string \<Rightarrow> string \<Rightarrow> string" where
  "tenv_default w name fallback \<equiv> env_default (tw_environ w) name fallback"

definition t_tick :: "tool_world \<Rightarrow> tool_world" where
  "t_tick w = w\<lparr>tw_clock := Suc (tw_clock w)\<rparr>"

definition t_fails :: "file_call \<Rightarrow> tool_world \<Rightarrow> bool" where
  "t_fails c w = tw_fault w c (tw_clock w)"

definition t_print :: "string \<Rightarrow> tool_world \<Rightarrow> tool_world" where
  "t_print s w = w\<lparr>tw_stdout := tw_stdout w @ s\<rparr>"

definition t_println :: "string \<Rightarrow> tool_world \<Rightarrow> tool_world" where
  "t_println s w = t_print (s @ newline) w"

definition t_read :: "string \<Rightarrow> tool_world \<Rightarrow> file_read \<times> tool_world" where
  "t_read path w =
     (if t_fails ReadCall w then Unreadable
      else (case tw_files w path of None \<Rightarrow> NoFile | Some s \<Rightarrow> Content s), t_tick w)"

text \<open>A file operation that can fail, and one that changes the file at a path when it does not.\<close>

definition t_try :: "file_call \<Rightarrow> tool_world \<Rightarrow> bool \<times> tool_world" where
  "t_try c w = (\<not> t_fails c w, t_tick w)"

definition t_set :: "file_call \<Rightarrow> string \<Rightarrow> string option \<Rightarrow> tool_world \<Rightarrow> bool \<times> tool_world" where
  "t_set c path v w =
     (if t_fails c w then (False, t_tick w)
      else (True, (t_tick w)\<lparr>tw_files := (tw_files w)(path := v)\<rparr>))"

definition t_append :: "string \<Rightarrow> string \<Rightarrow> tool_world \<Rightarrow> bool \<times> tool_world" where
  "t_append path s w = t_set AppendCall path (Some ((case tw_files w path of None \<Rightarrow> [] | Some old \<Rightarrow> old) @ s)) w"

definition file_exists :: "string \<Rightarrow> tool_world \<Rightarrow> bool" where
  "file_exists path w \<longleftrightarrow> \<not> t_fails StatCall w \<and> tw_files w path \<noteq> None \<and> \<not> tw_dirs w path"

definition apply_writes :: "(string \<times> string option) list \<Rightarrow> (string \<Rightarrow> string option) \<Rightarrow> string \<Rightarrow> string option" where
  "apply_writes ws files = foldl (\<lambda>f (p, v). f(p := v)) files ws"

text \<open>\<open>exec.Command\<close> with an environment: the command and its environment are recorded.\<close>

definition t_exec :: "string list \<Rightarrow> string list \<Rightarrow> tool_world \<Rightarrow> cmd_outcome \<times> tool_world" where
  "t_exec env argv w =
     (let r = tw_run w (length (tw_ran w)) argv;
          w = (t_tick w)\<lparr>tw_ran := tw_ran w @ [(env, argv)]\<rparr>
      in case r of
           NotStarted \<Rightarrow> (r, w)
         | Exited status out ws \<Rightarrow> (r, w\<lparr>tw_files := apply_writes ws (tw_files w)\<rparr>))"

text \<open>\<open>Output()\<close>: what the command printed, or its failure with the exit status when it has one.\<close>

definition t_output :: "string list \<Rightarrow> tool_world \<Rightarrow> (int option, string) result \<times> tool_world" where
  "t_output argv w =
     (case t_exec (tw_environ w) argv w of
        (NotStarted, w) \<Rightarrow> (Inl None, w)
      | (Exited status out ws, w) \<Rightarrow> (if status = 0 then Inr out else Inl (Some status), w))"

definition logged_git_output :: "string list \<Rightarrow> tool_world \<Rightarrow> (int option, string) result \<times> tool_world" where
  "logged_git_output argv w =
     (case t_output (''git'' # argv) w of
        (Inl e, w) \<Rightarrow> (Inl e, w)
      | (Inr out, w) \<Rightarrow> (Inr (trim_space out), w))"

datatype tool_error =
    CommandNotStarted "string list"
  | CommandFailed "string list" int
  | FileError string
  | Filtering baseline_error
  | EmptyInstallSpec
  | NoGoFiles
  | NoticeFailed string
  | PackageNotLoaded string string
  | DecodeFailed
  | AnalyzerUnavailable
  | AnalyzerBuildFailed "string list"

text \<open>
  Go's two ways to pass an error on: the function returns it, or prints it and returns status 1.
\<close>

definition t_bind ::
  "(tool_world \<Rightarrow> (tool_error, 'a) result \<times> tool_world) \<Rightarrow> ('a \<Rightarrow> tool_world \<Rightarrow> (tool_error, 'b) result \<times> tool_world) \<Rightarrow>
     tool_world \<Rightarrow> (tool_error, 'b) result \<times> tool_world" where
  "t_bind m f w = (case m w of (Inl e, w) \<Rightarrow> (Inl e, w) | (Inr a, w) \<Rightarrow> f a w)"

definition or_status ::
  "(tool_world \<Rightarrow> (tool_error, 'a) result \<times> tool_world) \<Rightarrow> ('a \<Rightarrow> tool_world \<Rightarrow> int \<times> tool_world) \<Rightarrow>
     tool_world \<Rightarrow> int \<times> tool_world" where
  "or_status m f w = (case m w of (Inl e, w) \<Rightarrow> (1, w) | (Inr a, w) \<Rightarrow> f a w)"

definition t_lift :: "(tool_error, 'a) result \<Rightarrow> tool_world \<Rightarrow> (tool_error, 'a) result \<times> tool_world" where
  "t_lift r w = (r, w)"

lemma t_bind_Inr: "t_bind m f w = (Inr b, w') \<longleftrightarrow> (\<exists>a w1. m w = (Inr a, w1) \<and> f a w1 = (Inr b, w'))"
  by (auto simp: t_bind_def split: prod.splits sum.splits)

lemma or_status_0: "or_status m f w = (0, w') \<longleftrightarrow> (\<exists>a w1. m w = (Inr a, w1) \<and> f a w1 = (0, w'))"
  by (auto simp: or_status_def split: prod.splits sum.splits)

definition read_file_lines :: "string \<Rightarrow> tool_world \<Rightarrow> (tool_error, string list) result \<times> tool_world" where
  "read_file_lines path w =
     (case t_read path w of
        (NoFile, w) \<Rightarrow> (Inr [], w)
      | (Unreadable, w) \<Rightarrow> (Inl (FileError path), w)
      | (Content s, w) \<Rightarrow> (Inr (text_lines s), w))"

definition read_file_content :: "string \<Rightarrow> tool_world \<Rightarrow> (tool_error, string) result \<times> tool_world" where
  "read_file_content path w =
     (case t_read path w of
        (NoFile, w) \<Rightarrow> (Inr [], w)
      | (Unreadable, w) \<Rightarrow> (Inl (FileError path), w)
      | (Content s, w) \<Rightarrow> (Inr s, w))"

definition write_findings_file :: "string \<Rightarrow> string list \<Rightarrow> tool_world \<Rightarrow> (tool_error, unit) result \<times> tool_world" where
  "write_findings_file path ls w =
     (let (b, w) = t_set WriteCall path (Some (write_findings_text ls)) w in
      (if b then Inr () else Inl (FileError path), w))"

definition split_output_lines :: "string \<Rightarrow> string list" where
  "split_output_lines text =
     (if text = [] then []
      else (let t = trim_suffix text newline in if t = [] then [[]] else split_on (CHR 0x0A) t))"

definition split_words :: "string \<Rightarrow> string list" where
  "split_words text = str_fields text"

section \<open>Lint commands\<close>

definition make_dir :: string where "make_dir = ''.make''"

definition ensure_make_dir :: "tool_world \<Rightarrow> (tool_error, unit) result \<times> tool_world" where
  "ensure_make_dir w = (let (b, w) = t_try MkdirCall w in (if b then Inr () else Inl (FileError make_dir), w))"

text \<open>An error is printed to standard error, which is not modelled, and becomes exit status 1.\<close>

definition status_from_error :: "(tool_error, unit) result \<Rightarrow> int" where
  "status_from_error r = (case r of Inl e \<Rightarrow> 1 | Inr _ \<Rightarrow> 0)"

definition failed_gates_path :: string where "failed_gates_path = path_join [make_dir, ''lint.failed'']"

definition record_failed :: "string \<Rightarrow> tool_world \<Rightarrow> tool_world" where
  "record_failed gate w =
     (let (made, w) = t_try MkdirCall w in
      if \<not> made then w else snd (t_append failed_gates_path (gate @ newline) w))"

text \<open>
  The load average comes with two decimals: it is kept in hundredths. \<open>int\<close> of a float rounds toward zero.
\<close>

definition truncate_hundredths :: "int \<Rightarrow> int" where
  "truncate_hundredths x = (if x < 0 then - ((- x) div 100) else x div 100)"

definition resolve_concurrency :: "int \<Rightarrow> int \<Rightarrow> int" where
  "resolve_concurrency cpus load =
     (let v = truncate_hundredths (100 * cpus - load - 100); minimum = (if cpus < 2 then 1 else 2);
          v = (if v < minimum then minimum else v)
      in if cpus < v then cpus else v)"

definition host_cpu_count :: "tool_world \<Rightarrow> int" where
  "host_cpu_count w = (if tw_cpus w < 1 then 1 else tw_cpus w)"

definition host_concurrency :: "tool_world \<Rightarrow> int" where
  "host_concurrency w = resolve_concurrency (host_cpu_count w) (tw_load w)"

definition lint_goflags :: "string \<Rightarrow> int \<Rightarrow> string" where
  "lint_goflags existing concurrency =
     (let kept = filter (\<lambda>t. \<not> prefix ''-p='' t) (str_fields existing); flag = ''-p='' @ itoa concurrency
      in if kept = [] then flag else str_join '' '' kept @ '' '' @ flag)"

definition golangci_cache_name :: string where "golangci_cache_name = ''golangci-cache''"

definition golangci_cache_dir :: "platform_target \<Rightarrow> string" where
  "golangci_cache_dir p =
     (if pt_goos p \<noteq> [] then path_join [make_dir, golangci_cache_name @ ''-'' @ pt_goos p @ ''-'' @ pt_goarch p]
      else path_join [make_dir, golangci_cache_name])"

definition golangci_cache_patterns :: "string list" where
  "golangci_cache_patterns =
     [path_join [make_dir, golangci_cache_name @ ''*''], path_join [''**'', make_dir, golangci_cache_name @ ''*'']]"

text \<open>\<open>filepath.Abs\<close>: a relative path needs the working directory.\<close>

definition path_abs :: "tool_world \<Rightarrow> string \<Rightarrow> string option" where
  "path_abs w p =
     (if is_abs p then Some (path_clean p) else map_option (\<lambda>d. path_join [d, p]) (tw_cwd w))"

definition lint_env_for :: "platform_target \<Rightarrow> tool_world \<Rightarrow> string list" where
  "lint_env_for active w =
     (let c = host_concurrency w;
          env = set_env_var (tw_environ w) ''GOMAXPROCS'' (itoa c);
          env = set_env_var env ''GOFLAGS'' (lint_goflags (tenv w ''GOFLAGS'') c);
          env = (if pt_goos active = [] then env
                 else (let env = set_env_var env ''GOOS'' (pt_goos active);
                           env = set_env_var env ''GOARCH'' (pt_goarch active);
                           cross = (pt_goos active \<noteq> pt_goos (tw_host w) \<or> pt_goarch active \<noteq> pt_goarch (tw_host w))
                       in if cross \<and> blank (tenv w ''GO_MK_CC'') then set_env_var env ''CGO_ENABLED'' ''0'' else env))
      in if tenv w ''GOLANGCI_LINT_CACHE'' = []
         then (case path_abs w (golangci_cache_dir active) of
                 None \<Rightarrow> env | Some d \<Rightarrow> set_env_var env ''GOLANGCI_LINT_CACHE'' d)
         else env)"

definition lint_env :: "tool_world \<Rightarrow> string list" where
  "lint_env w = lint_env_for (tw_platform w) w"

definition host_lint_env :: "tool_world \<Rightarrow> string list" where
  "host_lint_env w = lint_env_for no_platform w"

text \<open>
  \<open>capture.Run\<close>: the output file is created first, and holds what the command printed; only a command that
  did not start, or an output file that cannot be created, is an error.
\<close>

definition capture_command :: "string \<Rightarrow> string list \<Rightarrow> string \<Rightarrow> tool_world \<Rightarrow> (tool_error, int) result \<times> tool_world" where
  "capture_command name args output_path w =
     (let (made, w) = t_set WriteCall output_path (Some []) w in
      if \<not> made then (Inl (FileError output_path), w)
      else (case t_exec (lint_env w) (name # args) w of
              (NotStarted, w) \<Rightarrow> (Inl (CommandNotStarted (name # args)), w)
            | (Exited status out ws, w) \<Rightarrow> (Inr status, w\<lparr>tw_files := (tw_files w)(output_path := Some out)\<rparr>)))"

definition run_command :: "string list \<Rightarrow> string list \<Rightarrow> tool_world \<Rightarrow> (tool_error, unit) result \<times> tool_world" where
  "run_command env argv w =
     (case t_exec env argv w of
        (NotStarted, w) \<Rightarrow> (Inl (CommandNotStarted argv), w)
      | (Exited status out ws, w) \<Rightarrow>
          (if status = 0 then Inr () else Inl (CommandFailed argv status), t_print out w))"

definition run_lint_cpu :: "string \<Rightarrow> string list \<Rightarrow> tool_world \<Rightarrow> (tool_error, unit) result \<times> tool_world" where
  "run_lint_cpu name args w = run_command (lint_env w) (name # args) w"

definition go_env_path :: "string \<Rightarrow> tool_world \<Rightarrow> (tool_error, string) result \<times> tool_world" where
  "go_env_path name w =
     (case t_output [''go'', ''env'', name] w of
        (Inl None, w) \<Rightarrow> (Inl (CommandNotStarted [''go'', ''env'', name]), w)
      | (Inl (Some s), w) \<Rightarrow> (Inl (CommandFailed [''go'', ''env'', name] s), w)
      | (Inr out, w) \<Rightarrow> (Inr (trim_space out), w))"

definition install_go_tool :: "string \<Rightarrow> tool_world \<Rightarrow> (tool_error, unit) result \<times> tool_world" where
  "install_go_tool spec w =
     (if split_words spec = [] then (Inl EmptyInstallSpec, t_println ''go install: empty install spec'' w)
      else run_command (host_lint_env w) ([''go'', ''install''] @ split_words spec) w)"

section \<open>The platform matrix\<close>

definition parse_platform :: "string \<Rightarrow> platform_target option" where
  "parse_platform entry =
     (case str_cut entry ''/'' of
        None \<Rightarrow> None
      | Some (os, arch) \<Rightarrow> if os = [] \<or> arch = [] then None else Some \<lparr>pt_goos = os, pt_goarch = arch\<rparr>)"

definition platform_matrix :: "tool_world \<Rightarrow> platform_target list" where
  "platform_matrix w = List.map_filter parse_platform (split_words (tenv w ''GO_MK_PLATFORMS''))"

fun run_platforms :: "(tool_world \<Rightarrow> int \<times> tool_world) \<Rightarrow> platform_target list \<Rightarrow> int \<Rightarrow> tool_world \<Rightarrow> int \<times> tool_world" where
  "run_platforms fn [] status w = (status, w)"
| "run_platforms fn (t # ts) status w =
     (let (code, w) = fn (w\<lparr>tw_platform := t\<rparr>); w = w\<lparr>tw_platform := no_platform\<rparr>
      in run_platforms fn ts (if code \<noteq> 0 then code else status) w)"

definition run_across_platforms :: "(tool_world \<Rightarrow> int \<times> tool_world) \<Rightarrow> tool_world \<Rightarrow> int \<times> tool_world" where
  "run_across_platforms fn w =
     (if platform_matrix w = [] then fn w else run_platforms fn (platform_matrix w) 0 w)"

definition declared_platforms :: "string \<Rightarrow> tool_world \<Rightarrow> string list" where
  "declared_platforms release_default w =
     (if platform_matrix w = []
      then (if str_fields (tenv w ''GO_MK_DEFAULT_PLATFORMS'') \<noteq> []
            then str_fields (tenv w ''GO_MK_DEFAULT_PLATFORMS'') else str_fields release_default)
      else map platform_label (platform_matrix w))"

section \<open>Facts\<close>

lemma resolve_concurrency_bounds:
  "1 \<le> cpus \<Longrightarrow> 1 \<le> resolve_concurrency cpus load \<and> resolve_concurrency cpus load \<le> cpus"
  by (simp add: resolve_concurrency_def Let_def)

lemma host_concurrency_pos: "1 \<le> host_concurrency w"
  using resolve_concurrency_bounds [of "host_cpu_count w" "tw_load w"]
  by (simp add: host_concurrency_def host_cpu_count_def split: if_splits)

lemma lint_env_platform:
  assumes "pt_goos p \<noteq> []"
  shows "env_get (lint_env_for p w) ''GOOS'' = pt_goos p" "env_get (lint_env_for p w) ''GOARCH'' = pt_goarch p"
  using assms
  by (auto simp: lint_env_for_def Let_def env_get_set_other split: option.splits if_splits)

lemma lint_env_cgo:
  assumes "pt_goos p \<noteq> []" "p \<noteq> tw_host w" "blank (tenv w ''GO_MK_CC'')"
  shows "env_get (lint_env_for p w) ''CGO_ENABLED'' = ''0''"
proof -
  have "pt_goos p \<noteq> pt_goos (tw_host w) \<or> pt_goarch p \<noteq> pt_goarch (tw_host w)" using assms(2) by auto
  then show ?thesis using assms(1,3)
    by (auto simp: lint_env_for_def Let_def env_get_set_other split: option.splits if_splits)
qed

lemma parse_platform_parts:
  assumes "parse_platform e = Some t"
  shows "pt_goos t \<noteq> []" "pt_goarch t \<noteq> []"
  using assms by (auto simp: parse_platform_def split: option.splits if_splits)

lemma platform_matrix_os: "t \<in> set (platform_matrix w) \<Longrightarrow> pt_goos t \<noteq> []"
  by (auto simp: platform_matrix_def map_filter_def dest: parse_platform_parts(1))

text \<open>A world for the witnesses: no file, no fault, and every command prints its last argument.\<close>

definition sample_tool :: tool_world where
  "sample_tool =
     \<lparr>tw_environ = [], tw_cwd = Some ''/w'', tw_files = (\<lambda>_. None), tw_dirs = (\<lambda>_. False),
      tw_fault = (\<lambda>_ _. False), tw_run = (\<lambda>_ argv. Exited 0 (last argv) []), tw_http = (\<lambda>_ _. NoAnswer),
      tw_compile = (\<lambda>_. None), tw_host = \<lparr>pt_goos = ''linux'', pt_goarch = ''amd64''\<rparr>, tw_cpus = 4, tw_load = 0,
      tw_clock = 0, tw_ran = [], tw_fetched = [], tw_stdout = [], tw_collecting = False, tw_outcome = NoOutcome,
      tw_platform = no_platform, tw_prepared = False\<rparr>"

end
