(* ===== verification/TokenGate.thy ===== *)
theory TokenGate
  imports Tooling
begin

text \<open>
  The gates a person or the CI opens with a token: the stamp of \<open>go-mk gate\<close> (\<open>internal/gate\<close>, \<open>gate.go\<close>), the
  daily token and its cache (\<open>gatetoken.go\<close>), and the build gate that a signed GitHub Actions token opens
  (\<open>ci_proof.go\<close>, \<open>build_gate.go\<close>). JSON, base64, URL parsing and RSA signatures are parameters.
\<close>

section \<open>The stamp gate\<close>

definition affirmative_values :: "string list" where
  "affirmative_values = [''1'', ''y'', ''yes'', ''Y'', ''YES'']"

definition confirm_accepted :: "string \<Rightarrow> bool" where
  "confirm_accepted v \<longleftrightarrow> v \<in> set affirmative_values"

definition tokens_match :: "string \<Rightarrow> string \<Rightarrow> bool" where
  "tokens_match expected_raw actual_raw \<longleftrightarrow>
     (let expected = slugify expected_raw; actual = slugify actual_raw
      in expected \<noteq> [] \<and> actual \<noteq> [] \<and> expected = actual)"

record token_gate_options =
  tg_stamp :: string
  tg_confirm :: string
  tg_token :: string
  tg_command :: string

definition no_token_options :: token_gate_options where
  "no_token_options = \<lparr>tg_stamp = [], tg_confirm = [], tg_token = [], tg_command = []\<rparr>"

datatype gate_usage = UnknownGateOption string | MissingGateValue string

definition set_gate_option :: "string \<Rightarrow> string \<Rightarrow> token_gate_options \<Rightarrow> token_gate_options option" where
  "set_gate_option name v o' =
     (if name = ''--stamp'' then Some (o'\<lparr>tg_stamp := v\<rparr>)
      else if name = ''--confirm-value'' then Some (o'\<lparr>tg_confirm := v\<rparr>)
      else if name = ''--token-value'' then Some (o'\<lparr>tg_token := v\<rparr>)
      else if name = ''--token-command'' then Some (o'\<lparr>tg_command := v\<rparr>)
      else None)"

fun parse_gate_args :: "token_gate_options \<Rightarrow> string list \<Rightarrow> (gate_usage, token_gate_options) result" where
  "parse_gate_args o' [] = Inr o'"
| "parse_gate_args o' [name] =
     (if set_gate_option name [] o' = None then Inl (UnknownGateOption name) else Inl (MissingGateValue name))"
| "parse_gate_args o' (name # v # rest) =
     (case set_gate_option name v o' of
        None \<Rightarrow> Inl (UnknownGateOption name) | Some o'' \<Rightarrow> parse_gate_args o'' rest)"

definition parse_gate_options :: "string list \<Rightarrow> (gate_usage, token_gate_options) result" where
  "parse_gate_options args = parse_gate_args no_token_options args"

definition remove_stamp :: "string \<Rightarrow> tool_world \<Rightarrow> bool \<times> tool_world" where
  "remove_stamp path w = t_set RemoveCall path None w"

definition token_argv :: "string \<Rightarrow> string list" where
  "token_argv command = [''sh'', ''-c'', command]"

definition run_token_command :: "string \<Rightarrow> tool_world \<Rightarrow> string option \<times> tool_world" where
  "run_token_command command w =
     (case t_output (token_argv command) w of (Inl _, w) \<Rightarrow> (None, w) | (Inr out, w) \<Rightarrow> (Some out, w))"

definition write_stamp :: "string \<Rightarrow> tool_world \<Rightarrow> bool \<times> tool_world" where
  "write_stamp path w =
     (let (made, w) = (if path_dir path \<noteq> [] then t_try MkdirCall w else (True, w)) in
      if \<not> made then (False, w) else t_set WriteCall path (Some []) w)"

definition run_gate_confirm :: "string list \<Rightarrow> tool_world \<Rightarrow> int \<times> tool_world" where
  "run_gate_confirm args w =
     (case parse_gate_options args of
        Inl _ \<Rightarrow> (2, w)
      | Inr o' \<Rightarrow>
          if tg_stamp o' = [] \<or> tg_command o' = []
          then (2, t_println ''go-mk gate: --stamp and --token-command are required'' w)
          else (case remove_stamp (tg_stamp o') w of
                  (False, w) \<Rightarrow> (1, w)
                | (True, w) \<Rightarrow>
                    if \<not> confirm_accepted (tg_confirm o') then (0, w)
                    else (case run_token_command (tg_command o') w of
                            (None, w) \<Rightarrow> (0, w)
                          | (Some expected, w) \<Rightarrow>
                              if \<not> tokens_match expected (tg_token o') then (0, w)
                              else (case write_stamp (tg_stamp o') w of
                                      (False, w) \<Rightarrow> (1, w) | (True, w) \<Rightarrow> (0, w)))))"

section \<open>The daily token\<close>

definition gate_token_url :: string where
  "gate_token_url = ''https://en.wikipedia.org/api/rest_v1/feed/featured/''"

definition t_fetch :: "string \<Rightarrow> tool_world \<Rightarrow> http_outcome \<times> tool_world" where
  "t_fetch url w = (tw_http w (length (tw_fetched w)) url, (t_tick w)\<lparr>tw_fetched := tw_fetched w @ [url]\<rparr>)"

text \<open>The body of an answer with status 200 that was read to its end.\<close>

definition whole_answer :: "http_outcome \<Rightarrow> string option" where
  "whole_answer r =
     (case r of
        Answered a \<Rightarrow> if ha_status a \<noteq> 200 \<or> ha_broken a then None else Some (ha_body a)
      | _ \<Rightarrow> None)"

text \<open>
  A day is written in two ways: in the URL of the feed and in the name of the cache file. \<open>title\<close> decodes
  the canonical title from the JSON of the feed, the empty string when it is absent.
\<close>

definition gate_token_raw :: "(string \<Rightarrow> string option) \<Rightarrow> string \<Rightarrow> tool_world \<Rightarrow> string option \<times> tool_world" where
  "gate_token_raw title day w =
     (let (r, w) = t_fetch (gate_token_url @ day) w in
      (case whole_answer r of
         None \<Rightarrow> None
       | Some body \<Rightarrow> (case title body of None \<Rightarrow> None | Some t \<Rightarrow> if t = [] then None else Some t), w))"

definition token_cache_path :: "string \<Rightarrow> string" where
  "token_cache_path day = path_join [make_dir, ''gate-token-'' @ day]"

definition cached_slug :: "file_read \<Rightarrow> string option" where
  "cached_slug r = (case r of Content s \<Rightarrow> if trim_space s = [] then None else Some (trim_space s) | _ \<Rightarrow> None)"

definition daily_token_slug ::
  "(string \<Rightarrow> string option) \<Rightarrow> string \<Rightarrow> string \<Rightarrow> tool_world \<Rightarrow> string option \<times> tool_world" where
  "daily_token_slug title url_day day w =
     (let (cached, w) = t_read (token_cache_path day) w in
      case cached_slug cached of
        Some slug \<Rightarrow> (Some slug, w)
      | None \<Rightarrow>
          (case gate_token_raw title url_day w of
             (None, w) \<Rightarrow> (None, w)
           | (Some raw, w) \<Rightarrow>
               (let slug = slugify raw in
                if slug = [] then (None, w)
                else (let (made, w) = t_try MkdirCall w in
                      (Some slug,
                       if made then snd (t_set WriteCall (token_cache_path day) (Some (slug @ newline)) w) else w)))))"

definition run_gate_token :: "(string \<Rightarrow> string option) \<Rightarrow> string \<Rightarrow> string \<Rightarrow> tool_world \<Rightarrow> int \<times> tool_world" where
  "run_gate_token title url_day day w =
     (case daily_token_slug title url_day day w of
        (None, w) \<Rightarrow> (1, w) | (Some slug, w) \<Rightarrow> (0, t_println slug w))"

definition gate_token_expected ::
  "(string \<Rightarrow> string option) \<Rightarrow> string \<Rightarrow> string \<Rightarrow> string \<Rightarrow> tool_world \<Rightarrow> string option \<times> tool_world" where
  "gate_token_expected title url_day day command w =
     (if command \<noteq> [] then run_token_command command w else daily_token_slug title url_day day w)"

section \<open>The CI proof\<close>

definition ci_audience :: string where "ci_audience = ''goodkind.io/go-makefile/ci-build''"
definition oidc_issuer :: string where "oidc_issuer = ''https://token.actions.githubusercontent.com''"
definition oidc_jwks_url :: string where
  "oidc_jwks_url = ''https://token.actions.githubusercontent.com/.well-known/jwks''"
definition clock_skew :: int where "clock_skew = 30000000000"

record ci_env =
  ce_actions :: string
  ce_run_id :: string
  ce_repository :: string
  ce_url :: string
  ce_token :: string

definition current_ci_env :: "tool_world \<Rightarrow> ci_env" where
  "current_ci_env w =
     \<lparr>ce_actions = tenv w ''GITHUB_ACTIONS'', ce_run_id = tenv w ''GITHUB_RUN_ID'',
      ce_repository = tenv w ''GITHUB_REPOSITORY'', ce_url = tenv w ''ACTIONS_ID_TOKEN_REQUEST_URL'',
      ce_token = tenv w ''ACTIONS_ID_TOKEN_REQUEST_TOKEN''\<rparr>"

definition in_ci_run :: "ci_env \<Rightarrow> bool" where
  "in_ci_run e \<longleftrightarrow> ce_actions e = ''true'' \<and> \<not> blank (ce_run_id e)"

definition ci_env_complete :: "ci_env \<Rightarrow> bool" where
  "ci_env_complete e \<longleftrightarrow>
     in_ci_run e \<and> \<not> blank (ce_repository e) \<and> \<not> blank (ce_url e) \<and> \<not> blank (ce_token e)"

record oidc_header =
  oh_alg :: string
  oh_kid :: string

datatype json_audience = AudString string | AudList "string list" | AudNull | AudMissing | AudOther

record oidc_claims =
  oc_issuer :: string
  oc_audience :: "string list"
  oc_repository :: string
  oc_run_id :: string
  oc_expires :: int
  oc_not_before :: int
  oc_issued :: int

record oidc_jwk =
  jk_type :: string
  jk_kid :: string
  jk_use :: string
  jk_alg :: string
  jk_modulus :: string
  jk_exponent :: string

text \<open>\<open>UnmarshalJSON\<close> of the audience: a string, or a list of strings; \<open>null\<close> reads as the empty
  string, and it is not called for a missing field.\<close>

definition audience_values :: "json_audience \<Rightarrow> string list option" where
  "audience_values a =
     (case a of AudString s \<Rightarrow> Some [s] | AudList ss \<Rightarrow> Some ss | AudNull \<Rightarrow> Some [[]]
   | AudMissing \<Rightarrow> Some [] | AudOther \<Rightarrow> None)"

text \<open>What the proof uses of the standard library; the claims decode apart from their audience.\<close>

record oidc_codec =
  ox_base64 :: "string \<Rightarrow> string option"
  ox_header :: "string \<Rightarrow> oidc_header option"
  ox_claims :: "string \<Rightarrow> (oidc_claims \<times> json_audience) option"
  ox_jwks :: "string \<Rightarrow> oidc_jwk list option"
  ox_token :: "string \<Rightarrow> string option"
  ox_request_url :: "string \<Rightarrow> string option"
  ox_verify :: "nat \<times> nat \<Rightarrow> string \<Rightarrow> string \<Rightarrow> bool"
  ox_now :: int

definition request_oidc_token :: "oidc_codec \<Rightarrow> ci_env \<Rightarrow> tool_world \<Rightarrow> string option \<times> tool_world" where
  "request_oidc_token x e w =
     (case ox_request_url x (ce_url e) of
        None \<Rightarrow> (None, w)
      | Some url \<Rightarrow>
          (let (r, w) = t_fetch url w in
           (case whole_answer r of
              None \<Rightarrow> None
            | Some body \<Rightarrow>
                (case ox_token x body of None \<Rightarrow> None | Some t \<Rightarrow> if blank t then None else Some t), w)))"

definition fetch_jwks :: "oidc_codec \<Rightarrow> tool_world \<Rightarrow> oidc_jwk list option \<times> tool_world" where
  "fetch_jwks x w =
     (let (r, w) = t_fetch oidc_jwks_url w in
      (case whole_answer r of
         None \<Rightarrow> None
       | Some body \<Rightarrow> (case ox_jwks x body of None \<Rightarrow> None | Some ks \<Rightarrow> if ks = [] then None else Some ks), w))"

definition decode_claims :: "oidc_codec \<Rightarrow> string \<Rightarrow> oidc_claims option" where
  "decode_claims x bytes =
     (case ox_claims x bytes of
        None \<Rightarrow> None
      | Some (c, aud) \<Rightarrow> map_option (\<lambda>vs. c\<lparr>oc_audience := vs\<rparr>) (audience_values aud))"

definition parse_oidc_token ::
  "oidc_codec \<Rightarrow> string \<Rightarrow> (oidc_header \<times> oidc_claims \<times> string \<times> string) option" where
  "parse_oidc_token x token =
     (case split_on CHR ''.'' token of
        [a, b, c] \<Rightarrow>
          (case (ox_base64 x a, ox_base64 x b, ox_base64 x c) of
             (Some hb, Some cb, Some sig) \<Rightarrow>
               (case (ox_header x hb, decode_claims x cb) of
                  (Some h, Some cl) \<Rightarrow> Some (h, cl, a @ ''.'' @ b, sig)
                | _ \<Rightarrow> None)
           | _ \<Rightarrow> None)
      | _ \<Rightarrow> None)"

definition usable_rsa_key :: "oidc_jwk \<Rightarrow> bool" where
  "usable_rsa_key k \<longleftrightarrow>
     jk_type k = ''RSA'' \<and> (jk_use k = [] \<or> jk_use k = ''sig'') \<and> (jk_alg k = [] \<or> jk_alg k = ''RS256'')"

definition big_endian :: "string \<Rightarrow> nat" where
  "big_endian s = foldl (\<lambda>n c. 256 * n + of_char c) 0 s"

definition public_key :: "oidc_codec \<Rightarrow> oidc_jwk \<Rightarrow> (nat \<times> nat) option" where
  "public_key x k =
     (case (ox_base64 x (jk_modulus k), ox_base64 x (jk_exponent k)) of
        (Some mb, Some eb) \<Rightarrow>
          (let m = big_endian mb; e = big_endian eb in
           if m = 0 then None else if e = 0 \<or> 2147483647 < int e then None else Some (m, e))
      | _ \<Rightarrow> None)"

fun rsa_key :: "oidc_codec \<Rightarrow> oidc_jwk list \<Rightarrow> string \<Rightarrow> (nat \<times> nat) option" where
  "rsa_key x [] kid = None"
| "rsa_key x (k # ks) kid =
     (if jk_kid k \<noteq> kid then rsa_key x ks kid
      else if \<not> usable_rsa_key k then None else public_key x k)"

text \<open>Times are nanoseconds since the epoch; \<open>Unix\<close> rounds down to seconds.\<close>

definition unix_seconds :: "int \<Rightarrow> int" where
  "unix_seconds t = t div 1000000000"

definition claims_match :: "oidc_codec \<Rightarrow> oidc_claims \<Rightarrow> ci_env \<Rightarrow> bool" where
  "claims_match x c e \<longleftrightarrow>
     oc_issuer c = oidc_issuer \<and> ci_audience \<in> set (oc_audience c) \<and> oc_repository c = ce_repository e \<and>
     oc_run_id c = ce_run_id e \<and> unix_seconds (ox_now x - clock_skew) < oc_expires c \<and>
     (oc_not_before c = 0 \<or> oc_not_before c \<le> unix_seconds (ox_now x + clock_skew)) \<and>
     (oc_issued c = 0 \<or> oc_issued c \<le> unix_seconds (ox_now x + clock_skew))"

definition verify_token :: "oidc_codec \<Rightarrow> string \<Rightarrow> oidc_jwk list \<Rightarrow> ci_env \<Rightarrow> bool" where
  "verify_token x token jwks e \<longleftrightarrow>
     (case parse_oidc_token x token of
        None \<Rightarrow> False
      | Some (h, c, signed, sig) \<Rightarrow>
          oh_alg h = ''RS256'' \<and> \<not> blank (oh_kid h) \<and>
          (case rsa_key x jwks (oh_kid h) of
             None \<Rightarrow> False | Some key \<Rightarrow> ox_verify x key signed sig \<and> claims_match x c e))"

definition ci_proof_valid :: "oidc_codec \<Rightarrow> ci_env \<Rightarrow> tool_world \<Rightarrow> bool \<times> tool_world" where
  "ci_proof_valid x e w =
     (if \<not> ci_env_complete e then (False, w)
      else (case request_oidc_token x e w of
              (None, w) \<Rightarrow> (False, w)
            | (Some token, w) \<Rightarrow>
                (case fetch_jwks x w of
                   (None, w) \<Rightarrow> (False, w)
                 | (Some jwks, w) \<Rightarrow> (verify_token x token jwks e, w))))"

definition proof_notice :: string where
  "proof_notice =
     ''build-gate: GitHub Actions OIDC proof verified; inline gates are covered by the CI gate job''"

definition run_build_gate ::
  "oidc_codec \<Rightarrow> (tool_world \<Rightarrow> int \<times> tool_world) \<Rightarrow> tool_world \<Rightarrow> int \<times> tool_world" where
  "run_build_gate x build_check w =
     (case ci_proof_valid x (current_ci_env w) w of
        (True, w) \<Rightarrow> (0, t_println proof_notice w)
      | (False, w) \<Rightarrow> build_check w)"

section \<open>The stamp\<close>

lemma apply_writes_other: "p \<notin> fst ` set ws \<Longrightarrow> apply_writes ws files p = files p"
  by (induction ws arbitrary: files) (auto simp: apply_writes_def)

lemma t_output_run:
  assumes "t_output argv w = (r, w')"
  shows "(\<forall>out. r = Inr out \<longleftrightarrow> (\<exists>ws. tw_run w (length (tw_ran w)) argv = Exited 0 out ws))"
    "tw_fault w' = tw_fault w"
    "\<And>p. (\<forall>status out ws. tw_run w (length (tw_ran w)) argv = Exited status out ws \<longrightarrow> p \<notin> fst ` set ws) \<Longrightarrow>
       tw_files w' p = tw_files w p"
  using assms
  by (auto simp: t_output_def t_exec_def Let_def t_tick_def apply_writes_other split: cmd_outcome.splits if_splits)

lemma run_token_command_run:
  assumes "run_token_command command w = (r, w')"
  shows "(\<forall>out. r = Some out \<longleftrightarrow> (\<exists>ws. tw_run w (length (tw_ran w)) (token_argv command) = Exited 0 out ws))"
    "\<And>p. (\<forall>status out ws. tw_run w (length (tw_ran w)) (token_argv command) = Exited status out ws \<longrightarrow>
        p \<notin> fst ` set ws) \<Longrightarrow> tw_files w' p = tw_files w p"
proof -
  obtain x w1 where x: "t_output (token_argv command) w = (x, w1)" by fastforce
  have w': "w' = w1" "r = (case x of Inl _ \<Rightarrow> None | Inr out \<Rightarrow> Some out)"
    using assms x by (auto simp: run_token_command_def split: sum.splits)
  show "\<forall>out. r = Some out \<longleftrightarrow> (\<exists>ws. tw_run w (length (tw_ran w)) (token_argv command) = Exited 0 out ws)"
    using t_output_run(1) [OF x] w'(2) by (cases x) auto
  show "tw_files w' p = tw_files w p"
    if "\<forall>status out ws. tw_run w (length (tw_ran w)) (token_argv command) = Exited status out ws \<longrightarrow>
        p \<notin> fst ` set ws" for p
    using t_output_run(3) [OF x that] w'(1) by simp
qed

lemma t_set_run:
  assumes "t_set c p v w = (b, w')"
  shows "b \<longleftrightarrow> \<not> t_fails c w" "tw_files w' = (if b then (tw_files w)(p := v) else tw_files w)"
    "tw_ran w' = tw_ran w" "tw_run w' = tw_run w" "tw_fault w' = tw_fault w"
  using assms by (auto simp: t_set_def t_tick_def split: if_splits)

lemma write_stamp_run:
  assumes "write_stamp p w = (b, w')"
  shows "tw_files w' = (if b then (tw_files w)(p := Some []) else tw_files w)"
  using assms
  by (auto simp: write_stamp_def t_try_def t_set_def t_tick_def t_fails_def Let_def split: if_splits)

text \<open>
  C23. The stamp gate fails closed. A run that ends with status 0 leaves a stamp exactly when the confirm
  value is affirmative, the token command ended with status 0, and what it printed has the slug of the
  given token, which is not empty. A run that fails leaves no stamp, except one it could not remove.
\<close>

theorem stamp_gate_fails_closed:
  assumes "parse_gate_options args = Inr o'" "tg_stamp o' \<noteq> []" "tg_command o' \<noteq> []"
    and "run_gate_confirm args w = (code, w')"
    and "\<And>n status out ws. tw_run w n (token_argv (tg_command o')) = Exited status out ws \<Longrightarrow>
      tg_stamp o' \<notin> fst ` set ws"
  shows "(code = 0 \<longrightarrow> (tw_files w' (tg_stamp o') \<noteq> None \<longleftrightarrow>
       confirm_accepted (tg_confirm o') \<and>
       (\<exists>out ws. tw_run w (length (tw_ran w)) (token_argv (tg_command o')) = Exited 0 out ws \<and>
          slugify out \<noteq> [] \<and> slugify out = slugify (tg_token o')))) \<and>
    (code \<noteq> 0 \<longrightarrow> tw_files w' (tg_stamp o') = None \<or> t_fails RemoveCall w \<and> w' = t_tick w)"
proof -
  let ?s = "tg_stamp o'" and ?argv = "token_argv (tg_command o')"
  obtain b1 w1 where s1: "remove_stamp ?s w = (b1, w1)" by fastforce
  note r1 = t_set_run [OF s1 [unfolded remove_stamp_def]]
  show ?thesis
  proof (cases "b1 \<and> confirm_accepted (tg_confirm o')")
    case False
    then show ?thesis using assms(1-4) s1 r1
      by (auto simp: run_gate_confirm_def remove_stamp_def t_set_def split: if_splits prod.splits bool.splits)
  next
    case True
    obtain t w2 where s2: "run_token_command (tg_command o') w1 = (t, w2)" by fastforce
    have ran: "tw_run w1 (length (tw_ran w1)) ?argv = tw_run w (length (tw_ran w)) ?argv" using r1(3,4) by simp
    have out: "\<forall>out. t = Some out \<longleftrightarrow> (\<exists>ws. tw_run w (length (tw_ran w)) ?argv = Exited 0 out ws)"
      using run_token_command_run(1) [OF s2] ran by simp
    have none: "tw_files w2 ?s = None"
      using run_token_command_run(2) [OF s2, of ?s] ran assms(5) r1(2) True by auto
    show ?thesis
    proof (cases "\<exists>e. t = Some e \<and> tokens_match e (tg_token o')")
      case False
      then have "code = 0" "w' = w2"
        using assms(1-4) s1 s2 True by (auto simp: run_gate_confirm_def split: option.splits)
      then show ?thesis using False out none by (auto simp: tokens_match_def Let_def)
    next
      case match: True
      then obtain e where e: "t = Some e" "tokens_match e (tg_token o')" by blast
      obtain b3 w3 where s3: "write_stamp ?s w2 = (b3, w3)" by fastforce
      have "code = (if b3 then 0 else 1)" "w' = w3"
        using assms(1-4) s1 s2 s3 True e by (auto simp: run_gate_confirm_def split: bool.splits)
      moreover obtain ws where "tw_run w (length (tw_ran w)) ?argv = Exited 0 e ws" using out e(1) by blast
      ultimately show ?thesis
        using write_stamp_run [OF s3] none e True by (auto simp: tokens_match_def Let_def)
    qed
  qed
qed

section \<open>The cache of the daily token\<close>

lemma wide_spaces_not_slug: "v \<in> set wide_spaces \<Longrightarrow> v \<noteq> [] \<and> \<not> slug_char (last v)"
  by (auto simp: wide_spaces_def slug_char_def is_lower_def is_digit_def)

lemma skip_space_right_slug:
  assumes "list_all slug_char s"
  shows "skip_space_right s = s"
proof (cases "s = []")
  case False
  then have l: "slug_char (last s)" using assms by (simp add: list_all_iff)
  have "find (\<lambda>v. suffix v s) wide_spaces = None"
  proof (rule ccontr)
    assume "find (\<lambda>v. suffix v s) wide_spaces \<noteq> None"
    then obtain v where "v \<in> set wide_spaces" "suffix v s" by (auto simp: find_Some_iff set_conv_nth)
    then show False using wide_spaces_not_slug [of v] l by (auto simp: suffix_def)
  qed
  moreover have "last s \<notin> set ascii_spaces" using slug_char_plain [OF l] by (simp add: plain_char_def)
  ultimately have "space_suffix_len s = 0" by (simp add: space_suffix_len_def)
  then show ?thesis by (simp add: skip_space_right.simps)
qed simp

lemma trim_space_slug:
  assumes "list_all slug_char s" "s \<noteq> []"
  shows "trim_space (s @ newline) = s"
proof -
  have "plain_char (hd s)" using assms slug_char_plain by (cases s) auto
  then have "skip_space (s @ newline) = s @ newline" using assms(2) by (cases s) auto
  moreover have "space_suffix_len (s @ newline) = 1" by (simp add: space_suffix_len_def ascii_spaces_def)
  then have "skip_space_right (s @ newline) = skip_space_right s" by (simp add: skip_space_right.simps [of "s @ newline"])
  ultimately show ?thesis using skip_space_right_slug [OF assms(1)] by (simp add: trim_space_def)
qed

lemma gate_token_raw_run:
  assumes "gate_token_raw title day w = (r, w')"
  shows "tw_fetched w' = tw_fetched w @ [gate_token_url @ day]" "tw_fault w' = tw_fault w"
    "\<forall>raw. r = Some raw \<longrightarrow> (\<exists>body. whole_answer (tw_http w (length (tw_fetched w)) (gate_token_url @ day)) = Some body \<and>
       title body = Some raw)"
  using assms by (auto simp: gate_token_raw_def t_fetch_def t_tick_def Let_def split: option.splits if_splits)

text \<open>
  The daily token is fetched once a day: when no file operation fails, a second resolution on the same
  day returns the same slug, without a request and without a change to a file. A slug that was fetched
  opens a gate for the tokens the title of the feed opens it for.
\<close>

theorem daily_token_cached:
  assumes "\<And>c n. \<not> tw_fault w c n" "daily_token_slug title url_day day w = (Some slug, w1)"
  shows "daily_token_slug title url_day' day w1 = (Some slug, t_tick w1) \<and>
    (tw_fetched w1 = tw_fetched w \<or>
     (\<exists>body raw. whole_answer (tw_http w (length (tw_fetched w)) (gate_token_url @ url_day)) = Some body \<and>
        title body = Some raw \<and> (\<forall>actual. tokens_match slug actual \<longleftrightarrow> tokens_match raw actual)))"
proof -
  let ?p = "token_cache_path day"
  obtain c where c: "t_read ?p w = (c, t_tick w)" by (simp add: t_read_def)
  show ?thesis
  proof (cases "cached_slug c")
    case (Some s)
    then have w1: "w1 = t_tick w" "slug = s" using assms(2) c by (simp_all add: daily_token_slug_def)
    have "t_read ?p w1 = (c, t_tick w1)"
      using c assms(1) w1 by (simp add: t_read_def t_fails_def t_tick_def)
    then show ?thesis using Some w1 by (simp add: daily_token_slug_def t_tick_def)
  next
    case None
    obtain t w2 where t: "gate_token_raw title url_day (t_tick w) = (t, w2)" by fastforce
    note run = gate_token_raw_run [OF t]
    obtain raw where raw: "t = Some raw" "slugify raw \<noteq> []" "slug = slugify raw"
      and w1: "w1 = snd (t_set WriteCall ?p (Some (slug @ newline)) (t_tick w2))"
      using assms c None t run(2)
      by (auto simp: daily_token_slug_def t_try_def t_fails_def t_tick_def Let_def split: option.splits if_splits)
    have files: "tw_files w1 ?p = Some (slug @ newline)" "tw_fault w1 = tw_fault w"
      using w1 run(2) assms(1) by (auto simp: t_set_def t_fails_def t_tick_def)
    have "list_all slug_char slug" using raw(3) slugify_chars by (auto simp: list_all_iff)
    then have "trim_space (slug @ newline) = slug" using trim_space_slug raw by simp
    then have "daily_token_slug title url_day' day w1 = (Some slug, t_tick w1)"
      using files assms(1) raw by (simp add: daily_token_slug_def t_read_def t_fails_def cached_slug_def)
    moreover have "\<forall>actual. tokens_match slug actual \<longleftrightarrow> tokens_match raw actual"
      using raw(3) by (simp add: tokens_match_def)
    ultimately show ?thesis using run(3) raw(1) by (auto simp: t_tick_def)
  qed
qed

section \<open>The build gate\<close>

lemma rsa_key_in_set:
  "rsa_key x ks kid = Some key \<Longrightarrow>
   \<exists>k \<in> set ks. jk_kid k = kid \<and> usable_rsa_key k \<and> public_key x k = Some key"
  by (induction ks) (auto split: if_splits)

definition same_tree :: "tool_world \<Rightarrow> tool_world \<Rightarrow> bool" where
  "same_tree w w' \<longleftrightarrow> tw_files w' = tw_files w \<and> tw_ran w' = tw_ran w \<and> tw_stdout w' = tw_stdout w \<and>
     tw_environ w' = tw_environ w"

lemma t_fetch_same: "t_fetch url w = (r, w') \<Longrightarrow> same_tree w w'"
  by (auto simp: t_fetch_def t_tick_def same_tree_def)

lemma ci_proof_valid_run:
  assumes "ci_proof_valid x e w = (b, w')"
  shows "same_tree w w'" "\<not> ci_env_complete e \<longrightarrow> \<not> b \<and> w' = w"
    "b \<longrightarrow> ci_env_complete e \<and> (\<exists>token jwks n body. verify_token x token jwks e \<and>
       whole_answer (tw_http w n oidc_jwks_url) = Some body \<and> ox_jwks x body = Some jwks)"
proof -
  obtain t w1 where t: "request_oidc_token x e w = (t, w1)" by fastforce
  have same1: "same_tree w w1" "tw_http w1 = tw_http w"
    using t by (auto simp: request_oidc_token_def t_fetch_def t_tick_def same_tree_def Let_def split: option.splits)
  obtain j w2 where j: "fetch_jwks x w1 = (j, w2)" by fastforce
  have same2: "same_tree w1 w2" using j by (auto simp: fetch_jwks_def t_fetch_def t_tick_def same_tree_def Let_def)
  have jw: "j = Some ks \<Longrightarrow> \<exists>n body. whole_answer (tw_http w n oidc_jwks_url) = Some body \<and> ox_jwks x body = Some ks" for ks
    using j same1(2)
    by (auto simp: fetch_jwks_def t_fetch_def t_tick_def Let_def split: option.splits if_splits)
  show "same_tree w w'" using assms t j same1 same2
    by (auto simp: ci_proof_valid_def same_tree_def split: if_splits option.splits)
  show "\<not> ci_env_complete e \<longrightarrow> \<not> b \<and> w' = w" using assms by (auto simp: ci_proof_valid_def)
  show "b \<longrightarrow> ci_env_complete e \<and> (\<exists>token jwks n body. verify_token x token jwks e \<and>
       whole_answer (tw_http w n oidc_jwks_url) = Some body \<and> ox_jwks x body = Some jwks)"
    using assms t j jw by (auto simp: ci_proof_valid_def split: if_splits option.splits)
qed

lemma verify_token_D:
  assumes "verify_token x token jwks e"
  obtains a b c k key sig cb cl where "token = a @ ''.'' @ b @ ''.'' @ c" "k \<in> set jwks" "public_key x k = Some key"
    "ox_verify x key (a @ ''.'' @ b) sig" "ox_base64 x b = Some cb" "decode_claims x cb = Some cl"
    "claims_match x cl e"
proof -
  obtain h cl signed sig key where p: "parse_oidc_token x token = Some (h, cl, signed, sig)"
    and v: "rsa_key x jwks (oh_kid h) = Some key" "ox_verify x key signed sig" "claims_match x cl e"
    using assms by (auto simp: verify_token_def split: option.splits)
  obtain a b c cb where parts: "split_on CHR ''.'' token = [a, b, c]" "ox_base64 x b = Some cb"
      "decode_claims x cb = Some cl" "signed = a @ ''.'' @ b"
    using p by (auto simp: parse_oidc_token_def split: list.splits option.splits)
  have "token = str_join ''.'' [a, b, c]" using join_split_on [of "CHR ''.''" token] parts(1) by simp
  then have "token = a @ ''.'' @ b @ ''.'' @ c" by simp
  moreover obtain k where "k \<in> set jwks" "public_key x k = Some key" using rsa_key_in_set [OF v(1)] by blast
  ultimately show ?thesis using that parts(2-4) v(2,3) by blast
qed

text \<open>
  C6. The build gate skips its checks only on a signed proof. Either the checks run, on the files and the
  environment of the caller, or nothing runs and there is a token of three parts whose first two are signed
  by a key of the JWKS document of GitHub's issuer, and whose claims name that issuer, the
  audience of this gate, the repository and the run of the environment, and a time that has not passed.
  Outside a complete GitHub Actions environment the checks run and no request is made.
\<close>

theorem build_gate_needs_proof:
  "(\<exists>w1. same_tree w w1 \<and> run_build_gate x build_check w = build_check w1 \<and>
      (\<not> ci_env_complete (current_ci_env w) \<longrightarrow> w1 = w)) \<or>
   (\<exists>w1 a b sig jwks k key cl n body. same_tree w w1 \<and> run_build_gate x build_check w = (0, t_println proof_notice w1) \<and>
      ci_env_complete (current_ci_env w) \<and>
      whole_answer (tw_http w n oidc_jwks_url) = Some body \<and> ox_jwks x body = Some jwks \<and> k \<in> set jwks \<and>
      public_key x k = Some key \<and> ox_verify x key (a @ ''.'' @ b) sig \<and>
      (\<exists>cb. ox_base64 x b = Some cb \<and> decode_claims x cb = Some cl) \<and> oc_issuer cl = oidc_issuer \<and>
      ci_audience \<in> set (oc_audience cl) \<and> oc_repository cl = tenv w ''GITHUB_REPOSITORY'' \<and>
      oc_run_id cl = tenv w ''GITHUB_RUN_ID'' \<and> unix_seconds (ox_now x - clock_skew) < oc_expires cl)"
proof -
  let ?e = "current_ci_env w"
  obtain b w1 where v: "ci_proof_valid x ?e w = (b, w1)" by fastforce
  note run = ci_proof_valid_run [OF v]
  show ?thesis
  proof (cases b)
    case False
    then show ?thesis using v run(1,2) by (intro disjI1 exI [of _ w1]) (simp add: run_build_gate_def)
  next
    case True
    then obtain token jwks n body where t: "verify_token x token jwks ?e" "ci_env_complete ?e"
      "whole_answer (tw_http w n oidc_jwks_url) = Some body" "ox_jwks x body = Some jwks"
      using run(3) by blast
    obtain a b' c k key sig cb cl where d: "k \<in> set jwks" "public_key x k = Some key"
      "ox_verify x key (a @ ''.'' @ b') sig" "ox_base64 x b' = Some cb" "decode_claims x cb = Some cl"
      "claims_match x cl ?e"
      by (rule verify_token_D [OF t(1)])
    have "run_build_gate x build_check w = (0, t_println proof_notice w1)"
      using v True by (simp add: run_build_gate_def)
    moreover have "oc_issuer cl = oidc_issuer" "ci_audience \<in> set (oc_audience cl)"
      "oc_repository cl = tenv w ''GITHUB_REPOSITORY''" "oc_run_id cl = tenv w ''GITHUB_RUN_ID''"
      "unix_seconds (ox_now x - clock_skew) < oc_expires cl"
      using d(6) by (simp_all add: claims_match_def current_ci_env_def)
    ultimately show ?thesis using run(1) t(2-4) d(1-5) by blast
  qed
qed

section \<open>Witnesses\<close>

definition sample_gate_args :: "string list" where
  "sample_gate_args =
     [''--stamp'', ''s'', ''--confirm-value'', ''yes'', ''--token-value'', ''a-B'', ''--token-command'', ''A-b!'']"

theorem stamp_gate_fails_closed_witness:
  "\<exists>w'. run_gate_confirm sample_gate_args sample_tool = (0, w') \<and> tw_files w' ''s'' \<noteq> None"
proof -
  let ?o = "\<lparr>tg_stamp = ''s'', tg_confirm = ''yes'', tg_token = ''a-B'', tg_command = ''A-b!''\<rparr>"
  have o: "parse_gate_options sample_gate_args = Inr ?o"
    by (simp add: parse_gate_options_def sample_gate_args_def set_gate_option_def no_token_options_def)
  obtain code w' where run: "run_gate_confirm sample_gate_args sample_tool = (code, w')" by fastforce
  have "fst (run_gate_confirm sample_gate_args sample_tool) = 0" by code_simp
  then have code: "code = 0" using run by simp
  have ran: "tw_run sample_tool n (token_argv ''A-b!'') = Exited 0 ''A-b!'' []" for n
    by (simp add: sample_tool_def token_argv_def)
  have "slugify ''A-b!'' = slugify ''a-B''" "slugify ''A-b!'' \<noteq> []" "confirm_accepted ''yes''" by code_simp+
  then show ?thesis
    using stamp_gate_fails_closed [OF o _ _ run] run code ran by auto
qed

definition feed_world :: tool_world where
  "feed_world = sample_tool\<lparr>tw_http := (\<lambda>_ _. Answered \<lparr>ha_status = 200, ha_length = 7, ha_body = ''Solaris'',
     ha_broken = False, ha_location = None\<rparr>)\<rparr>"

theorem daily_token_cached_witness:
  "\<exists>w1. daily_token_slug Some ''2026/01/02'' ''2026-01-02'' feed_world = (Some ''solaris'', w1) \<and>
     daily_token_slug Some ''2026/01/03'' ''2026-01-02'' w1 = (Some ''solaris'', t_tick w1)"
proof -
  obtain s w1 where run: "daily_token_slug Some ''2026/01/02'' ''2026-01-02'' feed_world = (s, w1)" by fastforce
  have "fst (daily_token_slug Some ''2026/01/02'' ''2026-01-02'' feed_world) = Some ''solaris''" by code_simp
  then have s: "s = Some ''solaris''" using run by simp
  have "\<not> tw_fault feed_world c n" for c n by (simp add: feed_world_def sample_tool_def)
  then show ?thesis using daily_token_cached [OF _ run [unfolded s]] run s by auto
qed

definition sample_codec :: oidc_codec where
  "sample_codec = \<lparr>ox_base64 = Some, ox_header = (\<lambda>_. None), ox_claims = (\<lambda>_. None), ox_jwks = (\<lambda>_. None),
     ox_token = Some, ox_request_url = Some, ox_verify = (\<lambda>_ _ _. False), ox_now = 0\<rparr>"

theorem build_gate_needs_proof_witness:
  "run_build_gate sample_codec (\<lambda>w. (7, w)) sample_tool = (7, sample_tool)"
proof -
  have "\<not> ci_env_complete (current_ci_env sample_tool)" by code_simp
  then show ?thesis
    using build_gate_needs_proof [of sample_tool sample_codec "\<lambda>w. (7, w)"] by auto
qed

end
