(* ===== verification/CiChanged.thy ===== *)
theory CiChanged
  imports Tooling
begin

text \<open>
  \<open>go-mk ci-changed\<close> (\<open>ci_changed.go\<close>): whether a push touched anything the build or the tests depend on, so
  that the CI can skip the gates. The model decides over the answers of git and of \<open>go list\<close>; the JSON of
  \<open>go list\<close> is a parameter.
\<close>

section \<open>The code\<close>

definition zero_sha :: string where "zero_sha = replicate 40 CHR ''0''"

record go_list_package =
  gp_dir :: string
  gp_standard :: bool
  gp_groups :: "string list list"

record ci_changed_config =
  cc_event :: string
  cc_base :: string
  cc_base_exact :: bool
  cc_head :: string
  cc_default_branch :: string
  cc_ref :: string
  cc_workspace :: string
  cc_generate :: string
  cc_generate_inputs :: string
  cc_output :: string
  cc_prefix :: string
  cc_root :: string

record ci_change_inputs =
  ci_paths :: "string list"
  ci_sources :: "string list"
  ci_submodules :: "string list"
  ci_workspaces :: "string list"
  ci_generates :: "string list"

definition build_config_basenames :: "string list" where
  "build_config_basenames =
     [''go.mod'', ''go.sum'', ''go.work'', ''go.work.sum'', ''Makefile'', ''bootstrap.mk'', ''golangci.yml'', ''.gitmodules'',
      ''.golangci-lint-baseline.txt'', ''.gocyclo-baseline.txt'', ''.deadcode-baseline.txt'',
      ''.staticcheck-extra-baseline.txt'']"

definition source_extensions :: "string list" where
  "source_extensions =
     [''.go'', ''.c'', ''.h'', ''.cc'', ''.cpp'', ''.cxx'', ''.hpp'', ''.hxx'', ''.m'', ''.f'', ''.for'', ''.f90'', ''.s'', ''.swig'',
      ''.swigcxx'', ''.syso'']"

definition split_non_empty_lines :: "string \<Rightarrow> string list" where
  "split_non_empty_lines text = filter (\<lambda>l. l \<noteq> []) (map trim_space (split_on (CHR 0x0A) text))"

text \<open>
  The extension is lowered byte by byte. The code lowers runes, which differs from it inside the table only
  for \<open>.swig\<close> and \<open>.swigcxx\<close> spelled with the dotted capital I of U+0130.
\<close>

definition has_source_extension :: "string \<Rightarrow> bool" where
  "has_source_extension path \<longleftrightarrow> map lower_char (path_ext path) \<in> set source_extensions"

definition is_build_config_path :: "string \<Rightarrow> bool" where
  "is_build_config_path path \<longleftrightarrow>
     path_base path \<in> set build_config_basenames \<or> suffix ''.mk'' path \<or> prefix ''.github/workflows/'' path"

fun under_any_dir :: "string \<Rightarrow> string list \<Rightarrow> bool" where
  "under_any_dir path [] = False"
| "under_any_dir path (d # ds) =
     (if d = [] then under_any_dir path ds
      else if path = d \<or> prefix (d @ ''/'') path then True else under_any_dir path ds)"

fun decide_changed_from :: "ci_change_inputs \<Rightarrow> string list \<Rightarrow> bool \<times> string" where
  "decide_changed_from i [] = (False, ''no Go-relevant changes'')"
| "decide_changed_from i (p # ps) =
     (if p \<in> set (ci_sources i) then (True, ''Go build input changed: '' @ p)
      else if has_source_extension p then (True, ''source file changed: '' @ p)
      else if is_build_config_path p then (True, ''build configuration changed: '' @ p)
      else if under_any_dir p (ci_submodules i) then (True, ''submodule changed: '' @ p)
      else if under_any_dir p (ci_workspaces i) then (True, ''workspace input changed: '' @ p)
      else if under_any_dir p (ci_generates i) then (True, ''declared codegen input changed: '' @ p)
      else decide_changed_from i ps)"

definition decide_changed :: "ci_change_inputs \<Rightarrow> bool \<times> string" where
  "decide_changed i = decide_changed_from i (ci_paths i)"

definition workspace_trigger_dirs :: "string \<Rightarrow> string \<Rightarrow> string list" where
  "workspace_trigger_dirs workspace_use pre =
     (let base = trim_suffix pre ''/'' in
      map (\<lambda>f. path_clean (if base \<noteq> [] then base @ ''/'' @ f else f))
        (filter (\<lambda>f. f \<noteq> ''.'' \<and> f \<noteq> []) (str_fields workspace_use)))"

definition display_default_branch :: "string \<Rightarrow> string" where
  "display_default_branch b = (if b = [] then ''default branch'' else b)"

definition generate_input_dirs :: "string \<Rightarrow> string list" where
  "generate_input_dirs inputs = map path_clean (filter (\<lambda>f. f \<noteq> ''.'' \<and> f \<noteq> []) (str_fields inputs))"

definition append_output :: "string \<Rightarrow> string \<Rightarrow> string \<Rightarrow> tool_world \<Rightarrow> bool \<times> tool_world" where
  "append_output path key v w = t_append path (key @ ''='' @ v @ newline) w"

definition emit_changed :: "string \<Rightarrow> bool \<Rightarrow> string \<Rightarrow> tool_world \<Rightarrow> int \<times> tool_world" where
  "emit_changed output_path changed reason w =
     (let v = (if changed then ''true'' else ''false''); w = t_println (''ci-changed: '' @ v @ '' ('' @ reason @ '')'') w
      in (0, if output_path = [] then w else snd (append_output output_path ''changed'' v w)))"

definition git_is_ancestor :: "string \<Rightarrow> string \<Rightarrow> tool_world \<Rightarrow> bool \<times> tool_world" where
  "git_is_ancestor base head w =
     (case t_output [''git'', ''merge-base'', ''--is-ancestor'', base, head] w of (r, w) \<Rightarrow> (\<not> isl r, w))"

definition git_diff_names :: "string \<Rightarrow> string \<Rightarrow> tool_world \<Rightarrow> string list option \<times> tool_world" where
  "git_diff_names base head w =
     (case logged_git_output [''diff'', ''--name-only'', ''--diff-filter=ACMRTD'', base, head] w of
        (Inl _, w) \<Rightarrow> (None, w) | (Inr out, w) \<Rightarrow> (Some (split_non_empty_lines out), w))"

definition git_merge_base :: "string \<Rightarrow> string \<Rightarrow> tool_world \<Rightarrow> string option \<times> tool_world" where
  "git_merge_base default_branch head w =
     (let branch = trim_space default_branch; ref = ''origin/'' @ branch in
      if branch = [] then (None, w)
      else (case logged_git_output [''merge-base'', ref, head] w of
              (r, w) \<Rightarrow>
                if \<not> isl r \<and> projr r \<noteq> [] then (Some (projr r), w)
                else (case logged_git_output [''fetch'', ''--no-tags'', ''origin'', branch] w of
                        (Inl _, w) \<Rightarrow> (None, w)
                      | (Inr _, w) \<Rightarrow>
                          (case logged_git_output [''merge-base'', ref, head] w of
                             (r, w) \<Rightarrow> (if isl r \<or> projr r = [] then None else Some (projr r), w)))))"

definition git_submodule_dirs :: "string \<Rightarrow> tool_world \<Rightarrow> string list option \<times> tool_world" where
  "git_submodule_dirs repo w =
     (let gitmodules = path_join [repo, ''.gitmodules''] in
      if t_fails StatCall w \<or> tw_files w gitmodules = None then (Some [], t_tick w)
      else (case logged_git_output [''config'', ''--file'', gitmodules, ''--get-regexp'', ''^submodule'' @ [CHR 0x5C] @ ''..*'' @ [CHR 0x5C] @ ''.path$'']
              (t_tick w) of
              (Inl e, w) \<Rightarrow> (if e = Some 1 then Some [] else None, w)
            | (Inr out, w) \<Rightarrow>
                (Some (map last (filter (\<lambda>fs. 2 \<le> length fs) (map str_fields (split_non_empty_lines out)))), w)))"

text \<open>
  \<open>filepath.Rel\<close> between absolute paths, which is what git and \<open>go list\<close> print: the common components go,
  one dot-dot for each component left of the base, then the components left of the target.
\<close>

definition abs_comps :: "string \<Rightarrow> string list" where
  "abs_comps p = filter (\<lambda>c. c \<noteq> []) (split_on slash (path_clean p))"

fun rel_comps :: "string list \<Rightarrow> string list \<Rightarrow> string list" where
  "rel_comps (b # bs) (t # ts) = (if b = t then rel_comps bs ts else map (\<lambda>_. ''..'') (b # bs) @ t # ts)"
| "rel_comps bs ts = map (\<lambda>_. ''..'') bs @ ts"

definition path_rel :: "string \<Rightarrow> string \<Rightarrow> string option" where
  "path_rel base target =
     (if is_abs base \<noteq> is_abs target then None
      else (let cs = rel_comps (abs_comps base) (abs_comps target)
            in Some (if cs = [] then ''.'' else str_join [slash] cs)))"

definition repo_relative :: "string \<Rightarrow> string \<Rightarrow> string option" where
  "repo_relative repo full =
     (case path_rel repo full of
        None \<Rightarrow> None
      | Some rel \<Rightarrow> if rel = ''..'' \<or> prefix ''../'' rel then None else Some rel)"

definition package_source_files :: "string \<Rightarrow> go_list_package \<Rightarrow> string list" where
  "package_source_files repo p =
     List.map_filter (\<lambda>name. repo_relative repo (path_join [gp_dir p, name])) (concat (gp_groups p))"

definition go_list_source_files ::
  "(string \<Rightarrow> go_list_package list option) \<Rightarrow> string \<Rightarrow> tool_world \<Rightarrow> string list option \<times> tool_world" where
  "go_list_source_files decode repo w =
     (case t_output [''go'', ''list'', ''-e'', ''-deps'', ''-json'', ''./...''] w of
        (Inl _, w) \<Rightarrow> (None, w)
      | (Inr out, w) \<Rightarrow>
          (case decode out of
             None \<Rightarrow> None
           | Some ps \<Rightarrow>
               Some (sorted_unique (concat (map (package_source_files repo)
                 (filter (\<lambda>p. \<not> gp_standard p \<and> gp_dir p \<noteq> []) ps)))), w))"

text \<open>The commit the diff starts from, or why there is none.\<close>

definition diff_base :: "ci_changed_config \<Rightarrow> tool_world \<Rightarrow> (string, string) result \<times> tool_world" where
  "diff_base c w =
     (if cc_ref c \<noteq> [] \<and> cc_ref c = cc_default_branch c
      then (if cc_base c = [] \<or> cc_base c = zero_sha
            then (Inl ''no base commit (new branch); running all gates'', w)
            else if cc_base_exact c then (Inr (cc_base c), w)
            else (case git_is_ancestor (cc_base c) (cc_head c) w of
                    (True, w) \<Rightarrow> (Inr (cc_base c), w)
                  | (False, w) \<Rightarrow>
                      (Inl (''base commit '' @ cc_base c @
                         '' is not an ancestor of head (force push or shallow clone); running all gates''), w)))
      else (case git_merge_base (cc_default_branch c) (cc_head c) w of
              (None, w) \<Rightarrow>
                (Inl (''cannot compute merge-base with '' @ display_default_branch (cc_default_branch c) @
                   ''; running all gates''), w)
            | (Some base, w) \<Rightarrow> (Inr base, w)))"

definition ci_decision ::
  "(string \<Rightarrow> go_list_package list option) \<Rightarrow> ci_changed_config \<Rightarrow> tool_world \<Rightarrow> (bool \<times> string) \<times> tool_world" where
  "ci_decision decode c w =
     (if cc_event c \<noteq> ''push'' then ((True, ''event '' @ cc_event c @ '' is not push; running all gates''), w)
      else (case diff_base c w of
        (Inl reason, w) \<Rightarrow> ((True, reason), w)
      | (Inr base, w) \<Rightarrow>
          (case git_diff_names base (cc_head c) w of
             (None, w) \<Rightarrow> ((True, ''git diff failed; running all gates''), w)
           | (Some paths, w) \<Rightarrow>
               if paths = [] then ((False, ''diff is empty; nothing to gate''), w)
               else if cc_generate c \<noteq> [] \<and> generate_input_dirs (cc_generate_inputs c) = []
               then ((True, ''codegen declares no inputs; running all gates''), w)
               else (case go_list_source_files decode (cc_root c) w of
                 (None, w) \<Rightarrow> ((True, ''go list failed; running all gates''), w)
               | (Some sources, w) \<Rightarrow>
                   (case git_submodule_dirs (cc_root c) w of
                      (None, w) \<Rightarrow> ((True, ''submodule discovery failed; running all gates''), w)
                    | (Some submodules, w) \<Rightarrow>
                        (decide_changed \<lparr>ci_paths = paths, ci_sources = sources, ci_submodules = submodules,
                           ci_workspaces = workspace_trigger_dirs (cc_workspace c) (cc_prefix c),
                           ci_generates = generate_input_dirs (cc_generate_inputs c)\<rparr>, w))))))"

definition run_ci_changed_with ::
  "(string \<Rightarrow> go_list_package list option) \<Rightarrow> ci_changed_config \<Rightarrow> tool_world \<Rightarrow> int \<times> tool_world" where
  "run_ci_changed_with decode c w =
     (let ((changed, reason), w) = ci_decision decode c w in emit_changed (cc_output c) changed reason w)"

definition ci_config :: "string \<Rightarrow> string \<Rightarrow> tool_world \<Rightarrow> ci_changed_config" where
  "ci_config repo pre w =
     (let get = (\<lambda>n. trim_space (tenv w n)); head = get ''GO_MK_DIFF_HEAD'' in
      \<lparr>cc_event = get ''GO_MK_EVENT_NAME'', cc_base = get ''GO_MK_DIFF_BASE'',
       cc_base_exact = (map lower_char (get ''GO_MK_DIFF_BASE_IS_EXACT'') = ''true''),
       cc_head = (if head = [] then ''HEAD'' else head), cc_default_branch = get ''GO_MK_DEFAULT_BRANCH'',
       cc_ref = get ''GO_MK_REF_NAME'', cc_workspace = tenv w ''GO_MK_WORKSPACE_USE'',
       cc_generate = get ''GO_MK_GENERATE'', cc_generate_inputs = tenv w ''GO_MK_GENERATE_INPUTS'',
       cc_output = get ''GITHUB_OUTPUT'', cc_prefix = pre, cc_root = repo\<rparr>)"

definition run_ci_changed :: "(string \<Rightarrow> go_list_package list option) \<Rightarrow> tool_world \<Rightarrow> int \<times> tool_world" where
  "run_ci_changed decode w =
     (case logged_git_output [''rev-parse'', ''--show-toplevel''] w of
        (Inl _, w) \<Rightarrow>
          emit_changed (trim_space (tenv w ''GITHUB_OUTPUT'')) True ''git rev-parse failed; running all gates'' w
      | (Inr repo, w) \<Rightarrow>
          (case logged_git_output [''rev-parse'', ''--show-prefix''] w of
             (r, w) \<Rightarrow> run_ci_changed_with decode (ci_config repo (case r of Inl _ \<Rightarrow> [] | Inr p \<Rightarrow> p) w) w))"

section \<open>What makes a push skip the gates\<close>

text \<open>A path the build or the tests depend on.\<close>

definition under_dir :: "string \<Rightarrow> string \<Rightarrow> bool" where
  "under_dir path d \<longleftrightarrow> d \<noteq> [] \<and> (path = d \<or> prefix (d @ ''/'') path)"

definition relevant :: "ci_change_inputs \<Rightarrow> string \<Rightarrow> bool" where
  "relevant i p \<longleftrightarrow>
     p \<in> set (ci_sources i) \<or> has_source_extension p \<or> is_build_config_path p \<or>
     (\<exists>d \<in> set (ci_submodules i) \<union> set (ci_workspaces i) \<union> set (ci_generates i). under_dir p d)"

lemma under_any_dir_iff: "under_any_dir p ds \<longleftrightarrow> (\<exists>d \<in> set ds. under_dir p d)"
  by (induction ds) (auto simp: under_dir_def)

lemma decide_changed_iff: "fst (decide_changed i) \<longleftrightarrow> (\<exists>p \<in> set (ci_paths i). relevant i p)"
proof -
  have "fst (decide_changed_from i ps) \<longleftrightarrow> (\<exists>p \<in> set ps. relevant i p)" for ps
    by (induction ps) (auto simp: relevant_def under_any_dir_iff)
  then show ?thesis by (simp add: decide_changed_def)
qed

text \<open>A push that may skip the gates, over the answers of git and \<open>go list\<close>.\<close>

definition may_skip :: "(string \<Rightarrow> go_list_package list option) \<Rightarrow> ci_changed_config \<Rightarrow> tool_world \<Rightarrow> bool" where
  "may_skip decode c w \<longleftrightarrow>
     cc_event c = ''push'' \<and>
     (\<exists>base w1 paths w2. diff_base c w = (Inr base, w1) \<and> git_diff_names base (cc_head c) w1 = (Some paths, w2) \<and>
        (paths = [] \<or>
         ((cc_generate c = [] \<or> generate_input_dirs (cc_generate_inputs c) \<noteq> []) \<and>
          (\<exists>sources w3 submodules w4. go_list_source_files decode (cc_root c) w2 = (Some sources, w3) \<and>
             git_submodule_dirs (cc_root c) w3 = (Some submodules, w4) \<and>
             (\<forall>p \<in> set paths. \<not> relevant \<lparr>ci_paths = paths, ci_sources = sources, ci_submodules = submodules,
                ci_workspaces = workspace_trigger_dirs (cc_workspace c) (cc_prefix c),
                ci_generates = generate_input_dirs (cc_generate_inputs c)\<rparr> p)))))"

lemma decision_iff: "\<not> fst (fst (ci_decision decode c w)) \<longleftrightarrow> may_skip decode c w"
proof -
  obtain b w1 where b: "diff_base c w = (b, w1)" by fastforce
  show ?thesis
  proof (cases "cc_event c = ''push'' \<and> \<not> isl b")
    case False
    then have "fst (fst (ci_decision decode c w))" using b by (cases b) (auto simp: ci_decision_def)
    then show ?thesis using b False by (cases b) (auto simp: may_skip_def)
  next
    case True
    then obtain base where base: "b = Inr base" by (cases b) auto
    obtain d w2 where d: "git_diff_names base (cc_head c) w1 = (d, w2)" by fastforce
    obtain s w3 where s: "go_list_source_files decode (cc_root c) w2 = (s, w3)" by fastforce
    obtain m w4 where m: "git_submodule_dirs (cc_root c) w3 = (m, w4)" by fastforce
    show ?thesis using True base b d s m
      by (cases d; cases s; cases m) (auto simp: may_skip_def ci_decision_def decide_changed_iff)
  qed
qed

text \<open>
  What the commands of a run said: the one at \<open>n\<close> of its record exited with 0 and printed \<open>out\<close>. A step that only
  runs commands keeps the oracle, the environment and what was printed, and adds to the record.
\<close>

definition answered :: "tool_world \<Rightarrow> tool_world \<Rightarrow> nat \<Rightarrow> string list \<Rightarrow> string \<Rightarrow> bool" where
  "answered w w' n argv out \<longleftrightarrow>
     length (tw_ran w) \<le> n \<and> n < length (tw_ran w') \<and> snd (tw_ran w' ! n) = argv \<and>
     (\<exists>ws. tw_run w n argv = Exited 0 out ws)"

definition asks :: "tool_world \<Rightarrow> tool_world \<Rightarrow> bool" where
  "asks w w' \<longleftrightarrow> tw_run w' = tw_run w \<and> tw_stdout w' = tw_stdout w \<and> prefix (tw_ran w) (tw_ran w')"

lemma asks_refl [simp]: "asks w w" "asks w (t_tick w)"
  by (simp_all add: asks_def t_tick_def)

lemma asks_trans: "asks u v \<Longrightarrow> asks v w \<Longrightarrow> asks u w"
  by (auto simp: asks_def)

lemma answered_within:
  assumes "asks u v" "answered v w n argv out" "asks w x"
  shows "answered u x n argv out" "length (tw_ran v) \<le> n" "n < length (tw_ran w)"
  using assms by (auto simp: answered_def asks_def nth_append elim!: prefixE)

lemma asks_output: "asks w (snd (t_output argv w))"
  by (auto simp: t_output_def t_exec_def t_tick_def asks_def Let_def split: cmd_outcome.splits)

lemma asks_git: "asks w (snd (logged_git_output argv w))"
  using asks_output [of w "''git'' # argv"] by (auto simp: logged_git_output_def split: prod.splits sum.splits)

lemma asks_run:
  "t_output argv w = (r, w') \<Longrightarrow> asks w w'" "logged_git_output argv w = (q, w') \<Longrightarrow> asks w w'"
  using asks_output [of w argv] asks_git [of w argv] by simp_all

lemma t_output_answered: "t_output argv w = (Inr out, w') \<Longrightarrow> answered w w' (length (tw_ran w)) argv out"
  by (auto simp: t_output_def t_exec_def t_tick_def answered_def Let_def split: cmd_outcome.splits if_splits)

lemma logged_answered:
  "logged_git_output argv w = (Inr res, w') \<Longrightarrow>
     \<exists>out. res = trim_space out \<and> answered w w' (length (tw_ran w)) (''git'' # argv) out"
  using t_output_answered by (fastforce simp: logged_git_output_def split: prod.splits sum.splits)

text \<open>Why the commit of the comparison can be trusted: the run was told so, or git said so before the diff.\<close>

definition trusted_base :: "ci_changed_config \<Rightarrow> tool_world \<Rightarrow> tool_world \<Rightarrow> nat \<Rightarrow> string \<Rightarrow> bool" where
  "trusted_base c w w' n base \<longleftrightarrow> base \<noteq> [] \<and>
     (if cc_ref c \<noteq> [] \<and> cc_ref c = cc_default_branch c
      then base = cc_base c \<and> base \<noteq> zero_sha \<and>
        (cc_base_exact c \<or>
         (\<exists>k < n. \<exists>out. answered w w' k [''git'', ''merge-base'', ''--is-ancestor'', base, cc_head c] out))
      else \<exists>k < n. \<exists>out. base = trim_space out \<and>
        answered w w' k [''git'', ''merge-base'', ''origin/'' @ trim_space (cc_default_branch c), cc_head c] out)"

lemma git_merge_base_answered:
  assumes "git_merge_base branch head w = (Some base, w')"
  shows "base \<noteq> []"
    "\<exists>k out. base = trim_space out \<and> answered w w' k [''git'', ''merge-base'', ''origin/'' @ trim_space branch, head] out"
proof -
  let ?argv = "[''merge-base'', ''origin/'' @ trim_space branch, head]"
  obtain r1 v1 where 1: "logged_git_output ?argv w = (r1, v1)" by force
  obtain r2 v2 where 2: "logged_git_output [''fetch'', ''--no-tags'', ''origin'', trim_space branch] v1 = (r2, v2)" by force
  obtain r3 v3 where 3: "logged_git_output ?argv v2 = (r3, v3)" by force
  have q: "asks w v1" "asks v1 v2"
    using asks_git [of w ?argv] asks_git [of v1 "[''fetch'', ''--no-tags'', ''origin'', trim_space branch]"] 1 2 by simp_all
  have found: "base \<noteq> [] \<and> (r1 = Inr base \<and> w' = v1 \<or> r3 = Inr base \<and> w' = v3)"
    using assms 1 2 3 by (cases r1; cases r2; cases r3) (auto simp: git_merge_base_def Let_def split: if_splits)
  then show "base \<noteq> []" by simp
  from found consider "r1 = Inr base" "w' = v1" | "r3 = Inr base" "w' = v3" by blast
  then show "\<exists>k out. base = trim_space out \<and> answered w w' k [''git'', ''merge-base'', ''origin/'' @ trim_space branch, head] out"
  proof cases
    case 1
    then show ?thesis using logged_answered [of ?argv w base v1] \<open>logged_git_output ?argv w = (r1, v1)\<close> by auto
  next
    case 2
    then obtain out where "base = trim_space out" "answered v2 v3 (length (tw_ran v2)) (''git'' # ?argv) out"
      using logged_answered [of ?argv v2 base v3] 3 by auto
    moreover from this(2) have "answered w v3 (length (tw_ran v2)) (''git'' # ?argv) out"
      by (rule answered_within(1) [OF asks_trans [OF q] _ asks_refl(1)])
    ultimately show ?thesis using 2 by blast
  qed
qed

lemma asks_merge_base:
  assumes "git_merge_base branch head w = (r, w')" shows "asks w w'"
proof (cases "trim_space branch = []")
  case True
  then show ?thesis using assms by (simp add: git_merge_base_def)
next
  case False
  let ?argv = "[''merge-base'', ''origin/'' @ trim_space branch, head]"
  obtain r1 v1 where 1: "logged_git_output ?argv w = (r1, v1)" by force
  obtain r2 v2 where 2: "logged_git_output [''fetch'', ''--no-tags'', ''origin'', trim_space branch] v1 = (r2, v2)" by force
  obtain r3 v3 where 3: "logged_git_output ?argv v2 = (r3, v3)" by force
  note q = asks_run(2) [OF 1] asks_run(2) [OF 2] asks_run(2) [OF 3]
  show ?thesis
  proof (cases "\<not> isl r1 \<and> projr r1 \<noteq> []")
    case True
    then have "w' = v1" using assms 1 False by (simp add: git_merge_base_def Let_def)
    then show ?thesis using q(1) by simp
  next
    case again: False
    show ?thesis
    proof (cases r2)
      case (Inl e)
      then have "w' = v2" using assms 1 2 False again by (simp add: git_merge_base_def Let_def split: if_splits)
      then show ?thesis using q asks_trans by blast
    next
      case (Inr a)
      then have "w' = v3" using assms 1 2 3 False again by (simp add: git_merge_base_def Let_def split: if_splits)
      then show ?thesis using q asks_trans by blast
    qed
  qed
qed

lemma asks_ancestor: "git_is_ancestor base head w = (b, w') \<Longrightarrow> asks w w'"
  using asks_output [of w "[''git'', ''merge-base'', ''--is-ancestor'', base, head]"]
  by (auto simp: git_is_ancestor_def split: prod.splits)

lemma asks_diff_base:
  assumes "diff_base c w = (r, w')" shows "asks w w'"
proof -
  obtain m v where m: "git_merge_base (cc_default_branch c) (cc_head c) w = (m, v)" by force
  obtain b u where b: "git_is_ancestor (cc_base c) (cc_head c) w = (b, u)" by force
  have "w' \<in> {w, v, u}"
    using assms m b by (cases m; cases b) (auto simp: diff_base_def split: if_splits)
  then show ?thesis using asks_ancestor [OF b] asks_merge_base [OF m] by auto
qed

lemma diff_base_trusted:
  assumes "diff_base c w = (Inr base, w')"
  shows "trusted_base c w w' (length (tw_ran w')) base"
proof (cases "cc_ref c \<noteq> [] \<and> cc_ref c = cc_default_branch c")
  case True
  let ?argv = "[''git'', ''merge-base'', ''--is-ancestor'', base, cc_head c]"
  have base: "base = cc_base c" "base \<noteq> []" "base \<noteq> zero_sha"
    using assms True by (auto simp: diff_base_def split: if_splits prod.splits bool.splits)
  have "\<exists>k < length (tw_ran w'). \<exists>out. answered w w' k ?argv out" if "\<not> cc_base_exact c"
  proof -
    obtain a v where av: "git_is_ancestor base (cc_head c) w = (a, v)" by force
    have "a \<and> v = w'"
      using assms True that base av by (cases a) (auto simp: diff_base_def)
    then have "git_is_ancestor base (cc_head c) w = (True, w')" using av by simp
    then obtain out where "t_output ?argv w = (Inr out, w')"
      by (cases "fst (t_output ?argv w)") (auto simp: git_is_ancestor_def split: prod.splits)
    from t_output_answered [OF this] show ?thesis by (auto simp: answered_def)
  qed
  then show ?thesis using True base by (auto simp: trusted_base_def)
next
  case False
  then have m: "git_merge_base (cc_default_branch c) (cc_head c) w = (Some base, w')"
    using assms by (auto simp: diff_base_def split: prod.splits option.splits)
  obtain k out where k: "base = trim_space out"
    "answered w w' k [''git'', ''merge-base'', ''origin/'' @ trim_space (cc_default_branch c), cc_head c] out"
    using git_merge_base_answered(2) [OF m] by blast
  then have "k < length (tw_ran w')" by (simp add: answered_def)
  then show ?thesis using k git_merge_base_answered(1) [OF m] False unfolding trusted_base_def by auto
qed

lemma git_diff_answered:
  assumes "git_diff_names base head w = (Some paths, w')"
  shows "\<exists>out. paths = split_non_empty_lines (trim_space out) \<and>
    answered w w' (length (tw_ran w)) [''git'', ''diff'', ''--name-only'', ''--diff-filter=ACMRTD'', base, head] out"
proof -
  obtain res where "logged_git_output [''diff'', ''--name-only'', ''--diff-filter=ACMRTD'', base, head] w = (Inr res, w')"
    "paths = split_non_empty_lines res"
    using assms by (auto simp: git_diff_names_def split: prod.splits sum.splits)
  then show ?thesis using logged_answered by fastforce
qed

lemma go_list_answered:
  assumes "go_list_source_files decode repo w = (Some sources, w')"
  shows "\<exists>out ps. decode out = Some ps \<and>
    set sources = set (concat (map (package_source_files repo) (filter (\<lambda>p. \<not> gp_standard p \<and> gp_dir p \<noteq> []) ps))) \<and>
    answered w w' (length (tw_ran w)) [''go'', ''list'', ''-e'', ''-deps'', ''-json'', ''./...''] out"
proof -
  let ?argv = "[''go'', ''list'', ''-e'', ''-deps'', ''-json'', ''./...'']"
  obtain q v where q: "t_output ?argv w = (q, v)" by force
  show ?thesis
  proof (cases q)
    case (Inr out)
    then obtain ps where ps: "decode out = Some ps" "w' = v"
      using assms q by (auto simp: go_list_source_files_def split: option.splits)
    then have "set sources = set (concat (map (package_source_files repo) (filter (\<lambda>p. \<not> gp_standard p \<and> gp_dir p \<noteq> []) ps)))"
      using assms q Inr by (auto simp: go_list_source_files_def sorted_unique_def sort_dedup.listing_set)
    then show ?thesis using ps t_output_answered [of ?argv w out v] q Inr by blast
  qed (use assms q in \<open>simp add: go_list_source_files_def\<close>)
qed

text \<open>
  What the run itself recorded for a skip: a diff from a trusted commit that exited with 0, and either no path in
  it, or a later \<open>go list\<close> that exited with 0, and every path of the diff is none of its files, has no source
  extension and is no build configuration.
\<close>

definition skip_recorded :: "(string \<Rightarrow> go_list_package list option) \<Rightarrow> ci_changed_config \<Rightarrow> tool_world \<Rightarrow> tool_world \<Rightarrow> bool" where
  "skip_recorded decode c w w' \<longleftrightarrow>
     (\<exists>base n diff. trusted_base c w w' n base \<and>
        answered w w' n [''git'', ''diff'', ''--name-only'', ''--diff-filter=ACMRTD'', base, cc_head c] diff \<and>
        (split_non_empty_lines (trim_space diff) = [] \<or>
         (\<exists>m listed ps. n < m \<and> answered w w' m [''go'', ''list'', ''-e'', ''-deps'', ''-json'', ''./...''] listed \<and>
            decode listed = Some ps \<and>
            (\<forall>p \<in> set (split_non_empty_lines (trim_space diff)).
               \<not> has_source_extension p \<and> \<not> is_build_config_path p \<and>
               (\<forall>g \<in> set ps. gp_standard g \<or> gp_dir g = [] \<or> p \<notin> set (package_source_files (cc_root c) g))))))"

lemma trusted_later:
  assumes "trusted_base c w v n base" "asks v w'" shows "trusted_base c w w' n base"
  using assms answered_within(1) [OF asks_refl(1) _ assms(2)] unfolding trusted_base_def by (auto split: if_splits) blast+

lemma asks_submodules:
  assumes "git_submodule_dirs repo w = (r, w')" shows "asks w w'"
proof -
  obtain q v where q: "logged_git_output [''config'', ''--file'', path_join [repo, ''.gitmodules''], ''--get-regexp'',
      ''^submodule'' @ [CHR 0x5C] @ ''..*'' @ [CHR 0x5C] @ ''.path$''] (t_tick w) = (q, v)" by force
  have "w' = t_tick w \<or> w' = v"
    using assms q by (cases q) (simp_all add: git_submodule_dirs_def Let_def split: if_splits)
  then show ?thesis using asks_trans [OF asks_refl(2) asks_run(2) [OF q]] by auto
qed

lemma asks_list: "go_list_source_files decode repo w = (r, w') \<Longrightarrow> asks w w'"
  by (auto simp: go_list_source_files_def split: prod.splits sum.splits dest!: asks_run)

lemma asks_diff: "git_diff_names base head w = (r, w') \<Longrightarrow> asks w w'"
  by (auto simp: git_diff_names_def split: prod.splits sum.splits dest!: asks_run)

lemma asks_decision: "ci_decision decode c w = (r, w') \<Longrightarrow> asks w w'"
  by (auto simp: ci_decision_def split: if_splits prod.splits sum.splits option.splits
      dest!: asks_diff_base asks_diff asks_list asks_submodules intro: asks_trans)

lemma may_skip_recorded:
  assumes "may_skip decode c w" shows "skip_recorded decode c w (snd (ci_decision decode c w))"
proof -
  let ?w' = "snd (ci_decision decode c w)"
  obtain base w1 paths w2 where b: "diff_base c w = (Inr base, w1)" and d: "git_diff_names base (cc_head c) w1 = (Some paths, w2)"
    and push: "cc_event c = ''push''"
    using assms by (auto simp: may_skip_def)
  let ?n = "length (tw_ran w1)"
  obtain diff where diff: "paths = split_non_empty_lines (trim_space diff)"
    "answered w1 w2 ?n [''git'', ''diff'', ''--name-only'', ''--diff-filter=ACMRTD'', base, cc_head c] diff"
    using git_diff_answered [OF d] by blast
  have w2: "asks w2 ?w'"
    using push b d by (auto simp: ci_decision_def split: if_splits prod.splits option.splits
        dest!: asks_list asks_submodules intro: asks_trans)
  note w1 = asks_diff_base [OF b]
  have trusted: "trusted_base c w ?w' ?n base"
    by (rule trusted_later [OF diff_base_trusted [OF b] asks_trans [OF asks_diff [OF d] w2]])
  have ran: "answered w ?w' ?n [''git'', ''diff'', ''--name-only'', ''--diff-filter=ACMRTD'', base, cc_head c] diff"
    by (rule answered_within(1) [OF w1 diff(2) w2])
  show ?thesis
  proof (cases "paths = []")
    case True
    then show ?thesis using trusted ran diff(1) unfolding skip_recorded_def
      by - (rule exI [of _ base], rule exI [of _ ?n], rule exI [of _ diff], simp)
  next
    case False
    then obtain sources w3 submodules w4 where l: "go_list_source_files decode (cc_root c) w2 = (Some sources, w3)"
      and s: "git_submodule_dirs (cc_root c) w3 = (Some submodules, w4)"
      and gen: "cc_generate c = [] \<or> generate_input_dirs (cc_generate_inputs c) \<noteq> []"
      and free: "\<forall>p \<in> set paths. p \<notin> set sources \<and> \<not> has_source_extension p \<and> \<not> is_build_config_path p"
      using assms b d by (auto simp: may_skip_def relevant_def)
    have w3: "asks w3 ?w'"
      using push b d l s gen False asks_submodules [OF s] by (auto simp: ci_decision_def)
    obtain listed ps where listed: "decode listed = Some ps"
      "set sources = set (concat (map (package_source_files (cc_root c)) (filter (\<lambda>p. \<not> gp_standard p \<and> gp_dir p \<noteq> []) ps)))"
      "answered w2 w3 (length (tw_ran w2)) [''go'', ''list'', ''-e'', ''-deps'', ''-json'', ''./...''] listed"
      using go_list_answered [OF l] by blast
    have "answered w ?w' (length (tw_ran w2)) [''go'', ''list'', ''-e'', ''-deps'', ''-json'', ''./...''] listed"
      by (rule answered_within(1) [OF asks_trans [OF w1 asks_diff [OF d]] listed(3) w3])
    moreover have "?n < length (tw_ran w2)" using diff(2) by (simp add: answered_def)
    moreover have "\<forall>p \<in> set paths. \<not> has_source_extension p \<and> \<not> is_build_config_path p \<and>
        (\<forall>g \<in> set ps. gp_standard g \<or> gp_dir g = [] \<or> p \<notin> set (package_source_files (cc_root c) g))"
      using free listed(2) by auto
    ultimately show ?thesis using trusted ran listed(1) diff(1) unfolding skip_recorded_def
      by - (rule exI [of _ base], rule exI [of _ ?n], rule exI [of _ diff], intro conjI disjI2,
          assumption, assumption, rule exI [of _ "length (tw_ran w2)"], rule exI [of _ listed], rule exI [of _ ps], simp)
  qed
qed

text \<open>
  C11. The gates are skipped only when that is known to be safe, and the answer of the decision is what the run
  emits. It prints one line and, when there is an output file that can be appended to, adds one line to it; both
  say \<open>false\<close> exactly when the push may skip: the event is a push, there is a commit to compare with, git listed
  the changed paths, and either there is none, or the inputs of code generation are declared, \<open>go list\<close> and the
  submodules could be read, and no changed path is one the build depends on. For a \<open>false\<close> the run has the
  evidence in its commands: the diff that exited with 0, from a commit that the run was given as exact or that an
  earlier command of git confirmed, and the later \<open>go list\<close> that exited with 0. Every failure on the way says
  \<open>true\<close>, and the command itself always ends with status 0.
\<close>

theorem skip_only_irrelevant_push:
  assumes "run_ci_changed_with decode c w = (code, w')"
  defines "u \<equiv> snd (ci_decision decode c w)" and "answer \<equiv> if may_skip decode c w then ''false'' else ''true''"
  shows "code = 0 \<and>
    (\<exists>reason. tw_stdout w' = tw_stdout w @ ''ci-changed: '' @ answer @ '' ('' @ reason @ '')'' @ newline) \<and>
    tw_files w' =
      (if cc_output c = [] \<or> t_fails AppendCall u then tw_files u
       else (tw_files u)(cc_output c :=
         Some ((case tw_files u (cc_output c) of None \<Rightarrow> [] | Some s \<Rightarrow> s) @ ''changed='' @ answer @ newline))) \<and>
    (answer = ''false'' \<longrightarrow> skip_recorded decode c w w')"
proof -
  obtain changed reason v where d: "ci_decision decode c w = ((changed, reason), v)" by (metis prod.collapse)
  have u: "u = v" using d by (simp add: u_def)
  have changed: "changed \<longleftrightarrow> \<not> may_skip decode c w" using decision_iff [of decode c w] d by auto
  have printed: "tw_stdout u = tw_stdout w" using asks_decision [OF d] u by (simp add: asks_def)
  have run: "emit_changed (cc_output c) changed reason u = (code, w')"
    using assms(1) d u by (simp add: run_ci_changed_with_def)
  have frame: "tw_ran w' = tw_ran u"
    using run by (auto simp: emit_changed_def append_output_def t_append_def t_set_def t_println_def t_print_def t_tick_def
        Let_def split: if_splits)
  have "skip_recorded decode c w w'" if skip: "answer = ''false''"
  proof -
    have "skip_recorded decode c w u" using may_skip_recorded skip by (auto simp: answer_def u_def split: if_splits)
    moreover have same: "answered w w' = answered w u" by (simp add: answered_def fun_eq_iff frame)
    ultimately show ?thesis by (simp only: skip_recorded_def trusted_base_def same)
  qed
  moreover have "answer = (if changed then ''true'' else ''false'')" using changed by (simp add: answer_def)
  ultimately show ?thesis
    using run printed
    by (auto simp: emit_changed_def append_output_def t_append_def t_set_def t_println_def t_print_def t_tick_def t_fails_def
        Let_def)
qed

text \<open>
  git quotes a path with bytes outside ASCII unless it is told otherwise, and the quoted name of a Go file
  matches nothing.
\<close>

lemma quoted_go_file_is_irrelevant:
  "\<not> fst (decide_changed \<lparr>ci_paths = [[CHR 0x22] @ ''caf'' @ [CHR 0x5C] @ ''303'' @ [CHR 0x5C] @ ''251.go'' @ [CHR 0x22]],
     ci_sources = [''caf'' @ [CHR 0xC3, CHR 0xA9] @ ''.go''], ci_submodules = [], ci_workspaces = [], ci_generates = []\<rparr>)"
  by code_simp

definition docs_push :: tool_world where
  "docs_push = sample_tool\<lparr>tw_run := (\<lambda>n _. Exited 0 (if n = 0 then ''README.md'' else []) [])\<rparr>"

definition docs_config :: ci_changed_config where
  "docs_config = (ci_config ''/w'' [] sample_tool)\<lparr>cc_event := ''push'', cc_base := ''abc'', cc_base_exact := True,
     cc_default_branch := ''main'', cc_ref := ''main''\<rparr>"

theorem skip_only_irrelevant_push_witness:
  "\<exists>w' n diff. fst (run_ci_changed_with (\<lambda>_. Some []) docs_config docs_push) = 0 \<and>
     answered docs_push w' n [''git'', ''diff'', ''--name-only'', ''--diff-filter=ACMRTD'', ''abc'', cc_head docs_config] diff"
proof -
  obtain code w' where run: "run_ci_changed_with (\<lambda>_. Some []) docs_config docs_push = (code, w')" by force
  have "\<not> fst (fst (ci_decision (\<lambda>_. Some []) docs_config docs_push))" by code_simp
  then have skip: "may_skip (\<lambda>_. Some []) docs_config docs_push" by (simp add: decision_iff)
  have ref: "cc_ref docs_config \<noteq> []" "cc_ref docs_config = cc_default_branch docs_config" "cc_base docs_config = ''abc''"
    by (simp_all add: docs_config_def)
  have "code = 0" "skip_recorded (\<lambda>_. Some []) docs_config docs_push w'"
    using skip_only_irrelevant_push [OF run] skip by simp_all
  then show ?thesis using run ref by (auto simp: skip_recorded_def trusted_base_def)
qed

end
