(* ===== verification/Worktree.thy ===== *)
theory Worktree
  imports CiChanged
begin

text \<open>
  Walking the tree and leaving nested git working trees out (\<open>nested_worktree.go\<close>, and \<open>findGoFiles\<close> of
  \<open>lint_gates.go\<close>): \<open>filepath.WalkDir\<close> with its three answers, the roots of the nested trees, and the package
  targets a tool gets instead of \<open>./...\<close>. The JSON of \<open>go list\<close> is a parameter.
\<close>

section \<open>Walking\<close>

text \<open>A directory lists its entries in the order of \<open>os.ReadDir\<close>, or cannot be read.\<close>

datatype tree = Leaf (tree_name: string) | Dir (tree_name: string) bool "tree list"

datatype walk_answer = Proceed | SkipDir | SkipAll | WalkFailed

text \<open>A visitor sees the path, whether the entry is a directory, its name, and whether reading it failed.\<close>

type_synonym 's visitor = "string \<Rightarrow> bool \<Rightarrow> string \<Rightarrow> bool \<Rightarrow> 's \<Rightarrow> walk_answer \<times> 's"

fun walk_tree :: "'s visitor \<Rightarrow> string \<Rightarrow> tree \<Rightarrow> 's \<Rightarrow> walk_answer \<times> 's"
  and walk_entries :: "'s visitor \<Rightarrow> string \<Rightarrow> tree list \<Rightarrow> 's \<Rightarrow> walk_answer \<times> 's" where
  "walk_tree f p (Leaf n) s = f p False n False s"
| "walk_tree f p (Dir n readable ts) s =
     (case f p True n False s of
        (Proceed, s) \<Rightarrow>
          if readable then walk_entries f p ts s
          else (case f p True n True s of (SkipDir, s) \<Rightarrow> (Proceed, s) | (r, s) \<Rightarrow> (r, s))
      | (SkipDir, s) \<Rightarrow> (Proceed, s)
      | (r, s) \<Rightarrow> (r, s))"
| "walk_entries f p [] s = (Proceed, s)"
| "walk_entries f p (t # ts) s =
     (case walk_tree f (path_join [p, tree_name t]) t s of
        (Proceed, s) \<Rightarrow> walk_entries f p ts s
      | (SkipDir, s) \<Rightarrow> (Proceed, s)
      | (r, s) \<Rightarrow> (r, s))"

definition walk_dir :: "'s visitor \<Rightarrow> string \<Rightarrow> tree \<Rightarrow> 's \<Rightarrow> 's option" where
  "walk_dir f p t s = (case walk_tree f p t s of (WalkFailed, s) \<Rightarrow> None | (_, s) \<Rightarrow> Some s)"

section \<open>Nested working trees\<close>

definition truthy_values :: "string list" where "truthy_values = [''1'', ''true'', ''yes'', ''on'']"

definition is_truthy :: "string \<Rightarrow> bool" where
  "is_truthy v \<longleftrightarrow> map lower_char (trim_space v) \<in> set truthy_values"

fun visit_git :: "(string list) visitor" where
  "visit_git p is_dir name failed roots =
     (if failed then (if is_dir then SkipDir else Proceed, roots)
      else if name \<noteq> ''.git'' then (Proceed, roots)
      else if path_dir p = ''.'' then (if is_dir then SkipDir else Proceed, roots)
      else (SkipDir, roots @ [''./'' @ path_dir p]))"

definition nested_worktree_roots :: "tool_world \<Rightarrow> tree \<Rightarrow> string list option" where
  "nested_worktree_roots w t =
     (if is_truthy (tenv w ''GO_MK_LINT_INCLUDE_NESTED_WORKTREES'') then Some [] else walk_dir visit_git ''.'' t [])"

definition normalize_for_roots :: "string \<Rightarrow> string" where
  "normalize_for_roots p =
     (if p = ''.'' \<or> prefix ''./'' p then p else if prefix ''/'' p then p else ''./'' @ p)"

definition path_in_any_root :: "string \<Rightarrow> string list \<Rightarrow> bool" where
  "path_in_any_root p roots \<longleftrightarrow>
     (let n = normalize_for_roots p in list_ex (\<lambda>r. n = r \<or> prefix (r @ ''/'') n) roots)"

definition drop_nested_paths :: "string list \<Rightarrow> string list \<Rightarrow> string list" where
  "drop_nested_paths paths roots =
     (if roots = [] then paths else filter (\<lambda>p. \<not> path_in_any_root p roots) paths)"

record listed_package =
  lp_dir :: string
  lp_go_files :: "string list"
  lp_cgo_files :: "string list"
  lp_test_files :: "string list"
  lp_xtest_files :: "string list"
  lp_ignored_files :: "string list"
  lp_invalid_files :: "string list"
  lp_error :: "string option"

definition has_files :: "listed_package \<Rightarrow> bool" where
  "has_files p \<longleftrightarrow> lp_go_files p \<noteq> [] \<or> lp_cgo_files p \<noteq> [] \<or> lp_test_files p \<noteq> [] \<or> lp_xtest_files p \<noteq> []"

definition package_error_text :: "listed_package \<Rightarrow> string" where
  "package_error_text p =
     (case lp_error p of None \<Rightarrow> ''no Go files and no reported error'' | Some m \<Rightarrow> m)"

definition absent_from_target :: "listed_package \<Rightarrow> bool" where
  "absent_from_target p \<longleftrightarrow>
     lp_invalid_files p = [] \<and>
     (case lp_error p of
        None \<Rightarrow> lp_ignored_files p \<noteq> []
      | Some m \<Rightarrow> str_contains m ''build constraints exclude all Go files'' \<or> str_contains m ''no Go files'')"

fun package_targets :: "string \<Rightarrow> string list \<Rightarrow> listed_package list \<Rightarrow> (tool_error, string list) result" where
  "package_targets cwd roots [] = Inr []"
| "package_targets cwd roots (p # ps) =
     (if \<not> has_files p then
        (if \<not> absent_from_target p then Inl (PackageNotLoaded (lp_dir p) (package_error_text p))
         else package_targets cwd roots ps)
      else (case path_rel cwd (lp_dir p) of
              None \<Rightarrow> package_targets cwd roots ps
            | Some rel \<Rightarrow>
                if path_in_any_root (''./'' @ rel) roots then package_targets cwd roots ps
                else map_sum id ((#) (''./'' @ rel)) (package_targets cwd roots ps)))"

text \<open>\<open>slices.Compact\<close> after \<open>slices.Sort\<close>: the sorted list without repetitions.\<close>

definition list_filtered_packages ::
  "(string \<Rightarrow> listed_package list option) \<Rightarrow> string list \<Rightarrow> tool_world \<Rightarrow> (tool_error, string list) result \<times> tool_world" where
  "list_filtered_packages decode roots w =
     (let argv = [''go'', ''list'', ''-e'', ''-json'', ''./...''] in
      case t_output argv w of
        (Inl None, w) \<Rightarrow> (Inl (CommandNotStarted argv), w)
      | (Inl (Some s), w) \<Rightarrow> (Inl (CommandFailed argv s), w)
      | (Inr out, w) \<Rightarrow>
          (case decode out of
             None \<Rightarrow> (Inl DecodeFailed, w)
           | Some ps \<Rightarrow>
               (case tw_cwd w of
                  None \<Rightarrow> (Inl (FileError ''.''), w)
                | Some cwd \<Rightarrow> (map_sum id sort_dedup (package_targets cwd roots ps), w))))"

fun replace_pattern :: "string list \<Rightarrow> bool \<Rightarrow> string list \<Rightarrow> string list" where
  "replace_pattern pkgs expanded [] = []"
| "replace_pattern pkgs expanded (t # ts) =
     (if t = ''./...'' then (if expanded then [] else pkgs) @ replace_pattern pkgs True ts
      else t # replace_pattern pkgs expanded ts)"

definition expanded_package_targets ::
  "(string \<Rightarrow> listed_package list option) \<Rightarrow> tree \<Rightarrow> string list \<Rightarrow> tool_world \<Rightarrow>
     (tool_error, string list) result \<times> tool_world" where
  "expanded_package_targets decode t targets w =
     (case nested_worktree_roots w t of
        None \<Rightarrow> (Inl (FileError ''.''), w)
      | Some roots \<Rightarrow>
          if roots = [] \<or> ''./...'' \<notin> set targets then (Inr targets, w)
          else (case list_filtered_packages decode roots w of
                  (Inl e, w) \<Rightarrow> (Inl e, w)
                | (Inr pkgs, w) \<Rightarrow> (Inr (sort_dedup (replace_pattern pkgs False targets)), w)))"

section \<open>The Go files of the tree\<close>

definition pruned_dirs :: "string list" where "pruned_dirs = [''vendor'', ''gen'', ''third_party'']"

fun visit_go :: "string list \<Rightarrow> (string list) visitor" where
  "visit_go roots p is_dir name failed files =
     (if failed then (WalkFailed, files)
      else if is_dir then
        (if path_dir p = ''.'' \<and> name \<in> set pruned_dirs then SkipDir
         else if p \<noteq> ''.'' \<and> path_in_any_root (''./'' @ p) roots then SkipDir else Proceed, files)
      else (Proceed, if suffix ''.go'' name \<and> \<not> suffix ''_test.go'' name then files @ [''./'' @ p] else files))"

definition find_go_files :: "tool_world \<Rightarrow> tree \<Rightarrow> (tool_error, string list) result" where
  "find_go_files w t =
     (case nested_worktree_roots w t of
        None \<Rightarrow> Inl (FileError ''.'')
      | Some roots \<Rightarrow> (case walk_dir (visit_go roots) ''.'' t [] of None \<Rightarrow> Inl (FileError ''.'') | Some fs \<Rightarrow> Inr fs))"

section \<open>The roots cover every nested tree\<close>

text \<open>
  Paths below the working directory as lists of names. A nested working tree is a readable directory other
  than the working directory with an entry \<open>.git\<close>; what lies inside \<open>.git\<close> itself is no part of any tree.
\<close>

definition proper_name :: "string \<Rightarrow> bool" where
  "proper_name c \<longleftrightarrow> slash \<notin> set c \<and> c \<noteq> [] \<and> c \<noteq> ''.'' \<and> c \<noteq> ''..''"

definition node_path :: "string list \<Rightarrow> string" where
  "node_path cs = (if cs = [] then ''.'' else str_join [slash] cs)"

fun names_ok :: "tree \<Rightarrow> bool" where
  "names_ok (Leaf n) = True"
| "names_ok (Dir n readable ts) = (\<forall>t \<in> set ts. proper_name (tree_name t) \<and> names_ok t)"

fun git_dirs :: "string list \<Rightarrow> tree \<Rightarrow> string list set" where
  "git_dirs cs (Leaf n) = {}"
| "git_dirs cs (Dir n readable ts) =
     (if \<not> readable \<or> n = ''.git'' then {}
      else (if cs \<noteq> [] \<and> ''.git'' \<in> tree_name ` set ts then {cs} else {}) \<union>
        (\<Union>t \<in> set ts. git_dirs (cs @ [tree_name t]) t))"

lemma proper_git [simp]: "proper_name ''.git''"
  by (simp add: proper_name_def)

lemma clean_proper_relative:
  assumes "\<forall>c \<in> set cs. proper_name c" "cs \<noteq> []"
  shows "path_clean (str_join [slash] cs) = str_join [slash] cs" "\<not> is_abs (str_join [slash] cs)"
proof -
  have split: "split_on slash (str_join [slash] cs) = cs"
    using assms by (intro split_on_join) (auto simp: proper_name_def)
  have "hd cs \<noteq> []" "slash \<notin> set (hd cs)" using assms by (cases cs; simp add: proper_name_def)+
  then show abs: "\<not> is_abs (str_join [slash] cs)"
    using assms(2) by (cases cs; cases "tl cs"; cases "hd cs") (auto simp: is_abs_def)
  have "clean_comps False [] cs = rev cs"
    using clean_comps_normal [of cs False "[]"] assms(1) by (auto simp: proper_name_def)
  then show "path_clean (str_join [slash] cs) = str_join [slash] cs"
    using split abs assms(2) by (simp add: path_clean_def)
qed

lemma node_path_snoc: "cs \<noteq> [] \<Longrightarrow> node_path (cs @ [n]) = node_path cs @ slash # n"
  by (simp add: node_path_def str_join_snoc)

lemma node_path_join:
  assumes "\<forall>c \<in> set cs. proper_name c" "proper_name n"
  shows "path_join [node_path cs, n] = node_path (cs @ [n])"
proof (cases "cs = []")
  case True
  have "n \<noteq> []" using assms(2) by (simp add: proper_name_def)
  moreover have "split_on slash (''.'' @ slash # n) = [''.'', n]"
    using assms(2) by (simp add: split_on_free proper_name_def)
  moreover have "\<not> is_abs (''.'' @ slash # n)" by (simp add: is_abs_def)
  ultimately show ?thesis using True assms(2) by (simp add: path_join_def node_path_def path_clean_def proper_name_def)
next
  case False
  have "node_path cs \<noteq> []" using False assms(1) by (cases cs; cases "tl cs") (auto simp: node_path_def proper_name_def)
  moreover have "n \<noteq> []" using assms(2) by (simp add: proper_name_def)
  ultimately have "path_join [node_path cs, n] = path_clean (node_path (cs @ [n]))"
    using False by (simp add: path_join_def node_path_snoc)
  then show ?thesis using clean_proper_relative(1) [of "cs @ [n]"] assms by (auto simp: node_path_def)
qed

lemma split_on_append_gen: "split_on d (s @ d # t) = split_on d s @ split_on d t"
proof (induction s)
  case (Cons c s)
  then show ?case by (cases "split_on d s") auto
qed simp

lemma node_path_dir:
  assumes "\<forall>c \<in> set cs. proper_name c" "proper_name n"
  shows "path_dir (node_path (cs @ [n])) = node_path cs"
proof -
  have n: "slash \<notin> set n" using assms(2) by (simp add: proper_name_def)
  have rest: "takeWhile (\<lambda>c. c \<noteq> slash) (rev n) = rev n" "dropWhile (\<lambda>c. c \<noteq> slash) (rev n) = []"
    using n by (auto simp: takeWhile_eq_all_conv dropWhile_eq_Nil_conv)
  show ?thesis
  proof (cases "cs = []")
    case True
    then show ?thesis by (simp add: rest path_dir_def through_last_slash_def node_path_def path_clean_def is_abs_def)
  next
    case False
    have "dropWhile (\<lambda>c. c \<noteq> slash) (rev n @ slash # rev (node_path cs)) = slash # rev (node_path cs)"
      by (simp add: dropWhile_append3 rest)
    then have through: "through_last_slash (node_path (cs @ [n])) = str_join [slash] cs @ [slash]"
      using False by (simp add: through_last_slash_def node_path_def str_join_snoc)
    have split: "split_on slash (str_join [slash] cs @ [slash]) = cs @ [[]]"
    proof -
      have "split_on slash (str_join [slash] cs) = cs"
        using assms(1) False by (intro split_on_join) (auto simp: proper_name_def)
      then show ?thesis by (simp add: split_on_append_gen)
    qed
    have "\<not> is_abs (str_join [slash] cs @ [slash])"
      using clean_proper_relative(2) [OF assms(1) False] False assms(1)
      by (cases cs; cases "tl cs"; cases "hd cs") (auto simp: is_abs_def proper_name_def)
    moreover have "clean_comps False [] (cs @ [[]]) = rev cs"
    proof -
      have "clean_comps False ds (xs @ [[]]) = clean_comps False ds xs" for ds xs
        by (induction False ds xs rule: clean_comps.induct) (auto split: list.splits)
      then show ?thesis using clean_comps_normal [of cs False "[]"] assms(1) by (auto simp: proper_name_def)
    qed
    ultimately show ?thesis
      using False split through by (simp add: path_dir_def path_clean_def node_path_def)
  qed
qed

lemma node_path_dot: "\<forall>c \<in> set cs. proper_name c \<Longrightarrow> node_path cs = ''.'' \<longleftrightarrow> cs = []"
proof (cases cs)
  case (Cons c ds)
  assume "\<forall>c \<in> set cs. proper_name c"
  then show ?thesis using Cons by (cases ds; cases c) (auto simp: node_path_def proper_name_def Cons_eq_append_conv)
qed (simp add: node_path_def)

abbreviation root_of :: "string list \<Rightarrow> string" where
  "root_of cs \<equiv> ''./'' @ node_path cs"

definition covers :: "string list list \<Rightarrow> string list set \<Rightarrow> bool" where
  "covers new D \<longleftrightarrow> (\<forall>q \<in> D. \<exists>r \<in> set new. prefix r q)"

declare visit_git.simps [simp del]

lemma visit_git_other: "name \<noteq> ''.git'' \<Longrightarrow> visit_git p d name False s = (Proceed, s)"
  by (simp add: visit_git.simps)

lemma visit_git_marker:
  "path_dir p = ''.'' \<Longrightarrow> visit_git p d ''.git'' False s = (if d then SkipDir else Proceed, s)"
  "path_dir p \<noteq> ''.'' \<Longrightarrow> visit_git p d ''.git'' False s = (SkipDir, s @ [''./'' @ path_dir p])"
  by (simp_all add: visit_git.simps)

lemma visit_git_unreadable: "visit_git p True name True s = (SkipDir, s)"
  by (simp add: visit_git.simps)

lemmas visit_git_cases = visit_git_other visit_git_marker visit_git_unreadable

lemma git_dirs_below: "q \<in> git_dirs cs t \<Longrightarrow> prefix cs q"
proof (induction t arbitrary: cs)
  case (Dir n readable ts)
  then show ?case by (auto split: if_splits dest: append_prefixD)
qed simp

text \<open>What a walk of one entry below the directory \<open>cs\<close> adds, and its answer.\<close>

definition entry_ok :: "string list \<Rightarrow> tree \<Rightarrow> bool" where
  "entry_ok cs t \<longleftrightarrow> (\<forall>s.
     if tree_name t = ''.git'' then
       (if cs = [] then fst (walk_tree visit_git (node_path (cs @ [''.git''])) t s) = Proceed \<and>
           snd (walk_tree visit_git (node_path (cs @ [''.git''])) t s) = s
        else fst (walk_tree visit_git (node_path (cs @ [''.git''])) t s) \<in> {Proceed, SkipDir} \<and>
           snd (walk_tree visit_git (node_path (cs @ [''.git''])) t s) = s @ [root_of cs])
     else (\<exists>new. walk_tree visit_git (node_path (cs @ [tree_name t])) t s = (Proceed, s @ map root_of new) \<and>
        set new \<subseteq> git_dirs (cs @ [tree_name t]) t \<and> covers new (git_dirs (cs @ [tree_name t]) t)))"

text \<open>The nested trees among the entries of the directory \<open>cs\<close>, itself included.\<close>

definition entries_dirs :: "string list \<Rightarrow> tree list \<Rightarrow> string list set" where
  "entries_dirs cs ts =
     (if cs \<noteq> [] \<and> ''.git'' \<in> tree_name ` set ts then {cs} else {}) \<union> (\<Union>t \<in> set ts. git_dirs (cs @ [tree_name t]) t)"

lemma entries_dirs_other:
  "tree_name t \<noteq> ''.git'' \<Longrightarrow> entries_dirs cs (t # ts) = git_dirs (cs @ [tree_name t]) t \<union> entries_dirs cs ts"
  by (auto simp: entries_dirs_def split: if_splits)

lemma covers_append: "covers a A \<Longrightarrow> covers b B \<Longrightarrow> covers (a @ b) (A \<union> B)"
  unfolding covers_def set_append by blast

lemma walk_entries_git:
  assumes "\<forall>c \<in> set cs. proper_name c" "\<forall>t \<in> set ts. proper_name (tree_name t) \<and> entry_ok cs t"
  shows "\<exists>new. walk_entries visit_git (node_path cs) ts s = (Proceed, s @ map root_of new) \<and>
    set new \<subseteq> entries_dirs cs ts \<and>
    covers new (entries_dirs cs ts)"
  using assms(2)
proof (induction ts arbitrary: s)
  case Nil
  then show ?case by (intro exI [of _ "[]"]) (simp add: covers_def entries_dirs_def)
next
  case (Cons t ts)
  have join: "path_join [node_path cs, tree_name t] = node_path (cs @ [tree_name t])"
    using node_path_join assms(1) Cons.prems by simp
  have ok: "entry_ok cs t" using Cons.prems by simp
  show ?case
  proof (cases "tree_name t = ''.git''")
    case True
    have none: "git_dirs (cs @ [tree_name t]) t = {}" using True by (cases t) auto
    obtain a s1 where w: "walk_tree visit_git (node_path (cs @ [''.git''])) t s = (a, s1)" by fastforce
    have as: "if cs = [] then a = Proceed \<and> s1 = s else a \<in> {Proceed, SkipDir} \<and> s1 = s @ [root_of cs]"
      using ok [unfolded entry_ok_def, rule_format, of s] True w by (simp split: if_splits)
    show ?thesis
    proof (cases "a = Proceed")
      case proceed: True
      obtain new where n: "walk_entries visit_git (node_path cs) ts s1 = (Proceed, s1 @ map root_of new)"
        "set new \<subseteq> entries_dirs cs ts"
        "covers new (entries_dirs cs ts)"
        using Cons.IH [of s1] Cons.prems by auto
      show ?thesis
      proof (cases "cs = []")
        case True
        then show ?thesis using n none w proceed join \<open>tree_name t = ''.git''\<close> as
          by (intro exI [of _ new]) (auto simp: entries_dirs_def)
      next
        case False
        then show ?thesis using n none w proceed join \<open>tree_name t = ''.git''\<close> as
          by (intro exI [of _ "cs # new"]) (auto simp: covers_def entries_dirs_def split: if_splits)
      qed
    next
      case False
      then have "a = SkipDir" "cs \<noteq> []" "s1 = s @ [root_of cs]" using as by (auto split: if_splits)
      moreover have "prefix cs q" if "q \<in> git_dirs (cs @ [tree_name u]) u" for q u
        using git_dirs_below [OF that] append_prefixD by blast
      ultimately show ?thesis using w join True none
        by (intro exI [of _ "[cs]"]) (auto simp: covers_def entries_dirs_def split: if_splits)
    qed
  next
    case False
    obtain new1 where n1: "walk_tree visit_git (node_path (cs @ [tree_name t])) t s = (Proceed, s @ map root_of new1)"
      "set new1 \<subseteq> git_dirs (cs @ [tree_name t]) t" "covers new1 (git_dirs (cs @ [tree_name t]) t)"
      using ok [unfolded entry_ok_def, rule_format, of s] False by auto
    obtain new2 where n2: "walk_entries visit_git (node_path cs) ts (s @ map root_of new1) = (Proceed, (s @ map root_of new1) @ map root_of new2)"
      "set new2 \<subseteq> entries_dirs cs ts"
      "covers new2 (entries_dirs cs ts)"
      using Cons.IH [of "s @ map root_of new1"] Cons.prems by auto
    have d: "entries_dirs cs (t # ts) = git_dirs (cs @ [tree_name t]) t \<union> entries_dirs cs ts"
      using False by (simp add: entries_dirs_other)
    have "walk_entries visit_git (node_path cs) (t # ts) s = (Proceed, s @ map root_of (new1 @ new2))"
      using n1(1) n2(1) join by simp
    moreover have "set (new1 @ new2) \<subseteq> entries_dirs cs (t # ts)" using n1(2) n2(2) unfolding d by auto
    moreover have "covers (new1 @ new2) (entries_dirs cs (t # ts))"
      unfolding d using covers_append [OF n1(3) n2(3)] .
    ultimately show ?thesis by blast
  qed
qed

lemma entry_ok_tree:
  "\<forall>c \<in> set cs. proper_name c \<Longrightarrow> proper_name (tree_name t) \<Longrightarrow> names_ok t \<Longrightarrow> entry_ok cs t"
proof (induction t arbitrary: cs)
  case (Leaf n)
  have d: "path_dir (node_path (cs @ [''.git''])) = node_path cs" using node_path_dir [OF Leaf.prems(1)] by simp
  show ?case
  proof (cases "n = ''.git''")
    case True
    then show ?thesis using node_path_dot [OF Leaf.prems(1)] d by (auto simp: entry_ok_def visit_git_cases)
  next
    case False
    then show ?thesis by (auto simp: entry_ok_def visit_git_cases covers_def)
  qed
next
  case (Dir n readable ts)
  have d: "path_dir (node_path (cs @ [''.git''])) = node_path cs" using node_path_dir [OF Dir.prems(1)] by simp
  show ?case
  proof (cases "n = ''.git''")
    case True
    then show ?thesis using node_path_dot [OF Dir.prems(1)] d by (auto simp: entry_ok_def visit_git_cases)
  next
    case False
    let ?cs = "cs @ [n]"
    have p: "\<forall>c \<in> set ?cs. proper_name c" using Dir.prems by auto
    have "\<forall>t \<in> set ts. proper_name (tree_name t) \<and> entry_ok ?cs t" using Dir.IH [OF _ p] Dir.prems(3) by simp
    from walk_entries_git [OF p this] show ?thesis
      using False by (auto simp: entry_ok_def covers_def visit_git_cases entries_dirs_def)
  qed
qed

lemma nested_roots_found:
  assumes "names_ok (Dir n readable ts)" "n \<noteq> ''.git''" "\<not> is_truthy (tenv w ''GO_MK_LINT_INCLUDE_NESTED_WORKTREES'')"
  obtains new where "nested_worktree_roots w (Dir n readable ts) = Some (map root_of new)"
    "set new \<subseteq> git_dirs [] (Dir n readable ts)" "covers new (git_dirs [] (Dir n readable ts))"
proof (cases readable)
  case False
  then show ?thesis using that [of "[]"] assms by (simp add: nested_worktree_roots_def walk_dir_def covers_def visit_git_cases)
next
  case True
  have "\<forall>t \<in> set ts. proper_name (tree_name t) \<and> entry_ok [] t" using assms(1) entry_ok_tree [of "[]"] by simp
  from walk_entries_git [OF _ this, of "[]"] obtain new where
    "walk_entries visit_git (node_path []) ts [] = (Proceed, map root_of new)"
    "set new \<subseteq> (\<Union>t \<in> set ts. git_dirs [tree_name t] t)" "covers new (\<Union>t \<in> set ts. git_dirs [tree_name t] t)"
    by (auto simp: entries_dirs_def)
  then show ?thesis using that [of new] assms True
    by (simp add: nested_worktree_roots_def walk_dir_def node_path_def visit_git_cases)
qed

lemma str_join_append:
  "xs \<noteq> [] \<Longrightarrow> ys \<noteq> [] \<Longrightarrow> str_join sep (xs @ ys) = str_join sep xs @ sep @ str_join sep ys"
proof (induction xs rule: induct_list012)
  case (2 x)
  then show ?case by (cases ys) auto
qed auto

lemma node_path_prefix:
  assumes "\<forall>c \<in> set as. proper_name c" "as \<noteq> []" "\<forall>c \<in> set bs. proper_name c" "bs \<noteq> []"
  shows "node_path bs = node_path as \<or> prefix (node_path as @ ''/'') (node_path bs) \<longleftrightarrow> prefix as bs"
proof
  have split: "split_on slash (node_path cs) = cs" if "\<forall>c \<in> set cs. proper_name c" "cs \<noteq> []" for cs
    using that by (auto simp: node_path_def proper_name_def intro!: split_on_join)
  assume "node_path bs = node_path as \<or> prefix (node_path as @ ''/'') (node_path bs)"
  then show "prefix as bs"
  proof
    assume "node_path bs = node_path as"
    then have "split_on slash (node_path bs) = split_on slash (node_path as)" by simp
    then show ?thesis using split [OF assms(1,2)] split [OF assms(3,4)] by simp
  next
    assume "prefix (node_path as @ ''/'') (node_path bs)"
    then obtain z where "node_path bs = node_path as @ slash # z" by (auto simp: prefix_def)
    then have "bs = as @ split_on slash z"
      using split [OF assms(1,2)] split [OF assms(3,4)] split_on_append_gen [of slash "node_path as" z] by simp
    then show ?thesis by simp
  qed
next
  assume "prefix as bs"
  then obtain cs where cs: "bs = as @ cs" by (auto simp: prefix_def)
  show "node_path bs = node_path as \<or> prefix (node_path as @ ''/'') (node_path bs)"
  proof (cases "cs = []")
    case False
    then have "node_path bs = node_path as @ ''/'' @ str_join [slash] cs"
      using cs assms(2) by (simp add: node_path_def str_join_append)
    then show ?thesis by simp
  qed (simp add: cs)
qed

lemma git_dirs_proper:
  "q \<in> git_dirs cs t \<Longrightarrow> names_ok t \<Longrightarrow> \<forall>c \<in> set cs. proper_name c \<Longrightarrow> (\<forall>c \<in> set q. proper_name c) \<and> q \<noteq> []"
proof (induction t arbitrary: cs)
  case (Dir n readable ts)
  from Dir.prems(1) consider "q = cs" "cs \<noteq> []" | t where "t \<in> set ts" "q \<in> git_dirs (cs @ [tree_name t]) t"
    by (auto split: if_splits)
  then show ?case
  proof cases
    case 1
    then show ?thesis using Dir.prems(3) by simp
  next
    case 2
    have "names_ok t" "\<forall>c \<in> set (cs @ [tree_name t]). proper_name c" using 2(1) Dir.prems(2,3) by auto
    then show ?thesis using Dir.IH [OF 2(1) 2(2)] by blast
  qed
qed simp

lemma normalize_node_path:
  assumes "\<forall>c \<in> set cs. proper_name c" "cs \<noteq> []"
  shows "normalize_for_roots (node_path cs) = root_of cs"
proof -
  obtain c ds where c: "cs = c # ds" using assms(2) by (cases cs) auto
  obtain a b where "c = a # b" "slash \<notin> set c" "c \<noteq> ''.''" using assms(1) c by (cases c) (auto simp: proper_name_def)
  then have "\<not> prefix ''./'' (node_path cs)" "\<not> prefix ''/'' (node_path cs)"
    using c by (cases ds; cases b; auto simp: node_path_def)+
  moreover have "node_path cs \<noteq> ''.''" using node_path_dot [OF assms(1)] assms(2) by simp
  ultimately show ?thesis by (simp add: normalize_for_roots_def)
qed

text \<open>
  C21. Without the variable that includes them, the walk finds the nested working trees exactly: a path
  below the working directory is left out of linting if and only if it is, or lies below, a directory with
  a \<open>.git\<close> entry of its own. The walk skips the rest of a directory at a \<open>.git\<close> file and never fails.
\<close>

theorem nested_worktrees_left_out:
  assumes "names_ok (Dir n readable ts)" "n \<noteq> ''.git''"
    and "\<not> is_truthy (tenv w ''GO_MK_LINT_INCLUDE_NESTED_WORKTREES'')"
    and "\<forall>c \<in> set cs. proper_name c" "cs \<noteq> []"
  shows "\<exists>roots. nested_worktree_roots w (Dir n readable ts) = Some roots \<and>
    (path_in_any_root (node_path cs) roots \<longleftrightarrow> (\<exists>q \<in> git_dirs [] (Dir n readable ts). prefix q cs))"
proof -
  let ?t = "Dir n readable ts"
  obtain new where new: "nested_worktree_roots w ?t = Some (map root_of new)"
    "set new \<subseteq> git_dirs [] ?t" "covers new (git_dirs [] ?t)"
    by (rule nested_roots_found [OF assms(1-3)])
  have proper: "(\<forall>c \<in> set q. proper_name c) \<and> q \<noteq> []" if "q \<in> set new" for q
    using git_dirs_proper [of q "[]" ?t] that new(2) assms(1) by auto
  have "path_in_any_root (node_path cs) (map root_of new) \<longleftrightarrow>
      (\<exists>q \<in> set new. node_path cs = node_path q \<or> prefix (node_path q @ ''/'') (node_path cs))"
    by (simp add: path_in_any_root_def normalize_node_path [OF assms(4,5)] list_ex_iff)
  also have "\<dots> \<longleftrightarrow> (\<exists>q \<in> set new. prefix q cs)"
    using node_path_prefix [OF _ _ assms(4,5)] proper by blast
  also have "\<dots> \<longleftrightarrow> (\<exists>q \<in> git_dirs [] ?t. prefix q cs)"
    using new(2,3) unfolding covers_def by (meson prefix_order.trans subset_iff)
  finally show ?thesis using new(1) by blast
qed

text \<open>The expansion of the package pattern names no directory of a nested tree.\<close>

lemma package_targets_outside:
  "package_targets cwd roots ps = Inr ts \<Longrightarrow> t \<in> set ts \<Longrightarrow> \<not> path_in_any_root t roots"
  by (induction ps arbitrary: ts) (auto split: if_splits option.splits sum.splits simp: map_sum_def)

lemma replace_pattern_set: "set (replace_pattern pkgs expanded ts) \<subseteq> set ts \<union> set pkgs"
  by (induction pkgs expanded ts rule: replace_pattern.induct) auto

definition nested_tree :: tree where
  "nested_tree = Dir ''.'' True [Dir ''.git'' True [], Dir ''w'' True [Leaf ''.git'', Dir ''p'' True [Leaf ''x.go'']]]"

theorem nested_worktrees_left_out_witness:
  "\<exists>roots. nested_worktree_roots sample_tool nested_tree = Some roots \<and> path_in_any_root ''w/p'' roots"
proof -
  have names: "names_ok nested_tree" by code_simp
  have no: "\<not> is_truthy (tenv sample_tool ''GO_MK_LINT_INCLUDE_NESTED_WORKTREES'')" by code_simp
  have git: "[''w''] \<in> git_dirs [] nested_tree" by (simp add: nested_tree_def)
  have path: "node_path [''w'', ''p''] = ''w/p''" by (simp add: node_path_def)
  show ?thesis
    using nested_worktrees_left_out [of "''.''" True "[Dir ''.git'' True [], Dir ''w'' True [Leaf ''.git'', Dir ''p'' True [Leaf ''x.go'']]]"
        sample_tool "[''w'', ''p'']"] names no git path
    unfolding nested_tree_def by (auto simp: proper_name_def)
qed

end
