(* ===== verification/LintGates.thy ===== *)
theory LintGates
  imports Worktree
begin

text \<open>
  The lint gates of \<open>lint_gates.go\<close> and \<open>staticcheck.go\<close>: each runs a tool, extracts its findings, and gates them
  against a baseline with the evaluation of \<open>LintGate\<close>. The tree that is walked, the JSON of \<open>go list\<close>, which
  files are executable and the notice pass are parameters.
\<close>

section \<open>Gates over the tool world\<close>

record lint_context =
  lc_tree :: tree
  lc_decode :: "string \<Rightarrow> listed_package list option"
  lc_executable :: "tool_world \<Rightarrow> string \<Rightarrow> bool"
  lc_notice :: "tool_world \<Rightarrow> tool_world"
  lc_resolve :: "tool_world \<Rightarrow> int \<times> tool_world"
  lc_module_files :: "tool_world \<Rightarrow> (tool_error, string list) result \<times> tool_world"

definition snapshot :: "tool_world \<Rightarrow> lint_world" where
  "snapshot w =
     \<lparr>lw_env = env_get (tw_environ w), lw_cwd = tw_cwd w,
      lw_files = (\<lambda>p. if t_fails ReadCall w then Unreadable
                      else (case tw_files w p of None \<Rightarrow> NoFile | Some s \<Rightarrow> Content s)),
      lw_stat = (\<lambda>p. if t_fails StatCall w then StatError
                     else if tw_files w p = None \<and> \<not> tw_dirs w p then StatMissing else StatOk),
      lw_compile = tw_compile w\<rparr>"

definition t_extract :: "string \<Rightarrow> string \<Rightarrow> string \<Rightarrow> tool_world \<Rightarrow>
    (tool_error, string list \<times> nat) result \<times> tool_world" where
  "t_extract raw_path pattern excludes w =
     (case extract_findings (snapshot w) raw_path pattern excludes of
        Inl e \<Rightarrow> (Inl (Filtering e), t_tick w) | Inr r \<Rightarrow> (Inr r, t_tick w))"

definition record_marker :: "gate_marker \<Rightarrow> tool_world \<Rightarrow> tool_world" where
  "record_marker m w = (if tw_collecting w then w\<lparr>tw_outcome := Verdict m\<rparr> else w)"

definition record_tool_failure :: "string list \<Rightarrow> tool_world \<Rightarrow> tool_world" where
  "record_tool_failure rest w = (if tw_collecting w then w\<lparr>tw_outcome := ToolFailure rest\<rparr> else w)"

text \<open>The gate of \<open>LintGate\<close>, with what it prints, records and appends carried into the world.\<close>

definition fresh_log :: "tool_world \<Rightarrow> gate_log" where
  "fresh_log w = \<lparr>gl_collecting = tw_collecting w, gl_output = [], gl_markers = [], gl_failed = []\<rparr>"

definition commit_log :: "gate_log \<Rightarrow> tool_world \<Rightarrow> tool_world" where
  "commit_log log w =
     foldl (\<lambda>w g. record_failed g w)
       (foldl (\<lambda>w m. record_marker m w) (t_print (write_findings_text (gl_output log)) w) (gl_markers log))
       (gl_failed log)"

definition t_gate :: "string \<Rightarrow> string list \<Rightarrow> string \<Rightarrow> string \<Rightarrow> string \<Rightarrow> string \<Rightarrow> bool \<Rightarrow> tool_world \<Rightarrow>
    (tool_error, bool) result \<times> tool_world" where
  "t_gate gate current path remediation excludes scope suppress w =
     (let (r, log) = run_gate_and_print (snapshot w) gate current path remediation excludes scope suppress (fresh_log w)
      in (map_sum Filtering id r, commit_log log (t_tick w)))"

definition report_tool_failure_of :: "string \<Rightarrow> int \<Rightarrow> string \<Rightarrow> tool_world \<Rightarrow> int \<times> tool_world" where
  "report_tool_failure_of gate status raw_path w =
     (if tw_collecting w then
        (case read_file_lines raw_path w of
           (r, w) \<Rightarrow>
             (status, record_failed gate (record_tool_failure
                ([''Exit status: '' @ itoa status, [], ''Output:''] @ (case r of Inl _ \<Rightarrow> [] | Inr ls \<Rightarrow> ls)) w)))
      else
        (case read_file_content raw_path
                (t_print (gate @ '': FAILED'' @ newline @ ''  Exit status: '' @ itoa status @ newline @ newline @ ''Output:'' @ newline) w) of
           (r, w) \<Rightarrow> (status, record_failed gate (case r of Inl _ \<Rightarrow> w | Inr text \<Rightarrow> t_print text w))))"

section \<open>golangci-lint\<close>

definition backslash :: string where "backslash = [CHR 0x5C]"

definition go_finding_pattern :: string where
  "go_finding_pattern =
     ''^[^[:space:]][^:]+:[0-9]+:[0-9]+: |^[^[:space:]].*'' @ backslash @ ''([[:alnum:]_-]+'' @ backslash @ '')$''"

definition go_location_pattern :: string where
  "go_location_pattern = ''^[^[:space:]][^:]+:[0-9]+:[0-9]+:''"

definition golangci_command :: "lint_context \<Rightarrow> string \<Rightarrow> tool_world \<Rightarrow>
    (tool_error, string \<times> string list) result \<times> tool_world" where
  "golangci_command lc mode w =
     (let binary = tenv_default w ''GOLANGCI_LINT'' ''golangci-lint'';
          flags = (if mode = ''fmt'' then tenv w ''GOLANGCI_LINT_FLAGS''
                   else tenv_default w ''GOLANGCI_LINT_RUN_FLAGS'' (tenv w ''GOLANGCI_LINT_FLAGS''));
          raw = split_words (tenv_default w ''GOLANGCI_LINT_TARGETS'' ''./...'')
      in t_bind (if mode = ''run'' then expanded_package_targets (lc_decode lc) (lc_tree lc) raw else t_lift (Inr raw))
           (\<lambda>targets. t_lift (Inr (binary, mode # split_words flags @ targets))) w)"

definition golangci_excludes :: "tool_world \<Rightarrow> string" where
  "golangci_excludes w =
     exclude_pattern (tenv_default w ''GOLANGCI_LINT_DEFAULT_EXCLUDE_PATHS'' test_file_exclude)
       (tenv w ''GOLANGCI_LINT_EXCLUDE_PATHS'')"

definition capture_golangci_findings :: "lint_context \<Rightarrow> string \<Rightarrow> string \<Rightarrow> tool_world \<Rightarrow>
    (tool_error, int \<times> nat) result \<times> tool_world" where
  "capture_golangci_findings lc raw_path findings_path =
     t_bind (golangci_command lc ''run'') (\<lambda>(binary, args).
     t_bind (capture_command binary args raw_path) (\<lambda>status.
     t_bind (\<lambda>w. t_extract raw_path go_finding_pattern (golangci_excludes w) w) (\<lambda>(extracted, dropped).
     t_bind (write_findings_file findings_path extracted) (\<lambda>_. t_lift (Inr (status, dropped))))))"

definition golangci_install :: string where
  "golangci_install = ''github.com/golangci/golangci-lint/v2/cmd/golangci-lint@v2.14.0''"
definition gofumpt_install :: string where "gofumpt_install = ''mvdan.cc/gofumpt@v0.10.0''"
definition goimports_install :: string where "goimports_install = ''golang.org/x/tools/cmd/goimports@v0.45.0''"

definition install_default :: "string \<Rightarrow> string \<Rightarrow> tool_world \<Rightarrow> (tool_error, unit) result \<times> tool_world" where
  "install_default name spec w = install_go_tool (tenv_default w name spec) w"

definition run_lint_tools :: "tool_world \<Rightarrow> (tool_error, unit) result \<times> tool_world" where
  "run_lint_tools =
     t_bind (install_default ''GOLANGCI_LINT_INSTALL'' golangci_install) (\<lambda>_.
     t_bind (install_default ''GOFUMPT_INSTALL'' gofumpt_install) (\<lambda>_.
       install_default ''GOIMPORTS_INSTALL'' goimports_install))"

definition ensure_lint_tools :: "tool_world \<Rightarrow> (tool_error, unit) result \<times> tool_world" where
  "ensure_lint_tools w = (if tw_prepared w then (Inr (), w) else run_lint_tools w)"

definition out_of_tree_notice :: "nat \<Rightarrow> string" where
  "out_of_tree_notice dropped =
     ''ignored '' @ itoa_nat dropped @
     '' finding(s) with out-of-tree paths (stale lint cache; run golangci-lint cache clean to clear)''"

definition golangci_cache_usable :: "bool \<Rightarrow> int \<Rightarrow> nat \<Rightarrow> nat \<Rightarrow> bool" where
  "golangci_cache_usable passed status count dropped \<longleftrightarrow>
     \<not> passed \<or> \<not> tool_failed_without_findings status count dropped"

definition report_golangci_run :: "tool_world \<Rightarrow> tool_world" where
  "report_golangci_run w =
     (if tenv w ''GO_MK_CI_REPORT_GOLANGCI_RUN'' \<noteq> ''true'' then w
      else snd (t_append (tenv w ''GITHUB_OUTPUT'') (''golangci_ran=true'' @ newline) w))"

definition fix_findings :: string where "fix_findings = ''Fix the new findings before this gate will pass.''"

definition make_file :: "string \<Rightarrow> string" where "make_file name = path_join [make_dir, name]"

text \<open>The end of the gate: a passing gate fails all the same when the tool failed without a finding.\<close>

definition golangci_verdict :: "int \<Rightarrow> nat \<Rightarrow> nat \<Rightarrow> string \<Rightarrow> bool \<Rightarrow> tool_world \<Rightarrow> int \<times> tool_world" where
  "golangci_verdict status count dropped raw passed w =
     (let usable = golangci_cache_usable passed status count dropped; w = (if usable then report_golangci_run w else w)
      in if \<not> passed then (1, w)
         else if \<not> usable then report_tool_failure_of ''golangci-lint'' status raw w
         else (0, w))"

definition run_lint_golangci :: "lint_context \<Rightarrow> tool_world \<Rightarrow> int \<times> tool_world" where
  "run_lint_golangci lc =
     or_status ensure_make_dir (\<lambda>_. or_status ensure_lint_tools (\<lambda>_.
     (let raw = make_file ''golangci-lint.raw.out''; out = make_file ''golangci-lint.out'' in
      or_status (capture_golangci_findings lc raw out) (\<lambda>(status, dropped) w.
      or_status (read_file_lines out) (\<lambda>current.
      or_status (\<lambda>w. t_gate ''golangci-lint'' current (tenv_default w ''GOLANGCI_LINT_BASELINE'' ''.golangci-lint-baseline.txt'')
                   fix_findings (golangci_excludes w) [] False w) (golangci_verdict status (length current) dropped raw))
        (if 0 < dropped \<and> \<not> tw_collecting w then t_println (out_of_tree_notice dropped) w else w)))))"

section \<open>One linter or rule\<close>

datatype capture_mode = CaptureStandard | CaptureNotice

definition scope_lines :: "string list \<Rightarrow> string \<Rightarrow> tool_world \<Rightarrow> string list" where
  "scope_lines ls scope w =
     (if scope = [] then ls
      else (case tw_compile w scope of None \<Rightarrow> ls | Some m \<Rightarrow> filter m ls))"

definition filter_excluded :: "string list \<Rightarrow> string \<Rightarrow> tool_world \<Rightarrow> string list" where
  "filter_excluded ls excludes w =
     (if excludes = [] then ls
      else (case tw_compile w excludes of None \<Rightarrow> ls | Some m \<Rightarrow> filter (\<lambda>l. \<not> m l) ls))"

definition golangci_scope :: "tool_world \<Rightarrow> string" where
  "golangci_scope w =
     golangci_scope_pattern (tenv w ''GOLANGCI_LINT_BASELINE_SCOPE_PATTERN'') (tenv w ''RULE'') (tenv w ''LINTER'')"

definition scoped_args :: "capture_mode \<Rightarrow> string list \<Rightarrow> tool_world \<Rightarrow> string list" where
  "scoped_args mode args w =
     (let args = (if tenv w ''LINTER'' = [] then args
                  else take 1 args @ [''--enable-only='' @ tenv w ''LINTER''] @ drop 1 args)
      in if mode = CaptureNotice then args @ [''--issues-exit-code=0''] else args)"

definition capture_golangci_scope :: "lint_context \<Rightarrow> capture_mode \<Rightarrow> string \<Rightarrow> string \<Rightarrow> tool_world \<Rightarrow>
    (tool_error, unit) result \<times> tool_world" where
  "capture_golangci_scope lc mode raw_path findings_path =
     t_bind (golangci_command lc ''run'') (\<lambda>(binary, args).
     t_bind (\<lambda>w. capture_command binary (scoped_args mode args w) raw_path w) (\<lambda>status.
       if mode = CaptureNotice \<and> status \<noteq> 0 then
         t_bind (\<lambda>w. case t_read raw_path w of (Content s, w) \<Rightarrow> (Inr s, w) | (_, w) \<Rightarrow> (Inl (FileError raw_path), w))
           (\<lambda>text. t_lift (Inl (NoticeFailed (''notice golangci-lint capture failed (exit status '' @ itoa status @ ''):'' @
              newline @ text))))
       else
         t_bind (\<lambda>w. t_extract raw_path go_finding_pattern (if mode = CaptureNotice then [] else golangci_excludes w) w)
           (\<lambda>(extracted, _).
             if mode = CaptureNotice \<and> list_ex (suffix ''(typecheck)'') extracted
             then t_lift (Inl (NoticeFailed (''notice golangci-lint could not type-check the source: '' @
                    the (find (suffix ''(typecheck)'') extracted))))
             else (\<lambda>w.
               (let found = (if mode = CaptureNotice then filter_excluded extracted (golangci_excludes w) w else extracted)
                in write_findings_file findings_path (scope_lines found (golangci_scope w) w) w)))))"

definition run_lint_golangci_scope :: "lint_context \<Rightarrow> tool_world \<Rightarrow> int \<times> tool_world" where
  "run_lint_golangci_scope lc w =
     (let scope = golangci_scope w; raw = make_file ''golangci-lint-scope.raw.out''; out = make_file ''golangci-lint-scope.out'' in
      if scope = []
      then (2, t_println ''lint-golangci-scope: set LINTER=<name>, RULE=<name>, or GOLANGCI_LINT_BASELINE_SCOPE_PATTERN'' w)
      else or_status ensure_make_dir (\<lambda>_. or_status ensure_lint_tools (\<lambda>_.
           or_status (capture_golangci_scope lc CaptureStandard raw out) (\<lambda>_.
           or_status (read_file_lines out) (\<lambda>current.
           or_status (\<lambda>w. t_gate ''golangci-lint'' current (tenv_default w ''GOLANGCI_LINT_BASELINE'' ''.golangci-lint-baseline.txt'')
                        fix_findings (golangci_excludes w) scope False w) (\<lambda>passed w. (if passed then 0 else 1, w)))))) w)"

section \<open>The formatter\<close>

definition golangci_fmt_command :: "lint_context \<Rightarrow> tool_world \<Rightarrow> (tool_error, string \<times> string list) result \<times> tool_world" where
  "golangci_fmt_command lc w =
     (let binary = tenv_default w ''GOLANGCI_LINT'' ''golangci-lint''; flags = tenv w ''GOLANGCI_LINT_FLAGS'';
          override = tenv w ''GOLANGCI_FMT_FILES''
      in t_bind (if override \<noteq> [] then t_lift (Inr (split_words override)) else lc_module_files lc)
           (\<lambda>files. t_lift (if files = [] then Inl NoGoFiles
                              else Inr (binary, ''fmt'' # split_words flags @ files))) w)"

definition ends_with_newline :: "string \<Rightarrow> string" where
  "ends_with_newline s = (if suffix newline s then s else s @ newline)"

definition format_verdict :: "int \<Rightarrow> string \<Rightarrow> tool_world \<Rightarrow> int \<times> tool_world" where
  "format_verdict status text w =
     (if text \<noteq> [] then
        (let w = record_failed ''lint-format'' w in
         (1, if tw_collecting w
             then record_tool_failure ([''golangci-lint formatters need to update:''] @ split_output_lines text @ [''run make fmt'']) w
             else t_print (''golangci-lint formatters need to update:'' @ newline @ ends_with_newline text @
                    ''run make fmt'' @ newline) w))
      else if status \<noteq> 0 then
        (let w = record_failed ''lint-format'' w in
         (status, if tw_collecting w then record_tool_failure [''Exit status: '' @ itoa status] w
                  else t_print (''lint-format: FAILED'' @ newline @ ''  Exit status: '' @ itoa status @ newline) w))
      else (0, record_marker \<lparr>gm_name = ''lint-format'', gm_passed = True, gm_findings = [], gm_remediation = []\<rparr> w))"

definition run_lint_format :: "lint_context \<Rightarrow> tool_world \<Rightarrow> int \<times> tool_world" where
  "run_lint_format lc =
     or_status ensure_make_dir (\<lambda>_. or_status ensure_lint_tools (\<lambda>_ w.
       (let out = make_file ''lint-format.out'' in
        case golangci_fmt_command lc w of
          (Inl NoGoFiles, w) \<Rightarrow>
            (0, if tw_collecting w
                then record_marker \<lparr>gm_name = ''lint-format'', gm_passed = True, gm_findings = [], gm_remediation = []\<rparr> w
                else t_print (''lint-format: OK'' @ newline @ ''  No Go source files in this module.'' @ newline) w)
        | (Inl _, w) \<Rightarrow> (1, w)
        | (Inr (binary, args), w) \<Rightarrow>
            or_status (capture_command binary (take 1 args @ [''--diff''] @ drop 1 args) out) (\<lambda>status.
            or_status (read_file_content out) (\<lambda>text. format_verdict status text)) w)))"

section \<open>gocyclo\<close>

definition gocyclo_excludes :: "tool_world \<Rightarrow> string" where
  "gocyclo_excludes w =
     exclude_pattern (tenv_default w ''GOCYCLO_DEFAULT_EXCLUDE_PATHS'' test_file_exclude) (tenv w ''GOCYCLO_EXCLUDE_PATHS'')"

definition is_unexpanded_find :: "string \<Rightarrow> bool" where
  "is_unexpanded_find text \<longleftrightarrow> prefix ''$(find'' (trim_space text)"

definition gocyclo_targets :: "lint_context \<Rightarrow> tool_world \<Rightarrow> (tool_error, string list) result \<times> tool_world" where
  "gocyclo_targets lc w =
     (let text = tenv w ''GOCYCLO_TARGETS'' in
      if text \<noteq> [] \<and> \<not> is_unexpanded_find text then (Inr (split_words text), w)
      else (find_go_files w (lc_tree lc), w))"

text \<open>\<open>strconv.Atoi\<close> with its error ignored: a number out of range is clipped, anything else is zero.\<close>

definition gocyclo_threshold :: "tool_world \<Rightarrow> int" where
  "gocyclo_threshold w = atoi_value (tenv_default w ''GOCYCLO_OVER'' ''30'')"

definition capture_gocyclo_findings :: "lint_context \<Rightarrow> string \<Rightarrow> string \<Rightarrow> tool_world \<Rightarrow> (tool_error, int) result \<times> tool_world" where
  "capture_gocyclo_findings lc raw_path findings_path =
     t_bind (gocyclo_targets lc) (\<lambda>targets.
     t_bind (go_env_path ''GOPATH'') (\<lambda>gopath w.
     (let threshold = gocyclo_threshold w in
      t_bind (capture_command (path_join [gopath, ''bin'', ''gocyclo'']) ([''-over'', itoa threshold] @ targets) raw_path) (\<lambda>status.
      t_bind (read_file_lines raw_path) (\<lambda>raw_lines w.
        (let root_dir = lint_root (snapshot w);
             normalized = map (\<lambda>l. normalize_path l root_dir root_dir) (gocyclo_transform raw_lines threshold)
         in t_bind (write_findings_file findings_path (sorted_unique (filter_excluded normalized (gocyclo_excludes w) w)))
              (\<lambda>_. t_lift (Inr status)) w))) w)))"

definition gocyclo_install :: string where "gocyclo_install = ''github.com/fzipp/gocyclo/cmd/gocyclo@latest''"

definition install_unless_prepared :: "string \<Rightarrow> string \<Rightarrow> tool_world \<Rightarrow> (tool_error, unit) result \<times> tool_world" where
  "install_unless_prepared name spec w = (if tw_prepared w then (Inr (), w) else install_default name spec w)"

definition gocyclo_verdict :: "int \<Rightarrow> string list \<Rightarrow> string \<Rightarrow> bool \<Rightarrow> tool_world \<Rightarrow> int \<times> tool_world" where
  "gocyclo_verdict status current raw passed w =
     (if \<not> passed then (1, w)
      else if status \<noteq> 0 \<and> current = [] then report_tool_failure_of ''gocyclo'' status raw w
      else (0, w))"

definition run_lint_gocyclo :: "lint_context \<Rightarrow> tool_world \<Rightarrow> int \<times> tool_world" where
  "run_lint_gocyclo lc =
     or_status ensure_make_dir (\<lambda>_. or_status (install_unless_prepared ''GOCYCLO_INSTALL'' gocyclo_install) (\<lambda>_.
     (let raw = make_file ''gocyclo.raw.out''; out = make_file ''gocyclo.out'' in
      or_status (capture_gocyclo_findings lc raw out) (\<lambda>status.
      or_status (read_file_lines out) (\<lambda>current.
      or_status (\<lambda>w. t_gate ''gocyclo'' current (tenv_default w ''GOCYCLO_BASELINE'' ''.gocyclo-baseline.txt'')
                   ''Reduce the reported cyclomatic complexity before this gate will pass.''
                   (gocyclo_excludes w) [] False w) (gocyclo_verdict status current raw))))))"

section \<open>deadcode\<close>

definition deadcode_excludes :: "tool_world \<Rightarrow> string" where
  "deadcode_excludes w =
     exclude_pattern (tenv_default w ''DEADCODE_DEFAULT_EXCLUDE_PATHS'' test_file_exclude) (tenv w ''DEADCODE_EXCLUDE_PATHS'')"

definition capture_deadcode_findings :: "lint_context \<Rightarrow> string \<Rightarrow> string \<Rightarrow> tool_world \<Rightarrow> (tool_error, unit) result \<times> tool_world" where
  "capture_deadcode_findings lc raw_path findings_path =
     t_bind (\<lambda>w. expanded_package_targets (lc_decode lc) (lc_tree lc) (split_words (tenv_default w ''DEADCODE_TARGETS'' ''./...'')) w) (\<lambda>targets.
     t_bind (go_env_path ''GOPATH'') (\<lambda>gopath.
     t_bind (capture_command (path_join [gopath, ''bin'', ''deadcode'']) targets raw_path) (\<lambda>_.
     t_bind (\<lambda>w. t_extract raw_path go_location_pattern (deadcode_excludes w) w) (\<lambda>(extracted, _).
       write_findings_file findings_path extracted))))"

definition deadcode_install :: string where "deadcode_install = ''golang.org/x/tools/cmd/deadcode@latest''"

definition run_lint_deadcode :: "lint_context \<Rightarrow> tool_world \<Rightarrow> int \<times> tool_world" where
  "run_lint_deadcode lc =
     or_status ensure_make_dir (\<lambda>_. or_status (install_unless_prepared ''DEADCODE_INSTALL'' deadcode_install) (\<lambda>_.
     (let raw = make_file ''deadcode.raw.out''; out = make_file ''deadcode.out'' in
      or_status (capture_deadcode_findings lc raw out) (\<lambda>_.
      or_status (read_file_lines out) (\<lambda>current.
      or_status (\<lambda>w. t_gate ''deadcode'' current (tenv_default w ''DEADCODE_BASELINE'' ''.deadcode-baseline.txt'')
                   ''The deadcode lint gate found unreachable code. Remove the reported code.''
                   (deadcode_excludes w) [] False w) (\<lambda>_ w. (0, w)))))))"

section \<open>staticcheck-extra\<close>

definition staticcheck_flags :: "tool_world \<Rightarrow> string" where
  "staticcheck_flags w = trim_space (tenv w ''STATICCHECK_EXTRA_FLAGS'' @ '' '' @ tenv w ''STATICCHECK_EXTRA_TEST_FLAGS'')"

definition staticcheck_excludes :: "tool_world \<Rightarrow> string" where
  "staticcheck_excludes w =
     exclude_pattern
       (staticcheck_default_excludes (tenv_default w ''STATICCHECK_EXTRA_DEFAULT_EXCLUDE_PATHS'' test_file_exclude) (staticcheck_flags w))
       (tenv w ''STATICCHECK_EXTRA_EXCLUDE_PATHS'')"

definition staticcheck_output_path :: "tool_world \<Rightarrow> string option" where
  "staticcheck_output_path w =
     (if tenv w ''_GO_MK_ROOT'' \<noteq> [] then Some (path_join [tenv w ''_GO_MK_ROOT'', make_dir, ''staticcheck-extra''])
      else map_option (\<lambda>d. path_join [d, make_dir, ''staticcheck-extra'']) (tw_cwd w))"

text \<open>The analyzer to run, empty when there is none; an error when the working directory is unknown.\<close>

definition staticcheck_selected :: "lint_context \<Rightarrow> tool_world \<Rightarrow> (tool_error, string) result" where
  "staticcheck_selected lc w =
     (if tenv w ''STATICCHECK_EXTRA_BIN'' \<noteq> [] then Inr (tenv w ''STATICCHECK_EXTRA_BIN'')
      else (case staticcheck_output_path w of
              None \<Rightarrow> Inl (FileError ''.'')
            | Some out \<Rightarrow> Inr (if lc_executable lc w out then out else [])))"

definition cascade_name :: "string \<Rightarrow> string" where
  "cascade_name l = takeWhile (\<lambda>c. is_lower c \<or> c = CHR ''_'') l"

text \<open>\<open>^[a-z_]+: (analysis skipped due to errors in package|failed prerequisites: )\<close>\<close>

definition cascade_line :: "string \<Rightarrow> bool" where
  "cascade_line l \<longleftrightarrow>
     cascade_name l \<noteq> [] \<and>
     (prefix '': analysis skipped due to errors in package'' (drop (length (cascade_name l)) l) \<or>
      prefix '': failed prerequisites: '' (drop (length (cascade_name l)) l))"

definition build_failure_lines :: "string list \<Rightarrow> string list" where
  "build_failure_lines ls = filter (\<lambda>l. \<not> (l = [] \<or> cascade_line l)) ls"

definition build_failure_status :: int where "build_failure_status = 1"
definition diagnostics_status :: int where "diagnostics_status = 3"

definition capture_staticcheck :: "lint_context \<Rightarrow> capture_mode \<Rightarrow> string \<Rightarrow> string \<Rightarrow> tool_world \<Rightarrow>
    (tool_error, unit) result \<times> tool_world" where
  "capture_staticcheck lc mode raw_path findings_path w =
     (case staticcheck_selected lc w of
        Inl e \<Rightarrow> (Inl e, w)
      | Inr selected \<Rightarrow>
          if mode = CaptureNotice \<and> (selected = [] \<or> \<not> lc_executable lc w selected) then (Inl AnalyzerUnavailable, w)
          else if selected = []
          then write_findings_file findings_path [] (t_println ''staticcheck-extra: not configured (skipped)'' w)
          else if \<not> lc_executable lc w selected
          then write_findings_file findings_path []
                 (t_println (''staticcheck-extra: binary '' @ selected @ '' not executable; skipping'') w)
          else t_bind (expanded_package_targets (lc_decode lc) (lc_tree lc)
                   (split_words (tenv_default w ''STATICCHECK_EXTRA_TARGETS'' ''./...''))) (\<lambda>targets.
               t_bind (\<lambda>w. capture_command selected (split_words (staticcheck_flags w) @ targets) raw_path w) (\<lambda>status.
               t_bind (read_file_lines raw_path) (\<lambda>raw_lines w.
                 (let root_dir = lint_root (snapshot w); normalized = map (\<lambda>l. normalize_path l root_dir root_dir) raw_lines in
                  if status = build_failure_status then (Inl (AnalyzerBuildFailed (build_failure_lines normalized)), w)
                  else if mode = CaptureNotice \<and> status \<noteq> 0 \<and> status \<noteq> diagnostics_status
                  then (Inl (NoticeFailed (''notice staticcheck-extra capture failed (exit status '' @ itoa status @ ''):'' @ newline @
                          str_join newline normalized)), w)
                  else write_findings_file findings_path
                         (sorted_unique (filter_excluded normalized (staticcheck_excludes w) w)) w)))) w)"

definition report_build_failure :: "string list \<Rightarrow> tool_world \<Rightarrow> int \<times> tool_world" where
  "report_build_failure errors w =
     (let ls = ''staticcheck-extra could not build these packages. Fix the compiler errors:'' # errors in
      (1, record_failed ''staticcheck-extra''
         (if tw_collecting w then record_tool_failure ls w
          else t_print (''staticcheck-extra: FAILED'' @ newline @ write_findings_text (map (\<lambda>l. ''  '' @ l) ls)) w)))"

definition gate_staticcheck :: "string \<Rightarrow> string \<Rightarrow> bool \<Rightarrow> tool_world \<Rightarrow> int \<times> tool_world" where
  "gate_staticcheck out scope suppress =
     or_status (read_file_lines out) (\<lambda>current.
     or_status (\<lambda>w. t_gate ''staticcheck-extra'' current
                  (tenv_default w ''STATICCHECK_EXTRA_BASELINE'' ''.staticcheck-extra-baseline.txt'')
                  fix_findings (staticcheck_excludes w) scope suppress w) (\<lambda>passed w. (if passed then 0 else 1, w)))"

definition gate_captured_staticcheck :: "string \<Rightarrow> (tool_error, unit) result \<times> tool_world \<Rightarrow> int \<times> tool_world" where
  "gate_captured_staticcheck out captured =
     (case captured of
        (Inl (AnalyzerBuildFailed errors), w) \<Rightarrow> report_build_failure errors w
      | (Inl _, w) \<Rightarrow> (1, w)
      | (Inr _, w) \<Rightarrow>
          (let scope = staticcheck_scope_pattern (tenv w ''STATICCHECK_EXTRA_BASELINE_SCOPE_PATTERN'') (staticcheck_flags w)
           in gate_staticcheck out scope (staticcheck_suppress_fixed (staticcheck_flags w) scope) w))"

definition run_staticcheck_extra :: "lint_context \<Rightarrow> tool_world \<Rightarrow> int \<times> tool_world" where
  "run_staticcheck_extra lc =
     or_status ensure_make_dir (\<lambda>_ w.
     (let w = lc_notice lc w; (code, w) = (if tw_prepared w then (0, w) else lc_resolve lc w) in
      if code \<noteq> 0 then (code, w)
      else (let out = make_file ''staticcheck-extra.out'' in
            gate_captured_staticcheck out
              (capture_staticcheck lc CaptureStandard (make_file ''staticcheck-extra.raw.out'') out w))))"

end
