(* ===== verification/LintChain.thy ===== *)
theory LintChain
  imports LintGates
begin

text \<open>
  The runs of checks: the report of \<open>internal/report\<close>, the orchestration of \<open>checks.go\<close> and \<open>lint_chain.go\<close>, and
  the vet and govulncheck steps of \<open>buildcheck.go\<close>. The output is the one of a run without a terminal; the
  progress display of a terminal is not modelled.
\<close>

section \<open>The report\<close>

datatype step_status = StepOk | StepFailed | StepAdvisory

record step_result =
  sr_name :: string
  sr_status :: step_status
  sr_note :: string
  sr_findings :: "string list"
  sr_remediation :: string

definition plain_step :: "string \<Rightarrow> step_status \<Rightarrow> string list \<Rightarrow> step_result" where
  "plain_step name status found =
     \<lparr>sr_name = name, sr_status = status, sr_note = [], sr_findings = found, sr_remediation = []\<rparr>"

definition shows_findings :: "step_result \<Rightarrow> bool" where
  "shows_findings s \<longleftrightarrow> sr_status s = StepFailed \<or> sr_status s = StepAdvisory"

fun name_width :: "string list \<Rightarrow> nat" where
  "name_width [] = 0"
| "name_width (n # ns) = max (length n) (name_width ns)"

definition row_text :: "nat \<Rightarrow> string \<Rightarrow> string \<Rightarrow> string" where
  "row_text width name cell = ''  '' @ pad_right width name @ ''  '' @ cell"

definition status_label :: "step_result \<Rightarrow> string" where
  "status_label s =
     (case sr_status s of
        StepAdvisory \<Rightarrow> if sr_note s = [] then ''ADVISORY'' else ''ADVISORY  ('' @ sr_note s @ '')''
      | StepOk \<Rightarrow> ''ok''
      | StepFailed \<Rightarrow> if sr_note s = [] then ''FAILED'' else ''FAILED  ('' @ sr_note s @ '')'')"

definition step_row :: "nat \<Rightarrow> step_result \<Rightarrow> string" where
  "step_row width s = row_text width (sr_name s) (status_label s)"

definition findings_block :: "step_result \<Rightarrow> string" where
  "findings_block s =
     (if \<not> shows_findings s \<or> sr_findings s = [] then []
      else newline @ ''  '' @ sr_name s @ newline @ concat (map (\<lambda>l. ''  '' @ l @ newline) (sr_findings s)) @
        (if sr_remediation s = [] then [] else ''    Fix: '' @ sr_remediation s @ newline))"

definition plural :: "nat \<Rightarrow> string" where "plural n = (if n = 1 then [] else ''s'')"

definition footer :: "string list \<Rightarrow> nat \<Rightarrow> string" where
  "footer failed advisories =
     (if failed = [] then
        (if 0 < advisories then newline @ ''  All blocking checks passed.'' @ newline
         else newline @ ''  All checks passed.'' @ newline)
      else newline @ ''  '' @ itoa_nat (length failed) @ '' check'' @ plural (length failed) @ '' failed: '' @
        str_join '', '' failed @ newline)"

definition failed_step_names :: "step_result list \<Rightarrow> string list" where
  "failed_step_names rs = map sr_name (filter (\<lambda>r. sr_status r = StepFailed) rs)"

definition advisory_step_count :: "step_result list \<Rightarrow> nat" where
  "advisory_step_count rs = length (filter (\<lambda>r. sr_status r = StepAdvisory) rs)"

definition render_report :: "string \<Rightarrow> step_result list \<Rightarrow> string" where
  "render_report title steps =
     (if title = [] then [] else title @ newline @ newline) @
     concat (map (\<lambda>s. step_row (name_width (map sr_name steps)) s @ newline) steps) @
     concat (map findings_block steps) @ footer (failed_step_names steps) (advisory_step_count steps)"

section \<open>Checks\<close>

type_synonym check = "string \<times> (tool_world \<Rightarrow> (step_result \<times> int) \<times> tool_world)"

definition format_findings :: "string list \<Rightarrow> string list" where
  "format_findings raw =
     concat (map (\<lambda>f. split_on (CHR 0x0A) (trim_suffix (print_finding f [] []) newline)) raw)"

definition finding_plural :: "nat \<Rightarrow> string" where "finding_plural n = (if n = 1 then [] else ''s'')"

definition gate_step :: "string \<Rightarrow> gate_outcome \<Rightarrow> int \<Rightarrow> step_result" where
  "gate_step gate outcome status =
     (case outcome of
        Verdict m \<Rightarrow>
          if gm_passed m then plain_step gate StepOk []
          else \<lparr>sr_name = gate, sr_status = (if gate = ''lint-deadcode'' then StepAdvisory else StepFailed),
                sr_note = itoa_nat (length (gm_findings m)) @ '' new finding'' @ finding_plural (length (gm_findings m)),
                sr_findings = format_findings (gm_findings m), sr_remediation = gm_remediation m\<rparr>
      | NoOutcome \<Rightarrow> if status = 0 then plain_step gate StepOk [] else plain_step gate StepFailed []
      | ToolFailure rest \<Rightarrow>
          if status = 0 then plain_step gate StepOk []
          else plain_step gate StepFailed (filter_make_error_lines rest))"

definition run_one_gate :: "string \<Rightarrow> (tool_world \<Rightarrow> int \<times> tool_world) \<Rightarrow> tool_world \<Rightarrow>
    (step_result \<times> int) \<times> tool_world" where
  "run_one_gate gate runner w =
     (let (status, w) = runner (w\<lparr>tw_outcome := NoOutcome\<rparr>) in ((gate_step gate (tw_outcome w) status, status), w))"

definition gate_runners :: "lint_context \<Rightarrow> (string \<times> (tool_world \<Rightarrow> int \<times> tool_world)) list" where
  "gate_runners lc =
     [(''lint-golangci'', run_lint_golangci lc), (''lint-format'', run_lint_format lc), (''lint-gocyclo'', run_lint_gocyclo lc),
      (''lint-deadcode'', run_lint_deadcode lc), (''staticcheck-extra'', run_staticcheck_extra lc)]"

definition unknown_gate_step :: "string \<Rightarrow> step_result" where
  "unknown_gate_step gate =
     plain_step gate StepFailed [''unknown lint gate; not registered for in-process execution'']"

definition platform_check :: "string \<Rightarrow> (tool_world \<Rightarrow> (step_result \<times> int) \<times> tool_world) \<Rightarrow> platform_target \<Rightarrow> check" where
  "platform_check name run target =
     (let shown = name @ '' ('' @ platform_label target @ '')'' in
      (shown, \<lambda>w. let ((r, code), w) = run (w\<lparr>tw_platform := target\<rparr>)
                  in ((r\<lparr>sr_name := shown\<rparr>, code), w\<lparr>tw_platform := no_platform\<rparr>)))"

definition checks_of_gate :: "lint_context \<Rightarrow> platform_target list \<Rightarrow> string \<Rightarrow> check list" where
  "checks_of_gate lc targets gate =
     (case map_of (gate_runners lc) gate of
        None \<Rightarrow> [(gate, \<lambda>w. ((unknown_gate_step gate, 1), w))]
      | Some runner \<Rightarrow>
          if targets = [] then [(gate, run_one_gate gate runner)]
          else map (platform_check gate (run_one_gate gate runner)) targets)"

definition default_lint_gates :: string where
  "default_lint_gates = ''lint-golangci lint-format lint-gocyclo lint-deadcode staticcheck-extra''"

definition gate_checks :: "lint_context \<Rightarrow> tool_world \<Rightarrow> check list" where
  "gate_checks lc w =
     concat (map (checks_of_gate lc (platform_matrix w)) (split_words (tenv_default w ''LINT_GATES'' default_lint_gates)))"

fun execute_checks :: "nat \<Rightarrow> check list \<Rightarrow> tool_world \<Rightarrow> (int \<times> step_result list) \<times> tool_world" where
  "execute_checks width [] w = ((0, []), w)"
| "execute_checks width ((name, run) # cs) w =
     (let ((r, code), w) = run w;
          ((rest, rs), w) = execute_checks width cs (t_println (step_row width r) w)
      in ((if rest \<noteq> 0 then rest else code, r # rs), w))"

definition run_checks :: "string \<Rightarrow> check list \<Rightarrow> tool_world \<Rightarrow> int \<times> tool_world" where
  "run_checks title cs w =
     (let w = t_print (title @ newline @ newline) (w\<lparr>tw_collecting := True\<rparr>);
          ((status, rs), w) = execute_checks (name_width (map fst cs)) cs w;
          w = t_print (concat (map findings_block rs) @ footer (failed_step_names rs) (advisory_step_count rs)) w
      in (status, w\<lparr>tw_collecting := False\<rparr>))"

definition clear_failed_gates :: "tool_world \<Rightarrow> tool_world" where
  "clear_failed_gates w = snd (t_set RemoveCall failed_gates_path None w)"

definition prepare_checks :: "lint_context \<Rightarrow> tool_world \<Rightarrow> (tool_error, unit) result \<times> tool_world" where
  "prepare_checks lc =
     t_bind ensure_make_dir (\<lambda>_ w.
     t_bind run_lint_tools (\<lambda>_.
     t_bind (install_default ''GOCYCLO_INSTALL'' gocyclo_install) (\<lambda>_.
     t_bind (install_default ''DEADCODE_INSTALL'' deadcode_install) (\<lambda>_ w.
       (case lc_resolve lc w of
          (code, w) \<Rightarrow> if code \<noteq> 0 then (Inl AnalyzerUnavailable, w) else (Inr (), w\<lparr>tw_prepared := True\<rparr>)))))
       (clear_failed_gates w))"

section \<open>The lint chain\<close>

datatype log_mode = ModeSummary | ModeDebug | ModeQuiet

definition parse_log_mode :: "string \<Rightarrow> log_mode" where
  "parse_log_mode v =
     (if v = ''debug'' \<or> v = ''verbose'' then ModeDebug
      else if v = ''quiet'' \<or> v = ''off'' \<or> v = ''silent'' then ModeQuiet else ModeSummary)"

fun run_raw_gates :: "lint_context \<Rightarrow> string list \<Rightarrow> int \<Rightarrow> tool_world \<Rightarrow> int \<times> tool_world" where
  "run_raw_gates lc [] status w = (status, w)"
| "run_raw_gates lc (g # gs) status w =
     (let w = t_println (''lint: running '' @ g) w in
      case map_of (gate_runners lc) g of
        None \<Rightarrow> run_raw_gates lc gs 1 (t_println (''lint: unknown gate '' @ g) w)
      | Some runner \<Rightarrow>
          (let (code, w) = run_across_platforms runner w
           in run_raw_gates lc gs (if code \<noteq> 0 then code else status) w))"

definition print_failed_summary :: "tool_world \<Rightarrow> tool_world" where
  "print_failed_summary w =
     (case read_file_lines failed_gates_path w of
        (r, w) \<Rightarrow>
          t_print (newline @ ''lint: FAILED'' @ newline @
            (case r of
               Inr ls \<Rightarrow> if ls \<noteq> [] then ''  Failed gates: '' @ str_join '', '' (dedupe_failed_gates ls) @ newline
                         else ''  Failed gates: see failed target output above'' @ newline
             | Inl _ \<Rightarrow> ''  Failed gates: see failed target output above'' @ newline)) w)"

definition run_lint_chain_raw :: "lint_context \<Rightarrow> tool_world \<Rightarrow> int \<times> tool_world" where
  "run_lint_chain_raw lc =
     or_status ensure_make_dir (\<lambda>_ w.
     or_status run_lint_tools (\<lambda>_ w.
       (let (status, w) = run_raw_gates lc (split_words (tenv_default w ''LINT_GATES'' default_lint_gates)) 0 w
        in (status, if status = 0 then w else print_failed_summary w)))
       (clear_failed_gates w))"

definition run_lint_chain :: "lint_context \<Rightarrow> tool_world \<Rightarrow> int \<times> tool_world" where
  "run_lint_chain lc w =
     (let w = lc_notice lc w in
      if parse_log_mode (tenv w ''GO_MK_LOG'') = ModeDebug then run_lint_chain_raw lc w
      else or_status (prepare_checks lc) (\<lambda>_ w. run_checks ''lint'' (gate_checks lc w) w) w)"

section \<open>vet and govulncheck\<close>

definition tool_step :: "string \<Rightarrow> string \<Rightarrow> string list \<Rightarrow> tool_world \<Rightarrow> (step_result \<times> int) \<times> tool_world" where
  "tool_step name binary args w =
     (case t_exec (lint_env w) (binary # args) w of
        (NotStarted, w) \<Rightarrow> ((plain_step name StepFailed [''exec: '' @ binary], 1), w)
      | (Exited status out ws, w) \<Rightarrow>
          ((if status = 0 then plain_step name StepOk [] else plain_step name StepFailed (split_output_lines out), status), w))"

definition run_vet_step :: "tool_world \<Rightarrow> (step_result \<times> int) \<times> tool_world" where
  "run_vet_step w = tool_step ''vet'' ''go'' (''vet'' # split_words (tenv_default w ''GO_VET_TARGETS'' ''./...'')) w"

definition vet_checks :: "tool_world \<Rightarrow> check list" where
  "vet_checks w =
     (if platform_matrix w = [] then [(''vet'', run_vet_step)]
      else map (platform_check ''vet'' run_vet_step) (platform_matrix w))"

definition build_check_checks :: "lint_context \<Rightarrow> check \<Rightarrow> check list \<Rightarrow> tool_world \<Rightarrow> check list" where
  "build_check_checks lc govulncheck others w = vet_checks w @ gate_checks lc w @ [govulncheck] @ others"

section \<open>The exit status is the verdict of the report\<close>

text \<open>
  A step that neither collects nor drops an outcome, and a runner whose status and outcome agree. A gate
  starts without an outcome, while the run is collecting.
\<close>

definition quiet_world :: "tool_world \<Rightarrow> tool_world \<Rightarrow> bool" where
  "quiet_world w w' \<longleftrightarrow> tw_collecting w' = tw_collecting w \<and> tw_outcome w' = tw_outcome w"

definition quiet :: "(tool_world \<Rightarrow> 'a \<times> tool_world) \<Rightarrow> bool" where
  "quiet m \<longleftrightarrow> (\<forall>w. quiet_world w (snd (m w)))"

definition agrees :: "string \<Rightarrow> int \<Rightarrow> gate_outcome \<Rightarrow> bool" where
  "agrees gate code outcome \<longleftrightarrow> (code \<noteq> 0 \<longleftrightarrow> sr_status (gate_step gate outcome code) = StepFailed)"

definition fine :: "string \<Rightarrow> int \<times> tool_world \<Rightarrow> bool" where
  "fine gate r \<longleftrightarrow> tw_collecting (snd r) \<and> agrees gate (fst r) (tw_outcome (snd r))"

definition judged :: "string \<Rightarrow> (tool_world \<Rightarrow> int \<times> tool_world) \<Rightarrow> bool" where
  "judged gate runner \<longleftrightarrow> (\<forall>w. tw_collecting w \<and> tw_outcome w = NoOutcome \<longrightarrow> fine gate (runner w))"

lemma quiet_refl [simp]: "quiet_world w w"
  by (simp add: quiet_world_def)

lemma quiet_trans: "quiet_world a b \<Longrightarrow> quiet_world b c \<Longrightarrow> quiet_world a c"
  by (simp add: quiet_world_def)

lemma quietI: "(\<And>w r w'. m w = (r, w') \<Longrightarrow> quiet_world w w') \<Longrightarrow> quiet m"
  by (metis prod.collapse quiet_def)

lemma quietD: "quiet m \<Longrightarrow> m w = (r, w') \<Longrightarrow> quiet_world w w'"
  by (metis quiet_def snd_conv)

lemma quiet_updates [simp]:
  "quiet_world w (t_tick w)" "quiet_world w (t_print s w)" "quiet_world w (t_println s w)"
  by (simp_all add: quiet_world_def t_tick_def t_print_def t_println_def)

lemma quiet_bind: "quiet m \<Longrightarrow> (\<And>a. quiet (f a)) \<Longrightarrow> quiet (t_bind m f)"
  by (rule quietI) (auto simp: t_bind_def split: prod.splits sum.splits dest!: quietD intro: quiet_trans)

lemma quiet_lift: "quiet (t_lift r)"
  by (simp add: quiet_def t_lift_def)

lemma quiet_at: "(\<And>w. quiet (f w)) \<Longrightarrow> quiet (\<lambda>w. f w w)"
  by (simp add: quiet_def)

lemma quiet_t_set: "quiet (t_set c p v)"
  by (rule quietI) (auto simp: t_set_def quiet_world_def t_tick_def split: if_splits)

lemma quiet_t_exec: "quiet (t_exec env argv)"
  by (rule quietI) (auto simp: t_exec_def quiet_world_def t_tick_def Let_def split: cmd_outcome.splits)

lemma quiet_t_output: "quiet (t_output argv)"
  by (rule quietI) (auto simp: t_output_def split: prod.splits cmd_outcome.splits dest!: quietD [OF quiet_t_exec])

lemma quiet_t_read: "quiet (t_read p)"
  by (rule quietI) (auto simp: t_read_def)

lemma quiet_readers: "quiet (read_file_lines p)" "quiet (read_file_content p)"
  by (rule quietI; auto simp: read_file_lines_def read_file_content_def split: prod.splits file_read.splits
      dest!: quietD [OF quiet_t_read])+

lemma quiet_write: "quiet (write_findings_file p ls)"
  by (rule quietI) (auto simp: write_findings_file_def Let_def split: prod.splits dest!: quietD [OF quiet_t_set])

lemma quiet_make_dir: "quiet ensure_make_dir"
  by (rule quietI) (auto simp: ensure_make_dir_def t_try_def Let_def)

lemma quiet_capture: "quiet (capture_command name args p)"
proof (rule quietI)
  fix w r w'
  assume a: "capture_command name args p w = (r, w')"
  obtain made w1 where s1: "t_set WriteCall p (Some []) w = (made, w1)" by fastforce
  obtain o' w2 where s2: "t_exec (lint_env w1) (name # args) w1 = (o', w2)" by fastforce
  have "quiet_world w w1" "quiet_world w1 w2" using quietD [OF quiet_t_set s1] quietD [OF quiet_t_exec s2] .
  then show "quiet_world w w'" using a s1 s2
    by (cases made; cases o') (auto simp: capture_command_def quiet_world_def)
qed

lemma quiet_run_command: "quiet (run_command env argv)"
  by (rule quietI)
    (auto simp: run_command_def split: prod.splits cmd_outcome.splits dest!: quietD [OF quiet_t_exec] intro: quiet_trans)

lemma quiet_go_env: "quiet (go_env_path name)"
  by (rule quietI) (auto simp: go_env_path_def split: prod.splits sum.splits option.splits dest!: quietD [OF quiet_t_output])

lemma quiet_install: "quiet (install_go_tool spec)"
  by (rule quietI) (auto simp: install_go_tool_def split: if_splits dest: quietD [OF quiet_run_command])

lemma quiet_install_default: "quiet (install_default name spec)" "quiet (install_unless_prepared name spec)"
  by (rule quietI; auto simp: install_default_def install_unless_prepared_def split: if_splits
      dest: quietD [OF quiet_install])+

lemma quiet_lint_tools: "quiet run_lint_tools" "quiet ensure_lint_tools"
proof -
  show q: "quiet run_lint_tools"
    unfolding run_lint_tools_def by (intro quiet_bind quiet_install_default)
  show "quiet ensure_lint_tools"
    by (rule quietI) (auto simp: ensure_lint_tools_def split: if_splits dest: quietD [OF q])
qed

lemma quiet_extract: "quiet (t_extract p pattern e)"
  by (rule quietI) (auto simp: t_extract_def split: sum.splits)

lemma quiet_targets: "quiet (expanded_package_targets d t ts)"
proof -
  have l: "quiet (list_filtered_packages d roots)" for roots
    by (rule quietI)
      (auto simp: list_filtered_packages_def Let_def split: prod.splits sum.splits option.splits
        dest!: quietD [OF quiet_t_output])
  show ?thesis
    by (rule quietI)
      (auto simp: expanded_package_targets_def split: option.splits if_splits prod.splits sum.splits dest!: quietD [OF l])
qed

lemma record_failed_world: "tw_collecting (record_failed g w) = tw_collecting w" "tw_outcome (record_failed g w) = tw_outcome w"
  by (simp_all add: record_failed_def t_try_def t_append_def t_set_def t_tick_def Let_def)

text \<open>The evaluated gate leaves its verdict.\<close>

lemma run_gate_and_print_log:
  assumes "run_gate_and_print lw gate current p rem ex sc su log = (r, log')" "gl_collecting log"
  shows "gl_output log' = gl_output log"
    "(\<exists>e. r = Inl e) \<and> log' = log \<or> (\<exists>b m. r = Inr b \<and> gl_markers log' = gl_markers log @ [m] \<and> gm_passed m = b)"
proof -
  obtain b where b: "read_baseline_findings lw p gate ex sc = b" by simp
  obtain c where c: "compile_patterns (lw_compile lw) ex sc = c" by simp
  have "gl_output log' = gl_output log \<and>
    ((\<exists>e. r = Inl e) \<and> log' = log \<or> (\<exists>b m. r = Inr b \<and> gl_markers log' = gl_markers log @ [m] \<and> gm_passed m = b))"
  proof (cases b)
    case (Inl e)
    then show ?thesis using assms(1) b by (auto simp: run_gate_and_print_def)
  next
    case (Inr base)
    show ?thesis
    proof (cases c)
      case (Inl e)
      then show ?thesis using assms(1) b c Inr by (auto simp: run_gate_and_print_def)
    next
      case (Inr pr)
      obtain x y where pr: "pr = (x, y)" by fastforce
      have run: "r = Inr (gr_passed (evaluate_gate gate current base x y rem))"
        "log' = (let e = (evaluate_gate gate current base x y rem)\<lparr>gr_suppress_fixed := su\<rparr>; l = report_gate e log
                 in if \<not> gr_passed e then record_failed_gate gate l else l)"
        using assms(1) b c \<open>b = Inr base\<close> Inr pr by (simp_all add: run_gate_and_print_def Let_def)
      then show ?thesis using assms(2) by (simp add: report_gate_def record_failed_gate_def Let_def)
    qed
  qed
  then show "gl_output log' = gl_output log"
    "(\<exists>e. r = Inl e) \<and> log' = log \<or> (\<exists>b m. r = Inr b \<and> gl_markers log' = gl_markers log @ [m] \<and> gm_passed m = b)"
    by simp_all
qed

lemma t_gate_verdict:
  assumes "t_gate gate current p rem ex sc su w = (r, w')" "tw_collecting w"
  shows "tw_collecting w'" "(\<exists>e. r = Inl e) \<and> tw_outcome w' = tw_outcome w \<or>
    (\<exists>m. r = Inr (gm_passed m) \<and> tw_outcome w' = Verdict m)"
proof -
  obtain x log where run: "run_gate_and_print (snapshot w) gate current p rem ex sc su (fresh_log w) = (x, log)"
    by fastforce
  have col: "gl_collecting (fresh_log w)" "gl_markers (fresh_log w) = []" "gl_failed (fresh_log w) = []"
    using assms(2) by (simp_all add: fresh_log_def)
  note out = run_gate_and_print_log [OF run col(1)]
  have w': "w' = commit_log log (t_tick w)" "r = map_sum Filtering id x"
    using assms(1) run by (simp_all add: t_gate_def)
  have failed: "tw_collecting (foldl (\<lambda>w g. record_failed g w) v gs) = tw_collecting v \<and>
      tw_outcome (foldl (\<lambda>w g. record_failed g w) v gs) = tw_outcome v" for gs v
    by (induction gs arbitrary: v) (simp_all add: record_failed_world)
  show "tw_collecting w'" "(\<exists>e. r = Inl e) \<and> tw_outcome w' = tw_outcome w \<or>
    (\<exists>m. r = Inr (gm_passed m) \<and> tw_outcome w' = Verdict m)"
    using out(2) w' failed assms(2) col
    by (auto simp: commit_log_def record_marker_def t_print_def t_tick_def)
qed

lemma agrees_error: "agrees gate 1 NoOutcome"
  by (simp add: agrees_def gate_step_def plain_step_def)

lemma judged_or_status:
  assumes "quiet m" "\<And>a. judged gate (f a)"
  shows "judged gate (or_status m f)"
  unfolding judged_def
proof (intro allI impI)
  fix w :: tool_world assume w: "tw_collecting w \<and> tw_outcome w = NoOutcome"
  obtain r w1 where m: "m w = (r, w1)" by fastforce
  have w1: "tw_collecting w1 \<and> tw_outcome w1 = NoOutcome"
    using quietD [OF assms(1) m] w by (simp add: quiet_world_def)
  show "fine gate (or_status m f w)"
    using assms(2) w1 m by (cases r) (auto simp: or_status_def agrees_error judged_def fine_def)
qed

lemma judged_at: "(\<And>w. judged gate (f w)) \<Longrightarrow> judged gate (\<lambda>w. f w w)"
  by (simp add: judged_def)

lemma judged_after: "judged gate f \<Longrightarrow> (\<And>w. quiet_world w (g w)) \<Longrightarrow> judged gate (\<lambda>w. f (g w))"
  by (simp add: judged_def quiet_world_def)

text \<open>A gate decides on its verdict, and a tool that failed without a finding replaces it.\<close>

lemma judged_gate:
  assumes "\<And>m w. tw_collecting w \<Longrightarrow> tw_outcome w = Verdict m \<Longrightarrow> fine gate (f (gm_passed m) w)"
  shows "judged gate (or_status (\<lambda>w. t_gate g (c w) (p w) (r w) (e w) (s w) (u w) w) f)"
  unfolding judged_def
proof (intro allI impI)
  fix w :: tool_world assume w: "tw_collecting w \<and> tw_outcome w = NoOutcome"
  obtain x w1 where m: "t_gate g (c w) (p w) (r w) (e w) (s w) (u w) w = (x, w1)" by fastforce
  note v = t_gate_verdict [OF m conjunct1 [OF w]]
  show "fine gate (or_status (\<lambda>w. t_gate g (c w) (p w) (r w) (e w) (s w) (u w) w) f w)"
    using v w m assms by (cases x) (auto simp: or_status_def agrees_error fine_def)
qed

lemma agrees_verdict:
  "gate \<noteq> ''lint-deadcode'' \<Longrightarrow> agrees gate (if gm_passed m then 0 else 1) (Verdict m)"
  "agrees ''lint-deadcode'' 0 (Verdict m)"
  by (auto simp: agrees_def gate_step_def plain_step_def)

lemma fine_failure:
  assumes "tw_collecting w" "status \<noteq> 0"
  shows "fine gate (report_tool_failure_of g status raw w)"
proof -
  obtain r w1 where s: "read_file_lines raw w = (r, w1)" by fastforce
  have "tw_collecting w1" using quietD [OF quiet_readers(1) s] assms(1) by (simp add: quiet_world_def)
  then show ?thesis
    using assms s
    by (simp add: fine_def report_tool_failure_of_def record_failed_world record_tool_failure_def agrees_def
        gate_step_def plain_step_def)
qed

lemma fine_verdict:
  assumes "tw_collecting w" "tw_outcome w = Verdict m"
  shows "gate \<noteq> ''lint-deadcode'' \<Longrightarrow> fine gate (if gm_passed m then 0 else 1, w)" "fine ''lint-deadcode'' (0, w)"
  using assms agrees_verdict by (simp_all add: fine_def)

lemma unusable_status: "\<not> golangci_cache_usable True status n d \<Longrightarrow> status \<noteq> 0"
  by (simp add: golangci_cache_usable_def tool_failed_without_findings_def)

lemma report_golangci_run_world:
  "tw_collecting (report_golangci_run w) = tw_collecting w" "tw_outcome (report_golangci_run w) = tw_outcome w"
  by (simp_all add: report_golangci_run_def t_append_def t_set_def t_tick_def)

lemma fine_golangci:
  assumes "tw_collecting w" "tw_outcome w = Verdict m"
  shows "fine ''lint-golangci'' (golangci_verdict status n d raw (gm_passed m) w)"
proof -
  have f: "fine ''lint-golangci'' (if gm_passed m then 0 else 1, report_golangci_run w)"
    using assms by (intro fine_verdict) (simp_all add: report_golangci_run_world)
  show ?thesis
  proof (cases "gm_passed m")
    case True
    then show ?thesis
      using f fine_failure [OF assms(1) unusable_status] by (simp add: golangci_verdict_def Let_def)
  next
    case False
    then show ?thesis using f by (simp add: golangci_verdict_def golangci_cache_usable_def Let_def)
  qed
qed

lemma fine_gocyclo:
  assumes "tw_collecting w" "tw_outcome w = Verdict m"
  shows "fine ''lint-gocyclo'' (gocyclo_verdict status current raw (gm_passed m) w)"
  using fine_verdict(1) [OF assms, of "''lint-gocyclo''"] fine_failure [OF assms(1)]
  by (auto simp: gocyclo_verdict_def)

lemma quiet_use: "(\<And>v. quiet (f v)) \<Longrightarrow> f w w = (r, w') \<Longrightarrow> quiet_world w w'"
  by (rule quietD)

lemma quiet_golangci_command: "quiet (golangci_command lc mode)"
proof (rule quietI)
  fix w r w'
  have q: "quiet (t_bind (if mode = ''run'' then expanded_package_targets (lc_decode lc) (lc_tree lc) raw else t_lift (Inr raw))
      (\<lambda>targets. t_lift (Inr (b, mode # fs @ targets))))" for raw b fs
    by (rule quiet_bind) (simp_all add: quiet_targets quiet_lift)
  assume "golangci_command lc mode w = (r, w')"
  then show "quiet_world w w'" unfolding golangci_command_def Let_def by (rule quietD [OF q])
qed

lemma quiet_extract_at: "quiet (\<lambda>w. t_extract raw p (f w) w)"
  by (rule quiet_at) (rule quiet_extract)

lemma quiet_golangci_findings: "quiet (capture_golangci_findings lc raw out)"
  unfolding capture_golangci_findings_def
  apply (rule quiet_bind [OF quiet_golangci_command], clarsimp split: prod.splits)
  apply (rule quiet_bind [OF quiet_capture], rule quiet_bind [OF quiet_extract_at], clarsimp split: prod.splits)
  by (rule quiet_bind [OF quiet_write quiet_lift])

lemma quiet_gocyclo_targets: "quiet (gocyclo_targets lc)"
  by (rule quietI) (auto simp: gocyclo_targets_def Let_def split: if_splits)

lemma quiet_gocyclo_findings: "quiet (capture_gocyclo_findings lc raw out)"
  unfolding capture_gocyclo_findings_def Let_def
  by (rule quiet_bind [OF quiet_gocyclo_targets], rule quiet_bind [OF quiet_go_env], rule quiet_at,
      rule quiet_bind [OF quiet_capture], rule quiet_bind [OF quiet_readers(1)], rule quiet_at,
      rule quiet_bind [OF quiet_write quiet_lift])

lemma quiet_deadcode_findings: "quiet (capture_deadcode_findings lc raw out)"
  unfolding capture_deadcode_findings_def
  apply (rule quiet_bind, rule quiet_at, rule quiet_targets)
  apply (rule quiet_bind [OF quiet_go_env], rule quiet_bind [OF quiet_capture], rule quiet_bind [OF quiet_extract_at])
  by (clarsimp split: prod.splits) (rule quiet_write)

lemma judged_golangci: "judged ''lint-golangci'' (run_lint_golangci lc)"
  unfolding run_lint_golangci_def Let_def
  by (rule judged_or_status [OF quiet_make_dir], rule judged_or_status [OF quiet_lint_tools(2)],
      rule judged_or_status [OF quiet_golangci_findings], clarsimp split: prod.splits, rule judged_after,
      rule judged_or_status [OF quiet_readers(1)], rule judged_gate, rule fine_golangci, simp_all)

lemma judged_gocyclo: "judged ''lint-gocyclo'' (run_lint_gocyclo lc)"
  unfolding run_lint_gocyclo_def Let_def
  by (rule judged_or_status [OF quiet_make_dir], rule judged_or_status [OF quiet_install_default(2)],
      rule judged_or_status [OF quiet_gocyclo_findings], rule judged_or_status [OF quiet_readers(1)],
      rule judged_gate, rule fine_gocyclo, simp_all)

lemma judged_deadcode: "judged ''lint-deadcode'' (run_lint_deadcode lc)"
  unfolding run_lint_deadcode_def Let_def
  by (rule judged_or_status [OF quiet_make_dir], rule judged_or_status [OF quiet_install_default(2)],
      rule judged_or_status [OF quiet_deadcode_findings], rule judged_or_status [OF quiet_readers(1)],
      rule judged_gate, rule fine_verdict(2), simp_all)

text \<open>The formatter and staticcheck gates.\<close>

lemma fine_failed:
  assumes "tw_collecting w" "status \<noteq> 0"
  shows "fine gate (status, record_tool_failure ls (record_failed g w))"
    "fine gate (status, record_failed g (record_tool_failure ls w))"
  using assms
  by (simp_all add: fine_def record_failed_world record_tool_failure_def agrees_def gate_step_def plain_step_def)

lemma fine_passed: "tw_collecting w \<Longrightarrow> gm_passed m \<Longrightarrow> fine gate (0, record_marker m w)"
  by (simp add: fine_def record_marker_def agrees_def gate_step_def plain_step_def)

lemma fine_format: "tw_collecting w \<Longrightarrow> fine gate (format_verdict status text w)"
  by (simp add: format_verdict_def Let_def record_failed_world fine_failed fine_passed)

lemma fine_build_failure: "tw_collecting w \<Longrightarrow> fine gate (report_build_failure errors w)"
  by (simp add: report_build_failure_def Let_def fine_failed)

lemma judged_format_verdict: "judged gate (format_verdict status text)"
  by (simp add: judged_def fine_format)

text \<open>The parameters of the gates: they report nothing themselves.\<close>

definition quiet_context :: "lint_context \<Rightarrow> bool" where
  "quiet_context lc \<longleftrightarrow>
     quiet (lc_module_files lc) \<and> quiet (lc_resolve lc) \<and> (\<forall>w. quiet_world w (lc_notice lc w))"

lemma quiet_fmt_command:
  assumes "quiet_context lc" shows "quiet (golangci_fmt_command lc)"
proof (rule quietI)
  fix w r w'
  have q: "quiet (t_bind (if o' \<noteq> [] then t_lift (Inr (split_words o')) else lc_module_files lc)
      (\<lambda>files. t_lift (if files = [] then Inl NoGoFiles else Inr (b, ''fmt'' # fs @ files))))" for o' b fs
    using assms by (intro quiet_bind) (simp_all add: quiet_lift quiet_context_def)
  assume "golangci_fmt_command lc w = (r, w')"
  then show "quiet_world w w'" unfolding golangci_fmt_command_def Let_def by (rule quietD [OF q])
qed

lemma judged_format:
  assumes "quiet_context lc" shows "judged ''lint-format'' (run_lint_format lc)"
proof -
  have inner: "judged ''lint-format'' (\<lambda>w. case golangci_fmt_command lc w of
       (Inl NoGoFiles, w) \<Rightarrow>
         (0, if tw_collecting w
             then record_marker \<lparr>gm_name = ''lint-format'', gm_passed = True, gm_findings = [], gm_remediation = []\<rparr> w
             else t_print (''lint-format: OK'' @ newline @ ''  No Go source files in this module.'' @ newline) w)
     | (Inl _, w) \<Rightarrow> (1, w)
     | (Inr (binary, args), w) \<Rightarrow>
         or_status (capture_command binary (take 1 args @ [''--diff''] @ drop 1 args) out) (\<lambda>status.
         or_status (read_file_content out) (\<lambda>text. format_verdict status text)) w)" for out
    unfolding judged_def
  proof (intro allI impI)
    fix w :: tool_world assume w: "tw_collecting w \<and> tw_outcome w = NoOutcome"
    obtain r w1 where c: "golangci_fmt_command lc w = (r, w1)" by fastforce
    have w1: "tw_collecting w1 \<and> tw_outcome w1 = NoOutcome"
      using quietD [OF quiet_fmt_command [OF assms] c] w by (simp add: quiet_world_def)
    have run: "judged ''lint-format'' (or_status (capture_command b args out)
        (\<lambda>status. or_status (read_file_content out) (format_verdict status)))" for b args
      by (rule judged_or_status [OF quiet_capture], rule judged_or_status [OF quiet_readers(2)],
          rule judged_format_verdict)
    show "fine ''lint-format'' (case golangci_fmt_command lc w of
       (Inl NoGoFiles, w) \<Rightarrow>
         (0, if tw_collecting w
             then record_marker \<lparr>gm_name = ''lint-format'', gm_passed = True, gm_findings = [], gm_remediation = []\<rparr> w
             else t_print (''lint-format: OK'' @ newline @ ''  No Go source files in this module.'' @ newline) w)
     | (Inl _, w) \<Rightarrow> (1, w)
     | (Inr (binary, args), w) \<Rightarrow>
         or_status (capture_command binary (take 1 args @ [''--diff''] @ drop 1 args) out) (\<lambda>status.
         or_status (read_file_content out) (\<lambda>text. format_verdict status text)) w)"
    proof (cases r)
      case (Inl e)
      then show ?thesis using c w1 by (cases e) (simp_all add: fine_passed, simp_all add: fine_def agrees_error)
    next
      case (Inr p)
      then show ?thesis using c w1 run by (cases p) (simp add: judged_def)
    qed
  qed
  show ?thesis
    unfolding run_lint_format_def Let_def
    by (rule judged_or_status [OF quiet_make_dir], rule judged_or_status [OF quiet_lint_tools(2)], rule inner)
qed

lemma quiet_capture_staticcheck: "quiet (capture_staticcheck lc CaptureStandard raw out)"
proof (rule quietI)
  fix w r w'
  define ts where "ts = split_words (tenv_default w ''STATICCHECK_EXTRA_TARGETS'' ''./...'')"
  define rest where "rest = (\<lambda>selected. t_bind (expanded_package_targets (lc_decode lc) (lc_tree lc) ts) (\<lambda>targets.
               t_bind (\<lambda>w. capture_command selected (split_words (staticcheck_flags w) @ targets) raw w) (\<lambda>status.
               t_bind (read_file_lines raw) (\<lambda>raw_lines w.
                 (let root_dir = lint_root (snapshot w); normalized = map (\<lambda>l. normalize_path l root_dir root_dir) raw_lines in
                  if status = build_failure_status then (Inl (AnalyzerBuildFailed (build_failure_lines normalized)), w)
                  else if CaptureStandard = CaptureNotice \<and> status \<noteq> 0 \<and> status \<noteq> diagnostics_status
                  then (Inl (NoticeFailed (''notice staticcheck-extra capture failed (exit status '' @ itoa status @ ''):'' @ newline @
                          str_join newline normalized)), w)
                  else write_findings_file out
                         (sorted_unique (filter_excluded normalized (staticcheck_excludes w) w)) w)))))"
  have tail: "quiet (\<lambda>w. if status = build_failure_status then (Inl (AnalyzerBuildFailed (f w)), w)
                  else if CaptureStandard = CaptureNotice \<and> status \<noteq> 0 \<and> status \<noteq> diagnostics_status then (Inl (h w), w)
                  else write_findings_file out (g w) w)" for status :: int and f g h
    by (rule quietI) (auto split: if_splits dest: quietD [OF quiet_write])
  have "quiet (rest selected)" for selected unfolding rest_def Let_def
    by (rule quiet_bind [OF quiet_targets], rule quiet_bind, rule quiet_at, rule quiet_capture,
        rule quiet_bind [OF quiet_readers(1)], rule tail)
  note q = quietD [OF this, unfolded rest_def]
  note wr = quietD [OF quiet_write, THEN quiet_trans [rotated]]
  assume "capture_staticcheck lc CaptureStandard raw out w = (r, w')"
  then show "quiet_world w w'"
    by (auto simp: capture_staticcheck_def ts_def [symmetric] split: sum.splits if_splits dest: q intro: wr)
qed

lemma judged_gate_staticcheck: "judged ''staticcheck-extra'' (gate_staticcheck out scope suppress)"
  unfolding gate_staticcheck_def
  by (rule judged_or_status [OF quiet_readers(1)], rule judged_gate, rule fine_verdict(1), simp_all)

lemma judged_captured:
  assumes "quiet m" shows "judged ''staticcheck-extra'' (\<lambda>w. gate_captured_staticcheck out (m w))"
  unfolding judged_def
proof (intro allI impI)
  fix w :: tool_world assume w: "tw_collecting w \<and> tw_outcome w = NoOutcome"
  obtain r w1 where c: "m w = (r, w1)" by fastforce
  have w1: "tw_collecting w1 \<and> tw_outcome w1 = NoOutcome"
    using quietD [OF assms c] w by (simp add: quiet_world_def)
  show "fine ''staticcheck-extra'' (gate_captured_staticcheck out (m w))"
  proof (cases r)
    case (Inl e)
    then show ?thesis using c w1
      by (cases e) (simp_all add: gate_captured_staticcheck_def fine_build_failure, simp_all add: fine_def agrees_error)
  next
    case (Inr u)
    then show ?thesis using c w1 judged_gate_staticcheck by (simp add: judged_def gate_captured_staticcheck_def Let_def)
  qed
qed

lemma judged_staticcheck:
  assumes "quiet_context lc" shows "judged ''staticcheck-extra'' (run_staticcheck_extra lc)"
proof -
  have resolve: "quiet (\<lambda>w. if tw_prepared w then (0, w) else lc_resolve lc w)"
    using assms by (auto simp: quiet_def quiet_context_def)
  have run: "judged ''staticcheck-extra'' (\<lambda>w. gate_captured_staticcheck out (capture_staticcheck lc CaptureStandard raw out w))"
    for raw out by (rule judged_captured [OF quiet_capture_staticcheck])
  have failed: "fine ''staticcheck-extra'' (code, w)" if "code \<noteq> 0" "tw_collecting w" "tw_outcome w = NoOutcome" for code w
    using that by (simp add: fine_def agrees_def gate_step_def plain_step_def)
  have "judged ''staticcheck-extra'' (\<lambda>w. case (if tw_prepared w then (0, w) else lc_resolve lc w) of
      (code, w) \<Rightarrow> if code \<noteq> 0 then (code, w)
        else gate_captured_staticcheck out (capture_staticcheck lc CaptureStandard raw out w))" for raw out
    unfolding judged_def
  proof (intro allI impI)
    fix w :: tool_world assume w: "tw_collecting w \<and> tw_outcome w = NoOutcome"
    obtain code w1 where c: "(if tw_prepared w then (0, w) else lc_resolve lc w) = (code, w1)" by fastforce
    have w1: "tw_collecting w1" "tw_outcome w1 = NoOutcome"
      using quietD [OF resolve c] w by (simp_all add: quiet_world_def)
    show "fine ''staticcheck-extra'' (case (if tw_prepared w then (0, w) else lc_resolve lc w) of
      (code, w) \<Rightarrow> if code \<noteq> 0 then (code, w)
        else gate_captured_staticcheck out (capture_staticcheck lc CaptureStandard raw out w))"
      unfolding c using failed w1 run [unfolded judged_def] by simp
  qed
  note j = judged_after [OF this, of "lc_notice lc"]
  have n: "quiet_world w (lc_notice lc w)" for w using assms by (simp add: quiet_context_def)
  show ?thesis
    unfolding run_staticcheck_extra_def Let_def
    by (rule judged_or_status [OF quiet_make_dir], rule j, rule n)
qed

text \<open>Every check of the run agrees with its exit status, one per platform of the matrix.\<close>

definition sound_check :: "check \<Rightarrow> bool" where
  "sound_check c \<longleftrightarrow> (\<forall>w r code w'. tw_collecting w \<longrightarrow> snd c w = ((r, code), w') \<longrightarrow>
     tw_collecting w' \<and> sr_name r = fst c \<and> (code \<noteq> 0 \<longleftrightarrow> sr_status r = StepFailed))"

lemma gate_step_name: "sr_name (gate_step gate outcome code) = gate"
  by (simp add: gate_step_def plain_step_def split: gate_outcome.splits)

lemma sound_gate:
  assumes "judged gate runner" shows "sound_check (gate, run_one_gate gate runner)"
  unfolding sound_check_def
proof (intro allI impI)
  fix w r code w'
  assume w: "tw_collecting w" and run: "snd (gate, run_one_gate gate runner) w = ((r, code), w')"
  obtain c v where cv: "runner (w\<lparr>tw_outcome := NoOutcome\<rparr>) = (c, v)" by fastforce
  have "fine gate (c, v)" using assms w cv [symmetric] by (simp add: judged_def)
  then show "tw_collecting w' \<and> sr_name r = fst (gate, run_one_gate gate runner) \<and> (code \<noteq> 0 \<longleftrightarrow> sr_status r = StepFailed)"
    using run cv by (auto simp: run_one_gate_def fine_def agrees_def gate_step_name)
qed

lemma sound_platform:
  assumes "sound_check (name, run)" shows "sound_check (platform_check name run target)"
  unfolding sound_check_def
proof (intro allI impI)
  fix w r code w'
  assume w: "tw_collecting w" and run: "snd (platform_check name run target) w = ((r, code), w')"
  obtain r0 c0 v where cv: "run (w\<lparr>tw_platform := target\<rparr>) = ((r0, c0), v)" by (metis prod.collapse)
  have "tw_collecting v \<and> (c0 \<noteq> 0 \<longleftrightarrow> sr_status r0 = StepFailed)"
    using assms [unfolded sound_check_def, rule_format, of "w\<lparr>tw_platform := target\<rparr>" r0 c0 v] w cv by simp
  then show "tw_collecting w' \<and> sr_name r = fst (platform_check name run target) \<and> (code \<noteq> 0 \<longleftrightarrow> sr_status r = StepFailed)"
    using run cv by (auto simp: platform_check_def Let_def)
qed

lemma judged_runner:
  assumes "quiet_context lc" "map_of (gate_runners lc) gate = Some runner" shows "judged gate runner"
  using assms(1) map_of_SomeD [OF assms(2)] judged_golangci judged_format judged_gocyclo judged_deadcode judged_staticcheck
  by (auto simp: gate_runners_def)

lemma sound_checks_of_gate:
  assumes "quiet_context lc" "c \<in> set (checks_of_gate lc targets gate)" shows "sound_check c"
proof (cases "map_of (gate_runners lc) gate")
  case None
  then show ?thesis
    using assms(2) by (auto simp: checks_of_gate_def sound_check_def unknown_gate_step_def plain_step_def)
next
  case (Some runner)
  then show ?thesis
    using assms(2) sound_gate [OF judged_runner [OF assms(1) Some]]
    by (auto simp: checks_of_gate_def sound_platform split: if_splits)
qed

lemma sound_gate_checks: "quiet_context lc \<Longrightarrow> list_all sound_check (gate_checks lc w)"
  by (auto simp: gate_checks_def list_all_iff intro: sound_checks_of_gate)

lemma sound_tool_step: "sound_check (name, tool_step name binary args)"
  unfolding sound_check_def
proof (intro allI impI)
  fix w r code w'
  assume w: "tw_collecting w" and run: "snd (name, tool_step name binary args) w = ((r, code), w')"
  obtain o' v where e: "t_exec (lint_env w) (binary # args) w = (o', v)" by fastforce
  have "tw_collecting v" using quietD [OF quiet_t_exec e] w by (simp add: quiet_world_def)
  then show "tw_collecting w' \<and> sr_name r = fst (name, tool_step name binary args) \<and> (code \<noteq> 0 \<longleftrightarrow> sr_status r = StepFailed)"
    using run e by (cases o') (auto simp: tool_step_def plain_step_def split: if_splits)
qed

lemma sound_vet: "list_all sound_check (vet_checks w)"
proof -
  have "sound_check (''vet'', run_vet_step)"
    using sound_tool_step [of "''vet''"] by (simp add: sound_check_def run_vet_step_def)
  then show ?thesis by (auto simp: vet_checks_def list_all_iff sound_platform)
qed

lemma execute_checks_verdict:
  "list_all sound_check cs \<Longrightarrow> tw_collecting w \<Longrightarrow> execute_checks n cs w = ((status, rs), w') \<Longrightarrow>
   tw_collecting w' \<and> map sr_name rs = map fst cs \<and> (status \<noteq> 0 \<longleftrightarrow> failed_step_names rs \<noteq> [])"
proof (induction cs arbitrary: w status rs w')
  case Nil
  then show ?case by (simp add: failed_step_names_def)
next
  case (Cons c cs)
  obtain name run where c: "c = (name, run)" by fastforce
  obtain r code v where s: "run w = ((r, code), v)" by (metis prod.collapse)
  obtain rest rs' v' where t: "execute_checks n cs (t_println (step_row n r) v) = ((rest, rs'), v')"
    by (metis prod.collapse)
  have sound: "sound_check (name, run)" "list_all sound_check cs" using Cons.prems(1) c by simp_all
  have r: "tw_collecting v \<and> sr_name r = name \<and> (code \<noteq> 0 \<longleftrightarrow> sr_status r = StepFailed)"
    using sound(1) [unfolded sound_check_def, rule_format, of w r code v] Cons.prems(2) s by simp
  have "tw_collecting (t_println (step_row n r) v)" using r by (simp add: t_println_def t_print_def)
  note ih = Cons.IH [OF sound(2) this t]
  have "execute_checks n ((name, run) # cs) w = ((if rest \<noteq> 0 then rest else code, r # rs'), v')"
    using s t by (simp only: execute_checks.simps Let_def prod.case)
  then have e: "status = (if rest \<noteq> 0 then rest else code)" "rs = r # rs'" "w' = v'"
    using Cons.prems(3) c by simp_all
  have "failed_step_names rs = (if sr_status r = StepFailed then [sr_name r] else []) @ failed_step_names rs'"
    using e(2) by (simp add: failed_step_names_def)
  then show ?case using ih r e c by (cases "sr_status r = StepFailed") simp_all
qed

text \<open>What a run prints last is the verdict that its exit status gives: one row per check that was due, in their
  order, and the footer reports success exactly when the status is zero.\<close>

theorem exit_matches_report:
  assumes "quiet_context lc" "list_all sound_check (govulncheck # others)"
    "run_checks title (build_check_checks lc govulncheck others w0) w = (status, w')"
  shows "\<exists>rs shown. map sr_name rs = map fst (build_check_checks lc govulncheck others w0) \<and>
    tw_stdout w' = shown @ concat (map findings_block rs) @ footer (failed_step_names rs) (advisory_step_count rs) \<and>
    (status = 0 \<longleftrightarrow> failed_step_names rs = [])"
proof -
  define cs where "cs = build_check_checks lc govulncheck others w0"
  define v where "v = t_print (title @ newline @ newline) (w\<lparr>tw_collecting := True\<rparr>)"
  obtain s rs v' where run: "execute_checks (name_width (map fst cs)) cs v = ((s, rs), v')" by (metis prod.collapse)
  have "list_all sound_check cs"
    using assms(1,2) sound_vet [of w0] sound_gate_checks [OF assms(1), of w0] by (simp add: cs_def build_check_checks_def)
  then have "map sr_name rs = map fst cs \<and> (s \<noteq> 0 \<longleftrightarrow> failed_step_names rs \<noteq> [])"
    using execute_checks_verdict [OF _ _ run] by (simp add: v_def t_print_def)
  moreover have "run_checks title cs w = (s, (t_print (concat (map findings_block rs) @
      footer (failed_step_names rs) (advisory_step_count rs)) v')\<lparr>tw_collecting := False\<rparr>)"
    by (simp only: run_checks_def Let_def v_def [symmetric] run prod.case)
  ultimately show ?thesis
    using assms(3) unfolding cs_def [symmetric]
    by (intro exI [of _ rs] exI [of _ "tw_stdout v'"]) (auto simp: t_print_def)
qed

definition sample_context :: lint_context where
  "sample_context =
     \<lparr>lc_tree = Leaf ''.'', lc_decode = (\<lambda>_. None), lc_executable = (\<lambda>_ _. False), lc_notice = id,
      lc_resolve = (\<lambda>w. (0, w)), lc_module_files = (\<lambda>w. (Inr [], w))\<rparr>"

definition sample_lint :: tool_world where
  "sample_lint = sample_tool\<lparr>tw_environ := [''LINT_GATES=lint-nope'']\<rparr>"

definition sample_scan :: check where
  "sample_scan = (''govulncheck'', \<lambda>w. ((plain_step ''govulncheck'' StepOk [], 0), w))"

theorem exit_matches_report_witness:
  "\<exists>w' rs shown. run_checks ''build'' (build_check_checks sample_context sample_scan [] sample_lint) sample_lint = (1, w') \<and>
    map sr_name rs = [''vet'', ''lint-nope'', ''govulncheck''] \<and> failed_step_names rs \<noteq> [] \<and>
    tw_stdout w' = shown @ concat (map findings_block rs) @ footer (failed_step_names rs) (advisory_step_count rs)"
proof -
  have q: "quiet_context sample_context" by (simp add: quiet_context_def sample_context_def quiet_def)
  have s: "list_all sound_check (sample_scan # [])"
    by (simp add: sound_check_def sample_scan_def plain_step_def)
  obtain status w' where run:
    "run_checks ''build'' (build_check_checks sample_context sample_scan [] sample_lint) sample_lint = (status, w')" by fastforce
  have "fst (run_checks ''build'' (build_check_checks sample_context sample_scan [] sample_lint) sample_lint) = 1" by code_simp
  then have st: "status = 1" using run by simp
  have names: "map fst (build_check_checks sample_context sample_scan [] sample_lint) = [''vet'', ''lint-nope'', ''govulncheck'']" by code_simp
  obtain rs shown where r: "map sr_name rs = map fst (build_check_checks sample_context sample_scan [] sample_lint)"
    "tw_stdout w' = shown @ concat (map findings_block rs) @ footer (failed_step_names rs) (advisory_step_count rs)"
    "status = 0 \<longleftrightarrow> failed_step_names rs = []"
    using exit_matches_report [OF q s run] by blast
  show ?thesis
    by (rule exI [of _ w'], rule exI [of _ rs], rule exI [of _ shown])
      (use run st r names in \<open>simp only: simp_thms one_neq_zero refl\<close>)
qed

end
