(* ===== verification/CacheManifest.thy ===== *)
theory CacheManifest
  imports Worktree
begin

text \<open>
  \<open>go-mk cache-manifest\<close> (\<open>cachemanifest.go\<close>): the keys and paths of the CI caches, written as heredocs to the file
  GitHub names. SHA-256, the path of the running executable, the resolution of symbolic links and the random
  suffixes are parameters; standard error is not modelled. The loop that looks for a free delimiter is
  partial: \<open>None\<close> is a run that never ends.
\<close>

section \<open>Paths get shorter\<close>

definition weight :: "string list \<Rightarrow> nat" where "weight cs = sum_list (map (\<lambda>c. Suc (length c)) cs)"

lemma weight_simps [simp]: "weight [] = 0" "weight (c # cs) = Suc (length c + weight cs)"
  "weight (xs @ ys) = weight xs + weight ys" "weight (rev cs) = weight cs"
  by (simp_all add: weight_def rev_map [symmetric])

lemma weight_split: "weight (split_on c s) = Suc (length s)"
proof (induction c s rule: split_on.induct)
  case (2 c x xs)
  have "split_on c xs \<noteq> []" by (rule split_on_nonempty)
  then show ?case using 2 by (auto split: list.splits)
qed simp

lemma length_str_join: "length (str_join [c] cs) = weight cs - 1"
proof (induction cs rule: induct_list012)
  case (3 x y zs)
  then show ?case by simp
qed simp_all

lemma clean_comps_weight: "weight (clean_comps rooted ds cs) \<le> weight ds + weight cs"
proof (induction rooted ds cs rule: clean_comps.induct)
  case (2 rooted d c cs)
  then show ?case by (fastforce split: if_splits list.splits)
qed simp

lemma path_clean_length: "length (path_clean p) \<le> max 1 (length p)"
proof -
  define cs where "cs = clean_comps (is_abs p) [] (split_on slash p)"
  have w: "weight cs \<le> Suc (length p)" using clean_comps_weight [of "is_abs p" "[]" "split_on slash p"] by (simp add: cs_def weight_split)
  show ?thesis
  proof (cases "is_abs p")
    case True
    then obtain q where p: "p = slash # q" by (auto simp: is_abs_def prefix_def)
    then have "cs = clean_comps True [] (split_on slash q)" using True by (simp add: cs_def)
    then have "weight cs \<le> Suc (length q)" using clean_comps_weight [of True "[]" "split_on slash q"] by (simp add: weight_split)
    moreover have "path_clean p = slash # str_join [slash] (rev cs)" using True by (simp add: path_clean_def cs_def)
    ultimately show ?thesis using p by (simp add: length_str_join)
  next
    case False
    then have "path_clean p = (if cs = [] then ''.'' else str_join [slash] (rev cs))"
      by (simp add: path_clean_def cs_def Let_def)
    then show ?thesis using w by (auto simp: length_str_join)
  qed
qed

lemma through_last_slash_cases:
  "through_last_slash p = [] \<or> (\<exists>q. through_last_slash p = q @ [slash] \<and> length q < length p)"
proof (cases "dropWhile (\<lambda>c. c \<noteq> slash) (rev p)")
  case (Cons c r)
  then have "c = slash" by (metis (mono_tags) dropWhile_eq_Cons_conv)
  moreover have "length (c # r) \<le> length p" using Cons length_dropWhile_le [of "\<lambda>c. c \<noteq> slash" "rev p"] by simp
  ultimately show ?thesis using Cons by (intro disjI2 exI [of _ "rev r"]) (simp add: through_last_slash_def)
qed (simp add: through_last_slash_def)

lemma path_dir_shorter:
  "path_dir p = ''.'' \<or> path_dir p = ''/'' \<or> length (path_dir p) < length p"
proof -
  consider (none) "through_last_slash p = []" | (root) "through_last_slash p = [slash]"
    | (below) q where "through_last_slash p = q @ [slash]" "q \<noteq> []" "length q < length p"
    using through_last_slash_cases [of p] by (metis append_Nil)
  then show ?thesis
  proof cases
    case (below q)
    have "path_clean (q @ [slash]) = path_clean q"
    proof -
      have a: "is_abs (q @ [slash]) = is_abs q" using below(2) by (cases q) (auto simp: is_abs_def)
      have s: "split_on slash (q @ [slash]) = split_on slash q @ [[]]"
        by (simp add: split_on_append_gen)
      have "clean_comps r ds (cs @ [[]]) = clean_comps r ds cs" for r ds cs
        by (induction r ds cs rule: clean_comps.induct) (auto split: list.splits)
      then show ?thesis by (simp add: path_clean_def a s)
    qed
    moreover have "length (path_clean q) \<le> length q" using path_clean_length [of q] below(2) by (cases q) auto
    ultimately show ?thesis using below by (simp add: path_dir_def)
  qed (simp_all add: path_dir_def path_clean_def is_abs_def)
qed

section \<open>The fields of a variable\<close>

fun collapse_slashes :: "bool \<Rightarrow> string \<Rightarrow> string" where
  "collapse_slashes was_slash [] = []"
| "collapse_slashes was_slash (c # cs) =
     (if c = slash then (if was_slash then [] else [c]) @ collapse_slashes True cs
      else c # collapse_slashes False cs)"

definition normalize_fields :: "string \<Rightarrow> string list" where
  "normalize_fields v =
     map (\<lambda>f. trim_suffix (trim_prefix (collapse_slashes False f) ''./'') ''/'')
       (filter (\<lambda>f. \<not> (f = [] \<or> f = ''.'')) (str_fields v))"

definition non_empty_lines :: "string \<Rightarrow> string list" where
  "non_empty_lines text = filter (\<lambda>l. l \<noteq> []) (split_on (CHR 0x0A) text)"

section \<open>Files and git\<close>

record cache_config =
  ck_sha :: "string \<Rightarrow> string"
  ck_executable :: "string option"
  ck_random :: "nat \<Rightarrow> string option"
  ck_physical :: "string \<Rightarrow> string option"

type_synonym file_hash = "string \<times> string"

definition t_stat :: "string \<Rightarrow> tool_world \<Rightarrow> bool \<times> tool_world" where
  "t_stat path w = (\<not> t_fails StatCall w \<and> (tw_files w path \<noteq> None \<or> tw_dirs w path), t_tick w)"

definition t_exists :: "string \<Rightarrow> tool_world \<Rightarrow> bool \<times> tool_world" where
  "t_exists path w = (file_exists path w, t_tick w)"

function existing_parent :: "string \<Rightarrow> tool_world \<Rightarrow> string \<times> tool_world" where
  "existing_parent parent w =
     (if parent = ''.'' \<or> parent = ''/''
      then (let (ok, w) = t_stat ''.'' w in (if ok then ''.'' else [], w))
      else (let (ok, v) = t_stat parent w in if ok then (parent, v) else existing_parent (path_dir parent) v))"
  by pat_completeness auto
termination
proof (relation "measure (\<lambda>(p, w). if p = ''.'' \<or> p = ''/'' then 0 else Suc (length p))", goal_cases)
  case (2 parent w x xa y)
  then show ?case using path_dir_shorter [of parent] by auto
qed simp

declare existing_parent.simps [simp del]

definition deepest_existing_parent :: "string \<Rightarrow> tool_world \<Rightarrow> string \<times> tool_world" where
  "deepest_existing_parent path = existing_parent (path_dir path)"

definition physical_working_directory :: "cache_config \<Rightarrow> tool_world \<Rightarrow> string option" where
  "physical_working_directory ck w =
     map_option (\<lambda>d. case ck_physical ck d of None \<Rightarrow> d | Some p \<Rightarrow> p) (tw_cwd w)"

definition absolute_path_of :: "cache_config \<Rightarrow> string \<Rightarrow> tool_world \<Rightarrow> string option" where
  "absolute_path_of ck path w =
     (if is_abs path then Some path
      else map_option (\<lambda>d. path_join [d, path]) (physical_working_directory ck w))"

definition tracked_in :: "string \<Rightarrow> string \<Rightarrow> tool_world \<Rightarrow> bool \<times> tool_world" where
  "tracked_in git_root rel w =
     (case t_exec (tw_environ w) [''git'', ''-C'', git_root, ''ls-files'', ''--error-unmatch'', rel] w of
        (Exited status out ws, w) \<Rightarrow>
          if status = 0 then (True, w)
          else (case t_output [''git'', ''-C'', git_root, ''ls-files'', ''--'', rel] w of
                  (Inl e, w) \<Rightarrow> (False, w) | (Inr out, w) \<Rightarrow> (trim_space out \<noteq> [], w))
      | (NotStarted, w) \<Rightarrow>
          (case t_output [''git'', ''-C'', git_root, ''ls-files'', ''--'', rel] w of
             (Inl e, w) \<Rightarrow> (False, w) | (Inr out, w) \<Rightarrow> (trim_space out \<noteq> [], w)))"

definition path_is_tracked :: "cache_config \<Rightarrow> string \<Rightarrow> tool_world \<Rightarrow> bool \<times> tool_world" where
  "path_is_tracked ck path w =
     (let (parent, w) = deepest_existing_parent path w in
      if parent = [] then (False, w)
      else (case t_output [''git'', ''-C'', parent, ''rev-parse'', ''--show-toplevel''] w of
              (Inl e, w) \<Rightarrow> (False, w)
            | (Inr out, w) \<Rightarrow>
                (let git_root = trim_right out newline in
                 if git_root = [] then (False, w)
                 else (case absolute_path_of ck path w of
                         None \<Rightarrow> (False, w)
                       | Some p \<Rightarrow> tracked_in git_root (trim_prefix p (git_root @ ''/'')) w))))"

definition cache_absolute_path :: "tool_world \<Rightarrow> string \<Rightarrow> string" where
  "cache_absolute_path w path = (case path_abs w path of None \<Rightarrow> path | Some p \<Rightarrow> p)"

definition git_ls_files :: "string list \<Rightarrow> tool_world \<Rightarrow> string list \<times> tool_world" where
  "git_ls_files pathspecs w =
     (case t_output ([''git'', ''ls-files'', ''--''] @ pathspecs) w of
        (Inl e, w) \<Rightarrow> ([], w) | (Inr out, w) \<Rightarrow> (non_empty_lines out, w))"

definition hash_file :: "cache_config \<Rightarrow> string \<Rightarrow> tool_world \<Rightarrow> (tool_error, file_hash) result \<times> tool_world" where
  "hash_file ck path w =
     (case t_read path w of
        (Content s, w) \<Rightarrow> (Inr (path, ck_sha ck s), w) | (_, w) \<Rightarrow> (Inl (FileError path), w))"

fun hash_each :: "cache_config \<Rightarrow> string list \<Rightarrow> tool_world \<Rightarrow> (tool_error, file_hash list) result \<times> tool_world" where
  "hash_each ck [] w = (Inr [], w)"
| "hash_each ck (p # ps) w =
     (if p = [] then hash_each ck ps w
      else (let (found, w) = t_exists p w in
            if \<not> found then hash_each ck ps w
            else t_bind (hash_file ck p) (\<lambda>h. t_bind (hash_each ck ps) (\<lambda>hs. t_lift (Inr (h # hs)))) w))"

definition hashes_for_paths :: "cache_config \<Rightarrow> string list \<Rightarrow> tool_world \<Rightarrow>
    (tool_error, file_hash list) result \<times> tool_world" where
  "hashes_for_paths ck paths = hash_each ck (sort_dedup paths)"

definition executable_label :: string where "executable_label = ''go-mk-executable''"

definition executable_hash :: "cache_config \<Rightarrow> tool_world \<Rightarrow> (tool_error, file_hash) result \<times> tool_world" where
  "executable_hash ck w =
     (case ck_executable ck of
        None \<Rightarrow> (Inl (FileError []), w)
      | Some p \<Rightarrow> (case hash_file ck p w of
                     (Inl e, w) \<Rightarrow> (Inl e, w) | (Inr (_, digest), w) \<Rightarrow> (Inr (executable_label, digest), w)))"

definition tracked_pathspecs :: "string list" where
  "tracked_pathspecs =
     [''Makefile'', ''*.mk'', ''go.mod'', ''go.sum'', ''go.work'', ''go.work.sum'', ''.gitmodules'', ''buf.yaml'', ''buf.gen.yaml'']"

fun ls_files_each :: "string list \<Rightarrow> tool_world \<Rightarrow> string list \<times> tool_world" where
  "ls_files_each [] w = ([], w)"
| "ls_files_each (i # is) w =
     (if i = [] then ls_files_each is w
      else (let (ps, w) = git_ls_files [i] w; (qs, w) = ls_files_each is w in (ps @ qs, w)))"

definition tracked_hashes :: "cache_config \<Rightarrow> tool_world \<Rightarrow> (tool_error, file_hash list) result \<times> tool_world" where
  "tracked_hashes ck w =
     (let (fixed, w) = git_ls_files tracked_pathspecs w;
          (inputs, w) = ls_files_each (normalize_fields (tenv w ''GO_MK_GENERATE_INPUTS'')) w
      in hashes_for_paths ck (fixed @ inputs) w)"

definition implementation_hashes :: "cache_config \<Rightarrow> tool_world \<Rightarrow> (tool_error, file_hash list) result \<times> tool_world" where
  "implementation_hashes ck =
     t_bind (executable_hash ck) (\<lambda>h.
     t_bind (\<lambda>w. hashes_for_paths ck [tenv w ''_GO_MK_SELF'', ''.make/go.mk''] w) (\<lambda>hs. t_lift (Inr (h # hs))))"

fun input_hashes :: "cache_config \<Rightarrow> string list \<Rightarrow> tool_world \<Rightarrow> file_hash list \<times> tool_world" where
  "input_hashes ck [] w = ([], w)"
| "input_hashes ck (i # is) w =
     (let (r, w) = hash_file ck i w; (hs, w) = input_hashes ck is w
      in ((case r of Inl e \<Rightarrow> (i, ''missing'') | Inr h \<Rightarrow> h) # hs, w))"

section \<open>The manifests\<close>

definition tab_line :: "string \<Rightarrow> string \<Rightarrow> string" where "tab_line k v = k @ tab @ v @ newline"

definition hash_line :: "string \<Rightarrow> file_hash \<Rightarrow> string" where
  "hash_line k h = k @ tab @ fst h @ tab @ snd h @ newline"

definition repo_prefix :: "tool_world \<Rightarrow> string \<times> tool_world" where
  "repo_prefix w =
     (case t_output [''git'', ''rev-parse'', ''--show-prefix''] w of
        (Inl e, w) \<Rightarrow> ([], w) | (Inr out, w) \<Rightarrow> (trim_suffix (trim_right out newline) ''/'', w))"

definition submodule_status :: "tool_world \<Rightarrow> string \<times> tool_world" where
  "submodule_status w =
     (let (found, w) = t_exists ''.gitmodules'' w in
      if \<not> found then ([], w)
      else (case t_exec (tw_environ w) [''git'', ''submodule'', ''status'', ''--recursive''] w of
              (NotStarted, w) \<Rightarrow> (''submodules_begin'' @ newline @ ''submodules_end'' @ newline, w)
            | (Exited _ out _, w) \<Rightarrow> (''submodules_begin'' @ newline @ out @ ''submodules_end'' @ newline, w)))"

definition manifest_head :: "tool_world \<Rightarrow> string \<Rightarrow> string \<Rightarrow> string" where
  "manifest_head w pre outputs =
     tab_line ''repo_prefix'' pre @ tab_line ''generate'' (tenv w ''GO_MK_GENERATE'') @
     ''generate_inputs_begin'' @ newline @
     concat (map (\<lambda>i. i @ newline) (normalize_fields (tenv w ''GO_MK_GENERATE_INPUTS''))) @
     ''generate_inputs_end'' @ newline @ ''generate_outputs_begin'' @ newline @ outputs @ newline @
     ''generate_outputs_end'' @ newline @
     tab_line ''workspace_use'' (tenv w ''GO_MK_WORKSPACE_USE'') @ tab_line ''tree_sitter_abi'' (tenv w ''TREE_SITTER_ABI'') @
     tab_line ''go_mk_api_repo'' (tenv w ''GO_MK_API_REPO'') @ tab_line ''go_mk_api_ref'' (tenv w ''GO_MK_API_REF'') @
     concat (map (tab_line ''output_path'') (non_empty_lines outputs))"

definition build_cache_manifest :: "cache_config \<Rightarrow> string \<Rightarrow> tool_world \<Rightarrow> (tool_error, string) result \<times> tool_world" where
  "build_cache_manifest ck outputs w =
     (let (pre, w) = repo_prefix w; (submodules, w) = submodule_status w in
      t_bind (tracked_hashes ck) (\<lambda>tracked.
      t_bind (implementation_hashes ck) (\<lambda>implementation w.
        (Inr (manifest_head w pre outputs @ submodules @
           concat (map (hash_line ''file'') tracked) @ concat (map (hash_line ''file'') implementation)), w))) w)"

definition cgo_enabled :: "tool_world \<Rightarrow> bool" where
  "cgo_enabled w \<longleftrightarrow>
     trim_space (tenv w ''GO_MK_CGO_DEPS'') \<noteq> [] \<and> trim_space (tenv w ''GO_MK_TARGET_GOOS'') \<noteq> [] \<and>
     trim_space (tenv w ''GO_MK_TARGET_GOARCH'') \<noteq> []"

definition cgo_cache_path :: "tool_world \<Rightarrow> string" where
  "cgo_cache_path w =
     (let goos = trim_space (tenv w ''GO_MK_TARGET_GOOS''); goarch = trim_space (tenv w ''GO_MK_TARGET_GOARCH'') in
      if goos = [] \<or> goarch = [] then []
      else cache_absolute_path w (path_join [''.make'', ''cgo'', goos @ ''-'' @ goarch]))"

definition lint_cache_paths :: "tool_world \<Rightarrow> string" where
  "lint_cache_paths w =
     (let pinned = trim_space (tenv w ''GOLANGCI_LINT_CACHE'') in
      str_join newline (map (cache_absolute_path w) (if pinned \<noteq> [] then [pinned] else golangci_cache_patterns)))"

definition cgo_compiler :: "tool_world \<Rightarrow> string" where
  "cgo_compiler w =
     (if trim_space (tenv w ''GO_MK_CC'') \<noteq> [] then trim_space (tenv w ''GO_MK_CC'')
      else if trim_space (tenv w ''CC'') \<noteq> [] then trim_space (tenv w ''CC'') else ''cc'')"

definition compiler_output :: "string \<Rightarrow> string \<Rightarrow> tool_world \<Rightarrow> string option \<times> tool_world" where
  "compiler_output compiler arg w =
     (if str_fields compiler = [] then (None, w)
      else (case t_output (str_fields compiler @ [arg]) w of (Inl e, w) \<Rightarrow> (None, w) | (Inr out, w) \<Rightarrow> (Some out, w)))"

definition compiler_fingerprint :: "string \<Rightarrow> tool_world \<Rightarrow> (string \<times> string) option \<times> tool_world" where
  "compiler_fingerprint compiler w =
     (let (dump, w) = compiler_output compiler ''-dumpmachine'' w; (version, w) = compiler_output compiler ''--version'' w
      in (case (dump, version) of
            (Some d, Some v) \<Rightarrow> Some (trim_space d, trim_space (hd (split_on (CHR 0x0A) (trim_right v newline))))
          | _ \<Rightarrow> None, w))"

definition cgo_head :: "tool_world \<Rightarrow> string \<Rightarrow> string \<Rightarrow> (string \<times> string) option \<Rightarrow> string" where
  "cgo_head w pre cgo_path compiler =
     tab_line ''repo_prefix'' pre @
     tab_line ''cgo_deps'' (str_join '' '' (normalize_fields (tenv w ''GO_MK_CGO_DEPS''))) @
     tab_line ''cgo_versions'' (str_join '' '' (normalize_fields (tenv w ''GO_MK_CGO_CACHE_VERSIONS''))) @
     tab_line ''target_goos'' (trim_space (tenv w ''GO_MK_TARGET_GOOS'')) @
     tab_line ''target_goarch'' (trim_space (tenv w ''GO_MK_TARGET_GOARCH'')) @
     tab_line ''cgo_cache_path'' cgo_path @ tab_line ''compiler_command'' (cgo_compiler w) @
     (case compiler of
        None \<Rightarrow> ''compiler_unavailable'' @ tab @ ''true'' @ newline
      | Some (machine, version) \<Rightarrow> tab_line ''compiler_dumpmachine'' machine @ tab_line ''compiler_version'' version) @
     tab_line ''toolchain_id'' (trim_space (tenv w ''GO_MK_CGO_TOOLCHAIN_ID''))"

definition build_cgo_manifest :: "cache_config \<Rightarrow> string \<Rightarrow> tool_world \<Rightarrow> (tool_error, string) result \<times> tool_world" where
  "build_cgo_manifest ck cgo_path w =
     (let (pre, w) = repo_prefix w; (compiler, w) = compiler_fingerprint (cgo_compiler w) w;
          (inputs, w) = input_hashes ck (sort_dedup (normalize_fields (tenv w ''GO_MK_CGO_CACHE_INPUTS''))) w;
          (makefiles, w) = git_ls_files [''Makefile'', ''*.mk''] w in
      t_bind (hashes_for_paths ck makefiles) (\<lambda>hs w.
        (Inr (cgo_head w pre cgo_path compiler @ concat (map (hash_line ''cgo_cache_input'') inputs) @
              concat (map (hash_line ''file'') hs)), w)) w)"

section \<open>The outputs\<close>

record cache_result =
  cr_enabled :: string
  cr_requires_submodules :: string
  cr_paths :: string
  cr_key :: string
  cr_warnings :: string
  cr_cgo_enabled :: string
  cr_cgo_paths :: string
  cr_cgo_key :: string
  cr_lint_paths :: string

definition output_values :: "cache_result \<Rightarrow> (string \<times> string) list" where
  "output_values r =
     [(''generated_cache_enabled'', cr_enabled r), (''generated_cache_requires_submodules'', cr_requires_submodules r),
      (''generated_cache_paths'', cr_paths r), (''generated_cache_key'', cr_key r), (''generated_cache_warnings'', cr_warnings r),
      (''cgo_cache_enabled'', cr_cgo_enabled r), (''cgo_cache_paths'', cr_cgo_paths r), (''cgo_cache_key'', cr_cgo_key r),
      (''lint_cache_paths'', cr_lint_paths r)]"

definition output_delimiter :: string where "output_delimiter = ''__GO_MK_CACHE_OUTPUT__''"

definition contains_delimiter :: "string list \<Rightarrow> string \<Rightarrow> bool" where
  "contains_delimiter vals delimiter \<longleftrightarrow> list_ex (\<lambda>v. delimiter \<in> set (split_on (CHR 0x0A) v)) vals"

text \<open>The search for a free delimiter, from draw \<open>n\<close> on; the inner \<open>None\<close> is a failure of the random source.\<close>

partial_function (option) delimiter_from :: "(nat \<Rightarrow> string option) \<Rightarrow> string list \<Rightarrow> nat \<Rightarrow> string \<Rightarrow> string option option" where
  "delimiter_from random vals n delimiter =
     (if \<not> contains_delimiter vals delimiter then Some (Some delimiter)
      else (case random n of
              None \<Rightarrow> Some None
            | Some extra \<Rightarrow> delimiter_from random vals (Suc n) (output_delimiter @ ''-'' @ extra)))"

definition delimiter_for :: "(nat \<Rightarrow> string option) \<Rightarrow> string list \<Rightarrow> string option option" where
  "delimiter_for random vals = delimiter_from random vals 0 output_delimiter"

definition heredoc :: "string \<Rightarrow> string \<times> string \<Rightarrow> string" where
  "heredoc delimiter nv =
     fst nv @ ''<<'' @ delimiter @ newline @ snd nv @ newline @ delimiter @ newline"

fun append_each :: "string \<Rightarrow> string list \<Rightarrow> tool_world \<Rightarrow> (tool_error, unit) result \<times> tool_world" where
  "append_each path [] w = (Inr (), w)"
| "append_each path (t # ts) w =
     (let (ok, w) = t_append path t w in if ok then append_each path ts w else (Inl (FileError path), w))"

definition write_outputs :: "cache_config \<Rightarrow> string \<Rightarrow> cache_result \<Rightarrow> tool_world \<Rightarrow>
    ((tool_error, unit) result \<times> tool_world) option" where
  "write_outputs ck path r w =
     (if path = [] then Some (Inr (), w)
      else (case delimiter_for (ck_random ck) (map snd (output_values r)) of
              None \<Rightarrow> None
            | Some None \<Rightarrow> Some (Inl (FileError ''random''), w)
            | Some (Some d) \<Rightarrow> Some (append_each path ([] # map (heredoc d) (output_values r)) w)))"

section \<open>The command\<close>

fun filter_outputs :: "cache_config \<Rightarrow> string list \<Rightarrow> tool_world \<Rightarrow> (string list \<times> string list) \<times> tool_world" where
  "filter_outputs ck [] w = (([], []), w)"
| "filter_outputs ck (o' # os) w =
     (if o' = [] then filter_outputs ck os w
      else (let (tracked, w) = path_is_tracked ck o' w; ((outputs, warnings), v) = filter_outputs ck os w
            in (if tracked then (outputs, (''tracked output skipped: '' @ o') # warnings)
                else (cache_absolute_path w o' # outputs, warnings), v)))"

definition go_bool :: "bool \<Rightarrow> string" where "go_bool b = (if b then ''true'' else ''false'')"

definition cache_enabled :: "string \<Rightarrow> tool_world \<Rightarrow> bool" where
  "cache_enabled outputs w \<longleftrightarrow>
     tenv w ''GO_MK_GENERATE'' \<noteq> [] \<and> tenv w ''GO_MK_GENERATE_INPUTS'' \<noteq> [] \<and> outputs \<noteq> []"

definition cgo_entries :: "cache_config \<Rightarrow> tool_world \<Rightarrow> (tool_error, string \<times> string) result \<times> tool_world" where
  "cgo_entries ck w =
     (if \<not> cgo_enabled w then (Inr ([], []), w)
      else t_bind (build_cgo_manifest ck (cgo_cache_path w))
             (\<lambda>manifest. t_lift (Inr (cgo_cache_path w, ck_sha ck manifest))) w)"

definition collect_result :: "cache_config \<Rightarrow> tool_world \<Rightarrow> (tool_error, cache_result) result \<times> tool_world" where
  "collect_result ck w =
     (let ((outputs, warnings), w) = filter_outputs ck (normalize_fields (tenv w ''GO_MK_GENERATE_OUTPUTS'')) w;
          paths = str_join newline outputs; enabled = cache_enabled paths w;
          (modules, w) = (if enabled then t_exists ''.gitmodules'' w else (False, w)) in
      t_bind (build_cache_manifest ck paths) (\<lambda>manifest.
      t_bind (cgo_entries ck) (\<lambda>(cgo_paths, cgo_key) w.
        (Inr \<lparr>cr_enabled = go_bool enabled, cr_requires_submodules = go_bool modules, cr_paths = paths,
              cr_key = ck_sha ck manifest, cr_warnings = str_join newline warnings, cr_cgo_enabled = go_bool (cgo_enabled w),
              cr_cgo_paths = cgo_paths, cr_cgo_key = cgo_key, cr_lint_paths = lint_cache_paths w\<rparr>, w))) w)"

definition report_result :: "cache_result \<Rightarrow> tool_world \<Rightarrow> tool_world" where
  "report_result r w =
     (let w = t_println (''go-mk-cache-manifest: generated_cache_enabled='' @ cr_enabled r) w;
          w = t_println (''go-mk-cache-manifest: generated_cache_requires_submodules='' @ cr_requires_submodules r) w
      in if cr_paths r = [] then w
         else t_println (''go-mk-cache-manifest: generated output paths:'' @ newline @ cr_paths r) w)"

definition run_cache_manifest :: "cache_config \<Rightarrow> tool_world \<Rightarrow> (int \<times> tool_world) option" where
  "run_cache_manifest ck w =
     (case collect_result ck w of
        (Inl e, w) \<Rightarrow> Some (1, w)
      | (Inr r, w) \<Rightarrow>
          (case write_outputs ck (tenv w ''GITHUB_OUTPUT'') r w of
             None \<Rightarrow> None
           | Some (Inl e, w) \<Rightarrow> Some (1, w)
           | Some (Inr _, w) \<Rightarrow> Some (0, report_result r w)))"

section \<open>The delimiter\<close>

text \<open>
  C39. The search for a delimiter ends. When the random source answers and no two of its first draws are equal,
  as many as the values have lines, a delimiter is found that is no line of any value.
\<close>

lemma contains_delimiter_iff:
  "contains_delimiter vals d \<longleftrightarrow> (\<exists>v \<in> set vals. d \<in> set (split_on (CHR 0x0A) v))"
  by (auto simp: contains_delimiter_def list_ex_iff)

definition value_lines :: "string list \<Rightarrow> string set" where
  "value_lines vals = (\<Union>v \<in> set vals. set (split_on (CHR 0x0A) v))"

lemma value_lines_card: "card (value_lines vals) \<le> length (concat (map (split_on (CHR 0x0A)) vals))"
  using card_length [of "concat (map (split_on (CHR 0x0A)) vals)"] by (simp add: value_lines_def)

lemma delimiter_from_found:
  assumes "random (n + k) = Some e" "\<not> contains_delimiter vals (output_delimiter @ ''-'' @ e)"
    "\<And>i. i < k \<Longrightarrow> random (n + i) \<noteq> None"
  shows "\<exists>d'. delimiter_from random vals n d = Some (Some d') \<and> \<not> contains_delimiter vals d'"
  using assms
proof (induction k arbitrary: n d)
  case 0
  then show ?case
    by (subst delimiter_from.simps, subst delimiter_from.simps) auto
next
  case (Suc k)
  obtain e0 where e0: "random n = Some e0" using Suc.prems(3) [of 0] by auto
  have "\<exists>d'. delimiter_from random vals (Suc n) (output_delimiter @ ''-'' @ e0) = Some (Some d') \<and>
      \<not> contains_delimiter vals d'"
    using Suc.prems(1,2) Suc.prems(3) [of "Suc _"] by (intro Suc.IH) auto
  then show ?case using e0 by (subst delimiter_from.simps) auto
qed

theorem delimiter_search_ends:
  assumes "\<And>n. n \<le> length (concat (map (split_on (CHR 0x0A)) vals)) \<Longrightarrow> \<exists>e. random n = Some e"
    "inj_on random {0..length (concat (map (split_on (CHR 0x0A)) vals))}"
  shows "\<exists>d. delimiter_for random vals = Some (Some d) \<and> (\<forall>v \<in> set vals. d \<notin> set (split_on (CHR 0x0A) v))"
proof -
  define m where "m = length (concat (map (split_on (CHR 0x0A)) vals))"
  define f where "f = (\<lambda>n. output_delimiter @ ''-'' @ the (random n))"
  have "inj_on f {0..m}"
  proof (rule inj_onI)
    fix i j assume ij: "i \<in> {0..m}" "j \<in> {0..m}" "f i = f j"
    have "\<exists>a. random i = Some a" "\<exists>b. random j = Some b"
      using assms(1) [of i] assms(1) [of j] ij(1,2) by (simp_all add: m_def)
    then have "random i = random j" using ij(3) by (auto simp: f_def)
    then show "i = j" using inj_onD [OF assms(2)] ij(1,2) by (simp add: m_def)
  qed
  then have "card (f ` {0..m}) = Suc m" by (simp add: card_image)
  moreover have "card (value_lines vals) \<le> m" using value_lines_card by (simp add: m_def)
  ultimately have "\<not> f ` {0..m} \<subseteq> value_lines vals"
    using card_mono [of "value_lines vals" "f ` {0..m}"] by (auto simp: value_lines_def)
  then obtain k where k: "k \<le> m" "f k \<notin> value_lines vals" by (auto simp: image_subset_iff)
  obtain e where e: "random k = Some e" using assms(1) k(1) by (auto simp: m_def)
  have free: "\<not> contains_delimiter vals (output_delimiter @ ''-'' @ e)"
    using k(2) e by (simp add: f_def contains_delimiter_iff value_lines_def)
  have some: "i < k \<Longrightarrow> random (0 + i) \<noteq> None" for i using assms(1) [of i] k(1) by (auto simp: m_def)
  show ?thesis
    using delimiter_from_found [of random 0 k e vals, OF _ free some] e
    by (auto simp: delimiter_for_def contains_delimiter_iff)
qed

lemma delimiter_from_result:
  "delimiter_from random vals n d = Some r \<Longrightarrow>
   r = None \<or> (\<exists>d'. r = Some d' \<and> \<not> contains_delimiter vals d' \<and>
     (d' = d \<or> (\<exists>i e. random i = Some e \<and> d' = output_delimiter @ ''-'' @ e)))"
proof (induction random vals n d r rule: delimiter_from.raw_induct [rotated, consumes 1, case_names step])
  case (step f random vals n d r)
  show ?case
  proof (cases "contains_delimiter vals d")
    case True
    show ?thesis
    proof (cases "random n")
      case (Some e)
      have "f random vals (Suc n) (output_delimiter @ ''-'' @ e) = Some r" using step(2) True Some by simp
      from step(1) [OF this] show ?thesis using Some by blast
    qed (use step(2) True in simp)
  qed (use step(2) in auto)
qed

section \<open>Reading the outputs back\<close>

text \<open>
  How a workflow reads the file: a line \<open>name<<delimiter\<close> opens a value, which goes on to the next line that is
  exactly the delimiter.
\<close>

fun read_heredocs :: "nat \<Rightarrow> string list \<Rightarrow> (string \<times> string) list option" where
  "read_heredocs 0 ls = None"
| "read_heredocs (Suc n) [] = Some []"
| "read_heredocs (Suc n) (l # ls) =
     (if l = [] \<and> ls = [] then Some []
      else (case str_cut l ''<<'' of
              None \<Rightarrow> None
            | Some (name, d) \<Rightarrow>
                (case dropWhile (\<lambda>x. x \<noteq> d) ls of
                   [] \<Rightarrow> None
                 | _ # rest \<Rightarrow>
                     map_option (Cons (name, str_join newline (takeWhile (\<lambda>x. x \<noteq> d) ls))) (read_heredocs n rest))))"

definition read_outputs :: "string \<Rightarrow> (string \<times> string) list option" where
  "read_outputs text = (let ls = split_on (CHR 0x0A) text in read_heredocs (Suc (length ls)) ls)"

lemma read_heredocs_text:
  assumes "CHR 0x0A \<notin> set d" "\<And>n v. (n, v) \<in> set nvs \<Longrightarrow> CHR 0x0A \<notin> set n \<and> CHR ''<'' \<notin> set n"
    "\<And>n v. (n, v) \<in> set nvs \<Longrightarrow> d \<notin> set (split_on (CHR 0x0A) v)" "length nvs < k"
  shows "read_heredocs k (split_on (CHR 0x0A) (concat (map (heredoc d) nvs))) = Some nvs"
  using assms
proof (induction nvs arbitrary: k)
  case Nil
  then show ?case by (cases k) simp_all
next
  case (Cons nv nvs)
  obtain n v where nv: "nv = (n, v)" by fastforce
  obtain k' where k: "k = Suc k'" "length nvs < k'" using Cons.prems(4) by (cases k) auto
  define rest where "rest = concat (map (heredoc d) nvs)"
  have ih: "read_heredocs k' (split_on (CHR 0x0A) rest) = Some nvs"
    unfolding rest_def using Cons.prems k(2) by (intro Cons.IH) auto
  have free: "CHR 0x0A \<notin> set n" "CHR ''<'' \<notin> set n" "d \<notin> set (split_on (CHR 0x0A) v)"
    using Cons.prems(2,3) [of n v] nv by simp_all
  have "concat (map (heredoc d) (nv # nvs)) = (n @ ''<<'' @ d) @ CHR 0x0A # (v @ CHR 0x0A # (d @ CHR 0x0A # rest))"
    by (simp add: heredoc_def nv rest_def)
  then have lines: "split_on (CHR 0x0A) (concat (map (heredoc d) (nv # nvs))) =
      (n @ ''<<'' @ d) # (split_on (CHR 0x0A) v @ d # split_on (CHR 0x0A) rest)"
    using free(1) Cons.prems(1) by (simp only: split_on_append_gen) (simp add: split_on_free)
  have cut: "str_cut (n @ ''<<'' @ d) ''<<'' = Some (n, d)"
    using str_index_absent [OF free(2), of "''<''" d] by (simp add: str_cut_def)
  have body: "takeWhile (\<lambda>x. x \<noteq> d) (split_on (CHR 0x0A) v @ d # ls) = split_on (CHR 0x0A) v"
    "dropWhile (\<lambda>x. x \<noteq> d) (split_on (CHR 0x0A) v @ d # ls) = d # ls" for ls
    using free(3) by (auto simp: takeWhile_append dropWhile_append)
  show ?case
    unfolding lines k(1) by (simp add: cut [simplified] body ih join_split_on nv)
qed

lemma heredoc_lines: "Suc (length (split_on (CHR 0x0A) rest)) \<le> length (split_on (CHR 0x0A) (heredoc d nv @ rest))"
proof -
  have "heredoc d nv @ rest = (fst nv @ ''<<'' @ d) @ CHR 0x0A # (snd nv @ CHR 0x0A # (d @ CHR 0x0A # rest))"
    by (simp add: heredoc_def)
  then have "length (split_on (CHR 0x0A) (heredoc d nv @ rest)) =
      length (split_on (CHR 0x0A) (fst nv @ ''<<'' @ d)) + (length (split_on (CHR 0x0A) (snd nv)) +
      (length (split_on (CHR 0x0A) d) + length (split_on (CHR 0x0A) rest)))"
    by (simp only: split_on_append_gen length_append)
  moreover have "1 \<le> length (split_on (CHR 0x0A) d)"
    using split_on_nonempty [of "CHR 0x0A" d] by (simp add: Suc_le_eq)
  ultimately show ?thesis by linarith
qed

lemma append_each_files:
  "append_each path ts w = (Inr (), w') \<Longrightarrow> ts \<noteq> [] \<Longrightarrow>
   tw_files w' = (tw_files w)(path \<mapsto> (case tw_files w path of None \<Rightarrow> [] | Some s \<Rightarrow> s) @ concat ts)"
proof (induction ts arbitrary: w)
  case (Cons t ts)
  obtain ok v where s: "t_append path t w = (ok, v)" by fastforce
  then have ok: "ok" using Cons.prems(1) by (auto split: if_splits)
  then have v: "tw_files v = (tw_files w)(path \<mapsto> (case tw_files w path of None \<Rightarrow> [] | Some s \<Rightarrow> s) @ t)"
    using s by (auto simp: t_append_def t_set_def t_tick_def split: if_splits)
  show ?case
  proof (cases "ts = []")
    case True
    then show ?thesis using Cons.prems(1) s ok v by simp
  next
    case False
    then show ?thesis using Cons.IH [of v] Cons.prems(1) s ok v by (simp add: fun_eq_iff)
  qed
qed simp

text \<open>
  C24. What the workflow reads is what was computed: a successful write appends a text to the named file from which
  every output reads back with its value, whatever lines the values hold, and it changes no other file.
\<close>

theorem outputs_roundtrip:
  assumes "write_outputs ck path r w = Some (Inr (), w')" "path \<noteq> []"
    "\<And>n e. ck_random ck n = Some e \<Longrightarrow> CHR 0x0A \<notin> set e"
  shows "\<exists>text. tw_files w' = (tw_files w)(path \<mapsto> (case tw_files w path of None \<Rightarrow> [] | Some s \<Rightarrow> s) @ text) \<and>
    read_outputs text = Some (output_values r)"
proof -
  define nvs where "nvs = output_values r"
  obtain d where d: "delimiter_for (ck_random ck) (map snd nvs) = Some (Some d)"
    "append_each path ([] # map (heredoc d) nvs) w = (Inr (), w')"
    using assms(1,2) by (auto simp: write_outputs_def nvs_def split: option.splits)
  have "CHR 0x0A \<notin> set output_delimiter" by (simp add: output_delimiter_def)
  then have nl: "CHR 0x0A \<notin> set d" and free: "\<not> contains_delimiter (map snd nvs) d"
    using delimiter_from_result [OF d(1) [unfolded delimiter_for_def]] assms(3) by auto
  have names: "(n, v) \<in> set nvs \<Longrightarrow> CHR 0x0A \<notin> set n \<and> CHR ''<'' \<notin> set n" for n v
    unfolding nvs_def output_values_def by auto
  have "read_heredocs (Suc (length (split_on (CHR 0x0A) (concat (map (heredoc d) nvs)))))
      (split_on (CHR 0x0A) (concat (map (heredoc d) nvs))) = Some nvs"
  proof (rule read_heredocs_text [OF nl names])
    show "(n, v) \<in> set nvs \<Longrightarrow> d \<notin> set (split_on (CHR 0x0A) v)" for n v
      using free by (auto simp: contains_delimiter_iff)
    have "length nvs \<le> length (split_on (CHR 0x0A) (concat (map (heredoc d) nvs)))" for nvs
    proof (induction nvs)
      case (Cons nv nvs)
      then show ?case using heredoc_lines [of "concat (map (heredoc d) nvs)" d nv] by simp
    qed simp
    from this [of nvs] show "length nvs < Suc (length (split_on (CHR 0x0A) (concat (map (heredoc d) nvs))))"
      by (rule le_imp_less_Suc)
  qed
  then show ?thesis
    using append_each_files [OF d(2)] by (intro exI [of _ "concat (map (heredoc d) nvs)"]) (simp add: read_outputs_def Let_def nvs_def)
qed

section \<open>The hashed files\<close>

definition regular_in :: "tool_world \<Rightarrow> string \<Rightarrow> bool" where
  "regular_in w p \<longleftrightarrow> p \<noteq> [] \<and> tw_files w p \<noteq> None \<and> \<not> tw_dirs w p"

definition same_tree_of :: "tool_world \<Rightarrow> tool_world \<Rightarrow> bool" where
  "same_tree_of w w' \<longleftrightarrow> tw_files w' = tw_files w \<and> tw_dirs w' = tw_dirs w \<and> tw_fault w' = tw_fault w"

definition hashed_as :: "cache_config \<Rightarrow> tool_world \<Rightarrow> string list \<Rightarrow> (tool_error, file_hash list) result \<Rightarrow> bool" where
  "hashed_as ck w ps r \<longleftrightarrow>
     (case r of
        Inr hs \<Rightarrow> hs = map (\<lambda>p. (p, ck_sha ck (the (tw_files w p)))) (filter (regular_in w) ps)
      | Inl e \<Rightarrow> \<exists>p n. p \<in> set ps \<and> regular_in w p \<and> e = FileError p \<and> tw_fault w ReadCall n)"

lemma same_tree_hashed:
  assumes "same_tree_of w v" shows "hashed_as ck v ps r = hashed_as ck w ps r"
proof -
  have "regular_in v = regular_in w" using assms by (simp add: fun_eq_iff regular_in_def same_tree_of_def)
  then show ?thesis using assms by (cases r) (simp_all add: hashed_as_def same_tree_of_def)
qed

lemma same_tree_trans: "same_tree_of u v \<Longrightarrow> same_tree_of v w \<Longrightarrow> same_tree_of u w"
  by (simp add: same_tree_of_def)

lemma hash_file_regular:
  assumes "regular_in w p" "hash_file ck p v = (r, v')" "same_tree_of w v"
  shows "same_tree_of w v'" "r = Inr (p, ck_sha ck (the (tw_files w p))) \<or> r = Inl (FileError p) \<and> (\<exists>n. tw_fault w ReadCall n)"
  using assms
  by (auto simp: hash_file_def t_read_def t_tick_def t_fails_def same_tree_of_def regular_in_def split: if_splits)

lemma hash_each_files:
  assumes "hash_each ck ps v = (r, w')" "same_tree_of w v" "\<And>n. \<not> tw_fault w StatCall n"
  shows "same_tree_of w w' \<and> hashed_as ck w ps r"
  using assms(1,2)
proof (induction ps arbitrary: v r w')
  case Nil
  then show ?case by (auto simp: hashed_as_def)
next
  case (Cons p ps)
  have tick: "same_tree_of w (t_tick v)" using Cons.prems(2) by (simp add: same_tree_of_def t_tick_def)
  have ex: "t_exists p v = (file_exists p v, t_tick v)" by (simp add: t_exists_def)
  have found: "p \<noteq> [] \<Longrightarrow> file_exists p v = regular_in w p"
    using Cons.prems(2) assms(3) by (auto simp: file_exists_def t_fails_def regular_in_def same_tree_of_def)
  show ?case
  proof (cases "regular_in w p")
    case False
    have "hash_each ck ps (if p = [] then v else t_tick v) = (r, w')"
      using Cons.prems(1) ex found False by (simp split: if_splits)
    then have "same_tree_of w w' \<and> hashed_as ck w ps r"
      using Cons.IH [of "if p = [] then v else t_tick v" r w'] Cons.prems(2) tick by simp
    then show ?thesis using False by (auto simp: hashed_as_def split: sum.splits)
  next
    case True
    then have ne: "p \<noteq> []" by (simp add: regular_in_def)
    obtain h v1 where h: "hash_file ck p (t_tick v) = (h, v1)" by fastforce
    obtain rs v2 where rs: "hash_each ck ps v1 = (rs, v2)" by fastforce
    note one = hash_file_regular [OF True h tick]
    have more: "same_tree_of w v2 \<and> hashed_as ck w ps rs" by (rule Cons.IH [OF rs one(1)])
    have run: "(r, w') = (case h of Inl e \<Rightarrow> (Inl e, v1)
        | Inr d \<Rightarrow> (case rs of Inl e \<Rightarrow> (Inl e, v2) | Inr hs \<Rightarrow> (Inr (d # hs), v2)))"
      using Cons.prems(1) ne ex found [OF ne] True h rs
      by (cases h; cases rs) (auto simp: t_bind_def t_lift_def)
    show ?thesis
      using run one more True by (cases h; cases rs) (auto simp: hashed_as_def)
  qed
qed

text \<open>
  No tracked file is left out of a cache key in silence. When the file status can be read, the hashes of a
  list of paths are exactly those of the regular files among them, in sorted order and once each, with the
  contents on disk; or the manifest fails, and then a file that is there could not be read. Nothing is changed.
\<close>

theorem manifest_files_hashed:
  assumes "hashes_for_paths ck ps w = (r, w')" "\<And>n. \<not> tw_fault w StatCall n"
  shows "tw_files w' = tw_files w \<and>
    (case r of
       Inr hs \<Rightarrow> hs = map (\<lambda>p. (p, ck_sha ck (the (tw_files w p)))) (filter (regular_in w) (sort_dedup ps))
     | Inl e \<Rightarrow> \<exists>p n. p \<in> set (sort_dedup ps) \<and> regular_in w p \<and> e = FileError p \<and> tw_fault w ReadCall n)"
  using hash_each_files [of ck "sort_dedup ps" w r w' w] assms
  by (simp add: hashes_for_paths_def hashed_as_def same_tree_of_def)

text \<open>
  A file whose status cannot be read counts as missing, and git quotes a name with bytes outside ASCII, so its
  file is not found under the quoted name: both change the key of no cache.
\<close>

lemma unreadable_status_is_left_out:
  "p \<noteq> [] \<Longrightarrow> tw_fault w StatCall (tw_clock w) \<Longrightarrow> hash_each ck [p] w = (Inr [], t_tick w)"
  by (simp add: t_exists_def file_exists_def t_fails_def)

definition quoted_cafe :: string where
  "quoted_cafe = ''\"caf'' @ [CHR 0x5C] @ ''303'' @ [CHR 0x5C] @ ''251.proto\"''"

lemma quoted_input_is_not_hashed:
  assumes "\<And>v n a. tw_run w n a = Exited 0 (quoted_cafe @ newline) []" "tw_files w quoted_cafe = None"
    "tenv w ''GO_MK_GENERATE_INPUTS'' = ''proto''"
  shows "fst (tracked_hashes ck w) = Inr []"
proof -
  have ls: "git_ls_files specs v = ([quoted_cafe], snd (git_ls_files specs v)) \<and> tw_files (snd (git_ls_files specs v)) = tw_files v \<and>
      tw_environ (snd (git_ls_files specs v)) = tw_environ v \<and> tw_run (snd (git_ls_files specs v)) = tw_run v"
    if "\<And>n a. tw_run v n a = Exited 0 (quoted_cafe @ newline) []" for v :: tool_world and specs
  proof -
    have "non_empty_lines (quoted_cafe @ newline) = [quoted_cafe]" by code_simp
    then show ?thesis
      using that by (simp add: git_ls_files_def t_output_def t_exec_def Let_def apply_writes_def t_tick_def)
  qed
  obtain w1 where w1: "git_ls_files tracked_pathspecs w = ([quoted_cafe], w1)" "tw_files w1 = tw_files w"
    "tw_environ w1 = tw_environ w" "tw_run w1 = tw_run w"
    using ls [of w tracked_pathspecs] assms(1) by (metis prod.collapse)
  obtain w2 where w2: "git_ls_files [''proto''] w1 = ([quoted_cafe], w2)" "tw_files w2 = tw_files w"
    using ls [of w1 "[''proto'']"] assms(1) w1 by (metis prod.collapse)
  have f: "normalize_fields ''proto'' = [''proto'']" by code_simp
  have d: "sort_dedup [quoted_cafe, quoted_cafe] = [quoted_cafe]" by code_simp
  have n: "quoted_cafe \<noteq> []" by (simp add: quoted_cafe_def)
  have "hash_each ck [quoted_cafe] w2 = (Inr [], t_tick w2)"
    using n w2(2) assms(2) by (simp add: t_exists_def file_exists_def)
  then show ?thesis
    using assms(3) by (simp add: tracked_hashes_def w1 w2 f d hashes_for_paths_def del: hash_each.simps)
qed

section \<open>Witnesses\<close>

definition sample_cache :: cache_config where
  "sample_cache =
     \<lparr>ck_sha = id, ck_executable = Some ''/bin/go-mk'', ck_random = (\<lambda>n. Some (itoa_nat n)), ck_physical = (\<lambda>_. None)\<rparr>"

definition sample_result :: cache_result where
  "sample_result =
     \<lparr>cr_enabled = ''true'', cr_requires_submodules = ''false'', cr_paths = ''/w/gen'' @ newline @ output_delimiter, cr_key = ''k'',
      cr_warnings = [], cr_cgo_enabled = ''false'', cr_cgo_paths = [], cr_cgo_key = [], cr_lint_paths = ''/w/.make/x''\<rparr>"

lemma itoa_nat_inj: "itoa_nat m = itoa_nat n \<Longrightarrow> m = n"
  by (metis digits_val_itoa_nat)

theorem delimiter_search_ends_witness:
  "\<exists>d. delimiter_for (\<lambda>n. Some (itoa_nat n)) [''a'' @ newline @ output_delimiter] = Some (Some d) \<and>
    (\<forall>v \<in> set [''a'' @ newline @ output_delimiter]. d \<notin> set (split_on (CHR 0x0A) v))"
  by (rule delimiter_search_ends) (simp, simp add: inj_on_def itoa_nat_inj)

theorem outputs_roundtrip_witness:
  "\<exists>text w'. write_outputs sample_cache ''out'' sample_result sample_tool = Some (Inr (), w') \<and>
    tw_files w' ''out'' = Some text \<and> read_outputs text = Some (output_values sample_result)"
proof -
  define vs where "vs = map snd (output_values sample_result)"
  have d: "contains_delimiter vs output_delimiter" "\<not> contains_delimiter vs (output_delimiter @ ''-'' @ itoa_nat 0)"
    unfolding vs_def by code_simp+
  have "delimiter_for (ck_random sample_cache) vs = Some (Some (output_delimiter @ ''-'' @ itoa_nat 0))"
    unfolding delimiter_for_def
    by (subst delimiter_from.simps, subst delimiter_from.simps) (use d in \<open>simp add: sample_cache_def\<close>)
  moreover have "\<exists>w'. append_each p ts w = (Inr (), w')" if "\<And>c n. \<not> tw_fault w c n" for p ts and w :: tool_world
    using that by (induction ts arbitrary: w) (auto simp: t_append_def t_set_def t_fails_def t_tick_def)
  ultimately obtain w' where w': "write_outputs sample_cache ''out'' sample_result sample_tool = Some (Inr (), w')"
    unfolding vs_def by (fastforce simp: write_outputs_def sample_tool_def simp del: append_each.simps)
  have nl: "CHR 0x0A \<notin> set e" if "ck_random sample_cache n = Some e" for n e
    using all_digits_itoa_nat [of n] that by (auto simp: sample_cache_def all_digits_def is_digit_def list_all_iff)
  have "\<exists>text. tw_files w' = (tw_files sample_tool)(''out'' \<mapsto>
      (case tw_files sample_tool ''out'' of None \<Rightarrow> [] | Some s \<Rightarrow> s) @ text) \<and> read_outputs text = Some (output_values sample_result)"
    by (rule outputs_roundtrip [OF w']) (simp, rule nl)
  then obtain written where "tw_files w' = (tw_files sample_tool)(''out'' \<mapsto>
      (case tw_files sample_tool ''out'' of None \<Rightarrow> [] | Some s \<Rightarrow> s) @ written)" "read_outputs written = Some (output_values sample_result)"
    by blast
  moreover have "tw_files sample_tool ''out'' = None" by (simp add: sample_tool_def)
  ultimately show ?thesis by (intro exI [of _ written] exI [of _ w']) (simp add: w')
qed

theorem manifest_files_hashed_witness:
  "let w = sample_tool\<lparr>tw_files := (\<lambda>_. None)(''go.mod'' \<mapsto> ''module m'')\<rparr> in
   \<exists>r w'. hashes_for_paths sample_cache [''go.sum'', ''go.mod''] w = (r, w') \<and> r = Inr [(''go.mod'', ''module m'')]"
proof -
  define w :: tool_world where "w = sample_tool\<lparr>tw_files := (\<lambda>_. None)(''go.mod'' \<mapsto> ''module m'')\<rparr>"
  obtain r w' where run: "hashes_for_paths sample_cache [''go.sum'', ''go.mod''] w = (r, w')" by fastforce
  have nf: "\<not> tw_fault w c n" for c n by (simp add: w_def sample_tool_def)
  have s: "sort_dedup [''go.sum'', ''go.mod''] = [''go.mod'', ''go.sum'']" by code_simp
  have "r = Inr [(''go.mod'', ''module m'')]"
    using manifest_files_hashed [OF run nf] nf
    by (cases r) (simp_all add: s regular_in_def w_def sample_tool_def sample_cache_def)
  then show ?thesis using run by (simp add: w_def Let_def)
qed

end
