(* ===== verification/ScopedLint.thy ===== *)
theory ScopedLint
  imports LintGates TokenGate
begin

text \<open>
  The scoped lint commands of \<open>lint_scoped.go\<close>: the files the formatter gets, the format, vet and test commands,
  the captures the baseline commands use, and the lint of listed files and of staged lines. Standard error is
  not modelled.
\<close>

section \<open>The files of the module\<close>

definition go_list_template :: string where
  "go_list_template =
     ''{{$d := .Dir}}{{range .GoFiles}}{{$d}}/{{.}}'' @ newline @ ''{{end}}{{range .CgoFiles}}{{$d}}/{{.}}'' @ newline @
     ''{{end}}{{range .TestGoFiles}}{{$d}}/{{.}}'' @ newline @ ''{{end}}{{range .XTestGoFiles}}{{$d}}/{{.}}'' @ newline @
     ''{{end}}{{range .IgnoredGoFiles}}{{$d}}/{{.}}'' @ newline @ ''{{end}}''"

text \<open>The key of a file in the walk's roots; a file that has no relative path is its own key.\<close>

definition walk_key :: "string \<Rightarrow> string \<Rightarrow> string" where
  "walk_key cwd line = (case path_rel cwd line of None \<Rightarrow> line | Some rel \<Rightarrow> ''./'' @ rel)"

definition outside_worktrees :: "string \<Rightarrow> string list \<Rightarrow> string list \<Rightarrow> string list" where
  "outside_worktrees cwd roots ls =
     (if roots = [] then ls
      else (let by_key = (\<lambda>k. find (\<lambda>l. walk_key cwd l = k) (rev ls))
            in map (\<lambda>k. case by_key k of None \<Rightarrow> [] | Some l \<Rightarrow> l) (drop_nested_paths (map (walk_key cwd) ls) roots)))"

definition module_go_files :: "tree \<Rightarrow> string list \<Rightarrow> tool_world \<Rightarrow> (tool_error, string list) result \<times> tool_world" where
  "module_go_files t targets w =
     (let argv = [''go'', ''list'', ''-f'', go_list_template] @ targets in
      case t_output argv w of
        (Inl None, w) \<Rightarrow> (Inl (CommandNotStarted argv), w)
      | (Inl (Some s), w) \<Rightarrow> (Inl (CommandFailed argv s), w)
      | (Inr out, w) \<Rightarrow>
          (case nested_worktree_roots w t of
             None \<Rightarrow> (Inl (FileError ''.''), w)
           | Some roots \<Rightarrow>
               (case tw_cwd w of
                  None \<Rightarrow> (Inl (FileError ''.''), w)
                | Some cwd \<Rightarrow>
                    (Inr (sorted_unique (outside_worktrees cwd roots (filter (\<lambda>l. l \<noteq> []) (split_on (CHR 0x0A) out)))), w))))"

definition default_module_files :: "tree \<Rightarrow> tool_world \<Rightarrow> (tool_error, string list) result \<times> tool_world" where
  "default_module_files t w = module_go_files t (split_words (tenv_default w ''GOLANGCI_LINT_TARGETS'' ''./...'')) w"

section \<open>Format, vet and test\<close>

definition run_fmt :: "lint_context \<Rightarrow> tool_world \<Rightarrow> (tool_error, unit) result \<times> tool_world" where
  "run_fmt lc =
     t_bind ensure_lint_tools (\<lambda>_ w.
       (case golangci_fmt_command lc w of
          (Inl NoGoFiles, w) \<Rightarrow> (Inr (), w)
        | (Inl e, w) \<Rightarrow> (Inl e, w)
        | (Inr (binary, args), w) \<Rightarrow> run_lint_cpu binary args w))"

definition run_vet :: "tool_world \<Rightarrow> (tool_error, unit) result \<times> tool_world" where
  "run_vet w = run_lint_cpu ''go'' (''vet'' # split_words (tenv_default w ''GO_VET_TARGETS'' ''./...'')) w"

definition test_ldflags_args :: "tool_world \<Rightarrow> string list" where
  "test_ldflags_args w =
     (let v = trim_space (tenv w ''GO_TEST_LDFLAGS'') in if v = [] then [] else [''-ldflags'', v])"

definition run_test :: "tool_world \<Rightarrow> (tool_error, unit) result \<times> tool_world" where
  "run_test w =
     run_lint_cpu ''go'' (''test'' # test_ldflags_args w @ split_words (tenv_default w ''GO_TEST_TARGETS'' ''./...'')) w"

section \<open>Captures\<close>

definition capture_arg :: "string list \<Rightarrow> nat \<Rightarrow> string \<Rightarrow> string" where
  "capture_arg args i fallback = (if i < length args \<and> args ! i \<noteq> [] then args ! i else fallback)"

definition run_capture_golangci :: "lint_context \<Rightarrow> string list \<Rightarrow> tool_world \<Rightarrow> (tool_error, unit) result \<times> tool_world" where
  "run_capture_golangci lc args =
     t_bind ensure_make_dir (\<lambda>_.
     t_bind (capture_golangci_findings lc (capture_arg args 0 (make_file ''golangci-lint.raw.out''))
               (capture_arg args 1 (make_file ''golangci-lint.out''))) (\<lambda>_. t_lift (Inr ())))"

definition atoi_safe :: "string \<Rightarrow> int option" where "atoi_safe text = atoi (trim_space text)"

definition baseline_run_count :: "tool_world \<Rightarrow> nat" where
  "baseline_run_count w =
     (case atoi_safe (tenv w ''GOLANGCI_LINT_BASELINE_RUNS'') of
        None \<Rightarrow> 3
      | Some n \<Rightarrow> if tenv w ''GOLANGCI_LINT_BASELINE_RUNS'' \<noteq> [] \<and> 0 < n then nat n else 3)"

text \<open>The runs \<open>i\<close> to \<open>i + n - 1\<close>: the raw lines and the findings of all of them.\<close>

fun capture_runs :: "lint_context \<Rightarrow> nat \<Rightarrow> nat \<Rightarrow> tool_world \<Rightarrow>
    (tool_error, string list \<times> string list) result \<times> tool_world" where
  "capture_runs lc i 0 w = (Inr ([], []), w)"
| "capture_runs lc i (Suc n) w =
     (let raw = make_file (''golangci-lint-baseline.'' @ itoa_nat i @ ''.raw.out'');
          out = make_file (''golangci-lint-baseline.'' @ itoa_nat i @ ''.out'') in
      t_bind (capture_golangci_findings lc raw out) (\<lambda>_.
      t_bind (read_file_lines raw) (\<lambda>rs.
      t_bind (read_file_lines out) (\<lambda>fs.
      t_bind (capture_runs lc (Suc i) n) (\<lambda>(more_raw, more). t_lift (Inr (rs @ more_raw, fs @ more)))))) w)"

definition run_capture_golangci_baseline :: "lint_context \<Rightarrow> string list \<Rightarrow> tool_world \<Rightarrow>
    (tool_error, unit) result \<times> tool_world" where
  "run_capture_golangci_baseline lc args =
     t_bind ensure_make_dir (\<lambda>_ w.
     t_bind (capture_runs lc 1 (baseline_run_count w)) (\<lambda>(raw, found).
     t_bind (write_findings_file (capture_arg args 0 (make_file ''golangci-lint-baseline.raw.out'')) raw) (\<lambda>_.
       write_findings_file (capture_arg args 1 (make_file ''golangci-lint-baseline.out'')) (sorted_unique found))) w)"

definition run_capture_golangci_scope :: "lint_context \<Rightarrow> string list \<Rightarrow> tool_world \<Rightarrow>
    (tool_error, unit) result \<times> tool_world" where
  "run_capture_golangci_scope lc args =
     t_bind ensure_make_dir (\<lambda>_.
       capture_golangci_scope lc CaptureStandard (capture_arg args 0 (make_file ''golangci-lint-scope.raw.out''))
         (capture_arg args 1 (make_file ''golangci-lint-scope.out'')))"

definition run_capture_gocyclo :: "lint_context \<Rightarrow> string list \<Rightarrow> tool_world \<Rightarrow> (tool_error, unit) result \<times> tool_world" where
  "run_capture_gocyclo lc args =
     t_bind ensure_make_dir (\<lambda>_.
     t_bind (install_default ''GOCYCLO_INSTALL'' gocyclo_install) (\<lambda>_.
     t_bind (capture_gocyclo_findings lc (capture_arg args 0 (make_file ''gocyclo.raw.out''))
               (capture_arg args 1 (make_file ''gocyclo.out''))) (\<lambda>_. t_lift (Inr ()))))"

definition run_capture_deadcode :: "lint_context \<Rightarrow> string list \<Rightarrow> tool_world \<Rightarrow> (tool_error, unit) result \<times> tool_world" where
  "run_capture_deadcode lc args =
     t_bind ensure_make_dir (\<lambda>_.
     t_bind (install_default ''DEADCODE_INSTALL'' deadcode_install) (\<lambda>_.
       capture_deadcode_findings lc (capture_arg args 0 (make_file ''deadcode.raw.out''))
         (capture_arg args 1 (make_file ''deadcode.out''))))"

section \<open>Listed files and staged lines\<close>

text \<open>Rows whose two numbers parse, with the space around a number left out.\<close>

definition range_of_row :: "string \<Rightarrow> diff_range option" where
  "range_of_row l =
     (case split_on (CHR 0x09) l of
        f # a # b # _ \<Rightarrow>
          (case (atoi_safe a, atoi_safe b) of
             (Some m, Some n) \<Rightarrow> Some \<lparr>range_file = f, range_start = m, range_end = n\<rparr>
           | _ \<Rightarrow> None)
      | _ \<Rightarrow> None)"

definition load_range_rows :: "string \<Rightarrow> tool_world \<Rightarrow> (tool_error, diff_range list) result \<times> tool_world" where
  "load_range_rows path =
     t_bind (read_file_lines path) (\<lambda>ls. t_lift (Inr (List.map_filter range_of_row ls)))"

definition ranges_text :: "diff_range list \<Rightarrow> string" where
  "ranges_text rs = concat (map (\<lambda>r. render_range r @ newline) rs)"

definition scoped_findings :: "string \<Rightarrow> string list \<Rightarrow> string list \<Rightarrow> tool_world \<Rightarrow>
    (tool_error, string list) result \<times> tool_world" where
  "scoped_findings ranges_file files extracted =
     (if ranges_file \<noteq> []
      then t_bind (load_range_rows ranges_file) (\<lambda>ranges. t_lift (Inr (line_in_ranges extracted ranges)))
      else t_lift (Inr (filter_scoped_findings extracted files)))"

definition judge_scoped :: "string \<Rightarrow> string \<Rightarrow> string \<Rightarrow> string \<Rightarrow> string list \<Rightarrow> tool_world \<Rightarrow>
    (tool_error, bool) result \<times> tool_world" where
  "judge_scoped gate label baseline_path excludes found w =
     (if found = [] then (Inr True, t_println (gate @ '': OK (0 findings on '' @ label @ '')'') w)
      else if tenv w ''BASELINE'' = []
      then (Inr False, t_print (concat (map (\<lambda>l. l @ newline) found)) (t_println (gate @ '' findings on '' @ label @ '':'') w))
      else t_gate gate found baseline_path fix_findings excludes [] False w)"

definition run_scoped_gate :: "string \<Rightarrow> string \<Rightarrow> string \<Rightarrow> string list \<Rightarrow> string \<Rightarrow> string \<Rightarrow> string \<Rightarrow>
    tool_world \<Rightarrow> (tool_error, bool) result \<times> tool_world" where
  "run_scoped_gate gate raw findings_path files baseline_path excludes ranges_file =
     t_bind (t_extract raw go_location_pattern excludes) (\<lambda>(extracted, _).
     t_bind (write_findings_file findings_path extracted) (\<lambda>_.
     t_bind (scoped_findings ranges_file files extracted)
       (judge_scoped gate (if ranges_file \<noteq> [] then ''staged lines'' else ''listed files'') baseline_path excludes)))"

definition resolve_staticcheck_bin :: "lint_context \<Rightarrow> tool_world \<Rightarrow> string" where
  "resolve_staticcheck_bin lc w =
     (let configured = tenv w ''STATICCHECK_EXTRA_BIN''; candidate = make_file ''staticcheck-extra'' in
      if configured \<noteq> [] then (if lc_executable lc w configured then configured else [])
      else if lc_executable lc w candidate then candidate else [])"

definition lint_files_golangci :: "lint_context \<Rightarrow> string list \<Rightarrow> tool_world \<Rightarrow> (tool_error, bool) result \<times> tool_world" where
  "lint_files_golangci lc files w =
     (let raw = make_file ''lint-files.golangci.raw.out'';
          flags = tenv_default w ''GOLANGCI_LINT_RUN_FLAGS'' (tenv w ''GOLANGCI_LINT_FLAGS'') in
      t_bind (capture_command (tenv_default w ''GOLANGCI_LINT'' ''golangci-lint'')
                (''run'' # split_words flags @ scoped_packages files) raw) (\<lambda>_ w.
        run_scoped_gate ''golangci-lint'' raw (make_file ''lint-files.golangci.out'') files
          (tenv_default w ''GOLANGCI_LINT_BASELINE'' ''.golangci-lint-baseline.txt'') (golangci_excludes w)
          (tenv w ''LINT_LINE_RANGES'') w) w)"

definition lint_files_staticcheck :: "lint_context \<Rightarrow> string list \<Rightarrow> tool_world \<Rightarrow> (tool_error, bool) result \<times> tool_world" where
  "lint_files_staticcheck lc files w =
     (let binary = resolve_staticcheck_bin lc w; raw = make_file ''lint-files.staticcheck.raw.out'' in
      if binary = [] then (Inr True, t_println ''staticcheck-extra: not configured (skipped)'' w)
      else t_bind (capture_command binary (split_words (staticcheck_flags w) @ scoped_packages files) raw) (\<lambda>_ w.
             run_scoped_gate ''staticcheck-extra'' raw (make_file ''lint-files.staticcheck.out'') files
               (tenv_default w ''STATICCHECK_EXTRA_BASELINE'' ''.staticcheck-extra-baseline.txt'') (staticcheck_excludes w)
               (tenv w ''LINT_LINE_RANGES'') w) w)"

definition run_lint_files :: "lint_context \<Rightarrow> tool_world \<Rightarrow> int \<times> tool_world" where
  "run_lint_files lc w =
     (let files = split_words (tenv_default w ''LINT_FILES'' ''./...'') in
      or_status ensure_make_dir (\<lambda>_. or_status ensure_lint_tools (\<lambda>_ w.
        or_status (lint_files_golangci lc files) (\<lambda>golangci.
        or_status (lint_files_staticcheck lc files) (\<lambda>static w.
          (let status = (if golangci \<and> static then 0 else 1) in
           (status, if status \<noteq> 0 \<and> tenv w ''BASELINE'' \<noteq> []
                    then t_print (newline @ ''Run with BASELINE=\"\" to see all findings without the baseline gate.'' @ newline) w
                    else w)))) (snd (lc_resolve lc w)))) w)"

definition staged_go_files :: "tool_world \<Rightarrow> (tool_error, string list) result \<times> tool_world" where
  "staged_go_files w =
     (let argv = [''git'', ''diff'', ''--cached'', ''--name-only'', ''--relative'', ''--diff-filter=ACM''] in
      case t_output argv w of
        (Inl None, w) \<Rightarrow> (Inl (CommandNotStarted argv), w)
      | (Inl (Some s), w) \<Rightarrow> (Inl (CommandFailed argv s), w)
      | (Inr out, w) \<Rightarrow> (Inr (filter (suffix ''.go'') (split_on (CHR 0x0A) out)), w))"

definition staged_go_diff :: "tool_world \<Rightarrow> (tool_error, string list) result \<times> tool_world" where
  "staged_go_diff w =
     (let argv = [''git'', ''diff'', ''--cached'', ''--unified=0'', ''--relative'', ''--diff-filter=ACM'', ''--'', ''*.go''] in
      case t_output argv w of
        (Inl None, w) \<Rightarrow> (Inl (CommandNotStarted argv), w)
      | (Inl (Some s), w) \<Rightarrow> (Inl (CommandFailed argv s), w)
      | (Inr out, w) \<Rightarrow>
          (let diff = trim_suffix out newline in (Inr (if diff = [] then [] else split_on (CHR 0x0A) diff), w)))"

definition write_ranges_file :: "string \<Rightarrow> diff_range list \<Rightarrow> tool_world \<Rightarrow> (tool_error, unit) result \<times> tool_world" where
  "write_ranges_file path ranges w =
     (let (ok, w) = t_set WriteCall path (Some (ranges_text ranges)) w in (if ok then Inr () else Inl (FileError path), w))"

definition t_setenv :: "string \<Rightarrow> string \<Rightarrow> tool_world \<Rightarrow> tool_world" where
  "t_setenv k v w = w\<lparr>tw_environ := set_env_var (tw_environ w) k v\<rparr>"

definition lint_staged :: "lint_context \<Rightarrow> string list \<Rightarrow> diff_range list \<Rightarrow> string \<Rightarrow> tool_world \<Rightarrow> int \<times> tool_world" where
  "lint_staged lc files ranges ranges_file w =
     (if ranges = [] then (0, t_println ''lint-diff: no staged Go line changes'' w)
      else (let w = (if tenv w ''BASELINE'' = [] then t_setenv ''BASELINE'' ''1'' w else w);
                w = t_setenv ''LINT_FILES'' (str_join '' '' files) w
            in run_lint_files lc (t_setenv ''LINT_LINE_RANGES'' ranges_file w)))"

definition run_lint_diff :: "lint_context \<Rightarrow> tool_world \<Rightarrow> int \<times> tool_world" where
  "run_lint_diff lc =
     or_status ensure_make_dir (\<lambda>_.
     or_status staged_go_files (\<lambda>files w.
       if files = [] then (0, t_println ''lint-diff: no staged .go files'' w)
       else or_status staged_go_diff (\<lambda>patch.
            (let ranges = diff_ranges patch; ranges_file = make_file ''lint-diff.ranges'' in
             or_status (write_ranges_file ranges_file ranges) (\<lambda>_. lint_staged lc files ranges ranges_file))) w))"

section \<open>The staged ranges\<close>

lemma trim_space_itoa: "trim_space (itoa n) = itoa n"
proof -
  have s: "list_all slug_char (itoa n)" using itoa_chars [of _ n] by (auto simp: list_all_iff slug_char_def)
  have ne: "itoa n \<noteq> []" using all_digits_itoa_nat by (auto simp: itoa_def all_digits_def split: if_splits)
  then have "plain_char (hd (itoa n))" using s slug_char_plain by (cases "itoa n") auto
  then have "skip_space (itoa n) = itoa n" using ne by (cases "itoa n") auto
  then show ?thesis using skip_space_right_slug [OF s] by (simp add: trim_space_def)
qed

lemma range_of_rendered:
  assumes "CHR 0x09 \<notin> set (range_file r)" "int64 (range_start r)" "int64 (range_end r)"
  shows "range_of_row (render_range r) = Some r"
proof -
  have "CHR 0x09 \<notin> set (itoa n)" for n
    by (rule itoa_free) (simp_all add: is_digit_def)
  then have "split_on (CHR 0x09) (render_range r) = [range_file r, itoa (range_start r), itoa (range_end r)]"
    using assms(1) by (simp add: render_range_def split_on_append split_on_free)
  then show ?thesis using assms(2,3) by (simp add: range_of_row_def atoi_safe_def trim_space_itoa atoi_itoa int64_def)
qed

lemma text_lines_ranges:
  assumes "\<And>r. r \<in> set rs \<Longrightarrow> CHR 0x0A \<notin> set (range_file r)"
  shows "text_lines (ranges_text rs) = map render_range rs"
proof (cases "rs = []")
  case False
  have j: "concat (map (\<lambda>l. l @ newline) ls) = str_join newline ls @ newline" if "ls \<noteq> []" for ls :: "string list"
    using that by (induction ls rule: induct_list012) auto
  have t: "ranges_text rs = str_join newline (map render_range rs) @ newline"
    using j [of "map render_range rs"] False by (simp add: ranges_text_def comp_def)
  have "CHR 0x0A \<notin> set (itoa n)" for n
    by (rule itoa_free) (simp_all add: is_digit_def)
  then have "split_on (CHR 0x0A) (str_join newline (map render_range rs)) = map render_range rs"
    using assms False by (intro split_on_join) (auto simp: render_range_def)
  moreover have "str_join newline (map render_range rs) \<noteq> []"
    using False by (cases rs; cases "tl rs") (auto simp: render_range_def)
  ultimately show ?thesis by (simp add: text_lines_def t)
qed (simp add: ranges_text_def text_lines_def)

lemma loaded_ranges:
  assumes "load_range_rows path w = (Inr rs, w')" "tw_files w path = Some (ranges_text (diff_ranges diff))"
  shows "rs = diff_ranges diff"
proof -
  have wf: "int64 (range_start r) \<and> int64 (range_end r) \<and> (\<forall>x \<in> set (range_file r). x \<notin> set ascii_spaces)"
    if "r \<in> set (diff_ranges diff)" for r
    using diff_ranges_from_wf [of r "[]" diff] that by (simp add: diff_ranges_def)
  then have free: "CHR 0x09 \<notin> set (range_file r) \<and> CHR 0x0A \<notin> set (range_file r)" if "r \<in> set (diff_ranges diff)" for r
    using that by (fastforce simp: ascii_spaces_def)
  have "List.map_filter range_of_row (map render_range qs) = qs" if "set qs \<subseteq> set (diff_ranges diff)" for qs
    using that
  proof (induction qs)
    case (Cons q qs)
    then have "range_of_row (render_range q) = Some q" using wf free by (intro range_of_rendered) auto
    then show ?case using Cons by (simp add: List.map_filter_simps)
  qed (simp add: List.map_filter_simps)
  then have "List.map_filter range_of_row (text_lines (ranges_text (diff_ranges diff))) = diff_ranges diff"
    using free by (subst text_lines_ranges) auto
  then show ?thesis using assms
    by (auto simp: load_range_rows_def t_bind_def t_lift_def read_file_lines_def t_read_def split: if_splits)
qed

text \<open>The world a scoped gate is judged in: the findings are written, and the ranges are read.\<close>

definition judging_world :: "string \<Rightarrow> string \<Rightarrow> string list \<Rightarrow> tool_world \<Rightarrow> tool_world" where
  "judging_world out ranges_file extracted w =
     snd (load_range_rows ranges_file (snd (write_findings_file out extracted (t_tick w))))"

text \<open>The baseline of the gate records the key of a finding, both not being excluded.\<close>

definition baseline_records :: "string \<Rightarrow> string \<Rightarrow> string \<Rightarrow> tool_world \<Rightarrow> string set \<Rightarrow> bool" where
  "baseline_records gate path excludes v xs \<longleftrightarrow>
     (\<exists>base exclude scope. read_baseline_findings (snapshot v) path gate excludes [] = Inr base \<and>
        compile_patterns (tw_compile v) excludes [] = Inr (exclude, scope) \<and>
        (\<forall>x \<in> xs. filter_keep exclude scope x \<longrightarrow>
           (\<exists>y \<in> set base. filter_keep exclude scope y \<and> baseline_key y = baseline_key x)))"

lemma keys_covered:
  "gate_key_set (apply_filters xs exclude scope) \<subseteq> gate_key_set (apply_filters ys exclude scope) \<longleftrightarrow>
     (\<forall>x \<in> set xs. filter_keep exclude scope x \<longrightarrow>
        (\<exists>y \<in> set ys. filter_keep exclude scope y \<and> baseline_key y = baseline_key x))"
proof -
  have keys: "k \<in> gate_key_set (apply_filters zs exclude scope) \<longleftrightarrow>
      (\<exists>z \<in> set zs. filter_keep exclude scope z \<and> baseline_key z = k)" for k zs
    unfolding gate_key_set_image apply_filters_filter by auto
  show ?thesis
  proof (intro iffI ballI impI subsetI)
    fix x assume "gate_key_set (apply_filters xs exclude scope) \<subseteq> gate_key_set (apply_filters ys exclude scope)"
      "x \<in> set xs" "filter_keep exclude scope x"
    then have "baseline_key x \<in> gate_key_set (apply_filters ys exclude scope)" using keys [of _ xs] by blast
    then show "\<exists>y \<in> set ys. filter_keep exclude scope y \<and> baseline_key y = baseline_key x" unfolding keys .
  next
    fix k assume all: "\<forall>x \<in> set xs. filter_keep exclude scope x \<longrightarrow>
        (\<exists>y \<in> set ys. filter_keep exclude scope y \<and> baseline_key y = baseline_key x)"
      and "k \<in> gate_key_set (apply_filters xs exclude scope)"
    then obtain x where "x \<in> set xs" "filter_keep exclude scope x" "baseline_key x = k" unfolding keys by blast
    with all show "k \<in> gate_key_set (apply_filters ys exclude scope)" unfolding keys by metis
  qed
qed

lemma t_gate_records:
  assumes "t_gate gate found path remediation excludes [] suppress v = (Inr passed, v')"
  shows "passed \<longleftrightarrow> baseline_records gate path excludes v (set found)"
proof -
  obtain r log where run: "run_gate_and_print (snapshot v) gate found path remediation excludes [] suppress (fresh_log v) = (r, log)"
    by fastforce
  have r: "r = Inr passed" using assms run by (cases r) (auto simp: t_gate_def)
  have compile: "lw_compile (snapshot v) = tw_compile v" by (simp add: snapshot_def)
  obtain base where base: "read_baseline_findings (snapshot v) path gate excludes [] = Inr base"
    using run r by (auto simp: run_gate_and_print_def split: sum.splits)
  obtain exclude scope where pats: "compile_patterns (tw_compile v) excludes [] = Inr (exclude, scope)"
    using run r base compile by (auto simp: run_gate_and_print_def split: sum.splits)
  have "passed \<longleftrightarrow> gate_key_set (apply_filters found exclude scope) \<subseteq> gate_key_set (apply_filters base exclude scope)"
    using run r base pats compile by (auto simp: run_gate_and_print_def evaluate_gate_passed Let_def)
  also have "\<dots> \<longleftrightarrow> (\<forall>x \<in> set found. filter_keep exclude scope x \<longrightarrow>
      (\<exists>y \<in> set base. filter_keep exclude scope y \<and> baseline_key y = baseline_key x))"
    by (rule keys_covered)
  finally show ?thesis using base pats by (auto simp: baseline_records_def)
qed

text \<open>
  C29. The lint of staged lines judges staged lines only, and judges them all. When the range file holds what the
  command wrote for a diff as \<open>git diff --unified=0\<close> writes it, the gate extracts the findings of the tool, and
  passes exactly when none of them stands on a line the diff adds, or there is a baseline to judge by
  (\<open>BASELINE\<close> is set, as \<open>lint-diff\<close> always does) that records the key of every such finding that is not excluded.
\<close>

theorem scoped_gate_judges_staged_lines:
  assumes "run_scoped_gate gate raw out files baseline_path excludes ranges_file w = (Inr passed, w')"
    "tw_files w ranges_file = Some (ranges_text (diff_ranges (pre @ diff_text ds)))" "ranges_file \<noteq> []" "ranges_file \<noteq> out"
    "list_all body_line pre" "list_all good_section ds"
  shows "\<exists>extracted dropped. extract_findings (snapshot w) raw go_location_pattern excludes = Inr (extracted, dropped) \<and>
    (passed \<longleftrightarrow>
       (\<forall>x \<in> set extracted. \<not> on_added_line ds x) \<or>
       tenv w ''BASELINE'' \<noteq> [] \<and>
       baseline_records gate baseline_path excludes (judging_world out ranges_file extracted w)
         {x \<in> set extracted. on_added_line ds x})"
proof -
  obtain extracted dropped w1 where x: "t_extract raw go_location_pattern excludes w = (Inr (extracted, dropped), w1)"
    using assms(1) by (auto simp: run_scoped_gate_def t_bind_Inr)
  then have e: "extract_findings (snapshot w) raw go_location_pattern excludes = Inr (extracted, dropped)" "w1 = t_tick w"
    by (auto simp: t_extract_def split: sum.splits)
  obtain w2 where w: "write_findings_file out extracted w1 = (Inr (), w2)"
    using assms(1) x by (auto simp: run_scoped_gate_def t_bind_Inr)
  have f2: "tw_files w2 ranges_file = tw_files w ranges_file" "tw_environ w2 = tw_environ w"
    using w e(2) assms(4) by (auto simp: write_findings_file_def t_set_def t_tick_def Let_def split: if_splits)
  obtain rs w3 where r: "load_range_rows ranges_file w2 = (Inr rs, w3)"
    and j: "judge_scoped gate ''staged lines'' baseline_path excludes (line_in_ranges extracted rs) w3 = (Inr passed, w')"
    using assms(1,3) x w by (auto simp: run_scoped_gate_def t_bind_Inr scoped_findings_def t_lift_def)
  have rs: "rs = diff_ranges (pre @ diff_text ds)" by (rule loaded_ranges [OF r]) (simp add: f2(1) assms(2))
  have w3: "judging_world out ranges_file extracted w = w3" using w r e(2) by (simp add: judging_world_def)
  have env: "tw_environ w3 = tw_environ w"
    using r f2(2) by (auto simp: load_range_rows_def t_bind_Inr t_lift_def read_file_lines_def t_read_def t_tick_def split: if_splits option.splits)
  have found: "set (line_in_ranges extracted rs) = {x \<in> set extracted. on_added_line ds x}"
    using diff_scope_member [OF assms(5,6)] unfolding rs by blast
  have none: "line_in_ranges extracted rs = [] \<longleftrightarrow> (\<forall>x \<in> set extracted. \<not> on_added_line ds x)"
    using found by (metis (mono_tags, lifting) empty_Collect_eq set_empty)
  have "passed \<longleftrightarrow> (\<forall>x \<in> set extracted. \<not> on_added_line ds x) \<or> tenv w ''BASELINE'' \<noteq> [] \<and>
      baseline_records gate baseline_path excludes w3 {x \<in> set extracted. on_added_line ds x}"
  proof (cases "line_in_ranges extracted rs = [] \<or> tenv w ''BASELINE'' = []")
    case True
    then show ?thesis using j env none by (auto simp: judge_scoped_def split: if_splits)
  next
    case False
    then have "t_gate gate (line_in_ranges extracted rs) baseline_path fix_findings excludes [] False w3 = (Inr passed, w')"
      using j env by (simp add: judge_scoped_def)
    from t_gate_records [OF this] show ?thesis using False none unfolding found by blast
  qed
  then show ?thesis using e(1) unfolding w3 [symmetric] by blast
qed

text \<open>
  The exit status of the linter is dropped: a golangci-lint that crashes without a finding passes the lint of
  listed files, while the gate of the whole module fails.
\<close>

lemma scoped_lint_drops_a_crash:
  assumes "\<And>c n. \<not> tw_fault w c n" "\<And>p. tw_compile w p \<noteq> None" "tenv w ''LINT_LINE_RANGES'' = []"
    "\<And>argv. tw_run w (length (tw_ran w)) argv = Exited status [] []"
  shows "fst (lint_files_golangci lc files w) = Inr True"
proof -
  have fails: "t_fails c v = False" if "tw_fault v = tw_fault w" for c v
    using assms(1) that by (simp add: t_fails_def)
  obtain m where m: "tw_compile w go_location_pattern = Some m" using assms(2) by fastforce
  show ?thesis
    using assms(3,4) m fails
    by (simp add: lint_files_golangci_def Let_def t_bind_def capture_command_def t_set_def t_tick_def t_exec_def
        apply_writes_def run_scoped_gate_def t_extract_def extract_findings_def read_lines_def snapshot_def
        result_bind_def text_lines_def write_findings_file_def scoped_findings_def t_lift_def filter_scoped_findings_def
        judge_scoped_def)
qed

definition staged_tool :: tool_world where
  "staged_tool =
     sample_tool\<lparr>tw_environ := [''BASELINE=1''],
       tw_files := [''r'' \<mapsto> ''a.go'' @ tab @ ''4'' @ tab @ ''4'' @ newline,
         ''x'' \<mapsto> ''a.go:4:1: m'' @ newline @ ''a.go:9:1: m'' @ newline, ''/w/a.go'' \<mapsto> []],
       tw_compile := (\<lambda>p. Some (\<lambda>_. True))\<rparr>"

theorem scoped_gate_judges_staged_lines_witness:
  "\<exists>w' ds. run_scoped_gate ''g'' ''x'' ''o'' [] ''b'' [] ''r'' staged_tool = (Inr False, w') \<and>
    tw_files staged_tool ''r'' = Some (ranges_text (diff_ranges (diff_text ds))) \<and>
    tenv staged_tool ''BASELINE'' = ''1'' \<and>
    \<not> baseline_records ''g'' ''b'' [] (judging_world ''o'' ''r'' [''a.go:4:1: m'', ''a.go:9:1: m''] staged_tool)
        {x \<in> {''a.go:4:1: m'', ''a.go:9:1: m''}. on_added_line ds x}"
proof -
  let ?ds = "[(Some ''a.go'', [(''-1'', 4, None, '' func f() {'', [''+y''])])]"
  obtain r w' where run: "run_scoped_gate ''g'' ''x'' ''o'' [] ''b'' [] ''r'' staged_tool = (r, w')" by fastforce
  have files: "tw_files staged_tool ''r'' = Some (ranges_text (diff_ranges ([] @ diff_text ?ds)))" by code_simp
  have good: "list_all body_line []" "list_all good_section ?ds" by code_simp+
  have found: "extract_findings (snapshot staged_tool) ''x'' go_location_pattern [] = Inr ([''a.go:4:1: m'', ''a.go:9:1: m''], 0)"
    by code_simp
  have "fst (run_scoped_gate ''g'' ''x'' ''o'' [] ''b'' [] ''r'' staged_tool) = Inr False" by code_simp
  then have ok: "run_scoped_gate ''g'' ''x'' ''o'' [] ''b'' [] ''r'' staged_tool = (Inr False, w')" using run by simp
  have env: "tenv staged_tool ''BASELINE'' = ''1''" by code_simp
  have "\<not> baseline_records ''g'' ''b'' [] (judging_world ''o'' ''r'' [''a.go:4:1: m'', ''a.go:9:1: m''] staged_tool)
      {x \<in> set [''a.go:4:1: m'', ''a.go:9:1: m'']. on_added_line ?ds x}"
    using scoped_gate_judges_staged_lines [OF ok files _ _ good] found env by auto
  then show ?thesis using ok files env by (intro exI [of _ w'] exI [of _ ?ds]) simp
qed

end
