(* ===== verification/BaselineCmd.thy ===== *)
theory BaselineCmd
  imports ScopedLint
begin

text \<open>
  \<open>go-mk baseline\<close> (\<open>baseline.go\<close>, and the write path of \<open>main.go\<close>): the token gate, the updater of each
  component, and the write of every queued component. The title of the daily feed, the clock, the encoding of
  the JSON report and the restriction of the notice pass are parameters. A rename is one of the oracle's write calls.
\<close>

section \<open>Writing the planned baselines\<close>

record baseline_context =
  bl_lint :: lint_context
  bl_title :: "string \<Rightarrow> string option"
  bl_url_day :: string
  bl_day :: string
  bl_now :: string
  bl_json :: "baseline_document \<Rightarrow> string option"
  bl_restrict :: "bool \<Rightarrow> string \<Rightarrow> tool_world \<Rightarrow> (tool_error, unit) result \<times> tool_world"

definition t_rename :: "string \<Rightarrow> string \<Rightarrow> tool_world \<Rightarrow> bool \<times> tool_world" where
  "t_rename a b w =
     (if t_fails WriteCall w \<or> tw_files w a = None then (False, t_tick w)
      else (True, (t_tick w)\<lparr>tw_files := (tw_files w)(b := tw_files w a, a := None)\<rparr>))"

definition write_file_atomic :: "string \<Rightarrow> string \<Rightarrow> tool_world \<Rightarrow> (tool_error, unit) result \<times> tool_world" where
  "write_file_atomic path contents w =
     (let temporary = path @ ''.tmp''; (made, w) = (if path_dir path = [] then (True, w) else t_try MkdirCall w) in
      if \<not> made then (Inl (FileError (path_dir path)), w)
      else (let (written, w) = t_set WriteCall temporary (Some contents) w in
            if \<not> written then (Inl (FileError temporary), w)
            else (let (renamed, w) = t_rename temporary path w in
                  (if renamed then Inr () else Inl (FileError path), w))))"

definition plan_in :: "baseline_component \<Rightarrow> string \<Rightarrow> tool_world \<Rightarrow> (tool_error, planned_write) result \<times> tool_world" where
  "plan_in c now w =
     (map_sum Filtering id (plan_component (tw_compile w) (lw_files (snapshot w)) c now), t_tick w)"

fun write_components :: "baseline_component list \<Rightarrow> string \<Rightarrow> tool_world \<Rightarrow>
    (tool_error, baseline_stats list) result \<times> tool_world" where
  "write_components [] now w = (Inr [], w)"
| "write_components (c # cs) now w =
     t_bind (plan_in c now) (\<lambda>planned.
     t_bind (write_file_atomic (pw_path planned) (pw_contents planned)) (\<lambda>_.
     t_bind (write_components cs now) (\<lambda>ss. t_lift (Inr (pw_stats planned # ss))))) w"

definition write_manifest :: "baseline_context \<Rightarrow> baseline_component list \<Rightarrow> string \<Rightarrow> bool \<Rightarrow> tool_world \<Rightarrow>
    (tool_error, unit) result \<times> tool_world" where
  "write_manifest bl cs given_now emit_json w =
     (let json = (emit_json \<or> tenv w ''BASELINE_OUTPUT_FORMAT'' = ''json'') in
      t_bind (write_components cs (if given_now = [] then bl_now bl else given_now)) (\<lambda>ss w.
        if ss = [] then (Inr (), w)
        else if json then (case bl_json bl (render_document ss) of None \<Rightarrow> (Inl DecodeFailed, w) | Some doc \<Rightarrow> (Inr (), t_print doc w))
        else (Inr (), t_print (render_text ss) w)) w)"

section \<open>The gate and the updaters\<close>

definition baseline_gate_passes :: "baseline_context \<Rightarrow> tool_world \<Rightarrow> bool \<times> tool_world" where
  "baseline_gate_passes bl w =
     (if \<not> confirm_accepted (tenv w ''BASELINE_CONFIRM'') then (False, w)
      else (case gate_token_expected (bl_title bl) (bl_url_day bl) (bl_day bl) (tenv w ''BASELINE_TOKEN_CMD'') w of
              (None, v) \<Rightarrow> (False, v)
            | (Some expected, v) \<Rightarrow> (tokens_match expected (tenv w ''BASELINE_TOKEN''), v)))"

text \<open>An updater answers with its status and the components it queues.\<close>

type_synonym updater = "tool_world \<Rightarrow> (int \<times> baseline_component list) \<times> tool_world"

definition gated :: "baseline_context \<Rightarrow> updater \<Rightarrow> updater" where
  "gated bl u w =
     (let (open_gate, w) = baseline_gate_passes bl w in if open_gate then u w else ((0, []), w))"

definition or_queue :: "(tool_world \<Rightarrow> (tool_error, 'a) result \<times> tool_world) \<Rightarrow> ('a \<Rightarrow> updater) \<Rightarrow> updater" where
  "or_queue m f w = (case m w of (Inl e, w) \<Rightarrow> ((1, []), w) | (Inr a, w) \<Rightarrow> f a w)"

definition queue :: "(tool_world \<Rightarrow> baseline_component) \<Rightarrow> updater" where
  "queue c w = ((0, [c w]), w)"

definition plain_component :: "string \<Rightarrow> string \<Rightarrow> string \<Rightarrow> string \<Rightarrow> string \<Rightarrow> string \<Rightarrow> baseline_component" where
  "plain_component label path found mode excludes scope =
     \<lparr>bc_title = label, bc_label = label, bc_baseline_file = path, bc_findings_file = found, bc_mode = mode,
      bc_exclude = excludes, bc_scope = scope\<rparr>"

definition made_file :: "string \<Rightarrow> string" where "made_file name = make_dir @ ''/'' @ name"

definition golangci_component :: "string \<Rightarrow> string \<Rightarrow> string \<Rightarrow> tool_world \<Rightarrow> baseline_component" where
  "golangci_component found mode scope w =
     plain_component ''golangci-lint'' (tenv_default w ''GOLANGCI_LINT_BASELINE'' ''.golangci-lint-baseline.txt'')
       found mode (golangci_excludes w) scope"

definition update_golangci :: "baseline_context \<Rightarrow> string \<Rightarrow> updater" where
  "update_golangci bl mode =
     (let found = made_file ''golangci-lint-baseline.out'' in
      gated bl (or_queue ensure_make_dir (\<lambda>_. or_queue run_lint_tools (\<lambda>_.
        or_queue (run_capture_golangci_baseline (bl_lint bl) [made_file ''golangci-lint-baseline.raw.out'', found])
          (\<lambda>_. queue (golangci_component found mode []))))))"

definition write_golangci_scope :: "baseline_context \<Rightarrow> capture_mode \<Rightarrow> string \<Rightarrow> string \<Rightarrow> updater" where
  "write_golangci_scope bl capture mode scope =
     (let found = made_file ''golangci-lint-scope-baseline.out'' in
      or_queue ensure_make_dir (\<lambda>_. or_queue run_lint_tools (\<lambda>_.
        or_queue (capture_golangci_scope (bl_lint bl) capture (made_file ''golangci-lint-scope-baseline.raw.out'') found)
          (\<lambda>_. queue (golangci_component found mode scope)))))"

definition update_golangci_scope :: "baseline_context \<Rightarrow> string \<Rightarrow> updater" where
  "update_golangci_scope bl mode w =
     (let scope = golangci_scope w in
      if scope = []
      then ((1, []), t_println (''golangci-lint scope baseline: set LINTER=<name>, RULE=<name>, or GOLANGCI_LINT_BASELINE_SCOPE_PATTERN'') w)
      else gated bl (write_golangci_scope bl CaptureStandard mode scope) w)"

definition auto_golangci_scope :: "baseline_context \<Rightarrow> updater" where
  "auto_golangci_scope bl w =
     (let scope = golangci_scope w in
      if scope = []
      then ((1, []), t_println ''auto-baseline: missing scope; set LINTER, RULE, or GOLANGCI_LINT_BASELINE_SCOPE_PATTERN'' w)
      else (case write_golangci_scope bl CaptureNotice ''sync'' scope w of
              ((code, captured), w) \<Rightarrow>
                (if code \<noteq> 0 then ((code, []), w)
                 else or_queue (bl_restrict bl True (bc_findings_file (hd captured))) (\<lambda>_. queue (\<lambda>_. hd captured)) w)))"

definition update_gocyclo :: "baseline_context \<Rightarrow> string \<Rightarrow> updater" where
  "update_gocyclo bl mode =
     (let found = made_file ''gocyclo-baseline.out'' in
      gated bl (or_queue ensure_make_dir (\<lambda>_.
        or_queue (run_capture_gocyclo (bl_lint bl) [made_file ''gocyclo-baseline.raw.out'', found]) (\<lambda>_.
          queue (\<lambda>w. plain_component ''gocyclo'' (tenv_default w ''GOCYCLO_BASELINE'' ''.gocyclo-baseline.txt'') found mode
                   (gocyclo_excludes w) [])))))"

definition update_deadcode :: "baseline_context \<Rightarrow> string \<Rightarrow> updater" where
  "update_deadcode bl mode =
     (let found = made_file ''deadcode-baseline.out'' in
      gated bl (or_queue ensure_make_dir (\<lambda>_.
        or_queue (run_capture_deadcode (bl_lint bl) [made_file ''deadcode-baseline.raw.out'', found]) (\<lambda>_.
          queue (\<lambda>w. plain_component ''deadcode'' (tenv_default w ''DEADCODE_BASELINE'' ''.deadcode-baseline.txt'') found mode
                   (deadcode_excludes w) [])))))"

definition refused_modes :: "string list" where "refused_modes = [''sync'', ''prune-fixed'', ''remove-fixed'']"

definition or_code :: "(tool_world \<Rightarrow> int \<times> tool_world) \<Rightarrow> updater \<Rightarrow> updater" where
  "or_code m u w = (case m w of (code, w) \<Rightarrow> if code \<noteq> 0 then ((code, []), w) else u w)"

definition staticcheck_component :: "string \<Rightarrow> string \<Rightarrow> string \<Rightarrow> tool_world \<Rightarrow> baseline_component" where
  "staticcheck_component found mode scope w =
     plain_component ''staticcheck-extra'' (tenv_default w ''STATICCHECK_EXTRA_BASELINE'' ''.staticcheck-extra-baseline.txt'')
       found mode (staticcheck_excludes w) scope"

definition staticcheck_scope :: "tool_world \<Rightarrow> string" where
  "staticcheck_scope w =
     staticcheck_scope_pattern (tenv w ''STATICCHECK_EXTRA_BASELINE_SCOPE_PATTERN'') (staticcheck_flags w)"

definition update_staticcheck :: "baseline_context \<Rightarrow> string \<Rightarrow> updater" where
  "update_staticcheck bl mode =
     (let found = made_file ''staticcheck-extra.out'' in
      gated bl (or_queue ensure_make_dir (\<lambda>_ w.
        (let scope = staticcheck_scope w in
         if tenv w ''STATICCHECK_EXTRA_FLAGS'' \<noteq> [] \<and> scope = [] \<and> mode \<in> set refused_modes
         then ((1, []), t_println ''Set STATICCHECK_EXTRA_BASELINE_SCOPE_PATTERN to the intended finding regex, or unset STATICCHECK_EXTRA_FLAGS for a full baseline update.''
                (t_println (''staticcheck-extra: refusing '' @ mode @
                  '' baseline update with STATICCHECK_EXTRA_FLAGS but no baseline scope pattern'') w))
         else or_code (lc_resolve (bl_lint bl))
                (or_queue (capture_staticcheck (bl_lint bl) CaptureStandard (made_file ''staticcheck-extra.raw.out'') found)
                   (\<lambda>_. queue (staticcheck_component found mode scope))) w))))"

definition auto_staticcheck_scope :: "baseline_context \<Rightarrow> updater" where
  "auto_staticcheck_scope bl w =
     (let scope = tenv w ''STATICCHECK_EXTRA_BASELINE_SCOPE_PATTERN''; found = made_file ''staticcheck-extra-scope-baseline.out'' in
      if scope = []
      then ((1, []), t_println ''auto-baseline: missing scope; set STATICCHECK_EXTRA_BASELINE_SCOPE_PATTERN'' w)
      else or_queue ensure_make_dir (\<lambda>_.
             or_code (lc_resolve (bl_lint bl))
               (or_queue (capture_staticcheck (bl_lint bl) CaptureNotice (made_file ''staticcheck-extra-scope-baseline.raw.out'') found) (\<lambda>_.
                or_queue (bl_restrict bl False found) (\<lambda>_. queue (staticcheck_component found ''sync'' scope))))) w)"

section \<open>The command\<close>

definition normalize_mode :: "string \<Rightarrow> string option" where
  "normalize_mode raw =
     (let mode = (if raw = [] then ''sync'' else raw) in
      if mode \<in> {''sync'', ''prune-fixed'', ''remove-fixed'', ''accept-new''} then Some mode else None)"

definition updaters_of :: "baseline_context \<Rightarrow> string \<Rightarrow> string \<Rightarrow> updater list option" where
  "updaters_of bl mode component =
     (if component = ''all''
      then Some [update_golangci bl mode, update_gocyclo bl mode, update_deadcode bl mode, update_staticcheck bl mode]
      else map_option (\<lambda>u. [u]) (map_of
        [(''golangci'', update_golangci bl mode), (''golangci-scope'', update_golangci_scope bl mode),
         (''auto-baseline-scope'', auto_golangci_scope bl), (''gocyclo'', update_gocyclo bl mode),
         (''deadcode'', update_deadcode bl mode), (''staticcheck-extra'', update_staticcheck bl mode),
         (''auto-baseline-staticcheck-scope'', auto_staticcheck_scope bl)] component))"

fun run_updaters :: "updater list \<Rightarrow> int \<Rightarrow> tool_world \<Rightarrow> (int \<times> baseline_component list) \<times> tool_world" where
  "run_updaters [] status w = ((status, []), w)"
| "run_updaters (u # us) status w =
     (let ((code, queued), w) = u w;
          ((final, more), w) = run_updaters us (if code \<noteq> 0 then code else status) w
      in ((final, queued @ more), w))"

definition flush_baseline :: "baseline_context \<Rightarrow> baseline_component list \<Rightarrow> tool_world \<Rightarrow>
    (tool_error, unit) result \<times> tool_world" where
  "flush_baseline bl cs w = (if cs = [] then (Inr (), w) else write_manifest bl cs [] False w)"

definition selected_component :: "string list \<Rightarrow> string" where
  "selected_component args = (case args of c # _ \<Rightarrow> if c \<noteq> [] then c else ''all'' | [] \<Rightarrow> ''all'')"

definition run_baseline :: "baseline_context \<Rightarrow> string list \<Rightarrow> tool_world \<Rightarrow> int \<times> tool_world" where
  "run_baseline bl args w =
     (case normalize_mode (tenv w ''BASELINE_UPDATE_MODE'') of
        None \<Rightarrow> (2, t_println (''unknown baseline update mode: '' @ tenv w ''BASELINE_UPDATE_MODE'') w)
      | Some mode \<Rightarrow>
          (case updaters_of bl mode (selected_component args) of
             None \<Rightarrow> (2, t_println (''go-mk: unknown component '' @ selected_component args) w)
           | Some us \<Rightarrow>
               (let ((status, queued), w) = run_updaters us 0 w; (r, w) = flush_baseline bl queued w
                in (case r of Inl e \<Rightarrow> 1 | Inr _ \<Rightarrow> status, w))))"

section \<open>Only an opened gate writes\<close>

text \<open>A step keeps the environment, the oracles and every file but the token cache and what a command writes.\<close>

definition writable :: "baseline_context \<Rightarrow> tool_world \<Rightarrow> string \<Rightarrow> bool" where
  "writable bl w p \<longleftrightarrow>
     p = token_cache_path (bl_day bl) \<or>
     (\<exists>n argv status out ws. tw_run w n argv = Exited status out ws \<and> p \<in> fst ` set ws)"

definition calm :: "baseline_context \<Rightarrow> tool_world \<Rightarrow> tool_world \<Rightarrow> bool" where
  "calm bl w w' \<longleftrightarrow>
     tw_environ w' = tw_environ w \<and> tw_run w' = tw_run w \<and>
     (\<forall>p. \<not> writable bl w p \<longrightarrow> tw_files w' p = tw_files w p)"

lemma calm_refl [simp]: "calm bl w w"
  by (simp add: calm_def)

lemma calm_trans: "calm bl u v \<Longrightarrow> calm bl v w \<Longrightarrow> calm bl u w"
  by (simp add: calm_def writable_def)

lemma calm_updates [simp]: "calm bl w (t_tick w)" "calm bl w (t_println s w)"
  by (simp_all add: calm_def t_tick_def t_println_def t_print_def)

lemma calm_token_command: "run_token_command command w = (r, w') \<Longrightarrow> calm bl w w'"
  by (auto simp: run_token_command_def t_output_def t_exec_def Let_def t_tick_def calm_def writable_def apply_writes_other
      split: prod.splits sum.splits cmd_outcome.splits if_splits)

lemma calm_daily: "daily_token_slug title url_day (bl_day bl) w = (r, w') \<Longrightarrow> calm bl w w'"
  by (auto simp: daily_token_slug_def t_read_def gate_token_raw_def t_fetch_def t_try_def t_set_def t_tick_def Let_def
      calm_def writable_def split: prod.splits option.splits if_splits)

text \<open>
  The gate opens at a world: the confirmation is affirmative and the token that the gate asks for there matches.
  A refused gate leaves the world of its question; \<open>after_refusals\<close> is the world after \<open>i\<close> of them.
\<close>

definition expected_token :: "baseline_context \<Rightarrow> string \<Rightarrow> tool_world \<Rightarrow> string option \<times> tool_world" where
  "expected_token bl command w = gate_token_expected (bl_title bl) (bl_url_day bl) (bl_day bl) command w"

definition after_refusals :: "baseline_context \<Rightarrow> nat \<Rightarrow> tool_world \<Rightarrow> tool_world" where
  "after_refusals bl i w = ((snd \<circ> expected_token bl (tenv w ''BASELINE_TOKEN_CMD'')) ^^ i) w"

definition opens :: "baseline_context \<Rightarrow> tool_world \<Rightarrow> bool" where
  "opens bl w \<longleftrightarrow> confirm_accepted (tenv w ''BASELINE_CONFIRM'') \<and>
     (\<exists>expected. fst (expected_token bl (tenv w ''BASELINE_TOKEN_CMD'') w) = Some expected \<and>
        tokens_match expected (tenv w ''BASELINE_TOKEN''))"

lemma calm_expected: "calm bl w (snd (expected_token bl command w))"
  unfolding expected_token_def gate_token_expected_def
  by (metis calm_daily calm_token_command prod.collapse)

lemma gate_run:
  assumes "baseline_gate_passes bl w = (open_gate, w')"
  shows "open_gate \<longleftrightarrow> opens bl w"
    "w' = w \<or> w' = snd (expected_token bl (tenv w ''BASELINE_TOKEN_CMD'') w)"
  using assms
  by (auto simp: baseline_gate_passes_def opens_def expected_token_def split: if_splits prod.splits option.splits)

lemma gated_refused:
  assumes "gated bl u w = ((code, queued), w')" "\<not> opens bl w"
  shows "queued = []" "w' = w \<or> w' = snd (expected_token bl (tenv w ''BASELINE_TOKEN_CMD'') w)" "calm bl w w'"
proof -
  obtain b v where g: "baseline_gate_passes bl w = (b, v)" by fastforce
  have "\<not> b" using gate_run(1) [OF g] assms(2) by simp
  then have "queued = []" "w' = v" using assms(1) g by (auto simp: gated_def)
  then show "queued = []" "w' = w \<or> w' = snd (expected_token bl (tenv w ''BASELINE_TOKEN_CMD'') w)"
    using gate_run(2) [OF g] by auto
  then show "calm bl w w'" using calm_expected by auto
qed

text \<open>Several gated updaters: none of them queues anything unless the gate opens after some refusals.\<close>

definition opens_after :: "baseline_context \<Rightarrow> nat \<Rightarrow> tool_world \<Rightarrow> bool" where
  "opens_after bl n w \<longleftrightarrow> (\<exists>i < n. opens bl (after_refusals bl i w))"

lemma after_refusals_Suc:
  assumes "v = snd (expected_token bl (tenv w ''BASELINE_TOKEN_CMD'') w)"
  shows "after_refusals bl i v = after_refusals bl (Suc i) w"
proof -
  have "tw_environ v = tw_environ w" using calm_expected assms by (auto simp: calm_def)
  then show ?thesis by (simp add: after_refusals_def funpow_swap1 assms)
qed

lemma opens_after_Suc:
  assumes "v = w \<or> v = snd (expected_token bl (tenv w ''BASELINE_TOKEN_CMD'') w)" "opens_after bl n v"
  shows "opens_after bl (Suc n) w"
  using assms after_refusals_Suc unfolding opens_after_def by (metis Suc_mono less_SucI)

lemma opens_after_first: "opens bl w \<Longrightarrow> 0 < n \<Longrightarrow> opens_after bl n w"
  unfolding opens_after_def by (rule exI [of _ 0]) (simp add: after_refusals_def)

lemma run_updaters_gated:
  "\<forall>u \<in> set us. \<exists>u0. u = gated bl u0 \<Longrightarrow> run_updaters us status w = ((code, queued), w') \<Longrightarrow>
   \<not> opens_after bl (length us) w \<Longrightarrow> queued = [] \<and> calm bl w w'"
proof (induction us arbitrary: status w code queued w')
  case (Cons u us)
  obtain c q v where u: "u w = ((c, q), v)" by (metis prod.collapse)
  obtain code' more v' where r: "run_updaters us (if c \<noteq> 0 then c else status) v = ((code', more), v')" by (metis prod.collapse)
  obtain u0 where g: "gated bl u0 w = ((c, q), v)" using Cons.prems(1) u by auto
  have "\<not> opens bl w" using Cons.prems(3) opens_after_first by fastforce
  note refused = gated_refused [OF g this]
  have "\<not> opens_after bl (length us) v" using opens_after_Suc [OF refused(2)] Cons.prems(3) by auto
  then have "more = [] \<and> calm bl v v'" using Cons.IH [OF _ r] Cons.prems(1) by simp
  moreover have "queued = q @ more" "w' = v'" using Cons.prems(2) u r by (auto split: if_splits)
  ultimately show ?case using refused calm_trans by blast
qed simp

definition token_free :: "string list" where
  "token_free = [''auto-baseline-scope'', ''auto-baseline-staticcheck-scope'']"

definition gated_components :: "string \<Rightarrow> nat" where
  "gated_components component = (if component = ''all'' then 4 else 1)"

lemma scope_gated:
  assumes "run_updaters [update_golangci_scope bl mode] status w = ((code, queued), w')" "\<not> opens_after bl 1 w"
  shows "queued = [] \<and> calm bl w w'"
proof (cases "golangci_scope w = []")
  case True
  then show ?thesis using assms(1) by (auto simp: update_golangci_scope_def)
next
  case False
  let ?u = "gated bl (write_golangci_scope bl CaptureStandard mode (golangci_scope w))"
  have "run_updaters [?u] status w = ((code, queued), w')"
    using assms(1) False by (simp add: update_golangci_scope_def)
  then show ?thesis by (rule run_updaters_gated [rotated]) (use assms(2) in auto)
qed

lemma updaters_gated:
  assumes "updaters_of bl mode component = Some us" "component \<notin> set token_free"
  shows "us = [update_golangci_scope bl mode] \<and> gated_components component = 1 \<or>
    (\<forall>u \<in> set us. \<exists>u0. u = gated bl u0) \<and> length us = gated_components component"
  using assms
  by (auto simp: updaters_of_def token_free_def gated_components_def update_golangci_def update_gocyclo_def
      update_deadcode_def update_staticcheck_def Let_def split: if_splits)

text \<open>
  C8. A baseline is written with the token only. A baseline run of any component but the two of the notice pass
  leaves every file alone, apart from the cache of the daily token and what the token command writes, unless the
  confirmation was affirmative and the gate of one of its updaters got a token that the given one matches. The
  gate asks at a fixed place: for a single component in the world the run starts in, for one of the four components
  of \<open>all\<close> in the world that the refusals before it left.
\<close>

theorem baseline_write_needs_token:
  assumes "run_baseline bl args w = (code, w')" "selected_component args \<notin> set token_free"
    "p \<noteq> token_cache_path (bl_day bl)" "\<And>n argv status out ws. tw_run w n argv = Exited status out ws \<Longrightarrow> p \<notin> fst ` set ws"
  shows "tw_files w' p = tw_files w p \<or>
    confirm_accepted (tenv w ''BASELINE_CONFIRM'') \<and>
    (\<exists>i expected. i < gated_components (selected_component args) \<and>
       fst (gate_token_expected (bl_title bl) (bl_url_day bl) (bl_day bl) (tenv w ''BASELINE_TOKEN_CMD'')
         (after_refusals bl i w)) = Some expected \<and>
       tokens_match expected (tenv w ''BASELINE_TOKEN''))"
proof -
  have np: "\<not> writable bl w p" using assms(3,4) by (fastforce simp: writable_def)
  consider (printed) s where "w' = t_println s w"
    | (ran) mode us where "updaters_of bl mode (selected_component args) = Some us"
        "run_baseline bl args w = (let ((status, queued), w) = run_updaters us 0 w; (r, w) = flush_baseline bl queued w
                in (case r of Inl e \<Rightarrow> 1 | Inr _ \<Rightarrow> status, w))"
    using assms(1) by (auto simp: run_baseline_def split: option.splits)
  then have "opens_after bl (gated_components (selected_component args)) w \<or> tw_files w' p = tw_files w p"
  proof cases
    case (printed s)
    then show ?thesis by (simp add: t_println_def t_print_def)
  next
    case (ran mode us)
    obtain status queued v where r: "run_updaters us 0 w = ((status, queued), v)" by (metis prod.collapse)
    have "opens_after bl (gated_components (selected_component args)) w \<or> queued = [] \<and> calm bl w v"
      using updaters_gated [OF ran(1) assms(2)] scope_gated [of bl mode 0 w] run_updaters_gated [OF _ r] r by fastforce
    then show ?thesis
      using ran(2) assms(1) r np by (auto simp: flush_baseline_def calm_def)
  qed
  then consider "tw_files w' p = tw_files w p"
    | i where "i < gated_components (selected_component args)" "opens bl (after_refusals bl i w)"
    by (auto simp: opens_after_def)
  then show ?thesis
  proof cases
    case (2 i)
    have "tw_environ (after_refusals bl j w) = tw_environ w" for j
      by (induction j) (use calm_expected in \<open>auto simp: after_refusals_def calm_def\<close>)
    then show ?thesis using 2 by (auto simp: opens_def expected_token_def)
  qed simp
qed

section \<open>A crashed linter\<close>

text \<open>
  A golangci-lint that crashes without output captures an empty list of findings, and its status is dropped by
  every run of the baseline capture: a sync then removes every row of the baseline.
\<close>

lemma crash_captures_nothing:
  assumes "golangci_command lc ''run'' w = (Inr (b, args), w0)" "\<And>c n. \<not> tw_fault w0 c n" "\<And>p. tw_compile w0 p \<noteq> None"
    "\<And>n a. tw_run w0 n a = Exited status [] []" "raw \<noteq> out"
  shows "\<exists>w'. capture_golangci_findings lc raw out w = (Inr (status, 0), w') \<and> tw_files w' out = Some []"
proof -
  have fails: "t_fails c v = False" if "tw_fault v = tw_fault w0" for c v
    using assms(2) that by (simp add: t_fails_def)
  obtain m where m: "tw_compile w0 go_finding_pattern = Some m" using assms(3) by fastforce
  show ?thesis
    using assms(1,4,5) m fails
    by (simp add: capture_golangci_findings_def t_bind_def capture_command_def t_set_def t_tick_def t_exec_def Let_def
        apply_writes_def t_extract_def extract_findings_def read_lines_def snapshot_def result_bind_def text_lines_def
        write_findings_file_def write_findings_text_def t_lift_def)
qed

section \<open>Witness\<close>

definition plain_context :: lint_context where
  "plain_context =
     \<lparr>lc_tree = Leaf ''.'', lc_decode = (\<lambda>_. None), lc_executable = (\<lambda>_ _. False), lc_notice = id,
      lc_resolve = (\<lambda>w. (0, w)), lc_module_files = (\<lambda>w. (Inr [], w))\<rparr>"

definition sample_baseline :: baseline_context where
  "sample_baseline =
     \<lparr>bl_lint = plain_context, bl_title = (\<lambda>_. None), bl_url_day = ''d'', bl_day = ''d'', bl_now = ''t'', bl_json = (\<lambda>_. None),
      bl_restrict = (\<lambda>_ _ w. (Inr (), w))\<rparr>"

theorem baseline_write_needs_token_witness:
  "\<exists>code w'. run_baseline sample_baseline [''gocyclo''] sample_tool = (code, w') \<and> tw_files w' ''b'' = tw_files sample_tool ''b''"
proof -
  obtain code w' where run: "run_baseline sample_baseline [''gocyclo''] sample_tool = (code, w')" by fastforce
  have c: "\<not> confirm_accepted (tenv sample_tool ''BASELINE_CONFIRM'')" by code_simp
  have s: "selected_component [''gocyclo''] \<notin> set token_free" by code_simp
  have p: "''b'' \<noteq> token_cache_path (bl_day sample_baseline)" by code_simp
  have "tw_files w' ''b'' = tw_files sample_tool ''b'' \<or> confirm_accepted (tenv sample_tool ''BASELINE_CONFIRM'')"
    using baseline_write_needs_token [OF run s p] by (auto simp: sample_tool_def)
  then show ?thesis using c run by blast
qed

end
