(* ===== verification/ReleaseBuild.thy ===== *)
theory ReleaseBuild
  imports LintChain CacheManifest Release "HOL-Library.Multiset"
begin

text \<open>
  \<open>go-mk release\<close> and \<open>go-mk release-assets\<close> (\<open>release.go\<close>, \<open>release_assets.go\<close>): the binaries and platforms a release
  ships, the build, sign, archive, checksum and publish steps, and the checks that no shipped binary is a
  cgo stub (\<open>cgocheck.go\<close>) or a stub on one platform (\<open>platformstubcheck.go\<close>). Parameters: the moment of the run,
  the tar and gzip writers, SHA-256, the directory listing, the search of \<open>PATH\<close> and the JSON of \<open>go list\<close>.
\<close>

section \<open>Configuration\<close>

record release_binary =
  rb_name :: string
  rb_main :: string
  rb_cgo :: bool
  rb_platforms :: string

record release_config =
  rc_binary :: string
  rc_main :: string
  rc_binaries :: "release_binary list"
  rc_version_pkg :: string
  rc_gklog_pkg :: string
  rc_entitlements :: string
  rc_require_codesign :: bool
  rc_platforms :: "string list"
  rc_dist :: string
  rc_tag :: string
  rc_short_sha :: string
  rc_target_sha :: string
  rc_build_time :: string
  rc_prerelease :: bool

record cgo_list_package =
  cl_path :: string
  cl_standard :: bool
  cl_cgo :: "string list"

record platform_list_package =
  pl_path :: string
  pl_standard :: bool
  pl_go :: "string list"
  pl_cgo :: "string list"

text \<open>An archive member as the tar writer gets it: its name, its mode and its content.\<close>

type_synonym archived = "string \<times> int \<times> string"

record release_context =
  rx_stamp :: string
  rx_build_time :: string
  rx_sha :: "string \<Rightarrow> string"
  rx_tar_gz :: "archived list \<Rightarrow> string"
  rx_unfinished :: "archived list \<Rightarrow> string"
  rx_glob :: "(string \<Rightarrow> string option) \<Rightarrow> string \<Rightarrow> string list option"
  rx_is_dir :: "tool_world \<Rightarrow> string \<Rightarrow> bool"
  rx_look_path :: "tool_world \<Rightarrow> string \<Rightarrow> string option"
  rx_cgo_list :: "string \<Rightarrow> cgo_list_package list option"
  rx_platform_list :: "string \<Rightarrow> platform_list_package list option"

text \<open>The errors of the release and of the install commands.\<close>

datatype release_error =
    BinaryUnset
  | MalformedEntry string
  | MalformedOption string string
  | EmptyPlatformsValue string
  | UnknownOption string string
  | PrimaryMissing string
  | UnknownStage string
  | MalformedPlatform string
  | GitFailed "string list"
  | NoWorkingDirectory
  | SigningRequired
  | QuillMissing string
  | CgoRequired "string list"
  | SplitPackages "string list"
  | GoListFailed "string list"
  | GoListUndecodable
  | BadPattern string
  | ReleaseFile string
  | ReleaseTool tool_error
  | NoInstallBinary
  | MalformedInstallEntry string
  | NoCodesignIdentity
  | JoinedErrors release_error release_error

type_synonym 'a release_step = "tool_world \<Rightarrow> (release_error, 'a) result \<times> tool_world"

definition r_bind :: "'a release_step \<Rightarrow> ('a \<Rightarrow> 'b release_step) \<Rightarrow> 'b release_step" where
  "r_bind m f w = (case m w of (Inl e, w) \<Rightarrow> (Inl e, w) | (Inr a, w) \<Rightarrow> f a w)"

definition r_return :: "'a \<Rightarrow> 'a release_step" where
  "r_return a w = (Inr a, w)"

definition r_result :: "(release_error, 'a) result \<Rightarrow> 'a release_step" where
  "r_result r w = (r, w)"

definition r_tool :: "(tool_world \<Rightarrow> (tool_error, 'a) result \<times> tool_world) \<Rightarrow> 'a release_step" where
  "r_tool m w = (case m w of (Inl e, w) \<Rightarrow> (Inl (ReleaseTool e), w) | (Inr a, w) \<Rightarrow> (Inr a, w))"

fun r_each :: "('a \<Rightarrow> unit release_step) \<Rightarrow> 'a list \<Rightarrow> unit release_step" where
  "r_each f [] = r_return ()"
| "r_each f (x # xs) = r_bind (f x) (\<lambda>_. r_each f xs)"

fun r_map :: "('a \<Rightarrow> 'b release_step) \<Rightarrow> 'a list \<Rightarrow> 'b list release_step" where
  "r_map f [] = r_return []"
| "r_map f (x # xs) = r_bind (f x) (\<lambda>y. r_bind (r_map f xs) (\<lambda>ys. r_return (y # ys)))"

definition builds_for :: "release_binary \<Rightarrow> string \<Rightarrow> bool" where
  "builds_for b p \<longleftrightarrow> rb_platforms b = [] \<or> p \<in> set (str_fields (rb_platforms b))"

definition build_env :: "release_binary \<Rightarrow> string list \<Rightarrow> string list" where
  "build_env b env =
     (if \<not> rb_cgo b then env else filter (\<lambda>e. \<not> prefix ''CGO_ENABLED='' e) env @ [''CGO_ENABLED=1''])"

definition plain_binary :: "string \<Rightarrow> string \<Rightarrow> release_binary" where
  "plain_binary name main = \<lparr>rb_name = name, rb_main = main, rb_cgo = False, rb_platforms = []\<rparr>"

fun parse_options :: "string \<Rightarrow> string list \<Rightarrow> bool \<Rightarrow> string list \<Rightarrow> (release_error, bool \<times> string list) result" where
  "parse_options field [] cgo ps = Inr (cgo, ps)"
| "parse_options field (o' # os) cgo ps =
     (let opt = trim_space o' in
      if opt = [] then parse_options field os cgo ps
      else (case str_cut opt ''='' of
              None \<Rightarrow> Inl (MalformedOption opt field)
            | Some (k, v) \<Rightarrow>
                (let key = trim_space k; v = trim_space v in
                 if key = ''cgo'' then parse_options field os (is_truthy v) ps
                 else if key = ''platforms''
                   then (if v = [] then Inl (EmptyPlatformsValue field) else parse_options field os cgo (ps @ [v]))
                 else Inl (UnknownOption key field))))"

definition parse_release_binary_options :: "release_binary \<Rightarrow> string \<Rightarrow> string \<Rightarrow> (release_error, release_binary) result" where
  "parse_release_binary_options entry field options =
     result_bind (parse_options field (split_on CHR '','' options) (rb_cgo entry) [])
       (\<lambda>(cgo, ps). Inr (entry\<lparr>rb_cgo := cgo, rb_platforms := str_join '' '' ps\<rparr>))"

definition parse_release_entry :: "string \<Rightarrow> (release_error, release_binary) result" where
  "parse_release_entry field =
     (let parts = split_on colon field in
      if length parts \<noteq> 2 \<and> length parts \<noteq> 3 then Inl (MalformedEntry field)
      else (let name = trim_space (parts ! 0); main = trim_space (parts ! 1) in
            if name = [] \<or> main = [] then Inl (MalformedEntry field)
            else if length parts = 3 then parse_release_binary_options (plain_binary name main) field (parts ! 2)
            else Inr (plain_binary name main)))"

fun parse_entries :: "string list \<Rightarrow> (release_error, release_binary list) result" where
  "parse_entries [] = Inr []"
| "parse_entries (f # fs) =
     result_bind (parse_release_entry f) (\<lambda>b. result_bind (parse_entries fs) (\<lambda>bs. Inr (b # bs)))"

text \<open>The primary binary moves to the front.\<close>

fun primary_first :: "string \<Rightarrow> release_binary list \<Rightarrow> release_binary list \<Rightarrow> release_binary list option" where
  "primary_first binary seen [] = None"
| "primary_first binary seen (b # bs) =
     (if rb_name b = binary then Some (b # rev seen @ bs) else primary_first binary (b # seen) bs)"

definition parse_release_binaries :: "string \<Rightarrow> string \<Rightarrow> string \<Rightarrow> (release_error, release_binary list) result" where
  "parse_release_binaries binary main entries =
     (let fs = str_fields entries in
      if fs = [] then Inr [plain_binary binary main]
      else result_bind (parse_entries fs)
        (\<lambda>bs. case primary_first binary [] bs of None \<Rightarrow> Inl (PrimaryMissing binary) | Some bs \<Rightarrow> Inr bs))"

definition is_stable_ref :: "string \<Rightarrow> string \<Rightarrow> bool" where
  "is_stable_ref git_ref ref_name \<longleftrightarrow> prefix ''refs/tags/'' git_ref \<and> prefix ''v'' ref_name"

text \<open>\<open>strconv.FormatInt(n, 16)\<close>.\<close>

fun hex_nat :: "nat \<Rightarrow> string" where
  "hex_nat n = (if n < 16 then [hex_lower n] else hex_nat (n div 16) @ [hex_lower (n mod 16)])"

declare hex_nat.simps [simp del]

definition format_hex :: "int \<Rightarrow> string" where
  "format_hex n = (if n < 0 then CHR ''-'' # hex_nat (nat (- n)) else hex_nat (nat n))"

definition hex_run :: "string \<Rightarrow> string" where
  "hex_run n = (case atoi n of None \<Rightarrow> n | Some v \<Rightarrow> format_hex v)"

definition default_release_platforms :: string where
  "default_release_platforms = ''darwin/amd64 darwin/arm64 linux/amd64 linux/arm64''"

definition git_output :: "string list \<Rightarrow> string release_step" where
  "git_output argv w =
     (case logged_git_output argv w of (Inl _, w) \<Rightarrow> (Inl (GitFailed argv), w) | (Inr out, w) \<Rightarrow> (Inr out, w))"

definition env_trimmed :: "tool_world \<Rightarrow> string \<Rightarrow> string \<Rightarrow> string" where
  "env_trimmed w name fallback =
     (let v = trim_space (tenv w name) in if v = [] then fallback else v)"

definition release_tag :: "release_context \<Rightarrow> string \<Rightarrow> tool_world \<Rightarrow> string" where
  "release_tag rx short w =
     (let ref_name = trim_space (tenv w ''GITHUB_REF_NAME'');
          run = hex_run (env_trimmed w ''GITHUB_RUN_NUMBER'' ''0'');
          tag = (if is_stable_ref (trim_space (tenv w ''GITHUB_REF'')) ref_name then ref_name
                 else rx_stamp rx @ ''-'' @ run @ ''-'' @ short)
      in env_trimmed w ''RELEASE_TAG'' tag)"

definition release_platforms :: "tool_world \<Rightarrow> string list" where
  "release_platforms w =
     str_fields (env_trimmed w ''RELEASE_PLATFORMS'' (str_join '' '' (declared_platforms default_release_platforms w)))"

definition load_release_config :: "release_context \<Rightarrow> release_config release_step" where
  "load_release_config rx w =
     (let binary = trim_space (tenv w ''BINARY'') in
      if binary = [] then (Inl BinaryUnset, w)
      else r_bind (r_result (parse_release_binaries binary (env_trimmed w ''CMD'' ''.'') (tenv w ''RELEASE_BINS''))) (\<lambda>bs.
        r_bind (git_output [''rev-parse'', ''--short'', ''HEAD'']) (\<lambda>short.
        r_bind (\<lambda>w. let sha = trim_space (tenv w ''GITHUB_SHA'') in
                    if sha = [] then git_output [''rev-parse'', ''HEAD''] w else (Inr sha, w)) (\<lambda>target w.
          (Inr \<lparr>rc_binary = rb_name (hd bs), rc_main = rb_main (hd bs), rc_binaries = bs,
                rc_version_pkg = trim_space (tenv w ''VPKG''), rc_gklog_pkg = trim_space (tenv w ''GKLOG_VPKG''),
                rc_entitlements = trim_space (tenv w ''RELEASE_ENTITLEMENTS''),
                rc_require_codesign = is_truthy (tenv w ''REQUIRE_DARWIN_CODESIGN''),
                rc_platforms = release_platforms w, rc_dist = env_trimmed w ''DIST_DIR'' ''dist'',
                rc_tag = release_tag rx short w, rc_short_sha = short, rc_target_sha = target,
                rc_build_time = rx_build_time rx,
                rc_prerelease = (\<not> is_stable_ref (trim_space (tenv w ''GITHUB_REF'')) (trim_space (tenv w ''GITHUB_REF_NAME'')))\<rparr>,
           w)))) w)"

definition release_binaries :: "release_config \<Rightarrow> release_binary list" where
  "release_binaries cfg =
     (if rc_binaries cfg \<noteq> [] then rc_binaries cfg
      else if rc_binary cfg = [] then []
      else [plain_binary (rc_binary cfg) (if rc_main cfg = [] then ''.'' else rc_main cfg)])"

section \<open>Processes\<close>

text \<open>\<open>os/exec\<close> keeps the last of several entries for one variable.\<close>

definition env_name :: "string \<Rightarrow> string option" where
  "env_name e = map_option fst (str_cut e ''='')"

fun dedup_env :: "string list \<Rightarrow> string list" where
  "dedup_env [] = []"
| "dedup_env (e # es) =
     (if env_name e \<noteq> None \<and> env_name e \<in> set (map env_name es) then dedup_env es
      else if e = [] then dedup_env es else e # dedup_env es)"

definition run_process :: "string \<Rightarrow> string list \<Rightarrow> string list \<Rightarrow> unit release_step" where
  "run_process name args extra w =
     r_tool (run_command (if extra = [] then tw_environ w else dedup_env (tw_environ w @ extra)) (name # args)) w"

definition list_packages :: "string list \<Rightarrow> (string \<Rightarrow> 'a list option) \<Rightarrow> string list \<Rightarrow> 'a list release_step" where
  "list_packages env decode argv w =
     (case t_exec env argv w of
        (NotStarted, w) \<Rightarrow> (Inl (GoListFailed argv), w)
      | (Exited status out ws, w) \<Rightarrow>
          if status \<noteq> 0 then (Inl (GoListFailed argv), w)
          else (case decode out of None \<Rightarrow> (Inl GoListUndecodable, w) | Some ps \<Rightarrow> (Inr ps, w)))"

section \<open>The cgo stub checks\<close>

definition cgo_disabled :: "tool_world \<Rightarrow> bool" where
  "cgo_disabled w \<longleftrightarrow> trim_space (tenv w ''CGO_ENABLED'') = ''0''"

definition cgo_optional_allowlist :: "tool_world \<Rightarrow> string list" where
  "cgo_optional_allowlist w = str_fields (tenv w ''GO_MK_CGO_OPTIONAL'')"

definition cgo_stub_targets :: "tool_world \<Rightarrow> string list" where
  "cgo_stub_targets w = (let c = trim_space (tenv w ''CMD'') in if c \<noteq> [] then [c] else [''./...''])"

definition filter_cgo_requiring :: "cgo_list_package list \<Rightarrow> string list \<Rightarrow> string list" where
  "filter_cgo_requiring ps allow =
     map cl_path (filter (\<lambda>p. \<not> cl_standard p \<and> cl_cgo p \<noteq> [] \<and> cl_path p \<notin> set allow) ps)"

definition cgo_requiring_packages :: "release_context \<Rightarrow> string list \<Rightarrow> string list release_step" where
  "cgo_requiring_packages rx targets w =
     r_bind (list_packages (dedup_env (tw_environ w @ [''CGO_ENABLED=1''])) (rx_cgo_list rx)
         ([''go'', ''list'', ''-e'', ''-deps'', ''-json''] @ targets))
       (\<lambda>ps w. (Inr (filter_cgo_requiring ps (cgo_optional_allowlist w)), w)) w"

definition check_cgo_stub :: "release_context \<Rightarrow> unit release_step" where
  "check_cgo_stub rx w =
     (if \<not> cgo_disabled w then (Inr (), w)
      else r_bind (cgo_requiring_packages rx (cgo_stub_targets w))
        (\<lambda>ps. if ps = [] then r_return () else r_result (Inl (CgoRequired ps))) w)"

definition cgo_enabled_value :: "tool_world \<Rightarrow> string" where
  "cgo_enabled_value w = env_trimmed w ''CGO_ENABLED'' ''0''"

definition release_cgo_enabled :: "release_binary \<Rightarrow> tool_world \<Rightarrow> bool" where
  "release_cgo_enabled b w \<longleftrightarrow> rb_cgo b \<or> cgo_enabled_value w \<noteq> ''0''"

definition platform_list_env :: "string list \<Rightarrow> string \<Rightarrow> string \<Rightarrow> string list" where
  "platform_list_env base goos goarch =
     set_env_var (set_env_var (set_env_var base ''CGO_ENABLED'' ''1'') ''GOOS'' goos) ''GOARCH'' goarch"

definition release_cgo_requiring :: "release_context \<Rightarrow> string \<Rightarrow> string \<Rightarrow> string \<Rightarrow> string list release_step" where
  "release_cgo_requiring rx main goos goarch w =
     r_bind (list_packages (platform_list_env (tw_environ w) goos goarch) (rx_cgo_list rx)
         [''go'', ''list'', ''-e'', ''-deps'', ''-json'', main])
       (\<lambda>ps w. (Inr (filter_cgo_requiring ps (cgo_optional_allowlist w)), w)) w"

definition unsupported_cgo_platform :: string where "unsupported_cgo_platform = ''darwin/amd64''"

text \<open>The finding one (binary, platform) pair gives, none when its cgo is on or its graph needs none.\<close>

definition pair_finding :: "release_context \<Rightarrow> string \<Rightarrow> string \<Rightarrow> string \<Rightarrow> release_binary \<Rightarrow> string list release_step" where
  "pair_finding rx p goos goarch b w =
     (if \<not> builds_for b p \<or> release_cgo_enabled b w then (Inr [], w)
      else r_bind (release_cgo_requiring rx (rb_main b) goos goarch)
        (\<lambda>ps. r_return (if ps = [] \<or> p = unsupported_cgo_platform then []
                        else [rb_name b @ '' ('' @ p @ ''): '' @ str_join '', '' ps])) w)"

definition platform_findings :: "release_context \<Rightarrow> release_config \<Rightarrow> string \<Rightarrow> string list release_step" where
  "platform_findings rx cfg p =
     (case str_cut p ''/'' of
        None \<Rightarrow> r_result (Inl (MalformedPlatform p))
      | Some (goos, goarch) \<Rightarrow>
          r_bind (r_map (pair_finding rx p goos goarch) (release_binaries cfg)) (\<lambda>fs. r_return (concat fs)))"

definition check_release_cgo_stub :: "release_context \<Rightarrow> release_config \<Rightarrow> unit release_step" where
  "check_release_cgo_stub rx cfg =
     r_bind (r_map (platform_findings rx cfg) (rc_platforms cfg))
       (\<lambda>fs. if concat fs = [] then r_return () else r_result (Inl (CgoRequired (concat fs))))"

section \<open>The platform stub check\<close>

record cgo_presence =
  cp_with :: bool
  cp_without :: bool

definition platform_stub_allowlist :: "tool_world \<Rightarrow> string list" where
  "platform_stub_allowlist w = str_fields (tenv w ''GO_MK_PLATFORM_STUB_OPTIONAL'')"

definition first_party_packages :: "release_context \<Rightarrow> string \<Rightarrow> string \<Rightarrow> platform_list_package list release_step" where
  "first_party_packages rx goos goarch w =
     list_packages (platform_list_env (tw_environ w) goos goarch) (rx_platform_list rx)
       [''go'', ''list'', ''-e'', ''-json'', ''./...''] w"

definition record_package :: "platform_list_package \<Rightarrow> (string \<times> cgo_presence) list \<Rightarrow> (string \<times> cgo_presence) list" where
  "record_package p seen =
     (if pl_standard p \<or> pl_go p = [] \<and> pl_cgo p = [] then seen
      else (let s = (case map_of seen (pl_path p) of None \<Rightarrow> \<lparr>cp_with = False, cp_without = False\<rparr> | Some s \<Rightarrow> s)
            in AList.update (pl_path p) (if pl_cgo p \<noteq> [] then s\<lparr>cp_with := True\<rparr> else s\<lparr>cp_without := True\<rparr>) seen))"

definition record_platform_presence :: "platform_list_package list \<Rightarrow> (string \<times> cgo_presence) list \<Rightarrow>
    (string \<times> cgo_presence) list" where
  "record_platform_presence ps seen = fold record_package ps seen"

definition flag_platform_split_packages :: "(string \<times> cgo_presence) list \<Rightarrow> string list \<Rightarrow> string list" where
  "flag_platform_split_packages seen allow =
     sort (map fst (filter (\<lambda>(p, s). p \<notin> set allow \<and> cp_with s \<and> cp_without s) seen))"

definition platform_packages :: "release_context \<Rightarrow> string \<Rightarrow> platform_list_package list release_step" where
  "platform_packages rx p =
     (case str_cut p ''/'' of
        None \<Rightarrow> r_result (Inl (MalformedPlatform p))
      | Some (goos, goarch) \<Rightarrow> first_party_packages rx goos goarch)"

definition check_platform_stub :: "release_context \<Rightarrow> unit release_step" where
  "check_platform_stub rx w =
     (let ps = declared_platforms default_release_platforms w in
      if length ps < 2 then (Inr (), w)
      else r_bind (r_map (platform_packages rx) ps)
        (\<lambda>listed w. let flagged = flag_platform_split_packages (fold record_platform_presence listed [])
                                    (platform_stub_allowlist w)
                    in (if flagged = [] then Inr () else Inl (SplitPackages flagged), w)) w)"

section \<open>Building\<close>

definition cgo_prefix_for :: "string \<Rightarrow> string \<Rightarrow> string \<Rightarrow> string" where
  "cgo_prefix_for work goos goarch = path_join [work, ''.make'', ''cgo'', goos @ ''-'' @ goarch]"

definition cgo_stamp_file :: string where "cgo_stamp_file = ''.go-mk-cgo-cache-key''"

definition cgo_deps_restored :: "release_context \<Rightarrow> string \<Rightarrow> string \<Rightarrow> string \<Rightarrow> tool_world \<Rightarrow> bool \<times> tool_world" where
  "cgo_deps_restored rx pre pkg_config key w =
     (if trim_space (tenv w ''GO_MK_CGO_CACHE_HIT'') \<noteq> ''true'' \<or> key = [] then (False, w)
      else (case t_read (path_join [pre, cgo_stamp_file]) w of
              (Content stamp, w) \<Rightarrow>
                if trim_space stamp \<noteq> key then (False, w)
                else (\<not> t_fails StatCall w \<and> rx_is_dir rx w pkg_config, t_tick w)
            | (_, w) \<Rightarrow> (False, w)))"

definition write_cgo_stamp :: "release_context \<Rightarrow> string \<Rightarrow> string \<Rightarrow> unit release_step" where
  "write_cgo_stamp rx pre key w =
     (if key = [] then (Inr (), w)
      else if t_fails StatCall w then (Inl (ReleaseFile pre), t_tick w)
      else if \<not> rx_is_dir rx w pre then (Inr (), t_tick w)
      else (let path = path_join [pre, cgo_stamp_file]; (wrote, w) = t_set WriteCall path (Some key) (t_tick w)
            in (if wrote then Inr () else Inl (ReleaseFile path), w)))"

definition cross_compiler_env :: "tool_world \<Rightarrow> string list" where
  "cross_compiler_env w =
     (let cc = trim_space (tenv w ''GO_MK_CC''); cxx = trim_space (tenv w ''GO_MK_CXX'')
      in (if cc \<noteq> [] then [''CC='' @ cc] else []) @ (if cxx \<noteq> [] then [''CXX='' @ cxx] else []))"

definition provision_cgo_deps :: "release_context \<Rightarrow> string \<Rightarrow> string \<Rightarrow> string release_step" where
  "provision_cgo_deps rx goos goarch w =
     (if trim_space (tenv w ''GO_MK_CGO_DEPS'') = [] then (Inr [], w)
      else (case tw_cwd w of
        None \<Rightarrow> (Inl NoWorkingDirectory, w)
      | Some work \<Rightarrow>
          (let pre = cgo_prefix_for work goos goarch; pkg_config = path_join [pre, ''lib'', ''pkgconfig''];
               key = trim_space (tenv w ''GO_MK_CGO_CACHE_KEY''); (restored, w) = cgo_deps_restored rx pre pkg_config key w in
           if restored then (Inr pkg_config, w)
           else r_bind (\<lambda>w. run_process ''make'' [''go-mk-cgo-deps'']
               ([''GO_MK_TARGET_GOOS='' @ goos, ''GO_MK_TARGET_GOARCH='' @ goarch, ''GO_MK_CGO_PREFIX='' @ pre] @
                cross_compiler_env w) w)
             (\<lambda>_. r_bind (write_cgo_stamp rx pre key) (\<lambda>_. r_return pkg_config)) w)))"

definition build_platform_env :: "string \<Rightarrow> string \<Rightarrow> string \<Rightarrow> string \<Rightarrow> tool_world \<Rightarrow> string list" where
  "build_platform_env goos goarch pkg_config inherited w =
     [''CGO_ENABLED='' @ cgo_enabled_value w, ''GOOS='' @ goos, ''GOARCH='' @ goarch] @ cross_compiler_env w @
     (if pkg_config = [] then []
      else [''PKG_CONFIG_PATH='' @ (if \<not> blank inherited then pkg_config @ '':'' @ inherited else pkg_config)])"

definition version_flags :: "release_config \<Rightarrow> string \<Rightarrow> string list" where
  "version_flags cfg pkg =
     [''-X'', pkg @ ''.Version='' @ rc_tag cfg, ''-X'', pkg @ ''.Commit='' @ rc_short_sha cfg, ''-X'', pkg @ ''.Dirty=false'',
      ''-X'', pkg @ ''.BuildTime='' @ rc_build_time cfg]"

definition release_ldflags :: "release_config \<Rightarrow> string" where
  "release_ldflags cfg =
     str_join '' '' ([''-s'', ''-w''] @
       (if rc_version_pkg cfg \<noteq> [] then version_flags cfg (rc_version_pkg cfg) else []) @
       (if rc_gklog_pkg cfg \<noteq> []
        then version_flags cfg (rc_gklog_pkg cfg) @ [''-X'', rc_gklog_pkg cfg @ ''.BinHash='']
        else []))"

definition target_name :: "release_binary \<Rightarrow> string \<Rightarrow> string \<Rightarrow> string" where
  "target_name b goos goarch = rb_name b @ ''_'' @ goos @ ''_'' @ goarch"

definition built_path :: "release_config \<Rightarrow> release_binary \<Rightarrow> string \<Rightarrow> string \<Rightarrow> string" where
  "built_path cfg b goos goarch = path_join [path_join [rc_dist cfg, target_name b goos goarch], rb_name b]"

definition r_mkdir :: "string \<Rightarrow> unit release_step" where
  "r_mkdir path w = (let (made, w) = t_try MkdirCall w in (if made then Inr () else Inl (ReleaseFile path), w))"

definition build_args :: "release_config \<Rightarrow> release_binary \<Rightarrow> string \<Rightarrow> string \<Rightarrow> string list" where
  "build_args cfg b goos goarch =
     [''build'', ''-trimpath'', ''-ldflags'', release_ldflags cfg, ''-o'', built_path cfg b goos goarch, rb_main b]"

definition build_release_binary :: "release_config \<Rightarrow> string \<Rightarrow> string \<Rightarrow> string list \<Rightarrow> release_binary \<Rightarrow> unit release_step" where
  "build_release_binary cfg goos goarch env b =
     r_bind (r_mkdir (path_join [rc_dist cfg, target_name b goos goarch]))
       (\<lambda>_. run_process ''go'' (build_args cfg b goos goarch) (build_env b env))"

definition build_platform :: "release_context \<Rightarrow> release_config \<Rightarrow> string \<Rightarrow> unit release_step" where
  "build_platform rx cfg p =
     (case str_cut p ''/'' of
        None \<Rightarrow> r_result (Inl (MalformedPlatform p))
      | Some (goos, goarch) \<Rightarrow>
          r_bind (provision_cgo_deps rx goos goarch) (\<lambda>pkg_config w.
            r_each (build_release_binary cfg goos goarch
                (build_platform_env goos goarch pkg_config (tenv w ''PKG_CONFIG_PATH'') w))
              (filter (\<lambda>b. builds_for b p) (release_binaries cfg)) w))"

section \<open>Signing\<close>

definition darwin_platform :: "string \<Rightarrow> bool" where
  "darwin_platform p = (case str_cut p ''/'' of None \<Rightarrow> False | Some (goos, _) \<Rightarrow> goos = ''darwin'')"

definition has_darwin_platform :: "string list \<Rightarrow> bool" where
  "has_darwin_platform ps = list_ex darwin_platform ps"

definition sign_attempts :: nat where "sign_attempts = 3"

fun sign_loop :: "nat \<Rightarrow> string \<Rightarrow> string list \<Rightarrow> unit release_step" where
  "sign_loop 0 quill args w = (Inr (), w)"
| "sign_loop (Suc n) quill args w =
     (case run_process quill args [] w of
        (Inr _, w) \<Rightarrow> (Inr (), w)
      | (Inl e, w) \<Rightarrow> if n = 0 then (Inl e, w) else sign_loop n quill args w)"

definition sign_args :: "string \<Rightarrow> string \<Rightarrow> string list" where
  "sign_args bin entitlements =
     [''sign-and-notarize'', bin, ''-vv''] @ (if entitlements \<noteq> [] then [''--entitlements'', entitlements] else [])"

definition sign_and_notarize :: "string \<Rightarrow> string \<Rightarrow> string \<Rightarrow> unit release_step" where
  "sign_and_notarize quill bin entitlements = sign_loop sign_attempts quill (sign_args bin entitlements)"

definition resolve_quill :: "release_context \<Rightarrow> string release_step" where
  "resolve_quill rx w =
     (case rx_look_path rx w ''quill'' of
        Some p \<Rightarrow> (Inr p, w)
      | None \<Rightarrow> r_bind (r_tool (go_env_path ''GOPATH'')) (\<lambda>gopath w.
          (let candidate = path_join [gopath, ''bin'', ''quill'']; (found, w) = t_stat candidate w
           in (if found then Inr candidate else Inl (QuillMissing candidate), w))) w)"

definition sign_platform :: "release_config \<Rightarrow> string \<Rightarrow> string \<Rightarrow> unit release_step" where
  "sign_platform cfg quill p =
     (case str_cut p ''/'' of
        None \<Rightarrow> r_return ()
      | Some (goos, goarch) \<Rightarrow>
          if goos \<noteq> ''darwin'' then r_return ()
          else r_each (\<lambda>b. sign_and_notarize quill (built_path cfg b goos goarch) (rc_entitlements cfg))
                 (filter (\<lambda>b. builds_for b p) (release_binaries cfg)))"

definition sign_darwin_binaries :: "release_context \<Rightarrow> release_config \<Rightarrow> unit release_step" where
  "sign_darwin_binaries rx cfg w =
     (if \<not> has_darwin_platform (rc_platforms cfg) then (Inr (), w)
      else if blank (tenv w ''QUILL_SIGN_P12'')
        then (if rc_require_codesign cfg then Inl SigningRequired else Inr (), w)
      else r_bind (resolve_quill rx) (\<lambda>quill. r_each (sign_platform cfg quill) (rc_platforms cfg)) w)"

section \<open>Archives, checksums and the release\<close>

record tar_member =
  tm_source :: string
  tm_name :: string
  tm_mode :: int

definition read_member :: "tar_member \<Rightarrow> archived release_step" where
  "read_member m w =
     (case t_read (tm_source m) w of
        (Content s, w) \<Rightarrow> (Inr (tm_name m, tm_mode m, s), w)
      | (_, w) \<Rightarrow> (Inl (ReleaseFile (tm_source m)), w))"

text \<open>
  The file is created first; an archive that is not finished leaves the bytes that reached it, which are a
  parameter, and the error of the member or of the writers.
\<close>

fun read_members :: "tar_member list \<Rightarrow> archived list \<Rightarrow> tool_world \<Rightarrow>
    (release_error option \<times> archived list) \<times> tool_world" where
  "read_members [] got w = ((None, got), w)"
| "read_members (m # ms) got w =
     (case read_member m w of
        (Inl e, w) \<Rightarrow> ((Some e, got), w) | (Inr a, w) \<Rightarrow> read_members ms (got @ [a]) w)"

definition write_tar_gz :: "release_context \<Rightarrow> string \<Rightarrow> tar_member list \<Rightarrow> unit release_step" where
  "write_tar_gz rx path ms w =
     (let (created, w) = t_set WriteCall path (Some []) w in
      if \<not> created then (Inl (ReleaseFile path), w)
      else (let ((failure, got), w) = read_members ms [] w; (wrote, w) = t_try WriteCall w;
                finished = (failure = None \<and> wrote);
                bytes = (if finished then rx_tar_gz rx got else rx_unfinished rx got)
            in (case failure of Some e \<Rightarrow> Inl e | None \<Rightarrow> if wrote then Inr () else Inl (ReleaseFile path),
                w\<lparr>tw_files := (tw_files w)(path := Some bytes)\<rparr>)))"

definition archive_path :: "release_config \<Rightarrow> release_binary \<Rightarrow> string \<Rightarrow> string \<Rightarrow> string" where
  "archive_path cfg b goos goarch = path_join [rc_dist cfg, target_name b goos goarch @ ''.tar.gz'']"

definition archive_binary :: "release_context \<Rightarrow> release_config \<Rightarrow> bool \<Rightarrow> string \<Rightarrow> string \<Rightarrow> release_binary \<Rightarrow>
    string release_step" where
  "archive_binary rx cfg readme goos goarch b =
     (let path = archive_path cfg b goos goarch in
      r_bind (write_tar_gz rx path
          (\<lparr>tm_source = built_path cfg b goos goarch, tm_name = rb_name b, tm_mode = 0x1ED\<rparr> #
           (if readme then [\<lparr>tm_source = ''README.md'', tm_name = ''README.md'', tm_mode = 0x1A4\<rparr>] else [])))
        (\<lambda>_. r_return path))"

definition archive_platform :: "release_context \<Rightarrow> release_config \<Rightarrow> bool \<Rightarrow> string \<Rightarrow> string list release_step" where
  "archive_platform rx cfg readme p =
     (case str_cut p ''/'' of
        None \<Rightarrow> r_result (Inl (MalformedPlatform p))
      | Some (goos, goarch) \<Rightarrow>
          r_map (archive_binary rx cfg readme goos goarch) (filter (\<lambda>b. builds_for b p) (release_binaries cfg)))"

definition archive_platforms :: "release_context \<Rightarrow> release_config \<Rightarrow> string list release_step" where
  "archive_platforms rx cfg w =
     (let (readme, w) = t_stat ''README.md'' w in
      r_bind (r_map (archive_platform rx cfg readme) (rc_platforms cfg)) (\<lambda>ps. r_return (concat ps)) w)"

definition checksum_row :: "release_context \<Rightarrow> string \<Rightarrow> string release_step" where
  "checksum_row rx archive w =
     (case t_read archive w of
        (Content s, w) \<Rightarrow> (Inr (hex_encode (rx_sha rx s) @ ''  '' @ path_base archive @ newline), w)
      | (_, w) \<Rightarrow> (Inl (ReleaseFile archive), w))"

definition write_checksums :: "release_context \<Rightarrow> release_config \<Rightarrow> string list \<Rightarrow> string release_step" where
  "write_checksums rx cfg archives =
     (let path = path_join [rc_dist cfg, ''checksums.txt''] in
      r_bind (r_map (checksum_row rx) archives) (\<lambda>rows w.
        (let (wrote, w) = t_set WriteCall path (Some (concat rows)) w
         in (if wrote then Inr path else Inl (ReleaseFile path), w))))"

definition publish_args :: "release_config \<Rightarrow> string list \<Rightarrow> string list" where
  "publish_args cfg assets =
     [''release'', ''create'', rc_tag cfg, ''--target'', rc_target_sha cfg, ''--title'', rc_binary cfg @ '' '' @ rc_tag cfg,
      ''--generate-notes'', if rc_prerelease cfg then ''--prerelease'' else ''--latest''] @ assets"

definition publish_release :: "release_config \<Rightarrow> string list \<Rightarrow> unit release_step" where
  "publish_release cfg assets = run_process ''gh'' (publish_args cfg assets) []"

section \<open>The stages\<close>

definition emit_release_tag :: "release_config \<Rightarrow> unit release_step" where
  "emit_release_tag cfg w =
     (let w = t_println (rc_tag cfg) w; path = trim_space (tenv w ''GITHUB_OUTPUT'') in
      if path = [] then (Inr (), w)
      else (let (ok, w) = t_append path (''tag='' @ rc_tag cfg @ newline) w
            in (if ok then Inr () else Inl (ReleaseFile path), w)))"

definition compile_stage :: "release_context \<Rightarrow> release_config \<Rightarrow> unit release_step" where
  "compile_stage rx cfg =
     r_bind (r_mkdir (rc_dist cfg)) (\<lambda>_. r_bind (check_release_cgo_stub rx cfg)
       (\<lambda>_. r_each (build_platform rx cfg) (rc_platforms cfg)))"

definition package_stage :: "release_context \<Rightarrow> release_config \<Rightarrow> unit release_step" where
  "package_stage rx cfg =
     r_bind (r_mkdir (rc_dist cfg)) (\<lambda>_. r_bind (sign_darwin_binaries rx cfg)
       (\<lambda>_. r_bind (archive_platforms rx cfg) (\<lambda>_. r_return ())))"

definition build_stage :: "release_context \<Rightarrow> release_config \<Rightarrow> unit release_step" where
  "build_stage rx cfg = r_bind (compile_stage rx cfg) (\<lambda>_. package_stage rx cfg)"

definition dist_files :: "release_context \<Rightarrow> string \<Rightarrow> string \<Rightarrow> string list release_step" where
  "dist_files rx dir pattern w =
     (case rx_glob rx (tw_files w) (path_join [dir, pattern]) of
        None \<Rightarrow> (Inl (BadPattern pattern), w) | Some ms \<Rightarrow> (Inr (sort ms), w))"

definition publish_stage :: "release_context \<Rightarrow> release_config \<Rightarrow> unit release_step" where
  "publish_stage rx cfg =
     r_bind (dist_files rx (rc_dist cfg) ''*.tar.gz'') (\<lambda>archives.
     r_bind (dist_files rx (rc_dist cfg) ''*.tar.gz.sigstore.json'') (\<lambda>bundles.
     r_bind (write_checksums rx cfg archives) (\<lambda>checksums.
       publish_release cfg (archives @ bundles @ [checksums]))))"

definition execute_release :: "release_context \<Rightarrow> release_config \<Rightarrow> unit release_step" where
  "execute_release rx cfg =
     r_bind (r_mkdir (rc_dist cfg)) (\<lambda>_. r_bind (check_release_cgo_stub rx cfg)
     (\<lambda>_. r_bind (r_each (build_platform rx cfg) (rc_platforms cfg))
     (\<lambda>_. r_bind (sign_darwin_binaries rx cfg)
     (\<lambda>_. r_bind (archive_platforms rx cfg)
     (\<lambda>archives. r_bind (write_checksums rx cfg archives)
     (\<lambda>checksums. publish_release cfg (archives @ [checksums])))))))"

definition run_release_stage :: "release_context \<Rightarrow> string \<Rightarrow> release_config \<Rightarrow> unit release_step" where
  "run_release_stage rx stage cfg =
     (if stage = ''tag'' then emit_release_tag cfg
      else if stage = ''compile'' then compile_stage rx cfg
      else if stage = ''package'' then package_stage rx cfg
      else if stage = ''build'' then build_stage rx cfg
      else if stage = ''publish'' then publish_stage rx cfg
      else if stage = [] then execute_release rx cfg
      else r_result (Inl (UnknownStage stage)))"

definition run_release :: "release_context \<Rightarrow> tool_world \<Rightarrow> int \<times> tool_world" where
  "run_release rx w =
     (case r_bind (load_release_config rx) (\<lambda>cfg w.
             run_release_stage rx (trim_space (tenv w ''RELEASE_STAGE'')) cfg w) w of
        (Inl e, w) \<Rightarrow> (1, w) | (Inr _, w) \<Rightarrow> (0, w))"

definition asset_names_of :: "release_config \<Rightarrow> release_binary \<Rightarrow> string list" where
  "asset_names_of cfg b =
     List.map_filter (\<lambda>p. map_option (\<lambda>(goos, goarch). target_name b goos goarch @ ''.tar.gz'') (str_cut p ''/''))
       (filter (builds_for b) (rc_platforms cfg))"

definition release_asset_names :: "release_config \<Rightarrow> string" where
  "release_asset_names cfg =
     concat (map (\<lambda>n. n @ newline) (concat (map (asset_names_of cfg) (release_binaries cfg))))"

definition run_release_assets :: "release_context \<Rightarrow> tool_world \<Rightarrow> int \<times> tool_world" where
  "run_release_assets rx w =
     (case load_release_config rx w of
        (Inl e, w) \<Rightarrow> (1, w) | (Inr cfg, w) \<Rightarrow> (0, t_print (release_asset_names cfg) w))"

text \<open>The steps of the build check that wrap the two stub checks; the text of an error is its finding.\<close>

definition stub_step :: "string \<Rightarrow> (release_error \<Rightarrow> string) \<Rightarrow> unit release_step \<Rightarrow> tool_world \<Rightarrow>
    (step_result \<times> int) \<times> tool_world" where
  "stub_step name message check w =
     (case check w of
        (Inl e, w) \<Rightarrow> ((plain_step name StepFailed (split_output_lines (message e)), 1), w)
      | (Inr _, w) \<Rightarrow> ((plain_step name StepOk [], 0), w))"

definition run_cgo_stub_step :: "release_context \<Rightarrow> (release_error \<Rightarrow> string) \<Rightarrow> tool_world \<Rightarrow> (step_result \<times> int) \<times> tool_world" where
  "run_cgo_stub_step rx message = stub_step ''cgo-stub'' message (check_cgo_stub rx)"

definition run_platform_stub_step :: "release_context \<Rightarrow> (release_error \<Rightarrow> string) \<Rightarrow> tool_world \<Rightarrow>
    (step_result \<times> int) \<times> tool_world" where
  "run_platform_stub_step rx message = stub_step ''platform-stub'' message (check_platform_stub rx)"

section \<open>What a release step may run\<close>

text \<open>
  A step that leaves the environment alone and adds to the commands that ran only some for which \<open>P\<close> holds.
\<close>

definition runs_only :: "(string list \<Rightarrow> bool) \<Rightarrow> 'a release_step \<Rightarrow> bool" where
  "runs_only P m \<longleftrightarrow> (\<forall>w r w'. m w = (r, w') \<longrightarrow>
     tw_run w' = tw_run w \<and> tw_environ w' = tw_environ w \<and>
     (\<exists>cs. tw_ran w' = tw_ran w @ cs \<and> (\<forall>c \<in> set cs. P (snd c))))"

named_theorems keeps_intros

lemma r_bind_Inr: "r_bind m f w = (Inr b, w') \<longleftrightarrow> (\<exists>a w1. m w = (Inr a, w1) \<and> f a w1 = (Inr b, w'))"
  by (auto simp: r_bind_def split: prod.splits sum.splits)

lemma keepsI:
  assumes "\<And>w r w'. m w = (r, w') \<Longrightarrow> tw_run w' = tw_run w \<and> tw_environ w' = tw_environ w \<and>
     (\<exists>cs. tw_ran w' = tw_ran w @ cs \<and> (\<forall>c \<in> set cs. P (snd c)))"
  shows "runs_only P m"
  using assms by (auto simp: runs_only_def)

lemma keepsD:
  assumes "runs_only P m" "m w = (r, w')"
  shows "tw_run w' = tw_run w" "tw_environ w' = tw_environ w"
    "\<exists>cs. tw_ran w' = tw_ran w @ cs \<and> (\<forall>c \<in> set cs. P (snd c))"
  using assms by (auto simp: runs_only_def)

lemma keeps_silent:
  assumes "\<And>w r w'. m w = (r, w') \<Longrightarrow> tw_run w' = tw_run w \<and> tw_environ w' = tw_environ w \<and> tw_ran w' = tw_ran w"
  shows "runs_only P m"
  by (rule keepsI) (use assms in force)

lemma keeps_bind [keeps_intros]:
  assumes "runs_only P m" "\<And>a. runs_only P (f a)"
  shows "runs_only P (r_bind m f)"
proof (rule keepsI)
  fix w r w' assume run: "r_bind m f w = (r, w')"
  obtain q w1 where m: "m w = (q, w1)" by force
  note m' = keepsD [OF assms(1) m]
  show "tw_run w' = tw_run w \<and> tw_environ w' = tw_environ w \<and>
     (\<exists>cs. tw_ran w' = tw_ran w @ cs \<and> (\<forall>c \<in> set cs. P (snd c)))"
  proof (cases q)
    case (Inl e)
    then show ?thesis using run m m' by (auto simp: r_bind_def)
  next
    case (Inr a)
    then have "f a w1 = (r, w')" using run m by (simp add: r_bind_def)
    note f' = keepsD [OF assms(2) this]
    obtain cs ds where "tw_ran w1 = tw_ran w @ cs" "\<forall>c \<in> set cs. P (snd c)"
      "tw_ran w' = tw_ran w1 @ ds" "\<forall>c \<in> set ds. P (snd c)" using m'(3) f'(3) by blast
    then have "tw_ran w' = tw_ran w @ (cs @ ds) \<and> (\<forall>c \<in> set (cs @ ds). P (snd c))" by auto
    then show ?thesis using m' f' by metis
  qed
qed

lemma keeps_return [keeps_intros]: "runs_only P (r_return a)"
  by (rule keeps_silent) (simp add: r_return_def)

lemma keeps_result [keeps_intros]: "runs_only P (r_result a)"
  by (rule keeps_silent) (simp add: r_result_def)

lemma keeps_each [keeps_intros]: "(\<And>x. x \<in> set xs \<Longrightarrow> runs_only P (f x)) \<Longrightarrow> runs_only P (r_each f xs)"
  by (induction xs) (auto intro!: keeps_intros)

lemma keeps_map [keeps_intros]: "(\<And>x. x \<in> set xs \<Longrightarrow> runs_only P (f x)) \<Longrightarrow> runs_only P (r_map f xs)"
  by (induction xs) (auto intro!: keeps_intros)

lemma keeps_if [keeps_intros]: "runs_only P m \<Longrightarrow> runs_only P n \<Longrightarrow> runs_only P (if b then m else n)"
  by simp

lemma keeps_at:
  assumes "\<And>w. \<exists>n. m w = n w \<and> runs_only P n"
  shows "runs_only P m"
proof (rule keepsI)
  fix w r w' assume "m w = (r, w')"
  moreover obtain n where "m w = n w" "runs_only P n" using assms by blast
  ultimately show "tw_run w' = tw_run w \<and> tw_environ w' = tw_environ w \<and>
     (\<exists>cs. tw_ran w' = tw_ran w @ cs \<and> (\<forall>c \<in> set cs. P (snd c)))"
    by (simp add: runs_only_def)
qed

lemma keeps_exec:
  assumes "t_exec env argv w = (r, w')" "P argv"
  shows "tw_run w' = tw_run w \<and> tw_environ w' = tw_environ w \<and>
     (\<exists>cs. tw_ran w' = tw_ran w @ cs \<and> (\<forall>c \<in> set cs. P (snd c)))"
  using assms by (auto simp: t_exec_def t_tick_def Let_def split: cmd_outcome.splits)

lemma keeps_process [keeps_intros]: "P (name # args) \<Longrightarrow> runs_only P (run_process name args extra)"
  by (rule keepsI)
    (auto simp: run_process_def r_tool_def run_command_def t_exec_def t_tick_def t_print_def Let_def
      split: prod.splits sum.splits cmd_outcome.splits if_splits)

lemma keeps_list [keeps_intros]: "P argv \<Longrightarrow> runs_only P (list_packages env decode argv)"
  by (rule keepsI)
    (auto simp: list_packages_def t_exec_def t_tick_def Let_def split: prod.splits cmd_outcome.splits if_splits option.splits)

lemma keeps_mkdir [keeps_intros]: "runs_only P (r_mkdir path)"
  by (rule keeps_silent) (auto simp: r_mkdir_def t_try_def t_tick_def)

lemma t_stat_frame: "t_stat path w = (b, w') \<Longrightarrow> tw_run w' = tw_run w \<and> tw_environ w' = tw_environ w \<and> tw_ran w' = tw_ran w"
  by (auto simp: t_stat_def t_tick_def)

lemma t_read_frame: "t_read path w = (b, w') \<Longrightarrow>
    tw_run w' = tw_run w \<and> tw_environ w' = tw_environ w \<and> tw_ran w' = tw_ran w \<and> tw_files w' = tw_files w"
  by (auto simp: t_read_def t_tick_def)

lemma t_set_frame: "t_set c path v w = (b, w') \<Longrightarrow> tw_run w' = tw_run w \<and> tw_environ w' = tw_environ w \<and> tw_ran w' = tw_ran w"
  by (auto simp: t_set_def t_tick_def split: if_splits)

section \<open>Commands that succeeded\<close>








section \<open>The steps before the release is created\<close>

definition no_release :: "string list \<Rightarrow> bool" where
  "no_release argv \<longleftrightarrow> argv \<noteq> [] \<and> hd argv \<noteq> ''gh''"

lemma no_release_Cons [simp]: "no_release (c # args) \<longleftrightarrow> c \<noteq> ''gh''"
  by (simp add: no_release_def)

lemma keeps_pair_finding [keeps_intros]: "runs_only no_release (pair_finding rx p goos goarch b)"
proof (rule keeps_at)
  fix w
  show "\<exists>n. pair_finding rx p goos goarch b w = n w \<and> runs_only no_release n"
  proof (cases "\<not> builds_for b p \<or> release_cgo_enabled b w")
    case True
    then show ?thesis by (intro exI [of _ "r_return []"]) (simp add: pair_finding_def r_return_def keeps_return)
  next
    case False
    have list: "runs_only no_release (release_cgo_requiring rx (rb_main b) goos goarch)"
    proof (rule keeps_at)
      fix w :: tool_world
      let ?n = "r_bind (list_packages (platform_list_env (tw_environ w) goos goarch) (rx_cgo_list rx)
         [''go'', ''list'', ''-e'', ''-deps'', ''-json'', rb_main b])
       (\<lambda>ps w. (Inr (filter_cgo_requiring ps (cgo_optional_allowlist w)), w))"
      have "runs_only no_release ?n"
        by (intro keeps_bind keeps_list) (auto intro: keeps_silent)
      then show "\<exists>n. release_cgo_requiring rx (rb_main b) goos goarch w = n w \<and> runs_only no_release n"
        by (intro exI [of _ ?n]) (simp add: release_cgo_requiring_def)
    qed
    let ?n = "r_bind (release_cgo_requiring rx (rb_main b) goos goarch)
        (\<lambda>ps. r_return (if ps = [] \<or> p = unsupported_cgo_platform then []
                        else [rb_name b @ '' ('' @ p @ ''): '' @ str_join '', '' ps]))"
    have "runs_only no_release ?n" by (intro keeps_bind list keeps_return)
    then show ?thesis using False by (intro exI [of _ ?n]) (simp add: pair_finding_def)
  qed
qed

lemma keeps_check_release [keeps_intros]: "runs_only no_release (check_release_cgo_stub rx cfg)"
proof -
  have "runs_only no_release (platform_findings rx cfg p)" for p
    by (auto simp: platform_findings_def split: option.splits intro!: keeps_bind keeps_map keeps_pair_finding keeps_return keeps_result)
  then show ?thesis
    unfolding check_release_cgo_stub_def by (intro keeps_bind keeps_map keeps_if keeps_return keeps_result)
qed

lemma restored_frame:
  "cgo_deps_restored rx pre pkg key w = (b, w') \<Longrightarrow>
     tw_run w' = tw_run w \<and> tw_environ w' = tw_environ w \<and> tw_ran w' = tw_ran w"
  by (auto simp: cgo_deps_restored_def t_read_def t_tick_def split: if_splits option.splits)

lemma keeps_stamp [keeps_intros]: "runs_only P (write_cgo_stamp rx pre key)"
  by (rule keeps_silent)
    (auto simp: write_cgo_stamp_def t_tick_def Let_def t_set_def split: if_splits)

lemma keeps_provision [keeps_intros]: "runs_only no_release (provision_cgo_deps rx goos goarch)"
proof (rule keepsI)
  fix w r w' assume run: "provision_cgo_deps rx goos goarch w = (r, w')"
  show "tw_run w' = tw_run w \<and> tw_environ w' = tw_environ w \<and>
     (\<exists>cs. tw_ran w' = tw_ran w @ cs \<and> (\<forall>c \<in> set cs. no_release (snd c)))"
  proof (cases "trim_space (tenv w ''GO_MK_CGO_DEPS'') = [] \<or> tw_cwd w = None")
    case True
    then show ?thesis using run by (auto simp: provision_cgo_deps_def split: if_splits)
  next
    case False
    then obtain work where work: "tw_cwd w = Some work" by auto
    define pre where "pre = cgo_prefix_for work goos goarch"
    define pkg where "pkg = path_join [pre, ''lib'', ''pkgconfig'']"
    define key where "key = trim_space (tenv w ''GO_MK_CGO_CACHE_KEY'')"
    obtain b w1 where b: "cgo_deps_restored rx pre pkg key w = (b, w1)" by force
    note fr = restored_frame [OF b]
    let ?rest = "r_bind (\<lambda>w. run_process ''make'' [''go-mk-cgo-deps'']
               ([''GO_MK_TARGET_GOOS='' @ goos, ''GO_MK_TARGET_GOARCH='' @ goarch, ''GO_MK_CGO_PREFIX='' @ pre] @
                cross_compiler_env w) w) (\<lambda>_. r_bind (write_cgo_stamp rx pre key) (\<lambda>_. r_return pkg))"
    have k: "runs_only no_release ?rest"
    proof (intro keeps_bind keeps_stamp keeps_return)
      show "runs_only no_release (\<lambda>w. run_process ''make'' [''go-mk-cgo-deps'']
               ([''GO_MK_TARGET_GOOS='' @ goos, ''GO_MK_TARGET_GOARCH='' @ goarch, ''GO_MK_CGO_PREFIX='' @ pre] @
                cross_compiler_env w) w)"
        by (rule keeps_at) (rule exI, rule conjI [OF refl], rule keeps_process, simp)
    qed
    have eq: "provision_cgo_deps rx goos goarch w = (if b then (Inr pkg, w1) else ?rest w1)"
      using False work b by (simp add: provision_cgo_deps_def Let_def pre_def pkg_def key_def)
    show ?thesis
    proof (cases b)
      case True
      then show ?thesis using run eq fr by auto
    next
      case False
      then have "?rest w1 = (r, w')" using run eq by simp
      from keepsD [OF k this] show ?thesis using fr by auto
    qed
  qed
qed

lemma keeps_build_binary [keeps_intros]: "runs_only no_release (build_release_binary cfg goos goarch env b)"
  unfolding build_release_binary_def by (intro keeps_bind keeps_mkdir keeps_process) simp

lemma keeps_build_platform [keeps_intros]: "runs_only no_release (build_platform rx cfg p)"
proof (cases "str_cut p ''/''")
  case None
  then show ?thesis by (simp add: build_platform_def keeps_result)
next
  case (Some t)
  obtain goos goarch where t: "t = (goos, goarch)" by force
  let ?f = "\<lambda>pkg w. r_each (build_release_binary cfg goos goarch
                (build_platform_env goos goarch pkg (tenv w ''PKG_CONFIG_PATH'') w))
              (filter (\<lambda>b. builds_for b p) (release_binaries cfg)) w"
  have "runs_only no_release (?f pkg)" for pkg
    by (rule keeps_at) (rule exI, rule conjI [OF refl], intro keeps_each keeps_build_binary)
  then have "runs_only no_release (r_bind (provision_cgo_deps rx goos goarch) ?f)"
    by (intro keeps_bind keeps_provision)
  then show ?thesis using Some t by (simp add: build_platform_def)
qed

lemma keeps_sign_loop:
  assumes "P (quill # args)"
  shows "runs_only P (sign_loop n quill args)"
proof (induction n)
  case 0
  show ?case by (rule keeps_silent) simp
next
  case (Suc n)
  have k: "runs_only P (run_process quill args [])" using assms by (rule keeps_process)
  show ?case
  proof (rule keepsI)
    fix w r w' assume run: "sign_loop (Suc n) quill args w = (r, w')"
    obtain q w1 where q: "run_process quill args [] w = (q, w1)" by force
    note k1 = keepsD [OF k q]
    show "tw_run w' = tw_run w \<and> tw_environ w' = tw_environ w \<and>
       (\<exists>cs. tw_ran w' = tw_ran w @ cs \<and> (\<forall>c \<in> set cs. P (snd c)))"
    proof (cases "isl q \<and> n \<noteq> 0")
      case True
      then have "sign_loop n quill args w1 = (r, w')" using run q by (cases q) auto
      note k2 = keepsD [OF Suc this]
      obtain cs ds where "tw_ran w1 = tw_ran w @ cs" "\<forall>c \<in> set cs. P (snd c)"
        "tw_ran w' = tw_ran w1 @ ds" "\<forall>c \<in> set ds. P (snd c)" using k1(3) k2(3) by blast
      then have "tw_ran w' = tw_ran w @ (cs @ ds) \<and> (\<forall>c \<in> set (cs @ ds). P (snd c))" by auto
      then show ?thesis using k1 k2 by metis
    next
      case False
      then have "w' = w1" using run q by (cases q) auto
      then show ?thesis using k1 by simp
    qed
  qed
qed

lemma keeps_sign_platform: "quill \<noteq> ''gh'' \<Longrightarrow> runs_only no_release (sign_platform cfg quill p)"
  by (auto simp: sign_platform_def sign_and_notarize_def split: option.splits
      intro!: keeps_return keeps_each keeps_sign_loop)

lemma path_join_bin_quill: "path_join [gopath, ''bin'', ''quill''] \<noteq> ''gh''"
proof -
  have "suffix ''quill'' (path_join [gopath, ''bin'', ''quill''])"
    using path_clean_suffix [of "''quill''" "''bin''"] path_clean_suffix [of "''quill''" "gopath @ ''/bin''"]
    by (cases "gopath = []") (simp_all add: path_join_def)
  then show ?thesis by (auto simp: suffix_def)
qed

definition other_quill :: "release_context \<Rightarrow> bool" where
  "other_quill rx \<longleftrightarrow> (\<forall>w. rx_look_path rx w ''quill'' \<noteq> Some ''gh'')"

lemma resolve_quill_frame:
  assumes "resolve_quill rx w = (r, w')" "other_quill rx"
  shows "tw_run w' = tw_run w \<and> tw_environ w' = tw_environ w \<and>
     (\<exists>cs. tw_ran w' = tw_ran w @ cs \<and> (\<forall>c \<in> set cs. no_release (snd c)))" "r \<noteq> Inr ''gh''"
proof -
  show "tw_run w' = tw_run w \<and> tw_environ w' = tw_environ w \<and>
     (\<exists>cs. tw_ran w' = tw_ran w @ cs \<and> (\<forall>c \<in> set cs. no_release (snd c)))"
    using assms(1)
    by (auto simp: resolve_quill_def r_bind_def r_tool_def go_env_path_def t_output_def t_exec_def t_tick_def t_stat_def Let_def
        split: option.splits prod.splits sum.splits cmd_outcome.splits if_splits)
  show "r \<noteq> Inr ''gh''"
    using assms path_join_bin_quill
    by (auto simp: resolve_quill_def other_quill_def r_bind_def t_stat_def Let_def split: option.splits prod.splits sum.splits if_splits)
qed

lemma keeps_sign_darwin:
  assumes "other_quill rx"
  shows "runs_only no_release (sign_darwin_binaries rx cfg)"
proof (rule keepsI)
  fix w r w' assume run: "sign_darwin_binaries rx cfg w = (r, w')"
  show "tw_run w' = tw_run w \<and> tw_environ w' = tw_environ w \<and>
     (\<exists>cs. tw_ran w' = tw_ran w @ cs \<and> (\<forall>c \<in> set cs. no_release (snd c)))"
  proof (cases "\<not> has_darwin_platform (rc_platforms cfg) \<or> blank (tenv w ''QUILL_SIGN_P12'')")
    case True
    then show ?thesis using run by (auto simp: sign_darwin_binaries_def split: if_splits)
  next
    case False
    obtain q w1 where q: "resolve_quill rx w = (q, w1)" by force
    note f1 = resolve_quill_frame [OF q assms]
    show ?thesis
    proof (cases q)
      case (Inl e)
      then show ?thesis using run q False f1 by (auto simp: sign_darwin_binaries_def r_bind_def)
    next
      case (Inr quill)
      then have e: "r_each (sign_platform cfg quill) (rc_platforms cfg) w1 = (r, w')"
        using run q False by (auto simp: sign_darwin_binaries_def r_bind_def)
      have "runs_only no_release (r_each (sign_platform cfg quill) (rc_platforms cfg))"
        using f1(2) Inr by (intro keeps_each keeps_sign_platform) simp
      note f2 = keepsD [OF this e]
      obtain cs ds where "tw_ran w1 = tw_ran w @ cs" "\<forall>c \<in> set cs. no_release (snd c)"
        "tw_ran w' = tw_ran w1 @ ds" "\<forall>c \<in> set ds. no_release (snd c)" using f1(1) f2(3) by blast
      then have "tw_ran w' = tw_ran w @ (cs @ ds) \<and> (\<forall>c \<in> set (cs @ ds). no_release (snd c))" by auto
      then show ?thesis using f1 f2 by metis
    qed
  qed
qed

lemma read_member_frame:
  "read_member m w = (r, w') \<Longrightarrow> tw_run w' = tw_run w \<and> tw_environ w' = tw_environ w \<and> tw_ran w' = tw_ran w"
  by (auto simp: read_member_def dest: t_read_frame split: prod.splits file_read.splits)

lemma read_members_frame:
  "read_members ms got w = (r, w') \<Longrightarrow> tw_run w' = tw_run w \<and> tw_environ w' = tw_environ w \<and> tw_ran w' = tw_ran w"
proof (induction ms arbitrary: got w)
  case (Cons m ms)
  obtain q w1 where "read_member m w = (q, w1)" by force
  with read_member_frame [OF this] Cons show ?case by (cases q) auto
qed simp

lemma keeps_tar [keeps_intros]: "runs_only P (write_tar_gz rx path ms)"
  by (rule keeps_silent)
    (auto simp: write_tar_gz_def t_try_def t_tick_def dest!: t_set_frame read_members_frame
      split: prod.splits if_splits)

lemma keeps_archive_binary [keeps_intros]: "runs_only P (archive_binary rx cfg readme goos goarch b)"
  unfolding archive_binary_def Let_def by (intro keeps_bind keeps_tar keeps_return)

lemma keeps_archive_platform [keeps_intros]: "runs_only P (archive_platform rx cfg readme p)"
  by (auto simp: archive_platform_def split: option.splits intro!: keeps_result keeps_map keeps_archive_binary)

lemma keeps_archive [keeps_intros]: "runs_only P (archive_platforms rx cfg)"
proof (rule keepsI)
  fix w r w' assume run: "archive_platforms rx cfg w = (r, w')"
  obtain readme w1 where s: "t_stat ''README.md'' w = (readme, w1)" by force
  have "runs_only P (r_bind (r_map (archive_platform rx cfg readme) (rc_platforms cfg)) (\<lambda>ps. r_return (concat ps)))"
    by (intro keeps_bind keeps_map keeps_archive_platform keeps_return)
  moreover have "r_bind (r_map (archive_platform rx cfg readme) (rc_platforms cfg)) (\<lambda>ps. r_return (concat ps)) w1 = (r, w')"
    using run s by (simp add: archive_platforms_def)
  ultimately show "tw_run w' = tw_run w \<and> tw_environ w' = tw_environ w \<and>
     (\<exists>cs. tw_ran w' = tw_ran w @ cs \<and> (\<forall>c \<in> set cs. P (snd c)))"
    using keepsD t_stat_frame [OF s] by metis
qed



section \<open>Every step precedes the release\<close>









lemma r_map_results:
  assumes "r_map f xs w = (Inr ys, w')" "\<And>x v y v'. x \<in> set xs \<Longrightarrow> f x v = (Inr y, v') \<Longrightarrow> g x = y"
  shows "ys = map g xs"
  using assms
proof (induction xs arbitrary: w w' ys)
  case Nil
  then show ?case by (simp add: r_return_def)
next
  case (Cons x xs)
  obtain y w1 zs w2 where "f x w = (Inr y, w1)" "r_map f xs w1 = (Inr zs, w2)" "ys = y # zs"
    using Cons.prems(1) by (auto simp: r_bind_Inr r_return_def)
  moreover have "zs = map g xs"
    by (rule Cons.IH) (use \<open>r_map f xs w1 = (Inr zs, w2)\<close> Cons.prems(2) in auto)
  moreover have "g x = y" by (rule Cons.prems(2)) (use \<open>f x w = (Inr y, w1)\<close> in auto)
  ultimately show ?case by simp
qed

definition platform_archives :: "release_config \<Rightarrow> string \<Rightarrow> string list" where
  "platform_archives cfg p =
     (case str_cut p ''/'' of
        None \<Rightarrow> []
      | Some (goos, goarch) \<Rightarrow>
          map (\<lambda>b. archive_path cfg b goos goarch) (filter (\<lambda>b. builds_for b p) (release_binaries cfg)))"

lemma archive_binary_path: "archive_binary rx cfg readme goos goarch b w = (Inr p, w') \<Longrightarrow> p = archive_path cfg b goos goarch"
  by (auto simp: archive_binary_def Let_def r_bind_Inr r_return_def)

lemma archive_platform_paths:
  "archive_platform rx cfg readme p w = (Inr as, w') \<Longrightarrow> str_cut p ''/'' \<noteq> None \<and> as = platform_archives cfg p"
  by (auto simp: archive_platform_def platform_archives_def r_result_def split: option.splits
      dest: r_map_results [where g = "\<lambda>b. archive_path cfg b _ _"] archive_binary_path)

lemma archive_platforms_paths:
  assumes "archive_platforms rx cfg w = (Inr as, w')"
  shows "as = concat (map (platform_archives cfg) (rc_platforms cfg))"
    and "\<forall>p \<in> set (rc_platforms cfg). str_cut p ''/'' \<noteq> None"
proof -
  obtain readme w1 ps w2 where m: "r_map (archive_platform rx cfg readme) (rc_platforms cfg) w1 = (Inr ps, w2)" "as = concat ps"
    using assms by (auto simp: archive_platforms_def Let_def r_bind_Inr r_return_def split: prod.splits)
  have "ps = map (platform_archives cfg) (rc_platforms cfg)"
    by (rule r_map_results [OF m(1)]) (auto dest: archive_platform_paths)
  then show "as = concat (map (platform_archives cfg) (rc_platforms cfg))" using m(2) by simp
  have "r_map (archive_platform rx cfg readme) qs v = (Inr ps, v') \<Longrightarrow> \<forall>p \<in> set qs. str_cut p ''/'' \<noteq> None" for qs ps v v'
  proof (induction qs arbitrary: v ps)
    case (Cons q qs)
    then obtain a v1 bs v2 where "archive_platform rx cfg readme q v = (Inr a, v1)"
      "r_map (archive_platform rx cfg readme) qs v1 = (Inr bs, v2)" "v2 = v'"
      by (auto simp: r_bind_Inr r_return_def)
    then show ?case using Cons.IH archive_platform_paths by fastforce
  qed simp
  from this [OF m(1)] show "\<forall>p \<in> set (rc_platforms cfg). str_cut p ''/'' \<noteq> None" .
qed





lemma keeps_emit_tag: "runs_only P (emit_release_tag cfg)"
  by (rule keeps_silent)
    (auto simp: emit_release_tag_def t_println_def t_print_def t_append_def Let_def dest!: t_set_frame split: prod.splits if_splits)

lemma keeps_compile: "runs_only no_release (compile_stage rx cfg)"
  unfolding compile_stage_def
  by (intro keeps_bind keeps_mkdir keeps_check_release keeps_each keeps_build_platform)

lemma keeps_package: "other_quill rx \<Longrightarrow> runs_only no_release (package_stage rx cfg)"
  unfolding package_stage_def
  by (intro keeps_bind keeps_mkdir keeps_sign_darwin keeps_archive keeps_return)

text \<open>Only the publish stage and the unnamed stage run \<open>gh\<close>.\<close>

lemma other_stages_do_not_release:
  assumes "other_quill rx" "stage \<noteq> ''publish''" "stage \<noteq> []"
  shows "runs_only no_release (run_release_stage rx stage cfg)"
  using assms keeps_emit_tag keeps_compile keeps_package
  by (auto simp: run_release_stage_def build_stage_def intro: keeps_bind keeps_result)

section \<open>The archives are the announced assets\<close>

lemma mset_concat_swap:
  "mset (concat (map (\<lambda>p. map (f p) (filter (P p) bs)) ps)) = mset (concat (map (\<lambda>b. map (\<lambda>p. f p b) (filter (\<lambda>p. P p b) ps)) bs))"
proof (induction ps)
  case Nil
  then show ?case by (induction bs) auto
next
  case (Cons p ps)
  have "mset (concat (map (\<lambda>b. map (\<lambda>p. f p b) (filter (\<lambda>p. P p b) (p # ps))) bs)) =
    mset (map (f p) (filter (P p) bs)) + mset (concat (map (\<lambda>b. map (\<lambda>p. f p b) (filter (\<lambda>p. P p b) ps)) bs))" for ps
    by (induction bs) auto
  then show ?case using Cons by simp
qed

text \<open>
  \<open>go-mk release-assets\<close> announces what \<open>make release\<close> archives: when every archive is written, the archives
  are, as a multiset, the announced names inside the distribution directory.
\<close>

theorem assets_are_the_archives:
  assumes "archive_platforms rx cfg w = (Inr archives, w')"
  shows "mset archives = mset (map (\<lambda>n. path_join [rc_dist cfg, n]) (concat (map (asset_names_of cfg) (release_binaries cfg))))"
proof -
  note paths = archive_platforms_paths [OF assms]
  define f where "f p b = (case str_cut p ''/'' of None \<Rightarrow> [] | Some (goos, goarch) \<Rightarrow> archive_path cfg b goos goarch)" for p b
  have "platform_archives cfg p = map (f p) (filter (\<lambda>b. builds_for b p) (release_binaries cfg))"
    if "p \<in> set (rc_platforms cfg)" for p
    using paths(2) that by (auto simp: platform_archives_def f_def split: option.splits)
  then have 1: "archives = concat (map (\<lambda>p. map (f p) (filter (\<lambda>b. builds_for b p) (release_binaries cfg))) (rc_platforms cfg))"
    using paths(1) by (metis (no_types, lifting) map_eq_conv)
  have names: "map (\<lambda>n. path_join [rc_dist cfg, n]) (List.map_filter (\<lambda>p. map_option (\<lambda>(goos, goarch). target_name b goos goarch @ ''.tar.gz'') (str_cut p ''/'')) ps) =
     map (\<lambda>p. f p b) ps" if "\<forall>p \<in> set ps. str_cut p ''/'' \<noteq> None" for b ps
    using that by (induction ps) (auto simp: map_filter_def f_def archive_path_def)
  have 2: "map (\<lambda>n. path_join [rc_dist cfg, n]) (asset_names_of cfg b) = map (\<lambda>p. f p b) (filter (builds_for b) (rc_platforms cfg))" for b
    unfolding asset_names_of_def by (rule names) (use paths(2) in auto)
  show ?thesis using mset_concat_swap [of f "\<lambda>p b. builds_for b p" "release_binaries cfg" "rc_platforms cfg"]
    by (simp add: 1 2 map_concat comp_def)
qed

section \<open>The checksum file\<close>

lemma hex_lower_plain: "n < 16 \<Longrightarrow> plain_char (hex_lower n) \<and> hex_lower n \<noteq> CHR 0x0A"
proof -
  have "\<forall>n \<in> set [0..<16]. plain_char (hex_lower n) \<and> hex_lower n \<noteq> CHR 0x0A" by code_simp
  then show "n < 16 \<Longrightarrow> plain_char (hex_lower n) \<and> hex_lower n \<noteq> CHR 0x0A" by simp
qed

lemma hex_encode_plain: "c \<in> set (hex_encode s) \<Longrightarrow> plain_char c \<and> c \<noteq> CHR 0x0A"
proof -
  have "(of_char x :: nat) div 16 < 16" for x using nat_of_char_less_256 [of x] by (simp add: div_less_iff_less_mult)
  then show "c \<in> set (hex_encode s) \<Longrightarrow> plain_char c \<and> c \<noteq> CHR 0x0A"
    by (auto simp: hex_encode_def hex_lower_plain)
qed

lemma hex_encode_solid: "s \<noteq> [] \<Longrightarrow> solid (hex_encode s)"
  by (rule solid_plain) (cases s, simp_all add: hex_encode_def [of "_ # _"], metis hex_encode_plain)

lemma path_base_no_dot_slash: "checksum_entry_name (path_base p) = path_base p"
proof -
  have "slash \<notin> set (after_last_slash q)" for q by (auto simp: after_last_slash_def dest: set_takeWhileD)
  then have "\<not> prefix ''./'' (path_base p)" by (auto simp: path_base_def Let_def prefix_def) (metis in_set_conv_decomp append_Cons append_Nil)+
  then show ?thesis by (simp add: checksum_entry_name_def trim_prefix_def)
qed

lemma solid_no_newline: "solid w \<Longrightarrow> CHR 0x0A \<notin> set w"
proof
  assume "solid w" "CHR 0x0A \<in> set w"
  then obtain u v where "w = u @ CHR 0x0A # v" by (metis split_list)
  then have "space_len (CHR 0x0A # v) = 0" using \<open>solid w\<close> by (auto simp: solid_def)
  then show False by (simp add: space_len_def ascii_spaces_def)
qed

text \<open>A row as \<open>write_checksums\<close> writes it, without its newline.\<close>

definition row_of :: "string \<times> string \<Rightarrow> string" where
  "row_of r = fst r @ ''  '' @ snd r"

lemma checksum_line_row:
  assumes "solid d" "solid n" "checksum_entry_name n = n"
  shows "checksum_line (row_of (d, n)) = Some (d, n)"
proof -
  have "str_fields (row_of (d, n)) = d # str_fields (''  '' @ n)"
    unfolding row_of_def fst_conv snd_conv by (rule str_fields_solid_word) (use assms in \<open>auto simp: ascii_spaces_def\<close>)
  also have "str_fields (''  '' @ n) = str_fields n" by (simp add: str_fields_skip ascii_spaces_def)
  also have "str_fields n = [n]" using str_fields_solid_word [OF assms(2), of "[]"] by simp
  finally show ?thesis using assms(3) by (simp add: checksum_line_def)
qed

lemma checksum_rows_text:
  assumes "\<And>d n. (d, n) \<in> set rs \<Longrightarrow> solid d \<and> solid n \<and> checksum_entry_name n = n"
  shows "checksum_rows (concat (map (\<lambda>r. row_of r @ newline) rs)) = rs"
  using assms
proof (induction rs)
  case Nil
  then show ?case by (simp add: checksum_rows_def map_filter_def checksum_line_def)
next
  case (Cons r rs)
  obtain d n where r: "r = (d, n)" by force
  have ok: "solid d" "solid n" "checksum_entry_name n = n" using Cons.prems [of d n] r by auto
  have "CHR 0x0A \<notin> set (row_of r)"
    using solid_no_newline ok r by (auto simp: row_of_def)
  then have "split_on (CHR 0x0A) (concat (map (\<lambda>r. row_of r @ newline) (r # rs))) =
      row_of r # split_on (CHR 0x0A) (concat (map (\<lambda>r. row_of r @ newline) rs))"
    using split_on_append [of "CHR 0x0A" "row_of r"] by simp
  moreover have "checksum_rows (concat (map (\<lambda>r. row_of r @ newline) rs)) = rs"
    by (rule Cons.IH) (use Cons.prems in auto)
  ultimately show ?case using checksum_line_row [OF ok] r by (simp add: checksum_rows_def map_filter_def)
qed

lemma checksum_rows_read:
  assumes "r_map (checksum_row rx) as w = (Inr rows, w')"
  shows "tw_files w' = tw_files w \<and> (\<forall>a \<in> set as. tw_files w a \<noteq> None) \<and>
    rows = map (\<lambda>a. row_of (hex_encode (rx_sha rx (the (tw_files w a))), path_base a) @ newline) as"
  using assms
proof (induction as arbitrary: w rows)
  case Nil
  then show ?case by (simp add: r_return_def)
next
  case (Cons a as)
  obtain r w1 rs where a: "checksum_row rx a w = (Inr r, w1)" and as: "r_map (checksum_row rx) as w1 = (Inr rs, w')"
    and rows: "rows = r # rs" using Cons.prems by (auto simp: r_bind_Inr r_return_def)
  obtain s where s: "t_read a w = (Content s, w1)" "r = hex_encode (rx_sha rx s) @ ''  '' @ path_base a @ newline"
    using a by (auto simp: checksum_row_def split: prod.splits file_read.splits)
  have f: "tw_files w1 = tw_files w" using t_read_frame [OF s(1)] by simp
  have "tw_files w a = Some s" using s(1) by (auto simp: t_read_def split: if_splits option.splits)
  then show ?case using Cons.IH [OF as] f s(2) rows by (simp add: row_of_def)
qed

lemma find_distinct_key: "distinct (map snd rs) \<Longrightarrow> (d, n) \<in> set rs \<Longrightarrow> find (\<lambda>(_, m). m = n) rs = Some (d, n)"
proof (induction rs)
  case (Cons r rs)
  then show ?case by (cases r) (auto simp: image_iff split: if_splits)
qed simp

text \<open>
  C25. What \<open>go-mk release\<close> writes into \<open>checksums.txt\<close> is what the updater reads from it: when \<open>write_checksums\<close>
  succeeds over archives whose base names are distinct words, the updater's reader finds, under the name of each
  archive, the hexadecimal SHA-256 of the bytes that archive held.
\<close>

theorem checksums_read_back:
  assumes "write_checksums rx cfg archives w = (Inr path, w')"
    and "distinct (map path_base archives)" "\<forall>a \<in> set archives. solid (path_base a)" "\<forall>s. rx_sha rx s \<noteq> []"
    and "a \<in> set archives"
  shows "\<exists>body content. tw_files w' path = Some body \<and> tw_files w a = Some content \<and>
    checksum_entry body (path_base a) = Some (hex_encode (rx_sha rx content))"
proof -
  let ?path = "path_join [rc_dist cfg, ''checksums.txt'']"
  obtain rows w1 where rows: "r_map (checksum_row rx) archives w = (Inr rows, w1)"
    and put: "(case t_set WriteCall ?path (Some (concat rows)) w1 of
       (wrote, w) \<Rightarrow> (if wrote then Inr ?path else Inl (ReleaseFile ?path), w)) = (Inr path, w')"
    using assms(1) unfolding write_checksums_def Let_def r_bind_Inr by blast
  have path: "path = ?path" using put by (simp split: prod.splits if_splits)
  have set: "t_set WriteCall ?path (Some (concat rows)) w1 = (True, w')" using put by (simp split: prod.splits if_splits)
  define rs where "rs = map (\<lambda>a. (hex_encode (rx_sha rx (the (tw_files w a))), path_base a)) archives"
  note read = checksum_rows_read [OF rows]
  have body: "tw_files w' path = Some (concat rows)" using set path by (auto simp: t_set_def split: if_splits)
  have "concat rows = concat (map (\<lambda>r. row_of r @ newline) rs)" using read by (simp add: rs_def comp_def)
  moreover have "checksum_rows (concat (map (\<lambda>r. row_of r @ newline) rs)) = rs"
    by (rule checksum_rows_text) (use assms(3,4) in \<open>auto simp: rs_def hex_encode_solid path_base_no_dot_slash\<close>)
  moreover have "distinct (map snd rs)" using assms(2) by (simp add: rs_def comp_def)
  moreover have "(hex_encode (rx_sha rx (the (tw_files w a))), path_base a) \<in> set rs" using assms(5) by (auto simp: rs_def)
  ultimately have "checksum_entry (concat rows) (path_base a) = Some (hex_encode (rx_sha rx (the (tw_files w a))))"
    by (simp add: checksum_entry_def find_distinct_key)
  moreover obtain content where "tw_files w a = Some content" using read assms(5) by auto
  ultimately show ?thesis using body by simp
qed

section \<open>The binaries of a release\<close>

lemma parse_entries_Inr: "parse_entries fs = Inr bs \<longleftrightarrow> map parse_release_entry fs = map Inr bs"
proof (induction fs arbitrary: bs)
  case (Cons f fs)
  show ?case by (cases bs) (auto simp: result_bind_Inr_iff Cons.IH)
qed auto

lemma parse_entries_Inl: "parse_entries fs = Inl e \<Longrightarrow> \<exists>f \<in> set fs. parse_release_entry f = Inl e"
  by (induction fs) (auto simp: result_bind_def split: sum.splits)

lemma primary_first_Some:
  "primary_first binary seen bs = Some cs \<Longrightarrow>
     \<exists>b rest. cs = b # rest \<and> rb_name b = binary \<and> mset cs = mset seen + mset bs"
  by (induction binary seen bs rule: primary_first.induct) (auto split: if_splits)

lemma primary_first_None: "primary_first binary seen bs = None \<longleftrightarrow> (\<forall>b \<in> set bs. rb_name b \<noteq> binary)"
  by (induction binary seen bs rule: primary_first.induct) auto

lemma parse_entry_named: "parse_release_entry f = Inr b \<Longrightarrow> rb_name b \<noteq> [] \<and> rb_main b \<noteq> []"
  by (auto simp: parse_release_entry_def parse_release_binary_options_def plain_binary_def Let_def result_bind_Inr_iff
      split: if_splits)

text \<open>
  C26. Every list of binaries a release works with is well formed. When \<open>parse_release_binaries\<close> accepts
  \<open>RELEASE_BINS\<close> the primary binary comes first, every binary has a name and a package, and the list is a
  permutation of the parsed entries, none lost and none invented. It refuses exactly with the error of one of
  the entries, or because none of them names the primary binary.
\<close>

theorem release_bins_well_formed:
  assumes "binary \<noteq> []" "main \<noteq> []"
  shows "case parse_release_binaries binary main entries of
      Inl e \<Rightarrow> (\<exists>f \<in> set (str_fields entries). parse_release_entry f = Inl e) \<or>
        e = PrimaryMissing binary \<and> str_fields entries \<noteq> [] \<and>
        (\<forall>f \<in> set (str_fields entries). \<exists>b. parse_release_entry f = Inr b \<and> rb_name b \<noteq> binary)
    | Inr bs \<Rightarrow> bs \<noteq> [] \<and> rb_name (hd bs) = binary \<and> (\<forall>b \<in> set bs. rb_name b \<noteq> [] \<and> rb_main b \<noteq> []) \<and>
        (str_fields entries \<noteq> [] \<longrightarrow>
          (\<exists>ps. map parse_release_entry (str_fields entries) = map Inr ps \<and> mset bs = mset ps))"
proof (cases "str_fields entries = []")
  case True
  then show ?thesis using assms by (simp add: parse_release_binaries_def plain_binary_def)
next
  case False
  show ?thesis
  proof (cases "parse_entries (str_fields entries)")
    case (Inl e)
    then show ?thesis using False parse_entries_Inl by (auto simp: parse_release_binaries_def)
  next
    case (Inr ps)
    then have ps: "map parse_release_entry (str_fields entries) = map Inr ps" by (simp add: parse_entries_Inr)
    have each: "\<exists>f \<in> set (str_fields entries). parse_release_entry f = Inr b" if "b \<in> set ps" for b
      using ps that by (metis (no_types, lifting) imageE image_eqI list.set_map)
    show ?thesis
    proof (cases "primary_first binary [] ps")
      case None
      have "\<exists>b. parse_release_entry f = Inr b \<and> rb_name b \<noteq> binary" if "f \<in> set (str_fields entries)" for f
      proof -
        have "parse_release_entry f \<in> set (map Inr ps)" using ps that by (metis image_eqI list.set_map)
        then show ?thesis using None by (auto simp: primary_first_None)
      qed
      then show ?thesis using None Inr False by (simp add: parse_release_binaries_def)
    next
      case (Some bs)
      from primary_first_Some [OF this] obtain b rest
        where b: "bs = b # rest" "rb_name b = binary" "mset bs = mset ps" by auto
      have "set bs = set ps" using b(3) by (metis set_mset_mset)
      then have "\<forall>c \<in> set bs. rb_name c \<noteq> [] \<and> rb_main c \<noteq> []" using each parse_entry_named by blast
      then show ?thesis using b ps Some Inr False by (auto simp: parse_release_binaries_def)
    qed
  qed
qed

section \<open>Samples\<close>

definition sample_release :: release_context where
  "sample_release =
     \<lparr>rx_stamp = ''202601020304'', rx_build_time = ''t'', rx_sha = (\<lambda>s. ''h''), rx_tar_gz = (\<lambda>as. ''z''),
      rx_unfinished = (\<lambda>as. []), rx_glob = (\<lambda>f p. Some []), rx_is_dir = (\<lambda>w p. False),
      rx_look_path = (\<lambda>w n. Some ''q''), rx_cgo_list = (\<lambda>s. Some []), rx_platform_list = (\<lambda>s. Some [])\<rparr>"

definition sample_release_config :: release_config where
  "sample_release_config =
     \<lparr>rc_binary = ''b'', rc_main = ''.'', rc_binaries = [plain_binary ''b'' ''.''], rc_version_pkg = [], rc_gklog_pkg = [],
      rc_entitlements = [], rc_require_codesign = True, rc_platforms = [''darwin/a''], rc_dist = ''d'', rc_tag = ''v1'',
      rc_short_sha = ''s'', rc_target_sha = ''s'', rc_build_time = ''t'', rc_prerelease = False\<rparr>"




definition archived_tool :: tool_world where
  "archived_tool = sample_tool\<lparr>tw_files := [''d/b.gz'' \<mapsto> ''z'', ''d/c.gz'' \<mapsto> ''y'']\<rparr>"

theorem checksums_read_back_witness:
  "\<exists>body path. tw_files (snd (write_checksums sample_release sample_release_config [''d/b.gz'', ''d/c.gz''] archived_tool)) path = Some body \<and>
     checksum_entry body ''c.gz'' = Some ''68''"
proof -
  obtain r w' where run: "write_checksums sample_release sample_release_config [''d/b.gz'', ''d/c.gz''] archived_tool = (r, w')" by force
  have "\<not> isl (fst (write_checksums sample_release sample_release_config [''d/b.gz'', ''d/c.gz''] archived_tool))" by code_simp
  then obtain path where r: "r = Inr path" using run by (cases r) auto
  have bases: "path_base ''d/b.gz'' = ''b.gz''" "path_base ''d/c.gz'' = ''c.gz''" by code_simp+
  have solid: "solid ''b.gz''" "solid ''c.gz''"
    by (rule solid_plain; auto simp: plain_char_def ascii_spaces_def wide_lead_def)+
  have "\<exists>body content. tw_files w' path = Some body \<and> tw_files archived_tool ''d/c.gz'' = Some content \<and>
    checksum_entry body (path_base ''d/c.gz'') = Some (hex_encode (rx_sha sample_release content))"
    by (rule checksums_read_back [OF run [unfolded r]]) (simp_all add: bases solid sample_release_def)
  moreover have "hex_encode (rx_sha sample_release s) = ''68''" for s
    by (simp add: sample_release_def) code_simp
  ultimately show ?thesis using run bases by auto
qed

theorem release_bins_well_formed_witness:
  "\<exists>bs. parse_release_binaries ''a'' ''.'' ''b:x a:y:cgo=1'' = Inr bs \<and> rb_name (hd bs) = ''a''"
proof -
  have "\<not> isl (parse_release_binaries ''a'' ''.'' ''b:x a:y:cgo=1'')" by code_simp
  then show ?thesis
    using release_bins_well_formed [of "''a''" "''.''" "''b:x a:y:cgo=1''"]
    by (cases "parse_release_binaries ''a'' ''.'' ''b:x a:y:cgo=1''") auto
qed

theorem assets_are_the_archives_witness:
  "\<exists>archives. mset archives = mset (map (\<lambda>n. path_join [''d'', n])
      (concat (map (asset_names_of sample_release_config) (release_binaries sample_release_config)))) \<and> archives \<noteq> []"
proof -
  let ?w = "archived_tool\<lparr>tw_files := [''d/b_darwin_a/b'' \<mapsto> ''x'']\<rparr>"
  obtain r w' where run: "archive_platforms sample_release sample_release_config ?w = (r, w')" by force
  have "case fst (archive_platforms sample_release sample_release_config ?w) of Inl _ \<Rightarrow> False | Inr as \<Rightarrow> as \<noteq> []" by code_simp
  then obtain archives where r: "r = Inr archives" "archives \<noteq> []" using run by (cases r) auto
  show ?thesis using assets_are_the_archives [OF run [unfolded r(1)]] r(2) by (auto simp: sample_release_config_def)
qed

section \<open>What the code lets through\<close>

text \<open>A misspelled platform is not an error: the binary is shipped nowhere.\<close>

lemma misspelled_platform_drops_binary:
  "\<exists>b. parse_release_entry ''b:.:platforms=linux/amd46'' = Inr b \<and>
     (\<forall>p \<in> set (str_fields default_release_platforms). \<not> builds_for b p)"
proof -
  have "case parse_release_entry ''b:.:platforms=linux/amd46'' of Inl _ \<Rightarrow> False
    | Inr b \<Rightarrow> list_all (\<lambda>p. \<not> builds_for b p) (str_fields default_release_platforms)" by code_simp
  then show ?thesis by (auto simp: list_all_iff split: sum.splits)
qed

text \<open>Two entries with one name are accepted, though they are built to one path.\<close>

lemma duplicate_names_share_path:
  "\<exists>a b. parse_release_binaries ''b'' ''.'' ''b:./x b:./y:cgo=1'' = Inr [a, b] \<and> rb_main a \<noteq> rb_main b \<and>
     built_path cfg a goos goarch = built_path cfg b goos goarch"
proof -
  have "case parse_release_binaries ''b'' ''.'' ''b:./x b:./y:cgo=1'' of
      Inr [a, b] \<Rightarrow> rb_main a \<noteq> rb_main b \<and> rb_name a = rb_name b | _ \<Rightarrow> False" by code_simp
  then show ?thesis by (auto simp: built_path_def target_name_def split: sum.splits list.splits)
qed

text \<open>The publish stage releases a checksum file over nothing when the build jobs left no archive.\<close>

lemma empty_publish:
  "list_ex (\<lambda>c. hd (snd c) = ''gh'') (tw_ran (snd (publish_stage sample_release sample_release_config sample_tool)))"
  by code_simp

end
