(* ===== verification/BuildCheck.thy ===== *)
theory BuildCheck
  imports ReleaseBuild ScopedLint
begin

text \<open>
  \<open>go-mk build-check\<close> (\<open>buildcheck.go\<close>, \<open>checks.go\<close>): vet, the gates, govulncheck, the Go version (\<open>goversion.go\<close>) and the
  two stub checks in one report; the resolution of the \<open>staticcheck-extra\<close> binary (\<open>staticcheck.go\<close>); the dispatch
  of the lint commands (\<open>runLint\<close>). Parameters: modification times and the text of an error. The directory a
  command runs in is not recorded.
\<close>

record build_context =
  bc_lint :: lint_context
  bc_release :: release_context
  bc_error :: "tool_error \<Rightarrow> string"
  bc_message :: "release_error \<Rightarrow> string"
  bc_newer :: "tool_world \<Rightarrow> string \<Rightarrow> string \<Rightarrow> bool option"
  bc_fresh :: "tool_world \<Rightarrow> string \<Rightarrow> bool"

section \<open>The analyzer binary\<close>

text \<open>The match of \<open>Name.*\<close> and the quoted name: both on one line, the name after \<open>Name\<close>.\<close>

definition names_flag :: "string \<Rightarrow> string \<Rightarrow> bool" where
  "names_flag printed name \<longleftrightarrow>
     list_ex (\<lambda>l. case str_cut l ''Name'' of None \<Rightarrow> False | Some (_, rest) \<Rightarrow> str_contains rest name)
       (split_on (CHR 0x0A) printed)"

definition staticcheck_missing_flags :: "string \<Rightarrow> tool_world \<Rightarrow> bool \<times> tool_world" where
  "staticcheck_missing_flags candidate w =
     (if blank (staticcheck_flags w) then (False, w)
      else (case t_exec (tw_environ w) [candidate, ''-flags''] w of
              (NotStarted, v) \<Rightarrow> (True, v)
            | (Exited status out ws, v) \<Rightarrow>
                (status \<noteq> 0 \<or>
                 list_ex (\<lambda>f. \<not> names_flag out (trim_left f ''-'')) (str_fields (staticcheck_flags w)), v)))"

definition with_output_path :: "(string \<Rightarrow> tool_world \<Rightarrow> (tool_error, unit) result \<times> tool_world) \<Rightarrow>
    tool_world \<Rightarrow> (tool_error, unit) result \<times> tool_world" where
  "with_output_path f w =
     (case staticcheck_output_path w of None \<Rightarrow> (Inl (FileError ''.''), w) | Some out \<Rightarrow> f out w)"

definition make_parent :: "string \<Rightarrow> tool_world \<Rightarrow> (tool_error, unit) result \<times> tool_world" where
  "make_parent path w =
     (let (made, w) = t_try MkdirCall w in (if made then Inr () else Inl (FileError (path_dir path)), w))"

definition staticcheck_build_from_repo :: "tool_world \<Rightarrow> (tool_error, unit) result \<times> tool_world" where
  "staticcheck_build_from_repo =
     with_output_path (\<lambda>out. t_bind (make_parent out) (\<lambda>_ w.
       run_command (host_lint_env w)
         [''go'', ''build'', ''-o'', out, tenv_default w ''STATICCHECK_EXTRA_BUILD_PKG'' ''./cmd/staticcheck-extra''] w))"

text \<open>
  \<open>_ = os.Remove(output)\<close>, then the symbolic link, which holds what its target holds when it is made.
\<close>

definition relink :: "string \<Rightarrow> string \<Rightarrow> tool_world \<Rightarrow> (tool_error, unit) result \<times> tool_world" where
  "relink target path w =
     (let (_, w) = t_set RemoveCall path None w in
      if tw_files w path \<noteq> None then (Inl (FileError path), w)
      else (let (linked, w) = t_set SymlinkCall path (tw_files w target) w in
            (if linked then Inr () else Inl (FileError path), w)))"

definition install_spec :: "tool_world \<Rightarrow> string" where
  "install_spec w =
     tenv_default w ''STATICCHECK_EXTRA_INSTALL'' ''goodkind.io/go-makefile/staticcheck/cmd/staticcheck-extra@latest''"

definition spec_binary :: "string \<Rightarrow> string" where
  "spec_binary spec = path_base (case str_cut spec ''@'' of None \<Rightarrow> spec | Some (p, _) \<Rightarrow> p)"

definition staticcheck_install_binary :: "tool_world \<Rightarrow> (tool_error, unit) result \<times> tool_world" where
  "staticcheck_install_binary =
     t_bind (go_env_path ''GOPATH'') (\<lambda>gopath.
       with_output_path (\<lambda>out w.
         let spec = install_spec w; bin = path_join [gopath, ''bin'']; target = path_join [bin, spec_binary spec];
             env = set_env_var (set_env_var (host_lint_env w) ''GONOSUMDB''
                     ''goodkind.io/go-makefile,goodkind.io/go-makefile/staticcheck'') ''GOBIN'' bin
         in t_bind (run_command env [''go'', ''install'', spec]) (\<lambda>_.
            t_bind (make_parent out) (\<lambda>_. relink target out)) w))"

definition refuse_binary :: "string \<Rightarrow> tool_world \<Rightarrow> (tool_error, unit) result \<times> tool_world" where
  "refuse_binary message w = (Inl AnalyzerUnavailable, t_println (''staticcheck-extra: '' @ message) w)"

definition resolve_configured :: "build_context \<Rightarrow> string \<Rightarrow> tool_world \<Rightarrow> (tool_error, unit) result \<times> tool_world" where
  "resolve_configured bc configured w =
     (if \<not> lc_executable (bc_lint bc) w configured then refuse_binary (configured @ '' not executable'') w
      else (case staticcheck_missing_flags configured w of
              (missing, w) \<Rightarrow>
                if missing then refuse_binary (configured @ '' does not support requested flags'') w else (Inr (), w)))"

definition resolve_from_repo :: "build_context \<Rightarrow> string \<Rightarrow> string \<Rightarrow> tool_world \<Rightarrow> (tool_error, unit) result \<times> tool_world" where
  "resolve_from_repo bc repo out w =
     (if t_fails StatCall w \<or> \<not> tw_dirs w repo
      then (Inr (), t_println (''staticcheck-extra: build repo '' @ repo @ '' not present; skipping'') (t_tick w))
      else (let w = t_tick w in
        if tenv w ''STATICCHECK_EXTRA_BUILD_PKG'' = [] then refuse_binary ''STATICCHECK_EXTRA_BUILD_PKG not set'' w
        else if \<not> lc_executable (bc_lint bc) w out then staticcheck_build_from_repo w
        else (case bc_newer bc w repo out of
                None \<Rightarrow> (Inl (FileError repo), w)
              | Some True \<Rightarrow> staticcheck_build_from_repo w
              | Some False \<Rightarrow>
                  (case staticcheck_missing_flags out w of
                     (missing, w) \<Rightarrow> if missing then staticcheck_build_from_repo w else (Inr (), w)))))"

definition resolve_pinned :: "build_context \<Rightarrow> string \<Rightarrow> tool_world \<Rightarrow> (tool_error, unit) result \<times> tool_world" where
  "resolve_pinned bc out =
     t_bind (go_env_path ''GOPATH'') (\<lambda>gopath w.
       let target = path_join [gopath, ''bin'', spec_binary (install_spec w)] in
       if \<not> lc_executable (bc_lint bc) w target then staticcheck_install_binary w
       else (case staticcheck_missing_flags target w of
               (missing, w) \<Rightarrow> if missing then staticcheck_install_binary w
                               else t_bind (make_parent out) (\<lambda>_. relink target out) w))"

text \<open>\<open>STATICCHECK_EXTRA_INSTALL\<close> empty means the default spec, so the spec is never empty.\<close>

definition staticcheck_resolve :: "build_context \<Rightarrow> tool_world \<Rightarrow> (tool_error, unit) result \<times> tool_world" where
  "staticcheck_resolve bc =
     with_output_path (\<lambda>out w.
       if tenv w ''STATICCHECK_EXTRA_BIN'' \<noteq> [] then resolve_configured bc (tenv w ''STATICCHECK_EXTRA_BIN'') w
       else if tenv w ''STATICCHECK_EXTRA_BUILD_REPO'' \<noteq> [] then resolve_from_repo bc (tenv w ''STATICCHECK_EXTRA_BUILD_REPO'') out w
       else if suffix ''@latest'' (install_spec w) then staticcheck_install_binary w
       else resolve_pinned bc out w)"

definition run_staticcheck_bin :: "build_context \<Rightarrow> tool_world \<Rightarrow> int \<times> tool_world" where
  "run_staticcheck_bin bc w = (case staticcheck_resolve bc w of (r, w) \<Rightarrow> (status_from_error r, w))"

definition run_staticcheck_capture :: "build_context \<Rightarrow> string list \<Rightarrow> tool_world \<Rightarrow> int \<times> tool_world" where
  "run_staticcheck_capture bc args =
     or_status ensure_make_dir (\<lambda>_ w.
       case capture_staticcheck (bc_lint bc) CaptureStandard (capture_arg args 0 (make_file ''staticcheck-extra.raw.out''))
              (capture_arg args 1 (make_file ''staticcheck-extra.out'')) w of
         (r, w) \<Rightarrow> (status_from_error r, w))"

text \<open>The gates as they run: their analyzer is the one resolved here.\<close>

definition gate_context :: "build_context \<Rightarrow> lint_context" where
  "gate_context bc = (bc_lint bc)\<lparr>lc_resolve := run_staticcheck_bin bc\<rparr>"

section \<open>govulncheck\<close>

definition govulncheck_install :: string where
  "govulncheck_install = ''golang.org/x/vuln/cmd/govulncheck@latest''"

definition advisory_tool_failure :: "string \<Rightarrow> string \<Rightarrow> step_result" where
  "advisory_tool_failure name finding = plain_step name StepAdvisory [finding]"

definition path_list :: "string \<Rightarrow> string list" where
  "path_list s = (if s = [] then [] else split_on colon s)"

definition go_bin_dir :: "build_context \<Rightarrow> tool_world \<Rightarrow> (string, string) result \<times> tool_world" where
  "go_bin_dir bc w =
     (case go_env_path ''GOBIN'' w of
        (Inl e, w) \<Rightarrow> (Inl (''Go tool path lookup failed: '' @ bc_error bc e), w)
      | (Inr bin, w) \<Rightarrow>
          if bin \<noteq> [] then (Inr bin, w)
          else (case go_env_path ''GOPATH'' w of
                  (Inl e, w) \<Rightarrow> (Inl (''Go tool path lookup failed: '' @ bc_error bc e), w)
                | (Inr paths, w) \<Rightarrow>
                    (case path_list paths of
                       [] \<Rightarrow> Inl ''Go tool path lookup failed: GOPATH has no entries''
                     | p # _ \<Rightarrow> Inr (path_join [p, ''bin'']), w)))"

definition run_govulncheck :: "build_context \<Rightarrow> tool_world \<Rightarrow> step_result \<times> tool_world" where
  "run_govulncheck bc w =
     (case go_bin_dir bc w of
        (Inl message, w) \<Rightarrow> (advisory_tool_failure ''govulncheck'' message, w)
      | (Inr bin, w) \<Rightarrow>
          (let argv = path_join [bin, ''govulncheck''] # split_words (tenv_default w ''GOVULNCHECK_TARGETS'' ''./...'') in
           case t_exec (lint_env w) argv w of
             (NotStarted, w) \<Rightarrow>
               (plain_step ''govulncheck'' StepAdvisory [''govulncheck execution failed: '' @ bc_error bc (CommandNotStarted argv)], w)
           | (Exited status out ws, w) \<Rightarrow>
               (if status = 0 then plain_step ''govulncheck'' StepOk []
                else if status = 3 then plain_step ''govulncheck'' StepAdvisory (split_output_lines out)
                else plain_step ''govulncheck'' StepAdvisory
                  (split_output_lines out @ [''govulncheck execution failed: '' @ bc_error bc (CommandFailed argv status)]), w)))"

definition install_govulncheck :: "tool_world \<Rightarrow> (tool_error, unit) result \<times> tool_world" where
  "install_govulncheck w = install_go_tool (tenv_default w ''GOVULNCHECK_INSTALL'' govulncheck_install) w"

definition govulncheck_failed :: "build_context \<Rightarrow> tool_error \<Rightarrow> step_result" where
  "govulncheck_failed bc e = advisory_tool_failure ''govulncheck'' (''installation failed: '' @ bc_error bc e)"

definition run_govulncheck_step :: "build_context \<Rightarrow> tool_world \<Rightarrow> step_result \<times> tool_world" where
  "run_govulncheck_step bc w =
     (case install_govulncheck w of
        (Inl e, w) \<Rightarrow> (govulncheck_failed bc e, w) | (Inr _, w) \<Rightarrow> run_govulncheck bc w)"

text \<open>Before the checks the tool is installed; the check reports its failure or runs the tool.\<close>

definition prepare_govulncheck :: "build_context \<Rightarrow> tool_world \<Rightarrow> check \<times> tool_world" where
  "prepare_govulncheck bc w =
     (case install_govulncheck w of
        (Inl e, w) \<Rightarrow> ((''govulncheck'', \<lambda>w. ((govulncheck_failed bc e, 0), w)), w)
      | (Inr _, w) \<Rightarrow> ((''govulncheck'', \<lambda>w. case run_govulncheck bc w of (r, w) \<Rightarrow> ((r, 0), w)), w))"

definition run_standalone_govulncheck :: "build_context \<Rightarrow> tool_world \<Rightarrow> int \<times> tool_world" where
  "run_standalone_govulncheck bc w =
     (case run_govulncheck_step bc w of (r, w) \<Rightarrow> (0, t_print (render_report ''go-mk govulncheck'' [r]) w))"

section \<open>The Go version\<close>

definition go_version_endpoint :: string where "go_version_endpoint = ''https://go.dev/VERSION?m=text''"

definition installed_go_version :: "tool_world \<Rightarrow> (string, string) result \<times> tool_world" where
  "installed_go_version w =
     (case t_output [''go'', ''env'', ''GOVERSION''] w of
        (Inl _, w) \<Rightarrow> (Inl ''read installed Go version'', w)
      | (Inr out, w) \<Rightarrow>
          (let v = trim_prefix (trim_space out) ''go''
           in if v = [] then Inl ''read installed Go version: Go returned no version'' else Inr v, w))"

definition fresh_cached_go_version :: "build_context \<Rightarrow> string \<Rightarrow> tool_world \<Rightarrow> string option \<times> tool_world" where
  "fresh_cached_go_version bc path w =
     (let (found, w) = t_stat path w in
      if \<not> found \<or> \<not> bc_fresh bc w path then (None, w)
      else (case t_read path w of
              (Content s, w) \<Rightarrow> (if trim_space s = [] then None else Some (trim_space s), w)
            | (_, w) \<Rightarrow> (None, w)))"

definition write_go_version_cache :: "string \<Rightarrow> string \<Rightarrow> tool_world \<Rightarrow> tool_world" where
  "write_go_version_cache path v w =
     (let (made, w) = t_try MkdirCall w in if \<not> made then w else snd (t_set WriteCall path (Some (v @ newline)) w))"

text \<open>An answer is read up to 256 bytes, so only a break before that is an error.\<close>

definition fetch_latest_go :: "tool_world \<Rightarrow> (string, string) result \<times> tool_world" where
  "fetch_latest_go w =
     (case t_fetch go_version_endpoint w of
        (Answered a, w) \<Rightarrow>
          (if ha_status a \<noteq> 200 then Inl ''look up latest Go version: server returned''
           else if ha_broken a \<and> length (ha_body a) < 256 then Inl ''look up latest Go version: read response''
           else (let first = hd (split_on (CHR 0x0A) (take 256 (ha_body a))); v = trim_prefix (trim_space first) ''go''
                 in if v = [] then Inl ''look up latest Go version: server returned no version'' else Inr v), w)
      | (_, w) \<Rightarrow> (Inl ''look up latest Go version: network request failed'', w))"

definition latest_stable_go :: "build_context \<Rightarrow> tool_world \<Rightarrow> (string, string) result \<times> tool_world" where
  "latest_stable_go bc w =
     (let path = make_file ''go-latest-version'' in
      case fresh_cached_go_version bc path w of
        (Some v, w) \<Rightarrow> (Inr v, w)
      | (None, w) \<Rightarrow>
          (case fetch_latest_go w of
             (Inl e, w) \<Rightarrow> (Inl e, w) | (Inr v, w) \<Rightarrow> (Inr v, write_go_version_cache path v w)))"

fun version_parts :: "string list \<Rightarrow> int list" where
  "version_parts [] = []"
| "version_parts (f # fs) = (case atoi f of None \<Rightarrow> [] | Some n \<Rightarrow> n # version_parts fs)"

definition go_version_parts :: "string \<Rightarrow> int list" where
  "go_version_parts v = version_parts (split_on CHR ''.'' v)"

fun compare_parts :: "int list \<Rightarrow> int list \<Rightarrow> int" where
  "compare_parts [] [] = 0"
| "compare_parts (a # as) [] = (if a < 0 then - 1 else if a > 0 then 1 else compare_parts as [])"
| "compare_parts [] (b # bs) = (if 0 < b then - 1 else if 0 > b then 1 else compare_parts [] bs)"
| "compare_parts (a # as) (b # bs) = (if a < b then - 1 else if a > b then 1 else compare_parts as bs)"

definition compare_go_versions :: "string \<Rightarrow> string \<Rightarrow> int" where
  "compare_go_versions l r = compare_parts (go_version_parts l) (go_version_parts r)"

definition go_version_step :: "build_context \<Rightarrow> tool_world \<Rightarrow> step_result \<times> tool_world" where
  "go_version_step bc w =
     (case installed_go_version w of
        (Inl e, w) \<Rightarrow> (advisory_tool_failure ''go-version'' e, w)
      | (Inr installed, w) \<Rightarrow>
          (case latest_stable_go bc w of
             (Inl e, w) \<Rightarrow> (advisory_tool_failure ''go-version'' e, w)
           | (Inr latest, w) \<Rightarrow>
               (if 0 \<le> compare_go_versions installed latest then plain_step ''go-version'' StepOk []
                else plain_step ''go-version'' StepAdvisory
                  [''Installed Go '' @ installed @ '' is behind the latest stable Go '' @ latest @ ''.'',
                   ''Update the installed Go toolchain when practical.''], w)))"

definition run_go_version_check :: "build_context \<Rightarrow> tool_world \<Rightarrow> int \<times> tool_world" where
  "run_go_version_check bc w =
     (case go_version_step bc w of (r, w) \<Rightarrow> (0, t_print (render_report ''go-mk go-version-check'' [r]) w))"

section \<open>The build check\<close>

definition host_checks :: "build_context \<Rightarrow> check list" where
  "host_checks bc =
     [(''go-version'', \<lambda>w. case go_version_step bc w of (r, w) \<Rightarrow> ((r, 0), w)),
      (''cgo-stub'', run_cgo_stub_step (bc_release bc) (bc_message bc)),
      (''platform-stub'', run_platform_stub_step (bc_release bc) (bc_message bc))]"

definition run_build_check_raw :: "build_context \<Rightarrow> tool_world \<Rightarrow> int \<times> tool_world" where
  "run_build_check_raw bc w =
     (let (vet, w) = run_across_platforms (\<lambda>w. case run_vet w of (r, w) \<Rightarrow> (status_from_error r, w)) w;
          (lint, w) = run_lint_chain (gate_context bc) w;
          (_, w) = run_standalone_govulncheck bc w; (_, w) = run_go_version_check bc w
      in (if lint \<noteq> 0 then lint else vet, w))"

definition run_build_check :: "build_context \<Rightarrow> tool_world \<Rightarrow> int \<times> tool_world" where
  "run_build_check bc w =
     (let w = lc_notice (bc_lint bc) w in
      if parse_log_mode (tenv w ''GO_MK_LOG'') = ModeDebug then run_build_check_raw bc w
      else or_status (prepare_checks (gate_context bc)) (\<lambda>_ w.
        (let (govulncheck, w) = prepare_govulncheck bc w
         in run_checks ''go-mk build-check''
              (build_check_checks (gate_context bc) govulncheck (host_checks bc) w) w)) w)"

definition error_status :: "(tool_world \<Rightarrow> (tool_error, unit) result \<times> tool_world) \<Rightarrow> tool_world \<Rightarrow> int \<times> tool_world" where
  "error_status m w = (case m w of (r, w) \<Rightarrow> (status_from_error r, w))"

text \<open>The dispatch of the lint commands; \<open>None\<close> for a name that is none.\<close>

definition lint_commands :: "build_context \<Rightarrow> string list \<Rightarrow> (string \<times> (tool_world \<Rightarrow> int \<times> tool_world)) list" where
  "lint_commands bc args =
     (let lc = gate_context bc in
      [(''lint'', run_lint_chain lc), (''lint-tools'', error_status run_lint_tools),
       (''lint-golangci'', run_across_platforms (run_lint_golangci lc)), (''lint-golangci-scope'', run_lint_golangci_scope lc),
       (''lint-format'', run_across_platforms (run_lint_format lc)), (''lint-gocyclo'', run_across_platforms (run_lint_gocyclo lc)),
       (''lint-deadcode'', run_across_platforms (run_lint_deadcode lc)), (''lint-files'', run_lint_files lc),
       (''lint-diff'', run_lint_diff lc), (''fmt'', error_status (run_fmt lc)),
       (''vet'', run_across_platforms (error_status run_vet)), (''test'', error_status run_test),
       (''govulncheck'', run_standalone_govulncheck bc),
       (''capture-golangci'', error_status (run_capture_golangci lc args)),
       (''capture-golangci-baseline'', error_status (run_capture_golangci_baseline lc args)),
       (''capture-golangci-scope'', error_status (run_capture_golangci_scope lc args)),
       (''capture-gocyclo'', error_status (run_capture_gocyclo lc args)),
       (''capture-deadcode'', error_status (run_capture_deadcode lc args)),
       (''staticcheck-extra'', run_across_platforms (run_staticcheck_extra lc)),
       (''staticcheck-extra-bin'', run_staticcheck_bin bc),
       (''staticcheck-extra-capture'', run_staticcheck_capture bc args)])"

definition run_lint :: "build_context \<Rightarrow> string \<Rightarrow> string list \<Rightarrow> tool_world \<Rightarrow> (int \<times> tool_world) option" where
  "run_lint bc command args w = map_option (\<lambda>run. run w) (map_of (lint_commands bc args) command)"

section \<open>The verdict of a whole build check\<close>

abbreviation silent :: "(tool_world \<Rightarrow> 'a \<times> tool_world) \<Rightarrow> bool" where
  "silent \<equiv> LintChain.quiet"

lemmas silent_def = LintChain.quiet_def

lemma silent_through [simp]:
  "LintChain.quiet_world (t_tick w) w' \<longleftrightarrow> LintChain.quiet_world w w'"
  "LintChain.quiet_world w (t_println s w') \<longleftrightarrow> LintChain.quiet_world w w'"
  by (simp_all add: LintChain.quiet_world_def t_tick_def t_println_def t_print_def)

lemma quiet_r_bind: "silent m \<Longrightarrow> (\<And>a. silent (f a)) \<Longrightarrow> silent (r_bind m f)"
  by (rule quietI) (auto simp: r_bind_def split: prod.splits sum.splits dest!: quietD intro: quiet_trans)

lemma quiet_r_map: "(\<And>x. silent (f x)) \<Longrightarrow> silent (r_map f xs)"
proof (induction xs)
  case Nil
  then show ?case by (simp add: silent_def r_return_def)
next
  case (Cons x xs)
  have "silent (r_bind (r_map f xs) (\<lambda>ys. r_return (y # ys)))" for y
    by (rule quiet_r_bind) (use Cons in \<open>auto simp: silent_def r_return_def\<close>)
  then show ?case using Cons.prems by (auto intro: quiet_r_bind)
qed

lemma quiet_list_packages: "silent (list_packages env decode argv)"
  by (rule quietI)
    (auto simp: list_packages_def split: prod.splits cmd_outcome.splits if_splits option.splits dest!: quietD [OF quiet_t_exec])

lemma quiet_check_cgo: "silent (check_cgo_stub rx)"
proof -
  have "silent (cgo_requiring_packages rx ts)" for ts
  proof (rule quietI)
    fix w r w'
    have "silent (r_bind (list_packages (dedup_env (tw_environ v @ [''CGO_ENABLED=1''])) (rx_cgo_list rx)
         ([''go'', ''list'', ''-e'', ''-deps'', ''-json''] @ ts))
       (\<lambda>ps w. (Inr (filter_cgo_requiring ps (cgo_optional_allowlist w)), w)))" for v
      by (rule quiet_r_bind [OF quiet_list_packages]) (simp add: silent_def)
    note q = quietD [OF this]
    assume "cgo_requiring_packages rx ts w = (r, w')"
    then show "LintChain.quiet_world w w'" unfolding cgo_requiring_packages_def by (rule q)
  qed
  then have "silent (r_bind (cgo_requiring_packages rx ts)
        (\<lambda>ps. if ps = [] then r_return () else r_result (Inl (CgoRequired ps))))" for ts
    by (rule quiet_r_bind) (auto simp: silent_def r_return_def r_result_def)
  note q = quietD [OF this]
  show ?thesis by (rule quietI) (auto simp: check_cgo_stub_def split: if_splits dest: q)
qed

lemma quiet_check_platform: "silent (check_platform_stub rx)"
proof -
  have list: "silent (platform_packages rx p)" for p
  proof (rule quietI)
    fix w r w' assume "platform_packages rx p w = (r, w')"
    then show "LintChain.quiet_world w w'"
      by (auto simp: platform_packages_def first_party_packages_def r_result_def split: option.splits
          dest!: quietD [OF quiet_list_packages])
  qed
  have "silent (r_bind (r_map (platform_packages rx) ps)
        (\<lambda>listed w. let flagged = flag_platform_split_packages (fold record_platform_presence listed [])
                                    (platform_stub_allowlist w)
                    in (if flagged = [] then Inr () else Inl (SplitPackages flagged), w)))" for ps
    by (rule quiet_r_bind [OF quiet_r_map [OF list]]) (simp add: silent_def Let_def)
  note q = quietD [OF this]
  show ?thesis
  proof (rule quietI)
    fix w r w' assume "check_platform_stub rx w = (r, w')"
    then show "LintChain.quiet_world w w'" unfolding check_platform_stub_def Let_def
      by (auto split: if_splits dest: q [unfolded Let_def])
  qed
qed

lemma sound_stub_step:
  assumes "silent check" shows "sound_check (name, stub_step name message check)"
  unfolding sound_check_def
proof (intro allI impI)
  fix w r code w'
  assume w: "tw_collecting w" and run: "snd (name, stub_step name message check) w = ((r, code), w')"
  obtain q v where c: "check w = (q, v)" by force
  have "tw_collecting v" using quietD [OF assms c] w by (simp add: LintChain.quiet_world_def)
  then show "tw_collecting w' \<and> sr_name r = fst (name, stub_step name message check) \<and> (code \<noteq> 0 \<longleftrightarrow> sr_status r = StepFailed)"
    using run c by (cases q) (auto simp: stub_step_def plain_step_def)
qed

text \<open>An advisory step: it changes no exit status and is never a failure.\<close>

lemma sound_advisory:
  assumes "silent m" "\<And>w r w'. m w = (r, w') \<Longrightarrow> sr_name r = name \<and> sr_status r \<noteq> StepFailed"
  shows "sound_check (name, \<lambda>w. case m w of (r, w) \<Rightarrow> ((r, 0), w))"
  using assms unfolding sound_check_def
  by (auto split: prod.splits dest!: quietD simp: LintChain.quiet_world_def)

lemma quiet_go_bin_dir: "silent (go_bin_dir bc)"
  by (rule quietI)
    (auto simp: go_bin_dir_def split: prod.splits sum.splits if_splits list.splits
      dest!: quietD [OF quiet_go_env] intro: quiet_trans)

lemma quiet_govulncheck: "silent (run_govulncheck bc)"
  by (rule quietI)
    (auto simp: run_govulncheck_def Let_def split: prod.splits sum.splits cmd_outcome.splits
      dest!: quietD [OF quiet_go_bin_dir] quietD [OF quiet_t_exec] intro: quiet_trans)

lemma govulncheck_advises: "run_govulncheck bc w = (r, w') \<Longrightarrow> sr_name r = ''govulncheck'' \<and> sr_status r \<noteq> StepFailed"
  by (auto simp: run_govulncheck_def Let_def plain_step_def advisory_tool_failure_def
      split: prod.splits sum.splits cmd_outcome.splits if_splits)

lemma sound_prepared_govulncheck:
  assumes "prepare_govulncheck bc w = (c, w')" shows "sound_check c \<and> fst c = ''govulncheck''"
proof -
  have "sound_check (''govulncheck'', \<lambda>w. case run_govulncheck bc w of (r, w) \<Rightarrow> ((r, 0), w))"
    by (rule sound_advisory [OF quiet_govulncheck govulncheck_advises])
  moreover have "sound_check (''govulncheck'', \<lambda>w. ((govulncheck_failed bc e, 0), w))" for e
    by (simp add: sound_check_def govulncheck_failed_def advisory_tool_failure_def plain_step_def)
  ultimately show ?thesis using assms by (auto simp: prepare_govulncheck_def split: prod.splits sum.splits)
qed

lemma quiet_cached_version: "silent (fresh_cached_go_version bc path)"
  by (rule quietI)
    (auto simp: fresh_cached_go_version_def t_stat_def Let_def split: if_splits prod.splits file_read.splits
      dest!: quietD [OF quiet_t_read] intro: quiet_trans)

lemma quiet_fetch_latest: "silent fetch_latest_go"
  by (rule quietI)
    (auto simp: fetch_latest_go_def t_fetch_def Let_def LintChain.quiet_world_def t_tick_def split: http_outcome.splits)

lemma quiet_write_version: "LintChain.quiet_world w (write_go_version_cache path v w)"
proof -
  obtain made w1 where m: "t_try MkdirCall w = (made, w1)" by force
  obtain b w2 where s: "t_set WriteCall path (Some (v @ newline)) w1 = (b, w2)" by force
  have "LintChain.quiet_world w w1" using m by (auto simp: t_try_def)
  then show ?thesis using m s quietD [OF quiet_t_set s] by (auto simp: write_go_version_cache_def intro: quiet_trans)
qed

lemma quiet_latest: "silent (latest_stable_go bc)"
proof (rule quietI)
  fix w r w' assume run: "latest_stable_go bc w = (r, w')"
  obtain c w1 where c: "fresh_cached_go_version bc (make_file ''go-latest-version'') w = (c, w1)" by force
  obtain f w2 where f: "fetch_latest_go w1 = (f, w2)" by force
  have q: "LintChain.quiet_world w w1" "LintChain.quiet_world w1 w2" by (rule quietD [OF quiet_cached_version c], rule quietD [OF quiet_fetch_latest f])
  then show "LintChain.quiet_world w w'"
    using run c f quiet_write_version
    by (cases c; cases f) (auto simp: latest_stable_go_def Let_def intro: quiet_trans)
qed

lemma quiet_go_version: "silent (go_version_step bc)"
proof (rule quietI)
  fix w r w' assume run: "go_version_step bc w = (r, w')"
  obtain i w1 where i: "installed_go_version w = (i, w1)" by force
  obtain l w2 where l: "latest_stable_go bc w1 = (l, w2)" by force
  have "LintChain.quiet_world w w1" using i
    by (auto simp: installed_go_version_def Let_def split: prod.splits sum.splits dest!: quietD [OF quiet_t_output])
  then show "LintChain.quiet_world w w'"
    using run i l quietD [OF quiet_latest l]
    by (cases i; cases l) (auto simp: go_version_step_def intro: quiet_trans)
qed

lemma go_version_advises: "go_version_step bc w = (r, w') \<Longrightarrow> sr_name r = ''go-version'' \<and> sr_status r \<noteq> StepFailed"
  by (auto simp: go_version_step_def plain_step_def advisory_tool_failure_def split: prod.splits sum.splits if_splits)

lemma sound_host_checks: "list_all sound_check (host_checks bc)"
  unfolding host_checks_def run_cgo_stub_step_def run_platform_stub_step_def
  by (auto intro!: sound_stub_step quiet_check_cgo quiet_check_platform sound_advisory [OF quiet_go_version go_version_advises])

lemma quiet_missing_flags: "silent (staticcheck_missing_flags candidate)"
  by (rule quietI)
    (auto simp: staticcheck_missing_flags_def split: if_splits prod.splits cmd_outcome.splits dest!: quietD [OF quiet_t_exec])

lemma quiet_with_output: "(\<And>out. silent (f out)) \<Longrightarrow> silent (with_output_path f)"
  by (rule quietI) (auto simp: with_output_path_def split: option.splits dest: quietD)

lemma quiet_parent: "silent (make_parent path)"
  by (rule quietI) (auto simp: make_parent_def t_try_def)

lemma quiet_relink: "silent (relink target path)"
proof (rule quietI)
  fix w r w' assume run: "relink target path w = (r, w')"
  obtain a w1 where a: "t_set RemoveCall path None w = (a, w1)" by force
  obtain b w2 where b: "t_set SymlinkCall path (tw_files w1 target) w1 = (b, w2)" by force
  show "LintChain.quiet_world w w'"
    using run a b quietD [OF quiet_t_set a] quietD [OF quiet_t_set b]
    by (auto simp: relink_def split: if_splits intro: quiet_trans)
qed

lemma quiet_build_from_repo: "silent staticcheck_build_from_repo"
  unfolding staticcheck_build_from_repo_def
  by (rule quiet_with_output, rule quiet_bind [OF quiet_parent], rule quiet_at, rule quiet_run_command)

lemma quiet_install_binary: "silent staticcheck_install_binary"
proof -
  have "silent (t_bind (run_command env argv) (\<lambda>_. t_bind (make_parent out) (\<lambda>_. relink target out)))" for env argv out target
    by (intro quiet_bind quiet_run_command quiet_parent quiet_relink)
  note q = quietD [OF this]
  have "silent (\<lambda>w. let spec = install_spec w; bin = path_join [gopath, ''bin'']; target = path_join [bin, spec_binary spec];
             env = set_env_var (set_env_var (host_lint_env w) ''GONOSUMDB''
                     ''goodkind.io/go-makefile,goodkind.io/go-makefile/staticcheck'') ''GOBIN'' bin
         in t_bind (run_command env [''go'', ''install'', spec]) (\<lambda>_.
            t_bind (make_parent out) (\<lambda>_. relink target out)) w)" for gopath out
    unfolding Let_def by (rule quietI) (rule q)
  then show ?thesis
    unfolding staticcheck_install_binary_def by (intro quiet_bind quiet_go_env quiet_with_output)
qed

lemma quiet_staticcheck_bin: "silent (run_staticcheck_bin bc)"
proof -
  note i = quietD [OF quiet_install_binary] and b = quietD [OF quiet_build_from_repo] and m = quietD [OF quiet_missing_flags]
  have conf: "silent (resolve_configured bc c)" for c
    by (rule quietI)
      (auto simp: resolve_configured_def refuse_binary_def split: if_splits prod.splits dest!: m)
  have repo: "silent (resolve_from_repo bc r out)" for r out
  proof (rule quietI)
    fix w q w' assume run: "resolve_from_repo bc r out w = (q, w')"
    obtain missing w1 where f: "staticcheck_missing_flags out (t_tick w) = (missing, w1)" by force
    have "LintChain.quiet_world w w1" using m [OF f] by simp
    moreover have "LintChain.quiet_world w w'" if "staticcheck_build_from_repo (t_tick w) = (q, w')" using b [OF that] by simp
    moreover have "staticcheck_build_from_repo w1 = (q, w') \<Longrightarrow> LintChain.quiet_world w1 w'" by (rule b)
    ultimately show "LintChain.quiet_world w w'"
      using run f
      by (auto simp: resolve_from_repo_def refuse_binary_def Let_def simp del: quiet_updates intro: quiet_trans
          split: if_splits option.splits bool.splits) (simp_all add: quiet_updates)
  qed
  have link: "silent (t_bind (make_parent out) (\<lambda>_. relink target out))" for out target
    by (intro quiet_bind quiet_parent quiet_relink)
  have pin: "silent (resolve_pinned bc out)" for out
    unfolding resolve_pinned_def
  proof (rule quiet_bind [OF quiet_go_env], rule quietI)
    fix gopath w r w'
    assume "(let target = path_join [gopath, ''bin'', spec_binary (install_spec w)] in
       if \<not> lc_executable (bc_lint bc) w target then staticcheck_install_binary w
       else (case staticcheck_missing_flags target w of
               (missing, w) \<Rightarrow> if missing then staticcheck_install_binary w
                               else t_bind (make_parent out) (\<lambda>_. relink target out) w)) = (r, w')"
    then show "LintChain.quiet_world w w'"
      by (auto simp: Let_def split: if_splits prod.splits dest!: m i quietD [OF link] intro: quiet_trans)
  qed
  have "silent (staticcheck_resolve bc)"
    unfolding staticcheck_resolve_def
    by (rule quiet_with_output, rule quietI)
      (auto split: if_splits dest: quietD [OF conf] quietD [OF repo] quietD [OF pin] i)
  then show ?thesis
    by (intro quietI) (auto simp: run_staticcheck_bin_def split: prod.splits dest: quietD)
qed

lemma quiet_gate_context: "quiet_context (bc_lint bc) \<Longrightarrow> quiet_context (gate_context bc)"
  using quiet_staticcheck_bin [of bc] by (simp add: quiet_context_def gate_context_def)

text \<open>
  The rows a report owes: vet, then every gate of \<open>LINT_GATES\<close> in its order, each once per platform of the matrix
  when there is one (a gate that is not registered has one row), then the four checks of the host.
\<close>

definition on_platforms :: "tool_world \<Rightarrow> string \<Rightarrow> string list" where
  "on_platforms w name =
     (if platform_matrix w = [] then [name]
      else map (\<lambda>t. name @ '' ('' @ pt_goos t @ ''/'' @ pt_goarch t @ '')'') (platform_matrix w))"

definition registered_gates :: "string list" where
  "registered_gates = [''lint-golangci'', ''lint-format'', ''lint-gocyclo'', ''lint-deadcode'', ''staticcheck-extra'']"

definition due_rows :: "tool_world \<Rightarrow> string list" where
  "due_rows w =
     on_platforms w ''vet'' @
     concat (map (\<lambda>gate. if gate \<in> set registered_gates then on_platforms w gate else [gate])
       (str_fields (env_default (tw_environ w) ''LINT_GATES''
          ''lint-golangci lint-format lint-gocyclo lint-deadcode staticcheck-extra''))) @
     [''govulncheck'', ''go-version'', ''cgo-stub'', ''platform-stub'']"

lemma vet_rows: "map fst (vet_checks w) = on_platforms w ''vet''"
  by (simp add: vet_checks_def on_platforms_def platform_check_def platform_label_def Let_def)

lemma gate_rows:
  "map fst (checks_of_gate lc (platform_matrix w) gate) =
     (if gate \<in> set registered_gates then on_platforms w gate else [gate])"
proof -
  have "map_of (gate_runners lc) gate = None \<longleftrightarrow> gate \<notin> set registered_gates"
    by (simp add: gate_runners_def registered_gates_def)
  then show ?thesis
    by (cases "map_of (gate_runners lc) gate")
      (auto simp: checks_of_gate_def on_platforms_def platform_check_def platform_label_def Let_def)
qed

lemma report_names:
  "fst c = ''govulncheck'' \<Longrightarrow>
   map fst (build_check_checks lc c (host_checks bc) w) = due_rows w"
  by (simp add: build_check_checks_def due_rows_def vet_rows gate_checks_def host_checks_def map_concat comp_def
      gate_rows split_words_def default_lint_gates_def)

text \<open>
  The rows come from running the checks, each in the world the one before it left, and a row is a failure exactly
  when its check answered with a status.
\<close>

definition ran_rows :: "nat \<Rightarrow> check list \<Rightarrow> tool_world \<Rightarrow> step_result list \<Rightarrow> tool_world \<Rightarrow> bool" where
  "ran_rows width cs w rs w' \<longleftrightarrow> length rs = length cs \<and>
     (\<exists>before. before 0 = w \<and> before (length cs) = w' \<and>
       (\<forall>i < length cs. \<exists>code v. snd (cs ! i) (before i) = ((rs ! i, code), v) \<and>
          (code \<noteq> 0 \<longleftrightarrow> sr_status (rs ! i) = StepFailed) \<and> before (Suc i) = t_println (step_row width (rs ! i)) v))"

lemma ran_rows_Cons:
  assumes "snd c w = ((r, code), v)" "code \<noteq> 0 \<longleftrightarrow> sr_status r = StepFailed"
    "ran_rows width cs (t_println (step_row width r) v) rs w'"
  shows "ran_rows width (c # cs) w (r # rs) w'"
proof -
  obtain before where "before 0 = t_println (step_row width r) v" "before (length cs) = w'"
    "\<forall>i < length cs. \<exists>code v. snd (cs ! i) (before i) = ((rs ! i, code), v) \<and>
       (code \<noteq> 0 \<longleftrightarrow> sr_status (rs ! i) = StepFailed) \<and> before (Suc i) = t_println (step_row width (rs ! i)) v"
    and "length rs = length cs"
    using assms(3) by (auto simp: ran_rows_def)
  then show ?thesis using assms(1,2) unfolding ran_rows_def
    by (intro conjI exI [of _ "case_nat w before"]) (auto simp: less_Suc_eq_0_disj)
qed

lemma execute_checks_ran:
  "list_all sound_check cs \<Longrightarrow> tw_collecting w \<Longrightarrow> execute_checks n cs w = ((status, rs), w') \<Longrightarrow> ran_rows n cs w rs w'"
proof (induction cs arbitrary: w status rs w')
  case Nil
  then show ?case by (auto simp: ran_rows_def intro: exI [of _ "\<lambda>_. w"])
next
  case (Cons c cs)
  obtain name run where c: "c = (name, run)" by fastforce
  obtain r code v where s: "run w = ((r, code), v)" by (metis prod.collapse)
  obtain rest rs' v' where t: "execute_checks n cs (t_println (step_row n r) v) = ((rest, rs'), v')"
    by (metis prod.collapse)
  have sound: "sound_check (name, run)" "list_all sound_check cs" using Cons.prems(1) c by simp_all
  have r: "tw_collecting v \<and> sr_name r = name \<and> (code \<noteq> 0 \<longleftrightarrow> sr_status r = StepFailed)"
    using sound(1) [unfolded sound_check_def, rule_format, of w r code v] Cons.prems(2) s by simp
  have "tw_collecting (t_println (step_row n r) v)" using r by (simp add: t_println_def t_print_def)
  note ih = Cons.IH [OF sound(2) this t]
  have "execute_checks n ((name, run) # cs) w = ((if rest \<noteq> 0 then rest else code, r # rs'), v')"
    using s t by (simp only: execute_checks.simps Let_def prod.case)
  then have "rs = r # rs'" "w' = v'" using Cons.prems(3) c by simp_all
  then show ?case using ran_rows_Cons [of c w r code v n cs rs' v'] s r ih c by simp
qed

text \<open>The world the report of a run starts in, the checks it runs there, and what it prints first.\<close>

definition prepared_world :: "build_context \<Rightarrow> tool_world \<Rightarrow> tool_world" where
  "prepared_world bc w = snd (prepare_checks (gate_context bc) (lc_notice (bc_lint bc) w))"

definition report_world :: "build_context \<Rightarrow> tool_world \<Rightarrow> tool_world" where
  "report_world bc w = snd (prepare_govulncheck bc (prepared_world bc w))"

definition report_checks :: "build_context \<Rightarrow> tool_world \<Rightarrow> check list" where
  "report_checks bc w =
     build_check_checks (gate_context bc) (fst (prepare_govulncheck bc (prepared_world bc w))) (host_checks bc) (report_world bc w)"

definition report_start :: "build_context \<Rightarrow> tool_world \<Rightarrow> tool_world" where
  "report_start bc w =
     t_print (''go-mk build-check'' @ newline @ newline) ((report_world bc w)\<lparr>tw_collecting := True\<rparr>)"

text \<open>
  C9. The exit status of \<open>go-mk build-check\<close> is the verdict of the report it prints. Either a tool could not be
  prepared, and the status is 1. Or the report has exactly the rows that are due in the world after the
  preparation: one for vet, one for every gate of \<open>LINT_GATES\<close>, for each of them per platform of the matrix, then
  govulncheck, the Go version and the two stub checks, in this order; every row is the answer of its check, which
  ran in the world the check before it left, and is a failure exactly when that answer had a status; what is
  printed last are the findings of these rows and their footer; and the status is zero exactly when no row failed.
\<close>

theorem build_check_verdict:
  assumes "quiet_context (bc_lint bc)" "run_build_check bc w = (status, w')"
    and "parse_log_mode (tenv (lc_notice (bc_lint bc) w) ''GO_MK_LOG'') \<noteq> ModeDebug"
  shows "isl (fst (prepare_checks (gate_context bc) (lc_notice (bc_lint bc) w))) \<and> status = 1 \<or>
    (\<exists>rs v.
      map sr_name rs = due_rows (report_world bc w) \<and>
      ran_rows (name_width (due_rows (report_world bc w))) (report_checks bc w) (report_start bc w) rs v \<and>
      tw_stdout w' = tw_stdout v @ concat (map findings_block rs) @ footer (failed_step_names rs) (advisory_step_count rs) \<and>
      (status = 0 \<longleftrightarrow> (\<forall>r \<in> set rs. sr_status r \<noteq> StepFailed)))"
proof -
  obtain p w0 where p: "prepare_checks (gate_context bc) (lc_notice (bc_lint bc) w) = (p, w0)" by force
  have run: "or_status (prepare_checks (gate_context bc)) (\<lambda>_ w.
        (let (govulncheck, w) = prepare_govulncheck bc w
         in run_checks ''go-mk build-check''
              (build_check_checks (gate_context bc) govulncheck (host_checks bc) w) w))
        (lc_notice (bc_lint bc) w) = (status, w')"
    using assms(2,3) unfolding run_build_check_def Let_def by simp
  show ?thesis
  proof (cases p)
    case (Inl e)
    then show ?thesis using run p by (simp add: or_status_def)
  next
    case (Inr u)
    obtain c w1 where c: "prepare_govulncheck bc w0 = (c, w1)" by (rule prod.exhaust)
    have at: "prepared_world bc w = w0" "report_world bc w = w1"
      by (simp_all add: report_world_def prepared_world_def p c)
    define cs where "cs = report_checks bc w"
    have cs: "cs = build_check_checks (gate_context bc) c (host_checks bc) w1"
      by (simp add: cs_def report_checks_def at c)
    have checks: "run_checks ''go-mk build-check'' cs w1 = (status, w')"
      using run p c Inr by (simp add: or_status_def cs)
    note sound = sound_prepared_govulncheck [OF c]
    have names: "map fst cs = due_rows w1" unfolding cs by (rule report_names) (use sound in simp)
    have "list_all sound_check cs"
      using sound sound_host_checks sound_vet sound_gate_checks [OF quiet_gate_context [OF assms(1)]]
      by (simp add: cs build_check_checks_def)
    moreover have "tw_collecting (report_start bc w)" by (simp add: report_start_def t_print_def)
    moreover obtain s rs v where ex: "execute_checks (name_width (map fst cs)) cs (report_start bc w) = ((s, rs), v)"
      by (metis prod.collapse)
    ultimately have r: "map sr_name rs = map fst cs" "s \<noteq> 0 \<longleftrightarrow> failed_step_names rs \<noteq> []"
      "ran_rows (name_width (map fst cs)) cs (report_start bc w) rs v"
      using execute_checks_verdict execute_checks_ran by blast+
    have start: "t_print (''go-mk build-check'' @ newline @ newline) (w1\<lparr>tw_collecting := True\<rparr>) = report_start bc w"
      by (simp add: report_start_def at)
    have "run_checks ''go-mk build-check'' cs w1 = (s, (t_print (concat (map findings_block rs) @
        footer (failed_step_names rs) (advisory_step_count rs)) v)\<lparr>tw_collecting := False\<rparr>)"
      by (simp only: run_checks_def Let_def start ex prod.case)
    then have out: "s = status" "tw_stdout w' =
        tw_stdout v @ concat (map findings_block rs) @ footer (failed_step_names rs) (advisory_step_count rs)"
      using checks by (auto simp: t_print_def)
    have failed: "failed_step_names rs = [] \<longleftrightarrow> (\<forall>r \<in> set rs. sr_status r \<noteq> StepFailed)"
      by (auto simp: failed_step_names_def filter_empty_conv)
    then have st: "status = 0 \<longleftrightarrow> (\<forall>r \<in> set rs. sr_status r \<noteq> StepFailed)" using r(2) out(1) by blast
    show ?thesis
      by (rule disjI2, rule exI [of _ rs], rule exI [of _ v])
        (use r(1,3) out(2) st in \<open>simp add: at names flip: cs_def\<close>)
  qed
qed

definition sample_build :: build_context where
  "sample_build =
     \<lparr>bc_lint = sample_context, bc_release = sample_release, bc_error = (\<lambda>_. ''e''), bc_message = (\<lambda>_. ''e''),
      bc_newer = (\<lambda>_ _ _. Some False), bc_fresh = (\<lambda>_ _. False)\<rparr>"

definition sample_check :: tool_world where
  "sample_check = sample_tool\<lparr>tw_environ := [''LINT_GATES=lint-nope'', ''STATICCHECK_EXTRA_BUILD_REPO=r'']\<rparr>"

lemma sample_check_prepared: "\<not> isl (fst (prepare_checks (gate_context sample_build) sample_check))"
  by code_simp

lemma sample_check_rows:
  "due_rows (snd (prepare_govulncheck sample_build (snd (prepare_checks (gate_context sample_build) sample_check)))) =
     [''vet'', ''lint-nope'', ''govulncheck'', ''go-version'', ''cgo-stub'', ''platform-stub'']"
  by code_simp

theorem build_check_verdict_witness:
  "\<exists>status w' (rs :: step_result list). run_build_check sample_build sample_check = (status, w') \<and>
    map sr_name rs = [''vet'', ''lint-nope'', ''govulncheck'', ''go-version'', ''cgo-stub'', ''platform-stub''] \<and>
    (status = 0 \<longleftrightarrow> (\<forall>r \<in> set rs. sr_status r \<noteq> StepFailed))"
proof -
  have q: "quiet_context (bc_lint sample_build)"
    by (simp add: sample_build_def quiet_context_def sample_context_def LintChain.quiet_def)
  obtain status w' where run: "run_build_check sample_build sample_check = (status, w')" by force
  have n: "lc_notice (bc_lint sample_build) sample_check = sample_check" by (simp add: sample_build_def sample_context_def)
  have m: "parse_log_mode (tenv (lc_notice (bc_lint sample_build) sample_check) ''GO_MK_LOG'') \<noteq> ModeDebug"
    unfolding n by code_simp
  have "\<exists>rs :: step_result list. map sr_name rs = due_rows (report_world sample_build sample_check) \<and>
      (status = 0 \<longleftrightarrow> (\<forall>r \<in> set rs. sr_status r \<noteq> StepFailed))"
    using build_check_verdict [OF q run m] sample_check_prepared unfolding n by fast
  then show ?thesis using run sample_check_rows unfolding report_world_def prepared_world_def n by metis
qed

section \<open>Versions\<close>

text \<open>The comparison is the numeric order of the components, the missing ones being zero.\<close>

fun pad_zero :: "nat \<Rightarrow> int list \<Rightarrow> int list" where
  "pad_zero 0 as = []"
| "pad_zero (Suc n) [] = 0 # pad_zero n []"
| "pad_zero (Suc n) (a # as) = a # pad_zero n as"

lemma compare_parts_sign: "compare_parts as bs \<in> {- 1, 0, 1}"
  by (induction as bs rule: compare_parts.induct) auto

lemma compare_parts_swap: "compare_parts bs as = - compare_parts as bs"
  by (induction as bs rule: compare_parts.induct) auto

lemma compare_parts_eq:
  "length as \<le> n \<Longrightarrow> length bs \<le> n \<Longrightarrow> compare_parts as bs = 0 \<longleftrightarrow> pad_zero n as = pad_zero n bs"
proof (induction as bs arbitrary: n rule: compare_parts.induct)
  case (2 a as)
  then show ?case by (cases n) auto
next
  case (3 b bs)
  then show ?case by (cases n) auto
next
  case (4 a as b bs)
  then show ?case by (cases n) auto
qed simp

lemma compare_parts_less:
  "length as \<le> n \<Longrightarrow> length bs \<le> n \<Longrightarrow> compare_parts as bs = - 1 \<longleftrightarrow> pad_zero n as < pad_zero n bs"
proof (induction as bs arbitrary: n rule: compare_parts.induct)
  case (2 a as)
  then show ?case by (cases n) auto
next
  case (3 b bs)
  then show ?case by (cases n) auto
next
  case (4 a as b bs)
  then show ?case by (cases n) auto
qed simp

section \<open>What the code refuses\<close>

text \<open>
  A flag with a value is looked up with its value, so an analyzer that lists the flag is taken to lack it.
\<close>

definition flagged_tool :: tool_world where
  "flagged_tool = sample_tool\<lparr>tw_environ := [''STATICCHECK_EXTRA_FLAGS=-depth=2''],
     tw_run := (\<lambda>_ _. Exited 0 ''[{Name: depth}]'' [])\<rparr>"

lemma valued_flag_is_missing:
  "fst (staticcheck_missing_flags ''a'' flagged_tool)" "names_flag ''[{Name: depth}]'' ''depth''"
  by code_simp+

end
