(* ===== verification/BuildInstall.thy ===== *)
theory BuildInstall
  imports BuildCheck BaselineCmd
begin

text \<open>
  \<open>go-mk build\<close>, \<open>install\<close>, \<open>uninstall\<close> and \<open>build-gate\<close> (\<open>install.go\<close>) and the reuse of the outputs of an unchanged
  tree (\<open>reuse.go\<close>). Parameters: the JSON of \<open>go list\<close> and of the stamp file, the path of the engine, the removal
  of the build time from the linker flags (a regular expression), the names of temporary files. Modes of files
  are not modelled.
\<close>

section \<open>Configuration\<close>

record bin_spec =
  bs_name :: string
  bs_main :: string
  bs_dir :: string

record install_config =
  ic_bins :: "bin_spec list"
  ic_dist :: string
  ic_tags :: string
  ic_ldflags :: string
  ic_flags :: "string list"
  ic_identity :: string
  ic_bundle :: string
  ic_timestamp :: string
  ic_entitlements :: string
  ic_pre :: string
  ic_post :: string

record reuse_package = go_list_package +
  rp_failed :: bool

record reuse_record =
  rr_version :: string
  rr_fingerprint :: string
  rr_outputs :: "(string \<times> string) list"

record install_context =
  ix_build :: build_context
  ix_packages :: "string \<Rightarrow> reuse_package list option"
  ix_stamps :: "string \<Rightarrow> (string \<times> reuse_record) list option"
  ix_encode :: "(string \<times> reuse_record) list \<Rightarrow> string"
  ix_self :: "string option"
  ix_strip :: "string \<Rightarrow> string"
  ix_temp :: "tool_world \<Rightarrow> string \<Rightarrow> string"

abbreviation ix_rx :: "install_context \<Rightarrow> release_context" where
  "ix_rx ix \<equiv> bc_release (ix_build ix)"

definition default_install_dir :: "tool_world \<Rightarrow> string" where
  "default_install_dir w =
     env_trimmed w ''XDG_BIN_HOME'' (path_join [tenv w ''HOME'', ''.local'', ''bin''])"

text \<open>\<open>strings.SplitN(entry, ":", 3)\<close>.\<close>

definition split_three :: "string \<Rightarrow> string list" where
  "split_three e =
     (case split_on colon e of
        a # b # c # rest \<Rightarrow> [a, b, str_join [colon] (c # rest)] | parts \<Rightarrow> parts)"

definition parse_install_bin :: "string \<Rightarrow> string \<Rightarrow> (release_error, bin_spec) result" where
  "parse_install_bin install_dir e =
     (case split_three e of
        a # b # rest \<Rightarrow>
          if a = [] \<or> b = [] then Inl (MalformedInstallEntry e)
          else Inr \<lparr>bs_name = a, bs_main = b,
                    bs_dir = (case rest of d # _ \<Rightarrow> if \<not> blank d then d else install_dir | [] \<Rightarrow> install_dir)\<rparr>
      | _ \<Rightarrow> Inl (MalformedInstallEntry e))"

fun parse_install_entries :: "string \<Rightarrow> string list \<Rightarrow> (release_error, bin_spec list) result" where
  "parse_install_entries d [] = Inr []"
| "parse_install_entries d (e # es) =
     result_bind (parse_install_bin d e) (\<lambda>b. result_bind (parse_install_entries d es) (\<lambda>bs. Inr (b # bs)))"

definition parse_install_bins :: "string \<Rightarrow> string \<Rightarrow> string \<Rightarrow> string \<Rightarrow> (release_error, bin_spec list) result" where
  "parse_install_bins entries binary main install_dir =
     (if blank entries then
        (if binary = [] then Inl NoInstallBinary else Inr [\<lparr>bs_name = binary, bs_main = main, bs_dir = install_dir\<rparr>])
      else parse_install_entries install_dir (str_fields (trim_space entries)))"

definition load_install_config :: "tool_world \<Rightarrow> (release_error, install_config) result" where
  "load_install_config w =
     (let get = (\<lambda>n. trim_space (tenv w n)) in
      result_bind (parse_install_bins (tenv w ''INSTALL_BINS'') (get ''BINARY'') (env_trimmed w ''CMD'' ''.'')
          (env_trimmed w ''INSTALL_DIR'' (default_install_dir w)))
        (\<lambda>bs. Inr \<lparr>ic_bins = bs, ic_dist = env_trimmed w ''DIST_DIR'' ''dist'', ic_tags = get ''GO_BUILD_TAGS'',
                    ic_ldflags = get ''GO_BUILD_LDFLAGS'', ic_flags = str_fields (tenv w ''GO_BUILD_EXTRA_FLAGS''),
                    ic_identity = get ''CODESIGN_IDENTITY'', ic_bundle = get ''BUNDLE_ID'',
                    ic_timestamp = env_trimmed w ''CODESIGN_TIMESTAMP'' ''none'',
                    ic_entitlements = get ''CODESIGN_ENTITLEMENTS'', ic_pre = get ''GO_MK_INSTALL_PRE_CMD'',
                    ic_post = get ''GO_MK_INSTALL_POST_CMD''\<rparr>))"

section \<open>Reuse\<close>

definition reuse_stamp_version :: string where "reuse_stamp_version = ''1''"
definition reuse_stamp_file :: string where "reuse_stamp_file = ''.make/go-mk-reuse.json''"

definition reuse_env_prefixes :: "string list" where
  "reuse_env_prefixes =
     [''BINARY'', ''BUNDLE_ID'', ''CGO_ENABLED'', ''CC'', ''CMD'', ''CODESIGN_'', ''CXX'', ''DEADCODE_'', ''DIST_DIR'', ''GKLOG_VPKG'',
      ''GOARCH'', ''GOCYCLO_'', ''GOEXPERIMENT'', ''GOFLAGS'', ''GOOS'', ''GOWORK'', ''GO_BUILD_'', ''GO_MK_'', ''GO_TEST_'',
      ''GO_VET_'', ''GOLANGCI'', ''GOVULNCHECK'', ''INSTALL_BINS'', ''INSTALL_DIR'', ''LINT_'', ''RELEASE_BINS'',
      ''STATICCHECK'', ''VPKG'']"

definition reuse_config_files :: "string list" where
  "reuse_config_files =
     [''.deadcode-baseline.txt'', ''.gocyclo-baseline.txt'', ''.golangci-lint-baseline.txt'', ''.make/golangci.yml'',
      ''.staticcheck-extra-baseline.txt'', ''Makefile'', ''bootstrap.mk'', ''config.mk'', ''go.mod'', ''go.sum'', ''go.work'',
      ''go.work.sum'']"

definition reuse_enabled :: "tool_world \<Rightarrow> bool" where
  "reuse_enabled w = is_truthy (tenv w ''GO_MK_REUSE_OUTPUTS'')"

definition reuse_outputs :: "string \<Rightarrow> install_config \<Rightarrow> string list" where
  "reuse_outputs mode cfg =
     sort (concat (map (\<lambda>b. path_join [ic_dist cfg, bs_name b] #
       (if mode = ''install'' then [path_join [bs_dir b, bs_name b]] else [])) (ic_bins cfg)))"

definition file_digest :: "install_context \<Rightarrow> string \<Rightarrow> tool_world \<Rightarrow> string option \<times> tool_world" where
  "file_digest ix path w =
     (case t_read path w of
        (Content s, w) \<Rightarrow> (Some (hex_encode (rx_sha (ix_rx ix) s)), w) | (_, w) \<Rightarrow> (None, w))"

definition read_stamps :: "install_context \<Rightarrow> tool_world \<Rightarrow> (string \<times> reuse_record) list option \<times> tool_world" where
  "read_stamps ix w =
     (case t_read reuse_stamp_file w of (Content s, w) \<Rightarrow> (ix_stamps ix s, w) | (_, w) \<Rightarrow> (None, w))"

definition read_reuse_stamp :: "install_context \<Rightarrow> string \<Rightarrow> tool_world \<Rightarrow> reuse_record option \<times> tool_world" where
  "read_reuse_stamp ix mode w =
     (case read_stamps ix w of (None, w) \<Rightarrow> (None, w) | (Some stamps, w) \<Rightarrow> (map_of stamps mode, w))"

text \<open>A file of stamps that cannot be read counts as empty; every failure leaves the old file.\<close>

definition write_reuse_stamp :: "install_context \<Rightarrow> string \<Rightarrow> reuse_record \<Rightarrow> tool_world \<Rightarrow> tool_world" where
  "write_reuse_stamp ix mode rec w =
     (let (old, w) = read_stamps ix w; stamps = AList.update mode rec (case old of None \<Rightarrow> [] | Some s \<Rightarrow> s);
          (made, w) = t_try MkdirCall w
      in if \<not> made then w else snd (t_set WriteCall reuse_stamp_file (Some (ix_encode ix stamps)) w))"

definition fingerprint_line :: "string \<Rightarrow> string \<Rightarrow> string" where
  "fingerprint_line label v = label @ [CHR 0x00] @ v @ newline"

fun fingerprint_files :: "install_context \<Rightarrow> string \<Rightarrow> string list \<Rightarrow> tool_world \<Rightarrow> string list option \<times> tool_world" where
  "fingerprint_files ix label [] w = (Some [], w)"
| "fingerprint_files ix label (p # ps) w =
     (case file_digest ix p w of
        (None, w) \<Rightarrow> (None, w)
      | (Some d, w) \<Rightarrow>
          (case fingerprint_files ix label ps w of
             (None, w) \<Rightarrow> (None, w) | (Some ls, w) \<Rightarrow> (Some (fingerprint_line label (p @ '' '' @ d) # ls), w)))"

fun existing_files :: "string list \<Rightarrow> string list \<Rightarrow> tool_world \<Rightarrow> string list \<times> tool_world" where
  "existing_files found [] w = (found, w)"
| "existing_files found (p # ps) w =
     (case t_stat p w of (there, w) \<Rightarrow> existing_files (if there then found @ [p] else found) ps w)"

definition existing_config_files :: "install_context \<Rightarrow> tool_world \<Rightarrow> string list \<times> tool_world" where
  "existing_config_files ix w =
     (case existing_files [] reuse_config_files w of (found, w) \<Rightarrow>
        (sorted_unique (found @ (case rx_glob (ix_rx ix) (tw_files w) ''*.mk'' of None \<Rightarrow> [] | Some ms \<Rightarrow> ms)), w))"

definition normalize_ldflags :: "install_context \<Rightarrow> string \<Rightarrow> string" where
  "normalize_ldflags ix flags = str_join '' '' (str_fields (ix_strip ix flags))"

definition reuse_entry :: "install_context \<Rightarrow> string \<Rightarrow> string option" where
  "reuse_entry ix e =
     (case str_cut e ''='' of
        None \<Rightarrow> None
      | Some (name, v) \<Rightarrow>
          if \<not> list_ex (\<lambda>p. prefix p name) reuse_env_prefixes then None
          else Some (name @ ''='' @ (if name = ''GO_BUILD_LDFLAGS'' then normalize_ldflags ix v else v)))"

definition reuse_environment :: "install_context \<Rightarrow> tool_world \<Rightarrow> string list" where
  "reuse_environment ix w = sort (List.map_filter (reuse_entry ix) (tw_environ w))"

definition package_files :: "reuse_package \<Rightarrow> string list" where
  "package_files p = map (\<lambda>n. path_join [gp_dir p, n]) (concat (gp_groups p))"

definition decode_source_files :: "reuse_package list \<Rightarrow> string list option" where
  "decode_source_files ps =
     (let own = filter (\<lambda>p. \<not> gp_standard p \<and> gp_dir p \<noteq> []) ps in
      if list_ex rp_failed own then None else Some (sorted_unique (concat (map package_files own))))"

definition reuse_source_files :: "install_context \<Rightarrow> tool_world \<Rightarrow> string list option \<times> tool_world" where
  "reuse_source_files ix w =
     (case t_output [''go'', ''list'', ''-e'', ''-deps'', ''-json'', ''./...''] w of
        (Inl _, w) \<Rightarrow> (None, w)
      | (Inr out, w) \<Rightarrow> (case ix_packages ix out of None \<Rightarrow> None | Some ps \<Rightarrow> decode_source_files ps, w))"

definition engine_digest :: "install_context \<Rightarrow> tool_world \<Rightarrow> string option \<times> tool_world" where
  "engine_digest ix w = (case ix_self ix of None \<Rightarrow> (None, w) | Some p \<Rightarrow> file_digest ix p w)"

definition bin_line :: "bin_spec \<Rightarrow> string" where
  "bin_line b = fingerprint_line ''bin'' (bs_name b @ ''|'' @ bs_main b @ ''|'' @ bs_dir b)"

text \<open>The lines in front of the files.\<close>

definition fingerprint_head :: "install_context \<Rightarrow> string \<Rightarrow> install_config \<Rightarrow> string \<Rightarrow> tool_world \<Rightarrow> string list" where
  "fingerprint_head ix mode cfg engine w =
     [fingerprint_line ''version'' reuse_stamp_version, fingerprint_line ''mode'' mode, fingerprint_line ''engine'' engine] @
     map (fingerprint_line ''env'') (reuse_environment ix w) @ map bin_line (ic_bins cfg) @
     [fingerprint_line ''dist'' (ic_dist cfg)]"

definition reuse_fingerprint :: "install_context \<Rightarrow> string \<Rightarrow> install_config \<Rightarrow> tool_world \<Rightarrow> string option \<times> tool_world" where
  "reuse_fingerprint ix mode cfg w =
     (case reuse_source_files ix w of
        (None, w) \<Rightarrow> (None, w)
      | (Some sources, w) \<Rightarrow>
          (case engine_digest ix w of
             (None, w) \<Rightarrow> (None, w)
           | (Some engine, w) \<Rightarrow>
               (case fingerprint_files ix ''source'' sources w of
                  (None, w) \<Rightarrow> (None, w)
                | (Some ss, w) \<Rightarrow>
                    (case existing_config_files ix w of (configs, w) \<Rightarrow>
                     case fingerprint_files ix ''config'' configs w of
                       (None, w) \<Rightarrow> (None, w)
                     | (Some cs, w) \<Rightarrow>
                         (Some (hex_encode (rx_sha (ix_rx ix)
                            (concat (fingerprint_head ix mode cfg engine w @ ss @ cs)))), w)))))"

fun first_output_mismatch :: "install_context \<Rightarrow> (string \<times> string) list \<Rightarrow> string list \<Rightarrow> tool_world \<Rightarrow> string \<times> tool_world" where
  "first_output_mismatch ix recorded [] w = ([], w)"
| "first_output_mismatch ix recorded (p # ps) w =
     (case file_digest ix p w of
        (None, w) \<Rightarrow> (p, w)
      | (Some d, w) \<Rightarrow>
          if map_get (map_of recorded) p \<noteq> d then (p, w) else first_output_mismatch ix recorded ps w)"

definition outputs_unchanged :: "install_context \<Rightarrow> (string \<times> string) list \<Rightarrow> string list \<Rightarrow> tool_world \<Rightarrow> bool \<times> tool_world" where
  "outputs_unchanged ix recorded wanted w =
     (if length recorded \<noteq> length wanted then (False, w)
      else (let (p, w) = first_output_mismatch ix recorded wanted w in (p = [], w)))"

definition reuse_satisfied :: "install_context \<Rightarrow> string \<Rightarrow> install_config \<Rightarrow> tool_world \<Rightarrow> bool \<times> tool_world" where
  "reuse_satisfied ix mode cfg w =
     (if \<not> reuse_enabled w then (False, w)
      else (case read_reuse_stamp ix mode w of
        (None, w) \<Rightarrow> (False, w)
      | (Some rec, w) \<Rightarrow>
          (case reuse_fingerprint ix mode cfg w of
             (None, w) \<Rightarrow> (False, w)
           | (Some f, w) \<Rightarrow>
               if rr_version rec \<noteq> reuse_stamp_version \<or> rr_fingerprint rec \<noteq> f then (False, w)
               else outputs_unchanged ix (rr_outputs rec) (reuse_outputs mode cfg) w)))"

fun digest_outputs :: "install_context \<Rightarrow> string list \<Rightarrow> (string \<times> string) list \<Rightarrow> tool_world \<Rightarrow> (string \<times> string) list option \<times> tool_world" where
  "digest_outputs ix [] got w = (Some got, w)"
| "digest_outputs ix (p # ps) got w =
     (case file_digest ix p w of
        (None, w) \<Rightarrow> (None, w) | (Some d, w) \<Rightarrow> digest_outputs ix ps (AList.update p d got) w)"

definition record_reuse :: "install_context \<Rightarrow> string \<Rightarrow> install_config \<Rightarrow> tool_world \<Rightarrow> tool_world" where
  "record_reuse ix mode cfg w =
     (if \<not> reuse_enabled w then w
      else (case reuse_fingerprint ix mode cfg w of
        (None, w) \<Rightarrow> w
      | (Some f, w) \<Rightarrow>
          (case digest_outputs ix (reuse_outputs mode cfg) [] w of
             (None, w) \<Rightarrow> w
           | (Some outs, w) \<Rightarrow>
               write_reuse_stamp ix mode
                 \<lparr>rr_version = reuse_stamp_version, rr_fingerprint = f, rr_outputs = outs\<rparr> w)))"

section \<open>Building and signing\<close>

definition compile_platform_env :: "tool_world \<Rightarrow> string list" where
  "compile_platform_env w =
     (let p = tw_platform w in
      if pt_goos p = [] then []
      else [''GOOS='' @ pt_goos p, ''GOARCH='' @ pt_goarch p] @
        (if (pt_goos p \<noteq> pt_goos (tw_host w) \<or> pt_goarch p \<noteq> pt_goarch (tw_host w)) \<and> blank (tenv w ''GO_MK_CC'')
         then [''CGO_ENABLED=0''] else []))"

definition compile_goos :: "tool_world \<Rightarrow> string" where
  "compile_goos w =
     (if pt_goos (tw_platform w) \<noteq> [] then pt_goos (tw_platform w)
      else env_trimmed w ''GOOS'' (pt_goos (tw_host w)))"

definition codesign_args :: "install_config \<Rightarrow> string \<Rightarrow> string list" where
  "codesign_args cfg bin =
     [''--force'', ''--sign'', ic_identity cfg, ''--identifier'', ic_bundle cfg, ''--options'', ''runtime'',
      ''--timestamp='' @ ic_timestamp cfg] @
     (if ic_entitlements cfg \<noteq> [] then [''--entitlements'', ic_entitlements cfg] else []) @ [bin]"

definition sign_binary :: "install_config \<Rightarrow> string \<Rightarrow> bool release_step" where
  "sign_binary cfg bin w =
     (if compile_goos w \<noteq> ''darwin'' \<or> pt_goos (tw_host w) \<noteq> ''darwin'' then (Inr False, w)
      else if ic_identity cfg = [] then (Inl NoCodesignIdentity, w)
      else r_bind (run_process ''codesign'' (codesign_args cfg bin) []) (\<lambda>_.
           r_bind (run_process ''codesign'' [''--verify'', bin] []) (\<lambda>_. r_return True)) w)"

definition compile_args :: "install_config \<Rightarrow> bin_spec \<Rightarrow> string list" where
  "compile_args cfg b =
     [''build''] @ (if ic_tags cfg \<noteq> [] then [''-tags'', ic_tags cfg] else []) @
     (if ic_ldflags cfg \<noteq> [] then [''-ldflags'', ic_ldflags cfg] else []) @ ic_flags cfg @
     [''-o'', path_join [ic_dist cfg, bs_name b], bs_main b]"

definition build_one :: "install_config \<Rightarrow> bin_spec \<Rightarrow> bool release_step" where
  "build_one cfg b w =
     r_bind (run_process ''go'' (compile_args cfg b) (compile_platform_env w))
       (\<lambda>_. sign_binary cfg (path_join [ic_dist cfg, bs_name b])) w"

definition build_all :: "install_config \<Rightarrow> unit release_step" where
  "build_all cfg =
     r_bind (r_mkdir (ic_dist cfg)) (\<lambda>_. r_bind (r_map (build_one cfg) (ic_bins cfg))
       (\<lambda>signed w. (Inr (), if True \<in> set signed then t_println ''codesign   ok'' w else w)))"

section \<open>Installing\<close>

definition run_install_hook :: "string \<Rightarrow> unit release_step" where
  "run_install_hook command =
     (if command = [] then r_return () else run_process ''sh'' [''-c'', command] [])"

text \<open>The nearest ancestor that exists takes a probe file; \<open>None\<close> when there is none.\<close>

function existing_ancestor :: "string \<Rightarrow> tool_world \<Rightarrow> string option \<times> tool_world" where
  "existing_ancestor dir w =
     (case t_stat dir w of
        (True, w) \<Rightarrow> (Some dir, w)
      | (False, w) \<Rightarrow> if path_dir dir = dir then (None, w) else existing_ancestor (path_dir dir) w)"
  by pat_completeness auto
termination
proof (relation "measure (\<lambda>(p, w). if p = ''.'' \<or> p = ''/'' then 0 else Suc (length p))", goal_cases)
  case (2 dir w)
  have "path_dir ''.'' = ''.''" "path_dir ''/'' = ''/''" by code_simp+
  then show ?case using 2 path_dir_shorter [of dir] by auto
qed simp

declare existing_ancestor.simps [simp del]

definition dir_writable :: "string \<Rightarrow> tool_world \<Rightarrow> bool \<times> tool_world" where
  "dir_writable dir w =
     (case existing_ancestor dir w of
        (None, w) \<Rightarrow> (False, w)
      | (Some d, w) \<Rightarrow>
          (let (made, w) = t_try WriteCall w in if \<not> made then (False, w) else (True, snd (t_try RemoveCall w))))"

definition drop_temp :: "string \<Rightarrow> string \<Rightarrow> 'a release_step" where
  "drop_temp temp path w = (Inl (ReleaseFile path), snd (t_set RemoveCall temp None w))"

definition temp_name :: "install_context \<Rightarrow> string \<Rightarrow> tool_world \<Rightarrow> string" where
  "temp_name ix target w =
     path_join [path_dir target, ''.'' @ path_base target @ ''.new'' @ ix_temp ix w target]"

definition atomic_install :: "install_context \<Rightarrow> string \<Rightarrow> string \<Rightarrow> unit release_step" where
  "atomic_install ix src target w =
     (case t_read src w of
        (Content s, w) \<Rightarrow>
          (let temp = temp_name ix target w in
           if tw_files w temp \<noteq> None then (Inl (ReleaseFile temp), w)
           else (let (created, w) = t_set WriteCall temp (Some []) w in
             if \<not> created then (Inl (ReleaseFile temp), w)
             else (let (copied, w) = t_set WriteCall temp (Some s) w in
               if \<not> copied then drop_temp temp temp w
               else (let (moded, w) = t_try WriteCall w in
                 if \<not> moded then drop_temp temp temp w
                 else (let (closed, w) = t_try WriteCall w in
                   if \<not> closed then drop_temp temp temp w
                   else (let (renamed, w) = t_rename temp target w in
                     if renamed then (Inr (), w) else drop_temp temp target w))))))
      | (_, w) \<Rightarrow> (Inl (ReleaseFile src), w))"

definition install_one :: "install_context \<Rightarrow> install_config \<Rightarrow> bin_spec \<Rightarrow> unit release_step" where
  "install_one ix cfg b w =
     (let src = path_join [ic_dist cfg, bs_name b]; target = path_join [bs_dir b, bs_name b];
          (writable, w) = dir_writable (bs_dir b) w
      in if writable then r_bind (r_mkdir (bs_dir b)) (\<lambda>_. atomic_install ix src target) w
         else r_bind (run_process ''sudo'' [''install'', ''-d'', bs_dir b] [])
                (\<lambda>_. run_process ''sudo'' [''install'', ''-m'', ''0755'', src, target] []) w)"

text \<open>The post hook runs whether or not the binaries were installed.\<close>

definition install_all :: "install_context \<Rightarrow> install_config \<Rightarrow> unit release_step" where
  "install_all ix cfg =
     r_bind (run_install_hook (ic_pre cfg)) (\<lambda>_ w.
       (case r_each (install_one ix cfg) (ic_bins cfg) w of
          (installed, w) \<Rightarrow>
            (case run_install_hook (ic_post cfg) w of
               (Inl e, w) \<Rightarrow> (Inl (case installed of Inl e0 \<Rightarrow> JoinedErrors e0 e | Inr _ \<Rightarrow> e), w)
             | (Inr _, w) \<Rightarrow> (installed, w))))"

definition uninstall_one :: "bin_spec \<Rightarrow> unit release_step" where
  "uninstall_one b w =
     (let target = path_join [bs_dir b, bs_name b]; (writable, w) = dir_writable (bs_dir b) w
      in if writable
         then (let (removed, w) = t_set RemoveCall target None w
               in (if removed then Inr () else Inl (ReleaseFile target), w))
         else run_process ''sudo'' [''rm'', ''-f'', target] [] w)"

section \<open>The commands\<close>

definition step_status :: "unit release_step \<Rightarrow> tool_world \<Rightarrow> int \<times> tool_world" where
  "step_status m w = (case m w of (Inl _, w) \<Rightarrow> (1, w) | (Inr _, w) \<Rightarrow> (0, w))"

text \<open>The gate, then the build on every platform of the matrix, then what is left of the command.\<close>

definition gated_build :: "(tool_world \<Rightarrow> int \<times> tool_world) \<Rightarrow> install_config \<Rightarrow> (tool_world \<Rightarrow> int \<times> tool_world) \<Rightarrow>
    tool_world \<Rightarrow> int \<times> tool_world" where
  "gated_build gate cfg rest w =
     (case gate w of
        (code, w) \<Rightarrow>
          if code \<noteq> 0 then (code, w)
          else (case run_across_platforms (step_status (build_all cfg)) w of
                  (code, w) \<Rightarrow> if code \<noteq> 0 then (code, w) else rest w))"

definition unless_reused :: "install_context \<Rightarrow> string \<Rightarrow> install_config \<Rightarrow> string \<Rightarrow> (tool_world \<Rightarrow> int \<times> tool_world) \<Rightarrow>
    tool_world \<Rightarrow> int \<times> tool_world" where
  "unless_reused ix mode cfg notice run w =
     (case reuse_satisfied ix mode cfg w of
        (True, w) \<Rightarrow> (0, t_println notice w) | (False, w) \<Rightarrow> run w)"

definition run_install :: "install_context \<Rightarrow> (tool_world \<Rightarrow> int \<times> tool_world) \<Rightarrow> tool_world \<Rightarrow> int \<times> tool_world" where
  "run_install ix gate w =
     (case load_install_config w of
        Inl _ \<Rightarrow> (1, w)
      | Inr cfg \<Rightarrow>
          unless_reused ix ''install'' cfg ''install    reused (no build input changed)''
            (gated_build gate cfg (\<lambda>w.
               case install_all ix cfg w of
                 (Inl _, w) \<Rightarrow> (1, w) | (Inr _, w) \<Rightarrow> (0, record_reuse ix ''install'' cfg w))) w)"

definition run_build :: "install_context \<Rightarrow> (tool_world \<Rightarrow> int \<times> tool_world) \<Rightarrow> tool_world \<Rightarrow> int \<times> tool_world" where
  "run_build ix gate w =
     (case load_install_config w of
        Inl _ \<Rightarrow> (1, w)
      | Inr cfg \<Rightarrow>
          unless_reused ix ''build'' cfg ''build      reused (no build input changed)''
            (gated_build gate cfg (\<lambda>w. (0, record_reuse ix ''build'' cfg w))) w)"

definition run_uninstall :: "tool_world \<Rightarrow> int \<times> tool_world" where
  "run_uninstall w =
     (case load_install_config w of
        Inl _ \<Rightarrow> (1, w) | Inr cfg \<Rightarrow> step_status (r_each uninstall_one (ic_bins cfg)) w)"

definition no_install :: install_config where
  "no_install =
     \<lparr>ic_bins = [], ic_dist = [], ic_tags = [], ic_ldflags = [], ic_flags = [], ic_identity = [], ic_bundle = [],
      ic_timestamp = [], ic_entitlements = [], ic_pre = [], ic_post = []\<rparr>"

definition run_build_gate_command :: "install_context \<Rightarrow> (tool_world \<Rightarrow> int \<times> tool_world) \<Rightarrow> tool_world \<Rightarrow> int \<times> tool_world" where
  "run_build_gate_command ix gate =
     unless_reused ix ''build-gate'' no_install ''build-gate reused (no build input changed)''
       (\<lambda>w. case gate w of (code, w) \<Rightarrow> if code \<noteq> 0 then (code, w) else (0, record_reuse ix ''build-gate'' no_install w))"

text \<open>The gate of the three commands.\<close>

definition build_gate :: "install_context \<Rightarrow> oidc_codec \<Rightarrow> tool_world \<Rightarrow> int \<times> tool_world" where
  "build_gate ix x = run_build_gate x (run_build_check (ix_build ix))"

section \<open>Reuse means the same inputs and the same outputs\<close>

text \<open>Reading digests changes neither a file nor the environment nor the faults.\<close>

definition unread :: "tool_world \<Rightarrow> tool_world \<Rightarrow> bool" where
  "unread w w' \<longleftrightarrow> tw_files w' = tw_files w \<and> tw_environ w' = tw_environ w \<and> tw_fault w' = tw_fault w \<and>
     tw_run w' = tw_run w \<and> tw_ran w' = tw_ran w"

lemma unread_refl [simp]: "unread w w"
  by (simp add: unread_def)

lemma unread_trans: "unread u v \<Longrightarrow> unread v w \<Longrightarrow> unread u w"
  by (simp add: unread_def)

lemma unread_tick [simp]: "unread w (t_tick w)"
  by (simp add: unread_def t_tick_def)

definition digest_at :: "install_context \<Rightarrow> tool_world \<Rightarrow> string \<Rightarrow> string option" where
  "digest_at ix w p = map_option (\<lambda>s. hex_encode (rx_sha (ix_rx ix) s)) (tw_files w p)"

lemma digest_unread: "unread w w' \<Longrightarrow> digest_at ix w' = digest_at ix w"
  by (simp add: unread_def digest_at_def fun_eq_iff)

lemma file_digest_run:
  assumes "file_digest ix p w = (d, w')"
  shows "unread w w'" "d \<noteq> None \<Longrightarrow> d = digest_at ix w p" "tw_fault w = (\<lambda>_ _. False) \<Longrightarrow> d = digest_at ix w p"
  using assms by (auto simp: file_digest_def t_read_def digest_at_def t_fails_def split: if_splits option.splits)

lemma existing_files_unread: "existing_files found ps w = (fs, w') \<Longrightarrow> unread w w'"
proof (induction ps arbitrary: found w)
  case (Cons p ps)
  obtain b w1 where s: "t_stat p w = (b, w1)" by force
  have "unread w w1" using s by (auto simp: t_stat_def)
  then show ?case using Cons s by (auto intro: unread_trans)
qed simp

lemma read_stamps_run:
  assumes "read_stamps ix w = (s, w')"
  shows "unread w w'" "tw_fault w = (\<lambda>_ _. False) \<Longrightarrow>
    s = (case tw_files w reuse_stamp_file of None \<Rightarrow> None | Some t \<Rightarrow> ix_stamps ix t)"
  using assms by (auto simp: read_stamps_def t_read_def t_fails_def split: if_splits option.splits)

lemma mismatch_run:
  assumes "tw_fault w = (\<lambda>_ _. False)" "[] \<notin> set ps" "first_output_mismatch ix recorded ps w = (p, w')"
  shows "p = [] \<longleftrightarrow> (\<forall>q \<in> set ps. digest_at ix w q = Some (map_get (map_of recorded) q))"
  using assms
proof (induction ps arbitrary: w)
  case (Cons q ps)
  obtain d v where d: "file_digest ix q w = (d, v)" by force
  note dr = file_digest_run [OF d]
  have v: "tw_fault v = (\<lambda>_ _. False)" "digest_at ix v = digest_at ix w"
    using dr(1) Cons.prems(1) digest_unread by (auto simp: unread_def)
  have dq: "digest_at ix w q = d" using dr(3) [OF Cons.prems(1)] by simp
  show ?case
  proof (cases "d = Some (map_get (map_of recorded) q)")
    case True
    then have "first_output_mismatch ix recorded ps v = (p, w')" using Cons.prems(3) d by simp
    from Cons.IH [OF v(1) _ this] show ?thesis using Cons.prems(2) v(2) dq True by simp
  next
    case False
    then have "p = q" using Cons.prems(3) d by (auto split: option.splits if_splits)
    then show ?thesis using False Cons.prems(2) dq by auto
  qed
qed simp

lemma digest_outputs_run:
  assumes "digest_outputs ix ps got w = (Some outs, w')" "distinct (map fst got @ ps)"
  shows "unread w w'" "map fst outs = map fst got @ ps"
    "map_of outs = (\<lambda>p. if p \<in> set ps then digest_at ix w p else map_of got p)" "\<forall>p \<in> set ps. digest_at ix w p \<noteq> None"
proof -
  have "unread w w' \<and> map fst outs = map fst got @ ps \<and>
    map_of outs = (\<lambda>p. if p \<in> set ps then digest_at ix w p else map_of got p) \<and> (\<forall>p \<in> set ps. digest_at ix w p \<noteq> None)"
    using assms
  proof (induction ps arbitrary: got w)
    case (Cons q ps)
    obtain d v where d: "file_digest ix q w = (Some d, v)" and rest: "digest_outputs ix ps (AList.update q d got) v = (Some outs, w')"
      using Cons.prems(1) by (auto split: prod.splits option.splits)
    note dr = file_digest_run(1,2) [OF d]
    have "distinct (map fst (AList.update q d got) @ ps)" using Cons.prems(2) by (auto simp: AList.update_keys)
    from Cons.IH [OF rest this] dr digest_unread [OF dr(1), of ix] Cons.prems(2) show ?case
      by (auto simp: AList.update_keys AList.update_conv' fun_eq_iff intro: unread_trans)
  qed simp
  then show "unread w w'" "map fst outs = map fst got @ ps"
    "map_of outs = (\<lambda>p. if p \<in> set ps then digest_at ix w p else map_of got p)" "\<forall>p \<in> set ps. digest_at ix w p \<noteq> None"
    by blast+
qed

lemma record_reuse_wrote:
  assumes "reuse_enabled w" "record_reuse ix mode cfg w = w1" "reuse_fingerprint ix mode cfg w = (f, v)"
    "tw_files w1 reuse_stamp_file \<noteq> tw_files v reuse_stamp_file" "distinct (reuse_outputs mode cfg)"
  shows "\<exists>g outs stamps. f = Some g \<and> map fst outs = reuse_outputs mode cfg \<and>
    (\<forall>p \<in> set (reuse_outputs mode cfg). map_of outs p = digest_at ix v p \<and> digest_at ix v p \<noteq> None) \<and>
    tw_files w1 reuse_stamp_file = Some (ix_encode ix (AList.update mode
      \<lparr>rr_version = reuse_stamp_version, rr_fingerprint = g, rr_outputs = outs\<rparr> stamps))"
proof -
  obtain g where g: "f = Some g" using assms(1-4) by (cases f) (auto simp: record_reuse_def)
  obtain d u where d: "digest_outputs ix (reuse_outputs mode cfg) [] v = (d, u)" by force
  have failed: "unread a b" if "digest_outputs ix ps got a = (None, b)" for ps got a b
    using that
    by (induction ps arbitrary: got a)
      (auto split: prod.splits option.splits intro: unread_trans dest: file_digest_run(1))
  have "d \<noteq> None"
    using assms(1-4) g d failed [of "reuse_outputs mode cfg" "[]" v u] by (cases d) (auto simp: record_reuse_def unread_def)
  then obtain outs where o': "d = Some outs" by blast
  note run = digest_outputs_run [OF d [unfolded o']]
  have w1: "w1 = write_reuse_stamp ix mode \<lparr>rr_version = reuse_stamp_version, rr_fingerprint = g, rr_outputs = outs\<rparr> u"
    using assms(1-3) g d o' by (simp add: record_reuse_def)
  obtain before u1 where b: "read_stamps ix u = (before, u1)" by force
  have "tw_files u1 = tw_files v" using run(1) read_stamps_run(1) [OF b] assms(5) by (simp add: unread_def)
  then have "\<exists>stamps. tw_files w1 reuse_stamp_file = Some (ix_encode ix (AList.update mode
      \<lparr>rr_version = reuse_stamp_version, rr_fingerprint = g, rr_outputs = outs\<rparr> stamps))"
    using w1 b assms(4) by (auto simp: write_reuse_stamp_def t_try_def t_set_def t_tick_def Let_def split: if_splits)
  then show ?thesis using g run assms(5) by auto
qed

section \<open>An install passes the gate and compiles everything\<close>

definition extends :: "tool_world \<Rightarrow> tool_world \<Rightarrow> bool" where
  "extends w w' \<longleftrightarrow> tw_run w' = tw_run w \<and> tw_environ w' = tw_environ w \<and> (\<exists>cs. tw_ran w' = tw_ran w @ cs)"

lemma extends_refl [simp]: "extends w w"
  by (simp add: extends_def)

lemma extends_trans: "extends u v \<Longrightarrow> extends v w \<Longrightarrow> extends u w"
  by (auto simp: extends_def)

lemma extends_keeps: "runs_only P m \<Longrightarrow> m w = (r, w') \<Longrightarrow> extends w w'"
  using keepsD by (fastforce simp: extends_def)

lemma extends_unread: "unread w w' \<Longrightarrow> extends w w'"
  by (simp add: unread_def extends_def)

lemma extends_updates [simp]:
  "extends w (t_tick w)" "extends w (t_println s w)" "extends w (w\<lparr>tw_platform := t\<rparr>)" "extends w (w\<lparr>tw_files := f\<rparr>)"
  by (simp_all add: extends_def t_tick_def t_println_def t_print_def)

text \<open>A command that ran with an environment and succeeded, after everything \<open>w\<close> records.\<close>

definition ran_in :: "tool_world \<Rightarrow> tool_world \<Rightarrow> string list \<Rightarrow> string list \<Rightarrow> bool" where
  "ran_in w w' env argv \<longleftrightarrow> (\<exists>n out ws. length (tw_ran w) \<le> n \<and> n < length (tw_ran w') \<and>
     tw_ran w' ! n = (env, argv) \<and> tw_run w' n argv = Exited 0 out ws)"

lemma ran_in_extends: "ran_in u v env argv \<Longrightarrow> extends u0 u \<Longrightarrow> extends v v' \<Longrightarrow> ran_in u0 v' env argv"
  unfolding ran_in_def extends_def by (elim exE conjE) (intro exI conjI, auto simp: nth_append)

lemma run_process_ran_in:
  "run_process name args extra w = (Inr (), w') \<Longrightarrow>
   ran_in w w' (if extra = [] then tw_environ w else dedup_env (tw_environ w @ extra)) (name # args)"
  by (auto simp: run_process_def r_tool_def run_command_def t_exec_def t_tick_def t_print_def Let_def ran_in_def
      split: prod.splits sum.splits cmd_outcome.splits if_splits)

text \<open>The environment of a compile for a platform: the pairs of the target, and no cgo when it is a cross target.\<close>

definition compile_env :: "platform_target \<Rightarrow> tool_world \<Rightarrow> string list" where
  "compile_env t w =
     (let extra = compile_platform_env (w\<lparr>tw_platform := t\<rparr>)
      in if extra = [] then tw_environ w else dedup_env (tw_environ w @ extra))"

definition steady :: "'a release_step \<Rightarrow> bool" where
  "steady m \<longleftrightarrow> (\<forall>w r w'. m w = (r, w') \<longrightarrow> extends w w' \<and> tw_platform w' = tw_platform w \<and> tw_host w' = tw_host w)"

lemma steadyD: "steady m \<Longrightarrow> m w = (r, w') \<Longrightarrow> extends w w' \<and> tw_platform w' = tw_platform w \<and> tw_host w' = tw_host w"
  by (simp add: steady_def)

lemma steady_process: "steady (run_process name args extra)"
  by (auto simp: steady_def extends_def run_process_def r_tool_def run_command_def t_exec_def t_tick_def t_print_def Let_def
      split: prod.splits sum.splits cmd_outcome.splits if_splits)

lemma steady_return: "steady (r_return a)"
  by (simp add: steady_def r_return_def)

lemma steady_mkdir: "steady (r_mkdir p)"
  by (auto simp: steady_def r_mkdir_def t_try_def t_tick_def extends_def)

lemma steady_bind: "steady m \<Longrightarrow> (\<And>a. steady (f a)) \<Longrightarrow> steady (r_bind m f)"
  by (auto simp: steady_def r_bind_def split: prod.splits sum.splits) (meson extends_trans | metis)+

lemma steady_map: "(\<And>x. steady (f x)) \<Longrightarrow> steady (r_map f xs)"
  by (induction xs) (auto intro!: steady_bind steady_return)

lemma steady_sign: "steady (sign_binary cfg bin)"
proof -
  have "steady (r_bind (run_process ''codesign'' (codesign_args cfg bin) []) (\<lambda>_.
           r_bind (run_process ''codesign'' [''--verify'', bin] []) (\<lambda>_. r_return True)))"
    by (intro steady_bind steady_process steady_return)
  then show ?thesis by (auto simp: steady_def sign_binary_def)
qed

lemma steady_build_one: "steady (build_one cfg b)"
proof -
  have "steady (r_bind (run_process ''go'' (compile_args cfg b) extra) (\<lambda>_. sign_binary cfg (path_join [ic_dist cfg, bs_name b])))" for extra
    by (intro steady_bind steady_process steady_sign)
  then show ?thesis by (auto simp: steady_def build_one_def)
qed

lemma steady_build_all: "steady (build_all cfg)"
  unfolding build_all_def
  by (intro steady_bind steady_mkdir steady_map steady_build_one)
    (simp add: steady_def t_println_def t_print_def extends_def)

lemma compile_env_same:
  "extends w w' \<Longrightarrow> tw_host w' = tw_host w \<Longrightarrow> compile_env t w' = compile_env t w"
  by (simp add: compile_env_def compile_platform_env_def extends_def)

lemma build_one_ran:
  assumes "build_one cfg b w = (Inr s, w')"
  shows "ran_in w w' (compile_env (tw_platform w) w) (''go'' # compile_args cfg b)"
proof -
  obtain w1 where c: "run_process ''go'' (compile_args cfg b) (compile_platform_env w) w = (Inr (), w1)"
    and s: "sign_binary cfg (path_join [ic_dist cfg, bs_name b]) w1 = (Inr s, w')"
    using assms by (auto simp: build_one_def r_bind_Inr)
  show ?thesis
    using ran_in_extends [OF run_process_ran_in [OF c] extends_refl] steadyD [OF steady_sign s]
    by (simp add: compile_env_def Let_def)
qed

lemma build_map_ran:
  assumes "r_map (build_one cfg) bs w = (Inr signed, w')" "b \<in> set bs"
  shows "ran_in w w' (compile_env (tw_platform w) w) (''go'' # compile_args cfg b)"
  using assms
proof (induction bs arbitrary: w signed)
  case (Cons c bs)
  obtain s w1 rest where c: "build_one cfg c w = (Inr s, w1)" and r: "r_map (build_one cfg) bs w1 = (Inr rest, w')"
    using Cons.prems(1) by (auto simp: r_bind_Inr r_return_def)
  note sc = steadyD [OF steady_build_one c] and sr = steadyD [OF steady_map [OF steady_build_one] r]
  show ?case
  proof (cases "b = c")
    case True
    then show ?thesis using ran_in_extends [OF build_one_ran [OF c] extends_refl] sr by blast
  next
    case False
    then have "ran_in w1 w' (compile_env (tw_platform w1) w1) (''go'' # compile_args cfg b)"
      using Cons.IH [OF r] Cons.prems(2) by simp
    then show ?thesis using ran_in_extends sc compile_env_same [of w w1] extends_refl by metis
  qed
qed simp

lemma build_all_ran:
  assumes "build_all cfg w = (Inr (), w')" "b \<in> set (ic_bins cfg)"
  shows "ran_in w w' (compile_env (tw_platform w) w) (''go'' # compile_args cfg b)"
proof -
  obtain w1 signed w2 where m: "r_mkdir (ic_dist cfg) w = (Inr (), w1)" and r: "r_map (build_one cfg) (ic_bins cfg) w1 = (Inr signed, w2)"
    and w': "w' = (if True \<in> set signed then t_println ''codesign   ok'' w2 else w2)"
    using assms(1) by (auto simp: build_all_def r_bind_Inr)
  note sm = steadyD [OF steady_mkdir m]
  have "extends w2 w'" using w' by simp
  then have "ran_in w w' (compile_env (tw_platform w1) w1) (''go'' # compile_args cfg b)"
    using ran_in_extends [OF build_map_ran [OF r assms(2)]] sm by blast
  then show ?thesis using sm compile_env_same [of w w1] by simp
qed

lemma platforms_zero:
  assumes "run_platforms fn ts status w = (0, w')"
    and "\<And>v code v'. fn v = (code, v') \<Longrightarrow> extends v v' \<and> tw_host v' = tw_host v"
  shows "status = 0 \<and> extends w w' \<and> tw_host w' = tw_host w"
  using assms(1)
proof (induction ts arbitrary: status w)
  case (Cons t ts)
  obtain code v where f: "fn (w\<lparr>tw_platform := t\<rparr>) = (code, v)" by force
  have "run_platforms fn ts (if code \<noteq> 0 then code else status) (v\<lparr>tw_platform := no_platform\<rparr>) = (0, w')"
    using Cons.prems f by simp
  from Cons.IH [OF this] assms(2) [OF f] show ?case
    by (auto simp: extends_def split: if_splits)
qed simp

lemma build_status:
  assumes "step_status (build_all cfg) v = (code, v')"
  shows "extends v v' \<and> tw_host v' = tw_host v"
    "code = 0 \<Longrightarrow> b \<in> set (ic_bins cfg) \<Longrightarrow> ran_in v v' (compile_env (tw_platform v) v) (''go'' # compile_args cfg b)"
  using assms steadyD [OF steady_build_all, of cfg v] build_all_ran [of cfg v v' b]
  by (auto simp: step_status_def split: prod.splits sum.splits)

lemma platforms_built:
  assumes "run_platforms (step_status (build_all cfg)) ts status w = (0, w')" "t \<in> set ts" "b \<in> set (ic_bins cfg)"
  shows "ran_in w w' (compile_env t w) (''go'' # compile_args cfg b)"
  using assms(1,2)
proof (induction ts arbitrary: status w)
  case (Cons s ts)
  obtain code v where f: "step_status (build_all cfg) (w\<lparr>tw_platform := s\<rparr>) = (code, v)" by force
  let ?v = "v\<lparr>tw_platform := no_platform\<rparr>"
  have r: "run_platforms (step_status (build_all cfg)) ts (if code \<noteq> 0 then code else status) ?v = (0, w')"
    using Cons.prems f by simp
  have z: "(if code \<noteq> 0 then code else status) = 0 \<and> extends ?v w' \<and> tw_host w' = tw_host ?v"
    by (rule platforms_zero [OF r]) (rule build_status(1))
  have e: "extends w ?v" "extends v w'" "tw_host ?v = tw_host w"
    using build_status(1) [OF f] z by (auto simp: extends_def)
  show ?case
  proof (cases "t = s")
    case True
    have "code = 0" using z by (auto split: if_splits)
    then have "ran_in (w\<lparr>tw_platform := s\<rparr>) v (compile_env s (w\<lparr>tw_platform := s\<rparr>)) (''go'' # compile_args cfg b)"
      using build_status(2) [OF f _ assms(3)] by simp
    then have "ran_in w w' (compile_env s (w\<lparr>tw_platform := s\<rparr>)) (''go'' # compile_args cfg b)"
      by (rule ran_in_extends) (simp_all add: e)
    then show ?thesis using True compile_env_same [of w "w\<lparr>tw_platform := s\<rparr>" s] by simp
  next
    case False
    then have "ran_in ?v w' (compile_env t ?v) (''go'' # compile_args cfg b)" using Cons.IH [OF r] Cons.prems(2) by simp
    then have "ran_in w w' (compile_env t ?v) (''go'' # compile_args cfg b)"
      by (rule ran_in_extends) (simp_all add: e)
    then show ?thesis using compile_env_same [OF e(1,3)] by simp
  qed
qed simp

lemma across_built:
  assumes "run_across_platforms (step_status (build_all cfg)) w = (0, w')" "b \<in> set (ic_bins cfg)"
    "t \<in> set (if platform_matrix w = [] then [tw_platform w] else platform_matrix w)"
  shows "ran_in w w' (compile_env t w) (''go'' # compile_args cfg b)"
  using assms platforms_built [OF _ _ assms(2)] build_status(2) [OF _ _ assms(2)]
  by (auto simp: run_across_platforms_def split: if_splits)

lemma steady_hook: "steady (run_install_hook command)"
  by (simp add: run_install_hook_def steady_return steady_process)

lemma extends_stat: "t_stat p w = (b, w') \<Longrightarrow> extends w w'"
  by (auto simp: t_stat_def)

lemma extends_set: "t_set c p v w = (b, w') \<Longrightarrow> extends w w'"
  by (auto simp: t_set_def t_tick_def extends_def split: if_splits)

lemma extends_try: "t_try c w = (b, w') \<Longrightarrow> extends w w'"
  by (auto simp: t_try_def)

lemma extends_try_then: "extends w (snd (t_try c w))"
  by (simp add: t_try_def)

lemma extends_rename: "t_rename a b w = (r, w') \<Longrightarrow> extends w w'"
  by (auto simp: t_rename_def t_tick_def extends_def split: if_splits)

lemma extends_ancestor: "existing_ancestor dir w = (a, w') \<Longrightarrow> extends w w'"
proof (induction dir w rule: existing_ancestor.induct)
  case (1 dir w)
  obtain b v where s: "t_stat dir w = (b, v)" by force
  show ?case
  proof (cases "b \<or> path_dir dir = dir")
    case True
    then show ?thesis using 1(2) s extends_stat [OF s] by (subst (asm) existing_ancestor.simps) (auto split: bool.splits)
  next
    case False
    then have "existing_ancestor (path_dir dir) v = (a, w')" using 1(2) s by (subst (asm) existing_ancestor.simps) auto
    then show ?thesis using 1(1) [OF s [symmetric]] False extends_stat [OF s] extends_trans by blast
  qed
qed

lemma extends_writable: "dir_writable dir w = (b, w') \<Longrightarrow> extends w w'"
  by (auto simp: dir_writable_def Let_def split: prod.splits option.splits if_splits
      dest!: extends_ancestor extends_try intro: extends_trans extends_trans [OF _ extends_trans [OF _ extends_try_then]])

lemma extends_atomic: "atomic_install ix src target w = (r, w') \<Longrightarrow> extends w w'"
  by (auto simp: atomic_install_def drop_temp_def t_read_def t_set_def t_try_def t_rename_def t_tick_def extends_def Let_def
      split: prod.splits file_read.splits option.splits if_splits)

text \<open>The target holds the whole of the built binary, or is as it was.\<close>

lemma atomic_install_whole:
  assumes "atomic_install ix src target w = (r, w')" "\<And>v. temp_name ix target v \<noteq> target"
  shows "if r = Inr () then tw_files w src \<noteq> None \<and> tw_files w' target = tw_files w src
         else tw_files w' target = tw_files w target"
  using assms assms(2) [THEN not_sym]
  by (auto simp: atomic_install_def drop_temp_def t_read_def t_set_def t_try_def t_rename_def t_tick_def Let_def
      split: prod.splits file_read.splits option.splits if_splits)

lemma any_runs: "(\<And>w r w'. m w = (r, w') \<Longrightarrow> extends w w') \<Longrightarrow> runs_only (\<lambda>_. True) m"
  by (rule keepsI) (fastforce simp: extends_def)

lemma keeps_hook: "runs_only (\<lambda>_. True) (run_install_hook command)"
  by (rule any_runs) (use steadyD [OF steady_hook] in blast)

lemma keeps_install_one: "runs_only (\<lambda>_. True) (install_one ix cfg b)"
proof (rule any_runs)
  fix w r w' assume run: "install_one ix cfg b w = (r, w')"
  let ?src = "path_join [ic_dist cfg, bs_name b]" and ?target = "path_join [bs_dir b, bs_name b]"
  obtain ok v where d: "dir_writable (bs_dir b) w = (ok, v)" by force
  have k: "runs_only (\<lambda>_. True) (r_bind (r_mkdir (bs_dir b)) (\<lambda>_. atomic_install ix ?src ?target))"
    "runs_only (\<lambda>_. True) (r_bind (run_process ''sudo'' [''install'', ''-d'', bs_dir b] [])
                (\<lambda>_. run_process ''sudo'' [''install'', ''-m'', ''0755'', ?src, ?target] []))"
    by (intro keeps_intros any_runs extends_atomic; simp)+
  have "extends v w'"
    using run d by (cases ok) (auto simp: install_one_def Let_def dest: extends_keeps [OF k(1)] extends_keeps [OF k(2)])
  then show "extends w w'" using extends_writable [OF d] extends_trans by blast
qed

lemma extends_install_all:
  assumes "install_all ix cfg w = (r, w')"
  shows "extends w w'"
proof -
  have "runs_only (\<lambda>_. True) (install_all ix cfg)"
    unfolding install_all_def
  proof (rule keeps_bind [OF keeps_hook], rule any_runs)
    fix w r w'
    assume run: "(case r_each (install_one ix cfg) (ic_bins cfg) w of (installed, w) \<Rightarrow>
        (case run_install_hook (ic_post cfg) w of
           (Inl e, w) \<Rightarrow> (Inl (case installed of Inl e0 \<Rightarrow> JoinedErrors e0 e | Inr _ \<Rightarrow> e), w)
         | (Inr _, w) \<Rightarrow> (installed, w))) = (r, w')"
    obtain i v where i: "r_each (install_one ix cfg) (ic_bins cfg) w = (i, v)" by force
    obtain h u where h: "run_install_hook (ic_post cfg) v = (h, u)" by force
    have "extends w v" by (rule extends_keeps [OF keeps_each i]) (rule keeps_install_one)
    moreover have "extends v u" by (rule extends_keeps [OF keeps_hook h])
    ultimately show "extends w w'" using run i h extends_trans by (auto split: sum.splits)
  qed
  then show ?thesis using assms by (rule extends_keeps)
qed

lemma extends_fingerprint_files: "fingerprint_files ix label ps w = (r, w') \<Longrightarrow> unread w w'"
  by (induction ps arbitrary: w r)
    (auto split: prod.splits option.splits intro: unread_trans dest: file_digest_run(1))

lemma fingerprint_run:
  assumes "reuse_fingerprint ix mode cfg w = (f, w')"
  shows "extends w w' \<and> tw_fault w' = tw_fault w"
proof -
  obtain s w1 where s: "reuse_source_files ix w = (s, w1)" by force
  have "extends w w1 \<and> tw_fault w1 = tw_fault w"
    using s by (auto simp: reuse_source_files_def t_output_def t_exec_def t_tick_def extends_def Let_def
        split: prod.splits sum.splits cmd_outcome.splits if_splits)
  obtain e w2 where e: "engine_digest ix w1 = (e, w2)" by force
  have e': "unread w1 w2" using e file_digest_run(1) by (auto simp: engine_digest_def split: option.splits)
  obtain ss w3 where ss: "fingerprint_files ix ''source'' (the s) w2 = (ss, w3)" by force
  obtain cs w4 where cs: "existing_config_files ix w3 = (cs, w4)" by force
  have c': "unread w3 w4" using cs existing_files_unread by (auto simp: existing_config_files_def Let_def split: prod.splits)
  obtain ls w5 where ls: "fingerprint_files ix ''config'' cs w4 = (ls, w5)" by force
  have "w' \<in> {w1, w2, w3, w5}"
    using assms s e ss cs ls by (auto simp: reuse_fingerprint_def split: option.splits)
  moreover have "unread w1 w3" "unread w1 w5"
    using e' c' extends_fingerprint_files [OF ss] extends_fingerprint_files [OF ls] unread_trans by blast+
  ultimately have "unread w1 w'" using e' by auto
  with \<open>extends w w1 \<and> tw_fault w1 = tw_fault w\<close> show ?thesis
    using extends_trans extends_unread by (auto simp: unread_def)
qed

lemmas extends_fingerprint = fingerprint_run [THEN conjunct1]
lemmas fingerprint_faults = fingerprint_run [THEN conjunct2]

lemma extends_record: "extends w (record_reuse ix mode cfg w)"
proof -
  obtain f v where f: "reuse_fingerprint ix mode cfg w = (f, v)" by force
  obtain d u where d: "digest_outputs ix (reuse_outputs mode cfg) [] v = (d, u)" by force
  have "unread a b" if "digest_outputs ix ps got a = (r, b)" for ps got a b r
    using that
    by (induction ps arbitrary: got a)
      (auto split: prod.splits option.splits intro: unread_trans dest: file_digest_run(1))
  from extends_unread [OF this [OF d]] have u: "extends v u" .
  have stamp: "extends u (write_reuse_stamp ix mode rec u)" for rec
  proof -
    obtain s u1 where s: "read_stamps ix u = (s, u1)" by force
    have "extends u1 (write_reuse_stamp ix mode rec u)"
      using s by (auto simp: write_reuse_stamp_def t_try_def t_set_def t_tick_def extends_def Let_def)
    then show ?thesis using extends_unread [OF read_stamps_run(1) [OF s]] extends_trans by blast
  qed
  show ?thesis
    using f d extends_fingerprint [OF f] u stamp extends_trans
    by (auto simp: record_reuse_def split: option.splits)
qed

text \<open>
  C30. A build is reused exactly when nothing changed. After a run that stamped its outputs, and with the stamp
  still in place, a later run is taken to be satisfied if and only if the fingerprint of its inputs is the one
  recorded and every output has the digest it had then, no output missing. Assumed: the JSON of the stamps reads
  back what was written, the files of the later run can be read, no two outputs have one path.
\<close>

theorem reuse_iff_unchanged:
  assumes "\<And>s. ix_stamps ix (ix_encode ix s) = Some s"
    and "reuse_enabled w" "record_reuse ix mode cfg w = w1" "reuse_fingerprint ix mode cfg w = (f, v)"
    and "tw_files w1 reuse_stamp_file \<noteq> tw_files v reuse_stamp_file"
    and "tw_files w2 reuse_stamp_file = tw_files w1 reuse_stamp_file" "reuse_enabled w2" "tw_fault w2 = (\<lambda>_ _. False)"
    and "reuse_fingerprint ix mode cfg (snd (read_stamps ix w2)) = (f2, v2)"
    and "distinct (reuse_outputs mode cfg)" "[] \<notin> set (reuse_outputs mode cfg)"
  shows "fst (reuse_satisfied ix mode cfg w2) \<longleftrightarrow>
    f2 = f \<and> (\<forall>p \<in> set (reuse_outputs mode cfg). \<exists>s s'. tw_files v p = Some s \<and> tw_files v2 p = Some s' \<and>
      hex_encode (rx_sha (ix_rx ix) s') = hex_encode (rx_sha (ix_rx ix) s))"
proof -
  let ?ps = "reuse_outputs mode cfg"
  obtain g outs stamps where g: "f = Some g" "map fst outs = ?ps"
    "\<forall>p \<in> set ?ps. map_of outs p = digest_at ix v p \<and> digest_at ix v p \<noteq> None"
    "tw_files w1 reuse_stamp_file = Some (ix_encode ix (AList.update mode
      \<lparr>rr_version = reuse_stamp_version, rr_fingerprint = g, rr_outputs = outs\<rparr> stamps))"
    using record_reuse_wrote [OF assms(2-5,10)] by blast
  let ?r = "\<lparr>rr_version = reuse_stamp_version, rr_fingerprint = g, rr_outputs = outs\<rparr>"
  obtain u where "read_stamps ix w2 = (Some (AList.update mode ?r stamps), u)"
    using read_stamps_run(2) [of ix w2, OF _ assms(8)] assms(1,6) g(4) by (metis option.simps(5) prod.collapse)
  then have stamp: "read_reuse_stamp ix mode w2 = (Some ?r, u)" and u: "u = snd (read_stamps ix w2)"
    by (simp_all add: read_reuse_stamp_def AList.update_Some_unfold)
  have len: "length outs = length ?ps" using g(2) by (metis length_map)
  obtain p v3 where m: "first_output_mismatch ix outs ?ps v2 = (p, v3)" by force
  have "tw_fault v2 = (\<lambda>_ _. False)"
    using fingerprint_faults [OF assms(9)] read_stamps_run(1) [of ix w2] assms(8) by (metis prod.collapse unread_def)
  note mm = mismatch_run [OF this assms(11) m]
  have same: "digest_at ix v2 q = Some (map_get (map_of outs) q) \<longleftrightarrow>
      (\<exists>s s'. tw_files v q = Some s \<and> tw_files v2 q = Some s' \<and>
         hex_encode (rx_sha (ix_rx ix) s') = hex_encode (rx_sha (ix_rx ix) s))" if "q \<in> set ?ps" for q
    using bspec [OF g(3) that] by (auto simp: digest_at_def map_get_def)
  have "fst (reuse_satisfied ix mode cfg w2) \<longleftrightarrow> f2 = f \<and> p = []"
    using assms(7,9) stamp u m len g(1)
    by (auto simp: reuse_satisfied_def outputs_unchanged_def Let_def split: option.splits)
  then show ?thesis using mm same by simp
qed

text \<open>
  C10. Nothing is installed unchecked. When \<open>go-mk install\<close> exits with zero, either the recorded run was found
  unchanged, or the gate returned zero and after it every declared binary was compiled, on every platform of the
  matrix with that platform's environment, each compile with success.
\<close>

theorem install_is_gated:
  assumes "run_install ix gate w = (0, w')"
  shows "\<exists>cfg v w1. load_install_config w = Inr cfg \<and>
    (reuse_satisfied ix ''install'' cfg w = (True, v) \<or>
     reuse_satisfied ix ''install'' cfg w = (False, v) \<and> gate v = (0, w1) \<and>
     (\<forall>t \<in> set (if platform_matrix w1 = [] then [tw_platform w1] else platform_matrix w1). \<forall>b \<in> set (ic_bins cfg).
        \<exists>n out ws. length (tw_ran w1) \<le> n \<and> n < length (tw_ran w') \<and>
          tw_ran w' ! n = (compile_env t w1, ''go'' # compile_args cfg b) \<and>
          tw_run w' n (''go'' # compile_args cfg b) = Exited 0 out ws))"
proof -
  obtain cfg where cfg: "load_install_config w = Inr cfg"
    using assms by (auto simp: run_install_def split: sum.splits)
  obtain reused v where r: "reuse_satisfied ix ''install'' cfg w = (reused, v)" by force
  show ?thesis
  proof (cases reused)
    case True
    show ?thesis
      by (rule exI [of _ cfg], rule exI [of _ v]) (simp add: cfg r True)
  next
    case False
    obtain code w1 where g: "gate v = (code, w1)" by force
    obtain built w2 where b: "run_across_platforms (step_status (build_all cfg)) w1 = (built, w2)" by force
    obtain i w3 where i: "install_all ix cfg w2 = (i, w3)" by force
    have run: "code = 0" "built = 0" "w' = record_reuse ix ''install'' cfg w3"
      using assms cfg r False g b i
      by (auto simp: run_install_def unless_reused_def gated_build_def split: if_splits sum.splits)
    have "extends w2 w'"
      using extends_trans [OF extends_install_all [OF i] extends_record] run(3) by simp
    then have "ran_in w1 w' (compile_env t w1) (''go'' # compile_args cfg c)"
      if "t \<in> set (if platform_matrix w1 = [] then [tw_platform w1] else platform_matrix w1)" "c \<in> set (ic_bins cfg)" for t c
      using ran_in_extends [OF across_built [OF b [unfolded run(2)] that(2,1)] extends_refl] by blast
    then show ?thesis
      by (intro exI [of _ cfg] exI [of _ v] exI [of _ w1]) (use cfg r False g run(1) in \<open>simp add: ran_in_def\<close>)
  qed
qed

section \<open>The byte stream of the inputs is unambiguous\<close>

lemma append_marker_eq:
  assumes "v @ c # r = u @ c # q" "c \<notin> set v" "c \<notin> set u"
  shows "v = u \<and> r = q"
  using assms
proof (induction v arbitrary: u)
  case Nil
  then show ?case by (cases u) auto
next
  case (Cons x v)
  then show ?case by (cases u) auto
qed

text \<open>What follows a line is nothing, or a label and its NUL.\<close>

definition headed :: "string \<Rightarrow> bool" where
  "headed s \<longleftrightarrow> s = [] \<or> (\<exists>l r. s = l @ CHR 0x00 # r \<and> CHR 0x00 \<notin> set l \<and> CHR 0x0A \<notin> set l)"

lemma headed_not_split:
  assumes "headed (a @ CHR 0x0A # s)" "CHR 0x00 \<notin> set a"
  shows False
proof -
  obtain l r where lr: "a @ CHR 0x0A # s = l @ CHR 0x00 # r" "CHR 0x00 \<notin> set l" "CHR 0x0A \<notin> set l"
    using assms(1) by (auto simp: headed_def)
  have "takeWhile (\<lambda>c. c \<noteq> CHR 0x00) (l @ CHR 0x00 # r) = l" using lr(2) by (subst takeWhile_append2) auto
  moreover have "takeWhile (\<lambda>c. c \<noteq> CHR 0x00) (a @ CHR 0x0A # s) = a @ CHR 0x0A # takeWhile (\<lambda>c. c \<noteq> CHR 0x00) s"
    using assms(2) by (subst takeWhile_append2) auto
  ultimately show False using lr by (metis in_set_conv_decomp)
qed

lemma line_end_unique:
  assumes "v @ CHR 0x0A # s = u @ CHR 0x0A # t" "CHR 0x00 \<notin> set v" "CHR 0x00 \<notin> set u" "headed s" "headed t"
  shows "v = u \<and> s = t"
  using assms(1-3)
proof (induction v arbitrary: u)
  case Nil
  then show ?case using headed_not_split [of _ t] assms(4) by (cases u) auto
next
  case (Cons x v)
  then show ?case using headed_not_split [of v s] assms(5) by (cases u) auto
qed

lemma headed_lines: "(\<And>l v. (l, v) \<in> set xs \<Longrightarrow> CHR 0x00 \<notin> set l \<and> CHR 0x0A \<notin> set l) \<Longrightarrow>
    headed (concat (map (\<lambda>(l, v). fingerprint_line l v) xs))"
proof (cases xs)
  case (Cons x ys)
  assume a: "\<And>l v. (l, v) \<in> set xs \<Longrightarrow> CHR 0x00 \<notin> set l \<and> CHR 0x0A \<notin> set l"
  obtain l v where x: "x = (l, v)" by force
  show ?thesis
    unfolding headed_def Cons x
    by (rule disjI2, rule exI [of _ l]) (use a Cons x in \<open>auto simp: fingerprint_line_def\<close>)
qed (simp add: headed_def)

text \<open>
  No two lists of inputs have one byte stream, newlines in values included: labels hold no NUL and no
  newline, and values, being environment entries and paths, hold no NUL.
\<close>

theorem fingerprint_unambiguous:
  assumes "\<And>l v. (l, v) \<in> set xs \<union> set ys \<Longrightarrow> CHR 0x00 \<notin> set l \<and> CHR 0x0A \<notin> set l \<and> CHR 0x00 \<notin> set v"
  shows "concat (map (\<lambda>(l, v). fingerprint_line l v) xs) = concat (map (\<lambda>(l, v). fingerprint_line l v) ys) \<longleftrightarrow> xs = ys"
  using assms
proof (induction xs arbitrary: ys)
  case Nil
  then show ?case by (cases ys) (auto simp: fingerprint_line_def)
next
  case (Cons x xs)
  obtain l v where x: "x = (l, v)" by force
  show ?case
  proof (cases ys)
    case Nil
    then show ?thesis by (simp add: x fingerprint_line_def)
  next
    case (Cons y zs)
    obtain m u where y: "y = (m, u)" by force
    let ?s = "\<lambda>zs. concat (map (\<lambda>(l, v). fingerprint_line l v) zs)"
    have clean: "CHR 0x00 \<notin> set l" "CHR 0x00 \<notin> set m" "CHR 0x00 \<notin> set v" "CHR 0x00 \<notin> set u"
      using Cons.prems [of l v] Cons.prems [of m u] x y Cons by auto
    have step: "v = u \<and> ?s xs = ?s zs" if "v @ CHR 0x0A # ?s xs = u @ CHR 0x0A # ?s zs"
      by (rule line_end_unique [OF that]) (use clean Cons.prems Cons in \<open>auto intro!: headed_lines\<close>)
    have "?s (x # xs) = ?s ys \<longleftrightarrow> l = m \<and> v = u \<and> ?s xs = ?s zs"
      using append_marker_eq [of l "CHR 0x00" "v @ CHR 0x0A # ?s xs" m "u @ CHR 0x0A # ?s zs"] clean step
      by (auto simp: x y Cons fingerprint_line_def)
    moreover have "?s xs = ?s zs \<longleftrightarrow> xs = zs"
      by (rule Cons.IH) (use Cons.prems Cons in auto)
    ultimately show ?thesis by (simp add: x y Cons)
  qed
qed

section \<open>Instances\<close>

text \<open>A concrete coding of the stamps that reads back what it wrote.\<close>

definition coded :: "string list \<Rightarrow> string" where
  "coded ss = concat (map (\<lambda>s. concat (map (\<lambda>c. [CHR ''-'', c]) s) @ ''.'') ss)"

fun decoded :: "string \<Rightarrow> string \<Rightarrow> string list" where
  "decoded cur [] = []"
| "decoded cur [x] = [cur]"
| "decoded cur (x # c # r) = (if x = CHR ''.'' then cur # decoded [] (c # r) else decoded (cur @ [c]) r)"

lemma decoded_coded: "decoded [] (coded ss) = ss"
proof -
  have one: "decoded cur (concat (map (\<lambda>c. [CHR ''-'', c]) s) @ CHR ''.'' # r) = (cur @ s) # decoded [] r" for cur s r
    by (induction s arbitrary: cur) (cases r; auto)+
  show ?thesis using one [of "[]"] by (induction ss) (simp_all add: coded_def)
qed

fun paired :: "string list \<Rightarrow> (string \<times> string) list" where
  "paired (a # b # r) = (a, b) # paired r" | "paired _ = []"

lemma paired_flat: "paired (concat (map (\<lambda>(a, b). [a, b]) ps)) = ps"
  by (induction ps) auto

definition sample_encode :: "(string \<times> reuse_record) list \<Rightarrow> string" where
  "sample_encode ss = coded (map (\<lambda>(m, r). coded (m # rr_version r # rr_fingerprint r #
     concat (map (\<lambda>(a, b). [a, b]) (rr_outputs r)))) ss)"

definition sample_decode :: "string \<Rightarrow> (string \<times> reuse_record) list option" where
  "sample_decode t = Some (map (\<lambda>e. case decoded [] e of
     m # v # f # ps \<Rightarrow> (m, \<lparr>rr_version = v, rr_fingerprint = f, rr_outputs = paired ps\<rparr>)) (decoded [] t))"

lemma sample_decode_encode: "sample_decode (sample_encode ss) = Some ss"
  by (induction ss) (auto simp: sample_decode_def sample_encode_def decoded_coded paired_flat)

definition sample_install :: install_context where
  "sample_install =
     \<lparr>ix_build = sample_build\<lparr>bc_release := sample_release\<lparr>rx_sha := take 1\<rparr>\<rparr>, ix_packages = (\<lambda>_. Some []), ix_stamps = sample_decode, ix_encode = sample_encode,
      ix_self = Some ''self'', ix_strip = (\<lambda>s. s), ix_temp = (\<lambda>_ _. ''1'')\<rparr>"

text \<open>
  On a platform matrix every pass of \<open>go-mk install\<close> writes the same \<open>dist\<close> file, so what is installed is the binary
  of the last platform, the host's or not.
\<close>

definition matrix_tool :: tool_world where
  "matrix_tool = sample_tool\<lparr>tw_environ := [''BINARY=b'', ''INSTALL_DIR=/bin'', ''GO_MK_PLATFORMS=linux/amd64 windows/amd64''],
     tw_dirs := (\<lambda>d. d = ''/bin''),
     tw_run := (\<lambda>n _. Exited 0 [] [(''dist/b'', Some (if n = 0 then ''elf'' else ''exe''))])\<rparr>"

lemma matrix_installs_last_platform:
  "(case run_install sample_install (\<lambda>w. (0, w)) matrix_tool of (code, w) \<Rightarrow>
      code = 0 \<and> pt_goos (tw_host w) = ''linux'' \<and> tw_files w ''/bin/b'' = Some ''exe'' \<and> length (tw_ran w) = 2)"
  by code_simp

text \<open>A variable the prefixes do not name changes what the compiler does and not the fingerprint.\<close>

lemma cgo_flags_not_fingerprinted:
  "reuse_environment ix (w\<lparr>tw_environ := [''CGO_CFLAGS=-O0'', ''GOAMD64=v1'', ''GOTOOLCHAIN=go1.22.0'']\<rparr>) =
   reuse_environment ix (w\<lparr>tw_environ := [''CGO_CFLAGS=-O2'', ''GOAMD64=v3'', ''GOTOOLCHAIN=go1.24.0'']\<rparr>)"
  by (simp add: reuse_environment_def reuse_entry_def str_cut_def map_filter_simps reuse_env_prefixes_def)

definition reuse_tool :: tool_world where
  "reuse_tool = sample_tool\<lparr>tw_environ := [''GO_MK_REUSE_OUTPUTS=on'', ''BINARY=b''],
     tw_files := [''self'' \<mapsto> ''engine'', ''dist/b'' \<mapsto> ''elf'']\<rparr>"

definition built_config :: install_config where
  "built_config = no_install\<lparr>ic_bins := [\<lparr>bs_name = ''b'', bs_main = ''.'', bs_dir = ''/bin''\<rparr>], ic_dist := ''dist''\<rparr>"

definition stamped_tool :: "string option \<Rightarrow> tool_world" where
  "stamped_tool t = reuse_tool\<lparr>tw_files := (tw_files reuse_tool)(reuse_stamp_file := t)\<rparr>"

lemma existing_none:
  "(\<And>p. p \<in> set ps \<Longrightarrow> tw_files w p = None) \<Longrightarrow> tw_dirs w = (\<lambda>_. False) \<Longrightarrow> fst (existing_files found ps w) = found"
  by (induction ps arbitrary: w) (auto simp: t_stat_def t_tick_def)

lemma sample_fingerprint:
  assumes "tw_run w = tw_run sample_tool" "tw_fault w = (\<lambda>_ _. False)" "tw_dirs w = (\<lambda>_. False)"
    "tw_files w ''self'' = Some ''engine''" "list_all (\<lambda>p. tw_files w p = None) reuse_config_files"
  shows "\<exists>v. reuse_fingerprint sample_install mode cfg w = (Some (hex_encode ''v''), v) \<and> tw_files v = tw_files w \<and> tw_fault v = tw_fault w"
proof -
  obtain w1 where s: "reuse_source_files sample_install w = (Some [], w1)"
    and w1: "tw_files w1 = tw_files w" "tw_fault w1 = tw_fault w" "tw_dirs w1 = tw_dirs w"
    using assms(1) by (simp add: reuse_source_files_def t_output_def t_exec_def sample_tool_def t_tick_def Let_def sample_install_def
        decode_source_files_def sorted_unique_def sort_dedup_def apply_writes_def)
  obtain e w2 where e: "engine_digest sample_install w1 = (Some e, w2)" and w2: "tw_files w2 = tw_files w" "tw_fault w2 = tw_fault w" "tw_dirs w2 = tw_dirs w"
    using assms(2,4) w1 by (simp add: engine_digest_def sample_install_def file_digest_def t_read_def t_fails_def t_tick_def)
  obtain c w3 where x: "existing_files [] reuse_config_files w2 = (c, w3)" by force
  have "c = []" using existing_none [of reuse_config_files w2 "[]"] w2 assms(3,5) x by (simp add: list_all_iff)
  then have c: "existing_config_files sample_install w2 = ([], w3)"
    using x by (simp add: existing_config_files_def sample_install_def sample_build_def sample_release_def sorted_unique_def sort_dedup_def)
  have "take 1 (concat (fingerprint_head sample_install mode cfg e w3)) = ''v''"
    by (simp add: fingerprint_head_def fingerprint_line_def)
  then show ?thesis
    using s e c existing_files_unread [OF x] w2
    by (simp add: reuse_fingerprint_def unread_def sample_install_def)
qed

lemma reuse_tool_run:
  "\<exists>v. reuse_fingerprint sample_install mode cfg reuse_tool = (Some (hex_encode ''v''), v) \<and>
     tw_files v = tw_files reuse_tool \<and> tw_fault v = (\<lambda>_ _. False)"
proof -
  have "list_all (\<lambda>p. tw_files reuse_tool p = None) reuse_config_files" by (simp add: reuse_tool_def reuse_config_files_def)
  from sample_fingerprint [OF _ _ _ _ this] show ?thesis by (simp add: reuse_tool_def sample_tool_def)
qed

lemma stamped_tool_run:
  "\<exists>v. reuse_fingerprint sample_install mode cfg (snd (read_stamps sample_install (stamped_tool t))) = (Some (hex_encode ''v''), v) \<and>
     tw_files v = tw_files (stamped_tool t)"
proof -
  obtain s u where r: "read_stamps sample_install (stamped_tool t) = (s, u)" by force
  have "tw_dirs u = (\<lambda>_. False)"
    using r by (auto simp: read_stamps_def t_read_def t_tick_def stamped_tool_def reuse_tool_def sample_tool_def split: if_splits option.splits)
  moreover have "list_all (\<lambda>p. tw_files (stamped_tool t) p = None) reuse_config_files"
    by (simp add: stamped_tool_def reuse_tool_def reuse_config_files_def reuse_stamp_file_def)
  moreover have "tw_run (stamped_tool t) = tw_run sample_tool" "tw_fault (stamped_tool t) = (\<lambda>_ _. False)"
    "tw_files (stamped_tool t) ''self'' = Some ''engine''"
    by (simp_all add: stamped_tool_def reuse_tool_def sample_tool_def reuse_stamp_file_def)
  moreover have "tw_run u = tw_run (stamped_tool t)" "tw_fault u = tw_fault (stamped_tool t)" "tw_files u = tw_files (stamped_tool t)"
    using read_stamps_run(1) [OF r] by (simp_all add: unread_def)
  ultimately have "\<exists>v. reuse_fingerprint sample_install mode cfg u = (Some (hex_encode ''v''), v) \<and>
      tw_files v = tw_files u \<and> tw_fault v = tw_fault u"
    by (intro sample_fingerprint) simp_all
  then show ?thesis using r \<open>tw_files u = tw_files (stamped_tool t)\<close> by auto
qed

lemma build_outputs: "reuse_outputs ''build'' built_config = [''dist/b'']"
  by code_simp

lemma reuse_tool_enabled: "reuse_enabled reuse_tool"
  by code_simp

lemma reuse_tool_stamped: "tw_files (record_reuse sample_install ''build'' built_config reuse_tool) reuse_stamp_file \<noteq> None"
proof -
  obtain v where v: "reuse_fingerprint sample_install ''build'' built_config reuse_tool = (Some (hex_encode ''v''), v)"
    "tw_files v = tw_files reuse_tool" "tw_fault v = (\<lambda>_ _. False)" using reuse_tool_run by blast
  have "tw_files v ''dist/b'' = Some ''elf''" "tw_files v reuse_stamp_file = None"
    unfolding v(2) by (simp_all add: reuse_tool_def reuse_stamp_file_def)
  then show ?thesis
    by (simp add: record_reuse_def reuse_tool_enabled v(1,3) build_outputs file_digest_def t_read_def t_fails_def t_tick_def
        write_reuse_stamp_def read_stamps_def t_try_def t_set_def Let_def)
qed

theorem reuse_iff_unchanged_witness:
  "\<exists>t. tw_files (record_reuse sample_install ''build'' built_config reuse_tool) reuse_stamp_file = Some t \<and>
    fst (reuse_satisfied sample_install ''build'' built_config (stamped_tool (Some t)))"
proof -
  let ?ix = sample_install and ?cfg = built_config and ?w = reuse_tool
  obtain v where v: "reuse_fingerprint ?ix ''build'' ?cfg ?w = (Some (hex_encode ''v''), v)" "tw_files v = tw_files ?w"
    using reuse_tool_run by blast
  obtain t where t: "tw_files (record_reuse ?ix ''build'' ?cfg ?w) reuse_stamp_file = Some t" using reuse_tool_stamped by blast
  let ?u = "stamped_tool (Some t)"
  obtain v2 where v2: "reuse_fingerprint ?ix ''build'' ?cfg (snd (read_stamps ?ix ?u)) = (Some (hex_encode ''v''), v2)" "tw_files v2 = tw_files ?u"
    using stamped_tool_run by blast
  have "fst (reuse_satisfied ?ix ''build'' ?cfg ?u) \<longleftrightarrow>
    Some (hex_encode ''v'') = Some (hex_encode ''v'') \<and>
    (\<forall>p \<in> set (reuse_outputs ''build'' ?cfg). \<exists>s s'. tw_files v p = Some s \<and> tw_files v2 p = Some s' \<and>
      hex_encode (rx_sha (ix_rx ?ix) s') = hex_encode (rx_sha (ix_rx ?ix) s))"
  proof (rule reuse_iff_unchanged [OF _ _ refl v(1) _ _ _ _ v2(1)])
    show "ix_stamps ?ix (ix_encode ?ix s) = Some s" for s by (simp add: sample_install_def sample_decode_encode)
    show "reuse_enabled ?w" by (rule reuse_tool_enabled)
    then show "reuse_enabled ?u" by (simp add: reuse_enabled_def stamped_tool_def)
    show "tw_files (record_reuse ?ix ''build'' ?cfg ?w) reuse_stamp_file \<noteq> tw_files v reuse_stamp_file"
      using t v(2) by (simp add: reuse_tool_def reuse_stamp_file_def)
    show "tw_files ?u reuse_stamp_file = tw_files (record_reuse ?ix ''build'' ?cfg ?w) reuse_stamp_file"
      "tw_fault ?u = (\<lambda>_ _. False)"
      using t by (simp_all add: stamped_tool_def reuse_tool_def sample_tool_def)
    show "distinct (reuse_outputs ''build'' ?cfg)" "[] \<notin> set (reuse_outputs ''build'' ?cfg)" by (simp_all add: build_outputs)
  qed
  then show ?thesis
    using t v(2) v2(2) by (simp add: build_outputs stamped_tool_def reuse_tool_def reuse_stamp_file_def)
qed

lemma load_install_bins:
  "load_install_config w = Inr cfg \<Longrightarrow> parse_install_bins (tenv w ''INSTALL_BINS'') (trim_space (tenv w ''BINARY''))
     (env_trimmed w ''CMD'' ''.'') (env_trimmed w ''INSTALL_DIR'' (default_install_dir w)) = Inr (ic_bins cfg)"
  unfolding load_install_config_def Let_def
  by (cases "parse_install_bins (tenv w ''INSTALL_BINS'') (trim_space (tenv w ''BINARY''))
     (env_trimmed w ''CMD'' ''.'') (env_trimmed w ''INSTALL_DIR'' (default_install_dir w))") auto

lemma matrix_binaries:
  assumes "load_install_config matrix_tool = Inr cfg"
  shows "ic_bins cfg \<noteq> []" "\<not> reuse_enabled matrix_tool"
proof -
  have e: "tenv matrix_tool ''INSTALL_BINS'' = []" by code_simp
  have one: "bs \<noteq> []" if "parse_install_bins [] b m d = Inr bs" for b m d bs
    using that by (auto simp: parse_install_bins_def blank_def trim_space_def split: if_splits)
  show "ic_bins cfg \<noteq> []" by (rule one [OF load_install_bins [OF assms, unfolded e]])
  show "\<not> reuse_enabled matrix_tool" by code_simp
qed

theorem install_is_gated_witness:
  "\<exists>cfg n. load_install_config matrix_tool = Inr cfg \<and>
     snd (tw_ran (snd (run_install sample_install (\<lambda>w. (0, w)) matrix_tool)) ! n) = ''go'' # compile_args cfg (hd (ic_bins cfg))"
proof -
  obtain code w' where run: "run_install sample_install (\<lambda>w. (0, w)) matrix_tool = (code, w')" by force
  have "code = 0" using matrix_installs_last_platform run by simp
  from install_is_gated [OF run [unfolded this]] obtain cfg v w1 where c: "load_install_config matrix_tool = Inr cfg"
    and r: "reuse_satisfied sample_install ''install'' cfg matrix_tool = (True, v) \<or>
      (\<forall>t \<in> set (if platform_matrix w1 = [] then [tw_platform w1] else platform_matrix w1). \<forall>b \<in> set (ic_bins cfg).
        \<exists>n out ws. length (tw_ran w1) \<le> n \<and> n < length (tw_ran w') \<and>
          tw_ran w' ! n = (compile_env t w1, ''go'' # compile_args cfg b) \<and>
          tw_run w' n (''go'' # compile_args cfg b) = Exited 0 out ws)" by blast
  have "hd (ic_bins cfg) \<in> set (ic_bins cfg)" using matrix_binaries(1) [OF c] by simp
  moreover obtain t where "t \<in> set (if platform_matrix w1 = [] then [tw_platform w1] else platform_matrix w1)"
    by (cases "platform_matrix w1") auto
  moreover have "reuse_satisfied sample_install ''install'' cfg matrix_tool \<noteq> (True, v)"
    using matrix_binaries(2) [OF c] by (simp add: reuse_satisfied_def)
  ultimately obtain n where "tw_ran w' ! n = (compile_env t w1, ''go'' # compile_args cfg (hd (ic_bins cfg)))"
    using r by blast
  then have "snd (tw_ran w' ! n) = ''go'' # compile_args cfg (hd (ic_bins cfg))" by simp
  with run have "snd (tw_ran (snd (run_install sample_install (\<lambda>w. (0, w)) matrix_tool)) ! n) = ''go'' # compile_args cfg (hd (ic_bins cfg))"
    by (simp only: snd_conv)
  with c show ?thesis by blast
qed

theorem fingerprint_unambiguous_witness:
  "concat (map (\<lambda>(l, v). fingerprint_line l v) [(''env'', ''CC=gcc'' @ newline @ ''envCXX=g++'')]) \<noteq>
   concat (map (\<lambda>(l, v). fingerprint_line l v) [(''env'', ''CC=gcc''), (''env'', ''CXX=g++'')])"
  by (subst fingerprint_unambiguous) auto

end
