(* ===== verification/MakeContract.thy ===== *)
theory MakeContract
  imports BuildInstall
begin

text \<open>
  \<open>go-mk validate-make\<close> (\<open>makecontract.go\<close>, \<open>makeargs_linux.go\<close>, \<open>makeargs_darwin.go\<close>): the running Make is run again
  on its own arguments with a makefile that stops it after the parse, and a warning that a recipe of a shared file was
  replaced, or replaces one, fails the run. Parameters: the kernel's answers about the process, the name of the
  temporary file, and symbolic links.
\<close>

record make_invocation =
  mi_executable :: string
  mi_arguments :: "string list"
  mi_environment :: "string list"

record make_options =
  mo_process :: int
  mo_shared :: "string list"

datatype make_error =
    MissingOptionValue string
  | UnknownMakeOption string
  | BadProcess
  | OptionsMissing
  | ProcessUnreadable
  | EmptyInvocation
  | StopFileFailed
  | OptionNeedsValue
  | StandardInputMakefile
  | NoDefaultMakefile
  | MakefileUnreadable string
  | PathUnresolved string
  | RecipeConflict string string string
  | ParseUnfinished

record make_context =
  mc_process :: "tool_world \<Rightarrow> int \<Rightarrow> make_invocation option"
  mc_stop_name :: "tool_world \<Rightarrow> string option"
  mc_stop_text :: string
  mc_links :: "tool_world \<Rightarrow> string \<Rightarrow> string option"

section \<open>The process\<close>

abbreviation zero_byte :: char where "zero_byte \<equiv> CHR 0x00"

text \<open>The two files of \<open>/proc\<close>.\<close>

definition linux_arguments :: "string \<Rightarrow> string list" where
  "linux_arguments raw = split_on zero_byte (trim_suffix raw [zero_byte])"

definition linux_environment :: "string \<Rightarrow> string list" where
  "linux_environment raw = (if raw = [] then [] else split_on zero_byte (trim_suffix raw [zero_byte]))"

definition linux_invocation :: "string \<Rightarrow> string \<Rightarrow> string \<Rightarrow> make_invocation" where
  "linux_invocation executable cmdline environ =
     \<lparr>mi_executable = executable, mi_arguments = linux_arguments cmdline, mi_environment = linux_environment environ\<rparr>"

text \<open>The buffer of \<open>kern.procargs2\<close> after its count: the executable, padding, the arguments, the environment.\<close>

fun darwin_arguments :: "nat \<Rightarrow> string \<Rightarrow> (string list \<times> string) option" where
  "darwin_arguments 0 rest = Some ([], rest)"
| "darwin_arguments (Suc n) rest =
     (case str_cut rest [zero_byte] of
        None \<Rightarrow> None
      | Some (a, rest') \<Rightarrow> map_option (\<lambda>(as, r). (a # as, r)) (darwin_arguments n rest'))"

function darwin_environment :: "string \<Rightarrow> string list option" where
  "darwin_environment rest =
     (if rest = [] \<or> hd rest = zero_byte then Some []
      else (case str_cut rest [zero_byte] of
              None \<Rightarrow> None
            | Some (a, rest') \<Rightarrow> map_option (Cons a) (darwin_environment rest')))"
  by pat_completeness auto
termination
  by (relation "measure length") (auto simp: str_cut_def split: option.splits dest!: str_index_Some)

declare darwin_environment.simps [simp del]

definition darwin_invocation :: "int \<Rightarrow> string \<Rightarrow> make_invocation option" where
  "darwin_invocation argc buffer =
     (case str_cut buffer [zero_byte] of
        None \<Rightarrow> None
      | Some (executable, rest) \<Rightarrow>
          if argc \<le> 0 then None
          else (case darwin_arguments (nat argc) (trim_left rest [zero_byte]) of
                  None \<Rightarrow> None
                | Some (as, rest) \<Rightarrow>
                    map_option (\<lambda>env. \<lparr>mi_executable = executable, mi_arguments = as, mi_environment = env\<rparr>)
                      (darwin_environment rest)))"

section \<open>The options of the command\<close>

function parse_make_options :: "string list \<Rightarrow> make_options \<Rightarrow> (make_error, make_options) result" where
  "parse_make_options [] opts = (if mo_process opts = 0 \<or> mo_shared opts = [] then Inl OptionsMissing else Inr opts)"
| "parse_make_options [a] opts = Inl (MissingOptionValue a)"
| "parse_make_options (a # v # rest) opts =
     (if a = ''--make-pid''
      then (case atoi v of
              None \<Rightarrow> Inl BadProcess
            | Some n \<Rightarrow> if n \<le> 0 then Inl BadProcess else parse_make_options rest (opts\<lparr>mo_process := n\<rparr>))
      else if a = ''--shared-file'' then parse_make_options rest (opts\<lparr>mo_shared := mo_shared opts @ [v]\<rparr>)
      else Inl (UnknownMakeOption a))"
  by pat_completeness auto
termination by (relation "measure (\<lambda>(as, _). length as)") auto

section \<open>The arguments of Make\<close>

record long_option =
  lo_name :: string
  lo_value :: bool
  lo_directory :: bool
  lo_file :: bool

definition plain_option :: "string \<Rightarrow> bool \<Rightarrow> long_option" where
  "plain_option name takes = \<lparr>lo_name = name, lo_value = takes, lo_directory = False, lo_file = False\<rparr>"

definition long_options :: "long_option list" where
  "long_options =
     [(plain_option ''directory'' True)\<lparr>lo_directory := True\<rparr>, (plain_option ''file'' True)\<lparr>lo_file := True\<rparr>,
      (plain_option ''makefile'' True)\<lparr>lo_file := True\<rparr>] @
     map (\<lambda>n. plain_option n True)
       [''include-dir'', ''old-file'', ''assume-old'', ''what-if'', ''new-file'', ''assume-new'', ''eval'',
        ''jobserver-auth'', ''jobserver-fds''] @
     map (\<lambda>n. plain_option n False) [''jobs'', ''load-average'', ''max-load'', ''output-sync'', ''debug'', ''shuffle'']"

text \<open>A long option by its name, or by the only option its text is the beginning of.\<close>

definition find_long_option :: "string \<Rightarrow> long_option option" where
  "find_long_option name =
     (if name = [] then None
      else (case find (\<lambda>p. lo_name p = name) long_options of
              Some p \<Rightarrow> Some p
            | None \<Rightarrow> (case filter (\<lambda>p. prefix name (lo_name p)) long_options of [p] \<Rightarrow> Some p | _ \<Rightarrow> None)))"

record argument_option =
  ao_directory :: bool
  ao_file :: bool
  ao_next :: bool
  ao_value :: string
  ao_retained :: string

definition no_option :: argument_option where
  "no_option = \<lparr>ao_directory = False, ao_file = False, ao_next = False, ao_value = [], ao_retained = []\<rparr>"

text \<open>The letters of a short argument, those before them kept in reverse order.\<close>

fun short_option :: "string \<Rightarrow> string \<Rightarrow> argument_option" where
  "short_option seen [] = no_option"
| "short_option seen (c # cs) =
     (if c \<in> set ''CfIoWE''
      then \<lparr>ao_directory = (c = CHR ''C''), ao_file = (c = CHR ''f''), ao_next = (cs = []), ao_value = cs,
            ao_retained = (if seen = [] then [] else CHR ''-'' # rev seen)\<rparr>
      else if c \<in> set ''jlO'' then no_option
      else short_option (c # seen) cs)"

definition long_argument :: "string \<Rightarrow> argument_option" where
  "long_argument body =
     (let (name, v, inline) = (case str_cut body ''='' of None \<Rightarrow> (body, [], False) | Some (n, v) \<Rightarrow> (n, v, True)) in
      case find_long_option name of
        None \<Rightarrow> no_option
      | Some p \<Rightarrow> \<lparr>ao_directory = lo_directory p, ao_file = lo_file p, ao_next = lo_value p \<and> \<not> inline, ao_value = v, ao_retained = []\<rparr>)"

definition make_argument :: "string \<Rightarrow> argument_option" where
  "make_argument a =
     (if prefix ''--'' a then long_argument (drop 2 a)
      else if \<not> prefix ''-'' a then no_option
      else short_option [] (drop 1 a))"

record make_replay =
  mr_arguments :: "string list"
  mr_remaining :: "string list"
  mr_has_file :: bool

text \<open>One argument, with the value that goes with it: the arguments kept and whether it names a makefile.\<close>

definition replay_argument :: "string \<Rightarrow> argument_option \<Rightarrow> string \<Rightarrow> (make_error, string list) result" where
  "replay_argument a p v =
     (if ao_file p \<and> v = ''-'' then Inl StandardInputMakefile
      else if ao_directory p then Inr (if ao_retained p = [] then [] else [ao_retained p])
      else Inr (if ao_next p then [a, v] else [a]))"

definition replay_Cons :: "bool \<Rightarrow> string list \<Rightarrow> make_replay \<Rightarrow> make_replay" where
  "replay_Cons is_file kept r =
     r\<lparr>mr_arguments := kept @ mr_arguments r, mr_has_file := is_file \<or> mr_has_file r\<rparr>"

fun replay_arguments :: "string list \<Rightarrow> (make_error, make_replay) result" where
  "replay_arguments [] = Inr \<lparr>mr_arguments = [], mr_remaining = [], mr_has_file = False\<rparr>"
| "replay_arguments (a # rest) =
     (if a = ''--'' then Inr \<lparr>mr_arguments = [], mr_remaining = a # rest, mr_has_file = False\<rparr>
      else if ao_next (make_argument a)
      then (case rest of
              [] \<Rightarrow> Inl OptionNeedsValue
            | v # others \<Rightarrow>
                (case replay_argument a (make_argument a) v of
                   Inl e \<Rightarrow> Inl e
                 | Inr kept \<Rightarrow> map_sum id (replay_Cons (ao_file (make_argument a)) kept) (replay_arguments others)))
      else (case replay_argument a (make_argument a) (ao_value (make_argument a)) of
              Inl e \<Rightarrow> Inl e
            | Inr kept \<Rightarrow> map_sum id (replay_Cons (ao_file (make_argument a)) kept) (replay_arguments rest)))"

definition finish_arguments :: "make_replay \<Rightarrow> string \<Rightarrow> string \<Rightarrow> string list" where
  "finish_arguments r default_file stop_path =
     mr_arguments r @ (if mr_has_file r then [] else [''-f'', default_file]) @
     [''_GO_MK_VALIDATE_PARSE=1'', ''_GO_MK_PROVISIONED=1'', ''-j1'', ''-f'', stop_path] @ mr_remaining r"

fun default_makefile :: "string list \<Rightarrow> tool_world \<Rightarrow> (make_error, string) result \<times> tool_world" where
  "default_makefile [] w = (Inl NoDefaultMakefile, w)"
| "default_makefile (n # ns) w =
     (if t_fails StatCall w then (Inl (MakefileUnreadable n), t_tick w)
      else if tw_dirs w n then default_makefile ns (t_tick w)
      else if tw_files w n = None then default_makefile ns (t_tick w)
      else (Inr n, t_tick w))"

definition default_makefile_names :: "string list" where
  "default_makefile_names = [''GNUmakefile'', ''makefile'', ''Makefile'']"

section \<open>The warnings of Make\<close>

record recipe_location =
  rl_path :: string
  rl_line :: string
  rl_target :: string
  rl_old :: bool

text \<open>The end of a warning: the target up to the last quote of the line, a carriage return after it allowed.\<close>

definition quoted_target :: "string \<Rightarrow> string option" where
  "quoted_target s =
     (let t = (if suffix [CHR 0x27] s then butlast s
               else if suffix [CHR 0x27, CHR 0x0D] s then butlast (butlast s) else [])
      in if t = [] then None else Some t)"

definition warned_target :: "string \<Rightarrow> string option" where
  "warned_target s =
     (case s of
        [] \<Rightarrow> None
      | c # t \<Rightarrow> if c = CHR 0x60 \<or> c = CHR 0x27 then quoted_target t else None)"

definition after_one_of :: "(string \<times> 'a) list \<Rightarrow> string \<Rightarrow> ('a \<times> string) option" where
  "after_one_of choices s =
     (case find (\<lambda>(p, _). prefix p s) choices of None \<Rightarrow> None | Some (p, a) \<Rightarrow> Some (a, drop (length p) s))"

text \<open>What follows the path of a warning: the line, whether the old recipe is ignored, and the target.\<close>

definition warning_rest :: "string \<Rightarrow> (string \<times> bool \<times> string) option" where
  "warning_rest s =
     (if \<not> prefix '':'' s then None
      else (let digits = takeWhile is_digit (drop 1 s); t = dropWhile is_digit (drop 1 s) in
        if digits = [] then None
        else (case after_one_of [('': warning: overriding '', False), ('': warning: ignoring old '', True)] t of
                None \<Rightarrow> None
              | Some (ignored, t) \<Rightarrow>
                  (case after_one_of [(''commands for target '', ()), (''recipe for target '', ())] t of
                     None \<Rightarrow> None
                   | Some (_, t) \<Rightarrow> map_option (\<lambda>target. (digits, ignored, target)) (warned_target t)))))"

definition recipe_warning :: "string \<Rightarrow> recipe_location option" where
  "recipe_warning line =
     (case find (\<lambda>i. warning_rest (drop i line) \<noteq> None) (rev [1..<length line]) of
        None \<Rightarrow> None
      | Some i \<Rightarrow>
          map_option (\<lambda>(n, ignored, target). \<lparr>rl_path = take i line, rl_line = n, rl_target = target, rl_old = ignored\<rparr>)
            (warning_rest (drop i line)))"

definition recipe_warnings :: "string \<Rightarrow> recipe_location list" where
  "recipe_warnings output = List.map_filter recipe_warning (split_on (CHR 0x0A) output)"

section \<open>The conflict\<close>

definition contract_path :: "make_context \<Rightarrow> tool_world \<Rightarrow> string \<Rightarrow> (make_error, string) result" where
  "contract_path mc w p =
     (case path_abs w p of
        None \<Rightarrow> Inl (PathUnresolved p)
      | Some q \<Rightarrow> (case mc_links mc w q of None \<Rightarrow> Inl (PathUnresolved p) | Some r \<Rightarrow> Inr r))"

fun contract_paths :: "make_context \<Rightarrow> tool_world \<Rightarrow> string list \<Rightarrow> (make_error, string list) result" where
  "contract_paths mc w [] = Inr []"
| "contract_paths mc w (p # ps) =
     (case contract_path mc w p of
        Inl e \<Rightarrow> Inl e | Inr q \<Rightarrow> (case contract_paths mc w ps of Inl e \<Rightarrow> Inl e | Inr qs \<Rightarrow> Inr (q # qs)))"

definition shared_location :: "make_context \<Rightarrow> tool_world \<Rightarrow> string list \<Rightarrow> string \<Rightarrow> (make_error, bool) result" where
  "shared_location mc w shared p =
     (if p = ''<builtin>'' then Inr False
      else (case contract_path mc w p of Inl e \<Rightarrow> Inl e | Inr q \<Rightarrow> Inr (q \<in> set shared)))"

fun conflict_loop :: "(string \<Rightarrow> (make_error, bool) result) \<Rightarrow> recipe_location option \<Rightarrow> recipe_location list \<Rightarrow>
    (make_error, unit) result" where
  "conflict_loop shared replacement [] = Inr ()"
| "conflict_loop shared replacement (l # ls) =
     (if \<not> rl_old l then conflict_loop shared (Some l) ls
      else (case replacement of
              None \<Rightarrow> conflict_loop shared replacement ls
            | Some r \<Rightarrow>
                if rl_target r \<noteq> rl_target l then conflict_loop shared replacement ls
                else (case shared (rl_path r) of
                        Inl e \<Rightarrow> Inl e
                      | Inr new_shared \<Rightarrow>
                          (case shared (rl_path l) of
                             Inl e \<Rightarrow> Inl e
                           | Inr old_shared \<Rightarrow>
                               if new_shared = old_shared then conflict_loop shared replacement ls
                               else (let consumer = (if new_shared then l else r)
                                     in Inl (RecipeConflict (rl_path consumer) (rl_line consumer) (rl_target consumer)))))))"

definition find_conflict :: "make_context \<Rightarrow> tool_world \<Rightarrow> string \<Rightarrow> string list \<Rightarrow> (make_error, unit) result" where
  "find_conflict mc w output shared_files =
     (case contract_paths mc w shared_files of
        Inl e \<Rightarrow> Inl e
      | Inr shared \<Rightarrow> conflict_loop (shared_location mc w shared) None (recipe_warnings output))"

section \<open>The command\<close>

definition contract_sentinel :: string where "contract_sentinel = ''go-mk-make-parse-complete''"

definition judge_parse :: "make_context \<Rightarrow> tool_world \<Rightarrow> string list \<Rightarrow> cmd_outcome \<Rightarrow> (make_error, unit) result" where
  "judge_parse mc w shared_files outcome =
     (let (finished, output) = (case outcome of NotStarted \<Rightarrow> (False, []) | Exited status out ws \<Rightarrow> (status = 0, out)) in
      case find_conflict mc w output shared_files of
        Inl e \<Rightarrow> Inl e
      | Inr _ \<Rightarrow> if finished \<or> \<not> str_contains output contract_sentinel then Inl ParseUnfinished else Inr ())"

definition run_parse :: "make_context \<Rightarrow> make_invocation \<Rightarrow> string list \<Rightarrow> string \<Rightarrow> string list \<Rightarrow> tool_world \<Rightarrow>
    (make_error, unit) result \<times> tool_world" where
  "run_parse mc call arguments stop_path shared_files w =
     (case t_exec (set_env_var (mi_environment call) ''LC_ALL'' ''C'') (mi_executable call # arguments) w of
        (outcome, w) \<Rightarrow> (judge_parse mc w shared_files outcome, w))"

definition replay_make :: "make_context \<Rightarrow> make_invocation \<Rightarrow> string \<Rightarrow> string list \<Rightarrow> tool_world \<Rightarrow>
    (make_error, unit) result \<times> tool_world" where
  "replay_make mc call stop_path shared_files w =
     (case replay_arguments (tl (mi_arguments call)) of
        Inl e \<Rightarrow> (Inl e, w)
      | Inr r \<Rightarrow>
          if mr_has_file r then run_parse mc call (finish_arguments r [] stop_path) stop_path shared_files w
          else (case default_makefile default_makefile_names w of
                  (Inl e, w) \<Rightarrow> (Inl e, w)
                | (Inr f, w) \<Rightarrow> run_parse mc call (finish_arguments r f stop_path) stop_path shared_files w))"

definition validate_make_contract :: "make_context \<Rightarrow> make_options \<Rightarrow> tool_world \<Rightarrow> (make_error, unit) result \<times> tool_world" where
  "validate_make_contract mc opts w =
     (case mc_process mc w (mo_process opts) of
        None \<Rightarrow> (Inl ProcessUnreadable, w)
      | Some call \<Rightarrow>
          if mi_arguments call = [] then (Inl EmptyInvocation, w)
          else (case mc_stop_name mc w of
                  None \<Rightarrow> (Inl StopFileFailed, w)
                | Some stop_path \<Rightarrow>
                    (case t_set WriteCall stop_path (Some (mc_stop_text mc)) w of
                       (False, w) \<Rightarrow> (Inl StopFileFailed, snd (t_set RemoveCall stop_path None w))
                     | (True, w) \<Rightarrow>
                         (case replay_make mc call stop_path (mo_shared opts) w of
                            (r, w) \<Rightarrow> (r, snd (t_set RemoveCall stop_path None w))))))"

definition run_validate_make :: "make_context \<Rightarrow> string list \<Rightarrow> tool_world \<Rightarrow> int \<times> tool_world" where
  "run_validate_make mc arguments w =
     (case parse_make_options arguments \<lparr>mo_process = 0, mo_shared = []\<rparr> of
        Inl e \<Rightarrow> (1, w)
      | Inr opts \<Rightarrow>
          (case validate_make_contract mc opts w of
             (Inl e, w) \<Rightarrow> (1, w) | (Inr _, w) \<Rightarrow> (0, t_println ''ok'' w)))"

section \<open>The replay keeps its arguments\<close>

definition marked_letters :: string where "marked_letters = ''CfIoWEjlO''"

lemma short_plain: "\<forall>c \<in> set cs. c \<notin> set marked_letters \<Longrightarrow> short_option seen cs = no_option"
  by (induction seen cs rule: short_option.induct) (auto simp: marked_letters_def)

lemma short_retained:
  "ao_retained (short_option seen cs) \<noteq> [] \<Longrightarrow> \<forall>c \<in> set seen. c \<notin> set marked_letters \<Longrightarrow>
   \<exists>ps. ao_retained (short_option seen cs) = CHR ''-'' # ps \<and> ps \<noteq> [] \<and> prefix ps (rev seen @ cs) \<and>
     (\<forall>c \<in> set ps. c \<notin> set marked_letters)"
proof (induction seen cs rule: short_option.induct)
  case (2 seen c cs)
  show ?case
  proof (cases "c \<in> set ''CfIoWE''")
    case True
    then show ?thesis using "2.prems" by (auto split: if_splits)
  next
    case False
    show ?thesis
    proof (cases "c \<in> set ''jlO''")
      case True
      then show ?thesis using "2.prems" False by (auto simp: no_option_def)
    next
      case plain: False
      have "\<forall>d \<in> set (c # seen). d \<notin> set marked_letters"
        using "2.prems"(2) False plain by (auto simp: marked_letters_def)
      moreover have "short_option seen (c # cs) = short_option (c # seen) cs" using False plain by simp
      ultimately show ?thesis using "2.IH" [OF False plain] "2.prems"(1) by simp
    qed
  qed
qed (simp add: no_option_def)

lemma make_argument_retained:
  assumes "ao_retained (make_argument a) \<noteq> []"
  shows "make_argument (ao_retained (make_argument a)) = no_option" "ao_retained (make_argument a) \<noteq> ''--''"
    "ao_directory (make_argument a) \<Longrightarrow> \<not> ao_file (make_argument a)"
proof -
  have long: "ao_retained (long_argument b) = []" for b
    by (simp add: long_argument_def no_option_def split: option.splits prod.splits)
  have a: "\<not> prefix ''--'' a" "prefix ''-'' a" "make_argument a = short_option [] (drop 1 a)"
    using assms long by (auto simp: make_argument_def no_option_def split: if_splits)
  obtain ps where ps: "ao_retained (make_argument a) = CHR ''-'' # ps" "ps \<noteq> []" "prefix ps (drop 1 a)"
      "\<forall>c \<in> set ps. c \<notin> set marked_letters"
    using short_retained [of "[]" "drop 1 a"] assms a(3) by auto
  obtain b where b: "a = CHR ''-'' # b" using a(2) by (cases a) auto
  then have head: "hd ps \<noteq> CHR ''-''" using a(1) ps(2,3) by (cases ps; cases b) auto
  show "make_argument (ao_retained (make_argument a)) = no_option"
  proof -
    have "make_argument (CHR ''-'' # ps) = short_option [] ps" using head ps(2) by (cases ps) (simp_all add: make_argument_def del: short_option.simps)
    then show ?thesis using ps(1,4) short_plain by simp
  qed
  show "ao_retained (make_argument a) \<noteq> ''--''" using ps head by auto
  have "ao_directory (short_option seen cs) \<Longrightarrow> \<not> ao_file (short_option seen cs)" for seen cs
    by (induction seen cs rule: short_option.induct) (auto simp: no_option_def)
  then show "ao_directory (make_argument a) \<Longrightarrow> \<not> ao_file (make_argument a)" using a(3) by simp
qed

lemma directory_no_file: "ao_directory (make_argument a) \<Longrightarrow> \<not> ao_file (make_argument a)"
proof -
  have "ao_directory (short_option seen cs) \<Longrightarrow> \<not> ao_file (short_option seen cs)" for seen cs
    by (induction seen cs rule: short_option.induct) (auto simp: no_option_def)
  moreover have "\<not> (lo_directory p \<and> lo_file p)" if "find_long_option n = Some p" for n p
  proof -
    have "find (\<lambda>q. lo_name q = n) long_options = Some p \<or> filter (\<lambda>q. prefix n (lo_name q)) long_options = [p]"
      using that by (auto simp: find_long_option_def split: if_splits option.splits list.splits)
    then have "p \<in> set long_options"
    proof
      assume "find (\<lambda>q. lo_name q = n) long_options = Some p"
      then show ?thesis by (auto simp: find_Some_iff)
    next
      assume "filter (\<lambda>q. prefix n (lo_name q)) long_options = [p]"
      then have "p \<in> set (filter (\<lambda>q. prefix n (lo_name q)) long_options)" by simp
      then show ?thesis by simp
    qed
    then show ?thesis by (auto simp: long_options_def plain_option_def)
  qed
  ultimately show "ao_directory (make_argument a) \<Longrightarrow> \<not> ao_file (make_argument a)"
    by (auto simp: make_argument_def long_argument_def no_option_def Let_def split: if_splits option.splits prod.splits)
qed

lemma replay_kept:
  assumes "a \<noteq> ''--''" "replay_argument a (make_argument a) v = Inr kept"
    and "ao_next (make_argument a) \<or> v = ao_value (make_argument a)"
    and "replay_arguments rest = Inr s"
  shows "replay_arguments (kept @ rest) = Inr (replay_Cons (ao_file (make_argument a)) kept s)"
proof (cases "ao_directory (make_argument a)")
  case True
  then show ?thesis
    using assms make_argument_retained [of a] directory_no_file [OF True]
    by (cases "ao_retained (make_argument a) = []")
      (auto simp: replay_argument_def replay_Cons_def no_option_def split: if_splits)
next
  case False
  then show ?thesis using assms by (auto simp: replay_argument_def split: if_splits)
qed

text \<open>
  The arguments Make is run again with name no directory: reading them again keeps every one of them, in order,
  and finds the same makefile option, so a replayed Make does not change its directory a second time.
\<close>

theorem replay_idempotent:
  assumes "replay_arguments as = Inr r"
  shows "replay_arguments (mr_arguments r) = Inr (r\<lparr>mr_remaining := []\<rparr>)"
  using assms
proof (induction as arbitrary: r rule: replay_arguments.induct)
  case (2 a rest)
  show ?case
  proof (cases "a = ''--''")
    case True
    then show ?thesis using "2.prems" by auto
  next
    case plain: False
    show ?thesis
    proof (cases "ao_next (make_argument a)")
      case True
      then obtain v others kept s where v: "rest = v # others" "replay_argument a (make_argument a) v = Inr kept"
          "replay_arguments others = Inr s" "r = replay_Cons (ao_file (make_argument a)) kept s"
        using "2.prems" plain by (auto simp: map_sum_def split: list.splits sum.splits)
      have "replay_arguments (mr_arguments s) = Inr (s\<lparr>mr_remaining := []\<rparr>)"
        using "2.IH"(1) [OF plain True v(1,2,3)] .
      from replay_kept [OF plain v(2) _ this] True show ?thesis by (simp add: v(4) replay_Cons_def)
    next
      case False
      then obtain kept s where v: "replay_argument a (make_argument a) (ao_value (make_argument a)) = Inr kept"
          "replay_arguments rest = Inr s" "r = replay_Cons (ao_file (make_argument a)) kept s"
        using "2.prems" plain by (auto simp: map_sum_def split: sum.splits)
      have "replay_arguments (mr_arguments s) = Inr (s\<lparr>mr_remaining := []\<rparr>)"
        using "2.IH"(2) [OF plain False v(1,2)] .
      from replay_kept [OF plain v(1) _ this] show ?thesis by (simp add: v(3) replay_Cons_def)
    qed
  qed
qed simp

text \<open>One run of Make in a directory with a retained flag, a makefile and a target after the end of the options.\<close>

theorem replay_idempotent_witness:
  "replay_arguments [''-k'', ''--file=Makefile''] =
     Inr \<lparr>mr_arguments = [''-k'', ''--file=Makefile''], mr_remaining = [], mr_has_file = True\<rparr>"
proof -
  have "replay_arguments [''-kC'', ''d'', ''--file=Makefile'', ''--directory=e'', ''--'', ''t''] =
      Inr \<lparr>mr_arguments = [''-k'', ''--file=Makefile''], mr_remaining = [''--'', ''t''], mr_has_file = True\<rparr>"
    by code_simp
  from replay_idempotent [OF this] show ?thesis by simp
qed

section \<open>A conflict is a recipe of one side in place of the other\<close>

definition agree :: "(string \<Rightarrow> (make_error, bool) result) \<Rightarrow> recipe_location \<Rightarrow> recipe_location \<Rightarrow> bool" where
  "agree shared r l \<longleftrightarrow> (\<exists>b. shared (rl_path r) = Inr b \<and> shared (rl_path l) = Inr b)"

definition agrees_below :: "(string \<Rightarrow> (make_error, bool) result) \<Rightarrow> recipe_location \<Rightarrow> recipe_location list \<Rightarrow> bool" where
  "agrees_below shared r ls \<longleftrightarrow>
     (\<forall>ys l zs. ls = ys @ l # zs \<longrightarrow> list_all rl_old ys \<longrightarrow> rl_old l \<longrightarrow> rl_target r = rl_target l \<longrightarrow> agree shared r l)"

text \<open>A warning that replaces a recipe is followed by those of the recipes it replaces.\<close>

definition all_agree :: "(string \<Rightarrow> (make_error, bool) result) \<Rightarrow> recipe_location list \<Rightarrow> bool" where
  "all_agree shared ls \<longleftrightarrow> (\<forall>xs r zs. ls = xs @ r # zs \<longrightarrow> \<not> rl_old r \<longrightarrow> agrees_below shared r zs)"

lemma agrees_below_Nil: "agrees_below shared r []"
  by (simp add: agrees_below_def)

lemma agrees_below_new: "\<not> rl_old l \<Longrightarrow> agrees_below shared r (l # ls)"
  by (auto simp: agrees_below_def Cons_eq_append_conv)

lemma agrees_below_old:
  assumes "rl_old l"
  shows "agrees_below shared r (l # ls) \<longleftrightarrow> (rl_target r = rl_target l \<longrightarrow> agree shared r l) \<and> agrees_below shared r ls"
proof
  assume a: "agrees_below shared r (l # ls)"
  have "agree shared r l" if "rl_target r = rl_target l"
    using a assms that by (simp add: agrees_below_def) (metis append_Nil list.pred_inject(1))
  moreover have "agrees_below shared r ls"
    unfolding agrees_below_def
  proof (intro allI impI)
    fix ys m zs assume "ls = ys @ m # zs" "list_all rl_old ys" "rl_old m" "rl_target r = rl_target m"
    then show "agree shared r m"
      using a assms unfolding agrees_below_def by (metis append_Cons list.pred_inject(2))
  qed
  ultimately show "(rl_target r = rl_target l \<longrightarrow> agree shared r l) \<and> agrees_below shared r ls" by blast
next
  assume a: "(rl_target r = rl_target l \<longrightarrow> agree shared r l) \<and> agrees_below shared r ls"
  show "agrees_below shared r (l # ls)"
    unfolding agrees_below_def
  proof (intro allI impI)
    fix ys m zs assume m: "l # ls = ys @ m # zs" "list_all rl_old ys" "rl_old m" "rl_target r = rl_target m"
    show "agree shared r m"
    proof (cases ys)
      case Nil
      then show ?thesis using a m by simp
    next
      case (Cons y ys')
      then show ?thesis using a m unfolding agrees_below_def by auto
    qed
  qed
qed

lemma all_agree_Cons: "all_agree shared (l # ls) \<longleftrightarrow> (\<not> rl_old l \<longrightarrow> agrees_below shared l ls) \<and> all_agree shared ls"
  by (auto simp: all_agree_def Cons_eq_append_conv)

lemma conflict_loop_agrees:
  "conflict_loop shared replacement ls = Inr () \<longleftrightarrow>
     (case replacement of None \<Rightarrow> True | Some r \<Rightarrow> agrees_below shared r ls) \<and> all_agree shared ls"
proof (induction shared replacement ls rule: conflict_loop.induct)
  case (1 shared replacement)
  then show ?case by (auto simp: agrees_below_Nil all_agree_def split: option.splits)
next
  case (2 shared replacement l ls)
  show ?case
  proof (cases "rl_old l")
    case False
    then show ?thesis using "2.IH"(1) by (auto simp: agrees_below_new all_agree_Cons split: option.splits)
  next
    case old: True
    show ?thesis
    proof (cases replacement)
      case None
      then show ?thesis using old "2.IH"(2) by (simp add: all_agree_Cons)
    next
      case (Some r)
      show ?thesis
      proof (cases "rl_target r = rl_target l")
        case False
        then show ?thesis using old Some "2.IH"(3) by (simp add: all_agree_Cons agrees_below_old)
      next
        case True
        show ?thesis
        proof (cases "agree shared r l")
          case False
          then show ?thesis using old Some True
            by (auto simp: agrees_below_old agree_def Let_def split: sum.splits)
        next
          case ok: True
          then obtain b where b: "shared (rl_path r) = Inr b" "shared (rl_path l) = Inr b" by (auto simp: agree_def)
          then have "conflict_loop shared replacement (l # ls) = conflict_loop shared replacement ls"
            using old Some True by simp
          moreover have "conflict_loop shared replacement ls = Inr () \<longleftrightarrow>
              (case replacement of None \<Rightarrow> True | Some r \<Rightarrow> agrees_below shared r ls) \<and> all_agree shared ls"
            using "2.IH"(4) [of r b b] old Some True b by simp
          ultimately show ?thesis using Some ok True by (simp add: all_agree_Cons agrees_below_old old)
        qed
      qed
    qed
  qed
qed

lemma default_makefile_frame: "default_makefile ns w = (r, w') \<Longrightarrow> tw_run w' = tw_run w \<and> tw_ran w' = tw_ran w"
  by (induction ns w arbitrary: r w' rule: default_makefile.induct) (auto simp: t_tick_def split: if_splits)

lemma run_parse_ok:
  assumes "run_parse mc call as stop_path shared_files v = (Inr (), v')"
  shows "\<exists>status printed ws. tw_run v (length (tw_ran v)) (mi_executable call # as) = Exited status printed ws \<and> status \<noteq> 0 \<and>
    str_contains printed contract_sentinel \<and> find_conflict mc v' printed shared_files = Inr ()"
proof -
  let ?o = "tw_run v (length (tw_ran v)) (mi_executable call # as)"
  have "judge_parse mc v' shared_files ?o = Inr ()"
    using assms by (auto simp: run_parse_def t_exec_def Let_def split: cmd_outcome.splits)
  then show ?thesis
    by (cases ?o) (auto simp: judge_parse_def str_contains_def contract_sentinel_def split: sum.splits if_splits)
qed

lemma replay_make_ok:
  assumes "replay_make mc call stop_path shared_files u = (Inr (), u')"
  shows "\<exists>r f v v'. replay_arguments (tl (mi_arguments call)) = Inr r \<and> tw_run v = tw_run u \<and> tw_ran v = tw_ran u \<and>
    run_parse mc call (finish_arguments r f stop_path) stop_path shared_files v = (Inr (), v')"
  using assms by (auto simp: replay_make_def dest: default_makefile_frame split: sum.splits if_splits prod.splits)

text \<open>
  C12. A Make run is accepted only after a second run of Make on its arguments that stopped at the end of the parse and
  whose output has no conflict: every warning of a replaced recipe and those of the recipes of the same target it
  replaces lie all in the shared files or all outside them.
\<close>

theorem validated_make_has_no_conflict:
  assumes "run_validate_make mc arguments w = (0, w')"
  shows "\<exists>opts call r f stop_path status printed ws v shared.
    parse_make_options arguments \<lparr>mo_process = 0, mo_shared = []\<rparr> = Inr opts \<and>
    mc_process mc w (mo_process opts) = Some call \<and> replay_arguments (tl (mi_arguments call)) = Inr r \<and>
    tw_run w (length (tw_ran w)) (mi_executable call # finish_arguments r f stop_path) = Exited status printed ws \<and>
    status \<noteq> 0 \<and> str_contains printed contract_sentinel \<and> contract_paths mc v (mo_shared opts) = Inr shared \<and>
    (\<forall>xs r ys l zs. recipe_warnings printed = xs @ r # ys @ l # zs \<longrightarrow> \<not> rl_old r \<longrightarrow> list_all rl_old ys \<longrightarrow> rl_old l \<longrightarrow>
       rl_target r = rl_target l \<longrightarrow>
       (\<exists>b. shared_location mc v shared (rl_path r) = Inr b \<and> shared_location mc v shared (rl_path l) = Inr b))"
proof -
  obtain opts w1 where o: "parse_make_options arguments \<lparr>mo_process = 0, mo_shared = []\<rparr> = Inr opts"
      "validate_make_contract mc opts w = (Inr (), w1)"
    using assms by (auto simp: run_validate_make_def split: sum.splits prod.splits)
  obtain call stop_path u u' where c: "mc_process mc w (mo_process opts) = Some call"
      "replay_make mc call stop_path (mo_shared opts) u = (Inr (), u')" "tw_run u = tw_run w" "tw_ran u = tw_ran w"
    using o(2) by (auto simp: validate_make_contract_def t_set_def t_tick_def split: option.splits if_splits prod.splits bool.splits)
  obtain r f v v' where r: "replay_arguments (tl (mi_arguments call)) = Inr r" "tw_run v = tw_run u" "tw_ran v = tw_ran u"
      "run_parse mc call (finish_arguments r f stop_path) stop_path (mo_shared opts) v = (Inr (), v')"
    using replay_make_ok [OF c(2)] by blast
  obtain status printed ws where out:
      "tw_run w (length (tw_ran w)) (mi_executable call # finish_arguments r f stop_path) = Exited status printed ws"
      "status \<noteq> 0" "str_contains printed contract_sentinel" "find_conflict mc v' printed (mo_shared opts) = Inr ()"
    using run_parse_ok [OF r(4)] r(2,3) c(3,4) by auto
  obtain shared where sh: "contract_paths mc v' (mo_shared opts) = Inr shared"
      "all_agree (shared_location mc v' shared) (recipe_warnings printed)"
    using out(4) by (auto simp: find_conflict_def conflict_loop_agrees split: sum.splits)
  have "\<forall>xs r ys l zs. recipe_warnings printed = xs @ r # ys @ l # zs \<longrightarrow> \<not> rl_old r \<longrightarrow> list_all rl_old ys \<longrightarrow> rl_old l \<longrightarrow>
      rl_target r = rl_target l \<longrightarrow>
      (\<exists>b. shared_location mc v' shared (rl_path r) = Inr b \<and> shared_location mc v' shared (rl_path l) = Inr b)"
    using sh(2) unfolding all_agree_def agrees_below_def agree_def by blast
  then show ?thesis using o(1) c(1) r(1) out(1-3) sh(1) by blast
qed

definition made_context :: make_context where
  "made_context =
     \<lparr>mc_process = (\<lambda>_ _. Some \<lparr>mi_executable = ''make'', mi_arguments = [''make'', ''-fM''], mi_environment = []\<rparr>),
      mc_stop_name = (\<lambda>_. Some ''s.mk''), mc_stop_text = [], mc_links = (\<lambda>_ p. Some p)\<rparr>"

definition making_tool :: tool_world where
  "making_tool = sample_tool\<lparr>tw_run := (\<lambda>_ _. Exited 2 contract_sentinel [])\<rparr>"

theorem validated_make_has_no_conflict_witness:
  "\<exists>call r f stop_path status printed ws. mc_process made_context making_tool 7 = Some call \<and>
     tw_run making_tool 0 (mi_executable call # finish_arguments r f stop_path) = Exited status printed ws \<and>
     str_contains printed contract_sentinel"
proof -
  let ?args = "[''--make-pid'', ''7'', ''--shared-file'', ''go.mk'']"
  have "fst (run_validate_make made_context ?args making_tool) = 0" by code_simp
  then have run: "run_validate_make made_context ?args making_tool = (0, snd (run_validate_make made_context ?args making_tool))"
    by (metis prod.collapse)
  have opts: "parse_make_options ?args \<lparr>mo_process = 0, mo_shared = []\<rparr> = Inr \<lparr>mo_process = 7, mo_shared = [''go.mk'']\<rparr>" by code_simp
  have ran: "length (tw_ran making_tool) = 0" by (simp add: making_tool_def sample_tool_def)
  show ?thesis using validated_make_has_no_conflict [OF run] unfolding opts ran by force
qed

section \<open>The argument buffer of macOS\<close>

definition zero_ended :: "string list \<Rightarrow> string" where
  "zero_ended ss = concat (map (\<lambda>s. s @ [zero_byte]) ss)"

lemma cut_at_zero: "zero_byte \<notin> set s \<Longrightarrow> str_cut (s @ zero_byte # t) [zero_byte] = Some (s, t)"
proof -
  assume "zero_byte \<notin> set s"
  then have "str_index (s @ zero_byte # t) [zero_byte] = Some (length s)" by (induction s) auto
  then show ?thesis by (simp add: str_cut_def)
qed

lemma darwin_arguments_read:
  "\<forall>a \<in> set as. zero_byte \<notin> set a \<Longrightarrow> darwin_arguments (length as) (zero_ended as @ rest) = Some (as, rest)"
  by (induction as) (auto simp: zero_ended_def cut_at_zero)

lemma darwin_environment_read:
  "\<forall>e \<in> set es. zero_byte \<notin> set e \<and> e \<noteq> [] \<Longrightarrow> darwin_environment (zero_ended es @ [zero_byte]) = Some es"
proof (induction es)
  case Nil
  then show ?case by (simp add: zero_ended_def darwin_environment.simps)
next
  case (Cons e es)
  have "zero_ended (e # es) @ [zero_byte] = e @ zero_byte # (zero_ended es @ [zero_byte])" by (simp add: zero_ended_def)
  moreover have "hd (e @ t) \<noteq> zero_byte" for t using Cons.prems by (cases e) auto
  ultimately show ?case using Cons
    by (subst darwin_environment.simps) (simp add: cut_at_zero)
qed

text \<open>The invocation is read back from the buffer when no text in it is empty but the padding.\<close>

theorem darwin_roundtrip:
  assumes "zero_byte \<notin> set exe" "\<forall>x \<in> set as \<union> set es. zero_byte \<notin> set x" "\<forall>e \<in> set es. e \<noteq> []" "as \<noteq> []" "hd as \<noteq> []"
  shows "darwin_invocation (int (length as))
      (exe @ [zero_byte] @ replicate n zero_byte @ zero_ended as @ zero_ended es @ [zero_byte]) =
    Some \<lparr>mi_executable = exe, mi_arguments = as, mi_environment = es\<rparr>"
proof -
  obtain c cs where head: "zero_ended as = c # cs" "c \<noteq> zero_byte"
    using assms(2,4,5) by (cases as; cases "hd as") (auto simp: zero_ended_def)
  have trim: "trim_left (replicate n zero_byte @ c # rest) [zero_byte] = c # rest" for rest
    using head(2) by (induction n) (auto simp: trim_left_def)
  have "darwin_arguments (length as) (zero_ended as @ zero_ended es @ [zero_byte]) = Some (as, zero_ended es @ [zero_byte])"
    using darwin_arguments_read [of as] assms(2) by simp
  then show ?thesis
    using cut_at_zero [OF assms(1)] trim assms darwin_environment_read [of es] head(1)
    by (simp add: darwin_invocation_def)
qed

end
