(* ===== verification/Workflow.thy ===== *)
theory Workflow
  imports GoPath "HOL-Library.AList"
begin

text \<open>
  The edits \<open>go-mk scaffold\<close> makes to a workflow file (\<open>scaffold.go\<close>): line by line, on the jobs that call a reusable
  workflow. A line is found by its index, as in the code.
\<close>

section \<open>Lines of a workflow\<close>

definition leading_spaces :: "string \<Rightarrow> nat" where
  "leading_spaces l = length (takeWhile (\<lambda>c. c = CHR '' '') l)"

definition spaces :: "nat \<Rightarrow> string" where
  "spaces n = replicate n CHR '' ''"

definition blank_or_comment :: "string \<Rightarrow> bool" where
  "blank_or_comment l \<longleftrightarrow> blank l \<or> prefix ''#'' (trim_space l)"

definition line_key :: "string \<Rightarrow> string option" where
  "line_key l = map_option (\<lambda>(k, _). trim_space k) (str_cut (trim_space l) '':'')"

text \<open>The key of a line, the whole line when it has no colon: what \<open>key, _, _ := strings.Cut\<close> gives.\<close>

definition line_label :: "string \<Rightarrow> string" where
  "line_label l = (case str_cut (trim_space l) '':'' of None \<Rightarrow> trim_space l | Some (k, _) \<Rightarrow> trim_space k)"

definition all_uses :: "string \<Rightarrow> string list \<Rightarrow> nat list" where
  "all_uses ref ls =
     filter (\<lambda>i. prefix ''uses:'' (trim_space (ls ! i)) \<and> str_contains (trim_space (ls ! i)) ref) [0..<length ls]"

definition job_header_above :: "string list \<Rightarrow> nat \<Rightarrow> nat \<Rightarrow> nat option" where
  "job_header_above ls from indent =
     find (\<lambda>i. \<not> blank_or_comment (ls ! i) \<and> leading_spaces (ls ! i) < indent) (rev [0..<from])"

definition job_body_end :: "string list \<Rightarrow> nat \<Rightarrow> nat \<Rightarrow> nat" where
  "job_body_end ls from indent =
     (case find (\<lambda>i. \<not> blank_or_comment (ls ! i) \<and> leading_spaces (ls ! i) \<le> indent) [Suc from..<length ls] of
        None \<Rightarrow> length ls | Some i \<Rightarrow> i)"

definition job_child_key :: "string list \<Rightarrow> nat \<Rightarrow> nat \<Rightarrow> nat \<Rightarrow> string \<Rightarrow> nat option" where
  "job_child_key ls start stop indent want =
     find (\<lambda>i. leading_spaces (ls ! i) = indent \<and> line_key (ls ! i) = Some want) [start..<stop]"

definition block_form :: "string \<Rightarrow> bool" where
  "block_form l \<longleftrightarrow> (case str_cut (trim_space l) '':'' of None \<Rightarrow> True | Some (_, v) \<Rightarrow> blank v)"

definition block_end :: "string list \<Rightarrow> nat \<Rightarrow> nat \<Rightarrow> nat \<Rightarrow> nat" where
  "block_end ls b stop parent =
     (case find (\<lambda>i. \<not> blank_or_comment (ls ! i) \<and> leading_spaces (ls ! i) \<le> parent) [Suc b..<stop] of
        None \<Rightarrow> max (Suc b) stop | Some i \<Rightarrow> i)"

definition insert_lines :: "nat \<Rightarrow> string list \<Rightarrow> string list \<Rightarrow> string list" where
  "insert_lines at new ls = take at ls @ new @ drop at ls"

definition entry_line :: "nat \<Rightarrow> string \<Rightarrow> string \<Rightarrow> string" where
  "entry_line n k v = spaces n @ k @ '': '' @ v"

text \<open>The header of a job above its uses line, its indent, and the line after its body.\<close>

definition job_of :: "string list \<Rightarrow> nat \<Rightarrow> (nat \<times> nat \<times> nat) option" where
  "job_of ls u =
     (case job_header_above ls u (leading_spaces (ls ! u)) of
        None \<Rightarrow> None
      | Some h \<Rightarrow> (let indent = leading_spaces (ls ! h) in Some (h, indent, job_body_end ls u indent)))"

section \<open>The permissions of a caller\<close>

type_synonym permission = "string \<times> string"

definition required_release_permissions :: "permission list" where
  "required_release_permissions = [(''contents'', ''write''), (''id-token'', ''write''), (''attestations'', ''write'')]"

definition ci_caller_permissions :: "permission list" where
  "ci_caller_permissions = [(''contents'', ''read''), (''id-token'', ''write''), (''attestations'', ''write'')]"

record block_scan =
  bs_child :: "nat option"
  bs_last :: nat
  bs_present :: "(string \<times> nat) list"

text \<open>The loop over the lines of a permissions block, the first of them with index \<open>i\<close>.\<close>

fun scan_permissions :: "nat \<Rightarrow> nat \<Rightarrow> string list \<Rightarrow> block_scan \<Rightarrow> block_scan" where
  "scan_permissions parent i [] s = s"
| "scan_permissions parent i (l # ls) s =
     (if blank_or_comment l then scan_permissions parent (Suc i) ls s
      else if leading_spaces l \<le> parent then s
      else scan_permissions parent (Suc i) ls
        \<lparr>bs_child = Some (case bs_child s of None \<Rightarrow> leading_spaces l | Some c \<Rightarrow> c), bs_last = i,
         bs_present = AList.update (line_label l) i (bs_present s)\<rparr>)"

fun correct_permissions :: "(string \<times> nat) list \<Rightarrow> permission list \<Rightarrow> string list \<times> bool \<Rightarrow> string list \<times> bool" where
  "correct_permissions present [] (ls, changed) = (ls, changed)"
| "correct_permissions present ((k, v) # ps) (ls, changed) =
     (case map_of present k of
        None \<Rightarrow> correct_permissions present ps (ls, changed)
      | Some i \<Rightarrow>
          (let line = entry_line (leading_spaces (ls ! i)) k v
           in correct_permissions present ps (if ls ! i = line then (ls, changed) else (ls[i := line], True))))"

definition insert_missing_permissions :: "string list \<Rightarrow> nat \<Rightarrow> nat \<Rightarrow> nat \<Rightarrow> permission list \<Rightarrow> string list \<times> bool" where
  "insert_missing_permissions ls p stop parent perms =
     (let s = scan_permissions parent (Suc p) (take (stop - Suc p) (drop (Suc p) ls)) \<lparr>bs_child = None, bs_last = p, bs_present = []\<rparr>;
          child = (case bs_child s of None \<Rightarrow> parent + 2 | Some c \<Rightarrow> c);
          (updated, changed) = correct_permissions (bs_present s) perms (ls, False);
          insertions = map (\<lambda>(k, v). entry_line child k v) (filter (\<lambda>(k, _). map_of (bs_present s) k = None) perms)
      in if insertions = [] then (updated, changed) else (insert_lines (Suc (bs_last s)) insertions updated, True))"

definition insert_permissions_block :: "string list \<Rightarrow> nat \<Rightarrow> nat \<Rightarrow> nat \<Rightarrow> permission list \<Rightarrow> string list" where
  "insert_permissions_block ls u indent step perms =
     insert_lines (Suc u) ((spaces indent @ ''permissions:'') # map (\<lambda>(k, v). entry_line (indent + step) k v) perms) ls"

definition repair_permissions_at :: "permission list \<Rightarrow> string list \<Rightarrow> nat \<Rightarrow> string list \<times> bool" where
  "repair_permissions_at perms ls u =
     (case job_of ls u of
        None \<Rightarrow> (ls, False)
      | Some (h, job_indent, stop) \<Rightarrow>
          (let indent = leading_spaces (ls ! u) in
           case job_child_key ls (Suc h) stop indent ''permissions'' of
             None \<Rightarrow> (insert_permissions_block ls u indent (indent - job_indent) perms, True)
           | Some p \<Rightarrow>
               if \<not> block_form (ls ! p) then (ls, False) else insert_missing_permissions ls p stop indent perms))"

section \<open>Every job of a file\<close>

text \<open>\<open>strings.Split\<close> with a separator that is not empty.\<close>

function split_str :: "string \<Rightarrow> string \<Rightarrow> string list" where
  "split_str sep s =
     (if sep = [] then [s]
      else (case str_cut s sep of None \<Rightarrow> [s] | Some (a, b) \<Rightarrow> a # split_str sep b))"
  by pat_completeness auto
termination
proof (relation "measure (\<lambda>(sep, s). length s)", goal_cases)
  case (2 sep s ab a b)
  then have "length b < length s"
    by (cases sep) (auto simp: str_cut_def split: option.splits dest!: str_index_Some)
  then show ?case by simp
qed simp

declare split_str.simps [simp del]

definition line_ending :: "string \<Rightarrow> string" where
  "line_ending content = (if str_contains content [CHR 0x0D, CHR 0x0A] then [CHR 0x0D, CHR 0x0A] else newline)"

text \<open>From the last job to the first, so that an index found before an edit stays right.\<close>

fun edit_each :: "(string list \<Rightarrow> nat \<Rightarrow> string list \<times> bool) \<Rightarrow> nat list \<Rightarrow> string list \<times> bool \<Rightarrow> string list \<times> bool" where
  "edit_each f [] r = r"
| "edit_each f (u # us) (ls, changed) =
     (case f ls u of (ls, did) \<Rightarrow> edit_each f us (ls, changed \<or> did))"

definition edit_jobs :: "(string list \<Rightarrow> nat \<Rightarrow> string list \<times> bool) \<Rightarrow> string \<Rightarrow> string \<Rightarrow> string \<times> bool" where
  "edit_jobs f ref content =
     (let ending = line_ending content; ls = split_str ending content;
          (ls, changed) = edit_each f (rev (all_uses ref ls)) (ls, False)
      in (str_join ending ls, changed))"

definition repair_caller_permissions :: "string \<Rightarrow> permission list \<Rightarrow> string \<Rightarrow> string \<times> bool" where
  "repair_caller_permissions ref perms = edit_jobs (repair_permissions_at perms) ref"

section \<open>The secrets and the inputs of a caller\<close>

definition ensure_secrets_at :: "string list \<Rightarrow> nat \<Rightarrow> string list \<times> bool" where
  "ensure_secrets_at ls u =
     (case job_of ls u of
        None \<Rightarrow> (ls, False)
      | Some (h, job_indent, stop) \<Rightarrow>
          (let indent = leading_spaces (ls ! u) in
           if job_child_key ls (Suc h) stop indent ''secrets'' \<noteq> None then (ls, False)
           else (let at = (case find (\<lambda>i. \<not> blank_or_comment (ls ! i)) [Suc u..<stop] of None \<Rightarrow> max (Suc u) stop | Some i \<Rightarrow> i)
                 in (insert_lines at [spaces indent @ ''secrets: inherit''] ls, True))))"

definition ensure_secrets_inherit :: "string \<Rightarrow> string \<Rightarrow> string \<times> bool" where
  "ensure_secrets_inherit ref = edit_jobs ensure_secrets_at ref"

definition workflow_scalar :: "string \<Rightarrow> string" where
  "workflow_scalar v =
     (let t = trim_space v; t = (case str_index t '' #'' of None \<Rightarrow> t | Some i \<Rightarrow> trim_space (take i t))
      in trim_right (trim_left t [CHR 0x22, CHR 0x27]) [CHR 0x22, CHR 0x27])"

fun scan_entries :: "string list \<Rightarrow> nat \<Rightarrow> nat list \<Rightarrow> nat option \<Rightarrow> (string \<times> string) list \<Rightarrow> (string \<times> string) list" where
  "scan_entries ls parent [] child es = es"
| "scan_entries ls parent (i # is) child es =
     (if blank_or_comment (ls ! i) then scan_entries ls parent is child es
      else (let indent = leading_spaces (ls ! i) in
        if indent \<le> parent then es
        else (let c = (case child of None \<Rightarrow> indent | Some c \<Rightarrow> c) in
          if indent \<noteq> c then scan_entries ls parent is (Some c) es
          else (case str_cut (trim_space (ls ! i)) '':'' of
                  None \<Rightarrow> scan_entries ls parent is (Some c) es
                | Some (k, v) \<Rightarrow> scan_entries ls parent is (Some c) (AList.update (trim_space k) (workflow_scalar v) es)))))"

definition job_with_entries :: "string list \<Rightarrow> nat \<Rightarrow> (string \<times> string) list option" where
  "job_with_entries ls u =
     (case job_of ls u of
        None \<Rightarrow> None
      | Some (h, job_indent, stop) \<Rightarrow>
          (let indent = leading_spaces (ls ! u) in
           case job_child_key ls (Suc h) stop indent ''with'' of
             None \<Rightarrow> Some []
           | Some x \<Rightarrow> if \<not> block_form (ls ! x) then None else Some (scan_entries ls indent [Suc x..<stop] None [])))"

text \<open>The loop of \<open>insertOrUpdateBlockEntryLines\<close>: the line that has the key, or where and how deep a new one goes.\<close>

fun scan_block :: "string list \<Rightarrow> nat \<Rightarrow> string \<Rightarrow> nat list \<Rightarrow> nat option \<Rightarrow> nat \<Rightarrow> nat + nat option \<times> nat" where
  "scan_block ls parent key [] child at = Inr (child, at)"
| "scan_block ls parent key (i # is) child at =
     (if blank_or_comment (ls ! i) then scan_block ls parent key is child at
      else (let indent = leading_spaces (ls ! i) in
        if indent \<le> parent then Inr (child, at)
        else (let c = (case child of None \<Rightarrow> indent | Some c \<Rightarrow> c) in
          if indent = c \<and> line_label (ls ! i) = key then Inl i
          else scan_block ls parent key is (Some c) (Suc i))))"

definition insert_or_update_entry :: "string list \<Rightarrow> nat \<Rightarrow> nat \<Rightarrow> nat \<Rightarrow> string \<Rightarrow> string \<Rightarrow> string list \<times> bool" where
  "insert_or_update_entry ls b stop parent key v =
     (case scan_block ls parent key [Suc b..<stop] None (Suc b) of
        Inl i \<Rightarrow>
          (let line = entry_line (leading_spaces (ls ! i)) key v
           in if ls ! i = line then (ls, False) else (ls[i := line], True))
      | Inr (child, at) \<Rightarrow>
          (insert_lines at [entry_line (case child of None \<Rightarrow> parent + 2 | Some c \<Rightarrow> c) key v] ls, True))"

definition upsert_with_entry :: "string \<Rightarrow> string \<Rightarrow> string list \<Rightarrow> nat \<Rightarrow> string list \<times> bool" where
  "upsert_with_entry key v ls u =
     (case job_of ls u of
        None \<Rightarrow> (ls, False)
      | Some (h, job_indent, stop) \<Rightarrow>
          (let indent = leading_spaces (ls ! u) in
           case job_child_key ls (Suc h) stop indent ''with'' of
             Some x \<Rightarrow> if \<not> block_form (ls ! x) then (ls, False) else insert_or_update_entry ls x stop indent key v
           | None \<Rightarrow>
               (let at = (case job_child_key ls (Suc h) stop indent ''permissions'' of
                            None \<Rightarrow> Suc u | Some p \<Rightarrow> if block_form (ls ! p) then block_end ls p stop indent else Suc u)
                in (insert_lines at [spaces indent @ ''with:'', entry_line (indent + (indent - job_indent)) key v] ls, True))))"

definition repair_release_binary :: "string \<Rightarrow> string \<Rightarrow> string \<Rightarrow> string \<times> bool" where
  "repair_release_binary ref binary content =
     (if blank binary then (content, False) else edit_jobs (upsert_with_entry ''binary'' (trim_space binary)) ref content)"

section \<open>The cgo setting\<close>

text \<open>The value of each directory so far, and the directories left out.\<close>

fun collect_cgo :: "string list \<Rightarrow> nat list \<Rightarrow> (string \<times> string) list \<times> string list \<Rightarrow> (string \<times> string) list \<times> string list" where
  "collect_cgo ls [] s = s"
| "collect_cgo ls (u # us) (found, out) =
     (case job_with_entries ls u of
        None \<Rightarrow> collect_cgo ls us (found, out)
      | Some es \<Rightarrow>
          (let dir = path_clean (map_get (map_of es) ''working_directory'');
               v = (case map_of es ''cgo'' of None \<Rightarrow> ''false'' | Some v \<Rightarrow> v)
           in if v \<noteq> ''true'' \<and> v \<noteq> ''false'' then collect_cgo ls us (found, dir # out)
              else collect_cgo ls us (AList.update dir v found,
                     if map_of found dir \<noteq> None \<and> map_of found dir \<noteq> Some v then dir # out else out)))"

definition release_cgo_of :: "string \<Rightarrow> string \<Rightarrow> (string \<times> string) list" where
  "release_cgo_of ref content =
     (let ls = split_str newline (str_join newline (split_str [CHR 0x0D, CHR 0x0A] content));
          (found, out) = collect_cgo ls (all_uses ref ls) ([], [])
      in filter (\<lambda>(d, _). d \<notin> set out) found)"

definition ci_cgo_default :: string where "ci_cgo_default = ''false''"

definition sync_cgo_at :: "(string \<times> string) list \<Rightarrow> string list \<Rightarrow> nat \<Rightarrow> string list \<times> bool" where
  "sync_cgo_at release ls u =
     (case job_with_entries ls u of
        None \<Rightarrow> (ls, False)
      | Some es \<Rightarrow>
          (case map_of release (path_clean (map_get (map_of es) ''working_directory'')) of
             None \<Rightarrow> (ls, False)
           | Some v \<Rightarrow>
               if (case map_of es ''cgo'' of None \<Rightarrow> ci_cgo_default | Some x \<Rightarrow> x) = v then (ls, False)
               else upsert_with_entry ''cgo'' v ls u))"

definition sync_caller_cgo :: "string \<Rightarrow> (string \<times> string) list \<Rightarrow> string \<Rightarrow> string \<times> bool" where
  "sync_caller_cgo ref release = edit_jobs (sync_cgo_at release) ref"

section \<open>Lines the edits write\<close>

lemma skip_space_spaces: "skip_space (spaces n @ s) = skip_space s"
  by (induction n) (simp_all add: spaces_def skip_space.simps space_len_def ascii_spaces_def)

lemma trim_space_spaces: "trim_space (spaces n @ s) = trim_space s"
  by (simp add: trim_space_def skip_space_spaces)

lemma leading_spaces_entry: "s \<noteq> [] \<Longrightarrow> hd s \<noteq> CHR '' '' \<Longrightarrow> leading_spaces (spaces n @ s) = n"
  by (induction n) (auto simp: leading_spaces_def spaces_def neq_Nil_conv)

text \<open>A line the code writes for a permission reads back as one.\<close>

definition writes_well :: "permission \<Rightarrow> bool" where
  "writes_well kv \<longleftrightarrow> (let t = fst kv @ '': '' @ snd kv in
     fst kv \<noteq> [] \<and> hd (fst kv) \<noteq> CHR '' '' \<and> \<not> blank_or_comment t \<and> line_label t = fst kv)"

lemma blank_or_comment_spaces: "blank_or_comment (spaces n @ s) = blank_or_comment s"
  by (simp add: blank_or_comment_def blank_def trim_space_spaces)

lemma line_label_spaces: "line_label (spaces n @ s) = line_label s"
  unfolding line_label_def trim_space_spaces ..

lemma entry_line_reads:
  assumes "writes_well (k, v)"
  shows "\<not> blank_or_comment (entry_line n k v)" "line_label (entry_line n k v) = k" "leading_spaces (entry_line n k v) = n"
  using assms leading_spaces_entry [of "k @ '': '' @ v" n]
  by (auto simp: writes_well_def entry_line_def Let_def blank_or_comment_spaces line_label_spaces)

lemma permissions_write_well:
  "list_all writes_well required_release_permissions" "list_all writes_well ci_caller_permissions"
  by code_simp+

section \<open>A permissions block after the repair\<close>

definition alike :: "string \<Rightarrow> string \<Rightarrow> bool" where
  "alike l l' \<longleftrightarrow> blank_or_comment l = blank_or_comment l' \<and> leading_spaces l = leading_spaces l' \<and> line_label l = line_label l'"

lemma alike_refl [simp]: "alike l l"
  by (simp add: alike_def)

lemma alike_trans: "alike a b \<Longrightarrow> alike b c \<Longrightarrow> alike a c"
  by (simp add: alike_def)

lemma scan_alike: "list_all2 alike ls ls' \<Longrightarrow> scan_permissions parent i ls s = scan_permissions parent i ls' s"
  by (induction arbitrary: i s rule: list_all2_induct) (auto simp: alike_def split: option.splits)

definition inside :: "nat \<Rightarrow> string \<Rightarrow> bool" where
  "inside parent l \<longleftrightarrow> blank_or_comment l \<or> parent < leading_spaces l"

lemma scan_append:
  "list_all (inside parent) xs \<Longrightarrow>
   scan_permissions parent i (xs @ ys) s = scan_permissions parent (i + length xs) ys (scan_permissions parent i xs s)"
  by (induction xs arbitrary: i s) (auto simp: inside_def)

lemma scan_split:
  "\<exists>xs ys. ls = xs @ ys \<and> list_all (inside parent) xs \<and> (\<forall>j t. scan_permissions parent j ys t = t) \<and>
     bs_last (scan_permissions parent i ls s) = (if xs = [] then bs_last s else i + length xs - 1)"
proof (induction ls arbitrary: i s)
  case (Cons l ls)
  show ?case
  proof (cases "blank_or_comment l")
    case True
    obtain xs ys where x: "ls = xs @ ys" "list_all (inside parent) xs" "\<forall>j t. scan_permissions parent j ys t = t"
      "bs_last (scan_permissions parent (Suc i) ls s) = (if xs = [] then bs_last s else Suc i + length xs - 1)"
      using Cons.IH [of "Suc i" s] by blast
    show ?thesis
    proof (cases "xs = []")
      case True
      show ?thesis
        by (rule exI [of _ "[]"], rule exI [of _ "l # ls"]) (use x \<open>blank_or_comment l\<close> True in auto)
    next
      case False
      show ?thesis
        by (rule exI [of _ "l # xs"], rule exI [of _ ys]) (use x True False in \<open>simp add: inside_def [of _ l]\<close>)
    qed
  next
    case nb: False
    show ?thesis
    proof (cases "leading_spaces l \<le> parent")
      case True
      show ?thesis
        by (rule exI [of _ "[]"], rule exI [of _ "l # ls"]) (use nb True in auto)
    next
      case False
      let ?s = "\<lparr>bs_child = Some (case bs_child s of None \<Rightarrow> leading_spaces l | Some c \<Rightarrow> c), bs_last = i,
         bs_present = AList.update (line_label l) i (bs_present s)\<rparr>"
      obtain xs ys where x: "ls = xs @ ys" "list_all (inside parent) xs" "\<forall>j t. scan_permissions parent j ys t = t"
        "bs_last (scan_permissions parent (Suc i) ls ?s) = (if xs = [] then bs_last ?s else Suc i + length xs - 1)"
        using Cons.IH [of "Suc i" ?s] by blast
      show ?thesis
        by (rule exI [of _ "l # xs"], rule exI [of _ ys]) (use x nb False in \<open>simp add: inside_def [of _ l]\<close>)
    qed
  qed
qed (auto intro: exI [of _ "[]"])

lemma scan_present:
  "map_of (bs_present (scan_permissions parent i ls s)) k = Some j \<Longrightarrow>
   map_of (bs_present s) k = Some j \<or>
   i \<le> j \<and> j < i + length ls \<and> line_label (ls ! (j - i)) = k \<and> \<not> blank_or_comment (ls ! (j - i)) \<and> parent < leading_spaces (ls ! (j - i))"
proof (induction ls arbitrary: i s)
  case (Cons l ls)
  show ?case
  proof (cases "blank_or_comment l \<or> leading_spaces l \<le> parent")
    case True
    then show ?thesis using Cons.prems Cons.IH [of "Suc i" s] by (auto simp: nth_Cons' split: if_splits)
  next
    case False
    let ?s = "\<lparr>bs_child = Some (case bs_child s of None \<Rightarrow> leading_spaces l | Some c \<Rightarrow> c), bs_last = i,
         bs_present = AList.update (line_label l) i (bs_present s)\<rparr>"
    have "map_of (bs_present (scan_permissions parent (Suc i) ls ?s)) k = Some j" using Cons.prems False by simp
    from Cons.IH [OF this] show ?thesis using False by (auto simp: nth_Cons' AList.update_conv' split: if_splits)
  qed
qed simp

lemma scan_child:
  "bs_child (scan_permissions parent i ls s) = Some c \<Longrightarrow> bs_child s = Some c \<or> parent < c"
proof (induction ls arbitrary: i s)
  case (Cons l ls)
  then show ?case
    by (auto split: if_splits option.splits) (metis (no_types, lifting) Cons.IH block_scan.select_convs(1) not_le option.inject)+
qed simp

text \<open>What the loop over the present keys does: a line changes only to the line of a required permission.\<close>

definition retouched :: "string set \<Rightarrow> string \<Rightarrow> string \<Rightarrow> bool" where
  "retouched keys l l' \<longleftrightarrow> l = l' \<or> alike l l' \<and> line_label l \<in> keys"

lemma retouched_trans: "retouched A x y \<Longrightarrow> retouched B y z \<Longrightarrow> A \<union> B \<subseteq> C \<Longrightarrow> retouched C x z"
  by (auto simp: retouched_def alike_def)

lemma retouched_alike: "retouched keys l l' \<Longrightarrow> alike l l'"
  by (auto simp: retouched_def)

definition tracks :: "(string \<times> nat) list \<Rightarrow> string list \<Rightarrow> bool" where
  "tracks present ls \<longleftrightarrow> (\<forall>k i. map_of present k = Some i \<longrightarrow>
     i < length ls \<and> line_label (ls ! i) = k \<and> \<not> blank_or_comment (ls ! i))"

lemma tracks_alike: "tracks present ls \<Longrightarrow> list_all2 alike ls ls' \<Longrightarrow> tracks present ls'"
  unfolding tracks_def list_all2_conv_all_nth alike_def by metis

lemma correct_run:
  assumes "correct_permissions present perms (ls, c) = (ls', c')" "tracks present ls" "distinct (map fst perms)"
    "list_all writes_well perms"
  shows "list_all2 (retouched (fst ` set perms)) ls ls' \<and>
    (\<forall>k v i. (k, v) \<in> set perms \<longrightarrow> map_of present k = Some i \<longrightarrow> ls' ! i = entry_line (leading_spaces (ls' ! i)) k v) \<and>
    (\<forall>k i. k \<notin> fst ` set perms \<longrightarrow> map_of present k = Some i \<longrightarrow> ls' ! i = ls ! i)"
  using assms
proof (induction perms arbitrary: ls c)
  case Nil
  then show ?case by (auto simp: retouched_def list_all2_conv_all_nth)
next
  case (Cons kv perms)
  obtain k v where kv: "kv = (k, v)" by force
  show ?case
  proof (cases "map_of present k")
    case None
    then have "correct_permissions present perms (ls, c) = (ls', c')" using Cons.prems(1) kv by simp
    from Cons.IH [OF this Cons.prems(2)] Cons.prems(3,4) None show ?thesis
      by (auto simp: kv retouched_def list_all2_conv_all_nth)
  next
    case (Some i)
    let ?line = "entry_line (leading_spaces (ls ! i)) k v"
    define us where "us = ls[i := ?line]"
    have i: "i < length ls" "line_label (ls ! i) = k" "\<not> blank_or_comment (ls ! i)"
      using Cons.prems(2) Some by (auto simp: tracks_def)
    have well: "writes_well (k, v)" using Cons.prems(4) kv by simp
    have touched: "list_all2 (retouched {k}) ls us"
      using i entry_line_reads [OF well] by (auto simp: us_def list_all2_conv_all_nth retouched_def alike_def nth_list_update)
    then have alike: "list_all2 alike ls us" by (rule list_all2_mono) (rule retouched_alike)
    obtain d where run: "correct_permissions present perms (us, d) = (ls', c')"
      using Cons.prems(1) kv Some by (auto simp: us_def Let_def split: if_splits)
    have ih: "list_all2 (retouched (fst ` set perms)) us ls'"
      "\<forall>k v i. (k, v) \<in> set perms \<longrightarrow> map_of present k = Some i \<longrightarrow> ls' ! i = entry_line (leading_spaces (ls' ! i)) k v"
      "\<forall>k i. k \<notin> fst ` set perms \<longrightarrow> map_of present k = Some i \<longrightarrow> ls' ! i = us ! i"
      using Cons.IH [OF run tracks_alike [OF Cons.prems(2) alike]] Cons.prems(3,4) by auto
    have "list_all2 (retouched (fst ` set (kv # perms))) ls ls'"
      by (rule list_all2_trans [OF _ touched ih(1)]) (rule retouched_trans, auto simp: kv)
    moreover have "ls' ! i = ?line" using ih(3) Cons.prems(3) Some kv i(1) by (auto simp: us_def)
    moreover have "leading_spaces ?line = leading_spaces (ls ! i)" using entry_line_reads(3) [OF well] .
    moreover have "us ! j = ls ! j" if "map_of present m = Some j" "m \<noteq> k" for m j
    proof -
      have "j \<noteq> i" using that i(2) Cons.prems(2) by (auto simp: tracks_def)
      then show ?thesis by (simp add: us_def)
    qed
    ultimately show ?thesis using ih(2,3) Some kv Cons.prems(3) by auto
  qed
qed

lemma correct_done:
  assumes "\<And>k v i. (k, v) \<in> set perms \<Longrightarrow> map_of present k = Some i \<Longrightarrow> ls ! i = entry_line (leading_spaces (ls ! i)) k v"
  shows "correct_permissions present perms (ls, c) = (ls, c)"
  using assms
  by (induction perms) (auto simp: Let_def split: option.splits)

lemma scan_written:
  assumes "list_all writes_well es" "parent < child" "bs_child s \<in> {None, Some child}" "distinct (map fst es)"
  shows "(\<forall>n < length es. map_of (bs_present (scan_permissions parent i (map (\<lambda>(k, v). entry_line child k v) es) s)) (fst (es ! n)) = Some (i + n)) \<and>
    (\<forall>k. k \<notin> fst ` set es \<longrightarrow>
      map_of (bs_present (scan_permissions parent i (map (\<lambda>(k, v). entry_line child k v) es) s)) k = map_of (bs_present s) k)"
  using assms
proof (induction es arbitrary: i s)
  case (Cons e es)
  obtain k v where e: "e = (k, v)" by force
  note r = entry_line_reads [of k v]
  let ?s = "\<lparr>bs_child = Some child, bs_last = i, bs_present = AList.update k i (bs_present s)\<rparr>"
  have step: "scan_permissions parent i (map (\<lambda>(k, v). entry_line child k v) (e # es)) s =
      scan_permissions parent (Suc i) (map (\<lambda>(k, v). entry_line child k v) es) ?s"
    using Cons.prems r by (auto simp: e)
  have ih: "\<forall>n < length es. map_of (bs_present (scan_permissions parent (Suc i) (map (\<lambda>(k, v). entry_line child k v) es) ?s)) (fst (es ! n)) = Some (Suc i + n)"
    "\<forall>j. j \<notin> fst ` set es \<longrightarrow>
      map_of (bs_present (scan_permissions parent (Suc i) (map (\<lambda>(k, v). entry_line child k v) es) ?s)) j = map_of (bs_present ?s) j"
    using Cons.IH [of ?s "Suc i"] Cons.prems by auto
  show ?case
    unfolding step using ih Cons.prems(4) by (auto simp: e nth_Cons' AList.update_conv' less_Suc_eq_0_disj)
qed simp

lemma list_all2_take_drop:
  "list_all2 P xs ys \<Longrightarrow> list_all2 P (take m (drop n xs)) (take m (drop n ys))"
  by (auto simp: list_all2_conv_all_nth)

lemma filter_retouched:
  "list_all2 (retouched keys) xs ys \<Longrightarrow> filter (\<lambda>l. line_label l \<notin> keys) xs = filter (\<lambda>l. line_label l \<notin> keys) ys"
  by (induction rule: list_all2_induct) (auto simp: retouched_def alike_def)

lemma insert_missing_settled:
  assumes run: "insert_missing_permissions ls p stop parent perms = (ls', changed)"
    and bounds: "p < stop" "stop \<le> length ls"
    and perms: "distinct (map fst perms)" "list_all writes_well perms"
  shows "insert_missing_permissions ls' p (stop + (length ls' - length ls)) parent perms = (ls', False) \<and>
    (\<forall>(k, v) \<in> set perms. \<exists>i. p < i \<and> i < stop + (length ls' - length ls) \<and> parent < leading_spaces (ls' ! i) \<and>
       ls' ! i = entry_line (leading_spaces (ls' ! i)) k v) \<and>
    filter (\<lambda>l. line_label l \<notin> fst ` set perms) ls' = filter (\<lambda>l. line_label l \<notin> fst ` set perms) ls"
proof -
  let ?s0 = "\<lparr>bs_child = None, bs_last = p, bs_present = []\<rparr>" and ?block = "take (stop - Suc p) (drop (Suc p) ls)"
  define s where "s = scan_permissions parent (Suc p) ?block ?s0"
  define child where "child = (case bs_child s of None \<Rightarrow> parent + 2 | Some c \<Rightarrow> c)"
  define new where "new = filter (\<lambda>(k, _). map_of (bs_present s) k = None) perms"
  define ins where "ins = map (\<lambda>(k, v). entry_line child k v) new"
  obtain us c where us: "correct_permissions (bs_present s) perms (ls, False) = (us, c)" by force
  obtain xs ys where split: "?block = xs @ ys" "list_all (inside parent) xs"
      "\<forall>j t. scan_permissions parent j ys t = t" "bs_last s = (if xs = [] then p else Suc p + length xs - 1)"
    using scan_split [of ?block parent "Suc p" ?s0] by (auto simp: s_def)
  have len: "Suc p + length xs + length ys = stop"
    using split(1) bounds by (metis add.assoc add_diff_inverse_nat diff_le_mono length_append length_drop length_take min.absorb2 not_less_eq Suc_leI le_add_diff_inverse)
  have s: "s = scan_permissions parent (Suc p) xs ?s0"
    using split(1,2,3) scan_append [of parent xs "Suc p" ys ?s0] by (simp add: s_def)
  have xs: "xs = take (length xs) (drop (Suc p) ls)" and ys: "ys = take (length ys) (drop (Suc p + length xs) ls)"
    using split(1) len by (metis append_eq_conv_conj take_take min.absorb1 le_add1 add_diff_cancel_left' add.assoc,
      metis append_eq_conv_conj take_drop drop_take drop_drop add.commute add_diff_cancel_left' add.assoc)
  define a where "a = Suc p + length xs"
  have last: "Suc (bs_last s) = a" using split(4) by (auto simp: a_def)
  have present: "p < j \<and> j < a \<and> line_label (ls ! j) = k \<and> \<not> blank_or_comment (ls ! j) \<and> parent < leading_spaces (ls ! j)"
    if "map_of (bs_present s) k = Some j" for k j
  proof -
    have j: "Suc p \<le> j" "j < a" "line_label (xs ! (j - Suc p)) = k" "\<not> blank_or_comment (xs ! (j - Suc p))"
      "parent < leading_spaces (xs ! (j - Suc p))"
      using scan_present [of parent "Suc p" xs ?s0 k j] that s by (auto simp: a_def)
    have "xs ! (j - Suc p) = ls ! j" using j(1,2) len bounds(2) by (subst xs) (simp add: a_def)
    then show ?thesis using j by simp
  qed
  have tracks: "tracks (bs_present s) ls"
    unfolding tracks_def using present len bounds(2) by (fastforce simp: a_def)
  note u = correct_run [OF us tracks perms]
  have lus: "length us = length ls" using u by (auto simp: list_all2_lengthD)
  have ls': "ls' = take a us @ ins @ drop a us"
    using run us last by (auto simp: insert_missing_permissions_def s_def [symmetric] child_def [symmetric] new_def [symmetric]
        insert_lines_def ins_def Let_def split: if_splits)
  have n: "length ls' = length ls + length ins" using ls' lus len bounds(2) by (simp add: a_def)
  let ?n = "length ins" and ?xs = "take (length xs) (drop (Suc p) us)" and ?ys = "take (length ys) (drop a us)"
  have block: "take (stop + ?n - Suc p) (drop (Suc p) ls') = ?xs @ ins @ ?ys"
  proof -
    have "a \<le> length us" "Suc p \<le> a" using lus len bounds(2) by (simp_all add: a_def)
    then have "drop (Suc p) ls' = ?xs @ ins @ drop a us" by (simp add: ls' drop_take a_def)
    moreover have "stop + ?n - Suc p = length xs + (?n + length ys)" using len by simp
    moreover have "length ?xs = length xs" using lus len bounds(2) by simp
    ultimately show ?thesis by (simp add: take_add)
  qed
  have alike: "list_all2 alike ls us" using u by (auto intro: list_all2_mono retouched_alike)
  have ax: "list_all2 alike xs ?xs"
    using list_all2_take_drop [OF alike, of "length xs" "Suc p"] unfolding xs [symmetric] .
  have ay: "list_all2 alike ys ?ys"
    using list_all2_take_drop [OF alike, of "length ys" a] unfolding ys [folded a_def, symmetric] .
  have lx: "length ?xs = length xs" by (rule list_all2_lengthD [OF ax, symmetric])
  have parent: "parent < child" "bs_child s \<in> {None, Some child}"
    using scan_child [of parent "Suc p" ?block ?s0] by (auto simp: child_def s_def split: option.splits)
  have new: "list_all writes_well new" "distinct (map fst new)"
    using perms by (auto simp: new_def list_all_iff distinct_map_filter)
  have inx: "list_all (inside parent) ?xs"
    using split(2) ax by (auto simp: list_all_length list_all2_conv_all_nth inside_def alike_def)
  have inn: "list_all (inside parent) ins"
    using parent(1) new(1) entry_line_reads(3) by (fastforce simp: ins_def list_all_iff inside_def)
  define s2 where "s2 = scan_permissions parent a ins s"
  have s2: "scan_permissions parent (Suc p) (take (stop + ?n - Suc p) (drop (Suc p) ls')) ?s0 = s2"
    using scan_append [OF inx, of "Suc p" "ins @ ?ys" ?s0] scan_append [OF inn, of a ?ys] scan_alike [OF ax, of parent "Suc p" ?s0]
      scan_alike [OF ay] split(3) lx
    by (simp add: block s2_def s a_def)
  note w = scan_written [OF new(1) parent new(2), of a, folded ins_def s2_def]
  have found: "\<exists>i. map_of (bs_present s2) k = Some i \<and> p < i \<and> i < stop + ?n \<and> parent < leading_spaces (ls' ! i) \<and>
      ls' ! i = entry_line (leading_spaces (ls' ! i)) k v" if kv: "(k, v) \<in> set perms" for k v
  proof (cases "map_of (bs_present s) k")
    case (Some i)
    note i = present [OF Some]
    have "k \<notin> fst ` set new" using Some by (auto simp: new_def)
    then have "map_of (bs_present s2) k = Some i" using w Some by simp
    moreover have at: "ls' ! i = us ! i" using i lus len bounds(2) by (simp add: ls' nth_append a_def)
    moreover have "us ! i = entry_line (leading_spaces (us ! i)) k v" using u kv Some by blast
    moreover have "leading_spaces (us ! i) = leading_spaces (ls ! i)"
      using alike i len bounds(2) by (simp add: list_all2_conv_all_nth alike_def a_def)
    ultimately show ?thesis using i len by (intro exI [of _ i]) (simp add: a_def)
  next
    case None
    then have "(k, v) \<in> set new" using kv by (simp add: new_def)
    then obtain m where m: "m < length new" "new ! m = (k, v)" by (metis in_set_conv_nth)
    have "map_of (bs_present s2) k = Some (a + m)" using w m by (metis fst_conv)
    moreover have "ls' ! (a + m) = entry_line child k v"
      using m lus len bounds(2) by (simp add: ls' nth_append a_def ins_def)
    moreover have "leading_spaces (entry_line child k v) = child"
      using entry_line_reads(3) new(1) \<open>(k, v) \<in> set new\<close> by (auto simp: list_all_iff)
    moreover have "p < a + m \<and> a + m < stop + ?n" using m len by (simp add: a_def ins_def)
    ultimately show ?thesis using parent(1) by (intro exI [of _ "a + m"]) simp
  qed
  have "correct_permissions (bs_present s2) perms (ls', False) = (ls', False)"
    by (rule correct_done) (metis found option.inject)
  moreover have "filter (\<lambda>(k, _). map_of (bs_present s2) k = None) perms = []"
    using found by (fastforce simp: filter_empty_conv)
  ultimately have "insert_missing_permissions ls' p (stop + ?n) parent perms = (ls', False)"
    using s2 by (simp add: insert_missing_permissions_def Let_def)
  moreover have "filter (\<lambda>l. line_label l \<notin> fst ` set perms) ls' = filter (\<lambda>l. line_label l \<notin> fst ` set perms) ls"
  proof -
    have "\<forall>l \<in> set ins. line_label l \<in> fst ` set perms"
      using entry_line_reads(2) new(1) by (force simp: ins_def new_def list_all_iff)
    then have "filter (\<lambda>l. line_label l \<notin> fst ` set perms) ins = []" by (simp add: filter_empty_conv)
    then have "filter (\<lambda>l. line_label l \<notin> fst ` set perms) ls' =
        filter (\<lambda>l. line_label l \<notin> fst ` set perms) (take a us @ drop a us)" by (simp only: ls' filter_append append_Nil)
    then show ?thesis using filter_retouched u by (metis append_take_drop_id)
  qed
  ultimately show ?thesis using found n by fastforce
qed

text \<open>
  C22. Repairing a permissions block settles it. Afterwards every permission the caller needs is a line of the
  block with the required grant, every line for another key is left as it was and where it was among the others,
  and a second repair of the block changes nothing.
\<close>

theorem permissions_settle:
  assumes "insert_missing_permissions ls p stop parent perms = (ls', changed)" "p < stop" "stop \<le> length ls"
    and "perms \<in> {required_release_permissions, ci_caller_permissions}"
  shows "insert_missing_permissions ls' p (stop + (length ls' - length ls)) parent perms = (ls', False) \<and>
    (\<forall>(k, v) \<in> set perms. \<exists>i. p < i \<and> i < stop + (length ls' - length ls) \<and> parent < leading_spaces (ls' ! i) \<and>
       ls' ! i = entry_line (leading_spaces (ls' ! i)) k v) \<and>
    filter (\<lambda>l. line_label l \<notin> fst ` set perms) ls' = filter (\<lambda>l. line_label l \<notin> fst ` set perms) ls"
  by (rule insert_missing_settled [OF assms(1-3)])
    (use assms(4) permissions_write_well in \<open>auto simp: required_release_permissions_def ci_caller_permissions_def\<close>)

definition sample_block :: "string list" where
  "sample_block = [''    permissions:'', ''      contents: write'', ''      pages: write'', ''    uses: x'']"

theorem permissions_settle_witness:
  "\<exists>ls' changed. insert_missing_permissions sample_block 0 4 4 ci_caller_permissions = (ls', changed) \<and>
     insert_missing_permissions ls' 0 (4 + (length ls' - 4)) 4 ci_caller_permissions = (ls', False) \<and>
     filter (\<lambda>l. line_label l \<notin> fst ` set ci_caller_permissions) ls' =
       [''    permissions:'', ''      pages: write'', ''    uses: x'']"
proof -
  obtain ls' changed where run: "insert_missing_permissions sample_block 0 4 4 ci_caller_permissions = (ls', changed)" by force
  have len: "length sample_block = 4" by (simp add: sample_block_def)
  have "filter (\<lambda>l. line_label l \<notin> fst ` set ci_caller_permissions) sample_block =
      [''    permissions:'', ''      pages: write'', ''    uses: x'']" by code_simp
  then show ?thesis using permissions_settle [OF run] run len by auto
qed

section \<open>Files the edits leave alone\<close>

lemma join_split_str: "str_join sep (split_str sep s) = s"
proof (induction sep s rule: split_str.induct)
  case (1 sep s)
  show ?case
  proof (cases "sep = [] \<or> str_cut s sep = None")
    case True
    then show ?thesis by (subst split_str.simps) auto
  next
    case False
    then obtain a b where cut: "str_cut s sep = Some (a, b)" by auto
    have "s = a @ sep @ b"
      using cut by (auto simp: str_cut_def split: option.splits dest!: str_index_Some)
        (metis append_take_drop_id drop_drop add.commute)
    moreover have "split_str sep b \<noteq> []" by (subst split_str.simps) (auto split: option.splits)
    moreover have "str_join sep (split_str sep b) = b" using 1 False cut by blast
    ultimately show ?thesis
      using False cut by (subst split_str.simps) (cases "split_str sep b"; simp)
  qed
qed

lemma edit_each_unchanged:
  assumes "\<And>ls u ls'. f ls u = (ls', False) \<Longrightarrow> ls' = ls"
  shows "edit_each f us (ls, c) = (ls', False) \<Longrightarrow> \<not> c \<and> ls' = ls"
proof (induction us arbitrary: ls c)
  case (Cons u us)
  obtain ls1 did where f: "f ls u = (ls1, did)" by force
  have "\<not> (c \<or> did) \<and> ls' = ls1" by (rule Cons.IH) (use Cons.prems f in simp)
  then show ?case using f assms [of ls u ls1] by simp
qed simp

text \<open>An edit that reports no change gives the file back byte for byte, mixed line endings included.\<close>

lemma edit_jobs_unchanged:
  assumes "\<And>ls u ls'. f ls u = (ls', False) \<Longrightarrow> ls' = ls" "edit_jobs f ref content = (content', False)"
  shows "content' = content"
proof -
  let ?ls = "split_str (line_ending content) content"
  obtain ls where run: "edit_each f (rev (all_uses ref ?ls)) (?ls, False) = (ls, False)" "content' = str_join (line_ending content) ls"
    using assms(2) by (auto simp: edit_jobs_def Let_def split: prod.splits)
  have "ls = ?ls" using edit_each_unchanged [OF assms(1) run(1)] by simp
  then show ?thesis using run(2) join_split_str by simp
qed

text \<open>
  A grant that is right but carries a comment is rewritten, its comment lost; a quoted key is not recognised and
  gets a second entry.
\<close>

lemma granted_comment_is_lost:
  "insert_missing_permissions [''  permissions:'', ''    contents: write # publish'', ''    id-token: write'', ''    attestations: write''] 0 4 2
     required_release_permissions =
   ([''  permissions:'', ''    contents: write'', ''    id-token: write'', ''    attestations: write''], True)"
  by code_simp

lemma quoted_key_is_doubled:
  "fst (insert_missing_permissions [''  permissions:'', ''    '' @ [CHR 0x22] @ ''contents'' @ [CHR 0x22] @ '': write''] 0 2 2
     required_release_permissions) =
   [''  permissions:'', ''    '' @ [CHR 0x22] @ ''contents'' @ [CHR 0x22] @ '': write'', ''    contents: write'', ''    id-token: write'', ''    attestations: write'']"
  by code_simp

end
