(* ===== verification/Scaffold.thy ===== *)
theory Scaffold
  imports Workflow CacheManifest
begin

text \<open>
  \<open>go-mk scaffold\<close> (\<open>scaffold.go\<close>): the module, the layout, the Makefile, \<open>bootstrap.mk\<close>, the two workflow callers,
  \<open>.gitignore\<close> and the tool directives of \<open>go.mod\<close>. Parameters: the embedded assets and the rendering of the
  Makefile template, \<open>go/build\<close>, directory listings, the terminal, the JSON of \<open>go mod edit\<close> and file modes.
  Standard error is not modelled.
\<close>

record scaffold_options =
  so_module :: string
  so_vanity :: string
  so_library :: bool
  so_binary :: bool
  so_yes :: bool

record scaffold_context =
  sc_binary :: string
  sc_cmd :: string
  sc_layout :: string
  sc_vpkg :: string

datatype scaffold_error =
    BothLayouts
  | ModuleEmpty
  | GoMissing
  | ModuleUnknown
  | NoTerminal string
  | PromptFailed
  | WorkingDirectoryUnknown
  | ModuleLineMissing
  | ScaffoldFile string
  | ScaffoldCommand "string list"
  | PackageUnreadable string
  | DirectoryUnreadable string
  | ToolsUndecodable

type_synonym 'a scaffold_step = "tool_world \<Rightarrow> (scaffold_error, 'a) result \<times> tool_world"

definition s_bind :: "'a scaffold_step \<Rightarrow> ('a \<Rightarrow> 'b scaffold_step) \<Rightarrow> 'b scaffold_step" where
  "s_bind m f w = (case m w of (Inl e, w) \<Rightarrow> (Inl e, w) | (Inr a, w) \<Rightarrow> f a w)"

definition s_return :: "'a \<Rightarrow> 'a scaffold_step" where
  "s_return a w = (Inr a, w)"

definition s_fail :: "scaffold_error \<Rightarrow> 'a scaffold_step" where
  "s_fail e w = (Inl e, w)"

definition s_say :: "string \<Rightarrow> unit scaffold_step" where
  "s_say message w = (Inr (), t_println message w)"

definition s_write :: "string \<Rightarrow> string \<Rightarrow> unit scaffold_step" where
  "s_write path content w =
     (case t_set WriteCall path (Some content) w of (ok, w) \<Rightarrow> (if ok then Inr () else Inl (ScaffoldFile path), w))"

definition s_mkdir :: "string \<Rightarrow> unit scaffold_step" where
  "s_mkdir path w = (case t_try MkdirCall w of (ok, w) \<Rightarrow> (if ok then Inr () else Inl (ScaffoldFile path), w))"

definition s_chmod :: "string \<Rightarrow> unit scaffold_step" where
  "s_chmod path w = (case t_try WriteCall w of (ok, w) \<Rightarrow> (if ok then Inr () else Inl (ScaffoldFile path), w))"

definition s_read :: "string \<Rightarrow> string scaffold_step" where
  "s_read path w = (case t_read path w of (Content s, w) \<Rightarrow> (Inr s, w) | (_, w) \<Rightarrow> (Inl (ScaffoldFile path), w))"

definition s_exists :: "string \<Rightarrow> bool scaffold_step" where
  "s_exists path w = (case t_exists path w of (b, w) \<Rightarrow> (Inr b, w))"

definition s_is_dir :: "string \<Rightarrow> bool scaffold_step" where
  "s_is_dir path w = (Inr (\<not> t_fails StatCall w \<and> tw_dirs w path), t_tick w)"

record scaffold_env =
  se_bootstrap :: string
  se_ci :: string
  se_release :: string
  se_makefile :: "scaffold_context \<Rightarrow> string"
  se_command :: "tool_world \<Rightarrow> string \<Rightarrow> bool option"
  se_subdirs :: "tool_world \<Rightarrow> string \<Rightarrow> string list option"
  se_terminal :: bool
  se_answer :: "tool_world \<Rightarrow> string option"
  se_has_go :: "tool_world \<Rightarrow> bool"
  se_tools :: "string \<Rightarrow> string list option"
  se_mode_ok :: "tool_world \<Rightarrow> bool option"

text \<open>
  \<open>bufio.Scanner\<close> with its default buffer: the lines before the first one that is too long, and whether none was.
\<close>

definition default_scan_limit :: nat where "default_scan_limit = 65536"

definition scanned :: "string \<Rightarrow> string list" where
  "scanned s = map drop_cr (takeWhile (\<lambda>l. length l < default_scan_limit) (scan_records s))"

definition scanned_all :: "string \<Rightarrow> bool" where
  "scanned_all s \<longleftrightarrow> list_all (\<lambda>l. length l < default_scan_limit) (scan_records s)"

section \<open>The module\<close>

definition module_of_line :: "string \<Rightarrow> string option" where
  "module_of_line l = (case str_fields l of a # b # _ \<Rightarrow> if a = ''module'' then Some b else None | _ \<Rightarrow> None)"

definition module_of :: "string \<Rightarrow> (scaffold_error, string) result" where
  "module_of s =
     (case List.map_filter module_of_line (scanned s) of
        m # _ \<Rightarrow> Inr m
      | [] \<Rightarrow> Inl (if scanned_all s then ModuleLineMissing else ScaffoldFile ''go.mod''))"

definition read_module_path :: "string scaffold_step" where
  "read_module_path = s_bind (s_read ''go.mod'') (\<lambda>s w. (module_of s, w))"

definition default_vanity_root :: string where "default_vanity_root = ''goodkind.io''"

definition resolve_vanity_root :: "scaffold_options \<Rightarrow> tool_world \<Rightarrow> string" where
  "resolve_vanity_root opts w =
     (if \<not> blank (so_vanity opts) then trim_space (so_vanity opts)
      else if \<not> blank (tenv w ''GO_VANITY_ROOT'') then trim_space (tenv w ''GO_VANITY_ROOT'') else default_vanity_root)"

definition after_first :: "string \<Rightarrow> string \<Rightarrow> string" where
  "after_first sep s = (case str_cut s sep of None \<Rightarrow> s | Some (_, b) \<Rightarrow> b)"

definition without_git_suffix :: "string \<Rightarrow> string" where
  "without_git_suffix s = trim_suffix (trim_suffix s ''/'') ''.git''"

definition normalize_git_remote :: "string \<Rightarrow> string" where
  "normalize_git_remote raw =
     (let url = trim_space raw in
      if prefix ''git@'' url \<and> str_contains url '':'' then
        (let p = trim_prefix url ''git@''
         in without_git_suffix (case str_cut p '':'' of None \<Rightarrow> p | Some (a, b) \<Rightarrow> a @ ''/'' @ b))
      else if prefix ''http://'' url \<or> prefix ''https://'' url \<or> prefix ''ssh://'' url
        then without_git_suffix (after_first ''@'' (after_first ''://'' url))
      else [])"

definition inside_work_tree :: "tool_world \<Rightarrow> bool \<times> tool_world" where
  "inside_work_tree w =
     (case t_output [''git'', ''rev-parse'', ''--is-inside-work-tree''] w of (Inl _, w) \<Rightarrow> (False, w) | (Inr _, w) \<Rightarrow> (True, w))"

definition remote_module :: "tool_world \<Rightarrow> string \<times> tool_world" where
  "remote_module w =
     (case inside_work_tree w of
        (False, w) \<Rightarrow> ([], w)
      | (True, w) \<Rightarrow>
          (case logged_git_output [''config'', ''--get'', ''remote.origin.url''] w of
             (Inl _, w) \<Rightarrow> ([], w) | (Inr url, w) \<Rightarrow> (normalize_git_remote url, w)))"

definition infer_module_path :: "string \<Rightarrow> string scaffold_step" where
  "infer_module_path vanity w =
     (case remote_module w of (m, w) \<Rightarrow>
        if m \<noteq> [] then (Inr m, w)
        else (case tw_cwd w of
                None \<Rightarrow> (Inl WorkingDirectoryUnknown, w)
              | Some d \<Rightarrow>
                  (let base = path_base d
                   in (Inr (if vanity \<noteq> [] \<and> base \<noteq> [] \<and> base \<noteq> ''/'' then vanity @ ''/'' @ base else []), w))))"

definition defaulted_answer :: "string \<Rightarrow> string \<Rightarrow> string" where
  "defaulted_answer answer fallback = (if blank answer then fallback else trim_space answer)"

definition resolve_new_module :: "scaffold_env \<Rightarrow> scaffold_options \<Rightarrow> string scaffold_step" where
  "resolve_new_module se opts w =
     (if \<not> blank (so_module opts) then (Inr (trim_space (so_module opts)), w)
      else if \<not> blank (tenv w ''GO_MODULE_PATH'') then (Inr (trim_space (tenv w ''GO_MODULE_PATH'')), w)
      else s_bind (infer_module_path (resolve_vanity_root opts w)) (\<lambda>m w.
        if m = [] then (Inl ModuleUnknown, w)
        else if se_terminal se \<and> \<not> so_yes opts
          then (case se_answer se w of None \<Rightarrow> (Inl PromptFailed, w) | Some a \<Rightarrow> (Inr (defaulted_answer a m), w))
        else if \<not> so_yes opts then (Inl (NoTerminal m), w)
        else (Inr m, w)) w)"

definition scaffold_process :: "string list \<Rightarrow> unit scaffold_step" where
  "scaffold_process argv w =
     (case run_command (tw_environ w) argv w of (Inl _, w) \<Rightarrow> (Inl (ScaffoldCommand argv), w) | (Inr _, w) \<Rightarrow> (Inr (), w))"

definition ensure_go_module :: "scaffold_env \<Rightarrow> scaffold_options \<Rightarrow> string scaffold_step" where
  "ensure_go_module se opts =
     s_bind (s_exists ''go.mod'') (\<lambda>there.
       if there then read_module_path
       else s_bind (resolve_new_module se opts) (\<lambda>m w.
         if blank m then (Inl ModuleEmpty, w)
         else if \<not> se_has_go se w then (Inl GoMissing, w)
         else s_bind (s_say (''running: go mod init '' @ m)) (\<lambda>_.
              s_bind (scaffold_process [''go'', ''mod'', ''init'', m]) (\<lambda>_. read_module_path)) w))"

section \<open>The layout\<close>

definition subdirectories :: "scaffold_env \<Rightarrow> string \<Rightarrow> string list scaffold_step" where
  "subdirectories se d w = (case se_subdirs se w d of None \<Rightarrow> (Inl (DirectoryUnreadable d), w) | Some ds \<Rightarrow> (Inr ds, w))"

definition builds_command :: "scaffold_env \<Rightarrow> string \<Rightarrow> bool scaffold_step" where
  "builds_command se d w = (case se_command se w d of None \<Rightarrow> (Inl (PackageUnreadable d), w) | Some b \<Rightarrow> (Inr b, w))"

definition resolve_layout :: "scaffold_env \<Rightarrow> scaffold_options \<Rightarrow> string scaffold_step" where
  "resolve_layout se opts =
     (if so_library opts then s_return ''library''
      else if so_binary opts then s_return ''binary''
      else s_bind (subdirectories se ''cmd'') (\<lambda>ds.
        if ds \<noteq> [] then s_return ''binary''
        else s_bind (builds_command se ''.'') (\<lambda>b. s_return (if b then ''binary'' else ''library''))))"

definition command_of :: "scaffold_env \<Rightarrow> string \<Rightarrow> (string \<times> string) scaffold_step" where
  "command_of se name =
     s_bind (subdirectories se ''cmd'') (\<lambda>ds.
     s_bind (s_is_dir (path_join [''cmd'', name])) (\<lambda>there.
       if there then s_return (name, ''./cmd/'' @ name)
       else case ds of
         [d] \<Rightarrow> s_return (d, ''./cmd/'' @ d)
       | [] \<Rightarrow> s_bind (builds_command se ''.'') (\<lambda>root. s_return (name, if root then ''.'' else ''./cmd/'' @ name))
       | _ \<Rightarrow> s_return (name, ''./cmd/'' @ name)))"

definition build_context :: "scaffold_env \<Rightarrow> string \<Rightarrow> string \<Rightarrow> scaffold_context scaffold_step" where
  "build_context se module layout =
     (if layout \<noteq> ''binary'' then s_return \<lparr>sc_binary = [], sc_cmd = [], sc_layout = layout, sc_vpkg = []\<rparr>
      else s_bind (command_of se (path_base module)) (\<lambda>(binary, cmd).
        s_bind (s_is_dir (path_join [''internal'', ''version''])) (\<lambda>v.
          s_return \<lparr>sc_binary = binary, sc_cmd = cmd, sc_layout = layout,
            sc_vpkg = (if v then module @ ''/internal/version'' else [])\<rparr>)))"

definition scaffold_summary :: "string \<Rightarrow> scaffold_context \<Rightarrow> string" where
  "scaffold_summary module ctx =
     ''module:  '' @ module @ newline @ ''layout:  '' @ sc_layout ctx @ newline @
     (if sc_layout ctx = ''binary'' then ''binary:  '' @ sc_binary ctx @ newline @ ''cmd:     '' @ sc_cmd ctx @ newline else [])"

section \<open>The Makefile\<close>

definition generated_first_line :: string where
  "generated_first_line = ''# '' @ [CHR 0x60] @ ''make help'' @ [CHR 0x60] @ '' is the canonical source of truth for every target this repo''"

definition generated_keys :: "string list" where
  "generated_keys = [''BINARY'', ''CMD'', ''VPKG'', ''LIBRARY'', ''GO_MK_MODULES'']"

definition generated_assignment :: "string \<Rightarrow> bool" where
  "generated_assignment l = (case str_cut l '':='' of None \<Rightarrow> False | Some (k, _) \<Rightarrow> trim_space k \<in> set generated_keys)"

text \<open>\<open>strings.ReplaceAll(content, "\r\n", "\n")\<close>.\<close>

definition unix_lines :: "string \<Rightarrow> string" where
  "unix_lines s = str_join newline (split_str [CHR 0x0D, CHR 0x0A] s)"

definition managed_line :: "string \<Rightarrow> bool" where
  "managed_line l \<longleftrightarrow> l = ''include bootstrap.mk'' \<or> l = ''.DEFAULT_GOAL := check'' \<or> generated_assignment l"

definition clearly_generated :: "string \<Rightarrow> bool" where
  "clearly_generated raw \<longleftrightarrow>
     (let content = unix_lines raw;
          ls = filter (\<lambda>l. l \<noteq> [] \<and> \<not> prefix ''#'' l) (map trim_space (scanned content))
      in prefix generated_first_line content \<and> list_all managed_line ls \<and> ls \<noteq> [])"

definition reconcile_makefile :: "scaffold_env \<Rightarrow> scaffold_context \<Rightarrow> unit scaffold_step" where
  "reconcile_makefile se ctx =
     (let rendered = se_makefile se ctx in
      s_bind (s_exists ''Makefile'') (\<lambda>there.
        if \<not> there then s_bind (s_write ''Makefile'' rendered) (\<lambda>_. s_say (''created Makefile ('' @ sc_layout ctx @ '')''))
        else s_bind (s_read ''Makefile'') (\<lambda>content.
          if content = rendered then s_say ''skipping Makefile (already current)''
          else if clearly_generated content
            then s_bind (s_write ''Makefile'' rendered) (\<lambda>_. s_say (''updated Makefile ('' @ sc_layout ctx @ '')''))
          else s_return ())))"

definition assignment_of_line :: "string \<Rightarrow> string \<Rightarrow> string option" where
  "assignment_of_line key raw =
     (let l = trim_space raw in
      if l = [] \<or> prefix ''#'' l then None
      else (case (case str_cut l '':='' of None \<Rightarrow> str_cut l ''='' | Some kv \<Rightarrow> Some kv) of
              None \<Rightarrow> None | Some (k, v) \<Rightarrow> if trim_space k = key then Some (trim_space v) else None))"

definition read_makefile_assignment :: "string \<Rightarrow> string \<Rightarrow> tool_world \<Rightarrow> string option \<times> tool_world" where
  "read_makefile_assignment path key w =
     (case t_read path w of
        (Content s, w) \<Rightarrow>
          (case List.map_filter (assignment_of_line key) (scanned s) of [] \<Rightarrow> None | v # _ \<Rightarrow> Some v, w)
      | (_, w) \<Rightarrow> (None, w))"

definition release_workflow_binary :: "scaffold_context \<Rightarrow> string scaffold_step" where
  "release_workflow_binary ctx w =
     (case read_makefile_assignment ''Makefile'' ''BINARY'' w of
        (None, w) \<Rightarrow> (Inr (sc_binary ctx), w) | (Some b, w) \<Rightarrow> (Inr b, w))"

definition safe_binary_char :: "char \<Rightarrow> bool" where
  "safe_binary_char c \<longleftrightarrow> is_upper c \<or> is_lower c \<or> is_digit c \<or> c \<in> {CHR ''.'', CHR ''_'', CHR ''-''}"

definition safe_binary_name :: "string \<Rightarrow> bool" where
  "safe_binary_name b \<longleftrightarrow> b \<noteq> [] \<and> list_all safe_binary_char b"

section \<open>The bootstrap shim\<close>

definition is_engine_repo :: "tool_world \<Rightarrow> bool \<times> tool_world" where
  "is_engine_repo w =
     (case t_exists ''cmd/go-mk/scaffold_assets/bootstrap.mk'' w of
        (False, w) \<Rightarrow> (False, w)
      | (True, w) \<Rightarrow>
          (case t_exists ''go.mod'' w of
             (False, w) \<Rightarrow> (False, w)
           | (True, w) \<Rightarrow>
               (case read_module_path w of (Inl _, w) \<Rightarrow> (False, w) | (Inr m, w) \<Rightarrow> (m = ''goodkind.io/go-makefile'', w))))"

definition bootstrap_header :: string where
  "bootstrap_header =
     ''# DO NOT MODIFY.'' @ newline @ ''#'' @ newline @
     ''# Owned by go-makefile. This shim fetches the engine and includes go.mk.'' @ newline @
     ''# Refresh with: go-mk scaffold'' @ newline @ ''# https://github.com/agoodkind/go-makefile'' @ newline"

text \<open>Comment lines go, but not in a recipe or inside a \<open>define\<close>.\<close>

fun strip_comments :: "nat \<Rightarrow> string list \<Rightarrow> string list" where
  "strip_comments depth [] = []"
| "strip_comments depth (l # ls) =
     (if prefix tab l then l # strip_comments depth ls
      else (case str_fields l of
              f # fs \<Rightarrow>
                if f = ''define'' then l # strip_comments (Suc depth) ls
                else if fs = [] \<and> f = ''endef'' \<and> 0 < depth then l # strip_comments (depth - 1) ls
                else if depth = 0 \<and> prefix ''#'' (trim_left l '' '') then strip_comments depth ls
                else l # strip_comments depth ls
            | [] \<Rightarrow>
                if depth = 0 \<and> prefix ''#'' (trim_left l '' '') then strip_comments depth ls
                else l # strip_comments depth ls))"

fun collapse_blank :: "bool \<Rightarrow> string list \<Rightarrow> string list" where
  "collapse_blank before [] = []"
| "collapse_blank before (l # ls) =
     (if blank l \<and> before then collapse_blank before ls else l # collapse_blank (blank l) ls)"

definition consumer_bootstrap :: "string \<Rightarrow> string" where
  "consumer_bootstrap canonical =
     (if \<not> scanned_all canonical then canonical
      else (let body = trim_right (str_join newline (collapse_blank False (strip_comments 0 (scanned canonical)))) newline
            in bootstrap_header @ newline @ (if body = [] then [] else body @ newline)))"

definition write_bootstrap :: "string \<Rightarrow> unit scaffold_step" where
  "write_bootstrap contents =
     s_bind (s_exists ''bootstrap.mk'') (\<lambda>there.
       s_bind (if there then s_chmod ''bootstrap.mk'' else s_return ()) (\<lambda>_. s_write ''bootstrap.mk'' contents))"

definition refresh_bootstrap_mode :: "scaffold_env \<Rightarrow> unit scaffold_step" where
  "refresh_bootstrap_mode se w =
     (case se_mode_ok se w of
        None \<Rightarrow> (Inl (ScaffoldFile ''bootstrap.mk''), w)
      | Some True \<Rightarrow> s_say ''skipping bootstrap.mk (already current)'' w
      | Some False \<Rightarrow> s_bind (s_chmod ''bootstrap.mk'') (\<lambda>_. s_say ''updated bootstrap.mk'') w)"

definition reconcile_bootstrap :: "scaffold_env \<Rightarrow> unit scaffold_step" where
  "reconcile_bootstrap se w =
     (case is_engine_repo w of
        (True, w) \<Rightarrow> s_say ''skipping bootstrap.mk (go-makefile engine repo)'' w
      | (False, w) \<Rightarrow>
          (let contents = consumer_bootstrap (se_bootstrap se) in
           s_bind (s_exists ''bootstrap.mk'') (\<lambda>there.
             if \<not> there then s_bind (write_bootstrap contents) (\<lambda>_. s_say ''created bootstrap.mk'')
             else s_bind (s_read ''bootstrap.mk'') (\<lambda>existing.
               if existing = contents then refresh_bootstrap_mode se
               else s_bind (write_bootstrap contents) (\<lambda>_. s_say ''updated bootstrap.mk''))) w))"

section \<open>The workflow callers\<close>

definition ci_workflow :: string where "ci_workflow = ''.github/workflows/ci.yml''"
definition release_workflow :: string where "release_workflow = ''.github/workflows/release.yml''"
definition ci_ref :: string where "ci_ref = ''agoodkind/go-makefile/.github/workflows/_ci.yml''"
definition release_ref :: string where "release_ref = ''agoodkind/go-makefile/.github/workflows/_release.yml''"

definition create_workflow :: "string \<Rightarrow> string \<Rightarrow> unit scaffold_step" where
  "create_workflow path content =
     s_bind (s_mkdir (path_dir path)) (\<lambda>_. s_bind (s_write path content) (\<lambda>_. s_say (''created '' @ path)))"

definition release_cgo :: "(string \<times> string) list scaffold_step" where
  "release_cgo =
     s_bind (s_exists release_workflow) (\<lambda>there.
       if \<not> there then s_return []
       else s_bind (s_read release_workflow) (\<lambda>s. s_return (release_cgo_of release_ref s)))"

definition repaired_ci :: "(string \<times> string) list \<Rightarrow> string \<Rightarrow> string \<times> bool" where
  "repaired_ci cgo existing =
     (case repair_caller_permissions ci_ref ci_caller_permissions existing of (s, a) \<Rightarrow>
        (case ensure_secrets_inherit ci_ref s of (s, b) \<Rightarrow>
           (case sync_caller_cgo ci_ref cgo s of (s, c) \<Rightarrow> (s, a \<or> b \<or> c))))"

definition repaired_release :: "string \<Rightarrow> string \<Rightarrow> string \<times> bool" where
  "repaired_release binary existing =
     (case repair_caller_permissions release_ref required_release_permissions existing of (s, a) \<Rightarrow>
        (case repair_release_binary release_ref binary s of (s, b) \<Rightarrow> (s, a \<or> b)))"

text \<open>The common part of the two workflow files: a file that calls nothing of go-makefile is left alone.\<close>

definition update_workflow :: "string \<Rightarrow> string \<Rightarrow> (string \<Rightarrow> string \<times> bool) \<Rightarrow> unit scaffold_step" where
  "update_workflow path ref repair =
     s_bind (s_read path) (\<lambda>existing.
       if \<not> str_contains existing ref then s_say (''skipping '' @ path @ '' (exists; leaving consumer workflow unchanged)'')
       else (case repair existing of (s, changed) \<Rightarrow>
         if \<not> changed then s_say (''skipping '' @ path @ '' (already current)'')
         else s_bind (s_write path s) (\<lambda>_. s_say (''updated '' @ path))))"

definition reconcile_ci :: "scaffold_env \<Rightarrow> unit scaffold_step" where
  "reconcile_ci se =
     s_bind release_cgo (\<lambda>cgo.
       s_bind (s_exists ci_workflow) (\<lambda>there.
         if \<not> there then create_workflow ci_workflow (fst (sync_caller_cgo ci_ref cgo (se_ci se)))
         else update_workflow ci_workflow ci_ref (repaired_ci cgo)))"

definition reconcile_release :: "scaffold_env \<Rightarrow> string \<Rightarrow> unit scaffold_step" where
  "reconcile_release se binary =
     s_bind (s_exists release_workflow) (\<lambda>there.
       if \<not> there then create_workflow release_workflow (fst (repair_release_binary release_ref binary (se_release se)))
       else update_workflow release_workflow release_ref (repaired_release binary))"

section \<open>The ignore file\<close>

definition configured_baselines :: "tool_world \<Rightarrow> string list" where
  "configured_baselines w =
     [tenv_default w ''GOLANGCI_LINT_BASELINE'' ''.golangci-lint-baseline.txt'',
      tenv_default w ''GOCYCLO_BASELINE'' ''.gocyclo-baseline.txt'', tenv_default w ''DEADCODE_BASELINE'' ''.deadcode-baseline.txt'',
      tenv_default w ''STATICCHECK_EXTRA_BASELINE'' ''.staticcheck-extra-baseline.txt'']"

definition configured_tracked :: "tool_world \<Rightarrow> string list" where
  "configured_tracked w =
     configured_baselines w @ [tenv_default w ''GO_MK_APPLIED_NOTICES'' ''.go-mk-applied-notices'']"

definition sanitize_managed_path :: "string \<Rightarrow> string option" where
  "sanitize_managed_path raw =
     (if blank raw then None
      else (let clean = path_clean (trim_space raw) in
        if is_abs clean \<or> clean = ''.'' \<or> clean = ''..'' \<or> prefix ''../'' clean then None
        else (let p = path_clean clean in if p = ''.'' \<or> p = ''..'' \<or> prefix ''../'' p then None else Some p)))"

definition managed_tracked_files :: "tool_world \<Rightarrow> string list" where
  "managed_tracked_files w = keep_first id {} (List.map_filter sanitize_managed_path (configured_tracked w))"

fun allow_parts :: "string \<Rightarrow> string list \<Rightarrow> string list" where
  "allow_parts parent [] = []"
| "allow_parts parent (p # ps) =
     (let current = (if parent = [] then p else parent @ ''/'' @ p)
      in (''!'' @ current @ (if ps = [] then [] else ''/'')) # allow_parts current ps)"

definition allowlist_entries :: "string \<Rightarrow> string list" where
  "allowlist_entries path = allow_parts [] (split_on slash (path_clean path))"

definition ignore_entries :: "string list \<Rightarrow> string list" where
  "ignore_entries tracked = keep_first id {} ([''.make/'', ''go.work'', ''go.work.sum''] @ concat (map allowlist_entries tracked))"

definition has_line :: "string \<Rightarrow> string \<Rightarrow> bool" where
  "has_line contents expected \<longleftrightarrow> expected \<in> trim_space ` set (scanned contents)"

definition missing_entries :: "string \<Rightarrow> string list \<Rightarrow> string list" where
  "missing_entries contents es = filter (\<lambda>e. \<not> has_line contents e) es"

definition entry_text :: "string list \<Rightarrow> string" where
  "entry_text es = concat (map (\<lambda>e. e @ newline) es)"

definition appended_ignore :: "string \<Rightarrow> string list \<Rightarrow> string" where
  "appended_ignore contents missing =
     contents @ (if contents \<noteq> [] \<and> last contents \<noteq> CHR 0x0A then newline else []) @ entry_text missing"

definition reconcile_gitignore :: "string list \<Rightarrow> unit scaffold_step" where
  "reconcile_gitignore tracked =
     (let es = ignore_entries tracked in
      s_bind (s_exists ''.gitignore'') (\<lambda>there.
        if \<not> there then s_bind (s_write ''.gitignore'' (str_join newline es @ newline)) (\<lambda>_. s_say ''created .gitignore'')
        else s_bind (s_read ''.gitignore'') (\<lambda>contents.
          let missing = missing_entries contents es in
          if missing = [] then s_return ()
          else s_bind (s_write ''.gitignore'' (appended_ignore contents missing)) (\<lambda>_. s_say ''updated .gitignore''))))"

section \<open>The tools of the module\<close>

definition managed_tools :: "string list" where
  "managed_tools =
     [''github.com/golangci/golangci-lint/v2/cmd/golangci-lint'', ''github.com/fzipp/gocyclo/cmd/gocyclo'',
      ''golang.org/x/tools/cmd/deadcode'', ''golang.org/x/tools/cmd/goimports'', ''golang.org/x/vuln/cmd/govulncheck'',
      ''mvdan.cc/gofumpt'', ''goodkind.io/go-makefile/staticcheck/cmd/staticcheck-extra'']"

definition tool_directives :: "scaffold_env \<Rightarrow> string list scaffold_step" where
  "tool_directives se w =
     (case t_output [''go'', ''mod'', ''edit'', ''-json''] w of
        (Inl _, w) \<Rightarrow> (Inl (ScaffoldCommand [''go'', ''mod'', ''edit'', ''-json'']), w)
      | (Inr out, w) \<Rightarrow> (case se_tools se out of None \<Rightarrow> Inl ToolsUndecodable | Some ts \<Rightarrow> Inr ts, w))"

definition drop_tools :: "string list \<Rightarrow> unit scaffold_step" where
  "drop_tools dropped w =
     (let argv = [''go'', ''mod'', ''edit''] @ map (\<lambda>t. ''-droptool='' @ t) dropped in
      case t_exec (tw_environ w) argv w of
        (Exited status out ws, w) \<Rightarrow>
          if status \<noteq> 0 then (Inl (ScaffoldCommand argv), w)
          else s_say (''removed '' @ itoa (int (length dropped)) @ '' go-makefile-managed tool directive(s) from go.mod; run '' @
                 [CHR 0x60] @ ''go mod tidy'' @ [CHR 0x60] @ '' to prune their dependencies'') w
      | (NotStarted, w) \<Rightarrow> (Inl (ScaffoldCommand argv), w))"

definition reconcile_tools :: "scaffold_env \<Rightarrow> unit scaffold_step" where
  "reconcile_tools se =
     s_bind (s_exists ''go.mod'') (\<lambda>there.
       if \<not> there then s_return ()
       else s_bind (tool_directives se) (\<lambda>declared.
         let dropped = filter (\<lambda>t. t \<in> set managed_tools) declared
         in if dropped = [] then s_return () else drop_tools dropped))"

section \<open>The command\<close>

definition scaffold_done :: "string list" where
  "scaffold_done =
     [[], ''done.'', [], ''Lint and build are centralized in go-makefile. The canonical entry points are:'', [],
      ''  make build   vet + full lint chain + govulncheck, then go build'', ''  make test    run tests'',
      ''  make fmt     apply gofumpt + goimports'', [],
      ''Commit Makefile, bootstrap.mk, .github/workflows/ci.yml, and .gitignore.'',
      ''Commit baseline files or .go-mk-applied-notices only after a baseline or notice run creates them.'',
      ''Run '' @ [CHR 0x27] @ ''make help'' @ [CHR 0x27] @ '' for the full target list, including per-linter sub-targets'',
      ''and baseline-refresh targets. Do not add project-local lint, deadcode, audit,'',
      ''or staticcheck targets; doing so splits enforcement and lets agents bypass'', ''the central rules.'']"

definition warn_local_golangci :: "unit scaffold_step" where
  "warn_local_golangci = s_bind (s_exists ''.golangci.yml'') (\<lambda>_. s_return ())"

definition run_scaffold :: "scaffold_env \<Rightarrow> scaffold_options \<Rightarrow> unit scaffold_step" where
  "run_scaffold se opts =
     (if so_library opts \<and> so_binary opts then s_fail BothLayouts
      else s_bind (ensure_go_module se opts) (\<lambda>module.
        s_bind (resolve_layout se opts) (\<lambda>layout.
        s_bind (build_context se module layout) (\<lambda>ctx.
        s_bind (release_workflow_binary ctx) (\<lambda>named w.
          let binary = (if named \<noteq> [] \<and> \<not> safe_binary_name named then [] else named); tracked = managed_tracked_files w in
          s_bind (s_say (scaffold_summary module ctx)) (\<lambda>_.
          s_bind (reconcile_makefile se ctx) (\<lambda>_.
          s_bind (reconcile_bootstrap se) (\<lambda>_.
          s_bind (reconcile_release se binary) (\<lambda>_.
          s_bind (reconcile_ci se) (\<lambda>_.
          s_bind warn_local_golangci (\<lambda>_.
          s_bind (reconcile_gitignore tracked) (\<lambda>_.
          s_bind (reconcile_tools se) (\<lambda>_.
          s_say (str_join newline scaffold_done))))))))) w)))))"

section \<open>The ignore file settles\<close>

lemma scan_records_lines:
  "(\<And>l. l \<in> set es \<Longrightarrow> CHR 0x0A \<notin> set l) \<Longrightarrow> split_on (CHR 0x0A) (entry_text es) = es @ [[]]"
  by (induction es) (auto simp: entry_text_def split_on_append)

lemma scan_records_appended:
  assumes es: "\<And>l. l \<in> set es \<Longrightarrow> CHR 0x0A \<notin> set l"
  shows "scan_records (appended_ignore s es) = scan_records s @ es"
proof (cases s rule: rev_cases)
  case Nil
  then show ?thesis by (simp add: appended_ignore_def scan_records_def scan_records_lines [OF es])
next
  case (snoc t c)
  show ?thesis
  proof (cases "c = CHR 0x0A")
    case True
    then have "appended_ignore s es = t @ CHR 0x0A # entry_text es"
      using snoc by (simp add: appended_ignore_def)
    then show ?thesis
      using True snoc split_on_append_gen [of "CHR 0x0A" t "[]"]
      by (simp add: scan_records_def split_on_append_gen scan_records_lines [OF es] butlast_append)
  next
    case False
    have join: "str_join newline (split_on (CHR 0x0A) s) = s" by (rule join_split_on)
    have "last (split_on (CHR 0x0A) s) \<noteq> []"
    proof
      assume empty: "last (split_on (CHR 0x0A) s) = []"
      define ps where "ps = butlast (split_on (CHR 0x0A) s)"
      have "s = str_join newline (ps @ [[]])"
        using join append_butlast_last_id [OF split_on_nonempty, of "CHR 0x0A" s] empty by (simp add: ps_def)
      then show False using snoc False by (auto simp: str_join_snoc split: if_splits)
    qed
    then show ?thesis
      using snoc False
      by (simp add: appended_ignore_def scan_records_def split_on_append_gen [of _ s, unfolded snoc, simplified]
          scan_records_lines [OF es] butlast_append)
  qed
qed

text \<open>An entry that a later scan reads back as it was written.\<close>

definition good_entry :: "string \<Rightarrow> bool" where
  "good_entry e \<longleftrightarrow> CHR 0x0A \<notin> set e \<and> drop_cr e = e \<and> trim_space e = e \<and> length e < default_scan_limit"

lemma scanned_appended:
  assumes "scanned_all s" "list_all good_entry es"
  shows "scanned (appended_ignore s es) = scanned s @ es" "scanned_all (appended_ignore s es)"
proof -
  have records: "scan_records (appended_ignore s es) = scan_records s @ es"
    using assms(2) by (intro scan_records_appended) (auto simp: list_all_iff good_entry_def)
  have "map drop_cr es = es" using assms(2) by (intro map_idI) (auto simp: list_all_iff good_entry_def)
  have short: "length l < default_scan_limit" if "l \<in> set (scan_records s @ es)" for l
    using assms that by (auto simp: scanned_all_def list_all_iff good_entry_def)
  have whole: "takeWhile (\<lambda>l. length l < default_scan_limit) ls = ls"
    if "set ls \<subseteq> set (scan_records s @ es)" for ls
    using that short by (auto simp: takeWhile_eq_all_conv)
  have "scanned (appended_ignore s es) = map drop_cr (scan_records s @ es)"
    by (simp add: scanned_def records del: takeWhile_append) (subst whole; simp)
  moreover have "scanned s = map drop_cr (scan_records s)"
    unfolding scanned_def by (subst whole; simp)
  ultimately show "scanned (appended_ignore s es) = scanned s @ es"
    using \<open>map drop_cr es = es\<close> by simp
  show "scanned_all (appended_ignore s es)"
    using short by (auto simp: scanned_all_def records list_all_iff)
qed

lemma entries_complete:
  assumes "scanned_all s" "list_all good_entry es"
  shows "missing_entries (appended_ignore s (missing_entries s es)) es = []"
    "\<forall>e \<in> set es. has_line (appended_ignore s (missing_entries s es)) e"
proof -
  have good: "list_all good_entry (missing_entries s es)"
    using assms(2) by (auto simp: missing_entries_def list_all_iff)
  show all: "\<forall>e \<in> set es. has_line (appended_ignore s (missing_entries s es)) e"
  proof
    fix e assume e: "e \<in> set es"
    have trim: "trim_space e = e" using assms(2) e by (auto simp: list_all_iff good_entry_def)
    show "has_line (appended_ignore s (missing_entries s es)) e"
    proof (cases "has_line s e")
      case True
      then show ?thesis by (simp add: has_line_def scanned_appended(1) [OF assms(1) good] image_Un)
    next
      case False
      then have "trim_space e \<in> trim_space ` set (missing_entries s es)"
        using e by (intro imageI) (simp add: missing_entries_def)
      then show ?thesis by (simp add: has_line_def scanned_appended(1) [OF assms(1) good] image_Un trim)
    qed
  qed
  then show "missing_entries (appended_ignore s (missing_entries s es)) es = []"
    by (simp add: missing_entries_def)
qed

lemma appended_nothing: "appended_ignore [] es = entry_text es"
  by (simp add: appended_ignore_def)

lemma joined_entries: "es \<noteq> [] \<Longrightarrow> str_join newline es @ newline = entry_text es"
  by (induction es rule: induct_list012) (auto simp: entry_text_def)

lemma entries_nonempty: "ignore_entries tracked \<noteq> []"
  by (simp add: ignore_entries_def)

lemma nothing_missing_nothing: "missing_entries [] es = es"
  by (auto simp: missing_entries_def has_line_def scanned_def scan_records_def)

text \<open>What one run leaves in the file, whether it was there or not.\<close>

definition settled_ignore :: "string option \<Rightarrow> string list \<Rightarrow> string" where
  "settled_ignore before es = (let s = (case before of None \<Rightarrow> [] | Some s \<Rightarrow> s) in
     if before \<noteq> None \<and> missing_entries s es = [] then s else appended_ignore s (missing_entries s es))"

lemma reconcile_gitignore_writes:
  assumes ok: "reconcile_gitignore tracked w = (Inr (), w')"
    and seen: "\<not> t_fails StatCall w" "\<not> tw_dirs w ''.gitignore''"
  shows "tw_files w' = (tw_files w)(''.gitignore'' := Some (settled_ignore (tw_files w ''.gitignore'') (ignore_entries tracked)))"
proof (cases "tw_files w ''.gitignore''")
  case None
  then show ?thesis
    using ok entries_nonempty [of tracked] nothing_missing_nothing [of "ignore_entries tracked"]
    by (simp add: reconcile_gitignore_def s_bind_def s_exists_def t_exists_def file_exists_def s_write_def t_set_def
        s_say_def t_println_def t_print_def t_tick_def settled_ignore_def appended_nothing joined_entries Let_def
        split: if_splits) auto
next
  case (Some s)
  then show ?thesis
    using ok seen
    by (auto simp: reconcile_gitignore_def s_bind_def s_exists_def t_exists_def file_exists_def s_read_def t_read_def
        s_write_def t_set_def s_return_def s_say_def t_println_def t_print_def t_tick_def settled_ignore_def Let_def
        split: if_splits)
qed

lemma settled_ignore_settles:
  assumes "list_all good_entry es" "\<And>s. before = Some s \<Longrightarrow> scanned_all s"
  shows "missing_entries (settled_ignore before es) es = []" "\<forall>e \<in> set es. has_line (settled_ignore before es) e"
proof -
  let ?s = "case before of None \<Rightarrow> [] | Some s \<Rightarrow> s"
  have all: "scanned_all ?s" using assms(2) by (auto simp: scanned_all_def scan_records_def split: option.splits)
  show lines: "\<forall>e \<in> set es. has_line (settled_ignore before es) e"
    using entries_complete(2) [OF all assms(1)]
    by (auto simp: settled_ignore_def Let_def missing_entries_def filter_empty_conv)
  then show "missing_entries (settled_ignore before es) es = []" by (simp add: missing_entries_def)
qed

text \<open>
  After a run of the \<open>.gitignore\<close> step that reports success, every entry the engine manages is a line of the file,
  what the file held before is kept as its beginning, and a second run changes no file.
\<close>

theorem gitignore_settles:
  assumes ok: "reconcile_gitignore tracked w = (Inr (), w')"
    and seen: "\<not> t_fails StatCall w" "\<not> tw_dirs w ''.gitignore''"
    and before: "\<And>s. tw_files w ''.gitignore'' = Some s \<Longrightarrow> scanned_all s"
    and entries: "list_all good_entry (ignore_entries tracked)"
  shows "\<exists>new. tw_files w' = (tw_files w)(''.gitignore'' := Some new)
           \<and> (\<forall>e \<in> set (ignore_entries tracked). has_line new e)
           \<and> (\<forall>s. tw_files w ''.gitignore'' = Some s \<longrightarrow> prefix s new)
           \<and> (\<forall>v. tw_files v ''.gitignore'' = Some new \<longrightarrow> \<not> t_fails StatCall v \<longrightarrow> \<not> tw_dirs v ''.gitignore'' \<longrightarrow>
                tw_files (snd (reconcile_gitignore tracked v)) = tw_files v)"
proof -
  let ?new = "settled_ignore (tw_files w ''.gitignore'') (ignore_entries tracked)"
  note settled = settled_ignore_settles [OF entries, of "tw_files w ''.gitignore''", OF before]
  have "tw_files (snd (reconcile_gitignore tracked v)) = tw_files v"
    if "tw_files v ''.gitignore'' = Some ?new" "\<not> t_fails StatCall v" "\<not> tw_dirs v ''.gitignore''" for v
    using that settled(1)
    by (auto simp: reconcile_gitignore_def s_bind_def s_exists_def t_exists_def file_exists_def s_read_def t_read_def
        s_return_def t_tick_def Let_def)
  moreover have "prefix s ?new" if "tw_files w ''.gitignore'' = Some s" for s
    using that by (simp add: settled_ignore_def appended_ignore_def Let_def)
  ultimately show ?thesis
    using reconcile_gitignore_writes [OF ok seen] settled(2) by (intro exI [of _ ?new]) auto
qed

definition ignoring_tool :: tool_world where
  "ignoring_tool = sample_tool\<lparr>tw_files := (\<lambda>_. None)(''.gitignore'' \<mapsto> ''dist'')\<rparr>"

theorem gitignore_settles_witness:
  "\<exists>new. tw_files (snd (reconcile_gitignore [''a/b''] ignoring_tool)) ''.gitignore'' = Some new \<and>
     has_line new ''.make/'' \<and> has_line new ''!a/b'' \<and> prefix ''dist'' new"
proof -
  have run: "reconcile_gitignore [''a/b''] ignoring_tool = (Inr (), snd (reconcile_gitignore [''a/b''] ignoring_tool))"
    by (simp add: reconcile_gitignore_def s_bind_def s_exists_def t_exists_def file_exists_def s_read_def t_read_def
        s_write_def t_set_def t_fails_def t_tick_def s_say_def s_return_def ignoring_tool_def sample_tool_def Let_def)
  have entries: "ignore_entries [''a/b''] = [''.make/'', ''go.work'', ''go.work.sum'', ''!a/'', ''!a/b'']" by code_simp
  have trims: "trim_space ''.make/'' = ''.make/''" "trim_space ''go.work'' = ''go.work''" "trim_space ''go.work.sum'' = ''go.work.sum''"
    "trim_space ''!a/'' = ''!a/''" "trim_space ''!a/b'' = ''!a/b''" by code_simp+
  have good: "list_all good_entry (ignore_entries [''a/b''])"
    using trims by (simp add: entries good_entry_def drop_cr_def default_scan_limit_def)
  have before: "scanned_all s" if "tw_files ignoring_tool ''.gitignore'' = Some s" for s
  proof -
    have "scanned_all ''dist''" by (simp add: scanned_all_def scan_records_def default_scan_limit_def)
    then show ?thesis using that by (simp add: ignoring_tool_def)
  qed
  have seen: "\<not> t_fails StatCall ignoring_tool" "\<not> tw_dirs ignoring_tool ''.gitignore''"
    by (simp_all add: ignoring_tool_def sample_tool_def t_fails_def)
  have "tw_files ignoring_tool ''.gitignore'' = Some ''dist''" by (simp add: ignoring_tool_def)
  then show ?thesis using gitignore_settles [OF run seen before good] entries by auto
qed

section \<open>Managed paths stay inside the repository\<close>

lemma clean_comps_relative:
  "set (dropWhile (\<lambda>c. c \<noteq> ''..'') ds) \<subseteq> {''..''} \<Longrightarrow>
   set (dropWhile (\<lambda>c. c \<noteq> ''..'') (clean_comps False ds cs)) \<subseteq> {''..''}"
proof (induction False ds cs rule: clean_comps.induct)
  case (2 ds c cs)
  then show ?case by (auto split: list.splits if_splits)
qed simp

lemma climbs_only_first:
  assumes "''..'' \<in> set (clean_comps False [] cs)"
  shows "last (clean_comps False [] cs) = ''..''"
proof -
  let ?ds = "clean_comps False [] cs"
  have "dropWhile (\<lambda>c. c \<noteq> ''..'') ?ds \<noteq> []" using assms by (auto simp: dropWhile_eq_Nil_conv)
  moreover from this have "last ?ds = last (dropWhile (\<lambda>c. c \<noteq> ''..'') ?ds)"
    by (metis last_appendR takeWhile_dropWhile_id)
  ultimately have "last ?ds \<in> set (dropWhile (\<lambda>c. c \<noteq> ''..'') ?ds)" by simp
  moreover have "set (dropWhile (\<lambda>c. c \<noteq> ''..'') ?ds) \<subseteq> {''..''}" by (rule clean_comps_relative) simp
  ultimately show ?thesis by blast
qed

lemma clean_relative_inside:
  assumes "\<not> is_abs q" "path_clean q \<noteq> ''..''" "\<not> prefix ''../'' (path_clean q)"
  shows "\<not> is_abs (path_clean q)" "''..'' \<notin> set (split_on slash (path_clean q))"
proof -
  let ?cs = "rev (clean_comps False [] (split_on slash q))"
  have clean: "path_clean q = (if ?cs = [] then ''.'' else str_join [slash] ?cs)"
    using assms(1) by (simp add: path_clean_def)
  have part: "c \<noteq> [] \<and> slash \<notin> set c" if "c \<in> set ?cs" for c
    using clean_comps_set [of c] clean_comps_proper [of "[]" c] that split_on_parts_free by fastforce
  have up: "''..'' \<notin> set ?cs"
  proof
    assume "''..'' \<in> set ?cs"
    then obtain cs where cs: "?cs = ''..'' # cs"
      using climbs_only_first [of "split_on slash q"] by (cases ?cs) (auto simp: hd_rev)
    then show False using assms(2,3) clean by (cases cs) auto
  qed
  show "''..'' \<notin> set (split_on slash (path_clean q))"
    using clean up part split_on_join [of ?cs slash] by auto
  show "\<not> is_abs (path_clean q)"
  proof (cases ?cs)
    case (Cons c cs)
    then have "c \<noteq> []" "slash \<notin> set c" using part [of c] by auto
    then show ?thesis using clean Cons by (cases cs; cases c) (auto simp: is_abs_def)
  qed (use clean in \<open>simp add: is_abs_def\<close>)
qed

text \<open>
  The environment variables that name the tracked files cannot lead the ignore rules out of the repository: a path
  \<open>sanitizeScaffoldManagedPath\<close> accepts is relative and has no dot-dot component.
\<close>

theorem managed_path_inside:
  assumes "sanitize_managed_path raw = Some p"
  shows "\<not> is_abs p \<and> ''..'' \<notin> set (split_on slash p)"
  using assms clean_relative_inside [of "path_clean (trim_space raw)"]
  by (auto simp: sanitize_managed_path_def Let_def split: if_splits)

lemma managed_path_inside_witness:
  "\<not> is_abs ''a/b.txt'' \<and> ''..'' \<notin> set (split_on slash ''a/b.txt'')"
  by (rule managed_path_inside [of "''./a/c/../b.txt''"]) code_simp

text \<open>
  \<open>isClearlyGeneratedMakefile\<close> accepts \<open>.DEFAULT_GOAL := check\<close>, but the template \<open>scaffold_assets/Makefile.tmpl\<close> writes
  \<open>.DEFAULT_GOAL := help\<close>: a Makefile this engine wrote is never recognised as its own and never updated.
\<close>

lemma template_goal_not_recognised:
  assumes "''.DEFAULT_GOAL := help'' \<in> set (map trim_space (scanned (unix_lines s)))"
  shows "\<not> clearly_generated s"
proof -
  have "\<not> managed_line ''.DEFAULT_GOAL := help''" by code_simp
  then show ?thesis
    using assms by (force simp: clearly_generated_def Let_def list_all_iff)
qed

end
