(* ===== verification/NoticeHistory.thy ===== *)
theory NoticeHistory
  imports BaselineCmd Scaffold ReleaseBuild
begin

text \<open>
  What a notice may write to a baseline (\<open>notice_history.go\<close>, \<open>notice_source.go\<close>, \<open>notice_platforms.go\<close>,
  \<open>notice_prereqs.go\<close>): the findings of the commit before the effective date, the identity of a finding by the source
  it lies in, and the findings in test files of other platforms. Parameters: the date format, the Go parser (it reads
  the file and answers with the signature around a position and the smallest declaration or call that holds it),
  SHA-256, symbolic links, and the capture in the checkout of the commit.
\<close>

text \<open>An instant in nanoseconds from Go's zero time, and the zone it is written in.\<close>

record moment =
  mo_instant :: int
  mo_zone :: int

definition zero_moment :: moment where "zero_moment = \<lparr>mo_instant = 0, mo_zone = 0\<rparr>"

record notice_directive =
  nd_gate :: string
  nd_linter :: string
  nd_rule :: string
  nd_pattern :: string
  nd_introduced :: moment

record notice_context =
  nt_time :: "string \<Rightarrow> moment option"
  nt_format :: "moment \<Rightarrow> string"
  nt_node :: "tool_world \<Rightarrow> string \<Rightarrow> int \<Rightarrow> int \<Rightarrow> (string \<times> string) option"
  nt_sha256 :: "string \<Rightarrow> string"
  nt_links :: "tool_world \<Rightarrow> string \<Rightarrow> string option"
  nt_checkout :: "bool \<Rightarrow> string \<Rightarrow> string \<Rightarrow> tool_world \<Rightarrow> (tool_error, string \<times> string list) result \<times> tool_world"

abbreviation nul :: char where "nul \<equiv> CHR 0x00"

section \<open>The identity of a finding\<close>

text \<open>The text after the path of a finding starts with its line and its column.\<close>

definition finding_position :: "string \<Rightarrow> string \<Rightarrow> (tool_error, int \<times> int) result" where
  "finding_position file finding =
     (case split_on colon (trim_prefix finding (file @ '':'')) of
        l # c # _ \<Rightarrow>
          (case atoi l of None \<Rightarrow> Inl (NoticeFailed l)
           | Some line \<Rightarrow> (case atoi c of None \<Rightarrow> Inl (NoticeFailed c) | Some column \<Rightarrow> Inr (line, column)))
      | _ \<Rightarrow> Inl (NoticeFailed finding))"

definition source_identity :: "notice_context \<Rightarrow> tool_world \<Rightarrow> string \<Rightarrow> string \<Rightarrow> (tool_error, string) result" where
  "source_identity nt w base finding =
     (case finding_path finding of
        None \<Rightarrow> Inl (NoticeFailed (''notice cannot locate finding: '' @ finding))
      | Some file \<Rightarrow>
          (case finding_position file finding of
             Inl e \<Rightarrow> Inl e
           | Inr (line, column) \<Rightarrow>
               (case nt_node nt w (path_join [base, file]) line column of
                  None \<Rightarrow> Inl (NoticeFailed (''notice finding has an invalid source location: '' @ finding))
                | Some (context, node) \<Rightarrow>
                    Inr (baseline_key finding @ [nul] @ hex_encode (nt_sha256 nt (context @ [nul] @ node))))))"

definition notice_identity :: "notice_context \<Rightarrow> notice_directive \<Rightarrow> tool_world \<Rightarrow> string \<Rightarrow> string \<Rightarrow> (tool_error, string) result" where
  "notice_identity nt d w base finding =
     (if nd_gate d = ''golangci'' \<and> nd_rule d = ''file-length-limit'' then Inr (baseline_key finding)
      else source_identity nt w base finding)"

section \<open>The commit before the notice\<close>

definition notice_git :: "string list \<Rightarrow> tool_world \<Rightarrow> (tool_error, string) result \<times> tool_world" where
  "notice_git argv w =
     (case logged_git_output argv w of (Inl e, w) \<Rightarrow> (Inl (CommandFailed (''git'' # argv) (-1)), w) | (Inr out, w) \<Rightarrow> (Inr out, w))"

definition one_second :: int where "one_second = 1000000000"

definition notice_cutoff :: "notice_context \<Rightarrow> moment \<Rightarrow> string" where
  "notice_cutoff nt m = nt_format nt (m\<lparr>mo_instant := mo_instant m - one_second\<rparr>)"

definition notice_revision :: "notice_context \<Rightarrow> notice_directive \<Rightarrow> tool_world \<Rightarrow> (tool_error, string) result \<times> tool_world" where
  "notice_revision nt d w =
     (if mo_instant (nd_introduced d) = 0
      then (Inl (NoticeFailed ''auto-baseline requires a notice with a valid INTRODUCED date''), w)
      else t_bind (notice_git [''rev-parse'', ''--is-shallow-repository'']) (\<lambda>shallow w.
        if shallow = ''true''
        then (Inl (NoticeFailed ''auto-baseline requires full Git history; fetch the missing history and retry''), w)
        else t_bind (notice_git [''log'', ''--first-parent'', ''-1'', ''--format=%H'',
               ''--before='' @ notice_cutoff nt (nd_introduced d), ''HEAD'']) (\<lambda>revision w.
          if revision = []
          then (Inl (NoticeFailed (''auto-baseline cannot find a commit before '' @ nt_format nt (nd_introduced d))), w)
          else (Inr revision, w)) w) w)"

text \<open>The renames between the commit and the head, old path to new path, the last one first.\<close>

function renames_of :: "string list \<Rightarrow> (string \<times> string) list \<Rightarrow> (string \<times> string) list option" where
  "renames_of (status # previous # rest) found =
     (if \<not> prefix ''R'' status then renames_of rest found
      else (case rest of [] \<Rightarrow> None | renamed # others \<Rightarrow> renames_of others ((previous, renamed) # found)))"
| "renames_of [s] found = Some found"
| "renames_of [] found = Some found"
  by pat_completeness auto
termination by (relation "measure (\<lambda>(fs, _). length fs)") auto

definition history_renames :: "string \<Rightarrow> tool_world \<Rightarrow> (tool_error, (string \<times> string) list) result \<times> tool_world" where
  "history_renames revision =
     t_bind (notice_git [''diff'', ''--name-status'', ''-z'', ''--find-renames'', revision, ''HEAD'']) (\<lambda>out w.
       (case renames_of (split_on nul (trim_suffix out [nul])) [] of
          None \<Rightarrow> Inl (NoticeFailed ''notice history contains an incomplete rename'') | Some rs \<Rightarrow> Inr rs, w))"

fun followed_module :: "string \<Rightarrow> string list \<Rightarrow> string" where
  "followed_module current (status # before # after # rest) =
     followed_module (if after = current then before else current) rest"
| "followed_module current fs = current"

definition trim_both :: "string \<Rightarrow> string \<Rightarrow> string" where
  "trim_both s cutset = trim_right (trim_left s cutset) cutset"

definition historical_module :: "string \<Rightarrow> string \<Rightarrow> tool_world \<Rightarrow> (tool_error, string) result \<times> tool_world" where
  "historical_module revision current =
     t_bind (notice_git [''log'', ''--follow'', ''--diff-filter=R'', ''--format='', ''--name-status'', ''-z'',
         revision @ ''..HEAD'', ''--'', ''go.mod''])
       (\<lambda>out w. (Inr (followed_module current (split_on nul (trim_both out [nul, CHR 0x0A]))), w))"

text \<open>\<open>strings.Replace\<close> with a count of one.\<close>

definition replace_first :: "string \<Rightarrow> string \<Rightarrow> string \<Rightarrow> string" where
  "replace_first s a b = (case str_cut s a of None \<Rightarrow> s | Some (x, y) \<Rightarrow> x @ b @ y)"

text \<open>\<open>filepath.Rel\<close> from a directory below the root of the repository, which is empty for the root itself.\<close>

definition rel_below :: "string \<Rightarrow> string \<Rightarrow> string option" where
  "rel_below base target =
     (if path_clean base = ''.'' \<and> \<not> is_abs target then Some (path_clean target) else path_rel base target)"

text \<open>The path a file of the commit has today, from the directory of the module.\<close>

definition path_today :: "(string \<times> string) list \<Rightarrow> string \<Rightarrow> string \<Rightarrow> string \<Rightarrow> (tool_error, string) result" where
  "path_today renames module_path at_prefix file =
     (case map_of renames (path_join [path_dir module_path, file]) of
        None \<Rightarrow> Inr file
      | Some renamed \<Rightarrow>
          (case rel_below at_prefix renamed of None \<Rightarrow> Inl (FileError renamed) | Some rel \<Rightarrow> Inr rel))"

definition identity_today :: "notice_context \<Rightarrow> notice_directive \<Rightarrow> tool_world \<Rightarrow> string \<Rightarrow> (string \<times> string) list \<Rightarrow> string \<Rightarrow>
    string \<Rightarrow> string \<Rightarrow> string \<Rightarrow> (tool_error, string) result" where
  "identity_today nt d w module_dir renames module_path at_prefix file finding =
     (case path_today renames module_path at_prefix file of
        Inl e \<Rightarrow> Inl e
      | Inr rel \<Rightarrow>
          (case notice_identity nt d w module_dir finding of
             Inl e \<Rightarrow> Inl e
           | Inr identity \<Rightarrow>
               Inr (replace_first identity (baseline_key finding) (baseline_key (rel @ trim_prefix finding file)))))"

fun historical_identities :: "(string \<Rightarrow> string \<Rightarrow> (tool_error, string) result) \<Rightarrow> string list \<Rightarrow> (tool_error, string list) result" where
  "historical_identities identify [] = Inr []"
| "historical_identities identify (f # fs) =
     (case finding_path f of
        None \<Rightarrow> historical_identities identify fs
      | Some file \<Rightarrow>
          (case identify file f of
             Inl e \<Rightarrow> Inl e
           | Inr i \<Rightarrow> (case historical_identities identify fs of Inl e \<Rightarrow> Inl e | Inr is \<Rightarrow> Inr (i # is))))"

definition capture_history :: "notice_context \<Rightarrow> notice_directive \<Rightarrow> bool \<Rightarrow> string \<Rightarrow> tool_world \<Rightarrow>
    (tool_error, string list) result \<times> tool_world" where
  "capture_history nt d golangci revision w =
     (if tw_cwd w = None then (Inl (FileError ''.''), w)
      else t_bind (notice_git [''rev-parse'', ''--show-toplevel'']) (\<lambda>_.
        t_bind (notice_git [''rev-parse'', ''--show-prefix'']) (\<lambda>at_prefix.
        t_bind (history_renames revision) (\<lambda>renames.
        t_bind (historical_module revision (at_prefix @ ''go.mod'')) (\<lambda>module_path.
        t_bind (nt_checkout nt golangci revision module_path) (\<lambda>(module_dir, found) w.
          (historical_identities (identity_today nt d w module_dir renames module_path at_prefix) found, w)))))) w)"

section \<open>Restricting the findings\<close>

fun reject_loop :: "(string \<Rightarrow> (tool_error, string) result) \<Rightarrow> (string \<Rightarrow> nat) \<Rightarrow> string list \<Rightarrow> (tool_error, string list) result" where
  "reject_loop identify accepted [] = Inr []"
| "reject_loop identify accepted (f # fs) =
     (case identify f of
        Inl e \<Rightarrow> Inl e
      | Inr i \<Rightarrow>
          if accepted i = 0
          then (case reject_loop identify accepted fs of Inl e \<Rightarrow> Inl e | Inr ks \<Rightarrow> Inr (baseline_key f # ks))
          else reject_loop identify (accepted(i := accepted i - 1)) fs)"

definition keep_historical :: "(string \<Rightarrow> (tool_error, string) result) \<Rightarrow> string list \<Rightarrow> string list \<Rightarrow> (tool_error, string list) result" where
  "keep_historical identify historical current =
     (case reject_loop identify (count_list historical) current of
        Inl e \<Rightarrow> Inl e
      | Inr rejected \<Rightarrow> Inr (filter (\<lambda>f. baseline_key f \<notin> set rejected) current))"

definition restrict_notice :: "notice_context \<Rightarrow> notice_directive \<Rightarrow> bool \<Rightarrow> string \<Rightarrow> tool_world \<Rightarrow>
    (tool_error, unit) result \<times> tool_world" where
  "restrict_notice nt d golangci path =
     t_bind (notice_revision nt d) (\<lambda>revision.
     t_bind (read_file_lines path) (\<lambda>current.
     t_bind (capture_history nt d golangci revision) (\<lambda>historical w.
       (case keep_historical (notice_identity nt d w ''.'') historical current of
          Inl e \<Rightarrow> (Inl e, w) | Inr kept \<Rightarrow> write_findings_file path kept w))))"

section \<open>Other platforms\<close>

definition current_target :: "tool_world \<Rightarrow> platform_target" where
  "current_target w = (if pt_goos (tw_platform w) \<noteq> [] then tw_platform w else tw_host w)"

definition target_of_label :: "string \<Rightarrow> platform_target option" where
  "target_of_label entry = map_option (\<lambda>(a, b). \<lparr>pt_goos = a, pt_goarch = b\<rparr>) (str_cut entry ''/'')"

definition other_platforms :: "tool_world \<Rightarrow> platform_target list" where
  "other_platforms w =
     filter (\<lambda>t. t \<noteq> current_target w) (List.map_filter target_of_label (declared_platforms default_release_platforms w))"

definition test_files_template :: string where
  "test_files_template =
     ''{{$dir := .Dir}}{{range .TestGoFiles}}{{$dir}}/{{.}}{{'' @ [CHR 0x22, CHR 0x5C, CHR ''n'', CHR 0x22] @ ''}}{{end}}'' @
     ''{{range .XTestGoFiles}}{{$dir}}/{{.}}{{'' @ [CHR 0x22, CHR 0x5C, CHR ''n'', CHR 0x22] @ ''}}{{end}}''"

definition test_file_of :: "notice_context \<Rightarrow> tool_world \<Rightarrow> string \<Rightarrow> string \<Rightarrow> string option" where
  "test_file_of nt w base listed =
     (if listed = [] then None
      else (case nt_links nt w listed of None \<Rightarrow> None | Some resolved \<Rightarrow> path_rel base resolved))"

definition test_files_for :: "notice_context \<Rightarrow> platform_target \<Rightarrow> tool_world \<Rightarrow> (tool_error, string list) result \<times> tool_world" where
  "test_files_for nt p w =
     (let argv = [''go'', ''list'', ''-e'', ''-f'', test_files_template, ''./...''] in
      case t_exec (lint_env_for p w) argv w of
        (NotStarted, w) \<Rightarrow> (Inl (CommandNotStarted argv), w)
      | (Exited status out ws, w) \<Rightarrow>
          if status \<noteq> 0 then (Inl (CommandFailed argv status), w)
          else (case nt_links nt w (lint_root (snapshot w)) of
                  None \<Rightarrow> (Inl (FileError ''_GO_MK_ROOT''), w)
                | Some base \<Rightarrow> (Inr (List.map_filter (test_file_of nt w base) (split_on (CHR 0x0A) (trim_space out))), w)))"

text \<open>\<open>path.Dir\<close> of a test file, as a pattern for the analyzer.\<close>

definition package_patterns :: "string list \<Rightarrow> string list" where
  "package_patterns files = sort_dedup (map (\<lambda>f. ''./'' @ path_dir f) files)"

definition in_files :: "string list \<Rightarrow> string \<Rightarrow> bool" where
  "in_files files line = (case str_cut line '':'' of None \<Rightarrow> False | Some (f, _) \<Rightarrow> f \<in> set files)"

definition other_platform_findings :: "notice_context \<Rightarrow> lint_context \<Rightarrow> string list \<Rightarrow> platform_target \<Rightarrow> tool_world \<Rightarrow>
    (tool_error, string list) result \<times> tool_world" where
  "other_platform_findings nt lc built p =
     t_bind (test_files_for nt p) (\<lambda>files w.
       let only = filter (\<lambda>f. f \<notin> set built) files; packages = package_patterns only in
       if packages = [] then (Inr [], w)
       else (case staticcheck_selected lc w of
          Inl e \<Rightarrow> (Inl e, w)
        | Inr selected \<Rightarrow>
            if selected = [] \<or> \<not> lc_executable lc w selected then (Inr [], w)
            else (let raw = path_join [make_dir, ''staticcheck-extra-scope-baseline.'' @ pt_goos p @ ''-'' @ pt_goarch p @ ''.raw.out'']
              in case capture_command selected (split_words (staticcheck_flags w) @ packages) raw (w\<lparr>tw_platform := p\<rparr>) of
                   (r, v) \<Rightarrow>
                     t_bind (\<lambda>w. (r, w)) (\<lambda>status w.
                       if status \<noteq> 0 \<and> status \<noteq> diagnostics_status
                       then (Inl (NoticeFailed (''staticcheck-extra cannot build '' @ str_join '' '' packages @ '' for '' @ platform_label p @
                              '' on this host (exit status '' @ itoa status @ '', output in '' @ raw @ ''). Run make check on a '' @
                              platform_label p @ '' host'')), w)
                       else t_bind (read_file_lines raw) (\<lambda>ls w.
                         let base = lint_root (snapshot w)
                         in (Inr (filter (in_files only) (map (\<lambda>l. normalize_path l base base) ls)), w)) w)
                       (v\<lparr>tw_platform := tw_platform w\<rparr>))))"

fun each_platform :: "(platform_target \<Rightarrow> tool_world \<Rightarrow> (tool_error, string list) result \<times> tool_world) \<Rightarrow> platform_target list \<Rightarrow>
    string list \<Rightarrow> tool_world \<Rightarrow> (tool_error, string list) result \<times> tool_world" where
  "each_platform f [] merged = t_lift (Inr merged)"
| "each_platform f (p # ps) merged = t_bind (f p) (\<lambda>ls. each_platform f ps (merged @ ls))"

definition add_other_platforms :: "notice_context \<Rightarrow> lint_context \<Rightarrow> string \<Rightarrow> tool_world \<Rightarrow> (tool_error, unit) result \<times> tool_world" where
  "add_other_platforms nt lc path w =
     (let targets = other_platforms w in
      if targets = [] then (Inr (), w)
      else t_bind (test_files_for nt (current_target w)) (\<lambda>built.
           t_bind (read_file_lines path) (\<lambda>merged.
           t_bind (each_platform (other_platform_findings nt lc built) targets merged) (\<lambda>all.
             write_findings_file path (sorted_unique all)))) w)"

text \<open>The step between the capture and the write of a notice: staticcheck-extra first covers the other platforms.\<close>

definition notice_restriction :: "notice_context \<Rightarrow> lint_context \<Rightarrow> notice_directive \<Rightarrow> bool \<Rightarrow> string \<Rightarrow> tool_world \<Rightarrow>
    (tool_error, unit) result \<times> tool_world" where
  "notice_restriction nt lc d golangci path =
     (if golangci then restrict_notice nt d True path
      else t_bind (add_other_platforms nt lc path) (\<lambda>_. restrict_notice nt d False path))"

section \<open>Staging the tools\<close>

datatype staged = StagedTree | StagedLink | StagedCopy | NotStaged

definition staged_as :: "string \<Rightarrow> bool \<Rightarrow> staged" where
  "staged_as name is_dir =
     (if name = ''scripts'' \<and> is_dir then StagedTree
      else if is_dir then NotStaged
      else if name = ''staticcheck-extra'' then StagedLink
      else if path_ext name \<notin> {''.mk'', ''.yml'', ''.yaml'', ''.txt''} \<and> name \<noteq> ''.go-mk-commit'' then NotStaged
      else StagedCopy)"

section \<open>Nothing new is accepted\<close>

lemma reject_identified: "reject_loop identify accepted fs = Inr ks \<Longrightarrow> f \<in> set fs \<Longrightarrow> \<exists>i. identify f = Inr i"
  by (induction identify accepted fs arbitrary: ks rule: reject_loop.induct) (auto split: sum.splits if_splits)

definition same_identity :: "(string \<Rightarrow> (tool_error, string) result) \<Rightarrow> string \<Rightarrow> string list \<Rightarrow> string list" where
  "same_identity identify i fs = filter (\<lambda>f. identify f = Inr i) fs"

text \<open>However much more is rejected, the findings left with an identity are no more than those accepted for it.\<close>

lemma reject_bound:
  "reject_loop identify accepted fs = Inr ks \<Longrightarrow> set ks \<subseteq> R \<Longrightarrow>
   length (same_identity identify i (filter (\<lambda>f. baseline_key f \<notin> R) fs)) \<le> accepted i"
proof (induction identify accepted fs arbitrary: ks rule: reject_loop.induct)
  case (2 identify accepted f fs)
  obtain j where j: "identify f = Inr j" using reject_identified [OF "2.prems"(1)] by auto
  show ?case
  proof (cases "accepted j = 0")
    case True
    then obtain ks' where r: "reject_loop identify accepted fs = Inr ks'" "ks = baseline_key f # ks'"
      using "2.prems"(1) j by (auto split: sum.splits)
    then show ?thesis
      using "2.IH"(1) [OF j True r(1)] "2.prems"(2) by (auto simp: same_identity_def)
  next
    case False
    then have r: "reject_loop identify (accepted(j := accepted j - 1)) fs = Inr ks" using "2.prems"(1) j by simp
    show ?thesis
      using "2.IH"(2) [OF j False r "2.prems"(2)] False j by (auto simp: same_identity_def split: if_splits)
  qed
qed (simp add: same_identity_def)

text \<open>A key is rejected exactly when one of its findings has more occurrences than the commit had.\<close>

definition exceeds :: "(string \<Rightarrow> (tool_error, string) result) \<Rightarrow> (string \<Rightarrow> nat) \<Rightarrow> string list \<Rightarrow> string \<Rightarrow> bool" where
  "exceeds identify accepted fs i \<longleftrightarrow> accepted i < length (same_identity identify i fs)"

lemma reject_exact:
  assumes "\<And>f g i. f \<in> set fs \<Longrightarrow> g \<in> set fs \<Longrightarrow> identify f = Inr i \<Longrightarrow> identify g = Inr i \<Longrightarrow> baseline_key f = baseline_key g"
    and "reject_loop identify accepted fs = Inr ks"
  shows "k \<in> set ks \<longleftrightarrow> (\<exists>f \<in> set fs. \<exists>i. baseline_key f = k \<and> identify f = Inr i \<and> exceeds identify accepted fs i)"
  using assms
proof (induction identify accepted fs arbitrary: ks rule: reject_loop.induct)
  case (2 identify accepted f fs)
  obtain j where j: "identify f = Inr j" using reject_identified [OF "2.prems"(2)] by auto
  have keys: "\<And>f g i. f \<in> set fs \<Longrightarrow> g \<in> set fs \<Longrightarrow> identify f = Inr i \<Longrightarrow> identify g = Inr i \<Longrightarrow> baseline_key f = baseline_key g"
    using "2.prems"(1) by simp
  have like_f: "baseline_key g = baseline_key f" if "g \<in> set (f # fs)" "identify g = Inr j" for g
    using "2.prems"(1) [of g f j] that j by simp
  show ?case
  proof (cases "accepted j = 0")
    case True
    then obtain ks' where r: "reject_loop identify accepted fs = Inr ks'" "ks = baseline_key f # ks'"
      using "2.prems"(2) j by (auto split: sum.splits)
    note IH = "2.IH"(1) [OF j True keys r(1)]
    have more: "exceeds identify accepted (f # fs) i \<longleftrightarrow> i = j \<or> exceeds identify accepted fs i" for i
      using j True by (auto simp: exceeds_def same_identity_def)
    show ?thesis
    proof
      assume "k \<in> set ks"
      then show "\<exists>g \<in> set (f # fs). \<exists>i. baseline_key g = k \<and> identify g = Inr i \<and> exceeds identify accepted (f # fs) i"
        using IH r(2) j more by auto
    next
      assume "\<exists>g \<in> set (f # fs). \<exists>i. baseline_key g = k \<and> identify g = Inr i \<and> exceeds identify accepted (f # fs) i"
      then obtain g i where g: "g \<in> set (f # fs)" "baseline_key g = k" "identify g = Inr i" "exceeds identify accepted (f # fs) i"
        by blast
      show "k \<in> set ks"
      proof (cases "i = j")
        case True
        then show ?thesis using like_f [OF g(1)] g(2,3) r(2) by simp
      next
        case False
        then show ?thesis using g j more IH r(2) by auto
      qed
    qed
  next
    case False
    then have r: "reject_loop identify (accepted(j := accepted j - 1)) fs = Inr ks" using "2.prems"(2) j by simp
    have same: "exceeds identify (accepted(j := accepted j - 1)) fs i \<longleftrightarrow> exceeds identify accepted (f # fs) i" for i
      using j False by (auto simp: exceeds_def same_identity_def)
    have "k \<in> set ks \<longleftrightarrow> (\<exists>g \<in> set fs. \<exists>i. baseline_key g = k \<and> identify g = Inr i \<and>
        exceeds identify (accepted(j := accepted j - 1)) fs i)"
      by (rule "2.IH"(2) [OF j False _ r]) (rule keys)
    then have IH: "k \<in> set ks \<longleftrightarrow> (\<exists>g \<in> set fs. \<exists>i. baseline_key g = k \<and> identify g = Inr i \<and>
        exceeds identify accepted (f # fs) i)"
      by (simp only: same)
    have another: "\<exists>g \<in> set fs. identify g = Inr j" if "exceeds identify accepted (f # fs) j"
    proof -
      have "same_identity identify j fs \<noteq> []"
        using that j False unfolding exceeds_def same_identity_def by (cases "filter (\<lambda>f. identify f = Inr j) fs") simp_all
      then show ?thesis by (auto simp: same_identity_def filter_empty_conv)
    qed
    show ?thesis
    proof
      assume "k \<in> set ks"
      then show "\<exists>g \<in> set (f # fs). \<exists>i. baseline_key g = k \<and> identify g = Inr i \<and> exceeds identify accepted (f # fs) i"
        using IH by auto
    next
      assume "\<exists>g \<in> set (f # fs). \<exists>i. baseline_key g = k \<and> identify g = Inr i \<and> exceeds identify accepted (f # fs) i"
      then obtain g i where g: "g \<in> set (f # fs)" "baseline_key g = k" "identify g = Inr i" "exceeds identify accepted (f # fs) i"
        by blast
      show "k \<in> set ks"
      proof (cases "i = j")
        case True
        then obtain h where "h \<in> set fs" "identify h = Inr j" using another g(4) by blast
        then show ?thesis using like_f [of h] like_f [OF g(1)] g True IH by auto
      next
        case False
        then show ?thesis using g j IH by auto
      qed
    qed
  qed
qed (simp add: exceeds_def same_identity_def)

definition identities :: "(string \<Rightarrow> (tool_error, string) result) \<Rightarrow> string list \<Rightarrow> string multiset" where
  "identities identify fs = mset (List.map_filter (\<lambda>f. case identify f of Inl _ \<Rightarrow> None | Inr i \<Rightarrow> Some i) fs)"

lemma count_identities: "count (identities identify fs) i = length (same_identity identify i fs)"
  by (induction fs) (auto simp: identities_def same_identity_def List.map_filter_simps split: sum.splits)

lemma keep_historical_sound:
  assumes "keep_historical identify historical current = Inr kept"
  shows "identities identify kept \<subseteq># mset historical"
    "\<forall>f \<in> set current. \<exists>i. identify f = Inr i"
    "\<exists>R. kept = filter (\<lambda>f. baseline_key f \<notin> R) current"
proof -
  obtain ks where r: "reject_loop identify (count_list historical) current = Inr ks"
      "kept = filter (\<lambda>f. baseline_key f \<notin> set ks) current"
    using assms by (auto simp: keep_historical_def split: sum.splits)
  show "identities identify kept \<subseteq># mset historical"
    using reject_bound [OF r(1) subset_refl]
    by (intro mset_subset_eqI) (simp add: r(2) count_identities count_mset)
  show "\<forall>f \<in> set current. \<exists>i. identify f = Inr i" using reject_identified [OF r(1)] by blast
  show "\<exists>R. kept = filter (\<lambda>f. baseline_key f \<notin> R) current" using r(2) by blast
qed

text \<open>Equal identities have equal keys, as the digest after the key has one length.\<close>

lemma source_identity_key:
  assumes sha: "\<And>s. length (nt_sha256 nt s) = n"
    and "notice_identity nt d w base f = Inr i" "notice_identity nt d w base g = Inr i"
  shows "baseline_key f = baseline_key g"
proof -
  have len: "length (hex_encode s) = 2 * length s" for s by (induction s) (simp_all add: hex_encode_def)
  have split: "a = b" if "a @ nul # hex_encode (nt_sha256 nt s) = b @ nul # hex_encode (nt_sha256 nt t)" for a b s t
    using that append_eq_append_conv [of a b "nul # hex_encode (nt_sha256 nt s)" "nul # hex_encode (nt_sha256 nt t)"]
    by (simp add: len sha)
  show ?thesis
    using assms(2,3)
    by (auto simp: notice_identity_def source_identity_def dest!: split split: if_splits option.splits sum.splits)
qed

lemma keep_historical_exact:
  assumes "\<And>f g i. f \<in> set current \<Longrightarrow> g \<in> set current \<Longrightarrow> identify f = Inr i \<Longrightarrow> identify g = Inr i \<Longrightarrow> baseline_key f = baseline_key g"
    and "keep_historical identify historical current = Inr kept" "f \<in> set current"
  shows "f \<in> set kept \<longleftrightarrow>
    (\<forall>g \<in> set current. \<forall>i. baseline_key g = baseline_key f \<longrightarrow> identify g = Inr i \<longrightarrow>
       count (identities identify current) i \<le> count (mset historical) i)"
proof -
  obtain ks where r: "reject_loop identify (count_list historical) current = Inr ks"
      "kept = filter (\<lambda>f. baseline_key f \<notin> set ks) current"
    using assms(2) by (auto simp: keep_historical_def split: sum.splits)
  have over: "exceeds identify (count_list historical) current i \<longleftrightarrow>
      \<not> count (identities identify current) i \<le> count (mset historical) i" for i
    by (simp add: exceeds_def count_identities count_mset not_le)
  have "baseline_key f \<in> set ks \<longleftrightarrow> (\<exists>g \<in> set current. \<exists>i. baseline_key g = baseline_key f \<and> identify g = Inr i \<and>
      exceeds identify (count_list historical) current i)"
    by (rule reject_exact [OF assms(1) r(1)])
  then show ?thesis using assms(3) r(2) over by auto
qed

text \<open>
  C20. A notice accepts only what the commit before its effective date had. The findings it leaves to be written are those
  of the keys none of whose findings occurs more often than in that commit, with occurrences told apart by the source
  around them: a key is kept whole or not at all, and no identity is kept more often than the commit had it.
\<close>

theorem notice_accepts_history:
  assumes run: "restrict_notice nt d golangci path w = (Inr (), w')"
    and sha: "\<And>s. length (nt_sha256 nt s) = n"
  shows "\<exists>revision current historical kept u v.
    fst (notice_revision nt d w) = Inr revision \<and> read_file_lines path (snd (notice_revision nt d w)) = (Inr current, u) \<and>
    capture_history nt d golangci revision u = (Inr historical, v) \<and> tw_files w' path = Some (write_findings_text kept) \<and>
    (\<forall>f \<in> set current. f \<in> set kept \<longleftrightarrow>
       (\<forall>g \<in> set current. \<forall>i. baseline_key g = baseline_key f \<longrightarrow> notice_identity nt d v ''.'' g = Inr i \<longrightarrow>
          count (identities (notice_identity nt d v ''.'') current) i \<le> count (mset historical) i)) \<and>
    identities (notice_identity nt d v ''.'') kept \<subseteq># mset historical"
proof -
  obtain revision u0 where r: "notice_revision nt d w = (Inr revision, u0)"
    using run by (auto simp: restrict_notice_def t_bind_Inr)
  obtain current u where c: "read_file_lines path u0 = (Inr current, u)"
    using run r by (auto simp: restrict_notice_def t_bind_Inr)
  obtain historical v where h: "capture_history nt d golangci revision u = (Inr historical, v)"
    using run r c by (auto simp: restrict_notice_def t_bind_Inr)
  obtain kept where k: "keep_historical (notice_identity nt d v ''.'') historical current = Inr kept"
      "write_findings_file path kept v = (Inr (), w')"
    using run r c h by (auto simp: restrict_notice_def t_bind_Inr split: sum.splits)
  have "tw_files w' path = Some (write_findings_text kept)"
    using k(2) by (auto simp: write_findings_file_def t_set_def t_tick_def Let_def split: if_splits)
  moreover note keep_historical_exact [OF source_identity_key [OF sha] k(1)] keep_historical_sound(1) [OF k(1)]
  ultimately show ?thesis using r c h by auto
qed

definition sample_notice :: notice_context where
  "sample_notice =
     \<lparr>nt_time = (\<lambda>_. None), nt_format = (\<lambda>_. ''t''), nt_node = (\<lambda>_ _ _ _. Some ([], ''x'')), nt_sha256 = (\<lambda>_. ''h''),
      nt_links = (\<lambda>_ p. Some p), nt_checkout = (\<lambda>_ _ _ w. (Inr (''/c'', [''a.go:3:1: m'']), w))\<rparr>"

definition sample_directive :: notice_directive where
  "sample_directive =
     \<lparr>nd_gate = ''golangci'', nd_linter = ''l'', nd_rule = [], nd_pattern = [], nd_introduced = \<lparr>mo_instant = 5, mo_zone = 0\<rparr>\<rparr>"

definition noticing_tool :: tool_world where
  "noticing_tool = sample_tool\<lparr>tw_files := (\<lambda>_. None)(''f'' \<mapsto> ''a.go:9:1: m'' @ newline @ ''b.go:1:1: n'' @ newline),
     tw_run := (\<lambda>n argv. Exited 0 (if n = 0 then ''false'' else if n = 1 then ''abc'' else []) [])\<rparr>"

lemma notice_accepts_history_witness:
  "\<exists>kept v. tw_files (snd (restrict_notice sample_notice sample_directive True ''f'' noticing_tool)) ''f'' =
       Some (write_findings_text kept) \<and>
     identities (notice_identity sample_notice sample_directive v ''.'') kept \<subseteq># mset [''a.go::: m'' @ [nul] @ ''68'']"
proof -
  let ?w = noticing_tool and ?nt = sample_notice and ?d = sample_directive
  have rev: "fst (notice_revision ?nt ?d ?w) = Inr ''abc''" by code_simp
  have history: "fst (capture_history ?nt ?d True ''abc'' (snd (read_file_lines ''f'' (snd (notice_revision ?nt ?d ?w))))) =
      Inr [''a.go::: m'' @ [nul] @ ''68'']" by code_simp
  have "fst (restrict_notice ?nt ?d True ''f'' ?w) = Inr ()" by code_simp
  then have run: "restrict_notice ?nt ?d True ''f'' ?w = (Inr (), snd (restrict_notice ?nt ?d True ''f'' ?w))"
    by (metis prod.collapse)
  have sha: "length (nt_sha256 ?nt s) = 1" for s by (simp add: sample_notice_def)
  show ?thesis using notice_accepts_history [OF run sha] rev history by force
qed

end
