(* ===== verification/Notice.thy ===== *)
theory Notice
  imports NoticeHistory
begin

text \<open>
  The notice pass (\<open>notice.go\<close>): the records of \<open>notices.txt\<close>, the decision whether this repository adopted the engine
  before a notice, the automatic baseline of a notice, and the files that remember what was applied and what was shown.
  Standard error is not modelled; a directory counts as a baseline file with content.
\<close>

record notice_record =
  nr_id :: string
  nr_directive :: string
  nr_summary :: string

text \<open>\<open>strings.SplitN(line, "\t", 3)\<close>.\<close>

definition notice_record_of :: "string \<Rightarrow> notice_record option" where
  "notice_record_of line =
     (case split_on (CHR 0x09) line of
        [] \<Rightarrow> None
      | a # rest \<Rightarrow>
          if a = [] \<or> prefix ''#'' a then None
          else Some \<lparr>nr_id = a, nr_directive = (case rest of [] \<Rightarrow> [] | b # _ \<Rightarrow> b),
                 nr_summary = (case rest of _ # c # cs \<Rightarrow> str_join tab (c # cs) | _ \<Rightarrow> [])\<rparr>)"

definition read_notice_records :: "string \<Rightarrow> tool_world \<Rightarrow> (tool_error, notice_record list) result \<times> tool_world" where
  "read_notice_records path = t_bind (read_file_lines path) (\<lambda>ls. t_lift (Inr (List.map_filter notice_record_of ls)))"

definition load_applied :: "string \<Rightarrow> tool_world \<Rightarrow> string list \<times> tool_world" where
  "load_applied path w =
     (case read_file_lines path w of
        (Inl _, w) \<Rightarrow> ([], w) | (Inr ls, w) \<Rightarrow> (filter (\<lambda>l. l \<noteq> []) (map trim_space ls), w))"

definition load_last_seen :: "string \<Rightarrow> tool_world \<Rightarrow> int \<times> tool_world" where
  "load_last_seen path w =
     (case read_file_lines path w of
        (Inr (l # _), w) \<Rightarrow> (case atoi (trim_space l) of None \<Rightarrow> 0 | Some v \<Rightarrow> v, w) | (_, w) \<Rightarrow> (0, w))"

definition write_seen :: "string \<Rightarrow> int \<Rightarrow> tool_world \<Rightarrow> bool \<times> tool_world" where
  "write_seen path v = t_set WriteCall path (Some (itoa v @ newline))"

definition append_applied :: "string \<Rightarrow> string \<Rightarrow> tool_world \<Rightarrow> bool \<times> tool_world" where
  "append_applied path ident w =
     (case (if path_dir path = [] \<or> path_dir path = ''.'' then (True, w) else t_try MkdirCall w) of
        (False, w) \<Rightarrow> (False, w) | (True, w) \<Rightarrow> t_append path (ident @ newline) w)"

definition directive_field :: "notice_context \<Rightarrow> notice_directive \<Rightarrow> string \<Rightarrow> notice_directive" where
  "directive_field nt d word =
     (if prefix ''GATE='' word then d\<lparr>nd_gate := trim_prefix word ''GATE=''\<rparr>
      else if prefix ''LINTER='' word then d\<lparr>nd_linter := trim_prefix word ''LINTER=''\<rparr>
      else if prefix ''RULE='' word then d\<lparr>nd_rule := trim_prefix word ''RULE=''\<rparr>
      else if prefix ''PATTERN='' word then d\<lparr>nd_pattern := trim_prefix word ''PATTERN=''\<rparr>
      else if prefix ''INTRODUCED='' word
      then (case nt_time nt (trim_prefix word ''INTRODUCED='') of None \<Rightarrow> d | Some m \<Rightarrow> d\<lparr>nd_introduced := m\<rparr>)
      else d)"

definition parse_directive :: "notice_context \<Rightarrow> string \<Rightarrow> notice_directive" where
  "parse_directive nt s =
     foldl (directive_field nt)
       \<lparr>nd_gate = ''golangci'', nd_linter = [], nd_rule = [], nd_pattern = [], nd_introduced = zero_moment\<rparr> (str_fields s)"

section \<open>Adoption\<close>

definition earlier :: "moment \<Rightarrow> moment option \<Rightarrow> moment option" where
  "earlier m best = (case best of None \<Rightarrow> Some m | Some b \<Rightarrow> if mo_instant m < mo_instant b then Some m else Some b)"

definition earliest :: "moment option list \<Rightarrow> moment option" where
  "earliest ms = foldl (\<lambda>best m. case m of None \<Rightarrow> best | Some m \<Rightarrow> earlier m best) None ms"

definition sentinel_paths :: "string list" where
  "sentinel_paths = [''bootstrap.mk'', ''go.mk'', ''.go-mk-applied-notices'']"

definition sentinel_added :: "notice_context \<Rightarrow> string \<Rightarrow> tool_world \<Rightarrow> moment option \<times> tool_world" where
  "sentinel_added nt path w =
     (case logged_git_output [''log'', ''--follow'', ''--diff-filter=A'', ''--format=%cI'', ''--'', path] w of
        (Inl _, w) \<Rightarrow> (None, w)
      | (Inr out, w) \<Rightarrow> (earliest (map (\<lambda>l. nt_time nt (trim_space l)) (scanned out)), w))"

fun sentinels_added :: "notice_context \<Rightarrow> string list \<Rightarrow> tool_world \<Rightarrow> moment option list \<times> tool_world" where
  "sentinels_added nt [] w = ([], w)"
| "sentinels_added nt (p # ps) w =
     (case sentinel_added nt p w of (m, w) \<Rightarrow> (case sentinels_added nt ps w of (ms, w) \<Rightarrow> (m # ms, w)))"

definition adoption_time :: "notice_context \<Rightarrow> tool_world \<Rightarrow> moment option \<times> tool_world" where
  "adoption_time nt w =
     (case logged_git_output [''rev-parse'', ''--is-shallow-repository''] w of
        (r, w) \<Rightarrow> if r = Inr ''true'' then (None, w)
                  else (case sentinels_added nt sentinel_paths w of (ms, w) \<Rightarrow> (earliest ms, w)))"

definition baseline_has_content :: "tool_world \<Rightarrow> string \<Rightarrow> bool" where
  "baseline_has_content w path \<longleftrightarrow>
     t_fails StatCall w \<or> (case tw_files w path of None \<Rightarrow> tw_dirs w path | Some s \<Rightarrow> s \<noteq> [])"

fun any_with_content :: "string list \<Rightarrow> tool_world \<Rightarrow> bool \<times> tool_world" where
  "any_with_content [] w = (False, w)"
| "any_with_content (p # ps) w =
     (if baseline_has_content w p then (True, t_tick w) else any_with_content ps (t_tick w))"

definition should_auto_baseline :: "notice_context \<Rightarrow> notice_directive \<Rightarrow> tool_world \<Rightarrow> bool \<times> tool_world" where
  "should_auto_baseline nt d w =
     (if mo_instant (nd_introduced d) = 0 then any_with_content (configured_baselines w) w
      else (case adoption_time nt w of
              (None, w) \<Rightarrow> any_with_content (configured_baselines w) w
            | (Some m, w) \<Rightarrow> (mo_instant m < mo_instant (nd_introduced d), w)))"

section \<open>The automatic baseline\<close>

text \<open>\<open>os.Setenv\<close> around a step, and \<open>restoreEnv\<close> after it.\<close>

definition unset_env_var :: "string list \<Rightarrow> string \<Rightarrow> string list" where
  "unset_env_var env key = filter (\<lambda>e. \<not> prefix (key @ ''='') e) env"

definition restore_env :: "string list \<Rightarrow> string \<Rightarrow> string list \<Rightarrow> string list" where
  "restore_env before key env = (case env_entry key before of None \<Rightarrow> unset_env_var env key | Some v \<Rightarrow> set_env_var env key v)"

definition with_env :: "(string \<times> string) list \<Rightarrow> (tool_world \<Rightarrow> 'a \<times> tool_world) \<Rightarrow> tool_world \<Rightarrow> 'a \<times> tool_world" where
  "with_env settings f w =
     (let before = tw_environ w in
      case f (w\<lparr>tw_environ := foldl (\<lambda>env (k, v). set_env_var env k v) before settings\<rparr>) of
        (r, v) \<Rightarrow> (r, v\<lparr>tw_environ := foldl (\<lambda>env (k, _). restore_env before k env) (tw_environ v) settings\<rparr>))"

definition notice_gate_staticcheck :: string where "notice_gate_staticcheck = ''staticcheck-extra''"

definition run_notice_baseline :: "notice_context \<Rightarrow> baseline_context \<Rightarrow> string \<Rightarrow> notice_directive \<Rightarrow> tool_world \<Rightarrow> int \<times> tool_world" where
  "run_notice_baseline nt bl component d =
     run_baseline (bl\<lparr>bl_restrict := notice_restriction nt (bl_lint bl) d\<rparr>) [component]"

definition record_applied :: "string \<Rightarrow> notice_record \<Rightarrow> string list \<Rightarrow> tool_world \<Rightarrow> string list \<times> tool_world" where
  "record_applied path r applied w =
     (case append_applied path (nr_id r) w of (ok, w) \<Rightarrow> (if ok then nr_id r # applied else applied, w))"

definition notice_settings :: "notice_directive \<Rightarrow> (string \<times> string) list" where
  "notice_settings d =
     (if nd_gate d = notice_gate_staticcheck then [(''STATICCHECK_EXTRA_BASELINE_SCOPE_PATTERN'', nd_pattern d)]
      else [(''LINTER'', nd_linter d), (''RULE'', nd_rule d), (''GOLANGCI_LINT_BASELINE_SCOPE_PATTERN'', nd_pattern d)])"

definition notice_component :: "notice_directive \<Rightarrow> string" where
  "notice_component d =
     (if nd_gate d = notice_gate_staticcheck then ''auto-baseline-staticcheck-scope'' else ''auto-baseline-scope'')"

definition auto_baseline :: "notice_context \<Rightarrow> baseline_context \<Rightarrow> string \<Rightarrow> notice_record \<Rightarrow> notice_directive \<Rightarrow> string list \<Rightarrow>
    tool_world \<Rightarrow> string list \<times> tool_world" where
  "auto_baseline nt bl path r d applied w =
     (if nd_gate d \<noteq> notice_gate_staticcheck \<and> nd_gate d \<noteq> ''golangci'' then (applied, w)
      else (case with_env (notice_settings d) (run_notice_baseline nt bl (notice_component d) d) w of
              (code, w) \<Rightarrow> if code \<noteq> 0 then (applied, w) else record_applied path r applied w))"

section \<open>The pass\<close>

definition is_directive :: "notice_record \<Rightarrow> bool" where
  "is_directive r \<longleftrightarrow> nr_directive r \<noteq> [] \<and> nr_directive r \<noteq> ''-''"

text \<open>What a record decides: the directive, and whether it asks for an automatic baseline.\<close>

definition notice_decision :: "notice_context \<Rightarrow> notice_record \<Rightarrow> tool_world \<Rightarrow> (notice_directive \<times> bool) \<times> tool_world" where
  "notice_decision nt r w =
     (if is_directive r
      then (case should_auto_baseline nt (parse_directive nt (nr_directive r)) w of
              (b, w) \<Rightarrow> ((parse_directive nt (nr_directive r), b), w))
      else ((\<lparr>nd_gate = [], nd_linter = [], nd_rule = [], nd_pattern = [], nd_introduced = zero_moment\<rparr>, False), w))"

definition apply_notice :: "notice_context \<Rightarrow> baseline_context \<Rightarrow> string \<Rightarrow> string \<Rightarrow> notice_record \<Rightarrow> string list \<Rightarrow>
    tool_world \<Rightarrow> string list \<times> tool_world" where
  "apply_notice nt bl only_gate path r applied w =
     (case notice_decision nt r w of
        ((d, automatic), w) \<Rightarrow>
          if \<not> is_directive r \<or> nr_id r \<in> set applied then (applied, w)
          else if only_gate \<noteq> []
          then (if nd_gate d = only_gate \<and> automatic then auto_baseline nt bl path r d applied w else (applied, w))
          else if automatic then auto_baseline nt bl path r d applied w
          else record_applied path r applied w)"

fun notice_loop :: "notice_context \<Rightarrow> baseline_context \<Rightarrow> string \<Rightarrow> string \<Rightarrow> notice_record list \<Rightarrow> string list \<Rightarrow> int \<Rightarrow>
    tool_world \<Rightarrow> int \<times> tool_world" where
  "notice_loop nt bl only_gate path [] applied seen w = (seen, w)"
| "notice_loop nt bl only_gate path (r # rs) applied seen w =
     (case atoi (nr_id r) of
        None \<Rightarrow> notice_loop nt bl only_gate path rs applied seen w
      | Some n \<Rightarrow>
          (case apply_notice nt bl only_gate path r applied w of
             (applied, w) \<Rightarrow> notice_loop nt bl only_gate path rs applied (if only_gate = [] then max seen n else seen) w))"

definition notices_file :: "tool_world \<Rightarrow> string" where
  "notices_file w = tenv_default w ''_GO_MK_NOTICES_FILE'' (path_join [make_dir, ''notices.txt''])"

definition applied_file :: "tool_world \<Rightarrow> string" where
  "applied_file w = tenv_default w ''GO_MK_APPLIED_NOTICES'' ''.go-mk-applied-notices''"

definition seen_file :: string where "seen_file = path_join [make_dir, ''.go-mk-notice-seen'']"

definition run_notice_for :: "notice_context \<Rightarrow> baseline_context \<Rightarrow> string \<Rightarrow> tool_world \<Rightarrow> int \<times> tool_world" where
  "run_notice_for nt bl only_gate w =
     (let path = applied_file w; (there, v) = t_stat (notices_file w) w in
      if \<not> there then (0, v)
      else (case load_applied path v of (applied, v) \<Rightarrow>
             (case load_last_seen seen_file v of (last_seen, v) \<Rightarrow>
               (case read_notice_records (notices_file w) v of
                  (Inl _, v) \<Rightarrow> (0, v)
                | (Inr records, v) \<Rightarrow>
                    if in_ci_run (current_ci_env v) then (0, v)
                    else (case notice_loop nt bl only_gate path records applied last_seen v of (seen, v) \<Rightarrow>
                           if only_gate \<noteq> [] then (0, v)
                           else (case t_try MkdirCall v of
                                   (False, v) \<Rightarrow> (0, v) | (True, v) \<Rightarrow> (0, snd (write_seen seen_file seen v))))))))"

definition run_notice :: "notice_context \<Rightarrow> baseline_context \<Rightarrow> tool_world \<Rightarrow> int \<times> tool_world" where
  "run_notice nt bl = run_notice_for nt bl []"

text \<open>The pass as the lint commands call it.\<close>

definition notice_pass :: "notice_context \<Rightarrow> baseline_context \<Rightarrow> string \<Rightarrow> tool_world \<Rightarrow> tool_world" where
  "notice_pass nt bl only_gate w = snd (run_notice_for nt bl only_gate w)"

section \<open>A repository that is up to date\<close>

text \<open>The files no command of the world writes.\<close>

definition unwritten :: "tool_world \<Rightarrow> string \<Rightarrow> bool" where
  "unwritten w p \<longleftrightarrow> (\<forall>n argv status out ws. tw_run w n argv = Exited status out ws \<longrightarrow> p \<notin> fst ` set ws)"

text \<open>A step that only runs commands and reads files.\<close>

definition looks :: "tool_world \<Rightarrow> tool_world \<Rightarrow> bool" where
  "looks w w' \<longleftrightarrow> tw_run w' = tw_run w \<and> tw_fault w' = tw_fault w \<and> (\<forall>p. unwritten w p \<longrightarrow> tw_files w' p = tw_files w p)"

lemma looks_refl [simp]: "looks w w"
  by (simp add: looks_def)

lemma looks_trans: "looks u v \<Longrightarrow> looks v w \<Longrightarrow> looks u w"
  by (auto simp: looks_def unwritten_def)

lemma looks_tick [simp]: "looks w (t_tick w)"
  by (simp add: looks_def t_tick_def)

lemma looks_git: "logged_git_output argv w = (r, w') \<Longrightarrow> looks w w'"
  by (auto simp: logged_git_output_def t_output_def t_exec_def t_tick_def Let_def looks_def unwritten_def apply_writes_other
      split: prod.splits sum.splits cmd_outcome.splits if_splits)

lemma looks_sentinels: "sentinels_added nt ps w = (ms, w') \<Longrightarrow> looks w w'"
proof (induction nt ps w arbitrary: ms w' rule: sentinels_added.induct)
  case (2 nt p ps w)
  obtain m v where s: "sentinel_added nt p w = (m, v)" by fastforce
  have "looks w v" using s by (auto simp: sentinel_added_def dest: looks_git split: prod.splits sum.splits)
  moreover obtain rest where "sentinels_added nt ps v = (rest, w')" using "2.prems" s by (auto split: prod.splits)
  ultimately show ?case using "2.IH" s looks_trans by metis
qed simp

lemma looks_contents: "any_with_content ps w = (b, w') \<Longrightarrow> looks w w'"
  by (induction ps w arbitrary: b w' rule: any_with_content.induct)
    (auto split: if_splits intro: looks_trans [OF looks_tick])

lemma looks_adoption: "adoption_time nt w = (m, w') \<Longrightarrow> looks w w'"
  by (auto simp: adoption_time_def dest!: looks_git looks_sentinels intro: looks_trans split: prod.splits if_splits)

lemma looks_should: "should_auto_baseline nt d w = (b, w') \<Longrightarrow> looks w w'"
  by (auto simp: should_auto_baseline_def dest!: looks_adoption looks_contents intro: looks_trans
      split: prod.splits option.splits if_splits)

lemma looks_decision: "notice_decision nt r w = (x, w') \<Longrightarrow> looks w w'"
  by (auto simp: notice_decision_def dest!: looks_should split: prod.splits if_splits)

lemma looks_loop:
  assumes "notice_loop nt bl gate path rs applied seen w = (s, w')" "\<forall>r \<in> set rs. is_directive r \<longrightarrow> nr_id r \<in> set applied"
  shows "looks w w'"
  using assms
proof (induction nt bl gate path rs applied seen w arbitrary: s w' rule: notice_loop.induct)
  case (2 nt bl gate path r rs applied seen w)
  show ?case
  proof (cases "atoi (nr_id r)")
    case None
    then show ?thesis using 2 by simp
  next
    case (Some n)
    obtain x v where d: "notice_decision nt r w = (x, v)" by fastforce
    have apply': "apply_notice nt bl gate path r applied w = (applied, v)"
      using d "2.prems"(2) by (auto simp: apply_notice_def split: prod.splits)
    have "looks v w'"
      using "2.IH"(2) [OF Some apply' [symmetric]] "2.prems" Some apply' by simp
    then show ?thesis using looks_decision [OF d] looks_trans by blast
  qed
qed simp

lemma looks_lines: "read_file_lines path w = (r, w') \<Longrightarrow> looks w w'"
  by (auto simp: read_file_lines_def t_read_def looks_def t_tick_def split: prod.splits file_read.splits option.splits if_splits)

lemma tick_files: "tw_files (t_tick w) = tw_files w"
  by (simp add: t_tick_def)

lemma read_lines_there:
  assumes "tw_files w path = Some s" "\<not> t_fails ReadCall w"
  shows "read_file_lines path w = (Inr (text_lines s), t_tick w)"
  using assms by (simp add: read_file_lines_def t_read_def)

lemma record_named: "r \<in> set (List.map_filter notice_record_of ls) \<Longrightarrow> nr_id r \<noteq> []"
proof -
  have "nr_id r \<noteq> []" if "notice_record_of l = Some r" for l
    using that by (cases "split_on (CHR 0x09) l") (auto simp: notice_record_of_def split: if_splits)
  then show "r \<in> set (List.map_filter notice_record_of ls) \<Longrightarrow> nr_id r \<noteq> []"
    by (auto simp: List.map_filter_def)
qed

text \<open>
  Once every directive of the notices file is recorded as applied, a notice pass changes no file but the record of
  what was shown, apart from what the git commands it runs write.
\<close>

theorem applied_notices_settle:
  assumes run: "run_notice_for nt bl gate w = (status, w')"
    and files: "tw_files w (applied_file w) = Some applied_text" "tw_files w (notices_file w) = Some notices_text"
    and readable: "\<And>n. \<not> tw_fault w ReadCall n"
    and applied: "\<forall>r \<in> set (List.map_filter notice_record_of (text_lines notices_text)).
      is_directive r \<longrightarrow> nr_id r \<in> trim_space ` set (text_lines applied_text)"
    and p: "unwritten w p" "p \<noteq> seen_file"
  shows "status = 0 \<and> tw_files w' p = tw_files w p"
proof -
  let ?ids = "filter (\<lambda>l. l \<noteq> []) (map trim_space (text_lines applied_text))"
  let ?rs = "List.map_filter notice_record_of (text_lines notices_text)"
  have ids: "\<forall>r \<in> set ?rs. is_directive r \<longrightarrow> nr_id r \<in> set ?ids" using applied record_named by fastforce
  have no: "\<not> t_fails ReadCall v" if "tw_fault v = tw_fault w" for v using readable that by (simp add: t_fails_def)
  obtain there v0 where st: "t_stat (notices_file w) w = (there, v0)" by fastforce
  have v0: "v0 = t_tick w" using st by (simp add: t_stat_def)
  have l: "load_applied (applied_file w) v0 = (?ids, t_tick v0)"
    using read_lines_there [of v0 "applied_file w" applied_text] files(1) no by (simp add: load_applied_def v0 t_tick_def)
  obtain last_seen v1 where s: "load_last_seen seen_file (t_tick v0) = (last_seen, v1)" by fastforce
  have v1: "v1 = t_tick (t_tick v0)"
    using s by (auto simp: load_last_seen_def read_file_lines_def t_read_def split: prod.splits sum.splits list.splits
        option.splits file_read.splits if_splits)
  have records: "read_notice_records (notices_file w) v1 = (Inr ?rs, t_tick v1)"
    using read_lines_there [of v1 "notices_file w" notices_text] files(2) no
    by (simp add: read_notice_records_def t_bind_def t_lift_def v0 v1 t_tick_def)
  have ticked: "looks w (t_tick v1)" by (simp add: v0 v1 looks_def t_tick_def)
  obtain seen v2 where loop: "notice_loop nt bl gate (applied_file w) ?rs ?ids last_seen (t_tick v1) = (seen, v2)" by fastforce
  have "looks w v2" using looks_loop [OF loop ids] ticked looks_trans by blast
  then have same: "tw_files v2 p = tw_files w p" "tw_files (t_tick v1) p = tw_files w p" "tw_files v0 p = tw_files w p"
    using p(1) ticked by (auto simp: looks_def v0 t_tick_def)
  show ?thesis
    using run st l s records loop same p(2)
    by (auto simp: run_notice_for_def Let_def write_seen_def t_set_def t_try_def tick_files split: if_splits bool.splits)
qed

text \<open>In a CI run the pass only reports: it changes no file and runs no command.\<close>

lemma ci_run_only_reports:
  assumes "run_notice_for nt bl gate w = (status, w')" "in_ci_run (current_ci_env w)"
  shows "status = 0 \<and> tw_files w' = tw_files w \<and> tw_ran w' = tw_ran w"
proof -
  have lines: "tw_files v' = tw_files v \<and> tw_ran v' = tw_ran v \<and> tw_environ v' = tw_environ v"
    if "read_file_lines path v = (r, v')" for path v r v'
    using that by (auto simp: read_file_lines_def t_read_def t_tick_def split: file_read.splits option.splits if_splits)
  have applied: "tw_files v' = tw_files v \<and> tw_ran v' = tw_ran v \<and> tw_environ v' = tw_environ v"
    if "load_applied path v = (r, v')" for path v r v'
    using that by (auto simp: load_applied_def dest!: lines split: prod.splits sum.splits)
  have seen: "tw_files v' = tw_files v \<and> tw_ran v' = tw_ran v \<and> tw_environ v' = tw_environ v"
    if "load_last_seen path v = (r, v')" for path v r v'
    using that by (auto simp: load_last_seen_def dest!: lines split: prod.splits sum.splits list.splits)
  have records: "tw_files v' = tw_files v \<and> tw_ran v' = tw_ran v \<and> tw_environ v' = tw_environ v"
    if "read_notice_records path v = (r, v')" for path v r v'
    using that by (auto simp: read_notice_records_def t_bind_def t_lift_def dest!: lines split: prod.splits sum.splits)
  have env: "current_ci_env v = current_ci_env w" if "tw_environ v = tw_environ w" for v
    using that by (simp add: current_ci_env_def)
  obtain there v0 where st: "t_stat (notices_file w) w = (there, v0)" by fastforce
  obtain ids v1 where l: "load_applied (applied_file w) v0 = (ids, v1)" by fastforce
  obtain last_seen v2 where s: "load_last_seen seen_file v1 = (last_seen, v2)" by fastforce
  obtain r v3 where rr: "read_notice_records (notices_file w) v2 = (r, v3)" by fastforce
  have v0: "v0 = t_tick w" using st by (simp add: t_stat_def)
  have same: "tw_files v3 = tw_files w" "tw_ran v3 = tw_ran w" "tw_environ v3 = tw_environ w"
    using applied [OF l] seen [OF s] records [OF rr] by (auto simp: v0 t_tick_def)
  show ?thesis
    using assms st l s rr same env [OF same(3)] v0
    by (auto simp: run_notice_for_def Let_def t_tick_def split: if_splits sum.splits)
qed

end
