(* ===== verification/Provision.thy ===== *)
theory Provision
  imports BuildInstall
begin

text \<open>
  \<open>go-mk provision\<close> (\<open>provision.go\<close>): the assets of \<open>.make\<close>, fetched as one archive, validated by an ETag, or copied
  from a directory under development. Parameters: what each attempt to take the lock meets, random names, SHA-1,
  symbolic links of the working directory, the first header of the archive, and the clock. \<open>curl\<close> and \<open>tar\<close> are
  commands of the world. Standard error is not modelled.
\<close>

record provision_config =
  pc_repo :: string
  pc_ref :: string
  pc_dev :: string
  pc_modules :: "string list"
  pc_provisioned :: bool
  pc_base :: string

text \<open>The files, and which of their paths are symbolic links.\<close>

record provision_world =
  pw_tool :: tool_world
  pw_links :: "string \<Rightarrow> bool"

datatype lock_attempt = LockTaken | LockBroken | LockHeld "string option" bool

record provision_env =
  pe_lock :: "nat \<Rightarrow> lock_attempt"
  pe_alive :: "int \<Rightarrow> bool"
  pe_pid :: int
  pe_now :: int
  pe_sha1 :: "string \<Rightarrow> string"
  pe_links :: "string \<Rightarrow> string option"
  pe_temp_dir :: string
  pe_stage :: "tool_world \<Rightarrow> string option"
  pe_suffix :: "tool_world \<Rightarrow> string"
  pe_comment :: "string \<Rightarrow> string option"

type_synonym 'a provision_step = "provision_world \<Rightarrow> (string, 'a) result \<times> provision_world"

definition p_bind :: "'a provision_step \<Rightarrow> ('a \<Rightarrow> 'b provision_step) \<Rightarrow> 'b provision_step" where
  "p_bind m f w = (case m w of (Inl e, w) \<Rightarrow> (Inl e, w) | (Inr a, w) \<Rightarrow> f a w)"

definition p_fail :: "string \<Rightarrow> 'a provision_step" where "p_fail e w = (Inl e, w)"
definition p_return :: "'a \<Rightarrow> 'a provision_step" where "p_return a w = (Inr a, w)"

text \<open>A call on the files that can fail.\<close>

definition p_call :: "string \<Rightarrow> (tool_world \<Rightarrow> bool \<times> tool_world) \<Rightarrow> unit provision_step" where
  "p_call e f w =
     (case f (pw_tool w) of (ok, t) \<Rightarrow> (if ok then Inr () else Inl e, w\<lparr>pw_tool := t\<rparr>))"

text \<open>A call whose outcome is ignored.\<close>

definition p_try :: "(tool_world \<Rightarrow> bool \<times> tool_world) \<Rightarrow> provision_world \<Rightarrow> provision_world" where
  "p_try f w = w\<lparr>pw_tool := snd (f (pw_tool w))\<rparr>"

section \<open>Configuration\<close>

definition provision_dir :: string where "provision_dir = ''.make''"
definition self_asset :: string where "self_asset = ''scripts/go-mk-bootstrap.sh''"
definition state_path :: string where "state_path = ''.make/.go-mk-fetch-state''"
definition commit_path :: string where "commit_path = ''.make/.go-mk-commit''"
definition lock_wait :: nat where "lock_wait = 30"
definition default_codeload :: string where "default_codeload = ''https://codeload.github.com''"
definition default_repo :: string where "default_repo = ''agoodkind/go-makefile''"
definition default_ref :: string where "default_ref = ''main''"

definition trimmed_default :: "tool_world \<Rightarrow> string \<Rightarrow> string \<Rightarrow> string" where
  "trimmed_default t name fallback = (let v = trim_space (tenv t name) in if v = [] then fallback else v)"

definition load_provision_config :: "tool_world \<Rightarrow> provision_config" where
  "load_provision_config t =
     \<lparr>pc_repo = trimmed_default t ''GO_MK_API_REPO'' default_repo, pc_ref = trimmed_default t ''GO_MK_API_REF'' default_ref,
      pc_dev = trim_space (tenv t ''GO_MK_DEV_DIR''), pc_modules = str_fields (trim_space (tenv t ''GO_MK_MODULES'')),
      pc_provisioned = (trim_space (tenv t ''_GO_MK_PROVISIONED'') = ''1''),
      pc_base = trim_right (trimmed_default t ''GO_MK_CODELOAD_BASE'' default_codeload) ''/''\<rparr>"

definition codeload_url :: "provision_config \<Rightarrow> string" where
  "codeload_url cfg = pc_base cfg @ ''/'' @ pc_repo cfg @ ''/tar.gz/'' @ pc_ref cfg"

definition required_assets :: "provision_config \<Rightarrow> string list" where
  "required_assets cfg =
     [''go.mk'', ''golangci.yml'', ''notices.txt'', ''scripts/go-mk-fetch-one.sh'', ''scripts/go-mk-bin.sh'',
      ''scripts/go-mk-sync.sh'', self_asset] @ pc_modules cfg"

definition asset_path :: "string \<Rightarrow> string \<Rightarrow> string" where
  "asset_path base name = path_join [base, name]"

definition in_ci :: "tool_world \<Rightarrow> bool" where
  "in_ci t \<longleftrightarrow> tenv t ''GITHUB_ACTIONS'' = ''true'' \<and> \<not> blank (tenv t ''GITHUB_RUN_ID'')"

section \<open>The assets\<close>

text \<open>A regular file with content, and no symbolic link.\<close>

definition asset_there :: "provision_world \<Rightarrow> string \<Rightarrow> bool" where
  "asset_there w path \<longleftrightarrow>
     \<not> pw_links w path \<and> \<not> tw_dirs (pw_tool w) path \<and> (case tw_files (pw_tool w) path of None \<Rightarrow> False | Some s \<Rightarrow> s \<noteq> [])"

fun assets_there :: "string \<Rightarrow> string list \<Rightarrow> unit provision_step" where
  "assets_there base [] w = (Inr (), w)"
| "assets_there base (a # as) w =
     (if t_fails StatCall (pw_tool w) \<or> \<not> asset_there w (asset_path base a)
      then (Inl (asset_path base a @ '' is missing or empty''), p_try (t_try StatCall) w)
      else assets_there base as (p_try (t_try StatCall) w))"

definition assets_complete :: "provision_config \<Rightarrow> string \<Rightarrow> unit provision_step" where
  "assets_complete cfg base = assets_there base (required_assets cfg)"

definition temporary_beside :: "provision_env \<Rightarrow> tool_world \<Rightarrow> string \<Rightarrow> string" where
  "temporary_beside pe t target = path_join [path_dir target, path_base target @ ''.tmp.'' @ pe_suffix pe t]"

text \<open>A failed step after the temporary file was made removes it.\<close>

definition or_drop :: "string \<Rightarrow> unit provision_step \<Rightarrow> unit provision_step" where
  "or_drop temporary m w =
     (case m w of
        (Inl e, w) \<Rightarrow> (Inl e, p_try (t_set RemoveCall temporary None) w) | (Inr u, w) \<Rightarrow> (Inr u, w))"

definition copy_into :: "string \<Rightarrow> string \<Rightarrow> unit provision_step" where
  "copy_into source temporary w =
     (case t_read source (pw_tool w) of
        (Content s, t) \<Rightarrow> p_call ''could not install'' (t_set WriteCall temporary (Some s)) (w\<lparr>pw_tool := t\<rparr>)
      | (_, t) \<Rightarrow> (Inl ''could not install'', w\<lparr>pw_tool := t\<rparr>))"

definition rename_over :: "string \<Rightarrow> string \<Rightarrow> unit provision_step" where
  "rename_over temporary target w =
     (case t_rename temporary target (pw_tool w) of
        (True, t) \<Rightarrow> (Inr (), w\<lparr>pw_tool := t, pw_links := (pw_links w)(target := False)\<rparr>)
      | (False, t) \<Rightarrow> (Inl ''could not move into place'', w\<lparr>pw_tool := t\<rparr>))"

definition install_asset :: "provision_env \<Rightarrow> string \<Rightarrow> string \<Rightarrow> unit provision_step" where
  "install_asset pe source target w =
     (let v = p_try (t_try StatCall) w in
      if \<not> t_fails StatCall (pw_tool w) \<and> tw_dirs (pw_tool w) target then (Inl ''refusing to install over a directory'', v)
      else p_bind (p_call ''could not create the directory'' (t_try MkdirCall)) (\<lambda>_ w.
        let temporary = temporary_beside pe (pw_tool w) target in
        p_bind (p_call ''could not create a temporary file'' (t_set WriteCall temporary (Some []))) (\<lambda>_.
        p_bind (or_drop temporary (copy_into source temporary)) (\<lambda>_.
        p_bind (or_drop temporary (if suffix ''.sh'' target then p_call ''could not mark executable'' (t_try WriteCall) else p_return ()))
          (\<lambda>_. or_drop temporary (rename_over temporary target)))) w) v)"

fun install_each :: "provision_env \<Rightarrow> bool \<Rightarrow> string \<Rightarrow> string list \<Rightarrow> unit provision_step" where
  "install_each pe optional base [] w = (Inr (), w)"
| "install_each pe optional base (a # as) w =
     (if optional \<and> (t_fails StatCall (pw_tool w) \<or> tw_files (pw_tool w) (asset_path base a) = None \<and>
          \<not> tw_dirs (pw_tool w) (asset_path base a))
      then install_each pe optional base as (p_try (t_try StatCall) w)
      else p_bind (install_asset pe (asset_path base a) (asset_path provision_dir a)) (\<lambda>_. install_each pe optional base as)
             (if optional then p_try (t_try StatCall) w else w))"

section \<open>The validation state\<close>

definition file_there :: "provision_world \<Rightarrow> string \<Rightarrow> bool" where
  "file_there w path \<longleftrightarrow> tw_files (pw_tool w) path \<noteq> None \<or> tw_dirs (pw_tool w) path"

text \<open>\<open>os.Remove\<close>: it succeeds on a file that was there; a missing file is no error to the callers.\<close>

definition remove_file :: "string \<Rightarrow> provision_world \<Rightarrow> bool \<times> provision_world" where
  "remove_file path w =
     (if tw_files (pw_tool w) path = None \<and> \<not> tw_dirs (pw_tool w) path then (True, p_try (t_try RemoveCall) w)
      else (case t_set RemoveCall path None (pw_tool w) of (ok, t) \<Rightarrow> (ok, w\<lparr>pw_tool := t\<rparr>)))"

definition clear_state :: "unit provision_step" where
  "clear_state w =
     (case remove_file state_path w of (_, v) \<Rightarrow>
        (let there = (\<not> t_fails StatCall (pw_tool v) \<and> file_there v state_path); v = p_try (t_try StatCall) v in
         if there then (Inl ''could not remove the state'', v)
         else (case remove_file commit_path v of
                 (True, v) \<Rightarrow> (Inr (), v) | (False, v) \<Rightarrow> (Inl ''could not remove the commit'', v))))"

definition state_field :: "string \<Rightarrow> string list \<Rightarrow> string" where
  "state_field key ls = (case filter (prefix key) (rev ls) of [] \<Rightarrow> [] | l # _ \<Rightarrow> trim_prefix l key)"

definition read_state :: "provision_world \<Rightarrow> (string \<times> string) \<times> provision_world" where
  "read_state w =
     (case t_read state_path (pw_tool w) of
        (Content s, t) \<Rightarrow>
          ((state_field ''etag='' (split_on (CHR 0x0A) s), state_field ''ref='' (split_on (CHR 0x0A) s)), w\<lparr>pw_tool := t\<rparr>)
      | (_, t) \<Rightarrow> (([], []), w\<lparr>pw_tool := t\<rparr>))"

definition state_text :: "string \<Rightarrow> string \<Rightarrow> int \<Rightarrow> string" where
  "state_text ref etag now =
     ''ref='' @ ref @ newline @ ''etag='' @ etag @ newline @ ''timestamp='' @ itoa now @ newline"

definition header_etag :: "string \<Rightarrow> string option" where
  "header_etag line =
     (case str_cut (trim_right line [CHR 0x0D]) '':'' of
        None \<Rightarrow> None | Some (k, v) \<Rightarrow> if map lower_char (trim_space k) = ''etag'' then Some (trim_space v) else None)"

definition etag_of_headers :: "string \<Rightarrow> string" where
  "etag_of_headers s =
     (case rev (List.map_filter header_etag (split_on (CHR 0x0A) s)) of [] \<Rightarrow> [] | v # _ \<Rightarrow> v)"

definition read_etag :: "string \<Rightarrow> provision_world \<Rightarrow> string \<times> provision_world" where
  "read_etag path w =
     (case t_read path (pw_tool w) of
        (Content s, t) \<Rightarrow> (etag_of_headers s, w\<lparr>pw_tool := t\<rparr>) | (_, t) \<Rightarrow> ([], w\<lparr>pw_tool := t\<rparr>))"

text \<open>\<open>^([0-9a-f]{40}|[0-9a-f]{64})$\<close>.\<close>

definition commit_id :: "string \<Rightarrow> bool" where
  "commit_id s \<longleftrightarrow> (length s = 40 \<or> length s = 64) \<and> list_all (\<lambda>c. is_digit c \<or> c \<in> set ''abcdef'') s"

definition tarball_commit :: "provision_env \<Rightarrow> string \<Rightarrow> string" where
  "tarball_commit pe archive =
     (case pe_comment pe archive of
        None \<Rightarrow> [] | Some c \<Rightarrow> if commit_id (trim_space c) then trim_space c else [])"

definition record_commit :: "provision_env \<Rightarrow> string \<Rightarrow> provision_world \<Rightarrow> provision_world" where
  "record_commit pe archive w =
     (case t_read archive (pw_tool w) of
        (Content s, t) \<Rightarrow>
          (if tarball_commit pe s = [] then w\<lparr>pw_tool := t\<rparr>
           else (case t_set WriteCall commit_path (Some (tarball_commit pe s @ newline)) t of
                   (True, t) \<Rightarrow> w\<lparr>pw_tool := t\<rparr>
                 | (False, t) \<Rightarrow> snd (remove_file commit_path (w\<lparr>pw_tool := t\<rparr>))))
      | (_, t) \<Rightarrow> w\<lparr>pw_tool := t\<rparr>)"

section \<open>Fetching\<close>

definition run_curl :: "string list \<Rightarrow> provision_world \<Rightarrow> (string, int) result \<times> provision_world" where
  "run_curl args w =
     (case t_exec (tw_environ (pw_tool w)) (''curl'' # args) (pw_tool w) of
        (NotStarted, t) \<Rightarrow> (Inl ''curl'', w\<lparr>pw_tool := t\<rparr>)
      | (Exited code out ws, t) \<Rightarrow>
          (if code \<noteq> 0 then Inl ''curl exited''
           else (case atoi (trim_space out) of None \<Rightarrow> Inl ''status'' | Some n \<Rightarrow> Inr n), w\<lparr>pw_tool := t\<rparr>))"

definition http_code_format :: string where "http_code_format = ''%{http_code}''"

definition validate_upstream :: "provision_config \<Rightarrow> string \<Rightarrow> provision_world \<Rightarrow> (string, int) result \<times> provision_world" where
  "validate_upstream cfg etag =
     run_curl ([''-sS'', ''--head'', ''--connect-timeout'', ''2'', ''--max-time'', ''3'', ''-o'', ''/dev/null'', ''-w'', http_code_format] @
       (if etag = [] then [] else [''-H'', ''If-None-Match: '' @ etag]) @ [codeload_url cfg])"

definition fetch_args :: "string \<Rightarrow> string \<Rightarrow> string \<Rightarrow> string list" where
  "fetch_args url archive headers =
     [''-sS'', ''--connect-timeout'', ''5'', ''--max-time'', ''15'', ''--speed-limit'', ''1024'', ''--speed-time'', ''3'',
      ''--retry'', ''3'', ''--retry-delay'', ''2'', ''--retry-max-time'', ''4'', ''-D'', headers, ''-o'', archive, ''-w'', http_code_format, url]"

definition fetch_archive :: "string \<Rightarrow> string \<Rightarrow> string \<Rightarrow> provision_world \<Rightarrow> (string, int) result \<times> provision_world" where
  "fetch_archive url archive headers = run_curl (fetch_args url archive headers)"

definition tar_argv :: "string \<Rightarrow> string \<Rightarrow> string list" where
  "tar_argv archive stage = [''tar'', ''-xzf'', archive, ''-C'', stage, ''--strip-components'', ''1'']"

definition run_tar :: "string \<Rightarrow> string \<Rightarrow> unit provision_step" where
  "run_tar archive stage w =
     (case t_exec (tw_environ (pw_tool w)) (tar_argv archive stage) (pw_tool w) of
        (Exited code out ws, t) \<Rightarrow> (if code = 0 then Inr () else Inl ''tar extract exited'', w\<lparr>pw_tool := t\<rparr>)
      | (NotStarted, t) \<Rightarrow> (Inl ''tar extract exited'', w\<lparr>pw_tool := t\<rparr>))"

definition stage_tree :: "string \<Rightarrow> string" where "stage_tree stage = path_join [stage, ''tree'']"
definition stage_archive :: "string \<Rightarrow> string" where "stage_archive stage = path_join [stage, ''snapshot.tar.gz'']"
definition stage_headers :: "string \<Rightarrow> string" where "stage_headers stage = path_join [stage, ''headers'']"

text \<open>The staged tree, complete.\<close>

definition fetch_tree :: "provision_config \<Rightarrow> string \<Rightarrow> unit provision_step" where
  "fetch_tree cfg stage =
     p_bind (fetch_archive (codeload_url cfg) (stage_archive stage) (stage_headers stage)) (\<lambda>status.
       if status \<noteq> 200 then p_fail ''tarball fetch''
       else p_bind (p_call ''stage'' (t_try MkdirCall)) (\<lambda>_.
            p_bind (run_tar (stage_archive stage) (stage_tree stage)) (\<lambda>_. assets_complete cfg (stage_tree stage))))"

definition record_state :: "provision_env \<Rightarrow> provision_config \<Rightarrow> string \<Rightarrow> provision_world \<Rightarrow> provision_world" where
  "record_state pe cfg stage w =
     (case read_etag (stage_headers stage) (record_commit pe (stage_archive stage) w) of
        (etag, w) \<Rightarrow>
          if etag = [] then snd (remove_file state_path w)
          else (case t_set WriteCall state_path (Some (state_text (pc_ref cfg) etag (pe_now pe))) (pw_tool w) of
                  (True, t) \<Rightarrow> w\<lparr>pw_tool := t\<rparr>
                | (False, t) \<Rightarrow> snd (remove_file state_path (w\<lparr>pw_tool := t\<rparr>))))"

definition install_tree :: "provision_env \<Rightarrow> provision_config \<Rightarrow> string \<Rightarrow> unit provision_step" where
  "install_tree pe cfg stage =
     p_bind clear_state (\<lambda>_.
     p_bind (install_each pe False (stage_tree stage) (required_assets cfg)) (\<lambda>_.
     p_bind (assets_complete cfg provision_dir) (\<lambda>_ w. (Inr (), record_state pe cfg stage w))))"

definition drop_tree :: "string \<Rightarrow> provision_world \<Rightarrow> provision_world" where
  "drop_tree path w =
     w\<lparr>pw_tool := (t_tick (pw_tool w))\<lparr>tw_files := (\<lambda>p. if p = path \<or> prefix (path @ ''/'') p then None else tw_files (pw_tool w) p)\<rparr>\<rparr>"

definition download_and_install :: "provision_env \<Rightarrow> provision_config \<Rightarrow> unit provision_step" where
  "download_and_install pe cfg w =
     (case pe_stage pe (pw_tool w) of
        None \<Rightarrow> (Inl ''staging directory'', w)
      | Some stage \<Rightarrow>
          (case p_bind (fetch_tree cfg stage) (\<lambda>_. install_tree pe cfg stage) w of (r, w) \<Rightarrow> (r, drop_tree stage w)))"

definition install_from_dev :: "provision_env \<Rightarrow> provision_config \<Rightarrow> unit provision_step" where
  "install_from_dev pe cfg = p_bind clear_state (\<lambda>_. install_each pe True (pc_dev cfg) (required_assets cfg))"

section \<open>The lock\<close>

definition stale_lock :: "provision_env \<Rightarrow> string option \<Rightarrow> bool" where
  "stale_lock pe body =
     (case body of
        None \<Rightarrow> False
      | Some s \<Rightarrow> (case atoi (trim_space s) of None \<Rightarrow> False | Some pid \<Rightarrow> 0 < pid \<and> \<not> pe_alive pe pid))"

text \<open>
  The attempts: a lock held by a process that is gone is moved away and tried again at once, one that cannot be moved
  or is held is tried again after a second, and after the wait the command gives up. \<open>True\<close> is the lock taken.
\<close>

partial_function (option) acquire_lock :: "provision_env \<Rightarrow> nat \<Rightarrow> nat \<Rightarrow> bool option" where
  "acquire_lock pe n waited =
     (case pe_lock pe n of
        LockTaken \<Rightarrow> Some True
      | LockBroken \<Rightarrow> Some False
      | LockHeld body moved \<Rightarrow>
          if stale_lock pe body \<and> moved then acquire_lock pe (Suc n) waited
          else if lock_wait < waited then Some False
          else acquire_lock pe (Suc n) (Suc waited))"

definition lock_dir :: "provision_env \<Rightarrow> tool_world \<Rightarrow> string option" where
  "lock_dir pe t =
     (case tw_cwd t of
        None \<Rightarrow> None
      | Some d \<Rightarrow>
          (let physical = (case pe_links pe d of None \<Rightarrow> d | Some p \<Rightarrow> p)
           in Some (path_join [pe_temp_dir pe, ''go-mk-lock-'' @ hex_encode (pe_sha1 pe physical)])))"

section \<open>The command\<close>

text \<open>Whether the assets on disk may be served, the ETag to validate them with, and what follows.\<close>

definition cached_assets :: "provision_config \<Rightarrow> provision_world \<Rightarrow> bool \<times> provision_world" where
  "cached_assets cfg w =
     (if in_ci (pw_tool w) then (False, w)
      else (case assets_complete cfg provision_dir w of (Inr _, w) \<Rightarrow> (True, w) | (Inl _, w) \<Rightarrow> (False, w)))"

definition known_etag :: "provision_config \<Rightarrow> bool \<Rightarrow> provision_world \<Rightarrow> string \<times> provision_world" where
  "known_etag cfg cached w =
     (if \<not> in_ci (pw_tool w) \<and> cached
      then (case read_state w of ((etag, ref), w) \<Rightarrow> (if ref = pc_ref cfg then etag else [], w))
      else ([], w))"

definition fetch_or_serve :: "provision_env \<Rightarrow> provision_config \<Rightarrow> bool \<Rightarrow> unit provision_step" where
  "fetch_or_serve pe cfg cached w =
     (case download_and_install pe cfg w of
        (Inr _, w) \<Rightarrow> (Inr (), w)
      | (Inl e, w) \<Rightarrow>
          if \<not> in_ci (pw_tool w) \<and> cached then (Inr (), w) else (Inl ''could not provision go-makefile assets'', w))"

definition provision_from_network :: "provision_env \<Rightarrow> provision_config \<Rightarrow> unit provision_step" where
  "provision_from_network pe cfg w =
     (case cached_assets cfg w of (cached, w) \<Rightarrow>
        (case known_etag cfg cached w of (etag, w) \<Rightarrow>
           if etag = [] then fetch_or_serve pe cfg cached w
           else (case validate_upstream cfg etag w of
                   (Inr status, w) \<Rightarrow> if status = 304 then (Inr (), w) else fetch_or_serve pe cfg cached w
                 | (Inl e, w) \<Rightarrow>
                     if \<not> in_ci (pw_tool w) \<and> cached then (Inr (), w) else fetch_or_serve pe cfg cached w)))"

definition provision_locked :: "provision_env \<Rightarrow> provision_config \<Rightarrow> unit provision_step" where
  "provision_locked pe cfg w =
     (if pc_dev cfg \<noteq> [] then p_bind (install_from_dev pe cfg) (\<lambda>_. assets_complete cfg provision_dir) w
      else if pc_provisioned cfg then assets_complete cfg provision_dir w
      else provision_from_network pe cfg w)"

definition provision_assets :: "provision_env \<Rightarrow> provision_config \<Rightarrow> provision_world \<Rightarrow> ((string, unit) result \<times> provision_world) option" where
  "provision_assets pe cfg w =
     (case p_call ''mkdir .make'' (t_try MkdirCall) w of
        (Inl e, w) \<Rightarrow> Some (Inl e, w)
      | (Inr _, w) \<Rightarrow>
          (case lock_dir pe (pw_tool w) of
             None \<Rightarrow> Some (Inl ''working directory'', w)
           | Some lock \<Rightarrow>
               (case acquire_lock pe 0 0 of
                  None \<Rightarrow> None
                | Some False \<Rightarrow> Some (Inl ''lock'', w)
                | Some True \<Rightarrow>
                    (case p_call ''could not record the lock holder''
                            (t_set WriteCall (path_join [lock, ''pid'']) (Some (itoa (pe_pid pe) @ newline))) w of
                       (Inl e, w) \<Rightarrow> Some (Inl e, drop_tree lock w)
                     | (Inr _, w) \<Rightarrow> (case provision_locked pe cfg w of (r, w) \<Rightarrow> Some (r, drop_tree lock w))))))"

definition run_provision :: "provision_env \<Rightarrow> provision_world \<Rightarrow> (int \<times> provision_world) option" where
  "run_provision pe w =
     map_option (\<lambda>(r, w). (case r of Inl e \<Rightarrow> 1 | Inr _ \<Rightarrow> 0, w))
       (provision_assets pe (load_provision_config (pw_tool w)) w)"

section \<open>What a step leaves alone\<close>

text \<open>The oracles and the directories, the commands recorded so far, and everything about the paths of a set.\<close>

definition same_on :: "string set \<Rightarrow> provision_world \<Rightarrow> provision_world \<Rightarrow> bool" where
  "same_on P w v \<longleftrightarrow>
     tw_run (pw_tool v) = tw_run (pw_tool w) \<and> tw_fault (pw_tool v) = tw_fault (pw_tool w) \<and>
     tw_dirs (pw_tool v) = tw_dirs (pw_tool w) \<and> tw_environ (pw_tool v) = tw_environ (pw_tool w) \<and>
     prefix (tw_ran (pw_tool w)) (tw_ran (pw_tool v)) \<and>
     (\<forall>p \<in> P. tw_files (pw_tool v) p = tw_files (pw_tool w) p \<and> pw_links v p = pw_links w p)"

lemma same_on_refl [simp]: "same_on P w w"
  by (simp add: same_on_def)

lemma same_on_trans: "same_on P u v \<Longrightarrow> same_on P v w \<Longrightarrow> same_on P u w"
  by (auto simp: same_on_def)

lemma same_on_subset: "same_on P u v \<Longrightarrow> Q \<subseteq> P \<Longrightarrow> same_on Q u v"
  by (auto simp: same_on_def)

lemma same_on_try [simp]: "same_on P w (p_try (t_try c) w)"
  by (simp add: same_on_def p_try_def t_try_def t_tick_def)

lemma same_on_call: "p_call e (t_try c) w = (r, v) \<Longrightarrow> same_on P w v"
  by (auto simp: p_call_def t_try_def same_on_def t_tick_def)

lemma same_on_set: "t_set c q x (pw_tool w) = (ok, t) \<Longrightarrow> q \<notin> P \<Longrightarrow> same_on P w (w\<lparr>pw_tool := t\<rparr>)"
  by (auto simp: t_set_def same_on_def t_tick_def split: if_splits)

lemma same_on_call_set: "p_call e (t_set c q x) w = (r, v) \<Longrightarrow> q \<notin> P \<Longrightarrow> same_on P w v"
  by (auto simp: p_call_def split: prod.splits dest: same_on_set)

lemma same_on_try_set: "q \<notin> P \<Longrightarrow> same_on P w (p_try (t_set c q x) w)"
  by (cases "t_set c q x (pw_tool w)") (auto simp: p_try_def dest: same_on_set)

lemma same_on_read: "t_read q (pw_tool w) = (x, t) \<Longrightarrow> same_on P w (w\<lparr>pw_tool := t\<rparr>)"
  by (auto simp: t_read_def same_on_def t_tick_def split: if_splits option.splits)

lemma same_on_remove: "remove_file q w = (ok, v) \<Longrightarrow> q \<notin> P \<Longrightarrow> same_on P w v"
  by (auto simp: remove_file_def split: if_splits prod.splits dest: same_on_set)

lemma same_on_drop_tree:
  "\<forall>p \<in> P. p \<noteq> d \<and> \<not> prefix (d @ ''/'') p \<Longrightarrow> same_on P w (drop_tree d w)"
  by (auto simp: drop_tree_def same_on_def t_tick_def)

lemma same_on_assets: "assets_there base as w = (r, v) \<Longrightarrow> same_on P w v"
proof (induction base as w rule: assets_there.induct)
  case (2 base a as w)
  then show ?case by (auto split: if_splits intro: same_on_trans [OF same_on_try])
qed simp

lemma same_on_or_drop:
  assumes "or_drop q m w = (r, v)" "q \<notin> P" "\<And>r' v. m w = (r', v) \<Longrightarrow> isl r' = isl r \<Longrightarrow> same_on P w v"
  shows "same_on P w v"
  using assms(1,3) same_on_try_set [OF assms(2)]
  by (auto simp: or_drop_def split: prod.splits sum.splits intro: same_on_trans)

lemma same_on_copy: "copy_into source q w = (r, v) \<Longrightarrow> q \<notin> P \<Longrightarrow> same_on P w v"
  by (auto simp: copy_into_def split: prod.splits file_read.splits dest: same_on_read same_on_call_set intro: same_on_trans)

lemma same_on_rename: "rename_over q target w = (r, v) \<Longrightarrow> q \<notin> P \<Longrightarrow> isl r \<or> target \<notin> P \<Longrightarrow> same_on P w v"
  by (auto simp: rename_over_def t_rename_def same_on_def t_tick_def split: if_splits)

lemma p_bind_cases:
  assumes "p_bind m f w = (r, v)"
  obtains (stopped) e where "m w = (Inl e, v)" "r = Inl e"
    | (went) a u where "m w = (Inr a, u)" "f a u = (r, v)"
  using assms by (auto simp: p_bind_def split: prod.splits sum.splits)

text \<open>The steps of one installation: the world before the rename, and what the rename does.\<close>

lemma install_asset_same:
  assumes run: "install_asset pe source target w = (r, v)"
    and out: "isl r \<or> target \<notin> P" "\<And>t. temporary_beside pe t target \<notin> P"
  shows "same_on P w v"
proof (cases "\<not> t_fails StatCall (pw_tool w) \<and> tw_dirs (pw_tool w) target")
  case True
  then show ?thesis using run by (auto simp: install_asset_def)
next
  case False
  let ?chmod = "if suffix ''.sh'' target then p_call ''could not mark executable'' (t_try WriteCall) else p_return ()"
  have chmod: "same_on P u u'" if "?chmod u = (x, u')" for u x u'
    using that by (auto simp: p_return_def dest: same_on_call split: if_splits)
  have first: "same_on P w (p_try (t_try StatCall) w)" by simp
  obtain m where m: "install_asset pe source target w =
      p_bind (p_call ''could not create the directory'' (t_try MkdirCall)) m (p_try (t_try StatCall) w)"
    and body: "\<And>u. m () u = (let q = temporary_beside pe (pw_tool u) target in
        p_bind (p_call ''could not create a temporary file'' (t_set WriteCall q (Some []))) (\<lambda>_.
        p_bind (or_drop q (copy_into source q)) (\<lambda>_.
        p_bind (or_drop q ?chmod) (\<lambda>_. or_drop q (rename_over q target)))) u)"
    using False by (simp add: install_asset_def Let_def)
  have "same_on P u v'" if step: "m () u = (r, v')" for u v'
  proof -
    let ?q = "temporary_beside pe (pw_tool u) target"
    have q: "?q \<notin> P" by (rule out(2))
    from step [unfolded body Let_def] show ?thesis
    proof (cases rule: p_bind_cases)
      case (stopped e)
      then show ?thesis using q by (blast dest: same_on_call_set)
    next
      case (went a u1)
      have s1: "same_on P u u1" using went(1) q by (rule same_on_call_set)
      from went(2) have "same_on P u1 v'"
      proof (cases rule: p_bind_cases)
        case (stopped e)
        then show ?thesis using q by (blast intro: same_on_or_drop same_on_copy)
      next
        case (went b u2)
        have s2: "same_on P u1 u2" by (rule same_on_or_drop [OF went(1) q]) (rule same_on_copy [OF _ q])
        from went(2) have "same_on P u2 v'"
        proof (cases rule: p_bind_cases)
          case (stopped e)
          show ?thesis by (rule same_on_or_drop [OF stopped(1) q]) (rule chmod)
        next
          case (went c u3)
          have "same_on P u2 u3" by (rule same_on_or_drop [OF went(1) q]) (rule chmod)
          moreover have "same_on P u3 v'" by (rule same_on_or_drop [OF went(2) q]) (use out(1) in \<open>auto intro: same_on_rename [OF _ q]\<close>)
          ultimately show ?thesis by (rule same_on_trans)
        qed
        then show ?thesis using s2 same_on_trans by blast
      qed
      then show ?thesis using s1 same_on_trans by blast
    qed
  qed
  moreover from run [unfolded m] have "\<exists>u. same_on P w u \<and> (v = u \<or> m () u = (r, v))"
  proof (cases rule: p_bind_cases)
    case (stopped e)
    then show ?thesis using same_on_trans [OF first] same_on_call by blast
  next
    case (went a u)
    then show ?thesis using same_on_trans [OF first] same_on_call by (cases a) blast
  qed
  ultimately show ?thesis using same_on_trans by blast
qed

lemma copied: "copy_into source q w = (Inr (), v) \<Longrightarrow> tw_files (pw_tool w) source \<noteq> None \<and>
    tw_files (pw_tool v) q = tw_files (pw_tool w) source"
  by (auto simp: copy_into_def t_read_def p_call_def t_set_def t_tick_def split: if_splits option.splits)

lemma renamed: "rename_over q target w = (Inr (), v) \<Longrightarrow>
    tw_files (pw_tool v) target = tw_files (pw_tool w) q \<or> target = q" "rename_over q target w = (Inr (), v) \<Longrightarrow> \<not> pw_links v target"
  by (auto simp: rename_over_def t_rename_def t_tick_def split: if_splits)

lemma or_drop_Inr: "or_drop q m w = (Inr u, v) \<longleftrightarrow> m w = (Inr u, v)"
  by (auto simp: or_drop_def split: prod.splits sum.splits)

lemma p_bind_Inr: "p_bind m f w = (Inr b, v) \<longleftrightarrow> (\<exists>a u. m w = (Inr a, u) \<and> f a u = (Inr b, v))"
  by (auto simp: p_bind_def split: prod.splits sum.splits)

lemma install_asset_content:
  assumes run: "install_asset pe source target w = (Inr (), v)"
    and fresh: "\<And>t. temporary_beside pe t target \<notin> {source, target}"
  shows "tw_files (pw_tool v) target = tw_files (pw_tool w) source" "\<not> pw_links v target"
    "\<not> t_fails StatCall (pw_tool w) \<Longrightarrow> \<not> tw_dirs (pw_tool w) target"
proof -
  let ?w0 = "p_try (t_try StatCall) w"
  let ?chmod = "if suffix ''.sh'' target then p_call ''could not mark executable'' (t_try WriteCall) else p_return ()"
  show "\<not> t_fails StatCall (pw_tool w) \<Longrightarrow> \<not> tw_dirs (pw_tool w) target"
    using run by (auto simp: install_asset_def)
  have go: "\<not> (\<not> t_fails StatCall (pw_tool w) \<and> tw_dirs (pw_tool w) target)" using run by (auto simp: install_asset_def)
  obtain u u1 u2 u3 where
      s: "p_call ''could not create the directory'' (t_try MkdirCall) ?w0 = (Inr (), u)"
      "p_call ''could not create a temporary file'' (t_set WriteCall (temporary_beside pe (pw_tool u) target) (Some [])) u = (Inr (), u1)"
      "copy_into source (temporary_beside pe (pw_tool u) target) u1 = (Inr (), u2)"
      "?chmod u2 = (Inr (), u3)" "rename_over (temporary_beside pe (pw_tool u) target) target u3 = (Inr (), v)"
    using run unfolding install_asset_def Let_def if_not_P [OF go] p_bind_Inr or_drop_Inr by auto
  let ?q = "temporary_beside pe (pw_tool u) target"
  have q: "?q \<notin> {source}" "?q \<noteq> target" using fresh [of "pw_tool u"] by auto
  have "same_on {source} w u1"
    using same_on_trans [OF same_on_try same_on_trans [OF same_on_call [OF s(1)] same_on_call_set [OF s(2) q(1)]]] .
  moreover have "same_on {?q} u2 u3" using s(4) by (auto simp: p_return_def dest: same_on_call split: if_splits)
  ultimately show "tw_files (pw_tool v) target = tw_files (pw_tool w) source"
    using copied [OF s(3)] renamed(1) [OF s(5)] q(2) by (simp add: same_on_def)
  show "\<not> pw_links v target" by (rule renamed(2) [OF s(5)])
qed

section \<open>Installing the assets\<close>

definition apart :: "provision_env \<Rightarrow> string set \<Rightarrow> string set \<Rightarrow> bool" where
  "apart pe sources targets \<longleftrightarrow>
     sources \<inter> targets = {} \<and> (\<forall>t. \<forall>x \<in> targets. temporary_beside pe t x \<notin> sources \<union> targets)"

lemma apart_subset: "apart pe S T \<Longrightarrow> R \<subseteq> S \<Longrightarrow> apart pe R T"
  unfolding apart_def by blast

lemma apart_not: "apart pe S T \<Longrightarrow> p \<in> S \<Longrightarrow> p \<notin> T \<and> (\<forall>t. \<forall>x \<in> T. temporary_beside pe t x \<noteq> p)"
  unfolding apart_def by blast

abbreviation target_of :: "string \<Rightarrow> string" where "target_of a \<equiv> asset_path provision_dir a"

lemma install_each_same:
  "install_each pe optional base as w = (r, v) \<Longrightarrow> target_of ` set as \<inter> P = {} \<Longrightarrow>
   (\<And>t a. a \<in> set as \<Longrightarrow> temporary_beside pe t (target_of a) \<notin> P) \<Longrightarrow> same_on P w v"
proof (induction pe optional base as w arbitrary: r v rule: install_each.induct)
  case (2 pe optional base a as w)
  have start: "same_on P w (if optional then p_try (t_try StatCall) w else w)" by simp
  show ?case
  proof (cases "optional \<and> (t_fails StatCall (pw_tool w) \<or> tw_files (pw_tool w) (asset_path base a) = None \<and>
      \<not> tw_dirs (pw_tool w) (asset_path base a))")
    case True
    then show ?thesis using "2.IH"(1) [OF True, of r v] "2.prems" same_on_trans [OF same_on_try] by auto
  next
    case False
    have run: "p_bind (install_asset pe (asset_path base a) (target_of a)) (\<lambda>_. install_each pe optional base as)
        (if optional then p_try (t_try StatCall) w else w) = (r, v)" using "2.prems"(1) False by simp
    have one: "same_on P (if optional then p_try (t_try StatCall) w else w) u"
      if "install_asset pe (asset_path base a) (target_of a) (if optional then p_try (t_try StatCall) w else w) = (x, u)" for x u
      using that by (rule install_asset_same) (use "2.prems"(2,3) in auto)
    from run show ?thesis
    proof (cases rule: p_bind_cases)
      case (stopped e)
      then show ?thesis using one start same_on_trans by blast
    next
      case (went x u)
      have "same_on P u v" using "2.IH"(2) [OF False went(2)] "2.prems"(2,3) by auto
      then show ?thesis using one [OF went(1)] start same_on_trans by blast
    qed
  qed
qed simp

text \<open>Every target is what it was, or the whole source of an asset installed there.\<close>

definition untouched_or_installed :: "string \<Rightarrow> string list \<Rightarrow> provision_world \<Rightarrow> provision_world \<Rightarrow> string \<Rightarrow> bool" where
  "untouched_or_installed base as w v x \<longleftrightarrow>
     tw_files (pw_tool v) x = tw_files (pw_tool w) x \<and> pw_links v x = pw_links w x \<or>
     (\<exists>a \<in> set as. x = target_of a \<and> tw_files (pw_tool v) x = tw_files (pw_tool w) (asset_path base a) \<and> \<not> pw_links v x)"

lemma install_each_targets:
  assumes "install_each pe False base as w = (r, v)" "apart pe (asset_path base ` S) (target_of ` S)" "set as \<subseteq> S" "a \<in> S"
  shows "untouched_or_installed base as w v (target_of a) \<and>
    (r = Inr () \<longrightarrow> a \<in> set as \<longrightarrow> (\<exists>b \<in> set as. target_of b = target_of a \<and>
        tw_files (pw_tool v) (target_of a) = tw_files (pw_tool w) (asset_path base b) \<and> \<not> pw_links v (target_of a)))"
  using assms
proof (induction as arbitrary: w r v)
  case (Cons b as)
  have apart: "\<And>t c. c \<in> S \<Longrightarrow> temporary_beside pe t (target_of c) \<notin> asset_path base ` S \<union> target_of ` S"
      "asset_path base ` S \<inter> target_of ` S = {}"
    using Cons.prems(2) by (auto simp: apart_def)
  have bS: "b \<in> S" using Cons.prems(3) by simp
  have run: "p_bind (install_asset pe (asset_path base b) (target_of b)) (\<lambda>_. install_each pe False base as) w = (r, v)"
    using Cons.prems(1) by simp
  have sources: "same_on (asset_path base ` S) w u"
    if "install_asset pe (asset_path base b) (target_of b) w = (x, u)" for x u
    using that by (rule install_asset_same) (use apart bS in \<open>auto simp: disjoint_iff\<close>)
  have others: "same_on (target_of ` S - {target_of b}) w u"
    if "install_asset pe (asset_path base b) (target_of b) w = (x, u)" for x u
    using that by (rule install_asset_same) (use apart(1) bS in auto)
  from run show ?case
  proof (cases rule: p_bind_cases)
    case (stopped e)
    have "same_on (target_of ` S) w v"
      using stopped(1) by (rule install_asset_same) (use apart(1) bS in auto)
    then show ?thesis using stopped(2) Cons.prems(4) by (auto simp: untouched_or_installed_def same_on_def)
  next
    case (went x u)
    have put: "tw_files (pw_tool u) (target_of b) = tw_files (pw_tool w) (asset_path base b)" "\<not> pw_links u (target_of b)"
      using install_asset_content [of pe "asset_path base b" "target_of b" w u] went(1) apart(1) [OF bS] bS by auto
    have IH: "untouched_or_installed base as u v (target_of a) \<and>
      (r = Inr () \<longrightarrow> a \<in> set as \<longrightarrow> (\<exists>b \<in> set as. target_of b = target_of a \<and>
        tw_files (pw_tool v) (target_of a) = tw_files (pw_tool u) (asset_path base b) \<and> \<not> pw_links v (target_of a)))"
      using Cons.IH [OF went(2) Cons.prems(2) _ Cons.prems(4)] Cons.prems(3) by auto
    have src: "tw_files (pw_tool u) (asset_path base c) = tw_files (pw_tool w) (asset_path base c)" if "c \<in> S" for c
      using sources [OF went(1)] that by (auto simp: same_on_def)
    show ?thesis
    proof (cases "target_of a = target_of b")
      case True
      then show ?thesis using IH put src Cons.prems(3) by (fastforce simp: untouched_or_installed_def)
    next
      case False
      then have "tw_files (pw_tool u) (target_of a) = tw_files (pw_tool w) (target_of a)" "pw_links u (target_of a) = pw_links w (target_of a)"
        using others [OF went(1)] Cons.prems(4) by (auto simp: same_on_def)
      then show ?thesis using IH src False Cons.prems(3) by (fastforce simp: untouched_or_installed_def)
    qed
  qed
qed (auto simp: untouched_or_installed_def)

section \<open>The validation state belongs to the tree\<close>

definition targets :: "provision_config \<Rightarrow> string set" where
  "targets cfg = target_of ` set (required_assets cfg)"

definition protected_paths :: "provision_config \<Rightarrow> string set" where
  "protected_paths cfg = insert state_path (targets cfg)"

definition staged :: "provision_config \<Rightarrow> string \<Rightarrow> string set" where
  "staged cfg stage = insert (stage_headers stage) (asset_path (stage_tree stage) ` set (required_assets cfg))"

definition clear_of :: "string \<Rightarrow> string set \<Rightarrow> bool" where
  "clear_of d P \<longleftrightarrow> (\<forall>p \<in> P. p \<noteq> d \<and> \<not> prefix (d @ ''/'') p)"

text \<open>
  What the names the environment gives are supposed to be: temporary files, the staging directory and the lock are not
  the assets, a new staging directory is empty, and no module is named like the two state files.
\<close>

definition placed :: "provision_env \<Rightarrow> provision_config \<Rightarrow> bool" where
  "placed pe cfg \<longleftrightarrow>
     state_path \<notin> targets cfg \<and> commit_path \<notin> targets cfg \<and>
     (\<forall>t. \<forall>x \<in> targets cfg. temporary_beside pe t x \<notin> protected_paths cfg) \<and>
     (\<forall>t stage. pe_stage pe t = Some stage \<longrightarrow>
        clear_of stage (protected_paths cfg) \<and> apart pe (staged cfg stage) (targets cfg) \<and>
        state_path \<notin> staged cfg stage \<and> commit_path \<notin> staged cfg stage \<and>
        (\<forall>p \<in> staged cfg stage. tw_files t p = None) \<and>
        (\<forall>a \<in> set (required_assets cfg). \<forall>b \<in> set (required_assets cfg). target_of a = target_of b \<longrightarrow>
           asset_path (stage_tree stage) a = asset_path (stage_tree stage) b)) \<and>
     (\<forall>t lock. lock_dir pe t = Some lock \<longrightarrow>
        clear_of lock (protected_paths cfg) \<and> path_join [lock, ''pid''] \<notin> protected_paths cfg)"

text \<open>\<open>curl\<close> and \<open>tar\<close> write where they are told, and the files can be looked at.\<close>

definition well_behaved :: "provision_config \<Rightarrow> provision_world \<Rightarrow> bool" where
  "well_behaved cfg w \<longleftrightarrow>
     (\<forall>n. \<not> tw_fault (pw_tool w) StatCall n) \<and>
     (\<forall>n argv status out ws. tw_run (pw_tool w) n argv = Exited status out ws \<longrightarrow> protected_paths cfg \<inter> fst ` set ws = {})"

lemma placedI:
  assumes "state_path \<notin> targets cfg" "commit_path \<notin> targets cfg"
    and "\<And>t x. x \<in> targets cfg \<Longrightarrow> temporary_beside pe t x \<notin> protected_paths cfg"
    and "\<And>t stage. pe_stage pe t = Some stage \<Longrightarrow> clear_of stage (protected_paths cfg)"
    and "\<And>t stage. pe_stage pe t = Some stage \<Longrightarrow> apart pe (staged cfg stage) (targets cfg)"
    and "\<And>t stage. pe_stage pe t = Some stage \<Longrightarrow> state_path \<notin> staged cfg stage"
    and "\<And>t stage. pe_stage pe t = Some stage \<Longrightarrow> commit_path \<notin> staged cfg stage"
    and "\<And>t stage p. pe_stage pe t = Some stage \<Longrightarrow> p \<in> staged cfg stage \<Longrightarrow> tw_files t p = None"
    and "\<And>t l. lock_dir pe t = Some l \<Longrightarrow> clear_of l (protected_paths cfg)"
    and "\<And>t l. lock_dir pe t = Some l \<Longrightarrow> path_join [l, ''pid''] \<notin> protected_paths cfg"
    and "\<And>stage a b. a \<in> set (required_assets cfg) \<Longrightarrow> b \<in> set (required_assets cfg) \<Longrightarrow> target_of a = target_of b \<Longrightarrow>
       asset_path (stage_tree stage) a = asset_path (stage_tree stage) b"
  shows "placed pe cfg"
  using assms unfolding placed_def by blast

lemma placed_paths:
  assumes "placed pe cfg"
  shows "state_path \<notin> targets cfg" "commit_path \<notin> targets cfg" "state_path \<noteq> commit_path"
    "x \<in> targets cfg \<Longrightarrow> temporary_beside pe t x \<notin> protected_paths cfg"
  using assms unfolding placed_def by (blast, blast, simp add: state_path_def commit_path_def, blast)

lemma placed_stage:
  assumes "placed pe cfg" "pe_stage pe t = Some stage"
  shows "clear_of stage (protected_paths cfg)" "apart pe (staged cfg stage) (targets cfg)"
    "state_path \<notin> staged cfg stage" "commit_path \<notin> staged cfg stage"
    "a \<in> set (required_assets cfg) \<Longrightarrow> b \<in> set (required_assets cfg) \<Longrightarrow> target_of a = target_of b \<Longrightarrow>
       asset_path (stage_tree stage) a = asset_path (stage_tree stage) b"
    "p \<in> staged cfg stage \<Longrightarrow> tw_files t p = None"
  using assms unfolding placed_def by blast+

lemma placed_lock:
  assumes "placed pe cfg" "lock_dir pe t = Some lock"
  shows "clear_of lock (protected_paths cfg)" "path_join [lock, ''pid''] \<notin> protected_paths cfg"
  using assms unfolding placed_def by blast+

lemma well_behaved_same: "same_on P w v \<Longrightarrow> well_behaved cfg w \<Longrightarrow> well_behaved cfg v"
  by (simp add: same_on_def well_behaved_def)

lemma well_behaved_stat: "well_behaved cfg w \<Longrightarrow> \<not> t_fails StatCall (pw_tool w)"
  by (simp add: well_behaved_def t_fails_def)

lemma same_on_exec:
  assumes "t_exec env argv (pw_tool w) = (x, t)" "well_behaved cfg w"
  shows "same_on (protected_paths cfg) w (w\<lparr>pw_tool := t\<rparr>)"
proof (cases "tw_run (pw_tool w) (length (tw_ran (pw_tool w))) argv")
  case NotStarted
  then show ?thesis using assms(1) by (auto simp: t_exec_def Let_def same_on_def t_tick_def)
next
  case (Exited status out ws)
  then have "protected_paths cfg \<inter> fst ` set ws = {}" using assms(2) by (auto simp: well_behaved_def)
  then have "apply_writes ws (tw_files (pw_tool w)) p = tw_files (pw_tool w) p" if "p \<in> protected_paths cfg" for p
    using that by (intro apply_writes_other) blast
  then show ?thesis using assms(1) Exited by (auto simp: t_exec_def Let_def same_on_def t_tick_def)
qed

lemma same_on_curl: "run_curl args w = (r, v) \<Longrightarrow> well_behaved cfg w \<Longrightarrow> same_on (protected_paths cfg) w v"
  by (auto simp: run_curl_def dest: same_on_exec split: prod.splits cmd_outcome.splits)

lemma same_on_tar: "run_tar archive stage w = (r, v) \<Longrightarrow> well_behaved cfg w \<Longrightarrow> same_on (protected_paths cfg) w v"
  by (auto simp: run_tar_def dest: same_on_exec split: prod.splits cmd_outcome.splits)

lemma same_on_bind:
  assumes "p_bind m f w = (r, v)" "\<And>x u. m w = (x, u) \<Longrightarrow> same_on P w u" "\<And>a u. m w = (Inr a, u) \<Longrightarrow> f a u = (r, v) \<Longrightarrow> same_on P u v"
  shows "same_on P w v"
  using assms(1)
proof (cases rule: p_bind_cases)
  case (stopped e)
  then show ?thesis using assms(2) by blast
next
  case (went a u)
  then show ?thesis using assms(2,3) same_on_trans by blast
qed

lemma same_on_fetch:
  assumes "fetch_tree cfg stage w = (r, v)" "well_behaved cfg w"
  shows "same_on (protected_paths cfg) w v"
  using assms(1) unfolding fetch_tree_def
proof (rule same_on_bind)
  fix x u assume "fetch_archive (codeload_url cfg) (stage_archive stage) (stage_headers stage) w = (x, u)"
  then show u: "same_on (protected_paths cfg) w u" using same_on_curl assms(2) unfolding fetch_archive_def by blast
next
  fix status u
  assume f: "fetch_archive (codeload_url cfg) (stage_archive stage) (stage_headers stage) w = (Inr status, u)"
    and rest: "(if status \<noteq> 200 then p_fail ''tarball fetch''
       else p_bind (p_call ''stage'' (t_try MkdirCall)) (\<lambda>_.
            p_bind (run_tar (stage_archive stage) (stage_tree stage)) (\<lambda>_. assets_complete cfg (stage_tree stage)))) u = (r, v)"
  have u: "well_behaved cfg u"
    using f same_on_curl assms(2) well_behaved_same unfolding fetch_archive_def by blast
  show "same_on (protected_paths cfg) u v"
  proof (cases "status = 200")
    case False
    then show ?thesis using rest by (simp add: p_fail_def)
  next
    case True
    then have "p_bind (p_call ''stage'' (t_try MkdirCall)) (\<lambda>_.
            p_bind (run_tar (stage_archive stage) (stage_tree stage)) (\<lambda>_. assets_complete cfg (stage_tree stage))) u = (r, v)"
      using rest by simp
    then show ?thesis
    proof (rule same_on_bind)
      fix x u' assume "p_call ''stage'' (t_try MkdirCall) u = (x, u')"
      then show "same_on (protected_paths cfg) u u'" by (rule same_on_call)
    next
      fix a u' assume m: "p_call ''stage'' (t_try MkdirCall) u = (Inr a, u')"
        and t: "p_bind (run_tar (stage_archive stage) (stage_tree stage)) (\<lambda>_. assets_complete cfg (stage_tree stage)) u' = (r, v)"
      have "well_behaved cfg u'" using same_on_call [OF m] u well_behaved_same by blast
      then show "same_on (protected_paths cfg) u' v"
        using t by (auto intro!: same_on_bind [OF t] dest: same_on_tar same_on_assets simp: assets_complete_def)
    qed
  qed
qed

lemma assets_there_Inr: "assets_there base as w = (Inr (), v) \<Longrightarrow> a \<in> set as \<Longrightarrow> asset_there w (asset_path base a)"
proof (induction base as w rule: assets_there.induct)
  case (2 base b as w)
  have "asset_there (p_try (t_try StatCall) w) p \<longleftrightarrow> asset_there w p" for p
    by (simp add: asset_there_def p_try_def t_try_def t_tick_def)
  then show ?case using 2 by (auto split: if_splits)
qed simp

lemma asset_there_same: "same_on P w v \<Longrightarrow> p \<in> P \<Longrightarrow> asset_there v p \<longleftrightarrow> asset_there w p"
  by (simp add: same_on_def asset_there_def)

definition all_there :: "provision_config \<Rightarrow> provision_world \<Rightarrow> bool" where
  "all_there cfg w \<longleftrightarrow> (\<forall>x \<in> targets cfg. asset_there w x)"

lemma all_there_same: "same_on (protected_paths cfg) w v \<Longrightarrow> all_there cfg v \<longleftrightarrow> all_there cfg w"
  by (auto simp: all_there_def protected_paths_def asset_there_same)

lemma complete_all_there: "assets_complete cfg provision_dir w = (Inr (), v) \<Longrightarrow> all_there cfg w"
  by (auto simp: assets_complete_def all_there_def targets_def dest: assets_there_Inr)

lemma complete_same: "assets_complete cfg base w = (r, v) \<Longrightarrow> same_on P w v"
  by (simp add: assets_complete_def same_on_assets)

lemma fetch_tree_staged:
  assumes "fetch_tree cfg stage w = (Inr (), v)" "a \<in> set (required_assets cfg)"
  shows "asset_there v (asset_path (stage_tree stage) a)"
proof -
  obtain u where "assets_complete cfg (stage_tree stage) u = (Inr (), v)"
    using assms(1) by (auto simp: fetch_tree_def p_bind_Inr p_fail_def split: if_splits)
  then have "asset_there u (asset_path (stage_tree stage) a)" "same_on {asset_path (stage_tree stage) a} u v"
    using assms(2) complete_same by (auto simp: assets_complete_def dest: assets_there_Inr)
  then show ?thesis by (simp add: asset_there_same)
qed

text \<open>
  A fetch that the run recorded: \<open>curl\<close> got the archive of the configured reference with status 200, the next command
  unpacked it, both exited with 0, and \<open>ws\<close> is what the two wrote.
\<close>

definition fetched_in :: "provision_config \<Rightarrow> provision_world \<Rightarrow> provision_world \<Rightarrow> string \<Rightarrow>
    (string \<times> string option) list \<Rightarrow> bool" where
  "fetched_in cfg w v stage ws \<longleftrightarrow>
     (\<exists>n out ws1 out' ws2.
        length (tw_ran (pw_tool w)) \<le> n \<and> Suc n < length (tw_ran (pw_tool v)) \<and>
        snd (tw_ran (pw_tool v) ! n) = ''curl'' # fetch_args (codeload_url cfg) (stage_archive stage) (stage_headers stage) \<and>
        tw_run (pw_tool w) n (''curl'' # fetch_args (codeload_url cfg) (stage_archive stage) (stage_headers stage)) =
          Exited 0 out ws1 \<and> atoi (trim_space out) = Some 200 \<and>
        snd (tw_ran (pw_tool v) ! Suc n) = tar_argv (stage_archive stage) (stage_tree stage) \<and>
        tw_run (pw_tool w) (Suc n) (tar_argv (stage_archive stage) (stage_tree stage)) = Exited 0 out' ws2 \<and>
        ws = ws1 @ ws2)"

lemma fetched_in_around:
  assumes "same_on P w w1" "fetched_in cfg w1 v1 stage ws" "same_on Q v1 v"
  shows "fetched_in cfg w v stage ws"
proof -
  have run: "tw_run (pw_tool w1) = tw_run (pw_tool w)" and len: "length (tw_ran (pw_tool w)) \<le> length (tw_ran (pw_tool w1))"
    using assms(1) by (auto simp: same_on_def prefix_length_le)
  obtain cs where cs: "tw_ran (pw_tool v) = tw_ran (pw_tool v1) @ cs" using assms(3) by (auto simp: same_on_def elim: prefixE)
  show ?thesis using assms(2) len unfolding fetched_in_def run cs
    by (elim exE conjE) (intro exI conjI, auto simp: nth_append)
qed

lemma apply_writes_local: "f p = g p \<Longrightarrow> apply_writes ws f p = apply_writes ws g p"
proof (induction ws arbitrary: f g)
  case (Cons x ws)
  have "apply_writes ws (f(fst x := snd x)) p = apply_writes ws (g(fst x := snd x)) p"
    by (rule Cons.IH) (use Cons.prems in auto)
  then show ?case by (simp add: apply_writes_def split_beta)
qed (simp add: apply_writes_def)

lemma curl_ran:
  assumes "run_curl args w = (Inr status, v)"
  obtains out ws where "tw_run (pw_tool w) (length (tw_ran (pw_tool w))) (''curl'' # args) = Exited 0 out ws"
    "atoi (trim_space out) = Some status" "tw_ran (pw_tool v) = tw_ran (pw_tool w) @ [(tw_environ (pw_tool w), ''curl'' # args)]"
    "tw_files (pw_tool v) = apply_writes ws (tw_files (pw_tool w))" "tw_run (pw_tool v) = tw_run (pw_tool w)"
  using assms
  by (cases "tw_run (pw_tool w) (length (tw_ran (pw_tool w))) (''curl'' # args)")
    (auto simp: run_curl_def t_exec_def t_tick_def Let_def split: if_splits option.splits)

lemma tar_ran:
  assumes "run_tar archive stage w = (Inr (), v)"
  obtains out ws where "tw_run (pw_tool w) (length (tw_ran (pw_tool w))) (tar_argv archive stage) = Exited 0 out ws"
    "tw_ran (pw_tool v) = tw_ran (pw_tool w) @ [(tw_environ (pw_tool w), tar_argv archive stage)]"
    "tw_files (pw_tool v) = apply_writes ws (tw_files (pw_tool w))" "tw_run (pw_tool v) = tw_run (pw_tool w)"
  using assms
  by (cases "tw_run (pw_tool w) (length (tw_ran (pw_tool w))) (tar_argv archive stage)")
    (auto simp: run_tar_def t_exec_def t_tick_def Let_def split: if_splits)

lemma complete_world: "assets_there base as w = (r, v) \<Longrightarrow>
    tw_ran (pw_tool v) = tw_ran (pw_tool w) \<and> tw_files (pw_tool v) = tw_files (pw_tool w)"
  by (induction base as w rule: assets_there.induct)
    (auto simp: p_try_def t_try_def t_tick_def split: if_splits)

lemma fetch_tree_ran:
  assumes "fetch_tree cfg stage w = (Inr (), v)"
  shows "\<exists>ws. fetched_in cfg w v stage ws \<and> tw_files (pw_tool v) = apply_writes ws (tw_files (pw_tool w))"
proof -
  obtain u u' x where c: "run_curl (fetch_args (codeload_url cfg) (stage_archive stage) (stage_headers stage)) w = (Inr 200, u)"
    and m: "p_call ''stage'' (t_try MkdirCall) u = (Inr (), u')"
    and t: "run_tar (stage_archive stage) (stage_tree stage) u' = (Inr (), x)"
    and a: "assets_complete cfg (stage_tree stage) x = (Inr (), v)"
    using assms by (auto simp: fetch_tree_def fetch_archive_def p_bind_Inr p_fail_def split: if_splits)
  obtain out ws1 where 1: "tw_run (pw_tool w) (length (tw_ran (pw_tool w)))
      (''curl'' # fetch_args (codeload_url cfg) (stage_archive stage) (stage_headers stage)) = Exited 0 out ws1"
    "atoi (trim_space out) = Some 200" "tw_ran (pw_tool u) = tw_ran (pw_tool w) @ [(tw_environ (pw_tool w),
      ''curl'' # fetch_args (codeload_url cfg) (stage_archive stage) (stage_headers stage))]"
    "tw_files (pw_tool u) = apply_writes ws1 (tw_files (pw_tool w))" "tw_run (pw_tool u) = tw_run (pw_tool w)"
    by (rule curl_ran [OF c])
  have u': "tw_ran (pw_tool u') = tw_ran (pw_tool u)" "tw_files (pw_tool u') = tw_files (pw_tool u)"
    "tw_run (pw_tool u') = tw_run (pw_tool u)"
    using m by (auto simp: p_call_def t_try_def t_tick_def)
  obtain out' ws2 where 2: "tw_run (pw_tool u') (length (tw_ran (pw_tool u'))) (tar_argv (stage_archive stage) (stage_tree stage)) =
      Exited 0 out' ws2"
    "tw_ran (pw_tool x) = tw_ran (pw_tool u') @ [(tw_environ (pw_tool u'), tar_argv (stage_archive stage) (stage_tree stage))]"
    "tw_files (pw_tool x) = apply_writes ws2 (tw_files (pw_tool u'))"
    by (rule tar_ran [OF t])
  note v = complete_world [OF a [unfolded assets_complete_def]]
  have "fetched_in cfg w v stage (ws1 @ ws2)"
    unfolding fetched_in_def
    by (rule exI [of _ "length (tw_ran (pw_tool w))"], rule exI [of _ out], rule exI [of _ ws1], rule exI [of _ out'],
        rule exI [of _ ws2]) (use 1 2(1,2) u' v in \<open>simp add: nth_append\<close>)
  moreover have "tw_files (pw_tool v) = apply_writes (ws1 @ ws2) (tw_files (pw_tool w))"
    using 1(4) 2(3) u' v by (simp add: apply_writes_def)
  ultimately show ?thesis by blast
qed

lemma clear_state_outcome:
  assumes run: "clear_state w = (r, v)" and ok: "well_behaved cfg w"
  shows "state_path \<notin> P \<Longrightarrow> commit_path \<notin> P \<Longrightarrow> same_on P w v"
    "tw_files (pw_tool v) state_path = None \<or> isl r \<and> (commit_path \<notin> Q \<longrightarrow> same_on Q w v)"
proof -
  obtain b u where a: "remove_file state_path w = (b, u)" by fastforce
  let ?u = "p_try (t_try StatCall) u"
  obtain c x where rm: "remove_file commit_path ?u = (c, x)" by fastforce
  have shape: "clear_state w = (if \<not> t_fails StatCall (pw_tool u) \<and> file_there u state_path
      then (Inl ''could not remove the state'', ?u) else (if c then Inr () else Inl ''could not remove the commit'', x))"
    by (simp add: clear_state_def Let_def a rm split: bool.split)
  have tick: "same_on R u ?u" for R by simp
  show P: "same_on P w v" if "state_path \<notin> P" "commit_path \<notin> P" for P
  proof -
    have "same_on P w ?u" using same_on_trans [OF same_on_remove [OF a that(1)] tick] .
    moreover from this have "same_on P w x" using same_on_remove [OF rm that(2)] same_on_trans by blast
    ultimately show ?thesis using run shape by (auto split: if_splits)
  qed
  have u: "\<not> t_fails StatCall (pw_tool u)"
    using well_behaved_stat well_behaved_same [OF same_on_remove [OF a, of "{}"] ok] by blast
  have state: "tw_files (pw_tool u) state_path = None \<or> same_on Q w u"
    using a by (auto simp: remove_file_def p_try_def t_try_def t_set_def t_tick_def same_on_def split: if_splits)
  show "tw_files (pw_tool v) state_path = None \<or> isl r \<and> (commit_path \<notin> Q \<longrightarrow> same_on Q w v)"
  proof (cases "file_there u state_path")
    case True
    then have v: "v = ?u" "isl r" using run shape u by auto
    then show ?thesis using state same_on_trans [OF _ tick] tick [of "{state_path}"] by (auto simp: same_on_def)
  next
    case False
    have "same_on {state_path} ?u x" by (rule same_on_remove [OF rm]) (simp add: commit_path_def state_path_def)
    moreover have "v = x" using run shape False by (auto split: if_splits)
    ultimately show ?thesis using False tick [of "{state_path}"] by (auto simp: file_there_def same_on_def)
  qed
qed

lemma record_commit_same: "commit_path \<notin> P \<Longrightarrow> same_on P w (record_commit pe archive w)"
proof -
  assume c: "commit_path \<notin> P"
  obtain x t where rd: "t_read archive (pw_tool w) = (x, t)" by fastforce
  have s1: "same_on P w (w\<lparr>pw_tool := t\<rparr>)" using rd by (rule same_on_read)
  show ?thesis
  proof (cases x)
    case (Content s)
    obtain ok t' where wr: "t_set WriteCall commit_path (Some (tarball_commit pe s @ newline)) t = (ok, t')" by fastforce
    have "same_on P (w\<lparr>pw_tool := t\<rparr>) (w\<lparr>pw_tool := t'\<rparr>)"
      using same_on_set [of WriteCall commit_path _ "w\<lparr>pw_tool := t\<rparr>", OF _ c] wr by fastforce
    moreover obtain b v where "remove_file commit_path (w\<lparr>pw_tool := t'\<rparr>) = (b, v)" by fastforce
    moreover from this have "same_on P (w\<lparr>pw_tool := t'\<rparr>) v" using c by (rule same_on_remove)
    ultimately show ?thesis
      using s1 Content rd wr by (auto simp: record_commit_def split: bool.splits intro: same_on_trans)
  qed (use s1 rd in \<open>simp_all add: record_commit_def\<close>)
qed

lemma same_on_etag: "read_etag q w = (e, v) \<Longrightarrow> same_on P w v"
  by (auto simp: read_etag_def split: prod.splits file_read.splits dest: same_on_read)

lemma record_state_same: "commit_path \<notin> P \<Longrightarrow> state_path \<notin> P \<Longrightarrow> same_on P w (record_state pe cfg stage w)"
proof -
  assume c: "commit_path \<notin> P" and st: "state_path \<notin> P"
  let ?w = "record_commit pe (stage_archive stage) w"
  obtain etag v where e: "read_etag (stage_headers stage) ?w = (etag, v)" by fastforce
  have v: "same_on P w v"
    by (rule same_on_trans [OF record_commit_same [OF c] same_on_etag [OF e]])
  obtain ok t where wr: "t_set WriteCall state_path (Some (state_text (pc_ref cfg) etag (pe_now pe))) (pw_tool v) = (ok, t)" by fastforce
  have t: "same_on P v (v\<lparr>pw_tool := t\<rparr>)" using wr st by (rule same_on_set)
  have rm: "same_on P x (snd (remove_file state_path x))" for x
    using same_on_remove [of state_path x _ _ P] st by (cases "remove_file state_path x") auto
  show ?thesis
    using e wr v t rm same_on_trans
    by (simp add: record_state_def split: bool.splits)
qed

lemma record_state_written:
  assumes "tw_files (pw_tool w) state_path = None" "commit_path \<noteq> stage_headers stage"
  shows "tw_files (pw_tool (record_state pe cfg stage w)) state_path = None \<or>
    (\<exists>h. tw_files (pw_tool w) (stage_headers stage) = Some h \<and>
       tw_files (pw_tool (record_state pe cfg stage w)) state_path = Some (state_text (pc_ref cfg) (etag_of_headers h) (pe_now pe)))"
proof -
  let ?w = "record_commit pe (stage_archive stage) w"
  obtain etag v where e: "read_etag (stage_headers stage) ?w = (etag, v)" by fastforce
  have "same_on {state_path} w v"
    by (rule same_on_trans [OF record_commit_same same_on_etag [OF e]]) (simp add: commit_path_def state_path_def)
  then have none: "tw_files (pw_tool v) state_path = None" using assms(1) by (simp add: same_on_def)
  have "same_on {stage_headers stage} w ?w" by (rule record_commit_same) (use assms(2) in simp)
  then have h: "etag = [] \<or> (\<exists>h. tw_files (pw_tool w) (stage_headers stage) = Some h \<and> etag = etag_of_headers h)"
    using e by (auto simp: read_etag_def t_read_def same_on_def split: if_splits option.splits)
  have rm: "tw_files (pw_tool (snd (remove_file state_path x))) state_path = None"
    if "tw_files (pw_tool x) state_path = None" for x
    using that by (auto simp: remove_file_def p_try_def t_try_def t_set_def t_tick_def split: prod.splits)
  show ?thesis
    using e none rm h
    by (auto simp: record_state_def t_set_def t_tick_def split: if_splits)
qed

lemma install_tree_keeps:
  assumes run: "install_tree pe cfg stage w = (r, v)" and ok: "well_behaved cfg w"
  shows "same_on {} w v"
  using run unfolding install_tree_def
proof (rule same_on_bind)
  show "same_on {} w u" if "clear_state w = (x, u)" for x u
    using clear_state_outcome(1) [OF that ok, of "{}"] by simp
next
  fix a u
  assume "p_bind (install_each pe False (stage_tree stage) (required_assets cfg))
      (\<lambda>_. p_bind (assets_complete cfg provision_dir) (\<lambda>_ w. (Inr (), record_state pe cfg stage w))) u = (r, v)"
  then show "same_on {} u v"
  proof (rule same_on_bind)
    show "same_on {} u x" if "install_each pe False (stage_tree stage) (required_assets cfg) u = (y, x)" for x y
      using that by (rule install_each_same) simp_all
  next
    fix b x
    assume "p_bind (assets_complete cfg provision_dir) (\<lambda>_ w. (Inr (), record_state pe cfg stage w)) x = (r, v)"
    then show "same_on {} x v"
      by (rule same_on_bind) (auto dest: complete_same intro: record_state_same)
  qed
qed

lemma install_tree_outcome:
  assumes run: "install_tree pe cfg stage w = (r, v)" and ok: "well_behaved cfg w"
    and pl: "placed pe cfg" and stage: "pe_stage pe t = Some stage"
    and src: "\<forall>a \<in> set (required_assets cfg). asset_there w (asset_path (stage_tree stage) a)"
  shows "tw_files (pw_tool v) state_path = None \<or> same_on (protected_paths cfg) w v \<or>
      r = Inr () \<and> (\<exists>h. tw_files (pw_tool w) (stage_headers stage) = Some h \<and>
        tw_files (pw_tool v) state_path = Some (state_text (pc_ref cfg) (etag_of_headers h) (pe_now pe))) \<and>
      (\<forall>a \<in> set (required_assets cfg). tw_files (pw_tool v) (target_of a) = tw_files (pw_tool w) (asset_path (stage_tree stage) a))"
    "r = Inr () \<or> all_there cfg w \<Longrightarrow> all_there cfg v"
    "tw_environ (pw_tool v) = tw_environ (pw_tool w)"
proof -
  let ?as = "required_assets cfg" and ?src = "asset_path (stage_tree stage)"
  note free = placed_paths(1-3) [OF pl] placed_stage(3,4) [OF pl stage]
  note temps = placed_paths(4) [OF pl]
  have ap: "apart pe (?src ` set ?as) (target_of ` set ?as)"
    by (rule apart_subset [OF placed_stage(2) [OF pl stage, unfolded targets_def]]) (auto simp: staged_def)
  have beside: "stage_headers stage \<notin> target_of ` set ?as"
    "\<And>t a. a \<in> set ?as \<Longrightarrow> temporary_beside pe t (target_of a) \<noteq> stage_headers stage"
    using apart_not [OF placed_stage(2) [OF pl stage, unfolded targets_def], of "stage_headers stage"] by (auto simp: staged_def)
  note inj = placed_stage(5) [OF pl stage]
  obtain rc u where c: "clear_state w = (rc, u)" by fastforce
  note clear = clear_state_outcome [OF c ok]
  have wu: "same_on (targets cfg \<union> staged cfg stage) w u" using clear(1) free by auto
  have env0: "tw_environ (pw_tool v) = tw_environ (pw_tool w)" using install_tree_keeps [OF run ok] by (simp add: same_on_def)
  show env: "tw_environ (pw_tool v) = tw_environ (pw_tool w)" and "tw_files (pw_tool v) state_path = None \<or> same_on (protected_paths cfg) w v \<or>
      r = Inr () \<and> (\<exists>h. tw_files (pw_tool w) (stage_headers stage) = Some h \<and>
        tw_files (pw_tool v) state_path = Some (state_text (pc_ref cfg) (etag_of_headers h) (pe_now pe))) \<and>
      (\<forall>a \<in> set (required_assets cfg). tw_files (pw_tool v) (target_of a) = tw_files (pw_tool w) (asset_path (stage_tree stage) a))"
    and "r = Inr () \<or> all_there cfg w \<Longrightarrow> all_there cfg v"
  proof (atomize (full), cases rc)
    case (Inl e)
    then have v: "v = u" "r = Inl e" using run c by (auto simp: install_tree_def p_bind_def)
    have "commit_path \<notin> protected_paths cfg" using free by (auto simp: protected_paths_def)
    then show "tw_environ (pw_tool v) = tw_environ (pw_tool w) \<and>
      (tw_files (pw_tool v) state_path = None \<or> same_on (protected_paths cfg) w v \<or>
      r = Inr () \<and> (\<exists>h. tw_files (pw_tool w) (stage_headers stage) = Some h \<and>
        tw_files (pw_tool v) state_path = Some (state_text (pc_ref cfg) (etag_of_headers h) (pe_now pe))) \<and>
      (\<forall>a \<in> set (required_assets cfg). tw_files (pw_tool v) (target_of a) = tw_files (pw_tool w) (asset_path (stage_tree stage) a))) \<and>
      (r = Inr () \<or> all_there cfg w \<longrightarrow> all_there cfg v)"
    proof -
      have "tw_files (pw_tool u) state_path = None \<or> same_on (protected_paths cfg) w u"
        using clear(2) [of "protected_paths cfg"] \<open>commit_path \<notin> protected_paths cfg\<close> by blast
      moreover have "all_there cfg u" if "all_there cfg w"
        using that asset_there_same [OF wu] by (simp add: all_there_def)
      ultimately show ?thesis using env0 v by auto
    qed
  next
    case (Inr x)
    have none: "tw_files (pw_tool u) state_path = None" using clear(2) Inr by auto
    obtain ri i where i: "install_each pe False (stage_tree stage) ?as u = (ri, i)" by fastforce
    have state_i: "same_on {state_path} u i"
      using i by (rule install_each_same) (use free temps in \<open>auto simp: targets_def protected_paths_def\<close>)
    have header_i: "same_on {stage_headers stage} u i"
      using i by (rule install_each_same) (use beside in auto)
    note each = install_each_targets [OF i ap subset_refl]
    have untouched: "untouched_or_installed (stage_tree stage) ?as u i (target_of a)" if "a \<in> set ?as" for a
      using each [OF that] by blast
    have installed: "tw_files (pw_tool i) (target_of a) = tw_files (pw_tool u) (?src a)" if fin: "ri = Inr ()" and a: "a \<in> set ?as" for a
    proof -
      obtain b where "b \<in> set ?as" "target_of b = target_of a" "tw_files (pw_tool i) (target_of a) = tw_files (pw_tool u) (?src b)"
        using each [OF a] fin a by blast
      then show ?thesis using inj [of b a] a by simp
    qed
    have src_u: "tw_files (pw_tool u) (?src a) = tw_files (pw_tool w) (?src a)" "asset_there u (?src a)" if "a \<in> set ?as" for a
      using wu bspec [OF src that] that asset_there_same [OF wu, of "?src a"] by (auto simp: same_on_def staged_def)
    have there_i: "all_there cfg i" if "all_there cfg w"
      unfolding all_there_def targets_def
    proof clarify
      fix a assume a: "a \<in> set ?as"
      have old: "asset_there u (target_of a)"
        using that a asset_there_same [OF wu] by (auto simp: all_there_def targets_def)
      have dirs: "tw_dirs (pw_tool i) = tw_dirs (pw_tool u)" using state_i by (simp add: same_on_def)
      consider "tw_files (pw_tool i) (target_of a) = tw_files (pw_tool u) (target_of a)" "pw_links i (target_of a) = pw_links u (target_of a)"
        | b where "b \<in> set ?as" "target_of a = target_of b" "tw_files (pw_tool i) (target_of a) = tw_files (pw_tool u) (?src b)"
            "\<not> pw_links i (target_of a)"
        using untouched [OF a] unfolding untouched_or_installed_def by blast
      then show "asset_there i (target_of a)"
      proof cases
        case 1
        then show ?thesis using old dirs by (simp add: asset_there_def)
      next
        case 2
        then show ?thesis using old dirs src_u(2) [OF 2(1)] by (simp add: asset_there_def)
      qed
    qed
    show "tw_environ (pw_tool v) = tw_environ (pw_tool w) \<and>
      (tw_files (pw_tool v) state_path = None \<or> same_on (protected_paths cfg) w v \<or>
      r = Inr () \<and> (\<exists>h. tw_files (pw_tool w) (stage_headers stage) = Some h \<and>
        tw_files (pw_tool v) state_path = Some (state_text (pc_ref cfg) (etag_of_headers h) (pe_now pe))) \<and>
      (\<forall>a \<in> set (required_assets cfg). tw_files (pw_tool v) (target_of a) = tw_files (pw_tool w) (asset_path (stage_tree stage) a))) \<and>
      (r = Inr () \<or> all_there cfg w \<longrightarrow> all_there cfg v)"
    proof (cases ri)
      case (Inl e)
      then have "v = i" "r = Inl e" using run c Inr i by (auto simp: install_tree_def p_bind_def)
      moreover have "tw_files (pw_tool i) state_path = None" using none state_i by (simp add: same_on_def)
      ultimately show ?thesis using there_i env0 by auto
    next
      case ri: (Inr y)
      obtain rd d where d: "assets_complete cfg provision_dir i = (rd, d)" by fastforce
      have id: "same_on P i d" for P using d by (rule complete_same)
      show ?thesis
      proof (cases rd)
        case (Inl e)
        then have "v = d" "r = Inl e" using run c Inr i ri d by (auto simp: install_tree_def p_bind_def)
        moreover have "tw_files (pw_tool d) state_path = None"
          using none state_i id [of "{state_path}"] by (simp add: same_on_def)
        moreover have "all_there cfg d \<longleftrightarrow> all_there cfg i" by (rule all_there_same [OF id])
        ultimately show ?thesis using there_i env0 by auto
      next
        case rd: (Inr z)
        then have v: "v = record_state pe cfg stage d" "r = Inr ()" using run c Inr i ri d by (auto simp: install_tree_def p_bind_def)
        have dv: "same_on (targets cfg) d v" using v record_state_same free by simp
        have "all_there cfg i" using complete_all_there d rd by simp
        then have there: "all_there cfg v"
          using dv id [of "targets cfg"] asset_there_same [OF same_on_trans [OF id dv]] by (auto simp: all_there_def)
        have "tw_files (pw_tool d) state_path = None" using none state_i id [of "{state_path}"] by (auto simp: same_on_def)
        note written = record_state_written [OF this, of stage pe cfg]
        have headers: "commit_path \<noteq> stage_headers stage" using free(5) by (simp add: staged_def)
        have header_d: "tw_files (pw_tool d) (stage_headers stage) = tw_files (pw_tool w) (stage_headers stage)"
          using wu header_i id [of "{stage_headers stage}"] by (simp add: same_on_def staged_def)
        have content: "tw_files (pw_tool v) (target_of a) = tw_files (pw_tool w) (?src a)" if "a \<in> set ?as" for a
          using installed [OF _ that] ri src_u(1) [OF that] dv id [of "targets cfg"] that
          by (auto simp: same_on_def targets_def)
        from written [OF headers] show ?thesis
          unfolding v(1) [symmetric] header_d
        proof
          assume "tw_files (pw_tool v) state_path = None"
          then show ?thesis using env0 there by simp
        next
          assume "\<exists>h. tw_files (pw_tool w) (stage_headers stage) = Some h \<and>
            tw_files (pw_tool v) state_path = Some (state_text (pc_ref cfg) (etag_of_headers h) (pe_now pe))"
          then show ?thesis using env0 there v(2) content by simp
        qed
      qed
    qed
  qed
qed

section \<open>The whole command\<close>

text \<open>
  The state is gone, nothing of the assets and the state changed, or both were written from one fetch of this run: the
  tag is the one of the headers that fetch wrote, and every asset has the content that fetch unpacked.
\<close>

definition state_sound :: "provision_env \<Rightarrow> provision_config \<Rightarrow> provision_world \<Rightarrow> provision_world \<Rightarrow> bool" where
  "state_sound pe cfg w v \<longleftrightarrow>
     tw_files (pw_tool v) state_path = None \<or>
     (\<forall>p \<in> protected_paths cfg. tw_files (pw_tool v) p = tw_files (pw_tool w) p) \<or>
     (\<exists>stage ws headers. fetched_in cfg w v stage ws \<and>
        apply_writes ws (\<lambda>_. None) (stage_headers stage) = Some headers \<and>
        tw_files (pw_tool v) state_path = Some (state_text (pc_ref cfg) (etag_of_headers headers) (pe_now pe)) \<and>
        (\<forall>a \<in> set (required_assets cfg).
           tw_files (pw_tool v) (target_of a) = apply_writes ws (\<lambda>_. None) (asset_path (stage_tree stage) a)))"

lemma state_sound_same: "same_on (protected_paths cfg) w v \<Longrightarrow> state_sound pe cfg w v"
  by (simp add: state_sound_def same_on_def)

lemma state_sound_around:
  assumes "same_on (protected_paths cfg) w w1" "state_sound pe cfg w1 v1" "same_on (protected_paths cfg) v1 v"
  shows "state_sound pe cfg w v"
proof -
  have files: "tw_files (pw_tool w1) p = tw_files (pw_tool w) p" "tw_files (pw_tool v) p = tw_files (pw_tool v1) p"
    if "p \<in> protected_paths cfg" for p
    using assms(1,3) that by (auto simp: same_on_def)
  have "state_path \<in> protected_paths cfg" "\<And>a. a \<in> set (required_assets cfg) \<Longrightarrow> target_of a \<in> protected_paths cfg"
    by (auto simp: protected_paths_def targets_def)
  then show ?thesis using assms(2) files fetched_in_around [OF assms(1) _ assms(3)] unfolding state_sound_def
    by (elim disjE exE conjE) (simp_all, blast?)
qed

lemma download_outcome:
  assumes run: "download_and_install pe cfg w = (r, v)" and ok: "well_behaved cfg w" and pl: "placed pe cfg"
  shows "state_sound pe cfg w v" "r = Inr () \<or> all_there cfg w \<Longrightarrow> all_there cfg v" "tw_environ (pw_tool v) = tw_environ (pw_tool w)"
proof -
  show "state_sound pe cfg w v" and "r = Inr () \<or> all_there cfg w \<Longrightarrow> all_there cfg v" and "tw_environ (pw_tool v) = tw_environ (pw_tool w)"
  proof (atomize (full), cases "pe_stage pe (pw_tool w)")
    case None
    then show "state_sound pe cfg w v \<and> (r = Inr () \<or> all_there cfg w \<longrightarrow> all_there cfg v) \<and> tw_environ (pw_tool v) = tw_environ (pw_tool w)"
      using run state_sound_same [OF same_on_refl] by (auto simp: download_and_install_def)
  next
    case (Some stage)
    obtain rf u where f: "fetch_tree cfg stage w = (rf, u)" by fastforce
    have wu: "same_on (protected_paths cfg) w u" using same_on_fetch [OF f ok] .
    have drop: "same_on (protected_paths cfg) x (drop_tree stage x)" for x
      using placed_stage(1) [OF pl Some] by (intro same_on_drop_tree) (simp add: clear_of_def)
    show "state_sound pe cfg w v \<and> (r = Inr () \<or> all_there cfg w \<longrightarrow> all_there cfg v) \<and> tw_environ (pw_tool v) = tw_environ (pw_tool w)"
    proof (cases rf)
      case (Inl e)
      then have v: "v = drop_tree stage u" "r = Inl e" using run Some f by (auto simp: download_and_install_def p_bind_def)
      have same: "same_on (protected_paths cfg) w v" using same_on_trans [OF wu drop] v by simp
      then have "tw_environ (pw_tool v) = tw_environ (pw_tool w)" by (simp add: same_on_def)
      then show ?thesis using state_sound_same [OF same] all_there_same [OF same] v(2) by auto
    next
      case (Inr x)
      obtain x v1 where i: "install_tree pe cfg stage u = (x, v1)" by fastforce
      have v: "v = drop_tree stage v1" "r = x" using run Some f Inr i by (auto simp: download_and_install_def p_bind_def)
      have staged: "\<forall>a \<in> set (required_assets cfg). asset_there u (asset_path (stage_tree stage) a)"
        using fetch_tree_staged f Inr by simp
      note out = install_tree_outcome [OF i well_behaved_same [OF wu ok] pl Some staged]
      obtain ws where ws: "fetched_in cfg w u stage ws" "tw_files (pw_tool u) = apply_writes ws (tw_files (pw_tool w))"
        using fetch_tree_ran [of cfg stage w u] f Inr by auto
      have content: "tw_files (pw_tool u) p = apply_writes ws (\<lambda>_. None) p" if "p \<in> staged cfg stage" for p
        using ws(2) placed_stage(6) [OF pl Some that] apply_writes_local by metis
      have later: "same_on {} u v"
        using same_on_trans [OF install_tree_keeps [OF i well_behaved_same [OF wu ok]]] same_on_subset [OF drop, of "{}"] v(1)
        by simp
      have "state_sound pe cfg w v"
        using out(1)
      proof (elim disjE)
        assume "tw_files (pw_tool v1) state_path = None"
        then show ?thesis using drop [of v1] v(1) by (simp add: state_sound_def same_on_def protected_paths_def)
      next
        assume "same_on (protected_paths cfg) u v1"
        then show ?thesis using state_sound_same same_on_trans [OF same_on_trans [OF wu _] drop] v(1) by blast
      next
        assume new: "x = Inr () \<and> (\<exists>h. tw_files (pw_tool u) (stage_headers stage) = Some h \<and>
            tw_files (pw_tool v1) state_path = Some (state_text (pc_ref cfg) (etag_of_headers h) (pe_now pe))) \<and>
          (\<forall>a \<in> set (required_assets cfg). tw_files (pw_tool v1) (target_of a) = tw_files (pw_tool u) (asset_path (stage_tree stage) a))"
        then obtain h where h: "tw_files (pw_tool u) (stage_headers stage) = Some h"
          "tw_files (pw_tool v1) state_path = Some (state_text (pc_ref cfg) (etag_of_headers h) (pe_now pe))" by blast
        have same: "tw_files (pw_tool v) p = tw_files (pw_tool v1) p" if "p \<in> protected_paths cfg" for p
          using drop [of v1] v(1) that by (simp add: same_on_def)
        have "tw_files (pw_tool v) (target_of a) = apply_writes ws (\<lambda>_. None) (asset_path (stage_tree stage) a)"
          if "a \<in> set (required_assets cfg)" for a
          using new that same [of "target_of a"] content [of "asset_path (stage_tree stage) a"]
          by (simp add: protected_paths_def targets_def staged_def)
        moreover have "apply_writes ws (\<lambda>_. None) (stage_headers stage) = Some h"
          using content [of "stage_headers stage"] h(1) by (simp add: staged_def)
        moreover have "tw_files (pw_tool v) state_path = Some (state_text (pc_ref cfg) (etag_of_headers h) (pe_now pe))"
          using h(2) same [of state_path] by (simp add: protected_paths_def)
        moreover have "fetched_in cfg w v stage ws"
          using fetched_in_around [OF same_on_refl ws(1) later] .
        ultimately show ?thesis unfolding state_sound_def by blast
      qed
      moreover have "all_there cfg v" if "r = Inr () \<or> all_there cfg w"
        using that out(2) all_there_same [OF wu] all_there_same [OF drop] v by simp
      moreover have "tw_environ (pw_tool v) = tw_environ (pw_tool w)"
        using out(3) wu drop [of v1] v(1) by (auto simp: same_on_def)
      ultimately show ?thesis by blast
    qed
  qed
qed

lemma served_outcome:
  assumes run: "fetch_or_serve pe cfg cached w = (r, v)" and ok: "well_behaved cfg w" and pl: "placed pe cfg"
    and cached: "cached \<Longrightarrow> all_there cfg w"
  shows "state_sound pe cfg w v \<and> (r = Inr () \<longrightarrow> all_there cfg v)"
proof -
  obtain x u where d: "download_and_install pe cfg w = (x, u)" by fastforce
  note out = download_outcome [OF d ok pl]
  have "v = u" "r = Inr () \<Longrightarrow> x = Inr () \<or> cached" using run d by (auto simp: fetch_or_serve_def split: sum.splits if_splits)
  then show ?thesis using out cached by auto
qed

lemma network_outcome:
  assumes run: "provision_from_network pe cfg w = (r, v)" and ok: "well_behaved cfg w" and pl: "placed pe cfg"
  shows "state_sound pe cfg w v \<and> (r = Inr () \<longrightarrow> all_there cfg v)"
proof -
  obtain cached w1 where c: "cached_assets cfg w = (cached, w1)" by fastforce
  have s1: "same_on (protected_paths cfg) w w1" and there: "cached \<Longrightarrow> all_there cfg w1"
  proof -
    obtain x u where a: "assets_complete cfg provision_dir w = (x, u)" by fastforce
    have "same_on (protected_paths cfg) w u" using a by (rule complete_same)
    then show "same_on (protected_paths cfg) w w1" "cached \<Longrightarrow> all_there cfg w1"
      using c a complete_all_there [of cfg w u] all_there_same [of cfg w u]
      by (auto simp: cached_assets_def split: if_splits sum.splits)
  qed
  obtain etag w2 where k: "known_etag cfg cached w1 = (etag, w2)" by fastforce
  have s2: "same_on (protected_paths cfg) w1 w2"
    using k by (auto simp: known_etag_def read_state_def split: if_splits prod.splits file_read.splits dest: same_on_read)
  have ok2: "well_behaved cfg w2" using ok s1 s2 well_behaved_same by blast
  have there2: "cached \<Longrightarrow> all_there cfg w2" using there all_there_same [OF s2] by simp
  have s12: "same_on (protected_paths cfg) w w2" using s1 s2 by (rule same_on_trans)
  have serve: "state_sound pe cfg w v \<and> (r = Inr () \<longrightarrow> all_there cfg v)"
    if "fetch_or_serve pe cfg cached x = (r, v)" "same_on (protected_paths cfg) w2 x" for x
  proof -
    have "well_behaved cfg x" "cached \<Longrightarrow> all_there cfg x" using ok2 there2 that(2) well_behaved_same all_there_same by blast+
    from served_outcome [OF that(1) this(1) pl this(2)] state_sound_around [OF same_on_trans [OF s12 that(2)] _ same_on_refl]
    show ?thesis by blast
  qed
  show ?thesis
  proof (cases "etag = []")
    case True
    then show ?thesis using run c k serve [OF _ same_on_refl] by (auto simp: provision_from_network_def)
  next
    case False
    obtain x w3 where val: "validate_upstream cfg etag w2 = (x, w3)" by fastforce
    have s3: "same_on (protected_paths cfg) w2 w3"
      using val same_on_curl ok2 unfolding validate_upstream_def by blast
    have cached: "cached" using k False by (auto simp: known_etag_def split: if_splits)
    have quiet: "state_sound pe cfg w w3 \<and> all_there cfg w3"
      using state_sound_same [OF same_on_trans [OF s12 s3]] all_there_same [OF s3] there2 cached by blast
    show ?thesis
      using run c k False val serve [OF _ s3] quiet
      by (auto simp: provision_from_network_def split: sum.splits if_splits)
  qed
qed

lemma dev_outcome:
  assumes run: "install_from_dev pe cfg w = (r, v)" and ok: "well_behaved cfg w" and pl: "placed pe cfg"
  shows "state_sound pe cfg w v"
proof -
  note free = placed_paths(1-3) [OF pl]
  obtain rc u where c: "clear_state w = (rc, u)" by fastforce
  have cp: "commit_path \<notin> protected_paths cfg" using free by (auto simp: protected_paths_def)
  note clear = clear_state_outcome(2) [OF c ok, of "protected_paths cfg"]
  show ?thesis
  proof (cases rc)
    case (Inl e)
    then have "v = u" using run c by (auto simp: install_from_dev_def p_bind_def)
    from clear cp have "tw_files (pw_tool u) state_path = None \<or> same_on (protected_paths cfg) w u" by blast
    then have "state_sound pe cfg w u"
    proof
      assume "tw_files (pw_tool u) state_path = None"
      then show ?thesis by (simp add: state_sound_def)
    qed (rule state_sound_same)
    with \<open>v = u\<close> show ?thesis by simp
  next
    case (Inr x)
    then have i: "install_each pe True (pc_dev cfg) (required_assets cfg) u = (r, v)"
      using run c by (auto simp: install_from_dev_def p_bind_def)
    have "same_on {state_path} u v"
      using i by (rule install_each_same) (use free placed_paths(4) [OF pl] in \<open>auto simp: targets_def protected_paths_def\<close>)
    then show ?thesis using clear Inr by (auto simp: state_sound_def same_on_def)
  qed
qed

lemma locked_outcome:
  assumes run: "provision_locked pe cfg w = (r, v)" and ok: "well_behaved cfg w" and pl: "placed pe cfg"
  shows "state_sound pe cfg w v \<and> (r = Inr () \<longrightarrow> all_there cfg v)"
proof -
  have complete: "all_there cfg u'" if "assets_complete cfg provision_dir u = (Inr (), u')" for u u'
    using complete_all_there [OF that] all_there_same [OF complete_same [OF that]] by blast
  consider (dev) "pc_dev cfg \<noteq> []" | (given) "pc_dev cfg = []" "pc_provisioned cfg" | (net) "pc_dev cfg = []" "\<not> pc_provisioned cfg" by blast
  then show ?thesis
  proof cases
    case dev
    obtain x u where d: "install_from_dev pe cfg w = (x, u)" by fastforce
    show ?thesis
    proof (cases x)
      case (Inl e)
      then show ?thesis using run dev d dev_outcome [OF d ok pl] by (auto simp: provision_locked_def p_bind_def)
    next
      case (Inr y)
      then have "assets_complete cfg provision_dir u = (r, v)" using run dev d by (auto simp: provision_locked_def p_bind_def)
      then show ?thesis
        using state_sound_around [OF same_on_refl dev_outcome [OF d ok pl] complete_same] complete by blast
    qed
  next
    case given
    then have "assets_complete cfg provision_dir w = (r, v)" using run by (simp add: provision_locked_def)
    then show ?thesis using state_sound_same [OF complete_same] complete by blast
  next
    case net
    then show ?thesis using run network_outcome [OF _ ok pl] by (simp add: provision_locked_def)
  qed
qed

text \<open>
  C13. Provisioning leaves the validation state and the assets of \<open>.make\<close> consistent, whatever fails: afterwards there
  is no state, or state and assets are what they were, or all of them come from one fetch of this run, whose two
  commands are in its record and exited with 0: the state names the configured reference and the tag of the headers
  that \<open>curl\<close> wrote, and every required asset has exactly the content that the fetch put into the staging directory.
  And it succeeds only with every required asset in place, a regular file with content.
\<close>

theorem provision_is_consistent:
  assumes run: "provision_assets pe cfg w = Some (r, v)" and ok: "well_behaved cfg w" and pl: "placed pe cfg"
  shows "state_sound pe cfg w v \<and> (r = Inr () \<longrightarrow> (\<forall>a \<in> set (required_assets cfg). asset_there v (target_of a)))"
proof -
  obtain x w1 where m: "p_call ''mkdir .make'' (t_try MkdirCall) w = (x, w1)" by fastforce
  have s1: "same_on (protected_paths cfg) w w1" using m by (rule same_on_call)
  show ?thesis
  proof (cases x)
    case (Inl e)
    then show ?thesis using run m state_sound_same [OF s1] by (auto simp: provision_assets_def)
  next
    case (Inr y)
    show ?thesis
    proof (cases "lock_dir pe (pw_tool w1)")
      case None
      then show ?thesis using run m Inr state_sound_same [OF s1] by (auto simp: provision_assets_def)
    next
      case (Some lock)
      have drop: "same_on (protected_paths cfg) u (drop_tree lock u)" for u
        using placed_lock(1) [OF pl Some] by (intro same_on_drop_tree) (simp add: clear_of_def)
      obtain z w2 where pid: "p_call ''could not record the lock holder''
          (t_set WriteCall (path_join [lock, ''pid'']) (Some (itoa (pe_pid pe) @ newline))) w1 = (z, w2)" by fastforce
      have s2: "same_on (protected_paths cfg) w1 w2" using pid placed_lock(2) [OF pl Some] by (rule same_on_call_set)
      have s12: "same_on (protected_paths cfg) w w2" using s1 s2 by (rule same_on_trans)
      obtain r' u where l: "provision_locked pe cfg w2 = (r', u)" by fastforce
      have out: "state_sound pe cfg w2 u \<and> (r' = Inr () \<longrightarrow> all_there cfg u)"
        using locked_outcome [OF l well_behaved_same [OF s12 ok] pl] .
      have final: "state_sound pe cfg w (drop_tree lock u) \<and> (r' = Inr () \<longrightarrow> all_there cfg (drop_tree lock u))"
        using state_sound_around [OF s12 _ drop] out all_there_same [OF drop] by blast
      consider "v = w1" "isl r" | "v = drop_tree lock w2" "isl r" | "v = drop_tree lock u" "r = r'"
        using run m Inr Some pid l
        by (auto simp: provision_assets_def split: option.splits bool.splits sum.splits)
      then show ?thesis
      proof cases
        case 1
        then show ?thesis using state_sound_same [OF s1] by auto
      next
        case 2
        then show ?thesis using state_sound_same [OF same_on_trans [OF s12 drop]] by auto
      next
        case 3
        then show ?thesis using final by (auto simp: all_there_def targets_def)
      qed
    qed
  qed
qed

definition staged_names :: "string list" where
  "staged_names =
     [''/tmp/s/headers'', ''/tmp/s/tree/go.mk'', ''/tmp/s/tree/golangci.yml'', ''/tmp/s/tree/notices.txt'',
      ''/tmp/s/tree/scripts/go-mk-fetch-one.sh'', ''/tmp/s/tree/scripts/go-mk-bin.sh'', ''/tmp/s/tree/scripts/go-mk-sync.sh'',
      ''/tmp/s/tree/scripts/go-mk-bootstrap.sh'']"

definition fresh_stage :: "tool_world \<Rightarrow> string option" where
  "fresh_stage t = (if list_all (\<lambda>p. tw_files t p = None) staged_names then Some ''/tmp/s'' else None)"

definition sample_provision :: provision_env where
  "sample_provision =
     \<lparr>pe_lock = (\<lambda>_. LockTaken), pe_alive = (\<lambda>_. True), pe_pid = 7, pe_now = 5, pe_sha1 = (\<lambda>_. ''h''), pe_links = Some,
      pe_temp_dir = ''/tmp'', pe_stage = fresh_stage, pe_suffix = (\<lambda>_. ''1''), pe_comment = (\<lambda>_. None)\<rparr>"

definition fetched_files :: "(string \<times> string option) list" where
  "fetched_files =
     map (\<lambda>a. (''/tmp/s/tree/'' @ a, Some ''x''))
       [''go.mk'', ''golangci.yml'', ''notices.txt'', ''scripts/go-mk-fetch-one.sh'', ''scripts/go-mk-bin.sh'',
        ''scripts/go-mk-sync.sh'', ''scripts/go-mk-bootstrap.sh''] @ [(''/tmp/s/headers'', Some ''ETag: e'')]"

definition fetching_tool :: provision_world where
  "fetching_tool =
     \<lparr>pw_tool = sample_tool\<lparr>tw_run := (\<lambda>n argv. if n = 0 then Exited 0 ''200'' [] else Exited 0 [] fetched_files)\<rparr>,
      pw_links = (\<lambda>_. False)\<rparr>"

definition plain_provision :: provision_config where
  "plain_provision = \<lparr>pc_repo = ''r'', pc_ref = ''main'', pc_dev = [], pc_modules = [], pc_provisioned = False, pc_base = ''u''\<rparr>"

lemma sample_targets: "targets plain_provision = set [''.make/go.mk'', ''.make/golangci.yml'', ''.make/notices.txt'',
    ''.make/scripts/go-mk-fetch-one.sh'', ''.make/scripts/go-mk-bin.sh'', ''.make/scripts/go-mk-sync.sh'', ''.make/scripts/go-mk-bootstrap.sh'']"
proof -
  have "map target_of (required_assets plain_provision) = [''.make/go.mk'', ''.make/golangci.yml'', ''.make/notices.txt'',
    ''.make/scripts/go-mk-fetch-one.sh'', ''.make/scripts/go-mk-bin.sh'', ''.make/scripts/go-mk-sync.sh'', ''.make/scripts/go-mk-bootstrap.sh'']"
    by code_simp
  then show ?thesis unfolding targets_def by (metis set_map)
qed

lemma sample_staged: "staged plain_provision ''/tmp/s'' = set staged_names"
proof -
  have "stage_headers ''/tmp/s'' # map (asset_path (stage_tree ''/tmp/s'')) (required_assets plain_provision) = staged_names"
    by code_simp
  then show ?thesis unfolding staged_def by (metis list.set(2) set_map)
qed

lemma sample_placed: "placed sample_provision plain_provision"
proof -
  let ?protected = "[state_path, ''.make/go.mk'', ''.make/golangci.yml'', ''.make/notices.txt'', ''.make/scripts/go-mk-fetch-one.sh'',
    ''.make/scripts/go-mk-bin.sh'', ''.make/scripts/go-mk-sync.sh'', ''.make/scripts/go-mk-bootstrap.sh'']"
  let ?staged = staged_names
  let ?temp = "\<lambda>x. path_join [path_dir x, path_base x @ ''.tmp.1'']"
  have protected: "protected_paths plain_provision = set ?protected" by (simp add: protected_paths_def sample_targets)
  have temp: "temporary_beside sample_provision t x = ?temp x" for t x
    by (simp add: temporary_beside_def sample_provision_def)
  have temps: "list_all (\<lambda>x. ?temp x \<notin> set (?protected @ ?staged)) (tl ?protected)" by code_simp
  have lock: "l = ''/tmp/go-mk-lock-68''" if "lock_dir sample_provision t = Some l" for t l
  proof -
    have "path_join [''/tmp'', ''go-mk-lock-'' @ hex_encode ''h''] = ''/tmp/go-mk-lock-68''" by code_simp
    then show ?thesis using that by (auto simp: lock_dir_def sample_provision_def Let_def split: option.splits)
  qed
  have pid: "path_join [''/tmp/go-mk-lock-68'', ''pid''] = ''/tmp/go-mk-lock-68/pid''" by code_simp
  have inj: "distinct (map target_of (required_assets plain_provision))" by code_simp
  have beside: "?temp x \<notin> set (?protected @ ?staged)" if "x \<in> set (tl ?protected)" for x
    using temps [unfolded list_all_iff] that by blast
  have disjoint: "set ?staged \<inter> set (tl ?protected) = {}" "set (tl ?protected) \<subseteq> set ?protected"
    by (simp_all add: staged_names_def)
  have states: "state_path \<notin> set ?staged" "commit_path \<notin> set ?staged"
    by (simp_all add: staged_names_def state_path_def commit_path_def)
  have clear: "clear_of ''/tmp/s'' (set ?protected)" "clear_of ''/tmp/go-mk-lock-68'' (set ?protected)"
    by (simp_all add: clear_of_def state_path_def)
  have ap: "apart sample_provision (set ?staged) (set (tl ?protected))"
    unfolding apart_def temp using beside disjoint by (simp only: set_append Un_iff) blast
  have same: "asset_path (stage_tree s) a = asset_path (stage_tree s) b"
    if "a \<in> set (required_assets plain_provision)" "b \<in> set (required_assets plain_provision)" "target_of a = target_of b" for s a b
    using inj that by (auto simp: distinct_map inj_on_def)
  have tl: "targets plain_provision = set (tl ?protected)" by (simp add: sample_targets)
  show ?thesis
  proof (rule placedI)
    show "state_path \<notin> targets plain_provision" "commit_path \<notin> targets plain_provision"
      by (simp_all add: sample_targets state_path_def commit_path_def)
    show "temporary_beside sample_provision t x \<notin> protected_paths plain_provision" if "x \<in> targets plain_provision" for t x
      using beside [of x] that unfolding temp protected tl by (simp only: set_append Un_iff) blast
    show "clear_of stage (protected_paths plain_provision)" "apart sample_provision (staged plain_provision stage) (targets plain_provision)"
      "state_path \<notin> staged plain_provision stage" "commit_path \<notin> staged plain_provision stage"
      if "pe_stage sample_provision t = Some stage" for t stage
    proof -
      have "stage = ''/tmp/s''" using that by (simp add: sample_provision_def fresh_stage_def split: if_splits)
      then show "clear_of stage (protected_paths plain_provision)" "apart sample_provision (staged plain_provision stage) (targets plain_provision)"
        "state_path \<notin> staged plain_provision stage" "commit_path \<notin> staged plain_provision stage"
        using clear(1) ap states unfolding protected tl by (simp_all only: sample_staged not_False_eq_True)
    qed
    show "tw_files t p = None" if "pe_stage sample_provision t = Some stage" "p \<in> staged plain_provision stage" for t stage p
    proof -
      have "stage = ''/tmp/s''" "list_all (\<lambda>p. tw_files t p = None) staged_names"
        using that(1) by (simp_all add: sample_provision_def fresh_stage_def split: if_splits)
      then show ?thesis using that(2) sample_staged by (auto simp: list_all_iff)
    qed
    show "clear_of l (protected_paths plain_provision)" "path_join [l, ''pid''] \<notin> protected_paths plain_provision"
      if "lock_dir sample_provision t = Some l" for t l
      using clear(2) pid lock [OF that] unfolding protected by (simp_all add: state_path_def)
  qed (rule same)
qed

lemma sample_behaved: "well_behaved plain_provision fetching_tool"
proof -
  have "protected_paths plain_provision \<inter> fst ` set fetched_files = {}"
    by (simp add: protected_paths_def sample_targets fetched_files_def state_path_def)
  then show ?thesis
    by (auto simp: well_behaved_def fetching_tool_def sample_tool_def split: if_splits)
qed

declare acquire_lock.simps [code]

lemma sample_provisioned: "map_option fst (provision_assets sample_provision plain_provision fetching_tool) = Some (Inr ())"
  by code_simp

theorem provision_is_consistent_witness:
  "\<exists>v. provision_assets sample_provision plain_provision fetching_tool = Some (Inr (), v) \<and>
     asset_there v ''.make/go.mk'' \<and> state_sound sample_provision plain_provision fetching_tool v"
proof -
  obtain v where run: "provision_assets sample_provision plain_provision fetching_tool = Some (Inr (), v)"
    using sample_provisioned by (auto simp: map_option_eq_Some)
  have "''.make/go.mk'' \<in> targets plain_provision" by (simp add: sample_targets)
  then show ?thesis
    using run provision_is_consistent [OF run sample_behaved sample_placed] by (auto simp: targets_def)
qed

section \<open>Waiting for the lock ends\<close>

text \<open>Unless a lock that is stale and can be moved away is met without end, the wait is over.\<close>

lemma acquire_lock_waits:
  assumes "\<And>k body moved. n \<le> k \<Longrightarrow> pe_lock pe k = LockHeld body moved \<Longrightarrow> \<not> (stale_lock pe body \<and> moved)"
  shows "\<exists>b. acquire_lock pe n waited = Some b"
  using assms
proof (induction "Suc lock_wait - waited" arbitrary: n waited)
  case 0
  then show ?case
    by (subst acquire_lock.simps) (auto split: lock_attempt.splits)
next
  case (Suc d)
  have "\<exists>b. acquire_lock pe (Suc n) (Suc waited) = Some b"
    using Suc.hyps(2) Suc.prems by (intro Suc.hyps(1)) (auto, metis Suc_leD)
  moreover have "\<not> (stale_lock pe body \<and> moved)" if "pe_lock pe n = LockHeld body moved" for body moved
    using Suc.prems that by blast
  ultimately show ?case
    by (subst acquire_lock.simps) (auto split: lock_attempt.splits)
qed

theorem lock_wait_ends:
  assumes "\<And>k body moved. m \<le> k \<Longrightarrow> pe_lock pe k = LockHeld body moved \<Longrightarrow> \<not> (stale_lock pe body \<and> moved)"
  shows "\<exists>b. acquire_lock pe n waited = Some b"
proof (induction "m - n" arbitrary: n waited)
  case 0
  then have "m \<le> n" by simp
  show ?case by (rule acquire_lock_waits) (use assms le_trans [OF \<open>m \<le> n\<close>] in blast)
next
  case (Suc d)
  then have "\<exists>b. acquire_lock pe (Suc n) x = Some b" for x by (metis Suc_diff_Suc diff_Suc_Suc less_imp_diff_less nat.inject zero_less_Suc zero_less_diff)
  then show ?case by (subst acquire_lock.simps) (auto split: lock_attempt.splits)
qed

end
