(* ===== verification/Mutation.thy ===== *)
theory Mutation
  imports BaselineCmd
begin

text \<open>
  \<open>go-mk mutation\<close> (\<open>mutation.go\<close>, \<open>internal/mutation\<close>): the runs of the mutation tool, their reports, the score and
  its minimum. The score is a \<open>float64\<close>; its two operations round as IEEE 754 does. Parameters: the JSON of a report
  and of the summary, and \<open>strconv.ParseFloat\<close>. Standard error is not modelled.
\<close>

section \<open>Floating point\<close>

text \<open>
  A value of \<open>float64\<close> as a fraction with a positive denominator. Counts are 64-bit integers, so neither overflow nor
  subnormal numbers occur. A negative zero is zero.
\<close>

type_synonym fraction = "int \<times> int"

definition half_even :: "int \<Rightarrow> int \<Rightarrow> int" where
  "half_even n d = (let q = n div d; r = n mod d in if 2 * r < d \<or> 2 * r = d \<and> even q then q else q + 1)"

function bit_len :: "int \<Rightarrow> int" where
  "bit_len n = (if n \<le> 0 then 0 else 1 + bit_len (n div 2))"
  by auto
termination by (relation "measure nat") auto

declare bit_len.simps [simp del]

text \<open>The nearest fraction with 53 significant bits; \<open>n\<close> and \<open>d\<close> are positive.\<close>

definition scaled :: "int \<Rightarrow> int \<Rightarrow> int \<Rightarrow> int \<times> int" where
  "scaled n d s = (if 0 \<le> s then (n * 2 ^ nat s, d) else (n, d * 2 ^ nat (- s)))"

definition significand_shift :: "int \<Rightarrow> int \<Rightarrow> int" where
  "significand_shift n d =
     (let s = 53 - (bit_len n - bit_len d); (a, b) = scaled n d s in
      if 2 ^ 53 \<le> a div b then s - 1 else s)"

definition round_positive :: "int \<Rightarrow> int \<Rightarrow> fraction" where
  "round_positive n d =
     (let s = significand_shift n d; (a, b) = scaled n d s; m = half_even a b in scaled m 1 (- s))"

definition round64 :: "fraction \<Rightarrow> fraction" where
  "round64 x =
     (case x of (n, d) \<Rightarrow>
        if n = 0 then (0, 1) else if 0 < n then round_positive n d
        else (case round_positive (- n) d of (m, e) \<Rightarrow> (- m, e)))"

definition float_of :: "int \<Rightarrow> fraction" where "float_of n = round64 (n, 1)"

definition float_div :: "fraction \<Rightarrow> fraction \<Rightarrow> fraction" where
  "float_div x y =
     (case (x, y) of ((a, b), (c, d)) \<Rightarrow> round64 (if 0 < c then (a * d, b * c) else (- (a * d), b * (- c))))"

definition float_mul :: "fraction \<Rightarrow> fraction \<Rightarrow> fraction" where
  "float_mul x y = (case (x, y) of ((a, b), (c, d)) \<Rightarrow> round64 (a * c, b * d))"

definition float_le :: "fraction \<Rightarrow> fraction \<Rightarrow> bool" where
  "float_le x y = (case (x, y) of ((a, b), (c, d)) \<Rightarrow> a * d \<le> c * b)"

text \<open>\<open>%.2f\<close> rounds the exact value, a tie to the even digit.\<close>

definition two_digits :: "int \<Rightarrow> string" where
  "two_digits n = (if n < 10 then ''0'' else []) @ itoa n"

definition format_2f :: "fraction \<Rightarrow> string" where
  "format_2f x =
     (case x of (n, d) \<Rightarrow>
        let q = half_even (100 * \<bar>n\<bar>) d in (if n < 0 then ''-'' else []) @ itoa (q div 100) @ ''.'' @ two_digits (q mod 100))"

section \<open>Reports\<close>

record mutation_report =
  mr_total :: int
  mr_killed :: int
  mr_lived :: int
  mr_not_viable :: int
  mr_not_covered :: int
  mr_timed_out :: int
  mr_elapsed :: string
  mr_files :: string

record mutation_summary =
  ms_packages :: "(string \<times> mutation_report) list"
  ms_killed :: int
  ms_lived :: int
  ms_not_covered :: int
  ms_not_viable :: int
  ms_timed_out :: int
  ms_total :: int

text \<open>What \<open>ParseFloat\<close> can answer.\<close>

datatype minimum = NotANumber | NegativeInfinity | PositiveInfinity | Finite fraction

record mutation_env =
  mu_report :: "string \<Rightarrow> mutation_report option"
  mu_statuses :: "string \<Rightarrow> string list list option"
  mu_summary :: "mutation_summary \<Rightarrow> string option"
  mu_float :: "string \<Rightarrow> minimum option"

definition timed_out_status :: string where "timed_out_status = ''TIMED OUT''"

text \<open>The tool reports no total of the mutants that timed out: they are counted in the list of the files.\<close>

definition parse_report :: "mutation_env \<Rightarrow> string \<Rightarrow> mutation_report option" where
  "parse_report mu s =
     (case mu_report mu s of
        None \<Rightarrow> None
      | Some r \<Rightarrow>
          if mr_files r = [] then Some r
          else (case mu_statuses mu (mr_files r) of
                  None \<Rightarrow> None
                | Some fs \<Rightarrow> Some (r\<lparr>mr_timed_out := int (length (filter (\<lambda>x. x = timed_out_status) (concat fs)))\<rparr>)))"

definition total :: "(mutation_report \<Rightarrow> int) \<Rightarrow> (string \<times> mutation_report) list \<Rightarrow> int" where
  "total f rs = foldl (\<lambda>n r. wrap_int (n + f (snd r))) 0 rs"

definition summarize :: "(string \<times> mutation_report) list \<Rightarrow> mutation_summary" where
  "summarize rs =
     \<lparr>ms_packages = rs, ms_killed = total mr_killed rs, ms_lived = total mr_lived rs, ms_not_covered = total mr_not_covered rs,
      ms_not_viable = total mr_not_viable rs, ms_timed_out = total mr_timed_out rs, ms_total = total mr_total rs\<rparr>"

definition score :: "int \<Rightarrow> int \<Rightarrow> fraction option" where
  "score killed lived =
     (let covered = wrap_int (killed + lived) in
      if covered = 0 then None else Some (float_mul (float_div (float_of killed) (float_of covered)) (100, 1)))"

definition positive_minimum :: "minimum \<Rightarrow> bool" where
  "positive_minimum m = (case m of Finite (n, d) \<Rightarrow> 0 < n | NegativeInfinity \<Rightarrow> False | _ \<Rightarrow> True)"

definition reaches :: "fraction \<Rightarrow> minimum \<Rightarrow> bool" where
  "reaches x m = (case m of Finite y \<Rightarrow> float_le y x | NegativeInfinity \<Rightarrow> True | _ \<Rightarrow> False)"

definition meets_minimum :: "mutation_summary \<Rightarrow> minimum \<Rightarrow> bool" where
  "meets_minimum ms m \<longleftrightarrow>
     \<not> positive_minimum m \<or> (case score (ms_killed ms) (ms_lived ms) of None \<Rightarrow> False | Some x \<Rightarrow> reaches x m)"

definition score_text :: "int \<Rightarrow> int \<Rightarrow> string" where
  "score_text killed lived = (case score killed lived of None \<Rightarrow> ''n/a'' | Some x \<Rightarrow> format_2f x @ ''%'')"

definition minimum_text :: "minimum \<Rightarrow> string" where
  "minimum_text m =
     (case m of Finite x \<Rightarrow> format_2f x | NotANumber \<Rightarrow> ''NaN'' | PositiveInfinity \<Rightarrow> ''+Inf'' | NegativeInfinity \<Rightarrow> ''-Inf'') @ ''%''"

definition minimum_line :: "mutation_summary \<Rightarrow> minimum \<Rightarrow> string" where
  "minimum_line ms m =
     (if \<not> positive_minimum m then ''No minimum score is set.''
      else if meets_minimum ms m then ''The run meets the minimum score of '' @ minimum_text m @ ''.''
      else ''The run is below the minimum score of '' @ minimum_text m @ ''.'') @ newline"

definition table_row :: "string \<Rightarrow> int \<Rightarrow> int \<Rightarrow> int \<Rightarrow> int \<Rightarrow> int \<Rightarrow> string" where
  "table_row name killed lived not_covered timed_out not_viable =
     ''| '' @ str_join '' | '' [name, itoa killed, itoa lived, itoa not_covered, itoa timed_out, itoa not_viable,
       score_text killed lived] @ '' |'' @ newline"

definition report_row :: "string \<times> mutation_report \<Rightarrow> string" where
  "report_row r =
     (case r of (name, r) \<Rightarrow>
        table_row name (mr_killed r) (mr_lived r) (mr_not_covered r) (mr_timed_out r) (mr_not_viable r))"

definition render_markdown :: "mutation_summary \<Rightarrow> minimum \<Rightarrow> string" where
  "render_markdown ms m =
     ''## Mutation test summary'' @ newline @ newline @
     ''| Package | Killed | Lived | Not covered | Timed out | Not viable | Score |'' @ newline @
     ''| --- | ---: | ---: | ---: | ---: | ---: | ---: |'' @ newline @
     concat (map report_row (ms_packages ms)) @
     table_row ''Total'' (ms_killed ms) (ms_lived ms) (ms_not_covered ms) (ms_timed_out ms) (ms_not_viable ms) @
     newline @ ''The score is killed / (killed + lived).'' @ newline @
     (if 0 < ms_timed_out ms
      then itoa (ms_timed_out ms) @
        '' timed-out mutants do not count toward the score. Raise MUTATION_TIMEOUT_COEFFICIENT and run again.'' @ newline
      else []) @ minimum_line ms m"

section \<open>The command\<close>

definition mutation_install :: string where
  "mutation_install = ''github.com/go-gremlins/gremlins/cmd/gremlins@v0.6.0''"
definition mutation_timeout_coefficient :: string where "mutation_timeout_coefficient = ''20''"
definition mutation_report_path :: string where "mutation_report_path = make_dir @ ''/mutation-report.json''"
definition mutation_summary_path :: string where "mutation_summary_path = make_dir @ ''/mutation-summary.md''"

definition mutation_minimum :: "mutation_env \<Rightarrow> tool_world \<Rightarrow> minimum option" where
  "mutation_minimum mu w =
     (let t = trim_space (tenv w ''MUTATION_MIN_SCORE'') in if t = [] then Some (Finite (0, 1)) else mu_float mu t)"

definition spec_path :: "string \<Rightarrow> string" where
  "spec_path spec = (case str_cut spec ''@'' of None \<Rightarrow> spec | Some (p, v) \<Rightarrow> p)"

definition mutation_binary :: "string \<Rightarrow> tool_world \<Rightarrow> (tool_error, string) result \<times> tool_world" where
  "mutation_binary spec =
     t_bind (go_env_path ''GOPATH'') (\<lambda>gopath w. (Inr (path_join [gopath, ''bin'', path_base (spec_path spec)]), w))"

definition package_report_path :: "nat \<Rightarrow> string" where
  "package_report_path i = path_join [make_dir, ''mutation.'' @ itoa (int i) @ ''.json'']"
definition package_log_path :: "nat \<Rightarrow> string" where
  "package_log_path i = path_join [make_dir, ''mutation.'' @ itoa (int i) @ ''.log'']"

definition mutation_args :: "tool_world \<Rightarrow> string \<Rightarrow> nat \<Rightarrow> string list" where
  "mutation_args w package i =
     [''unleash'', ''--timeout-coefficient'', tenv_default w ''MUTATION_TIMEOUT_COEFFICIENT'' mutation_timeout_coefficient] @
     split_words (tenv w ''MUTATION_FLAGS'') @ [''--output'', package_report_path i, package]"

text \<open>A report that is missing already is no error.\<close>

definition remove_report :: "string \<Rightarrow> tool_world \<Rightarrow> (tool_error, unit) result \<times> tool_world" where
  "remove_report path w =
     (case t_set RemoveCall path None w of
        (ok, v) \<Rightarrow> (if ok \<or> tw_files w path = None then Inr () else Inl (FileError path), v))"

definition print_mutation_log :: "string \<Rightarrow> string \<Rightarrow> tool_world \<Rightarrow> tool_world" where
  "print_mutation_log package log_path w =
     (case read_file_content log_path (t_println (''mutation: no report for '' @ package) w) of
        (Inr s, w) \<Rightarrow> t_print s w | (Inl _, w) \<Rightarrow> w)"

text \<open>The status of the tool does not count, only whether it wrote a report.\<close>

definition read_report :: "mutation_env \<Rightarrow> string \<Rightarrow> nat \<Rightarrow> tool_world \<Rightarrow> (tool_error, mutation_report) result \<times> tool_world" where
  "read_report mu package i w =
     (case t_read (package_report_path i) w of
        (NoFile, w) \<Rightarrow> (Inl (FileError (package_report_path i)), print_mutation_log package (package_log_path i) w)
      | (Unreadable, w) \<Rightarrow> (Inl (FileError (package_report_path i)), w)
      | (Content s, w) \<Rightarrow> (case parse_report mu s of None \<Rightarrow> Inl DecodeFailed | Some r \<Rightarrow> Inr r, w))"

definition run_mutation_package :: "mutation_env \<Rightarrow> string \<Rightarrow> string \<Rightarrow> nat \<Rightarrow> tool_world \<Rightarrow>
    (tool_error, mutation_report) result \<times> tool_world" where
  "run_mutation_package mu binary package i =
     t_bind (remove_report (package_report_path i)) (\<lambda>_ w.
     t_bind (capture_command binary (mutation_args w package i) (package_log_path i)) (\<lambda>_. read_report mu package i) w)"

fun run_mutation_packages :: "mutation_env \<Rightarrow> string \<Rightarrow> string list \<Rightarrow> nat \<Rightarrow> tool_world \<Rightarrow>
    (tool_error, (string \<times> mutation_report) list) result \<times> tool_world" where
  "run_mutation_packages mu binary [] i w = (Inr [], w)"
| "run_mutation_packages mu binary (p # ps) i w =
     t_bind (run_mutation_package mu binary p i) (\<lambda>r.
     t_bind (run_mutation_packages mu binary ps (Suc i)) (\<lambda>rs w. (Inr ((p, r) # rs), w))) w"

definition mutation_write :: "string \<Rightarrow> string \<Rightarrow> tool_world \<Rightarrow> (tool_error, unit) result \<times> tool_world" where
  "mutation_write path s w =
     (case t_set WriteCall path (Some s) w of (ok, w) \<Rightarrow> (if ok then Inr () else Inl (FileError path), w))"

definition write_mutation_outputs :: "mutation_env \<Rightarrow> mutation_summary \<Rightarrow> string \<Rightarrow> tool_world \<Rightarrow>
    (tool_error, unit) result \<times> tool_world" where
  "write_mutation_outputs mu ms rendered w =
     (case mu_summary mu ms of
        None \<Rightarrow> (Inl DecodeFailed, w)
      | Some s \<Rightarrow>
          t_bind (mutation_write (tenv_default w ''MUTATION_REPORT'' mutation_report_path) (s @ newline)) (\<lambda>_.
            mutation_write (tenv_default w ''MUTATION_SUMMARY'' mutation_summary_path) rendered) w)"

definition run_mutation :: "mutation_env \<Rightarrow> tool_world \<Rightarrow> int \<times> tool_world" where
  "run_mutation mu =
     or_status ensure_make_dir (\<lambda>_ w.
       case mutation_minimum mu w of
         None \<Rightarrow> (2, t_println ''mutation: MUTATION_MIN_SCORE must be a number from 0 to 100'' w)
       | Some m \<Rightarrow>
           (let spec = tenv_default w ''MUTATION_INSTALL'' mutation_install in
            or_status (install_go_tool spec) (\<lambda>_.
            or_status (mutation_binary spec) (\<lambda>binary w.
            or_status (run_mutation_packages mu binary (split_words (tenv_default w ''MUTATION_PACKAGES'' ''.'')) 0) (\<lambda>rs.
              let ms = summarize rs; rendered = render_markdown ms m in
              or_status (write_mutation_outputs mu ms rendered) (\<lambda>_ w.
                (if meets_minimum ms m then 0 else 1, t_print rendered w))) w)) w))"

section \<open>A run passes on reports of its own\<close>

definition same_tools :: "tool_world \<Rightarrow> tool_world \<Rightarrow> bool" where
  "same_tools w v \<longleftrightarrow> tw_run v = tw_run w \<and> tw_environ v = tw_environ w"

lemma same_tools_refl [simp]: "same_tools w w"
  by (simp add: same_tools_def)

lemma same_tools_trans: "same_tools w u \<Longrightarrow> same_tools u v \<Longrightarrow> same_tools w v"
  by (simp add: same_tools_def)

lemma same_tools_set: "t_set c p x w = (ok, v) \<Longrightarrow> same_tools w v"
  by (auto simp: t_set_def t_tick_def same_tools_def split: if_splits)

lemma same_tools_read: "t_read p w = (x, v) \<Longrightarrow> same_tools w v"
  by (auto simp: t_read_def t_tick_def same_tools_def)

lemma same_tools_exec: "t_exec env argv w = (x, v) \<Longrightarrow> same_tools w v"
  by (auto simp: t_exec_def t_tick_def same_tools_def Let_def split: cmd_outcome.splits)

lemma same_tools_print [simp]: "same_tools w (t_print s w)" "same_tools w (t_println s w)"
  by (simp_all add: t_println_def t_print_def same_tools_def)

lemma same_tools_install: "install_go_tool spec w = (r, v) \<Longrightarrow> same_tools w v"
  by (auto simp: install_go_tool_def run_command_def dest!: same_tools_exec split: if_splits prod.splits cmd_outcome.splits
      intro: same_tools_trans [OF _ same_tools_print(1)])

lemma same_tools_binary: "mutation_binary spec w = (r, v) \<Longrightarrow> same_tools w v"
  by (auto simp: mutation_binary_def t_bind_def go_env_path_def t_output_def dest!: same_tools_exec
      split: prod.splits sum.splits cmd_outcome.splits option.splits if_splits)

lemma same_tools_make_dir: "ensure_make_dir w = (r, v) \<Longrightarrow> same_tools w v"
  by (auto simp: ensure_make_dir_def t_try_def t_tick_def same_tools_def Let_def)

lemma apply_writes_Cons: "apply_writes ((q, x) # ws) files = apply_writes ws (files(q := x))"
  by (simp add: apply_writes_def)

lemma apply_writes_at:
  assumes "files p = other p"
  shows "apply_writes ws files p = apply_writes ws other p"
  using assms
proof (induction ws arbitrary: files other)
  case (Cons a ws)
  obtain q x where a: "a = (q, x)" by fastforce
  show ?case unfolding a apply_writes_Cons by (rule Cons.IH) (simp add: Cons.prems)
qed (simp add: apply_writes_def)

text \<open>A report that a command of this run wrote.\<close>

definition own_report :: "mutation_env \<Rightarrow> tool_world \<Rightarrow> nat \<Rightarrow> mutation_report \<Rightarrow> bool" where
  "own_report mu w i r \<longleftrightarrow>
     (\<exists>n argv status out ws s. tw_run w n argv = Exited status out ws \<and>
        apply_writes ws (\<lambda>_. None) (package_report_path i) = Some s \<and> parse_report mu s = Some r)"

lemma own_report_same:
  assumes "same_tools w v"
  shows "own_report mu v i r \<longleftrightarrow> own_report mu w i r"
proof -
  have "tw_run v = tw_run w" using assms by (simp only: same_tools_def)
  then show ?thesis by (simp only: own_report_def)
qed

lemma same_tools_capture:
  assumes "capture_command binary args path w = (r, v)"
  shows "same_tools w v"
proof -
  obtain ok u where u: "t_set WriteCall path (Some []) w = (ok, u)" by fastforce
  obtain x z where z: "t_exec (lint_env u) (binary # args) u = (x, z)" by fastforce
  have "v = u \<or> v = z \<or> (\<exists>out. v = z\<lparr>tw_files := (tw_files z)(path := Some out)\<rparr>)"
    using assms u z by (cases x) (auto simp: capture_command_def Let_def split: if_splits)
  moreover have "same_tools w u" "same_tools w z"
    using same_tools_set [OF u] same_tools_exec [OF z] by (auto intro: same_tools_trans)
  ultimately show ?thesis by (auto simp: same_tools_def)
qed

lemma path_join_last:
  assumes "slash \<notin> set x" "2 < length x"
  shows "last (path_join [d, x]) = last x"
proof -
  have "x \<noteq> []" "x \<noteq> ''.''" "x \<noteq> ''..''" using assms(2) by auto
  then show ?thesis using path_join_suffix [OF assms(1), of d] by (auto simp: suffix_def)
qed

lemma package_paths_differ: "package_report_path i \<noteq> package_log_path i"
proof -
  have "slash \<notin> set (itoa (int i))" by (rule itoa_free) (auto simp: is_digit_def)
  then have "last (package_report_path i) = CHR ''n''" "last (package_log_path i) = CHR ''g''"
    unfolding package_report_path_def package_log_path_def by (subst path_join_last; simp)+
  then show ?thesis by auto
qed

lemma captured_report:
  assumes "capture_command binary args path w = (Inr status, v)" "p \<noteq> path" "tw_files w p = None" "tw_files v p = Some s"
  shows "\<exists>n argv status out ws. tw_run w n argv = Exited status out ws \<and> apply_writes ws (\<lambda>_. None) p = Some s"
proof -
  obtain u where u: "t_set WriteCall path (Some []) w = (True, u)"
    using assms(1) by (auto simp: capture_command_def Let_def split: prod.splits if_splits)
  have u': "tw_files u p = None" "tw_run u = tw_run w" using u assms(2,3) by (auto simp: t_set_def t_tick_def split: if_splits)
  obtain out ws z where e: "t_exec (lint_env u) (binary # args) u = (Exited status out ws, z)"
      "v = z\<lparr>tw_files := (tw_files z)(path := Some out)\<rparr>"
    using assms(1) u by (auto simp: capture_command_def Let_def split: prod.splits cmd_outcome.splits)
  have z: "tw_run u (length (tw_ran u)) (binary # args) = Exited status out ws" "tw_files z = apply_writes ws (tw_files u)"
    using e(1) by (auto simp: t_exec_def Let_def t_tick_def split: cmd_outcome.splits)
  have "apply_writes ws (\<lambda>_. None) p = Some s"
    using assms(2,4) e(2) z(2) apply_writes_at [of "tw_files u" p "\<lambda>_. None" ws] u'(1) by simp
  then show ?thesis using z(1) u'(2) by metis
qed

lemma run_mutation_package_own:
  assumes "run_mutation_package mu binary p i w = (Inr r, v)"
  shows "own_report mu w i r" "same_tools w v"
proof -
  let ?report = "package_report_path i"
  obtain u1 status u2 where r0: "remove_report ?report w = (Inr (), u1)"
      "capture_command binary (mutation_args u1 p i) (package_log_path i) u1 = (Inr status, u2)"
      "read_report mu p i u2 = (Inr r, v)"
    using assms by (auto simp: run_mutation_package_def t_bind_Inr)
  obtain s where "t_read ?report u2 = (Content s, v)" "parse_report mu s = Some r"
    using r0(3) by (auto simp: read_report_def split: prod.splits file_read.splits option.splits)
  note r = r0(1,2) this
  obtain ok where "t_set RemoveCall ?report None w = (ok, u1)" "ok \<or> tw_files w ?report = None"
    using r(1) by (auto simp: remove_report_def split: prod.splits if_splits)
  then have u1: "tw_files u1 ?report = None" "same_tools w u1"
    by (auto simp: t_set_def t_tick_def same_tools_def split: if_splits)
  have "tw_files u2 ?report = Some s" using r(3) by (auto simp: t_read_def split: if_splits option.splits)
  then have "own_report mu u1 i r"
    using captured_report [OF r(2) package_paths_differ u1(1)] r(4) unfolding own_report_def by blast
  then show "own_report mu w i r" using own_report_same [OF u1(2)] by simp
  have "same_tools u1 u2" using r(2) by (rule same_tools_capture)
  then show "same_tools w v" using u1(2) same_tools_read [OF r(3)] by (blast intro: same_tools_trans)
qed

lemma run_mutation_packages_own:
  "run_mutation_packages mu binary ps i w = (Inr rs, v) \<Longrightarrow>
     map fst rs = ps \<and> (\<forall>k < length rs. own_report mu w (i + k) (snd (rs ! k)))"
proof (induction ps arbitrary: i w rs)
  case (Cons p ps)
  then obtain r u rs' where r: "run_mutation_package mu binary p i w = (Inr r, u)"
      "run_mutation_packages mu binary ps (Suc i) u = (Inr rs', v)" "rs = (p, r) # rs'"
    by (auto simp: t_bind_Inr)
  note own = run_mutation_package_own [OF r(1)]
  have "own_report mu w (i + k) (snd (rs ! k))" if "k < length rs" for k
    using that own Cons.IH [OF r(2)] own_report_same [OF own(2)] r(3) by (cases k) auto
  then show ?case using Cons.IH [OF r(2)] r(3) by simp
qed simp

text \<open>
  C14. \<open>go-mk mutation\<close> exits with 0 only when every package of \<open>MUTATION_PACKAGES\<close> has a report that a command of this
  run wrote (one that lay there before does not count) and the score of all of them reaches the minimum.
\<close>

theorem mutation_gate:
  assumes "run_mutation mu w = (0, v)"
  shows "\<exists>m rs. mutation_minimum mu w = Some m \<and> meets_minimum (summarize rs) m \<and>
    map fst rs = split_words (tenv_default w ''MUTATION_PACKAGES'' ''.'') \<and>
    (\<forall>i < length rs. own_report mu w i (snd (rs ! i)))"
proof -
  obtain u1 where e: "ensure_make_dir w = (Inr (), u1)"
    using assms by (auto simp: run_mutation_def or_status_0)
  obtain m where m: "mutation_minimum mu u1 = Some m"
    using assms e by (auto simp: run_mutation_def or_status_0 split: option.splits)
  let ?spec = "tenv_default u1 ''MUTATION_INSTALL'' mutation_install"
  obtain u2 binary u3 rs u4 where i: "install_go_tool ?spec u1 = (Inr (), u2)" "mutation_binary ?spec u2 = (Inr binary, u3)"
      "run_mutation_packages mu binary (split_words (tenv_default u3 ''MUTATION_PACKAGES'' ''.'')) 0 u3 = (Inr rs, u4)"
      "meets_minimum (summarize rs) m"
    using assms e m by (auto simp: run_mutation_def or_status_0 Let_def split: if_splits)
  have t: "same_tools w u1" "same_tools w u3"
    using same_tools_make_dir [OF e] same_tools_install [OF i(1)] same_tools_binary [OF i(2)] by (blast intro: same_tools_trans)+
  have "mutation_minimum mu w = Some m" using m t(1) by (simp add: mutation_minimum_def same_tools_def)
  then show ?thesis
    using i(4) run_mutation_packages_own [OF i(3)] own_report_same [OF t(2)] t(2) by (auto simp: same_tools_def)
qed

definition sample_report :: mutation_report where
  "sample_report =
     \<lparr>mr_total = 2, mr_killed = 1, mr_lived = 1, mr_not_viable = 0, mr_not_covered = 0, mr_timed_out = 0, mr_elapsed = ''1'', mr_files = []\<rparr>"

definition sample_mutation :: mutation_env where
  "sample_mutation =
     \<lparr>mu_report = (\<lambda>_. Some sample_report), mu_statuses = (\<lambda>_. None), mu_summary = (\<lambda>_. Some ''{}''),
      mu_float = (\<lambda>_. Some (Finite (50, 1)))\<rparr>"

definition mutating_tool :: tool_world where
  "mutating_tool = sample_tool\<lparr>tw_environ := [''MUTATION_MIN_SCORE=50''],
     tw_run := (\<lambda>n argv. Exited 0 ''/go'' (if n = 2 then [(package_report_path 0, Some ''{}'')] else []))\<rparr>"

theorem mutation_gate_witness:
  "\<exists>v. run_mutation sample_mutation mutating_tool = (0, v) \<and>
     (\<exists>r. own_report sample_mutation mutating_tool 0 r)"
proof -
  have "fst (run_mutation sample_mutation mutating_tool) = 0" by code_simp
  then obtain v where run: "run_mutation sample_mutation mutating_tool = (0, v)" by (metis prod.collapse)
  have "split_words (tenv_default mutating_tool ''MUTATION_PACKAGES'' ''.'') = [''.'']" by code_simp
  moreover have "\<exists>rs. map fst rs = split_words (tenv_default mutating_tool ''MUTATION_PACKAGES'' ''.'') \<and>
      (\<forall>i < length rs. own_report sample_mutation mutating_tool i (snd (rs ! i)))"
    using mutation_gate [OF run] by blast
  ultimately obtain rs where rs: "map fst rs = [''.'']" "\<forall>i < length rs. own_report sample_mutation mutating_tool i (snd (rs ! i))"
    by metis
  have "0 < length rs" using rs(1) by (cases rs) simp_all
  then show ?thesis using run rs(2) by blast
qed

section \<open>A score that is exactly the minimum can be below it\<close>

text \<open>57 killed mutants of 100 are a score of 57 percent, which the rounded quotient times 100 does not reach.\<close>

definition even_summary :: mutation_summary where
  "even_summary = summarize [(''.'', \<lparr>mr_total = 100, mr_killed = 57, mr_lived = 43, mr_not_viable = 0, mr_not_covered = 0,
     mr_timed_out = 0, mr_elapsed = ''1'', mr_files = []\<rparr>)]"

theorem exact_score_below_minimum:
  "\<not> meets_minimum even_summary (Finite (57, 1)) \<and> score_text 57 43 = ''57.00%''"
  by code_simp

end
