(* ===== verification/CiHelpers.thy ===== *)
theory CiHelpers
  imports BaselineCmd
begin

text \<open>
  Three commands of the CI: \<open>prepare-generated-submodules\<close> (\<open>preparesubmodules.go\<close>), \<open>ci-job-layout\<close> (\<open>joblayout.go\<close>)
  and \<open>golangci-cache-save-decision\<close> (\<open>lintcache.go\<close>). Parameters: \<open>filepath.Match\<close>, \<open>filepath.Glob\<close> and the tree that is
  walked. Standard error is not modelled.
\<close>

section \<open>Submodules that hold generated outputs\<close>

definition holds_path :: "string \<Rightarrow> string \<Rightarrow> bool" where
  "holds_path sub target \<longleftrightarrow> sub = target \<or> prefix (sub @ ''/'') target"

text \<open>The longest; of equally long ones the first.\<close>

fun longest_submodule :: "string \<Rightarrow> string list \<Rightarrow> string \<Rightarrow> string" where
  "longest_submodule best [] target = best"
| "longest_submodule best (s # ss) target =
     longest_submodule (if holds_path (path_clean s) target \<and> length best < length (path_clean s) then path_clean s else best) ss target"

definition longest_submodule_prefix :: "string list \<Rightarrow> string \<Rightarrow> string" where
  "longest_submodule_prefix subs target = longest_submodule [] subs target"

text \<open>The \<open>path =\<close> lines of a \<open>.gitmodules\<close>.\<close>

definition submodule_path :: "string \<Rightarrow> string option" where
  "submodule_path line =
     (let l = trim_space line in
      if \<not> prefix ''path'' l then None
      else (let v = trim_space (drop 4 l) in
            if \<not> prefix ''='' v then None
            else (let p = trim_space (drop 1 v) in if p = [] then None else Some p)))"

definition list_submodules :: "string \<Rightarrow> tool_world \<Rightarrow> (tool_error, string list) result \<times> tool_world" where
  "list_submodules dir w =
     (let path = path_join [dir, ''.gitmodules''] in
      case t_read path w of
        (NoFile, w) \<Rightarrow> (Inr [], w)
      | (Unreadable, w) \<Rightarrow> (Inl (FileError path), w)
      | (Content s, w) \<Rightarrow>
          (case scan_lines s of None \<Rightarrow> Inl (FileError path) | Some ls \<Rightarrow> Inr (List.map_filter submodule_path ls), w))"

definition init_command :: "string \<Rightarrow> string \<Rightarrow> string list" where
  "init_command parent sub =
     [''git''] @ (if parent = [] then [] else [''-C'', parent]) @ [''submodule'', ''update'', ''--init'', ''--'', sub]"

definition init_submodule :: "string \<Rightarrow> string \<Rightarrow> tool_world \<Rightarrow> (tool_error, unit) result \<times> tool_world" where
  "init_submodule parent sub w = run_command (tw_environ w) (init_command parent sub) w"

text \<open>What is left of the path below the submodule.\<close>

definition below_submodule :: "string \<Rightarrow> string \<Rightarrow> string" where
  "below_submodule sub target = trim_prefix (drop (length sub) target) ''/''"

lemma longest_submodule_cases:
  "longest_submodule best ss target = best \<or> (\<exists>s \<in> set ss. longest_submodule best ss target = path_clean s) \<and>
     holds_path (longest_submodule best ss target) target"
proof (induction ss arbitrary: best)
  case (Cons s ss)
  show ?case
  proof (cases "holds_path (path_clean s) target \<and> length best < length (path_clean s)")
    case True
    then show ?thesis using Cons.IH [of "path_clean s"] by auto
  next
    case False
    then show ?thesis using Cons.IH [of best] by auto
  qed
qed simp

lemma longest_submodule_prefix_holds:
  "longest_submodule_prefix ss target \<noteq> [] \<Longrightarrow> holds_path (longest_submodule_prefix ss target) target"
  using longest_submodule_cases [of "[]" ss target] by (auto simp: longest_submodule_prefix_def)

lemma below_shorter:
  "holds_path sub target \<Longrightarrow> sub \<noteq> [] \<Longrightarrow> length (below_submodule sub target) < length target"
  by (cases sub) (auto simp: holds_path_def below_submodule_def trim_prefix_def prefix_def split: if_splits)

text \<open>The submodules one output goes through, from the outermost.\<close>

function (sequential) descend_output ::
  "string \<Rightarrow> string \<Rightarrow> string list \<Rightarrow> tool_world \<Rightarrow> (tool_error, string list) result \<times> tool_world" where
  "descend_output parent target seen w =
     (case list_submodules parent w of
        (Inl e, w) \<Rightarrow> (Inl e, w)
      | (Inr subs, w) \<Rightarrow>
          (let sub = longest_submodule_prefix subs target; full = path_join [parent, sub] in
           if sub = [] then (Inr seen, w)
           else if full \<in> set seen then descend_output full (below_submodule sub target) seen w
           else (case init_submodule parent sub w of
                   (Inl e, w) \<Rightarrow> (Inl e, w)
                 | (Inr _, w) \<Rightarrow> descend_output full (below_submodule sub target) (full # seen) w)))"
  by pat_completeness auto
termination
  by (relation "measure (\<lambda>(parent, target, seen, w). length target)")
    (auto intro: below_shorter longest_submodule_prefix_holds)

declare descend_output.simps [simp del]

fun prepare_submodules :: "string list \<Rightarrow> string list \<Rightarrow> tool_world \<Rightarrow> (tool_error, unit) result \<times> tool_world" where
  "prepare_submodules [] seen w = (Inr (), w)"
| "prepare_submodules (o1 # os) seen w =
     (let target = path_clean (trim_space o1) in
      if target = [] \<or> target = ''.'' then prepare_submodules os seen w
      else (case descend_output [] target seen w of
              (Inl e, w) \<Rightarrow> (Inl e, w) | (Inr seen, w) \<Rightarrow> prepare_submodules os seen w))"

definition run_prepare_submodules :: "tool_world \<Rightarrow> (tool_error, unit) result \<times> tool_world" where
  "run_prepare_submodules w = prepare_submodules (str_fields (tenv w ''GO_MK_GENERATE_OUTPUTS'')) [] w"

section \<open>The job layout\<close>

record ci_job =
  cj_name :: string
  cj_command :: string
  cj_secondary :: string
  cj_continue :: bool
  cj_install :: bool
  cj_cache_slug :: string

definition plain_job :: "string \<Rightarrow> string \<Rightarrow> ci_job" where
  "plain_job name command =
     \<lparr>cj_name = name, cj_command = command, cj_secondary = [], cj_continue = False, cj_install = False, cj_cache_slug = []\<rparr>"

definition parallel_jobs :: "ci_job list" where
  "parallel_jobs =
     [plain_job ''Quality / Vet'' ''make vet'', plain_job ''Quality / Test'' ''make test'',
      (plain_job ''Quality / Golangci Lint'' ''make lint-golangci'')\<lparr>cj_install := True, cj_cache_slug := ''golangci''\<rparr>,
      (plain_job ''Quality / Format'' ''make lint-format'')\<lparr>cj_install := True\<rparr>,
      plain_job ''Quality / Gocyclo'' ''make lint-gocyclo'',
      (plain_job ''Quality / Deadcode'' ''make lint-deadcode'')\<lparr>cj_continue := True\<rparr>,
      plain_job ''Quality / Staticcheck Extra'' ''make staticcheck-extra'',
      (plain_job ''Quality / Govulncheck'' ''make govulncheck'')\<lparr>cj_continue := True\<rparr>,
      plain_job ''Quality / Go Version'' ''make go-version-check'']"

definition split_jobs :: "ci_job list" where
  "split_jobs =
     [plain_job ''Test'' ''make test'',
      (plain_job ''Quality'' ''make build-check'')\<lparr>cj_install := True, cj_cache_slug := ''golangci''\<rparr>]"

definition single_jobs :: "ci_job list" where
  "single_jobs =
     [(plain_job ''Checks'' ''make build-check'')\<lparr>cj_secondary := ''make test'', cj_install := True, cj_cache_slug := ''golangci''\<rparr>]"

definition build_job_layout :: "string \<Rightarrow> ci_job list option" where
  "build_job_layout layout =
     (if layout = ''parallel'' then Some parallel_jobs else if layout = ''split'' then Some split_jobs
      else if layout = ''single'' then Some single_jobs else None)"

text \<open>\<open>json.Marshal\<close> of the matrix; no text in it needs an escape.\<close>

definition json_quote :: "string \<Rightarrow> string" where "json_quote s = [CHR 0x22] @ s @ [CHR 0x22]"
definition json_bool :: "bool \<Rightarrow> string" where "json_bool b = (if b then ''true'' else ''false'')"

definition job_json :: "ci_job \<Rightarrow> string" where
  "job_json j =
     ''{'' @ str_join '',''
       [json_quote ''name'' @ '':'' @ json_quote (cj_name j), json_quote ''command'' @ '':'' @ json_quote (cj_command j),
        json_quote ''secondary_command'' @ '':'' @ json_quote (cj_secondary j),
        json_quote ''continue_on_error'' @ '':'' @ json_bool (cj_continue j),
        json_quote ''install_golangci_lint'' @ '':'' @ json_bool (cj_install j),
        json_quote ''lint_cache_slug'' @ '':'' @ json_quote (cj_cache_slug j)] @ ''}''"

definition matrix_json :: "ci_job list \<Rightarrow> string" where
  "matrix_json js = ''{'' @ json_quote ''include'' @ '':['' @ str_join '','' (map job_json js) @ '']}''"

text \<open>Opening creates the file, and the write appends to it.\<close>

definition append_github_output :: "string \<Rightarrow> tool_world \<Rightarrow> int \<times> tool_world" where
  "append_github_output line w =
     (let path = tenv w ''GITHUB_OUTPUT'' in
      if path = [] then (1, w)
      else (case t_append path [] w of
              (False, w) \<Rightarrow> (1, w)
            | (True, w) \<Rightarrow> (case t_append path (line @ newline) w of (ok, w) \<Rightarrow> (if ok then 0 else 1, w))))"

definition run_job_layout :: "tool_world \<Rightarrow> int \<times> tool_world" where
  "run_job_layout w =
     (case build_job_layout (tenv w ''GO_MK_JOB_LAYOUT'') of
        None \<Rightarrow> (1, w) | Some js \<Rightarrow> append_github_output (''matrix='' @ matrix_json js) w)"

section \<open>Whether to save the lint cache\<close>

record lint_cache_env =
  le_match :: "string \<Rightarrow> string \<Rightarrow> bool option"
  le_glob :: "tool_world \<Rightarrow> string \<Rightarrow> string list option"
  le_tree :: "tool_world \<Rightarrow> string \<Rightarrow> tree option"
  le_stat_dir :: "tool_world \<Rightarrow> string \<Rightarrow> bool"

fun match_parts :: "lint_cache_env \<Rightarrow> string list \<Rightarrow> string list \<Rightarrow> bool option" where
  "match_parts le (p # ps) (x # xs) =
     (case le_match le p x of None \<Rightarrow> None | Some False \<Rightarrow> Some False | Some True \<Rightarrow> match_parts le ps xs)"
| "match_parts le ps xs = Some True"

definition path_matches_suffix :: "lint_cache_env \<Rightarrow> string \<Rightarrow> string \<Rightarrow> bool option" where
  "path_matches_suffix le path pattern =
     (let parts = split_on slash (path_clean path); wanted = split_on slash (path_clean pattern) in
      if length parts < length wanted then Some False
      else match_parts le wanted (drop (length parts - length wanted) parts))"

text \<open>A visit of a directory that cannot be read, or a pattern that is not valid, ends the walk.\<close>

definition cache_visitor :: "lint_cache_env \<Rightarrow> string \<Rightarrow> (string list) visitor" where
  "cache_visitor le pattern path is_dir name failed found =
     (if failed then (WalkFailed, found)
      else if \<not> is_dir then (Proceed, found)
      else (case path_matches_suffix le path pattern of
              None \<Rightarrow> (WalkFailed, found)
            | Some b \<Rightarrow> (Proceed, if b then found @ [path] else found)))"

definition any_depth :: string where "any_depth = ''/**/''"

definition expand_cache_pattern :: "lint_cache_env \<Rightarrow> tool_world \<Rightarrow> string \<Rightarrow> string list option" where
  "expand_cache_pattern le w pattern =
     (case str_cut pattern any_depth of
        None \<Rightarrow> le_glob le w pattern
      | Some (root, rest) \<Rightarrow>
          (case le_tree le w root of None \<Rightarrow> Some [] | Some t \<Rightarrow> walk_dir (cache_visitor le rest) root t []))"

fun cache_directories :: "lint_cache_env \<Rightarrow> tool_world \<Rightarrow> string list \<Rightarrow> string list \<Rightarrow> string list option" where
  "cache_directories le w [] found = Some found"
| "cache_directories le w (l # ls) found =
     (let pattern = trim_suffix l [CHR 0x0D] in
      if pattern = [] then cache_directories le w ls found
      else (case expand_cache_pattern le w pattern of
              None \<Rightarrow> None
            | Some ms \<Rightarrow> cache_directories le w ls (found @ keep_first id (set found) (filter (le_stat_dir le w) ms))))"

definition should_verify :: "tool_world \<Rightarrow> bool" where
  "should_verify w \<longleftrightarrow>
     tenv w ''GO_MK_CI_PRIMARY_OUTCOME'' = ''success'' \<or>
     tenv w ''GO_MK_CI_PRIMARY_COMMAND'' = ''make build-check'' \<and> tenv w ''GO_MK_CI_PRIMARY_OUTCOME'' = ''failure'' \<and>
       tenv w ''GO_MK_CI_GOLANGCI_RAN'' = ''true''"

definition run_cache_save_decision :: "lint_cache_env \<Rightarrow> tool_world \<Rightarrow> int \<times> tool_world" where
  "run_cache_save_decision le w =
     (if tenv w ''GO_MK_CI_LINT_CACHE_HIT'' = ''true'' \<or> \<not> should_verify w then append_github_output ''save=false'' w
      else (case cache_directories le w (split_on (CHR 0x0A) (tenv w ''GO_MK_CI_LINT_CACHE_PATHS'')) [] of
              None \<Rightarrow> (1, w)
            | Some [] \<Rightarrow> (1, w)
            | Some ds \<Rightarrow>
                append_github_output ''save=true''
                  (t_print (concat (map (\<lambda>d. ''golangci-lint cache: '' @ d @ newline) ds)) w)))"

section \<open>Only submodules on the way to an output, outermost first, each once\<close>

fun ordered_steps :: "string list \<Rightarrow> (string \<times> string) list \<Rightarrow> bool" where
  "ordered_steps seen [] \<longleftrightarrow> True"
| "ordered_steps seen ((parent, sub) # steps) \<longleftrightarrow>
     (parent = [] \<or> parent \<in> set seen) \<and> path_join [parent, sub] \<notin> set seen \<and> ordered_steps (path_join [parent, sub] # seen) steps"

abbreviation full_path :: "string \<times> string \<Rightarrow> string" where
  "full_path \<equiv> \<lambda>(parent, sub). path_join [parent, sub]"

abbreviation step_command :: "string \<times> string \<Rightarrow> string list" where
  "step_command \<equiv> \<lambda>(parent, sub). init_command parent sub"

text \<open>The submodule lies below \<open>start\<close> on the way along \<open>target\<close>, through the submodules \<open>ms\<close>.\<close>

definition on_the_way :: "string \<Rightarrow> string \<Rightarrow> string \<times> string \<Rightarrow> bool" where
  "on_the_way start target step \<longleftrightarrow>
     snd step \<noteq> [] \<and>
     (\<exists>ms. fst step = foldl (\<lambda>p m. path_join [p, m]) start ms \<and> holds_path (str_join ''/'' (ms @ [snd step])) target)"

lemma ordered_steps_append:
  "ordered_steps seen (xs @ ys) \<longleftrightarrow> ordered_steps seen xs \<and> ordered_steps (rev (map full_path xs) @ seen) ys"
  by (induction seen xs rule: ordered_steps.induct) auto

lemma list_submodules_ran: "list_submodules dir w = (r, v) \<Longrightarrow> tw_ran v = tw_ran w"
  by (auto simp: list_submodules_def Let_def t_read_def t_tick_def split: prod.splits file_read.splits option.splits if_splits)

lemma init_submodule_ran: "init_submodule parent sub w = (r, v) \<Longrightarrow> map snd (tw_ran v) = map snd (tw_ran w) @ [init_command parent sub]"
  by (auto simp: init_submodule_def run_command_def t_exec_def t_print_def t_tick_def Let_def split: cmd_outcome.splits if_splits)

lemma str_join_Cons: "xs \<noteq> [] \<Longrightarrow> str_join sep (x # xs) = x @ sep @ str_join sep xs"
  by (cases xs) simp_all

lemma below_split:
  "holds_path sub target \<Longrightarrow> below_submodule sub target \<noteq> [] \<Longrightarrow> target = sub @ ''/'' @ below_submodule sub target"
  by (auto simp: holds_path_def below_submodule_def trim_prefix_def prefix_def split: if_splits)

lemma on_the_way_below:
  assumes "on_the_way (path_join [parent, sub]) (below_submodule sub target) step" "holds_path sub target"
  shows "on_the_way parent target step"
proof -
  let ?rest = "below_submodule sub target"
  obtain ms where ms: "fst step = foldl (\<lambda>p m. path_join [p, m]) (path_join [parent, sub]) ms"
      "holds_path (str_join ''/'' (ms @ [snd step])) ?rest" "snd step \<noteq> []"
    using assms(1) unfolding on_the_way_def by blast
  have "str_join ''/'' (ms @ [snd step]) \<noteq> []" using ms(3) by (cases ms) (simp_all add: str_join_Cons)
  then have "?rest \<noteq> []" using ms(2) by (auto simp: holds_path_def)
  then have "target = sub @ ''/'' @ ?rest" using below_split assms(2) by blast
  then have "holds_path (str_join ''/'' (sub # ms @ [snd step])) target"
    using ms(2) by (auto simp: holds_path_def str_join_Cons prefix_def)
  then show ?thesis using ms unfolding on_the_way_def by (intro conjI exI [of _ "sub # ms"]) simp_all
qed

lemma on_the_way_here: "holds_path sub target \<Longrightarrow> sub \<noteq> [] \<Longrightarrow> on_the_way parent target (parent, sub)"
  unfolding on_the_way_def by (intro conjI exI [of _ "[]"]) simp_all

lemma descend_output_steps:
  assumes "descend_output parent target seen w = (r, v)" "parent = [] \<or> parent \<in> set seen"
  shows "\<exists>steps. map snd (tw_ran v) = map snd (tw_ran w) @ map step_command steps \<and> ordered_steps seen steps \<and>
    (\<forall>step \<in> set steps. on_the_way parent target step) \<and> (\<forall>s. r = Inr s \<longrightarrow> s = rev (map full_path steps) @ seen)"
  using assms
proof (induction parent target seen w rule: descend_output.induct)
  case (1 parent target seen w)
  obtain l u where l: "list_submodules parent w = (l, u)" by fastforce
  have ran: "tw_ran u = tw_ran w" using list_submodules_ran [OF l] .
  show ?case
  proof (cases l)
    case (Inl e)
    then show ?thesis using "1.prems"(1) l ran by (intro exI [of _ "[]"]) (auto simp: descend_output.simps [of parent])
  next
    case (Inr subs)
    let ?sub = "longest_submodule_prefix subs target"
    let ?full = "path_join [parent, ?sub]"
    let ?rest = "below_submodule ?sub target"
    show ?thesis
    proof (cases "?sub = []")
      case True
      then show ?thesis using "1.prems"(1) l ran Inr by (intro exI [of _ "[]"]) (auto simp: descend_output.simps [of parent] Let_def)
    next
      case sub: False
      note holds = longest_submodule_prefix_holds [OF sub]
      show ?thesis
      proof (cases "?full \<in> set seen")
        case True
        then have "descend_output ?full ?rest seen u = (r, v)"
          using "1.prems"(1) l Inr sub by (simp add: descend_output.simps [of parent] Let_def)
        then obtain steps where "map snd (tw_ran v) = map snd (tw_ran u) @ map step_command steps" "ordered_steps seen steps"
            "\<forall>step \<in> set steps. on_the_way ?full ?rest step" "\<forall>s. r = Inr s \<longrightarrow> s = rev (map full_path steps) @ seen"
          using "1.IH"(1) [OF l [symmetric] Inr refl refl sub True] True by blast
        then show ?thesis using ran on_the_way_below holds by metis
      next
        case False
        obtain i u2 where i: "init_submodule parent ?sub u = (i, u2)" by fastforce
        note cmd = init_submodule_ran [OF i]
        have here: "ordered_steps seen [(parent, ?sub)]" using "1.prems"(2) False by simp
        show ?thesis
        proof (cases i)
          case (Inl e)
          then show ?thesis
            using "1.prems"(1) l Inr sub False i cmd ran here on_the_way_here [OF holds sub]
            by (intro exI [of _ "[(parent, ?sub)]"]) (auto simp: descend_output.simps [of parent] Let_def)
        next
          case (Inr x)
          then have "descend_output ?full ?rest (?full # seen) u2 = (r, v)"
            using "1.prems"(1) l \<open>l = Inr subs\<close> sub False i by (simp add: descend_output.simps [of parent] Let_def)
          then obtain steps where "map snd (tw_ran v) = map snd (tw_ran u2) @ map step_command steps" "ordered_steps (?full # seen) steps"
              "\<forall>step \<in> set steps. on_the_way ?full ?rest step" "\<forall>s. r = Inr s \<longrightarrow> s = rev (map full_path steps) @ ?full # seen"
            using "1.IH"(2) [OF l [symmetric] \<open>l = Inr subs\<close> refl refl sub False i [symmetric] Inr] by fastforce
          then show ?thesis using ran cmd here on_the_way_below [OF _ holds] on_the_way_here [OF holds sub]
            by (intro exI [of _ "(parent, ?sub) # steps"]) auto
        qed
      qed
    qed
  qed
qed

lemma prepare_submodules_steps:
  assumes "prepare_submodules os seen w = (r, v)"
  shows "\<exists>steps. map snd (tw_ran v) = map snd (tw_ran w) @ map step_command steps \<and> ordered_steps seen steps \<and>
    (\<forall>step \<in> set steps. \<exists>out \<in> set os. on_the_way [] (path_clean (trim_space out)) step)"
  using assms
proof (induction os seen w rule: prepare_submodules.induct)
  case (1 seen w)
  then show ?case by (intro exI [of _ "[]"]) simp
next
  case (2 out os seen w)
  let ?target = "path_clean (trim_space out)"
  show ?case
  proof (cases "?target = [] \<or> ?target = ''.''")
    case True
    then show ?thesis using "2.IH"(1) [OF refl] "2.prems" by auto
  next
    case False
    obtain d u where d: "descend_output [] ?target seen w = (d, u)" by fastforce
    obtain steps where steps: "map snd (tw_ran u) = map snd (tw_ran w) @ map step_command steps" "ordered_steps seen steps"
        "\<forall>step \<in> set steps. on_the_way [] ?target step" "\<forall>s. d = Inr s \<longrightarrow> s = rev (map full_path steps) @ seen"
      using descend_output_steps [OF d] by blast
    show ?thesis
    proof (cases d)
      case (Inl e)
      then have "v = u" using "2.prems" d False by (simp add: Let_def)
      then show ?thesis using steps by auto
    next
      case (Inr s)
      then have "prepare_submodules os s u = (r, v)" using "2.prems" d False by (simp add: Let_def)
      then obtain more where "map snd (tw_ran v) = map snd (tw_ran u) @ map step_command more" "ordered_steps s more"
          "\<forall>step \<in> set more. \<exists>out \<in> set os. on_the_way [] (path_clean (trim_space out)) step"
        using "2.IH"(2) [OF refl False d [symmetric] Inr] by blast
      then show ?thesis using steps Inr by (intro exI [of _ "steps @ more"]) (auto simp: ordered_steps_append)
    qed
  qed
qed

text \<open>
  C32. \<open>prepare-generated-submodules\<close> initialises only submodules that a declared output lies in, each at most once, and a
  nested one after the one that holds it, also when a command fails on the way.
\<close>

theorem only_output_submodules:
  "\<exists>steps. map snd (tw_ran (snd (run_prepare_submodules w))) = map snd (tw_ran w) @ map step_command steps \<and>
     ordered_steps [] steps \<and>
     set steps \<subseteq>
       {step. \<exists>out \<in> set (str_fields (tenv w ''GO_MK_GENERATE_OUTPUTS'')). on_the_way [] (path_clean (trim_space out)) step}"
proof -
  let ?outs = "str_fields (tenv w ''GO_MK_GENERATE_OUTPUTS'')"
  obtain r v where rv: "prepare_submodules ?outs [] w = (r, v)" by fastforce
  show ?thesis using prepare_submodules_steps [OF rv] rv unfolding run_prepare_submodules_def by auto
qed

end
