(* ===== verification/GoFlag.thy ===== *)
theory GoFlag
  imports GoPrelude
begin

text \<open>
  Go's \<open>flag\<close> package as the commands use it: a set of flags with their kinds, parsed from the arguments, and the values
  read from it. An argument that stops the parse with an error is \<open>None\<close>.
\<close>

section \<open>Flags\<close>

text \<open>\<open>flag.FlagSet.Parse\<close>: a flag takes no value, or one that its type accepts.\<close>

datatype flag_kind = BoolFlag | ValueFlag "string \<Rightarrow> bool"

definition parse_bool :: "string \<Rightarrow> bool option" where
  "parse_bool s =
     (if s \<in> {''1'', ''t'', ''T'', ''TRUE'', ''true'', ''True''} then Some True
      else if s \<in> {''0'', ''f'', ''F'', ''FALSE'', ''false'', ''False''} then Some False else None)"

text \<open>A name and the value behind the first equals sign that does not start it.\<close>

definition flag_parts :: "string \<Rightarrow> string \<times> string option" where
  "flag_parts s =
     (case str_cut (tl s) ''='' of None \<Rightarrow> (s, None) | Some (n, v) \<Rightarrow> (hd s # n, Some v))"

definition flag_name :: "string \<Rightarrow> string" where
  "flag_name s = drop (if prefix ''--'' s then 2 else 1) s"

definition add_flag :: "string \<Rightarrow> string \<Rightarrow> ((string \<times> string) list \<times> string list) option \<Rightarrow>
    ((string \<times> string) list \<times> string list) option" where
  "add_flag n v r = map_option (\<lambda>(fs, rest). ((n, v) # fs, rest)) r"

fun parse_flags :: "(string \<Rightarrow> flag_kind option) \<Rightarrow> string list \<Rightarrow> ((string \<times> string) list \<times> string list) option" where
  "parse_flags kinds [] = Some ([], [])"
| "parse_flags kinds (s # args) =
     (if length s < 2 \<or> hd s \<noteq> CHR ''-'' then Some ([], s # args)
      else if s = ''--'' then Some ([], args)
      else if flag_name s = [] \<or> hd (flag_name s) \<in> {CHR ''-'', CHR ''=''} then None
      else (case flag_parts (flag_name s) of (n, v) \<Rightarrow>
        (case kinds n of
           None \<Rightarrow> None
         | Some BoolFlag \<Rightarrow>
             (case v of
                None \<Rightarrow> add_flag n ''true'' (parse_flags kinds args)
              | Some x \<Rightarrow> if parse_bool x = None then None else add_flag n x (parse_flags kinds args))
         | Some (ValueFlag ok) \<Rightarrow>
             (case v of
                Some x \<Rightarrow> if ok x then add_flag n x (parse_flags kinds args) else None
              | None \<Rightarrow> (case args of [] \<Rightarrow> None | x # rest \<Rightarrow> if ok x then add_flag n x (parse_flags kinds rest) else None)))))"

text \<open>The last value given counts.\<close>

definition flag_value :: "(string \<times> string) list \<Rightarrow> string \<Rightarrow> string \<Rightarrow> string" where
  "flag_value fs n fallback = (case map_of (rev fs) n of None \<Rightarrow> fallback | Some v \<Rightarrow> v)"

definition bool_flag :: "(string \<times> string) list \<Rightarrow> string \<Rightarrow> bool" where
  "bool_flag fs n \<longleftrightarrow> parse_bool (flag_value fs n ''false'') = Some True"

definition any_text :: "string \<Rightarrow> bool" where "any_text s \<longleftrightarrow> True"

end
