(* ===== verification/Service.thy ===== *)
theory Service
  imports BaselineCmd
begin

text \<open>
  User services of the self updater (\<open>selfupdate/service.go\<close>): the launchd property list and the systemd unit, and their
  installation. Parameters: the user, the random part of a temporary name. The writer for messages is there or not. A
  string is valid UTF-8 without the code points XML forbids above the ASCII range; modes of files are not modelled.
\<close>

section \<open>Options\<close>

record environment_pair =
  ep_name :: string
  ep_value :: string

record launchd_options =
  lo_label :: string
  lo_program :: string
  lo_arguments :: "string list"
  lo_plist :: string
  lo_log :: string
  lo_environment :: "environment_pair list"
  lo_run_at_load :: bool
  lo_keep_alive :: bool
  lo_domain :: string
  lo_stdout :: bool

record systemd_options =
  sy_unit :: string
  sy_program :: string
  sy_arguments :: "string list"
  sy_unit_path :: string
  sy_description :: string
  sy_documentation :: string
  sy_restart :: string
  sy_restart_sec :: string
  sy_environment :: "environment_pair list"
  sy_stdout :: bool

datatype service_error =
  OptionMissing string | BadEnvironmentEntry | NewlineInOption string | ServiceFileError string | ProcessFailed "string list"

fun parse_environment_pairs :: "string list \<Rightarrow> (service_error, environment_pair list) result" where
  "parse_environment_pairs [] = Inr []"
| "parse_environment_pairs (e # es) =
     (case str_cut e ''='' of
        None \<Rightarrow> Inl BadEnvironmentEntry
      | Some (k, v) \<Rightarrow>
          if trim_space k = [] then Inl BadEnvironmentEntry
          else map_sum id (\<lambda>ps. \<lparr>ep_name = trim_space k, ep_value = v\<rparr> # ps) (parse_environment_pairs es))"

definition validate_environment_pairs :: "environment_pair list \<Rightarrow> (service_error, unit) result" where
  "validate_environment_pairs ps =
     (if list_ex (\<lambda>p. blank (ep_name p) \<or> str_contains (ep_name p) ''='') ps then Inl BadEnvironmentEntry else Inr ())"

definition validate_launchd_options :: "launchd_options \<Rightarrow> (service_error, unit) result" where
  "validate_launchd_options lo =
     (if blank (lo_label lo) then Inl (OptionMissing ''label'')
      else if blank (lo_program lo) then Inl (OptionMissing ''program path'')
      else if blank (lo_plist lo) then Inl (OptionMissing ''plist path'')
      else if blank (lo_log lo) then Inl (OptionMissing ''log path'')
      else validate_environment_pairs (lo_environment lo))"

definition validate_systemd_options :: "systemd_options \<Rightarrow> (service_error, unit) result" where
  "validate_systemd_options so =
     (if blank (sy_unit so) then Inl (OptionMissing ''unit'')
      else if blank (sy_program so) then Inl (OptionMissing ''program path'')
      else if blank (sy_unit_path so) then Inl (OptionMissing ''unit path'')
      else validate_environment_pairs (sy_environment so))"

section \<open>The property list\<close>

text \<open>\<open>xml.EscapeText\<close>: a control character XML does not allow becomes the replacement character.\<close>

definition xml_char :: "char \<Rightarrow> string" where
  "xml_char c =
     (if c = CHR 0x22 then ''&#34;'' else if c = CHR 0x27 then ''&#39;'' else if c = CHR ''&'' then ''&amp;''
      else if c = CHR ''<'' then ''&lt;'' else if c = CHR ''>'' then ''&gt;'' else if c = CHR 0x09 then ''&#x9;''
      else if c = CHR 0x0A then ''&#xA;'' else if c = CHR 0x0D then ''&#xD;''
      else if (of_char c :: nat) < 32 then [CHR 0xEF, CHR 0xBF, CHR 0xBD] else [c])"

definition xml_escape :: "string \<Rightarrow> string" where
  "xml_escape s = concat (map xml_char s)"

definition plist_string :: "string \<Rightarrow> string \<Rightarrow> string" where
  "plist_string key v =
     ''    <key>'' @ xml_escape key @ ''</key>'' @ newline @ ''    <string>'' @ xml_escape v @ ''</string>'' @ newline"

definition plist_bool :: "string \<Rightarrow> bool \<Rightarrow> string" where
  "plist_bool key v =
     ''    <key>'' @ xml_escape key @ ''</key>'' @ newline @ (if v then ''    <true/>'' else ''    <false/>'') @ newline"

definition plist_argument :: "string \<Rightarrow> string" where
  "plist_argument a = ''        <string>'' @ xml_escape a @ ''</string>'' @ newline"

definition plist_header :: string where
  "plist_header =
     ''<?xml version='' @ [CHR 0x22] @ ''1.0'' @ [CHR 0x22] @ '' encoding='' @ [CHR 0x22] @ ''UTF-8'' @ [CHR 0x22] @ ''?>'' @ newline @
     ''<!DOCTYPE plist PUBLIC '' @ [CHR 0x22] @ ''-//Apple//DTD PLIST 1.0//EN'' @ [CHR 0x22] @ '' '' @
     [CHR 0x22] @ ''http://www.apple.com/DTDs/PropertyList-1.0.dtd'' @ [CHR 0x22] @ ''>'' @ newline @
     ''<plist version='' @ [CHR 0x22] @ ''1.0'' @ [CHR 0x22] @ ''>'' @ newline @ ''<dict>'' @ newline"

definition render_launchd_plist :: "launchd_options \<Rightarrow> (service_error, string) result" where
  "render_launchd_plist lo =
     (case validate_environment_pairs (lo_environment lo) of
        Inl e \<Rightarrow> Inl e
      | Inr _ \<Rightarrow> Inr (plist_header @ plist_string ''Label'' (lo_label lo) @
          ''    <key>ProgramArguments</key>'' @ newline @ ''    <array>'' @ newline @
          plist_argument (lo_program lo) @ concat (map plist_argument (lo_arguments lo)) @ ''    </array>'' @ newline @
          plist_string ''StandardOutPath'' (lo_log lo) @ plist_string ''StandardErrorPath'' (lo_log lo) @
          plist_bool ''RunAtLoad'' (lo_run_at_load lo) @ plist_bool ''KeepAlive'' (lo_keep_alive lo) @
          (if lo_environment lo = [] then []
           else ''    <key>EnvironmentVariables</key>'' @ newline @ ''    <dict>'' @ newline @
             concat (map (\<lambda>p. plist_string (ep_name p) (ep_value p)) (lo_environment lo)) @ ''    </dict>'' @ newline) @
          ''</dict>'' @ newline @ ''</plist>'' @ newline))"

section \<open>The unit\<close>

definition systemd_char :: "char \<Rightarrow> string" where
  "systemd_char c = (if c = CHR 0x5C \<or> c = CHR 0x22 then [CHR 0x5C, c] else [c])"

text \<open>Backslashes are replaced first, so that those the quotes get are not doubled.\<close>

definition systemd_escape :: "string \<Rightarrow> string" where
  "systemd_escape s = concat (map systemd_char s)"

definition needs_quotes :: "string \<Rightarrow> bool" where
  "needs_quotes s \<longleftrightarrow> list_ex (\<lambda>c. c \<in> {CHR '' '', CHR 0x09, CHR 0x0A, CHR 0x22, CHR 0x5C}) s"

definition quote_command_part :: "string \<Rightarrow> string" where
  "quote_command_part s =
     (if s = [] then [CHR 0x22, CHR 0x22]
      else if \<not> needs_quotes s then s else [CHR 0x22] @ systemd_escape s @ [CHR 0x22])"

definition systemd_command_line :: "string \<Rightarrow> string list \<Rightarrow> string" where
  "systemd_command_line program args = str_join '' '' (map quote_command_part (program # args))"

definition has_line_break :: "string \<Rightarrow> bool" where
  "has_line_break s \<longleftrightarrow> CHR 0x0D \<in> set s \<or> CHR 0x0A \<in> set s"

definition unit_description :: "systemd_options \<Rightarrow> string" where
  "unit_description so = (if sy_description so = [] then trim_suffix (sy_unit so) ''.service'' else sy_description so)"

definition broken_option :: "systemd_options \<Rightarrow> string option" where
  "broken_option so =
     map_option fst (find (\<lambda>(name, v). has_line_break v)
       [(''description'', unit_description so), (''documentation'', sy_documentation so), (''restart'', sy_restart so),
        (''restart-sec'', sy_restart_sec so)])"

definition environment_line :: "environment_pair \<Rightarrow> string" where
  "environment_line p = ''Environment='' @ [CHR 0x22] @ systemd_escape (ep_name p @ ''='' @ ep_value p) @ [CHR 0x22]"

text \<open>The lines of the unit, in order.\<close>

definition unit_lines :: "systemd_options \<Rightarrow> string list" where
  "unit_lines so =
     [''[Unit]'', ''Description='' @ unit_description so] @
     (if sy_documentation so = [] then [] else [''Documentation='' @ sy_documentation so]) @
     [[], ''[Service]'', ''ExecStart='' @ systemd_command_line (sy_program so) (sy_arguments so)] @
     (if sy_restart so = [] then [] else [''Restart='' @ sy_restart so]) @
     (if sy_restart_sec so = [] then [] else [''RestartSec='' @ sy_restart_sec so]) @
     map environment_line (sy_environment so) @ [[], ''[Install]'', ''WantedBy=default.target'']"

definition render_systemd_unit :: "systemd_options \<Rightarrow> (service_error, string) result" where
  "render_systemd_unit so =
     (case validate_environment_pairs (sy_environment so) of
        Inl e \<Rightarrow> Inl e
      | Inr _ \<Rightarrow>
          (case broken_option so of
             Some name \<Rightarrow> Inl (NewlineInOption name)
           | None \<Rightarrow> Inr (concat (map (\<lambda>l. l @ newline) (unit_lines so)))))"

section \<open>Installation\<close>

record service_env =
  se_user :: int
  se_suffix :: "tool_world \<Rightarrow> string"

type_synonym 'a service_step = "tool_world \<Rightarrow> (service_error, 'a) result \<times> tool_world"

definition service_bind :: "'a service_step \<Rightarrow> ('a \<Rightarrow> 'b service_step) \<Rightarrow> 'b service_step" where
  "service_bind m f w = (case m w of (Inl e, w) \<Rightarrow> (Inl e, w) | (Inr a, w) \<Rightarrow> f a w)"

definition s_lift :: "(service_error, 'a) result \<Rightarrow> 'a service_step" where "s_lift r w = (r, w)"

definition s_call :: "string \<Rightarrow> (tool_world \<Rightarrow> bool \<times> tool_world) \<Rightarrow> unit service_step" where
  "s_call path f w = (case f w of (ok, w) \<Rightarrow> (if ok then Inr () else Inl (ServiceFileError path), w))"

definition run_service_process :: "string list \<Rightarrow> unit service_step" where
  "run_service_process argv w =
     (case t_exec (tw_environ w) argv w of
        (NotStarted, w) \<Rightarrow> (Inl (ProcessFailed argv), w)
      | (Exited status out ws, w) \<Rightarrow> (if status = 0 then Inr () else Inl (ProcessFailed argv), w))"

text \<open>A process whose failure is an answer, or ignored.\<close>

definition process_ok :: "string list \<Rightarrow> tool_world \<Rightarrow> bool \<times> tool_world" where
  "process_ok argv w = (case run_service_process argv w of (r, w) \<Rightarrow> (\<not> isl r, w))"

definition launchd_loaded :: "string \<Rightarrow> string \<Rightarrow> tool_world \<Rightarrow> bool \<times> tool_world" where
  "launchd_loaded domain label = process_ok [''launchctl'', ''print'', domain @ ''/'' @ label]"

definition systemd_active :: "string \<Rightarrow> tool_world \<Rightarrow> bool \<times> tool_world" where
  "systemd_active unit = process_ok [''systemctl'', ''--user'', ''is-active'', unit]"

definition service_temp :: "service_env \<Rightarrow> string \<Rightarrow> tool_world \<Rightarrow> string" where
  "service_temp se path w = path_join [path_dir path, ''.'' @ path_base path @ ''.'' @ se_suffix se w]"

definition drop_service_temp :: "string \<Rightarrow> tool_world \<Rightarrow> tool_world" where
  "drop_service_temp temp w = snd (t_set RemoveCall temp None w)"

text \<open>A failed write, close or change of mode removes the temporary file.\<close>

definition write_service_temp :: "service_env \<Rightarrow> string \<Rightarrow> string \<Rightarrow> string service_step" where
  "write_service_temp se path s w =
     (let temp = service_temp se path w in
      service_bind (s_call temp (t_set WriteCall temp (Some []))) (\<lambda>_ w.
        case service_bind (s_call temp (t_set WriteCall temp (Some s))) (\<lambda>_. s_call temp (t_try WriteCall)) w of
          (Inl e, w) \<Rightarrow> (Inl e, drop_service_temp temp w) | (Inr _, w) \<Rightarrow> (Inr temp, w)) w)"

definition service_files_equal :: "string \<Rightarrow> string \<Rightarrow> tool_world \<Rightarrow> bool \<times> tool_world" where
  "service_files_equal left right w =
     (case t_read left w of
        (Content a, w) \<Rightarrow> (case t_read right w of (Content b, w) \<Rightarrow> (a = b, w) | (_, w) \<Rightarrow> (False, w))
      | (_, w) \<Rightarrow> (False, w))"

text \<open>The file is in place and the manager answers that the service runs.\<close>

definition service_current :: "string \<Rightarrow> string \<Rightarrow> (tool_world \<Rightarrow> bool \<times> tool_world) \<Rightarrow> tool_world \<Rightarrow> bool \<times> tool_world" where
  "service_current temp path running w =
     (case service_files_equal temp path w of (True, w) \<Rightarrow> running w | (False, w) \<Rightarrow> (False, w))"

definition s_rename :: "string \<Rightarrow> string \<Rightarrow> unit service_step" where
  "s_rename temp path = s_call path (t_rename temp path)"

definition service_say :: "bool \<Rightarrow> string list \<Rightarrow> tool_world \<Rightarrow> tool_world" where
  "service_say on ls w = (if on then t_print (concat (map (\<lambda>l. l @ newline) ls)) w else w)"

text \<open>What both installers share once the temporary file is written; it is removed at the end.\<close>

definition replace_service :: "service_env \<Rightarrow> string \<Rightarrow> string \<Rightarrow> (tool_world \<Rightarrow> bool \<times> tool_world) \<Rightarrow>
    unit service_step \<Rightarrow> bool \<Rightarrow> string list \<Rightarrow> string list \<Rightarrow> unit service_step" where
  "replace_service se path s running restart say same changed =
     service_bind (write_service_temp se path s) (\<lambda>temp w.
       case service_current temp path running w of
         (True, w) \<Rightarrow> (Inr (), drop_service_temp temp (service_say say same w))
       | (False, w) \<Rightarrow>
           (case service_bind (s_rename temp path) (\<lambda>_. restart) w of
              (Inl e, w) \<Rightarrow> (Inl e, drop_service_temp temp w)
            | (Inr _, w) \<Rightarrow> (Inr (), drop_service_temp temp (service_say say changed w))))"

definition launchd_domain :: "service_env \<Rightarrow> launchd_options \<Rightarrow> string" where
  "launchd_domain se lo = (if lo_domain lo = [] then ''gui/'' @ itoa (se_user se) else lo_domain lo)"

definition restart_launchd :: "string \<Rightarrow> string \<Rightarrow> unit service_step" where
  "restart_launchd domain plist w =
     (case process_ok [''launchctl'', ''bootout'', domain, plist] w of
        (_, w) \<Rightarrow> run_service_process [''launchctl'', ''bootstrap'', domain, plist] w)"

definition install_launchd_service :: "service_env \<Rightarrow> launchd_options \<Rightarrow> unit service_step" where
  "install_launchd_service se lo =
     service_bind (s_lift (validate_launchd_options lo)) (\<lambda>_.
     service_bind (s_lift (render_launchd_plist lo)) (\<lambda>rendered.
     service_bind (s_call (lo_plist lo) (t_try MkdirCall)) (\<lambda>_.
     service_bind (s_call (lo_log lo) (t_try MkdirCall)) (\<lambda>_.
     service_bind (s_call (lo_log lo) (t_append (lo_log lo) [])) (\<lambda>_.
       replace_service se (lo_plist lo) rendered (launchd_loaded (launchd_domain se lo) (lo_label lo))
         (restart_launchd (launchd_domain se lo) (lo_plist lo)) (lo_stdout lo)
         [''service-install: '' @ lo_plist lo @ '' unchanged and loaded; skipping bootout/bootstrap'', ''  logs: '' @ lo_log lo]
         [''installed: '' @ lo_plist lo, ''  logs: '' @ lo_log lo])))))"

definition restart_systemd :: "string \<Rightarrow> unit service_step" where
  "restart_systemd unit =
     service_bind (run_service_process [''systemctl'', ''--user'', ''daemon-reload'']) (\<lambda>_.
     service_bind (run_service_process [''systemctl'', ''--user'', ''enable'', unit]) (\<lambda>_.
       run_service_process [''systemctl'', ''--user'', ''restart'', unit]))"

definition install_systemd_service :: "service_env \<Rightarrow> systemd_options \<Rightarrow> unit service_step" where
  "install_systemd_service se so =
     service_bind (s_lift (validate_systemd_options so)) (\<lambda>_.
     service_bind (s_lift (render_systemd_unit so)) (\<lambda>rendered.
     service_bind (s_call (sy_unit_path so) (t_try MkdirCall)) (\<lambda>_.
       replace_service se (sy_unit_path so) rendered (systemd_active (sy_unit so)) (restart_systemd (sy_unit so)) (sy_stdout so)
         [''service-install: '' @ sy_unit_path so @ '' unchanged and active; skipping daemon-reload/restart'',
          ''  logs: journalctl --user -u '' @ sy_unit so @ '' -f'']
         [''installed: '' @ sy_unit_path so, ''  logs: journalctl --user -u '' @ sy_unit so @ '' -f''])))"

section \<open>A command line means one list of arguments\<close>

lemma systemd_escape_Nil [simp]: "systemd_escape [] = []"
  by (simp add: systemd_escape_def)

lemma systemd_escape_Cons [simp]: "systemd_escape (c # s) = systemd_char c @ systemd_escape s"
  by (simp add: systemd_escape_def)

lemma systemd_escape_unique:
  "systemd_escape s @ CHR 0x22 # r = systemd_escape t @ CHR 0x22 # q \<Longrightarrow> s = t \<and> r = q"
proof (induction s arbitrary: t)
  case Nil
  then show ?case by (cases t) (auto simp: systemd_char_def split: if_splits)
next
  case (Cons c s)
  then show ?case by (cases t) (auto simp: systemd_char_def split: if_splits)
qed

definition part_end :: "string \<Rightarrow> bool" where
  "part_end r \<longleftrightarrow> r = [] \<or> hd r = CHR '' ''"

lemma quote_command_part_cases:
  "quote_command_part s = CHR 0x22 # systemd_escape s @ [CHR 0x22]
   \<or> quote_command_part s = s \<and> s \<noteq> [] \<and> \<not> needs_quotes s"
  by (auto simp: quote_command_part_def)

lemma plain_part_end: "\<not> needs_quotes s \<Longrightarrow> part_end r \<Longrightarrow> takeWhile (\<lambda>c. c \<noteq> CHR '' '') (s @ r) = s"
  by (cases r) (auto simp: takeWhile_append part_end_def needs_quotes_def list_ex_iff)

lemma plain_part_unique:
  "s @ r = t @ q \<Longrightarrow> \<not> needs_quotes s \<Longrightarrow> \<not> needs_quotes t \<Longrightarrow> part_end r \<Longrightarrow> part_end q \<Longrightarrow> s = t \<and> r = q"
  by (metis append_same_eq plain_part_end same_append_eq)

lemma plain_part_start: "s \<noteq> [] \<Longrightarrow> \<not> needs_quotes s \<Longrightarrow> s @ r \<noteq> CHR 0x22 # t"
  by (cases s) (auto simp: needs_quotes_def)

lemma quote_command_part_unique:
  assumes eq: "quote_command_part s @ r = quote_command_part t @ q" and "part_end r" "part_end q"
  shows "s = t \<and> r = q"
  using quote_command_part_cases [of s] quote_command_part_cases [of t]
proof (elim disjE conjE)
  assume "quote_command_part s = CHR 0x22 # systemd_escape s @ [CHR 0x22]" "quote_command_part t = CHR 0x22 # systemd_escape t @ [CHR 0x22]"
  then show ?thesis using eq systemd_escape_unique [of s r t q] by simp
next
  assume "quote_command_part s = CHR 0x22 # systemd_escape s @ [CHR 0x22]" "quote_command_part t = t" "t \<noteq> []" "\<not> needs_quotes t"
  then show ?thesis using eq plain_part_start [of t q] by (metis append_Cons)
next
  assume "quote_command_part s = s" "s \<noteq> []" "\<not> needs_quotes s" "quote_command_part t = CHR 0x22 # systemd_escape t @ [CHR 0x22]"
  then show ?thesis using eq plain_part_start [of s r] by (metis append_Cons)
next
  assume "quote_command_part s = s" "\<not> needs_quotes s" "quote_command_part t = t" "\<not> needs_quotes t"
  then show ?thesis using eq plain_part_unique [of s r t q] assms(2,3) by simp
qed

lemma quote_command_part_nonempty: "quote_command_part s \<noteq> []"
  by (simp add: quote_command_part_def)

lemma joined_parts_unique:
  "str_join '' '' (map quote_command_part (x # xs)) = str_join '' '' (map quote_command_part (y # ys)) \<Longrightarrow> x = y \<and> xs = ys"
proof (induction xs arbitrary: x y ys)
  case Nil
  show ?case
  proof (cases ys)
    case Nil
    then show ?thesis using Nil.prems quote_command_part_unique [of x "[]" y "[]"] by (simp add: part_end_def)
  next
    case (Cons z zs)
    then show ?thesis
      using Nil.prems quote_command_part_unique [of x "[]" y "'' '' @ str_join '' '' (map quote_command_part (z # zs))"]
      by (simp add: part_end_def)
  qed
next
  case (Cons a as)
  show ?case
  proof (cases ys)
    case Nil
    then show ?thesis
      using Cons.prems quote_command_part_unique [of x "'' '' @ str_join '' '' (map quote_command_part (a # as))" y "[]"]
      by (simp add: part_end_def)
  next
    case (Cons z zs)
    have "x = y \<and> '' '' @ str_join '' '' (map quote_command_part (a # as)) = '' '' @ str_join '' '' (map quote_command_part (z # zs))"
      by (rule quote_command_part_unique) (use Cons.prems Cons in \<open>auto simp: part_end_def\<close>)
    then show ?thesis using Cons.IH [of a z zs] Cons by simp
  qed
qed

text \<open>
  C38. The command line of a systemd unit means one program and one list of arguments: no two of them are written
  alike, whatever spaces, quotes and backslashes they hold.
\<close>

theorem command_line_unambiguous:
  "systemd_command_line p xs = systemd_command_line q ys \<longleftrightarrow> p = q \<and> xs = ys"
  unfolding systemd_command_line_def using joined_parts_unique by blast

section \<open>The lines of a unit\<close>

lemma unit_text_lines:
  "(\<And>l. l \<in> set ls \<Longrightarrow> CHR 0x0A \<notin> set l) \<Longrightarrow> split_on (CHR 0x0A) (concat (map (\<lambda>l. l @ newline) ls)) = ls @ [[]]"
  by (induction ls) (simp_all add: split_on_append)

text \<open>
  A value of the environment can hold a line break, which the check of the other options rules out: what follows it is
  a line of the unit of its own.
\<close>

definition injecting_service :: systemd_options where
  "injecting_service =
     \<lparr>sy_unit = ''a.service'', sy_program = ''/a'', sy_arguments = [], sy_unit_path = ''/u'', sy_description = [],
      sy_documentation = [], sy_restart = [], sy_restart_sec = [],
      sy_environment = [\<lparr>ep_name = ''A'', ep_value = ''1'' @ newline @ ''ExecStartPre=/b''@ newline\<rparr>], sy_stdout = False\<rparr>"

theorem environment_value_adds_line:
  "validate_systemd_options injecting_service = Inr () \<and>
   (\<exists>s. render_systemd_unit injecting_service = Inr s \<and> ''ExecStartPre=/b'' \<in> set (split_on (CHR 0x0A) s))"
proof -
  have v: "validate_systemd_options injecting_service = Inr ()" by code_simp
  have "case render_systemd_unit injecting_service of
      Inr s \<Rightarrow> list_ex (\<lambda>l. l = ''ExecStartPre=/b'') (split_on (CHR 0x0A) s) | Inl _ \<Rightarrow> False"
    by code_simp
  then show ?thesis using v by (auto simp: list_ex_iff split: sum.splits)
qed

section \<open>What an installation leaves\<close>

text \<open>The commands \<open>cs\<close> were run, and the file at \<open>p\<close> is what it was.\<close>

definition kept_running :: "string \<Rightarrow> tool_world \<Rightarrow> string list list \<Rightarrow> tool_world \<Rightarrow> bool" where
  "kept_running p w cs v \<longleftrightarrow>
     tw_run v = tw_run w \<and> tw_files v p = tw_files w p \<and> map snd (tw_ran v) = map snd (tw_ran w) @ cs"

text \<open>No command changes the file, and what the next command answers.\<close>

definition spares_file :: "string \<Rightarrow> tool_world \<Rightarrow> bool" where
  "spares_file p w \<longleftrightarrow>
     (\<forall>n argv. case tw_run w n argv of NotStarted \<Rightarrow> True | Exited status out ws \<Rightarrow> p \<notin> fst ` set ws)"

definition next_succeeds :: "string list \<Rightarrow> tool_world \<Rightarrow> bool" where
  "next_succeeds argv w \<longleftrightarrow> (\<exists>out ws. tw_run w (length (tw_ran w)) argv = Exited 0 out ws)"

text \<open>The last command recorded is the last one of \<open>cs\<close>, and it exited with 0.\<close>

definition started :: "string list list \<Rightarrow> tool_world \<Rightarrow> bool" where
  "started cs v \<longleftrightarrow> tw_ran v \<noteq> [] \<and> (\<exists>out ws. tw_run v (length (tw_ran v) - 1) (last cs) = Exited 0 out ws)"

lemma started_last:
  assumes "kept_running p w [argv] v" "next_succeeds argv w" "last cs = argv" shows "started cs v"
proof -
  have m: "map snd (tw_ran v) = map snd (tw_ran w) @ [argv]" "tw_run v = tw_run w" using assms(1) by (simp_all add: kept_running_def)
  from arg_cong [OF m(1), of length] have "length (tw_ran v) = Suc (length (tw_ran w))" by simp
  then show ?thesis using assms(2,3) m(2) by (auto simp: started_def next_succeeds_def)
qed

lemma kept_running_refl: "kept_running p w [] w"
  by (simp add: kept_running_def)

lemma kept_running_trans: "kept_running p w cs u \<Longrightarrow> kept_running p u ds v \<Longrightarrow> kept_running p w (cs @ ds) v"
  by (simp add: kept_running_def)

lemma kept_running_nil: "kept_running p w [] u \<Longrightarrow> kept_running p u ds v \<Longrightarrow> kept_running p w ds v"
  by (simp add: kept_running_def)

lemma kept_running_spares: "kept_running p w cs u \<Longrightarrow> spares_file p w \<Longrightarrow> spares_file p u"
  by (simp add: kept_running_def spares_file_def)

lemma kept_running_next: "kept_running p w [] u \<Longrightarrow> next_succeeds argv u \<longleftrightarrow> next_succeeds argv w"
  by (auto simp: kept_running_def next_succeeds_def dest: map_eq_imp_length_eq)

lemma kept_running_try: "kept_running p w [] (snd (t_try c w))"
  by (simp add: kept_running_def t_try_def t_tick_def)

lemma kept_running_set: "q \<noteq> p \<Longrightarrow> kept_running p w [] (snd (t_set c q x w))"
  by (simp add: kept_running_def t_set_def t_tick_def)

lemma kept_running_read: "kept_running p w [] (snd (t_read q w))"
  by (simp add: kept_running_def t_read_def t_tick_def)

lemma kept_running_say: "kept_running p w [] (service_say on ls w)"
  by (simp add: kept_running_def service_say_def t_print_def)

lemma service_process:
  assumes "run_service_process argv w = (r, v)" "spares_file p w"
  shows "kept_running p w [argv] v \<and> (\<not> isl r \<longleftrightarrow> next_succeeds argv w)"
proof (cases "tw_run w (length (tw_ran w)) argv")
  case NotStarted
  then show ?thesis using assms(1)
    by (auto simp: run_service_process_def t_exec_def Let_def kept_running_def next_succeeds_def t_tick_def)
next
  case (Exited status out ws)
  moreover have "case tw_run w (length (tw_ran w)) argv of NotStarted \<Rightarrow> True | Exited status out ws \<Rightarrow> p \<notin> fst ` set ws"
    using assms(2) unfolding spares_file_def by blast
  ultimately have "p \<notin> fst ` set ws" by simp
  then show ?thesis using assms(1) Exited
    by (auto simp: run_service_process_def t_exec_def Let_def kept_running_def next_succeeds_def t_tick_def apply_writes_other)
qed

lemma service_bind_Inr: "service_bind m f w = (Inr b, v) \<longleftrightarrow> (\<exists>a u. m w = (Inr a, u) \<and> f a u = (Inr b, v))"
  by (auto simp: service_bind_def split: prod.splits sum.splits)

lemma s_call_Inr: "s_call path f w = (Inr u, v) \<longleftrightarrow> f w = (True, v)"
  by (auto simp: s_call_def split: prod.splits)

lemma s_lift_Inr: "s_lift r w = (Inr b, v) \<longleftrightarrow> r = Inr b \<and> v = w"
  by (auto simp: s_lift_def)

lemma written_temp:
  assumes "write_service_temp se path s w = (Inr temp, u)" "service_temp se path w \<noteq> path"
  shows "kept_running path w [] u \<and> tw_files u temp = Some s \<and> temp \<noteq> path \<and> temp = service_temp se path w"
  using assms
  by (auto simp: write_service_temp_def Let_def service_bind_def s_call_def t_set_def t_try_def t_tick_def kept_running_def
      split: if_splits prod.splits sum.splits)

lemma files_equal_outcome:
  assumes "service_files_equal temp path w = (b, v)" "tw_files w temp = Some s"
  shows "kept_running path w [] v \<and> tw_files v temp = Some s \<and> (b \<longrightarrow> tw_files w path = Some s)"
  using assms
  by (auto simp: service_files_equal_def t_read_def t_tick_def kept_running_def split: if_splits option.splits file_read.splits prod.splits)

lemma renamed_outcome:
  assumes "s_rename temp path w = (Inr x, v)" "tw_files w temp = Some s"
  shows "tw_files v path = Some s \<or> temp = path" "tw_run v = tw_run w" "tw_ran v = tw_ran w"
  using assms by (auto simp: s_rename_def s_call_Inr t_rename_def t_tick_def split: if_splits)

text \<open>Whatever fails, an installation that succeeds leaves the rendered file, and the manager runs it.\<close>

lemma replace_service_outcome:
  assumes run: "replace_service se path s running restart say same changed w = (Inr x, v)"
    and temp: "service_temp se path w \<noteq> path" and spares: "spares_file path w" "spares_file (service_temp se path w) w"
    and query: "\<And>p u b u'. spares_file p u \<Longrightarrow> running u = (b, u') \<Longrightarrow> kept_running p u [q] u' \<and> (b \<longleftrightarrow> next_succeeds q u)"
    and restarted: "\<And>u u'. spares_file path u \<Longrightarrow> restart u = (Inr (), u') \<Longrightarrow> kept_running path u cs u' \<and> started cs u'"
  shows "tw_files v path = Some s \<and>
    (\<exists>ds. map snd (tw_ran v) = map snd (tw_ran w) @ ds \<and>
       (ds = [q] \<and> next_succeeds q w \<and> tw_files w path = Some s \<or>
        (ds = cs \<or> ds = q # cs) \<and> started cs v \<and> tw_run v = tw_run w))"
proof -
  obtain t u where t: "write_service_temp se path s w = (Inr t, u)"
    using run by (auto simp: replace_service_def service_bind_def split: prod.splits sum.splits)
  have u: "kept_running path w [] u" "tw_files u t = Some s" "t \<noteq> path" "t = service_temp se path w" using written_temp [OF t temp] by auto
  obtain b u1 where e: "service_files_equal t path u = (b, u1)" by fastforce
  have u1: "kept_running path w [] u1" "tw_files u1 t = Some s" "b \<Longrightarrow> tw_files w path = Some s"
    using files_equal_outcome [OF e u(2)] u(1) kept_running_nil [OF u(1)] by (auto simp: kept_running_def)
  have s1: "spares_file path u1" by (rule kept_running_spares [OF u1(1) spares(1)])
  have ended: "tw_files (drop_service_temp t (service_say say ls z)) path = tw_files z path" "tw_ran (drop_service_temp t (service_say say ls z)) = tw_ran z"
      "tw_run (drop_service_temp t (service_say say ls z)) = tw_run z" for ls z
    using kept_running_set [OF u(3), of "service_say say ls z" RemoveCall None] u(3)
    by (auto simp: drop_service_temp_def service_say_def t_print_def t_set_def t_tick_def kept_running_def)
  have replaced: ?thesis
    if m: "service_bind (s_rename t path) (\<lambda>_. restart) z = (Inr (), y)" and v: "v = drop_service_temp t (service_say say changed y)"
      and z: "tw_run z = tw_run w" "map snd (tw_ran z) = map snd (tw_ran w) @ es" "tw_files z t = Some s" and es: "es = [] \<or> es = [q]" for z y es
  proof -
    obtain z1 where rn: "s_rename t path z = (Inr (), z1)" and rs: "restart z1 = (Inr (), y)" using m by (auto simp: service_bind_Inr)
    have z1: "tw_files z1 path = Some s" "tw_run z1 = tw_run z" "tw_ran z1 = tw_ran z" using renamed_outcome [OF rn z(3)] u(3) by auto
    then have "spares_file path z1" using spares(1) z(1) by (simp add: spares_file_def)
    then have y: "kept_running path z1 cs y" "started cs y" using rs restarted by blast+
    then have "started cs v" using v ended by (simp add: started_def)
    then show ?thesis using y(1) z z1 es v ended by (auto simp: kept_running_def)
  qed
  show ?thesis
  proof (cases b)
    case False
    then have "service_current t path running u = (False, u1)" using e by (simp add: service_current_def)
    then obtain y where "service_bind (s_rename t path) (\<lambda>_. restart) u1 = (Inr (), y)" "v = drop_service_temp t (service_say say changed y)"
      using run t by (auto simp: replace_service_def service_bind_def split: prod.splits sum.splits)
    then show ?thesis using replaced [of u1 y "[]"] u1 by (simp add: kept_running_def)
  next
    case True
    obtain b2 u2 where q: "running u1 = (b2, u2)" by fastforce
    have u2: "kept_running path u1 [q] u2" "b2 \<longleftrightarrow> next_succeeds q u1" using query [OF s1 q] by auto
    have cur: "service_current t path running u = (b2, u2)" using e True q by (simp add: service_current_def)
    show ?thesis
    proof (cases b2)
      case True
      then have "v = drop_service_temp t (service_say say same u2)" using run t cur by (simp add: replace_service_def service_bind_def)
      then show ?thesis using u2 u1 True \<open>b\<close> kept_running_next [OF u1(1), of q] ended by (auto simp: kept_running_def)
    next
      case False
      then obtain y where "service_bind (s_rename t path) (\<lambda>_. restart) u2 = (Inr (), y)" "v = drop_service_temp t (service_say say changed y)"
        using run t cur by (auto simp: replace_service_def service_bind_def split: prod.splits sum.splits)
      moreover have "tw_files u2 t = Some s"
        using query [of t u1 b2 u2] q u1(1,2) spares(2) u(4) by (auto simp: kept_running_def spares_file_def)
      ultimately show ?thesis using replaced [of u2 y "[q]"] u1 u2 by (simp add: kept_running_def)
    qed
  qed
qed

lemma service_query:
  "spares_file p w \<Longrightarrow> process_ok argv w = (b, v) \<Longrightarrow> kept_running p w [argv] v \<and> (b \<longleftrightarrow> next_succeeds argv w)"
  by (auto simp: process_ok_def dest: service_process split: prod.splits)

lemma restart_launchd_kept:
  assumes "spares_file p w" "restart_launchd domain plist w = (Inr (), v)"
  shows "kept_running p w [[''launchctl'', ''bootout'', domain, plist], [''launchctl'', ''bootstrap'', domain, plist]] v \<and>
    started [[''launchctl'', ''bootout'', domain, plist], [''launchctl'', ''bootstrap'', domain, plist]] v"
proof -
  obtain b u where q: "process_ok [''launchctl'', ''bootout'', domain, plist] w = (b, u)" by fastforce
  have u: "kept_running p w [[''launchctl'', ''bootout'', domain, plist]] u" using service_query [OF assms(1) q] by blast
  have "run_service_process [''launchctl'', ''bootstrap'', domain, plist] u = (Inr (), v)"
    using assms(2) q by (simp add: restart_launchd_def)
  from service_process [OF this kept_running_spares [OF u assms(1)]]
  have v: "kept_running p u [[''launchctl'', ''bootstrap'', domain, plist]] v" "next_succeeds [''launchctl'', ''bootstrap'', domain, plist] u"
    by simp_all
  show ?thesis using kept_running_trans [OF u v(1)] started_last [OF v] by simp
qed

lemma restart_systemd_kept:
  assumes "spares_file p w" "restart_systemd unit w = (Inr (), v)"
  shows "kept_running p w [[''systemctl'', ''--user'', ''daemon-reload''], [''systemctl'', ''--user'', ''enable'', unit],
    [''systemctl'', ''--user'', ''restart'', unit]] v"
proof -
  obtain u1 u2 where r: "run_service_process [''systemctl'', ''--user'', ''daemon-reload''] w = (Inr (), u1)"
      "run_service_process [''systemctl'', ''--user'', ''enable'', unit] u1 = (Inr (), u2)"
      "run_service_process [''systemctl'', ''--user'', ''restart'', unit] u2 = (Inr (), v)"
    using assms(2) by (auto simp: restart_systemd_def service_bind_Inr)
  note k1 = service_process [OF r(1) assms(1), THEN conjunct1]
  note k2 = service_process [OF r(2) kept_running_spares [OF k1 assms(1)], THEN conjunct1]
  note k3 = service_process [OF r(3) kept_running_spares [OF k2 kept_running_spares [OF k1 assms(1)]], THEN conjunct1]
  show ?thesis using kept_running_trans [OF k1 kept_running_trans [OF k2 k3]] by simp
qed

text \<open>
  C15. An installation of the launchd service that succeeds, whatever failed on the way, leaves the rendered list in its
  file. Either it replaced the file and the last command of the run is the \<open>launchctl bootstrap\<close> of that file, which
  exited with 0 (the \<open>bootout\<close> before it may have failed), or the same list was there and launchd answered with 0 that
  the service is loaded. It runs no other command.
\<close>

theorem launchd_service_runs:
  assumes run: "install_launchd_service se lo w = (Inr (), v)" and "lo_log lo \<noteq> lo_plist lo"
    and temp: "\<forall>u. service_temp se (lo_plist lo) u \<noteq> lo_plist lo \<and> spares_file (service_temp se (lo_plist lo) u) w"
    and spares: "spares_file (lo_plist lo) w"
  shows "\<exists>s ran. render_launchd_plist lo = Inr s \<and> tw_files v (lo_plist lo) = Some s \<and>
    map snd (tw_ran v) = map snd (tw_ran w) @ ran \<and>
    (let domain = launchd_domain se lo; ask = [''launchctl'', ''print'', domain @ ''/'' @ lo_label lo];
         start = [[''launchctl'', ''bootout'', domain, lo_plist lo], [''launchctl'', ''bootstrap'', domain, lo_plist lo]]
     in ran = [ask] \<and> next_succeeds ask w \<and> tw_files w (lo_plist lo) = Some s \<or>
        (ran = start \<or> ran = ask # start) \<and>
        (\<exists>out ws. tw_run w (length (tw_ran v) - 1) [''launchctl'', ''bootstrap'', domain, lo_plist lo] = Exited 0 out ws))"
proof -
  let ?p = "lo_plist lo"
  let ?ask = "[''launchctl'', ''print'', launchd_domain se lo @ ''/'' @ lo_label lo]"
  obtain s u1 u2 u3 same changed where r: "render_launchd_plist lo = Inr s" "t_try MkdirCall w = (True, u1)"
      "t_try MkdirCall u1 = (True, u2)" "t_append (lo_log lo) [] u2 = (True, u3)"
      "replace_service se ?p s (launchd_loaded (launchd_domain se lo) (lo_label lo))
         (restart_launchd (launchd_domain se lo) ?p) (lo_stdout lo) same changed u3 = (Inr (), v)"
    using run by (auto simp: install_launchd_service_def service_bind_Inr s_call_Inr s_lift_Inr)
  have k: "kept_running p w [] u3" if "p \<noteq> lo_log lo" for p
  proof -
    have e: "u1 = snd (t_try MkdirCall w)" "u2 = snd (t_try MkdirCall u1)" "u3 = snd (t_append (lo_log lo) [] u2)"
      using r(2-4) by simp_all
    have "kept_running p w [] u1" "kept_running p u1 [] u2" "kept_running p u2 [] u3"
      unfolding e t_append_def using that by (simp_all add: kept_running_try kept_running_set)
    then show ?thesis by (blast intro: kept_running_nil)
  qed
  have u3: "tw_run u3 = tw_run w" "kept_running ?p w [] u3" using k [of ?p] assms(2) by (auto simp: kept_running_def)
  let ?start = "[[''launchctl'', ''bootout'', launchd_domain se lo, ?p], [''launchctl'', ''bootstrap'', launchd_domain se lo, ?p]]"
  have "tw_files v ?p = Some s \<and> (\<exists>ds. map snd (tw_ran v) = map snd (tw_ran u3) @ ds \<and>
      (ds = [?ask] \<and> next_succeeds ?ask u3 \<and> tw_files u3 ?p = Some s \<or>
       (ds = ?start \<or> ds = ?ask # ?start) \<and> started ?start v \<and> tw_run v = tw_run u3))"
    using r(5)
  proof (rule replace_service_outcome)
    show "spares_file ?p u3" "spares_file (service_temp se ?p u3) u3" "service_temp se ?p u3 \<noteq> ?p"
      using u3(1) spares temp by (simp_all add: spares_file_def)
  qed (auto simp: launchd_loaded_def dest: service_query restart_launchd_kept)
  then obtain ds where ds: "tw_files v ?p = Some s" "map snd (tw_ran v) = map snd (tw_ran u3) @ ds"
    "ds = [?ask] \<and> next_succeeds ?ask u3 \<and> tw_files u3 ?p = Some s \<or>
     (ds = ?start \<or> ds = ?ask # ?start) \<and> started ?start v \<and> tw_run v = tw_run u3" by blast
  have ran: "map snd (tw_ran v) = map snd (tw_ran w) @ ds" using ds(2) u3(2) by (simp add: kept_running_def)
  have kept: "tw_files u3 ?p = tw_files w ?p" using u3(2) by (simp add: kept_running_def)
  show ?thesis
    by (rule exI [of _ s], rule exI [of _ ds], intro conjI)
      (use r(1) ds(1) ran ds(3) kept u3(1) kept_running_next [OF u3(2), of ?ask] in \<open>auto simp: Let_def started_def\<close>)
qed

definition sample_service :: service_env where
  "sample_service = \<lparr>se_user = 501, se_suffix = (\<lambda>_. ''1'')\<rparr>"

definition sample_launchd :: launchd_options where
  "sample_launchd =
     \<lparr>lo_label = ''l'', lo_program = ''/p'', lo_arguments = [''watch''], lo_plist = ''/a/l.plist'', lo_log = ''/a/log'',
      lo_environment = [], lo_run_at_load = True, lo_keep_alive = True, lo_domain = [], lo_stdout = False\<rparr>"

theorem launchd_service_runs_witness:
  "\<exists>v s. install_launchd_service sample_service sample_launchd sample_tool = (Inr (), v) \<and>
     render_launchd_plist sample_launchd = Inr s \<and> tw_files v ''/a/l.plist'' = Some s \<and> tw_ran v \<noteq> []"
proof -
  have "fst (install_launchd_service sample_service sample_launchd sample_tool) = Inr ()" by code_simp
  then obtain v where run: "install_launchd_service sample_service sample_launchd sample_tool = (Inr (), v)"
    by (metis prod.collapse)
  have "service_temp sample_service (lo_plist sample_launchd) u = ''/a/.l.plist.1''" for u
    by (simp add: sample_service_def sample_launchd_def service_temp_def) code_simp
  moreover have "spares_file p sample_tool" for p by (simp add: spares_file_def sample_tool_def)
  moreover have "lo_log sample_launchd \<noteq> lo_plist sample_launchd" "lo_plist sample_launchd = ''/a/l.plist''"
    by (simp_all add: sample_launchd_def)
  ultimately have "\<exists>s ran. render_launchd_plist sample_launchd = Inr s \<and> tw_files v ''/a/l.plist'' = Some s \<and>
      map snd (tw_ran v) = map snd (tw_ran sample_tool) @ ran \<and> ran \<noteq> []"
    using launchd_service_runs [OF run] by (fastforce simp: Let_def)
  then show ?thesis using run by auto
qed

end
