(* ===== verification/UpdateCmd.thy ===== *)
theory UpdateCmd
  imports GoFlag Scheduler Service
begin

text \<open>
  The commands around the self updater: \<open>RunUpdateCommand\<close> (\<open>selfupdate/command.go\<close>), \<open>go-mk selfupdate\<close>
  (\<open>selfupdate_command.go\<close>), \<open>verify-release\<close> and \<open>go-mk-install\<close>. What the
  commands print to standard output is returned; standard error, the authorization token (nothing reads it) and the
  count of the verified assets, which goes through a log handler, are not modelled.
\<close>

section \<open>The update command\<close>

definition bool_text :: "bool \<Rightarrow> string" where "bool_text b = (if b then ''true'' else ''false'')"

definition check_lines :: "check_result \<Rightarrow> string list" where
  "check_lines r =
     [''current: '' @ cr_current_version r, ''latest: '' @ cr_latest_tag r, ''available: '' @ bool_text (cr_available r)]"

definition apply_lines :: "apply_result \<Rightarrow> string list" where
  "apply_lines r =
     check_lines (ar_check r) @ [''applied: '' @ bool_text (ar_applied r), ''dry_run: '' @ bool_text (ar_dry_run r)] @
     (if ar_launch_skipped r
      then [''launch_check: skipped (dry run leaves the install directory untouched)''] else [])"

definition apply_one :: "host \<Rightarrow> update_options \<Rightarrow> Updater.updater \<Rightarrow> (apply_error option \<times> apply_result) \<times> Updater.updater" where
  "apply_one hs opt u =
     (case apply_all hs [opt] u of ((e, rs), u) \<Rightarrow> ((e, case rs of [] \<Rightarrow> no_result | r # _ \<Rightarrow> r), u))"

definition update_flags :: "string \<Rightarrow> flag_kind option" where
  "update_flags n = (if n = ''check'' \<or> n = ''dry-run'' then Some BoolFlag else None)"

definition run_update_command :: "host \<Rightarrow> update_options \<Rightarrow> string list \<Rightarrow> Updater.updater \<Rightarrow> (int \<times> string list) \<times> Updater.updater" where
  "run_update_command hs opt args u =
     (case parse_flags update_flags args of
        None \<Rightarrow> ((1, []), u)
      | Some (fs, rest) \<Rightarrow>
          if rest \<noteq> [] then ((1, []), u)
          else if bool_flag fs ''check''
          then (case check hs opt (up_net u) of
                  (Inl e, w) \<Rightarrow> ((1, []), u\<lparr>up_net := w\<rparr>)
                | (Inr r, w) \<Rightarrow> ((0, check_lines r), u\<lparr>up_net := w\<rparr>))
          else (case apply_one hs (opt\<lparr>uo_dry_run := uo_dry_run opt \<or> bool_flag fs ''dry-run''\<rparr>) u of
                  ((Some e, r), u) \<Rightarrow> ((1, []), u)
                | ((None, r), u) \<Rightarrow> ((0, apply_lines r), u)))"

section \<open>\<open>go-mk selfupdate\<close>\<close>

text \<open>What the linker wrote into the binary (\<open>internal/version\<close>).\<close>

record version_info =
  vi_version :: string
  vi_commit :: string
  vi_dirty :: string
  vi_build_time :: string
  vi_bin_hash :: string

definition linked_defaults :: version_info where
  "linked_defaults =
     \<lparr>vi_version = ''dev'', vi_commit = ''unknown'', vi_dirty = ''true'', vi_build_time = ''unknown'', vi_bin_hash = []\<rparr>"

definition defaulted :: "string \<Rightarrow> string \<Rightarrow> string" where
  "defaulted v fallback = (if trim_space v = [] then fallback else trim_space v)"

text \<open>The digest of the running executable, when it can be read.\<close>

definition build_hash :: "version_info \<Rightarrow> string option \<Rightarrow> string" where
  "build_hash vi digest =
     (if trim_space (vi_bin_hash vi) \<noteq> [] then trim_space (vi_bin_hash vi)
      else (case digest of
              Some d \<Rightarrow> if d \<noteq> [] then d else if trim_space (vi_build_time vi) \<noteq> [] then trim_space (vi_build_time vi) else ''unknown''
            | None \<Rightarrow> if trim_space (vi_build_time vi) \<noteq> [] then trim_space (vi_build_time vi) else ''unknown''))"

definition build_dirty :: "version_info \<Rightarrow> bool" where
  "build_dirty vi =
     (case parse_bool (trim_space (vi_dirty vi)) of
        Some b \<Rightarrow> b | None \<Rightarrow> vi_version vi = ''dev'' \<or> vi_version vi = ''unknown'')"

definition go_mk_repo :: string where "go_mk_repo = ''agoodkind/go-makefile''"
definition go_mk_binary :: string where "go_mk_binary = ''go-mk''"
definition go_mk_launchd :: string where "go_mk_launchd = ''io.goodkind.go-mk.selfupdate''"
definition go_mk_systemd_unit :: string where "go_mk_systemd_unit = ''go-mk-selfupdate.service''"

definition go_mk_options :: "version_info \<Rightarrow> string option \<Rightarrow> update_options" where
  "go_mk_options vi digest =
     zero_options\<lparr>uo_config := (uo_config zero_options)
       \<lparr>cfg_repo := go_mk_repo, cfg_binary := go_mk_binary, cfg_current_version := defaulted (vi_version vi) ''dev'',
        cfg_current_commit := defaulted (vi_commit vi) ''unknown'', cfg_current_build_hash := build_hash vi digest,
        cfg_dirty := build_dirty vi, cfg_validate_args := [''version''], cfg_validate_match := ''version:''\<rparr>\<rparr>"

definition auth_token :: "environment \<Rightarrow> string" where
  "auth_token env =
     (if trim_space (env ''GITHUB_TOKEN'') \<noteq> [] then trim_space (env ''GITHUB_TOKEN'') else trim_space (env ''GH_TOKEN''))"

definition env_false :: "environment \<Rightarrow> string \<Rightarrow> bool" where
  "env_false env name \<longleftrightarrow> map lower_char (trim_space (env name)) \<in> {''0'', ''false'', ''no'', ''off''}"

definition self_update_mode :: "environment \<Rightarrow> string" where
  "self_update_mode env = (let m = trim_space (env ''GO_MK_SELFUPDATE_MODE'') in if m = [] then mode_apply else m)"

text \<open>The hooks of the scheduler; the executable is read again in every round, as an update replaces it.\<close>

definition go_mk_hooks :: "environment \<Rightarrow> version_info \<Rightarrow> (nat \<Rightarrow> string option) \<Rightarrow> hooks" where
  "go_mk_hooks env vi digests =
     \<lparr>hk_enabled = Some (\<lambda>_. \<not> env_false env ''GO_MK_SELFUPDATE_ENABLED''), hk_mode = Some (\<lambda>_. self_update_mode env),
      hk_options = Some (\<lambda>n. go_mk_options vi (digests n))\<rparr>"

record self_update_flags =
  sf_check :: bool
  sf_dry_run :: bool
  sf_daemon :: bool

definition self_update_args :: "self_update_flags \<Rightarrow> string list" where
  "self_update_args sf = (if sf_check sf then [''--check''] else []) @ (if sf_dry_run sf then [''--dry-run''] else [])"

text \<open>\<open>None\<close> is the scheduler, which runs until it is stopped (\<open>sched_step\<close>).\<close>

definition run_self_update :: "host \<Rightarrow> version_info \<Rightarrow> string option \<Rightarrow> self_update_flags \<Rightarrow> Updater.updater \<Rightarrow>
    ((int \<times> string list) \<times> Updater.updater) option" where
  "run_self_update hs vi digest sf u =
     (if sf_daemon sf then None else Some (run_update_command hs (go_mk_options vi digest) (self_update_args sf) u))"

definition run_version :: "version_info \<Rightarrow> string option \<Rightarrow> string list" where
  "run_version vi digest =
     [''version: '' @ defaulted (vi_version vi) ''dev'', ''commit: '' @ defaulted (vi_commit vi) ''unknown'',
      ''dirty: '' @ bool_text (build_dirty vi), ''build_hash: '' @ build_hash vi digest]"

section \<open>Installing the service\<close>

record service_flags =
  sv_program :: string
  sv_label :: string
  sv_plist :: string
  sv_log :: string
  sv_unit :: string
  sv_unit_path :: string
  sv_restart_sec :: string
  sv_env :: "string list"

datatype service_command_error = NoExecutable | NoHome | UnsupportedPlatform string | ServiceFailed service_error

definition or_default :: "string \<Rightarrow> string \<Rightarrow> string" where "or_default v fallback = (if v = [] then fallback else v)"

definition program_path :: "string option \<Rightarrow> string \<Rightarrow> (service_command_error, string) result" where
  "program_path executable configured =
     (if \<not> blank configured then Inr configured else (case executable of None \<Rightarrow> Inl NoExecutable | Some p \<Rightarrow> Inr p))"

definition launchd_paths :: "environment \<Rightarrow> service_flags \<Rightarrow> (service_command_error, string \<times> string) result" where
  "launchd_paths env sv =
     (let home = user_home_dir env in
      if home = [] then Inl NoHome
      else Inr (or_default (sv_plist sv) (path_join [home, ''Library'', ''LaunchAgents'', go_mk_launchd @ ''.plist'']),
                or_default (sv_log sv) (path_join [home, ''Library'', ''Logs'', ''go-mk-selfupdate.log''])))"

definition systemd_paths :: "environment \<Rightarrow> service_flags \<Rightarrow> (service_command_error, string \<times> string) result" where
  "systemd_paths env sv =
     (let home = user_home_dir env; unit = or_default (sv_unit sv) go_mk_systemd_unit in
      if home = [] then Inl NoHome
      else Inr (unit, or_default (sv_unit_path sv) (path_join [home, ''.config'', ''systemd'', ''user'', unit])))"

definition service_command :: "(service_error, unit) result \<times> tool_world \<Rightarrow> (service_command_error, unit) result \<times> tool_world" where
  "service_command r = map_prod (map_sum ServiceFailed id) id r"

definition install_go_mk_launchd :: "service_env \<Rightarrow> environment \<Rightarrow> service_flags \<Rightarrow> string \<Rightarrow> environment_pair list \<Rightarrow>
    tool_world \<Rightarrow> (service_command_error, unit) result \<times> tool_world" where
  "install_go_mk_launchd se env sv program pairs w =
     (case launchd_paths env sv of
        Inl e \<Rightarrow> (Inl e, w)
      | Inr (plist, logs) \<Rightarrow>
          service_command (install_launchd_service se
            \<lparr>lo_label = or_default (sv_label sv) go_mk_launchd, lo_program = program, lo_arguments = [''selfupdate'', ''watch''],
             lo_plist = plist, lo_log = logs, lo_environment = pairs, lo_run_at_load = True, lo_keep_alive = True, lo_domain = [],
             lo_stdout = True\<rparr> w))"

definition install_go_mk_systemd :: "service_env \<Rightarrow> environment \<Rightarrow> service_flags \<Rightarrow> string \<Rightarrow> environment_pair list \<Rightarrow>
    tool_world \<Rightarrow> (service_command_error, unit) result \<times> tool_world" where
  "install_go_mk_systemd se env sv program pairs w =
     (case systemd_paths env sv of
        Inl e \<Rightarrow> (Inl e, w)
      | Inr (unit, path) \<Rightarrow>
          service_command (install_systemd_service se
            \<lparr>sy_unit = unit, sy_program = program, sy_arguments = [''selfupdate'', ''watch''], sy_unit_path = path,
             sy_description = ''go-mk self-update scheduler'', sy_documentation = [], sy_restart = ''always'',
             sy_restart_sec = or_default (sv_restart_sec sv) ''30'', sy_environment = pairs, sy_stdout = True\<rparr> w))"

definition install_self_update_service :: "service_env \<Rightarrow> environment \<Rightarrow> string option \<Rightarrow> service_flags \<Rightarrow> string \<Rightarrow>
    tool_world \<Rightarrow> (service_command_error, unit) result \<times> tool_world" where
  "install_self_update_service se env executable sv goos w =
     (case program_path executable (sv_program sv) of
        Inl e \<Rightarrow> (Inl e, w)
      | Inr program \<Rightarrow>
          (case parse_environment_pairs (sv_env sv) of
             Inl e \<Rightarrow> (Inl (ServiceFailed e), w)
           | Inr pairs \<Rightarrow>
               if goos = ''darwin'' then install_go_mk_launchd se env sv program pairs w
               else if goos = ''linux'' then install_go_mk_systemd se env sv program pairs w
               else (Inl (UnsupportedPlatform goos), w)))"

section \<open>\<open>verify-release\<close> and \<open>go-mk-install\<close>\<close>

definition verify_flags :: "string \<Rightarrow> flag_kind option" where
  "verify_flags n =
     (if n \<in> {''repo'', ''tag'', ''binary'', ''api-base'', ''required-assets''} then Some (ValueFlag any_text) else None)"

definition verify_options :: "(string \<times> string) list \<Rightarrow> update_options" where
  "verify_options fs =
     zero_options\<lparr>uo_config := (uo_config zero_options)\<lparr>cfg_repo := flag_value fs ''repo'' [], cfg_binary := flag_value fs ''binary'' []\<rparr>,
       uo_required := str_fields (flag_value fs ''required-assets'' [])\<rparr>"

definition run_verify_release :: "platform \<Rightarrow> string list \<Rightarrow> net_world \<Rightarrow> int \<times> net_world" where
  "run_verify_release pf args w =
     (case parse_flags verify_flags args of
        None \<Rightarrow> (1, w)
      | Some (fs, rest) \<Rightarrow>
          if flag_value fs ''repo'' [] = [] \<or> flag_value fs ''tag'' [] = [] \<or> flag_value fs ''binary'' [] = [] then (1, w)
          else (case verify_release_assets pf (verify_options fs) (flag_value fs ''tag'' []) w of
                  (Inl e, w) \<Rightarrow> (1, w) | (Inr _, w) \<Rightarrow> (0, w)))"

record installer_options =
  in_repo :: string
  in_binary :: string
  in_bin_dir :: string
  in_version :: string
  in_max_download :: int
  in_max_binary :: int
  in_post :: "string list"

text \<open>\<open>strconv.ParseInt\<close> of any base is a parameter.\<close>

definition installer_flags :: "(string \<Rightarrow> int option) \<Rightarrow> string \<Rightarrow> flag_kind option" where
  "installer_flags int_of n =
     (if n \<in> {''repo'', ''binary'', ''bin-dir'', ''version''} then Some (ValueFlag any_text)
      else if n \<in> {''max-download-bytes'', ''max-binary-bytes''} then Some (ValueFlag (\<lambda>s. int_of s \<noteq> None))
      else None)"

definition default_bin_dir :: "environment \<Rightarrow> string" where
  "default_bin_dir env =
     (if trim_space (env ''XDG_BIN_HOME'') \<noteq> [] then trim_space (env ''XDG_BIN_HOME'')
      else if user_home_dir env \<noteq> [] then path_join [user_home_dir env, ''.local'', ''bin'']
      else path_join [''.local'', ''bin''])"

definition flag_int :: "(string \<Rightarrow> int option) \<Rightarrow> (string \<times> string) list \<Rightarrow> string \<Rightarrow> int" where
  "flag_int int_of fs n = (case map_of (rev fs) n of None \<Rightarrow> 0 | Some v \<Rightarrow> case_option 0 id (int_of v))"

definition parse_installer_options :: "(string \<Rightarrow> int option) \<Rightarrow> environment \<Rightarrow> string list \<Rightarrow> installer_options option" where
  "parse_installer_options int_of env args =
     (case parse_flags (installer_flags int_of) args of
        None \<Rightarrow> None
      | Some (fs, rest) \<Rightarrow>
          (let o1 = \<lparr>in_repo = flag_value fs ''repo'' [], in_binary = flag_value fs ''binary'' [],
                 in_bin_dir = flag_value fs ''bin-dir'' (default_bin_dir env), in_version = flag_value fs ''version'' [],
                 in_max_download = flag_int int_of fs ''max-download-bytes'', in_max_binary = flag_int int_of fs ''max-binary-bytes'',
                 in_post = rest\<rparr>
           in if blank (in_repo o1) \<or> blank (in_binary o1) \<or> blank (in_bin_dir o1) then None else Some o1))"

definition installer_update_options :: "installer_options \<Rightarrow> update_options" where
  "installer_update_options i =
     zero_options\<lparr>uo_config := (uo_config zero_options)
       \<lparr>cfg_repo := in_repo i, cfg_binary := in_binary i, cfg_max_download := in_max_download i, cfg_max_binary := in_max_binary i\<rparr>\<rparr>"

text \<open>\<open>exec\<close> replaces the process when the installed binary can be started; the exit code is then the binary's own.\<close>

datatype installer_end = InstallerExit int | Replaced string "string list"

definition run_installer :: "(string \<Rightarrow> int option) \<Rightarrow> host \<Rightarrow> (string \<Rightarrow> bool) \<Rightarrow> string list \<Rightarrow> Updater.updater \<Rightarrow>
    (installer_end \<times> string list) \<times> Updater.updater" where
  "run_installer int_of hs starts args u =
     (case parse_installer_options int_of (pf_env (hs_platform hs)) args of
        None \<Rightarrow> ((InstallerExit 1, []), u)
      | Some i \<Rightarrow>
          (case install_release_binary hs (installer_update_options i) (in_version i) ChannelRolling (in_bin_dir i) u of
             (Inl e, u) \<Rightarrow> ((InstallerExit 1, []), u)
           | (Inr r, u) \<Rightarrow>
               ((if in_post i = [] then InstallerExit 0
                 else if starts (ir_path r) then Replaced (ir_path r) (ir_path r # in_post i) else InstallerExit 1,
                 [''installed: '' @ ir_path r, ''tag: '' @ ir_tag r, ''asset: '' @ ir_asset r]), u)))"

section \<open>A dry run replaces nothing\<close>

lemma apply_one_dry:
  assumes world: "world_ok (up_fs u)" "steady (up_net u)" "fs_wf (w_fs (up_fs u))" and dry: "uo_dry_run opt"
    and run: "apply_one hs opt u = ((e, r), u')"
  shows "look (w_fs (up_fs u')) p = look (w_fs (up_fs u)) p \<and> file_at (w_fs (up_fs u')) p = file_at (w_fs (up_fs u)) p \<and>
    \<not> ar_applied r"
proof -
  let ?o = "resolve_options hs opt"
  obtain e1 rs where all: "apply_all hs [opt] u = ((e1, rs), u')" and r: "r = (case rs of [] \<Rightarrow> no_result | r # _ \<Rightarrow> r)"
    using run by (auto simp: apply_one_def split: prod.splits)
  show ?thesis
  proof (cases "validate_config (uo_config ?o)")
    case (Inl x)
    then show ?thesis using all r by (simp add: apply_all_def Let_def no_result_def)
  next
    case (Inr x)
    then have set_ok: "resolve_set hs [opt] = Inr [?o]" by (simp add: Let_def)
    obtain e2 u2 where locked: "apply_locked hs [?o] u = ((e2, rs), u2)" and files: "w_fs (up_fs u') = w_fs (up_fs u2)"
      using all set_ok
      by (auto simp: apply_all_def validate_apply_set_def Let_def split: prod.splits option.splits)
    obtain l w where l: "take_lock (io_state ?o) (up_net u) = (l, w)" by fastforce
    show ?thesis
    proof (cases l)
      case (Inl y)
      then show ?thesis using locked l files r by (auto simp: apply_locked_def no_result_def)
    next
      case (Inr y)
      then have s: "apply_set hs [?o] (u\<lparr>up_net := w\<rparr>) = ((e2, rs), u2)" using locked l by (simp add: apply_locked_def)
      have "steady w" using steady_same [OF take_lock_same [OF l]] world(2) by simp
      moreover have "uo_dry_run ?o" using dry by (simp add: resolve_options_def Let_def)
      ultimately have "look (w_fs (up_fs u2)) p = look (w_fs (up_fs u)) p \<and>
          file_at (w_fs (up_fs u2)) p = file_at (w_fs (up_fs u)) p \<and> list_all (\<lambda>r. \<not> ar_applied r) rs"
        using dry_run_changes_nothing [of "u\<lparr>up_net := w\<rparr>" "[?o]" hs e2 rs u2 p] world s by simp
      then show ?thesis using files r by (cases rs) (simp_all add: no_result_def)
    qed
  qed
qed

lemma dry_run_parsed:
  "parse_flags update_flags (self_update_args sf) =
     Some ((if sf_check sf then [(''check'', ''true'')] else []) @ (if sf_dry_run sf then [(''dry-run'', ''true'')] else []), [])"
  by (cases "sf_check sf"; cases "sf_dry_run sf") (simp_all add: self_update_args_def, code_simp+)

text \<open>
  C31. \<open>go-mk selfupdate --check\<close> and \<open>--dry-run\<close> change no file outside the cache and the state,
  whatever call fails other than a remove or the write of the commit marker (\<open>world_ok\<close>, \<open>steady\<close>): every path of the install directories holds afterwards what it held before.
\<close>

theorem checking_changes_nothing:
  assumes world: "world_ok (up_fs u)" "steady (up_net u)" "fs_wf (w_fs (up_fs u))" and flags: "sf_check sf \<or> sf_dry_run sf"
    and run: "run_self_update hs vi digest sf u = Some ((code, out), u')"
  shows "look (w_fs (up_fs u')) p = look (w_fs (up_fs u)) p \<and> file_at (w_fs (up_fs u')) p = file_at (w_fs (up_fs u)) p"
proof -
  let ?opt = "go_mk_options vi digest"
  let ?fs = "(if sf_check sf then [(''check'', ''true'')] else []) @ (if sf_dry_run sf then [(''dry-run'', ''true'')] else [])"
  have cmd: "run_update_command hs ?opt (self_update_args sf) u = ((code, out), u')"
    using run by (simp add: run_self_update_def split: if_splits)
  have on: "bool_flag ?fs ''check'' = sf_check sf" "bool_flag ?fs ''dry-run'' = sf_dry_run sf"
    by (simp_all add: bool_flag_def flag_value_def parse_bool_def)
  show ?thesis
  proof (cases "sf_check sf")
    case True
    then have "up_fs u' = up_fs u"
      using cmd on by (auto simp: run_update_command_def dry_run_parsed split: prod.splits sum.splits)
    then show ?thesis by simp
  next
    case False
    obtain e r where "apply_one hs (?opt\<lparr>uo_dry_run := True\<rparr>) u = ((e, r), u')"
      using cmd on flags False by (auto simp: run_update_command_def dry_run_parsed split: prod.splits option.splits)
    from apply_one_dry [OF world _ this] show ?thesis by simp
  qed
qed

theorem checking_changes_nothing_witness:
  "\<exists>code out u'. run_self_update sample_host linked_defaults None \<lparr>sf_check = False, sf_dry_run = True, sf_daemon = False\<rparr>
     sample_updater = Some ((code, out), u') \<and> file_at (w_fs (up_fs u')) ''/bin/b'' = ''old''"
proof -
  let ?sf = "\<lparr>sf_check = False, sf_dry_run = True, sf_daemon = False\<rparr>"
  obtain code out u' where run: "run_self_update sample_host linked_defaults None ?sf sample_updater = Some ((code, out), u')"
    by (metis (no_types, lifting) prod.collapse run_self_update_def self_update_flags.select_convs(3))
  have "file_at (w_fs (up_fs sample_updater)) ''/bin/b'' = ''old''" by code_simp
  then show ?thesis using run checking_changes_nothing [OF sample_updater_ok(2,3) set_ready_wf [OF sample_updater_ok(1)] _ run] by auto
qed

end
