(* ===== verification/ConsumerCheck.thy ===== *)
theory ConsumerCheck
  imports GoFlag BaselineCmd "HOL-Library.Multiset"
begin

text \<open>
  \<open>consumer-check\<close> (\<open>cmd/consumer-check/main.go\<close>): every consumer is built against every revision of the engine, and the exit
  codes are compared. Parameters: durations and numbers given as flags, the scratch directory, the time of a build and
  its text, the text of an error. The directory a command runs in is not recorded.
\<close>

section \<open>Options\<close>

record consumer_options =
  co_engine :: string
  co_revisions :: "string list"
  co_consumers :: "string list"
  co_target :: string
  co_work :: string
  co_remove :: bool
  co_in_place :: bool
  co_depth :: int

record build_result =
  br_consumer :: string
  br_revision :: string
  br_exit :: int
  br_elapsed :: int
  br_log :: string
  br_skipped :: "tool_error option"

record comparison =
  cm_consumer :: string
  cm_results :: "build_result list"
  cm_agree :: bool

record consumer_env =
  ce_duration :: "string \<Rightarrow> bool"
  ce_int :: "string \<Rightarrow> int option"
  ce_temp :: "tool_world \<Rightarrow> string option"
  ce_time :: "tool_world \<Rightarrow> int"
  ce_tenths :: "int \<Rightarrow> string"
  ce_seconds :: "int \<Rightarrow> string"
  ce_error :: "tool_error \<Rightarrow> string"

definition consumer_flags :: "consumer_env \<Rightarrow> string \<Rightarrow> flag_kind option" where
  "consumer_flags ce n =
     (if n \<in> {''engine'', ''revisions'', ''target'', ''work''} then Some (ValueFlag any_text)
      else if n = ''timeout'' then Some (ValueFlag (ce_duration ce))
      else if n = ''depth'' then Some (ValueFlag (\<lambda>s. ce_int ce s \<noteq> None))
      else if n = ''keep'' \<or> n = ''in-place'' then Some BoolFlag else None)"

definition split_list :: "string \<Rightarrow> string list" where
  "split_list s = filter (\<lambda>p. p \<noteq> []) (map trim_space (split_on (CHR '','') s))"

fun absolute_paths :: "tool_world \<Rightarrow> string list \<Rightarrow> string list option" where
  "absolute_paths w [] = Some []"
| "absolute_paths w (p # ps) =
     (case path_abs w p of None \<Rightarrow> None | Some a \<Rightarrow> map_option (\<lambda>as. a # as) (absolute_paths w ps))"

definition scratch_directory :: "consumer_env \<Rightarrow> (string \<times> string) list \<Rightarrow> tool_world \<Rightarrow> (string \<times> bool) option" where
  "scratch_directory ce fs w =
     (let work = flag_value fs ''work'' [] in
      if work \<noteq> [] then Some (work, False) else map_option (\<lambda>d. (d, \<not> bool_flag fs ''keep'')) (ce_temp ce w))"

definition resolve_consumer_options :: "consumer_env \<Rightarrow> tool_world \<Rightarrow> (string \<times> string) list \<Rightarrow> string list \<Rightarrow> consumer_options option" where
  "resolve_consumer_options ce w fs consumers =
     (case absolute_paths w consumers of
        None \<Rightarrow> None
      | Some resolved \<Rightarrow>
          if length (split_list (flag_value fs ''revisions'' [])) < 2 then None
          else (case path_abs w (flag_value fs ''engine'' ''.'') of
                  None \<Rightarrow> None
                | Some engine \<Rightarrow>
                    (case scratch_directory ce fs w of
                       None \<Rightarrow> None
                     | Some (work, drop_it) \<Rightarrow>
                         (case path_abs w work of
                            None \<Rightarrow> None
                          | Some work \<Rightarrow>
                              Some \<lparr>co_engine = engine, co_revisions = split_list (flag_value fs ''revisions'' []), co_consumers = resolved,
                                co_target = flag_value fs ''target'' ''build'', co_work = work, co_remove = drop_it,
                                co_in_place = bool_flag fs ''in-place'',
                                co_depth = (case map_of (rev fs) ''depth'' of None \<Rightarrow> 1 | Some v \<Rightarrow> case_option 0 id (ce_int ce v))\<rparr>))))"

definition parse_consumer_options :: "consumer_env \<Rightarrow> tool_world \<Rightarrow> string list \<Rightarrow> consumer_options option" where
  "parse_consumer_options ce w args =
     (case parse_flags (consumer_flags ce) args of
        None \<Rightarrow> None
      | Some (fs, consumers) \<Rightarrow> if consumers = [] then None else resolve_consumer_options ce w fs consumers)"

section \<open>The revisions\<close>

definition sanitize_char :: "char \<Rightarrow> char" where
  "sanitize_char c = (if c \<in> set ''abcdefghijklmnopqrstuvwxyzABCDEFGHIJKLMNOPQRSTUVWXYZ0123456789'' then c else CHR ''-'')"

text \<open>A character of several bytes becomes one dash.\<close>

definition sanitize :: "string \<Rightarrow> string" where
  "sanitize s = map sanitize_char (filter (\<lambda>c. \<not> continuation c) s)"

definition two_digit :: "nat \<Rightarrow> string" where
  "two_digit i = (if i < 10 then ''0'' else []) @ itoa (int i)"

definition export_path :: "consumer_options \<Rightarrow> nat \<Rightarrow> string \<Rightarrow> string" where
  "export_path co i revision = path_join [co_work co, ''engine'', two_digit i @ ''-'' @ sanitize revision]"

definition clear_tree :: "string \<Rightarrow> tool_world \<Rightarrow> bool \<times> tool_world" where
  "clear_tree path w =
     (if t_fails RemoveCall w then (False, t_tick w)
      else (True, (t_tick w)\<lparr>tw_files := (\<lambda>p. if p = path \<or> prefix (path @ ''/'') p then None else tw_files w p)\<rparr>))"

definition file_step :: "string \<Rightarrow> (tool_world \<Rightarrow> bool \<times> tool_world) \<Rightarrow> tool_world \<Rightarrow> (tool_error, unit) result \<times> tool_world" where
  "file_step path f w = (case f w of (ok, w) \<Rightarrow> (if ok then Inr () else Inl (FileError path), w))"

text \<open>Git writes the archive into tar; a failure of git counts first.\<close>

definition export_tree :: "string \<Rightarrow> string \<Rightarrow> string \<Rightarrow> tool_world \<Rightarrow> (tool_error, unit) result \<times> tool_world" where
  "export_tree repo revision destination w =
     (let archive = [''git'', ''-C'', repo, ''archive'', revision]; extract = [''tar'', ''-x'', ''-C'', destination] in
      case t_exec (tw_environ w) archive w of
        (NotStarted, w) \<Rightarrow> (Inl (CommandNotStarted archive), w)
      | (Exited status out ws, w) \<Rightarrow>
          (case t_exec (tw_environ w) extract w of
             (NotStarted, w) \<Rightarrow> (Inl (CommandNotStarted extract), w)
           | (Exited status2 out ws, w) \<Rightarrow>
               (if status \<noteq> 0 then Inl (CommandFailed archive status)
                else if status2 \<noteq> 0 then Inl (CommandFailed extract status2) else Inr (), w)))"

text \<open>Where each revision lies; of two that are written alike, the later one counts.\<close>

fun export_revisions :: "consumer_options \<Rightarrow> nat \<Rightarrow> string list \<Rightarrow> (string \<Rightarrow> string) \<Rightarrow> tool_world \<Rightarrow>
    (tool_error, string \<Rightarrow> string) result \<times> tool_world" where
  "export_revisions co i [] exports w = (Inr exports, w)"
| "export_revisions co i (r # rs) exports w =
     (let d = export_path co i r in
      t_bind (file_step d (clear_tree d)) (\<lambda>_.
      t_bind (file_step d (t_try MkdirCall)) (\<lambda>_.
      t_bind (export_tree (co_engine co) r d) (\<lambda>_. export_revisions co (Suc i) rs (exports(r := d))))) w)"

section \<open>One build\<close>

definition query_git :: "string \<Rightarrow> string list \<Rightarrow> tool_world \<Rightarrow> (tool_error, string) result \<times> tool_world" where
  "query_git dir args w =
     (let argv = [''git'', ''-C'', dir] @ args in
      case t_output argv w of
        (Inl None, w) \<Rightarrow> (Inl (CommandNotStarted argv), w)
      | (Inl (Some s), w) \<Rightarrow> (Inl (CommandFailed argv s), w)
      | (Inr out, w) \<Rightarrow> (Inr (trim_space out), w))"

definition repository_root :: "string \<Rightarrow> tool_world \<Rightarrow> (tool_error, string \<times> string) result \<times> tool_world" where
  "repository_root consumer =
     t_bind (query_git consumer [''rev-parse'', ''--show-toplevel'']) (\<lambda>top.
     t_bind (query_git consumer [''rev-parse'', ''--show-prefix'']) (\<lambda>sub. t_lift (Inr (top, trim_suffix sub ''/''))))"

definition clone_args :: "string \<Rightarrow> string \<Rightarrow> int \<Rightarrow> string list" where
  "clone_args source destination depth =
     [''git'', ''clone'', ''--quiet'', ''--recurse-submodules''] @
     (if 0 < depth then [''--depth'', itoa depth, ''--shallow-submodules'', ''file://'' @ source]
      else [''--local'', ''--no-hardlinks'', source]) @ [destination]"

definition prepare_clone :: "string \<Rightarrow> string \<Rightarrow> int \<Rightarrow> tool_world \<Rightarrow> (tool_error, unit) result \<times> tool_world" where
  "prepare_clone source destination depth =
     t_bind (file_step destination (clear_tree destination)) (\<lambda>_ w.
       case t_exec (tw_environ w) (clone_args source destination depth) w of
         (NotStarted, w) \<Rightarrow> (Inl (CommandNotStarted (clone_args source destination depth)), w)
       | (Exited status out ws, w) \<Rightarrow>
           (if status = 0 then Inr () else Inl (CommandFailed (clone_args source destination depth) status), w))"

definition dropped_settings :: "string list" where
  "dropped_settings = [''MAKEFLAGS'', ''MFLAGS'', ''MAKELEVEL'', ''GO_MK_'', ''GOLANGCI_'']"

definition build_environment :: "string list \<Rightarrow> string \<Rightarrow> string list" where
  "build_environment env engine =
     filter (\<lambda>e. case str_cut e ''='' of None \<Rightarrow> False | Some (name, v) \<Rightarrow> \<not> list_ex (\<lambda>p. prefix p name) dropped_settings) env @
     [''GO_MK_DEV_DIR='' @ engine]"

definition build_slot :: "string \<Rightarrow> nat \<Rightarrow> string \<Rightarrow> string" where
  "build_slot consumer i revision = path_base consumer @ ''-'' @ two_digit i @ ''-'' @ sanitize revision"

text \<open>The directory to build in: the consumer itself, or its part of a fresh clone.\<close>

definition build_directory :: "consumer_options \<Rightarrow> string \<Rightarrow> string \<Rightarrow> tool_world \<Rightarrow> (tool_error, string) result \<times> tool_world" where
  "build_directory co consumer slot =
     t_bind (repository_root consumer) (\<lambda>(root, sub).
       if co_in_place co then t_lift (Inr consumer)
       else (let clone = path_join [co_work co, slot] in
             t_bind (prepare_clone root clone (co_depth co)) (\<lambda>_. t_lift (Inr (path_join [clone, sub])))))"

text \<open>A command that did not start counts as exit code -1.\<close>

definition run_target :: "consumer_options \<Rightarrow> string \<Rightarrow> string \<Rightarrow> tool_world \<Rightarrow> int \<times> tool_world" where
  "run_target co engine logs w =
     (case t_exec (build_environment (tw_environ w) engine) [''make'', co_target co] w of
        (NotStarted, w) \<Rightarrow> (- 1, w)
      | (Exited status out ws, w) \<Rightarrow> (status, w\<lparr>tw_files := (tw_files w)(logs := Some out)\<rparr>))"

definition skipped_build :: "string \<Rightarrow> string \<Rightarrow> tool_error \<Rightarrow> build_result" where
  "skipped_build name revision e =
     \<lparr>br_consumer = name, br_revision = revision, br_exit = 0, br_elapsed = 0, br_log = [], br_skipped = Some e\<rparr>"

definition build_consumer :: "consumer_env \<Rightarrow> consumer_options \<Rightarrow> string \<Rightarrow> string \<Rightarrow> nat \<Rightarrow> string \<Rightarrow> tool_world \<Rightarrow> build_result \<times> tool_world" where
  "build_consumer ce co consumer revision i engine w =
     (let name = path_base consumer; slot = build_slot consumer i revision; logs = path_join [co_work co, slot @ ''.log''] in
      case t_bind (build_directory co consumer slot) (\<lambda>_. file_step logs (t_set WriteCall logs (Some []))) w of
        (Inl e, w) \<Rightarrow> (skipped_build name revision e, w)
      | (Inr _, w) \<Rightarrow>
          (case run_target co engine logs w of
             (status, v) \<Rightarrow>
               (\<lparr>br_consumer = name, br_revision = revision, br_exit = status, br_elapsed = ce_time ce v - ce_time ce w,
                 br_log = logs, br_skipped = None\<rparr>, v)))"

section \<open>The report\<close>

definition same_outcome :: "build_result \<Rightarrow> build_result \<Rightarrow> bool" where
  "same_outcome a b \<longleftrightarrow>
     (br_skipped a = None) = (br_skipped b = None) \<and> (br_skipped b = None \<longrightarrow> br_exit b = br_exit a)"

definition results_agree :: "build_result list \<Rightarrow> bool" where
  "results_agree rs = (case rs of [] \<Rightarrow> True | r # rs \<Rightarrow> list_all (same_outcome r) rs)"

definition was_measured :: "build_result list \<Rightarrow> bool" where
  "was_measured rs \<longleftrightarrow> list_ex (\<lambda>r. br_skipped r = None) rs"

definition report_one :: "consumer_env \<Rightarrow> build_result \<Rightarrow> string" where
  "report_one ce r =
     pad_right 22 (br_consumer r) @ '' '' @ pad_right 16 (br_revision r) @
     (case br_skipped r of
        Some e \<Rightarrow> '' SKIP  '' @ ce_error ce e
      | None \<Rightarrow> '' '' @ pad_right 8 (if br_exit r = 0 then ''ok'' else ''exit '' @ itoa (br_exit r)) @ '' '' @
          ce_tenths ce (br_elapsed r) @ ''s  '' @ br_log r) @ newline"

definition verdict_of :: "comparison \<Rightarrow> string" where
  "verdict_of c =
     (if \<not> was_measured (cm_results c) then ''unmeasured'' else if \<not> cm_agree c then ''DIFFERS'' else ''same'')"

definition result_part :: "consumer_env \<Rightarrow> build_result \<Rightarrow> string" where
  "result_part ce r =
     br_revision r @
     (if br_skipped r \<noteq> None then ''=skipped'' else ''=exit'' @ itoa (br_exit r) @ ''/'' @ ce_seconds ce (br_elapsed r) @ ''s'')"

definition summary_row :: "consumer_env \<Rightarrow> comparison \<Rightarrow> string" where
  "summary_row ce c =
     pad_right 22 (cm_consumer c) @ '' '' @ pad_right 10 (verdict_of c) @ '' '' @
     str_join ''  '' (map (result_part ce) (cm_results c)) @ newline"

definition disagreements :: "comparison list \<Rightarrow> nat" where
  "disagreements cs = length (filter (\<lambda>c. was_measured (cm_results c) \<and> \<not> cm_agree c) cs)"

definition unmeasured :: "comparison list \<Rightarrow> nat" where
  "unmeasured cs = length (filter (\<lambda>c. \<not> was_measured (cm_results c)) cs)"

definition same_message :: string where
  "same_message = ''every consumer exited the same on both revisions'' @ newline"

text \<open>Consumers of one name keep their order here; \<open>sort.Slice\<close> promises none.\<close>

definition report_summary :: "consumer_env \<Rightarrow> comparison list \<Rightarrow> int \<times> string" where
  "report_summary ce cs =
     (let cs = sort_key cm_consumer cs in
      (if 0 < disagreements cs then 1 else 0,
       newline @ pad_right 22 ''consumer'' @ '' '' @ pad_right 10 ''exit code'' @ '' '' @ ''per revision'' @ newline @
       concat (map (summary_row ce) cs) @ newline @
       ''Read the logs above before drawing a conclusion. A non-zero exit is as likely to be the consumer'' @ [CHR 0x27] @
       ''s own findings as a broken pipeline.'' @ newline @
       (if 0 < unmeasured cs
        then itoa (int (unmeasured cs)) @ '' consumer(s) were never measured; see the skip reason above'' @ newline else []) @
       (if 0 < disagreements cs
        then itoa (int (disagreements cs)) @ '' consumer(s) exited differently across the revisions'' @ newline else same_message)))"

fun build_revisions :: "consumer_env \<Rightarrow> consumer_options \<Rightarrow> (string \<Rightarrow> string) \<Rightarrow> string \<Rightarrow> nat \<Rightarrow> string list \<Rightarrow> tool_world \<Rightarrow>
    build_result list \<times> tool_world" where
  "build_revisions ce co exports consumer i [] w = ([], w)"
| "build_revisions ce co exports consumer i (r # rs) w =
     (case build_consumer ce co consumer r i (exports r) w of
        (b, w) \<Rightarrow> (case build_revisions ce co exports consumer (Suc i) rs (t_print (report_one ce b) w) of (bs, w) \<Rightarrow> (b # bs, w)))"

fun build_consumers :: "consumer_env \<Rightarrow> consumer_options \<Rightarrow> (string \<Rightarrow> string) \<Rightarrow> string list \<Rightarrow> tool_world \<Rightarrow>
    comparison list \<times> tool_world" where
  "build_consumers ce co exports [] w = ([], w)"
| "build_consumers ce co exports (c # cs) w =
     (case build_revisions ce co exports c 0 (co_revisions co) w of
        (rs, w) \<Rightarrow>
          (case build_consumers ce co exports cs w of
             (cms, w) \<Rightarrow> (\<lparr>cm_consumer = path_base c, cm_results = rs, cm_agree = results_agree rs\<rparr> # cms, w)))"

text \<open>The builds and the report; the comparisons are part of the answer.\<close>

definition compare_consumers :: "consumer_env \<Rightarrow> consumer_options \<Rightarrow> tool_world \<Rightarrow> (int \<times> comparison list) \<times> tool_world" where
  "compare_consumers ce co w =
     (case export_revisions co 0 (co_revisions co) (\<lambda>_. []) w of
        (Inl e, w) \<Rightarrow> ((2, []), w)
      | (Inr exports, w) \<Rightarrow>
          (case build_consumers ce co exports (co_consumers co) w of
             (cs, w) \<Rightarrow> (case report_summary ce cs of (code, s) \<Rightarrow> ((code, cs), t_print s w))))"

definition run_consumer_check :: "consumer_env \<Rightarrow> string list \<Rightarrow> tool_world \<Rightarrow> (int \<times> comparison list) \<times> tool_world" where
  "run_consumer_check ce args w =
     (case parse_consumer_options ce w args of
        None \<Rightarrow> ((2, []), w)
      | Some co \<Rightarrow>
          (let w = (if co_remove co then w else t_print (''scratch directory: '' @ co_work co @ newline) w) in
           case compare_consumers ce co w of
             (r, w) \<Rightarrow> (r, if co_remove co then snd (clear_tree (co_work co) w) else w)))"

section \<open>The verdict\<close>

lemma results_agree_cases:
  "results_agree rs \<longleftrightarrow> \<not> was_measured rs \<or> (\<exists>code. \<forall>r \<in> set rs. br_skipped r = None \<and> br_exit r = code)"
proof (cases rs)
  case (Cons r rest)
  then show ?thesis
    by (cases "br_skipped r = None") (auto simp: results_agree_def was_measured_def same_outcome_def list_all_iff list_ex_iff)
qed (simp add: results_agree_def was_measured_def)

lemma build_consumer_names:
  "build_consumer ce co consumer revision i engine w = (b, v) \<Longrightarrow> br_consumer b = path_base consumer \<and> br_revision b = revision"
  by (auto simp: build_consumer_def Let_def skipped_build_def split: prod.splits sum.splits)

lemma build_revisions_names:
  "build_revisions ce co exports consumer i rs w = (bs, v) \<Longrightarrow> map br_revision bs = rs"
  by (induction rs arbitrary: i w bs v) (fastforce split: prod.splits dest: build_consumer_names)+

lemma build_consumers_results:
  "build_consumers ce co exports cs w = (cms, v) \<Longrightarrow>
     map cm_consumer cms = map path_base cs \<and>
     (\<forall>c \<in> set cms. map br_revision (cm_results c) = co_revisions co \<and> cm_agree c = results_agree (cm_results c))"
  by (induction cs arbitrary: w cms v) (fastforce split: prod.splits dest: build_revisions_names)+

lemma disagreements_sorted: "disagreements (sort_key f cs) = disagreements cs"
proof -
  have "size (filter_mset P (mset (sort_key f cs))) = size (filter_mset P (mset cs))" for P by simp
  then show ?thesis by (metis disagreements_def mset_filter size_mset)
qed

text \<open>
  C33. \<open>consumer-check\<close> exits with 0 exactly when it ran and each consumer was either built against no revision at all or
  against every revision with one exit code; every consumer given is compared on every revision given.
\<close>

theorem consumer_check_verdict:
  assumes run: "run_consumer_check ce args w = ((code, cs), v)" and ran: "code \<noteq> 2"
  shows "\<exists>co. parse_consumer_options ce w args = Some co \<and> map cm_consumer cs = map path_base (co_consumers co) \<and>
    (\<forall>c \<in> set cs. map br_revision (cm_results c) = co_revisions co) \<and>
    (code = 0 \<longleftrightarrow> (\<forall>c \<in> set cs. (\<forall>r \<in> set (cm_results c). br_skipped r \<noteq> None) \<or>
       (\<exists>status. \<forall>r \<in> set (cm_results c). br_skipped r = None \<and> br_exit r = status)))"
proof -
  obtain co where co: "parse_consumer_options ce w args = Some co"
    using run ran by (auto simp: run_consumer_check_def split: option.splits)
  obtain w1 w2 where c: "compare_consumers ce co w1 = ((code, cs), w2)"
    using run co by (auto simp: run_consumer_check_def split: prod.splits)
  then obtain exports u1 u2 where b: "build_consumers ce co exports (co_consumers co) u1 = (cs, u2)"
      "code = fst (report_summary ce cs)"
    using ran by (auto simp: compare_consumers_def split: prod.splits sum.splits)
  note cms = build_consumers_results [OF b(1)]
  have "code = 0 \<longleftrightarrow> disagreements cs = 0"
    using b(2) by (simp add: report_summary_def Let_def disagreements_sorted)
  also have "\<dots> \<longleftrightarrow> (\<forall>c \<in> set cs. \<not> was_measured (cm_results c) \<or> results_agree (cm_results c))"
    using cms by (auto simp: disagreements_def filter_empty_conv)
  also have "\<dots> \<longleftrightarrow> (\<forall>c \<in> set cs. (\<forall>r \<in> set (cm_results c). br_skipped r \<noteq> None) \<or>
       (\<exists>status. \<forall>r \<in> set (cm_results c). br_skipped r = None \<and> br_exit r = status))"
    by (simp add: results_agree_cases was_measured_def list_ex_iff)
  finally show ?thesis using co cms by blast
qed

definition sample_consumer :: consumer_env where
  "sample_consumer =
     \<lparr>ce_duration = (\<lambda>_. True), ce_int = (\<lambda>_. None), ce_temp = (\<lambda>_. Some ''/tmp/c''), ce_time = (\<lambda>w. int (tw_clock w)),
      ce_tenths = itoa, ce_seconds = itoa, ce_error = (\<lambda>_. ''error'')\<rparr>"

definition comparing_tool :: tool_world where
  "comparing_tool = sample_tool\<lparr>tw_run := (\<lambda>n argv. Exited (if argv = [''make'', ''build''] \<and> n = 7 then 1 else 0) ''/c'' [])\<rparr>"

theorem consumer_check_verdict_witness:
  "\<exists>code cs v. run_consumer_check sample_consumer [''--revisions'', ''a,b'', ''/c''] comparing_tool = ((code, cs), v) \<and>
     code = 1 \<and> map cm_consumer cs = [''c'']"
proof -
  let ?run = "run_consumer_check sample_consumer [''--revisions'', ''a,b'', ''/c''] comparing_tool"
  have code: "fst (fst ?run) = 1" by code_simp
  obtain code cs v where run: "?run = ((code, cs), v)" by (metis prod.collapse)
  have "code \<noteq> 2" using code run by simp
  from consumer_check_verdict [OF run this] obtain co where
    co: "parse_consumer_options sample_consumer comparing_tool [''--revisions'', ''a,b'', ''/c''] = Some co"
      "map cm_consumer cs = map path_base (co_consumers co)" by blast
  have "map_option co_consumers (parse_consumer_options sample_consumer comparing_tool [''--revisions'', ''a,b'', ''/c'']) = Some [''/c'']"
    by code_simp
  moreover have "path_base ''/c'' = ''c''" by code_simp
  ultimately have "map cm_consumer cs = [''c'']" using co by simp
  then show ?thesis using run code by auto
qed

section \<open>Directories of their own\<close>

lemma two_digit_value: "all_digits (two_digit n) \<and> digits_val (two_digit n) = n"
proof -
  have "is_digit CHR ''0''" "digit_val CHR ''0'' = 0" by code_simp+
  then show ?thesis using all_digits_itoa_nat [of n] digits_val_itoa_nat [of n]
    by (auto simp: two_digit_def itoa_def all_digits_def digits_val_def)
qed

lemma two_digit_dash:
  assumes "two_digit i @ CHR ''-'' # x = two_digit j @ CHR ''-'' # y"
  shows "i = j"
proof -
  have free: "CHR ''-'' \<notin> set (two_digit n)" for n
    using two_digit_value [of n, THEN conjunct1] by (auto simp: all_digits_def is_digit_def list_all_iff)
  have eq: "two_digit i = two_digit j" using assms free_append_eq [OF free free] by blast
  have "i = digits_val (two_digit i)" by (rule two_digit_value [THEN conjunct2, symmetric])
  also have "\<dots> = digits_val (two_digit j)" by (rule arg_cong [OF eq])
  also have "\<dots> = j" by (rule two_digit_value [THEN conjunct2])
  finally show ?thesis .
qed

lemma after_last_slash_free: "slash \<notin> set x \<Longrightarrow> after_last_slash x = x" "slash \<notin> set x \<Longrightarrow> after_last_slash (y @ slash # x) = x"
  by (auto simp: after_last_slash_def takeWhile_append takeWhile_eq_all_conv intro: rev_swap [THEN iffD2])

lemma path_clean_last:
  assumes "slash \<notin> set x" "x \<noteq> []" "x \<noteq> ''.''" "x \<noteq> ''..''"
  shows "after_last_slash (path_clean (p @ slash # x)) = x"
proof -
  obtain cs where "split_on slash (p @ slash # x) = cs @ [x]"
    using split_on_snoc_part [OF assms(1)] by (metis append_Cons)
  moreover have "after_last_slash (slash # x) = x" using after_last_slash_free(2) [OF assms(1), of "[]"] by simp
  moreover have "after_last_slash (slash # y @ slash # x) = x" for y using after_last_slash_free(2) [OF assms(1), of "slash # y"] by simp
  ultimately show ?thesis
    using assms after_last_slash_free by (simp add: path_clean_def clean_comps_last str_join_snoc Let_def)
qed

lemma sanitize_no_slash: "slash \<notin> set (sanitize s)"
proof -
  have "sanitize_char c \<noteq> slash" for c by (auto simp: sanitize_char_def)
  then show ?thesis by (auto simp: sanitize_def) (metis)
qed

text \<open>No two positions of the list of revisions share a directory, even when their texts are sanitized to one name.\<close>

theorem export_paths_apart:
  assumes "export_path co i r = export_path co j q"
  shows "i = j"
proof -
  have name: "after_last_slash (export_path co n s) = two_digit n @ ''-'' @ sanitize s" for n s
  proof -
    let ?x = "two_digit n @ ''-'' @ sanitize s"
    have "slash \<notin> set (two_digit n)" using two_digit_value [of n, THEN conjunct1] by (auto simp: all_digits_def is_digit_def list_all_iff)
    then have x: "slash \<notin> set ?x" using sanitize_no_slash by auto
    have "\<exists>p. export_path co n s = path_clean (p @ slash # ?x)"
      by (cases "co_work co = []") (auto simp: export_path_def path_join_def intro: exI [of _ "''engine''"] exI [of _ "co_work co @ ''/engine''"])
    moreover have "CHR ''-'' \<in> set ?x" "CHR ''-'' \<notin> set ''.''" "CHR ''-'' \<notin> set ''..''" by simp_all
    then have "?x \<noteq> []" "?x \<noteq> ''.''" "?x \<noteq> ''..''" by (metis empty_iff empty_set)+
    ultimately show ?thesis using path_clean_last [OF x] by auto
  qed
  then have "two_digit i @ ''-'' @ sanitize r = two_digit j @ ''-'' @ sanitize q" using assms by metis
  then show ?thesis using two_digit_dash [of i "sanitize r" j "sanitize q"] by simp
qed

text \<open>Two consumers of one name share the clone and the log of a revision.\<close>

theorem one_name_one_slot: "path_base a = path_base b \<Longrightarrow> build_slot a i r = build_slot b i r"
  by (simp add: build_slot_def)

text \<open>Consumers that were never built are reported as having exited the same.\<close>

theorem nothing_measured_passes:
  "report_summary ce [\<lparr>cm_consumer = ''c'', cm_results = [skipped_build ''c'' ''a'' DecodeFailed, skipped_build ''c'' ''b'' DecodeFailed],
     cm_agree = True\<rparr>] = (0, s) \<Longrightarrow> suffix same_message s"
  by (auto simp: report_summary_def disagreements_def was_measured_def skipped_build_def Let_def suffix_def)

end
