(* ===== verification/Commands.thy ===== *)
theory Commands
  imports Mutation
begin

text \<open>
  The commands of \<open>main.go\<close> that read their own arguments (\<open>write-batch\<close>, \<open>lint-concurrency\<close>, \<open>gate\<close>; \<open>findings\<close> is in
  \<open>Findings\<close>) and \<open>resolve-bin\<close> (\<open>resolvebin.go\<close>). Parameters: the JSON of a manifest, the text of a load average, which
  files are executable or symbolic links, modification times, the tree of the sources and random names. Standard error
  is not modelled.
\<close>

datatype command_error =
    UnknownFlag string
  | FlagWithoutValue string
  | InvalidFlag string string
  | NoManifestPath
  | NoFindingsPath
  | NoBaselinePath
  | NoProbeOutput
  | Unresolved string
  | ToolProblem tool_error

type_synonym 'a command = "tool_world \<Rightarrow> (command_error, 'a) result \<times> tool_world"

definition c_bind :: "'a command \<Rightarrow> ('a \<Rightarrow> 'b command) \<Rightarrow> 'b command" where
  "c_bind m f w = (case m w of (Inl e, w) \<Rightarrow> (Inl e, w) | (Inr a, w) \<Rightarrow> f a w)"

definition c_lift :: "(command_error, 'a) result \<Rightarrow> 'a command" where "c_lift r w = (r, w)"

definition c_tool :: "(tool_world \<Rightarrow> (tool_error, 'a) result \<times> tool_world) \<Rightarrow> 'a command" where
  "c_tool m w = (case m w of (r, w) \<Rightarrow> (map_sum ToolProblem id r, w))"

definition c_file :: "string \<Rightarrow> (tool_world \<Rightarrow> bool \<times> tool_world) \<Rightarrow> unit command" where
  "c_file path f w = (case f w of (ok, w) \<Rightarrow> (if ok then Inr () else Inl (ToolProblem (FileError path)), w))"

definition command_status :: "unit command \<Rightarrow> tool_world \<Rightarrow> int \<times> tool_world" where
  "command_status m w = (case m w of (Inl e, w) \<Rightarrow> (1, w) | (Inr _, w) \<Rightarrow> (0, w))"

lemma c_bind_Inr: "c_bind m f w = (Inr b, v) \<longleftrightarrow> (\<exists>a u. m w = (Inr a, u) \<and> f a u = (Inr b, v))"
  by (auto simp: c_bind_def split: prod.splits sum.splits)

lemma c_lift_Inr: "c_lift r w = (Inr b, v) \<longleftrightarrow> r = Inr b \<and> v = w"
  by (auto simp: c_lift_def)

lemma c_file_Inr: "c_file path f w = (Inr u, v) \<longleftrightarrow> f w = (True, v)"
  by (auto simp: c_file_def split: prod.splits)

section \<open>\<open>write-batch\<close>\<close>

fun write_batch_options :: "string list \<Rightarrow> string \<times> bool \<Rightarrow> (command_error, string \<times> bool) result" where
  "write_batch_options [] o1 = Inr o1"
| "write_batch_options (a # args) o1 =
     (if a = ''--json'' then write_batch_options args (fst o1, True)
      else if a = ''--manifest'' then (case args of [] \<Rightarrow> Inl NoManifestPath | p # rest \<Rightarrow> write_batch_options rest (p, snd o1))
      else Inl (UnknownFlag a))"

text \<open>The manifest comes from a file or, as \<open>-\<close>, from standard input: its time and its components.\<close>

definition load_manifest :: "(string \<Rightarrow> (string \<times> baseline_component list) option) \<Rightarrow> string option \<Rightarrow> string \<Rightarrow>
    (string \<times> baseline_component list) command" where
  "load_manifest decode stdin path w =
     (case (if path = ''-'' then (case stdin of None \<Rightarrow> Unreadable | Some s \<Rightarrow> Content s, w) else t_read path w) of
        (Content s, w) \<Rightarrow> (case decode s of None \<Rightarrow> Inl (ToolProblem DecodeFailed) | Some m \<Rightarrow> Inr m, w)
      | (_, w) \<Rightarrow> (Inl (ToolProblem (FileError path)), w))"

definition run_write_batch :: "baseline_context \<Rightarrow> (string \<Rightarrow> (string \<times> baseline_component list) option) \<Rightarrow> string option \<Rightarrow>
    string list \<Rightarrow> unit command" where
  "run_write_batch bl decode stdin args =
     c_bind (c_lift (write_batch_options args (''-'', False))) (\<lambda>(path, json).
     c_bind (load_manifest decode stdin path) (\<lambda>(now, cs). c_tool (write_manifest bl cs now json)))"

section \<open>\<open>lint-concurrency\<close>\<close>

record concurrency_options =
  cc_goflags :: string
  cc_cpu :: "int option"
  cc_load :: "int option"
  cc_probe :: string
  cc_probe_args :: "string list"
  cc_probe_output :: string

text \<open>The load average is in hundredths.\<close>

definition assign_concurrency :: "(string \<Rightarrow> int option) \<Rightarrow> concurrency_options \<Rightarrow> string \<Rightarrow> string \<Rightarrow>
    (command_error, concurrency_options) result" where
  "assign_concurrency load_of cc a v =
     (if a = ''--goflags'' then Inr (cc\<lparr>cc_goflags := v\<rparr>)
      else if a = ''--cpu'' then (case atoi v of None \<Rightarrow> Inl (InvalidFlag a v) | Some n \<Rightarrow> Inr (cc\<lparr>cc_cpu := Some n\<rparr>))
      else if a = ''--load'' then (case load_of v of None \<Rightarrow> Inl (InvalidFlag a v) | Some n \<Rightarrow> Inr (cc\<lparr>cc_load := Some n\<rparr>))
      else if a = ''--probe'' then Inr (cc\<lparr>cc_probe := v\<rparr>)
      else if a = ''--probe-arg'' then Inr (cc\<lparr>cc_probe_args := cc_probe_args cc @ [v]\<rparr>)
      else if a = ''--probe-out'' then Inr (cc\<lparr>cc_probe_output := v\<rparr>)
      else Inl (UnknownFlag a))"

fun concurrency_arguments :: "(string \<Rightarrow> int option) \<Rightarrow> string list \<Rightarrow> concurrency_options \<Rightarrow>
    (command_error, concurrency_options) result" where
  "concurrency_arguments load_of [] cc = Inr cc"
| "concurrency_arguments load_of [a] cc = Inl (FlagWithoutValue a)"
| "concurrency_arguments load_of (a # v # args) cc =
     (case assign_concurrency load_of cc a v of Inl e \<Rightarrow> Inl e | Inr cc \<Rightarrow> concurrency_arguments load_of args cc)"

definition no_concurrency :: concurrency_options where
  "no_concurrency =
     \<lparr>cc_goflags = [], cc_cpu = None, cc_load = None, cc_probe = [], cc_probe_args = [], cc_probe_output = []\<rparr>"

definition effective_concurrency :: "concurrency_options \<Rightarrow> tool_world \<Rightarrow> int" where
  "effective_concurrency cc w =
     (if cc_cpu cc \<noteq> None \<or> cc_load cc \<noteq> None
      then resolve_concurrency (case cc_cpu cc of None \<Rightarrow> 1 | Some n \<Rightarrow> n) (case cc_load cc of None \<Rightarrow> 0 | Some l \<Rightarrow> l)
      else host_concurrency w)"

definition run_probe :: "concurrency_options \<Rightarrow> unit command" where
  "run_probe cc w =
     (if cc_probe cc = [] then (Inr (), w)
      else if cc_probe_output cc = [] then (Inl NoProbeOutput, w)
      else (case t_set WriteCall (cc_probe_output cc) (Some []) w of
              (False, w) \<Rightarrow> (Inl (ToolProblem (FileError (cc_probe_output cc))), w)
            | (True, w) \<Rightarrow>
                (case t_exec (tw_environ w) (cc_probe cc # cc_probe_args cc) w of
                   (NotStarted, w) \<Rightarrow> (Inl (ToolProblem (CommandNotStarted (cc_probe cc # cc_probe_args cc))), w)
                 | (Exited status out ws, w) \<Rightarrow>
                     (Inr (), t_println (''probe-output: '' @ cc_probe_output cc) (t_println (''probe-status: '' @ itoa status)
                        (w\<lparr>tw_files := (tw_files w)(cc_probe_output cc := Some out)\<rparr>))))))"

definition run_lint_concurrency :: "(string \<Rightarrow> int option) \<Rightarrow> string list \<Rightarrow> unit command" where
  "run_lint_concurrency load_of args =
     c_bind (c_lift (concurrency_arguments load_of args no_concurrency)) (\<lambda>cc w.
       let n = effective_concurrency cc w; goflags = (if cc_goflags cc = [] then tenv w ''GOFLAGS'' else cc_goflags cc) in
       run_probe cc (t_println (''GOFLAGS: '' @ lint_goflags goflags n) (t_println (''concurrency: '' @ itoa n) w)))"

section \<open>\<open>gate\<close>\<close>

record gate_arguments =
  ga_name :: string
  ga_findings :: string
  ga_baseline :: string
  ga_remediation :: string
  ga_exclude :: string
  ga_scope :: string

definition assign_gate :: "gate_arguments \<Rightarrow> string \<Rightarrow> string \<Rightarrow> gate_arguments" where
  "assign_gate g a v =
     (if a = ''--name'' then g\<lparr>ga_name := v\<rparr> else if a = ''--findings'' then g\<lparr>ga_findings := v\<rparr>
      else if a = ''--baseline'' then g\<lparr>ga_baseline := v\<rparr> else if a = ''--remediation'' then g\<lparr>ga_remediation := v\<rparr>
      else if a = ''--exclude'' then g\<lparr>ga_exclude := v\<rparr> else g\<lparr>ga_scope := v\<rparr>)"

definition gate_flags :: "string list" where
  "gate_flags = [''--name'', ''--findings'', ''--baseline'', ''--remediation'', ''--exclude'', ''--scope'']"

fun gate_options :: "string list \<Rightarrow> gate_arguments \<Rightarrow> (command_error, gate_arguments) result" where
  "gate_options [] g = Inr g"
| "gate_options [a] g = (if a \<in> set gate_flags then Inl (FlagWithoutValue a) else Inl (UnknownFlag a))"
| "gate_options (a # v # args) g =
     (if a \<in> set gate_flags then gate_options args (assign_gate g a v) else Inl (UnknownFlag a))"

definition gate_pattern :: "tool_world \<Rightarrow> string \<Rightarrow> string \<Rightarrow> (command_error, matcher option) result" where
  "gate_pattern w a p =
     (if p = [] then Inr None else (case tw_compile w p of None \<Rightarrow> Inl (InvalidFlag a p) | Some m \<Rightarrow> Inr (Some m)))"

definition gate_subcommand_options :: "tool_world \<Rightarrow> string list \<Rightarrow>
    (command_error, gate_arguments \<times> matcher option \<times> matcher option) result" where
  "gate_subcommand_options w args =
     (case gate_options args \<lparr>ga_name = [], ga_findings = [], ga_baseline = [], ga_remediation = [], ga_exclude = [], ga_scope = []\<rparr> of
        Inl e \<Rightarrow> Inl e
      | Inr g \<Rightarrow>
          if ga_findings g = [] then Inl NoFindingsPath
          else if ga_baseline g = [] then Inl NoBaselinePath
          else (case gate_pattern w ''--exclude'' (ga_exclude g) of
                  Inl e \<Rightarrow> Inl e
                | Inr x \<Rightarrow> (case gate_pattern w ''--scope'' (ga_scope g) of Inl e \<Rightarrow> Inl e | Inr s \<Rightarrow> Inr (g, x, s))))"

text \<open>A missing file is an error here.\<close>

definition read_findings_file :: "string \<Rightarrow> string list command" where
  "read_findings_file path w =
     (case t_read path w of
        (Content s, w) \<Rightarrow> (case scan_lines s of None \<Rightarrow> Inl (ToolProblem (FileError path)) | Some ls \<Rightarrow> Inr ls, w)
      | (_, w) \<Rightarrow> (Inl (ToolProblem (FileError path)), w))"

definition run_gate_command :: "string list \<Rightarrow> bool command" where
  "run_gate_command args w =
     c_bind (c_lift (gate_subcommand_options w args)) (\<lambda>(g, exclude, scope).
     c_bind (read_findings_file (ga_findings g)) (\<lambda>current.
     c_bind (read_findings_file (ga_baseline g)) (\<lambda>recorded w.
       let r = evaluate_gate (ga_name g) current recorded exclude scope (ga_remediation g) in
       (Inr (gr_passed r), t_print (concat (map (\<lambda>l. l @ newline) (render_gate r))) w)))) w"

definition gate_status :: "string list \<Rightarrow> tool_world \<Rightarrow> int \<times> tool_world" where
  "gate_status args w = (case run_gate_command args w of (Inr True, w) \<Rightarrow> (0, w) | (_, w) \<Rightarrow> (1, w))"

section \<open>\<open>resolve-bin\<close>\<close>

record engine_env =
  en_executable :: "tool_world \<Rightarrow> string \<Rightarrow> bool"
  en_symlink :: "tool_world \<Rightarrow> string \<Rightarrow> bool"
  en_tree :: "tool_world \<Rightarrow> string \<Rightarrow> tree option"
  en_time :: "tool_world \<Rightarrow> string \<Rightarrow> int"
  en_suffix :: "tool_world \<Rightarrow> string"
  en_staging :: "tool_world \<Rightarrow> string option"

definition engine_output_path :: "tool_world \<Rightarrow> string" where
  "engine_output_path w =
     (let root = (if trim_space (tenv w ''_GO_MK_ROOT'') \<noteq> [] then trim_space (tenv w ''_GO_MK_ROOT'') else trim_space (tenv w ''GO_MK_ROOT''))
      in if root = [] then path_join [''.make'', ''go-mk''] else path_join [root, ''.make'', ''go-mk''])"

definition missing_required_flags :: "string \<Rightarrow> tool_world \<Rightarrow> bool \<times> tool_world" where
  "missing_required_flags binary w =
     (case t_exec (tw_environ w) [binary, ''-flags''] w of
        (NotStarted, w) \<Rightarrow> (True, w)
      | (Exited status out ws, w) \<Rightarrow> (status \<noteq> 0 \<or> \<not> str_contains out ''write-batch'', w))"

text \<open>A source file newer than the binary; a directory that cannot be read ends the walk of its root.\<close>

definition newer_visitor :: "engine_env \<Rightarrow> tool_world \<Rightarrow> int \<Rightarrow> bool visitor" where
  "newer_visitor en w limit path is_dir name failed newer =
     (if failed then (WalkFailed, newer)
      else if is_dir \<or> \<not> suffix ''.go'' name \<and> name \<noteq> ''go.mod'' \<and> name \<noteq> ''go.sum'' then (Proceed, newer)
      else (Proceed, newer \<or> limit < en_time en w path))"

definition newer_below :: "engine_env \<Rightarrow> tool_world \<Rightarrow> int \<Rightarrow> string \<Rightarrow> bool" where
  "newer_below en w limit root =
     (case en_tree en w root of
        None \<Rightarrow> False | Some t \<Rightarrow> snd (walk_tree (newer_visitor en w limit) root t False))"

definition source_newer_than_engine :: "engine_env \<Rightarrow> string \<Rightarrow> string \<Rightarrow> tool_world \<Rightarrow> bool" where
  "source_newer_than_engine en repo output w =
     (tw_files w output = None \<or>
      list_ex (newer_below en w (en_time en w output))
        [path_join [repo, ''cmd'', ''go-mk''], path_join [repo, ''internal''], path_join [repo, ''go.mod''], path_join [repo, ''go.sum'']])"

definition engine_build_args :: "tool_world \<Rightarrow> string \<Rightarrow> string list" where
  "engine_build_args w temp =
     [''go'', ''build'', ''-o'', temp,
      if trim_space (tenv w ''GO_MK_BUILD_PKG'') = [] then ''./cmd/go-mk'' else trim_space (tenv w ''GO_MK_BUILD_PKG'')]"

definition drop_on_error :: "string \<Rightarrow> unit command \<Rightarrow> unit command" where
  "drop_on_error temp m w =
     (case m w of (Inl e, w) \<Rightarrow> (Inl e, snd (t_set RemoveCall temp None w)) | (Inr u, w) \<Rightarrow> (Inr u, w))"

definition engine_command :: "string list \<Rightarrow> string list \<Rightarrow> unit command" where
  "engine_command env argv w =
     (case t_exec env argv w of
        (NotStarted, w) \<Rightarrow> (Inl (ToolProblem (CommandNotStarted argv)), w)
      | (Exited status out ws, w) \<Rightarrow> (if status = 0 then Inr () else Inl (ToolProblem (CommandFailed argv status)), w))"

definition build_engine_from_repo :: "engine_env \<Rightarrow> string \<Rightarrow> string \<Rightarrow> unit command" where
  "build_engine_from_repo en repo output =
     c_bind (c_file (path_dir output) (t_try MkdirCall)) (\<lambda>_ w.
       let temp = path_join [path_dir output, path_base output @ ''.'' @ en_suffix en w] in
       c_bind (c_file temp (t_set WriteCall temp (Some []))) (\<lambda>_.
         drop_on_error temp (\<lambda>w.
           c_bind (engine_command (tw_environ w) (engine_build_args w temp)) (\<lambda>_. c_file output (t_rename temp output)) w)) w)"

definition engine_install_spec :: "tool_world \<Rightarrow> string" where
  "engine_install_spec w =
     (let s = trim_space (tenv w ''GO_MK_INSTALL'') in if s = [] then ''goodkind.io/go-makefile/cmd/go-mk@main'' else s)"

definition drop_staging :: "string \<Rightarrow> tool_world \<Rightarrow> tool_world" where
  "drop_staging path w =
     (t_tick w)\<lparr>tw_files := (\<lambda>p. if p = path \<or> prefix (path @ ''/'') p then None else tw_files w p)\<rparr>"

text \<open>The binary is installed into a directory of its own beside the output and renamed over it.\<close>

definition install_engine_binary :: "engine_env \<Rightarrow> string \<Rightarrow> unit command" where
  "install_engine_binary en output =
     c_bind (c_file (path_dir output) (t_try MkdirCall)) (\<lambda>_ w.
       case en_staging en w of
         None \<Rightarrow> (Inl (ToolProblem (FileError (path_dir output))), w)
       | Some staging \<Rightarrow>
           (let spec = engine_install_spec w in
            case c_bind (engine_command (set_env_var (tw_environ w) ''GOBIN'' staging) [''go'', ''install'', spec]) (\<lambda>_.
                   c_file output (t_rename (path_join [staging, path_base (spec_path spec)]) output)) w of
              (r, w) \<Rightarrow> (r, drop_staging staging w)))"

text \<open>Why the development build has to be made again.\<close>

definition needs_rebuild :: "engine_env \<Rightarrow> string \<Rightarrow> string \<Rightarrow> tool_world \<Rightarrow> bool \<times> tool_world" where
  "needs_rebuild en repo output w =
     (if \<not> en_executable en w output \<or> en_symlink en w output \<or> source_newer_than_engine en repo output w then (True, w)
      else missing_required_flags output w)"

definition resolve_engine_binary :: "engine_env \<Rightarrow> unit command" where
  "resolve_engine_binary en w =
     (let configured = trim_space (tenv w ''GO_MK_BIN''); output = engine_output_path w; repo = trim_space (tenv w ''GO_MK_BUILD_REPO'') in
      if configured \<noteq> [] then
        (if \<not> en_executable en w configured then (Inl (Unresolved (configured @ '' not executable'')), w)
         else (case missing_required_flags configured w of
                 (True, w) \<Rightarrow> (Inl (Unresolved (configured @ '' does not support the required capabilities'')), w)
               | (False, w) \<Rightarrow> (Inr (), w)))
      else if repo \<noteq> [] then
        (if en_tree en w repo = None then (Inr (), w)
         else (case needs_rebuild en repo output w of
                 (True, w) \<Rightarrow> build_engine_from_repo en repo output w | (False, w) \<Rightarrow> (Inr (), w)))
      else install_engine_binary en output w)"

definition selected_engine_path :: "engine_env \<Rightarrow> tool_world \<Rightarrow> string" where
  "selected_engine_path en w =
     (if trim_space (tenv w ''GO_MK_BIN'') \<noteq> [] then trim_space (tenv w ''GO_MK_BIN'')
      else if en_executable en w (engine_output_path w) then engine_output_path w else [])"

definition run_resolve_bin :: "engine_env \<Rightarrow> string option \<Rightarrow> tool_world \<Rightarrow> int \<times> tool_world" where
  "run_resolve_bin en name w =
     (if name = None \<or> name = Some ''bin'' then command_status (resolve_engine_binary en) w
      else if name = Some ''selected-bin''
      then (0, if selected_engine_path en w = [] then w else t_println (selected_engine_path en w) w)
      else (2, w))"

section \<open>What an installation of the engine leaves\<close>

lemma engine_command_ok:
  assumes "engine_command env argv w = (Inr (), v)"
  shows "\<exists>out ws. tw_run w (length (tw_ran w)) argv = Exited 0 out ws \<and> tw_files v = apply_writes ws (tw_files w)"
  using assms by (auto simp: engine_command_def t_exec_def t_tick_def Let_def split: cmd_outcome.splits if_splits)

text \<open>
  An installation of the engine that succeeds puts into place what \<open>go install\<close> wrote into the staging directory, and
  changes no other file than those the command wrote and what lies in that directory.
\<close>

theorem engine_installed:
  assumes run: "install_engine_binary en output w = (Inr (), v)"
    and apart: "\<forall>u staging. en_staging en u = Some staging \<longrightarrow> output \<noteq> staging \<and> \<not> prefix (staging @ ''/'') output \<and>
      output \<noteq> path_join [staging, path_base (spec_path (engine_install_spec w))]"
  shows "\<exists>staging out ws s. tw_run w (length (tw_ran w)) [''go'', ''install'', engine_install_spec w] = Exited 0 out ws \<and>
    apply_writes ws (tw_files w) (path_join [staging, path_base (spec_path (engine_install_spec w))]) = Some s \<and>
    tw_files v output = Some s \<and>
    (\<forall>p. p \<noteq> output \<longrightarrow> p \<notin> fst ` set ws \<longrightarrow> p \<noteq> staging \<longrightarrow> \<not> prefix (staging @ ''/'') p \<longrightarrow>
       p \<noteq> path_join [staging, path_base (spec_path (engine_install_spec w))] \<longrightarrow> tw_files v p = tw_files w p)"
proof -
  let ?spec = "engine_install_spec w"
  obtain u where u: "t_try MkdirCall w = (True, u)" using run by (auto simp: install_engine_binary_def c_bind_Inr c_file_Inr)
  have w: "tw_files u = tw_files w" "tw_run u = tw_run w" "tw_ran u = tw_ran w" "engine_install_spec u = ?spec"
    using u by (auto simp: t_try_def t_tick_def engine_install_spec_def)
  obtain staging where st: "en_staging en u = Some staging"
    using run u by (auto simp: install_engine_binary_def c_bind_def c_file_def split: option.splits)
  let ?bin = "path_join [staging, path_base (spec_path ?spec)]"
  obtain x z where m: "engine_command (set_env_var (tw_environ u) ''GOBIN'' staging) [''go'', ''install'', ?spec] u = (Inr (), x)"
      "t_rename ?bin output x = (True, z)" "v = drop_staging staging z"
    using run u st w(4)
    by (auto simp: install_engine_binary_def c_bind_def c_file_def Let_def split: prod.splits sum.splits if_splits)
  obtain out ws where ws: "tw_run w (length (tw_ran w)) [''go'', ''install'', ?spec] = Exited 0 out ws"
      "tw_files x = apply_writes ws (tw_files w)"
    using engine_command_ok [OF m(1)] w by auto
  obtain s where s: "tw_files x ?bin = Some s" "tw_files z = (tw_files x)(output := Some s, ?bin := None) \<or> ?bin = output \<and> tw_files z output = None"
    using m(2) by (auto simp: t_rename_def t_tick_def split: if_splits)
  have "output \<noteq> ?bin" using apart st by blast
  then show ?thesis
    using s ws m(3) apart st apply_writes_other [of _ ws "tw_files w"]
    by (intro exI [of _ staging] exI [of _ out] exI [of _ ws] exI [of _ s]) (auto simp: drop_staging_def t_tick_def)
qed

section \<open>What the gate command accepts\<close>

lemma read_findings_file_Inr:
  "read_findings_file path w = (Inr ls, v) \<Longrightarrow> (\<exists>s. tw_files w path = Some s \<and> scan_lines s = Some ls) \<and> tw_files v = tw_files w"
  by (auto simp: read_findings_file_def t_read_def t_tick_def split: option.splits if_splits file_read.splits prod.splits)

text \<open>
  \<open>go-mk gate\<close> exits with 0 only when both files could be read and the key of every finding that passes the patterns is
  the key of a recorded finding that passes them.
\<close>

theorem gate_command_accepts:
  assumes "gate_status args w = (0, v)"
  shows "\<exists>g exclude scope f b fs bs. gate_subcommand_options w args = Inr (g, exclude, scope) \<and>
    tw_files w (ga_findings g) = Some f \<and> scan_lines f = Some fs \<and> tw_files w (ga_baseline g) = Some b \<and> scan_lines b = Some bs \<and>
    gate_key_set (apply_filters fs exclude scope) \<subseteq> gate_key_set (apply_filters bs exclude scope)"
proof -
  have run: "run_gate_command args w = (Inr True, v)"
    using assms by (auto simp: gate_status_def split: prod.splits sum.splits bool.splits)
  then obtain g x s where p: "gate_subcommand_options w args = Inr (g, x, s)"
    by (auto simp: run_gate_command_def c_bind_Inr c_lift_Inr)
  obtain fs u bs u' where r: "read_findings_file (ga_findings g) w = (Inr fs, u)" "read_findings_file (ga_baseline g) u = (Inr bs, u')"
      "gr_passed (evaluate_gate (ga_name g) fs bs x s (ga_remediation g))"
    using run p by (auto simp: run_gate_command_def c_bind_Inr c_lift_Inr Let_def)
  show ?thesis
    using p read_findings_file_Inr [OF r(1)] read_findings_file_Inr [OF r(2)] r(3) evaluate_gate_passed by fastforce
qed

end
