(* ===== verification/Spec2Isabelle.thy ===== *)
theory Spec2Isabelle
  imports LintGate Scheduler TokenGate LintChain CacheManifest BaselineCmd MakeContract Notice Provision Mutation CiHelpers UpdateCmd ConsumerCheck Commands
begin

text \<open>
  A verification library for go-makefile, the build, lint and release tooling of Go repositories under \<open>src/\<close>.

  \<^bold>\<open>The program.\<close> \<open>cmd/go-mk\<close> is the engine a consumer repository's Makefile calls. \<open>go-mk provision\<close> puts the
  shared makefiles into \<open>.make\<close>; \<open>go-mk validate-make\<close> runs the Make that is running a second time and looks for
  recipes that replace each other; \<open>go-mk scaffold\<close> writes a repository's Makefile, workflows and tool directives;
  \<open>go-mk notice\<close> records the findings a new rule has in old code as accepted, once. \<open>go-mk build-check\<close> runs
  vet, the lint gates, govulncheck and the stub checks, each gate against a baseline of accepted findings;
  \<open>go-mk baseline\<close> rewrites baselines, behind a token; \<open>go-mk build\<close>, \<open>install\<close> and \<open>release\<close> compile, sign, archive
  and publish behind that check. \<open>go-mk ci-changed\<close> and \<open>go-mk cache-manifest\<close> serve the CI. The package
  \<open>selfupdate\<close> is the library by which an installed binary finds a release, verifies it and replaces itself and its
  companions, with a scheduler for daemons.

  \<^bold>\<open>The theories\<close>, in the order of the imports.
  \<^item> \<open>GoPrelude\<close>, \<open>GoPath\<close>: the functions of Go's \<open>strings\<close>, \<open>strconv\<close>, \<open>sort\<close>, \<open>path\<close> and \<open>path/filepath\<close> that
    the code calls; lemma collections and two locales, an order-keeping line filter and a sorted listing.
  \<^item> \<open>Findings\<close>: \<open>internal/findings\<close>, \<open>internal/baseline/key.go\<close> and \<open>findings\<close> of \<open>main.go\<close>. The scope of a diff is
    exactly the lines it adds, in a diff as \<open>git diff --unified=0\<close> writes it.
  \<^item> \<open>Baseline\<close>: the rest of \<open>internal/baseline\<close>. What the rewriter writes, the reader reads; a second update with the
    same findings changes nothing; \<open>first_added\<close> survives.
  \<^item> \<open>LintGate\<close>, \<open>LintText\<close>: \<open>internal/lintgate\<close>, the gate runs of \<open>lint.go\<close>, \<open>internal/lint\<close>. A gate passes when the key
    of every finding is in the baseline, and the baseline a rewrite leaves makes the gate pass. The locale
    \<open>baseline_store\<close> is the contract between the two.
  \<^item> \<open>InstallFs\<close>, \<open>InstallTxn\<close>: \<open>selfupdate/applyall.go\<close> and \<open>extract.go\<close> over a file system with hard and symbolic
    links, one operation per system call, each of which may fail, with every state a killed process can leave.
    After a crash outside a torn backup, recovery ends with the whole old or the whole new set. This holds for a set
    that starts clean (regular files, nothing left over), and any call may fail but a remove and the write into the
    opened commit marker: the code ignores a failed remove, and a half-written marker stays.
  \<^item> \<open>UpdateConfig\<close>, \<open>Download\<close>, \<open>Release\<close>, \<open>Updater\<close>, \<open>UpdateSafety\<close>, \<open>Scheduler\<close>: the rest of \<open>selfupdate\<close>:
    configuration and URLs, bounded downloads with retries, releases, checksums and provenance, the update of a
    set, its state file, and the daemon's rounds as a step relation. An update installs all candidates or none, and
    only verified ones, under the same conditions. A release that passes verification had every archive checked
    against its checksum and its attestation. When a round asks for a relaunch is stated for every mode.
  \<^item> \<open>Service\<close>, \<open>GoFlag\<close>, \<open>UpdateCmd\<close>: \<open>selfupdate/service.go\<close>, \<open>selfupdate/command.go\<close>, \<open>selfupdate_command.go\<close>,
    \<open>verify-release\<close> and \<open>go-mk-install\<close>. An installation that succeeds left the rendered service in its file and
    launchd answered 0, to the bootstrap or to the question whether it is loaded.
  \<^item> \<open>Tooling\<close>: the world of the \<open>go-mk\<close> commands: environment, files, commands and requests, with
    \<open>internal/capture\<close>, the platform matrix and the concurrency.
  \<^item> \<open>TokenGate\<close>: \<open>internal/gate\<close>, \<open>gate.go\<close>, \<open>gatetoken.go\<close>, \<open>ci_proof.go\<close>, \<open>build_gate.go\<close>: the gates open for the right
    token only.
  \<^item> \<open>CiChanged\<close>, \<open>Worktree\<close>, \<open>LintGates\<close>, \<open>LintChain\<close>, \<open>ScopedLint\<close>, \<open>CacheManifest\<close>, \<open>BaselineCmd\<close>, \<open>BuildCheck\<close>,
    \<open>Commands\<close>:
    the commands of \<open>ci_changed.go\<close>, \<open>nested_worktree.go\<close>, \<open>lint_gates.go\<close> and \<open>staticcheck.go\<close>, \<open>internal/report\<close> with
    \<open>checks.go\<close> and \<open>lint_chain.go\<close>, \<open>lint_scoped.go\<close>, \<open>cachemanifest.go\<close>, \<open>baseline.go\<close>, \<open>buildcheck.go\<close> with
    \<open>goversion.go\<close>, and the commands of \<open>main.go\<close> with \<open>resolvebin.go\<close>. \<open>ci-changed\<close> writes \<open>false\<close> only on
    evidence the run recorded; a build check runs every check that is due; a baseline changes only where the token
    matches the one the token command printed; the gate of staged lines judges exactly the added lines.
  \<^item> \<open>ReleaseBuild\<close>, \<open>BuildInstall\<close>: \<open>release.go\<close>, \<open>release_assets.go\<close>, \<open>cgocheck.go\<close>, \<open>platformstubcheck.go\<close>; \<open>install.go\<close>
    and \<open>reuse.go\<close>. A release is created last, from builds that succeeded in
    the same run, and holds what was archived; nothing is installed unless the check
    passed or a proof stands for it.
  \<^item> \<open>Workflow\<close>, \<open>Scaffold\<close>: \<open>scaffold.go\<close>, the edits of workflow files apart. An edit repeated changes nothing.
  \<^item> \<open>NoticeHistory\<close>, \<open>Notice\<close>: \<open>notice*.go\<close>. A notice accepts no more findings than the commit before its date had.
  \<^item> \<open>MakeContract\<close>, \<open>Provision\<close>: \<open>makecontract.go\<close> with \<open>makeargs_*.go\<close>, and \<open>provision.go\<close>. The
    validation state never describes assets that one recorded fetch did not bring.
  \<^item> \<open>Mutation\<close>, \<open>CiHelpers\<close>, \<open>ConsumerCheck\<close>: \<open>mutation.go\<close> with \<open>internal/mutation\<close>, the CI commands of
    \<open>preparesubmodules.go\<close>, \<open>joblayout.go\<close> and \<open>lintcache.go\<close>, and \<open>cmd/consumer-check\<close>, which builds consumers against two revisions and compares the outcomes.

  \<^bold>\<open>Correspondence.\<close> A definition has the name of the function it models, in snake case; a struct is a record whose
  fields carry a two-letter prefix. A \<open>string\<close> is a Go string, a list of bytes. An error is the left of a sum, its
  text shortened where nothing reads it. State is passed explicitly: \<open>tool_world\<close> for the commands, the
  network and install worlds for \<open>selfupdate\<close>. A world answers the n-th command, request or file call as an
  oracle decides, so a theorem over all worlds covers every interleaving of failures. A failed file call changes
  nothing, and the directory a command runs in is not part of its call unless the definition says so.

  \<^bold>\<open>Bounds.\<close> A chain of symbolic links is followed 41 times (\<open>link_limit\<close>), one more than the kernel does. A
  download is tried \<open>download_attempts\<close> (3) times, a signature \<open>sign_attempts\<close> (3) times, as in the code. The line
  scanners stop at 65536 and 1048576 bytes, as \<open>bufio.Scanner\<close> does under the code's buffers. The wait for the
  provisioning lock is 30 rounds of a second, where an attempt itself takes no time. The load average is in
  hundredths. A glob pattern starts with a literal part. A process may be killed between two system calls; power loss
  is not modelled. Loops that need not end (the search for a delimiter, the wait for the lock) are partial
  functions, with theorems that say when they end.

  \<^bold>\<open>Parameters\<close>, about which nothing is assumed unless a theorem names it: regular expressions, the matching of file
  patterns, the text of a floating point number, JSON, XML, base64,
  gzip and tar, SHA-1 and SHA-256, RSA, sigstore, semantic versions, \<open>go list\<close> and \<open>go/build\<close>, \<open>text/template\<close>, the Go
  parser behind the identity of a finding, date formats, random suffixes and new directories, modification times and file modes,
  directory listings, the clock, the terminal, and what the kernel says about a process.

  \<^bold>\<open>Not modelled.\<close> Standard error, log lines and the progress display. The analyzers of \<open>staticcheck/\<close> walk Go's typed
  syntax trees through \<open>go/ast\<close>, \<open>go/types\<close> and call graph packages: their input is produced by a compiler that is not
  part of the repository. The command line parser and logging of \<open>cli.go\<close>, \<open>internal/logsummary\<close> and the terminal display of
  \<open>buildcheck_tui.go\<close> are glue over libraries.
\<close>

end
